(* ===== verification/Prelude.thy ===== *)
theory Prelude
  imports Main
begin

text \<open>
  Shared vocabulary of the development: JavaScript numbers and strings as the services
  validate them, the errors the services throw, database tables as lists of rows with the
  query forms the services use (\<open>findUnique\<close>, \<open>findMany\<close>, \<open>updateMany\<close>, \<open>create\<close>), and the
  arithmetic of sums over a table of which one row changes. The lemmas on tables are
  collected in \<open>table_simps\<close>; the component theories prove their invariants with them.
\<close>

named_theorems table_simps "rewrite rules for table queries"

type_synonym id = string
type_synonym time = int \<comment> \<open>a \<open>Date\<close>, in milliseconds since the epoch\<close>

section \<open>JavaScript numbers\<close>

text \<open>
  A JavaScript number is an integer or something \<open>Number.isSafeInteger\<close> rejects whatever its
  size (a fraction, \<open>NaN\<close>, an infinity).
\<close>

datatype js_number = JsInt int | JsNonInteger

definition max_safe_integer :: int where
  "max_safe_integer = 9007199254740991"

definition is_safe_int :: "int \<Rightarrow> bool" where
  "is_safe_int n \<longleftrightarrow> - max_safe_integer \<le> n \<and> n \<le> max_safe_integer"

fun is_safe_integer :: "js_number \<Rightarrow> bool" where
  "is_safe_integer (JsInt n) = is_safe_int n"
| "is_safe_integer JsNonInteger = False"

text \<open>Truthiness of a nullable string: null and the empty string are falsy.\<close>

definition truthy :: "id option \<Rightarrow> bool" where
  "truthy s = (case s of None \<Rightarrow> False | Some t \<Rightarrow> t \<noteq> [])"

text \<open>\<open>String.prototype.trim\<close> on the one-byte characters it removes.\<close>

definition js_space :: "char \<Rightarrow> bool" where
  "js_space c \<longleftrightarrow> c \<in> {CHR '' '', CHR 0x09, CHR 0x0A, CHR 0x0B, CHR 0x0C, CHR 0x0D, CHR 0xA0}"

definition js_trim :: "string \<Rightarrow> string" where
  "js_trim s = rev (dropWhile js_space (rev (dropWhile js_space s)))"

definition starts_with :: "string \<Rightarrow> string \<Rightarrow> bool" where
  "starts_with p s \<longleftrightarrow> take (length p) s = p"

definition ends_with :: "string \<Rightarrow> string \<Rightarrow> bool" where
  "ends_with p s \<longleftrightarrow> starts_with (rev p) (rev s)"

text \<open>A number in a template string.\<close>

fun show_nat :: "nat \<Rightarrow> string" where
  "show_nat n =
     (if n < 10 then [char_of (48 + n)] else show_nat (n div 10) @ [char_of (48 + n mod 10)])"

declare show_nat.simps [simp del]

definition show_int :: "int \<Rightarrow> string" where
  "show_int n = (if n < 0 then ''-'' @ show_nat (nat (- n)) else show_nat (nat n))"

section \<open>Decimals and JSON values\<close>

text \<open>
  A finite \<open>Prisma.Decimal\<close>: an integer coefficient over a power of ten. A JSON value carries its
  numbers as the text \<open>String\<close> gives them, from which an integer can be read back exactly.
\<close>

datatype decimal = Decimal (dec_coefficient: int) (dec_scale: nat)

definition dec_positive :: "decimal \<Rightarrow> bool" where
  "dec_positive d \<longleftrightarrow> 0 < dec_coefficient d"

definition dec_negative :: "decimal \<Rightarrow> bool" where
  "dec_negative d \<longleftrightarrow> dec_coefficient d < 0"

definition dec_zero :: "decimal \<Rightarrow> bool" where
  "dec_zero d \<longleftrightarrow> dec_coefficient d = 0"

datatype json =
    JNull
  | JBool bool
  | JNumber string
  | JString string
  | JArray "json list"
  | JObject "(string \<times> json) list"

text \<open>A property of an object; \<open>None\<close> is \<open>undefined\<close>. The last of duplicate keys counts.\<close>

fun json_field :: "json \<Rightarrow> string \<Rightarrow> json option" where
  "json_field (JObject fs) k = map_of (rev fs) k"
| "json_field _ k = None"

section \<open>Errors\<close>

text \<open>
  What a service can throw. \<open>Service_Error\<close> carries the class of the error and its message,
  \<open>Concurrency_Conflict\<close> is \<open>RecoveryReservationConcurrencyConflict\<close>, and \<open>Prisma_Error\<close> is
  \<open>PrismaClientKnownRequestError\<close> with the codes the services tell apart: P2002 (unique
  constraint), P2034 (transaction conflict) and P2025 (record to update not found).
\<close>

datatype prisma_code = P2002 | P2034 | P2025

datatype error_class =
    Free_Recovery_Reservation_Error
  | Purchased_Recovery_Reservation_Error
  | Paid_Included_Recovery_Reservation_Error
  | Paid_Included_Period_Not_Current_Open
  | Promotional_Recovery_Reservation_Error
  | Recovery_Compensation_Lineage_Error
  | Effective_Billing_Policy_Error string
  | Post_Contract_Recovery_Policy_Error string
  | Recovery_Credit_Not_Committed_Error
  | Plain_Error

datatype failure =
    Service_Error error_class string
  | Concurrency_Conflict
  | Prisma_Error prisma_code

type_synonym 'a result = "failure + 'a"

section \<open>Tables\<close>

type_synonym 'r table = "'r list"

text \<open>\<open>findUnique\<close> (or \<open>findFirst\<close>): the first row that satisfies the condition.\<close>

primrec find_row :: "('r \<Rightarrow> bool) \<Rightarrow> 'r table \<Rightarrow> 'r option" where
  "find_row P [] = None"
| "find_row P (r # t) = (if P r then Some r else find_row P t)"

lemma find_row_SomeD: "find_row P t = Some r \<Longrightarrow> r \<in> set t \<and> P r"
  by (induction t) (auto split: if_splits)

lemma find_row_None_iff: "find_row P t = None \<longleftrightarrow> (\<forall>r\<in>set t. \<not> P r)"
  by (induction t) auto

lemma find_row_unique:
  assumes "r \<in> set t" "P r" "\<And>x. x \<in> set t \<Longrightarrow> P x \<Longrightarrow> x = r"
  shows "find_row P t = Some r"
proof (cases "find_row P t")
  case None
  with assms(1,2) show ?thesis by (auto simp: find_row_None_iff)
next
  case (Some x)
  then have "x = r" by (intro assms(3)) (auto dest: find_row_SomeD)
  with Some show ?thesis by simp
qed

lemma key_inj:
  assumes "distinct (map key t)" "r \<in> set t" "x \<in> set t" "key x = key r"
  shows "x = r"
  using assms by (auto simp: distinct_map dest: inj_onD)

lemma key_fresh:
  assumes "distinct (map key (r # t))" "x \<in> set t"
  shows "key x \<noteq> key r"
  using assms by (metis distinct.simps(2) image_eqI list.simps(9) set_map)

lemma find_row_key:
  assumes "distinct (map key t)" "r \<in> set t" "key r = k"
  shows "find_row (\<lambda>x. key x = k) t = Some r"
proof (rule find_row_unique)
  show "x = r" if "x \<in> set t" "key x = k" for x
    using key_inj [OF assms(1,2) that(1)] that(2) assms(3) by simp
qed (use assms in auto)

text \<open>
  \<open>updateMany\<close>: change every row that satisfies the condition and count them.
\<close>

definition update_rows :: "('r \<Rightarrow> bool) \<Rightarrow> ('r \<Rightarrow> 'r) \<Rightarrow> 'r table \<Rightarrow> 'r table" where
  "update_rows P f t = map (\<lambda>r. if P r then f r else r) t"

definition count_rows :: "('r \<Rightarrow> bool) \<Rightarrow> 'r table \<Rightarrow> nat" where
  "count_rows P t = length (filter P t)"

definition update_many :: "('r \<Rightarrow> bool) \<Rightarrow> ('r \<Rightarrow> 'r) \<Rightarrow> 'r table \<Rightarrow> nat \<times> 'r table" where
  "update_many P f t = (count_rows P t, update_rows P f t)"

text \<open>The update of the row with key \<open>k\<close>, the form every guarded update takes when it succeeds.\<close>

definition update_key :: "('r \<Rightarrow> 'k) \<Rightarrow> 'k \<Rightarrow> ('r \<Rightarrow> 'r) \<Rightarrow> 'r table \<Rightarrow> 'r table" where
  "update_key key k f t = map (\<lambda>r. if key r = k then f r else r) t"

lemma set_update_key [table_simps]:
  "x \<in> set (update_key key k f t) \<longleftrightarrow> (\<exists>r\<in>set t. x = (if key r = k then f r else r))"
  by (simp only: update_key_def set_map image_iff)

lemma map_update_key:
  assumes "\<And>r. g (f r) = g r"
  shows "map g (update_key key k f t) = map g t"
  using assms by (simp add: update_key_def)

text \<open>
  An optimistic update (\<open>updateMany\<close> on an id with further guards, \<open>count !== 1\<close> an error)
  that succeeds found the row with that id, with the guards true there, and changed that row only.
\<close>

lemma update_many_one:
  assumes "update_many (\<lambda>r. key r = k \<and> G r) f t = (n, t')" "n = 1" "distinct (map key t)"
  obtains r where "r \<in> set t" "key r = k" "G r" "t' = update_key key k f t"
proof -
  from assms(1,2) have n: "length (filter (\<lambda>r. key r = k \<and> G r) t) = 1"
    and t': "t' = update_rows (\<lambda>r. key r = k \<and> G r) f t"
    by (auto simp: update_many_def count_rows_def)
  from n obtain r where "filter (\<lambda>r. key r = k \<and> G r) t = [r]"
    by (auto simp: length_Suc_conv)
  then have "r \<in> set (filter (\<lambda>r. key r = k \<and> G r) t)" by simp
  then have r: "r \<in> set t" "key r = k" "G r" by auto
  have "t' = update_key key k f t"
    unfolding t' update_rows_def update_key_def
    using r key_inj [OF assms(3)] by (intro map_cong) auto
  with r show ?thesis by (rule that)
qed

lemma update_many_hit:
  assumes "distinct (map key t)" "r \<in> set t" "key r = k" "G r"
  shows "update_many (\<lambda>r. key r = k \<and> G r) f t = (1, update_key key k f t)"
proof -
  have "filter (\<lambda>r. key r = k \<and> G r) t = [r]"
    using assms
  proof (induction t)
    case (Cons x t)
    show ?case
    proof (cases "x = r")
      case True
      with Cons.prems have "\<forall>y\<in>set t. key y \<noteq> k" using key_fresh by metis
      with True Cons.prems show ?thesis by (auto simp: filter_empty_conv)
    next
      case False
      with Cons.prems have "key x \<noteq> k" by force
      with False Cons show ?thesis by auto
    qed
  qed simp
  moreover have "update_rows (\<lambda>r. key r = k \<and> G r) f t = update_key key k f t"
    unfolding update_rows_def update_key_def
    using assms key_inj [OF assms(1)] by (intro map_cong) auto
  ultimately show ?thesis by (simp add: update_many_def count_rows_def)
qed

lemma update_many_miss:
  assumes "distinct (map key t)" "\<And>r. r \<in> set t \<Longrightarrow> key r = k \<Longrightarrow> \<not> G r"
  shows "update_many (\<lambda>r. key r = k \<and> G r) f t = (0, t)"
  using assms(2) by (auto simp: update_many_def count_rows_def update_rows_def
      filter_empty_conv intro!: map_idI)

lemma find_key_update_key:
  assumes "\<And>x. key (f x) = key x"
  shows "find_row (\<lambda>x. key x = i) (update_key key k f t)
    = map_option (\<lambda>x. if key x = k then f x else x) (find_row (\<lambda>x. key x = i) t)"
proof (induction t)
  case (Cons x t)
  show ?case
  proof (cases "key x = i")
    case True
    then show ?thesis using assms [of x] by (simp add: update_key_def)
  next
    case False
    then have "key (if key x = k then f x else x) \<noteq> i" using assms [of x] by auto
    with False Cons show ?thesis by (simp add: update_key_def del: if_split)
  qed
qed (simp add: update_key_def)

lemma find_row_snoc: "find_row P (t @ [r]) = (case find_row P t of Some x \<Rightarrow> Some x | None \<Rightarrow> if P r then Some r else None)"
  by (induction t) auto

lemma find_row_snoc_None: "find_row P t = None \<Longrightarrow> P r \<Longrightarrow> find_row P (t @ [r]) = Some r"
  by (induction t) (auto split: if_splits)

lemma update_key_cong:
  "(\<And>x. x \<in> set t \<Longrightarrow> key x = k \<Longrightarrow> f x = g x) \<Longrightarrow> update_key key k f t = update_key key k g t"
  by (simp add: update_key_def)

lemma update_key_append: "update_key key k f (s @ t) = update_key key k f s @ update_key key k f t"
  by (simp add: update_key_def)

lemma update_key_fresh: "(\<And>x. x \<in> set t \<Longrightarrow> key x \<noteq> k) \<Longrightarrow> update_key key k f t = t"
  by (auto simp: update_key_def intro: map_idI)

text \<open>
  \<open>update\<close> by unique key: P2025 when no row has it, otherwise the row as updated.
\<close>

definition update_unique ::
  "('r \<Rightarrow> 'k) \<Rightarrow> 'k \<Rightarrow> ('r \<Rightarrow> 'r) \<Rightarrow> 'r table \<Rightarrow> ('r \<times> 'r table) result" where
  "update_unique key k f t =
     (case find_row (\<lambda>r. key r = k) t of
        None \<Rightarrow> Inl (Prisma_Error P2025)
      | Some r \<Rightarrow> Inr (f r, update_key key k f t))"

lemma update_unique_InrD:
  "update_unique key k f t = Inr (x, t') \<Longrightarrow>
     (\<exists>r\<in>set t. key r = k \<and> x = f r) \<and> t' = update_key key k f t"
  by (auto simp: update_unique_def split: option.splits dest: find_row_SomeD)

lemma update_unique_hit:
  "distinct (map key t) \<Longrightarrow> r \<in> set t \<Longrightarrow> key r = k \<Longrightarrow>
     update_unique key k f t = Inr (f r, update_key key k f t)"
  by (simp add: update_unique_def find_row_key)

text \<open>\<open>create\<close>: P2002 when the new row breaks a unique constraint of the table.\<close>

definition create_row ::
  "('r \<Rightarrow> 'r \<Rightarrow> bool) \<Rightarrow> 'r \<Rightarrow> 'r table \<Rightarrow> ('r \<times> 'r table) result" where
  "create_row clash r t =
     (if list_ex (clash r) t then Inl (Prisma_Error P2002) else Inr (r, t @ [r]))"

lemma create_row_InrD:
  "create_row clash r t = Inr (x, t') \<Longrightarrow> x = r \<and> t' = t @ [r] \<and> (\<forall>y\<in>set t. \<not> clash r y)"
  by (auto simp: create_row_def list_ex_iff split: if_splits)

section \<open>Sums over a table\<close>

definition row_sum :: "('r \<Rightarrow> int) \<Rightarrow> 'r table \<Rightarrow> int" where
  "row_sum w t = sum_list (map w t)"

lemma row_sum_simps [simp]:
  "row_sum w [] = 0" "row_sum w (r # t) = w r + row_sum w t" "row_sum w (s @ t) = row_sum w s + row_sum w t"
  by (simp_all add: row_sum_def)

lemma row_sum_cong: "(\<And>r. r \<in> set t \<Longrightarrow> w r = w' r) \<Longrightarrow> row_sum w t = row_sum w' t"
  by (induction t) auto

lemma row_sum_nonneg: "(\<And>r. r \<in> set t \<Longrightarrow> 0 \<le> w r) \<Longrightarrow> 0 \<le> row_sum w t"
  by (induction t) (auto intro: add_nonneg_nonneg)

lemma row_sum_mono: "(\<And>r. r \<in> set t \<Longrightarrow> w r \<le> w' r) \<Longrightarrow> row_sum w t \<le> row_sum w' t"
  by (induction t) (auto intro: add_mono)

lemma row_sum_zero: "(\<And>r. r \<in> set t \<Longrightarrow> w r = 0) \<Longrightarrow> row_sum w t = 0"
  by (induction t) auto

lemma row_sum_add: "row_sum (\<lambda>r. v r + w r) t = row_sum v t + row_sum w t"
  by (induction t) auto

lemma row_sum_diff: "row_sum (\<lambda>r. v r - w r) t = row_sum v t - row_sum w t"
  by (induction t) auto

lemma row_sum_member_le:
  assumes "r \<in> set t" "\<And>x. x \<in> set t \<Longrightarrow> 0 \<le> w x"
  shows "w r \<le> row_sum w t"
  using assms by (induction t) (auto simp: row_sum_nonneg add_increasing add_increasing2)

lemma row_sum_update_notin:
  "(\<And>r. r \<in> set t \<Longrightarrow> key r \<noteq> k) \<Longrightarrow> row_sum w (update_key key k f t) = row_sum w t"
  by (induction t) (auto simp: update_key_def)

text \<open>An update that keeps a condition on the row it changes commutes with the selection by it.\<close>

lemma filter_update_key:
  assumes "\<And>x. x \<in> set t \<Longrightarrow> key x = k \<Longrightarrow> P (f x) = P x"
  shows "filter P (update_key key k f t) = update_key key k f (filter P t)"
  using assms by (induction t) (auto simp: update_key_def)

text \<open>A sum changes by exactly what the one updated row contributes.\<close>

lemma row_sum_update_key:
  assumes "distinct (map key t)" "r \<in> set t" "key r = k"
  shows "row_sum w (update_key key k f t) = row_sum w t - w r + w (f r)"
  using assms
proof (induction t)
  case (Cons x t)
  show ?case
  proof (cases "x = r")
    case True
    with Cons.prems have "\<And>y. y \<in> set t \<Longrightarrow> key y \<noteq> k" using key_fresh by metis
    then have "row_sum w (update_key key k f t) = row_sum w t" by (rule row_sum_update_notin)
    with True Cons.prems show ?thesis by (simp add: update_key_def)
  next
    case False
    with Cons.prems have "key x \<noteq> k" "r \<in> set t" by force+
    with Cons have "row_sum w (update_key key k f t) = row_sum w t - w r + w (f r)" by simp
    with \<open>key x \<noteq> k\<close> show ?thesis by (simp add: update_key_def)
  qed
qed simp

end
