(* ===== verification/Store.thy ===== *)
theory Store
  imports Prelude
begin

text \<open>
  The rows the recovery-credit services read and write, one record per Prisma model, with the
  columns those services use, and the database as a record of tables. Dates are milliseconds,
  nullable columns are options, decimals that the services only create from integers are
  integers. \<open>Json\<close> and logging columns are left out. A row that \<open>create\<close> leaves a column out of
  gets that column's default, which the services rely on: a reservation starts RESERVED, a
  counter starts at zero.
\<close>

section \<open>Enumerations of the schema\<close>

datatype reservation_status = RESERVED | COMMITTED | RELEASED | AMBIGUOUS

datatype release_reason = PERIOD_CLOSED | OTHER_RELEASE_REASON

datatype compensation_disposition = RESTORED_SPENDABLE | HELD_FOR_REFUND | HISTORICAL_ONLY

datatype shop_counter_kind =
  PURCHASED_RECOVERY_CREDITS | LIFETIME_FREE_RECOVERY_CREDITS | OTHER_SHOP_COUNTER

datatype period_counter_kind = INCLUDED_RECOVERY_CREDITS | OTHER_PERIOD_COUNTER

datatype billing_period_status = OPEN | CLOSED

datatype close_reason = RENEWED_SAME_PLAN | PLAN_CHANGED | CONTRACT_ENDED

datatype billing_plan_kind = FREE | PAID_METERED

datatype platform = SHOPIFY | WOOCOMMERCE

datatype shop_status = SHOP_ACTIVE | SHOP_INACTIVE

datatype subscription_status =
    SUB_ACTIVE | SUB_TRIALING | SUB_FROZEN | SUB_SYNC_ERROR | SUB_UNMAPPED | SUB_NO_CONTRACT
  | SUB_CANCELLED

datatype lifecycle_state = LIFECYCLE_CANCELED | LIFECYCLE_OTHER

datatype purchase_status = REQUESTED | ACTIVE | WITHDRAWN | COMPLETED | REFUNDED

datatype refund_status =
    REFUND_REQUESTED | REFUND_PROVIDER_ACTION_REQUIRED | REFUND_NEEDS_ATTENTION
  | REFUND_COMPLETED | REFUND_REJECTED | REFUND_CANCELLED

datatype campaign_status = CAMPAIGN_ACTIVE | CAMPAIGN_INACTIVE

datatype target_scope = SCOPE_SHOP | SCOPE_PLAN | SCOPE_GLOBAL

datatype usage_metric =
    RECOVERY_CONVERSATION | OUTBOUND_AUTOMATED_MESSAGE | RECOVERY_CREDIT_PACK_PURCHASE
  | DELIVERED_WHATSAPP_MESSAGE

datatype report_state =
    REPORT_PENDING | REPORT_RETRYABLE | REPORT_IN_FLIGHT | REPORT_REPORTED
  | REPORT_NEEDS_ATTENTION | REPORT_NOT_APPLICABLE

datatype activation_mode = ALWAYS_ENABLED | MERCHANT_OPT_IN

datatype operation_kind = ONE_TIME_CHARGE | SUBSCRIPTION_CREATE | OTHER_OPERATION

datatype operation_state =
  AWAITING_CONFIRMATION | OUTCOME_UNKNOWN | CONFIRMED | FAILED | OTHER_OPERATION_STATE

section \<open>Rows\<close>

record reservation =
  res_id :: id
  res_shopId :: id
  res_sourceKey :: string
  res_quantity :: int
  res_status :: reservation_status
  res_counterId :: "id option"
  res_purchasedCreditPurchaseId :: "id option"
  res_promotionalCreditGrantId :: "id option"
  res_billingPeriodEntitlementCounterId :: "id option"
  res_committedUsageEventId :: "id option"
  res_releaseReason :: "release_reason option"
  res_compensationUsageEventId :: "id option"
  res_compensationReason :: "string option"
  res_compensationDisposition :: "compensation_disposition option"
  res_compensatedAt :: "time option"

record shop_counter =
  sc_id :: id
  sc_shopId :: id
  sc_counter :: shop_counter_kind
  sc_grantedQuantity :: int
  sc_committedQuantity :: int
  sc_reservedQuantity :: int
  sc_refundingQuantity :: int
  sc_version :: int

record period_counter =
  pc_id :: id
  pc_shopId :: id
  pc_billingPeriodId :: id
  pc_counter :: period_counter_kind
  pc_grantedQuantity :: int
  pc_currentAllowanceQuantity :: "int option"
  pc_committedQuantity :: int
  pc_reservedQuantity :: int
  pc_forfeitedQuantity :: int
  pc_version :: int

record billing_period =
  bp_id :: id
  bp_shopId :: id
  bp_subscriptionId :: id
  bp_planId :: "id option"
  bp_shopifyPlanHandleSnapshot :: "string option"
  bp_planNameSnapshot :: "string option"
  bp_planKindSnapshot :: "billing_plan_kind option"
  bp_includedRecoveryCreditsGranted :: "int option"
  bp_periodStart :: time
  bp_periodEnd :: time
  bp_status :: billing_period_status
  bp_closedAt :: "time option"
  bp_closeReason :: "close_reason option"

record campaign =
  ca_id :: id
  ca_status :: campaign_status
  ca_startsAt :: time
  ca_expiresAt :: time
  ca_scope :: target_scope
  ca_targetShopId :: "id option"
  ca_targetPlanId :: "id option"

record grant =
  gr_id :: id
  gr_shopId :: id
  gr_campaignId :: id
  gr_quantity :: int
  gr_committedQuantity :: int
  gr_reservedQuantity :: int
  gr_firstUsedAt :: "time option"
  gr_lastUsedAt :: "time option"
  gr_exhaustedAt :: "time option"
  gr_version :: int

record promotion_selection =
  ps_shopId :: id
  ps_promotionalCreditGrantId :: "id option"

record price_snapshot =
  wps_merchantPricingUsageEventId :: id
  wps_quotedAmountMinor :: int
  wps_quotedCurrency :: string
  wps_providerBillingIntentId :: int
  wps_providerTransactionId :: int
  wps_providerTransactionAmount :: decimal
  wps_providerAmountRefunded :: decimal

record purchase_lot =
  lot_id :: id
  lot_shopId :: id
  lot_provider :: platform
  lot_status :: purchase_status
  lot_creditsGranted :: int
  lot_currentAmount :: int
  lot_reservedAmount :: int
  lot_version :: int
  lot_activatedAt :: "time option"
  lot_createdAt :: time
  lot_providerSubscriptionIdSnapshot :: "string option"
  lot_shopifyPlanHandleSnapshot :: "string option"
  lot_billingPeriodId :: "id option"
  lot_usageEventId :: "id option"
  lot_providerReference :: "string option"
  lot_providerPurchaseAmount :: "decimal option"
  lot_providerPurchaseCurrency :: "string option"
  lot_providerValuationConfirmedAt :: "time option"
  lot_providerPriceSnapshot :: "price_snapshot option"

record refund =
  rf_id :: id
  rf_createdAt :: time
  rf_shopId :: id
  rf_purchaseId :: id
  rf_provider :: platform
  rf_status :: refund_status
  rf_reason :: "string option"
  rf_version :: int
  rf_completedAt :: "time option"
  rf_providerConfirmedAt :: "time option"
  rf_finalCreditQuantity :: "int option"
  rf_automaticCorrectionUsageEventId :: "id option"
  rf_availableAmountAtRequestSnapshot :: int
  rf_expectedProviderAmount :: "decimal option"
  rf_expectedProviderCurrency :: "string option"
  rf_providerReference :: "string option"
  rf_providerAmount :: "decimal option"
  rf_providerCurrency :: "string option"
  rf_providerActionKind :: "string option"
  rf_providerConfirmedByPlatformAdminId :: "id option"

record usage_event =
  ue_id :: id
  ue_shopId :: id
  ue_billingPeriodId :: "id option"
  ue_metric :: usage_metric
  ue_quantity :: int
  ue_idempotencyKey :: string
  ue_correctionOfUsageEventId :: "id option"
  ue_sourceType :: "string option"
  ue_sourceId :: "string option"
  ue_occurredAt :: "time option" \<comment> \<open>\<open>None\<close>: left to the column's default\<close>
  ue_provider :: platform
  ue_shopifyReportState :: report_state
  ue_shopifyEventHandle :: "string option"
  ue_shopifyIdempotencyKey :: "string option"
  ue_nextReportAt :: "time option"
  ue_lastReportAttemptAt :: "time option"
  ue_reportedAt :: "time option"
  ue_providerErrorCode :: "string option"
  ue_providerResponseSummary :: "string option"

record billing_operation =
  bo_id :: id
  bo_shopId :: id
  bo_kind :: operation_kind
  bo_state :: operation_state
  bo_providerReference :: "string option"
  bo_recoveryCreditPurchaseId :: "id option"
  bo_merchantPricingUsageEventId :: "id option"
  bo_quotedAmountMinor :: "int option"
  bo_quotedCurrency :: "string option"
  bo_lastErrorCode :: "string option"

record billing_receipt =
  wr_id :: id
  wr_topic :: string
  wr_providerContractId :: "string option"
  wr_normalizedPayload :: json
  wr_billingOperationId :: "id option"
  wr_receivedAt :: time
  wr_processedAt :: "time option"
  wr_processingError :: "string option"

record support_thread =
  st_id :: id
  st_shopId :: id
  st_lastMessageAt :: "time option"

record support_message =
  sm_id :: id
  sm_threadId :: id
  sm_sourceKey :: string
  sm_systemCode :: string
  sm_originalBody :: string
  sm_availableAt :: time

record plan_feature =
  pf_key :: string
  pf_enabled :: bool
  pf_featureActive :: bool
  pf_activationMode :: activation_mode

record plan =
  pl_id :: id
  pl_active :: bool
  pl_kind :: billing_plan_kind
  pl_name :: string
  pl_shopifyPlanHandle :: string
  pl_shopifyUsageEventHandle :: "string option"
  pl_recoveryCreditPackEnabled :: bool
  pl_recoveryCreditsPerPack :: "int option"
  pl_shopifyRecoveryCreditPackEventHandle :: "string option"
  pl_includedRecoveryConversationAllowance :: "int option"
  pl_features :: "plan_feature list"
  pl_updatedAt :: time

record shop =
  sh_id :: id
  sh_platform :: platform
  sh_status :: shop_status
  sh_onboardingCompleted :: bool

record subscription =
  su_id :: id
  su_shopId :: id
  su_status :: subscription_status
  su_planId :: "id option"
  su_providerSubscriptionId :: "string option"
  su_observedShopifyPlanHandle :: "string option"
  su_currentPeriodStart :: "time option"
  su_currentPeriodEnd :: "time option"
  su_billingPeriodId :: "id option"
  su_providerCoverageEndAt :: "time option"
  su_lastProviderLifecycleState :: "lifecycle_state option"
  su_trialEndsAt :: "time option"
  su_cancelAtPeriodEnd :: bool
  su_pendingPlanId :: "id option"
  su_pendingShopifyPlanHandle :: "string option"
  su_pendingEffectiveAt :: "time option"
  su_nextReconcileAt :: "time option"
  su_lastSyncedAt :: "time option"
  su_lastSyncErrorCode :: "string option"
  su_lastSyncErrorAt :: "time option"

record platform_policy =
  pp_defaultOutboundSoftLimit :: int
  pp_defaultOutboundHardLimit :: int
  pp_absoluteOutboundHardLimit :: int
  pp_terminalMessageReservedSlots :: int
  pp_globalPauseNewRecoveries :: bool
  pp_globalPauseAutomatedWhatsapp :: bool
  pp_lifetimeFreeRecoveryAllowance :: int
  pp_version :: int

record policy_override =
  po_shopId :: id
  po_outboundSoftLimit :: "int option"
  po_outboundHardLimit :: "int option"
  po_terminalMessageReservedSlots :: "int option"
  po_pauseNewRecoveries :: "bool option"
  po_pauseAutomatedWhatsapp :: "bool option"
  po_expiresAt :: "time option"
  po_updatedAt :: time

record feature_preference =
  fp_shopId :: id
  fp_enabled :: bool
  fp_featureKey :: string

record db =
  db_reservations :: "reservation table"
  db_shopCounters :: "shop_counter table"
  db_periodCounters :: "period_counter table"
  db_billingPeriods :: "billing_period table"
  db_grants :: "grant table"
  db_campaigns :: "campaign table"
  db_selections :: "promotion_selection table"
  db_lots :: "purchase_lot table"
  db_refunds :: "refund table"
  db_usageEvents :: "usage_event table"
  db_plans :: "plan table"
  db_shops :: "shop table"
  db_subscriptions :: "subscription table"
  db_platformPolicy :: "platform_policy option"
  db_overrides :: "policy_override table"
  db_featurePreferences :: "feature_preference table"
  db_billingOperations :: "billing_operation table"
  db_billingReceipts :: "billing_receipt table"
  db_supportThreads :: "support_thread table"
  db_supportMessages :: "support_message table"

section \<open>Functions of the shared package\<close>

text \<open>
  What the services call in \<open>@modainteract/moda-interact-shared\<close>, whose source is not in the
  repository: a parameter of every definition that calls it.
\<close>

record shared =
  createRecoveryIdempotencyKey :: "id \<Rightarrow> string \<Rightarrow> string"
  createShopifyUsageIdempotencyKey :: "id \<Rightarrow> string \<Rightarrow> string"
  availablePurchasedRecoveryCredits :: "int \<Rightarrow> int \<Rightarrow> int \<Rightarrow> int \<Rightarrow> int"
    \<comment> \<open>granted, committed, reserved, refunding\<close>
  deriveShopifyProviderContextIdentity ::
    "string option \<Rightarrow> string \<Rightarrow> time \<Rightarrow> time \<Rightarrow> string option"
    \<comment> \<open>\<open>None\<close> when it throws\<close>
  isSameShopifyPurchaseProviderContext ::
    "string \<times> string \<times> id \<Rightarrow> string \<times> string \<times> id \<Rightarrow> bool"
  billingPeriodDrainWindowMs :: int
  createMerchantBillingSystemSourceKey :: "id \<Rightarrow> string \<Rightarrow> id \<Rightarrow> string"
    \<comment> \<open>shop, system code, subject; the contract version is fixed\<close>
  refundCompletedSystemCode :: string

section \<open>Unique constraints\<close>

definition reservation_clash :: "reservation \<Rightarrow> reservation \<Rightarrow> bool" where
  "reservation_clash r s \<longleftrightarrow> res_id r = res_id s \<or> res_sourceKey r = res_sourceKey s"

definition shop_counter_clash :: "shop_counter \<Rightarrow> shop_counter \<Rightarrow> bool" where
  "shop_counter_clash c d \<longleftrightarrow>
     sc_id c = sc_id d \<or> (sc_shopId c = sc_shopId d \<and> sc_counter c = sc_counter d)"

definition usage_event_clash :: "usage_event \<Rightarrow> usage_event \<Rightarrow> bool" where
  "usage_event_clash e f \<longleftrightarrow> ue_id e = ue_id f \<or> ue_idempotencyKey e = ue_idempotencyKey f"

text \<open>The row \<open>usageEvent.create\<close> makes of the columns every recovery-credit service gives.\<close>

definition new_usage_event ::
  "id \<Rightarrow> id \<Rightarrow> int \<Rightarrow> string \<Rightarrow> string \<Rightarrow> string \<Rightarrow> platform \<Rightarrow> usage_event" where
  "new_usage_event i shopId quantity key sourceType sourceId provider =
     \<lparr>ue_id = i, ue_shopId = shopId, ue_billingPeriodId = None, ue_metric = RECOVERY_CONVERSATION,
      ue_quantity = quantity, ue_idempotencyKey = key, ue_correctionOfUsageEventId = None,
      ue_sourceType = Some sourceType, ue_sourceId = Some sourceId, ue_occurredAt = None,
      ue_provider = provider, ue_shopifyReportState = REPORT_NOT_APPLICABLE,
      ue_shopifyEventHandle = None, ue_shopifyIdempotencyKey = None, ue_nextReportAt = None,
      ue_lastReportAttemptAt = None, ue_reportedAt = None, ue_providerErrorCode = None,
      ue_providerResponseSummary = None\<rparr>"

definition new_reservation :: "id \<Rightarrow> id \<Rightarrow> string \<Rightarrow> int \<Rightarrow> reservation" where
  "new_reservation i shopId sourceKey quantity =
     \<lparr>res_id = i, res_shopId = shopId, res_sourceKey = sourceKey, res_quantity = quantity,
      res_status = RESERVED, res_counterId = None, res_purchasedCreditPurchaseId = None,
      res_promotionalCreditGrantId = None, res_billingPeriodEntitlementCounterId = None,
      res_committedUsageEventId = None, res_releaseReason = None,
      res_compensationUsageEventId = None, res_compensationReason = None,
      res_compensationDisposition = None, res_compensatedAt = None\<rparr>"

end
