(* ===== verification/Reservation_Lifecycle.thy ===== *)
theory Reservation_Lifecycle
  imports Store
begin

text \<open>
  \<open>src/services/recovery-reservation/reservation-lifecycle.ts\<close>: what the four reservation
  services share. Quantity validation, the decision whether a requested transition of a
  reservation applies or is a replay, the classification of retryable conflicts, and the retry
  loop around a serializable transaction.
\<close>

section \<open>Validation\<close>

definition DEFAULT_RECOVERY_RESERVATION_TRANSACTION_RETRIES :: nat where
  "DEFAULT_RECOVERY_RESERVATION_TRANSACTION_RETRIES = 3"

definition validate_quantity :: "js_number option \<Rightarrow> (string \<Rightarrow> failure) \<Rightarrow> int result" where
  "validate_quantity quantity createError =
     (let value = (case quantity of None \<Rightarrow> JsInt 1 | Some v \<Rightarrow> v) in
      case value of
        JsInt n \<Rightarrow>
          (if \<not> is_safe_integer value \<or> n \<le> 0
           then Inl (createError ''Reservation quantity must be a positive safe integer'')
           else Inr n)
      | JsNonInteger \<Rightarrow> Inl (createError ''Reservation quantity must be a positive safe integer''))"

definition assert_reservation_shop ::
  "reservation \<Rightarrow> id \<Rightarrow> (string \<Rightarrow> failure) \<Rightarrow> unit result" where
  "assert_reservation_shop r shopId createError =
     (if res_shopId r \<noteq> shopId then Inl (createError ''Reservation belongs to another shop'')
      else Inr ())"

section \<open>Transitions\<close>

datatype replay_kind = already_reserved | already_committed | already_released | already_ambiguous

fun replay_kind_of :: "reservation_status \<Rightarrow> replay_kind" where
  "replay_kind_of RESERVED = already_reserved"
| "replay_kind_of COMMITTED = already_committed"
| "replay_kind_of RELEASED = already_released"
| "replay_kind_of AMBIGUOUS = already_ambiguous"

datatype transition = Reactivate | Commit | Release | Ambiguous

datatype decision = Apply | Replay replay_kind

definition required_status :: "transition \<Rightarrow> reservation_status" where
  "required_status t = (if t = Reactivate then RELEASED else RESERVED)"

definition transition_decision ::
  "reservation \<Rightarrow> transition \<Rightarrow> int \<Rightarrow> (string \<Rightarrow> failure) \<Rightarrow> decision result" where
  "transition_decision r t requestedQuantity createError =
     (if t = Release \<and> res_status r = COMMITTED
      then Inl (createError ''Committed reservations cannot be released'')
      else if res_status r \<noteq> required_status t
      then Inr (Replay (replay_kind_of (res_status r)))
      else if t \<noteq> Ambiguous \<and> res_quantity r \<noteq> requestedQuantity
      then Inl (createError ''Reservation quantity does not match the requested transition'')
      else Inr Apply)"

text \<open>The status a transition that applies leads to.\<close>

fun target_status :: "transition \<Rightarrow> reservation_status" where
  "target_status Reactivate = RESERVED"
| "target_status Commit = COMMITTED"
| "target_status Release = RELEASED"
| "target_status Ambiguous = AMBIGUOUS"

section \<open>Conflicts and the retry loop\<close>

fun is_unique_conflict :: "failure \<Rightarrow> bool" where
  "is_unique_conflict (Prisma_Error c) = (c = P2002)"
| "is_unique_conflict _ = False"

fun is_retryable_conflict :: "failure \<Rightarrow> bool" where
  "is_retryable_conflict Concurrency_Conflict = True"
| "is_retryable_conflict (Prisma_Error c) = (c = P2002 \<or> c = P2034)"
| "is_retryable_conflict (Service_Error _ _) = False"

text \<open>
  The environment of a retried transaction, indexed by the attempt: what other transactions
  committed before it starts (\<open>env_step\<close>), whether the database aborts it (\<open>env_abort\<close>, the
  P2034 of serializable isolation), the time it reads and the ids the database generates for it.
\<close>

record 's env =
  env_step :: "nat \<Rightarrow> 's \<Rightarrow> 's"
  env_abort :: "nat \<Rightarrow> prisma_code option"
  env_now :: "nat \<Rightarrow> time"
  env_ids :: "nat \<Rightarrow> nat \<Rightarrow> id"

text \<open>One attempt: a transaction that fails or is aborted leaves no trace.\<close>

definition run_attempt ::
  "'s env \<Rightarrow> (nat \<Rightarrow> 's \<Rightarrow> ('a \<times> 's) result) \<Rightarrow> nat \<Rightarrow> 's \<Rightarrow> ('a \<times> 's) result" where
  "run_attempt E body n s =
     (case env_abort E n of Some c \<Rightarrow> Inl (Prisma_Error c) | None \<Rightarrow> body n s)"

function retry_from ::
  "'s env \<Rightarrow> (nat \<Rightarrow> 's \<Rightarrow> ('a \<times> 's) result) \<Rightarrow> (string \<Rightarrow> failure) \<Rightarrow> nat \<Rightarrow> nat \<Rightarrow> 's \<Rightarrow>
     'a result \<times> 's" where
  "retry_from E body createError maxRetries attempt s =
     (if attempt < maxRetries then
        (let s1 = env_step E attempt s in
         case run_attempt E body attempt s1 of
           Inr (a, s2) \<Rightarrow> (Inr a, s2)
         | Inl e \<Rightarrow>
             (if \<not> is_retryable_conflict e \<or> attempt = maxRetries - 1 then (Inl e, s1)
              else retry_from E body createError maxRetries (Suc attempt) s1))
      else (Inl (createError ''Reservation retry limit exceeded''), s))"
  by pat_completeness auto
termination
  by (relation "measure (\<lambda>(E, body, mk, m, n, s). m - n)") auto

declare retry_from.simps [simp del]

definition with_retry ::
  "'s env \<Rightarrow> (nat \<Rightarrow> 's \<Rightarrow> ('a \<times> 's) result) \<Rightarrow> (string \<Rightarrow> failure) \<Rightarrow> nat \<Rightarrow> 's \<Rightarrow>
     'a result \<times> 's" where
  "with_retry E body createError maxRetries s = retry_from E body createError maxRetries 0 s"

section \<open>Facts\<close>

lemma validate_quantity_InrD: "validate_quantity q mk = Inr n \<Longrightarrow> 0 < n \<and> is_safe_int n"
  by (auto simp: validate_quantity_def split: js_number.splits if_splits option.splits)

lemma transition_decision_Apply:
  "transition_decision r t q mk = Inr Apply \<Longrightarrow>
     res_status r = required_status t \<and> (t \<noteq> Ambiguous \<longrightarrow> res_quantity r = q)"
  by (auto simp: transition_decision_def split: if_splits)

lemma transition_decision_Replay:
  "transition_decision r t q mk = Inr (Replay k) \<Longrightarrow>
     k = replay_kind_of (res_status r) \<and> res_status r \<noteq> required_status t"
  by (auto simp: transition_decision_def split: if_splits)

lemma assert_reservation_shop_InrD: "assert_reservation_shop r s mk = Inr u \<Longrightarrow> res_shopId r = s"
  by (auto simp: assert_reservation_shop_def split: if_splits)

text \<open>
  The state the attempt \<open>n + k\<close> sees when the attempts from \<open>n\<close> on before it have failed:
  what the other transactions made of \<open>s\<close>, nothing of the failed attempts.
\<close>

primrec env_state :: "'s env \<Rightarrow> nat \<Rightarrow> nat \<Rightarrow> 's \<Rightarrow> 's" where
  "env_state E n 0 s = env_step E n s"
| "env_state E n (Suc k) s = env_state E (Suc n) k (env_step E n s)"

definition fails_retryably ::
  "'s env \<Rightarrow> (nat \<Rightarrow> 's \<Rightarrow> ('a \<times> 's) result) \<Rightarrow> nat \<Rightarrow> 's \<Rightarrow> bool" where
  "fails_retryably E body n s \<longleftrightarrow>
     (case run_attempt E body n s of Inl e \<Rightarrow> is_retryable_conflict e | Inr _ \<Rightarrow> False)"

lemma run_attempt_InrD: "run_attempt E body n s = Inr p \<Longrightarrow> body n s = Inr p"
  by (auto simp: run_attempt_def split: option.splits)

lemma retry_from_success:
  assumes "n + k < m"
    and "\<And>i. i < k \<Longrightarrow> fails_retryably E body (n + i) (env_state E n i s)"
    and "run_attempt E body (n + k) (env_state E n k s) = Inr (a, s')"
  shows "retry_from E body mk m n s = (Inr a, s')"
  using assms
proof (induction k arbitrary: n s)
  case 0
  then show ?case by (simp add: retry_from.simps [of E body mk m n s])
next
  case (Suc k)
  from Suc.prems(2) [of 0] obtain e where
    e: "run_attempt E body n (env_step E n s) = Inl e" "is_retryable_conflict e"
    by (auto simp: fails_retryably_def split: sum.splits)
  have "retry_from E body mk m (Suc n) (env_step E n s) = (Inr a, s')"
    using Suc.prems(1,3) Suc.prems(2) [of "Suc i" for i] by (intro Suc.IH) auto
  moreover have "n \<noteq> m - 1" using Suc.prems(1) by simp
  ultimately show ?case using e Suc.prems(1) by (simp add: retry_from.simps [of E body mk m n s] Let_def)
qed

lemma retry_from_failure:
  assumes "n + k < m"
    and "\<And>i. i < k \<Longrightarrow> fails_retryably E body (n + i) (env_state E n i s)"
    and "run_attempt E body (n + k) (env_state E n k s) = Inl e"
    and "\<not> is_retryable_conflict e \<or> n + k = m - 1"
  shows "retry_from E body mk m n s = (Inl e, env_state E n k s)"
  using assms
proof (induction k arbitrary: n s)
  case 0
  then show ?case by (auto simp: retry_from.simps [of E body mk m n s])
next
  case (Suc k)
  from Suc.prems(2) [of 0] obtain e' where
    e': "run_attempt E body n (env_step E n s) = Inl e'" "is_retryable_conflict e'"
    by (auto simp: fails_retryably_def split: sum.splits)
  have "retry_from E body mk m (Suc n) (env_step E n s)
      = (Inl e, env_state E (Suc n) k (env_step E n s))"
    using Suc.prems(1,3,4) Suc.prems(2) [of "Suc i" for i] by (intro Suc.IH) auto
  moreover have "n \<noteq> m - 1" using Suc.prems(1) by simp
  ultimately show ?case using e' Suc.prems(1) by (simp add: retry_from.simps [of E body mk m n s] Let_def)
qed

text \<open>
  The retry loop keeps every invariant that the transaction body and the interleaved
  transactions keep, whatever its result.
\<close>

lemma retry_from_invariant:
  assumes "I s" "\<forall>n s. I s \<longrightarrow> I (env_step E n s)"
    and "\<forall>n s a s'. I s \<longrightarrow> body n s = Inr (a, s') \<longrightarrow> I s'"
  shows "I (snd (retry_from E body mk m n s))"
  using assms
proof (induction E body mk m n s rule: retry_from.induct)
  case (1 E body mk m n s)
  show ?case
  proof (cases "n < m")
    case True
    let ?s1 = "env_step E n s"
    from "1.prems" have s1: "I ?s1" by blast
    show ?thesis
    proof (cases "run_attempt E body n ?s1")
      case (Inl e)
      with True s1 "1.IH" [OF True refl Inl] "1.prems" show ?thesis
        by (auto simp: retry_from.simps [of E body mk m n s] Let_def)
    next
      case (Inr p)
      then have "body n ?s1 = Inr p" by (rule run_attempt_InrD)
      with s1 "1.prems"(3) have "I (snd p)" by (metis prod.collapse)
      with True Inr show ?thesis
        by (simp add: retry_from.simps [of E body mk m n s] Let_def split_beta)
    qed
  next
    case False
    with "1.prems" show ?thesis by (simp add: retry_from.simps [of E body mk m n s])
  qed
qed

lemma with_retry_invariant:
  assumes "I s" "\<And>n s. I s \<Longrightarrow> I (env_step E n s)"
    and "\<And>n s a s'. I s \<Longrightarrow> body n s = Inr (a, s') \<Longrightarrow> I s'"
  shows "I (snd (with_retry E body mk m s))"
  unfolding with_retry_def
proof (rule retry_from_invariant [where I = I, OF assms(1)])
  show "\<forall>n s. I s \<longrightarrow> I (env_step E n s)" using assms(2) by simp
  show "\<forall>n s a s'. I s \<longrightarrow> body n s = Inr (a, s') \<longrightarrow> I s'" using assms(3) by simp
qed

text \<open>A result comes from one attempt, on a state the other transactions left.\<close>

lemma retry_from_InrD:
  assumes "retry_from E body mk m n s = (Inr a, s')" "I s" "\<forall>n s. I s \<longrightarrow> I (env_step E n s)"
  shows "\<exists>i s1. I s1 \<and> body i s1 = Inr (a, s')"
  using assms
proof (induction E body mk m n s rule: retry_from.induct)
  case (1 E body mk m n s)
  from "1.prems"(1) have m: "n < m" by (auto simp: retry_from.simps [of E body mk m n s] split: if_splits)
  let ?s1 = "env_step E n s"
  have s1: "I ?s1" using "1.prems"(2,3) by blast
  show ?case
  proof (cases "run_attempt E body n ?s1")
    case (Inl e)
    with m "1.prems"(1) have rec: "retry_from E body mk m (Suc n) ?s1 = (Inr a, s')"
      "\<not> (\<not> is_retryable_conflict e \<or> n = m - 1)"
      by (auto simp: retry_from.simps [of E body mk m n s] Let_def split: if_splits)
    from "1.IH" [OF m refl Inl rec(2,1) s1 "1.prems"(3)] show ?thesis .
  next
    case (Inr p)
    with m "1.prems"(1) have "p = (a, s')"
      by (cases p) (auto simp: retry_from.simps [of E body mk m n s] Let_def)
    with Inr s1 run_attempt_InrD [of E body n ?s1] show ?thesis by blast
  qed
qed

end
