(* ===== verification/Billing_Policy.thy ===== *)
theory Billing_Policy
  imports Reservation_Lifecycle
begin

text \<open>
  The billing policy of a shop: \<open>billing-policy/outbound-limits.ts\<close>,
  \<open>recovery-billing/paid-included-allowance.ts\<close>, \<open>recovery-billing/usage-event-provider.ts\<close>,
  \<open>effective-billing-policy.service.ts\<close> and \<open>post-contract-recovery-policy.service.ts\<close>, as
  functions of the database and the time.
\<close>

section \<open>Outbound limits\<close>

type_synonym config_error = "id \<Rightarrow> string \<Rightarrow> failure"

definition validate_minimum_integer ::
  "id \<Rightarrow> string \<Rightarrow> int \<Rightarrow> nat \<Rightarrow> config_error \<Rightarrow> int result" where
  "validate_minimum_integer shopId label value minimum invalid =
     (if \<not> is_safe_int value \<or> value < int minimum
      then Inl (invalid shopId (label @ '' must be a finite integer of at least '' @ show_nat minimum))
      else Inr value)"

text \<open>A nullable override is validated only when it is present.\<close>

definition validate_optional_minimum ::
  "id \<Rightarrow> string \<Rightarrow> int option \<Rightarrow> nat \<Rightarrow> config_error \<Rightarrow> unit result" where
  "validate_optional_minimum shopId label value minimum invalid =
     (case value of None \<Rightarrow> Inr ()
      | Some v \<Rightarrow>
          (case validate_minimum_integer shopId label v minimum invalid of
             Inl e \<Rightarrow> Inl e | Inr _ \<Rightarrow> Inr ()))"

definition nullish :: "'a option \<Rightarrow> 'a \<Rightarrow> 'a" where
  "nullish v d = (case v of None \<Rightarrow> d | Some x \<Rightarrow> x)"

definition resolve_outbound_limits ::
  "id \<Rightarrow> int \<Rightarrow> int \<Rightarrow> int \<Rightarrow> policy_override option \<Rightarrow> config_error \<Rightarrow> (int \<times> int) result" where
  "resolve_outbound_limits shopId platformSoft platformDefaultHard absoluteHard override invalid =
     (case validate_minimum_integer shopId ''platform soft limit'' platformSoft 1 invalid of
        Inl e \<Rightarrow> Inl e
      | Inr pSoft \<Rightarrow>
     (case validate_minimum_integer shopId ''platform default hard limit'' platformDefaultHard 2 invalid of
        Inl e \<Rightarrow> Inl e
      | Inr pHard \<Rightarrow>
     (case validate_minimum_integer shopId ''platform absolute hard limit'' absoluteHard 2 invalid of
        Inl e \<Rightarrow> Inl e
      | Inr aHard \<Rightarrow>
     (if pSoft > pHard then Inl (invalid shopId ''platform soft limit exceeds platform hard limit'')
      else
       let oHard = Option.bind override po_outboundHardLimit;
           oSoft = Option.bind override po_outboundSoftLimit in
     (case validate_optional_minimum shopId ''shop hard limit'' oHard 2 invalid of
        Inl e \<Rightarrow> Inl e
      | Inr _ \<Rightarrow>
     (case validate_optional_minimum shopId ''shop soft limit'' oSoft 1 invalid of
        Inl e \<Rightarrow> Inl e
      | Inr _ \<Rightarrow>
     (if (case (oSoft, oHard) of (Some s, Some h) \<Rightarrow> s > h | _ \<Rightarrow> False)
      then Inl (invalid shopId ''shop soft limit exceeds shop hard limit'')
      else
       let requestedHard = nullish oHard pHard;
           hard = min requestedHard aHard;
           requestedSoft = nullish oSoft pSoft;
           soft = min requestedSoft hard in
       (if soft < 1 \<or> hard < 2 \<or> soft > hard
        then Inl (invalid shopId ''effective outbound limits are invalid'')
        else Inr (soft, hard)))))))))"

definition validate_terminal_slots :: "id \<Rightarrow> int \<Rightarrow> int \<Rightarrow> config_error \<Rightarrow> int result" where
  "validate_terminal_slots shopId value effectiveHardLimit invalid =
     (if \<not> is_safe_int value \<or> value < 1 \<or> value \<ge> effectiveHardLimit
      then Inl (invalid shopId
        ''terminalMessageReservedSlots must be at least 1 and less than the effective hard limit'')
      else Inr value)"

section \<open>The paid-included allowance of a period\<close>

definition available_paid_included :: "period_counter \<Rightarrow> int" where
  "available_paid_included c =
     (let allowance = nullish (pc_currentAllowanceQuantity c) (pc_grantedQuantity c) in
      max (allowance - pc_committedQuantity c - pc_reservedQuantity c - pc_forfeitedQuantity c) 0)"

definition is_valid_paid_included :: "period_counter \<Rightarrow> bool" where
  "is_valid_paid_included c =
     (if list_ex (\<lambda>v. \<not> is_safe_int v \<or> v < 0)
           [pc_grantedQuantity c, pc_committedQuantity c, pc_reservedQuantity c, pc_forfeitedQuantity c]
      then False
      else if pc_committedQuantity c + pc_reservedQuantity c + pc_forfeitedQuantity c
                > pc_grantedQuantity c
      then False
      else (case pc_currentAllowanceQuantity c of
              None \<Rightarrow> True
            | Some a \<Rightarrow> is_safe_int a \<and> 0 \<le> a \<and> a \<le> pc_grantedQuantity c))"

definition resolve_recovery_usage_provider :: "db \<Rightarrow> id \<Rightarrow> platform result" where
  "resolve_recovery_usage_provider d shopId =
     (case find_row (\<lambda>s. sh_id s = shopId) (db_shops d) of
        None \<Rightarrow> Inl (Service_Error Plain_Error (''Shop '' @ shopId @ '' does not exist''))
      | Some s \<Rightarrow> Inr (sh_platform s))"

section \<open>The effective policy of a shop under contract\<close>

datatype period_phase = PHASE_ACTIVE | PHASE_DRAINING | PHASE_EXPIRED_RECONCILING

record free_allowance =
  fa_grant :: int
  fa_effective :: int
  fa_committed :: int
  fa_reserved :: int
  fa_remaining :: int

record period_projection =
  pj_period :: billing_period
  pj_phase :: period_phase
  pj_includedCounter :: period_counter

record credit_pack =
  cp_creditsPerPack :: int
  cp_shopifyEventHandle :: string
  cp_includedAllowance :: "int option"

datatype pause_reason =
    GLOBAL_NEW_RECOVERIES_PAUSED | SHOP_NEW_RECOVERIES_PAUSED
  | GLOBAL_AUTOMATED_WHATSAPP_PAUSED | SHOP_AUTOMATED_WHATSAPP_PAUSED

record effective_policy =
  ep_shopId :: id
  ep_platform :: platform
  ep_subscriptionId :: id
  ep_subscriptionStatus :: subscription_status
  ep_providerCoverageEndAt :: "time option"
  ep_planId :: id
  ep_planHandle :: string
  ep_planKind :: billing_plan_kind
  ep_features :: "string list"
  ep_freeAllowance :: free_allowance
  ep_shopifyUsageEventHandle :: "string option"
  ep_billingPeriod :: "period_projection option"
  ep_recoveryCreditPack :: "credit_pack option"
  ep_outboundSoftLimit :: int
  ep_outboundHardLimit :: int
  ep_terminalMessageReservedSlots :: int
  ep_newRecoveriesPaused :: bool
  ep_automatedWhatsappPaused :: bool
  ep_paused :: bool
  ep_pauseReasons :: "pause_reason list"
  ep_policyVersions :: "int \<times> time option \<times> time"

definition policy_error :: "string \<Rightarrow> string \<Rightarrow> failure" where
  "policy_error reason message = Service_Error (Effective_Billing_Policy_Error reason) message"

definition invalid_configuration :: config_error where
  "invalid_configuration shopId detail =
     policy_error ''INVALID_CONFIGURATION''
       (''Invalid billing policy for shop '' @ shopId @ '': '' @ detail)"

definition resolve_credit_pack_configuration :: "plan \<Rightarrow> (int \<times> string) option" where
  "resolve_credit_pack_configuration p =
     (if \<not> pl_recoveryCreditPackEnabled p then None
      else (case pl_recoveryCreditsPerPack p of
        None \<Rightarrow> None
      | Some creditsPerPack \<Rightarrow>
         (if \<not> is_safe_int creditsPerPack \<or> creditsPerPack \<le> 0 then None
          else (case map_option js_trim (pl_shopifyRecoveryCreditPackEventHandle p) of
            None \<Rightarrow> None
          | Some eventHandle \<Rightarrow>
             (if eventHandle = [] then None
              else if Some eventHandle = pl_shopifyUsageEventHandle p then None
              else if pl_kind p = PAID_METERED \<and>
                      (case pl_includedRecoveryConversationAllowance p of
                         None \<Rightarrow> True | Some a \<Rightarrow> \<not> is_safe_int a \<or> a < 0)
              then None
              else Some (creditsPerPack, eventHandle))))))"

definition validate_non_negative :: "id \<Rightarrow> string \<Rightarrow> int \<Rightarrow> int result" where
  "validate_non_negative shopId label value =
     (if \<not> is_safe_int value \<or> value < 0
      then Inl (invalid_configuration shopId (label @ '' must be a finite non-negative integer''))
      else Inr value)"

definition resolve_free_allowance :: "id \<Rightarrow> int \<Rightarrow> int \<Rightarrow> int \<Rightarrow> free_allowance result" where
  "resolve_free_allowance shopId grant committed reserved =
     (case validate_non_negative shopId ''lifetime Free grant'' grant of Inl e \<Rightarrow> Inl e
      | Inr g \<Rightarrow>
     (case validate_non_negative shopId ''committed lifetime Free credits'' committed of Inl e \<Rightarrow> Inl e
      | Inr c \<Rightarrow>
     (case validate_non_negative shopId ''reserved lifetime Free credits'' reserved of Inl e \<Rightarrow> Inl e
      | Inr r \<Rightarrow>
     (if c + r > g
      then Inl (invalid_configuration shopId
        ''committed and reserved lifetime Free credits exceed the lifetime Free grant'')
      else Inr \<lparr>fa_grant = g, fa_effective = g, fa_committed = c, fa_reserved = r,
                fa_remaining = g - c - r\<rparr>))))"

definition validate_paid_billing_period ::
  "id \<Rightarrow> subscription \<Rightarrow> billing_period option \<Rightarrow> period_counter option \<Rightarrow>
     (billing_period \<times> period_counter) result" where
  "validate_paid_billing_period shopId sub period counter =
     (case period of
        None \<Rightarrow> Inl (invalid_configuration shopId
                 ''paid billing period projection is missing or inconsistent'')
      | Some p \<Rightarrow>
     (if \<not> truthy (su_billingPeriodId sub) \<or> su_currentPeriodStart sub = None \<or>
         su_currentPeriodEnd sub = None \<or> Some (bp_id p) \<noteq> su_billingPeriodId sub \<or>
         bp_shopId p \<noteq> shopId \<or> bp_subscriptionId p \<noteq> su_id sub \<or> bp_status p \<noteq> OPEN \<or>
         Some (bp_periodStart p) \<noteq> su_currentPeriodStart sub \<or>
         Some (bp_periodEnd p) \<noteq> su_currentPeriodEnd sub
      then Inl (invalid_configuration shopId
                 ''paid billing period projection is missing or inconsistent'')
      else (case counter of
        None \<Rightarrow> Inl (invalid_configuration shopId
                 ''paid included recovery counter is missing or inconsistent'')
      | Some c \<Rightarrow>
         (if pc_shopId c \<noteq> shopId \<or> pc_billingPeriodId c \<noteq> bp_id p
          then Inl (invalid_configuration shopId
                 ''paid included recovery counter is missing or inconsistent'')
          else if \<not> is_valid_paid_included c
          then Inl (invalid_configuration shopId
                 ''paid included recovery counter quantities exceed the grant'')
          else Inr (p, c)))))"

definition billing_period_phase :: "int \<Rightarrow> time \<Rightarrow> time \<Rightarrow> time option \<Rightarrow> period_phase" where
  "billing_period_phase drainWindow periodEnd now providerCoverageEndAt =
     (let effectivePeriodEnd =
        (case providerCoverageEndAt of
           Some e \<Rightarrow> if e < periodEnd then e else periodEnd
         | None \<Rightarrow> periodEnd) in
      if now \<ge> effectivePeriodEnd then PHASE_EXPIRED_RECONCILING
      else if now \<ge> effectivePeriodEnd - drainWindow then PHASE_DRAINING
      else PHASE_ACTIVE)"

text \<open>The features of the plan that are on for the shop, in the order of the plan.\<close>

definition effective_features :: "plan \<Rightarrow> feature_preference list \<Rightarrow> string list" where
  "effective_features p preferences =
     (let optedIn = map fp_featureKey (filter fp_enabled preferences) in
      remdups (map pf_key (filter (\<lambda>m.
        pf_enabled m \<and> pf_featureActive m \<and>
        (pf_activationMode m = ALWAYS_ENABLED \<or>
         (pf_activationMode m = MERCHANT_OPT_IN \<and> pf_key m \<in> set optedIn))) (pl_features p))))"

definition active_override :: "db \<Rightarrow> id \<Rightarrow> time \<Rightarrow> policy_override option" where
  "active_override d shopId now =
     (case find_row (\<lambda>r. po_shopId r = shopId) (db_overrides d) of
        None \<Rightarrow> None
      | Some r \<Rightarrow>
          (if (case po_expiresAt r of None \<Rightarrow> True | Some e \<Rightarrow> e > now) then Some r else None))"

definition is_paused :: "bool \<Rightarrow> (policy_override \<Rightarrow> bool option) \<Rightarrow> policy_override option \<Rightarrow> bool" where
  "is_paused global sel override \<longleftrightarrow> global \<or> Option.bind override sel = Some True"

text \<open>The subscription of a shop with what \<open>include\<close> joins to it.\<close>

definition subscription_plan :: "db \<Rightarrow> subscription \<Rightarrow> plan option" where
  "subscription_plan d sub =
     (case su_planId sub of None \<Rightarrow> None | Some i \<Rightarrow> find_row (\<lambda>p. pl_id p = i) (db_plans d))"

definition subscription_period :: "db \<Rightarrow> subscription \<Rightarrow> billing_period option" where
  "subscription_period d sub =
     (case su_billingPeriodId sub of
        None \<Rightarrow> None | Some i \<Rightarrow> find_row (\<lambda>p. bp_id p = i) (db_billingPeriods d))"

definition included_counter :: "db \<Rightarrow> id \<Rightarrow> period_counter option" where
  "included_counter d periodId =
     find_row (\<lambda>c. pc_billingPeriodId c = periodId \<and> pc_counter c = INCLUDED_RECOVERY_CREDITS)
       (db_periodCounters d)"

definition frozen_woo_paid :: "subscription \<Rightarrow> platform \<Rightarrow> plan option \<Rightarrow> bool" where
  "frozen_woo_paid sub platform p \<longleftrightarrow>
     su_status sub = SUB_FROZEN \<and> platform = WOOCOMMERCE \<and>
     (case p of None \<Rightarrow> False | Some pl \<Rightarrow> pl_kind pl = PAID_METERED \<and> pl_active pl)"

definition pause_reasons :: "platform_policy \<Rightarrow> policy_override option \<Rightarrow> pause_reason list" where
  "pause_reasons pol override =
     (if pp_globalPauseNewRecoveries pol then [GLOBAL_NEW_RECOVERIES_PAUSED] else []) @
     (if Option.bind override po_pauseNewRecoveries = Some True then [SHOP_NEW_RECOVERIES_PAUSED] else []) @
     (if pp_globalPauseAutomatedWhatsapp pol then [GLOBAL_AUTOMATED_WHATSAPP_PAUSED] else []) @
     (if Option.bind override po_pauseAutomatedWhatsapp = Some True
      then [SHOP_AUTOMATED_WHATSAPP_PAUSED] else [])"

text \<open>
  The checks of \<open>resolve\<close> that look at the subscription, its plan and its shop only; they leave
  the plan the policy is made of.
\<close>

definition admit_subscription ::
  "id \<Rightarrow> subscription \<Rightarrow> shop \<Rightarrow> plan option \<Rightarrow> plan result" where
  "admit_subscription shopId sub sh p =
     (let frozenWooPaid = frozen_woo_paid sub (sh_platform sh) p in
      if su_status sub = SUB_FROZEN \<and> \<not> frozenWooPaid
      then Inl (policy_error ''SUBSCRIPTION_FROZEN'' (''Shop '' @ shopId @ '' subscription is frozen''))
      else if su_status sub = SUB_SYNC_ERROR
      then Inl (policy_error ''SYNC_ERROR''
                  (''Shop '' @ shopId @ '' billing projection is in sync error''))
      else (case p of
        None \<Rightarrow> Inl (policy_error ''UNMAPPED_PLAN''
                       (''Shop '' @ shopId @ '' has no mapped active billing plan''))
      | Some pl \<Rightarrow>
         (if su_status sub = SUB_UNMAPPED \<or> \<not> pl_active pl \<or>
             (su_status sub \<notin> {SUB_ACTIVE, SUB_TRIALING} \<and> \<not> frozenWooPaid)
          then Inl (policy_error ''UNMAPPED_PLAN''
                      (''Shop '' @ shopId @ '' has no mapped active billing plan''))
          else if sh_status sh \<noteq> SHOP_ACTIVE
          then Inl (policy_error ''SHOP_UNAVAILABLE'' (''Shop '' @ shopId @ '' is not active''))
          else Inr pl)))"

definition build_policy ::
  "shared \<Rightarrow> id \<Rightarrow> time \<Rightarrow> subscription \<Rightarrow> shop \<Rightarrow> plan \<Rightarrow> platform_policy \<Rightarrow>
   policy_override option \<Rightarrow> feature_preference list \<Rightarrow> (billing_period \<times> period_counter) option \<Rightarrow>
   free_allowance \<Rightarrow> int \<times> int \<Rightarrow> int \<Rightarrow> effective_policy" where
  "build_policy S shopId now sub sh pl pol override prefs period allowance limits slots =
     \<lparr>ep_shopId = shopId, ep_platform = sh_platform sh, ep_subscriptionId = su_id sub,
      ep_subscriptionStatus = su_status sub,
      ep_providerCoverageEndAt = su_providerCoverageEndAt sub,
      ep_planId = pl_id pl, ep_planHandle = pl_shopifyPlanHandle pl, ep_planKind = pl_kind pl,
      ep_features = effective_features pl prefs,
      ep_freeAllowance = allowance,
      ep_shopifyUsageEventHandle = pl_shopifyUsageEventHandle pl,
      ep_billingPeriod =
        (case period of None \<Rightarrow> None
         | Some (p, c) \<Rightarrow> Some
            \<lparr>pj_period = p,
             pj_phase = billing_period_phase (billingPeriodDrainWindowMs S) (bp_periodEnd p) now
               (if sh_platform sh = WOOCOMMERCE then su_providerCoverageEndAt sub else None),
             pj_includedCounter = c\<rparr>),
      ep_recoveryCreditPack =
        (case resolve_credit_pack_configuration pl of None \<Rightarrow> None
         | Some (n, h) \<Rightarrow> Some \<lparr>cp_creditsPerPack = n, cp_shopifyEventHandle = h,
                             cp_includedAllowance = pl_includedRecoveryConversationAllowance pl\<rparr>),
      ep_outboundSoftLimit = fst limits, ep_outboundHardLimit = snd limits,
      ep_terminalMessageReservedSlots = slots,
      ep_newRecoveriesPaused =
        is_paused (pp_globalPauseNewRecoveries pol) po_pauseNewRecoveries override,
      ep_automatedWhatsappPaused =
        is_paused (pp_globalPauseAutomatedWhatsapp pol) po_pauseAutomatedWhatsapp override,
      ep_paused = pause_reasons pol override \<noteq> [],
      ep_pauseReasons = pause_reasons pol override,
      ep_policyVersions = (pp_version pol, map_option po_updatedAt override, pl_updatedAt pl)\<rparr>"

definition resolve_policy :: "shared \<Rightarrow> db \<Rightarrow> id \<Rightarrow> time \<Rightarrow> effective_policy result" where
  "resolve_policy S d shopId now =
     (case find_row (\<lambda>s. su_shopId s = shopId) (db_subscriptions d) of
        None \<Rightarrow> Inl (policy_error ''NO_CONTRACT''
                       (''Shop '' @ shopId @ '' has no active Shopify billing contract''))
      | Some sub \<Rightarrow>
     (if su_status sub = SUB_NO_CONTRACT
      then Inl (policy_error ''NO_CONTRACT''
                       (''Shop '' @ shopId @ '' has no active Shopify billing contract''))
      else (case find_row (\<lambda>s. sh_id s = su_shopId sub) (db_shops d) of
        None \<Rightarrow> Inl (Prisma_Error P2025) \<comment> \<open>excluded by the foreign key\<close>
      | Some sh \<Rightarrow>
     (case admit_subscription shopId sub sh (subscription_plan d sub) of
        Inl e \<Rightarrow> Inl e
      | Inr pl \<Rightarrow>
     (case db_platformPolicy d of
        None \<Rightarrow> Inl (invalid_configuration shopId ''platform policy is missing'')
      | Some pol \<Rightarrow>
     (case find_row (\<lambda>c. sc_shopId c = shopId \<and> sc_counter c = LIFETIME_FREE_RECOVERY_CREDITS)
             (db_shopCounters d) of
        None \<Rightarrow> Inl (invalid_configuration shopId ''lifetime Free recovery counter is missing'')
      | Some counter \<Rightarrow>
       let period = subscription_period d sub;
           periodCounter = (if pl_kind pl = PAID_METERED
                            then Option.bind period (\<lambda>p. included_counter d (bp_id p)) else None) in
     (case (if pl_kind pl = PAID_METERED
            then map_sum id Some (validate_paid_billing_period shopId sub period periodCounter)
            else Inr None) of
        Inl e \<Rightarrow> Inl e
      | Inr paidPeriod \<Rightarrow>
       let override = active_override d shopId now in
     (case resolve_outbound_limits shopId (pp_defaultOutboundSoftLimit pol)
             (pp_defaultOutboundHardLimit pol) (pp_absoluteOutboundHardLimit pol) override
             invalid_configuration of
        Inl e \<Rightarrow> Inl e
      | Inr limits \<Rightarrow>
     (case resolve_free_allowance shopId (sc_grantedQuantity counter) (sc_committedQuantity counter)
             (sc_reservedQuantity counter) of
        Inl e \<Rightarrow> Inl e
      | Inr allowance \<Rightarrow>
     (if pl_kind pl = PAID_METERED \<and> sh_platform sh = SHOPIFY \<and>
         \<not> truthy (pl_shopifyUsageEventHandle pl)
      then Inl (invalid_configuration shopId ''paid plan usage event handle is missing'')
      else
     (case validate_terminal_slots shopId
             (nullish (Option.bind override po_terminalMessageReservedSlots)
                (pp_terminalMessageReservedSlots pol))
             (snd limits) invalid_configuration of
        Inl e \<Rightarrow> Inl e
      | Inr slots \<Rightarrow>
        Inr (build_policy S shopId now sub sh pl pol override
               (filter (\<lambda>f. fp_shopId f = shopId) (db_featurePreferences d))
               paidPeriod allowance limits slots))))))))))))"

section \<open>The policy after the contract has ended\<close>

record post_contract_policy =
  pcp_shopId :: id
  pcp_subscriptionId :: id
  pcp_subscriptionStatus :: subscription_status
  pcp_newRecoveriesPaused :: bool
  pcp_automatedWhatsappPaused :: bool
  pcp_outboundSoftLimit :: int
  pcp_outboundHardLimit :: int
  pcp_terminalMessageReservedSlots :: int

definition post_contract_error :: "string \<Rightarrow> string \<Rightarrow> failure" where
  "post_contract_error reason message =
     Service_Error (Post_Contract_Recovery_Policy_Error reason) message"

definition invalid_post_contract_configuration :: config_error where
  "invalid_post_contract_configuration shopId detail =
     post_contract_error ''INVALID_CONFIGURATION''
       (''Invalid post-contract recovery policy for shop '' @ shopId @ '': '' @ detail)"

definition is_verified_ended_subscription ::
  "subscription_status \<Rightarrow> lifecycle_state option \<Rightarrow> bool \<Rightarrow> bool" where
  "is_verified_ended_subscription status lastState onboardingCompleted \<longleftrightarrow>
     status = SUB_NO_CONTRACT \<and> lastState = Some LIFECYCLE_CANCELED \<and> onboardingCompleted"

definition resolve_post_contract_policy :: "db \<Rightarrow> id \<Rightarrow> time \<Rightarrow> post_contract_policy result" where
  "resolve_post_contract_policy d shopId now =
     (let unavailable = Inl (post_contract_error ''SHOP_UNAVAILABLE''
                               (''Shop '' @ shopId @ '' is not active'')) in
      case find_row (\<lambda>s. su_shopId s = shopId) (db_subscriptions d) of
        None \<Rightarrow> unavailable
      | Some sub \<Rightarrow>
     (case find_row (\<lambda>s. sh_id s = su_shopId sub) (db_shops d) of
        None \<Rightarrow> Inl (Prisma_Error P2025) \<comment> \<open>excluded by the foreign key\<close>
      | Some sh \<Rightarrow>
     (if sh_status sh \<noteq> SHOP_ACTIVE then unavailable
      else if \<not> is_verified_ended_subscription (su_status sub) (su_lastProviderLifecycleState sub)
                (sh_onboardingCompleted sh)
      then Inl (post_contract_error ''CONTRACT_REQUIRED''
             (''Shop '' @ shopId @
              '' is not an onboarded merchant with a verified ended subscription''))
      else (case db_platformPolicy d of
        None \<Rightarrow> Inl (invalid_post_contract_configuration shopId ''platform policy is missing'')
      | Some pol \<Rightarrow>
       let override = active_override d shopId now in
     (case resolve_outbound_limits shopId (pp_defaultOutboundSoftLimit pol)
             (pp_defaultOutboundHardLimit pol) (pp_absoluteOutboundHardLimit pol) override
             invalid_post_contract_configuration of
        Inl e \<Rightarrow> Inl e
      | Inr limits \<Rightarrow>
     (case validate_terminal_slots shopId
             (nullish (Option.bind override po_terminalMessageReservedSlots)
                (pp_terminalMessageReservedSlots pol))
             (snd limits) invalid_post_contract_configuration of
        Inl e \<Rightarrow> Inl e
      | Inr slots \<Rightarrow>
        Inr \<lparr>pcp_shopId = shopId, pcp_subscriptionId = su_id sub,
             pcp_subscriptionStatus = SUB_NO_CONTRACT,
             pcp_newRecoveriesPaused =
               is_paused (pp_globalPauseNewRecoveries pol) po_pauseNewRecoveries override,
             pcp_automatedWhatsappPaused =
               is_paused (pp_globalPauseAutomatedWhatsapp pol) po_pauseAutomatedWhatsapp override,
             pcp_outboundSoftLimit = fst limits, pcp_outboundHardLimit = snd limits,
             pcp_terminalMessageReservedSlots = slots\<rparr>))))))"

end
