(* ===== verification/Ledger.thy ===== *)
theory Ledger
  imports Store
begin

text \<open>
  The contract of the recovery-credit ledger. Four kinds of account hold recovery credits: the
  shop counters (lifetime free and purchased), the purchase lots, the period counters and the
  promotional grants. Every reservation belongs to one source, and the columns of an account
  that say how much of it is reserved and committed are at every moment the sums over the
  reservations that belong to it. \<open>ledger_ok\<close> states this for the whole database; the
  \<open>move\<close> and \<open>insert\<close> lemmas say which changes of a reservation together with its accounts keep it,
  and the operations of the services are instances of them.
\<close>

section \<open>Weights and tallies\<close>

definition held :: "reservation \<Rightarrow> bool" where
  "held r \<longleftrightarrow> res_status r = RESERVED \<or> res_status r = AMBIGUOUS"

definition held_weight :: "reservation \<Rightarrow> int" where
  "held_weight r = (if held r then res_quantity r else 0)"

text \<open>Committed credits that have not been given back by a compensation.\<close>

definition spent_weight :: "reservation \<Rightarrow> int" where
  "spent_weight r =
     (if res_status r = COMMITTED \<and> res_compensationUsageEventId r = None then res_quantity r else 0)"

text \<open>A promotional grant keeps the credit of a historical-only compensation consumed.\<close>

definition promo_spent_weight :: "reservation \<Rightarrow> int" where
  "promo_spent_weight r =
     (if res_status r = COMMITTED \<and>
         (res_compensationUsageEventId r = None \<or>
          res_compensationDisposition r = Some HISTORICAL_ONLY)
      then res_quantity r else 0)"

definition tally ::
  "(reservation \<Rightarrow> id option) \<Rightarrow> (reservation \<Rightarrow> int) \<Rightarrow> id \<Rightarrow> reservation table \<Rightarrow> int" where
  "tally own wt k rs = row_sum (\<lambda>r. if own r = Some k then wt r else 0) rs"

definition tallied ::
  "('a \<Rightarrow> id) \<Rightarrow> ('a \<Rightarrow> int) \<Rightarrow> (reservation \<Rightarrow> id option) \<Rightarrow> (reservation \<Rightarrow> int) \<Rightarrow>
     'a table \<Rightarrow> reservation table \<Rightarrow> bool" where
  "tallied aid val own wt accs rs \<longleftrightarrow> (\<forall>a\<in>set accs. val a = tally own wt (aid a) rs)"

lemma tallyI: "(\<And>a. a \<in> set accs \<Longrightarrow> val a = tally own wt (aid a) rs) \<Longrightarrow> tallied aid val own wt accs rs"
  by (simp add: tallied_def)

lemma tallyD: "tallied aid val own wt accs rs \<Longrightarrow> a \<in> set accs \<Longrightarrow> val a = tally own wt (aid a) rs"
  by (simp add: tallied_def)

text \<open>
  The one lemma behind every balance: the row \<open>r\<close> of the reservations becomes \<open>g r\<close>, every
  account \<open>a\<close> becomes \<open>F a\<close>, and the column of every account moves by what the row's
  contribution to it changes.
\<close>

lemma tallied_update:
  assumes "tallied aid val own wt accs rs"
    and "distinct (map res_id rs)" "r \<in> set rs"
    and "\<And>a. a \<in> set accs \<Longrightarrow> aid (F a) = aid a \<and>
      val (F a) = val a - (if own r = Some (aid a) then wt r else 0)
                        + (if own (g r) = Some (aid a) then wt (g r) else 0)"
  shows "tallied aid val own wt (map F accs) (update_key res_id (res_id r) g rs)"
proof (rule tallyI)
  fix b assume "b \<in> set (map F accs)"
  then obtain a where a: "a \<in> set accs" "b = F a" by auto
  have "tally own wt (aid a) (update_key res_id (res_id r) g rs) =
      tally own wt (aid a) rs - (if own r = Some (aid a) then wt r else 0)
        + (if own (g r) = Some (aid a) then wt (g r) else 0)"
    unfolding tally_def using assms(2,3) by (rule row_sum_update_key) simp
  with a assms(4) [OF a(1)] tallyD [OF assms(1) a(1)]
  show "val b = tally own wt (aid b) (update_key res_id (res_id r) g rs)" by simp
qed

lemma tallied_append:
  assumes "tallied aid val own wt accs rs"
    and "\<And>a. a \<in> set accs \<Longrightarrow> aid (F a) = aid a \<and>
      val (F a) = val a + (if own r = Some (aid a) then wt r else 0)"
  shows "tallied aid val own wt (map F accs) (rs @ [r])"
  using assms by (auto simp: tallied_def tally_def)

text \<open>The same two lemmas when the accounts of the kind are not touched.\<close>

lemma tallied_update_frame:
  assumes "tallied aid val own wt accs rs" "distinct (map res_id rs)" "r \<in> set rs"
    and "own (g r) = own r" "own r = None \<or> wt (g r) = wt r"
  shows "tallied aid val own wt accs (update_key res_id (res_id r) g rs)"
  using tallied_update [OF assms(1-3), where F = "\<lambda>a. a" and g = g] assms(4,5) by auto

lemma tallied_append_frame:
  assumes "tallied aid val own wt accs rs" "own r = None"
  shows "tallied aid val own wt accs (rs @ [r])"
  using assms by (auto simp: tallied_def tally_def)

lemma tallied_map_frame:
  assumes "tallied aid val own wt accs rs"
    and "\<And>a. a \<in> set accs \<Longrightarrow> aid (F a) = aid a \<and> val (F a) = val a"
  shows "tallied aid val own wt (map F accs) rs"
  using assms by (auto simp: tallied_def)

lemma tally_nonneg: "(\<And>r. r \<in> set rs \<Longrightarrow> 0 \<le> wt r) \<Longrightarrow> 0 \<le> tally own wt k rs"
  unfolding tally_def by (intro row_sum_nonneg) auto

lemma tally_ge_member:
  assumes "r \<in> set rs" "own r = Some k" "\<And>x. x \<in> set rs \<Longrightarrow> 0 \<le> wt x"
  shows "wt r \<le> tally own wt k rs"
  unfolding tally_def
  using row_sum_member_le [of r rs "\<lambda>r. if own r = Some k then wt r else 0"] assms by auto

section \<open>Sources\<close>

datatype source_kind = Free_Source | Paid_Source | Promotional_Source | Purchased_Source

definition counter_keys :: "db \<Rightarrow> (id \<times> id \<times> shop_counter_kind) list" where
  "counter_keys d = map (\<lambda>c. (sc_id c, sc_shopId c, sc_counter c)) (db_shopCounters d)"

definition period_counter_keys :: "db \<Rightarrow> (id \<times> id) list" where
  "period_counter_keys d = map (\<lambda>c. (pc_id c, pc_shopId c)) (db_periodCounters d)"

definition grant_keys :: "db \<Rightarrow> (id \<times> id) list" where
  "grant_keys d = map (\<lambda>g. (gr_id g, gr_shopId g)) (db_grants d)"

definition lot_keys :: "db \<Rightarrow> (id \<times> id) list" where
  "lot_keys d = map (\<lambda>l. (lot_id l, lot_shopId l)) (db_lots d)"

text \<open>
  The accounts a reservation of each source points to: exactly the columns of its source are
  set, and they name accounts of the reservation's shop.
\<close>

fun owned_by :: "db \<Rightarrow> source_kind \<Rightarrow> reservation \<Rightarrow> bool" where
  "owned_by d Free_Source r \<longleftrightarrow>
     (\<exists>c. res_counterId r = Some c \<and>
        (c, res_shopId r, LIFETIME_FREE_RECOVERY_CREDITS) \<in> set (counter_keys d)) \<and>
     res_purchasedCreditPurchaseId r = None \<and> res_promotionalCreditGrantId r = None \<and>
     res_billingPeriodEntitlementCounterId r = None"
| "owned_by d Purchased_Source r \<longleftrightarrow>
     (\<exists>c. res_counterId r = Some c \<and>
        (c, res_shopId r, PURCHASED_RECOVERY_CREDITS) \<in> set (counter_keys d)) \<and>
     (\<exists>l. res_purchasedCreditPurchaseId r = Some l \<and> (l, res_shopId r) \<in> set (lot_keys d)) \<and>
     res_promotionalCreditGrantId r = None \<and> res_billingPeriodEntitlementCounterId r = None"
| "owned_by d Paid_Source r \<longleftrightarrow>
     (\<exists>c. res_billingPeriodEntitlementCounterId r = Some c \<and>
        (c, res_shopId r) \<in> set (period_counter_keys d)) \<and>
     res_counterId r = None \<and> res_purchasedCreditPurchaseId r = None \<and>
     res_promotionalCreditGrantId r = None"
| "owned_by d Promotional_Source r \<longleftrightarrow>
     (\<exists>g. res_promotionalCreditGrantId r = Some g \<and> (g, res_shopId r) \<in> set (grant_keys d)) \<and>
     res_counterId r = None \<and> res_purchasedCreditPurchaseId r = None \<and>
     res_billingPeriodEntitlementCounterId r = None"

definition reservation_ok :: "db \<Rightarrow> reservation \<Rightarrow> bool" where
  "reservation_ok d r \<longleftrightarrow>
     (\<exists>k. owned_by d k r) \<and> 0 < res_quantity r \<and>
     (res_status r = COMMITTED \<longrightarrow> res_committedUsageEventId r \<noteq> None) \<and>
     (res_compensationUsageEventId r \<noteq> None \<longrightarrow> res_status r = COMMITTED)"

section \<open>The invariant\<close>

definition keys_ok :: "db \<Rightarrow> bool" where
  "keys_ok d \<longleftrightarrow>
     distinct (map res_id (db_reservations d)) \<and>
     distinct (map res_sourceKey (db_reservations d)) \<and>
     distinct (map sc_id (db_shopCounters d)) \<and>
     distinct (map (\<lambda>c. (sc_shopId c, sc_counter c)) (db_shopCounters d)) \<and>
     distinct (map pc_id (db_periodCounters d)) \<and>
     distinct (map gr_id (db_grants d)) \<and>
     distinct (map lot_id (db_lots d))"

definition tallies_ok :: "db \<Rightarrow> bool" where
  "tallies_ok d \<longleftrightarrow>
     tallied sc_id sc_reservedQuantity res_counterId held_weight (db_shopCounters d) (db_reservations d) \<and>
     tallied sc_id sc_committedQuantity res_counterId spent_weight (db_shopCounters d) (db_reservations d) \<and>
     tallied lot_id lot_reservedAmount res_purchasedCreditPurchaseId held_weight (db_lots d) (db_reservations d) \<and>
     tallied pc_id pc_reservedQuantity res_billingPeriodEntitlementCounterId held_weight
       (db_periodCounters d) (db_reservations d) \<and>
     tallied pc_id pc_committedQuantity res_billingPeriodEntitlementCounterId spent_weight
       (db_periodCounters d) (db_reservations d) \<and>
     tallied gr_id gr_reservedQuantity res_promotionalCreditGrantId held_weight (db_grants d) (db_reservations d) \<and>
     tallied gr_id gr_committedQuantity res_promotionalCreditGrantId promo_spent_weight
       (db_grants d) (db_reservations d)"

definition counter_ok :: "shop_counter \<Rightarrow> bool" where
  "counter_ok c \<longleftrightarrow>
     (sc_counter c = LIFETIME_FREE_RECOVERY_CREDITS \<longrightarrow>
        sc_committedQuantity c + sc_reservedQuantity c \<le> sc_grantedQuantity c)"

definition lot_ok :: "purchase_lot \<Rightarrow> bool" where
  "lot_ok l \<longleftrightarrow>
     lot_reservedAmount l \<le> lot_currentAmount l \<and> lot_currentAmount l \<le> lot_creditsGranted l \<and>
     (lot_status l = ACTIVE \<or> lot_status l = WITHDRAWN \<longleftrightarrow> 0 < lot_currentAmount l)"

definition period_counter_ok :: "period_counter \<Rightarrow> bool" where
  "period_counter_ok c \<longleftrightarrow> 0 \<le> pc_forfeitedQuantity c \<and>
     pc_committedQuantity c + pc_reservedQuantity c + pc_forfeitedQuantity c \<le> pc_grantedQuantity c"

definition grant_ok :: "grant \<Rightarrow> bool" where
  "grant_ok g \<longleftrightarrow> gr_committedQuantity g + gr_reservedQuantity g \<le> gr_quantity g"

definition bounds_ok :: "db \<Rightarrow> bool" where
  "bounds_ok d \<longleftrightarrow>
     (\<forall>c\<in>set (db_shopCounters d). counter_ok c) \<and> (\<forall>l\<in>set (db_lots d). lot_ok l) \<and>
     (\<forall>c\<in>set (db_periodCounters d). period_counter_ok c) \<and> (\<forall>g\<in>set (db_grants d). grant_ok g)"

text \<open>
  The purchased counter of a shop is the sum of the shop's purchase lots: what is granted and
  not committed is what the lots still hold, what is reserved is what the lots have reserved,
  and what is being refunded is the unreserved part of the withdrawn lots.
\<close>

definition purchased_counter_of :: "id \<Rightarrow> shop_counter \<Rightarrow> bool" where
  "purchased_counter_of shopId c \<longleftrightarrow> sc_shopId c = shopId \<and> sc_counter c = PURCHASED_RECOVERY_CREDITS"

definition counter_sum :: "(shop_counter \<Rightarrow> int) \<Rightarrow> id \<Rightarrow> shop_counter table \<Rightarrow> int" where
  "counter_sum f shopId cs = row_sum (\<lambda>c. if purchased_counter_of shopId c then f c else 0) cs"

definition lot_sum :: "(purchase_lot \<Rightarrow> int) \<Rightarrow> id \<Rightarrow> purchase_lot table \<Rightarrow> int" where
  "lot_sum f shopId ls = row_sum (\<lambda>l. if lot_shopId l = shopId then f l else 0) ls"

definition lot_hold :: "purchase_lot \<Rightarrow> int" where
  "lot_hold l = (if lot_status l = WITHDRAWN then lot_currentAmount l - lot_reservedAmount l else 0)"

definition pool_ok :: "db \<Rightarrow> bool" where
  "pool_ok d \<longleftrightarrow> (\<forall>shopId.
     counter_sum (\<lambda>c. sc_grantedQuantity c - sc_committedQuantity c) shopId (db_shopCounters d)
       = lot_sum lot_currentAmount shopId (db_lots d) \<and>
     counter_sum sc_reservedQuantity shopId (db_shopCounters d)
       = lot_sum lot_reservedAmount shopId (db_lots d) \<and>
     counter_sum sc_refundingQuantity shopId (db_shopCounters d)
       = lot_sum lot_hold shopId (db_lots d))"

definition ledger_ok :: "db \<Rightarrow> bool" where
  "ledger_ok d \<longleftrightarrow>
     keys_ok d \<and> (\<forall>r\<in>set (db_reservations d). reservation_ok d r) \<and>
     tallies_ok d \<and> bounds_ok d \<and> pool_ok d"

lemma ledger_okD:
  assumes "ledger_ok d"
  shows "keys_ok d" "tallies_ok d" "bounds_ok d" "pool_ok d"
    "r \<in> set (db_reservations d) \<Longrightarrow> reservation_ok d r"
  using assms by (auto simp: ledger_ok_def)

lemma keys_okD:
  assumes "keys_ok d"
  shows "distinct (map res_id (db_reservations d))" "distinct (map res_sourceKey (db_reservations d))"
    "distinct (map sc_id (db_shopCounters d))" "distinct (map pc_id (db_periodCounters d))"
    "distinct (map gr_id (db_grants d))" "distinct (map lot_id (db_lots d))"
    "distinct (map (\<lambda>c. (sc_shopId c, sc_counter c)) (db_shopCounters d))"
  using assms by (auto simp: keys_ok_def)

lemmas ledger_keys = ledger_okD(1) [THEN keys_okD(1)] ledger_okD(1) [THEN keys_okD(2)]
  ledger_okD(1) [THEN keys_okD(3)] ledger_okD(1) [THEN keys_okD(4)]
  ledger_okD(1) [THEN keys_okD(5)] ledger_okD(1) [THEN keys_okD(6)]
  ledger_okD(1) [THEN keys_okD(7)]

lemma weights_nonneg:
  assumes "ledger_ok d" "r \<in> set (db_reservations d)"
  shows "0 \<le> held_weight r" "0 \<le> spent_weight r" "0 \<le> promo_spent_weight r"
  using ledger_okD(5) [OF assms]
  by (auto simp: reservation_ok_def held_weight_def spent_weight_def promo_spent_weight_def)


section \<open>Steps of one reservation\<close>

text \<open>
  One step of the ledger gives a new row to one reservation, \<open>None\<close> standing for a reservation
  that did not exist, and moves the accounts by the difference of the two contributions.
\<close>

definition share ::
  "(reservation \<Rightarrow> id option) \<Rightarrow> (reservation \<Rightarrow> int) \<Rightarrow> reservation option \<Rightarrow> id \<Rightarrow> int" where
  "share own wt r k = (case r of None \<Rightarrow> 0 | Some r \<Rightarrow> if own r = Some k then wt r else 0)"

definition moved ::
  "('a \<Rightarrow> id) \<Rightarrow> ('a \<Rightarrow> int) \<Rightarrow> (reservation \<Rightarrow> id option) \<Rightarrow> (reservation \<Rightarrow> int) \<Rightarrow>
     reservation option \<Rightarrow> reservation \<Rightarrow> 'a table \<Rightarrow> 'a table \<Rightarrow> bool" where
  "moved aid val own wt old new accs accs' \<longleftrightarrow>
     list_all2 (\<lambda>a b. aid b = aid a \<and>
       val b = val a - share own wt old (aid a) + share own wt (Some new) (aid a)) accs accs'"

definition rows_step ::
  "reservation option \<Rightarrow> reservation \<Rightarrow> reservation table \<Rightarrow> reservation table \<Rightarrow> bool" where
  "rows_step old new rs rs' \<longleftrightarrow>
     (case old of
        None \<Rightarrow> rs' = rs @ [new] \<and> (\<forall>r\<in>set rs. \<not> reservation_clash new r)
      | Some r \<Rightarrow> r \<in> set rs \<and>
          (\<exists>g. new = g r \<and> rs' = update_key res_id (res_id r) g rs \<and>
             (\<forall>x. res_id (g x) = res_id x \<and> res_sourceKey (g x) = res_sourceKey x)))"

lemma rows_step_update:
  assumes "r \<in> set rs" "\<And>x. res_id (g x) = res_id x \<and> res_sourceKey (g x) = res_sourceKey x"
  shows "rows_step (Some r) (g r) rs (update_key res_id (res_id r) g rs)"
  using assms by (auto simp: rows_step_def)

lemma rows_step_append:
  "\<forall>r\<in>set rs. \<not> reservation_clash new r \<Longrightarrow> rows_step None new rs (rs @ [new])"
  by (simp add: rows_step_def)

lemma rows_step_distinct:
  assumes "rows_step old new rs rs'"
    and "distinct (map res_id rs)" "distinct (map res_sourceKey rs)"
  shows "distinct (map res_id rs')" "distinct (map res_sourceKey rs')"
  using assms by (auto simp: rows_step_def reservation_clash_def map_update_key split: option.splits)

lemma rows_step_set:
  assumes "rows_step old new rs rs'" "distinct (map res_id rs)" "x \<in> set rs'"
  shows "x = new \<or> x \<in> set rs"
proof (cases old)
  case None
  with assms show ?thesis by (auto simp: rows_step_def)
next
  case (Some r)
  with assms(1) obtain g where g: "r \<in> set rs" "new = g r" "rs' = update_key res_id (res_id r) g rs"
    by (auto simp: rows_step_def)
  with assms(3) obtain y where "y \<in> set rs" "x = (if res_id y = res_id r then g y else y)"
    by (auto simp: set_update_key)
  with key_inj [OF assms(2) g(1)] g(2) show ?thesis by auto
qed

lemma tallied_moved:
  assumes "tallied aid val own wt accs rs" "rows_step old new rs rs'"
    and "distinct (map res_id rs)" "moved aid val own wt old new accs accs'"
  shows "tallied aid val own wt accs' rs'"
proof (rule tallyI)
  fix b assume "b \<in> set accs'"
  with assms(4) obtain a where a: "a \<in> set accs" "aid b = aid a"
    "val b = val a - share own wt old (aid a) + share own wt (Some new) (aid a)"
    unfolding moved_def list_all2_conv_all_nth in_set_conv_nth by metis
  have "tally own wt (aid a) rs' =
      tally own wt (aid a) rs - share own wt old (aid a) + share own wt (Some new) (aid a)"
  proof (cases old)
    case None
    with assms(2) show ?thesis by (simp add: rows_step_def tally_def share_def)
  next
    case (Some r)
    with assms(2) obtain g where "r \<in> set rs" "new = g r" "rs' = update_key res_id (res_id r) g rs"
      by (auto simp: rows_step_def)
    with Some show ?thesis
      unfolding tally_def share_def
      by (simp add: row_sum_update_key [OF assms(3) \<open>r \<in> set rs\<close> refl])
  qed
  with a tallyD [OF assms(1) a(1)] show "val b = tally own wt (aid b) rs'" by simp
qed

lemma moved_same:
  assumes "\<And>a. a \<in> set accs \<Longrightarrow> share own wt old (aid a) = share own wt (Some new) (aid a)"
  shows "moved aid val own wt old new accs accs"
  using assms by (simp add: moved_def list_all2_same)

lemma moved_update:
  assumes "\<And>a. aid (f a) = aid a"
    and "\<And>a. a \<in> set accs \<Longrightarrow> aid a = k \<Longrightarrow>
      val (f a) = val a - share own wt old k + share own wt (Some new) k"
    and "\<And>i. i \<noteq> k \<Longrightarrow> share own wt old i = share own wt (Some new) i"
  shows "moved aid val own wt old new accs (update_key aid k f accs)"
  using assms by (auto simp: moved_def update_key_def list_all2_map2 intro!: list.rel_refl_strong)

definition same_keys :: "db \<Rightarrow> db \<Rightarrow> bool" where
  "same_keys d d' \<longleftrightarrow> counter_keys d' = counter_keys d \<and> period_counter_keys d' = period_counter_keys d \<and>
     grant_keys d' = grant_keys d \<and> lot_keys d' = lot_keys d"

lemma same_keys_owned: "same_keys d d' \<Longrightarrow> owned_by d' k r = owned_by d k r"
  by (cases k) (auto simp: same_keys_def)

lemma same_keys_reservation: "same_keys d d' \<Longrightarrow> reservation_ok d' r = reservation_ok d r"
  by (simp add: reservation_ok_def same_keys_owned)

lemma counter_keys_maps:
  "map sc_id (db_shopCounters d) = map fst (counter_keys d)"
  "map (\<lambda>c. (sc_shopId c, sc_counter c)) (db_shopCounters d) = map snd (counter_keys d)"
  "map pc_id (db_periodCounters d) = map fst (period_counter_keys d)"
  "map gr_id (db_grants d) = map fst (grant_keys d)"
  "map lot_id (db_lots d) = map fst (lot_keys d)"
  by (simp_all add: counter_keys_def period_counter_keys_def grant_keys_def lot_keys_def comp_def)

lemma same_keys_ok:
  assumes "same_keys d d'" "keys_ok d" "rows_step old new (db_reservations d) (db_reservations d')"
  shows "keys_ok d'"
  using assms rows_step_distinct [OF assms(3)]
  by (simp add: keys_ok_def counter_keys_maps same_keys_def)

text \<open>The general step; the lemmas per source below discharge its premises.\<close>

lemma ledger_step:
  assumes ok: "ledger_ok d" and rows: "rows_step old new (db_reservations d) (db_reservations d')"
    and keys: "same_keys d d'" and new: "reservation_ok d new"
    and "moved sc_id sc_reservedQuantity res_counterId held_weight old new (db_shopCounters d) (db_shopCounters d')"
    and "moved sc_id sc_committedQuantity res_counterId spent_weight old new (db_shopCounters d) (db_shopCounters d')"
    and "moved lot_id lot_reservedAmount res_purchasedCreditPurchaseId held_weight old new (db_lots d) (db_lots d')"
    and "moved pc_id pc_reservedQuantity res_billingPeriodEntitlementCounterId held_weight old new
      (db_periodCounters d) (db_periodCounters d')"
    and "moved pc_id pc_committedQuantity res_billingPeriodEntitlementCounterId spent_weight old new
      (db_periodCounters d) (db_periodCounters d')"
    and "moved gr_id gr_reservedQuantity res_promotionalCreditGrantId held_weight old new (db_grants d) (db_grants d')"
    and "moved gr_id gr_committedQuantity res_promotionalCreditGrantId promo_spent_weight old new
      (db_grants d) (db_grants d')"
    and bounds: "bounds_ok d'" and pool: "pool_ok d'"
  shows "ledger_ok d'"
proof -
  note dist = ledger_keys(1) [OF ok]
  have "reservation_ok d' x" if "x \<in> set (db_reservations d')" for x
    using rows_step_set [OF rows dist that] new ledger_okD(5) [OF ok]
    by (auto simp: same_keys_reservation [OF keys])
  moreover have "tallies_ok d'"
    using ledger_okD(2) [OF ok] assms(5-11) unfolding tallies_ok_def
    by (auto elim!: tallied_moved [OF _ rows dist])
  ultimately show ?thesis
    using same_keys_ok [OF keys ledger_okD(1) [OF ok] rows] bounds pool
    by (simp add: ledger_ok_def)
qed


section \<open>Steps per source\<close>

text \<open>
  What \<open>old\<close>, the reservation before the step, has to share with \<open>new\<close>: the columns that name
  its accounts. A released reservation may move to another lot.
\<close>

definition same_source :: "reservation option \<Rightarrow> reservation \<Rightarrow> bool" where
  "same_source old new \<longleftrightarrow> (case old of None \<Rightarrow> True | Some r \<Rightarrow>
     res_counterId r = res_counterId new \<and>
     (res_purchasedCreditPurchaseId r = res_purchasedCreditPurchaseId new \<or>
        held_weight r = 0 \<and> res_purchasedCreditPurchaseId new \<noteq> None) \<and>
     res_promotionalCreditGrantId r = res_promotionalCreditGrantId new \<and>
     res_billingPeriodEntitlementCounterId r = res_billingPeriodEntitlementCounterId new)"

definition change :: "(reservation \<Rightarrow> int) \<Rightarrow> reservation option \<Rightarrow> reservation \<Rightarrow> int" where
  "change wt old new = wt new - (case old of None \<Rightarrow> 0 | Some r \<Rightarrow> wt r)"

lemma share_same_source:
  assumes "same_source old new"
  shows
    "share res_counterId wt old k = share res_counterId wt (Some new) k \<or>
       res_counterId new = Some k"
    "share res_promotionalCreditGrantId wt old k = share res_promotionalCreditGrantId wt (Some new) k \<or>
       res_promotionalCreditGrantId new = Some k"
    "share res_billingPeriodEntitlementCounterId wt old k
       = share res_billingPeriodEntitlementCounterId wt (Some new) k \<or>
       res_billingPeriodEntitlementCounterId new = Some k"
    "share res_purchasedCreditPurchaseId held_weight old k
       = share res_purchasedCreditPurchaseId held_weight (Some new) k \<or>
       res_purchasedCreditPurchaseId new = Some k"
  using assms by (auto simp: same_source_def share_def split: option.splits)

lemma share_change:
  assumes "same_source old new"
  shows
    "res_counterId new = Some k \<Longrightarrow>
       v - share res_counterId wt old k + share res_counterId wt (Some new) k = v + change wt old new"
    "res_promotionalCreditGrantId new = Some k \<Longrightarrow>
       v - share res_promotionalCreditGrantId wt old k + share res_promotionalCreditGrantId wt (Some new) k
         = v + change wt old new"
    "res_billingPeriodEntitlementCounterId new = Some k \<Longrightarrow>
       v - share res_billingPeriodEntitlementCounterId wt old k
         + share res_billingPeriodEntitlementCounterId wt (Some new) k = v + change wt old new"
    "res_purchasedCreditPurchaseId new = Some k \<Longrightarrow>
       v - share res_purchasedCreditPurchaseId held_weight old k
         + share res_purchasedCreditPurchaseId held_weight (Some new) k = v + change held_weight old new"
  using assms by (auto simp: same_source_def share_def change_def split: option.splits)

text \<open>An update of the one account the reservation names moves exactly what it has to.\<close>

lemma moved_counter:
  assumes "same_source old new" "res_counterId new = Some k" "\<And>c. sc_id (f c) = sc_id c"
    and "\<And>c. c \<in> set cs \<Longrightarrow> sc_id c = k \<Longrightarrow> val (f c) = val c + change wt old new"
  shows "moved sc_id val res_counterId wt old new cs (update_key sc_id k f cs)"
  using share_same_source(1) [OF assms(1), where wt = wt] assms
  by (intro moved_update) (auto simp: share_change)

lemma moved_grant:
  assumes "same_source old new" "res_promotionalCreditGrantId new = Some k" "\<And>c. gr_id (f c) = gr_id c"
    and "\<And>c. c \<in> set cs \<Longrightarrow> gr_id c = k \<Longrightarrow> val (f c) = val c + change wt old new"
  shows "moved gr_id val res_promotionalCreditGrantId wt old new cs (update_key gr_id k f cs)"
  using share_same_source(2) [OF assms(1), where wt = wt] assms
  by (intro moved_update) (auto simp: share_change)

lemma moved_period_counter:
  assumes "same_source old new" "res_billingPeriodEntitlementCounterId new = Some k"
    "\<And>c. pc_id (f c) = pc_id c"
    and "\<And>c. c \<in> set cs \<Longrightarrow> pc_id c = k \<Longrightarrow> val (f c) = val c + change wt old new"
  shows "moved pc_id val res_billingPeriodEntitlementCounterId wt old new cs (update_key pc_id k f cs)"
  using share_same_source(3) [OF assms(1), where wt = wt] assms
  by (intro moved_update) (auto simp: share_change)

lemma moved_lot:
  assumes "same_source old new" "res_purchasedCreditPurchaseId new = Some k" "\<And>c. lot_id (f c) = lot_id c"
    and "\<And>c. c \<in> set cs \<Longrightarrow> lot_id c = k \<Longrightarrow> val (f c) = val c + change held_weight old new"
  shows "moved lot_id val res_purchasedCreditPurchaseId held_weight old new cs (update_key lot_id k f cs)"
  using share_same_source(4) [OF assms(1)] assms
  by (intro moved_update) (auto simp: share_change)

text \<open>Accounts of the other sources stay as they are.\<close>

lemma moved_unowned:
  assumes "own new = None" "\<And>r. old = Some r \<Longrightarrow> own r = None"
  shows "moved aid val own wt old new accs accs"
  using assms by (intro moved_same) (auto simp: share_def split: option.splits)

lemma moved_unchanged:
  assumes "\<And>r. old = Some r \<Longrightarrow> own r = own new" "change wt old new = 0"
  shows "moved aid val own wt old new accs accs"
  using assms by (intro moved_same) (auto simp: share_def change_def split: option.splits)

lemma keys_update_key:
  "(\<And>x. h (f x) = h x) \<Longrightarrow> map h (update_key key k f t) = map h t"
  by (rule map_update_key)

lemma bounds_okD:
  assumes "ledger_ok d"
  shows "c \<in> set (db_shopCounters d) \<Longrightarrow> counter_ok c" "l \<in> set (db_lots d) \<Longrightarrow> lot_ok l"
    "p \<in> set (db_periodCounters d) \<Longrightarrow> period_counter_ok p" "g \<in> set (db_grants d) \<Longrightarrow> grant_ok g"
  using ledger_okD(3) [OF assms] by (auto simp: bounds_ok_def)

lemma ball_update_key:
  assumes "\<forall>x\<in>set t. P x" "\<And>x. x \<in> set t \<Longrightarrow> key x = k \<Longrightarrow> P (f x)"
  shows "\<forall>x\<in>set (update_key key k f t). P x"
  using assms by (auto simp: set_update_key)

text \<open>The pool of a shop follows a counter and a lot that change by the same amounts.\<close>

lemma counter_sum_update:
  assumes "distinct (map sc_id cs)" "c \<in> set cs"
    and "sc_shopId (f c) = sc_shopId c" "sc_counter (f c) = sc_counter c"
  shows "counter_sum h s (update_key sc_id (sc_id c) f cs)
    = counter_sum h s cs + (if purchased_counter_of s c then h (f c) - h c else 0)"
  unfolding counter_sum_def row_sum_update_key [OF assms(1,2) refl]
  using assms(3,4) by (simp add: purchased_counter_of_def)

lemma lot_sum_update:
  assumes "distinct (map lot_id ls)" "l \<in> set ls" "lot_shopId (f l) = lot_shopId l"
  shows "lot_sum h s (update_key lot_id (lot_id l) f ls)
    = lot_sum h s ls + (if lot_shopId l = s then h (f l) - h l else 0)"
  unfolding lot_sum_def row_sum_update_key [OF assms(1,2) refl]
  using assms(3) by simp

lemma pool_update:
  assumes "ledger_ok d" "c \<in> set (db_shopCounters d)" "l \<in> set (db_lots d)"
    and "db_shopCounters d' = update_key sc_id (sc_id c) f (db_shopCounters d)"
    and "db_lots d' = update_key lot_id (lot_id l) h (db_lots d)"
    and "sc_counter c = PURCHASED_RECOVERY_CREDITS" "lot_shopId l = sc_shopId c"
    and "sc_shopId (f c) = sc_shopId c" "sc_counter (f c) = sc_counter c" "lot_shopId (h l) = lot_shopId l"
    and "(sc_grantedQuantity (f c) - sc_committedQuantity (f c)) - (sc_grantedQuantity c - sc_committedQuantity c)
      = lot_currentAmount (h l) - lot_currentAmount l"
    and "sc_reservedQuantity (f c) - sc_reservedQuantity c = lot_reservedAmount (h l) - lot_reservedAmount l"
    and "sc_refundingQuantity (f c) - sc_refundingQuantity c = lot_hold (h l) - lot_hold l"
  shows "pool_ok d'"
  unfolding pool_ok_def
proof (intro allI)
  fix s
  have p: "purchased_counter_of s c \<longleftrightarrow> lot_shopId l = s"
    using assms(6,7) by (auto simp: purchased_counter_of_def)
  note cs = counter_sum_update [OF ledger_keys(3) [OF assms(1)] assms(2), where f = f, OF assms(8,9)]
  note ls = lot_sum_update [OF ledger_keys(6) [OF assms(1)] assms(3), where f = h, OF assms(10)]
  show "counter_sum (\<lambda>c. sc_grantedQuantity c - sc_committedQuantity c) s (db_shopCounters d')
       = lot_sum lot_currentAmount s (db_lots d') \<and>
     counter_sum sc_reservedQuantity s (db_shopCounters d') = lot_sum lot_reservedAmount s (db_lots d') \<and>
     counter_sum sc_refundingQuantity s (db_shopCounters d') = lot_sum lot_hold s (db_lots d')"
    using ledger_okD(4) [OF assms(1)] assms(11-13)
    unfolding assms(4,5) cs ls p by (auto simp: pool_ok_def)
qed

lemma pool_frame:
  assumes "pool_ok d" "db_lots d' = db_lots d"
    and "\<And>h s. counter_sum h s (db_shopCounters d') = counter_sum h s (db_shopCounters d)"
  shows "pool_ok d'"
  using assms by (simp add: pool_ok_def)


definition reservation_change_ok :: "reservation option \<Rightarrow> reservation \<Rightarrow> bool" where
  "reservation_change_ok old new \<longleftrightarrow> same_source old new \<and> 0 < res_quantity new \<and>
     (res_status new = COMMITTED \<longrightarrow> res_committedUsageEventId new \<noteq> None) \<and>
     (res_compensationUsageEventId new \<noteq> None \<longrightarrow> res_status new = COMMITTED)"

lemma reservation_change_ok_new:
  "reservation_change_ok old new \<Longrightarrow> owned_by d k new \<Longrightarrow> reservation_ok d new"
  by (auto simp: reservation_change_ok_def reservation_ok_def)

lemma same_source_none:
  assumes "same_source old new" "old = Some r"
  shows "res_counterId new = None \<Longrightarrow> res_counterId r = None"
    "res_purchasedCreditPurchaseId new = None \<Longrightarrow> res_purchasedCreditPurchaseId r = None"
    "res_promotionalCreditGrantId new = None \<Longrightarrow> res_promotionalCreditGrantId r = None"
    "res_billingPeriodEntitlementCounterId new = None \<Longrightarrow> res_billingPeriodEntitlementCounterId r = None"
  using assms by (auto simp: same_source_def)

lemma ledger_step_free:
  assumes ok: "ledger_ok d" and rows: "rows_step old new (db_reservations d) (db_reservations d')"
    and own: "owned_by d Free_Source new" "res_counterId new = Some k" and ch: "reservation_change_ok old new"
    and tabs: "db_shopCounters d' = update_key sc_id k f (db_shopCounters d)" "db_lots d' = db_lots d"
      "db_periodCounters d' = db_periodCounters d" "db_grants d' = db_grants d"
    and f: "\<And>c. sc_id (f c) = sc_id c \<and> sc_shopId (f c) = sc_shopId c \<and> sc_counter (f c) = sc_counter c"
      "\<And>c. c \<in> set (db_shopCounters d) \<Longrightarrow> sc_id c = k \<Longrightarrow>
         sc_reservedQuantity (f c) = sc_reservedQuantity c + change held_weight old new \<and>
         sc_committedQuantity (f c) = sc_committedQuantity c + change spent_weight old new \<and>
         counter_ok (f c)"
  shows "ledger_ok d'"
proof (rule ledger_step [OF ok rows])
  from ch have ss: "same_source old new" by (simp add: reservation_change_ok_def)
  show "same_keys d d'"
    using tabs f(1)
    by (simp add: same_keys_def counter_keys_def period_counter_keys_def grant_keys_def lot_keys_def
        keys_update_key)
  show "reservation_ok d new" using ch own(1) by (rule reservation_change_ok_new)
  show "moved sc_id sc_reservedQuantity res_counterId held_weight old new (db_shopCounters d) (db_shopCounters d')"
    "moved sc_id sc_committedQuantity res_counterId spent_weight old new (db_shopCounters d) (db_shopCounters d')"
    unfolding tabs using f ss own(2) by (auto intro!: moved_counter)
  have "res_purchasedCreditPurchaseId new = None" "res_promotionalCreditGrantId new = None"
    "res_billingPeriodEntitlementCounterId new = None" using own(1) by auto
  note none = this same_source_none [OF ss]
  show "moved lot_id lot_reservedAmount res_purchasedCreditPurchaseId held_weight old new (db_lots d) (db_lots d')"
    "moved pc_id pc_reservedQuantity res_billingPeriodEntitlementCounterId held_weight old new
      (db_periodCounters d) (db_periodCounters d')"
    "moved pc_id pc_committedQuantity res_billingPeriodEntitlementCounterId spent_weight old new
      (db_periodCounters d) (db_periodCounters d')"
    "moved gr_id gr_reservedQuantity res_promotionalCreditGrantId held_weight old new (db_grants d) (db_grants d')"
    "moved gr_id gr_committedQuantity res_promotionalCreditGrantId promo_spent_weight old new
      (db_grants d) (db_grants d')"
    unfolding tabs using none by (auto intro!: moved_unowned)
  show "bounds_ok d'"
    using ledger_okD(3) [OF ok] tabs f(2) by (auto simp: bounds_ok_def set_update_key)
  obtain c where c: "c \<in> set (db_shopCounters d)" "sc_id c = k" "sc_counter c = LIFETIME_FREE_RECOVERY_CREDITS"
    using own by (auto simp: counter_keys_def)
  show "pool_ok d'"
  proof (rule pool_frame [OF ledger_okD(4) [OF ok] tabs(2)])
    fix h s
    show "counter_sum h s (db_shopCounters d') = counter_sum h s (db_shopCounters d)"
      unfolding tabs(1) c(2) [symmetric]
      by (subst counter_sum_update [OF ledger_keys(3) [OF ok] c(1)])
        (use f(1) c(3) in \<open>auto simp: purchased_counter_of_def\<close>)
  qed
qed

lemma ledger_step_pool:
  assumes ok: "ledger_ok d" and rows: "rows_step old new (db_reservations d) (db_reservations d')"
    and own: "owned_by d Purchased_Source new" "res_counterId new = Some k"
      "res_purchasedCreditPurchaseId new = Some m"
    and ch: "reservation_change_ok old new"
    and tabs: "db_shopCounters d' = update_key sc_id k f (db_shopCounters d)"
      "db_lots d' = update_key lot_id m h (db_lots d)"
      "db_periodCounters d' = db_periodCounters d" "db_grants d' = db_grants d"
    and f: "\<And>c. sc_id (f c) = sc_id c \<and> sc_shopId (f c) = sc_shopId c \<and> sc_counter (f c) = sc_counter c"
      "\<And>c. c \<in> set (db_shopCounters d) \<Longrightarrow> sc_id c = k \<Longrightarrow>
         sc_reservedQuantity (f c) = sc_reservedQuantity c + change held_weight old new \<and>
         sc_committedQuantity (f c) = sc_committedQuantity c + change spent_weight old new"
    and h: "\<And>l. lot_id (h l) = lot_id l \<and> lot_shopId (h l) = lot_shopId l"
      "\<And>l. l \<in> set (db_lots d) \<Longrightarrow> lot_id l = m \<Longrightarrow>
         lot_reservedAmount (h l) = lot_reservedAmount l + change held_weight old new \<and>
         lot_ok (h l)"
    and hold: "\<And>c l. c \<in> set (db_shopCounters d) \<Longrightarrow> sc_id c = k \<Longrightarrow> l \<in> set (db_lots d) \<Longrightarrow> lot_id l = m \<Longrightarrow>
         sc_refundingQuantity (f c) - sc_refundingQuantity c = lot_hold (h l) - lot_hold l \<and>
         (sc_grantedQuantity (f c) - sc_committedQuantity (f c)) - (sc_grantedQuantity c - sc_committedQuantity c)
           = lot_currentAmount (h l) - lot_currentAmount l"
  shows "ledger_ok d'"
proof (rule ledger_step [OF ok rows])
  from ch have ss: "same_source old new" by (simp add: reservation_change_ok_def)
  show "same_keys d d'"
    using tabs f(1) h(1)
    by (simp add: same_keys_def counter_keys_def period_counter_keys_def grant_keys_def lot_keys_def
        keys_update_key)
  show "reservation_ok d new" using ch own(1) by (rule reservation_change_ok_new)
  show "moved sc_id sc_reservedQuantity res_counterId held_weight old new (db_shopCounters d) (db_shopCounters d')"
    "moved sc_id sc_committedQuantity res_counterId spent_weight old new (db_shopCounters d) (db_shopCounters d')"
    unfolding tabs using f ss own(2) by (auto intro!: moved_counter)
  show "moved lot_id lot_reservedAmount res_purchasedCreditPurchaseId held_weight old new (db_lots d) (db_lots d')"
    unfolding tabs using h ss own(3) by (auto intro!: moved_lot)
  have "res_promotionalCreditGrantId new = None"
    "res_billingPeriodEntitlementCounterId new = None" using own(1) by auto
  note none = this same_source_none [OF ss]
  show "moved pc_id pc_reservedQuantity res_billingPeriodEntitlementCounterId held_weight old new
      (db_periodCounters d) (db_periodCounters d')"
    "moved pc_id pc_committedQuantity res_billingPeriodEntitlementCounterId spent_weight old new
      (db_periodCounters d) (db_periodCounters d')"
    "moved gr_id gr_reservedQuantity res_promotionalCreditGrantId held_weight old new (db_grants d) (db_grants d')"
    "moved gr_id gr_committedQuantity res_promotionalCreditGrantId promo_spent_weight old new
      (db_grants d) (db_grants d')"
    unfolding tabs using none by (auto intro!: moved_unowned)
  obtain c where c: "c \<in> set (db_shopCounters d)" "sc_id c = k" "sc_counter c = PURCHASED_RECOVERY_CREDITS"
    "sc_shopId c = res_shopId new"
    using own by (auto simp: counter_keys_def)
  obtain l where l: "l \<in> set (db_lots d)" "lot_id l = m" "lot_shopId l = res_shopId new"
    using own by (auto simp: lot_keys_def)
  have kind: "sc_counter x = PURCHASED_RECOVERY_CREDITS" if "x \<in> set (db_shopCounters d)" "sc_id x = k" for x
    using key_inj [OF ledger_keys(3) [OF ok] c(1) that(1)] that(2) c by simp
  show "bounds_ok d'"
    using ledger_okD(3) [OF ok] tabs f(1) h(2) kind
    by (auto simp: bounds_ok_def set_update_key counter_ok_def)
  show "pool_ok d'"
    by (rule pool_update [where f = f and h = h, OF ok c(1) l(1)])
      (use c l f h hold in \<open>simp_all add: tabs\<close>)
qed

text \<open>A transition of a purchased reservation leaves what was granted as it is.\<close>

lemma ledger_step_purchased:
  assumes ok: "ledger_ok d" and rows: "rows_step old new (db_reservations d) (db_reservations d')"
    and own: "owned_by d Purchased_Source new" "res_counterId new = Some k"
      "res_purchasedCreditPurchaseId new = Some m"
    and ch: "reservation_change_ok old new"
    and tabs: "db_shopCounters d' = update_key sc_id k f (db_shopCounters d)"
      "db_lots d' = update_key lot_id m h (db_lots d)"
      "db_periodCounters d' = db_periodCounters d" "db_grants d' = db_grants d"
    and f: "\<And>c. sc_id (f c) = sc_id c \<and> sc_shopId (f c) = sc_shopId c \<and> sc_counter (f c) = sc_counter c"
      "\<And>c. c \<in> set (db_shopCounters d) \<Longrightarrow> sc_id c = k \<Longrightarrow>
         sc_reservedQuantity (f c) = sc_reservedQuantity c + change held_weight old new \<and>
         sc_committedQuantity (f c) = sc_committedQuantity c + change spent_weight old new \<and>
         sc_grantedQuantity (f c) = sc_grantedQuantity c"
    and h: "\<And>l. lot_id (h l) = lot_id l \<and> lot_shopId (h l) = lot_shopId l"
      "\<And>l. l \<in> set (db_lots d) \<Longrightarrow> lot_id l = m \<Longrightarrow>
         lot_reservedAmount (h l) = lot_reservedAmount l + change held_weight old new \<and>
         lot_currentAmount (h l) = lot_currentAmount l - change spent_weight old new \<and>
         lot_ok (h l)"
    and hold: "\<And>c l. c \<in> set (db_shopCounters d) \<Longrightarrow> sc_id c = k \<Longrightarrow> l \<in> set (db_lots d) \<Longrightarrow> lot_id l = m \<Longrightarrow>
         sc_refundingQuantity (f c) - sc_refundingQuantity c = lot_hold (h l) - lot_hold l"
  shows "ledger_ok d'"
  by (rule ledger_step_pool [where f = f and h = h, OF ok rows own ch tabs f(1) _ h(1)]) (use f h hold in simp_all)

lemma ledger_step_paid:
  assumes ok: "ledger_ok d" and rows: "rows_step old new (db_reservations d) (db_reservations d')"
    and own: "owned_by d Paid_Source new" "res_billingPeriodEntitlementCounterId new = Some k"
    and ch: "reservation_change_ok old new"
    and tabs: "db_periodCounters d' = update_key pc_id k f (db_periodCounters d)" "db_lots d' = db_lots d"
      "db_shopCounters d' = db_shopCounters d" "db_grants d' = db_grants d"
    and f: "\<And>c. pc_id (f c) = pc_id c \<and> pc_shopId (f c) = pc_shopId c"
      "\<And>c. c \<in> set (db_periodCounters d) \<Longrightarrow> pc_id c = k \<Longrightarrow>
         pc_reservedQuantity (f c) = pc_reservedQuantity c + change held_weight old new \<and>
         pc_committedQuantity (f c) = pc_committedQuantity c + change spent_weight old new \<and>
         period_counter_ok (f c)"
  shows "ledger_ok d'"
proof (rule ledger_step [OF ok rows])
  from ch have ss: "same_source old new" by (simp add: reservation_change_ok_def)
  show "same_keys d d'"
    using tabs f(1)
    by (simp add: same_keys_def counter_keys_def period_counter_keys_def grant_keys_def lot_keys_def
        keys_update_key)
  show "reservation_ok d new" using ch own(1) by (rule reservation_change_ok_new)
  show "moved pc_id pc_reservedQuantity res_billingPeriodEntitlementCounterId held_weight old new
      (db_periodCounters d) (db_periodCounters d')"
    "moved pc_id pc_committedQuantity res_billingPeriodEntitlementCounterId spent_weight old new
      (db_periodCounters d) (db_periodCounters d')"
    unfolding tabs using f ss own(2) by (auto intro!: moved_period_counter)
  have "res_purchasedCreditPurchaseId new = None" "res_promotionalCreditGrantId new = None"
    "res_counterId new = None" using own(1) by auto
  note none = this same_source_none [OF ss]
  show "moved lot_id lot_reservedAmount res_purchasedCreditPurchaseId held_weight old new (db_lots d) (db_lots d')"
    "moved sc_id sc_reservedQuantity res_counterId held_weight old new (db_shopCounters d) (db_shopCounters d')"
    "moved sc_id sc_committedQuantity res_counterId spent_weight old new (db_shopCounters d) (db_shopCounters d')"
    "moved gr_id gr_reservedQuantity res_promotionalCreditGrantId held_weight old new (db_grants d) (db_grants d')"
    "moved gr_id gr_committedQuantity res_promotionalCreditGrantId promo_spent_weight old new
      (db_grants d) (db_grants d')"
    unfolding tabs using none by (auto intro!: moved_unowned)
  show "bounds_ok d'"
    using ledger_okD(3) [OF ok] tabs f(2) by (auto simp: bounds_ok_def set_update_key)
  show "pool_ok d'" by (rule pool_frame [OF ledger_okD(4) [OF ok] tabs(2)]) (simp add: tabs(3))
qed

lemma ledger_step_promotional:
  assumes ok: "ledger_ok d" and rows: "rows_step old new (db_reservations d) (db_reservations d')"
    and own: "owned_by d Promotional_Source new" "res_promotionalCreditGrantId new = Some k"
    and ch: "reservation_change_ok old new"
    and tabs: "db_grants d' = update_key gr_id k f (db_grants d)" "db_lots d' = db_lots d"
      "db_shopCounters d' = db_shopCounters d" "db_periodCounters d' = db_periodCounters d"
    and f: "\<And>c. gr_id (f c) = gr_id c \<and> gr_shopId (f c) = gr_shopId c"
      "\<And>c. c \<in> set (db_grants d) \<Longrightarrow> gr_id c = k \<Longrightarrow>
         gr_reservedQuantity (f c) = gr_reservedQuantity c + change held_weight old new \<and>
         gr_committedQuantity (f c) = gr_committedQuantity c + change promo_spent_weight old new \<and>
         grant_ok (f c)"
  shows "ledger_ok d'"
proof (rule ledger_step [OF ok rows])
  from ch have ss: "same_source old new" by (simp add: reservation_change_ok_def)
  show "same_keys d d'"
    using tabs f(1)
    by (simp add: same_keys_def counter_keys_def period_counter_keys_def grant_keys_def lot_keys_def
        keys_update_key)
  show "reservation_ok d new" using ch own(1) by (rule reservation_change_ok_new)
  show "moved gr_id gr_reservedQuantity res_promotionalCreditGrantId held_weight old new (db_grants d) (db_grants d')"
    "moved gr_id gr_committedQuantity res_promotionalCreditGrantId promo_spent_weight old new
      (db_grants d) (db_grants d')"
    unfolding tabs using f ss own(2) by (auto intro!: moved_grant)
  have "res_purchasedCreditPurchaseId new = None" "res_billingPeriodEntitlementCounterId new = None"
    "res_counterId new = None" using own(1) by auto
  note none = this same_source_none [OF ss]
  show "moved lot_id lot_reservedAmount res_purchasedCreditPurchaseId held_weight old new (db_lots d) (db_lots d')"
    "moved sc_id sc_reservedQuantity res_counterId held_weight old new (db_shopCounters d) (db_shopCounters d')"
    "moved sc_id sc_committedQuantity res_counterId spent_weight old new (db_shopCounters d) (db_shopCounters d')"
    "moved pc_id pc_reservedQuantity res_billingPeriodEntitlementCounterId held_weight old new
      (db_periodCounters d) (db_periodCounters d')"
    "moved pc_id pc_committedQuantity res_billingPeriodEntitlementCounterId spent_weight old new
      (db_periodCounters d) (db_periodCounters d')"
    unfolding tabs using none by (auto intro!: moved_unowned)
  show "bounds_ok d'"
    using ledger_okD(3) [OF ok] tabs f(2) by (auto simp: bounds_ok_def set_update_key)
  show "pool_ok d'" by (rule pool_frame [OF ledger_okD(4) [OF ok] tabs(2)]) (simp add: tabs(3))
qed

text \<open>A step that changes no account: marking a reservation ambiguous, whatever its source.\<close>

lemma ledger_step_status:
  assumes ok: "ledger_ok d" and r: "r \<in> set (db_reservations d)"
    and rows: "rows_step (Some r) new (db_reservations d) (db_reservations d')"
    and same: "res_shopId new = res_shopId r" "res_counterId new = res_counterId r"
      "res_purchasedCreditPurchaseId new = res_purchasedCreditPurchaseId r"
      "res_promotionalCreditGrantId new = res_promotionalCreditGrantId r"
      "res_billingPeriodEntitlementCounterId new = res_billingPeriodEntitlementCounterId r"
    and wts: "held_weight new = held_weight r" "spent_weight new = spent_weight r"
      "promo_spent_weight new = promo_spent_weight r"
    and new: "0 < res_quantity new"
      "res_status new = COMMITTED \<longrightarrow> res_committedUsageEventId new \<noteq> None"
      "res_compensationUsageEventId new \<noteq> None \<longrightarrow> res_status new = COMMITTED"
    and tabs: "db_shopCounters d' = db_shopCounters d" "db_lots d' = db_lots d"
      "db_periodCounters d' = db_periodCounters d" "db_grants d' = db_grants d"
  shows "ledger_ok d'"
proof (rule ledger_step [OF ok rows])
  show "same_keys d d'"
    using tabs by (simp add: same_keys_def counter_keys_def period_counter_keys_def grant_keys_def lot_keys_def)
  have "owned_by d k new = owned_by d k r" for k by (cases k) (simp_all add: same)
  with ledger_okD(5) [OF ok r] new show "reservation_ok d new" by (simp add: reservation_ok_def)
  show "bounds_ok d'" using ledger_okD(3) [OF ok] tabs by (simp add: bounds_ok_def)
  show "pool_ok d'" by (rule pool_frame [OF ledger_okD(4) [OF ok] tabs(2)]) (simp add: tabs(1))
qed (unfold tabs, use same wts in \<open>auto intro!: moved_unchanged simp: change_def\<close>)

text \<open>Changes outside the tables of the ledger.\<close>

lemma ledger_frame:
  assumes "ledger_ok d" "db_reservations d' = db_reservations d" "db_shopCounters d' = db_shopCounters d"
    "db_lots d' = db_lots d" "db_periodCounters d' = db_periodCounters d" "db_grants d' = db_grants d"
  shows "ledger_ok d'"
proof -
  have "same_keys d d'"
    using assms by (simp add: same_keys_def counter_keys_def period_counter_keys_def grant_keys_def lot_keys_def)
  then show ?thesis
    using assms by (simp add: ledger_ok_def keys_ok_def tallies_ok_def bounds_ok_def pool_ok_def
        same_keys_reservation)
qed

text \<open>A new shop counter starts at zero, and no reservation names it yet.\<close>

definition new_shop_counter :: "id \<Rightarrow> id \<Rightarrow> shop_counter_kind \<Rightarrow> shop_counter" where
  "new_shop_counter i shopId kind =
     \<lparr>sc_id = i, sc_shopId = shopId, sc_counter = kind, sc_grantedQuantity = 0,
      sc_committedQuantity = 0, sc_reservedQuantity = 0, sc_refundingQuantity = 0, sc_version = 0\<rparr>"

lemma tally_zero:
  "(\<And>r. r \<in> set rs \<Longrightarrow> own r \<noteq> Some k) \<Longrightarrow> tally own wt k rs = 0"
  unfolding tally_def by (intro row_sum_zero) auto

lemma ledger_new_counter_row:
  assumes ok: "ledger_ok d"
    and create: "create_row shop_counter_clash n (db_shopCounters d) = Inr (c, cs)"
    and zero: "sc_committedQuantity n = 0" "sc_reservedQuantity n = 0" "sc_refundingQuantity n = 0"
    and granted: "if sc_counter n = LIFETIME_FREE_RECOVERY_CREDITS then 0 \<le> sc_grantedQuantity n
      else sc_grantedQuantity n = 0"
  shows "ledger_ok (d\<lparr>db_shopCounters := cs\<rparr>)"
proof -
  let ?d = "d\<lparr>db_shopCounters := cs\<rparr>"
  from create have cs: "cs = db_shopCounters d @ [n]"
    and fresh: "\<And>x. x \<in> set (db_shopCounters d) \<Longrightarrow> \<not> shop_counter_clash n x"
    by (auto dest: create_row_InrD)
  have ids: "sc_id n \<noteq> sc_id x" if "x \<in> set (db_shopCounters d)" for x
    using fresh [OF that] by (auto simp: shop_counter_clash_def)
  have own: "owned_by ?d k r" if "owned_by d k r" for k r
    using that by (cases k) (auto simp: counter_keys_def cs period_counter_keys_def grant_keys_def lot_keys_def)
  have free: "res_counterId r \<noteq> Some (sc_id n)" if "r \<in> set (db_reservations d)" for r
  proof
    assume i: "res_counterId r = Some (sc_id n)"
    from ledger_okD(5) [OF ok that] obtain k where "owned_by d k r" by (auto simp: reservation_ok_def)
    with i ids show False by (cases k) (auto simp: counter_keys_def)
  qed
  have "keys_ok ?d"
    using ledger_okD(1) [OF ok] fresh
    by (auto simp: keys_ok_def cs shop_counter_clash_def)
  moreover have "tallies_ok ?d"
    using ledger_okD(2) [OF ok] tally_zero [OF free] zero
    by (auto simp: tallies_ok_def tallied_def cs)
  moreover have "bounds_ok ?d"
    using ledger_okD(3) [OF ok] granted zero by (auto simp: bounds_ok_def cs counter_ok_def)
  moreover have "pool_ok ?d"
    using ledger_okD(4) [OF ok] granted zero
    by (auto simp: pool_ok_def cs counter_sum_def purchased_counter_of_def)
  moreover have "reservation_ok ?d r" if "r \<in> set (db_reservations d)" for r
    using ledger_okD(5) [OF ok that] own by (auto simp: reservation_ok_def)
  ultimately show ?thesis by (simp add: ledger_ok_def)
qed

lemma ledger_new_counter:
  assumes "ledger_ok d"
    and "create_row shop_counter_clash (new_shop_counter i s kind) (db_shopCounters d) = Inr (c, cs)"
  shows "ledger_ok (d\<lparr>db_shopCounters := cs\<rparr>)"
  by (rule ledger_new_counter_row [OF assms]) (simp_all add: new_shop_counter_def)

section \<open>What the invariant says of the accounts\<close>

lemma tally_held_ge:
  assumes "ledger_ok d" "r \<in> set (db_reservations d)" "own r = Some k"
  shows "held_weight r \<le> tally own held_weight k (db_reservations d)"
  by (rule tally_ge_member [where own = own, OF assms(2,3)]) (rule weights_nonneg(1) [OF assms(1)])

lemma ledger_counter:
  assumes "ledger_ok d" "c \<in> set (db_shopCounters d)"
  shows "sc_reservedQuantity c = tally res_counterId held_weight (sc_id c) (db_reservations d)"
    "sc_committedQuantity c = tally res_counterId spent_weight (sc_id c) (db_reservations d)"
    "0 \<le> sc_reservedQuantity c" "0 \<le> sc_committedQuantity c"
    "r \<in> set (db_reservations d) \<Longrightarrow> res_counterId r = Some (sc_id c) \<Longrightarrow>
       held_weight r \<le> sc_reservedQuantity c"
  using ledger_okD(2) [OF assms(1)] assms tally_held_ge [OF assms(1), of r res_counterId]
    tally_nonneg [of "db_reservations d" held_weight res_counterId "sc_id c"]
    tally_nonneg [of "db_reservations d" spent_weight res_counterId "sc_id c"]
    weights_nonneg [OF assms(1)]
  by (auto simp: tallies_ok_def tallied_def)

lemma ledger_lot:
  assumes "ledger_ok d" "l \<in> set (db_lots d)"
  shows "lot_reservedAmount l = tally res_purchasedCreditPurchaseId held_weight (lot_id l) (db_reservations d)"
    "0 \<le> lot_reservedAmount l" "lot_ok l"
    "r \<in> set (db_reservations d) \<Longrightarrow> res_purchasedCreditPurchaseId r = Some (lot_id l) \<Longrightarrow>
       held_weight r \<le> lot_reservedAmount l"
  using ledger_okD(2) [OF assms(1)] assms tally_held_ge [OF assms(1), of r res_purchasedCreditPurchaseId]
    tally_nonneg [of "db_reservations d" held_weight res_purchasedCreditPurchaseId "lot_id l"]
    weights_nonneg [OF assms(1)] bounds_okD(2) [OF assms(1)]
  by (auto simp: tallies_ok_def tallied_def)

lemma ledger_period_counter:
  assumes "ledger_ok d" "c \<in> set (db_periodCounters d)"
  shows "pc_reservedQuantity c = tally res_billingPeriodEntitlementCounterId held_weight (pc_id c) (db_reservations d)"
    "pc_committedQuantity c = tally res_billingPeriodEntitlementCounterId spent_weight (pc_id c) (db_reservations d)"
    "0 \<le> pc_reservedQuantity c" "0 \<le> pc_committedQuantity c" "period_counter_ok c"
    "r \<in> set (db_reservations d) \<Longrightarrow> res_billingPeriodEntitlementCounterId r = Some (pc_id c) \<Longrightarrow>
       held_weight r \<le> pc_reservedQuantity c"
  using ledger_okD(2) [OF assms(1)] assms
    tally_held_ge [OF assms(1), of r res_billingPeriodEntitlementCounterId]
    tally_nonneg [of "db_reservations d" held_weight res_billingPeriodEntitlementCounterId "pc_id c"]
    tally_nonneg [of "db_reservations d" spent_weight res_billingPeriodEntitlementCounterId "pc_id c"]
    weights_nonneg [OF assms(1)] bounds_okD(3) [OF assms(1)]
  by (auto simp: tallies_ok_def tallied_def)

lemma ledger_grant:
  assumes "ledger_ok d" "g \<in> set (db_grants d)"
  shows "gr_reservedQuantity g = tally res_promotionalCreditGrantId held_weight (gr_id g) (db_reservations d)"
    "gr_committedQuantity g = tally res_promotionalCreditGrantId promo_spent_weight (gr_id g) (db_reservations d)"
    "0 \<le> gr_reservedQuantity g" "0 \<le> gr_committedQuantity g" "grant_ok g"
    "r \<in> set (db_reservations d) \<Longrightarrow> res_promotionalCreditGrantId r = Some (gr_id g) \<Longrightarrow>
       held_weight r \<le> gr_reservedQuantity g"
  using ledger_okD(2) [OF assms(1)] assms
    tally_held_ge [OF assms(1), of r res_promotionalCreditGrantId]
    tally_nonneg [of "db_reservations d" held_weight res_promotionalCreditGrantId "gr_id g"]
    tally_nonneg [of "db_reservations d" promo_spent_weight res_promotionalCreditGrantId "gr_id g"]
    weights_nonneg [OF assms(1)] bounds_okD(4) [OF assms(1)]
  by (auto simp: tallies_ok_def tallied_def)

end
