(* ===== verification/Reservation_Common.thy ===== *)
theory Reservation_Common
  imports Billing_Policy Ledger
begin

text \<open>
  What the four reservation services do in the same way: sequencing of fallible steps, the
  optimistic update whose row count is checked, the lookup of a reservation by its source key,
  and the rows a reservation goes through. The lemmas say what such a row contributes to the
  tallies of the ledger, so that each operation of a service is one step of the ledger.
\<close>

section \<open>Sequencing\<close>

definition and_then :: "'a result \<Rightarrow> ('a \<Rightarrow> 'b result) \<Rightarrow> 'b result" where
  "and_then x f = (case x of Inl e \<Rightarrow> Inl e | Inr a \<Rightarrow> f a)"

definition require :: "bool \<Rightarrow> failure \<Rightarrow> unit result" where
  "require c e = (if c then Inr () else Inl e)"

definition expect :: "'a option \<Rightarrow> failure \<Rightarrow> 'a result" where
  "expect x e = (case x of None \<Rightarrow> Inl e | Some a \<Rightarrow> Inr a)"

lemma and_then_simps [simp]: "and_then (Inl e) f = Inl e" "and_then (Inr a) f = f a"
  by (simp_all add: and_then_def)

lemma require_simps [simp]: "require True e = Inr ()" "require False e = Inl e"
  by (simp_all add: require_def)

lemma expect_simps [simp]: "expect None e = Inl e" "expect (Some a) e = Inr a"
  by (simp_all add: expect_def)

lemma and_then_Inr: "and_then x f = Inr b \<longleftrightarrow> (\<exists>a. x = Inr a \<and> f a = Inr b)"
  by (cases x) auto

lemma require_Inr: "require c e = Inr u \<longleftrightarrow> c"
  by (simp add: require_def)

lemma expect_Inr: "expect x e = Inr a \<longleftrightarrow> x = Some a"
  by (cases x) auto

lemmas result_iffs = and_then_Inr require_Inr expect_Inr

section \<open>The optimistic update\<close>

text \<open>\<open>updateMany\<close> followed by \<open>if (count !== 1) throw new RecoveryReservationConcurrencyConflict()\<close>.\<close>

definition update_one :: "('r \<Rightarrow> bool) \<Rightarrow> ('r \<Rightarrow> 'r) \<Rightarrow> 'r table \<Rightarrow> 'r table result" where
  "update_one P f t =
     (let (n, t') = update_many P f t in if n \<noteq> 1 then Inl Concurrency_Conflict else Inr t')"

lemma update_one_InrD:
  assumes "update_one (\<lambda>r. key r = k \<and> G r) f t = Inr t'" "distinct (map key t)"
  obtains r where "r \<in> set t" "key r = k" "G r" "t' = update_key key k f t"
proof -
  obtain n u where u: "update_many (\<lambda>r. key r = k \<and> G r) f t = (n, u)" by fastforce
  with assms(1) have "n = 1" "u = t'" by (auto simp: update_one_def split: if_splits)
  from u \<open>n = 1\<close> assms(2) show ?thesis
  proof (rule update_many_one)
    fix r assume "r \<in> set t" "key r = k" "G r" "u = update_key key k f t"
    with \<open>u = t'\<close> show ?thesis by (intro that) auto
  qed
qed

lemma update_one_hit:
  assumes "distinct (map key t)" "r \<in> set t" "key r = k" "G r"
  shows "update_one (\<lambda>r. key r = k \<and> G r) f t = Inr (update_key key k f t)"
  unfolding update_one_def update_many_hit [where G = G, OF assms] by simp

text \<open>The row an update by id reads and writes is the one that was found before.\<close>

lemma update_one_row:
  assumes "update_one (\<lambda>x. key x = key r \<and> G x) f t = Inr t'" "distinct (map key t)" "r \<in> set t"
  shows "G r \<and> t' = update_key key (key r) f t"
proof -
  obtain x where "x \<in> set t" "key x = key r" "G x" "t' = update_key key (key r) f t"
    using update_one_InrD [where key = key, OF assms(1,2)] by blast
  moreover from this have "x = r" by (intro key_inj [OF assms(2,3)])
  ultimately show ?thesis by simp
qed

section \<open>Reservations\<close>

definition find_reservation :: "db \<Rightarrow> string \<Rightarrow> reservation option" where
  "find_reservation d sourceKey = find_row (\<lambda>r. res_sourceKey r = sourceKey) (db_reservations d)"

definition find_counter :: "db \<Rightarrow> id \<Rightarrow> shop_counter option" where
  "find_counter d i = find_row (\<lambda>c. sc_id c = i) (db_shopCounters d)"

definition find_shop_counter :: "db \<Rightarrow> id \<Rightarrow> shop_counter_kind \<Rightarrow> shop_counter option" where
  "find_shop_counter d shopId kind =
     find_row (\<lambda>c. sc_shopId c = shopId \<and> sc_counter c = kind) (db_shopCounters d)"

text \<open>\<open>requireReservation\<close>, which the services differ in only by the error they throw.\<close>

definition require_reservation ::
  "(string \<Rightarrow> failure) \<Rightarrow> db \<Rightarrow> id \<Rightarrow> string \<Rightarrow> reservation result" where
  "require_reservation createError d shopId sourceKey =
     and_then (expect (find_reservation d sourceKey) (createError ''Reservation does not exist'')) (\<lambda>r.
     and_then (assert_reservation_shop r shopId createError) (\<lambda>_. Inr r))"

text \<open>\<open>usageReservation.update\<close> by id.\<close>

definition update_reservation ::
  "(reservation \<Rightarrow> reservation) \<Rightarrow> reservation \<Rightarrow> db \<Rightarrow> (reservation \<times> db) result" where
  "update_reservation g r d =
     and_then (update_unique res_id (res_id r) g (db_reservations d)) (\<lambda>(r', t).
     Inr (r', d\<lparr>db_reservations := t\<rparr>))"

definition committed_row :: "id \<Rightarrow> reservation \<Rightarrow> reservation" where
  "committed_row eventId r = r\<lparr>res_status := COMMITTED, res_committedUsageEventId := Some eventId\<rparr>"

definition with_status :: "reservation_status \<Rightarrow> reservation \<Rightarrow> reservation" where
  "with_status s r = r\<lparr>res_status := s\<rparr>"

definition create_usage_event :: "usage_event \<Rightarrow> db \<Rightarrow> (usage_event \<times> db) result" where
  "create_usage_event e d =
     and_then (create_row usage_event_clash e (db_usageEvents d)) (\<lambda>(e', t).
     Inr (e', d\<lparr>db_usageEvents := t\<rparr>))"

definition create_reservation :: "reservation \<Rightarrow> db \<Rightarrow> (reservation \<times> db) result" where
  "create_reservation r d =
     and_then (create_row reservation_clash r (db_reservations d)) (\<lambda>(r', t).
     Inr (r', d\<lparr>db_reservations := t\<rparr>))"

section \<open>Facts\<close>

lemma find_reservation_SomeD:
  "find_reservation d k = Some r \<Longrightarrow> r \<in> set (db_reservations d) \<and> res_sourceKey r = k"
  by (auto simp: find_reservation_def dest: find_row_SomeD)

lemma find_counter_SomeD: "find_counter d i = Some c \<Longrightarrow> c \<in> set (db_shopCounters d) \<and> sc_id c = i"
  by (auto simp: find_counter_def dest: find_row_SomeD)

lemma find_shop_counter_SomeD:
  "find_shop_counter d s k = Some c \<Longrightarrow> c \<in> set (db_shopCounters d) \<and> sc_shopId c = s \<and> sc_counter c = k"
  by (auto simp: find_shop_counter_def dest: find_row_SomeD)

lemma require_reservation_InrD:
  "require_reservation mk d s k = Inr r \<Longrightarrow>
     r \<in> set (db_reservations d) \<and> res_sourceKey r = k \<and> res_shopId r = s \<and> find_reservation d k = Some r"
  by (auto simp: require_reservation_def result_iffs dest: find_reservation_SomeD assert_reservation_shop_InrD)

lemma update_reservation_InrD:
  assumes "update_reservation g r d = Inr (r', d')" "distinct (map res_id (db_reservations d))"
    "r \<in> set (db_reservations d)"
  shows "r' = g r" "d' = d\<lparr>db_reservations := update_key res_id (res_id r) g (db_reservations d)\<rparr>"
proof -
  have "update_unique res_id (res_id r) g (db_reservations d)
      = Inr (g r, update_key res_id (res_id r) g (db_reservations d))"
    using update_unique_hit [OF assms(2,3) refl] .
  with assms(1) show "r' = g r" "d' = d\<lparr>db_reservations := update_key res_id (res_id r) g (db_reservations d)\<rparr>"
    by (simp_all add: update_reservation_def)
qed

lemma create_usage_event_InrD:
  "create_usage_event e d = Inr (e', d') \<Longrightarrow> e' = e \<and> d' = d\<lparr>db_usageEvents := db_usageEvents d @ [e]\<rparr>"
  by (auto simp: create_usage_event_def result_iffs dest: create_row_InrD)

lemma create_reservation_InrD:
  "create_reservation r d = Inr (r', d') \<Longrightarrow>
     r' = r \<and> d' = d\<lparr>db_reservations := db_reservations d @ [r]\<rparr> \<and>
     (\<forall>x\<in>set (db_reservations d). \<not> reservation_clash r x)"
  by (auto simp: create_reservation_def result_iffs dest: create_row_InrD)

lemma row_keys [simp]:
  "res_id (committed_row e r) = res_id r" "res_sourceKey (committed_row e r) = res_sourceKey r"
  "res_id (with_status s r) = res_id r" "res_sourceKey (with_status s r) = res_sourceKey r"
  "res_status (committed_row e r) = COMMITTED" "res_status (with_status s r) = s"
  "res_quantity (committed_row e r) = res_quantity r" "res_quantity (with_status s r) = res_quantity r"
  "res_shopId (committed_row e r) = res_shopId r" "res_shopId (with_status s r) = res_shopId r"
  by (simp_all add: committed_row_def with_status_def)

lemma owned_by_row [simp]:
  "owned_by d k (committed_row e r) = owned_by d k r" "owned_by d k (with_status s r) = owned_by d k r"
  by (cases k; simp add: committed_row_def with_status_def)+

lemma row_columns [simp]:
  "res_counterId (committed_row e r) = res_counterId r" "res_counterId (with_status s r) = res_counterId r"
  "res_purchasedCreditPurchaseId (committed_row e r) = res_purchasedCreditPurchaseId r"
  "res_purchasedCreditPurchaseId (with_status s r) = res_purchasedCreditPurchaseId r"
  "res_promotionalCreditGrantId (committed_row e r) = res_promotionalCreditGrantId r"
  "res_promotionalCreditGrantId (with_status s r) = res_promotionalCreditGrantId r"
  "res_billingPeriodEntitlementCounterId (committed_row e r) = res_billingPeriodEntitlementCounterId r"
  "res_billingPeriodEntitlementCounterId (with_status s r) = res_billingPeriodEntitlementCounterId r"
  "res_committedUsageEventId (committed_row e r) = Some e"
  "res_committedUsageEventId (with_status s r) = res_committedUsageEventId r"
  "res_compensationUsageEventId (committed_row e r) = res_compensationUsageEventId r"
  "res_compensationUsageEventId (with_status s r) = res_compensationUsageEventId r"
  by (simp_all add: committed_row_def with_status_def)

text \<open>What a transition of a reservation changes in the tallies.\<close>

lemma uncompensated:
  assumes "ledger_ok d" "r \<in> set (db_reservations d)" "res_status r \<noteq> COMMITTED"
  shows "res_compensationUsageEventId r = None"
  using ledger_okD(5) [OF assms(1,2)] assms(3) by (auto simp: reservation_ok_def)

lemma quantity_pos: "ledger_ok d \<Longrightarrow> r \<in> set (db_reservations d) \<Longrightarrow> 0 < res_quantity r"
  using ledger_okD(5) by (auto simp: reservation_ok_def)

lemma change_commit:
  assumes "res_status r = RESERVED" "res_compensationUsageEventId r = None"
  shows "change held_weight (Some r) (committed_row e r) = - res_quantity r"
    "change spent_weight (Some r) (committed_row e r) = res_quantity r"
    "change promo_spent_weight (Some r) (committed_row e r) = res_quantity r"
  using assms
  by (simp_all add: change_def held_weight_def held_def spent_weight_def promo_spent_weight_def)

lemma change_status:
  assumes "res_status r \<noteq> COMMITTED" "s \<noteq> COMMITTED"
  shows "change held_weight (Some r) (with_status s r) =
      (if s = RESERVED \<or> s = AMBIGUOUS then res_quantity r else 0) - held_weight r"
    "change spent_weight (Some r) (with_status s r) = 0"
    "change promo_spent_weight (Some r) (with_status s r) = 0"
  using assms
  by (simp_all add: change_def held_weight_def held_def spent_weight_def promo_spent_weight_def)

lemma change_new:
  assumes "res_status r = RESERVED"
  shows "change held_weight None r = res_quantity r" "change spent_weight None r = 0"
    "change promo_spent_weight None r = 0"
  using assms
  by (simp_all add: change_def held_weight_def held_def spent_weight_def promo_spent_weight_def)

lemma held_weight_simps:
  "res_status r = RESERVED \<Longrightarrow> held_weight r = res_quantity r"
  "res_status r = RELEASED \<Longrightarrow> held_weight r = 0"
  by (simp_all add: held_weight_def held_def)

lemma change_ok_commit:
  assumes "ledger_ok d" "r \<in> set (db_reservations d)"
  shows "reservation_change_ok (Some r) (committed_row e r)"
  using quantity_pos [OF assms] by (simp add: reservation_change_ok_def same_source_def)

lemma change_ok_status:
  assumes "ledger_ok d" "r \<in> set (db_reservations d)" "res_status r \<noteq> COMMITTED" "s \<noteq> COMMITTED"
  shows "reservation_change_ok (Some r) (with_status s r)"
  using quantity_pos [OF assms(1,2)] uncompensated [OF assms(1-3)] assms(4)
  by (simp add: reservation_change_ok_def same_source_def)

lemma change_ok_new:
  "0 < q \<Longrightarrow> res_status r = RESERVED \<Longrightarrow> res_quantity r = q \<Longrightarrow> res_compensationUsageEventId r = None \<Longrightarrow>
     reservation_change_ok None r"
  by (simp add: reservation_change_ok_def same_source_def)

lemma rows_step_commit:
  "r \<in> set rs \<Longrightarrow>
     rows_step (Some r) (committed_row e r) rs (update_key res_id (res_id r) (committed_row e) rs)"
  by (rule rows_step_update) simp_all

lemma rows_step_status:
  "r \<in> set rs \<Longrightarrow>
     rows_step (Some r) (with_status s r) rs (update_key res_id (res_id r) (with_status s) rs)"
  by (rule rows_step_update) simp_all

text \<open>Marking a reserved reservation ambiguous keeps every tally.\<close>

lemma ledger_mark_ambiguous:
  assumes "ledger_ok d" "r \<in> set (db_reservations d)" "res_status r = RESERVED"
  shows "ledger_ok (d\<lparr>db_reservations := update_key res_id (res_id r) (with_status AMBIGUOUS) (db_reservations d)\<rparr>)"
  using assms quantity_pos [OF assms(1,2)] uncompensated [OF assms(1,2)]
  by (intro ledger_step_status [OF assms(1,2), where new = "with_status AMBIGUOUS r"])
    (auto simp: rows_step_status held_weight_def held_def spent_weight_def promo_spent_weight_def)

lemma find_by_key:
  assumes "ledger_ok d" "r \<in> set (db_reservations d)"
  shows "find_reservation d (res_sourceKey r) = Some r"
  unfolding find_reservation_def using ledger_keys(2) [OF assms(1)] assms(2) by (rule find_row_key) simp


text \<open>The last two steps of every commit: the usage event, then the reservation.\<close>

lemma commit_tail:
  assumes "create_usage_event ev d1 = Inr (ev', d2)"
    and "update_reservation (committed_row (ue_id ev')) r d2 = Inr (x, d3)"
    and "distinct (map res_id (db_reservations d1))" "r \<in> set (db_reservations d1)"
  shows "x = committed_row (ue_id ev) r"
    "d3 = d1\<lparr>db_usageEvents := db_usageEvents d1 @ [ev],
             db_reservations := update_key res_id (res_id r) (committed_row (ue_id ev)) (db_reservations d1)\<rparr>"
  using create_usage_event_InrD [OF assms(1)] update_reservation_InrD [OF assms(2)] assms(3,4)
  by simp_all

lemma ue_new_usage_event [simp]:
  "ue_id (new_usage_event i s q k t src p) = i" "ue_shopId (new_usage_event i s q k t src p) = s"
  "ue_quantity (new_usage_event i s q k t src p) = q"
  "ue_idempotencyKey (new_usage_event i s q k t src p) = k"
  "ue_metric (new_usage_event i s q k t src p) = RECOVERY_CONVERSATION"
  by (simp_all add: new_usage_event_def)

lemma truthy_SomeD: "truthy x \<Longrightarrow> x = Some (the x)"
  by (auto simp: truthy_def split: option.splits)

lemma not_ApplyD:
  "transition_decision r t q mk = Inr dec \<Longrightarrow> dec \<noteq> Apply \<Longrightarrow> res_status r \<noteq> required_status t"
  by (cases dec) (auto dest: transition_decision_Replay)

lemma required_status_simps [simp]:
  "required_status Reactivate = RELEASED" "required_status Commit = RESERVED"
  "required_status Release = RESERVED" "required_status Ambiguous = RESERVED"
  by (simp_all add: required_status_def)

text \<open>An id names one account.\<close>

lemma unique_counter:
  "ledger_ok d \<Longrightarrow> c \<in> set (db_shopCounters d) \<Longrightarrow> x \<in> set (db_shopCounters d) \<Longrightarrow> sc_id x = sc_id c \<Longrightarrow> x = c"
  by (rule key_inj [OF ledger_keys(3)])

lemma unique_lot:
  "ledger_ok d \<Longrightarrow> c \<in> set (db_lots d) \<Longrightarrow> x \<in> set (db_lots d) \<Longrightarrow> lot_id x = lot_id c \<Longrightarrow> x = c"
  by (rule key_inj [OF ledger_keys(6)])

lemma unique_period_counter:
  "ledger_ok d \<Longrightarrow> c \<in> set (db_periodCounters d) \<Longrightarrow> x \<in> set (db_periodCounters d) \<Longrightarrow> pc_id x = pc_id c \<Longrightarrow> x = c"
  by (rule key_inj [OF ledger_keys(4)])

lemma unique_grant:
  "ledger_ok d \<Longrightarrow> c \<in> set (db_grants d) \<Longrightarrow> x \<in> set (db_grants d) \<Longrightarrow> gr_id x = gr_id c \<Longrightarrow> x = c"
  by (rule key_inj [OF ledger_keys(5)])

lemma counter_keys_unique:
  assumes "ledger_ok d" "c \<in> set (db_shopCounters d)" "(sc_id c, s, k) \<in> set (counter_keys d)"
  shows "s = sc_shopId c \<and> k = sc_counter c"
proof -
  from assms(3) obtain x where x: "x \<in> set (db_shopCounters d)" "sc_id x = sc_id c" "s = sc_shopId x" "k = sc_counter x"
    by (auto simp: counter_keys_def)
  with unique_counter [OF assms(1,2) x(1,2)] show ?thesis by simp
qed

lemma lot_keys_unique:
  assumes "ledger_ok d" "l \<in> set (db_lots d)" "(lot_id l, s) \<in> set (lot_keys d)"
  shows "s = lot_shopId l"
proof -
  from assms(3) obtain x where x: "x \<in> set (db_lots d)" "lot_id x = lot_id l" "s = lot_shopId x"
    by (auto simp: lot_keys_def)
  with unique_lot [OF assms(1,2) x(1,2)] show ?thesis by simp
qed

text \<open>The kind of the counter that a reservation names tells its source.\<close>

lemma counter_source:
  assumes ok: "ledger_ok d" and r: "r \<in> set (db_reservations d)"
    and c: "c \<in> set (db_shopCounters d)" "res_counterId r = Some (sc_id c)"
  shows "sc_counter c = LIFETIME_FREE_RECOVERY_CREDITS \<Longrightarrow> owned_by d Free_Source r"
    "sc_counter c = PURCHASED_RECOVERY_CREDITS \<Longrightarrow> owned_by d Purchased_Source r"
proof -
  from ledger_okD(5) [OF ok r] obtain k where k: "owned_by d k r" by (auto simp: reservation_ok_def)
  show "sc_counter c = LIFETIME_FREE_RECOVERY_CREDITS \<Longrightarrow> owned_by d Free_Source r"
    using k c by (cases k) (auto dest: counter_keys_unique [OF ok c(1)])
  show "sc_counter c = PURCHASED_RECOVERY_CREDITS \<Longrightarrow> owned_by d Purchased_Source r"
    using k c by (cases k) (auto dest: counter_keys_unique [OF ok c(1)])
qed

text \<open>Elimination rules that take a successful run apart, step by step.\<close>

lemma and_then_InrE:
  assumes "and_then x f = Inr b" obtains a where "x = Inr a" "f a = Inr b"
  using assms by (auto simp: and_then_Inr)

lemma and_then_pairE:
  assumes "and_then x (\<lambda>(a, b). f a b) = Inr c" obtains a b where "x = Inr (a, b)" "f a b = Inr c"
  using assms by (auto simp: and_then_Inr)

lemma expect_InrE:
  assumes "expect x e = Inr a" obtains "x = Some a"
  using assms by (simp add: expect_Inr)

lemma if_not_InlE:
  assumes "(if \<not> c then Inl e else y) = Inr b" obtains "c" "y = Inr b"
  using assms by (auto split: if_splits)

lemma if_InlE:
  assumes "(if c then Inl e else y) = Inr b" obtains "\<not> c" "y = Inr b"
  using assms by (auto split: if_splits)

text \<open>The last step, whose row goes into the outcome.\<close>

lemma and_then_lastE:
  assumes "and_then x (\<lambda>(a, b). Inr (f a, b)) = Inr (out, d)" obtains a where "x = Inr (a, d)" "out = f a"
  using assms by (auto simp: and_then_Inr)

lemmas run_elims = and_then_lastE and_then_pairE and_then_InrE expect_InrE if_not_InlE if_InlE

end
