(* ===== verification/Free_Reservation.thy ===== *)
theory Free_Reservation
  imports Reservation_Common
begin

text \<open>
  \<open>src/services/free-recovery-reservation.service.ts\<close>: reservations against the lifetime free
  allowance of a shop. Every operation is a function from the database to an outcome and the
  database after the transaction; the id of a row it creates and the time are arguments.
\<close>

section \<open>Operations\<close>

datatype free_outcome =
    Free_Reserved reservation shop_counter_kind
  | Free_Committed reservation
  | Free_Released reservation
  | Free_Ambiguous reservation
  | Free_Replay replay_kind reservation shop_counter_kind
  | Free_Allowance_Exhausted int
  | Free_Paused

definition free_error :: "string \<Rightarrow> failure" where
  "free_error m = Service_Error Free_Recovery_Reservation_Error m"

definition free_replay :: "reservation \<Rightarrow> shop_counter_kind \<Rightarrow> free_outcome" where
  "free_replay r counter = Free_Replay (replay_kind_of (res_status r)) r counter"

definition assert_lifetime_counter :: "int \<Rightarrow> int \<Rightarrow> int \<Rightarrow> id \<Rightarrow> unit result" where
  "assert_lifetime_counter granted committed reserved shopId =
     (if \<not> is_safe_int granted \<or> \<not> is_safe_int committed \<or> \<not> is_safe_int reserved \<or>
         granted < 0 \<or> committed < 0 \<or> reserved < 0 \<or> committed + reserved > granted
      then Inl (free_error (''Invalid lifetime Free recovery counter for shop '' @ shopId))
      else Inr ())"

definition free_require_reservation :: "db \<Rightarrow> id \<Rightarrow> string \<Rightarrow> reservation result" where
  "free_require_reservation = require_reservation free_error"

definition free_read_counter_version :: "db \<Rightarrow> id \<Rightarrow> int result" where
  "free_read_counter_version d counterId =
     and_then (expect (find_counter d counterId) (free_error ''Reservation counter does not exist''))
       (\<lambda>c. Inr (sc_version c))"

definition free_read_reservation_counter :: "db \<Rightarrow> reservation \<Rightarrow> shop_counter_kind result" where
  "free_read_reservation_counter d r =
     (if \<not> truthy (res_counterId r) then Inl (free_error ''Reservation counter does not exist'')
      else case find_counter d (the (res_counterId r)) of
          Some c \<Rightarrow>
            (if sc_counter c \<noteq> PURCHASED_RECOVERY_CREDITS \<and> sc_counter c \<noteq> LIFETIME_FREE_RECOVERY_CREDITS
             then Inl (free_error ''Reservation counter is not a recovery capacity counter'')
             else Inr (sc_counter c))
        | None \<Rightarrow> Inl (free_error ''Reservation counter is not a recovery capacity counter''))"

text \<open>The two optimistic updates of the counter.\<close>

definition reserve_row :: "int \<Rightarrow> shop_counter \<Rightarrow> shop_counter" where
  "reserve_row quantity c =
     c\<lparr>sc_reservedQuantity := sc_reservedQuantity c + quantity, sc_version := sc_version c + 1\<rparr>"

definition commit_counter_row :: "int \<Rightarrow> shop_counter \<Rightarrow> shop_counter" where
  "commit_counter_row quantity c =
     c\<lparr>sc_reservedQuantity := sc_reservedQuantity c - quantity,
       sc_committedQuantity := sc_committedQuantity c + quantity, sc_version := sc_version c + 1\<rparr>"

definition release_counter_row :: "int \<Rightarrow> shop_counter \<Rightarrow> shop_counter" where
  "release_counter_row quantity c =
     c\<lparr>sc_reservedQuantity := sc_reservedQuantity c - quantity, sc_version := sc_version c + 1\<rparr>"

definition reserve_counter :: "shop_counter \<Rightarrow> int \<Rightarrow> db \<Rightarrow> db result" where
  "reserve_counter c quantity d =
     and_then (update_one (\<lambda>x. sc_id x = sc_id c \<and> sc_version x = sc_version c)
                 (reserve_row quantity) (db_shopCounters d)) (\<lambda>t.
     Inr (d\<lparr>db_shopCounters := t\<rparr>))"

definition free_reactivate ::
  "db \<Rightarrow> reservation \<Rightarrow> id \<Rightarrow> int \<Rightarrow> (free_outcome \<times> db) result" where
  "free_reactivate d existing shopId quantity =
     and_then (transition_decision existing Reactivate quantity free_error) (\<lambda>decision.
     if decision \<noteq> Apply then Inr (free_replay existing LIFETIME_FREE_RECOVERY_CREDITS, d)
     else
       and_then (expect (find_counter d (case res_counterId existing of None \<Rightarrow> '''' | Some i \<Rightarrow> i))
                   (free_error ''Reservation counter does not exist'')) (\<lambda>c.
       and_then (assert_lifetime_counter (sc_grantedQuantity c) (sc_committedQuantity c)
                   (sc_reservedQuantity c) shopId) (\<lambda>_.
       if sc_grantedQuantity c - sc_committedQuantity c - sc_reservedQuantity c < quantity
       then Inr (free_replay existing LIFETIME_FREE_RECOVERY_CREDITS, d)
       else
         and_then (reserve_counter c quantity d) (\<lambda>d1.
         and_then (update_reservation (with_status RESERVED) existing d1) (\<lambda>(r, d2).
         Inr (Free_Reserved r LIFETIME_FREE_RECOVERY_CREDITS, d2))))))"

definition free_reserve_new ::
  "db \<Rightarrow> id \<Rightarrow> id \<Rightarrow> string \<Rightarrow> int \<Rightarrow> (free_outcome \<times> db) result" where
  "free_reserve_new d newId shopId sourceKey quantity =
     and_then (expect (find_shop_counter d shopId LIFETIME_FREE_RECOVERY_CREDITS)
                 (free_error ''Lifetime Free recovery counter does not exist'')) (\<lambda>c.
     and_then (assert_lifetime_counter (sc_grantedQuantity c) (sc_committedQuantity c)
                 (sc_reservedQuantity c) shopId) (\<lambda>_.
     let remaining = sc_grantedQuantity c - sc_committedQuantity c - sc_reservedQuantity c in
     if remaining < quantity then Inr (Free_Allowance_Exhausted remaining, d)
     else
       and_then (reserve_counter c quantity d) (\<lambda>d1.
       and_then (create_reservation
                   ((new_reservation newId shopId sourceKey quantity)\<lparr>res_counterId := Some (sc_id c)\<rparr>) d1)
         (\<lambda>(r, d2). Inr (Free_Reserved r LIFETIME_FREE_RECOVERY_CREDITS, d2)))))"

definition free_reserve_in_transaction ::
  "shared \<Rightarrow> time \<Rightarrow> id \<Rightarrow> id \<Rightarrow> string \<Rightarrow> int \<Rightarrow> bool \<Rightarrow> db \<Rightarrow> (free_outcome \<times> db) result" where
  "free_reserve_in_transaction S now newId shopId sourceKey quantity postContract d =
     (case find_reservation d sourceKey of
        Some existing \<Rightarrow>
          and_then (assert_reservation_shop existing shopId free_error) (\<lambda>_.
          and_then (free_read_reservation_counter d existing) (\<lambda>counter.
          if counter = LIFETIME_FREE_RECOVERY_CREDITS then free_reactivate d existing shopId quantity
          else Inr (free_replay existing counter, d)))
      | None \<Rightarrow>
          if \<not> postContract then
            and_then (resolve_policy S d shopId now) (\<lambda>policy.
            if ep_newRecoveriesPaused policy then Inr (Free_Paused, d)
            else free_reserve_new d newId shopId sourceKey quantity)
          else free_reserve_new d newId shopId sourceKey quantity)"

definition free_commit_in_transaction ::
  "shared \<Rightarrow> id \<Rightarrow> id \<Rightarrow> string \<Rightarrow> int \<Rightarrow> db \<Rightarrow> (free_outcome \<times> db) result" where
  "free_commit_in_transaction S eventId shopId sourceKey quantity d =
     and_then (free_require_reservation d shopId sourceKey) (\<lambda>r.
     and_then (transition_decision r Commit quantity free_error) (\<lambda>decision.
     if decision \<noteq> Apply then Inr (free_replay r LIFETIME_FREE_RECOVERY_CREDITS, d)
     else if \<not> truthy (res_counterId r) then Inl (free_error ''Reservation counter does not exist'')
     else
       let counterId = the (res_counterId r) in
       and_then (free_read_counter_version d counterId) (\<lambda>version.
       and_then (update_one (\<lambda>c. sc_id c = counterId \<and> sc_version c = version \<and> sc_reservedQuantity c \<ge> quantity)
                   (commit_counter_row quantity) (db_shopCounters d)) (\<lambda>counters.
       and_then (resolve_recovery_usage_provider d shopId) (\<lambda>provider.
       and_then (create_usage_event
                   (new_usage_event eventId shopId quantity (createRecoveryIdempotencyKey S shopId sourceKey)
                      ''FREE_RECOVERY_RESERVATION'' (res_id r) provider)
                   (d\<lparr>db_shopCounters := counters\<rparr>)) (\<lambda>(e, d2).
       and_then (update_reservation (committed_row (ue_id e)) r d2) (\<lambda>(committed, d3).
       Inr (Free_Committed committed, d3))))))))"

definition free_release_in_transaction ::
  "id \<Rightarrow> string \<Rightarrow> int \<Rightarrow> db \<Rightarrow> (free_outcome \<times> db) result" where
  "free_release_in_transaction shopId sourceKey quantity d =
     and_then (free_require_reservation d shopId sourceKey) (\<lambda>r.
     and_then (transition_decision r Release quantity free_error) (\<lambda>decision.
     if decision \<noteq> Apply then Inr (free_replay r LIFETIME_FREE_RECOVERY_CREDITS, d)
     else if \<not> truthy (res_counterId r) then Inl (free_error ''Reservation counter does not exist'')
     else
       let counterId = the (res_counterId r) in
       and_then (free_read_counter_version d counterId) (\<lambda>version.
       and_then (update_one (\<lambda>c. sc_id c = counterId \<and> sc_version c = version \<and> sc_reservedQuantity c \<ge> quantity)
                   (release_counter_row quantity) (db_shopCounters d)) (\<lambda>counters.
       and_then (update_reservation (with_status RELEASED) r (d\<lparr>db_shopCounters := counters\<rparr>)) (\<lambda>(released, d2).
       Inr (Free_Released released, d2))))))"

text \<open>The quantity of a mark-ambiguous input is validated and not used.\<close>

definition free_mark_ambiguous_in_transaction ::
  "id \<Rightarrow> string \<Rightarrow> db \<Rightarrow> (free_outcome \<times> db) result" where
  "free_mark_ambiguous_in_transaction shopId sourceKey d =
     and_then (free_require_reservation d shopId sourceKey) (\<lambda>r.
     and_then (transition_decision r Ambiguous 0 free_error) (\<lambda>decision.
     if decision \<noteq> Apply then Inr (free_replay r LIFETIME_FREE_RECOVERY_CREDITS, d)
     else
       and_then (update_reservation (with_status AMBIGUOUS) r d) (\<lambda>(ambiguous, d2).
       Inr (Free_Ambiguous ambiguous, d2))))"

section \<open>The public methods\<close>

text \<open>
  Every method validates the quantity and runs its transaction in the retry loop. A
  \<open>db env\<close> gives what happens between the attempts and the ids and times of an attempt.
\<close>

definition validated ::
  "(string \<Rightarrow> failure) \<Rightarrow> js_number option \<Rightarrow> (int \<Rightarrow> db \<Rightarrow> 'a result \<times> db) \<Rightarrow> db \<Rightarrow> 'a result \<times> db" where
  "validated createError quantity run d =
     (case validate_quantity quantity createError of Inl e \<Rightarrow> (Inl e, d) | Inr q \<Rightarrow> run q d)"

definition free_reserve ::
  "shared \<Rightarrow> db env \<Rightarrow> nat \<Rightarrow> id \<Rightarrow> string \<Rightarrow> js_number option \<Rightarrow> db \<Rightarrow> free_outcome result \<times> db" where
  "free_reserve S E maxRetries shopId sourceKey quantity =
     validated free_error quantity (\<lambda>q. with_retry E
       (\<lambda>n. free_reserve_in_transaction S (env_now E n) (env_ids E n 0) shopId sourceKey q False)
       free_error maxRetries)"

definition free_reserve_post_contract ::
  "shared \<Rightarrow> db env \<Rightarrow> nat \<Rightarrow> id \<Rightarrow> string \<Rightarrow> js_number option \<Rightarrow> db \<Rightarrow> free_outcome result \<times> db" where
  "free_reserve_post_contract S E maxRetries shopId sourceKey quantity =
     validated free_error quantity (\<lambda>q. with_retry E
       (\<lambda>n. free_reserve_in_transaction S (env_now E n) (env_ids E n 0) shopId sourceKey q True)
       free_error maxRetries)"

definition free_commit ::
  "shared \<Rightarrow> db env \<Rightarrow> nat \<Rightarrow> id \<Rightarrow> string \<Rightarrow> js_number option \<Rightarrow> db \<Rightarrow> free_outcome result \<times> db" where
  "free_commit S E maxRetries shopId sourceKey quantity =
     validated free_error quantity (\<lambda>q. with_retry E
       (\<lambda>n. free_commit_in_transaction S (env_ids E n 0) shopId sourceKey q) free_error maxRetries)"

definition free_release ::
  "db env \<Rightarrow> nat \<Rightarrow> id \<Rightarrow> string \<Rightarrow> js_number option \<Rightarrow> db \<Rightarrow> free_outcome result \<times> db" where
  "free_release E maxRetries shopId sourceKey quantity =
     validated free_error quantity (\<lambda>q. with_retry E
       (\<lambda>n. free_release_in_transaction shopId sourceKey q) free_error maxRetries)"

definition free_mark_ambiguous ::
  "db env \<Rightarrow> nat \<Rightarrow> id \<Rightarrow> string \<Rightarrow> js_number option \<Rightarrow> db \<Rightarrow> free_outcome result \<times> db" where
  "free_mark_ambiguous E maxRetries shopId sourceKey quantity =
     validated free_error quantity (\<lambda>q. with_retry E
       (\<lambda>n. free_mark_ambiguous_in_transaction shopId sourceKey) free_error maxRetries)"

text \<open>The variants that join a transaction of the caller validate and do not retry.\<close>

definition free_commit_in_existing_transaction ::
  "shared \<Rightarrow> id \<Rightarrow> id \<Rightarrow> string \<Rightarrow> js_number option \<Rightarrow> db \<Rightarrow> (free_outcome \<times> db) result" where
  "free_commit_in_existing_transaction S eventId shopId sourceKey quantity d =
     and_then (validate_quantity quantity free_error) (\<lambda>q.
     free_commit_in_transaction S eventId shopId sourceKey q d)"

definition free_release_in_existing_transaction ::
  "id \<Rightarrow> string \<Rightarrow> js_number option \<Rightarrow> db \<Rightarrow> (free_outcome \<times> db) result" where
  "free_release_in_existing_transaction shopId sourceKey quantity d =
     and_then (validate_quantity quantity free_error) (\<lambda>q.
     free_release_in_transaction shopId sourceKey q d)"


section \<open>What a successful operation did\<close>

lemma reserve_row_keys [simp]:
  "sc_id (reserve_row q c) = sc_id c" "sc_id (commit_counter_row q c) = sc_id c" "sc_id (release_counter_row q c) = sc_id c"
  "sc_shopId (reserve_row q c) = sc_shopId c" "sc_shopId (commit_counter_row q c) = sc_shopId c"
  "sc_shopId (release_counter_row q c) = sc_shopId c"
  "sc_counter (reserve_row q c) = sc_counter c" "sc_counter (commit_counter_row q c) = sc_counter c"
  "sc_counter (release_counter_row q c) = sc_counter c"
  by (simp_all add: reserve_row_def commit_counter_row_def release_counter_row_def)

lemma reserve_counter_InrD:
  assumes "reserve_counter c q d = Inr d'" "distinct (map sc_id (db_shopCounters d))"
    "c \<in> set (db_shopCounters d)"
  shows "d' = d\<lparr>db_shopCounters := update_key sc_id (sc_id c) (reserve_row q) (db_shopCounters d)\<rparr>"
  using assms by (auto simp: reserve_counter_def result_iffs dest: update_one_row [where key = sc_id])

lemma free_commit_InrD:
  assumes run: "free_commit_in_transaction S e s k q d = Inr (out, d')" and ok: "ledger_ok d"
  obtains (replay) r where "find_reservation d k = Some r" "res_shopId r = s" "res_status r \<noteq> RESERVED"
      "out = free_replay r LIFETIME_FREE_RECOVERY_CREDITS" "d' = d"
    | (applied) r c p where "r \<in> set (db_reservations d)" "res_sourceKey r = k" "res_shopId r = s"
      "res_status r = RESERVED" "res_quantity r = q" "res_counterId r = Some (sc_id c)"
      "c \<in> set (db_shopCounters d)" "out = Free_Committed (committed_row e r)"
      "d' = d\<lparr>db_shopCounters := update_key sc_id (sc_id c) (commit_counter_row q) (db_shopCounters d),
              db_usageEvents := db_usageEvents d @ [new_usage_event e s q (createRecoveryIdempotencyKey S s k)
                ''FREE_RECOVERY_RESERVATION'' (res_id r) p],
              db_reservations := update_key res_id (res_id r) (committed_row e) (db_reservations d)\<rparr>"
proof -
  from run obtain r dec where rq: "free_require_reservation d s k = Inr r"
    and dec: "transition_decision r Commit q free_error = Inr dec"
    by (auto simp: free_commit_in_transaction_def result_iffs)
  note r = require_reservation_InrD [OF rq [unfolded free_require_reservation_def]]
  show ?thesis
  proof (cases "dec = Apply")
    case False
    with run rq dec r not_ApplyD [OF dec] show ?thesis
      by (intro replay [of r]) (auto simp: free_commit_in_transaction_def)
  next
    case True
    with run rq dec obtain counters p ev d2 x version where
      t: "truthy (res_counterId r)"
      and u: "update_one (\<lambda>c. sc_id c = the (res_counterId r) \<and> sc_version c = version \<and> q \<le> sc_reservedQuantity c)
            (commit_counter_row q) (db_shopCounters d) = Inr counters"
      and ev: "create_usage_event (new_usage_event e s q (createRecoveryIdempotencyKey S s k)
            ''FREE_RECOVERY_RESERVATION'' (res_id r) p) (d\<lparr>db_shopCounters := counters\<rparr>) = Inr (ev, d2)"
      and upd: "update_reservation (committed_row (ue_id ev)) r d2 = Inr (x, d')" "out = Free_Committed x"
      by (auto simp: free_commit_in_transaction_def result_iffs Let_def split: if_splits)
    obtain c where c: "c \<in> set (db_shopCounters d)" "sc_id c = the (res_counterId r)"
      "counters = update_key sc_id (the (res_counterId r)) (commit_counter_row q) (db_shopCounters d)"
      by (rule update_one_InrD [OF u ledger_keys(3) [OF ok]])
    from r c transition_decision_Apply [OF dec [unfolded True]] truthy_SomeD [OF t] upd(2)
      commit_tail [OF ev upd(1)] ledger_keys(1) [OF ok] show ?thesis
      by (intro applied [of r c p]) simp_all
  qed
qed

lemma free_release_InrD:
  assumes run: "free_release_in_transaction s k q d = Inr (out, d')" and ok: "ledger_ok d"
  obtains (replay) r where "find_reservation d k = Some r" "res_shopId r = s" "res_status r \<noteq> RESERVED"
      "out = free_replay r LIFETIME_FREE_RECOVERY_CREDITS" "d' = d"
    | (applied) r c where "r \<in> set (db_reservations d)" "res_sourceKey r = k" "res_shopId r = s"
      "res_status r = RESERVED" "res_quantity r = q" "res_counterId r = Some (sc_id c)"
      "c \<in> set (db_shopCounters d)" "out = Free_Released (with_status RELEASED r)"
      "d' = d\<lparr>db_shopCounters := update_key sc_id (sc_id c) (release_counter_row q) (db_shopCounters d),
              db_reservations := update_key res_id (res_id r) (with_status RELEASED) (db_reservations d)\<rparr>"
proof -
  from run obtain r dec where rq: "free_require_reservation d s k = Inr r"
    and dec: "transition_decision r Release q free_error = Inr dec"
    by (auto simp: free_release_in_transaction_def result_iffs)
  note r = require_reservation_InrD [OF rq [unfolded free_require_reservation_def]]
  show ?thesis
  proof (cases "dec = Apply")
    case False
    with run rq dec r not_ApplyD [OF dec] show ?thesis
      by (intro replay [of r]) (auto simp: free_release_in_transaction_def)
  next
    case True
    with run rq dec obtain counters x version where
      t: "truthy (res_counterId r)"
      and u: "update_one (\<lambda>c. sc_id c = the (res_counterId r) \<and> sc_version c = version \<and> q \<le> sc_reservedQuantity c)
            (release_counter_row q) (db_shopCounters d) = Inr counters"
      and upd: "update_reservation (with_status RELEASED) r (d\<lparr>db_shopCounters := counters\<rparr>) = Inr (x, d')"
        "out = Free_Released x"
      by (auto simp: free_release_in_transaction_def result_iffs Let_def split: if_splits)
    obtain c where c: "c \<in> set (db_shopCounters d)" "sc_id c = the (res_counterId r)"
      "counters = update_key sc_id (the (res_counterId r)) (release_counter_row q) (db_shopCounters d)"
      by (rule update_one_InrD [OF u ledger_keys(3) [OF ok]])
    from r c transition_decision_Apply [OF dec [unfolded True]] truthy_SomeD [OF t] upd(2)
      update_reservation_InrD [OF upd(1)] ledger_keys(1) [OF ok] show ?thesis
      by (intro applied [of r c]) simp_all
  qed
qed

lemma free_mark_ambiguous_InrD:
  assumes run: "free_mark_ambiguous_in_transaction s k d = Inr (out, d')" and ok: "ledger_ok d"
  obtains (replay) r where "find_reservation d k = Some r" "res_shopId r = s" "res_status r \<noteq> RESERVED"
      "out = free_replay r LIFETIME_FREE_RECOVERY_CREDITS" "d' = d"
    | (applied) r where "r \<in> set (db_reservations d)" "res_sourceKey r = k" "res_shopId r = s"
      "res_status r = RESERVED" "out = Free_Ambiguous (with_status AMBIGUOUS r)"
      "d' = d\<lparr>db_reservations := update_key res_id (res_id r) (with_status AMBIGUOUS) (db_reservations d)\<rparr>"
proof -
  from run obtain r dec where rq: "free_require_reservation d s k = Inr r"
    and dec: "transition_decision r Ambiguous 0 free_error = Inr dec"
    by (auto simp: free_mark_ambiguous_in_transaction_def result_iffs)
  note r = require_reservation_InrD [OF rq [unfolded free_require_reservation_def]]
  show ?thesis
  proof (cases "dec = Apply")
    case False
    with run rq dec r not_ApplyD [OF dec] show ?thesis
      by (intro replay [of r]) (auto simp: free_mark_ambiguous_in_transaction_def)
  next
    case True
    with run rq dec obtain x where
      upd: "update_reservation (with_status AMBIGUOUS) r d = Inr (x, d')" "out = Free_Ambiguous x"
      by (auto simp: free_mark_ambiguous_in_transaction_def result_iffs)
    from r transition_decision_Apply [OF dec [unfolded True]] upd(2)
      update_reservation_InrD [OF upd(1)] ledger_keys(1) [OF ok] show ?thesis
      by (intro applied [of r]) simp_all
  qed
qed

lemma free_reserve_new_InrD:
  assumes run: "free_reserve_new d i s k q = Inr (out, d')" and ok: "ledger_ok d"
  obtains (exhausted) n where "out = Free_Allowance_Exhausted n" "n < q" "d' = d"
    | (applied) c r where "c \<in> set (db_shopCounters d)" "sc_shopId c = s"
      "sc_counter c = LIFETIME_FREE_RECOVERY_CREDITS"
      "r = (new_reservation i s k q)\<lparr>res_counterId := Some (sc_id c)\<rparr>"
      "sc_committedQuantity c + sc_reservedQuantity c + q \<le> sc_grantedQuantity c"
      "\<forall>x\<in>set (db_reservations d). \<not> reservation_clash r x"
      "out = Free_Reserved r LIFETIME_FREE_RECOVERY_CREDITS"
      "d' = d\<lparr>db_shopCounters := update_key sc_id (sc_id c) (reserve_row q) (db_shopCounters d),
              db_reservations := db_reservations d @ [r]\<rparr>"
proof -
  from run obtain c where fc: "find_shop_counter d s LIFETIME_FREE_RECOVERY_CREDITS = Some c"
    by (auto simp: free_reserve_new_def result_iffs)
  note c = find_shop_counter_SomeD [OF fc]
  let ?r = "(new_reservation i s k q)\<lparr>res_counterId := Some (sc_id c)\<rparr>"
  show ?thesis
  proof (cases "sc_grantedQuantity c - sc_committedQuantity c - sc_reservedQuantity c < q")
    case True
    with run fc show ?thesis by (intro exhausted) (auto simp: free_reserve_new_def result_iffs Let_def)
  next
    case False
    with run fc obtain d1 x where d1: "reserve_counter c q d = Inr d1"
      and x: "create_reservation ?r d1 = Inr (x, d')" "out = Free_Reserved x LIFETIME_FREE_RECOVERY_CREDITS"
      by (auto simp: free_reserve_new_def result_iffs Let_def)
    from False c x(2) reserve_counter_InrD [OF d1 ledger_keys(3) [OF ok]] create_reservation_InrD [OF x(1)]
    show ?thesis by (intro applied [of c ?r]) simp_all
  qed
qed

lemma free_reactivate_InrD:
  assumes run: "free_reactivate d r s q = Inr (out, d')" and ok: "ledger_ok d"
    and r: "r \<in> set (db_reservations d)"
  obtains (replay) "out = free_replay r LIFETIME_FREE_RECOVERY_CREDITS" "d' = d"
    | (applied) c where "res_status r = RELEASED" "res_quantity r = q" "c \<in> set (db_shopCounters d)"
      "sc_committedQuantity c + sc_reservedQuantity c + q \<le> sc_grantedQuantity c"
      "sc_id c = (case res_counterId r of None \<Rightarrow> '''' | Some i \<Rightarrow> i)"
      "out = Free_Reserved (with_status RESERVED r) LIFETIME_FREE_RECOVERY_CREDITS"
      "d' = d\<lparr>db_shopCounters := update_key sc_id (sc_id c) (reserve_row q) (db_shopCounters d),
              db_reservations := update_key res_id (res_id r) (with_status RESERVED) (db_reservations d)\<rparr>"
proof -
  from run obtain dec where dec: "transition_decision r Reactivate q free_error = Inr dec"
    by (auto simp: free_reactivate_def result_iffs)
  show ?thesis
  proof (cases "dec = Apply")
    case False
    with run dec show ?thesis by (intro replay) (auto simp: free_reactivate_def)
  next
    case True
    let ?i = "case res_counterId r of None \<Rightarrow> '''' | Some i \<Rightarrow> i"
    from run dec True obtain c where fc: "find_counter d ?i = Some c"
      by (auto simp: free_reactivate_def result_iffs)
    show ?thesis
    proof (cases "sc_grantedQuantity c - sc_committedQuantity c - sc_reservedQuantity c < q")
      case True
      with run dec \<open>dec = Apply\<close> fc show ?thesis
        by (intro replay) (auto simp: free_reactivate_def result_iffs)
    next
      case False
      with run dec \<open>dec = Apply\<close> fc obtain d1 x where d1: "reserve_counter c q d = Inr d1"
        and x: "update_reservation (with_status RESERVED) r d1 = Inr (x, d')"
          "out = Free_Reserved x LIFETIME_FREE_RECOVERY_CREDITS"
        by (auto simp: free_reactivate_def result_iffs)
      from False find_counter_SomeD [OF fc] x(2) reserve_counter_InrD [OF d1 ledger_keys(3) [OF ok]]
        update_reservation_InrD [OF x(1)] r ledger_keys(1) [OF ok]
        transition_decision_Apply [OF dec [unfolded \<open>dec = Apply\<close>]]
      show ?thesis by (intro applied [of c]) simp_all
    qed
  qed
qed

section \<open>The ledger invariant\<close>

lemma free_commit_step:
  assumes "ledger_ok d" "r \<in> set (db_reservations d)" "owned_by d Free_Source r" "res_status r = RESERVED"
    and "c \<in> set (db_shopCounters d)" "res_counterId r = Some (sc_id c)"
    and "db_reservations d' = update_key res_id (res_id r) (committed_row e) (db_reservations d)"
    and "db_shopCounters d' = update_key sc_id (sc_id c) (commit_counter_row (res_quantity r)) (db_shopCounters d)"
    and "db_lots d' = db_lots d" "db_periodCounters d' = db_periodCounters d" "db_grants d' = db_grants d"
  shows "ledger_ok d'"
proof (rule ledger_step_free [OF assms(1), where old = "Some r" and new = "committed_row e r"])
  show "rows_step (Some r) (committed_row e r) (db_reservations d) (db_reservations d')"
    unfolding assms(7) using assms(2) by (rule rows_step_commit)
  have comp: "res_compensationUsageEventId r = None"
    using uncompensated [OF assms(1,2)] assms(4) by simp
  show "sc_reservedQuantity (commit_counter_row (res_quantity r) x)
        = sc_reservedQuantity x + change held_weight (Some r) (committed_row e r) \<and>
      sc_committedQuantity (commit_counter_row (res_quantity r) x)
        = sc_committedQuantity x + change spent_weight (Some r) (committed_row e r) \<and>
      counter_ok (commit_counter_row (res_quantity r) x)"
    if x: "x \<in> set (db_shopCounters d)" "sc_id x = sc_id c" for x
    using bounds_okD(1) [OF assms(1) x(1)] change_commit [OF assms(4) comp, of e]
    by (simp add: commit_counter_row_def counter_ok_def)
qed (use assms change_ok_commit [OF assms(1,2)] in auto)

lemma free_status_step:
  assumes "ledger_ok d" "r \<in> set (db_reservations d)" "owned_by d Free_Source r"
    and "res_status r \<noteq> COMMITTED" "st \<noteq> COMMITTED"
    and "c \<in> set (db_shopCounters d)" "res_counterId r = Some (sc_id c)"
    and "db_reservations d' = update_key res_id (res_id r) (with_status st) (db_reservations d)"
    and "db_shopCounters d' = update_key sc_id (sc_id c) f (db_shopCounters d)"
    and "db_lots d' = db_lots d" "db_periodCounters d' = db_periodCounters d" "db_grants d' = db_grants d"
    and f: "\<And>x. sc_id (f x) = sc_id x \<and> sc_shopId (f x) = sc_shopId x \<and> sc_counter (f x) = sc_counter x"
    and fc: "sc_reservedQuantity (f c) = sc_reservedQuantity c + held_weight (with_status st r) - held_weight r"
      "sc_committedQuantity (f c) = sc_committedQuantity c" "counter_ok (f c)"
  shows "ledger_ok d'"
proof (rule ledger_step_free [OF assms(1), where old = "Some r" and new = "with_status st r" and f = f])
  show "rows_step (Some r) (with_status st r) (db_reservations d) (db_reservations d')"
    unfolding assms(8) using assms(2) by (rule rows_step_status)
  show "sc_reservedQuantity (f x) = sc_reservedQuantity x + change held_weight (Some r) (with_status st r) \<and>
      sc_committedQuantity (f x) = sc_committedQuantity x + change spent_weight (Some r) (with_status st r) \<and>
      counter_ok (f x)"
    if x: "x \<in> set (db_shopCounters d)" "sc_id x = sc_id c" for x
    using unique_counter [OF assms(1,6) x] fc change_status(2) [OF assms(4,5)]
    by (simp add: change_def)
qed (use assms change_ok_status [OF assms(1,2,4,5)] in auto)

text \<open>
  The operations keep the ledger. Commit and release do not look at the kind of the counter, so
  for them the reservation with the given source key has to be one of the free source.
\<close>

definition free_key :: "db \<Rightarrow> string \<Rightarrow> bool" where
  "free_key d k \<longleftrightarrow> (\<forall>r. find_reservation d k = Some r \<longrightarrow> owned_by d Free_Source r)"

lemma free_commit_ledger:
  assumes run: "free_commit_in_transaction S e s k q d = Inr (out, d')"
    and ok: "ledger_ok d" and key: "free_key d k"
  shows "ledger_ok d'"
proof (cases rule: free_commit_InrD [OF run ok])
  case (2 r c p)
  moreover from this have "owned_by d Free_Source r"
    using key find_by_key [OF ok \<open>r \<in> set (db_reservations d)\<close>] by (simp add: free_key_def)
  ultimately show ?thesis
    by (intro free_commit_step [OF ok, where r = r and c = c and e = e]) auto
qed (use ok in simp)

lemma free_release_ledger:
  assumes run: "free_release_in_transaction s k q d = Inr (out, d')"
    and ok: "ledger_ok d" and key: "free_key d k"
  shows "ledger_ok d'"
proof (cases rule: free_release_InrD [OF run ok])
  case (2 r c)
  moreover from this have "owned_by d Free_Source r"
    using key find_by_key [OF ok \<open>r \<in> set (db_reservations d)\<close>] by (simp add: free_key_def)
  moreover have "counter_ok c" using bounds_okD(1) [OF ok 2(7)] .
  ultimately show ?thesis
    using quantity_pos [OF ok 2(1)]
    by (intro free_status_step [OF ok, where r = r and c = c and st = RELEASED and f = "release_counter_row q"])
      (auto simp: held_weight_simps release_counter_row_def counter_ok_def)
qed (use ok in simp)

lemma free_mark_ambiguous_ledger:
  assumes run: "free_mark_ambiguous_in_transaction s k d = Inr (out, d')" and ok: "ledger_ok d"
  shows "ledger_ok d'"
proof (cases rule: free_mark_ambiguous_InrD [OF run ok])
  case (2 r)
  then show ?thesis using ledger_mark_ambiguous [OF ok] by simp
qed (use ok in simp)

lemma free_reserve_new_ledger:
  assumes run: "free_reserve_new d i s k q = Inr (out, d')" and ok: "ledger_ok d" and q: "0 < q"
  shows "ledger_ok d'"
proof (cases rule: free_reserve_new_InrD [OF run ok])
  case (2 c r)
  then have row: "res_status r = RESERVED" "res_quantity r = q" "res_compensationUsageEventId r = None"
    by (simp_all add: new_reservation_def)
  show ?thesis
  proof (rule ledger_step_free [OF ok, where old = None and new = r and k = "sc_id c" and f = "reserve_row q"])
    show "rows_step None r (db_reservations d) (db_reservations d')"
      using 2 by (simp add: rows_step_append)
    show "owned_by d Free_Source r" "res_counterId r = Some (sc_id c)"
      using 2 by (force simp: new_reservation_def counter_keys_def)+
    show "reservation_change_ok None r" using q row by (rule change_ok_new)
    show "sc_reservedQuantity (reserve_row q x) = sc_reservedQuantity x + change held_weight None r \<and>
        sc_committedQuantity (reserve_row q x) = sc_committedQuantity x + change spent_weight None r \<and>
        counter_ok (reserve_row q x)" if x: "x \<in> set (db_shopCounters d)" "sc_id x = sc_id c" for x
      using unique_counter [OF ok 2(1) x] 2(5) row change_new [OF row(1)]
      by (simp add: reserve_row_def counter_ok_def)
  qed (use 2 in simp_all)
qed (use ok in simp)

lemma free_reactivate_ledger:
  assumes run: "free_reactivate d r s q = Inr (out, d')" and ok: "ledger_ok d"
    and r: "r \<in> set (db_reservations d)" "owned_by d Free_Source r"
  shows "ledger_ok d'"
proof (cases rule: free_reactivate_InrD [OF run ok r(1)])
  case (2 c)
  moreover have "res_counterId r = Some (sc_id c)" using 2(5) r(2) by (auto split: option.splits)
  ultimately show ?thesis using r
    by (intro free_status_step [OF ok, where r = r and c = c and st = RESERVED and f = "reserve_row q"])
      (auto simp: held_weight_simps reserve_row_def counter_ok_def)
qed (use ok in simp)

lemma free_read_counter_InrD:
  assumes "free_read_reservation_counter d r = Inr kind"
  obtains c where "c \<in> set (db_shopCounters d)" "res_counterId r = Some (sc_id c)" "sc_counter c = kind"
  using assms truthy_SomeD [of "res_counterId r"]
  by (auto simp: free_read_reservation_counter_def split: if_splits option.splits dest!: find_counter_SomeD)

lemma free_reserve_ledger:
  assumes run: "free_reserve_in_transaction S now i s k q pc d = Inr (out, d')"
    and ok: "ledger_ok d" and q: "0 < q"
  shows "ledger_ok d'"
proof (cases "find_reservation d k")
  case None
  with run have "d' = d \<or> free_reserve_new d i s k q = Inr (out, d')"
    by (auto simp: free_reserve_in_transaction_def result_iffs split: if_splits)
  with ok q free_reserve_new_ledger show ?thesis by blast
next
  case (Some r)
  note r = find_reservation_SomeD [OF Some]
  from run Some obtain kind where kind: "free_read_reservation_counter d r = Inr kind"
    by (auto simp: free_reserve_in_transaction_def result_iffs)
  then obtain c where c: "c \<in> set (db_shopCounters d)" "res_counterId r = Some (sc_id c)" "sc_counter c = kind"
    by (rule free_read_counter_InrD)
  show ?thesis
  proof (cases "kind = LIFETIME_FREE_RECOVERY_CREDITS")
    case True
    with run Some kind have "free_reactivate d r s q = Inr (out, d')"
      by (auto simp: free_reserve_in_transaction_def result_iffs)
    moreover have "owned_by d Free_Source r"
      using counter_source(1) [OF ok _ c(1,2)] r c(3) True by simp
    ultimately show ?thesis using ok r free_reactivate_ledger by blast
  next
    case False
    with run Some kind ok show ?thesis
      by (auto simp: free_reserve_in_transaction_def result_iffs)
  qed
qed

end
