(* ===== verification/Purchased_Reservation.thy ===== *)
theory Purchased_Reservation
  imports Free_Reservation
begin

text \<open>
  \<open>src/services/purchased-recovery-reservation.service.ts\<close>: reservations against the credit packs
  a shop has bought. A reservation takes from the shop's purchased counter and from one purchase
  lot, chosen oldest first with the lots of earlier provider contexts before the current one.
\<close>

section \<open>Choosing a lot\<close>

definition purchased_error :: "string \<Rightarrow> failure" where
  "purchased_error m = Service_Error Purchased_Recovery_Reservation_Error m"

definition find_lot :: "db \<Rightarrow> id option \<Rightarrow> purchase_lot option" where
  "find_lot d purchaseId =
     (if \<not> truthy purchaseId then None
      else find_row (\<lambda>l. lot_id l = the purchaseId) (db_lots d))"

definition require_lot :: "db \<Rightarrow> id option \<Rightarrow> purchase_lot result" where
  "require_lot d purchaseId =
     expect (find_lot d purchaseId) (purchased_error ''Purchased reservation lot does not exist'')"

definition spendable_quantity :: "purchase_lot \<Rightarrow> int" where
  "spendable_quantity l = lot_currentAmount l - lot_reservedAmount l"

text \<open>
  \<open>orderBy\<close>: activation time with nulls last, creation time, id. The database compares ids in
  its collation, here the lexicographic order of character codes.
\<close>

fun id_less_eq :: "string \<Rightarrow> string \<Rightarrow> bool" where
  "id_less_eq [] _ = True"
| "id_less_eq (_ # _) [] = False"
| "id_less_eq (a # x) (b # y) =
     (of_char a < (of_char b :: nat) \<or> (a = b \<and> id_less_eq x y))"

fun nulls_last_less :: "time option \<Rightarrow> time option \<Rightarrow> bool" where
  "nulls_last_less (Some a) (Some b) = (a < b)"
| "nulls_last_less (Some _) None = True"
| "nulls_last_less None _ = False"

definition lot_before :: "purchase_lot \<Rightarrow> purchase_lot \<Rightarrow> bool" where
  "lot_before l m \<longleftrightarrow>
     nulls_last_less (lot_activatedAt l) (lot_activatedAt m) \<or>
     (lot_activatedAt l = lot_activatedAt m \<and>
        (lot_createdAt l < lot_createdAt m \<or>
          (lot_createdAt l = lot_createdAt m \<and> id_less_eq (lot_id l) (lot_id m))))"

fun insert_lot :: "purchase_lot \<Rightarrow> purchase_lot list \<Rightarrow> purchase_lot list" where
  "insert_lot l [] = [l]"
| "insert_lot l (m # ms) = (if lot_before l m then l # m # ms else m # insert_lot l ms)"

definition order_lots :: "purchase_lot list \<Rightarrow> purchase_lot list" where
  "order_lots ls = foldr insert_lot ls []"

text \<open>
  The provider context whose purchases are current: provider context identity, plan handle and
  billing period of an active subscription with an active plan.
\<close>

definition is_valid_current_period :: "time option \<Rightarrow> time option \<Rightarrow> bool" where
  "is_valid_current_period s e =
     (case (s, e) of (Some a, Some b) \<Rightarrow> a < b | _ \<Rightarrow> False)"

definition derive_current_context ::
  "shared \<Rightarrow> db \<Rightarrow> subscription option \<Rightarrow> (string \<times> string \<times> id) option" where
  "derive_current_context S d subscription =
     (case subscription of
        None \<Rightarrow> None
      | Some u \<Rightarrow>
          if su_status u \<noteq> SUB_ACTIVE \<or> \<not> (case subscription_plan d u of None \<Rightarrow> False | Some p \<Rightarrow> pl_active p)
          then None
          else
            let planHandle = (case su_observedShopifyPlanHandle u of None \<Rightarrow> [] | Some h \<Rightarrow> js_trim h);
                periodId = (case su_billingPeriodId u of None \<Rightarrow> [] | Some b \<Rightarrow> js_trim b) in
            if planHandle = [] \<or> periodId = [] \<or>
               \<not> is_valid_current_period (su_currentPeriodStart u) (su_currentPeriodEnd u)
            then None
            else case deriveShopifyProviderContextIdentity S (su_providerSubscriptionId u) planHandle
                   (the (su_currentPeriodStart u)) (the (su_currentPeriodEnd u)) of
                None \<Rightarrow> None
              | Some identity \<Rightarrow> Some (identity, planHandle, periodId))"

definition in_current_context :: "shared \<Rightarrow> (string \<times> string \<times> id) option \<Rightarrow> purchase_lot \<Rightarrow> bool" where
  "in_current_context S context l =
     (case (context, lot_providerSubscriptionIdSnapshot l, lot_shopifyPlanHandleSnapshot l, lot_billingPeriodId l) of
        (Some c, Some a, Some h, Some b) \<Rightarrow> isSameShopifyPurchaseProviderContext S (a, h, b) c
      | _ \<Rightarrow> False)"

definition select_oldest_spendable_lot :: "shared \<Rightarrow> db \<Rightarrow> id \<Rightarrow> int \<Rightarrow> purchase_lot option" where
  "select_oldest_spendable_lot S d shopId quantity =
     (let subscription = find_row (\<lambda>u. su_shopId u = shopId) (db_subscriptions d);
          lots = order_lots (filter (\<lambda>l. lot_shopId l = shopId \<and> lot_status l = ACTIVE) (db_lots d));
          context = derive_current_context S d subscription;
          current = filter (in_current_context S context) lots;
          historical = filter (\<lambda>l. \<not> in_current_context S context l) lots in
      find_row (\<lambda>l. quantity \<le> spendable_quantity l) (historical @ current))"

section \<open>Operations\<close>

datatype purchased_outcome =
    Purchased_Reserved reservation shop_counter_kind
  | Purchased_Committed reservation
  | Purchased_Released reservation
  | Purchased_Ambiguous reservation
  | Purchased_Replay replay_kind reservation shop_counter_kind
  | Purchased_Credits_Exhausted int

definition purchased_replay :: "reservation \<Rightarrow> shop_counter_kind \<Rightarrow> purchased_outcome" where
  "purchased_replay r counter = Purchased_Replay (replay_kind_of (res_status r)) r counter"

definition purchased_require_reservation :: "db \<Rightarrow> id \<Rightarrow> string \<Rightarrow> reservation result" where
  "purchased_require_reservation = require_reservation purchased_error"

definition purchased_read_reservation_counter :: "db \<Rightarrow> reservation \<Rightarrow> shop_counter_kind result" where
  "purchased_read_reservation_counter d r =
     (if \<not> truthy (res_counterId r) then Inl (purchased_error ''Reservation counter does not exist'')
      else case find_counter d (the (res_counterId r)) of
          Some c \<Rightarrow>
            (if sc_counter c \<noteq> PURCHASED_RECOVERY_CREDITS \<and> sc_counter c \<noteq> LIFETIME_FREE_RECOVERY_CREDITS
             then Inl (purchased_error ''Reservation counter is not a recovery capacity counter'')
             else Inr (sc_counter c))
        | None \<Rightarrow> Inl (purchased_error ''Reservation counter is not a recovery capacity counter''))"

definition available_credits :: "shared \<Rightarrow> shop_counter \<Rightarrow> int" where
  "available_credits S c =
     availablePurchasedRecoveryCredits S (sc_grantedQuantity c) (sc_committedQuantity c)
       (sc_reservedQuantity c) (sc_refundingQuantity c)"

definition reserve_lot_row :: "int \<Rightarrow> purchase_lot \<Rightarrow> purchase_lot" where
  "reserve_lot_row quantity l =
     l\<lparr>lot_reservedAmount := lot_reservedAmount l + quantity, lot_version := lot_version l + 1\<rparr>"

definition reserve_lot :: "purchase_lot \<Rightarrow> int \<Rightarrow> db \<Rightarrow> db result" where
  "reserve_lot l quantity d =
     and_then (update_one (\<lambda>x. lot_id x = lot_id l \<and> lot_version x = lot_version l \<and> lot_status x = ACTIVE \<and>
                  lot_currentAmount x = lot_currentAmount l \<and> lot_reservedAmount x = lot_reservedAmount l)
                 (reserve_lot_row quantity) (db_lots d)) (\<lambda>t.
     Inr (d\<lparr>db_lots := t\<rparr>))"

definition on_lot :: "id \<Rightarrow> reservation \<Rightarrow> reservation" where
  "on_lot lotId r = r\<lparr>res_status := RESERVED, res_purchasedCreditPurchaseId := Some lotId\<rparr>"

definition reactivation_lot :: "shared \<Rightarrow> db \<Rightarrow> reservation \<Rightarrow> id \<Rightarrow> int \<Rightarrow> purchase_lot option" where
  "reactivation_lot S d existing shopId quantity =
     (case find_lot d (res_purchasedCreditPurchaseId existing) of
        Some l \<Rightarrow> if lot_status l = ACTIVE \<and> quantity \<le> spendable_quantity l then Some l
                  else select_oldest_spendable_lot S d shopId quantity
      | None \<Rightarrow> select_oldest_spendable_lot S d shopId quantity)"

definition purchased_reactivate ::
  "shared \<Rightarrow> db \<Rightarrow> reservation \<Rightarrow> id \<Rightarrow> int \<Rightarrow> (purchased_outcome \<times> db) result" where
  "purchased_reactivate S d existing shopId quantity =
     and_then (transition_decision existing Reactivate quantity purchased_error) (\<lambda>decision.
     if decision \<noteq> Apply then Inr (purchased_replay existing PURCHASED_RECOVERY_CREDITS, d)
     else
       and_then (expect (find_counter d (case res_counterId existing of None \<Rightarrow> '''' | Some i \<Rightarrow> i))
                   (purchased_error ''Reservation counter does not exist'')) (\<lambda>c.
       if available_credits S c < quantity then Inr (purchased_replay existing PURCHASED_RECOVERY_CREDITS, d)
       else case reactivation_lot S d existing shopId quantity of
           None \<Rightarrow> Inr (purchased_replay existing PURCHASED_RECOVERY_CREDITS, d)
         | Some l \<Rightarrow>
             and_then (reserve_counter c quantity d) (\<lambda>d1.
             and_then (reserve_lot l quantity d1) (\<lambda>d2.
             and_then (update_reservation (on_lot (lot_id l)) existing d2) (\<lambda>(r, d3).
             Inr (Purchased_Reserved r PURCHASED_RECOVERY_CREDITS, d3))))))"

text \<open>The counter of a shop that has none is created, a lost race to create it is a conflict.\<close>

definition ensure_purchased_counter :: "id \<Rightarrow> id \<Rightarrow> db \<Rightarrow> (shop_counter \<times> db) result" where
  "ensure_purchased_counter newCounterId shopId d =
     (case find_shop_counter d shopId PURCHASED_RECOVERY_CREDITS of
        Some c \<Rightarrow> Inr (c, d)
      | None \<Rightarrow>
          (case create_row shop_counter_clash
                  (new_shop_counter newCounterId shopId PURCHASED_RECOVERY_CREDITS) (db_shopCounters d) of
             Inl e \<Rightarrow> Inl (if is_unique_conflict e then Concurrency_Conflict else e)
           | Inr (c, t) \<Rightarrow> Inr (c, d\<lparr>db_shopCounters := t\<rparr>)))"

definition purchased_reserve_new ::
  "shared \<Rightarrow> id \<Rightarrow> id \<Rightarrow> id \<Rightarrow> string \<Rightarrow> int \<Rightarrow> db \<Rightarrow> (purchased_outcome \<times> db) result" where
  "purchased_reserve_new S newId newCounterId shopId sourceKey quantity d =
     and_then (ensure_purchased_counter newCounterId shopId d) (\<lambda>(c, d0).
     let available = available_credits S c in
     if available < quantity then Inr (Purchased_Credits_Exhausted (max available 0), d0)
     else case select_oldest_spendable_lot S d0 shopId quantity of
         None \<Rightarrow> Inr (Purchased_Credits_Exhausted (max available 0), d0)
       | Some l \<Rightarrow>
           and_then (reserve_counter c quantity d0) (\<lambda>d1.
           and_then (reserve_lot l quantity d1) (\<lambda>d2.
           and_then (create_reservation
                       ((new_reservation newId shopId sourceKey quantity)
                          \<lparr>res_counterId := Some (sc_id c), res_purchasedCreditPurchaseId := Some (lot_id l)\<rparr>) d2)
             (\<lambda>(r, d3). Inr (Purchased_Reserved r PURCHASED_RECOVERY_CREDITS, d3)))))"

definition purchased_reserve_in_transaction ::
  "shared \<Rightarrow> id \<Rightarrow> id \<Rightarrow> id \<Rightarrow> string \<Rightarrow> int \<Rightarrow> db \<Rightarrow> (purchased_outcome \<times> db) result" where
  "purchased_reserve_in_transaction S newId newCounterId shopId sourceKey quantity d =
     (case find_reservation d sourceKey of
        Some existing \<Rightarrow>
          and_then (assert_reservation_shop existing shopId purchased_error) (\<lambda>_.
          and_then (purchased_read_reservation_counter d existing) (\<lambda>counter.
          if counter = PURCHASED_RECOVERY_CREDITS then purchased_reactivate S d existing shopId quantity
          else Inr (purchased_replay existing counter, d)))
      | None \<Rightarrow> purchased_reserve_new S newId newCounterId shopId sourceKey quantity d)"

definition completes_purchase :: "int \<Rightarrow> purchase_lot \<Rightarrow> bool" where
  "completes_purchase quantity l \<longleftrightarrow> lot_currentAmount l = quantity \<and> lot_reservedAmount l = quantity"

definition commit_lot_row :: "int \<Rightarrow> bool \<Rightarrow> purchase_lot \<Rightarrow> purchase_lot" where
  "commit_lot_row quantity completes l =
     l\<lparr>lot_currentAmount := lot_currentAmount l - quantity,
       lot_reservedAmount := lot_reservedAmount l - quantity,
       lot_status := (if completes then COMPLETED else lot_status l),
       lot_version := lot_version l + 1\<rparr>"

definition cancel_refunds :: "id \<Rightarrow> refund table \<Rightarrow> refund table" where
  "cancel_refunds lotId t =
     snd (update_many (\<lambda>f. rf_purchaseId f = lotId \<and>
            (rf_status f = REFUND_REQUESTED \<or> rf_status f = REFUND_PROVIDER_ACTION_REQUIRED))
       (\<lambda>f. f\<lparr>rf_status := REFUND_CANCELLED, rf_reason := Some ''NO_CREDITS_REMAINING'',
               rf_version := rf_version f + 1\<rparr>) t)"

text \<open>The guard both updates of a lot share: still held, and enough of it reserved.\<close>

definition lot_reserved_guard :: "purchase_lot \<Rightarrow> int \<Rightarrow> purchase_lot \<Rightarrow> bool" where
  "lot_reserved_guard l quantity x \<longleftrightarrow>
     lot_version x = lot_version l \<and> (lot_status x = ACTIVE \<or> lot_status x = WITHDRAWN) \<and>
     quantity \<le> lot_reservedAmount x"

definition purchased_commit_in_transaction ::
  "shared \<Rightarrow> id \<Rightarrow> id \<Rightarrow> string \<Rightarrow> int \<Rightarrow> db \<Rightarrow> (purchased_outcome \<times> db) result" where
  "purchased_commit_in_transaction S eventId shopId sourceKey quantity d =
     and_then (purchased_require_reservation d shopId sourceKey) (\<lambda>r.
     and_then (transition_decision r Commit quantity purchased_error) (\<lambda>decision.
     if decision \<noteq> Apply then Inr (purchased_replay r PURCHASED_RECOVERY_CREDITS, d)
     else if \<not> truthy (res_counterId r) then Inl (purchased_error ''Reservation counter does not exist'')
     else
       let counterId = the (res_counterId r) in
       and_then (require_lot d (res_purchasedCreditPurchaseId r)) (\<lambda>l.
       let completes = completes_purchase quantity l in
       and_then (expect (find_counter d counterId) (purchased_error ''Reservation counter does not exist'')) (\<lambda>c.
       and_then (update_one (\<lambda>x. lot_id x = lot_id l \<and> lot_reserved_guard l quantity x)
                   (commit_lot_row quantity completes) (db_lots d)) (\<lambda>lots.
       let refunds = (if completes \<and> lot_status l = WITHDRAWN then cancel_refunds (lot_id l) (db_refunds d)
                      else db_refunds d) in
       and_then (update_one (\<lambda>x. sc_id x = counterId \<and> sc_version x = sc_version c \<and> quantity \<le> sc_reservedQuantity x)
                   (commit_counter_row quantity) (db_shopCounters d)) (\<lambda>counters.
       and_then (resolve_recovery_usage_provider d shopId) (\<lambda>provider.
       and_then (create_usage_event
                   (new_usage_event eventId shopId quantity (createRecoveryIdempotencyKey S shopId sourceKey)
                      ''PURCHASED_RECOVERY_CREDITS'' (res_id r) provider)
                   (d\<lparr>db_lots := lots, db_refunds := refunds, db_shopCounters := counters\<rparr>)) (\<lambda>(e, d2).
       and_then (update_reservation (committed_row (ue_id e)) r d2) (\<lambda>(committed, d3).
       Inr (Purchased_Committed committed, d3))))))))))"

definition release_lot_row :: "int \<Rightarrow> purchase_lot \<Rightarrow> purchase_lot" where
  "release_lot_row quantity l =
     l\<lparr>lot_reservedAmount := lot_reservedAmount l - quantity, lot_version := lot_version l + 1\<rparr>"

text \<open>Credits released from a withdrawn lot go to the refund, not back to the shop.\<close>

definition purchased_release_counter_row :: "int \<Rightarrow> bool \<Rightarrow> shop_counter \<Rightarrow> shop_counter" where
  "purchased_release_counter_row quantity withdrawn c =
     c\<lparr>sc_reservedQuantity := sc_reservedQuantity c - quantity,
       sc_refundingQuantity := (if withdrawn then sc_refundingQuantity c + quantity else sc_refundingQuantity c),
       sc_version := sc_version c + 1\<rparr>"

definition purchased_release_in_transaction ::
  "id \<Rightarrow> string \<Rightarrow> int \<Rightarrow> db \<Rightarrow> (purchased_outcome \<times> db) result" where
  "purchased_release_in_transaction shopId sourceKey quantity d =
     and_then (purchased_require_reservation d shopId sourceKey) (\<lambda>r.
     and_then (transition_decision r Release quantity purchased_error) (\<lambda>decision.
     if decision \<noteq> Apply then Inr (purchased_replay r PURCHASED_RECOVERY_CREDITS, d)
     else if \<not> truthy (res_counterId r) then Inl (purchased_error ''Reservation counter does not exist'')
     else
       let counterId = the (res_counterId r) in
       and_then (require_lot d (res_purchasedCreditPurchaseId r)) (\<lambda>l.
       and_then (expect (find_counter d counterId) (purchased_error ''Reservation counter does not exist'')) (\<lambda>c.
       and_then (update_one (\<lambda>x. lot_id x = lot_id l \<and> lot_reserved_guard l quantity x)
                   (release_lot_row quantity) (db_lots d)) (\<lambda>lots.
       and_then (update_one (\<lambda>x. sc_id x = counterId \<and> sc_version x = sc_version c \<and> quantity \<le> sc_reservedQuantity x)
                   (purchased_release_counter_row quantity (lot_status l = WITHDRAWN)) (db_shopCounters d)) (\<lambda>counters.
       and_then (update_reservation (with_status RELEASED) r (d\<lparr>db_lots := lots, db_shopCounters := counters\<rparr>))
         (\<lambda>(released, d2). Inr (Purchased_Released released, d2))))))))"

definition purchased_mark_ambiguous_in_transaction ::
  "id \<Rightarrow> string \<Rightarrow> db \<Rightarrow> (purchased_outcome \<times> db) result" where
  "purchased_mark_ambiguous_in_transaction shopId sourceKey d =
     and_then (purchased_require_reservation d shopId sourceKey) (\<lambda>r.
     and_then (transition_decision r Ambiguous 0 purchased_error) (\<lambda>decision.
     if decision \<noteq> Apply then Inr (purchased_replay r PURCHASED_RECOVERY_CREDITS, d)
     else
       and_then (update_reservation (with_status AMBIGUOUS) r d) (\<lambda>(ambiguous, d2).
       Inr (Purchased_Ambiguous ambiguous, d2))))"

section \<open>The public methods\<close>

definition purchased_reserve ::
  "shared \<Rightarrow> db env \<Rightarrow> nat \<Rightarrow> id \<Rightarrow> string \<Rightarrow> js_number option \<Rightarrow> db \<Rightarrow> purchased_outcome result \<times> db" where
  "purchased_reserve S E maxRetries shopId sourceKey quantity =
     validated purchased_error quantity (\<lambda>q. with_retry E
       (\<lambda>n. purchased_reserve_in_transaction S (env_ids E n 0) (env_ids E n 1) shopId sourceKey q)
       purchased_error maxRetries)"

definition purchased_commit ::
  "shared \<Rightarrow> db env \<Rightarrow> nat \<Rightarrow> id \<Rightarrow> string \<Rightarrow> js_number option \<Rightarrow> db \<Rightarrow> purchased_outcome result \<times> db" where
  "purchased_commit S E maxRetries shopId sourceKey quantity =
     validated purchased_error quantity (\<lambda>q. with_retry E
       (\<lambda>n. purchased_commit_in_transaction S (env_ids E n 0) shopId sourceKey q) purchased_error maxRetries)"

definition purchased_release ::
  "db env \<Rightarrow> nat \<Rightarrow> id \<Rightarrow> string \<Rightarrow> js_number option \<Rightarrow> db \<Rightarrow> purchased_outcome result \<times> db" where
  "purchased_release E maxRetries shopId sourceKey quantity =
     validated purchased_error quantity (\<lambda>q. with_retry E
       (\<lambda>n. purchased_release_in_transaction shopId sourceKey q) purchased_error maxRetries)"

definition purchased_mark_ambiguous ::
  "db env \<Rightarrow> nat \<Rightarrow> id \<Rightarrow> string \<Rightarrow> js_number option \<Rightarrow> db \<Rightarrow> purchased_outcome result \<times> db" where
  "purchased_mark_ambiguous E maxRetries shopId sourceKey quantity =
     validated purchased_error quantity (\<lambda>q. with_retry E
       (\<lambda>n. purchased_mark_ambiguous_in_transaction shopId sourceKey) purchased_error maxRetries)"

definition purchased_commit_in_existing_transaction ::
  "shared \<Rightarrow> id \<Rightarrow> id \<Rightarrow> string \<Rightarrow> js_number option \<Rightarrow> db \<Rightarrow> (purchased_outcome \<times> db) result" where
  "purchased_commit_in_existing_transaction S eventId shopId sourceKey quantity d =
     and_then (validate_quantity quantity purchased_error) (\<lambda>q.
     purchased_commit_in_transaction S eventId shopId sourceKey q d)"

definition purchased_release_in_existing_transaction ::
  "id \<Rightarrow> string \<Rightarrow> js_number option \<Rightarrow> db \<Rightarrow> (purchased_outcome \<times> db) result" where
  "purchased_release_in_existing_transaction shopId sourceKey quantity d =
     and_then (validate_quantity quantity purchased_error) (\<lambda>q.
     purchased_release_in_transaction shopId sourceKey q d)"

section \<open>Facts on rows\<close>

lemma lot_row_keys [simp]:
  "lot_id (reserve_lot_row q l) = lot_id l" "lot_id (commit_lot_row q b l) = lot_id l"
  "lot_id (release_lot_row q l) = lot_id l"
  "lot_shopId (reserve_lot_row q l) = lot_shopId l" "lot_shopId (commit_lot_row q b l) = lot_shopId l"
  "lot_shopId (release_lot_row q l) = lot_shopId l"
  by (simp_all add: reserve_lot_row_def commit_lot_row_def release_lot_row_def)

lemma purchased_release_counter_row_keys [simp]:
  "sc_id (purchased_release_counter_row q b c) = sc_id c"
  "sc_shopId (purchased_release_counter_row q b c) = sc_shopId c"
  "sc_counter (purchased_release_counter_row q b c) = sc_counter c"
  by (simp_all add: purchased_release_counter_row_def)

lemma on_lot_keys [simp]:
  "res_id (on_lot m r) = res_id r" "res_sourceKey (on_lot m r) = res_sourceKey r"
  "res_shopId (on_lot m r) = res_shopId r" "res_quantity (on_lot m r) = res_quantity r"
  "res_status (on_lot m r) = RESERVED" "res_counterId (on_lot m r) = res_counterId r"
  "res_purchasedCreditPurchaseId (on_lot m r) = Some m"
  "res_promotionalCreditGrantId (on_lot m r) = res_promotionalCreditGrantId r"
  "res_billingPeriodEntitlementCounterId (on_lot m r) = res_billingPeriodEntitlementCounterId r"
  "res_compensationUsageEventId (on_lot m r) = res_compensationUsageEventId r"
  by (simp_all add: on_lot_def)

lemma find_lot_SomeD: "find_lot d i = Some l \<Longrightarrow> l \<in> set (db_lots d) \<and> i = Some (lot_id l)"
  using truthy_SomeD [of i] by (auto simp: find_lot_def split: if_splits dest!: find_row_SomeD)

lemma set_insert_lot: "set (insert_lot l ms) = insert l (set ms)"
  by (induction ms) auto

lemma set_order_lots: "set (order_lots ls) = set ls"
  by (induction ls) (simp_all add: order_lots_def set_insert_lot)

text \<open>The chosen lot is an active lot of the shop with enough spendable credits.\<close>

lemma select_oldest_spendable_lot_SomeD:
  assumes "select_oldest_spendable_lot S d s q = Some l"
  shows "l \<in> set (db_lots d)" "lot_shopId l = s" "lot_status l = ACTIVE" "q \<le> spendable_quantity l"
  using find_row_SomeD [OF assms [unfolded select_oldest_spendable_lot_def Let_def]]
  by (auto simp: set_order_lots)

lemma reserve_lot_InrD:
  assumes "reserve_lot l q d = Inr d'" "distinct (map lot_id (db_lots d))" "l \<in> set (db_lots d)"
  shows "d' = d\<lparr>db_lots := update_key lot_id (lot_id l) (reserve_lot_row q) (db_lots d)\<rparr>" "lot_status l = ACTIVE"
proof -
  from assms(1) obtain t where t: "d' = d\<lparr>db_lots := t\<rparr>"
    "update_one (\<lambda>x. lot_id x = lot_id l \<and> (lot_version x = lot_version l \<and> lot_status x = ACTIVE \<and>
                  lot_currentAmount x = lot_currentAmount l \<and> lot_reservedAmount x = lot_reservedAmount l))
                 (reserve_lot_row q) (db_lots d) = Inr t"
    by (auto simp: reserve_lot_def result_iffs)
  from update_one_row [where key = lot_id, OF t(2) assms(2,3)] t(1)
  show "d' = d\<lparr>db_lots := update_key lot_id (lot_id l) (reserve_lot_row q) (db_lots d)\<rparr>" "lot_status l = ACTIVE"
    by simp_all
qed

lemma ledger_purchased_reserve:
  assumes ok: "ledger_ok d" and rows: "rows_step old new (db_reservations d) (db_reservations d')"
    and c: "c \<in> set (db_shopCounters d)" "sc_counter c = PURCHASED_RECOVERY_CREDITS" "sc_shopId c = res_shopId new"
    and l: "l \<in> set (db_lots d)" "lot_status l = ACTIVE" "lot_shopId l = res_shopId new" "q \<le> spendable_quantity l"
    and new: "res_counterId new = Some (sc_id c)" "res_purchasedCreditPurchaseId new = Some (lot_id l)"
      "res_promotionalCreditGrantId new = None" "res_billingPeriodEntitlementCounterId new = None"
      "reservation_change_ok old new" "change held_weight old new = q" "change spent_weight old new = 0"
    and tabs: "db_shopCounters d' = update_key sc_id (sc_id c) (reserve_row q) (db_shopCounters d)"
      "db_lots d' = update_key lot_id (lot_id l) (reserve_lot_row q) (db_lots d)"
      "db_periodCounters d' = db_periodCounters d" "db_grants d' = db_grants d"
  shows "ledger_ok d'"
proof (rule ledger_step_purchased [OF ok rows, where k = "sc_id c" and m = "lot_id l"
        and f = "reserve_row q" and h = "reserve_lot_row q"])
  show "owned_by d Purchased_Source new"
    using c l new by (force simp: counter_keys_def lot_keys_def)
  show "lot_reservedAmount (reserve_lot_row q x) = lot_reservedAmount x + change held_weight old new \<and>
      lot_currentAmount (reserve_lot_row q x) = lot_currentAmount x - change spent_weight old new \<and>
      lot_ok (reserve_lot_row q x)" if x: "x \<in> set (db_lots d)" "lot_id x = lot_id l" for x
    using unique_lot [OF ok l(1) x] new l(2,4) ledger_lot(3) [OF ok l(1)]
    by (simp add: reserve_lot_row_def lot_ok_def spendable_quantity_def)
  show "sc_refundingQuantity (reserve_row q x) - sc_refundingQuantity x
      = lot_hold (reserve_lot_row q y) - lot_hold y"
    if "y \<in> set (db_lots d)" "lot_id y = lot_id l" for x y
    using unique_lot [OF ok l(1) that] l(2) by (simp add: reserve_row_def reserve_lot_row_def lot_hold_def)
qed (use new tabs in \<open>simp_all add: reserve_row_def\<close>)

section \<open>What a successful operation did\<close>

lemma ensure_purchased_counter_InrD:
  assumes "ensure_purchased_counter i s d = Inr (c, d0)" "ledger_ok d"
  shows "ledger_ok d0" "c \<in> set (db_shopCounters d0)" "sc_shopId c = s" "sc_counter c = PURCHASED_RECOVERY_CREDITS"
    "db_reservations d0 = db_reservations d" "db_lots d0 = db_lots d"
proof -
  have "ledger_ok d0 \<and> c \<in> set (db_shopCounters d0) \<and> sc_shopId c = s \<and> sc_counter c = PURCHASED_RECOVERY_CREDITS \<and>
    db_reservations d0 = db_reservations d \<and> db_lots d0 = db_lots d"
  proof (cases "find_shop_counter d s PURCHASED_RECOVERY_CREDITS")
    case None
    with assms(1) obtain t where
      t: "create_row shop_counter_clash (new_shop_counter i s PURCHASED_RECOVERY_CREDITS) (db_shopCounters d) = Inr (c, t)"
        "d0 = d\<lparr>db_shopCounters := t\<rparr>"
      by (auto simp: ensure_purchased_counter_def split: sum.splits)
    from create_row_InrD [OF t(1)] ledger_new_counter [OF assms(2) t(1)] t(2) show ?thesis
      by (simp add: new_shop_counter_def)
  next
    case (Some x)
    with assms find_shop_counter_SomeD [OF Some] show ?thesis by (auto simp: ensure_purchased_counter_def)
  qed
  then show "ledger_ok d0" "c \<in> set (db_shopCounters d0)" "sc_shopId c = s"
    "sc_counter c = PURCHASED_RECOVERY_CREDITS"
    "db_reservations d0 = db_reservations d" "db_lots d0 = db_lots d" by blast+
qed

lemma purchased_reserve_new_InrD:
  assumes run: "purchased_reserve_new S i ci s k q d = Inr (out, d')" and ok: "ledger_ok d"
  obtains (exhausted) n where "out = Purchased_Credits_Exhausted n" "ledger_ok d'" "0 \<le> n"
      "db_reservations d' = db_reservations d"
    | (applied) d0 c l r where "ledger_ok d0" "c \<in> set (db_shopCounters d0)" "sc_shopId c = s"
      "sc_counter c = PURCHASED_RECOVERY_CREDITS" "db_reservations d0 = db_reservations d"
      "l \<in> set (db_lots d0)" "lot_shopId l = s" "lot_status l = ACTIVE" "q \<le> spendable_quantity l"
      "r = (new_reservation i s k q)\<lparr>res_counterId := Some (sc_id c), res_purchasedCreditPurchaseId := Some (lot_id l)\<rparr>"
      "select_oldest_spendable_lot S d0 s q = Some l"
      "\<forall>x\<in>set (db_reservations d0). \<not> reservation_clash r x"
      "out = Purchased_Reserved r PURCHASED_RECOVERY_CREDITS"
      "d' = d0\<lparr>db_shopCounters := update_key sc_id (sc_id c) (reserve_row q) (db_shopCounters d0),
              db_lots := update_key lot_id (lot_id l) (reserve_lot_row q) (db_lots d0),
              db_reservations := db_reservations d0 @ [r]\<rparr>"
      "ensure_purchased_counter ci s d = Inr (c, d0)"
proof -
  from run obtain c d0 where ens: "ensure_purchased_counter ci s d = Inr (c, d0)"
    by (auto simp: purchased_reserve_new_def result_iffs)
  note c = ensure_purchased_counter_InrD [OF ens ok]
  let ?sel = "select_oldest_spendable_lot S d0 s q"
  show ?thesis
  proof (cases "available_credits S c < q \<or> ?sel = None")
    case True
    with run ens c show ?thesis
      by (intro exhausted [of "max (available_credits S c) 0"]) (auto simp: purchased_reserve_new_def Let_def split: if_splits)
  next
    case False
    then obtain l where l: "?sel = Some l" by auto
    let ?r = "(new_reservation i s k q)\<lparr>res_counterId := Some (sc_id c), res_purchasedCreditPurchaseId := Some (lot_id l)\<rparr>"
    from False l run ens obtain d1 d2 x where d1: "reserve_counter c q d0 = Inr d1"
      and d2: "reserve_lot l q d1 = Inr d2"
      and x: "create_reservation ?r d2 = Inr (x, d')" "out = Purchased_Reserved x PURCHASED_RECOVERY_CREDITS"
      by (auto simp: purchased_reserve_new_def result_iffs Let_def)
    note d1' = reserve_counter_InrD [OF d1 ledger_keys(3) [OF c(1)] c(2)]
    note sel = select_oldest_spendable_lot_SomeD [OF l]
    have d2': "d2 = d1\<lparr>db_lots := update_key lot_id (lot_id l) (reserve_lot_row q) (db_lots d1)\<rparr>"
      by (rule reserve_lot_InrD(1) [OF d2]) (use d1' sel ledger_keys(6) [OF c(1)] in simp_all)
    from c sel l x(2) d1' d2' create_reservation_InrD [OF x(1)]
    show ?thesis by (intro applied [of d0 c l ?r]) (simp_all add: ens)
  qed
qed

lemma purchased_reactivate_InrD:
  assumes run: "purchased_reactivate S d r s q = Inr (out, d')" and ok: "ledger_ok d"
    and r: "r \<in> set (db_reservations d)" and shop: "res_shopId r = s" and own: "owned_by d Purchased_Source r"
  obtains (replay) "out = purchased_replay r PURCHASED_RECOVERY_CREDITS" "d' = d"
    | (applied) c l where "res_status r = RELEASED" "res_quantity r = q" "c \<in> set (db_shopCounters d)"
      "res_counterId r = Some (sc_id c)"
      "l \<in> set (db_lots d)" "lot_shopId l = s" "lot_status l = ACTIVE" "q \<le> spendable_quantity l"
      "out = Purchased_Reserved (on_lot (lot_id l) r) PURCHASED_RECOVERY_CREDITS"
      "d' = d\<lparr>db_shopCounters := update_key sc_id (sc_id c) (reserve_row q) (db_shopCounters d),
              db_lots := update_key lot_id (lot_id l) (reserve_lot_row q) (db_lots d),
              db_reservations := update_key res_id (res_id r) (on_lot (lot_id l)) (db_reservations d)\<rparr>"
proof -
  from run obtain dec where dec: "transition_decision r Reactivate q purchased_error = Inr dec"
    by (auto simp: purchased_reactivate_def result_iffs)
  show ?thesis
  proof (cases "dec = Apply")
    case False
    with run dec show ?thesis by (intro replay) (auto simp: purchased_reactivate_def)
  next
    case True
    from own obtain ci m where own': "res_counterId r = Some ci" "res_purchasedCreditPurchaseId r = Some m"
      "(m, res_shopId r) \<in> set (lot_keys d)" by auto
    from run dec True own' obtain c where fc: "find_counter d ci = Some c"
      by (auto simp: purchased_reactivate_def result_iffs)
    show ?thesis
    proof (cases "available_credits S c < q \<or> reactivation_lot S d r s q = None")
      case True
      with run dec \<open>dec = Apply\<close> fc own' show ?thesis
        by (intro replay) (auto simp: purchased_reactivate_def result_iffs split: if_splits)
    next
      case False
      then obtain l where l: "reactivation_lot S d r s q = Some l" by auto
      have lot: "l \<in> set (db_lots d) \<and> lot_shopId l = s \<and> lot_status l = ACTIVE \<and> q \<le> spendable_quantity l"
      proof (cases "find_lot d (res_purchasedCreditPurchaseId r) = Some l \<and> lot_status l = ACTIVE \<and> q \<le> spendable_quantity l")
        case True
        then have "l \<in> set (db_lots d)" "m = lot_id l" using own' by (auto dest: find_lot_SomeD)
        with own'(3) lot_keys_unique [OF ok this(1)] True shop show ?thesis by auto
      next
        case False
        with l have "select_oldest_spendable_lot S d s q = Some l"
          by (auto simp: reactivation_lot_def split: option.splits if_splits)
        then show ?thesis using select_oldest_spendable_lot_SomeD by blast
      qed
      from False l run dec \<open>dec = Apply\<close> fc own' obtain d1 d2 x where d1: "reserve_counter c q d = Inr d1"
        and d2: "reserve_lot l q d1 = Inr d2"
        and x: "update_reservation (on_lot (lot_id l)) r d2 = Inr (x, d')"
          "out = Purchased_Reserved x PURCHASED_RECOVERY_CREDITS"
        by (auto simp: purchased_reactivate_def result_iffs)
      note c = find_counter_SomeD [OF fc]
      note d1' = reserve_counter_InrD [OF d1 ledger_keys(3) [OF ok]]
      have d2': "d2 = d1\<lparr>db_lots := update_key lot_id (lot_id l) (reserve_lot_row q) (db_lots d1)\<rparr>"
        by (rule reserve_lot_InrD(1) [OF d2]) (use d1' c lot ledger_keys(6) [OF ok] in simp_all)
      from lot c own'(1) x(2) d1' d2' update_reservation_InrD [OF x(1)] r ledger_keys(1) [OF ok]
        transition_decision_Apply [OF dec [unfolded \<open>dec = Apply\<close>]]
      show ?thesis by (intro applied [of c l]) simp_all
    qed
  qed
qed

lemma purchased_commit_InrD:
  assumes run: "purchased_commit_in_transaction S e s k q d = Inr (out, d')" and ok: "ledger_ok d"
  obtains (replay) r where "find_reservation d k = Some r" "res_shopId r = s" "res_status r \<noteq> RESERVED"
      "out = purchased_replay r PURCHASED_RECOVERY_CREDITS" "d' = d"
    | (applied) r c l p where "r \<in> set (db_reservations d)" "res_sourceKey r = k" "res_shopId r = s"
      "res_status r = RESERVED" "res_quantity r = q" "res_counterId r = Some (sc_id c)"
      "res_purchasedCreditPurchaseId r = Some (lot_id l)"
      "c \<in> set (db_shopCounters d)" "l \<in> set (db_lots d)" "lot_reserved_guard l q l"
      "out = Purchased_Committed (committed_row e r)"
      "d' = d\<lparr>db_lots := update_key lot_id (lot_id l) (commit_lot_row q (completes_purchase q l)) (db_lots d),
              db_refunds := (if completes_purchase q l \<and> lot_status l = WITHDRAWN
                             then cancel_refunds (lot_id l) (db_refunds d) else db_refunds d),
              db_shopCounters := update_key sc_id (sc_id c) (commit_counter_row q) (db_shopCounters d),
              db_usageEvents := db_usageEvents d @ [new_usage_event e s q (createRecoveryIdempotencyKey S s k)
                ''PURCHASED_RECOVERY_CREDITS'' (res_id r) p],
              db_reservations := update_key res_id (res_id r) (committed_row e) (db_reservations d)\<rparr>"
proof -
  from run obtain r dec where rq: "purchased_require_reservation d s k = Inr r"
    and dec: "transition_decision r Commit q purchased_error = Inr dec"
    by (auto simp: purchased_commit_in_transaction_def result_iffs)
  note r = require_reservation_InrD [OF rq [unfolded purchased_require_reservation_def]]
  show ?thesis
  proof (cases "dec = Apply")
    case False
    with run rq dec r not_ApplyD [OF dec] show ?thesis
      by (intro replay [of r]) (auto simp: purchased_commit_in_transaction_def)
  next
    case True
    note run' = run [unfolded purchased_commit_in_transaction_def rq dec True and_then_simps Let_def require_lot_def,
        simplified]
    from run' obtain l lots counters p ev d2 x and c :: shop_counter where
      l: "find_lot d (res_purchasedCreditPurchaseId r) = Some l" and
      t: "truthy (res_counterId r)"
      and u1: "update_one (\<lambda>x. lot_id x = lot_id l \<and> lot_reserved_guard l q x)
            (commit_lot_row q (completes_purchase q l)) (db_lots d) = Inr lots"
      and u2: "update_one (\<lambda>x. sc_id x = the (res_counterId r) \<and> (sc_version x = sc_version c \<and> q \<le> sc_reservedQuantity x))
            (commit_counter_row q) (db_shopCounters d) = Inr counters"
      and ev: "create_usage_event (new_usage_event e s q (createRecoveryIdempotencyKey S s k)
            ''PURCHASED_RECOVERY_CREDITS'' (res_id r) p)
            (d\<lparr>db_lots := lots, db_refunds := (if completes_purchase q l \<and> lot_status l = WITHDRAWN
                             then cancel_refunds (lot_id l) (db_refunds d) else db_refunds d),
               db_shopCounters := counters\<rparr>) = Inr (ev, d2)"
      and upd: "update_reservation (committed_row (ue_id ev)) r d2 = Inr (x, d')" "out = Purchased_Committed x"
      by (elim run_elims) blast
    note lot = find_lot_SomeD [OF l]
    note g = update_one_row [where key = lot_id, OF u1 ledger_keys(6) [OF ok], simplified lot]
    obtain c' where c': "c' \<in> set (db_shopCounters d)" "sc_id c' = the (res_counterId r)"
      "counters = update_key sc_id (the (res_counterId r)) (commit_counter_row q) (db_shopCounters d)"
      by (rule update_one_InrD [OF u2 ledger_keys(3) [OF ok]])
    from r c' lot g transition_decision_Apply [OF dec [unfolded True]] truthy_SomeD [OF t] upd(2)
      commit_tail [OF ev upd(1)] ledger_keys(1) [OF ok] show ?thesis
      by (intro applied [of r c' l p]) simp_all
  qed
qed

lemma purchased_release_InrD:
  assumes run: "purchased_release_in_transaction s k q d = Inr (out, d')" and ok: "ledger_ok d"
  obtains (replay) r where "find_reservation d k = Some r" "res_shopId r = s" "res_status r \<noteq> RESERVED"
      "out = purchased_replay r PURCHASED_RECOVERY_CREDITS" "d' = d"
    | (applied) r c l where "r \<in> set (db_reservations d)" "res_sourceKey r = k" "res_shopId r = s"
      "res_status r = RESERVED" "res_quantity r = q" "res_counterId r = Some (sc_id c)"
      "res_purchasedCreditPurchaseId r = Some (lot_id l)"
      "c \<in> set (db_shopCounters d)" "l \<in> set (db_lots d)" "lot_reserved_guard l q l"
      "out = Purchased_Released (with_status RELEASED r)"
      "d' = d\<lparr>db_lots := update_key lot_id (lot_id l) (release_lot_row q) (db_lots d),
              db_shopCounters := update_key sc_id (sc_id c)
                (purchased_release_counter_row q (lot_status l = WITHDRAWN)) (db_shopCounters d),
              db_reservations := update_key res_id (res_id r) (with_status RELEASED) (db_reservations d)\<rparr>"
proof -
  from run obtain r dec where rq: "purchased_require_reservation d s k = Inr r"
    and dec: "transition_decision r Release q purchased_error = Inr dec"
    by (auto simp: purchased_release_in_transaction_def result_iffs)
  note r = require_reservation_InrD [OF rq [unfolded purchased_require_reservation_def]]
  show ?thesis
  proof (cases "dec = Apply")
    case False
    with run rq dec r not_ApplyD [OF dec] show ?thesis
      by (intro replay [of r]) (auto simp: purchased_release_in_transaction_def)
  next
    case True
    note run' = run [unfolded purchased_release_in_transaction_def rq dec True and_then_simps Let_def require_lot_def,
        simplified]
    from run' obtain l lots counters x and c :: shop_counter where
      l: "find_lot d (res_purchasedCreditPurchaseId r) = Some l" and
      t: "truthy (res_counterId r)"
      and u1: "update_one (\<lambda>x. lot_id x = lot_id l \<and> lot_reserved_guard l q x)
            (release_lot_row q) (db_lots d) = Inr lots"
      and u2: "update_one (\<lambda>x. sc_id x = the (res_counterId r) \<and> (sc_version x = sc_version c \<and> q \<le> sc_reservedQuantity x))
            (purchased_release_counter_row q (lot_status l = WITHDRAWN)) (db_shopCounters d) = Inr counters"
      and upd: "update_reservation (with_status RELEASED) r (d\<lparr>db_lots := lots, db_shopCounters := counters\<rparr>)
            = Inr (x, d')" "out = Purchased_Released x"
      by (elim run_elims) blast
    note lot = find_lot_SomeD [OF l]
    note g = update_one_row [where key = lot_id, OF u1 ledger_keys(6) [OF ok], simplified lot]
    obtain c' where c': "c' \<in> set (db_shopCounters d)" "sc_id c' = the (res_counterId r)"
      "counters = update_key sc_id (the (res_counterId r))
         (purchased_release_counter_row q (lot_status l = WITHDRAWN)) (db_shopCounters d)"
      by (rule update_one_InrD [OF u2 ledger_keys(3) [OF ok]])
    from r c' lot g transition_decision_Apply [OF dec [unfolded True]] truthy_SomeD [OF t] upd(2)
      update_reservation_InrD [OF upd(1)] ledger_keys(1) [OF ok] show ?thesis
      by (intro applied [of r c' l]) simp_all
  qed
qed

lemma purchased_mark_ambiguous_InrD:
  assumes run: "purchased_mark_ambiguous_in_transaction s k d = Inr (out, d')" and ok: "ledger_ok d"
  obtains (replay) r where "find_reservation d k = Some r" "res_shopId r = s" "res_status r \<noteq> RESERVED"
      "out = purchased_replay r PURCHASED_RECOVERY_CREDITS" "d' = d"
    | (applied) r where "r \<in> set (db_reservations d)" "res_sourceKey r = k" "res_shopId r = s"
      "res_status r = RESERVED" "out = Purchased_Ambiguous (with_status AMBIGUOUS r)"
      "d' = d\<lparr>db_reservations := update_key res_id (res_id r) (with_status AMBIGUOUS) (db_reservations d)\<rparr>"
proof -
  from run obtain r dec where rq: "purchased_require_reservation d s k = Inr r"
    and dec: "transition_decision r Ambiguous 0 purchased_error = Inr dec"
    by (auto simp: purchased_mark_ambiguous_in_transaction_def result_iffs)
  note r = require_reservation_InrD [OF rq [unfolded purchased_require_reservation_def]]
  show ?thesis
  proof (cases "dec = Apply")
    case False
    with run rq dec r not_ApplyD [OF dec] show ?thesis
      by (intro replay [of r]) (auto simp: purchased_mark_ambiguous_in_transaction_def)
  next
    case True
    with run rq dec obtain x where
      upd: "update_reservation (with_status AMBIGUOUS) r d = Inr (x, d')" "out = Purchased_Ambiguous x"
      by (auto simp: purchased_mark_ambiguous_in_transaction_def result_iffs)
    from r transition_decision_Apply [OF dec [unfolded True]] upd(2)
      update_reservation_InrD [OF upd(1)] ledger_keys(1) [OF ok] show ?thesis
      by (intro applied [of r]) simp_all
  qed
qed

section \<open>The ledger invariant\<close>

definition purchased_key :: "db \<Rightarrow> string \<Rightarrow> bool" where
  "purchased_key d k \<longleftrightarrow> (\<forall>r. find_reservation d k = Some r \<longrightarrow> owned_by d Purchased_Source r)"

text \<open>
  A commit that does not complete the purchase leaves credits on the lot: with
  \<open>reservedAmount \<le> currentAmount\<close>, a lot whose current amount is the committed quantity has
  exactly that quantity reserved.
\<close>

lemma lot_after_commit:
  assumes "lot_ok l" "lot_reserved_guard l q l" "0 < q"
  shows "lot_ok (commit_lot_row q (completes_purchase q l) l)"
    "lot_hold (commit_lot_row q (completes_purchase q l) l) = lot_hold l"
  using assms
  by (auto simp: lot_ok_def lot_reserved_guard_def commit_lot_row_def completes_purchase_def lot_hold_def)

lemma purchased_commit_ledger:
  assumes run: "purchased_commit_in_transaction S e s k q d = Inr (out, d')"
    and ok: "ledger_ok d" and key: "purchased_key d k"
  shows "ledger_ok d'"
proof (cases rule: purchased_commit_InrD [OF run ok])
  case (2 r c l p)
  then have own: "owned_by d Purchased_Source r"
    using key find_by_key [OF ok 2(1)] by (simp add: purchased_key_def)
  have comp: "res_compensationUsageEventId r = None"
    using uncompensated [OF ok 2(1)] 2(4) by simp
  have q: "0 < q" using quantity_pos [OF ok 2(1)] 2(5) by simp
  note change = change_commit [OF 2(4) comp, of e]
  note lot' = lot_after_commit [OF ledger_lot(3) [OF ok 2(9)] 2(10) q]
  show ?thesis
  proof (rule ledger_step_purchased [OF ok, where old = "Some r" and new = "committed_row e r"
        and k = "sc_id c" and m = "lot_id l" and f = "commit_counter_row q"
        and h = "commit_lot_row q (completes_purchase q l)"])
    show "rows_step (Some r) (committed_row e r) (db_reservations d) (db_reservations d')"
      using 2(1,12) by (simp add: rows_step_commit)
    show "lot_reservedAmount (commit_lot_row q (completes_purchase q l) x)
          = lot_reservedAmount x + change held_weight (Some r) (committed_row e r) \<and>
        lot_currentAmount (commit_lot_row q (completes_purchase q l) x)
          = lot_currentAmount x - change spent_weight (Some r) (committed_row e r) \<and>
        lot_ok (commit_lot_row q (completes_purchase q l) x)"
      if x: "x \<in> set (db_lots d)" "lot_id x = lot_id l" for x
      using unique_lot [OF ok 2(9) x] lot'(1) change 2(5) by (simp add: commit_lot_row_def)
    show "sc_refundingQuantity (commit_counter_row q x) - sc_refundingQuantity x
        = lot_hold (commit_lot_row q (completes_purchase q l) y) - lot_hold y"
      if "y \<in> set (db_lots d)" "lot_id y = lot_id l" for x y
      using unique_lot [OF ok 2(9) that] lot'(2) by (simp add: commit_counter_row_def)
    show "reservation_change_ok (Some r) (committed_row e r)" by (rule change_ok_commit [OF ok 2(1)])
  qed (use 2 own change in \<open>simp_all add: commit_counter_row_def\<close>)
qed (use ok in simp)

lemma lot_after_release:
  assumes "lot_ok l" "lot_reserved_guard l q l" "0 < q"
  shows "lot_ok (release_lot_row q l)"
    "lot_hold (release_lot_row q l) = lot_hold l + (if lot_status l = WITHDRAWN then q else 0)"
  using assms
  by (auto simp: lot_ok_def lot_reserved_guard_def release_lot_row_def lot_hold_def)

lemma purchased_release_ledger:
  assumes run: "purchased_release_in_transaction s k q d = Inr (out, d')"
    and ok: "ledger_ok d" and key: "purchased_key d k"
  shows "ledger_ok d'"
proof (cases rule: purchased_release_InrD [OF run ok])
  case (2 r c l)
  then have own: "owned_by d Purchased_Source r"
    using key find_by_key [OF ok 2(1)] by (simp add: purchased_key_def)
  have q: "0 < q" using quantity_pos [OF ok 2(1)] 2(5) by simp
  have change: "change held_weight (Some r) (with_status RELEASED r) = - q"
    "change spent_weight (Some r) (with_status RELEASED r) = 0"
    using change_status [of r RELEASED] 2(4,5) by (simp_all add: held_weight_simps)
  note lot' = lot_after_release [OF ledger_lot(3) [OF ok 2(9)] 2(10) q]
  show ?thesis
  proof (rule ledger_step_purchased [OF ok, where old = "Some r" and new = "with_status RELEASED r"
        and k = "sc_id c" and m = "lot_id l" and h = "release_lot_row q"
        and f = "purchased_release_counter_row q (lot_status l = WITHDRAWN)"])
    show "rows_step (Some r) (with_status RELEASED r) (db_reservations d) (db_reservations d')"
      using 2(1,12) by (simp add: rows_step_status)
    show "lot_reservedAmount (release_lot_row q x)
          = lot_reservedAmount x + change held_weight (Some r) (with_status RELEASED r) \<and>
        lot_currentAmount (release_lot_row q x)
          = lot_currentAmount x - change spent_weight (Some r) (with_status RELEASED r) \<and>
        lot_ok (release_lot_row q x)"
      if x: "x \<in> set (db_lots d)" "lot_id x = lot_id l" for x
      using unique_lot [OF ok 2(9) x] lot'(1) change 2(5) by (simp add: release_lot_row_def)
    show "sc_refundingQuantity (purchased_release_counter_row q (lot_status l = WITHDRAWN) x) - sc_refundingQuantity x
        = lot_hold (release_lot_row q y) - lot_hold y"
      if "y \<in> set (db_lots d)" "lot_id y = lot_id l" for x y
      using unique_lot [OF ok 2(9) that] lot'(2) by (simp add: purchased_release_counter_row_def)
    show "reservation_change_ok (Some r) (with_status RELEASED r)"
      by (rule change_ok_status [OF ok 2(1)]) (use 2(4) in simp_all)
  qed (use 2 own change in \<open>simp_all add: purchased_release_counter_row_def\<close>)
qed (use ok in simp)

lemma purchased_mark_ambiguous_ledger:
  assumes run: "purchased_mark_ambiguous_in_transaction s k d = Inr (out, d')" and ok: "ledger_ok d"
  shows "ledger_ok d'"
proof (cases rule: purchased_mark_ambiguous_InrD [OF run ok])
  case (2 r)
  then show ?thesis using ledger_mark_ambiguous [OF ok] by simp
qed (use ok in simp)

lemma purchased_reserve_new_ledger:
  assumes run: "purchased_reserve_new S i ci s k q d = Inr (out, d')" and ok: "ledger_ok d" and q: "0 < q"
  shows "ledger_ok d'"
proof (cases rule: purchased_reserve_new_InrD [OF run ok])
  case (2 d0 c l r)
  then have row: "res_status r = RESERVED" "res_quantity r = q" "res_compensationUsageEventId r = None"
    by (simp_all add: new_reservation_def)
  show ?thesis
    by (rule ledger_purchased_reserve [OF 2(1), where old = None and new = r and c = c and l = l and q = q])
      (use 2 row change_new [OF row(1)] change_ok_new [OF q row] in \<open>simp_all add: rows_step_append new_reservation_def\<close>)
qed (use ok in simp)

lemma purchased_reactivate_ledger:
  assumes run: "purchased_reactivate S d r s q = Inr (out, d')" and ok: "ledger_ok d"
    and r: "r \<in> set (db_reservations d)" "owned_by d Purchased_Source r" "res_shopId r = s"
  shows "ledger_ok d'"
proof (cases rule: purchased_reactivate_InrD [OF run ok r(1) r(3) r(2)])
  case (2 c l)
  have new: "change held_weight (Some r) (on_lot (lot_id l) r) = q"
    "change spent_weight (Some r) (on_lot (lot_id l) r) = 0"
    "reservation_change_ok (Some r) (on_lot (lot_id l) r)"
    using 2(1,2) quantity_pos [OF ok r(1)] uncompensated [OF ok r(1)]
    by (auto simp: change_def held_weight_def held_def spent_weight_def reservation_change_ok_def same_source_def)
  from r(2) 2(4) have c: "(sc_id c, s, PURCHASED_RECOVERY_CREDITS) \<in> set (counter_keys d)"
    using r(3) by auto
  show ?thesis
    by (rule ledger_purchased_reserve [OF ok, where old = "Some r" and new = "on_lot (lot_id l) r" and c = c and l = l and q = q])
      (use 2 new r counter_keys_unique [OF ok 2(3) c] rows_step_update [OF r(1), where g = "on_lot (lot_id l)"] in simp_all)
qed (use ok in simp)

lemma purchased_read_counter_InrD:
  assumes "purchased_read_reservation_counter d r = Inr kind"
  obtains c where "c \<in> set (db_shopCounters d)" "res_counterId r = Some (sc_id c)" "sc_counter c = kind"
  using assms truthy_SomeD [of "res_counterId r"]
  by (auto simp: purchased_read_reservation_counter_def split: if_splits option.splits dest!: find_counter_SomeD)

lemma purchased_reserve_ledger:
  assumes run: "purchased_reserve_in_transaction S i ci s k q d = Inr (out, d')"
    and ok: "ledger_ok d" and q: "0 < q"
  shows "ledger_ok d'"
proof (cases "find_reservation d k")
  case None
  with run have "purchased_reserve_new S i ci s k q d = Inr (out, d')"
    by (simp add: purchased_reserve_in_transaction_def)
  then show ?thesis using ok q by (rule purchased_reserve_new_ledger)
next
  case (Some r)
  note r = find_reservation_SomeD [OF Some]
  from run Some obtain kind where shop: "res_shopId r = s"
    and kind: "purchased_read_reservation_counter d r = Inr kind"
    by (auto simp: purchased_reserve_in_transaction_def result_iffs dest: assert_reservation_shop_InrD)
  obtain c where c: "c \<in> set (db_shopCounters d)" "res_counterId r = Some (sc_id c)" "sc_counter c = kind"
    by (rule purchased_read_counter_InrD [OF kind])
  show ?thesis
  proof (cases "kind = PURCHASED_RECOVERY_CREDITS")
    case True
    with run Some kind have "purchased_reactivate S d r s q = Inr (out, d')"
      by (auto simp: purchased_reserve_in_transaction_def result_iffs)
    moreover have "owned_by d Purchased_Source r"
      using counter_source(2) [OF ok _ c(1,2)] r c(3) True by simp
    ultimately show ?thesis using ok r shop purchased_reactivate_ledger by blast
  next
    case False
    with run Some kind ok show ?thesis
      by (auto simp: purchased_reserve_in_transaction_def result_iffs)
  qed
qed

text \<open>
  The credits that can be spent are those of the shop's lots that are not withdrawn: what the
  counter has granted, less what is committed, reserved and being refunded, is the unreserved
  part of these lots, hence never negative.
\<close>

definition spendable_sum :: "id \<Rightarrow> purchase_lot table \<Rightarrow> int" where
  "spendable_sum shopId ls = lot_sum (\<lambda>l. if lot_status l = WITHDRAWN then 0 else spendable_quantity l) shopId ls"

lemma counter_sum_one:
  assumes "ledger_ok d" "c \<in> set (db_shopCounters d)" "purchased_counter_of s c"
  shows "counter_sum f s (db_shopCounters d) = f c"
proof -
  have one: "x = c" if "x \<in> set (db_shopCounters d)" "purchased_counter_of s x" for x
    using key_inj [OF ledger_keys(7) [OF assms(1)] assms(2) that(1)] that(2) assms(3)
    by (simp add: purchased_counter_of_def)
  have "row_sum (\<lambda>x. if purchased_counter_of s x then f x else 0) t = (if c \<in> set t then f c else 0)"
    if "set t \<subseteq> set (db_shopCounters d)" "distinct t" for t
    using that one assms(3) by (induction t) auto
  with ledger_keys(3) [OF assms(1)] assms(2) show ?thesis
    by (auto simp: counter_sum_def distinct_map)
qed

lemma purchased_availability:
  assumes "ledger_ok d" "c \<in> set (db_shopCounters d)" "purchased_counter_of s c"
  shows "sc_grantedQuantity c - sc_committedQuantity c - sc_reservedQuantity c - sc_refundingQuantity c
    = spendable_sum s (db_lots d)" "0 \<le> spendable_sum s (db_lots d)"
proof -
  have "lot_sum lot_currentAmount s ls - lot_sum lot_reservedAmount s ls - lot_sum lot_hold s ls = spendable_sum s ls" for ls
    by (induction ls) (auto simp: lot_sum_def spendable_sum_def lot_hold_def spendable_quantity_def)
  with ledger_okD(4) [OF assms(1)] counter_sum_one [OF assms]
  show "sc_grantedQuantity c - sc_committedQuantity c - sc_reservedQuantity c - sc_refundingQuantity c
    = spendable_sum s (db_lots d)"
    by (metis (mono_tags, lifting) pool_ok_def)
  show "0 \<le> spendable_sum s (db_lots d)"
    unfolding spendable_sum_def lot_sum_def
    by (rule row_sum_nonneg)
      (use ledger_lot(3) [OF assms(1)] in \<open>auto simp: lot_ok_def spendable_quantity_def\<close>)
qed

section \<open>The order of the lots\<close>

lemma id_less_eq_refl: "id_less_eq x x"
  by (induction x) auto

lemma id_less_eq_total: "id_less_eq x y \<or> id_less_eq y x"
proof (induction x y rule: id_less_eq.induct)
  case (3 a x b y)
  then show ?case using of_char_eq_iff [of a b, where ?'a = nat] by force
qed auto

lemma id_less_eq_trans: "id_less_eq x y \<Longrightarrow> id_less_eq y z \<Longrightarrow> id_less_eq x z"
proof (induction x y arbitrary: z rule: id_less_eq.induct)
  case (1 y)
  then show ?case by (cases z) auto
next
  case (3 a x b y)
  then show ?case by (cases z) auto
qed auto

lemma nulls_last_trans: "nulls_last_less a b \<Longrightarrow> nulls_last_less b c \<Longrightarrow> nulls_last_less a c"
  by (cases a; cases b; cases c) auto

lemma nulls_last_total: "nulls_last_less a b \<or> a = b \<or> nulls_last_less b a"
  by (cases a; cases b) auto

lemma lot_before_total: "lot_before l m \<or> lot_before m l"
  using nulls_last_total [of "lot_activatedAt l" "lot_activatedAt m"] id_less_eq_total [of "lot_id l" "lot_id m"]
  by (auto simp: lot_before_def)

lemma lot_before_trans: "lot_before l m \<Longrightarrow> lot_before m n \<Longrightarrow> lot_before l n"
  unfolding lot_before_def
  using nulls_last_trans [of "lot_activatedAt l" "lot_activatedAt m" "lot_activatedAt n"]
    id_less_eq_trans [of "lot_id l" "lot_id m" "lot_id n"]
  by auto

lemma sorted_insert_lot: "sorted_wrt lot_before ms \<Longrightarrow> sorted_wrt lot_before (insert_lot l ms)"
proof (induction ms)
  case (Cons m ms)
  then show ?case
    using lot_before_total [of l m] lot_before_trans [of l m] by (auto simp: set_insert_lot)
qed simp

lemma sorted_order_lots: "sorted_wrt lot_before (order_lots ls)"
  by (induction ls) (simp_all add: order_lots_def sorted_insert_lot)

lemma find_row_append: "find_row P (xs @ ys) = (case find_row P xs of None \<Rightarrow> find_row P ys | Some x \<Rightarrow> Some x)"
  by (induction xs) auto

lemma find_row_first:
  assumes "find_row P xs = Some x" "sorted_wrt R xs" "y \<in> set xs" "P y"
  shows "y = x \<or> R x y"
  using assms by (induction xs) (auto split: if_splits)

text \<open>
  Of the lots that could pay, the chosen one comes first: a lot of an earlier provider context
  before every lot of the current one, and within each group the oldest.
\<close>

definition eligible_lot :: "db \<Rightarrow> id \<Rightarrow> int \<Rightarrow> purchase_lot \<Rightarrow> bool" where
  "eligible_lot d shopId quantity l \<longleftrightarrow>
     l \<in> set (db_lots d) \<and> lot_shopId l = shopId \<and> lot_status l = ACTIVE \<and> quantity \<le> spendable_quantity l"

definition current_context :: "shared \<Rightarrow> db \<Rightarrow> id \<Rightarrow> (string \<times> string \<times> id) option" where
  "current_context S d shopId =
     derive_current_context S d (find_row (\<lambda>u. su_shopId u = shopId) (db_subscriptions d))"

lemma select_oldest_first:
  assumes "select_oldest_spendable_lot S d s q = Some l" "eligible_lot d s q m"
  shows "eligible_lot d s q l"
    "in_current_context S (current_context S d s) l \<Longrightarrow> in_current_context S (current_context S d s) m"
    "in_current_context S (current_context S d s) l = in_current_context S (current_context S d s) m \<Longrightarrow>
       m = l \<or> lot_before l m"
proof -
  let ?lots = "order_lots (filter (\<lambda>l. lot_shopId l = s \<and> lot_status l = ACTIVE) (db_lots d))"
  let ?cur = "in_current_context S (current_context S d s)"
  let ?ok = "\<lambda>l. q \<le> spendable_quantity l"
  have run: "find_row ?ok (filter (\<lambda>l. \<not> ?cur l) ?lots @ filter ?cur ?lots) = Some l"
    using assms(1) by (simp add: select_oldest_spendable_lot_def current_context_def Let_def)
  have m: "m \<in> set ?lots" "?ok m" using assms(2) by (auto simp: eligible_lot_def set_order_lots)
  show "eligible_lot d s q l"
    using select_oldest_spendable_lot_SomeD [OF assms(1)] by (simp add: eligible_lot_def)
  show ctx: "?cur m" if "?cur l"
  proof (rule ccontr)
    assume "\<not> ?cur m"
    with m have "find_row ?ok (filter (\<lambda>l. \<not> ?cur l) ?lots) \<noteq> None" by (auto simp: find_row_None_iff)
    then obtain x where x: "find_row ?ok (filter (\<lambda>l. \<not> ?cur l) ?lots) = Some x" by auto
    with run have "x = l" by (simp add: find_row_append)
    with find_row_SomeD [OF x] that show False by simp
  qed
  show "m = l \<or> lot_before l m" if same: "?cur l = ?cur m"
  proof (cases "?cur l")
    case False
    with run have "find_row ?ok (filter (\<lambda>l. \<not> ?cur l) ?lots) = Some l"
      by (auto simp: find_row_append split: option.splits dest: find_row_SomeD)
    then show ?thesis
      by (rule find_row_first) (use m same False in \<open>auto intro: sorted_wrt_filter sorted_order_lots\<close>)
  next
    case True
    with run have "find_row ?ok (filter ?cur ?lots) = Some l"
      by (auto simp: find_row_append split: option.splits dest: find_row_SomeD)
    then show ?thesis
      by (rule find_row_first) (use m same True in \<open>auto intro: sorted_wrt_filter sorted_order_lots\<close>)
  qed
qed

section \<open>What a new reservation does to what can be spent\<close>

lemma select_oldest_None:
  "select_oldest_spendable_lot S d s q = None \<longleftrightarrow> \<not> (\<exists>m. eligible_lot d s q m)"
  unfolding select_oldest_spendable_lot_def Let_def find_row_None_iff
  by (auto simp: eligible_lot_def set_order_lots)

lemma eligible_lot_tables: "db_lots d' = db_lots d \<Longrightarrow> eligible_lot d' s q l = eligible_lot d s q l"
  by (simp add: eligible_lot_def)

lemma current_context_counters:
  "current_context S (d\<lparr>db_shopCounters := t\<rparr>) s = current_context S d s"
  "select_oldest_spendable_lot S (d\<lparr>db_shopCounters := t\<rparr>) s q = select_oldest_spendable_lot S d s q"
proof -
  have "derive_current_context S (d\<lparr>db_shopCounters := t\<rparr>) u = derive_current_context S d u" for u
    by (simp add: derive_current_context_def subscription_plan_def cong: option.case_cong)
  then show "current_context S (d\<lparr>db_shopCounters := t\<rparr>) s = current_context S d s"
    "select_oldest_spendable_lot S (d\<lparr>db_shopCounters := t\<rparr>) s q = select_oldest_spendable_lot S d s q"
    by (simp_all add: current_context_def select_oldest_spendable_lot_def)
qed

text \<open>No lot has more to spend than all lots together, and a reservation takes its quantity off the sum.\<close>

lemma eligible_within_sum:
  assumes "ledger_ok d" "eligible_lot d s q l"
  shows "q \<le> spendable_sum s (db_lots d)"
proof -
  let ?w = "\<lambda>l. if lot_shopId l = s then if lot_status l = WITHDRAWN then 0 else spendable_quantity l else 0"
  have "?w l \<le> row_sum ?w (db_lots d)"
    by (rule row_sum_member_le)
      (use assms ledger_lot(3) [OF assms(1)] in \<open>auto simp: eligible_lot_def lot_ok_def spendable_quantity_def\<close>)
  with assms(2) show ?thesis by (auto simp: eligible_lot_def spendable_sum_def lot_sum_def)
qed

lemma spendable_sum_reserve:
  assumes "ledger_ok d" "eligible_lot d s q l"
  shows "spendable_sum s (update_key lot_id (lot_id l) (reserve_lot_row q) (db_lots d)) = spendable_sum s (db_lots d) - q"
  using assms(2) unfolding spendable_sum_def lot_sum_def
  by (subst row_sum_update_key [OF ledger_keys(6) [OF assms(1)]])
    (auto simp: eligible_lot_def reserve_lot_row_def spendable_quantity_def)

lemma ensure_purchased_counter_only:
  assumes "ensure_purchased_counter i s d = Inr (c, d0)"
  obtains t where "d0 = d\<lparr>db_shopCounters := t\<rparr>"
  using assms unfolding ensure_purchased_counter_def
  by (cases "find_shop_counter d s PURCHASED_RECOVERY_CREDITS") (auto split: sum.splits intro: that [of "db_shopCounters d"])

text \<open>The counter tells what can be spent, under the documented meaning of the function of the shared package.\<close>

lemma available_is_spendable:
  assumes "ledger_ok d" "c \<in> set (db_shopCounters d)" "purchased_counter_of s c"
    and "\<forall>g c r f. availablePurchasedRecoveryCredits S g c r f = g - c - r - f"
  shows "available_credits S c = spendable_sum s (db_lots d)" "0 \<le> available_credits S c"
  using purchased_availability [OF assms(1-3)] assms(4) by (simp_all add: available_credits_def)

lemma purchased_reserve_new_spends:
  assumes run: "purchased_reserve_new S i ci s k q d = Inr (out, d')" and ok: "ledger_ok d" "0 < q"
    and law: "\<forall>g c r f. availablePurchasedRecoveryCredits S g c r f = g - c - r - f"
  obtains (exhausted) "\<not> (\<exists>m. eligible_lot d s q m)" "out = Purchased_Credits_Exhausted (spendable_sum s (db_lots d))"
      "db_lots d' = db_lots d" "db_reservations d' = db_reservations d"
    | (reserved) l r where "select_oldest_spendable_lot S d s q = Some l" "eligible_lot d s q l"
      "out = Purchased_Reserved r PURCHASED_RECOVERY_CREDITS" "r \<in> set (db_reservations d')"
      "res_sourceKey r = k" "res_shopId r = s" "res_quantity r = q" "res_status r = RESERVED"
      "res_purchasedCreditPurchaseId r = Some (lot_id l)"
      "db_lots d' = update_key lot_id (lot_id l) (reserve_lot_row q) (db_lots d)"
proof -
  from run obtain c d0 where ens: "ensure_purchased_counter ci s d = Inr (c, d0)"
    by (auto simp: purchased_reserve_new_def result_iffs)
  note c = ensure_purchased_counter_InrD [OF ens ok(1)]
  obtain t where d0: "d0 = d\<lparr>db_shopCounters := t\<rparr>" by (rule ensure_purchased_counter_only [OF ens])
  have avail: "available_credits S c = spendable_sum s (db_lots d)" "0 \<le> available_credits S c"
    using available_is_spendable [OF c(1,2) _ law, of s] c(3,4,6) by (simp_all add: purchased_counter_of_def)
  show ?thesis
  proof (cases "\<exists>m. eligible_lot d s q m")
    case False
    then have "select_oldest_spendable_lot S d0 s q = None" by (simp add: d0 current_context_counters select_oldest_None)
    with run ens avail False c(5,6) show ?thesis
      by (intro exhausted) (auto simp: purchased_reserve_new_def Let_def split: if_splits)
  next
    case True
    then have "q \<le> available_credits S c" using eligible_within_sum [OF ok(1)] avail(1) by auto
    moreover have "select_oldest_spendable_lot S d0 s q \<noteq> None"
      using True by (simp add: d0 current_context_counters select_oldest_None)
    ultimately have open_lot: "\<not> (\<exists>n. out = Purchased_Credits_Exhausted n)"
      using run ens by (auto simp: purchased_reserve_new_def Let_def result_iffs)
    show ?thesis
    proof (cases rule: purchased_reserve_new_InrD [OF run ok(1)])
      case (2 e b l r)
      from ensure_purchased_counter_only [OF 2(15)] obtain u where e: "e = d\<lparr>db_shopCounters := u\<rparr>" .
      show ?thesis
        by (rule reserved [of l r])
          (use 2 in \<open>simp_all add: e current_context_counters eligible_lot_def new_reservation_def\<close>)
    qed (use open_lot in simp)
  qed
qed

lemma purchased_reserve_new_counter:
  assumes "purchased_reserve_new S i ci s k q d = Inr (out, d')" "ledger_ok d"
  obtains c where "c \<in> set (db_shopCounters d')" "purchased_counter_of s c"
proof -
  from assms(1) obtain c d0 where ens: "ensure_purchased_counter ci s d = Inr (c, d0)"
    by (auto simp: purchased_reserve_new_def result_iffs)
  note c = ensure_purchased_counter_InrD [OF ens assms(2)]
  show thesis
  proof (cases rule: purchased_reserve_new_InrD [OF assms])
    case (1 n)
    with assms(1) ens have "d' = d0"
      by (auto simp: purchased_reserve_new_def Let_def result_iffs split: if_splits option.splits)
    then show ?thesis using c by (intro that [of c]) (simp_all add: purchased_counter_of_def)
  next
    case (2 e b l r)
    then show ?thesis
      by (intro that [of "reserve_row q b"]) (auto simp: set_update_key purchased_counter_of_def reserve_row_def)
  qed
qed

end
