(* ===== verification/Paid_Included_Reservation.thy ===== *)
theory Paid_Included_Reservation
  imports Purchased_Reservation
begin

text \<open>
  \<open>src/services/paid-included-recovery-reservation.service.ts\<close>: reservations against the recovery
  credits a paid plan includes in a billing period. A reservation belongs to the included counter
  of one period; it can only be committed or marked ambiguous while that period is open.
\<close>

section \<open>Operations\<close>

datatype paid_outcome =
    Paid_Reserved reservation string effective_policy
  | Paid_Committed reservation
  | Paid_Released reservation
  | Paid_Ambiguous reservation
  | Paid_Replay replay_kind reservation string "effective_policy option"
  | Paid_Allowance_Exhausted int effective_policy

definition paid_error :: "string \<Rightarrow> failure" where
  "paid_error m = Service_Error Paid_Included_Recovery_Reservation_Error m"

definition period_not_open_error :: "string \<Rightarrow> failure" where
  "period_not_open_error m = Service_Error Paid_Included_Period_Not_Current_Open m"

definition paid_replay :: "reservation \<Rightarrow> string \<Rightarrow> effective_policy option \<Rightarrow> paid_outcome" where
  "paid_replay r sourceKey policy = Paid_Replay (replay_kind_of (res_status r)) r sourceKey policy"

definition paid_require_reservation :: "db \<Rightarrow> id \<Rightarrow> string \<Rightarrow> reservation result" where
  "paid_require_reservation = require_reservation paid_error"

definition validate_counter :: "period_counter \<Rightarrow> unit result" where
  "validate_counter c =
     (if \<not> is_valid_paid_included c
      then Inl (paid_error ''Included recovery period counter quantities are invalid'') else Inr ())"

definition find_period_counter :: "db \<Rightarrow> id \<Rightarrow> period_counter option" where
  "find_period_counter d i = find_row (\<lambda>c. pc_id c = i) (db_periodCounters d)"

definition find_period :: "db \<Rightarrow> id \<Rightarrow> billing_period option" where
  "find_period d i = find_row (\<lambda>p. bp_id p = i) (db_billingPeriods d)"

definition find_subscription :: "db \<Rightarrow> id \<Rightarrow> subscription option" where
  "find_subscription d shopId = find_row (\<lambda>u. su_shopId u = shopId) (db_subscriptions d)"

definition paid_source_key :: "id \<Rightarrow> string \<Rightarrow> string" where
  "paid_source_key periodId reference = ''paid-included:'' @ periodId @ '':'' @ reference"

text \<open>The dates of the subscription are those of the period.\<close>

definition same_dates :: "subscription \<Rightarrow> billing_period \<Rightarrow> bool" where
  "same_dates u p \<longleftrightarrow> su_currentPeriodStart u = Some (bp_periodStart p) \<and> su_currentPeriodEnd u = Some (bp_periodEnd p)"

definition require_current_open_period ::
  "db \<Rightarrow> id \<Rightarrow> effective_policy \<Rightarrow> time \<Rightarrow> billing_period result" where
  "require_current_open_period d shopId policy now =
     (case find_subscription d shopId of
        Some u \<Rightarrow>
          (case (subscription_period d u, ep_billingPeriod policy) of
             (Some p, Some projected) \<Rightarrow>
               if ep_shopId policy \<noteq> shopId \<or> ep_subscriptionId policy \<noteq> su_id u \<or>
                  bp_id (pj_period projected) \<noteq> bp_id p \<or> su_billingPeriodId u \<noteq> Some (bp_id p) \<or>
                  bp_shopId p \<noteq> shopId \<or> bp_subscriptionId p \<noteq> su_id u \<or> bp_status p \<noteq> OPEN \<or>
                  bp_periodEnd p \<le> now \<or> \<not> same_dates u p
               then Inl (paid_error ''Paid subscription has no exact current open billing period'')
               else Inr p
           | _ \<Rightarrow> Inl (paid_error ''Paid subscription has no exact current open billing period''))
      | None \<Rightarrow> Inl (paid_error ''Paid subscription has no exact current open billing period''))"

definition require_counter :: "db \<Rightarrow> billing_period \<Rightarrow> period_counter result" where
  "require_counter d p =
     (case included_counter d (bp_id p) of
        None \<Rightarrow> Inl (paid_error ''Included recovery period counter does not exist'')
      | Some c \<Rightarrow>
          if pc_shopId c \<noteq> bp_shopId p \<or> pc_billingPeriodId c \<noteq> bp_id p
          then Inl (paid_error ''Included recovery period counter does not exist'')
          else and_then (validate_counter c) (\<lambda>_. Inr c))"

definition require_reservation_counter :: "db \<Rightarrow> reservation \<Rightarrow> id \<Rightarrow> period_counter result" where
  "require_reservation_counter d r shopId =
     (if \<not> truthy (res_billingPeriodEntitlementCounterId r)
      then Inl (paid_error ''Reservation period counter does not exist'')
      else case find_period_counter d (the (res_billingPeriodEntitlementCounterId r)) of
          None \<Rightarrow> Inl (paid_error ''Reservation billing period counter does not exist'')
        | Some c \<Rightarrow>
            if pc_shopId c \<noteq> shopId then Inl (paid_error ''Reservation billing period counter does not exist'')
            else and_then (validate_counter c) (\<lambda>_. Inr c))"

text \<open>The period of a counter is a required relation: that it is missing stands for a broken foreign key.\<close>

definition require_open_reservation_counter :: "db \<Rightarrow> time \<Rightarrow> reservation \<Rightarrow> id \<Rightarrow> period_counter result" where
  "require_open_reservation_counter d now r shopId =
     and_then (require_reservation_counter d r shopId) (\<lambda>c.
     and_then (expect (find_period d (pc_billingPeriodId c)) (Prisma_Error P2025)) (\<lambda>p.
     if bp_status p \<noteq> OPEN \<or> bp_periodEnd p \<le> now
     then Inl (paid_error ''Paid included reservation period is no longer open'')
     else Inr c))"

definition read_counter :: "reservation \<Rightarrow> unit result" where
  "read_counter r =
     (if \<not> truthy (res_billingPeriodEntitlementCounterId r) \<or> truthy (res_counterId r) \<or>
         truthy (res_purchasedCreditPurchaseId r)
      then Inl (paid_error ''Reservation is not a paid included reservation'') else Inr ())"

definition reserve_period_row :: "int \<Rightarrow> period_counter \<Rightarrow> period_counter" where
  "reserve_period_row quantity c =
     c\<lparr>pc_reservedQuantity := pc_reservedQuantity c + quantity, pc_version := pc_version c + 1\<rparr>"

definition commit_period_row :: "int \<Rightarrow> period_counter \<Rightarrow> period_counter" where
  "commit_period_row quantity c =
     c\<lparr>pc_reservedQuantity := pc_reservedQuantity c - quantity,
       pc_committedQuantity := pc_committedQuantity c + quantity, pc_version := pc_version c + 1\<rparr>"

definition release_period_row :: "int \<Rightarrow> period_counter \<Rightarrow> period_counter" where
  "release_period_row quantity c =
     c\<lparr>pc_reservedQuantity := pc_reservedQuantity c - quantity, pc_version := pc_version c + 1\<rparr>"

definition reserve_period_counter :: "period_counter \<Rightarrow> int \<Rightarrow> db \<Rightarrow> db result" where
  "reserve_period_counter c quantity d =
     and_then (update_one (\<lambda>x. pc_id x = pc_id c \<and> pc_version x = pc_version c)
                 (reserve_period_row quantity) (db_periodCounters d)) (\<lambda>t.
     Inr (d\<lparr>db_periodCounters := t\<rparr>))"

definition reactivated_row :: "reservation \<Rightarrow> reservation" where
  "reactivated_row r = r\<lparr>res_status := RESERVED, res_releaseReason := None\<rparr>"

definition paid_reserve_existing ::
  "db \<Rightarrow> reservation \<Rightarrow> id \<Rightarrow> string \<Rightarrow> int \<Rightarrow> billing_period \<Rightarrow> effective_policy \<Rightarrow> (paid_outcome \<times> db) result" where
  "paid_reserve_existing d existing shopId sourceKey quantity period policy =
     and_then (assert_reservation_shop existing shopId paid_error) (\<lambda>_.
     and_then (require_counter d period) (\<lambda>c.
     if res_billingPeriodEntitlementCounterId existing \<noteq> Some (pc_id c)
     then Inl (paid_error ''Reservation belongs to another billing period counter'')
     else
       and_then (read_counter existing) (\<lambda>_.
       and_then (transition_decision existing Reactivate quantity paid_error) (\<lambda>decision.
       if decision = Apply then
         (if available_paid_included c < quantity then Inr (paid_replay existing sourceKey None, d)
          else
            and_then (reserve_period_counter c quantity d) (\<lambda>d1.
            and_then (update_reservation reactivated_row existing d1) (\<lambda>(r, d2).
            Inr (Paid_Reserved r sourceKey policy, d2))))
       else Inr (paid_replay existing sourceKey (Some policy), d)))))"

definition paid_reserve_new ::
  "db \<Rightarrow> id \<Rightarrow> id \<Rightarrow> string \<Rightarrow> int \<Rightarrow> billing_period \<Rightarrow> effective_policy \<Rightarrow> (paid_outcome \<times> db) result" where
  "paid_reserve_new d newId shopId sourceKey quantity period policy =
     and_then (require_counter d period) (\<lambda>c.
     let available = available_paid_included c in
     if available < quantity then Inr (Paid_Allowance_Exhausted available policy, d)
     else
       and_then (reserve_period_counter c quantity d) (\<lambda>d1.
       and_then (create_reservation
                   ((new_reservation newId shopId sourceKey quantity)
                      \<lparr>res_billingPeriodEntitlementCounterId := Some (pc_id c)\<rparr>) d1) (\<lambda>(r, d2).
       Inr (Paid_Reserved r sourceKey policy, d2))))"

definition woo_paid_unavailable :: "effective_policy \<Rightarrow> time \<Rightarrow> bool" where
  "woo_paid_unavailable policy now \<longleftrightarrow>
     ep_platform policy = WOOCOMMERCE \<and>
     (ep_subscriptionStatus policy = SUB_FROZEN \<or>
      (case ep_billingPeriod policy of None \<Rightarrow> False | Some p \<Rightarrow> pj_phase p = PHASE_EXPIRED_RECONCILING) \<or>
      (case ep_providerCoverageEndAt policy of None \<Rightarrow> False | Some t \<Rightarrow> t \<le> now))"

definition paid_reserve_in_transaction ::
  "shared \<Rightarrow> time \<Rightarrow> id \<Rightarrow> id \<Rightarrow> string \<Rightarrow> int \<Rightarrow> db \<Rightarrow> (paid_outcome \<times> db) result" where
  "paid_reserve_in_transaction S now newId shopId reference quantity d =
     and_then (resolve_policy S d shopId now) (\<lambda>policy.
     if ep_planKind policy \<noteq> PAID_METERED
     then Inl (paid_error ''Paid included reservation requires a paid plan'')
     else if woo_paid_unavailable policy now
     then Inl (paid_error
       ''Woo paid included reservation is unavailable while frozen or provider coverage is expired'')
     else
       and_then (require_current_open_period d shopId policy now) (\<lambda>period.
       let sourceKey = paid_source_key (bp_id period) reference in
       case find_reservation d sourceKey of
         Some existing \<Rightarrow> paid_reserve_existing d existing shopId sourceKey quantity period policy
       | None \<Rightarrow> paid_reserve_new d newId shopId sourceKey quantity period policy))"

definition paid_usage_event ::
  "shared \<Rightarrow> id \<Rightarrow> id \<Rightarrow> string \<Rightarrow> int \<Rightarrow> id \<Rightarrow> time \<Rightarrow> platform \<Rightarrow> plan \<Rightarrow> usage_event" where
  "paid_usage_event S eventId shopId sourceKey quantity periodId occurredAt provider pl =
     (let key = createRecoveryIdempotencyKey S shopId sourceKey in
      (new_usage_event eventId shopId quantity key ''PAID_RECOVERY_CONVERSATION'' sourceKey provider)
        \<lparr>ue_billingPeriodId := Some periodId, ue_occurredAt := Some occurredAt,
         ue_shopifyReportState := (if provider = SHOPIFY then REPORT_PENDING else REPORT_NOT_APPLICABLE),
         ue_shopifyEventHandle := (if provider = SHOPIFY then pl_shopifyUsageEventHandle pl else None),
         ue_shopifyIdempotencyKey :=
           (if provider = SHOPIFY then Some (createShopifyUsageIdempotencyKey S shopId key) else None)\<rparr>)"

text \<open>The period the commit reads is the current open one of the subscription.\<close>

definition commit_period_current ::
  "subscription \<Rightarrow> period_counter \<Rightarrow> billing_period \<Rightarrow> id \<Rightarrow> time \<Rightarrow> bool" where
  "commit_period_current u c p shopId now \<longleftrightarrow>
     bp_status p = OPEN \<and> now < bp_periodEnd p \<and> su_billingPeriodId u = Some (bp_id p) \<and>
     bp_shopId p = shopId \<and> bp_subscriptionId p = su_id u \<and> pc_shopId c = shopId \<and>
     pc_billingPeriodId c = bp_id p \<and> same_dates u p"

definition paid_commit_in_transaction ::
  "shared \<Rightarrow> time \<Rightarrow> time option \<Rightarrow> id \<Rightarrow> id \<Rightarrow> string \<Rightarrow> int \<Rightarrow> db \<Rightarrow> (paid_outcome \<times> db) result" where
  "paid_commit_in_transaction S now occurredAt eventId shopId sourceKey quantity d =
     and_then (paid_require_reservation d shopId sourceKey) (\<lambda>r.
     and_then (transition_decision r Commit quantity paid_error) (\<lambda>decision.
     if decision \<noteq> Apply then Inr (paid_replay r sourceKey None, d)
     else
       and_then (read_counter r) (\<lambda>_.
       let missing = paid_error ''Paid included reservation counter does not exist'' in
       and_then (expect (find_subscription d shopId) missing) (\<lambda>u.
       and_then (expect (find_period_counter d (the (res_billingPeriodEntitlementCounterId r))) missing) (\<lambda>c.
       if pc_counter c \<noteq> INCLUDED_RECOVERY_CREDITS then Inl missing
       else
         and_then (expect (find_period d (pc_billingPeriodId c)) (Prisma_Error P2025)) (\<lambda>p.
         if \<not> commit_period_current u c p shopId now
         then Inl (period_not_open_error ''Paid included reservation period is no longer current and open'')
         else
           and_then (resolve_recovery_usage_provider d shopId) (\<lambda>provider.
           and_then (expect (subscription_plan d u) (paid_error ''Paid normal usage meter is missing'')) (\<lambda>pl.
           if pl_kind pl \<noteq> PAID_METERED \<or> (provider = SHOPIFY \<and> \<not> truthy (pl_shopifyUsageEventHandle pl))
           then Inl (paid_error ''Paid normal usage meter is missing'')
           else
             and_then (update_one (\<lambda>x. pc_id x = pc_id c \<and> pc_version x = pc_version c \<and> quantity \<le> pc_reservedQuantity x)
                         (commit_period_row quantity) (db_periodCounters d)) (\<lambda>counters.
             and_then (create_usage_event
                         (paid_usage_event S eventId shopId sourceKey quantity (bp_id p)
                            (nullish occurredAt now) provider pl)
                         (d\<lparr>db_periodCounters := counters\<rparr>)) (\<lambda>(e, d2).
             and_then (update_reservation (committed_row (ue_id e)) r d2) (\<lambda>(committed, d3).
             Inr (Paid_Committed committed, d3))))))))))))"

definition paid_release_in_transaction ::
  "id \<Rightarrow> string \<Rightarrow> int \<Rightarrow> db \<Rightarrow> (paid_outcome \<times> db) result" where
  "paid_release_in_transaction shopId sourceKey quantity d =
     and_then (paid_require_reservation d shopId sourceKey) (\<lambda>r.
     and_then (transition_decision r Release quantity paid_error) (\<lambda>decision.
     if decision \<noteq> Apply then Inr (paid_replay r sourceKey None, d)
     else
       and_then (require_reservation_counter d r shopId) (\<lambda>c.
       and_then (update_one (\<lambda>x. pc_id x = pc_id c \<and> pc_version x = pc_version c \<and> quantity \<le> pc_reservedQuantity x)
                   (release_period_row quantity) (db_periodCounters d)) (\<lambda>counters.
       and_then (update_reservation (with_status RELEASED) r (d\<lparr>db_periodCounters := counters\<rparr>)) (\<lambda>(released, d2).
       Inr (Paid_Released released, d2))))))"

definition paid_mark_ambiguous_in_transaction ::
  "time \<Rightarrow> id \<Rightarrow> string \<Rightarrow> db \<Rightarrow> (paid_outcome \<times> db) result" where
  "paid_mark_ambiguous_in_transaction now shopId sourceKey d =
     and_then (paid_require_reservation d shopId sourceKey) (\<lambda>r.
     and_then (transition_decision r Ambiguous 0 paid_error) (\<lambda>decision.
     if decision \<noteq> Apply then Inr (paid_replay r sourceKey None, d)
     else
       and_then (require_open_reservation_counter d now r shopId) (\<lambda>_.
       and_then (update_reservation (with_status AMBIGUOUS) r d) (\<lambda>(ambiguous, d2).
       Inr (Paid_Ambiguous ambiguous, d2)))))"

section \<open>The public methods\<close>

definition paid_reserve ::
  "shared \<Rightarrow> db env \<Rightarrow> nat \<Rightarrow> id \<Rightarrow> string \<Rightarrow> js_number option \<Rightarrow> db \<Rightarrow> paid_outcome result \<times> db" where
  "paid_reserve S E maxRetries shopId reference quantity =
     validated paid_error quantity (\<lambda>q. with_retry E
       (\<lambda>n. paid_reserve_in_transaction S (env_now E n) (env_ids E n 0) shopId reference q)
       paid_error maxRetries)"

definition paid_commit ::
  "shared \<Rightarrow> db env \<Rightarrow> nat \<Rightarrow> id \<Rightarrow> string \<Rightarrow> js_number option \<Rightarrow> time option \<Rightarrow> db \<Rightarrow> paid_outcome result \<times> db" where
  "paid_commit S E maxRetries shopId sourceKey quantity occurredAt =
     validated paid_error quantity (\<lambda>q. with_retry E
       (\<lambda>n. paid_commit_in_transaction S (env_now E n) occurredAt (env_ids E n 0) shopId sourceKey q)
       paid_error maxRetries)"

definition paid_release ::
  "db env \<Rightarrow> nat \<Rightarrow> id \<Rightarrow> string \<Rightarrow> js_number option \<Rightarrow> db \<Rightarrow> paid_outcome result \<times> db" where
  "paid_release E maxRetries shopId sourceKey quantity =
     validated paid_error quantity (\<lambda>q. with_retry E
       (\<lambda>n. paid_release_in_transaction shopId sourceKey q) paid_error maxRetries)"

definition paid_mark_ambiguous ::
  "db env \<Rightarrow> nat \<Rightarrow> id \<Rightarrow> string \<Rightarrow> js_number option \<Rightarrow> db \<Rightarrow> paid_outcome result \<times> db" where
  "paid_mark_ambiguous E maxRetries shopId sourceKey quantity =
     validated paid_error quantity (\<lambda>q. with_retry E
       (\<lambda>n. paid_mark_ambiguous_in_transaction (env_now E n) shopId sourceKey) paid_error maxRetries)"

definition paid_commit_in_existing_transaction ::
  "shared \<Rightarrow> time \<Rightarrow> time option \<Rightarrow> id \<Rightarrow> id \<Rightarrow> string \<Rightarrow> js_number option \<Rightarrow> db \<Rightarrow> (paid_outcome \<times> db) result" where
  "paid_commit_in_existing_transaction S now occurredAt eventId shopId sourceKey quantity d =
     and_then (validate_quantity quantity paid_error) (\<lambda>q.
     paid_commit_in_transaction S now occurredAt eventId shopId sourceKey q d)"

definition paid_release_in_existing_transaction ::
  "id \<Rightarrow> string \<Rightarrow> js_number option \<Rightarrow> db \<Rightarrow> (paid_outcome \<times> db) result" where
  "paid_release_in_existing_transaction shopId sourceKey quantity d =
     and_then (validate_quantity quantity paid_error) (\<lambda>q.
     paid_release_in_transaction shopId sourceKey q d)"

section \<open>What a successful operation did\<close>

lemma period_row_keys [simp]:
  "pc_id (reserve_period_row q c) = pc_id c" "pc_id (commit_period_row q c) = pc_id c"
  "pc_id (release_period_row q c) = pc_id c" "pc_shopId (reserve_period_row q c) = pc_shopId c"
  "pc_shopId (commit_period_row q c) = pc_shopId c" "pc_shopId (release_period_row q c) = pc_shopId c"
  by (simp_all add: reserve_period_row_def commit_period_row_def release_period_row_def)

lemma find_period_counter_SomeD:
  "find_period_counter d i = Some c \<Longrightarrow> c \<in> set (db_periodCounters d) \<and> pc_id c = i"
  by (auto simp: find_period_counter_def dest: find_row_SomeD)

lemma find_period_SomeD: "find_period d i = Some p \<Longrightarrow> p \<in> set (db_billingPeriods d) \<and> bp_id p = i"
  by (auto simp: find_period_def dest: find_row_SomeD)

lemma read_counter_InrD:
  "read_counter r = Inr u \<Longrightarrow>
     res_billingPeriodEntitlementCounterId r = Some (the (res_billingPeriodEntitlementCounterId r))"
  using truthy_SomeD [of "res_billingPeriodEntitlementCounterId r"]
  by (auto simp: read_counter_def split: if_splits)

lemma require_counter_InrD:
  "require_counter d p = Inr c \<Longrightarrow>
     c \<in> set (db_periodCounters d) \<and> pc_shopId c = bp_shopId p \<and> is_valid_paid_included c"
  by (auto simp: require_counter_def validate_counter_def included_counter_def result_iffs
      split: option.splits if_splits dest!: find_row_SomeD)

lemma require_reservation_counter_InrD:
  "require_reservation_counter d r s = Inr c \<Longrightarrow>
     c \<in> set (db_periodCounters d) \<and> res_billingPeriodEntitlementCounterId r = Some (pc_id c) \<and> pc_shopId c = s"
  using truthy_SomeD [of "res_billingPeriodEntitlementCounterId r"]
  by (auto simp: require_reservation_counter_def validate_counter_def result_iffs
      split: option.splits if_splits dest!: find_period_counter_SomeD)

lemma require_current_open_period_InrD:
  assumes "require_current_open_period d s policy now = Inr p"
  shows "bp_shopId p = s \<and> bp_status p = OPEN \<and> now < bp_periodEnd p"
  using assms by (auto simp: require_current_open_period_def split: option.splits if_splits)

text \<open>A valid counter with enough available has room for the quantity within its grant.\<close>

lemma available_paid_room:
  assumes "is_valid_paid_included c" "q \<le> available_paid_included c" "0 < q"
  shows "pc_committedQuantity c + pc_reservedQuantity c + pc_forfeitedQuantity c + q \<le> pc_grantedQuantity c"
  using assms
  by (auto simp: is_valid_paid_included_def available_paid_included_def nullish_def Let_def
      split: option.splits if_splits)

lemma reserve_period_counter_InrD:
  assumes "reserve_period_counter c q d = Inr d'" "distinct (map pc_id (db_periodCounters d))"
    "c \<in> set (db_periodCounters d)"
  shows "d' = d\<lparr>db_periodCounters := update_key pc_id (pc_id c) (reserve_period_row q) (db_periodCounters d)\<rparr>"
  using assms by (auto simp: reserve_period_counter_def result_iffs dest: update_one_row [where key = pc_id])

lemma ue_paid_usage_event [simp]:
  "ue_id (paid_usage_event S e s k q i t prov pl) = e"
  "ue_shopId (paid_usage_event S e s k q i t prov pl) = s"
  "ue_quantity (paid_usage_event S e s k q i t prov pl) = q"
  "ue_metric (paid_usage_event S e s k q i t prov pl) = RECOVERY_CONVERSATION"
  "ue_idempotencyKey (paid_usage_event S e s k q i t prov pl) = createRecoveryIdempotencyKey S s k"
  by (simp_all add: paid_usage_event_def Let_def)

lemma paid_commit_InrD:
  assumes run: "paid_commit_in_transaction S now occ e s k q d = Inr (out, d')" and ok: "ledger_ok d"
  obtains (replay) r where "find_reservation d k = Some r" "res_shopId r = s" "res_status r \<noteq> RESERVED"
      "out = paid_replay r k None" "d' = d"
    | (applied) r c p u prov pl where "r \<in> set (db_reservations d)" "res_sourceKey r = k" "res_shopId r = s"
      "res_status r = RESERVED" "res_quantity r = q"
      "res_billingPeriodEntitlementCounterId r = Some (pc_id c)" "c \<in> set (db_periodCounters d)"
      "p \<in> set (db_billingPeriods d)" "commit_period_current u c p s now" "find_subscription d s = Some u"
      "out = Paid_Committed (committed_row e r)"
      "d' = d\<lparr>db_periodCounters := update_key pc_id (pc_id c) (commit_period_row q) (db_periodCounters d),
              db_usageEvents := db_usageEvents d @
                [paid_usage_event S e s k q (bp_id p) (nullish occ now) prov pl],
              db_reservations := update_key res_id (res_id r) (committed_row e) (db_reservations d)\<rparr>"
proof -
  from run obtain r dec where rq: "paid_require_reservation d s k = Inr r"
    and dec: "transition_decision r Commit q paid_error = Inr dec"
    by (auto simp: paid_commit_in_transaction_def result_iffs)
  note r = require_reservation_InrD [OF rq [unfolded paid_require_reservation_def]]
  show ?thesis
  proof (cases "dec = Apply")
    case False
    with run rq dec r not_ApplyD [OF dec] show ?thesis
      by (intro replay [of r]) (auto simp: paid_commit_in_transaction_def)
  next
    case True
    note run' = run [unfolded paid_commit_in_transaction_def rq dec True and_then_simps Let_def, simplified]
    from run' obtain c p u prov pl counters ev d2 x v where
      rc: "read_counter r = Inr v" and u: "find_subscription d s = Some u"
      and c: "find_period_counter d (the (res_billingPeriodEntitlementCounterId r)) = Some c"
      and p: "find_period d (pc_billingPeriodId c) = Some p"
      and cur: "commit_period_current u c p s now"
      and u1: "update_one (\<lambda>x. pc_id x = pc_id c \<and> pc_version x = pc_version c \<and> q \<le> pc_reservedQuantity x)
            (commit_period_row q) (db_periodCounters d) = Inr counters"
      and ev: "create_usage_event (paid_usage_event S e s k q (bp_id p) (nullish occ now) prov pl)
            (d\<lparr>db_periodCounters := counters\<rparr>) = Inr (ev, d2)"
      and upd: "update_reservation (committed_row (ue_id ev)) r d2 = Inr (x, d')" "out = Paid_Committed x"
      by (elim run_elims) blast
    note c' = find_period_counter_SomeD [OF c]
    note counters = update_one_row [where key = pc_id, OF u1 ledger_keys(4) [OF ok] c' [THEN conjunct1]]
    from r c' cur u counters transition_decision_Apply [OF dec [unfolded True]] read_counter_InrD [OF rc]
      upd(2) commit_tail [OF ev upd(1)] ledger_keys(1) [OF ok] find_period_SomeD [OF p]
    show ?thesis by (intro applied [of r c p u prov pl]) simp_all
  qed
qed

lemma paid_release_InrD:
  assumes run: "paid_release_in_transaction s k q d = Inr (out, d')" and ok: "ledger_ok d"
  obtains (replay) r where "find_reservation d k = Some r" "res_shopId r = s" "res_status r \<noteq> RESERVED"
      "out = paid_replay r k None" "d' = d"
    | (applied) r c where "r \<in> set (db_reservations d)" "res_sourceKey r = k" "res_shopId r = s"
      "res_status r = RESERVED" "res_quantity r = q"
      "res_billingPeriodEntitlementCounterId r = Some (pc_id c)" "c \<in> set (db_periodCounters d)"
      "out = Paid_Released (with_status RELEASED r)"
      "d' = d\<lparr>db_periodCounters := update_key pc_id (pc_id c) (release_period_row q) (db_periodCounters d),
              db_reservations := update_key res_id (res_id r) (with_status RELEASED) (db_reservations d)\<rparr>"
proof -
  from run obtain r dec where rq: "paid_require_reservation d s k = Inr r"
    and dec: "transition_decision r Release q paid_error = Inr dec"
    by (auto simp: paid_release_in_transaction_def result_iffs)
  note r = require_reservation_InrD [OF rq [unfolded paid_require_reservation_def]]
  show ?thesis
  proof (cases "dec = Apply")
    case False
    with run rq dec r not_ApplyD [OF dec] show ?thesis
      by (intro replay [of r]) (auto simp: paid_release_in_transaction_def)
  next
    case True
    note run' = run [unfolded paid_release_in_transaction_def rq dec True and_then_simps Let_def, simplified]
    from run' obtain c counters x where
      c: "require_reservation_counter d r s = Inr c"
      and u1: "update_one (\<lambda>x. pc_id x = pc_id c \<and> pc_version x = pc_version c \<and> q \<le> pc_reservedQuantity x)
            (release_period_row q) (db_periodCounters d) = Inr counters"
      and upd: "update_reservation (with_status RELEASED) r (d\<lparr>db_periodCounters := counters\<rparr>) = Inr (x, d')"
        "out = Paid_Released x"
      by (elim run_elims) blast
    note c' = require_reservation_counter_InrD [OF c]
    note counters = update_one_row [where key = pc_id, OF u1 ledger_keys(4) [OF ok] c' [THEN conjunct1]]
    from r c' counters transition_decision_Apply [OF dec [unfolded True]] upd(2)
      update_reservation_InrD [OF upd(1)] ledger_keys(1) [OF ok] show ?thesis
      by (intro applied [of r c]) simp_all
  qed
qed

lemma paid_mark_ambiguous_InrD:
  assumes run: "paid_mark_ambiguous_in_transaction now s k d = Inr (out, d')" and ok: "ledger_ok d"
  obtains (replay) r where "find_reservation d k = Some r" "res_shopId r = s" "res_status r \<noteq> RESERVED"
      "out = paid_replay r k None" "d' = d"
    | (applied) r where "r \<in> set (db_reservations d)" "res_sourceKey r = k" "res_shopId r = s"
      "res_status r = RESERVED" "out = Paid_Ambiguous (with_status AMBIGUOUS r)"
      "d' = d\<lparr>db_reservations := update_key res_id (res_id r) (with_status AMBIGUOUS) (db_reservations d)\<rparr>"
proof -
  from run obtain r dec where rq: "paid_require_reservation d s k = Inr r"
    and dec: "transition_decision r Ambiguous 0 paid_error = Inr dec"
    by (auto simp: paid_mark_ambiguous_in_transaction_def result_iffs)
  note r = require_reservation_InrD [OF rq [unfolded paid_require_reservation_def]]
  show ?thesis
  proof (cases "dec = Apply")
    case False
    with run rq dec r not_ApplyD [OF dec] show ?thesis
      by (intro replay [of r]) (auto simp: paid_mark_ambiguous_in_transaction_def)
  next
    case True
    with run rq dec obtain x where
      upd: "update_reservation (with_status AMBIGUOUS) r d = Inr (x, d')" "out = Paid_Ambiguous x"
      by (auto simp: paid_mark_ambiguous_in_transaction_def result_iffs)
    from r transition_decision_Apply [OF dec [unfolded True]] upd(2)
      update_reservation_InrD [OF upd(1)] ledger_keys(1) [OF ok] show ?thesis
      by (intro applied [of r]) simp_all
  qed
qed

lemma reactivated_row_simps [simp]:
  "res_id (reactivated_row r) = res_id r" "res_sourceKey (reactivated_row r) = res_sourceKey r"
  "res_status (reactivated_row r) = RESERVED" "res_quantity (reactivated_row r) = res_quantity r"
  "res_shopId (reactivated_row r) = res_shopId r"
  "res_billingPeriodEntitlementCounterId (reactivated_row r) = res_billingPeriodEntitlementCounterId r"
  by (simp_all add: reactivated_row_def)

lemma paid_reserve_new_InrD:
  assumes run: "paid_reserve_new d i s k q p policy = Inr (out, d')" and ok: "ledger_ok d"
  obtains (exhausted) n where "out = Paid_Allowance_Exhausted n policy" "n < q" "d' = d"
    | (applied) c r where "c \<in> set (db_periodCounters d)" "pc_shopId c = bp_shopId p"
      "r = (new_reservation i s k q)\<lparr>res_billingPeriodEntitlementCounterId := Some (pc_id c)\<rparr>"
      "is_valid_paid_included c" "q \<le> available_paid_included c"
      "\<forall>x\<in>set (db_reservations d). \<not> reservation_clash r x"
      "out = Paid_Reserved r k policy"
      "d' = d\<lparr>db_periodCounters := update_key pc_id (pc_id c) (reserve_period_row q) (db_periodCounters d),
              db_reservations := db_reservations d @ [r]\<rparr>"
proof -
  from run obtain c where rc: "require_counter d p = Inr c"
    by (auto simp: paid_reserve_new_def result_iffs)
  note c = require_counter_InrD [OF rc]
  let ?r = "(new_reservation i s k q)\<lparr>res_billingPeriodEntitlementCounterId := Some (pc_id c)\<rparr>"
  show ?thesis
  proof (cases "available_paid_included c < q")
    case True
    with run rc show ?thesis by (intro exhausted) (auto simp: paid_reserve_new_def Let_def)
  next
    case False
    with run rc obtain d1 x where d1: "reserve_period_counter c q d = Inr d1"
      and x: "create_reservation ?r d1 = Inr (x, d')" "out = Paid_Reserved x k policy"
      by (auto simp: paid_reserve_new_def result_iffs Let_def)
    from False c x(2) reserve_period_counter_InrD [OF d1 ledger_keys(4) [OF ok]] create_reservation_InrD [OF x(1)]
    show ?thesis by (intro applied [of c ?r]) simp_all
  qed
qed

lemma paid_reserve_existing_InrD:
  assumes run: "paid_reserve_existing d r s k q p policy = Inr (out, d')" and ok: "ledger_ok d"
    and r: "r \<in> set (db_reservations d)"
  obtains (replay) pol where "out = paid_replay r k pol" "d' = d"
    | (applied) c where "res_status r = RELEASED" "res_quantity r = q" "c \<in> set (db_periodCounters d)"
      "res_billingPeriodEntitlementCounterId r = Some (pc_id c)" "pc_shopId c = bp_shopId p" "res_shopId r = s"
      "is_valid_paid_included c" "q \<le> available_paid_included c"
      "out = Paid_Reserved (reactivated_row r) k policy"
      "d' = d\<lparr>db_periodCounters := update_key pc_id (pc_id c) (reserve_period_row q) (db_periodCounters d),
              db_reservations := update_key res_id (res_id r) reactivated_row (db_reservations d)\<rparr>"
proof -
  from run obtain dec c u v where sh: "assert_reservation_shop r s paid_error = Inr u"
    and rc: "require_counter d p = Inr c" and own: "res_billingPeriodEntitlementCounterId r = Some (pc_id c)"
    and rd: "read_counter r = Inr v"
    and dec: "transition_decision r Reactivate q paid_error = Inr dec"
    by (auto simp: paid_reserve_existing_def result_iffs split: if_splits)
  note c = require_counter_InrD [OF rc]
  note run' = run [unfolded paid_reserve_existing_def sh rc rd dec and_then_simps, simplified own]
  show ?thesis
  proof (cases "dec = Apply \<and> \<not> available_paid_included c < q")
    case False
    with run' show ?thesis by (cases "dec = Apply") (auto intro: replay)
  next
    case True
    with run' obtain d1 x where d1: "reserve_period_counter c q d = Inr d1"
      and x: "update_reservation reactivated_row r d1 = Inr (x, d')" "out = Paid_Reserved x k policy"
      by (auto simp: result_iffs)
    from True c own x(2) reserve_period_counter_InrD [OF d1 ledger_keys(4) [OF ok]]
      update_reservation_InrD [OF x(1)] r ledger_keys(1) [OF ok] assert_reservation_shop_InrD [OF sh]
      transition_decision_Apply [of r Reactivate q paid_error] dec
    show ?thesis by (intro applied [of c]) simp_all
  qed
qed

section \<open>The ledger invariant\<close>

text \<open>A reservation that names a period counter is one of the paid source.\<close>

lemma paid_counter_owned:
  assumes "ledger_ok d" "r \<in> set (db_reservations d)" "res_billingPeriodEntitlementCounterId r \<noteq> None"
  shows "owned_by d Paid_Source r"
proof -
  from ledger_okD(5) [OF assms(1,2)] obtain k where "owned_by d k r" by (auto simp: reservation_ok_def)
  with assms(3) show ?thesis by (cases k) auto
qed

lemma paid_commit_ledger:
  assumes run: "paid_commit_in_transaction S now occ e s k q d = Inr (out, d')" and ok: "ledger_ok d"
  shows "ledger_ok d'"
proof (cases rule: paid_commit_InrD [OF run ok])
  case (2 r c p u prov pl)
  then have own: "owned_by d Paid_Source r" by (intro paid_counter_owned [OF ok]) simp_all
  have comp: "res_compensationUsageEventId r = None" using uncompensated [OF ok 2(1)] 2(4) by simp
  note change = change_commit [OF 2(4) comp, of e]
  show ?thesis
  proof (rule ledger_step_paid [OF ok, where old = "Some r" and new = "committed_row e r" and k = "pc_id c"
        and f = "commit_period_row q"])
    show "rows_step (Some r) (committed_row e r) (db_reservations d) (db_reservations d')"
      using 2 by (simp add: rows_step_commit)
    show "pc_reservedQuantity (commit_period_row q x)
          = pc_reservedQuantity x + change held_weight (Some r) (committed_row e r) \<and>
        pc_committedQuantity (commit_period_row q x)
          = pc_committedQuantity x + change spent_weight (Some r) (committed_row e r) \<and>
        period_counter_ok (commit_period_row q x)" if "x \<in> set (db_periodCounters d)" for x
      using ledger_period_counter(5) [OF ok that] change 2(5)
      by (simp add: commit_period_row_def period_counter_ok_def)
    show "reservation_change_ok (Some r) (committed_row e r)" by (rule change_ok_commit [OF ok 2(1)])
  qed (use 2 own in simp_all)
qed (use ok in simp)

lemma paid_release_ledger:
  assumes run: "paid_release_in_transaction s k q d = Inr (out, d')" and ok: "ledger_ok d"
  shows "ledger_ok d'"
proof (cases rule: paid_release_InrD [OF run ok])
  case (2 r c)
  then have own: "owned_by d Paid_Source r" by (intro paid_counter_owned [OF ok]) simp_all
  have change: "change held_weight (Some r) (with_status RELEASED r) = - q"
    "change spent_weight (Some r) (with_status RELEASED r) = 0"
    using change_status [of r RELEASED] 2(4,5) by (simp_all add: held_weight_simps)
  show ?thesis
  proof (rule ledger_step_paid [OF ok, where old = "Some r" and new = "with_status RELEASED r" and k = "pc_id c"
        and f = "release_period_row q"])
    show "rows_step (Some r) (with_status RELEASED r) (db_reservations d) (db_reservations d')"
      using 2 by (simp add: rows_step_status)
    show "pc_reservedQuantity (release_period_row q x)
          = pc_reservedQuantity x + change held_weight (Some r) (with_status RELEASED r) \<and>
        pc_committedQuantity (release_period_row q x)
          = pc_committedQuantity x + change spent_weight (Some r) (with_status RELEASED r) \<and>
        period_counter_ok (release_period_row q x)" if "x \<in> set (db_periodCounters d)" for x
      using ledger_period_counter(5) [OF ok that] change 2(5) quantity_pos [OF ok 2(1)]
      by (simp add: release_period_row_def period_counter_ok_def)
    show "reservation_change_ok (Some r) (with_status RELEASED r)"
      by (rule change_ok_status [OF ok 2(1)]) (use 2(4) in simp_all)
  qed (use 2 own in simp_all)
qed (use ok in simp)

lemma paid_mark_ambiguous_ledger:
  assumes run: "paid_mark_ambiguous_in_transaction now s k d = Inr (out, d')" and ok: "ledger_ok d"
  shows "ledger_ok d'"
proof (cases rule: paid_mark_ambiguous_InrD [OF run ok])
  case (2 r)
  then show ?thesis using ledger_mark_ambiguous [OF ok] by simp
qed (use ok in simp)

text \<open>Both ways to reserve put \<open>q\<close> more on the counter.\<close>

lemma ledger_paid_reserve:
  assumes ok: "ledger_ok d" and rows: "rows_step old new (db_reservations d) (db_reservations d')"
    and own: "owned_by d Paid_Source new" "res_billingPeriodEntitlementCounterId new = Some (pc_id c)"
    and c: "c \<in> set (db_periodCounters d)" "is_valid_paid_included c" "q \<le> available_paid_included c" "0 < q"
    and new: "reservation_change_ok old new" "change held_weight old new = q" "change spent_weight old new = 0"
    and tabs: "db_periodCounters d' = update_key pc_id (pc_id c) (reserve_period_row q) (db_periodCounters d)"
      "db_shopCounters d' = db_shopCounters d" "db_lots d' = db_lots d" "db_grants d' = db_grants d"
  shows "ledger_ok d'"
proof (rule ledger_step_paid [OF ok rows own new(1) tabs(1,3,2,4)])
  show "pc_reservedQuantity (reserve_period_row q x) = pc_reservedQuantity x + change held_weight old new \<and>
      pc_committedQuantity (reserve_period_row q x) = pc_committedQuantity x + change spent_weight old new \<and>
      period_counter_ok (reserve_period_row q x)" if x: "x \<in> set (db_periodCounters d)" "pc_id x = pc_id c" for x
    using unique_period_counter [OF ok c(1) x] available_paid_room [OF c(2,3,4)] new(2,3)
      ledger_period_counter(5) [OF ok c(1)]
    by (simp add: reserve_period_row_def period_counter_ok_def)
qed simp

lemma paid_reserve_new_ledger:
  assumes run: "paid_reserve_new d i s k q p policy = Inr (out, d')" and ok: "ledger_ok d" and q: "0 < q"
    and p: "bp_shopId p = s"
  shows "ledger_ok d'"
proof (cases rule: paid_reserve_new_InrD [OF run ok])
  case (2 c r)
  then have row: "res_status r = RESERVED" "res_quantity r = q" "res_compensationUsageEventId r = None"
    by (simp_all add: new_reservation_def)
  have "owned_by d Paid_Source r"
    using 2(1-3) p by (auto simp: new_reservation_def period_counter_keys_def)
  then show ?thesis
    using 2 row q change_new [OF row(1)] change_ok_new [OF q row]
    by (intro ledger_paid_reserve [OF ok, where old = None and new = r and c = c and q = q])
      (simp_all add: rows_step_append)
qed (use ok in simp)

lemma paid_reserve_existing_ledger:
  assumes run: "paid_reserve_existing d r s k q p policy = Inr (out, d')" and ok: "ledger_ok d"
    and r: "r \<in> set (db_reservations d)" and q: "0 < q"
  shows "ledger_ok d'"
proof (cases rule: paid_reserve_existing_InrD [OF run ok r])
  case (2 c)
  then have own: "owned_by d Paid_Source r" by (intro paid_counter_owned [OF ok r]) simp
  then have own': "owned_by d Paid_Source (reactivated_row r)" by (simp add: reactivated_row_def)
  have new: "change held_weight (Some r) (reactivated_row r) = q"
    "change spent_weight (Some r) (reactivated_row r) = 0"
    "reservation_change_ok (Some r) (reactivated_row r)"
    using 2(1,2) quantity_pos [OF ok r] uncompensated [OF ok r]
    by (auto simp: change_def held_weight_def held_def spent_weight_def reservation_change_ok_def
        same_source_def reactivated_row_def)
  show ?thesis
    using 2 new own' q rows_step_update [OF r, where g = reactivated_row]
    by (intro ledger_paid_reserve [OF ok, where old = "Some r" and new = "reactivated_row r" and c = c and q = q])
      simp_all
qed (use ok in simp)

lemma paid_reserve_ledger:
  assumes run: "paid_reserve_in_transaction S now i s ref q d = Inr (out, d')"
    and ok: "ledger_ok d" and q: "0 < q"
  shows "ledger_ok d'"
proof -
  from run obtain policy p where p: "require_current_open_period d s policy now = Inr p"
    and rest: "(case find_reservation d (paid_source_key (bp_id p) ref) of
         Some existing \<Rightarrow> paid_reserve_existing d existing s (paid_source_key (bp_id p) ref) q p policy
       | None \<Rightarrow> paid_reserve_new d i s (paid_source_key (bp_id p) ref) q p policy) = Inr (out, d')"
    by (auto simp: paid_reserve_in_transaction_def result_iffs Let_def split: if_splits)
  note shop = require_current_open_period_InrD [OF p]
  show ?thesis
  proof (cases "find_reservation d (paid_source_key (bp_id p) ref)")
    case None
    with rest ok q shop show ?thesis by (auto intro: paid_reserve_new_ledger)
  next
    case (Some r)
    with rest have "paid_reserve_existing d r s (paid_source_key (bp_id p) ref) q p policy = Inr (out, d')" by simp
    then show ?thesis using ok _ q
      by (rule paid_reserve_existing_ledger) (use find_reservation_SomeD [OF Some] in simp)
  qed
qed

end
