(* ===== verification/Promotional_Reservation.thy ===== *)
theory Promotional_Reservation
  imports Paid_Included_Reservation
begin

text \<open>
  \<open>src/services/promotional-recovery-reservation.service.ts\<close>: reservations against the promotional
  grant the merchant has selected, while its campaign runs and targets the shop.
\<close>

section \<open>Operations\<close>

datatype promotional_outcome =
    Promotional_Reserved reservation string
  | Promotional_Committed reservation string
  | Promotional_Released reservation string
  | Promotional_Ambiguous reservation string
  | Promotional_Replay replay_kind reservation string
  | Promotional_Unavailable

definition promotional_error :: "string \<Rightarrow> failure" where
  "promotional_error m = Service_Error Promotional_Recovery_Reservation_Error m"

definition promotional_replay :: "reservation \<Rightarrow> string \<Rightarrow> promotional_outcome" where
  "promotional_replay r sourceKey = Promotional_Replay (replay_kind_of (res_status r)) r sourceKey"

definition available_quantity :: "grant \<Rightarrow> int" where
  "available_quantity g = gr_quantity g - gr_committedQuantity g - gr_reservedQuantity g"

definition find_grant :: "db \<Rightarrow> id \<Rightarrow> grant option" where
  "find_grant d i = find_row (\<lambda>g. gr_id g = i) (db_grants d)"

text \<open>The grant the merchant has selected, with the campaign it comes from.\<close>

definition selected_grant :: "db \<Rightarrow> id \<Rightarrow> (grant \<times> campaign) option" where
  "selected_grant d shopId =
     Option.bind (find_row (\<lambda>p. ps_shopId p = shopId) (db_selections d)) (\<lambda>p.
     Option.bind (ps_promotionalCreditGrantId p) (\<lambda>i.
     Option.bind (find_grant d i) (\<lambda>g.
     Option.bind (find_row (\<lambda>c. ca_id c = gr_campaignId g) (db_campaigns d)) (\<lambda>c. Some (g, c)))))"

definition outside_scope :: "campaign \<Rightarrow> id \<Rightarrow> id \<Rightarrow> bool" where
  "outside_scope c shopId planId \<longleftrightarrow>
     (ca_scope c = SCOPE_SHOP \<and> ca_targetShopId c \<noteq> Some shopId) \<or>
     (ca_scope c = SCOPE_PLAN \<and> ca_targetPlanId c \<noteq> Some planId) \<or>
     (ca_scope c = SCOPE_GLOBAL \<and> (ca_targetShopId c \<noteq> None \<or> ca_targetPlanId c \<noteq> None))"

definition find_usable_grant :: "shared \<Rightarrow> db \<Rightarrow> id \<Rightarrow> time \<Rightarrow> grant option result" where
  "find_usable_grant S d shopId now =
     and_then (resolve_policy S d shopId now) (\<lambda>policy.
     if ep_newRecoveriesPaused policy then Inr None
     else case selected_grant d shopId of
         None \<Rightarrow> Inr None
       | Some (g, c) \<Rightarrow>
           if gr_shopId g \<noteq> shopId \<or> ca_status c \<noteq> CAMPAIGN_ACTIVE then Inr None
           else if ca_startsAt c > now \<or> ca_expiresAt c \<le> now \<or> gr_campaignId g \<noteq> ca_id c then Inr None
           else if outside_scope c shopId (ep_planId policy) then Inr None
           else Inr (Some g))"

definition reserve_grant_row :: "int \<Rightarrow> grant \<Rightarrow> grant" where
  "reserve_grant_row quantity g =
     g\<lparr>gr_reservedQuantity := gr_reservedQuantity g + quantity, gr_version := gr_version g + 1\<rparr>"

definition reserve_grant :: "grant \<Rightarrow> int \<Rightarrow> db \<Rightarrow> db result" where
  "reserve_grant g quantity d =
     and_then (update_one (\<lambda>x. gr_id x = gr_id g \<and> gr_version x = gr_version g \<and>
                  gr_reservedQuantity x \<le> gr_quantity g - gr_committedQuantity g - quantity)
                 (reserve_grant_row quantity) (db_grants d)) (\<lambda>t.
     Inr (d\<lparr>db_grants := t\<rparr>))"

definition require_promotional_reservation :: "db \<Rightarrow> id \<Rightarrow> string \<Rightarrow> reservation result" where
  "require_promotional_reservation d shopId sourceKey =
     and_then (require_reservation promotional_error d shopId sourceKey) (\<lambda>r.
     if \<not> truthy (res_promotionalCreditGrantId r)
     then Inl (promotional_error ''Reservation is not promotional'') else Inr r)"

definition promotional_reserve_existing ::
  "shared \<Rightarrow> db \<Rightarrow> reservation \<Rightarrow> time \<Rightarrow> id \<Rightarrow> string \<Rightarrow> int \<Rightarrow> (promotional_outcome \<times> db) result" where
  "promotional_reserve_existing S d existing now shopId sourceKey quantity =
     and_then (assert_reservation_shop existing shopId promotional_error) (\<lambda>_.
     case res_promotionalCreditGrantId existing of
       None \<Rightarrow> Inr (Promotional_Unavailable, d)
     | Some grantId \<Rightarrow>
         and_then (transition_decision existing Reactivate quantity promotional_error) (\<lambda>decision.
         if decision = Apply then
           and_then (find_usable_grant S d shopId now) (\<lambda>grant.
           case grant of
             None \<Rightarrow> Inr (Promotional_Replay already_released existing sourceKey, d)
           | Some g \<Rightarrow>
               if gr_id g \<noteq> grantId \<or> available_quantity g < quantity
               then Inr (Promotional_Replay already_released existing sourceKey, d)
               else
                 and_then (reserve_grant g quantity d) (\<lambda>d1.
                 and_then (update_reservation (with_status RESERVED) existing d1) (\<lambda>(r, d2).
                 Inr (Promotional_Reserved r sourceKey, d2))))
         else Inr (promotional_replay existing sourceKey, d)))"

definition promotional_reserve_in_transaction ::
  "shared \<Rightarrow> time \<Rightarrow> id \<Rightarrow> id \<Rightarrow> string \<Rightarrow> int \<Rightarrow> db \<Rightarrow> (promotional_outcome \<times> db) result" where
  "promotional_reserve_in_transaction S now newId shopId sourceKey quantity d =
     (case find_reservation d sourceKey of
        Some existing \<Rightarrow> promotional_reserve_existing S d existing now shopId sourceKey quantity
      | None \<Rightarrow>
          and_then (find_usable_grant S d shopId now) (\<lambda>grant.
          case grant of
            None \<Rightarrow> Inr (Promotional_Unavailable, d)
          | Some g \<Rightarrow>
              if available_quantity g < quantity then Inr (Promotional_Unavailable, d)
              else
                and_then (reserve_grant g quantity d) (\<lambda>d1.
                and_then (create_reservation
                            ((new_reservation newId shopId sourceKey quantity)
                               \<lparr>res_promotionalCreditGrantId := Some (gr_id g)\<rparr>) d1) (\<lambda>(r, d2).
                Inr (Promotional_Reserved r sourceKey, d2)))))"

text \<open>The row the commit of a grant writes: the dates of use, and the date it ran out when it does.\<close>

definition commit_grant_row :: "int \<Rightarrow> time \<Rightarrow> grant \<Rightarrow> grant \<Rightarrow> grant" where
  "commit_grant_row quantity now read g =
     (let remainingAfter = gr_quantity read - (gr_committedQuantity read + quantity) - (gr_reservedQuantity read - quantity);
          exhaustedAt = (case gr_exhaustedAt read of Some t \<Rightarrow> Some t
                         | None \<Rightarrow> if remainingAfter = 0 then Some now else None) in
      g\<lparr>gr_reservedQuantity := gr_reservedQuantity g - quantity,
        gr_committedQuantity := gr_committedQuantity g + quantity,
        gr_firstUsedAt := Some (nullish (gr_firstUsedAt read) now),
        gr_lastUsedAt := Some now,
        gr_exhaustedAt := (case exhaustedAt of Some t \<Rightarrow> Some t | None \<Rightarrow> gr_exhaustedAt g),
        gr_version := gr_version g + 1\<rparr>)"

definition release_grant_row :: "int \<Rightarrow> grant \<Rightarrow> grant" where
  "release_grant_row quantity g =
     g\<lparr>gr_reservedQuantity := gr_reservedQuantity g - quantity, gr_version := gr_version g + 1\<rparr>"

definition require_reserved_grant :: "db \<Rightarrow> reservation \<Rightarrow> id \<Rightarrow> int \<Rightarrow> grant result" where
  "require_reserved_grant d r shopId quantity =
     (case find_grant d (case res_promotionalCreditGrantId r of None \<Rightarrow> '''' | Some i \<Rightarrow> i) of
        Some g \<Rightarrow>
          if gr_shopId g \<noteq> shopId \<or> gr_reservedQuantity g < quantity
          then Inl (promotional_error ''Promotional grant does not exist or has insufficient reservation'')
          else Inr g
      | None \<Rightarrow> Inl (promotional_error ''Promotional grant does not exist or has insufficient reservation''))"

definition promotional_commit_in_transaction ::
  "shared \<Rightarrow> time \<Rightarrow> id \<Rightarrow> id \<Rightarrow> string \<Rightarrow> int \<Rightarrow> db \<Rightarrow> (promotional_outcome \<times> db) result" where
  "promotional_commit_in_transaction S now eventId shopId sourceKey quantity d =
     and_then (require_promotional_reservation d shopId sourceKey) (\<lambda>r.
     and_then (transition_decision r Commit quantity promotional_error) (\<lambda>decision.
     if decision \<noteq> Apply then Inr (promotional_replay r sourceKey, d)
     else
       and_then (require_reserved_grant d r shopId quantity) (\<lambda>g.
       let committedAfter = gr_committedQuantity g + quantity;
           reservedAfter = gr_reservedQuantity g - quantity;
           remainingAfterCommit = gr_quantity g - committedAfter - reservedAfter in
       if reservedAfter < 0 \<or> remainingAfterCommit < 0
       then Inl (promotional_error ''Promotional grant accounting would become negative'')
       else
         and_then (update_one (\<lambda>x. gr_id x = gr_id g \<and> gr_version x = gr_version g \<and> quantity \<le> gr_reservedQuantity x)
                     (commit_grant_row quantity now g) (db_grants d)) (\<lambda>grants.
         and_then (resolve_recovery_usage_provider d shopId) (\<lambda>provider.
         and_then (create_usage_event
                     (new_usage_event eventId shopId quantity (createRecoveryIdempotencyKey S shopId sourceKey)
                        ''PROMOTIONAL_RECOVERY_CREDITS'' (res_id r) provider)
                     (d\<lparr>db_grants := grants\<rparr>)) (\<lambda>(e, d2).
         and_then (update_reservation (committed_row (ue_id e)) r d2) (\<lambda>(committed, d3).
         Inr (Promotional_Committed committed sourceKey, d3))))))))"

definition promotional_release_in_transaction ::
  "id \<Rightarrow> string \<Rightarrow> int \<Rightarrow> db \<Rightarrow> (promotional_outcome \<times> db) result" where
  "promotional_release_in_transaction shopId sourceKey quantity d =
     and_then (require_promotional_reservation d shopId sourceKey) (\<lambda>r.
     and_then (transition_decision r Release quantity promotional_error) (\<lambda>decision.
     if decision \<noteq> Apply then Inr (promotional_replay r sourceKey, d)
     else
       and_then (require_reserved_grant d r shopId quantity) (\<lambda>g.
       and_then (update_one (\<lambda>x. gr_id x = gr_id g \<and> gr_version x = gr_version g \<and> quantity \<le> gr_reservedQuantity x)
                   (release_grant_row quantity) (db_grants d)) (\<lambda>grants.
       and_then (update_reservation (with_status RELEASED) r (d\<lparr>db_grants := grants\<rparr>)) (\<lambda>(released, d2).
       Inr (Promotional_Released released sourceKey, d2))))))"

definition promotional_mark_ambiguous_in_transaction ::
  "id \<Rightarrow> string \<Rightarrow> db \<Rightarrow> (promotional_outcome \<times> db) result" where
  "promotional_mark_ambiguous_in_transaction shopId sourceKey d =
     and_then (require_promotional_reservation d shopId sourceKey) (\<lambda>r.
     and_then (transition_decision r Ambiguous 0 promotional_error) (\<lambda>decision.
     if decision \<noteq> Apply then Inr (promotional_replay r sourceKey, d)
     else
       and_then (update_reservation (with_status AMBIGUOUS) r d) (\<lambda>(ambiguous, d2).
       Inr (Promotional_Ambiguous ambiguous sourceKey, d2))))"

definition is_reserved_source_eligible ::
  "shared \<Rightarrow> db \<Rightarrow> id \<Rightarrow> id \<Rightarrow> string \<Rightarrow> time \<Rightarrow> bool result" where
  "is_reserved_source_eligible S d shopId reservationId sourceKey now =
     (case find_row (\<lambda>r. res_id r = reservationId) (db_reservations d) of
        None \<Rightarrow> Inr False
      | Some r \<Rightarrow>
          if res_shopId r \<noteq> shopId \<or> res_sourceKey r \<noteq> sourceKey \<or> res_status r \<noteq> RESERVED \<or>
             \<not> truthy (res_promotionalCreditGrantId r)
          then Inr False
          else
            and_then (find_usable_grant S d shopId now) (\<lambda>grant.
            Inr (case grant of None \<Rightarrow> False
                 | Some g \<Rightarrow> Some (gr_id g) = res_promotionalCreditGrantId r \<and> res_quantity r \<le> gr_reservedQuantity g)))"

section \<open>The public methods\<close>

text \<open>The time is the one of the input when it has one.\<close>

definition promotional_reserve ::
  "shared \<Rightarrow> db env \<Rightarrow> nat \<Rightarrow> id \<Rightarrow> string \<Rightarrow> js_number option \<Rightarrow> time option \<Rightarrow> db \<Rightarrow>
     promotional_outcome result \<times> db" where
  "promotional_reserve S E maxRetries shopId sourceKey quantity now =
     validated promotional_error quantity (\<lambda>q. with_retry E
       (\<lambda>n. promotional_reserve_in_transaction S (nullish now (env_now E n)) (env_ids E n 0) shopId sourceKey q)
       promotional_error maxRetries)"

definition promotional_commit ::
  "shared \<Rightarrow> db env \<Rightarrow> nat \<Rightarrow> id \<Rightarrow> string \<Rightarrow> js_number option \<Rightarrow> time option \<Rightarrow> db \<Rightarrow>
     promotional_outcome result \<times> db" where
  "promotional_commit S E maxRetries shopId sourceKey quantity now =
     validated promotional_error quantity (\<lambda>q. with_retry E
       (\<lambda>n. promotional_commit_in_transaction S (nullish now (env_now E n)) (env_ids E n 0) shopId sourceKey q)
       promotional_error maxRetries)"

definition promotional_release ::
  "db env \<Rightarrow> nat \<Rightarrow> id \<Rightarrow> string \<Rightarrow> js_number option \<Rightarrow> db \<Rightarrow> promotional_outcome result \<times> db" where
  "promotional_release E maxRetries shopId sourceKey quantity =
     validated promotional_error quantity (\<lambda>q. with_retry E
       (\<lambda>n. promotional_release_in_transaction shopId sourceKey q) promotional_error maxRetries)"

definition promotional_mark_ambiguous ::
  "db env \<Rightarrow> nat \<Rightarrow> id \<Rightarrow> string \<Rightarrow> js_number option \<Rightarrow> db \<Rightarrow> promotional_outcome result \<times> db" where
  "promotional_mark_ambiguous E maxRetries shopId sourceKey quantity =
     validated promotional_error quantity (\<lambda>q. with_retry E
       (\<lambda>n. promotional_mark_ambiguous_in_transaction shopId sourceKey) promotional_error maxRetries)"

definition promotional_commit_in_existing_transaction ::
  "shared \<Rightarrow> time \<Rightarrow> id \<Rightarrow> id \<Rightarrow> string \<Rightarrow> js_number option \<Rightarrow> db \<Rightarrow> (promotional_outcome \<times> db) result" where
  "promotional_commit_in_existing_transaction S now eventId shopId sourceKey quantity d =
     and_then (validate_quantity quantity promotional_error) (\<lambda>q.
     promotional_commit_in_transaction S now eventId shopId sourceKey q d)"

definition promotional_release_in_existing_transaction ::
  "id \<Rightarrow> string \<Rightarrow> js_number option \<Rightarrow> db \<Rightarrow> (promotional_outcome \<times> db) result" where
  "promotional_release_in_existing_transaction shopId sourceKey quantity d =
     and_then (validate_quantity quantity promotional_error) (\<lambda>q.
     promotional_release_in_transaction shopId sourceKey q d)"

section \<open>What a successful operation did\<close>

lemma grant_row_keys [simp]:
  "gr_id (reserve_grant_row q g) = gr_id g" "gr_id (commit_grant_row q t h g) = gr_id g"
  "gr_id (release_grant_row q g) = gr_id g" "gr_shopId (reserve_grant_row q g) = gr_shopId g"
  "gr_shopId (commit_grant_row q t h g) = gr_shopId g" "gr_shopId (release_grant_row q g) = gr_shopId g"
  by (simp_all add: reserve_grant_row_def commit_grant_row_def release_grant_row_def Let_def)

lemma find_grant_SomeD: "find_grant d i = Some g \<Longrightarrow> g \<in> set (db_grants d) \<and> gr_id g = i"
  by (auto simp: find_grant_def dest: find_row_SomeD)

lemma find_usable_grant_SomeD:
  assumes "find_usable_grant S d s now = Inr (Some g)"
  shows "g \<in> set (db_grants d) \<and> gr_shopId g = s"
  using assms by (auto simp: find_usable_grant_def selected_grant_def result_iffs Option.bind_eq_Some_conv
      split: if_splits option.splits dest!: find_grant_SomeD)

lemma require_promotional_reservation_InrD:
  assumes "require_promotional_reservation d s k = Inr r"
  shows "r \<in> set (db_reservations d) \<and> res_sourceKey r = k \<and> res_shopId r = s \<and> find_reservation d k = Some r"
    "\<exists>i. res_promotionalCreditGrantId r = Some i"
  using assms truthy_SomeD [of "res_promotionalCreditGrantId r"]
  by (auto simp: require_promotional_reservation_def result_iffs split: if_splits dest!: require_reservation_InrD)

lemma require_reserved_grant_InrD:
  assumes "require_reserved_grant d r s q = Inr g" "\<exists>i. res_promotionalCreditGrantId r = Some i"
  shows "g \<in> set (db_grants d) \<and> res_promotionalCreditGrantId r = Some (gr_id g) \<and> gr_shopId g = s \<and>
    q \<le> gr_reservedQuantity g"
  using assms by (auto simp: require_reserved_grant_def split: option.splits if_splits dest!: find_grant_SomeD)

lemma reserve_grant_InrD:
  assumes "reserve_grant g q d = Inr d'" "distinct (map gr_id (db_grants d))" "g \<in> set (db_grants d)"
  shows "d' = d\<lparr>db_grants := update_key gr_id (gr_id g) (reserve_grant_row q) (db_grants d)\<rparr>"
    "gr_reservedQuantity g \<le> gr_quantity g - gr_committedQuantity g - q"
proof -
  from assms(1) obtain t where "d' = d\<lparr>db_grants := t\<rparr>"
    "update_one (\<lambda>x. gr_id x = gr_id g \<and> (gr_version x = gr_version g \<and>
        gr_reservedQuantity x \<le> gr_quantity g - gr_committedQuantity g - q)) (reserve_grant_row q) (db_grants d) = Inr t"
    by (auto simp: reserve_grant_def result_iffs)
  with update_one_row [where key = gr_id, OF this(2) assms(2,3)]
  show "d' = d\<lparr>db_grants := update_key gr_id (gr_id g) (reserve_grant_row q) (db_grants d)\<rparr>"
    "gr_reservedQuantity g \<le> gr_quantity g - gr_committedQuantity g - q" by simp_all
qed

lemma promotional_commit_InrD:
  assumes run: "promotional_commit_in_transaction S now e s k q d = Inr (out, d')" and ok: "ledger_ok d"
  obtains (replay) r where "find_reservation d k = Some r" "res_shopId r = s" "res_status r \<noteq> RESERVED"
      "out = promotional_replay r k" "d' = d"
    | (applied) r g p where "r \<in> set (db_reservations d)" "res_sourceKey r = k" "res_shopId r = s"
      "res_status r = RESERVED" "res_quantity r = q"
      "res_promotionalCreditGrantId r = Some (gr_id g)" "g \<in> set (db_grants d)"
      "out = Promotional_Committed (committed_row e r) k"
      "d' = d\<lparr>db_grants := update_key gr_id (gr_id g) (commit_grant_row q now g) (db_grants d),
              db_usageEvents := db_usageEvents d @ [new_usage_event e s q (createRecoveryIdempotencyKey S s k)
                ''PROMOTIONAL_RECOVERY_CREDITS'' (res_id r) p],
              db_reservations := update_key res_id (res_id r) (committed_row e) (db_reservations d)\<rparr>"
proof -
  from run obtain r dec where rq: "require_promotional_reservation d s k = Inr r"
    and dec: "transition_decision r Commit q promotional_error = Inr dec"
    by (auto simp: promotional_commit_in_transaction_def result_iffs)
  note r = require_promotional_reservation_InrD [OF rq]
  show ?thesis
  proof (cases "dec = Apply")
    case False
    with run rq dec r not_ApplyD [OF dec] show ?thesis
      by (intro replay [of r]) (auto simp: promotional_commit_in_transaction_def)
  next
    case True
    note run' = run [unfolded promotional_commit_in_transaction_def rq dec True and_then_simps Let_def, simplified]
    from run' obtain g grants p ev d2 x where
      g: "require_reserved_grant d r s q = Inr g"
      and u1: "update_one (\<lambda>x. gr_id x = gr_id g \<and> gr_version x = gr_version g \<and> q \<le> gr_reservedQuantity x)
            (commit_grant_row q now g) (db_grants d) = Inr grants"
      and ev: "create_usage_event (new_usage_event e s q (createRecoveryIdempotencyKey S s k)
            ''PROMOTIONAL_RECOVERY_CREDITS'' (res_id r) p) (d\<lparr>db_grants := grants\<rparr>) = Inr (ev, d2)"
      and upd: "update_reservation (committed_row (ue_id ev)) r d2 = Inr (x, d')" "out = Promotional_Committed x k"
      by (elim run_elims) blast
    note g' = require_reserved_grant_InrD [OF g r(2)]
    note grants = update_one_row [where key = gr_id, OF u1 ledger_keys(5) [OF ok] g' [THEN conjunct1]]
    from r g' grants transition_decision_Apply [OF dec [unfolded True]] upd(2)
      commit_tail [OF ev upd(1)] ledger_keys(1) [OF ok] show ?thesis
      by (intro applied [of r g p]) simp_all
  qed
qed

lemma promotional_release_InrD:
  assumes run: "promotional_release_in_transaction s k q d = Inr (out, d')" and ok: "ledger_ok d"
  obtains (replay) r where "find_reservation d k = Some r" "res_shopId r = s" "res_status r \<noteq> RESERVED"
      "out = promotional_replay r k" "d' = d"
    | (applied) r g where "r \<in> set (db_reservations d)" "res_sourceKey r = k" "res_shopId r = s"
      "res_status r = RESERVED" "res_quantity r = q"
      "res_promotionalCreditGrantId r = Some (gr_id g)" "g \<in> set (db_grants d)"
      "out = Promotional_Released (with_status RELEASED r) k"
      "d' = d\<lparr>db_grants := update_key gr_id (gr_id g) (release_grant_row q) (db_grants d),
              db_reservations := update_key res_id (res_id r) (with_status RELEASED) (db_reservations d)\<rparr>"
proof -
  from run obtain r dec where rq: "require_promotional_reservation d s k = Inr r"
    and dec: "transition_decision r Release q promotional_error = Inr dec"
    by (auto simp: promotional_release_in_transaction_def result_iffs)
  note r = require_promotional_reservation_InrD [OF rq]
  show ?thesis
  proof (cases "dec = Apply")
    case False
    with run rq dec r not_ApplyD [OF dec] show ?thesis
      by (intro replay [of r]) (auto simp: promotional_release_in_transaction_def)
  next
    case True
    note run' = run [unfolded promotional_release_in_transaction_def rq dec True and_then_simps Let_def, simplified]
    from run' obtain g grants x where
      g: "require_reserved_grant d r s q = Inr g"
      and u1: "update_one (\<lambda>x. gr_id x = gr_id g \<and> gr_version x = gr_version g \<and> q \<le> gr_reservedQuantity x)
            (release_grant_row q) (db_grants d) = Inr grants"
      and upd: "update_reservation (with_status RELEASED) r (d\<lparr>db_grants := grants\<rparr>) = Inr (x, d')"
        "out = Promotional_Released x k"
      by (elim run_elims) blast
    note g' = require_reserved_grant_InrD [OF g r(2)]
    note grants = update_one_row [where key = gr_id, OF u1 ledger_keys(5) [OF ok] g' [THEN conjunct1]]
    from r g' grants transition_decision_Apply [OF dec [unfolded True]] upd(2)
      update_reservation_InrD [OF upd(1)] ledger_keys(1) [OF ok] show ?thesis
      by (intro applied [of r g]) simp_all
  qed
qed

lemma promotional_mark_ambiguous_InrD:
  assumes run: "promotional_mark_ambiguous_in_transaction s k d = Inr (out, d')" and ok: "ledger_ok d"
  obtains (replay) r where "find_reservation d k = Some r" "res_shopId r = s" "res_status r \<noteq> RESERVED"
      "out = promotional_replay r k" "d' = d"
    | (applied) r where "r \<in> set (db_reservations d)" "res_sourceKey r = k" "res_shopId r = s"
      "res_status r = RESERVED" "out = Promotional_Ambiguous (with_status AMBIGUOUS r) k"
      "d' = d\<lparr>db_reservations := update_key res_id (res_id r) (with_status AMBIGUOUS) (db_reservations d)\<rparr>"
proof -
  from run obtain r dec where rq: "require_promotional_reservation d s k = Inr r"
    and dec: "transition_decision r Ambiguous 0 promotional_error = Inr dec"
    by (auto simp: promotional_mark_ambiguous_in_transaction_def result_iffs)
  note r = require_promotional_reservation_InrD [OF rq]
  show ?thesis
  proof (cases "dec = Apply")
    case False
    with run rq dec r not_ApplyD [OF dec] show ?thesis
      by (intro replay [of r]) (auto simp: promotional_mark_ambiguous_in_transaction_def)
  next
    case True
    with run rq dec obtain x where
      upd: "update_reservation (with_status AMBIGUOUS) r d = Inr (x, d')" "out = Promotional_Ambiguous x k"
      by (auto simp: promotional_mark_ambiguous_in_transaction_def result_iffs)
    from r transition_decision_Apply [OF dec [unfolded True]] upd(2)
      update_reservation_InrD [OF upd(1)] ledger_keys(1) [OF ok] show ?thesis
      by (intro applied [of r]) simp_all
  qed
qed

section \<open>The ledger invariant\<close>

lemma promotional_owned:
  assumes "ledger_ok d" "r \<in> set (db_reservations d)" "res_promotionalCreditGrantId r \<noteq> None"
  shows "owned_by d Promotional_Source r"
proof -
  from ledger_okD(5) [OF assms(1,2)] obtain k where "owned_by d k r" by (auto simp: reservation_ok_def)
  with assms(3) show ?thesis by (cases k) auto
qed

lemma promotional_commit_ledger:
  assumes run: "promotional_commit_in_transaction S now e s k q d = Inr (out, d')" and ok: "ledger_ok d"
  shows "ledger_ok d'"
proof (cases rule: promotional_commit_InrD [OF run ok])
  case (2 r g p)
  then have own: "owned_by d Promotional_Source r" by (intro promotional_owned [OF ok]) simp_all
  have comp: "res_compensationUsageEventId r = None" using uncompensated [OF ok 2(1)] 2(4) by simp
  note change = change_commit [OF 2(4) comp, of e]
  show ?thesis
  proof (rule ledger_step_promotional [OF ok, where old = "Some r" and new = "committed_row e r" and k = "gr_id g"
        and f = "commit_grant_row q now g"])
    show "rows_step (Some r) (committed_row e r) (db_reservations d) (db_reservations d')"
      using 2 by (simp add: rows_step_commit)
    show "gr_reservedQuantity (commit_grant_row q now g x)
          = gr_reservedQuantity x + change held_weight (Some r) (committed_row e r) \<and>
        gr_committedQuantity (commit_grant_row q now g x)
          = gr_committedQuantity x + change promo_spent_weight (Some r) (committed_row e r) \<and>
        grant_ok (commit_grant_row q now g x)" if "x \<in> set (db_grants d)" for x
      using ledger_grant(5) [OF ok that] change 2(5)
      by (simp add: commit_grant_row_def Let_def grant_ok_def)
    show "reservation_change_ok (Some r) (committed_row e r)" by (rule change_ok_commit [OF ok 2(1)])
  qed (use 2 own in simp_all)
qed (use ok in simp)

lemma promotional_release_ledger:
  assumes run: "promotional_release_in_transaction s k q d = Inr (out, d')" and ok: "ledger_ok d"
  shows "ledger_ok d'"
proof (cases rule: promotional_release_InrD [OF run ok])
  case (2 r g)
  then have own: "owned_by d Promotional_Source r" by (intro promotional_owned [OF ok]) simp_all
  have change: "change held_weight (Some r) (with_status RELEASED r) = - q"
    "change promo_spent_weight (Some r) (with_status RELEASED r) = 0"
    using change_status [of r RELEASED] 2(4,5) by (simp_all add: held_weight_simps)
  show ?thesis
  proof (rule ledger_step_promotional [OF ok, where old = "Some r" and new = "with_status RELEASED r"
        and k = "gr_id g" and f = "release_grant_row q"])
    show "rows_step (Some r) (with_status RELEASED r) (db_reservations d) (db_reservations d')"
      using 2 by (simp add: rows_step_status)
    show "gr_reservedQuantity (release_grant_row q x)
          = gr_reservedQuantity x + change held_weight (Some r) (with_status RELEASED r) \<and>
        gr_committedQuantity (release_grant_row q x)
          = gr_committedQuantity x + change promo_spent_weight (Some r) (with_status RELEASED r) \<and>
        grant_ok (release_grant_row q x)" if "x \<in> set (db_grants d)" for x
      using ledger_grant(5) [OF ok that] change 2(5) quantity_pos [OF ok 2(1)]
      by (simp add: release_grant_row_def grant_ok_def)
    show "reservation_change_ok (Some r) (with_status RELEASED r)"
      by (rule change_ok_status [OF ok 2(1)]) (use 2(4) in simp_all)
  qed (use 2 own in simp_all)
qed (use ok in simp)

lemma promotional_mark_ambiguous_ledger:
  assumes run: "promotional_mark_ambiguous_in_transaction s k d = Inr (out, d')" and ok: "ledger_ok d"
  shows "ledger_ok d'"
proof (cases rule: promotional_mark_ambiguous_InrD [OF run ok])
  case (2 r)
  then show ?thesis using ledger_mark_ambiguous [OF ok] by simp
qed (use ok in simp)

lemma ledger_promotional_reserve:
  assumes ok: "ledger_ok d" and rows: "rows_step old new (db_reservations d) (db_reservations d')"
    and own: "owned_by d Promotional_Source new" "res_promotionalCreditGrantId new = Some (gr_id g)"
    and g: "g \<in> set (db_grants d)" "gr_reservedQuantity g \<le> gr_quantity g - gr_committedQuantity g - q"
    and new: "reservation_change_ok old new" "change held_weight old new = q" "change promo_spent_weight old new = 0"
    and tabs: "db_grants d' = update_key gr_id (gr_id g) (reserve_grant_row q) (db_grants d)"
      "db_shopCounters d' = db_shopCounters d" "db_lots d' = db_lots d" "db_periodCounters d' = db_periodCounters d"
  shows "ledger_ok d'"
proof (rule ledger_step_promotional [OF ok rows own new(1) tabs(1,3,2,4)])
  show "gr_reservedQuantity (reserve_grant_row q x) = gr_reservedQuantity x + change held_weight old new \<and>
      gr_committedQuantity (reserve_grant_row q x) = gr_committedQuantity x + change promo_spent_weight old new \<and>
      grant_ok (reserve_grant_row q x)" if x: "x \<in> set (db_grants d)" "gr_id x = gr_id g" for x
    using unique_grant [OF ok g(1) x] g(2) new(2,3) by (simp add: reserve_grant_row_def grant_ok_def)
qed simp

lemma promotional_reserve_existing_ledger:
  assumes run: "promotional_reserve_existing S d r now s k q = Inr (out, d')" and ok: "ledger_ok d"
    and r: "r \<in> set (db_reservations d)"
  shows "ledger_ok d'"
proof (cases "d' = d")
  case True
  with ok show ?thesis by simp
next
  case False
  with run obtain gid g d1 x dec where
    gid: "res_promotionalCreditGrantId r = Some gid" "gr_id g = gid"
    and dec: "transition_decision r Reactivate q promotional_error = Inr Apply"
    and use: "find_usable_grant S d s now = Inr (Some g)"
    and d1: "reserve_grant g q d = Inr d1"
    and x: "update_reservation (with_status RESERVED) r d1 = Inr (x, d')"
    by (auto simp: promotional_reserve_existing_def result_iffs split: option.splits if_splits)
  note g = find_usable_grant_SomeD [OF use, THEN conjunct1]
  note d1' = reserve_grant_InrD [OF d1 ledger_keys(5) [OF ok] g]
  note rel = transition_decision_Apply [OF dec]
  have d': "d' = d1\<lparr>db_reservations := update_key res_id (res_id r) (with_status RESERVED) (db_reservations d)\<rparr>"
    using update_reservation_InrD(2) [OF x] d1' r ledger_keys(1) [OF ok] by simp
  have own: "owned_by d Promotional_Source r" using gid by (intro promotional_owned [OF ok r]) simp
  have new: "change held_weight (Some r) (with_status RESERVED r) = q"
    "change promo_spent_weight (Some r) (with_status RESERVED r) = 0"
    using change_status [of r RESERVED] rel by (simp_all add: held_weight_simps)
  have ch: "reservation_change_ok (Some r) (with_status RESERVED r)"
    by (rule change_ok_status [OF ok r]) (use rel in simp_all)
  show ?thesis
    using d1' d' gid own new ch g rows_step_status [OF r]
    by (intro ledger_promotional_reserve [OF ok, where old = "Some r" and new = "with_status RESERVED r" and g = g and q = q])
      simp_all
qed

lemma promotional_reserve_ledger:
  assumes run: "promotional_reserve_in_transaction S now i s k q d = Inr (out, d')"
    and ok: "ledger_ok d" and q: "0 < q"
  shows "ledger_ok d'"
proof (cases "find_reservation d k")
  case (Some r)
  with run have "promotional_reserve_existing S d r now s k q = Inr (out, d')"
    by (simp add: promotional_reserve_in_transaction_def)
  then show ?thesis using ok by (rule promotional_reserve_existing_ledger) (use find_reservation_SomeD [OF Some] in simp)
next
  case None
  show ?thesis
  proof (cases "d' = d")
    case True
    with ok show ?thesis by simp
  next
    case False
    let ?r = "\<lambda>g. (new_reservation i s k q)\<lparr>res_promotionalCreditGrantId := Some (gr_id g)\<rparr>"
    from False None run obtain g d1 x where use: "find_usable_grant S d s now = Inr (Some g)"
      and d1: "reserve_grant g q d = Inr d1" and x: "create_reservation (?r g) d1 = Inr (x, d')"
      by (auto simp: promotional_reserve_in_transaction_def result_iffs split: option.splits if_splits)
    note g = find_usable_grant_SomeD [OF use]
    note d1' = reserve_grant_InrD [OF d1 ledger_keys(5) [OF ok] g [THEN conjunct1]]
    have row: "res_status (?r g) = RESERVED" "res_quantity (?r g) = q" "res_compensationUsageEventId (?r g) = None"
      by (simp_all add: new_reservation_def)
    have "owned_by d Promotional_Source (?r g)"
      using g by (auto simp: new_reservation_def grant_keys_def)
    then show ?thesis
      using g d1' create_reservation_InrD [OF x] change_new [OF row(1)] change_ok_new [OF q row] row
      by (intro ledger_promotional_reserve [OF ok, where old = None and new = "?r g" and g = g and q = q])
        (simp_all add: rows_step_append)
  qed
qed

end
