(* ===== verification/Credit_Source.thy ===== *)
theory Credit_Source
  imports Promotional_Reservation
begin

text \<open>
  What the callers of the four reservation services rely on: a commit, a release or a mark of a
  reservation changes that one reservation if it is RESERVED and nothing otherwise, a committed
  reservation cannot be released, and the ledger is kept. The locale \<open>credit_source\<close> states this
  contract; it is interpreted on each service, and what follows from it is proved once.
\<close>

section \<open>The contract\<close>

definition source_key :: "source_kind \<Rightarrow> db \<Rightarrow> string \<Rightarrow> bool" where
  "source_key src d k \<longleftrightarrow> (\<forall>r. find_reservation d k = Some r \<longrightarrow> owned_by d src r)"

text \<open>
  \<open>source_step f es s k d d'\<close>: if the reservation with key \<open>k\<close> is RESERVED, it becomes its image
  under \<open>f\<close> and usage events of recovery conversations with the ids \<open>es\<close>, of its quantity and shop, are
  appended; the database is unchanged otherwise.
\<close>

definition new_events :: "id list \<Rightarrow> reservation \<Rightarrow> db \<Rightarrow> db \<Rightarrow> bool" where
  "new_events es r d d' \<longleftrightarrow>
     (\<exists>evs. db_usageEvents d' = db_usageEvents d @ evs \<and> map ue_id evs = es \<and>
        (\<forall>e\<in>set evs. ue_quantity e = res_quantity r \<and> ue_shopId e = res_shopId r \<and> ue_metric e = RECOVERY_CONVERSATION))"

definition source_step ::
  "(reservation \<Rightarrow> reservation) \<Rightarrow> id list \<Rightarrow> id \<Rightarrow> string \<Rightarrow> db \<Rightarrow> db \<Rightarrow> bool" where
  "source_step f es s k d d' \<longleftrightarrow>
     (\<exists>r. find_reservation d k = Some r \<and> res_shopId r = s \<and>
       (if res_status r = RESERVED
        then same_keys d d' \<and> db_reservations d' = update_key res_id (res_id r) f (db_reservations d) \<and>
          new_events es r d d'
        else d' = d))"

lemma find_row_update_key:
  assumes "\<And>r. P (f r) = P r"
  shows "find_row P (update_key key k f t) = map_option (\<lambda>r. if key r = k then f r else r) (find_row P t)"
  using assms by (induction t) (auto simp: update_key_def)

lemma find_reservation_update:
  assumes "db_reservations d' = update_key res_id i f (db_reservations d)"
    and "\<And>r. res_sourceKey (f r) = res_sourceKey r"
  shows "find_reservation d' k = map_option (\<lambda>r. if res_id r = i then f r else r) (find_reservation d k)"
  unfolding find_reservation_def assms(1) by (rule find_row_update_key) (simp add: assms(2))

text \<open>The reservation with the key moves as \<open>f\<close> says, the others stay.\<close>

lemma source_step_find:
  assumes "source_step f es s k d d'" "ledger_ok d" "\<And>r. res_sourceKey (f r) = res_sourceKey r"
  obtains r where "find_reservation d k = Some r" "res_shopId r = s"
    "find_reservation d' k = Some (if res_status r = RESERVED then f r else r)"
    "\<And>k'. k' \<noteq> k \<Longrightarrow> find_reservation d' k' = find_reservation d k'"
proof -
  from assms(1) obtain r where r: "find_reservation d k = Some r" "res_shopId r = s"
    and step: "if res_status r = RESERVED
        then same_keys d d' \<and> db_reservations d' = update_key res_id (res_id r) f (db_reservations d) \<and>
          new_events es r d d'
        else d' = d" by (auto simp: source_step_def)
  note rin = find_reservation_SomeD [OF r(1)]
  show ?thesis
  proof (cases "res_status r = RESERVED")
    case True
    with step have upd: "find_reservation d' k' =
        map_option (\<lambda>x. if res_id x = res_id r then f x else x) (find_reservation d k')" for k'
      by (intro find_reservation_update assms(3)) simp
    have "find_reservation d' k' = find_reservation d k'" if "k' \<noteq> k" for k'
    proof (cases "find_reservation d k'")
      case (Some x)
      with find_reservation_SomeD [OF Some] rin that key_inj [OF ledger_keys(1) [OF assms(2)], of r x]
      have "res_id x \<noteq> res_id r" by auto
      with Some upd [of k'] show ?thesis by simp
    qed (simp add: upd)
    with r True upd [of k] show ?thesis by (intro that [of r]) simp_all
  next
    case False
    with r step show ?thesis by (intro that [of r]) simp_all
  qed
qed

text \<open>Every committed reservation names a row of the usage that was recorded for it.\<close>

definition recorded_by :: "reservation \<Rightarrow> usage_event \<Rightarrow> bool" where
  "recorded_by r e \<longleftrightarrow> res_committedUsageEventId r = Some (ue_id e) \<and> ue_shopId e = res_shopId r \<and>
     ue_quantity e = res_quantity r \<and> ue_metric e = RECOVERY_CONVERSATION"

definition usage_recorded :: "db \<Rightarrow> bool" where
  "usage_recorded d \<longleftrightarrow>
     (\<forall>r\<in>set (db_reservations d). res_status r = COMMITTED \<longrightarrow> (\<exists>e\<in>set (db_usageEvents d). recorded_by r e))"

lemma usage_recordedD:
  assumes "usage_recorded d" "find_reservation d k = Some r" "res_status r = COMMITTED"
  obtains e where "e \<in> set (db_usageEvents d)" "recorded_by r e"
  using assms find_reservation_SomeD [OF assms(2)] by (auto simp: usage_recorded_def)

lemma source_step_recorded:
  assumes "source_step f es s k d d'" "ledger_ok d" "usage_recorded d"
    and settled: "\<And>r. res_status (f r) = COMMITTED \<Longrightarrow> \<exists>e. f = committed_row e \<and> es = [e]"
  shows "usage_recorded d'"
proof -
  from assms(1) obtain r where r: "find_reservation d k = Some r"
    and step: "if res_status r = RESERVED
        then same_keys d d' \<and> db_reservations d' = update_key res_id (res_id r) f (db_reservations d) \<and> new_events es r d d'
        else d' = d" by (auto simp: source_step_def)
  note rin = find_reservation_SomeD [OF r]
  show ?thesis
  proof (cases "res_status r = RESERVED")
    case True
    with step obtain evs where upd: "db_reservations d' = update_key res_id (res_id r) f (db_reservations d)"
        and evs: "db_usageEvents d' = db_usageEvents d @ evs" "map ue_id evs = es"
          "\<forall>e\<in>set evs. ue_quantity e = res_quantity r \<and> ue_shopId e = res_shopId r \<and> ue_metric e = RECOVERY_CONVERSATION"
      by (auto simp: new_events_def)
    have "\<exists>e\<in>set (db_usageEvents d'). recorded_by x e" if x: "x \<in> set (db_reservations d')" "res_status x = COMMITTED" for x
    proof (cases "x \<in> set (db_reservations d)")
      case True
      with x assms(3) evs(1) show ?thesis by (auto simp: usage_recorded_def)
    next
      case False
      with x(1) obtain y where "y \<in> set (db_reservations d)" "res_id y = res_id r" "x = f y"
        by (auto simp: upd set_update_key split: if_splits)
      with rin key_inj [OF ledger_keys(1) [OF assms(2)], of r y] have "x = f r" by auto
      with settled [of r] x(2) obtain e where "x = committed_row e r" "es = [e]" by auto
      with evs show ?thesis by (auto simp: recorded_by_def map_eq_Cons_conv)
    qed
    then show ?thesis by (simp add: usage_recorded_def)
  qed (use step assms(3) in simp)
qed

locale credit_source =
  fixes src :: source_kind
    and commit :: "id \<Rightarrow> id \<Rightarrow> string \<Rightarrow> int \<Rightarrow> db \<Rightarrow> ('o \<times> db) result"
    and release :: "id \<Rightarrow> string \<Rightarrow> int \<Rightarrow> db \<Rightarrow> ('o \<times> db) result"
    and mark :: "id \<Rightarrow> string \<Rightarrow> db \<Rightarrow> ('o \<times> db) result"
  assumes commit_ledger: "\<lbrakk>commit e s k q d = Inr (out, d'); ledger_ok d; source_key src d k\<rbrakk> \<Longrightarrow> ledger_ok d'"
    and commit_step: "\<lbrakk>commit e s k q d = Inr (out, d'); ledger_ok d\<rbrakk> \<Longrightarrow> source_step (committed_row e) [e] s k d d'"
    and release_ledger: "\<lbrakk>release s k q d = Inr (out, d'); ledger_ok d; source_key src d k\<rbrakk> \<Longrightarrow> ledger_ok d'"
    and release_step: "\<lbrakk>release s k q d = Inr (out, d'); ledger_ok d\<rbrakk> \<Longrightarrow> source_step (with_status RELEASED) [] s k d d'"
    and release_committed: "\<lbrakk>find_reservation d k = Some r; res_status r = COMMITTED\<rbrakk> \<Longrightarrow> \<exists>x. release s k q d = Inl x"
    and mark_ledger: "\<lbrakk>mark s k d = Inr (out, d'); ledger_ok d\<rbrakk> \<Longrightarrow> ledger_ok d'"
    and mark_step: "\<lbrakk>mark s k d = Inr (out, d'); ledger_ok d\<rbrakk> \<Longrightarrow> source_step (with_status AMBIGUOUS) [] s k d d'"

text \<open>The calls a caller can make for one reservation; a call that fails leaves the database as it was.\<close>

datatype source_call = Call_Commit id int | Call_Release int | Call_Mark

fun call_result ::
  "(id \<Rightarrow> int \<Rightarrow> db \<Rightarrow> ('o \<times> db) result) \<Rightarrow> (int \<Rightarrow> db \<Rightarrow> ('o \<times> db) result) \<Rightarrow>
     (db \<Rightarrow> ('o \<times> db) result) \<Rightarrow> source_call \<Rightarrow> db \<Rightarrow> ('o \<times> db) result" where
  "call_result commit release mark (Call_Commit e q) d = commit e q d"
| "call_result commit release mark (Call_Release q) d = release q d"
| "call_result commit release mark Call_Mark d = mark d"

definition after_call ::
  "(id \<Rightarrow> int \<Rightarrow> db \<Rightarrow> ('o \<times> db) result) \<Rightarrow> (int \<Rightarrow> db \<Rightarrow> ('o \<times> db) result) \<Rightarrow>
     (db \<Rightarrow> ('o \<times> db) result) \<Rightarrow> source_call \<Rightarrow> db \<Rightarrow> db" where
  "after_call commit release mark c d =
     (case call_result commit release mark c d of Inl _ \<Rightarrow> d | Inr (_, d') \<Rightarrow> d')"

definition after_calls ::
  "(id \<Rightarrow> int \<Rightarrow> db \<Rightarrow> ('o \<times> db) result) \<Rightarrow> (int \<Rightarrow> db \<Rightarrow> ('o \<times> db) result) \<Rightarrow>
     (db \<Rightarrow> ('o \<times> db) result) \<Rightarrow> source_call list \<Rightarrow> db \<Rightarrow> db" where
  "after_calls commit release mark cs d = fold (after_call commit release mark) cs d"

text \<open>The status a call leads to, when the reservation is RESERVED, and the events it creates.\<close>

fun call_row :: "source_call \<Rightarrow> reservation \<Rightarrow> reservation" where
  "call_row (Call_Commit e q) r = committed_row e r"
| "call_row (Call_Release q) r = with_status RELEASED r"
| "call_row Call_Mark r = with_status AMBIGUOUS r"

fun call_events :: "source_call \<Rightarrow> id list" where
  "call_events (Call_Commit e q) = [e]"
| "call_events (Call_Release q) = []"
| "call_events Call_Mark = []"

lemma call_row_fun [simp]:
  "call_row (Call_Commit e q) = committed_row e" "call_row (Call_Release q) = with_status RELEASED"
  "call_row Call_Mark = with_status AMBIGUOUS"
  by auto

lemma call_row_key [simp]: "res_sourceKey (call_row c r) = res_sourceKey r"
  by (cases c) simp_all

lemma call_row_owned [simp]: "owned_by d k (call_row c r) = owned_by d k r"
  by (cases c) simp_all

lemma call_row_status: "res_status (call_row c r) \<noteq> RESERVED"
  by (cases c) simp_all

lemma call_row_shop [simp]: "res_shopId (call_row c r) = res_shopId r" "res_quantity (call_row c r) = res_quantity r"
  by (cases c; simp)+

context credit_source
begin

abbreviation calls :: "id \<Rightarrow> string \<Rightarrow> source_call list \<Rightarrow> db \<Rightarrow> db" where
  "calls s k \<equiv> after_calls (\<lambda>e. commit e s k) (release s k) (mark s k)"

abbreviation call :: "id \<Rightarrow> string \<Rightarrow> source_call \<Rightarrow> db \<Rightarrow> db" where
  "call s k \<equiv> after_call (\<lambda>e. commit e s k) (release s k) (mark s k)"

lemma call_cases:
  assumes "ledger_ok d"
  shows "call s k c d = d \<or> source_step (call_row c) (call_events c) s k d (call s k c d)"
  using commit_step [OF _ assms] release_step [OF _ assms] mark_step [OF _ assms]
  by (cases c) (auto simp: after_call_def cong del: sum.case_cong_weak split: sum.splits)

lemma call_keeps:
  assumes "ledger_ok d" "source_key src d k"
  shows "ledger_ok (call s k c d)" "source_key src (call s k c d) k"
proof -
  show "ledger_ok (call s k c d)"
    using commit_ledger [OF _ assms] release_ledger [OF _ assms] mark_ledger [OF _ assms(1)] assms(1)
    by (cases c) (auto simp: after_call_def split: sum.splits)
  show "source_key src (call s k c d) k"
    using call_cases [OF assms(1), of s k c]
  proof
    assume step: "source_step (call_row c) (call_events c) s k d (call s k c d)"
    from source_step_find [OF step assms(1)] obtain r where r: "find_reservation d k = Some r"
      "find_reservation (call s k c d) k = Some (if res_status r = RESERVED then call_row c r else r)" by auto
    have "same_keys d (call s k c d)" using step r(1)
      by (auto simp: source_step_def same_keys_def split: if_splits)
    with r assms(2) show ?thesis by (auto simp: source_key_def same_keys_owned)
  qed (use assms in simp)
qed

text \<open>A call leaves every committed reservation with the usage that was recorded for it.\<close>

lemma commit_recorded:
  assumes "commit e s k q d = Inr (out, d')" "ledger_ok d" "usage_recorded d"
  shows "usage_recorded d'"
  by (rule source_step_recorded [OF commit_step [OF assms(1,2)] assms(2,3)]) blast

lemma release_recorded:
  assumes "release s k q d = Inr (out, d')" "ledger_ok d" "usage_recorded d"
  shows "usage_recorded d'"
  by (rule source_step_recorded [OF release_step [OF assms(1,2)] assms(2,3)]) simp

lemma mark_recorded:
  assumes "mark s k d = Inr (out, d')" "ledger_ok d" "usage_recorded d"
  shows "usage_recorded d'"
  by (rule source_step_recorded [OF mark_step [OF assms(1,2)] assms(2,3)]) simp

text \<open>No sequence of calls breaks the ledger.\<close>

lemma calls_ledger:
  assumes "ledger_ok d" "source_key src d k"
  shows "ledger_ok (calls s k cs d)"
  using assms
proof (induction cs arbitrary: d)
  case (Cons c cs)
  with call_keeps [OF Cons.prems, of s c] show ?case by (simp add: after_calls_def)
qed (simp add: after_calls_def)

text \<open>A reservation that is not RESERVED is not moved by any sequence of calls, and no event is created.\<close>

lemma settled_call:
  assumes "ledger_ok d" "find_reservation d k = Some r" "res_status r \<noteq> RESERVED"
  shows "call s k c d = d"
  using call_cases [OF assms(1), of s k c] assms(2,3) by (auto simp: source_step_def)

lemma settled_calls:
  assumes "ledger_ok d" "find_reservation d k = Some r" "res_status r \<noteq> RESERVED"
  shows "calls s k cs d = d"
  using assms
proof (induction cs)
  case (Cons c cs)
  with settled_call [OF Cons.prems, of s c] show ?case by (simp add: after_calls_def)
qed (simp add: after_calls_def)

text \<open>
  Of any sequence of calls, the first that changes the reservation settles it: all together
  create at most one usage event, of the quantity of the reservation, and exactly when they commit.
\<close>

lemma calls_once:
  assumes "ledger_ok d" "source_key src d k" "find_reservation d k = Some r" "res_status r = RESERVED"
  shows "calls s k cs d = d \<or>
    (\<exists>c\<in>set cs. find_reservation (calls s k cs d) k = Some (call_row c r) \<and>
       new_events (call_events c) r d (calls s k cs d))"
  using assms
proof (induction cs arbitrary: d)
  case (Cons c cs)
  note keeps = call_keeps [OF Cons.prems(1,2), of s c]
  show ?case
  proof (cases "call s k c d = d")
    case True
    with Cons.IH [OF Cons.prems] show ?thesis by (auto simp: after_calls_def)
  next
    case False
    with call_cases [OF Cons.prems(1), of s k c]
    have step: "source_step (call_row c) (call_events c) s k d (call s k c d)" by simp
    from source_step_find [OF step Cons.prems(1)] Cons.prems(3,4)
    have r': "find_reservation (call s k c d) k = Some (call_row c r)" by auto
    have "calls s k cs (call s k c d) = call s k c d"
      by (rule settled_calls [OF keeps(1) r' call_row_status])
    moreover have "new_events (call_events c) r d (call s k c d)"
      using step Cons.prems(3,4) by (simp add: source_step_def)
    ultimately show ?thesis using r' by (auto simp: after_calls_def)
  qed
qed (simp add: after_calls_def)

text \<open>After a commit, a release fails and every further call leaves the database unchanged.\<close>

lemma committed_final:
  assumes "ledger_ok d" "source_key src d k" "find_reservation d k = Some r" "res_status r = RESERVED"
    and "commit e s k q d = Inr (out, d')"
  shows "find_reservation d' k = Some (committed_row e r)" "calls s k cs d' = d'"
    "\<exists>x. release s k q' d' = Inl x" "new_events [e] r d d'"
proof -
  note step = commit_step [OF assms(5,1)]
  from source_step_find [OF step assms(1)] assms(3,4)
  show r': "find_reservation d' k = Some (committed_row e r)" by auto
  show "\<exists>x. release s k q' d' = Inl x" by (rule release_committed [OF r']) simp
  show "calls s k cs d' = d'"
    by (rule settled_calls [OF commit_ledger [OF assms(5,1,2)] r']) simp
  show "new_events [e] r d d'" using step assms(3,4) by (simp add: source_step_def)
qed

text \<open>Where a reservation is after a call that returned.\<close>

lemma commit_final:
  assumes "commit e s k q d = Inr (out, d')" "ledger_ok d"
  shows "\<exists>r. find_reservation d' k = Some r \<and> res_shopId r = s \<and> res_status r \<noteq> RESERVED"
  by (rule source_step_find [OF commit_step [OF assms] assms(2)]) (auto split: if_splits)

lemma release_final:
  assumes "release s k q d = Inr (out, d')" "ledger_ok d"
  shows "\<exists>r. find_reservation d' k = Some r \<and> res_shopId r = s \<and> (res_status r = RELEASED \<or> res_status r = AMBIGUOUS)"
proof (rule source_step_find [OF release_step [OF assms] assms(2)])
  fix r assume r: "find_reservation d k = Some r" "res_shopId r = s"
    "find_reservation d' k = Some (if res_status r = RESERVED then with_status RELEASED r else r)"
  have "res_status r \<noteq> COMMITTED"
    using release_committed [OF r(1), of s q] assms(1) by auto
  with r show ?thesis by (cases "res_status r") auto
qed simp

lemma mark_final:
  assumes "mark s k d = Inr (out, d')" "ledger_ok d"
  shows "\<exists>r r'. find_reservation d k = Some r \<and> find_reservation d' k = Some r' \<and> res_shopId r' = s \<and>
    res_status r' = (if res_status r = RESERVED then AMBIGUOUS else res_status r)"
  by (rule source_step_find [OF mark_step [OF assms] assms(2)]) auto

end

section \<open>The four services\<close>

lemma free_key_source: "free_key d k = source_key Free_Source d k"
  by (simp add: free_key_def source_key_def)

lemma purchased_key_source: "purchased_key d k = source_key Purchased_Source d k"
  by (simp add: purchased_key_def source_key_def)

text \<open>From the reservation an operation found to the step it made.\<close>

lemma source_step_applied:
  assumes "ledger_ok d" "r \<in> set (db_reservations d)" "res_sourceKey r = k" "res_shopId r = s" "res_status r = RESERVED"
    and "same_keys d d'" "db_reservations d' = update_key res_id (res_id r) f (db_reservations d)"
    and "new_events es r d d'"
  shows "source_step f es s k d d'"
  using assms find_by_key [OF assms(1,2)] by (auto simp: source_step_def)

lemma source_step_replay:
  assumes "find_reservation d k = Some r" "res_shopId r = s" "res_status r \<noteq> RESERVED"
  shows "source_step f es s k d d"
  using assms by (auto simp: source_step_def)

lemma same_keys_simps:
  "same_keys d d' \<longleftrightarrow>
     map (\<lambda>c. (sc_id c, sc_shopId c, sc_counter c)) (db_shopCounters d')
       = map (\<lambda>c. (sc_id c, sc_shopId c, sc_counter c)) (db_shopCounters d) \<and>
     map (\<lambda>c. (pc_id c, pc_shopId c)) (db_periodCounters d')
       = map (\<lambda>c. (pc_id c, pc_shopId c)) (db_periodCounters d) \<and>
     map (\<lambda>g. (gr_id g, gr_shopId g)) (db_grants d') = map (\<lambda>g. (gr_id g, gr_shopId g)) (db_grants d) \<and>
     map (\<lambda>l. (lot_id l, lot_shopId l)) (db_lots d') = map (\<lambda>l. (lot_id l, lot_shopId l)) (db_lots d)"
  by (simp add: same_keys_def counter_keys_def period_counter_keys_def grant_keys_def lot_keys_def)

lemma release_fails:
  assumes "find_reservation d k = Some r" "res_status r = COMMITTED" "require_reservation mk' d s k = Inr x"
  shows "transition_decision x Release q mk = Inl (mk ''Committed reservations cannot be released'')"
proof -
  from assms(1,3) have "x = r" by (auto simp: require_reservation_def result_iffs)
  with assms(2) show ?thesis by (simp add: transition_decision_def)
qed

lemmas step_simps = same_keys_simps keys_update_key new_events_def

interpretation free: credit_source Free_Source "free_commit_in_transaction S"
    free_release_in_transaction free_mark_ambiguous_in_transaction for S
proof
  show "ledger_ok d'" if "free_commit_in_transaction S e s k q d = Inr (out, d')" "ledger_ok d" "source_key Free_Source d k"
    for e s k q d out d' using that by (rule free_commit_ledger [unfolded free_key_source])
  show "ledger_ok d'" if "free_release_in_transaction s k q d = Inr (out, d')" "ledger_ok d" "source_key Free_Source d k"
    for s k q d out d' using that by (rule free_release_ledger [unfolded free_key_source])
  show "ledger_ok d'" if "free_mark_ambiguous_in_transaction s k d = Inr (out, d')" "ledger_ok d"
    for s k d out d' using that by (rule free_mark_ambiguous_ledger)
  show "source_step (committed_row e) [e] s k d d'"
    if "free_commit_in_transaction S e s k q d = Inr (out, d')" "ledger_ok d" for e s k q d out d'
    using that by (cases rule: free_commit_InrD)
      (auto intro!: source_step_replay source_step_applied [OF that(2)] simp: step_simps)
  show "source_step (with_status RELEASED) [] s k d d'"
    if "free_release_in_transaction s k q d = Inr (out, d')" "ledger_ok d" for s k q d out d'
    using that by (cases rule: free_release_InrD)
      (auto intro!: source_step_replay source_step_applied [OF that(2)] simp: step_simps)
  show "source_step (with_status AMBIGUOUS) [] s k d d'"
    if "free_mark_ambiguous_in_transaction s k d = Inr (out, d')" "ledger_ok d" for s k d out d'
    using that by (cases rule: free_mark_ambiguous_InrD)
      (auto intro!: source_step_replay source_step_applied [OF that(2)] simp: step_simps)
  show "\<exists>x. free_release_in_transaction s k q d = Inl x"
    if "find_reservation d k = Some r" "res_status r = COMMITTED" for d k r s q
    using that by (cases "free_require_reservation d s k")
      (auto simp: free_release_in_transaction_def free_require_reservation_def release_fails [OF that])
qed


interpretation purchased: credit_source Purchased_Source "purchased_commit_in_transaction S"
    purchased_release_in_transaction purchased_mark_ambiguous_in_transaction for S
proof
  show "ledger_ok d'" if "purchased_commit_in_transaction S e s k q d = Inr (out, d')" "ledger_ok d" "source_key Purchased_Source d k"
    for e s k q d out d' using that by (rule purchased_commit_ledger [unfolded purchased_key_source])
  show "ledger_ok d'" if "purchased_release_in_transaction s k q d = Inr (out, d')" "ledger_ok d" "source_key Purchased_Source d k"
    for s k q d out d' using that by (rule purchased_release_ledger [unfolded purchased_key_source])
  show "ledger_ok d'" if "purchased_mark_ambiguous_in_transaction s k d = Inr (out, d')" "ledger_ok d"
    for s k d out d' using that by (rule purchased_mark_ambiguous_ledger)
  show "source_step (committed_row e) [e] s k d d'"
    if "purchased_commit_in_transaction S e s k q d = Inr (out, d')" "ledger_ok d" for e s k q d out d'
    using that by (cases rule: purchased_commit_InrD)
      (auto intro!: source_step_replay source_step_applied [OF that(2)] simp: step_simps)
  show "source_step (with_status RELEASED) [] s k d d'"
    if "purchased_release_in_transaction s k q d = Inr (out, d')" "ledger_ok d" for s k q d out d'
    using that by (cases rule: purchased_release_InrD)
      (auto intro!: source_step_replay source_step_applied [OF that(2)] simp: step_simps)
  show "source_step (with_status AMBIGUOUS) [] s k d d'"
    if "purchased_mark_ambiguous_in_transaction s k d = Inr (out, d')" "ledger_ok d" for s k d out d'
    using that by (cases rule: purchased_mark_ambiguous_InrD)
      (auto intro!: source_step_replay source_step_applied [OF that(2)] simp: step_simps)
  show "\<exists>x. purchased_release_in_transaction s k q d = Inl x"
    if "find_reservation d k = Some r" "res_status r = COMMITTED" for d k r s q
    using that by (cases "purchased_require_reservation d s k")
      (auto simp: purchased_release_in_transaction_def purchased_require_reservation_def release_fails [OF that])
qed

interpretation paid: credit_source Paid_Source "paid_commit_in_transaction S now occurredAt"
    paid_release_in_transaction "paid_mark_ambiguous_in_transaction now"
    for S now occurredAt
proof
  show "ledger_ok d'" if "paid_commit_in_transaction S now occurredAt e s k q d = Inr (out, d')" "ledger_ok d" "source_key Paid_Source d k"
    for e s k q d out d' using that paid_commit_ledger by blast
  show "ledger_ok d'" if "paid_release_in_transaction s k q d = Inr (out, d')" "ledger_ok d" "source_key Paid_Source d k"
    for s k q d out d' using that paid_release_ledger by blast
  show "ledger_ok d'" if "paid_mark_ambiguous_in_transaction now s k d = Inr (out, d')" "ledger_ok d"
    for s k d out d' using that by (rule paid_mark_ambiguous_ledger)
  show "source_step (committed_row e) [e] s k d d'"
    if "paid_commit_in_transaction S now occurredAt e s k q d = Inr (out, d')" "ledger_ok d" for e s k q d out d'
    using that by (cases rule: paid_commit_InrD)
      (auto intro!: source_step_replay source_step_applied [OF that(2)] simp: step_simps)
  show "source_step (with_status RELEASED) [] s k d d'"
    if "paid_release_in_transaction s k q d = Inr (out, d')" "ledger_ok d" for s k q d out d'
    using that by (cases rule: paid_release_InrD)
      (auto intro!: source_step_replay source_step_applied [OF that(2)] simp: step_simps)
  show "source_step (with_status AMBIGUOUS) [] s k d d'"
    if "paid_mark_ambiguous_in_transaction now s k d = Inr (out, d')" "ledger_ok d" for s k d out d'
    using that by (cases rule: paid_mark_ambiguous_InrD)
      (auto intro!: source_step_replay source_step_applied [OF that(2)] simp: step_simps)
  show "\<exists>x. paid_release_in_transaction s k q d = Inl x"
    if "find_reservation d k = Some r" "res_status r = COMMITTED" for d k r s q
    using that by (cases "paid_require_reservation d s k")
      (auto simp: paid_release_in_transaction_def paid_require_reservation_def release_fails [OF that])
qed

interpretation promotional: credit_source Promotional_Source "promotional_commit_in_transaction S now"
    promotional_release_in_transaction promotional_mark_ambiguous_in_transaction for S now
proof
  show "ledger_ok d'" if "promotional_commit_in_transaction S now e s k q d = Inr (out, d')" "ledger_ok d" "source_key Promotional_Source d k"
    for e s k q d out d' using that promotional_commit_ledger by blast
  show "ledger_ok d'" if "promotional_release_in_transaction s k q d = Inr (out, d')" "ledger_ok d" "source_key Promotional_Source d k"
    for s k q d out d' using that promotional_release_ledger by blast
  show "ledger_ok d'" if "promotional_mark_ambiguous_in_transaction s k d = Inr (out, d')" "ledger_ok d"
    for s k d out d' using that by (rule promotional_mark_ambiguous_ledger)
  show "source_step (committed_row e) [e] s k d d'"
    if "promotional_commit_in_transaction S now e s k q d = Inr (out, d')" "ledger_ok d" for e s k q d out d'
    using that by (cases rule: promotional_commit_InrD)
      (auto intro!: source_step_replay source_step_applied [OF that(2)] simp: step_simps)
  show "source_step (with_status RELEASED) [] s k d d'"
    if "promotional_release_in_transaction s k q d = Inr (out, d')" "ledger_ok d" for s k q d out d'
    using that by (cases rule: promotional_release_InrD)
      (auto intro!: source_step_replay source_step_applied [OF that(2)] simp: step_simps)
  show "source_step (with_status AMBIGUOUS) [] s k d d'"
    if "promotional_mark_ambiguous_in_transaction s k d = Inr (out, d')" "ledger_ok d" for s k d out d'
    using that by (cases rule: promotional_mark_ambiguous_InrD)
      (auto intro!: source_step_replay source_step_applied [OF that(2)] simp: step_simps)
  show "\<exists>x. promotional_release_in_transaction s k q d = Inl x"
    if "find_reservation d k = Some r" "res_status r = COMMITTED" for d k r s q
  proof (cases "require_promotional_reservation d s k")
    case (Inr x)
    then have "require_reservation promotional_error d s k = Inr x"
      by (auto simp: require_promotional_reservation_def result_iffs split: if_splits)
    with that Inr show ?thesis
      by (auto simp: promotional_release_in_transaction_def release_fails [OF that])
  qed (simp add: promotional_release_in_transaction_def)
qed

end
