(* ===== verification/Recovery_Billing.thy ===== *)
theory Recovery_Billing
  imports Credit_Source
begin

text \<open>
  Which source of credits pays for a recovery, and what becomes of the credit:
  \<open>src/services/recovery-billing.service.ts\<close> and, under \<open>src/services/recovery-billing/\<close>,
  \<open>recovery-capacity-admission.service.ts\<close>, \<open>recovery-durable-credit-admission.service.ts\<close> and
  \<open>recovery-reservation-lifecycle.service.ts\<close>. A service method is an action: a function from the
  database to a result and the database after it, in which every call of a reservation service
  runs in an environment of its own (\<open>E n\<close> is the environment of the n-th call).
\<close>

section \<open>Actions\<close>

type_synonym 'a action = "db \<Rightarrow> 'a result \<times> db"

definition act_return :: "'a \<Rightarrow> 'a action" where
  "act_return a d = (Inr a, d)"

definition act_throw :: "failure \<Rightarrow> 'a action" where
  "act_throw e d = (Inl e, d)"

definition act_bind :: "'a action \<Rightarrow> ('a \<Rightarrow> 'b action) \<Rightarrow> 'b action" where
  "act_bind m f d = (case m d of (Inl e, d') \<Rightarrow> (Inl e, d') | (Inr a, d') \<Rightarrow> f a d')"

section \<open>Admissions\<close>

datatype recovery_policy = Effective effective_policy | Post_Contract post_contract_policy

datatype admission_kind =
  Admission_Free | Admission_Paid | Admission_Purchased | Admission_Promotional | Admission_Lifetime_Free

record admission =
  adm_kind :: admission_kind
  adm_sourceKey :: string
  adm_policy :: recovery_policy

datatype block_reason =
    Paused | Capacity_Exhausted | Reservation_In_Flight | Billing_Period_Closing
  | Billing_Period_Reconciliation | Contract_Required | Subscription_Frozen | Feature_Unavailable

datatype admission_result = Admitted admission | Blocked block_reason

definition admitted :: "admission_kind \<Rightarrow> string \<Rightarrow> recovery_policy \<Rightarrow> admission_result" where
  "admitted kind sourceKey policy =
     Admitted \<lparr>adm_kind = kind, adm_sourceKey = sourceKey, adm_policy = policy\<rparr>"

fun policy_shopId :: "recovery_policy \<Rightarrow> id" where
  "policy_shopId (Effective p) = ep_shopId p"
| "policy_shopId (Post_Contract p) = pcp_shopId p"

fun is_post_contract_policy :: "recovery_policy \<Rightarrow> bool" where
  "is_post_contract_policy (Effective _) = False"
| "is_post_contract_policy (Post_Contract _) = True"

text \<open>The source an admission is paid from.\<close>

fun admission_source :: "admission_kind \<Rightarrow> source_kind" where
  "admission_source Admission_Free = Free_Source"
| "admission_source Admission_Lifetime_Free = Free_Source"
| "admission_source Admission_Paid = Paid_Source"
| "admission_source Admission_Purchased = Purchased_Source"
| "admission_source Admission_Promotional = Promotional_Source"

section \<open>Durable credits: purchased and lifetime free\<close>

text \<open>What the admission reads of an outcome: its kind and its counter, if it has one.\<close>

fun replay_name :: "replay_kind \<Rightarrow> string" where
  "replay_name already_reserved = ''already-reserved''"
| "replay_name already_committed = ''already-committed''"
| "replay_name already_released = ''already-released''"
| "replay_name already_ambiguous = ''already-ambiguous''"

fun free_view :: "free_outcome \<Rightarrow> string \<times> shop_counter_kind option" where
  "free_view (Free_Reserved r c) = (''reserved'', Some c)"
| "free_view (Free_Committed r) = (''committed'', None)"
| "free_view (Free_Released r) = (''released'', None)"
| "free_view (Free_Ambiguous r) = (''ambiguous'', None)"
| "free_view (Free_Replay k r c) = (replay_name k, Some c)"
| "free_view (Free_Allowance_Exhausted n) = (''allowance-exhausted'', None)"
| "free_view Free_Paused = (''paused'', None)"

fun purchased_view :: "purchased_outcome \<Rightarrow> string \<times> shop_counter_kind option" where
  "purchased_view (Purchased_Reserved r c) = (''reserved'', Some c)"
| "purchased_view (Purchased_Committed r) = (''committed'', None)"
| "purchased_view (Purchased_Released r) = (''released'', None)"
| "purchased_view (Purchased_Ambiguous r) = (''ambiguous'', None)"
| "purchased_view (Purchased_Replay k r c) = (replay_name k, Some c)"
| "purchased_view (Purchased_Credits_Exhausted n) = (''credits-exhausted'', None)"

definition is_owned_by :: "string \<times> shop_counter_kind option \<Rightarrow> shop_counter_kind \<Rightarrow> bool" where
  "is_owned_by v counter \<longleftrightarrow> snd v = Some counter"

definition is_ambiguous :: "string \<times> shop_counter_kind option \<Rightarrow> bool" where
  "is_ambiguous v \<longleftrightarrow> fst v = ''ambiguous'' \<or> fst v = ''already-ambiguous''"

definition is_released :: "string \<times> shop_counter_kind option \<Rightarrow> bool" where
  "is_released v \<longleftrightarrow> fst v = ''released'' \<or> fst v = ''already-released''"

definition is_admitted_replay :: "string \<times> shop_counter_kind option \<Rightarrow> shop_counter_kind \<Rightarrow> bool" where
  "is_admitted_replay v counter \<longleftrightarrow>
     is_owned_by v counter \<and>
     (fst v = ''reserved'' \<or> fst v = ''already-reserved'' \<or> fst v = ''already-committed'')"

definition durable_free ::
  "shared \<Rightarrow> db env \<Rightarrow> nat \<Rightarrow> bool \<Rightarrow> id \<Rightarrow> string \<Rightarrow> free_outcome action" where
  "durable_free S E maxRetries postContract shopId sourceKey =
     (if postContract then free_reserve_post_contract S E maxRetries shopId sourceKey None
      else free_reserve S E maxRetries shopId sourceKey None)"

definition admit_purchased ::
  "shared \<Rightarrow> (nat \<Rightarrow> db env) \<Rightarrow> nat \<Rightarrow> id \<Rightarrow> string \<Rightarrow> recovery_policy \<Rightarrow> admission_result option action" where
  "admit_purchased S E maxRetries shopId sourceKey policy =
     act_bind (purchased_reserve S (E 0) maxRetries shopId sourceKey None) (\<lambda>out.
     let v = purchased_view out in
     if fst v = ''reserved'' \<or> is_owned_by v PURCHASED_RECOVERY_CREDITS then
       act_return (Some (if is_ambiguous v \<or> is_released v then Blocked Reservation_In_Flight
                         else admitted Admission_Purchased sourceKey policy))
     else if fst v = ''credits-exhausted'' then act_return None
     else if is_owned_by v LIFETIME_FREE_RECOVERY_CREDITS then
       (if is_ambiguous v then act_return (Some (Blocked Reservation_In_Flight))
        else if is_released v then
          act_bind (durable_free S (E 1) maxRetries (is_post_contract_policy policy) shopId sourceKey) (\<lambda>reactivated.
          act_return (Some
            (if \<not> is_admitted_replay (free_view reactivated) LIFETIME_FREE_RECOVERY_CREDITS
             then Blocked Reservation_In_Flight
             else admitted Admission_Lifetime_Free sourceKey policy)))
        else act_return (Some (admitted Admission_Lifetime_Free sourceKey policy)))
     else act_return (Some (Blocked Reservation_In_Flight)))"

definition admit_lifetime_free ::
  "shared \<Rightarrow> (nat \<Rightarrow> db env) \<Rightarrow> nat \<Rightarrow> id \<Rightarrow> string \<Rightarrow> recovery_policy \<Rightarrow> bool \<Rightarrow> admission_result option action" where
  "admit_lifetime_free S E maxRetries shopId sourceKey policy postContract =
     act_bind (durable_free S (E 2) maxRetries postContract shopId sourceKey) (\<lambda>out.
     let v = free_view out in
     if fst v = ''reserved'' \<or> is_owned_by v LIFETIME_FREE_RECOVERY_CREDITS then
       act_return (Some (if is_ambiguous v \<or> is_released v then Blocked Reservation_In_Flight
                         else admitted Admission_Lifetime_Free sourceKey policy))
     else if fst v = ''allowance-exhausted'' then act_return None
     else if fst v = ''paused'' then act_return (Some (Blocked Paused))
     else if is_owned_by v PURCHASED_RECOVERY_CREDITS then
       (if is_ambiguous v then act_return (Some (Blocked Reservation_In_Flight))
        else if is_released v then
          act_bind (purchased_reserve S (E 3) maxRetries shopId sourceKey None) (\<lambda>reactivated.
          act_return (Some
            (if \<not> is_admitted_replay (purchased_view reactivated) PURCHASED_RECOVERY_CREDITS
             then Blocked Reservation_In_Flight
             else admitted Admission_Purchased sourceKey policy)))
        else act_return (Some (admitted Admission_Purchased sourceKey policy)))
     else act_return (Some (Blocked Reservation_In_Flight)))"

section \<open>The order of the sources\<close>

definition admit_durable_fallbacks ::
  "shared \<Rightarrow> (nat \<Rightarrow> db env) \<Rightarrow> nat \<Rightarrow> id \<Rightarrow> string \<Rightarrow> recovery_policy \<Rightarrow> bool \<Rightarrow> admission_result action" where
  "admit_durable_fallbacks S E maxRetries shopId sourceKey policy postContract =
     act_bind (admit_purchased S E maxRetries shopId sourceKey policy) (\<lambda>purchased.
     case purchased of Some result \<Rightarrow> act_return result
     | None \<Rightarrow>
         act_bind (admit_lifetime_free S E maxRetries shopId sourceKey policy postContract) (\<lambda>free.
         case free of Some result \<Rightarrow> act_return result | None \<Rightarrow> act_return (Blocked Capacity_Exhausted)))"

definition admit_post_contract ::
  "shared \<Rightarrow> (nat \<Rightarrow> db env) \<Rightarrow> nat \<Rightarrow> id \<Rightarrow> string \<Rightarrow> post_contract_policy \<Rightarrow> admission_result action" where
  "admit_post_contract S E maxRetries shopId sourceKey policy =
     (if pcp_newRecoveriesPaused policy then act_return (Blocked Paused)
      else admit_durable_fallbacks S E maxRetries shopId sourceKey (Post_Contract policy) True)"

definition in_phase :: "effective_policy \<Rightarrow> period_phase \<Rightarrow> bool" where
  "in_phase policy phase \<longleftrightarrow>
     (case ep_billingPeriod policy of None \<Rightarrow> False | Some p \<Rightarrow> pj_phase p = phase)"

text \<open>A paid plan whose subscription is not frozen, in the given phase of its period.\<close>

definition paid_in_phase :: "effective_policy \<Rightarrow> period_phase \<Rightarrow> bool" where
  "paid_in_phase policy phase \<longleftrightarrow>
     ep_planKind policy = PAID_METERED \<and> in_phase policy phase \<and> ep_subscriptionStatus policy \<noteq> SUB_FROZEN"

fun promotional_admission :: "promotional_outcome \<Rightarrow> string option" where
  "promotional_admission (Promotional_Reserved r k) = Some k"
| "promotional_admission (Promotional_Replay already_reserved r k) = Some k"
| "promotional_admission (Promotional_Replay already_committed r k) = Some k"
| "promotional_admission _ = None"

fun promotional_in_flight :: "promotional_outcome \<Rightarrow> bool" where
  "promotional_in_flight (Promotional_Replay already_ambiguous r k) = True"
| "promotional_in_flight (Promotional_Replay already_released r k) = True"
| "promotional_in_flight _ = False"

fun paid_admission :: "paid_outcome \<Rightarrow> string option" where
  "paid_admission (Paid_Reserved r k p) = Some k"
| "paid_admission (Paid_Replay already_reserved r k p) = Some k"
| "paid_admission (Paid_Replay already_committed r k p) = Some k"
| "paid_admission _ = None"

fun paid_exhausted :: "paid_outcome \<Rightarrow> bool" where
  "paid_exhausted (Paid_Allowance_Exhausted n p) = True"
| "paid_exhausted _ = False"

definition admit_paid_or_fallback ::
  "shared \<Rightarrow> (nat \<Rightarrow> db env) \<Rightarrow> nat \<Rightarrow> id \<Rightarrow> id \<Rightarrow> id option \<Rightarrow> string \<Rightarrow> effective_policy \<Rightarrow> admission_result action" where
  "admit_paid_or_fallback S E maxRetries shopId recoveryId outreachAttemptId sourceKey policy =
     (if paid_in_phase policy PHASE_ACTIVE then
        act_bind (paid_reserve S (E 4) maxRetries shopId
                    (if truthy outreachAttemptId then sourceKey else recoveryId) None) (\<lambda>paid.
        case paid_admission paid of
          Some key \<Rightarrow> act_return (admitted Admission_Paid key (Effective policy))
        | None \<Rightarrow>
            if paid_exhausted paid
            then admit_durable_fallbacks S E maxRetries shopId sourceKey (Effective policy) False
            else act_return (Blocked Reservation_In_Flight))
      else
        act_bind (admit_durable_fallbacks S E maxRetries shopId sourceKey (Effective policy) False) (\<lambda>fallback.
        act_return
          (if fallback = Blocked Capacity_Exhausted \<and> paid_in_phase policy PHASE_DRAINING
           then Blocked Billing_Period_Closing else fallback)))"

definition capacity_admit ::
  "shared \<Rightarrow> (nat \<Rightarrow> db env) \<Rightarrow> nat \<Rightarrow> id \<Rightarrow> id \<Rightarrow> id option \<Rightarrow> string \<Rightarrow> effective_policy \<Rightarrow> admission_result action" where
  "capacity_admit S E maxRetries shopId recoveryId outreachAttemptId sourceKey policy =
     (if ep_planId policy \<noteq> [] then
        act_bind (promotional_reserve S (E 5) maxRetries shopId sourceKey None None) (\<lambda>promotional.
        case promotional_admission promotional of
          Some key \<Rightarrow> act_return (admitted Admission_Promotional key (Effective policy))
        | None \<Rightarrow>
            if promotional_in_flight promotional then act_return (Blocked Reservation_In_Flight)
            else admit_paid_or_fallback S E maxRetries shopId recoveryId outreachAttemptId sourceKey policy)
      else admit_paid_or_fallback S E maxRetries shopId recoveryId outreachAttemptId sourceKey policy)"

section \<open>Admission of a recovery\<close>

definition CHECKOUT_RECOVERY_FEATURE_KEY :: string where
  "CHECKOUT_RECOVERY_FEATURE_KEY = ''checkout_recovery''"

definition recovery_source_key :: "shared \<Rightarrow> id \<Rightarrow> id \<Rightarrow> id option \<Rightarrow> string" where
  "recovery_source_key S shopId recoveryId outreachAttemptId =
     createRecoveryIdempotencyKey S shopId
       (if truthy outreachAttemptId then ''recovery-outreach:'' @ the outreachAttemptId else recoveryId)"

text \<open>
  An exhausted admission also posts a message to the merchant's support thread, whose tables are
  not part of the model: it leaves the tables here as they are.
\<close>

definition admit ::
  "shared \<Rightarrow> (nat \<Rightarrow> db env) \<Rightarrow> nat \<Rightarrow> time \<Rightarrow> id \<Rightarrow> id \<Rightarrow> id option \<Rightarrow> admission_result action" where
  "admit S E maxRetries now shopId recoveryId outreachAttemptId d =
     (let sourceKey = recovery_source_key S shopId recoveryId outreachAttemptId in
      case resolve_policy S d shopId now of
        Inl (Service_Error (Effective_Billing_Policy_Error reason) message) \<Rightarrow>
          if reason = ''NO_CONTRACT'' then
            (case resolve_post_contract_policy d shopId now of
               Inr policy \<Rightarrow> admit_post_contract S E maxRetries shopId sourceKey policy d
             | Inl (Service_Error (Post_Contract_Recovery_Policy_Error r) m) \<Rightarrow>
                 if r = ''CONTRACT_REQUIRED'' then (Inr (Blocked Contract_Required), d)
                 else (Inl (Service_Error (Post_Contract_Recovery_Policy_Error r) m), d)
             | Inl e \<Rightarrow> (Inl e, d))
          else if reason = ''SUBSCRIPTION_FROZEN'' then (Inr (Blocked Subscription_Frozen), d)
          else (Inl (Service_Error (Effective_Billing_Policy_Error reason) message), d)
      | Inl e \<Rightarrow> (Inl e, d)
      | Inr policy \<Rightarrow>
          if CHECKOUT_RECOVERY_FEATURE_KEY \<notin> set (ep_features policy) then (Inr (Blocked Feature_Unavailable), d)
          else if ep_newRecoveriesPaused policy then (Inr (Blocked Paused), d)
          else if ep_planKind policy = PAID_METERED \<and> in_phase policy PHASE_EXPIRED_RECONCILING \<and>
                  ep_platform policy \<noteq> WOOCOMMERCE
          then (Inr (Blocked Billing_Period_Reconciliation), d)
          else capacity_admit S E maxRetries shopId recoveryId outreachAttemptId sourceKey policy d)"

section \<open>The life of an admitted credit\<close>

definition release_admission :: "db env \<Rightarrow> nat \<Rightarrow> admission \<Rightarrow> unit action" where
  "release_admission E maxRetries a =
     (let shopId = policy_shopId (adm_policy a); sourceKey = adm_sourceKey a in
      case adm_kind a of
        Admission_Promotional \<Rightarrow> act_bind (promotional_release E maxRetries shopId sourceKey None) (\<lambda>_. act_return ())
      | Admission_Purchased \<Rightarrow> act_bind (purchased_release E maxRetries shopId sourceKey None) (\<lambda>_. act_return ())
      | Admission_Paid \<Rightarrow> act_bind (paid_release E maxRetries shopId sourceKey None) (\<lambda>_. act_return ())
      | Admission_Free \<Rightarrow> act_bind (free_release E maxRetries shopId sourceKey None) (\<lambda>_. act_return ())
      | Admission_Lifetime_Free \<Rightarrow> act_bind (free_release E maxRetries shopId sourceKey None) (\<lambda>_. act_return ()))"

definition mark_admission_ambiguous :: "db env \<Rightarrow> nat \<Rightarrow> admission \<Rightarrow> unit action" where
  "mark_admission_ambiguous E maxRetries a =
     (let shopId = policy_shopId (adm_policy a); sourceKey = adm_sourceKey a in
      case adm_kind a of
        Admission_Promotional \<Rightarrow>
          act_bind (promotional_mark_ambiguous E maxRetries shopId sourceKey None) (\<lambda>_. act_return ())
      | Admission_Purchased \<Rightarrow>
          act_bind (purchased_mark_ambiguous E maxRetries shopId sourceKey None) (\<lambda>_. act_return ())
      | Admission_Paid \<Rightarrow> act_bind (paid_mark_ambiguous E maxRetries shopId sourceKey None) (\<lambda>_. act_return ())
      | Admission_Free \<Rightarrow> act_bind (free_mark_ambiguous E maxRetries shopId sourceKey None) (\<lambda>_. act_return ())
      | Admission_Lifetime_Free \<Rightarrow>
          act_bind (free_mark_ambiguous E maxRetries shopId sourceKey None) (\<lambda>_. act_return ()))"

text \<open>
  The error a provider call ended with: its name and code, when it has them. A failure is
  definitive when the provider is known not to have accepted the message.
\<close>

record provider_error =
  per_name :: "string option"
  per_code :: "string option"

datatype disposition = Definitive | Indefinite

definition is_definitive_provider_failure :: "provider_error \<Rightarrow> bool" where
  "is_definitive_provider_failure e \<longleftrightarrow>
     per_name e = Some ''WhatsAppServiceError'' \<and>
     (per_code e = Some ''configuration-missing'' \<or> per_code e = Some ''provider-rejected'')"

definition apply_provider_failure_disposition ::
  "db env \<Rightarrow> nat \<Rightarrow> admission \<Rightarrow> disposition \<Rightarrow> unit action" where
  "apply_provider_failure_disposition E maxRetries a disposition =
     (if disposition = Definitive then release_admission E maxRetries a
      else mark_admission_ambiguous E maxRetries a)"

definition handle_provider_failure ::
  "db env \<Rightarrow> nat \<Rightarrow> admission \<Rightarrow> provider_error \<Rightarrow> disposition action" where
  "handle_provider_failure E maxRetries a e =
     (let disposition = (if is_definitive_provider_failure e then Definitive else Indefinite) in
      act_bind (apply_provider_failure_disposition E maxRetries a disposition) (\<lambda>_. act_return disposition))"

text \<open>
  After a commit the outcome has to show the committed reservation of this very admission, for
  one credit, with its usage event.
\<close>

definition confirms_commit :: "bool \<Rightarrow> reservation \<Rightarrow> id \<Rightarrow> string \<Rightarrow> bool" where
  "confirms_commit committedKind r shopId sourceKey \<longleftrightarrow>
     committedKind \<and> res_status r = COMMITTED \<and> res_shopId r = shopId \<and> res_sourceKey r = sourceKey \<and>
     res_quantity r = 1 \<and> truthy (res_committedUsageEventId r)"

definition require_committed_outcome :: "(bool \<times> reservation) option \<Rightarrow> id \<Rightarrow> string \<Rightarrow> unit result" where
  "require_committed_outcome outcome shopId sourceKey =
     (let err = Service_Error Recovery_Credit_Not_Committed_Error
                  ''Recovery reservation owner did not confirm a committed credit'' in
      case outcome of
        None \<Rightarrow> Inl err
      | Some (committedKind, r) \<Rightarrow> if confirms_commit committedKind r shopId sourceKey then Inr () else Inl err)"

text \<open>The reservation of an outcome, and whether its kind is committed or already-committed.\<close>

fun free_committed :: "free_outcome \<Rightarrow> (bool \<times> reservation) option" where
  "free_committed (Free_Committed r) = Some (True, r)"
| "free_committed (Free_Replay k r c) = Some (k = already_committed, r)"
| "free_committed (Free_Reserved r c) = Some (False, r)"
| "free_committed (Free_Released r) = Some (False, r)"
| "free_committed (Free_Ambiguous r) = Some (False, r)"
| "free_committed _ = None"

fun purchased_committed :: "purchased_outcome \<Rightarrow> (bool \<times> reservation) option" where
  "purchased_committed (Purchased_Committed r) = Some (True, r)"
| "purchased_committed (Purchased_Replay k r c) = Some (k = already_committed, r)"
| "purchased_committed (Purchased_Reserved r c) = Some (False, r)"
| "purchased_committed (Purchased_Released r) = Some (False, r)"
| "purchased_committed (Purchased_Ambiguous r) = Some (False, r)"
| "purchased_committed _ = None"

fun paid_committed :: "paid_outcome \<Rightarrow> (bool \<times> reservation) option" where
  "paid_committed (Paid_Committed r) = Some (True, r)"
| "paid_committed (Paid_Replay k r key p) = Some (k = already_committed, r)"
| "paid_committed (Paid_Reserved r key p) = Some (False, r)"
| "paid_committed (Paid_Released r) = Some (False, r)"
| "paid_committed (Paid_Ambiguous r) = Some (False, r)"
| "paid_committed _ = None"

fun promotional_committed :: "promotional_outcome \<Rightarrow> (bool \<times> reservation) option" where
  "promotional_committed (Promotional_Committed r key) = Some (True, r)"
| "promotional_committed (Promotional_Replay k r key) = Some (k = already_committed, r)"
| "promotional_committed (Promotional_Reserved r key) = Some (False, r)"
| "promotional_committed (Promotional_Released r key) = Some (False, r)"
| "promotional_committed (Promotional_Ambiguous r key) = Some (False, r)"
| "promotional_committed _ = None"

definition confirm :: "id \<Rightarrow> string \<Rightarrow> (bool \<times> reservation) option \<Rightarrow> unit action" where
  "confirm shopId sourceKey outcome d =
     (case require_committed_outcome outcome shopId sourceKey of Inl e \<Rightarrow> (Inl e, d) | Inr u \<Rightarrow> (Inr u, d))"

definition commit_admission ::
  "shared \<Rightarrow> db env \<Rightarrow> nat \<Rightarrow> admission \<Rightarrow> time \<Rightarrow> unit action" where
  "commit_admission S E maxRetries a occurredAt =
     (let shopId = policy_shopId (adm_policy a); sourceKey = adm_sourceKey a in
      case adm_kind a of
        Admission_Promotional \<Rightarrow>
          act_bind (promotional_commit S E maxRetries shopId sourceKey None None)
            (\<lambda>out. confirm shopId sourceKey (promotional_committed out))
      | Admission_Free \<Rightarrow>
          act_bind (free_commit S E maxRetries shopId sourceKey None)
            (\<lambda>out. confirm shopId sourceKey (free_committed out))
      | Admission_Lifetime_Free \<Rightarrow>
          act_bind (free_commit S E maxRetries shopId sourceKey None)
            (\<lambda>out. confirm shopId sourceKey (free_committed out))
      | Admission_Purchased \<Rightarrow>
          act_bind (purchased_commit S E maxRetries shopId sourceKey None)
            (\<lambda>out. confirm shopId sourceKey (purchased_committed out))
      | Admission_Paid \<Rightarrow>
          act_bind (paid_commit S E maxRetries shopId sourceKey None (Some occurredAt))
            (\<lambda>out. confirm shopId sourceKey (paid_committed out)))"

section \<open>Revalidation before the provider is called\<close>

definition is_durable_credit_admission :: "admission \<Rightarrow> bool" where
  "is_durable_credit_admission a \<longleftrightarrow>
     adm_kind a = Admission_Purchased \<or> adm_kind a = Admission_Lifetime_Free"

text \<open>Give the credit back, then report why.\<close>

definition release_and_block :: "db env \<Rightarrow> nat \<Rightarrow> admission \<Rightarrow> block_reason \<Rightarrow> admission_result action" where
  "release_and_block E maxRetries a reason =
     act_bind (release_admission E maxRetries a) (\<lambda>_. act_return (Blocked reason))"

definition revalidate_no_contract ::
  "db env \<Rightarrow> nat \<Rightarrow> time \<Rightarrow> admission \<Rightarrow> admission_result action" where
  "revalidate_no_contract E maxRetries now a d =
     (if is_durable_credit_admission a then
        (case resolve_post_contract_policy d (policy_shopId (adm_policy a)) now of
           Inr policy \<Rightarrow>
             if pcp_newRecoveriesPaused policy then release_and_block E maxRetries a Paused d
             else (Inr (Admitted a), d)
         | Inl (Service_Error (Post_Contract_Recovery_Policy_Error r) m) \<Rightarrow>
             if r = ''CONTRACT_REQUIRED'' \<or> r = ''SHOP_UNAVAILABLE''
             then release_and_block E maxRetries a Contract_Required d
             else (Inl (Service_Error (Post_Contract_Recovery_Policy_Error r) m), d)
         | Inl e \<Rightarrow> (Inl e, d))
      else release_and_block E maxRetries a Contract_Required d)"

definition revalidated_period :: "admission \<Rightarrow> effective_policy \<Rightarrow> bool" where
  "revalidated_period a current \<longleftrightarrow>
     (case (adm_policy a, ep_billingPeriod current) of
        (Effective p, Some projected) \<Rightarrow>
          (case ep_billingPeriod p of None \<Rightarrow> False
           | Some q \<Rightarrow> bp_id (pj_period projected) = bp_id (pj_period q))
      | _ \<Rightarrow> False)"

definition revalidate_before_provider ::
  "shared \<Rightarrow> (nat \<Rightarrow> db env) \<Rightarrow> nat \<Rightarrow> time \<Rightarrow> admission \<Rightarrow> id \<Rightarrow> id option \<Rightarrow> admission_result action" where
  "revalidate_before_provider S E maxRetries now a recoveryId outreachAttemptId d =
     (let shopId = policy_shopId (adm_policy a); block = release_and_block (E 6) maxRetries a in
      case resolve_policy S d shopId now of
        Inl (Service_Error (Effective_Billing_Policy_Error reason) message) \<Rightarrow>
          if reason = ''NO_CONTRACT'' then revalidate_no_contract (E 6) maxRetries now a d
          else if reason = ''SUBSCRIPTION_FROZEN'' then block Subscription_Frozen d
          else (Inl (Service_Error (Effective_Billing_Policy_Error reason) message), d)
      | Inl e \<Rightarrow> (Inl e, d)
      | Inr current \<Rightarrow>
          if ep_planKind current = PAID_METERED \<and> in_phase current PHASE_EXPIRED_RECONCILING \<and>
             ep_platform current \<noteq> WOOCOMMERCE
          then block Billing_Period_Reconciliation d
          else if ep_newRecoveriesPaused current then block Paused d
          else if CHECKOUT_RECOVERY_FEATURE_KEY \<notin> set (ep_features current) then block Feature_Unavailable d
          else if ep_platform current = WOOCOMMERCE \<and>
             (ep_subscriptionStatus current = SUB_FROZEN \<or> in_phase current PHASE_EXPIRED_RECONCILING) \<and>
             adm_kind a \<in> {Admission_Promotional, Admission_Purchased, Admission_Lifetime_Free}
          then (Inr (Admitted a), d)
          else if adm_kind a \<in> {Admission_Free, Admission_Lifetime_Free, Admission_Purchased}
          then (Inr (Admitted a), d)
          else if adm_kind a = Admission_Paid \<and> paid_in_phase current PHASE_ACTIVE \<and> revalidated_period a current
          then (Inr (Admitted a), d)
          else act_bind (release_admission (E 6) maxRetries a)
                 (\<lambda>_. admit S E maxRetries now shopId recoveryId outreachAttemptId) d)"

section \<open>The source of a reservation\<close>

text \<open>In a ledger that is in order, the columns of a reservation tell its source.\<close>

definition source_of :: "reservation \<Rightarrow> source_kind" where
  "source_of r =
     (if res_purchasedCreditPurchaseId r \<noteq> None then Purchased_Source
      else if res_billingPeriodEntitlementCounterId r \<noteq> None then Paid_Source
      else if res_promotionalCreditGrantId r \<noteq> None then Promotional_Source
      else Free_Source)"

lemma owned_by_source_of: "owned_by d k r \<Longrightarrow> k = source_of r"
  by (cases k) (auto simp: source_of_def)

lemma owned_source_of:
  assumes "ledger_ok d" "r \<in> set (db_reservations d)"
  shows "owned_by d (source_of r) r"
  using ledger_okD(5) [OF assms] owned_by_source_of by (auto simp: reservation_ok_def)

lemma source_key_of:
  assumes "ledger_ok d" "find_reservation d k = Some r"
  shows "source_key (source_of r) d k"
  using assms owned_source_of [OF assms(1)] find_reservation_SomeD [OF assms(2)] by (simp add: source_key_def)

lemma source_of_row [simp]:
  "source_of (committed_row e r) = source_of r" "source_of (with_status st r) = source_of r"
  by (simp_all add: source_of_def)

text \<open>A reservation in the database: key, shop and source.\<close>

definition holds_reservation :: "db \<Rightarrow> string \<Rightarrow> id \<Rightarrow> source_kind \<Rightarrow> reservation \<Rightarrow> bool" where
  "holds_reservation d k s src r \<longleftrightarrow> find_reservation d k = Some r \<and> res_shopId r = s \<and> source_of r = src"

lemma holds_reservationI:
  assumes "ledger_ok d" "r \<in> set (db_reservations d)" "res_sourceKey r = k" "res_shopId r = s" "source_of r = src"
  shows "holds_reservation d k s src r"
  using assms find_by_key [OF assms(1,2)] by (simp add: holds_reservation_def)

lemma updated_in:
  "r \<in> set t \<Longrightarrow> g r \<in> set (update_key key (key r) g t)"
  by (auto simp: set_update_key)

text \<open>What the outcomes of the four reserve operations say of the database they leave.\<close>

lemma free_reserve_out:
  assumes run: "free_reserve_in_transaction S now i s k q pc d = Inr (out, d')"
    and ok: "ledger_ok d" and q: "0 < q"
  shows "case out of
      Free_Reserved r c \<Rightarrow> c = LIFETIME_FREE_RECOVERY_CREDITS \<and> holds_reservation d' k s Free_Source r \<and>
        res_status r = RESERVED \<and> res_quantity r = q
    | Free_Replay rk r c \<Rightarrow> rk = replay_kind_of (res_status r) \<and>
        ((c = LIFETIME_FREE_RECOVERY_CREDITS \<and> holds_reservation d' k s Free_Source r) \<or>
         (c = PURCHASED_RECOVERY_CREDITS \<and> holds_reservation d' k s Purchased_Source r))
    | Free_Allowance_Exhausted n \<Rightarrow> d' = d \<and> find_reservation d k = None
    | Free_Paused \<Rightarrow> d' = d \<and> find_reservation d k = None
    | _ \<Rightarrow> False"
proof (cases "find_reservation d k")
  case None
  show ?thesis
  proof (cases "out = Free_Paused \<and> d' = d")
    case False
    with run None have new: "free_reserve_new d i s k q = Inr (out, d')"
      by (auto simp: free_reserve_in_transaction_def result_iffs split: if_splits)
    note ok' = free_reserve_new_ledger [OF new ok q]
    show ?thesis
    proof (cases rule: free_reserve_new_InrD [OF new ok])
      case (2 c r)
      then have "holds_reservation d' k s Free_Source r"
        by (intro holds_reservationI [OF ok']) (simp_all add: new_reservation_def source_of_def)
      with 2 show ?thesis by (simp add: new_reservation_def)
    qed (simp add: None)
  qed (simp add: None)
next
  case (Some r)
  note r = find_reservation_SomeD [OF Some]
  from run Some obtain kind where shop: "res_shopId r = s"
    and kind: "free_read_reservation_counter d r = Inr kind"
    by (auto simp: free_reserve_in_transaction_def result_iffs dest: assert_reservation_shop_InrD)
  obtain c where c: "c \<in> set (db_shopCounters d)" "res_counterId r = Some (sc_id c)" "sc_counter c = kind"
    by (rule free_read_counter_InrD [OF kind])
  have kinds: "kind = LIFETIME_FREE_RECOVERY_CREDITS \<or> kind = PURCHASED_RECOVERY_CREDITS"
    using kind by (auto simp: free_read_reservation_counter_def split: if_splits option.splits)
  show ?thesis
  proof (cases "kind = LIFETIME_FREE_RECOVERY_CREDITS")
    case True
    then have src: "source_of r = Free_Source"
      using counter_source(1) [OF ok _ c(1,2)] r c(3) owned_by_source_of by metis
    from True run Some kind have re: "free_reactivate d r s q = Inr (out, d')"
      by (auto simp: free_reserve_in_transaction_def result_iffs)
    have ok': "ledger_ok d'" using run ok q by (rule free_reserve_ledger)
    show ?thesis
    proof (cases rule: free_reactivate_InrD [OF re ok r [THEN conjunct1]])
      case 1
      then show ?thesis using Some shop src by (simp add: free_replay_def holds_reservation_def)
    next
      case (2 x)
      then have "holds_reservation d' k s Free_Source (with_status RESERVED r)"
        using r shop src updated_in [of r "db_reservations d" "with_status RESERVED" res_id]
        by (intro holds_reservationI [OF ok']) simp_all
      with 2 show ?thesis by simp
    qed
  next
    case False
    then have "source_of r = Purchased_Source"
      using counter_source(2) [OF ok _ c(1,2)] r c(3) kinds owned_by_source_of by metis
    with False run Some kind kinds shop show ?thesis
      by (auto simp: free_reserve_in_transaction_def result_iffs free_replay_def holds_reservation_def)
  qed
qed

lemma purchased_reserve_out:
  assumes run: "purchased_reserve_in_transaction S i ci s k q d = Inr (out, d')"
    and ok: "ledger_ok d" and q: "0 < q"
  shows "case out of
      Purchased_Reserved r c \<Rightarrow> c = PURCHASED_RECOVERY_CREDITS \<and> holds_reservation d' k s Purchased_Source r \<and>
        res_status r = RESERVED \<and> res_quantity r = q
    | Purchased_Replay rk r c \<Rightarrow> rk = replay_kind_of (res_status r) \<and>
        ((c = LIFETIME_FREE_RECOVERY_CREDITS \<and> holds_reservation d' k s Free_Source r) \<or>
         (c = PURCHASED_RECOVERY_CREDITS \<and> holds_reservation d' k s Purchased_Source r))
    | Purchased_Credits_Exhausted n \<Rightarrow> db_reservations d' = db_reservations d \<and> find_reservation d k = None
    | _ \<Rightarrow> False"
proof (cases "find_reservation d k")
  case None
  with run have new: "purchased_reserve_new S i ci s k q d = Inr (out, d')"
    by (simp add: purchased_reserve_in_transaction_def)
  note ok' = purchased_reserve_new_ledger [OF new ok q]
  show ?thesis
  proof (cases rule: purchased_reserve_new_InrD [OF new ok])
    case (2 d0 c l r)
    then have "holds_reservation d' k s Purchased_Source r"
      by (intro holds_reservationI [OF ok']) (simp_all add: new_reservation_def source_of_def)
    with 2 show ?thesis by (simp add: new_reservation_def)
  qed (simp add: None)
next
  case (Some r)
  note r = find_reservation_SomeD [OF Some]
  from run Some obtain kind where shop: "res_shopId r = s"
    and kind: "purchased_read_reservation_counter d r = Inr kind"
    by (auto simp: purchased_reserve_in_transaction_def result_iffs dest: assert_reservation_shop_InrD)
  obtain c where c: "c \<in> set (db_shopCounters d)" "res_counterId r = Some (sc_id c)" "sc_counter c = kind"
    by (rule purchased_read_counter_InrD [OF kind])
  have kinds: "kind = LIFETIME_FREE_RECOVERY_CREDITS \<or> kind = PURCHASED_RECOVERY_CREDITS"
    using kind by (auto simp: purchased_read_reservation_counter_def split: if_splits option.splits)
  show ?thesis
  proof (cases "kind = PURCHASED_RECOVERY_CREDITS")
    case True
    then have own: "owned_by d Purchased_Source r"
      using counter_source(2) [OF ok _ c(1,2)] r c(3) by simp
    then have src: "source_of r = Purchased_Source" by (metis owned_by_source_of)
    from True run Some kind have re: "purchased_reactivate S d r s q = Inr (out, d')"
      by (auto simp: purchased_reserve_in_transaction_def result_iffs)
    have ok': "ledger_ok d'" using run ok q by (rule purchased_reserve_ledger)
    show ?thesis
    proof (cases rule: purchased_reactivate_InrD [OF re ok r [THEN conjunct1] shop own])
      case 1
      then show ?thesis using Some shop src by (simp add: purchased_replay_def holds_reservation_def)
    next
      case (2 x l)
      then have "holds_reservation d' k s Purchased_Source (on_lot (lot_id l) r)"
        using r shop updated_in [of r "db_reservations d" "on_lot (lot_id l)" res_id]
        by (intro holds_reservationI [OF ok']) (simp_all add: source_of_def)
      with 2 show ?thesis by simp
    qed
  next
    case False
    then have "source_of r = Free_Source"
      using counter_source(1) [OF ok _ c(1,2)] r c(3) kinds owned_by_source_of by metis
    with False run Some kind kinds shop show ?thesis
      by (auto simp: purchased_reserve_in_transaction_def result_iffs purchased_replay_def holds_reservation_def)
  qed
qed

lemma paid_reserve_out:
  assumes run: "paid_reserve_in_transaction S now i s ref q d = Inr (out, d')"
    and ok: "ledger_ok d" and q: "0 < q"
  shows "case out of
      Paid_Reserved r k p \<Rightarrow> holds_reservation d' k s Paid_Source r \<and> res_status r = RESERVED \<and> res_quantity r = q
    | Paid_Replay rk r k p \<Rightarrow> rk = replay_kind_of (res_status r) \<and> holds_reservation d' k s Paid_Source r
    | Paid_Allowance_Exhausted n p \<Rightarrow> d' = d
    | _ \<Rightarrow> False"
proof -
  from run obtain policy p where p: "require_current_open_period d s policy now = Inr p"
    and rest: "(case find_reservation d (paid_source_key (bp_id p) ref) of
         Some existing \<Rightarrow> paid_reserve_existing d existing s (paid_source_key (bp_id p) ref) q p policy
       | None \<Rightarrow> paid_reserve_new d i s (paid_source_key (bp_id p) ref) q p policy) = Inr (out, d')"
    by (auto simp: paid_reserve_in_transaction_def result_iffs Let_def split: if_splits)
  let ?k = "paid_source_key (bp_id p) ref"
  have ok': "ledger_ok d'" using run ok q by (rule paid_reserve_ledger)
  show ?thesis
  proof (cases "find_reservation d ?k")
    case None
    with rest have new: "paid_reserve_new d i s ?k q p policy = Inr (out, d')" by simp
    show ?thesis
    proof (cases rule: paid_reserve_new_InrD [OF new ok])
      case (2 c r)
      then have "holds_reservation d' ?k s Paid_Source r"
        by (intro holds_reservationI [OF ok']) (simp_all add: new_reservation_def source_of_def)
      with 2 show ?thesis by (simp add: new_reservation_def)
    qed simp
  next
    case (Some r)
    with rest have ex: "paid_reserve_existing d r s ?k q p policy = Inr (out, d')" by simp
    note r = find_reservation_SomeD [OF Some]
    from ex have shop: "res_shopId r = s" and per: "res_billingPeriodEntitlementCounterId r \<noteq> None"
      by (auto simp: paid_reserve_existing_def result_iffs split: if_splits dest: assert_reservation_shop_InrD)
    have src: "source_of r = Paid_Source"
      using paid_counter_owned [OF ok _ per] r owned_by_source_of by metis
    show ?thesis
    proof (cases rule: paid_reserve_existing_InrD [OF ex ok r [THEN conjunct1]])
      case (1 pol)
      then show ?thesis using Some shop src by (simp add: paid_replay_def holds_reservation_def)
    next
      case (2 c)
      have "source_of (reactivated_row r) = Paid_Source"
        using src by (simp add: source_of_def reactivated_row_def split: if_splits)
      with 2 have "holds_reservation d' ?k s Paid_Source (reactivated_row r)"
        using r shop updated_in [of r "db_reservations d" reactivated_row res_id]
        by (intro holds_reservationI [OF ok']) simp_all
      with 2 show ?thesis by simp
    qed
  qed
qed

lemma promotional_reserve_out:
  assumes run: "promotional_reserve_in_transaction S now i s k q d = Inr (out, d')"
    and ok: "ledger_ok d" and q: "0 < q"
  shows "case out of
      Promotional_Reserved r k' \<Rightarrow> k' = k \<and> holds_reservation d' k s Promotional_Source r \<and>
        res_status r = RESERVED \<and> res_quantity r = q
    | Promotional_Replay rk r k' \<Rightarrow> k' = k \<and> rk = replay_kind_of (res_status r) \<and>
        holds_reservation d' k s Promotional_Source r
    | Promotional_Unavailable \<Rightarrow> d' = d
    | _ \<Rightarrow> False"
proof (cases "find_reservation d k")
  case None
  let ?r = "\<lambda>g. (new_reservation i s k q)\<lparr>res_promotionalCreditGrantId := Some (gr_id g)\<rparr>"
  have ok': "ledger_ok d'" using run ok q by (rule promotional_reserve_ledger)
  show ?thesis
  proof (cases "out = Promotional_Unavailable \<and> d' = d")
    case False
    with None run obtain g d1 x where d1: "reserve_grant g q d = Inr d1"
      and x: "create_reservation (?r g) d1 = Inr (x, d')" and out: "out = Promotional_Reserved x k"
      by (auto simp: promotional_reserve_in_transaction_def result_iffs split: option.splits if_splits)
    from create_reservation_InrD [OF x] have "x = ?r g" "x \<in> set (db_reservations d')" by auto
    then have "holds_reservation d' k s Promotional_Source x"
      by (intro holds_reservationI [OF ok']) (simp_all add: new_reservation_def source_of_def)
    with out \<open>x = ?r g\<close> show ?thesis by (simp add: new_reservation_def)
  qed simp
next
  case (Some r)
  note r = find_reservation_SomeD [OF Some]
  have ok': "ledger_ok d'" using run ok q by (rule promotional_reserve_ledger)
  from Some run have ex: "promotional_reserve_existing S d r now s k q = Inr (out, d')"
    by (simp add: promotional_reserve_in_transaction_def)
  then have shop: "res_shopId r = s"
    by (auto simp: promotional_reserve_existing_def result_iffs dest: assert_reservation_shop_InrD)
  show ?thesis
  proof (cases "res_promotionalCreditGrantId r")
    case None
    with ex show ?thesis by (auto simp: promotional_reserve_existing_def result_iffs)
  next
    case (Some gid)
    then have src: "source_of r = Promotional_Source"
      using promotional_owned [OF ok] r owned_by_source_of by (metis option.distinct(1))
    note hold = \<open>find_reservation d k = Some r\<close> shop src
    from ex obtain dec where dec: "transition_decision r Reactivate q promotional_error = Inr dec"
      using Some by (auto simp: promotional_reserve_existing_def result_iffs)
    show ?thesis
    proof (cases "dec = Apply")
      case False
      with ex Some dec hold show ?thesis
        by (auto simp: promotional_reserve_existing_def result_iffs promotional_replay_def holds_reservation_def)
    next
      case True
      note rel = transition_decision_Apply [OF dec [unfolded True]]
      show ?thesis
      proof (cases "out = Promotional_Replay already_released r k \<and> d' = d")
        case True
        with hold rel show ?thesis by (simp add: holds_reservation_def)
      next
        case False
        with ex Some dec \<open>dec = Apply\<close> obtain g d1 x where
          use: "find_usable_grant S d s now = Inr (Some g)" and d1: "reserve_grant g q d = Inr d1"
          and x: "update_reservation (with_status RESERVED) r d1 = Inr (x, d')" and out: "out = Promotional_Reserved x k"
          by (auto simp: promotional_reserve_existing_def result_iffs split: option.splits if_splits)
        note g = find_usable_grant_SomeD [OF use, THEN conjunct1]
        note d1' = reserve_grant_InrD [OF d1 ledger_keys(5) [OF ok] g]
        have d': "x = with_status RESERVED r"
          "db_reservations d' = update_key res_id (res_id r) (with_status RESERVED) (db_reservations d)"
          using update_reservation_InrD [OF x] d1' r ledger_keys(1) [OF ok] by simp_all
        then have "holds_reservation d' k s Promotional_Source x"
          using r shop src updated_in [of r "db_reservations d" "with_status RESERVED" res_id]
          by (intro holds_reservationI [OF ok']) simp_all
        with out d' rel show ?thesis by simp
      qed
    qed
  qed
qed

section \<open>Retried calls\<close>

text \<open>An environment whose other transactions keep the ledger.\<close>

definition env_ok :: "db env \<Rightarrow> bool" where
  "env_ok E \<longleftrightarrow> (\<forall>n s. ledger_ok s \<longrightarrow> ledger_ok (env_step E n s))"

lemma validated_InrD_invariant:
  assumes "validated mk quantity (\<lambda>q. with_retry E (body q) mk m) d = (Inr out, d')" "I d"
    and "\<forall>n s. I s \<longrightarrow> I (env_step E n s)"
  obtains q n d1 where "validate_quantity quantity mk = Inr q" "0 < q" "I d1" "body q n d1 = Inr (out, d')"
proof -
  from assms(1) obtain q where q: "validate_quantity quantity mk = Inr q"
    "with_retry E (body q) mk m d = (Inr out, d')"
    by (auto simp: validated_def split: sum.splits)
  from retry_from_InrD [where I = I, OF q(2) [unfolded with_retry_def] assms(2,3)]
  obtain n d1 where "I d1" "body q n d1 = Inr (out, d')" by blast
  with q validate_quantity_InrD [OF q(1)] show ?thesis by (intro that) auto
qed

lemma validated_InrD:
  assumes "validated mk quantity (\<lambda>q. with_retry E (body q) mk m) d = (Inr out, d')" "ledger_ok d" "env_ok E"
  obtains q n d1 where "validate_quantity quantity mk = Inr q" "0 < q" "ledger_ok d1" "body q n d1 = Inr (out, d')"
  using assms(1,2) by (rule validated_InrD_invariant [where I = ledger_ok]) (use assms(3) in \<open>simp add: env_ok_def\<close>)

lemma validated_ledger:
  assumes "ledger_ok d" "env_ok E"
    and "\<And>q n d1 out d2. 0 < q \<Longrightarrow> ledger_ok d1 \<Longrightarrow> body q n d1 = Inr (out, d2) \<Longrightarrow> ledger_ok d2"
  shows "ledger_ok (snd (validated mk quantity (\<lambda>q. with_retry E (body q) mk m) d))"
proof (cases "validate_quantity quantity mk")
  case (Inr q)
  have "ledger_ok (snd (with_retry E (body q) mk m d))"
  proof (rule with_retry_invariant [where I = ledger_ok, OF assms(1)])
    show "ledger_ok (env_step E n s)" if "ledger_ok s" for n s using that assms(2) by (simp add: env_ok_def)
    show "ledger_ok s'" if "ledger_ok s" "body q n s = Inr (a, s')" for n s a s'
      using assms(3) [OF _ that] validate_quantity_InrD [OF Inr] by simp
  qed
  with Inr show ?thesis by (simp add: validated_def)
qed (simp add: validated_def assms(1))

text \<open>Every reserve method keeps the ledger, whatever it returns.\<close>

lemma reserve_methods_ledger:
  assumes "ledger_ok d" "env_ok E"
  shows "ledger_ok (snd (free_reserve S E m s k q d))"
    "ledger_ok (snd (free_reserve_post_contract S E m s k q d))"
    "ledger_ok (snd (purchased_reserve S E m s k q d))"
    "ledger_ok (snd (paid_reserve S E m s k q d))"
    "ledger_ok (snd (promotional_reserve S E m s k q t d))"
  unfolding free_reserve_def free_reserve_post_contract_def purchased_reserve_def paid_reserve_def promotional_reserve_def
  by (rule validated_ledger [OF assms]; rule free_reserve_ledger purchased_reserve_ledger paid_reserve_ledger
      promotional_reserve_ledger; assumption)+

lemma purchased_reserve_method_out:
  assumes "purchased_reserve S E m s k q d = (Inr out, d')" "ledger_ok d" "env_ok E"
  shows "ledger_ok d' \<and> (case out of
      Purchased_Reserved r c \<Rightarrow> c = PURCHASED_RECOVERY_CREDITS \<and> holds_reservation d' k s Purchased_Source r \<and>
        res_status r = RESERVED
    | Purchased_Replay rk r c \<Rightarrow> rk = replay_kind_of (res_status r) \<and>
        ((c = LIFETIME_FREE_RECOVERY_CREDITS \<and> holds_reservation d' k s Free_Source r) \<or>
         (c = PURCHASED_RECOVERY_CREDITS \<and> holds_reservation d' k s Purchased_Source r))
    | Purchased_Credits_Exhausted n \<Rightarrow> find_reservation d' k = None
    | _ \<Rightarrow> False)"
proof -
  obtain q' n d1 where run: "0 < q'" "ledger_ok d1"
    "purchased_reserve_in_transaction S (env_ids E n 0) (env_ids E n 1) s k q' d1 = Inr (out, d')"
    by (rule validated_InrD [OF assms(1) [unfolded purchased_reserve_def] assms(2,3)])
  from purchased_reserve_out [OF run(3,2,1)] purchased_reserve_ledger [OF run(3,2,1)]
  show ?thesis by (auto simp: find_reservation_def split: purchased_outcome.splits)
qed

lemma durable_free_out:
  assumes "durable_free S E m pc s k d = (Inr out, d')" "ledger_ok d" "env_ok E"
  shows "ledger_ok d' \<and> (case out of
      Free_Reserved r c \<Rightarrow> c = LIFETIME_FREE_RECOVERY_CREDITS \<and> holds_reservation d' k s Free_Source r \<and>
        res_status r = RESERVED
    | Free_Replay rk r c \<Rightarrow> rk = replay_kind_of (res_status r) \<and>
        ((c = LIFETIME_FREE_RECOVERY_CREDITS \<and> holds_reservation d' k s Free_Source r) \<or>
         (c = PURCHASED_RECOVERY_CREDITS \<and> holds_reservation d' k s Purchased_Source r))
    | Free_Allowance_Exhausted n \<Rightarrow> find_reservation d' k = None
    | Free_Paused \<Rightarrow> find_reservation d' k = None
    | _ \<Rightarrow> False)"
proof -
  obtain q' n d1 where run: "0 < q'" "ledger_ok d1"
    "free_reserve_in_transaction S (env_now E n) (env_ids E n 0) s k q' pc d1 = Inr (out, d')"
  proof (cases pc)
    case True
    from True assms(1) have "free_reserve_post_contract S E m s k None d = (Inr out, d')"
      by (simp add: durable_free_def)
    from validated_InrD [OF this [unfolded free_reserve_post_contract_def] assms(2,3)] that True
    show ?thesis by metis
  next
    case False
    from False assms(1) have "free_reserve S E m s k None d = (Inr out, d')" by (simp add: durable_free_def)
    from validated_InrD [OF this [unfolded free_reserve_def] assms(2,3)] that False
    show ?thesis by metis
  qed
  from free_reserve_out [OF run(3,2,1)] free_reserve_ledger [OF run(3,2,1)]
  show ?thesis by (auto split: free_outcome.splits)
qed

lemma paid_reserve_method_out:
  assumes "paid_reserve S E m s ref q d = (Inr out, d')" "ledger_ok d" "env_ok E"
  shows "ledger_ok d' \<and> (case out of
      Paid_Reserved r k p \<Rightarrow> holds_reservation d' k s Paid_Source r \<and> res_status r = RESERVED
    | Paid_Replay rk r k p \<Rightarrow> rk = replay_kind_of (res_status r) \<and> holds_reservation d' k s Paid_Source r
    | Paid_Allowance_Exhausted n p \<Rightarrow> True
    | _ \<Rightarrow> False)"
proof -
  obtain q' n d1 where run: "0 < q'" "ledger_ok d1"
    "paid_reserve_in_transaction S (env_now E n) (env_ids E n 0) s ref q' d1 = Inr (out, d')"
    by (rule validated_InrD [OF assms(1) [unfolded paid_reserve_def] assms(2,3)])
  from paid_reserve_out [OF run(3,2,1)] paid_reserve_ledger [OF run(3,2,1)]
  show ?thesis by (auto split: paid_outcome.splits)
qed

lemma promotional_reserve_method_out:
  assumes "promotional_reserve S E m s k q t d = (Inr out, d')" "ledger_ok d" "env_ok E"
  shows "ledger_ok d' \<and> (case out of
      Promotional_Reserved r k' \<Rightarrow> k' = k \<and> holds_reservation d' k s Promotional_Source r \<and> res_status r = RESERVED
    | Promotional_Replay rk r k' \<Rightarrow> k' = k \<and> rk = replay_kind_of (res_status r) \<and>
        holds_reservation d' k s Promotional_Source r
    | Promotional_Unavailable \<Rightarrow> True
    | _ \<Rightarrow> False)"
proof -
  obtain q' n d1 where run: "0 < q'" "ledger_ok d1"
    "promotional_reserve_in_transaction S (nullish t (env_now E n)) (env_ids E n 0) s k q' d1 = Inr (out, d')"
    by (rule validated_InrD [OF assms(1) [unfolded promotional_reserve_def] assms(2,3)])
  from promotional_reserve_out [OF run(3,2,1)] promotional_reserve_ledger [OF run(3,2,1)]
  show ?thesis by (auto split: promotional_outcome.splits)
qed

section \<open>An admission holds the credit it names\<close>

definition admission_ok :: "db \<Rightarrow> id \<Rightarrow> admission \<Rightarrow> bool" where
  "admission_ok d s a \<longleftrightarrow>
     (\<exists>r. holds_reservation d (adm_sourceKey a) s (admission_source (adm_kind a)) r \<and>
        (res_status r = RESERVED \<or> res_status r = COMMITTED))"

fun result_ok :: "db \<Rightarrow> id \<Rightarrow> admission_result \<Rightarrow> bool" where
  "result_ok d s (Admitted a) = admission_ok d s a"
| "result_ok d s (Blocked _) = True"

lemma admission_okI:
  "holds_reservation d k s (admission_source kind) r \<Longrightarrow> res_status r = RESERVED \<or> res_status r = COMMITTED \<Longrightarrow>
     result_ok d s (admitted kind k p)"
  by (auto simp: admitted_def admission_ok_def)

lemma act_bind_InrE:
  assumes "act_bind m f d = (Inr b, d')"
  obtains a d1 where "m d = (Inr a, d1)" "f a d1 = (Inr b, d')"
  using assms by (auto simp: act_bind_def split: prod.splits sum.splits)

lemma act_return_eq [simp]: "act_return a d = (Inr b, d') \<longleftrightarrow> b = a \<and> d' = d"
  by (auto simp: act_return_def)

lemma replay_names [simp]:
  "replay_name (replay_kind_of st) = ''already-reserved'' \<longleftrightarrow> st = RESERVED"
  "replay_name (replay_kind_of st) = ''already-committed'' \<longleftrightarrow> st = COMMITTED"
  "replay_name (replay_kind_of st) = ''already-released'' \<longleftrightarrow> st = RELEASED"
  "replay_name (replay_kind_of st) = ''already-ambiguous'' \<longleftrightarrow> st = AMBIGUOUS"
  "replay_name k \<noteq> ''reserved''" "replay_name k \<noteq> ''released''" "replay_name k \<noteq> ''ambiguous''"
  "replay_name k \<noteq> ''allowance-exhausted''" "replay_name k \<noteq> ''credits-exhausted''" "replay_name k \<noteq> ''paused''"
  by (cases st; simp; fail)+ (cases k; simp)+

lemma replay_settled:
  "st \<noteq> AMBIGUOUS \<Longrightarrow> st \<noteq> RELEASED \<Longrightarrow> st \<noteq> COMMITTED \<Longrightarrow> st = RESERVED"
  by (cases st) auto

lemma admit_purchased_ok:
  assumes run: "admit_purchased S E m s k policy d = (Inr res, d')" and ok: "ledger_ok d" "\<And>n. env_ok (E n)"
  shows "ledger_ok d' \<and> (case res of None \<Rightarrow> True | Some x \<Rightarrow> result_ok d' s x)"
proof -
  from run obtain out d1 where out: "purchased_reserve S (E 0) m s k None d = (Inr out, d1)"
    and rest: "(\<lambda>out. let v = purchased_view out in
     if fst v = ''reserved'' \<or> is_owned_by v PURCHASED_RECOVERY_CREDITS then
       act_return (Some (if is_ambiguous v \<or> is_released v then Blocked Reservation_In_Flight
                         else admitted Admission_Purchased k policy))
     else if fst v = ''credits-exhausted'' then act_return None
     else if is_owned_by v LIFETIME_FREE_RECOVERY_CREDITS then
       (if is_ambiguous v then act_return (Some (Blocked Reservation_In_Flight))
        else if is_released v then
          act_bind (durable_free S (E 1) m (is_post_contract_policy policy) s k) (\<lambda>reactivated.
          act_return (Some
            (if \<not> is_admitted_replay (free_view reactivated) LIFETIME_FREE_RECOVERY_CREDITS
             then Blocked Reservation_In_Flight
             else admitted Admission_Lifetime_Free k policy)))
        else act_return (Some (admitted Admission_Lifetime_Free k policy)))
     else act_return (Some (Blocked Reservation_In_Flight))) out d1 = (Inr res, d')"
    unfolding admit_purchased_def by (rule act_bind_InrE)
  note o = purchased_reserve_method_out [OF out ok]
  show ?thesis
  proof (cases out)
    case (Purchased_Reserved r c)
    with o rest show ?thesis
      by (auto simp: is_owned_by_def is_ambiguous_def is_released_def intro!: admission_okI)
  next
    case (Purchased_Replay rk r c)
    show ?thesis
    proof (cases "c = PURCHASED_RECOVERY_CREDITS")
      case True
      with Purchased_Replay o rest show ?thesis
        by (auto simp: is_owned_by_def is_ambiguous_def is_released_def intro!: admission_okI replay_settled split: if_splits)
    next
      case False
      with Purchased_Replay o have c: "c = LIFETIME_FREE_RECOVERY_CREDITS" "holds_reservation d1 k s Free_Source r"
        "rk = replay_kind_of (res_status r)" "ledger_ok d1" by auto
      show ?thesis
      proof (cases "res_status r = RELEASED")
        case True
        with Purchased_Replay c rest have
          "act_bind (durable_free S (E 1) m (is_post_contract_policy policy) s k) (\<lambda>reactivated.
          act_return (Some
            (if \<not> is_admitted_replay (free_view reactivated) LIFETIME_FREE_RECOVERY_CREDITS
             then Blocked Reservation_In_Flight
             else admitted Admission_Lifetime_Free k policy))) d1 = (Inr res, d')"
          by (simp add: is_owned_by_def is_ambiguous_def is_released_def)
        then obtain re where fr: "durable_free S (E 1) m (is_post_contract_policy policy) s k d1 = (Inr re, d')"
          and res: "res = Some (if \<not> is_admitted_replay (free_view re) LIFETIME_FREE_RECOVERY_CREDITS
             then Blocked Reservation_In_Flight else admitted Admission_Lifetime_Free k policy)"
          by (auto elim!: act_bind_InrE)
        from durable_free_out [OF fr c(4) ok(2)] res show ?thesis
          by (cases re) (auto simp: is_admitted_replay_def is_owned_by_def intro!: admission_okI split: if_splits)
      next
        case False
        with Purchased_Replay c rest show ?thesis
          by (cases "res_status r")
            (auto simp: is_owned_by_def is_ambiguous_def is_released_def intro!: admission_okI)
      qed
    qed
  qed (use o rest in \<open>auto simp: is_owned_by_def\<close>)
qed

lemma admit_lifetime_free_ok:
  assumes run: "admit_lifetime_free S E m s k policy pc d = (Inr res, d')" and ok: "ledger_ok d" "\<And>n. env_ok (E n)"
  shows "ledger_ok d' \<and> (case res of None \<Rightarrow> True | Some x \<Rightarrow> result_ok d' s x)"
proof -
  from run obtain out d1 where out: "durable_free S (E 2) m pc s k d = (Inr out, d1)"
    and rest: "(\<lambda>out. let v = free_view out in
     if fst v = ''reserved'' \<or> is_owned_by v LIFETIME_FREE_RECOVERY_CREDITS then
       act_return (Some (if is_ambiguous v \<or> is_released v then Blocked Reservation_In_Flight
                         else admitted Admission_Lifetime_Free k policy))
     else if fst v = ''allowance-exhausted'' then act_return None
     else if fst v = ''paused'' then act_return (Some (Blocked Paused))
     else if is_owned_by v PURCHASED_RECOVERY_CREDITS then
       (if is_ambiguous v then act_return (Some (Blocked Reservation_In_Flight))
        else if is_released v then
          act_bind (purchased_reserve S (E 3) m s k None) (\<lambda>reactivated.
          act_return (Some
            (if \<not> is_admitted_replay (purchased_view reactivated) PURCHASED_RECOVERY_CREDITS
             then Blocked Reservation_In_Flight
             else admitted Admission_Purchased k policy)))
        else act_return (Some (admitted Admission_Purchased k policy)))
     else act_return (Some (Blocked Reservation_In_Flight))) out d1 = (Inr res, d')"
    unfolding admit_lifetime_free_def by (rule act_bind_InrE)
  note o = durable_free_out [OF out ok]
  show ?thesis
  proof (cases out)
    case (Free_Reserved r c)
    with o rest show ?thesis
      by (auto simp: is_owned_by_def is_ambiguous_def is_released_def intro!: admission_okI)
  next
    case (Free_Replay rk r c)
    show ?thesis
    proof (cases "c = LIFETIME_FREE_RECOVERY_CREDITS")
      case True
      with Free_Replay o rest show ?thesis
        by (auto simp: is_owned_by_def is_ambiguous_def is_released_def intro!: admission_okI replay_settled
            split: if_splits)
    next
      case False
      with Free_Replay o have c: "c = PURCHASED_RECOVERY_CREDITS" "holds_reservation d1 k s Purchased_Source r"
        "rk = replay_kind_of (res_status r)" "ledger_ok d1" by auto
      show ?thesis
      proof (cases "res_status r = RELEASED")
        case True
        with Free_Replay c rest have
          "act_bind (purchased_reserve S (E 3) m s k None) (\<lambda>reactivated.
          act_return (Some
            (if \<not> is_admitted_replay (purchased_view reactivated) PURCHASED_RECOVERY_CREDITS
             then Blocked Reservation_In_Flight
             else admitted Admission_Purchased k policy))) d1 = (Inr res, d')"
          by (simp add: is_owned_by_def is_ambiguous_def is_released_def)
        then obtain re where pr: "purchased_reserve S (E 3) m s k None d1 = (Inr re, d')"
          and res: "res = Some (if \<not> is_admitted_replay (purchased_view re) PURCHASED_RECOVERY_CREDITS
             then Blocked Reservation_In_Flight else admitted Admission_Purchased k policy)"
          by (auto elim!: act_bind_InrE)
        from purchased_reserve_method_out [OF pr c(4) ok(2)] res show ?thesis
          by (cases re) (auto simp: is_admitted_replay_def is_owned_by_def intro!: admission_okI split: if_splits)
      next
        case False
        with Free_Replay c rest show ?thesis
          by (cases "res_status r")
            (auto simp: is_owned_by_def is_ambiguous_def is_released_def intro!: admission_okI)
      qed
    qed
  qed (use o rest in \<open>auto simp: is_owned_by_def\<close>)
qed

lemma admit_durable_fallbacks_ok:
  assumes "admit_durable_fallbacks S E m s k policy pc d = (Inr res, d')" "ledger_ok d" "\<And>n. env_ok (E n)"
  shows "ledger_ok d' \<and> result_ok d' s res"
proof -
  from assms(1) obtain pu d1 where pu: "admit_purchased S E m s k policy d = (Inr pu, d1)"
    and rest: "(case pu of Some result \<Rightarrow> act_return result
     | None \<Rightarrow>
         act_bind (admit_lifetime_free S E m s k policy pc) (\<lambda>free.
         case free of Some result \<Rightarrow> act_return result | None \<Rightarrow> act_return (Blocked Capacity_Exhausted))) d1
       = (Inr res, d')"
    unfolding admit_durable_fallbacks_def by (rule act_bind_InrE)
  note o = admit_purchased_ok [OF pu assms(2,3)]
  show ?thesis
  proof (cases pu)
    case None
    with rest obtain fr where fr: "admit_lifetime_free S E m s k policy pc d1 = (Inr fr, d')"
      and res: "res = (case fr of Some r \<Rightarrow> r | None \<Rightarrow> Blocked Capacity_Exhausted)"
      by (auto elim!: act_bind_InrE split: option.splits)
    from o admit_lifetime_free_ok [OF fr _ assms(3)] res show ?thesis by (auto split: option.splits)
  qed (use o rest in auto)
qed

lemma admit_paid_or_fallback_ok:
  assumes "admit_paid_or_fallback S E m s rid att k policy d = (Inr res, d')" "ledger_ok d" "\<And>n. env_ok (E n)"
  shows "ledger_ok d' \<and> result_ok d' s res"
proof (cases "paid_in_phase policy PHASE_ACTIVE")
  case True
  with assms(1) obtain out d1 where
    out: "paid_reserve S (E 4) m s (if truthy att then k else rid) None d = (Inr out, d1)"
    and rest: "(case paid_admission out of
          Some key \<Rightarrow> act_return (admitted Admission_Paid key (Effective policy))
        | None \<Rightarrow>
            if paid_exhausted out then admit_durable_fallbacks S E m s k (Effective policy) False
            else act_return (Blocked Reservation_In_Flight)) d1 = (Inr res, d')"
    unfolding admit_paid_or_fallback_def by (auto elim: act_bind_InrE)
  note o = paid_reserve_method_out [OF out assms(2,3)]
  show ?thesis
  proof (cases out)
    case (Paid_Reserved r key p)
    with o rest show ?thesis by (auto intro!: admission_okI)
  next
    case (Paid_Replay rk r key p)
    with o rest show ?thesis by (cases "res_status r") (auto intro!: admission_okI)
  next
    case (Paid_Allowance_Exhausted n p)
    with o rest admit_durable_fallbacks_ok [OF _ _ assms(3)] show ?thesis by auto
  qed (use o in auto)
next
  case False
  with assms(1) obtain fb where fb: "admit_durable_fallbacks S E m s k (Effective policy) False d = (Inr fb, d')"
    and res: "res = (if fb = Blocked Capacity_Exhausted \<and> paid_in_phase policy PHASE_DRAINING
           then Blocked Billing_Period_Closing else fb)"
    by (auto simp: admit_paid_or_fallback_def elim!: act_bind_InrE)
  from admit_durable_fallbacks_ok [OF fb assms(2,3)] res show ?thesis by auto
qed

lemma capacity_admit_ok:
  assumes "capacity_admit S E m s rid att k policy d = (Inr res, d')" "ledger_ok d" "\<And>n. env_ok (E n)"
  shows "ledger_ok d' \<and> result_ok d' s res"
proof (cases "ep_planId policy = []")
  case True
  with assms show ?thesis by (auto simp: capacity_admit_def dest: admit_paid_or_fallback_ok)
next
  case False
  with assms(1) obtain out d1 where out: "promotional_reserve S (E 5) m s k None None d = (Inr out, d1)"
    and rest: "(case promotional_admission out of
          Some key \<Rightarrow> act_return (admitted Admission_Promotional key (Effective policy))
        | None \<Rightarrow>
            if promotional_in_flight out then act_return (Blocked Reservation_In_Flight)
            else admit_paid_or_fallback S E m s rid att k policy) d1 = (Inr res, d')"
    unfolding capacity_admit_def by (auto elim: act_bind_InrE)
  note o = promotional_reserve_method_out [OF out assms(2,3)]
  show ?thesis
  proof (cases out)
    case (Promotional_Reserved r key)
    with o rest show ?thesis by (auto intro!: admission_okI)
  next
    case (Promotional_Replay rk r key)
    with o rest show ?thesis by (cases "res_status r") (auto intro!: admission_okI)
  next
    case Promotional_Unavailable
    with o rest admit_paid_or_fallback_ok [OF _ _ assms(3)] show ?thesis by auto
  qed (use o in auto)
qed

lemma admit_ok:
  assumes "admit S E m now s rid att d = (Inr res, d')" "ledger_ok d" "\<And>n. env_ok (E n)"
  shows "ledger_ok d' \<and> result_ok d' s res"
proof (cases "resolve_policy S d s now")
  case (Inr policy)
  with assms capacity_admit_ok [OF _ assms(2,3)] show ?thesis
    by (auto simp: admit_def Let_def split: if_splits)
next
  case (Inl e)
  have pc: "ledger_ok d' \<and> result_ok d' s res"
    if "admit_post_contract S E m s k p d = (Inr res, d')" for k p
    using that assms(2) admit_durable_fallbacks_ok [OF _ assms(2,3)]
    by (auto simp: admit_post_contract_def split: if_splits)
  from assms(1,2) Inl show ?thesis
    by (auto simp: admit_def Let_def split: failure.splits error_class.splits sum.splits if_splits dest: pc)
qed

section \<open>The end of a credit\<close>

lemma free_commit_out:
  assumes "free_commit_in_transaction S e s k q d = Inr (out, d')" "ledger_ok d" "free_committed out = Some (b, r)"
  shows "find_reservation d' k = Some r"
proof (cases rule: free_commit_InrD [OF assms(1,2)])
  case (2 r0 c p)
  with assms(2,3) source_step_find [OF free.commit_step [OF assms(1,2)] assms(2)] find_by_key [OF assms(2) 2(1)]
  show ?thesis by (auto split: if_splits)
qed (use assms(3) in \<open>auto simp: free_replay_def\<close>)

lemma purchased_commit_out:
  assumes "purchased_commit_in_transaction S e s k q d = Inr (out, d')" "ledger_ok d"
    "purchased_committed out = Some (b, r)"
  shows "find_reservation d' k = Some r"
proof (cases rule: purchased_commit_InrD [OF assms(1,2)])
  case (2 r0 c l p)
  with assms(2,3) source_step_find [OF purchased.commit_step [OF assms(1,2)] assms(2)] find_by_key [OF assms(2) 2(1)]
  show ?thesis by (auto split: if_splits)
qed (use assms(3) in \<open>auto simp: purchased_replay_def\<close>)

lemma paid_commit_out:
  assumes "paid_commit_in_transaction S now occ e s k q d = Inr (out, d')" "ledger_ok d"
    "paid_committed out = Some (b, r)"
  shows "find_reservation d' k = Some r"
proof (cases rule: paid_commit_InrD [OF assms(1,2)])
  case (2 r0 c p u prov pl)
  with assms(2,3) source_step_find [OF paid.commit_step [OF assms(1,2)] assms(2)] find_by_key [OF assms(2) 2(1)]
  show ?thesis by (auto split: if_splits)
qed (use assms(3) in \<open>auto simp: paid_replay_def\<close>)

lemma promotional_commit_out:
  assumes "promotional_commit_in_transaction S now e s k q d = Inr (out, d')" "ledger_ok d"
    "promotional_committed out = Some (b, r)"
  shows "find_reservation d' k = Some r"
proof (cases rule: promotional_commit_InrD [OF assms(1,2)])
  case (2 r0 g p)
  with assms(2,3) source_step_find [OF promotional.commit_step [OF assms(1,2)] assms(2)] find_by_key [OF assms(2) 2(1)]
  show ?thesis by (auto split: if_splits)
qed (use assms(3) in \<open>auto simp: promotional_replay_def\<close>)

lemma confirm_InrD:
  assumes "confirm s k o' d = (Inr u, d')"
  shows "d' = d \<and> (\<exists>b r. o' = Some (b, r) \<and> res_status r = COMMITTED \<and> res_shopId r = s \<and> res_sourceKey r = k \<and>
    res_quantity r = 1 \<and> truthy (res_committedUsageEventId r))"
  using assms
  by (auto simp: confirm_def require_committed_outcome_def confirms_commit_def Let_def
      split: sum.splits option.splits if_splits)

text \<open>
  A commit that returns has committed exactly one credit under the admission's key, and the row of the usage event
  that records it is there. The other transactions leave the committed reservations with their usage.
\<close>

definition credit_committed :: "db \<Rightarrow> id \<Rightarrow> string \<Rightarrow> bool" where
  "credit_committed d s k \<longleftrightarrow>
     (\<exists>r e. find_reservation d k = Some r \<and> res_shopId r = s \<and> res_status r = COMMITTED \<and> res_quantity r = 1 \<and>
        e \<in> set (db_usageEvents d) \<and> res_committedUsageEventId r = Some (ue_id e) \<and> ue_id e \<noteq> [] \<and>
        ue_shopId e = s \<and> ue_quantity e = 1 \<and> ue_metric e = RECOVERY_CONVERSATION)"

definition env_records :: "db env \<Rightarrow> bool" where
  "env_records E \<longleftrightarrow> (\<forall>n s. ledger_ok s \<longrightarrow> usage_recorded s \<longrightarrow> usage_recorded (env_step E n s))"

lemma confirmed_commit:
  assumes "act_bind (validated mk quantity (\<lambda>q. with_retry E (body q) mk m)) (\<lambda>out. confirm s k (view out)) d = (Inr u, d')"
    and "ledger_ok d \<and> usage_recorded d" "env_ok E" "env_records E"
    and "\<And>q n d1 out d2 b r. body q n d1 = Inr (out, d2) \<Longrightarrow> ledger_ok d1 \<Longrightarrow> view out = Some (b, r) \<Longrightarrow>
      find_reservation d2 k = Some r"
    and "\<And>q n d1 out d2. body q n d1 = Inr (out, d2) \<Longrightarrow> ledger_ok d1 \<Longrightarrow> usage_recorded d1 \<Longrightarrow> usage_recorded d2"
  shows "usage_recorded d' \<and> credit_committed d' s k"
proof -
  from assms(1) obtain out d1 where run: "validated mk quantity (\<lambda>q. with_retry E (body q) mk m) d = (Inr out, d1)"
    and conf: "confirm s k (view out) d1 = (Inr u, d')" by (rule act_bind_InrE)
  obtain q n d0 where body: "ledger_ok d0" "usage_recorded d0" "body q n d0 = Inr (out, d1)"
    by (rule validated_InrD_invariant [where I = "\<lambda>d. ledger_ok d \<and> usage_recorded d", OF run assms(2)])
      (use assms(3,4) in \<open>auto simp: env_ok_def env_records_def\<close>)
  from confirm_InrD [OF conf] obtain b r where r: "d' = d1" "view out = Some (b, r)" "res_status r = COMMITTED"
    "res_shopId r = s" "res_quantity r = 1" "truthy (res_committedUsageEventId r)" by auto
  have rec: "usage_recorded d1" using assms(6) [OF body(3,1,2)] .
  have found: "find_reservation d1 k = Some r" using assms(5) [OF body(3,1) r(2)] .
  obtain e where "e \<in> set (db_usageEvents d1)" "recorded_by r e" by (rule usage_recordedD [OF rec found r(3)])
  with rec found r show ?thesis
    by (auto simp: credit_committed_def recorded_by_def truthy_def split: option.splits)
qed

lemma commit_admission_commits:
  assumes "commit_admission S E m a t d = (Inr u, d')" "ledger_ok d \<and> usage_recorded d" "env_ok E" "env_records E"
  shows "usage_recorded d' \<and> credit_committed d' (policy_shopId (adm_policy a)) (adm_sourceKey a)"
  using assms(1) unfolding commit_admission_def Let_def
  by (cases "adm_kind a")
    (simp_all add: free_commit_def purchased_commit_def paid_commit_def promotional_commit_def,
      (erule confirmed_commit [OF _ assms(2-4)],
        erule (2) free_commit_out purchased_commit_out paid_commit_out promotional_commit_out,
        erule (2) free.commit_recorded purchased.commit_recorded paid.commit_recorded promotional.commit_recorded)+)

text \<open>After a definitive failure the credit is not committed; after any other it is no longer open.\<close>

lemma retried_final:
  assumes "act_bind (validated mk quantity (\<lambda>q. with_retry E (body q) mk m)) (\<lambda>_. act_return ()) d = (Inr u, d')"
    and "ledger_ok d" "env_ok E" "\<And>q n d1 out d2. body q n d1 = Inr (out, d2) \<Longrightarrow> ledger_ok d1 \<Longrightarrow> P d2"
  shows "P d'"
proof -
  from assms(1) obtain out where run: "validated mk quantity (\<lambda>q. with_retry E (body q) mk m) d = (Inr out, d')"
    by (auto elim!: act_bind_InrE)
  obtain q n d0 where "ledger_ok d0" "body q n d0 = Inr (out, d')"
    by (rule validated_InrD [OF run assms(2,3)])
  with assms(4) show ?thesis by blast
qed

lemma release_admission_final:
  assumes "release_admission E m a d = (Inr u, d')" "ledger_ok d" "env_ok E"
  shows "\<exists>r. find_reservation d' (adm_sourceKey a) = Some r \<and> res_shopId r = policy_shopId (adm_policy a) \<and>
    (res_status r = RELEASED \<or> res_status r = AMBIGUOUS)"
  using assms(1) unfolding release_admission_def Let_def
  by (cases "adm_kind a")
    (simp_all add: free_release_def purchased_release_def paid_release_def promotional_release_def,
      (erule retried_final [OF _ assms(2,3)],
        erule (1) free.release_final purchased.release_final paid.release_final promotional.release_final)+)

lemma mark_admission_final:
  assumes "mark_admission_ambiguous E m a d = (Inr u, d')" "ledger_ok d" "env_ok E"
  shows "\<exists>r. find_reservation d' (adm_sourceKey a) = Some r \<and> res_shopId r = policy_shopId (adm_policy a) \<and>
    res_status r \<noteq> RESERVED"
proof -
  have marks: "\<exists>r. find_reservation d2 k = Some r \<and> res_shopId r = s \<and> res_status r \<noteq> RESERVED"
    if "\<exists>r r'. find_reservation d1 k = Some r \<and> find_reservation d2 k = Some r' \<and> res_shopId r' = s \<and>
      res_status r' = (if res_status r = RESERVED then AMBIGUOUS else res_status r)" for d1 d2 k s
    using that by auto
  from assms(1) show ?thesis
    unfolding mark_admission_ambiguous_def Let_def
    by (cases "adm_kind a")
      (simp_all add: free_mark_ambiguous_def purchased_mark_ambiguous_def paid_mark_ambiguous_def
        promotional_mark_ambiguous_def,
        (erule retried_final [OF _ assms(2,3)], rule marks,
          erule (1) free.mark_final purchased.mark_final paid.mark_final promotional.mark_final)+)
qed

end
