(* ===== verification/Example_Store.thy ===== *)
theory Example_Store
  imports Recovery_Billing
begin

text \<open>
  A small store on which the theorems are applied: one Shopify shop on a free plan with five
  lifetime credits, two purchase lots (one of them withdrawn), a promotional grant, and a paid
  period. The example environment neither interferes nor aborts.
\<close>

definition ex_shared :: shared where
  "ex_shared = \<lparr>createRecoveryIdempotencyKey = (\<lambda>s k. s @ '':'' @ k),
     createShopifyUsageIdempotencyKey = (\<lambda>s k. ''u:'' @ k),
     availablePurchasedRecoveryCredits = (\<lambda>g c r f. g - c - r - f),
     deriveShopifyProviderContextIdentity = (\<lambda>sub h s e. Some h),
     isSameShopifyPurchaseProviderContext = (\<lambda>a b. a = b),
     billingPeriodDrainWindowMs = 100,
     createMerchantBillingSystemSourceKey = (\<lambda>s c k. s @ '':'' @ c @ '':'' @ k),
     refundCompletedSystemCode = ''REFUND_COMPLETED''\<rparr>"

definition ex_env :: "db env" where
  "ex_env = \<lparr>env_step = (\<lambda>n s. s), env_abort = (\<lambda>n. None), env_now = (\<lambda>n. 10), env_ids = (\<lambda>n k. ''n'' @ show_nat (10 * n + k))\<rparr>"

definition ex_shop :: shop where
  "ex_shop = \<lparr>sh_id = ''s'', sh_platform = SHOPIFY, sh_status = SHOP_ACTIVE, sh_onboardingCompleted = True\<rparr>"

definition ex_plan :: plan where
  "ex_plan = \<lparr>pl_id = ''p'', pl_active = True, pl_kind = FREE, pl_name = ''Free'', pl_shopifyPlanHandle = ''free'',
     pl_shopifyUsageEventHandle = None, pl_recoveryCreditPackEnabled = False, pl_recoveryCreditsPerPack = None,
     pl_shopifyRecoveryCreditPackEventHandle = None, pl_includedRecoveryConversationAllowance = None,
     pl_features = [\<lparr>pf_key = ''checkout_recovery'', pf_enabled = True, pf_featureActive = True,
                     pf_activationMode = ALWAYS_ENABLED\<rparr>],
     pl_updatedAt = 0\<rparr>"

definition ex_subscription :: subscription where
  "ex_subscription = \<lparr>su_id = ''u'', su_shopId = ''s'', su_status = SUB_ACTIVE, su_planId = Some ''p'',
     su_providerSubscriptionId = None, su_observedShopifyPlanHandle = Some ''free'',
     su_currentPeriodStart = None, su_currentPeriodEnd = None, su_billingPeriodId = None,
     su_providerCoverageEndAt = None, su_lastProviderLifecycleState = None,
     su_trialEndsAt = None, su_cancelAtPeriodEnd = False, su_pendingPlanId = None,
     su_pendingShopifyPlanHandle = None, su_pendingEffectiveAt = None, su_nextReconcileAt = None,
     su_lastSyncedAt = None, su_lastSyncErrorCode = None, su_lastSyncErrorAt = None\<rparr>"

definition ex_policy :: platform_policy where
  "ex_policy = \<lparr>pp_defaultOutboundSoftLimit = 5, pp_defaultOutboundHardLimit = 10, pp_absoluteOutboundHardLimit = 20,
     pp_terminalMessageReservedSlots = 2, pp_globalPauseNewRecoveries = False,
     pp_globalPauseAutomatedWhatsapp = False, pp_lifetimeFreeRecoveryAllowance = 5, pp_version = 1\<rparr>"

definition ex_counter :: "id \<Rightarrow> shop_counter_kind \<Rightarrow> int \<Rightarrow> int \<Rightarrow> shop_counter" where
  "ex_counter i kind granted reserved =
     \<lparr>sc_id = i, sc_shopId = ''s'', sc_counter = kind, sc_grantedQuantity = granted, sc_committedQuantity = 0,
      sc_reservedQuantity = reserved, sc_refundingQuantity = 0, sc_version = 0\<rparr>"

definition ex_lot :: "id \<Rightarrow> purchase_status \<Rightarrow> int \<Rightarrow> int \<Rightarrow> time \<Rightarrow> purchase_lot" where
  "ex_lot i st amount reserved t =
     \<lparr>lot_id = i, lot_shopId = ''s'', lot_provider = SHOPIFY, lot_status = st, lot_creditsGranted = amount,
      lot_currentAmount = amount, lot_reservedAmount = reserved, lot_version = 0, lot_activatedAt = Some t,
      lot_createdAt = t, lot_providerSubscriptionIdSnapshot = None, lot_shopifyPlanHandleSnapshot = None,
      lot_billingPeriodId = None, lot_usageEventId = None, lot_providerReference = None,
      lot_providerPurchaseAmount = None, lot_providerPurchaseCurrency = None,
      lot_providerValuationConfirmedAt = None, lot_providerPriceSnapshot = None\<rparr>"

text \<open>An empty ledger with five free credits, and one with a reserved credit of a purchase of three.\<close>

definition ex_db :: db where
  "ex_db = \<lparr>db_reservations = [], db_shopCounters = [ex_counter ''f'' LIFETIME_FREE_RECOVERY_CREDITS 5 0],
     db_periodCounters = [], db_billingPeriods = [], db_grants = [], db_campaigns = [], db_selections = [],
     db_lots = [], db_refunds = [], db_usageEvents = [], db_plans = [ex_plan], db_shops = [ex_shop],
     db_subscriptions = [ex_subscription], db_platformPolicy = Some ex_policy, db_overrides = [],
     db_featurePreferences = [], db_billingOperations = [], db_billingReceipts = [], db_supportThreads = [],
     db_supportMessages = []\<rparr>"

definition ex_reservation :: reservation where
  "ex_reservation = (new_reservation ''r'' ''s'' ''k'' 1)
     \<lparr>res_counterId := Some ''c'', res_purchasedCreditPurchaseId := Some ''l''\<rparr>"

definition ex_purchased_db :: db where
  "ex_purchased_db = ex_db\<lparr>db_reservations := [ex_reservation],
     db_shopCounters := [ex_counter ''f'' LIFETIME_FREE_RECOVERY_CREDITS 5 0,
                         ex_counter ''c'' PURCHASED_RECOVERY_CREDITS 3 1],
     db_lots := [ex_lot ''l'' ACTIVE 3 1 7]\<rparr>"

lemmas ex_defs = ex_db_def ex_purchased_db_def ex_reservation_def ex_lot_def ex_counter_def new_reservation_def

lemmas ledger_defs = ledger_ok_def keys_ok_def tallies_ok_def tallied_def tally_def bounds_ok_def counter_ok_def
  lot_ok_def period_counter_ok_def grant_ok_def held_weight_def held_def spent_weight_def
  promo_spent_weight_def

lemma ex_db_ledger: "ledger_ok ex_db"
  by (simp add: ledger_defs ex_defs pool_ok_def counter_sum_def lot_sum_def purchased_counter_of_def)

lemma ex_purchased_db_owned: "owned_by ex_purchased_db Purchased_Source ex_reservation"
  by (simp add: ex_defs counter_keys_def lot_keys_def)

lemma ex_purchased_db_ledger: "ledger_ok ex_purchased_db"
proof -
  have "reservation_ok ex_purchased_db ex_reservation"
    by (intro reservation_change_ok_new [OF _ ex_purchased_db_owned, where old = None] change_ok_new [where q = 1])
      (simp_all add: ex_reservation_def new_reservation_def)
  then show ?thesis
    by (simp add: ledger_defs pool_ok_def counter_sum_def lot_sum_def purchased_counter_of_def lot_hold_def)
      (simp add: ex_defs held_weight_def held_def spent_weight_def lot_hold_def)
qed

lemma ex_env_ok [simp]: "env_ok ex_env"
  by (simp add: env_ok_def ex_env_def)


text \<open>Results are compared by their first component, so that runs evaluate without the database.\<close>

lemma run_fst: "fst p = x \<Longrightarrow> p = (x, snd p)"
  by (cases p) simp

lemma run_projr: "isl x = False \<Longrightarrow> fst (projr x) = a \<Longrightarrow> x = Inr (a, snd (projr x))"
  by (cases x) (auto simp: prod_eq_iff)

lemma run_map: "map_sum id fst x = Inr a \<Longrightarrow> \<exists>d'. x = Inr (a, d')"
  by (cases x) auto

definition ex_admission :: admission where
  "ex_admission = \<lparr>adm_kind = Admission_Purchased, adm_sourceKey = ''k'',
     adm_policy = Post_Contract \<lparr>pcp_shopId = ''s'', pcp_subscriptionId = ''u'',
       pcp_subscriptionStatus = SUB_NO_CONTRACT, pcp_newRecoveriesPaused = False,
       pcp_automatedWhatsappPaused = False, pcp_outboundSoftLimit = 5, pcp_outboundHardLimit = 10,
       pcp_terminalMessageReservedSlots = 2\<rparr>\<rparr>"

end
