(* ===== verification/Reservation_Properties.thy ===== *)
theory Reservation_Properties
  imports Example_Store
begin

text \<open>
  The properties of the reservation services and of the admission of a recovery, each applied
  to the example store.
\<close>

section \<open>Admission\<close>

text \<open>
  C1. An admission that \<open>admit\<close> returns names a reservation that exists, belongs to the shop, was
  made on the source the admission says, and holds or has spent its credit; and \<open>admit\<close> keeps the
  ledger, whatever other transactions that keep it do in between.
\<close>

theorem admit_admits_held_credit:
  assumes "admit S E maxRetries now s recoveryId attempt d = (Inr (Admitted a), d')"
    and "ledger_ok d" "\<forall>n. env_ok (E n)"
  shows "ledger_ok d' \<and> admission_ok d' s a"
  using admit_ok [OF assms(1,2)] assms(3) by simp

theorem admit_admits_held_credit_witness:
  "\<exists>a d'. admit ex_shared (\<lambda>_. ex_env) 3 10 ''s'' ''rec'' None ex_db = (Inr (Admitted a), d') \<and>
     adm_kind a = Admission_Lifetime_Free \<and> ledger_ok d' \<and> admission_ok d' ''s'' a"
proof -
  have "fst (admit ex_shared (\<lambda>_. ex_env) 3 10 ''s'' ''rec'' None ex_db)
     = Inr (admitted Admission_Lifetime_Free ''s:rec'' (Effective (projr (resolve_policy ex_shared ex_db ''s'' 10))))"
    by code_simp
  note run = run_fst [OF this, unfolded admitted_def]
  show ?thesis
    using run admit_admits_held_credit [OF run ex_db_ledger] by (intro exI conjI) (rule run, simp_all)
qed

text \<open>
  C2. When committing an admission returns, exactly one credit stands committed under the admission's key for the
  shop, and the row of the usage event it names is in the database: one recovery conversation of that shop. Any other
  end is an error. This is so for a fresh commit and for a replay, over a store in which every committed reservation
  has the usage recorded for it, which the commit keeps and the other transactions are assumed to keep.
\<close>

theorem commit_commits_one_credit:
  assumes "commit_admission S E maxRetries a t d = (Inr u, d')" "ledger_ok d" "usage_recorded d" "env_ok E" "env_records E"
  shows "usage_recorded d' \<and>
    (\<exists>r e. find_reservation d' (adm_sourceKey a) = Some r \<and> res_status r = COMMITTED \<and> res_quantity r = 1 \<and>
       res_shopId r = policy_shopId (adm_policy a) \<and>
       e \<in> set (db_usageEvents d') \<and> res_committedUsageEventId r = Some (ue_id e) \<and> ue_id e \<noteq> [] \<and>
       ue_shopId e = policy_shopId (adm_policy a) \<and> ue_quantity e = 1 \<and> ue_metric e = RECOVERY_CONVERSATION)"
  using commit_admission_commits [OF assms(1) conjI [OF assms(2,3)] assms(4,5)]
  unfolding credit_committed_def by blast

theorem commit_commits_one_credit_witness:
  "\<exists>d'. commit_admission ex_shared ex_env 3 ex_admission 10 ex_purchased_db = (Inr (), d') \<and>
     (\<exists>r e. find_reservation d' ''k'' = Some r \<and> res_status r = COMMITTED \<and> e \<in> set (db_usageEvents d') \<and>
       res_committedUsageEventId r = Some (ue_id e) \<and> ue_shopId e = ''s'' \<and> ue_quantity e = 1)"
proof -
  have "fst (commit_admission ex_shared ex_env 3 ex_admission 10 ex_purchased_db) = Inr ()"
    by code_simp
  note run = run_fst [OF this]
  have "usage_recorded ex_purchased_db" "env_records ex_env"
    by (simp_all add: usage_recorded_def ex_defs env_records_def ex_env_def)
  from commit_commits_one_credit [OF run ex_purchased_db_ledger this(1) ex_env_ok this(2)]
  obtain r e where "find_reservation (snd (commit_admission ex_shared ex_env 3 ex_admission 10 ex_purchased_db)) ''k'' = Some r"
      "res_status r = COMMITTED" "res_committedUsageEventId r = Some (ue_id e)" "ue_shopId e = ''s''" "ue_quantity e = 1"
      "e \<in> set (db_usageEvents (snd (commit_admission ex_shared ex_env 3 ex_admission 10 ex_purchased_db)))"
    by (auto simp: ex_admission_def)
  then show ?thesis using run by blast
qed

text \<open>
  C3. After a provider failure the credit is not open any more; after a definitive one it is
  released or was already ambiguous, and in no case committed.
\<close>

theorem provider_failure_disposes:
  assumes "handle_provider_failure E maxRetries a e d = (Inr disp, d')" "ledger_ok d" "env_ok E"
  shows "\<exists>r. find_reservation d' (adm_sourceKey a) = Some r \<and> res_status r \<noteq> RESERVED \<and>
    (disp = (if is_definitive_provider_failure e then Definitive else Indefinite)) \<and>
    (disp = Definitive \<longrightarrow> res_status r = RELEASED \<or> res_status r = AMBIGUOUS)"
proof -
  let ?disp = "if is_definitive_provider_failure e then Definitive else Indefinite"
  from assms(1) obtain u where run: "apply_provider_failure_disposition E maxRetries a ?disp d = (Inr u, d')"
    and disp: "disp = ?disp"
    by (auto simp: handle_provider_failure_def Let_def elim!: act_bind_InrE)
  show ?thesis
  proof (cases "is_definitive_provider_failure e")
    case True
    with run release_admission_final [OF _ assms(2,3)] disp show ?thesis
      by (force simp: apply_provider_failure_disposition_def)
  next
    case False
    with run mark_admission_final [OF _ assms(2,3)] disp show ?thesis
      by (force simp: apply_provider_failure_disposition_def)
  qed
qed

theorem provider_failure_disposes_witness:
  "\<exists>d' r. handle_provider_failure ex_env 3 ex_admission
       \<lparr>per_name = Some ''WhatsAppServiceError'', per_code = Some ''provider-rejected''\<rparr> ex_purchased_db
       = (Inr Definitive, d') \<and> find_reservation d' ''k'' = Some r \<and>
     (res_status r = RELEASED \<or> res_status r = AMBIGUOUS)"
proof -
  have "fst (handle_provider_failure ex_env 3 ex_admission
       \<lparr>per_name = Some ''WhatsAppServiceError'', per_code = Some ''provider-rejected''\<rparr> ex_purchased_db)
     = Inr Definitive"
    by code_simp
  note run = run_fst [OF this]
  from provider_failure_disposes [OF run ex_purchased_db_ledger ex_env_ok] run show ?thesis
    by (auto simp: ex_admission_def)
qed

section \<open>The sources\<close>

text \<open>
  C4. Purchased credits: of any sequence of commits, releases and ambiguity marks for one reserved
  credit, one at most takes effect. The ledger is kept throughout, and usage events are created
  exactly when the effective call is a commit, one event of the reserved quantity.
\<close>

theorem purchased_calls_once:
  assumes "ledger_ok d" "find_reservation d k = Some r" "source_of r = Purchased_Source" "res_status r = RESERVED"
  shows "let d' = after_calls (\<lambda>e. purchased_commit_in_transaction S e s k) (purchased_release_in_transaction s k)
      (purchased_mark_ambiguous_in_transaction s k) cs d in
    ledger_ok d' \<and> (d' = d \<or> (\<exists>c\<in>set cs. find_reservation d' k = Some (call_row c r) \<and>
      new_events (call_events c) r d d'))"
proof -
  have key: "source_key Purchased_Source d k" using source_key_of [OF assms(1,2)] assms(3) by simp
  show ?thesis
    unfolding Let_def
    using purchased.calls_ledger [OF assms(1) key] purchased.calls_once [OF assms(1) key assms(2,4)] by blast
qed

theorem purchased_calls_once_witness:
  "ledger_ok (after_calls (\<lambda>e. purchased_commit_in_transaction ex_shared e ''s'' ''k'')
     (purchased_release_in_transaction ''s'' ''k'') (purchased_mark_ambiguous_in_transaction ''s'' ''k'')
     [Call_Commit ''e'' 1, Call_Release 1, Call_Commit ''f'' 1] ex_purchased_db)"
proof -
  have "find_reservation ex_purchased_db ''k'' = Some ex_reservation" "source_of ex_reservation = Purchased_Source"
    "res_status ex_reservation = RESERVED" by code_simp+
  from purchased_calls_once [OF ex_purchased_db_ledger this] show ?thesis by (simp add: Let_def)
qed

text \<open>
  C5. A new reservation of purchased credits, with the documented meaning of the availability function of the shared
  package. It is made exactly when a lot of the shop can pay it: the check of the counter refuses none that could. It
  then takes its quantity from one such lot, the one that comes first, and from what the shop can spend, which stays
  non-negative; else nothing changes but that a missing counter is created, and what is reported as available is what
  the shop can spend. In both cases the counter afterwards says exactly what is left on the lots.
\<close>

theorem purchased_reserve_spends_available:
  assumes "purchased_reserve_in_transaction S i ci s k q d = Inr (out, d')" "ledger_ok d" "0 < q"
    "find_reservation d k = None" "\<forall>g c r f. availablePurchasedRecoveryCredits S g c r f = g - c - r - f"
  shows "ledger_ok d' \<and> 0 \<le> spendable_sum s (db_lots d') \<and>
    (\<exists>c\<in>set (db_shopCounters d'). purchased_counter_of s c \<and> available_credits S c = spendable_sum s (db_lots d')) \<and>
    (if \<exists>m. eligible_lot d s q m
     then \<exists>l r. eligible_lot d s q l \<and>
       (\<forall>m. eligible_lot d s q m \<longrightarrow>
          (in_current_context S (current_context S d s) l \<longrightarrow> in_current_context S (current_context S d s) m) \<and>
          (in_current_context S (current_context S d s) l = in_current_context S (current_context S d s) m \<longrightarrow>
             m = l \<or> lot_before l m)) \<and>
       out = Purchased_Reserved r PURCHASED_RECOVERY_CREDITS \<and> find_reservation d' k = Some r \<and>
       res_status r = RESERVED \<and> res_shopId r = s \<and> res_quantity r = q \<and>
       res_purchasedCreditPurchaseId r = Some (lot_id l) \<and>
       db_lots d' = update_key lot_id (lot_id l) (reserve_lot_row q) (db_lots d) \<and>
       spendable_sum s (db_lots d') = spendable_sum s (db_lots d) - q
     else out = Purchased_Credits_Exhausted (spendable_sum s (db_lots d)) \<and>
       db_lots d' = db_lots d \<and> db_reservations d' = db_reservations d)"
proof -
  have run: "purchased_reserve_new S i ci s k q d = Inr (out, d')"
    using assms(1,4) by (simp add: purchased_reserve_in_transaction_def)
  have ok': "ledger_ok d'" by (rule purchased_reserve_new_ledger [OF run assms(2,3)])
  obtain c where c: "c \<in> set (db_shopCounters d')" "purchased_counter_of s c"
    by (rule purchased_reserve_new_counter [OF run assms(2)])
  note left = available_is_spendable [OF ok' c assms(5)]
  show ?thesis
  proof (cases rule: purchased_reserve_new_spends [OF run assms(2,3,5)])
    case 1
    then show ?thesis using ok' c left by auto
  next
    case (2 l r)
    have "find_reservation d' k = Some r" using find_by_key [OF ok' 2(4)] 2(5) by simp
    moreover have "spendable_sum s (db_lots d') = spendable_sum s (db_lots d) - q"
      unfolding 2(10) by (rule spendable_sum_reserve [OF assms(2) 2(2)])
    moreover have "\<forall>m. eligible_lot d s q m \<longrightarrow>
        (in_current_context S (current_context S d s) l \<longrightarrow> in_current_context S (current_context S d s) m) \<and>
        (in_current_context S (current_context S d s) l = in_current_context S (current_context S d s) m \<longrightarrow>
           m = l \<or> lot_before l m)"
      using select_oldest_first(2,3) [OF 2(1)] by blast
    moreover have "0 \<le> spendable_sum s (db_lots d')" "available_credits S c = spendable_sum s (db_lots d')"
      using left by simp_all
    ultimately show ?thesis
      unfolding if_P [OF exI [of "eligible_lot d s q", OF 2(2)]] using ok' c 2(2,3,6-10) by blast
  qed
qed

theorem purchased_reserve_spends_available_witness:
  "\<exists>r d'. purchased_reserve_in_transaction ex_shared ''n'' ''m'' ''s'' ''k2'' 1 ex_purchased_db
       = Inr (Purchased_Reserved r PURCHASED_RECOVERY_CREDITS, d') \<and>
     find_reservation d' ''k2'' = Some r \<and> ledger_ok d' \<and>
     spendable_sum ''s'' (db_lots ex_purchased_db) = 2 \<and> spendable_sum ''s'' (db_lots d') = 1"
proof -
  let ?run = "purchased_reserve_in_transaction ex_shared ''n'' ''m'' ''s'' ''k2'' 1 ex_purchased_db"
  have "\<not> isl ?run" "find_reservation ex_purchased_db ''k2'' = None" "spendable_sum ''s'' (db_lots ex_purchased_db) = 2"
    by code_simp+
  moreover have "\<exists>m. eligible_lot ex_purchased_db ''s'' 1 m"
    by (rule exI [of _ "ex_lot ''l'' ACTIVE 3 1 7"])
      (simp add: eligible_lot_def ex_purchased_db_def ex_lot_def spendable_quantity_def)
  moreover have "\<forall>g c r f. availablePurchasedRecoveryCredits ex_shared g c r f = g - c - r - f"
    by (simp add: ex_shared_def)
  moreover obtain out d' where run: "?run = Inr (out, d')" using calculation(1) by (cases ?run) auto
  ultimately show ?thesis
    using purchased_reserve_spends_available [OF run ex_purchased_db_ledger] by auto
qed

text \<open>
  The lot that pays a purchased reservation is an active lot of the shop with enough
  unreserved credits, and comes first among those that could pay: lots bought in an earlier
  provider context before those of the current one, then the oldest. No lot is chosen exactly
  when none could pay.
\<close>

theorem oldest_spendable_lot_first:
  "case select_oldest_spendable_lot S d s q of
     None \<Rightarrow> \<not> (\<exists>m. eligible_lot d s q m)
   | Some l \<Rightarrow> eligible_lot d s q l \<and>
       (\<forall>m. eligible_lot d s q m \<longrightarrow>
         (in_current_context S (current_context S d s) l \<longrightarrow> in_current_context S (current_context S d s) m) \<and>
         (in_current_context S (current_context S d s) l = in_current_context S (current_context S d s) m \<longrightarrow>
            m = l \<or> lot_before l m))"
proof (cases "select_oldest_spendable_lot S d s q")
  case None
  then have "\<not> eligible_lot d s q m" for m
    unfolding select_oldest_spendable_lot_def Let_def find_row_None_iff
    by (auto simp: eligible_lot_def set_order_lots)
  with None show ?thesis by simp
next
  case (Some l)
  then have "eligible_lot d s q l"
    using select_oldest_spendable_lot_SomeD [OF Some] by (simp add: eligible_lot_def)
  then show ?thesis
    unfolding Some option.case
    by (intro conjI allI impI) (assumption, erule select_oldest_first [OF Some], assumption,
        erule select_oldest_first [OF Some], assumption)
qed

theorem oldest_spendable_lot_first_witness:
  "let d = ex_purchased_db\<lparr>db_lots := [ex_lot ''m'' ACTIVE 4 0 9, ex_lot ''l'' ACTIVE 3 1 7]\<rparr> in
   select_oldest_spendable_lot ex_shared d ''s'' 1 = Some (ex_lot ''l'' ACTIVE 3 1 7) \<and>
   lot_before (ex_lot ''l'' ACTIVE 3 1 7) (ex_lot ''m'' ACTIVE 4 0 9)"
proof -
  let ?d = "ex_purchased_db\<lparr>db_lots := [ex_lot ''m'' ACTIVE 4 0 9, ex_lot ''l'' ACTIVE 3 1 7]\<rparr>"
  have sel: "select_oldest_spendable_lot ex_shared ?d ''s'' 1 = Some (ex_lot ''l'' ACTIVE 3 1 7)"
    and ctx: "current_context ex_shared ?d ''s'' = None"
    by code_simp+
  have "eligible_lot ?d ''s'' 1 (ex_lot ''m'' ACTIVE 4 0 9)"
    by (simp add: eligible_lot_def ex_lot_def spendable_quantity_def)
  with oldest_spendable_lot_first [where S = ex_shared and d = ?d and s = "''s''" and q = 1] sel ctx
  show ?thesis by (simp add: in_current_context_def) (auto simp: ex_lot_def)
qed

text \<open>
  C6. Purchased credits are spent in full: a commit takes its quantity off the lot; one that
  completes the purchase leaves nothing on the lot and closes it, any other leaves the lot open
  with credits on it.
\<close>

theorem purchased_commit_settles_lot:
  assumes "purchased_commit_in_transaction S e s k q d = Inr (Purchased_Committed r', d')" "ledger_ok d"
  shows "\<exists>l l'. l \<in> set (db_lots d) \<and> l' \<in> set (db_lots d') \<and> lot_id l' = lot_id l \<and>
    res_purchasedCreditPurchaseId r' = Some (lot_id l) \<and>
    lot_currentAmount l' = lot_currentAmount l - q \<and> lot_reservedAmount l' = lot_reservedAmount l - q \<and>
    (if lot_currentAmount l' = 0 then lot_status l' = COMPLETED
     else lot_status l' = lot_status l \<and> 0 < lot_currentAmount l')"
proof (cases rule: purchased_commit_InrD [OF assms])
  case (2 r c l p)
  let ?l = "commit_lot_row q (completes_purchase q l) l"
  have q: "0 < q" using quantity_pos [OF assms(2) 2(1)] 2(5) by simp
  from lot_after_commit(1) [OF ledger_lot(3) [OF assms(2) 2(9)] 2(10) q] 2(10) ledger_lot(3) [OF assms(2) 2(9)]
  have "if lot_currentAmount ?l = 0 then lot_status ?l = COMPLETED
     else lot_status ?l = lot_status l \<and> 0 < lot_currentAmount ?l"
    by (auto simp: commit_lot_row_def completes_purchase_def lot_ok_def lot_reserved_guard_def)
  moreover have "?l \<in> set (db_lots d')" using 2(9,12) by (auto simp: set_update_key)
  ultimately show ?thesis
    using 2 by (intro exI [of _ l] exI [of _ ?l]) (auto simp: commit_lot_row_def)
qed (auto simp: purchased_replay_def)

theorem purchased_commit_settles_lot_witness:
  "\<exists>d' l'. purchased_commit_in_transaction ex_shared ''e'' ''s'' ''k'' 1 ex_purchased_db
       = Inr (Purchased_Committed (committed_row ''e'' ex_reservation), d') \<and>
     l' \<in> set (db_lots d') \<and> lot_status l' = ACTIVE \<and> lot_currentAmount l' = 2"
proof -
  have "\<not> isl (purchased_commit_in_transaction ex_shared ''e'' ''s'' ''k'' 1 ex_purchased_db)"
    "fst (projr (purchased_commit_in_transaction ex_shared ''e'' ''s'' ''k'' 1 ex_purchased_db))
     = Purchased_Committed (committed_row ''e'' ex_reservation)"
    by code_simp+
  then have run: "purchased_commit_in_transaction ex_shared ''e'' ''s'' ''k'' 1 ex_purchased_db
     = Inr (Purchased_Committed (committed_row ''e'' ex_reservation),
         snd (projr (purchased_commit_in_transaction ex_shared ''e'' ''s'' ''k'' 1 ex_purchased_db)))"
    by (intro run_projr) auto
  from purchased_commit_settles_lot [OF this ex_purchased_db_ledger] run show ?thesis
    by (force simp: ex_purchased_db_def ex_lot_def split: if_splits)
qed

end
