(* ===== verification/Delivery_Compensation.thy ===== *)
theory Delivery_Compensation
  imports Credit_Source
begin

text \<open>
  \<open>src/services/recovery-delivery-compensation/\<close>: when the provider reports that the message a
  recovery was started with cannot be delivered, the credit that paid for it is given back. The
  message leads to the outreach attempt and from there to the one reservation; a reserved credit
  is released, a committed one is corrected by a negative usage event and by the account it came
  from. \<open>src/domain/whatsapp-recipient-failure.ts\<close> says which failures count.
\<close>

section \<open>Messages, commands and attempts\<close>

datatype message_direction = INBOUND | OUTBOUND

datatype sender_type = SENDER_CUSTOMER | SENDER_AGENT | SENDER_HUMAN | SENDER_AUTOMATION

datatype message_status = MSG_PENDING | MSG_SENT | MSG_FAILED | MSG_DELIVERED | MSG_READ

datatype command_kind = HUMAN_TEXT | RECOVERY_FOLLOW_UP_TEMPLATE | OTHER_COMMAND

datatype command_state =
    CMD_DISPATCH_ADMITTED | CMD_UNKNOWN | CMD_SENT | CMD_FAILED | CMD_OTHER_STATE

datatype outreach_status =
    OUTREACH_PENDING | OUTREACH_CAPACITY_BLOCKED | OUTREACH_WAITING_FOR_RESPONSE | OUTREACH_ENGAGED
  | OUTREACH_NO_RESPONSE | OUTREACH_FAILED | OUTREACH_OTHER

record message =
  cm_id :: id
  cm_providerMessageId :: "id option"
  cm_conversationId :: id
  cm_direction :: message_direction
  cm_senderType :: sender_type
  cm_status :: message_status
  cm_providerFailureCode :: "string option"
  cm_sentAt :: "time option"
  cm_deliveredAt :: "time option"
  cm_readAt :: "time option"
  cm_failedAt :: "time option"
  cm_createdAt :: time

record conversation =
  cv_id :: id
  cv_shopId :: "id option"
  cv_checkoutRecovery :: "(id \<times> id) option" \<comment> \<open>id and shop of the recovery\<close>

record send_command =
  cmd_id :: id
  cmd_kind :: command_kind
  cmd_shopId :: id
  cmd_conversationId :: id
  cmd_outboundMessageId :: "id option"
  cmd_recoveryOutreachAttemptId :: "id option"
  cmd_state :: command_state
  cmd_failureCode :: "string option"
  cmd_completedAt :: "time option"

record outreach_attempt =
  oa_id :: id
  oa_checkoutRecoveryId :: id
  oa_outboundMessageId :: "id option"
  oa_sequence :: int
  oa_recipient :: string
  oa_status :: outreach_status
  oa_failureCode :: "string option"
  oa_closedAt :: "time option"

text \<open>What the provider has shown of a recipient of a shop; \<open>suppressUntil\<close> pauses its recoveries.\<close>

record reachability =
  rr_shopId :: id
  rr_recipient :: string
  rr_lastProviderFailureCode :: "string option"
  rr_lastFailureAt :: "time option"
  rr_lastSuccessfulAt :: "time option"
  rr_suppressUntil :: "time option"
  rr_version :: int

record delivery_db =
  dd_db :: db
  dd_messages :: "message table"
  dd_conversations :: "conversation table"
  dd_commands :: "send_command table"
  dd_attempts :: "outreach_attempt table"
  dd_reachability :: "reachability table"
  dd_suppressionDays :: "js_number option"
    \<comment> \<open>\<open>whatsappRecipientSuppressionDays\<close> of the platform policy\<close>

definition lineage_error :: "string \<Rightarrow> failure" where
  "lineage_error reason =
     Service_Error Recovery_Compensation_Lineage_Error (''Recovery delivery compensation lineage: '' @ reason)"

definition require_lineage :: "bool \<Rightarrow> string \<Rightarrow> unit result" where
  "require_lineage condition reason = require condition (lineage_error reason)"

text \<open>\<open>updateMany\<close> followed by \<open>requireLineage(updated.count === 1, reason)\<close>.\<close>

definition lineage_update ::
  "('r \<Rightarrow> bool) \<Rightarrow> ('r \<Rightarrow> 'r) \<Rightarrow> string \<Rightarrow> 'r table \<Rightarrow> 'r table result" where
  "lineage_update P f reason t =
     (let (n, t') = update_many P f t in
      and_then (require_lineage (n = 1) reason) (\<lambda>_. Inr t'))"

section \<open>The usage of the message\<close>

definition is_automated_usage :: "id \<Rightarrow> usage_event \<Rightarrow> bool" where
  "is_automated_usage messageId e \<longleftrightarrow>
     ue_sourceId e = Some messageId \<and> ue_metric e = OUTBOUND_AUTOMATED_MESSAGE"

definition read_exact_automated_usage :: "db \<Rightarrow> id \<Rightarrow> id \<Rightarrow> usage_event option result" where
  "read_exact_automated_usage d shopId messageId =
     (let matches = take 2 (filter (is_automated_usage messageId) (db_usageEvents d)) in
      and_then (require_lineage (length matches \<le> 1) ''duplicate outbound usage for message'') (\<lambda>_.
      let usage = (case matches of [] \<Rightarrow> None | u # _ \<Rightarrow> Some u) in
      and_then (require_lineage (\<forall>u\<in>set_option usage. ue_shopId u = shopId) ''outbound usage shop mismatch'') (\<lambda>_.
      Inr usage)))"

definition remove_exact_automated_usage :: "id \<Rightarrow> id \<Rightarrow> usage_event option \<Rightarrow> db \<Rightarrow> db result" where
  "remove_exact_automated_usage shopId messageId usage d =
     (case usage of
        None \<Rightarrow> Inr d
      | Some u \<Rightarrow>
          let P = (\<lambda>e. ue_id e = ue_id u \<and> ue_shopId e = shopId \<and> is_automated_usage messageId e) in
          and_then (require_lineage (count_rows P (db_usageEvents d) = 1) ''outbound usage deletion conflict'') (\<lambda>_.
          Inr (d\<lparr>db_usageEvents := filter (\<lambda>e. \<not> P e) (db_usageEvents d)\<rparr>)))"

section \<open>The reservation of an outreach attempt\<close>

type_synonym recovery_source = "reservation \<times> source_kind"

text \<open>Which source a reservation says it is of, by the columns that are set.\<close>

definition reservation_source_kind :: "reservation \<Rightarrow> source_kind result" where
  "reservation_source_kind r =
     (if truthy (res_purchasedCreditPurchaseId r) then
        and_then (require_lineage (truthy (res_counterId r) \<and>
            \<not> truthy (res_billingPeriodEntitlementCounterId r) \<and> \<not> truthy (res_promotionalCreditGrantId r))
          ''reservation has invalid purchased ownership'') (\<lambda>_. Inr Purchased_Source)
      else if truthy (res_billingPeriodEntitlementCounterId r) then
        and_then (require_lineage (\<not> truthy (res_counterId r) \<and> \<not> truthy (res_promotionalCreditGrantId r))
          ''reservation has invalid paid ownership'') (\<lambda>_. Inr Paid_Source)
      else if truthy (res_promotionalCreditGrantId r) then
        and_then (require_lineage (\<not> truthy (res_counterId r)) ''reservation has invalid promotional ownership'')
          (\<lambda>_. Inr Promotional_Source)
      else and_then (require_lineage (truthy (res_counterId r)) ''free source counter missing'')
          (\<lambda>_. Inr Free_Source))"

definition paid_key_prefix :: string where
  "paid_key_prefix = ''paid-included:''"

text \<open>
  The account checks, per source. A \<open>findUnique\<close> on a null id finds nothing; the source kind has
  made sure it is not null.
\<close>

definition find_included_counter :: "db \<Rightarrow> id option \<Rightarrow> period_counter option" where
  "find_included_counter d i =
     (case i of None \<Rightarrow> None | Some k \<Rightarrow> find_period_counter d k)"

definition find_shop_counter_by_id :: "db \<Rightarrow> id option \<Rightarrow> shop_counter option" where
  "find_shop_counter_by_id d i = (case i of None \<Rightarrow> None | Some k \<Rightarrow> find_counter d k)"

definition find_grant_by_id :: "db \<Rightarrow> id option \<Rightarrow> grant option" where
  "find_grant_by_id d i = (case i of None \<Rightarrow> None | Some k \<Rightarrow> find_grant d k)"

definition find_purchase_by_id :: "db \<Rightarrow> id option \<Rightarrow> purchase_lot option" where
  "find_purchase_by_id d i = (case i of None \<Rightarrow> None | Some k \<Rightarrow> find_row (\<lambda>l. lot_id l = k) (db_lots d))"

definition shop_counter_matches :: "db \<Rightarrow> id \<Rightarrow> shop_counter_kind \<Rightarrow> reservation \<Rightarrow> bool" where
  "shop_counter_matches d shopId kind r \<longleftrightarrow>
     (case find_shop_counter_by_id d (res_counterId r) of None \<Rightarrow> False
      | Some c \<Rightarrow> sc_shopId c = shopId \<and> sc_counter c = kind)"

fun source_accounts_match :: "db \<Rightarrow> id \<Rightarrow> string \<Rightarrow> reservation \<Rightarrow> source_kind \<Rightarrow> unit result" where
  "source_accounts_match d shopId logicalSource r Free_Source =
     and_then (require_lineage (shop_counter_matches d shopId LIFETIME_FREE_RECOVERY_CREDITS r)
       ''source-owned Shop credit counter mismatch'') (\<lambda>_.
     require_lineage (res_sourceKey r = logicalSource) ''unexpected source key'')"
| "source_accounts_match d shopId logicalSource r Purchased_Source =
     and_then (require_lineage (shop_counter_matches d shopId PURCHASED_RECOVERY_CREDITS r)
       ''source-owned Shop credit counter mismatch'') (\<lambda>_.
     and_then (require_lineage (case find_purchase_by_id d (res_purchasedCreditPurchaseId r) of None \<Rightarrow> False
         | Some l \<Rightarrow> lot_shopId l = shopId) ''purchased lot Shop mismatch'') (\<lambda>_.
     require_lineage (res_sourceKey r = logicalSource) ''unexpected source key''))"
| "source_accounts_match d shopId logicalSource r Promotional_Source =
     and_then (require_lineage (case find_grant_by_id d (res_promotionalCreditGrantId r) of None \<Rightarrow> False
         | Some g \<Rightarrow> gr_shopId g = shopId) ''promotional grant Shop mismatch'') (\<lambda>_.
     require_lineage (res_sourceKey r = logicalSource) ''unexpected source key'')"
| "source_accounts_match d shopId logicalSource r Paid_Source =
     require_lineage (case find_included_counter d (res_billingPeriodEntitlementCounterId r) of None \<Rightarrow> False
       | Some c \<Rightarrow> pc_shopId c = shopId \<and> pc_counter c = INCLUDED_RECOVERY_CREDITS \<and>
           res_sourceKey r = paid_key_prefix @ pc_billingPeriodId c @ '':'' @ logicalSource)
       ''paid included period/source mismatch''"

definition find_exact_recovery_reservation_source ::
  "shared \<Rightarrow> db \<Rightarrow> id \<Rightarrow> id \<Rightarrow> recovery_source option result" where
  "find_exact_recovery_reservation_source S d shopId outreachAttemptId =
     (let logicalSource = createRecoveryIdempotencyKey S shopId (''recovery-outreach:'' @ outreachAttemptId);
          reservations = take 2 (filter (\<lambda>r. res_sourceKey r = logicalSource \<or>
            (starts_with paid_key_prefix (res_sourceKey r) \<and> ends_with ('':'' @ logicalSource) (res_sourceKey r)))
            (db_reservations d)) in
      and_then (require_lineage (length reservations \<le> 1) ''missing or ambiguous reservation'') (\<lambda>_.
      case reservations of [] \<Rightarrow> Inr None
      | r # _ \<Rightarrow>
          and_then (require_lineage (res_shopId r = shopId \<and> res_quantity r = 1) ''reservation shop/quantity mismatch'') (\<lambda>_.
          and_then (reservation_source_kind r) (\<lambda>kind.
          and_then (source_accounts_match d shopId logicalSource r kind) (\<lambda>_.
          Inr (Some (r, kind)))))))"

section \<open>From the message to the attempt\<close>

text \<open>The match of \<open>/^recovery-outreach:([A-Za-z0-9_-]+)$/\<close>.\<close>

definition is_attempt_char :: "char \<Rightarrow> bool" where
  "is_attempt_char c \<longleftrightarrow> (let n = of_char c :: nat in
     (65 \<le> n \<and> n \<le> 90) \<or> (97 \<le> n \<and> n \<le> 122) \<or> (48 \<le> n \<and> n \<le> 57) \<or> n = 95 \<or> n = 45)"

definition match_attempt_key :: "string \<Rightarrow> id option" where
  "match_attempt_key key =
     (let p = ''recovery-outreach:''; rest = drop (length p) key in
      if starts_with p key \<and> rest \<noteq> [] \<and> list_all is_attempt_char rest then Some rest else None)"

definition find_conversation :: "delivery_db \<Rightarrow> id \<Rightarrow> conversation option" where
  "find_conversation D i = find_row (\<lambda>c. cv_id c = i) (dd_conversations D)"

definition find_attempt :: "delivery_db \<Rightarrow> id \<Rightarrow> outreach_attempt option" where
  "find_attempt D i = find_row (\<lambda>a. oa_id a = i) (dd_attempts D)"

definition find_attempt_of_message :: "delivery_db \<Rightarrow> id \<Rightarrow> outreach_attempt option" where
  "find_attempt_of_message D messageId =
     find_row (\<lambda>a. oa_outboundMessageId a = Some messageId) (dd_attempts D)"

definition find_command_of_message :: "delivery_db \<Rightarrow> id \<Rightarrow> send_command option" where
  "find_command_of_message D messageId =
     find_row (\<lambda>c. cmd_outboundMessageId c = Some messageId) (dd_commands D)"

text \<open>
  The attempt the sender of the message names: outer \<open>None\<close> when the message cannot have used a
  recovery credit.
\<close>

definition named_attempt ::
  "message \<Rightarrow> send_command option \<Rightarrow> usage_event option \<Rightarrow> id option option result" where
  "named_attempt m command usage =
     (case cm_senderType m of
        SENDER_HUMAN \<Rightarrow>
          (case command of None \<Rightarrow> Inr None
           | Some c \<Rightarrow>
               if cmd_kind c = HUMAN_TEXT then Inr None
               else and_then (require_lineage (cmd_kind c = RECOVERY_FOLLOW_UP_TEMPLATE \<and>
                   truthy (cmd_recoveryOutreachAttemptId c)) ''human recovery-template attempt missing'')
                 (\<lambda>_. Inr (Some (cmd_recoveryOutreachAttemptId c))))
      | SENDER_AUTOMATION \<Rightarrow>
          and_then (require_lineage (command = None) ''automated recovery has a human command'') (\<lambda>_.
          Inr (Some (case usage of
              Some u \<Rightarrow> if ue_sourceType u = Some ''OUTBOUND_AUTOMATED_MESSAGE''
                        then match_attempt_key (ue_idempotencyKey u) else None
            | None \<Rightarrow> None)))
      | _ \<Rightarrow> Inr None)"

definition attempt_identity ::
  "delivery_db \<Rightarrow> message \<Rightarrow> id option \<Rightarrow> id option result" where
  "attempt_identity D m attemptId =
     (case find_attempt_of_message D (cm_id m) of
        None \<Rightarrow> Inr attemptId
      | Some a \<Rightarrow>
          and_then (require_lineage (\<not> truthy attemptId \<or> attemptId = Some (oa_id a)) ''conflicting attempt identity'')
            (\<lambda>_. Inr (Some (oa_id a))))"

definition check_attempt ::
  "message \<Rightarrow> id \<Rightarrow> send_command option \<Rightarrow> usage_event option \<Rightarrow> outreach_attempt option \<Rightarrow> outreach_attempt result" where
  "check_attempt m recoveryId command usage attempt =
     (let mismatch = ''attempt/recovery/message mismatch'' in
      case attempt of None \<Rightarrow> Inl (lineage_error mismatch)
      | Some a \<Rightarrow>
          and_then (require_lineage (oa_checkoutRecoveryId a = recoveryId \<and>
              (oa_sequence a = 1 \<or> oa_sequence a = 2) \<and>
              (\<not> truthy (oa_outboundMessageId a) \<or> oa_outboundMessageId a = Some (cm_id m))) mismatch) (\<lambda>_.
          and_then (require_lineage (cm_senderType m = SENDER_HUMAN \<longrightarrow>
              oa_sequence a = 2 \<and> (\<exists>c\<in>set_option command. cmd_recoveryOutreachAttemptId c = Some (oa_id a)))
            ''human follow-up is not sequence two'') (\<lambda>_.
          and_then (require_lineage (cm_senderType m = SENDER_AUTOMATION \<and> oa_outboundMessageId a = None \<longrightarrow>
              (\<exists>u\<in>set_option usage. ue_idempotencyKey u = ''recovery-outreach:'' @ oa_id a))
            ''unlinked automated recovery message'') (\<lambda>_.
          Inr a))))"

text \<open>The reservation of the attempt a message names, with the attempt the message is linked to.\<close>

definition attempt_source ::
  "shared \<Rightarrow> delivery_db \<Rightarrow> message \<Rightarrow> id \<Rightarrow> send_command option \<Rightarrow> id \<Rightarrow> usage_event option \<Rightarrow> id option \<Rightarrow>
     recovery_source option result" where
  "attempt_source S D m recoveryId command shopId usage named =
     and_then (attempt_identity D m named) (\<lambda>attemptId.
     if \<not> truthy attemptId then Inr None
     else
       and_then (check_attempt m recoveryId command usage (find_attempt D (the attemptId))) (\<lambda>a.
       and_then (find_exact_recovery_reservation_source S (dd_db D) shopId (oa_id a)) (\<lambda>source.
       and_then (require_lineage (source \<noteq> None) ''missing or ambiguous reservation'') (\<lambda>_.
       Inr source))))"

definition resolve_exact_recovery_source ::
  "shared \<Rightarrow> delivery_db \<Rightarrow> message \<Rightarrow> (id \<times> id) option \<Rightarrow> id \<Rightarrow> usage_event option \<Rightarrow> recovery_source option result" where
  "resolve_exact_recovery_source S D m recovery shopId usage =
     (case recovery of None \<Rightarrow> Inr None
      | Some (recoveryId, recoveryShop) \<Rightarrow>
          and_then (require_lineage (recoveryShop = shopId) ''conversation/recovery shop mismatch'') (\<lambda>_.
          let command = find_command_of_message D (cm_id m) in
          and_then (require_lineage (\<forall>c\<in>set_option command.
              cmd_shopId c = shopId \<and> cmd_conversationId c = cm_conversationId m)
            ''merchant command shop/conversation mismatch'') (\<lambda>_.
          and_then (named_attempt m command usage) (\<lambda>named.
          case named of None \<Rightarrow> Inr None
          | Some attemptId \<Rightarrow> attempt_source S D m recoveryId command shopId usage attemptId))))"

section \<open>Correcting a committed credit\<close>

definition source_type_of :: "source_kind \<Rightarrow> string" where
  "source_type_of kind = (case kind of
      Free_Source \<Rightarrow> ''FREE_RECOVERY_RESERVATION''
    | Paid_Source \<Rightarrow> ''PAID_RECOVERY_CONVERSATION''
    | Promotional_Source \<Rightarrow> ''PROMOTIONAL_RECOVERY_CREDITS''
    | Purchased_Source \<Rightarrow> ''PURCHASED_RECOVERY_CREDITS'')"

definition find_usage_event :: "db \<Rightarrow> id option \<Rightarrow> usage_event option" where
  "find_usage_event d i = (case i of None \<Rightarrow> None | Some k \<Rightarrow> find_row (\<lambda>e. ue_id e = k) (db_usageEvents d))"

text \<open>The usage event an uncorrected commit of the reservation must have left.\<close>

definition is_source_usage :: "shared \<Rightarrow> recovery_source \<Rightarrow> usage_event \<Rightarrow> bool" where
  "is_source_usage S source e \<longleftrightarrow> (case source of (r, kind) \<Rightarrow>
     ue_shopId e = res_shopId r \<and> ue_metric e = RECOVERY_CONVERSATION \<and>
     ue_sourceType e = Some (source_type_of kind) \<and>
     ue_sourceId e = Some (if kind = Paid_Source then res_sourceKey r else res_id r) \<and>
     ue_idempotencyKey e = createRecoveryIdempotencyKey S (res_shopId r) (res_sourceKey r) \<and>
     ue_quantity e = res_quantity r \<and> \<not> truthy (ue_correctionOfUsageEventId e) \<and>
     (ue_provider e = SHOPIFY \<or> ue_provider e = WOOCOMMERCE))"

definition corrections_of :: "id \<Rightarrow> usage_event \<Rightarrow> bool" where
  "corrections_of i e \<longleftrightarrow> ue_correctionOfUsageEventId e = Some i"

definition read_committed_recovery_usage :: "shared \<Rightarrow> db \<Rightarrow> recovery_source \<Rightarrow> usage_event result" where
  "read_committed_recovery_usage S d source =
     (let r = fst source; mismatch = lineage_error ''committed credit/usage lineage mismatch'' in
      and_then (require_lineage (truthy (res_committedUsageEventId r)) ''committed source usage event missing'') (\<lambda>_.
      and_then (expect (find_usage_event d (res_committedUsageEventId r)) mismatch) (\<lambda>original.
      and_then (require (is_source_usage S source original) mismatch) (\<lambda>_.
      and_then (require_lineage (count_rows (corrections_of (ue_id original)) (db_usageEvents d) = 0)
        ''source already has an unrelated correction'') (\<lambda>_.
      Inr original)))))"

definition compensation_reason :: string where
  "compensation_reason = ''WHATSAPP_RECIPIENT_UNDELIVERABLE''"

definition correction_event :: "id \<Rightarrow> time \<Rightarrow> reservation \<Rightarrow> usage_event \<Rightarrow> usage_event" where
  "correction_event eventId now r original =
     \<lparr>ue_id = eventId, ue_shopId = ue_shopId original, ue_billingPeriodId = ue_billingPeriodId original,
      ue_metric = RECOVERY_CONVERSATION, ue_quantity = - res_quantity r,
      ue_idempotencyKey = ''arch028-undelivered:'' @ res_id r,
      ue_correctionOfUsageEventId = Some (ue_id original),
      ue_sourceType = Some ''RECOVERY_UNDELIVERABLE_COMPENSATION'', ue_sourceId = Some (res_id r),
      ue_occurredAt = Some now, ue_provider = ue_provider original,
      ue_shopifyReportState = REPORT_NOT_APPLICABLE, ue_shopifyEventHandle = None,
      ue_shopifyIdempotencyKey = None, ue_nextReportAt = None, ue_lastReportAttemptAt = None,
      ue_reportedAt = None, ue_providerErrorCode = None, ue_providerResponseSummary = None\<rparr>"

definition compensated_row :: "id \<Rightarrow> time \<Rightarrow> compensation_disposition \<Rightarrow> reservation \<Rightarrow> reservation" where
  "compensated_row eventId now disposition r =
     r\<lparr>res_compensationUsageEventId := Some eventId, res_compensationReason := Some compensation_reason,
       res_compensationDisposition := Some disposition, res_compensatedAt := Some now\<rparr>"

definition compensable :: "reservation \<Rightarrow> usage_event \<Rightarrow> reservation \<Rightarrow> bool" where
  "compensable r original x \<longleftrightarrow>
     res_shopId x = res_shopId r \<and> res_status x = COMMITTED \<and>
     res_committedUsageEventId x = Some (ue_id original) \<and> res_compensationUsageEventId x = None \<and>
     res_compensationReason x = None \<and> res_compensationDisposition x = None \<and> res_compensatedAt x = None"

definition record_committed_recovery_correction ::
  "id \<Rightarrow> recovery_source \<Rightarrow> usage_event \<Rightarrow> compensation_disposition \<Rightarrow> time \<Rightarrow> db \<Rightarrow> db result" where
  "record_committed_recovery_correction eventId source original disposition now d =
     (let r = fst source in
      and_then (create_usage_event (correction_event eventId now r original) d) (\<lambda>(correction, d1).
      and_then (lineage_update (\<lambda>x. res_id x = res_id r \<and> compensable r original x)
          (compensated_row (ue_id correction) now disposition)
          ''reservation compensation conflict'' (db_reservations d1)) (\<lambda>rs.
      Inr (d1\<lparr>db_reservations := rs\<rparr>))))"

text \<open>What a previous compensation must have left behind; its disposition is the outcome of a replay.\<close>

definition is_correction_of :: "reservation \<Rightarrow> usage_event \<Rightarrow> usage_event \<Rightarrow> bool" where
  "is_correction_of r original negative \<longleftrightarrow>
     ue_shopId negative = ue_shopId original \<and> ue_provider negative = ue_provider original \<and>
     ue_shopId negative = res_shopId r \<and> ue_metric negative = RECOVERY_CONVERSATION \<and>
     ue_quantity negative = - res_quantity r \<and>
     ue_correctionOfUsageEventId negative = Some (ue_id original) \<and>
     ue_idempotencyKey negative = ''arch028-undelivered:'' @ res_id r \<and>
     ue_sourceType negative = Some ''RECOVERY_UNDELIVERABLE_COMPENSATION'' \<and>
     ue_sourceId negative = Some (res_id r) \<and>
     ue_shopifyReportState negative = REPORT_NOT_APPLICABLE \<and>
     \<not> truthy (ue_shopifyIdempotencyKey negative) \<and> \<not> truthy (ue_shopifyEventHandle negative) \<and>
     ue_nextReportAt negative = None \<and> ue_lastReportAttemptAt negative = None \<and>
     ue_reportedAt negative = None \<and>
     res_compensationReason r = Some compensation_reason \<and> res_compensatedAt r \<noteq> None"

definition read_committed_correction_replay :: "db \<Rightarrow> recovery_source \<Rightarrow> compensation_disposition result" where
  "read_committed_correction_replay d source =
     (let r = fst source; invalid = lineage_error ''invalid previous compensation evidence'' in
      and_then (require_lineage (truthy (res_compensationUsageEventId r) \<and> truthy (res_committedUsageEventId r))
        ''missing compensation reference'') (\<lambda>_.
      and_then (expect (find_usage_event d (res_committedUsageEventId r)) invalid) (\<lambda>original.
      and_then (expect (find_usage_event d (res_compensationUsageEventId r)) invalid) (\<lambda>negative.
      and_then (require (is_correction_of r original negative) invalid) (\<lambda>_.
      expect (res_compensationDisposition r) (lineage_error ''invalid previous compensation disposition''))))))"

section \<open>The accounts\<close>

definition restored_counter :: "int \<Rightarrow> shop_counter \<Rightarrow> shop_counter" where
  "restored_counter q c = c\<lparr>sc_committedQuantity := sc_committedQuantity c - q, sc_version := sc_version c + 1\<rparr>"

definition correct_free_counter :: "reservation \<Rightarrow> db \<Rightarrow> (compensation_disposition \<times> db) result" where
  "correct_free_counter r d =
     (let q = res_quantity r; mismatch = lineage_error ''free credit counter mismatch'' in
      and_then (expect (find_shop_counter_by_id d (res_counterId r)) mismatch) (\<lambda>c.
      and_then (require (sc_shopId c = res_shopId r \<and> sc_counter c = LIFETIME_FREE_RECOVERY_CREDITS) mismatch) (\<lambda>_.
      and_then (lineage_update (\<lambda>x. sc_id x = sc_id c \<and> (sc_version x = sc_version c \<and> q \<le> sc_committedQuantity x))
          (restored_counter q) ''free credit counter correction conflict'' (db_shopCounters d)) (\<lambda>cs.
      Inr (RESTORED_SPENDABLE, d\<lparr>db_shopCounters := cs\<rparr>)))))"

text \<open>Whether the period of a counter is the open current period of the shop's subscription.\<close>

definition period_spendable :: "db \<Rightarrow> id \<Rightarrow> time \<Rightarrow> billing_period \<Rightarrow> bool" where
  "period_spendable d shopId now p \<longleftrightarrow>
     bp_status p = OPEN \<and> now < bp_periodEnd p \<and>
     (case find_row (\<lambda>u. su_shopId u = shopId) (db_subscriptions d) of
        None \<Rightarrow> False
      | Some u \<Rightarrow> su_billingPeriodId u = Some (bp_id p) \<and> su_id u = bp_subscriptionId p \<and>
          su_currentPeriodStart u = Some (bp_periodStart p) \<and> su_currentPeriodEnd u = Some (bp_periodEnd p))"

definition corrected_period_counter :: "int \<Rightarrow> bool \<Rightarrow> period_counter \<Rightarrow> period_counter" where
  "corrected_period_counter q spendable c =
     c\<lparr>pc_committedQuantity := pc_committedQuantity c - q,
       pc_forfeitedQuantity := (if spendable then pc_forfeitedQuantity c else pc_forfeitedQuantity c + q),
       pc_version := pc_version c + 1\<rparr>"

definition correct_paid_counter ::
  "id option \<Rightarrow> time \<Rightarrow> reservation \<Rightarrow> db \<Rightarrow> (compensation_disposition \<times> db) result" where
  "correct_paid_counter originalPeriodId now r d =
     (let q = res_quantity r; mismatch = lineage_error ''paid credit counter/period mismatch'' in
      and_then (expect (find_included_counter d (res_billingPeriodEntitlementCounterId r)) mismatch) (\<lambda>c.
      and_then (expect (find_row (\<lambda>p. bp_id p = pc_billingPeriodId c) (db_billingPeriods d)) mismatch) (\<lambda>period.
      and_then (require (pc_shopId c = res_shopId r \<and> Some (pc_billingPeriodId c) = originalPeriodId \<and>
          pc_counter c = INCLUDED_RECOVERY_CREDITS \<and> bp_shopId period = res_shopId r) mismatch) (\<lambda>_.
      let spendable = period_spendable d (res_shopId r) now period in
      and_then (lineage_update (\<lambda>x. pc_id x = pc_id c \<and> (pc_version x = pc_version c \<and> q \<le> pc_committedQuantity x))
          (corrected_period_counter q spendable) ''paid credit counter correction conflict'' (db_periodCounters d)) (\<lambda>cs.
      Inr (if spendable then RESTORED_SPENDABLE else HISTORICAL_ONLY, d\<lparr>db_periodCounters := cs\<rparr>))))))"

definition restored_grant :: "int \<Rightarrow> grant \<Rightarrow> grant" where
  "restored_grant q g = g\<lparr>gr_committedQuantity := gr_committedQuantity g - q, gr_exhaustedAt := None,
     gr_version := gr_version g + 1\<rparr>"

text \<open>The campaign of a grant runs from its start up to, but not at, its expiry.\<close>

definition campaign_spendable :: "time \<Rightarrow> campaign \<Rightarrow> bool" where
  "campaign_spendable now c \<longleftrightarrow> ca_status c = CAMPAIGN_ACTIVE \<and> ca_startsAt c \<le> now \<and> now < ca_expiresAt c"

definition correct_promotional_grant ::
  "time \<Rightarrow> reservation \<Rightarrow> db \<Rightarrow> (compensation_disposition \<times> db) result" where
  "correct_promotional_grant now r d =
     (let q = res_quantity r; mismatch = lineage_error ''promotional grant mismatch'' in
      and_then (expect (find_grant_by_id d (res_promotionalCreditGrantId r)) mismatch) (\<lambda>g.
      and_then (expect (find_row (\<lambda>c. ca_id c = gr_campaignId g) (db_campaigns d)) mismatch) (\<lambda>campaign.
      and_then (require (gr_shopId g = res_shopId r \<and> gr_campaignId g = ca_id campaign) mismatch) (\<lambda>_.
      if \<not> campaign_spendable now campaign then Inr (HISTORICAL_ONLY, d)
      else
        and_then (lineage_update (\<lambda>x. gr_id x = gr_id g \<and> (gr_version x = gr_version g \<and> q \<le> gr_committedQuantity x))
            (restored_grant q) ''promotional grant counter correction conflict'' (db_grants d)) (\<lambda>gs.
        Inr (RESTORED_SPENDABLE, d\<lparr>db_grants := gs\<rparr>))))))"

definition correct_committed_counter ::
  "recovery_source \<Rightarrow> time \<Rightarrow> id option \<Rightarrow> db \<Rightarrow> (compensation_disposition \<times> db) result" where
  "correct_committed_counter source now originalPeriodId d =
     (case source of (r, kind) \<Rightarrow>
        (case kind of
           Free_Source \<Rightarrow> correct_free_counter r d
         | Paid_Source \<Rightarrow> correct_paid_counter originalPeriodId now r d
         | Promotional_Source \<Rightarrow> correct_promotional_grant now r d
         | Purchased_Source \<Rightarrow> Inl (lineage_error ''purchased credit is not a generic correction'')))"

section \<open>Purchased credits\<close>

definition is_live_refund :: "refund_status \<Rightarrow> bool" where
  "is_live_refund s \<longleftrightarrow> s = REFUND_REQUESTED \<or> s = REFUND_PROVIDER_ACTION_REQUIRED \<or> s = REFUND_NEEDS_ATTENTION"

definition lot_coherent :: "purchase_lot \<Rightarrow> bool" where
  "lot_coherent l \<longleftrightarrow> is_safe_int (lot_creditsGranted l) \<and> 0 < lot_creditsGranted l \<and>
     is_safe_int (lot_currentAmount l) \<and> 0 \<le> lot_currentAmount l \<and>
     is_safe_int (lot_reservedAmount l) \<and> 0 \<le> lot_reservedAmount l \<and>
     lot_reservedAmount l \<le> lot_currentAmount l \<and> lot_currentAmount l \<le> lot_creditsGranted l"

definition refund_is_final :: "refund \<Rightarrow> bool" where
  "refund_is_final f \<longleftrightarrow> rf_status f = REFUND_COMPLETED \<and> rf_completedAt f \<noteq> None \<and>
     rf_providerConfirmedAt f \<noteq> None \<and> (\<exists>n\<in>set_option (rf_finalCreditQuantity f). 0 < n)"

definition classify_purchased_credit_state ::
  "purchase_lot \<Rightarrow> refund list \<Rightarrow> compensation_disposition result" where
  "classify_purchased_credit_state l refunds =
     and_then (require_lineage (length refunds \<le> 1) ''purchased lot has ambiguous refund history'') (\<lambda>_.
     let refund = (case refunds of [] \<Rightarrow> None | f # _ \<Rightarrow> Some f) in
     and_then (require_lineage (\<forall>f\<in>set_option refund. rf_shopId f = lot_shopId l \<and> rf_purchaseId f = lot_id l \<and>
         rf_provider f = lot_provider l) ''purchased lot/refund owner mismatch'') (\<lambda>_.
     and_then (require_lineage (lot_coherent l) ''purchased lot has incoherent quantities'') (\<lambda>_.
     if lot_status l = REFUNDED then
       and_then (require_lineage ((\<exists>f\<in>set_option refund. refund_is_final f) \<and>
           lot_currentAmount l = 0 \<and> lot_reservedAmount l = 0)
         ''provider-refunded purchase has no terminal refund evidence'') (\<lambda>_. Inr HISTORICAL_ONLY)
     else if lot_status l = WITHDRAWN then
       and_then (require_lineage (\<exists>f\<in>set_option refund. is_live_refund (rf_status f))
         ''withdrawn purchased lot has no live refund hold'') (\<lambda>_. Inr HELD_FOR_REFUND)
     else
       and_then (require_lineage
           ((lot_status l = ACTIVE \<and> 0 < lot_currentAmount l \<or>
             lot_status l = COMPLETED \<and> lot_currentAmount l = 0 \<and> lot_reservedAmount l = 0) \<and>
            (\<forall>f\<in>set_option refund. rf_status f = REFUND_REJECTED \<or> rf_status f = REFUND_CANCELLED))
         ''purchased lot has incompatible refund state'') (\<lambda>_. Inr RESTORED_SPENDABLE))))"

definition corrected_lot :: "int \<Rightarrow> compensation_disposition \<Rightarrow> purchase_lot \<Rightarrow> purchase_lot" where
  "corrected_lot q disposition l =
     l\<lparr>lot_currentAmount := lot_currentAmount l + q,
       lot_status := (if disposition = RESTORED_SPENDABLE then ACTIVE else lot_status l),
       lot_version := lot_version l + 1\<rparr>"

definition lot_correctable :: "id \<Rightarrow> compensation_disposition \<Rightarrow> purchase_lot \<Rightarrow> purchase_lot \<Rightarrow> bool" where
  "lot_correctable shopId disposition l x \<longleftrightarrow>
     lot_shopId x = shopId \<and> lot_version x = lot_version l \<and>
     (if disposition = HELD_FOR_REFUND then lot_status x = WITHDRAWN
      else lot_status x = ACTIVE \<or> lot_status x = COMPLETED) \<and>
     lot_currentAmount x = lot_currentAmount l \<and> lot_reservedAmount x = lot_reservedAmount l"

definition corrected_counter :: "int \<Rightarrow> compensation_disposition \<Rightarrow> shop_counter \<Rightarrow> shop_counter" where
  "corrected_counter q disposition c =
     c\<lparr>sc_committedQuantity := sc_committedQuantity c - q,
       sc_grantedQuantity := (if disposition = HISTORICAL_ONLY then sc_grantedQuantity c - q else sc_grantedQuantity c),
       sc_refundingQuantity := (if disposition = HELD_FOR_REFUND then sc_refundingQuantity c + q else sc_refundingQuantity c),
       sc_version := sc_version c + 1\<rparr>"

text \<open>A refund whose monetary evidence is frozen goes to an operator.\<close>

definition refund_frozen :: "refund \<Rightarrow> bool" where
  "refund_frozen f \<longleftrightarrow> rf_status f = REFUND_PROVIDER_ACTION_REQUIRED \<or>
     (rf_status f = REFUND_REQUESTED \<and>
        (rf_finalCreditQuantity f \<noteq> None \<or> rf_automaticCorrectionUsageEventId f \<noteq> None))"

definition frozen_refund_reason :: string where
  "frozen_refund_reason = ''ARCH028_DELIVERY_CORRECTION_REQUIRES_REFUND_REVIEW''"

definition review_refund ::
  "id \<Rightarrow> compensation_disposition \<Rightarrow> refund option \<Rightarrow> db \<Rightarrow> db result" where
  "review_refund shopId disposition refund d =
     (case refund of
        None \<Rightarrow> Inr d
      | Some f \<Rightarrow>
          if disposition = HELD_FOR_REFUND \<and> refund_frozen f then
            and_then (lineage_update (\<lambda>x. rf_id x = rf_id f \<and> (rf_shopId x = shopId \<and> rf_version x = rf_version f \<and>
                rf_status x = rf_status f))
                (\<lambda>x. x\<lparr>rf_status := REFUND_NEEDS_ATTENTION, rf_reason := Some frozen_refund_reason,
                        rf_version := rf_version x + 1\<rparr>)
                ''purchased refund review fence conflict'' (db_refunds d)) (\<lambda>fs.
            Inr (d\<lparr>db_refunds := fs\<rparr>))
          else Inr d)"

definition compensate_purchased_source ::
  "shared \<Rightarrow> id \<Rightarrow> recovery_source \<Rightarrow> time \<Rightarrow> db \<Rightarrow> (compensation_disposition \<times> db) result" where
  "compensate_purchased_source S eventId source now d =
     (let r = fst source; q = res_quantity r; mismatch = lineage_error ''purchased usage/lot/counter lineage mismatch'' in
      and_then (require_lineage (snd source = Purchased_Source \<and> truthy (res_counterId r) \<and>
          truthy (res_purchasedCreditPurchaseId r)) ''purchased compensation lacks source identity'') (\<lambda>_.
      and_then (read_committed_recovery_usage S d source) (\<lambda>original.
      let refunds = take 2 (filter (\<lambda>f. Some (rf_purchaseId f) = res_purchasedCreditPurchaseId r) (db_refunds d)) in
      and_then (expect (find_purchase_by_id d (res_purchasedCreditPurchaseId r)) mismatch) (\<lambda>l.
      and_then (expect (find_shop_counter_by_id d (res_counterId r)) mismatch) (\<lambda>c.
      and_then (require (lot_shopId l = res_shopId r \<and> sc_shopId c = res_shopId r \<and>
          sc_counter c = PURCHASED_RECOVERY_CREDITS \<and> lot_provider l = ue_provider original \<and>
          is_safe_int (sc_committedQuantity c) \<and> q \<le> sc_committedQuantity c \<and>
          lot_currentAmount l + q \<le> lot_creditsGranted l) mismatch) (\<lambda>_.
      and_then (classify_purchased_credit_state l refunds) (\<lambda>disposition.
      let refund = (case refunds of [] \<Rightarrow> None | f # _ \<Rightarrow> Some f) in
      and_then (require_lineage (disposition = HELD_FOR_REFUND \<longrightarrow>
          (\<exists>f\<in>set_option refund. is_live_refund (rf_status f)) \<and>
          lot_currentAmount l - lot_reservedAmount l \<le> sc_refundingQuantity c)
        ''purchased refund hold does not cover the current lot'') (\<lambda>_.
      and_then (if disposition = HISTORICAL_ONLY then Inr (db_lots d)
                else lineage_update (\<lambda>x. lot_id x = lot_id l \<and> lot_correctable (res_shopId r) disposition l x)
                       (corrected_lot q disposition) ''purchased lot correction conflict'' (db_lots d)) (\<lambda>lots.
      and_then (lineage_update (\<lambda>x. sc_id x = sc_id c \<and> (sc_shopId x = res_shopId r \<and> sc_version x = sc_version c \<and>
            q \<le> sc_committedQuantity x \<and> (disposition = HISTORICAL_ONLY \<longrightarrow> q \<le> sc_grantedQuantity x)))
          (corrected_counter q disposition) ''purchased counter correction conflict'' (db_shopCounters d)) (\<lambda>cs.
      and_then (review_refund (res_shopId r) disposition refund (d\<lparr>db_lots := lots, db_shopCounters := cs\<rparr>)) (\<lambda>d1.
      and_then (record_committed_recovery_correction eventId source original disposition now d1) (\<lambda>d2.
      Inr (disposition, d2)))))))))))))"

definition compensate_committed_source ::
  "shared \<Rightarrow> id \<Rightarrow> recovery_source \<Rightarrow> time \<Rightarrow> db \<Rightarrow> (compensation_disposition \<times> db) result" where
  "compensate_committed_source S eventId source now d =
     (let r = fst source in
      if truthy (res_compensationUsageEventId r) then
        and_then (read_committed_correction_replay d source) (\<lambda>disposition. Inr (disposition, d))
      else
        and_then (require_lineage (\<not> truthy (res_compensationReason r) \<and> res_compensationDisposition r = None \<and>
            res_compensatedAt r = None) ''partial compensation provenance'') (\<lambda>_.
        if snd source = Purchased_Source then compensate_purchased_source S eventId source now d
        else
          and_then (read_committed_recovery_usage S d source) (\<lambda>original.
          and_then (correct_committed_counter source now (ue_billingPeriodId original) d) (\<lambda>(disposition, d1).
          and_then (record_committed_recovery_correction eventId source original disposition now d1) (\<lambda>d2.
          Inr (disposition, d2))))))"

section \<open>Reconciliation of a failed message\<close>

datatype compensation_outcome =
    Not_Terminal | Not_Recovery | Released_Credit | Already_Released | Purchased_Compensation_Required
  | Compensated compensation_disposition

text \<open>Releases go to the service that owns the reservation; only a fresh release is accepted.\<close>

definition release_reserved_source :: "recovery_source \<Rightarrow> db \<Rightarrow> db result" where
  "release_reserved_source source d =
     (let r = fst source; s = res_shopId r; k = res_sourceKey r; q = Some (JsInt (res_quantity r)) in
      and_then (case snd source of
          Free_Source \<Rightarrow> and_then (free_release_in_existing_transaction s k q d)
            (\<lambda>(out, d'). Inr ((case out of Free_Released _ \<Rightarrow> True | _ \<Rightarrow> False), d'))
        | Paid_Source \<Rightarrow> and_then (paid_release_in_existing_transaction s k q d)
            (\<lambda>(out, d'). Inr ((case out of Paid_Released _ \<Rightarrow> True | _ \<Rightarrow> False), d'))
        | Promotional_Source \<Rightarrow> and_then (promotional_release_in_existing_transaction s k q d)
            (\<lambda>(out, d'). Inr ((case out of Promotional_Released _ _ \<Rightarrow> True | _ \<Rightarrow> False), d'))
        | Purchased_Source \<Rightarrow> and_then (purchased_release_in_existing_transaction s k q d)
            (\<lambda>(out, d'). Inr ((case out of Purchased_Released _ \<Rightarrow> True | _ \<Rightarrow> False), d'))) (\<lambda>(released, d').
      and_then (require_lineage released ''source owner did not release reservation'') (\<lambda>_. Inr d')))"

definition compensate_source ::
  "shared \<Rightarrow> id \<Rightarrow> recovery_source \<Rightarrow> time \<Rightarrow> db \<Rightarrow> (compensation_outcome \<times> db) result" where
  "compensate_source S eventId source now d =
     (let r = fst source in
      case res_status r of
        RESERVED \<Rightarrow>
          and_then (require_lineage (\<not> truthy (res_committedUsageEventId r) \<and>
              \<not> truthy (res_compensationUsageEventId r) \<and> \<not> truthy (res_compensationReason r))
            ''reserved source has committed compensation evidence'') (\<lambda>_.
          and_then (release_reserved_source source d) (\<lambda>d'. Inr (Released_Credit, d')))
      | COMMITTED \<Rightarrow>
          and_then (compensate_committed_source S eventId source now d) (\<lambda>(disposition, d').
          Inr (Compensated disposition, d'))
      | RELEASED \<Rightarrow>
          and_then (require_lineage (\<not> truthy (res_committedUsageEventId r) \<and>
              \<not> truthy (res_compensationUsageEventId r)) ''released source still has committed usage'') (\<lambda>_.
          Inr (Already_Released, d))
      | AMBIGUOUS \<Rightarrow> Inl (lineage_error ''ambiguous recovery reservation''))"

definition is_recipient_undeliverable :: "string option \<Rightarrow> bool" where
  "is_recipient_undeliverable providerCode \<longleftrightarrow> providerCode = Some ''131026''"

datatype message_identity = By_Message id | By_Provider_Message id

definition find_message :: "delivery_db \<Rightarrow> message_identity \<Rightarrow> message option" where
  "find_message D i = (case i of
      By_Message k \<Rightarrow> find_row (\<lambda>m. cm_id m = k) (dd_messages D)
    | By_Provider_Message k \<Rightarrow> find_row (\<lambda>m. cm_providerMessageId m = Some k) (dd_messages D))"

text \<open>The shop of a message: that of the recovery of its conversation, else that of the conversation.\<close>

definition conversation_of :: "delivery_db \<Rightarrow> message \<Rightarrow> conversation option" where
  "conversation_of D m = find_conversation D (cm_conversationId m)"

definition conversation_shop :: "conversation \<Rightarrow> id option" where
  "conversation_shop c = (case cv_checkoutRecovery c of Some (_, s) \<Rightarrow> Some s | None \<Rightarrow> cv_shopId c)"

definition reconcile_message ::
  "shared \<Rightarrow> id \<Rightarrow> time \<Rightarrow> message \<Rightarrow> conversation \<Rightarrow> delivery_db \<Rightarrow> (compensation_outcome \<times> delivery_db) result" where
  "reconcile_message S eventId now m conversation D =
     (if cm_direction m \<noteq> OUTBOUND \<or> cm_status m \<noteq> MSG_FAILED \<or> \<not> is_recipient_undeliverable (cm_providerFailureCode m)
      then Inr (Not_Terminal, D)
      else
        and_then (require_lineage (truthy (conversation_shop conversation) \<and>
            (\<not> truthy (cv_shopId conversation) \<or> cv_shopId conversation = conversation_shop conversation))
          ''provider message has conflicting Shop ownership'') (\<lambda>_.
        let shopId = the (conversation_shop conversation) in
        and_then (read_exact_automated_usage (dd_db D) shopId (cm_id m)) (\<lambda>usage.
        and_then (resolve_exact_recovery_source S D m (cv_checkoutRecovery conversation) shopId usage) (\<lambda>source.
        and_then (case source of None \<Rightarrow> Inr (Not_Recovery, dd_db D)
          | Some src \<Rightarrow> compensate_source S eventId src now (dd_db D)) (\<lambda>(result, d1).
        and_then (remove_exact_automated_usage shopId (cm_id m) usage d1) (\<lambda>d2.
        Inr (result, D\<lparr>dd_db := d2\<rparr>)))))))"

text \<open>
  \<open>reconcileLocked\<close>. The row locks order the transaction among others and read nothing new; the
  second read of the message after the lock is kept. A message whose conversation is missing is
  ruled out by a foreign key.
\<close>

definition reconcile_locked ::
  "shared \<Rightarrow> id \<Rightarrow> time \<Rightarrow> message_identity \<Rightarrow> delivery_db \<Rightarrow> (compensation_outcome \<times> delivery_db) result" where
  "reconcile_locked S eventId now identity D =
     (case find_message D identity of
        None \<Rightarrow> Inr (Not_Terminal, D)
      | Some pointer \<Rightarrow>
          if cm_status pointer \<noteq> MSG_FAILED then Inr (Not_Terminal, D)
          else
            let pointerShop = Option.bind (conversation_of D pointer) conversation_shop;
                changed = lineage_error ''provider message ownership changed while locking'' in
            and_then (require_lineage (truthy pointerShop \<longrightarrow>
                count_rows (\<lambda>s. Some (sh_id s) = pointerShop) (db_shops (dd_db D)) = 1)
              ''provider message Shop is unavailable'') (\<lambda>_.
            and_then (expect (find_message D (By_Message (cm_id pointer))) changed) (\<lambda>m.
            and_then (expect (conversation_of D m) changed) (\<lambda>conversation.
            and_then (require (cm_id m = cm_id pointer \<and> cm_providerMessageId m = cm_providerMessageId pointer \<and>
                cm_conversationId m = cm_conversationId pointer \<and> conversation_shop conversation = pointerShop)
              changed) (\<lambda>_.
            reconcile_message S eventId now m conversation D)))))"

definition DELIVERY_COMPENSATION_ATTEMPTS :: nat where
  "DELIVERY_COMPENSATION_ATTEMPTS = 3"

definition reconcile ::
  "shared \<Rightarrow> delivery_db env \<Rightarrow> message_identity \<Rightarrow> delivery_db \<Rightarrow> compensation_outcome result \<times> delivery_db" where
  "reconcile S E identity D =
     with_retry E (\<lambda>n. reconcile_locked S (env_ids E n 0) (env_now E n) identity)
       (\<lambda>_. Service_Error Plain_Error ''Recovery delivery compensation retry limit reached'')
       DELIVERY_COMPENSATION_ATTEMPTS D"

end
