(* ===== verification/Delivery_Ledger.thy ===== *)
theory Delivery_Ledger
  imports Delivery_Compensation
begin

text \<open>
  What a compensation does to the ledger: per source, the account and the reservation are
  corrected together, the ledger invariant holds after it, and the account has the credit back
  exactly when the disposition says so.
\<close>

section \<open>Facts\<close>

lemma require_lineage_Inr [simp]: "require_lineage c m = Inr u \<longleftrightarrow> c"
  by (simp add: require_lineage_def require_def)

lemma require_lineage_simps [simp]:
  "require_lineage True m = Inr ()" "require_lineage False m = Inl (lineage_error m)"
  by (simp_all add: require_lineage_def)

lemma lineage_update_row:
  assumes "lineage_update (\<lambda>x. key x = key r \<and> G x) f m t = Inr t'" "distinct (map key t)" "r \<in> set t"
  shows "G r \<and> t' = update_key key (key r) f t"
proof -
  have "update_one (\<lambda>x. key x = key r \<and> G x) f t = Inr t'"
    using assms(1) by (auto simp: lineage_update_def update_one_def and_then_Inr split: prod.splits)
  then show ?thesis using assms(2,3) by (rule update_one_row)
qed

lemma lineage_update_hit:
  assumes "distinct (map key t)" "r \<in> set t" "key r = k" "G r"
  shows "lineage_update (\<lambda>x. key x = k \<and> G x) f m t = Inr (update_key key k f t)"
  unfolding lineage_update_def update_many_hit [where G = G, OF assms] by simp

lemma compensated_row_columns [simp]:
  "res_id (compensated_row e n p r) = res_id r" "res_sourceKey (compensated_row e n p r) = res_sourceKey r"
  "res_shopId (compensated_row e n p r) = res_shopId r" "res_quantity (compensated_row e n p r) = res_quantity r"
  "res_status (compensated_row e n p r) = res_status r" "res_counterId (compensated_row e n p r) = res_counterId r"
  "res_purchasedCreditPurchaseId (compensated_row e n p r) = res_purchasedCreditPurchaseId r"
  "res_promotionalCreditGrantId (compensated_row e n p r) = res_promotionalCreditGrantId r"
  "res_billingPeriodEntitlementCounterId (compensated_row e n p r) = res_billingPeriodEntitlementCounterId r"
  "res_committedUsageEventId (compensated_row e n p r) = res_committedUsageEventId r"
  "res_compensationUsageEventId (compensated_row e n p r) = Some e"
  "res_compensationDisposition (compensated_row e n p r) = Some p"
  "res_compensationReason (compensated_row e n p r) = Some compensation_reason"
  "res_compensatedAt (compensated_row e n p r) = Some n"
  by (simp_all add: compensated_row_def)

lemma owned_by_compensated [simp]: "owned_by d k (compensated_row e n p r) = owned_by d k r"
  by (cases k; simp)

lemma change_compensated:
  assumes "res_status r = COMMITTED" "res_compensationUsageEventId r = None"
  shows "change held_weight (Some r) (compensated_row e n p r) = 0"
    "change spent_weight (Some r) (compensated_row e n p r) = - res_quantity r"
    "change promo_spent_weight (Some r) (compensated_row e n p r)
       = (if p = HISTORICAL_ONLY then 0 else - res_quantity r)"
  using assms by (simp_all add: change_def held_weight_def held_def spent_weight_def promo_spent_weight_def)

lemma change_ok_compensated:
  assumes "ledger_ok d" "r \<in> set (db_reservations d)" "res_status r = COMMITTED"
  shows "reservation_change_ok (Some r) (compensated_row e n p r)"
  using ledger_okD(5) [OF assms(1,2)] assms(3) quantity_pos [OF assms(1,2)]
  by (auto simp: reservation_change_ok_def same_source_def reservation_ok_def)

lemma rows_step_compensated:
  "r \<in> set rs \<Longrightarrow>
     rows_step (Some r) (compensated_row e n p r) rs (update_key res_id (res_id r) (compensated_row e n p) rs)"
  by (rule rows_step_update) simp_all

text \<open>What a successful correction appended and changed.\<close>

definition corrected_db :: "id \<Rightarrow> time \<Rightarrow> compensation_disposition \<Rightarrow> reservation \<Rightarrow> usage_event \<Rightarrow> db \<Rightarrow> db" where
  "corrected_db eventId now p r original d =
     d\<lparr>db_usageEvents := db_usageEvents d @ [correction_event eventId now r original],
       db_reservations := update_key res_id (res_id r) (compensated_row eventId now p) (db_reservations d)\<rparr>"

lemma correction_event_columns [simp]:
  "ue_id (correction_event i n r e) = i" "ue_quantity (correction_event i n r e) = - res_quantity r"
  "ue_metric (correction_event i n r e) = RECOVERY_CONVERSATION"
  "ue_correctionOfUsageEventId (correction_event i n r e) = Some (ue_id e)"
  "ue_idempotencyKey (correction_event i n r e) = ''arch028-undelivered:'' @ res_id r"
  "ue_sourceId (correction_event i n r e) = Some (res_id r)"
  by (simp_all add: correction_event_def)

lemma record_correction_InrD:
  assumes "record_committed_recovery_correction i (r, k) original p now d = Inr d'"
    and "distinct (map res_id (db_reservations d))" "r \<in> set (db_reservations d)"
  shows "d' = corrected_db i now p r original d" "compensable r original r"
    "\<forall>e\<in>set (db_usageEvents d). ue_id e \<noteq> i \<and> ue_idempotencyKey e \<noteq> ''arch028-undelivered:'' @ res_id r"
proof -
  let ?ev = "correction_event i now r original"
  from assms(1) obtain c d1 rs where ev: "create_usage_event ?ev d = Inr (c, d1)"
    and rs: "lineage_update (\<lambda>x. res_id x = res_id r \<and> compensable r original x) (compensated_row (ue_id c) now p)
        ''reservation compensation conflict'' (db_reservations d1) = Inr rs"
    and d': "d' = d1\<lparr>db_reservations := rs\<rparr>"
    by (auto simp: record_committed_recovery_correction_def Let_def and_then_Inr)
  have c: "c = ?ev" "d1 = d\<lparr>db_usageEvents := db_usageEvents d @ [?ev]\<rparr>"
    using create_usage_event_InrD [OF ev] by auto
  note row = lineage_update_row [where key = res_id, OF rs [unfolded c, simplified] assms(2,3)]
  from d' c row show "d' = corrected_db i now p r original d" by (simp add: corrected_db_def)
  from row show "compensable r original r" ..
  from ev show "\<forall>e\<in>set (db_usageEvents d). ue_id e \<noteq> i \<and> ue_idempotencyKey e \<noteq> ''arch028-undelivered:'' @ res_id r"
    by (auto simp: create_usage_event_def create_row_def list_ex_iff usage_event_clash_def split: if_splits)
qed

text \<open>The credits of its account that a reservation of the source could take now.\<close>

fun account_spendable :: "db \<Rightarrow> source_kind \<Rightarrow> reservation \<Rightarrow> int option" where
  "account_spendable d Free_Source r =
     map_option (\<lambda>c. sc_grantedQuantity c - sc_committedQuantity c - sc_reservedQuantity c)
       (find_shop_counter_by_id d (res_counterId r))"
| "account_spendable d Paid_Source r =
     map_option (\<lambda>c. pc_grantedQuantity c - pc_committedQuantity c - pc_reservedQuantity c - pc_forfeitedQuantity c)
       (find_included_counter d (res_billingPeriodEntitlementCounterId r))"
| "account_spendable d Promotional_Source r =
     map_option available_quantity (find_grant_by_id d (res_promotionalCreditGrantId r))"
| "account_spendable d Purchased_Source r =
     map_option (\<lambda>l. if lot_status l = ACTIVE then spendable_quantity l else 0)
       (find_purchase_by_id d (res_purchasedCreditPurchaseId r))"

definition given_back :: "compensation_disposition \<Rightarrow> reservation \<Rightarrow> int" where
  "given_back p r = (if p = RESTORED_SPENDABLE then res_quantity r else 0)"

lemma find_update_key:
  assumes "distinct (map key t)" "x \<in> set t" "key x = k" "\<And>y. key (f y) = key y"
  shows "find_row (\<lambda>y. key y = k) (update_key key k f t) = Some (f x)"
proof -
  have "f x \<in> set (update_key key k f t)" using assms(2,3) by (auto simp: set_update_key)
  moreover have "distinct (map key (update_key key k f t))"
    using assms(1) map_update_key [where g = key and f = f and key = key and k = k and t = t] assms(4) by simp
  ultimately show ?thesis using find_row_key assms(3,4) by metis
qed

lemma find_by_id_SomeD:
  "find_shop_counter_by_id d i = Some c \<Longrightarrow> i = Some (sc_id c) \<and> c \<in> set (db_shopCounters d)"
  "find_included_counter d i = Some p \<Longrightarrow> i = Some (pc_id p) \<and> p \<in> set (db_periodCounters d)"
  "find_grant_by_id d i = Some g \<Longrightarrow> i = Some (gr_id g) \<and> g \<in> set (db_grants d)"
  "find_purchase_by_id d i = Some l \<Longrightarrow> i = Some (lot_id l) \<and> l \<in> set (db_lots d)"
  by (auto simp: find_shop_counter_by_id_def find_included_counter_def find_period_counter_def find_grant_by_id_def find_grant_def
      find_purchase_by_id_def find_counter_def split: option.splits dest: find_row_SomeD)

lemma other_sources:
  assumes "ledger_ok d" "r \<in> set (db_reservations d)"
  shows "res_billingPeriodEntitlementCounterId r = Some i \<Longrightarrow> owned_by d Paid_Source r"
    "res_promotionalCreditGrantId r = Some i \<Longrightarrow> owned_by d Promotional_Source r"
proof -
  from ledger_okD(5) [OF assms] obtain k where k: "owned_by d k r" by (auto simp: reservation_ok_def)
  show "res_billingPeriodEntitlementCounterId r = Some i \<Longrightarrow> owned_by d Paid_Source r"
    using k by (cases k) auto
  show "res_promotionalCreditGrantId r = Some i \<Longrightarrow> owned_by d Promotional_Source r"
    using k by (cases k) auto
qed

lemma corrected_db_tables [simp]:
  "db_reservations (corrected_db i n p r e d)
     = update_key res_id (res_id r) (compensated_row i n p) (db_reservations d)"
  "db_usageEvents (corrected_db i n p r e d) = db_usageEvents d @ [correction_event i n r e]"
  "db_shopCounters (corrected_db i n p r e d) = db_shopCounters d" "db_lots (corrected_db i n p r e d) = db_lots d"
  "db_periodCounters (corrected_db i n p r e d) = db_periodCounters d"
  "db_grants (corrected_db i n p r e d) = db_grants d" "db_shops (corrected_db i n p r e d) = db_shops d"
  by (simp_all add: corrected_db_def)

text \<open>
  What correcting the account of a source by the disposition \<open>p\<close> has to achieve: with the
  reservation corrected too the ledger holds, the account has the credit back if and only if the
  disposition says so, and nothing changed that identifies the reservation's source.
\<close>

definition correction_ok :: "source_kind \<Rightarrow> compensation_disposition \<Rightarrow> reservation \<Rightarrow> db \<Rightarrow> db \<Rightarrow> bool" where
  "correction_ok k p r d d1 \<longleftrightarrow>
     (\<forall>i now e. ledger_ok (corrected_db i now p r e d1)) \<and>
     (\<exists>v. account_spendable d k r = Some v \<and> account_spendable d1 k r = Some (v + given_back p r)) \<and>
     db_reservations d1 = db_reservations d \<and> db_usageEvents d1 = db_usageEvents d \<and> db_shops d1 = db_shops d \<and>
     (\<forall>s l x kk. source_accounts_match d1 s l x kk = source_accounts_match d s l x kk)"

lemma account_spendable_corrected [simp]:
  "account_spendable (corrected_db i n p r e d) k x = account_spendable d k x"
  by (cases k) (simp_all add: find_shop_counter_by_id_def find_counter_def find_included_counter_def find_period_counter_def
      find_grant_by_id_def find_grant_def find_purchase_by_id_def split: option.splits)

text \<open>The account checks see only columns that no correction changes.\<close>

lemma find_same_columns:
  assumes "map col t' = map col t" "\<And>x y. col x = col y \<Longrightarrow> P x = P y"
  shows "map_option col (find_row P t') = map_option col (find_row P t)"
  using assms(1)
proof (induction t arbitrary: t')
  case (Cons x t)
  then obtain y u where t': "t' = y # u" and y: "col y = col x" and u: "map col u = map col t" by auto
  note assms(2) [OF y] Cons.IH [OF u]
  with t' y show ?case by simp
qed simp

lemma same_accounts_match:
  assumes "counter_keys d1 = counter_keys d" "lot_keys d1 = lot_keys d" "grant_keys d1 = grant_keys d"
    and "map (\<lambda>c. (pc_id c, pc_shopId c, pc_billingPeriodId c, pc_counter c)) (db_periodCounters d1)
       = map (\<lambda>c. (pc_id c, pc_shopId c, pc_billingPeriodId c, pc_counter c)) (db_periodCounters d)"
  shows "source_accounts_match d1 s l x k = source_accounts_match d s l x k"
proof -
  have c: "map_option (\<lambda>c. (sc_id c, sc_shopId c, sc_counter c)) (find_row (\<lambda>c. sc_id c = i) (db_shopCounters d1))
      = map_option (\<lambda>c. (sc_id c, sc_shopId c, sc_counter c)) (find_row (\<lambda>c. sc_id c = i) (db_shopCounters d))" for i
    using assms(1) unfolding counter_keys_def by (rule find_same_columns) simp
  have l: "map_option (\<lambda>l. (lot_id l, lot_shopId l)) (find_row (\<lambda>l. lot_id l = i) (db_lots d1))
      = map_option (\<lambda>l. (lot_id l, lot_shopId l)) (find_row (\<lambda>l. lot_id l = i) (db_lots d))" for i
    using assms(2) unfolding lot_keys_def by (rule find_same_columns) simp
  have g: "map_option (\<lambda>g. (gr_id g, gr_shopId g)) (find_row (\<lambda>g. gr_id g = i) (db_grants d1))
      = map_option (\<lambda>g. (gr_id g, gr_shopId g)) (find_row (\<lambda>g. gr_id g = i) (db_grants d))" for i
    using assms(3) unfolding grant_keys_def by (rule find_same_columns) simp
  have p: "map_option (\<lambda>c. (pc_id c, pc_shopId c, pc_billingPeriodId c, pc_counter c)) (find_row (\<lambda>c. pc_id c = i) (db_periodCounters d1))
      = map_option (\<lambda>c. (pc_id c, pc_shopId c, pc_billingPeriodId c, pc_counter c)) (find_row (\<lambda>c. pc_id c = i) (db_periodCounters d))" for i
    using assms(4) by (rule find_same_columns) simp
  have cm: "shop_counter_matches d1 s kind x = shop_counter_matches d s kind x" for kind
    using c [of "the (res_counterId x)"]
    by (auto simp: shop_counter_matches_def find_shop_counter_by_id_def find_counter_def map_option_case
        split: option.splits)
  show ?thesis
    using l [of "the (res_purchasedCreditPurchaseId x)"] g [of "the (res_promotionalCreditGrantId x)"]
      p [of "the (res_billingPeriodEntitlementCounterId x)"]
    by (cases k)
      (auto simp: cm find_purchase_by_id_def find_grant_by_id_def find_grant_def find_included_counter_def find_period_counter_def
        map_option_case require_lineage_def require_def split: option.splits)
qed

text \<open>Each source: the ledger after the account and the reservation have been corrected.\<close>

lemma correct_free_ledger:
  assumes ok: "ledger_ok d" and r: "r \<in> set (db_reservations d)" "res_status r = COMMITTED"
      "res_compensationUsageEventId r = None"
    and run: "correct_free_counter r d = Inr (p, d1)"
  shows "correction_ok Free_Source p r d d1"
proof -
  note run' = run [unfolded correct_free_counter_def Let_def]
  from run' obtain c cs where c: "find_shop_counter_by_id d (res_counterId r) = Some c"
    "sc_shopId c = res_shopId r" "sc_counter c = LIFETIME_FREE_RECOVERY_CREDITS"
    and cs: "lineage_update (\<lambda>x. sc_id x = sc_id c \<and> (sc_version x = sc_version c \<and> res_quantity r \<le> sc_committedQuantity x))
          (restored_counter (res_quantity r)) ''free credit counter correction conflict'' (db_shopCounters d) = Inr cs"
    and p: "p = RESTORED_SPENDABLE" "d1 = d\<lparr>db_shopCounters := cs\<rparr>"
    by (auto simp: and_then_Inr expect_Inr require_Inr)
  note c' = find_by_id_SomeD(1) [OF c(1)]
  have cs': "cs = update_key sc_id (sc_id c) (restored_counter (res_quantity r)) (db_shopCounters d)"
    using lineage_update_row [where key = sc_id, OF cs ledger_keys(3) [OF ok]] c' by blast
  have "ledger_ok (corrected_db i now p r e d1)" for i now e
  proof (rule ledger_step_free [OF ok])
    show "rows_step (Some r) (compensated_row i now p r) (db_reservations d) (db_reservations (corrected_db i now p r e d1))"
      using rows_step_compensated [OF r(1)] p by simp
    show "owned_by d Free_Source (compensated_row i now p r)"
      using counter_source(1) [OF ok r(1), of c] c c' by simp
    show "reservation_change_ok (Some r) (compensated_row i now p r)" by (rule change_ok_compensated [OF ok r(1,2)])
    show "db_shopCounters (corrected_db i now p r e d1)
        = update_key sc_id (sc_id c) (restored_counter (res_quantity r)) (db_shopCounters d)"
      using p cs' by simp
    show "sc_reservedQuantity (restored_counter (res_quantity r) x)
          = sc_reservedQuantity x + change held_weight (Some r) (compensated_row i now p r) \<and>
        sc_committedQuantity (restored_counter (res_quantity r) x)
          = sc_committedQuantity x + change spent_weight (Some r) (compensated_row i now p r) \<and>
        counter_ok (restored_counter (res_quantity r) x)" if "x \<in> set (db_shopCounters d)" for x
      using bounds_okD(1) [OF ok that] quantity_pos [OF ok r(1)] r(2,3)
      by (auto simp: restored_counter_def counter_ok_def change_compensated)
  qed (use c' p in \<open>simp_all add: restored_counter_def\<close>)
  moreover have "account_spendable d1 Free_Source r
      = map_option (\<lambda>v. v + given_back p r) (account_spendable d Free_Source r)"
    using c c' p cs'
    by (simp add: find_shop_counter_by_id_def given_back_def restored_counter_def find_counter_def find_key_update_key)
  moreover have "source_accounts_match d1 s l x kk = source_accounts_match d s l x kk" for s l x kk
    using p cs' by (intro same_accounts_match)
      (simp_all add: counter_keys_def lot_keys_def grant_keys_def keys_update_key restored_counter_def)
  ultimately show ?thesis using c(1) p by (simp add: correction_ok_def)
qed

lemma correct_paid_ledger:
  assumes ok: "ledger_ok d" and r: "r \<in> set (db_reservations d)" "res_status r = COMMITTED"
      "res_compensationUsageEventId r = None"
    and run: "correct_paid_counter per now r d = Inr (p, d1)"
  shows "correction_ok Paid_Source p r d d1"
proof -
  let ?q = "res_quantity r"
  note run' = run [unfolded correct_paid_counter_def Let_def]
  from run' obtain c period cs where c: "find_included_counter d (res_billingPeriodEntitlementCounterId r) = Some c"
    and cs: "lineage_update (\<lambda>x. pc_id x = pc_id c \<and> (pc_version x = pc_version c \<and> ?q \<le> pc_committedQuantity x))
          (corrected_period_counter ?q (period_spendable d (res_shopId r) now period))
          ''paid credit counter correction conflict'' (db_periodCounters d) = Inr cs"
    and p: "p = (if period_spendable d (res_shopId r) now period then RESTORED_SPENDABLE else HISTORICAL_ONLY)"
      "d1 = d\<lparr>db_periodCounters := cs\<rparr>"
    by (auto simp: and_then_Inr expect_Inr require_Inr)
  define sp where "sp = period_spendable d (res_shopId r) now period"
  note c' = find_by_id_SomeD(2) [OF c(1)]
  have cs': "cs = update_key pc_id (pc_id c) (corrected_period_counter ?q sp) (db_periodCounters d)"
    using lineage_update_row [where key = pc_id, OF cs ledger_keys(4) [OF ok]] c' by (auto simp: sp_def)
  have "ledger_ok (corrected_db i now p r e d1)" for i now e
  proof (rule ledger_step_paid [OF ok])
    show "rows_step (Some r) (compensated_row i now p r) (db_reservations d) (db_reservations (corrected_db i now p r e d1))"
      using rows_step_compensated [OF r(1)] p by simp
    show "owned_by d Paid_Source (compensated_row i now p r)"
      using other_sources(1) [OF ok r(1)] c' by simp
    show "reservation_change_ok (Some r) (compensated_row i now p r)" by (rule change_ok_compensated [OF ok r(1,2)])
    show "db_periodCounters (corrected_db i now p r e d1)
        = update_key pc_id (pc_id c) (corrected_period_counter ?q sp) (db_periodCounters d)"
      using p cs' by simp
    show "pc_reservedQuantity (corrected_period_counter ?q sp x)
          = pc_reservedQuantity x + change held_weight (Some r) (compensated_row i now p r) \<and>
        pc_committedQuantity (corrected_period_counter ?q sp x)
          = pc_committedQuantity x + change spent_weight (Some r) (compensated_row i now p r) \<and>
        period_counter_ok (corrected_period_counter ?q sp x)" if "x \<in> set (db_periodCounters d)" for x
      using bounds_okD(3) [OF ok that] quantity_pos [OF ok r(1)] r(2,3)
      by (auto simp: corrected_period_counter_def period_counter_ok_def change_compensated)
  qed (use c' p in \<open>simp_all add: corrected_period_counter_def\<close>)
  moreover have "account_spendable d1 Paid_Source r
      = map_option (\<lambda>v. v + given_back p r) (account_spendable d Paid_Source r)"
    using c c' p(2) cs'
    by (simp add: p(1) sp_def [symmetric] find_included_counter_def find_period_counter_def given_back_def corrected_period_counter_def
        find_key_update_key)
  moreover have "source_accounts_match d1 s l x kk = source_accounts_match d s l x kk" for s l x kk
    using p cs' by (intro same_accounts_match)
      (simp_all add: counter_keys_def lot_keys_def grant_keys_def keys_update_key corrected_period_counter_def)
  ultimately show ?thesis using c(1) p by (simp add: correction_ok_def)
qed

lemma correct_promotional_ledger:
  assumes ok: "ledger_ok d" and r: "r \<in> set (db_reservations d)" "res_status r = COMMITTED"
      "res_compensationUsageEventId r = None"
    and run: "correct_promotional_grant now r d = Inr (p, d1)"
  shows "correction_ok Promotional_Source p r d d1"
proof -
  let ?q = "res_quantity r"
  note run' = run [unfolded correct_promotional_grant_def Let_def]
  from run' obtain g where g: "find_grant_by_id d (res_promotionalCreditGrantId r) = Some g"
    by (auto simp: and_then_Inr expect_Inr require_Inr)
  note g' = find_by_id_SomeD(3) [OF g(1)]
  define f where "f = (if p = HISTORICAL_ONLY then (\<lambda>g. g) else restored_grant ?q)"
  have f: "p = HISTORICAL_ONLY \<or> p = RESTORED_SPENDABLE"
    "d1 = d\<lparr>db_grants := update_key gr_id (gr_id g) f (db_grants d)\<rparr>"
    using run' g lineage_update_row [where key = gr_id, OF _ ledger_keys(5) [OF ok], of g] g'
    by (auto simp: and_then_Inr expect_Inr f_def update_key_def split: if_splits)
  have ff: "gr_id (f x) = gr_id x" "gr_shopId (f x) = gr_shopId x" "gr_reservedQuantity (f x) = gr_reservedQuantity x"
    "gr_quantity (f x) = gr_quantity x"
    "gr_committedQuantity (f x) = gr_committedQuantity x - (if p = HISTORICAL_ONLY then 0 else ?q)" for x
    by (simp_all add: f_def restored_grant_def)
  have "ledger_ok (corrected_db i now p r e d1)" for i now e
  proof (rule ledger_step_promotional [OF ok])
    show "rows_step (Some r) (compensated_row i now p r) (db_reservations d) (db_reservations (corrected_db i now p r e d1))"
      using rows_step_compensated [OF r(1)] f by simp
    show "owned_by d Promotional_Source (compensated_row i now p r)"
      using other_sources(2) [OF ok r(1)] g' by simp
    show "reservation_change_ok (Some r) (compensated_row i now p r)" by (rule change_ok_compensated [OF ok r(1,2)])
    show "db_grants (corrected_db i now p r e d1) = update_key gr_id (gr_id g) f (db_grants d)"
      using f by simp
    show "gr_reservedQuantity (f x) = gr_reservedQuantity x + change held_weight (Some r) (compensated_row i now p r) \<and>
        gr_committedQuantity (f x) = gr_committedQuantity x + change promo_spent_weight (Some r) (compensated_row i now p r) \<and>
        grant_ok (f x)" if "x \<in> set (db_grants d)" for x
      using bounds_okD(4) [OF ok that] quantity_pos [OF ok r(1)] r(2,3)
      by (auto simp: ff grant_ok_def change_compensated)
  qed (use g' f in \<open>simp_all add: ff\<close>)
  moreover have "account_spendable d1 Promotional_Source r
      = map_option (\<lambda>v. v + given_back p r) (account_spendable d Promotional_Source r)"
    using g g' f
    by (auto simp: find_grant_by_id_def find_grant_def given_back_def available_quantity_def find_key_update_key ff)
  moreover have "source_accounts_match d1 s l x kk = source_accounts_match d s l x kk" for s l x kk
    using f(2) by (intro same_accounts_match)
      (simp_all add: counter_keys_def lot_keys_def grant_keys_def keys_update_key ff)
  ultimately show ?thesis using g f by (simp add: correction_ok_def)
qed

lemma classify_InrD:
  assumes "classify_purchased_credit_state l refunds = Inr p"
  shows "p = HISTORICAL_ONLY \<and> lot_status l = REFUNDED \<or> p = HELD_FOR_REFUND \<and> lot_status l = WITHDRAWN \<or>
    p = RESTORED_SPENDABLE \<and> (lot_status l = ACTIVE \<or> lot_status l = COMPLETED)"
  using assms by (auto simp: classify_purchased_credit_state_def Let_def and_then_Inr split: if_splits)

lemma review_refund_InrD:
  "review_refund s p f d = Inr d' \<Longrightarrow> \<exists>fs. d' = d\<lparr>db_refunds := fs\<rparr>"
proof -
  assume "review_refund s p f d = Inr d'"
  then consider "d' = d" | fs where "d' = d\<lparr>db_refunds := fs\<rparr>"
    by (auto simp: review_refund_def and_then_Inr split: option.splits if_splits)
  then show ?thesis by cases (auto intro: exI [of _ "db_refunds d"])
qed

definition lot_correction :: "int \<Rightarrow> compensation_disposition \<Rightarrow> purchase_lot \<Rightarrow> purchase_lot" where
  "lot_correction q p = (if p = HISTORICAL_ONLY then (\<lambda>l. l) else corrected_lot q p)"

lemma lot_correction_columns [simp]:
  "lot_id (lot_correction q p l) = lot_id l" "lot_shopId (lot_correction q p l) = lot_shopId l"
  "lot_reservedAmount (lot_correction q p l) = lot_reservedAmount l"
  "lot_creditsGranted (lot_correction q p l) = lot_creditsGranted l"
  "lot_currentAmount (lot_correction q p l) = (if p = HISTORICAL_ONLY then lot_currentAmount l else lot_currentAmount l + q)"
  "lot_status (lot_correction q p l) = (if p = RESTORED_SPENDABLE then ACTIVE else lot_status l)"
  by (simp_all add: lot_correction_def corrected_lot_def)

lemma corrected_counter_columns [simp]:
  "sc_id (corrected_counter q p c) = sc_id c" "sc_shopId (corrected_counter q p c) = sc_shopId c"
  "sc_counter (corrected_counter q p c) = sc_counter c"
  "sc_reservedQuantity (corrected_counter q p c) = sc_reservedQuantity c"
  "sc_committedQuantity (corrected_counter q p c) = sc_committedQuantity c - q"
  "sc_grantedQuantity (corrected_counter q p c) = (if p = HISTORICAL_ONLY then sc_grantedQuantity c - q else sc_grantedQuantity c)"
  "sc_refundingQuantity (corrected_counter q p c) = (if p = HELD_FOR_REFUND then sc_refundingQuantity c + q else sc_refundingQuantity c)"
  by (simp_all add: corrected_counter_def)

text \<open>The steps of a purchased compensation, with the rows it read.\<close>

lemma compensate_purchased_InrE:
  assumes run: "compensate_purchased_source S i (r, k) now d = Inr (p, d')" and ok: "ledger_ok d"
    and r: "r \<in> set (db_reservations d)"
  obtains original l c fs d1 where "k = Purchased_Source" "read_committed_recovery_usage S d (r, k) = Inr original"
    "find_purchase_by_id d (res_purchasedCreditPurchaseId r) = Some l"
    "find_shop_counter_by_id d (res_counterId r) = Some c"
    "sc_counter c = PURCHASED_RECOVERY_CREDITS" "lot_currentAmount l + res_quantity r \<le> lot_creditsGranted l"
    "p = HISTORICAL_ONLY \<and> lot_status l = REFUNDED \<or> p = HELD_FOR_REFUND \<and> lot_status l = WITHDRAWN \<or>
       p = RESTORED_SPENDABLE \<and> (lot_status l = ACTIVE \<or> lot_status l = COMPLETED)"
    "d1 = d\<lparr>db_lots := update_key lot_id (lot_id l) (lot_correction (res_quantity r) p) (db_lots d),
            db_shopCounters := update_key sc_id (sc_id c) (corrected_counter (res_quantity r) p) (db_shopCounters d),
            db_refunds := fs\<rparr>"
    "record_committed_recovery_correction i (r, k) original p now d1 = Inr d'"
proof -
  let ?q = "res_quantity r"
  note run' = run [unfolded compensate_purchased_source_def Let_def fst_conv snd_conv]
  from run' obtain original l c p' lots cs d1 where k: "k = Purchased_Source"
    and orig: "read_committed_recovery_usage S d (r, k) = Inr original"
    and l: "find_purchase_by_id d (res_purchasedCreditPurchaseId r) = Some l"
    and c: "find_shop_counter_by_id d (res_counterId r) = Some c"
    and lc: "sc_counter c = PURCHASED_RECOVERY_CREDITS" "lot_currentAmount l + ?q \<le> lot_creditsGranted l"
    and p: "classify_purchased_credit_state l
       (take 2 (filter (\<lambda>f. Some (rf_purchaseId f) = res_purchasedCreditPurchaseId r) (db_refunds d))) = Inr p'"
    and lots: "(if p' = HISTORICAL_ONLY then Inr (db_lots d)
       else lineage_update (\<lambda>x. lot_id x = lot_id l \<and> lot_correctable (res_shopId r) p' l x)
              (corrected_lot ?q p') ''purchased lot correction conflict'' (db_lots d)) = Inr lots"
    and cs: "lineage_update (\<lambda>x. sc_id x = sc_id c \<and> (sc_shopId x = res_shopId r \<and> sc_version x = sc_version c \<and>
          ?q \<le> sc_committedQuantity x \<and> (p' = HISTORICAL_ONLY \<longrightarrow> ?q \<le> sc_grantedQuantity x)))
        (corrected_counter ?q p') ''purchased counter correction conflict'' (db_shopCounters d) = Inr cs"
    and rev: "review_refund (res_shopId r) p'
       (case take 2 (filter (\<lambda>f. Some (rf_purchaseId f) = res_purchasedCreditPurchaseId r) (db_refunds d)) of
          [] \<Rightarrow> None | f # _ \<Rightarrow> Some f) (d\<lparr>db_lots := lots, db_shopCounters := cs\<rparr>) = Inr d1"
    and rc: "record_committed_recovery_correction i (r, k) original p' now d1 = Inr d'"
    and pp: "p' = p"
    apply (elim run_elims)
    apply (unfold require_Inr require_lineage_Inr sum.inject prod.inject)
    apply (elim conjE)
    apply (rule that)
             apply assumption+
     apply (simp only:)
    apply assumption+
    done
  note l' = find_by_id_SomeD(4) [OF l] note c' = find_by_id_SomeD(1) [OF c]
  have "lots = update_key lot_id (lot_id l) (lot_correction ?q p) (db_lots d)"
    using lots [unfolded pp] lineage_update_row [where key = lot_id, OF _ ledger_keys(6) [OF ok], of l] l'
    by (auto simp: lot_correction_def update_key_def split: if_splits)
  moreover have "cs = update_key sc_id (sc_id c) (corrected_counter ?q p) (db_shopCounters d)"
    using lineage_update_row [where key = sc_id, OF cs [unfolded pp] ledger_keys(3) [OF ok]] c' by blast
  moreover obtain fs where "d1 = d\<lparr>db_lots := lots, db_shopCounters := cs, db_refunds := fs\<rparr>"
    using review_refund_InrD [OF rev [unfolded pp]] by auto
  ultimately show ?thesis
    using that [OF k orig l c lc classify_InrD [OF p [unfolded pp]] _ rc [unfolded pp]] by simp
qed

lemma correct_purchased_ledger:
  assumes ok: "ledger_ok d" and r: "r \<in> set (db_reservations d)" "res_status r = COMMITTED"
      "res_compensationUsageEventId r = None"
    and l: "find_purchase_by_id d (res_purchasedCreditPurchaseId r) = Some l"
    and c: "find_shop_counter_by_id d (res_counterId r) = Some c" "sc_counter c = PURCHASED_RECOVERY_CREDITS"
    and fits: "lot_currentAmount l + res_quantity r \<le> lot_creditsGranted l"
    and p: "p = HISTORICAL_ONLY \<and> lot_status l = REFUNDED \<or> p = HELD_FOR_REFUND \<and> lot_status l = WITHDRAWN \<or>
       p = RESTORED_SPENDABLE \<and> (lot_status l = ACTIVE \<or> lot_status l = COMPLETED)"
    and d1: "d1 = d\<lparr>db_lots := update_key lot_id (lot_id l) (lot_correction (res_quantity r) p) (db_lots d),
            db_shopCounters := update_key sc_id (sc_id c) (corrected_counter (res_quantity r) p) (db_shopCounters d),
            db_refunds := fs\<rparr>"
  shows "correction_ok Purchased_Source p r d d1"
proof -
  let ?q = "res_quantity r"
  note l' = find_by_id_SomeD(4) [OF l] and c' = find_by_id_SomeD(1) [OF c(1)]
  have lo: "lot_ok l" using bounds_okD(2) [OF ok] l' by blast
  have q: "0 < ?q" by (rule quantity_pos [OF ok r(1)])
  have "ledger_ok (corrected_db i now p r e d1)" for i now e
  proof (rule ledger_step_pool [OF ok, where f = "corrected_counter ?q p" and h = "lot_correction ?q p"])
    show "rows_step (Some r) (compensated_row i now p r) (db_reservations d) (db_reservations (corrected_db i now p r e d1))"
      using rows_step_compensated [OF r(1)] d1 by simp
    show "owned_by d Purchased_Source (compensated_row i now p r)"
      using counter_source(2) [OF ok r(1), of c] c c' by simp
    show "reservation_change_ok (Some r) (compensated_row i now p r)" by (rule change_ok_compensated [OF ok r(1,2)])
    show "db_lots (corrected_db i now p r e d1) = update_key lot_id (lot_id l) (lot_correction ?q p) (db_lots d)"
      "db_shopCounters (corrected_db i now p r e d1) = update_key sc_id (sc_id c) (corrected_counter ?q p) (db_shopCounters d)"
      by (simp_all add: d1)
    show "lot_reservedAmount (lot_correction ?q p x)
          = lot_reservedAmount x + change held_weight (Some r) (compensated_row i now p r) \<and> lot_ok (lot_correction ?q p x)"
      if "x \<in> set (db_lots d)" "lot_id x = lot_id l" for x
      using unique_lot [OF ok _ that] l' lo ledger_lot(2) [OF ok that(1)] fits q p r(2,3)
      by (auto simp: lot_ok_def change_compensated)
    show "sc_refundingQuantity (corrected_counter ?q p x) - sc_refundingQuantity x
          = lot_hold (lot_correction ?q p y) - lot_hold y \<and>
        (sc_grantedQuantity (corrected_counter ?q p x) - sc_committedQuantity (corrected_counter ?q p x))
          - (sc_grantedQuantity x - sc_committedQuantity x)
          = lot_currentAmount (lot_correction ?q p y) - lot_currentAmount y"
      if "y \<in> set (db_lots d)" "lot_id y = lot_id l" for x y
      using unique_lot [OF ok _ that] l' p by (auto simp: lot_hold_def)
  qed (use c' l' r(2,3) in \<open>simp_all add: d1 change_compensated\<close>)
  moreover have "account_spendable d1 Purchased_Source r
      = map_option (\<lambda>v. v + given_back p r) (account_spendable d Purchased_Source r)"
    using l l' lo p ledger_lot(2) [OF ok, of l]
    by (auto simp: d1 find_purchase_by_id_def given_back_def spendable_quantity_def find_key_update_key lot_ok_def)
  moreover have "source_accounts_match d1 s k x kk = source_accounts_match d s k x kk" for s k x kk
    by (intro same_accounts_match)
      (simp_all add: d1 counter_keys_def lot_keys_def grant_keys_def keys_update_key)
  ultimately show ?thesis using l by (simp add: correction_ok_def d1)
qed

lemma correct_committed_counter_frame:
  assumes "correct_committed_counter (r, k) now per d = Inr (p, d1)"
  shows "db_reservations d1 = db_reservations d" "db_usageEvents d1 = db_usageEvents d" "k \<noteq> Purchased_Source"
  using assms
  by (cases k; auto simp: correct_committed_counter_def correct_free_counter_def correct_paid_counter_def
      correct_promotional_grant_def Let_def and_then_Inr split: if_splits)+

lemma correct_committed_counter_ledger:
  assumes "ledger_ok d" "r \<in> set (db_reservations d)" "res_status r = COMMITTED"
      "res_compensationUsageEventId r = None"
    and "correct_committed_counter (r, k) now per d = Inr (p, d1)"
  shows "correction_ok k p r d d1"
  using assms correct_free_ledger correct_paid_ledger correct_promotional_ledger
  by (cases k) (auto simp: correct_committed_counter_def)

lemma read_committed_recovery_usage_InrD:
  "read_committed_recovery_usage S d (r, k) = Inr original \<Longrightarrow>
     find_usage_event d (res_committedUsageEventId r) = Some original \<and> is_source_usage S (r, k) original \<and>
     (\<forall>e\<in>set (db_usageEvents d). \<not> corrections_of (ue_id original) e)"
  by (auto simp: read_committed_recovery_usage_def Let_def and_then_Inr expect_Inr require_Inr count_rows_def
      filter_empty_conv)

text \<open>
  A compensation of a committed credit either replays the one made before, or corrects account
  and reservation together and appends the one negative event.
\<close>

lemma compensate_committed_InrE:
  assumes run: "compensate_committed_source S i (r, k) now d = Inr (p, d')" and ok: "ledger_ok d"
    and r: "r \<in> set (db_reservations d)" "res_status r = COMMITTED"
  obtains (replay) "truthy (res_compensationUsageEventId r)" "d' = d"
      "read_committed_correction_replay d (r, k) = Inr p"
  | (fresh) original d1 where "res_compensationUsageEventId r = None" "d' = corrected_db i now p r original d1"
      "correction_ok k p r d d1" "read_committed_recovery_usage S d (r, k) = Inr original"
      "\<forall>e\<in>set (db_usageEvents d). ue_id e \<noteq> i \<and> ue_idempotencyKey e \<noteq> ''arch028-undelivered:'' @ res_id r"
proof (cases "truthy (res_compensationUsageEventId r)")
  case True
  with run show ?thesis by (intro replay) (auto simp: compensate_committed_source_def and_then_Inr)
next
  case False
  show ?thesis
  proof (cases "k = Purchased_Source")
    case True
    with run False have "compensate_purchased_source S i (r, k) now d = Inr (p, d')"
      by (auto simp: compensate_committed_source_def and_then_Inr)
    then show ?thesis
    proof (rule compensate_purchased_InrE [OF _ ok r(1)])
      fix original l c fs d1
      assume o: "read_committed_recovery_usage S d (r, k) = Inr original"
        and a: "find_purchase_by_id d (res_purchasedCreditPurchaseId r) = Some l"
          "find_shop_counter_by_id d (res_counterId r) = Some c" "sc_counter c = PURCHASED_RECOVERY_CREDITS"
          "lot_currentAmount l + res_quantity r \<le> lot_creditsGranted l"
          "p = HISTORICAL_ONLY \<and> lot_status l = REFUNDED \<or> p = HELD_FOR_REFUND \<and> lot_status l = WITHDRAWN \<or>
             p = RESTORED_SPENDABLE \<and> (lot_status l = ACTIVE \<or> lot_status l = COMPLETED)"
        and d1: "d1 = d\<lparr>db_lots := update_key lot_id (lot_id l) (lot_correction (res_quantity r) p) (db_lots d),
            db_shopCounters := update_key sc_id (sc_id c) (corrected_counter (res_quantity r) p) (db_shopCounters d),
            db_refunds := fs\<rparr>"
        and rc: "record_committed_recovery_correction i (r, k) original p now d1 = Inr d'"
      have frame: "db_reservations d1 = db_reservations d" "db_usageEvents d1 = db_usageEvents d"
        by (simp_all add: d1)
      note rc' = record_correction_InrD [OF rc, unfolded frame, OF ledger_keys(1) [OF ok] r(1)]
      then have none: "res_compensationUsageEventId r = None" by (simp add: compensable_def)
      from correct_purchased_ledger [OF ok r none a d1] rc' o none True show ?thesis
        by (intro fresh [of original d1]) simp_all
    qed
  next
    case other: False
    with run False obtain original d1 where o: "read_committed_recovery_usage S d (r, k) = Inr original"
      and c: "correct_committed_counter (r, k) now (ue_billingPeriodId original) d = Inr (p, d1)"
      and rc: "record_committed_recovery_correction i (r, k) original p now d1 = Inr d'"
      by (auto simp: compensate_committed_source_def and_then_Inr)
    note frame = correct_committed_counter_frame [OF c]
    note rc' = record_correction_InrD [OF rc, unfolded frame, OF ledger_keys(1) [OF ok] r(1)]
    then have none: "res_compensationUsageEventId r = None" by (simp add: compensable_def)
    from correct_committed_counter_ledger [OF ok r none c] rc' o none show ?thesis
      by (intro fresh [of original d1]) simp_all
  qed
qed

end
