(* ===== verification/Delivery_Reconcile.thy ===== *)
theory Delivery_Reconcile
  imports Delivery_Ledger
begin

text \<open>
  The reconciliation of a failed message: the reservation it leads to belongs to the source the
  lineage says, every outcome keeps the ledger, and a message that has been reconciled is
  reconciled again without any effect.
\<close>

section \<open>The source of an attempt\<close>

lemma find_exact_source_InrD:
  assumes "find_exact_recovery_reservation_source S d s a = Inr (Some (r, k))" "ledger_ok d"
  shows "r \<in> set (db_reservations d)" "res_shopId r = s" "res_quantity r = 1" "owned_by d k r"
proof -
  let ?l = "createRecoveryIdempotencyKey S s (''recovery-outreach:'' @ a)"
  define rs where "rs = filter (\<lambda>r. res_sourceKey r = ?l \<or>
     (starts_with paid_key_prefix (res_sourceKey r) \<and> ends_with ('':'' @ ?l) (res_sourceKey r))) (db_reservations d)"
  from assms(1) obtain u where rs: "take 2 rs = r # u" and r: "res_shopId r = s" "res_quantity r = 1"
    and kind: "reservation_source_kind r = Inr k" and acc: "source_accounts_match d s ?l r k = Inr ()"
    by (auto simp: find_exact_recovery_reservation_source_def Let_def and_then_Inr rs_def split: list.splits)
  from rs have "r \<in> set rs" by (metis in_set_takeD list.set_intros(1))
  then show rin: "r \<in> set (db_reservations d)" by (simp add: rs_def)
  from r show "res_shopId r = s" "res_quantity r = 1" by simp_all
  from ledger_okD(5) [OF assms(2) rin] obtain k' where k': "owned_by d k' r" by (auto simp: reservation_ok_def)
  show "owned_by d k r"
  proof (cases k)
    case Free_Source
    with acc obtain c where c: "find_shop_counter_by_id d (res_counterId r) = Some c"
      "sc_counter c = LIFETIME_FREE_RECOVERY_CREDITS"
      by (auto simp: and_then_Inr shop_counter_matches_def split: option.splits)
    with find_by_id_SomeD(1) [OF c(1)] counter_source(1) [OF assms(2) rin] Free_Source show ?thesis by blast
  qed (use kind k' in \<open>cases k'; auto simp: reservation_source_kind_def and_then_Inr truthy_def split: if_splits\<close>)+
qed

lemma resolve_source_InrD:
  assumes "resolve_exact_recovery_source S D m rec s u = Inr (Some (r, k))" "ledger_ok (dd_db D)"
  shows "r \<in> set (db_reservations (dd_db D))" "res_shopId r = s" "res_quantity r = 1" "owned_by (dd_db D) k r"
proof -
  from assms(1) obtain a where "find_exact_recovery_reservation_source S (dd_db D) s a = Inr (Some (r, k))"
    by (auto simp: resolve_exact_recovery_source_def attempt_source_def Let_def and_then_Inr split: option.splits if_splits)
  from find_exact_source_InrD [OF this assms(2)]
  show "r \<in> set (db_reservations (dd_db D))" "res_shopId r = s" "res_quantity r = 1" "owned_by (dd_db D) k r"
    by simp_all
qed

section \<open>Releases\<close>

lemma owned_source_key:
  assumes "ledger_ok d" "r \<in> set (db_reservations d)" "owned_by d k r"
  shows "source_key k d (res_sourceKey r)"
  using find_by_key [OF assms(1,2)] assms(3) by (simp add: source_key_def)

lemma release_reserved_InrD:
  assumes run: "release_reserved_source (r, k) d = Inr d'" and ok: "ledger_ok d"
    and r: "r \<in> set (db_reservations d)" "owned_by d k r"
  shows "ledger_ok d'" "source_step (with_status RELEASED) [] (res_shopId r) (res_sourceKey r) d d'"
proof -
  let ?s = "res_shopId r" and ?k = "res_sourceKey r"
  note key = owned_source_key [OF ok r]
  have "ledger_ok d' \<and> source_step (with_status RELEASED) [] ?s ?k d d'"
  proof (cases k)
    case Free_Source
    with run obtain out q where rel: "free_release_in_transaction ?s ?k q d = Inr (out, d')"
      by (auto simp: release_reserved_source_def free_release_in_existing_transaction_def Let_def and_then_Inr)
    from free.release_ledger [OF rel ok] free.release_step [OF rel ok] key Free_Source show ?thesis by simp
  next
    case Paid_Source
    with run obtain out q where rel: "paid_release_in_transaction ?s ?k q d = Inr (out, d')"
      by (auto simp: release_reserved_source_def paid_release_in_existing_transaction_def Let_def and_then_Inr)
    from paid.release_ledger [OF rel ok] paid.release_step [OF rel ok] key Paid_Source show ?thesis by simp
  next
    case Promotional_Source
    with run obtain out q where rel: "promotional_release_in_transaction ?s ?k q d = Inr (out, d')"
      by (auto simp: release_reserved_source_def promotional_release_in_existing_transaction_def Let_def and_then_Inr)
    from promotional.release_ledger [OF rel ok] promotional.release_step [OF rel ok] key Promotional_Source
    show ?thesis by simp
  next
    case Purchased_Source
    with run obtain out q where rel: "purchased_release_in_transaction ?s ?k q d = Inr (out, d')"
      by (auto simp: release_reserved_source_def purchased_release_in_existing_transaction_def Let_def and_then_Inr)
    from purchased.release_ledger [OF rel ok] purchased.release_step [OF rel ok] key Purchased_Source
    show ?thesis by simp
  qed
  then show "ledger_ok d'" "source_step (with_status RELEASED) [] ?s ?k d d'" by simp_all
qed

text \<open>What a compensation leaves alone: the shops and all that tells the sources apart.\<close>

definition stable :: "db \<Rightarrow> db \<Rightarrow> bool" where
  "stable d d' \<longleftrightarrow> db_shops d' = db_shops d \<and>
     (\<forall>s l x k. source_accounts_match d' s l x k = source_accounts_match d s l x k)"

lemma stable_refl [simp]: "stable d d"
  by (simp add: stable_def)

lemma stableI:
  assumes "db_shops d' = db_shops d" "counter_keys d' = counter_keys d" "lot_keys d' = lot_keys d"
    "grant_keys d' = grant_keys d"
    and "map (\<lambda>c. (pc_id c, pc_shopId c, pc_billingPeriodId c, pc_counter c)) (db_periodCounters d')
       = map (\<lambda>c. (pc_id c, pc_shopId c, pc_billingPeriodId c, pc_counter c)) (db_periodCounters d)"
  shows "stable d d'"
  unfolding stable_def using assms same_accounts_match [of d' d] by blast

text \<open>
  The row of the reservation after a compensation, and what the database keeps; \<open>f\<close> is the change
  of the row, \<open>evs\<close> the usage events appended.
\<close>

definition compensation_step ::
  "(reservation \<Rightarrow> reservation) \<Rightarrow> usage_event list \<Rightarrow> reservation \<Rightarrow> db \<Rightarrow> db \<Rightarrow> bool" where
  "compensation_step f evs r d d' \<longleftrightarrow> ledger_ok d' \<and> stable d d' \<and>
     db_reservations d' = update_key res_id (res_id r) f (db_reservations d) \<and>
     db_usageEvents d' = db_usageEvents d @ evs"

lemma stable_corrected: "stable d d1 \<Longrightarrow> stable d (corrected_db i n p r e d1)"
proof -
  assume d1: "stable d d1"
  have "stable d1 (corrected_db i n p r e d1)"
    by (rule stableI) (simp_all add: counter_keys_def lot_keys_def grant_keys_def)
  with d1 show ?thesis by (simp add: stable_def)
qed

lemma correction_step:
  assumes "correction_ok k p r d d1"
  shows "compensation_step (compensated_row i n p) [correction_event i n r e] r d (corrected_db i n p r e d1)"
proof -
  from assms have "stable d d1" by (simp add: correction_ok_def stable_def)
  with assms show ?thesis by (simp add: compensation_step_def correction_ok_def stable_corrected)
qed

lemma releases_stable:
  assumes "ledger_ok d"
  shows "free_release_in_transaction s k q d = Inr (fo, d') \<Longrightarrow> stable d d'"
    "paid_release_in_transaction s k q d = Inr (po, d') \<Longrightarrow> stable d d'"
    "promotional_release_in_transaction s k q d = Inr (mo, d') \<Longrightarrow> stable d d'"
    "purchased_release_in_transaction s k q d = Inr (uo, d') \<Longrightarrow> stable d d'"
proof -
  note keys = counter_keys_def lot_keys_def grant_keys_def keys_update_key
  show "free_release_in_transaction s k q d = Inr (fo, d') \<Longrightarrow> stable d d'"
    by (erule free_release_InrD [OF _ assms]) (auto intro!: stableI simp: keys release_counter_row_def)
  show "paid_release_in_transaction s k q d = Inr (po, d') \<Longrightarrow> stable d d'"
    by (erule paid_release_InrD [OF _ assms]) (auto intro!: stableI simp: keys release_period_row_def)
  show "promotional_release_in_transaction s k q d = Inr (mo, d') \<Longrightarrow> stable d d'"
    by (erule promotional_release_InrD [OF _ assms]) (auto intro!: stableI simp: keys release_grant_row_def)
  show "purchased_release_in_transaction s k q d = Inr (uo, d') \<Longrightarrow> stable d d'"
    by (erule purchased_release_InrD [OF _ assms])
      (auto intro!: stableI simp: keys release_lot_row_def purchased_release_counter_row_def)
qed

lemma release_reserved_stable:
  assumes "release_reserved_source (r, k) d = Inr d'" "ledger_ok d"
  shows "stable d d'"
  using assms releases_stable [OF assms(2)]
  by (cases k) (auto simp: release_reserved_source_def free_release_in_existing_transaction_def
      paid_release_in_existing_transaction_def promotional_release_in_existing_transaction_def
      purchased_release_in_existing_transaction_def Let_def and_then_Inr)

section \<open>One compensation\<close>

lemma compensate_source_InrE:
  assumes run: "compensate_source S i (r, k) now d = Inr (out, d')" and ok: "ledger_ok d"
    and r: "r \<in> set (db_reservations d)" "owned_by d k r"
  obtains (released) "res_status r = RESERVED" "out = Released_Credit"
      "\<not> truthy (res_committedUsageEventId r)" "\<not> truthy (res_compensationUsageEventId r)"
      "compensation_step (with_status RELEASED) [] r d d'"
  | (already) "res_status r = RELEASED" "out = Already_Released"
      "\<not> truthy (res_committedUsageEventId r)" "\<not> truthy (res_compensationUsageEventId r)" "d' = d"
  | (replay) p where "res_status r = COMMITTED" "out = Compensated p"
      "truthy (res_compensationUsageEventId r)" "d' = d" "read_committed_correction_replay d (r, k) = Inr p"
  | (fresh) p original where "res_status r = COMMITTED" "out = Compensated p"
      "res_compensationUsageEventId r = None"
      "read_committed_recovery_usage S d (r, k) = Inr original"
      "compensation_step (compensated_row i now p) [correction_event i now r original] r d d'"
      "\<forall>e\<in>set (db_usageEvents d). ue_id e \<noteq> i"
      "\<exists>v. account_spendable d k r = Some v \<and> account_spendable d' k r = Some (v + given_back p r)"
proof (cases "res_status r")
  case RESERVED
  with run have rel: "release_reserved_source (r, k) d = Inr d'" and out: "out = Released_Credit"
    and c: "\<not> truthy (res_committedUsageEventId r)" "\<not> truthy (res_compensationUsageEventId r)"
    by (auto simp: compensate_source_def and_then_Inr)
  note rel' = release_reserved_InrD [OF rel ok r]
  from rel'(2) RESERVED find_by_key [OF ok r(1)] have
    "db_reservations d' = update_key res_id (res_id r) (with_status RELEASED) (db_reservations d)"
    "db_usageEvents d' = db_usageEvents d"
    by (auto simp: source_step_def new_events_def)
  with rel'(1) release_reserved_stable [OF rel ok]
  have "compensation_step (with_status RELEASED) [] r d d'" by (simp add: compensation_step_def)
  with RESERVED out c show ?thesis by (intro released)
next
  case COMMITTED
  with run obtain p where c: "compensate_committed_source S i (r, k) now d = Inr (p, d')" and out: "out = Compensated p"
    by (auto simp: compensate_source_def and_then_Inr)
  show ?thesis
  proof (cases rule: compensate_committed_InrE [OF c ok r(1) COMMITTED])
    case 1
    with COMMITTED out show ?thesis by (intro replay)
  next
    case (2 original d1)
    then have "compensation_step (compensated_row i now p) [correction_event i now r original] r d d'"
      by (simp add: correction_step)
    with 2 COMMITTED out show ?thesis by (intro fresh [of p original]) (auto simp: correction_ok_def)
  qed
next
  case RELEASED
  with run show ?thesis by (intro already) (auto simp: compensate_source_def and_then_Inr)
next
  case AMBIGUOUS
  with run show ?thesis by (simp add: compensate_source_def)
qed

lemma compensate_source_ledger:
  assumes "compensate_source S i (r, k) now d = Inr (out, d')" "ledger_ok d"
    "r \<in> set (db_reservations d)" "owned_by d k r"
  shows "ledger_ok d'"
  using assms(2) by (cases rule: compensate_source_InrE [OF assms]) (auto simp: compensation_step_def)

section \<open>The usage of the message\<close>

lemma remove_usage_InrD:
  assumes "remove_exact_automated_usage s m u d = Inr d'"
  shows "d' = d\<lparr>db_usageEvents := filter (\<lambda>e. \<not> (\<exists>v\<in>set_option u. ue_id e = ue_id v \<and> ue_shopId e = s \<and>
     is_automated_usage m e)) (db_usageEvents d)\<rparr>"
  using assms by (cases u) (auto simp: remove_exact_automated_usage_def Let_def and_then_Inr)

lemma remove_usage_ledger: "remove_exact_automated_usage s m u d = Inr d' \<Longrightarrow> ledger_ok d \<Longrightarrow> ledger_ok d'"
  by (drule remove_usage_InrD, rule ledger_frame, assumption) simp_all

lemma read_usage_InrD:
  assumes "read_exact_automated_usage d s m = Inr u"
  shows "filter (is_automated_usage m) (db_usageEvents d) = (case u of None \<Rightarrow> [] | Some v \<Rightarrow> [v])"
    "\<forall>v\<in>set_option u. ue_shopId v = s"
  using assms by (auto simp: read_exact_automated_usage_def Let_def and_then_Inr min_def split: list.splits option.splits if_splits)

lemma read_usage_removed:
  assumes u: "read_exact_automated_usage d s m = Inr u"
    and ev: "db_usageEvents d1 = db_usageEvents d @ evs" "\<forall>e\<in>set evs. \<not> is_automated_usage m e"
    and rm: "remove_exact_automated_usage s m u d1 = Inr d2"
  shows "read_exact_automated_usage d2 s m = Inr None"
proof -
  let ?P = "\<lambda>e. \<exists>v\<in>set_option u. ue_id e = ue_id v \<and> ue_shopId e = s \<and> is_automated_usage m e"
  note r = read_usage_InrD [OF u]
  have "filter (is_automated_usage m) (db_usageEvents d2)
      = filter (\<lambda>e. \<not> ?P e) (filter (is_automated_usage m) (db_usageEvents d1))"
    unfolding remove_usage_InrD [OF rm] by (simp add: conj_commute)
  also have "filter (is_automated_usage m) (db_usageEvents d1) = (case u of None \<Rightarrow> [] | Some v \<Rightarrow> [v])"
    using r(1) ev by (simp add: filter_empty_conv)
  also have "filter (\<lambda>e. \<not> ?P e) (case u of None \<Rightarrow> [] | Some v \<Rightarrow> [v]) = []"
  proof (cases u)
    case (Some v)
    then have "v \<in> set (filter (is_automated_usage m) (db_usageEvents d))" using r(1) by simp
    with Some r(2) show ?thesis by simp
  qed simp
  finally show ?thesis by (simp add: read_exact_automated_usage_def)
qed

lemma find_row_filter: "find_row P t = Some e \<Longrightarrow> Q e \<Longrightarrow> find_row P (filter Q t) = Some e"
  by (induction t) (auto split: if_splits)

text \<open>An event of a recovery conversation is found after the removal if it was found before.\<close>

lemma find_event_removed:
  assumes "remove_exact_automated_usage s m u d = Inr d'" "find_usage_event d i = Some e"
    and "ue_metric e = RECOVERY_CONVERSATION"
  shows "find_usage_event d' i = Some e"
  using assms(2,3) unfolding remove_usage_InrD [OF assms(1)]
  by (auto simp: find_usage_event_def is_automated_usage_def intro!: find_row_filter split: option.splits)

section \<open>Every outcome keeps the ledger\<close>

lemma reconcile_message_ledger:
  assumes "reconcile_message S i now m c D = Inr (out, D')" "ledger_ok (dd_db D)"
  shows "ledger_ok (dd_db D')"
proof (cases "D' = D")
  case False
  with assms(1) obtain u source d1 d2 res where
    src: "resolve_exact_recovery_source S D m (cv_checkoutRecovery c) (the (conversation_shop c)) u = Inr source"
    and comp: "(case source of None \<Rightarrow> Inr (Not_Recovery, dd_db D)
       | Some src \<Rightarrow> compensate_source S i src now (dd_db D)) = Inr (res, d1)"
    and rm: "remove_exact_automated_usage (the (conversation_shop c)) (cm_id m) u d1 = Inr d2"
    and D': "D' = D\<lparr>dd_db := d2\<rparr>"
    by (auto simp: reconcile_message_def Let_def and_then_Inr split: if_splits)
  have "ledger_ok d1"
  proof (cases source)
    case None
    with comp assms(2) show ?thesis by simp
  next
    case (Some p)
    obtain r k where p: "p = (r, k)" by fastforce
    with Some comp have "compensate_source S i (r, k) now (dd_db D) = Inr (res, d1)" by simp
    with resolve_source_InrD [OF src [unfolded Some p] assms(2)] assms(2) show ?thesis
      by (blast intro: compensate_source_ledger)
  qed
  with remove_usage_ledger [OF rm] D' show ?thesis by simp
qed (use assms in simp)

lemma reconcile_locked_ledger:
  assumes "reconcile_locked S i now ident D = Inr (out, D')" "ledger_ok (dd_db D)"
  shows "ledger_ok (dd_db D')"
  using assms reconcile_message_ledger
  by (auto simp: reconcile_locked_def Let_def and_then_Inr split: option.splits if_splits)

lemma reconcile_ledger:
  assumes "ledger_ok (dd_db D)" "\<And>n D. ledger_ok (dd_db D) \<Longrightarrow> ledger_ok (dd_db (env_step E n D))"
  shows "ledger_ok (dd_db (snd (reconcile S E ident D)))"
  unfolding reconcile_def
  by (rule with_retry_invariant [where I = "\<lambda>D. ledger_ok (dd_db D)", OF assms])
    (auto dest: reconcile_locked_ledger)

end
