(* ===== verification/Delivery_Replay.thy ===== *)
theory Delivery_Replay
  imports Delivery_Reconcile
begin

text \<open>
  A message that has been reconciled is reconciled again without any effect: the reservation it
  leads to is found again with the evidence of the first run, and the replay changes nothing.
\<close>

section \<open>The reservation is found again\<close>

definition keeps_source :: "(reservation \<Rightarrow> reservation) \<Rightarrow> bool" where
  "keeps_source f \<longleftrightarrow> (\<forall>x. res_id (f x) = res_id x \<and> res_sourceKey (f x) = res_sourceKey x \<and>
     res_shopId (f x) = res_shopId x \<and> res_quantity (f x) = res_quantity x \<and>
     res_counterId (f x) = res_counterId x \<and>
     res_purchasedCreditPurchaseId (f x) = res_purchasedCreditPurchaseId x \<and>
     res_promotionalCreditGrantId (f x) = res_promotionalCreditGrantId x \<and>
     res_billingPeriodEntitlementCounterId (f x) = res_billingPeriodEntitlementCounterId x)"

lemma keeps_source_rows [simp]:
  "keeps_source (\<lambda>x. x)" "keeps_source (with_status st)" "keeps_source (compensated_row i n p)"
  by (simp_all add: keeps_source_def)

lemma keeps_source_kind: "keeps_source f \<Longrightarrow> reservation_source_kind (f x) = reservation_source_kind x"
  by (simp add: keeps_source_def reservation_source_kind_def)

lemma keeps_source_accounts:
  "keeps_source f \<Longrightarrow> source_accounts_match d s l (f x) k = source_accounts_match d s l x k"
  by (cases k) (simp_all add: keeps_source_def shop_counter_matches_def cong: option.case_cong)

lemma find_exact_again:
  assumes "find_exact_recovery_reservation_source S d s a = Inr (Some (r, k))"
    and "db_reservations d' = update_key res_id (res_id r) f (db_reservations d)" "stable d d'" "keeps_source f"
  shows "find_exact_recovery_reservation_source S d' s a = Inr (Some (f r, k))"
proof -
  let ?l = "createRecoveryIdempotencyKey S s (''recovery-outreach:'' @ a)"
  let ?Q = "\<lambda>r. res_sourceKey r = ?l \<or>
     (starts_with paid_key_prefix (res_sourceKey r) \<and> ends_with ('':'' @ ?l) (res_sourceKey r))"
  define t where "t = take 2 (filter ?Q (db_reservations d))"
  have len: "length t \<le> 1 \<Longrightarrow> t = x # u \<Longrightarrow> u = []" for x u by simp
  from assms(1) have t: "t = [r]" and r: "res_shopId r = s" "res_quantity r = 1"
    and kind: "reservation_source_kind r = Inr k" and acc: "source_accounts_match d s ?l r k = Inr ()"
    unfolding find_exact_recovery_reservation_source_def Let_def t_def [symmetric]
    by (auto simp: and_then_Inr split: list.splits)
  have "take 2 (filter ?Q (db_reservations d')) = update_key res_id (res_id r) f t"
    unfolding assms(2) t_def using assms(4)
    by (subst filter_update_key) (auto simp: keeps_source_def update_key_def take_map)
  then have t': "take 2 (filter ?Q (db_reservations d')) = [f r]" by (simp add: t update_key_def)
  have "source_accounts_match d' s ?l (f r) k = Inr ()"
    using acc assms(3) keeps_source_accounts [OF assms(4)] by (simp add: stable_def)
  moreover have "res_shopId (f r) = s" "res_quantity (f r) = 1" using r assms(4) by (simp_all add: keeps_source_def)
  ultimately show ?thesis
    unfolding find_exact_recovery_reservation_source_def Let_def t'
    using kind keeps_source_kind [OF assms(4)] by simp
qed

text \<open>
  Without the usage of the message, an automated message is still resolved when the attempt is
  linked to it; if it is not, the message no longer leads to a credit.
\<close>

lemma named_attempt_again:
  assumes "named_attempt m command u = Inr named"
  shows "named_attempt m command None = Inr named \<or>
    cm_senderType m = SENDER_AUTOMATION \<and> named \<noteq> None \<and> named_attempt m command None = Inr (Some None)"
  using assms by (cases "cm_senderType m") (auto simp: named_attempt_def and_then_Inr)

lemma attempt_identity_truthy:
  "attempt_identity D m x = Inr y \<Longrightarrow> truthy y \<Longrightarrow> find_attempt_of_message D (cm_id m) = None \<Longrightarrow> y = x"
  by (simp add: attempt_identity_def)

lemma check_attempt_usage:
  assumes "check_attempt m recId cmd u x = Inr a"
    and "cm_senderType m = SENDER_AUTOMATION \<Longrightarrow> oa_outboundMessageId a \<noteq> None"
  shows "check_attempt m recId cmd None x = Inr a"
  using assms by (auto simp: check_attempt_def Let_def and_then_Inr split: option.splits)

lemma check_attempt_found: "check_attempt m recId cmd u x = Inr a \<Longrightarrow> x = Some a"
  by (auto simp: check_attempt_def Let_def and_then_Inr split: option.splits)

lemma lookups_db [simp]:
  "find_command_of_message (D\<lparr>dd_db := d2\<rparr>) i = find_command_of_message D i"
  "find_attempt (D\<lparr>dd_db := d2\<rparr>) i = find_attempt D i"
  "find_attempt_of_message (D\<lparr>dd_db := d2\<rparr>) i = find_attempt_of_message D i"
  "attempt_identity (D\<lparr>dd_db := d2\<rparr>) m x = attempt_identity D m x"
  "find_message (D\<lparr>dd_db := d2\<rparr>) k = find_message D k"
  "conversation_of (D\<lparr>dd_db := d2\<rparr>) m = conversation_of D m"
  by (simp_all add: find_command_of_message_def find_attempt_def find_attempt_of_message_def attempt_identity_def
      find_message_def conversation_of_def find_conversation_def split: message_identity.splits)

text \<open>
  The second run: the message leads to the reservation of the first run, or, when the attempt of
  an automated message was known only from the deleted usage, nowhere.
\<close>

lemma attempt_source_again:
  assumes run: "attempt_source S D m recId cmd s u named = Inr source"
    and named': "named' = named \<or> cm_senderType m = SENDER_AUTOMATION \<and> named' = None"
    and linked: "cm_senderType m = SENDER_AUTOMATION \<longrightarrow> named' = None"
    and ids: "distinct (map oa_id (dd_attempts D))"
    and again: "\<And>a src. source = Some src \<Longrightarrow>
      find_exact_recovery_reservation_source S (dd_db D) s a = Inr (Some src) \<Longrightarrow>
      find_exact_recovery_reservation_source S d2 s a = Inr (Some (g src))"
  shows "attempt_source S (D\<lparr>dd_db := d2\<rparr>) m recId cmd s None named' \<in> {Inr None, Inr (map_option g source)}"
proof (cases "find_attempt_of_message D (cm_id m)")
  case None
  then have id: "attempt_identity D m x = Inr x" for x by (simp add: attempt_identity_def)
  show ?thesis
  proof (cases "truthy named'")
    case True
    with named' linked have eq: "named' = named" and human: "cm_senderType m \<noteq> SENDER_AUTOMATION"
      by (auto simp: truthy_def)
    from run True eq obtain a where a: "check_attempt m recId cmd u (find_attempt D (the named)) = Inr a"
      "find_exact_recovery_reservation_source S (dd_db D) s (oa_id a) = Inr source" "source \<noteq> None"
      by (auto simp: attempt_source_def id and_then_Inr)
    then obtain src where src: "source = Some src" by auto
    from check_attempt_usage [OF a(1)] human again [OF src] a src True eq show ?thesis
      by (simp add: attempt_source_def id)
  qed (simp add: attempt_source_def id)
next
  case (Some b)
  then have b: "find_attempt D (oa_id b) = Some b" "oa_outboundMessageId b = Some (cm_id m)"
    using find_row_SomeD [of _ "dd_attempts D" b] find_row_key [OF ids]
    by (auto simp: find_attempt_def find_attempt_of_message_def)
  from run Some have id: "attempt_identity D m named = Inr (Some (oa_id b))"
    by (auto simp: attempt_source_def attempt_identity_def and_then_Inr)
  with Some named' have id': "attempt_identity D m named' = Inr (Some (oa_id b))"
    by (auto simp: attempt_identity_def truthy_def and_then_Inr)
  show ?thesis
  proof (cases "truthy (Some (oa_id b))")
    case True
    with run id b obtain a where a: "check_attempt m recId cmd u (Some b) = Inr a"
      "find_exact_recovery_reservation_source S (dd_db D) s (oa_id a) = Inr source" "source \<noteq> None"
      by (auto simp: attempt_source_def and_then_Inr)
    then obtain src where src: "source = Some src" by auto
    from check_attempt_found [OF a(1)] check_attempt_usage [OF a(1)] b again [OF src] a src True id' show ?thesis
      by (simp add: attempt_source_def)
  qed (simp add: attempt_source_def id')
qed

lemma resolve_again:
  assumes run: "resolve_exact_recovery_source S D m rec s u = Inr source"
    and ids: "distinct (map oa_id (dd_attempts D))"
    and again: "\<And>a src. source = Some src \<Longrightarrow>
      find_exact_recovery_reservation_source S (dd_db D) s a = Inr (Some src) \<Longrightarrow>
      find_exact_recovery_reservation_source S d2 s a = Inr (Some (g src))"
  shows "resolve_exact_recovery_source S (D\<lparr>dd_db := d2\<rparr>) m rec s None \<in> {Inr None, Inr (map_option g source)}"
proof (cases rec)
  case None
  then show ?thesis by (simp add: resolve_exact_recovery_source_def)
next
  case (Some rr)
  let ?cmd = "find_command_of_message D (cm_id m)"
  from run Some obtain recId named where rec: "rec = Some (recId, s)"
    and cmd: "\<forall>c\<in>set_option ?cmd. cmd_shopId c = s \<and> cmd_conversationId c = cm_conversationId m"
    and named: "named_attempt m ?cmd u = Inr named"
    and rest: "(case named of None \<Rightarrow> Inr None | Some n \<Rightarrow> attempt_source S D m recId ?cmd s u n) = Inr source"
    by (cases rr) (auto simp: resolve_exact_recovery_source_def Let_def and_then_Inr)
  show ?thesis
  proof (cases named)
    case None
    with named_attempt_again [OF named] cmd show ?thesis
      by (auto simp: rec resolve_exact_recovery_source_def Let_def)
  next
    case (Some n)
    define n' where "n' = (if cm_senderType m = SENDER_AUTOMATION then None else n)"
    have "named_attempt m ?cmd None = Inr (Some n')"
      using named Some by (cases "cm_senderType m") (auto simp: n'_def named_attempt_def and_then_Inr)
    moreover have "attempt_source S (D\<lparr>dd_db := d2\<rparr>) m recId ?cmd s None n' \<in> {Inr None, Inr (map_option g source)}"
    proof (rule attempt_source_again [OF _ _ _ ids again])
      show "attempt_source S D m recId ?cmd s u n = Inr source" using rest Some by simp
    qed (simp_all add: n'_def)
    ultimately show ?thesis using cmd by (simp add: rec resolve_exact_recovery_source_def Let_def)
  qed
qed

section \<open>The second run changes nothing\<close>

text \<open>What a second run of a reconciled message returns.\<close>

fun repeated_outcome :: "compensation_outcome \<Rightarrow> compensation_outcome" where
  "repeated_outcome Released_Credit = Already_Released"
| "repeated_outcome out = out"

text \<open>The usage event of a committed reservation is one of a recovery conversation.\<close>

definition committed_events_ok :: "db \<Rightarrow> bool" where
  "committed_events_ok d \<longleftrightarrow> (\<forall>r\<in>set (db_reservations d). \<forall>e.
     find_usage_event d (res_committedUsageEventId r) = Some e \<longrightarrow> ue_metric e = RECOVERY_CONVERSATION)"

lemma correction_found:
  assumes "\<forall>e\<in>set (db_usageEvents d). ue_id e \<noteq> i" "db_usageEvents d' = db_usageEvents d @ [correction_event i n r e]"
  shows "find_usage_event d' (Some i) = Some (correction_event i n r e)"
    "find_usage_event d j = Some x \<Longrightarrow> find_usage_event d' j = Some x"
proof -
  have "find_row (\<lambda>e. ue_id e = i) (db_usageEvents d) = None" using assms(1) by (simp add: find_row_None_iff)
  then show "find_usage_event d' (Some i) = Some (correction_event i n r e)"
    by (simp add: find_usage_event_def find_row_append assms(2))
  show "find_usage_event d j = Some x \<Longrightarrow> find_usage_event d' j = Some x"
    by (cases j) (simp_all add: find_usage_event_def find_row_append assms(2))
qed

lemma is_correction_compensated:
  assumes "is_source_usage S (r, k) original"
  shows "is_correction_of (compensated_row i n p r) original (correction_event i n r original)"
  using assms by (simp add: is_correction_of_def is_source_usage_def correction_event_def truthy_def)

lemma replay_repeats:
  assumes "read_committed_correction_replay d (r, k) = Inr p" "committed_events_ok d" "r \<in> set (db_reservations d)"
    and rm: "remove_exact_automated_usage s m u d = Inr d2"
  shows "read_committed_correction_replay d2 (r, k) = Inr p"
proof -
  from assms(1) obtain original negative where
    o: "find_usage_event d (res_committedUsageEventId r) = Some original"
    and n: "find_usage_event d (res_compensationUsageEventId r) = Some negative"
    and c: "is_correction_of r original negative"
    by (auto simp: read_committed_correction_replay_def Let_def and_then_Inr expect_Inr require_Inr)
  have "ue_metric original = RECOVERY_CONVERSATION" "ue_metric negative = RECOVERY_CONVERSATION"
    using assms(2,3) o c by (auto simp: committed_events_ok_def is_correction_of_def)
  then have "find_usage_event d2 (res_committedUsageEventId r) = Some original"
    "find_usage_event d2 (res_compensationUsageEventId r) = Some negative"
    using find_event_removed [OF rm] o n by auto
  with assms(1) o n show ?thesis
    by (simp add: read_committed_correction_replay_def Let_def)
qed

lemma fresh_repeats:
  assumes read: "read_committed_recovery_usage S d (r, k) = Inr original"
    and new: "\<forall>e\<in>set (db_usageEvents d). ue_id e \<noteq> i" "i \<noteq> []"
    and ev: "db_usageEvents d1 = db_usageEvents d @ [correction_event i n r original]"
    and rm: "remove_exact_automated_usage s m u d1 = Inr d2"
  shows "read_committed_correction_replay d2 (compensated_row i n p r, k) = Inr p"
proof -
  note r = read_committed_recovery_usage_InrD [OF read]
  then have "ue_metric original = RECOVERY_CONVERSATION" by (simp add: is_source_usage_def)
  then have "find_usage_event d2 (res_committedUsageEventId r) = Some original"
    using find_event_removed [OF rm] correction_found(2) [OF new(1) ev] r by blast
  moreover have "find_usage_event d2 (Some i) = Some (correction_event i n r original)"
    using find_event_removed [OF rm correction_found(1) [OF new(1) ev]] by simp
  moreover have "truthy (res_committedUsageEventId r)"
    using read by (auto simp: read_committed_recovery_usage_def Let_def and_then_Inr)
  ultimately show ?thesis
    using is_correction_compensated [of S r k original i n p] r new(2)
    by (simp add: read_committed_correction_replay_def Let_def truthy_def)
qed

lemma stable_removed:
  assumes "stable d d1" "remove_exact_automated_usage s m u d1 = Inr d2"
  shows "stable d d2"
proof -
  have "stable d1 d2"
    unfolding remove_usage_InrD [OF assms(2)]
    by (rule stableI) (simp_all add: counter_keys_def lot_keys_def grant_keys_def)
  with assms(1) show ?thesis by (simp add: stable_def)
qed

text \<open>What is left of a compensation for the next run.\<close>

definition settled_for ::
  "shared \<Rightarrow> (reservation \<Rightarrow> reservation) \<Rightarrow> recovery_source \<Rightarrow> compensation_outcome \<Rightarrow> db \<Rightarrow> db \<Rightarrow> bool" where
  "settled_for S f src out d d2 \<longleftrightarrow> (case src of (r, k) \<Rightarrow>
     keeps_source f \<and> stable d d2 \<and> db_reservations d2 = update_key res_id (res_id r) f (db_reservations d) \<and>
     (\<forall>i now. compensate_source S i (f r, k) now d2 = Inr (repeated_outcome out, d2)))"

lemma update_key_same [simp]: "update_key key k (\<lambda>x. x) t = t"
  by (simp add: update_key_def)

lemma compensate_source_again:
  assumes run: "compensate_source S i (r, k) now d = Inr (out, d1)" and ok: "ledger_ok d"
    and r: "r \<in> set (db_reservations d)" "owned_by d k r" and i: "i \<noteq> []"
    and ev: "committed_events_ok d" and rm: "remove_exact_automated_usage s m u d1 = Inr d2"
  shows "\<exists>f. settled_for S f (r, k) out d d2"
    "\<exists>evs. db_usageEvents d1 = db_usageEvents d @ evs \<and> (\<forall>e\<in>set evs. \<not> is_automated_usage mid e)"
proof -
  have d2: "db_reservations d2 = db_reservations d1" using remove_usage_InrD [OF rm] by simp
  have "(\<exists>f. settled_for S f (r, k) out d d2) \<and>
    (\<exists>evs. db_usageEvents d1 = db_usageEvents d @ evs \<and> (\<forall>e\<in>set evs. \<not> is_automated_usage mid e))"
  proof (cases rule: compensate_source_InrE [OF run ok r])
    case released: 1
    then have "stable d d2" using stable_removed [OF _ rm] by (simp add: compensation_step_def)
    with released d2 have "settled_for S (with_status RELEASED) (r, k) out d d2"
      by (simp add: settled_for_def compensation_step_def compensate_source_def)
    with released show ?thesis by (auto simp: compensation_step_def)
  next
    case already: 2
    then have "settled_for S (\<lambda>x. x) (r, k) out d d2"
      using stable_removed [OF stable_refl rm] d2 by (simp add: settled_for_def compensate_source_def)
    with already show ?thesis by auto
  next
    case replay: (3 p)
    from replay_repeats [OF replay(5) ev r(1)] rm replay(4)
    have "read_committed_correction_replay d2 (r, k) = Inr p" by simp
    with replay have "settled_for S (\<lambda>x. x) (r, k) out d d2"
      using stable_removed [OF stable_refl rm] d2
      by (simp add: settled_for_def compensate_source_def compensate_committed_source_def)
    with replay show ?thesis by auto
  next
    case fresh: (4 p original)
    have e1: "db_usageEvents d1 = db_usageEvents d @ [correction_event i now r original]"
      and st: "stable d d2"
      using fresh(5) stable_removed [OF _ rm] by (simp_all add: compensation_step_def)
    from fresh_repeats [OF fresh(4,6) i e1 rm]
    have "settled_for S (compensated_row i now p) (r, k) out d d2"
      using fresh st d2 i
      by (simp add: settled_for_def compensate_source_def compensate_committed_source_def compensation_step_def truthy_def)
    with e1 show ?thesis by (auto simp: is_automated_usage_def)
  qed
  then show "\<exists>f. settled_for S f (r, k) out d d2"
    "\<exists>evs. db_usageEvents d1 = db_usageEvents d @ evs \<and> (\<forall>e\<in>set evs. \<not> is_automated_usage mid e)" by simp_all
qed


lemma reconcile_message_again:
  assumes run: "reconcile_message S i now m c D = Inr (out, D')" and ok: "ledger_ok (dd_db D)"
    and ids: "distinct (map oa_id (dd_attempts D))" and i: "i \<noteq> []" and ev: "committed_events_ok (dd_db D)"
  shows "\<exists>out'. reconcile_message S i' now' m c D' = Inr (out', D') \<and> (out' = repeated_outcome out \<or> out' = Not_Recovery)"
    "\<exists>d2. D' = D\<lparr>dd_db := d2\<rparr> \<and> db_shops d2 = db_shops (dd_db D)"
proof -
  let ?s = "the (conversation_shop c)" and ?d = "dd_db D"
  let ?stop = "cm_direction m \<noteq> OUTBOUND \<or> cm_status m \<noteq> MSG_FAILED \<or> \<not> is_recipient_undeliverable (cm_providerFailureCode m)"
  have "(\<exists>out'. reconcile_message S i' now' m c D' = Inr (out', D') \<and>
      (out' = repeated_outcome out \<or> out' = Not_Recovery)) \<and>
    (\<exists>d2. D' = D\<lparr>dd_db := d2\<rparr> \<and> db_shops d2 = db_shops ?d)"
  proof (cases ?stop)
    case True
    with run show ?thesis by (auto simp: reconcile_message_def intro: exI [of _ "dd_db D"])
  next
    case False
    with run obtain u source d1 d2 where
      own: "truthy (conversation_shop c) \<and> (\<not> truthy (cv_shopId c) \<or> cv_shopId c = conversation_shop c)"
      and u: "read_exact_automated_usage ?d ?s (cm_id m) = Inr u"
      and src: "resolve_exact_recovery_source S D m (cv_checkoutRecovery c) ?s u = Inr source"
      and comp: "(case source of None \<Rightarrow> Inr (Not_Recovery, ?d)
         | Some src \<Rightarrow> compensate_source S i src now ?d) = Inr (out, d1)"
      and rm: "remove_exact_automated_usage ?s (cm_id m) u d1 = Inr d2" and D': "D' = D\<lparr>dd_db := d2\<rparr>"
      by (auto simp: reconcile_message_def Let_def and_then_Inr split: if_splits)
    have again: "(\<exists>g out'. resolve_exact_recovery_source S D' m (cv_checkoutRecovery c) ?s None
          \<in> {Inr None, Inr (map_option g source)} \<and>
        (case map_option g source of None \<Rightarrow> out' = Not_Recovery
         | Some src \<Rightarrow> compensate_source S i' src now' d2 = Inr (out', d2) \<and> out' = repeated_outcome out)) \<and>
      stable ?d d2 \<and> (\<exists>evs. db_usageEvents d1 = db_usageEvents ?d @ evs \<and> (\<forall>e\<in>set evs. \<not> is_automated_usage (cm_id m) e))"
    proof (cases source)
      case None
      with comp have d1: "d1 = ?d" by simp
      from resolve_again [OF src ids, of d2 id] None have
        "resolve_exact_recovery_source S D' m (cv_checkoutRecovery c) ?s None = Inr None" by (simp add: D')
      with None stable_removed [OF _ rm, of ?d] d1 show ?thesis by auto
    next
      case (Some p)
      obtain r k where p: "p = (r, k)" by fastforce
      with Some comp have c1: "compensate_source S i (r, k) now ?d = Inr (out, d1)" by simp
      note r = resolve_source_InrD [OF src [unfolded Some p] ok]
      obtain f where f: "settled_for S f (r, k) out ?d d2"
        using compensate_source_again(1) [OF c1 ok r(1,4) i ev rm] by blast
      have "resolve_exact_recovery_source S D' m (cv_checkoutRecovery c) ?s None
          \<in> {Inr None, Inr (map_option (\<lambda>(r, k). (f r, k)) source)}"
        unfolding D' using f Some p
        by (intro resolve_again [OF src ids]) (auto simp: settled_for_def intro: find_exact_again)
      moreover have "compensate_source S i' (f r, k) now' d2 = Inr (repeated_outcome out, d2)" "stable ?d d2"
        using f by (auto simp: settled_for_def)
      ultimately show ?thesis
        using Some p compensate_source_again(2) [OF c1 ok r(1,4) i ev rm]
        by (intro conjI exI [of _ "\<lambda>(r, k). (f r, k)"] exI [of _ "repeated_outcome out"]) auto
    qed
    then obtain g out' where g: "resolve_exact_recovery_source S D' m (cv_checkoutRecovery c) ?s None
          \<in> {Inr None, Inr (map_option g source)}"
      "case map_option g source of None \<Rightarrow> out' = Not_Recovery
         | Some src \<Rightarrow> compensate_source S i' src now' d2 = Inr (out', d2) \<and> out' = repeated_outcome out" by blast
    have "read_exact_automated_usage d2 ?s (cm_id m) = Inr None"
      using again read_usage_removed [OF u _ _ rm] by blast
    then have eq: "reconcile_message S i' now' m c D' =
        and_then (resolve_exact_recovery_source S D' m (cv_checkoutRecovery c) ?s None) (\<lambda>source.
        and_then (case source of None \<Rightarrow> Inr (Not_Recovery, d2)
          | Some src \<Rightarrow> compensate_source S i' src now' d2) (\<lambda>(result, d1).
        Inr (result, D'\<lparr>dd_db := d1\<rparr>)))"
      using False own by (simp add: reconcile_message_def Let_def D' remove_exact_automated_usage_def cong: option.case_cong)
    from g have "reconcile_message S i' now' m c D' = Inr (Not_Recovery, D') \<or>
        reconcile_message S i' now' m c D' = Inr (repeated_outcome out, D')"
      unfolding eq by (cases source) (auto simp: D')
    with D' again show ?thesis by (auto simp: stable_def)
  qed
  then show "\<exists>out'. reconcile_message S i' now' m c D' = Inr (out', D') \<and> (out' = repeated_outcome out \<or> out' = Not_Recovery)"
    "\<exists>d2. D' = D\<lparr>dd_db := d2\<rparr> \<and> db_shops d2 = db_shops (dd_db D)" by simp_all
qed

lemma reconcile_locked_again:
  assumes run: "reconcile_locked S i now ident D = Inr (out, D')" and ok: "ledger_ok (dd_db D)"
    and ids: "distinct (map oa_id (dd_attempts D))" and i: "i \<noteq> []" and ev: "committed_events_ok (dd_db D)"
  shows "\<exists>out'. reconcile_locked S i' now' ident D' = Inr (out', D') \<and>
    (out' = repeated_outcome out \<or> out' = Not_Recovery)"
proof (cases "\<exists>m. find_message D ident = Some m \<and> cm_status m = MSG_FAILED")
  case False
  with run show ?thesis by (auto simp: reconcile_locked_def split: option.splits if_splits)
next
  case True
  then obtain pt where pt: "find_message D ident = Some pt" "cm_status pt = MSG_FAILED" by blast
  with run obtain m c where m: "find_message D (By_Message (cm_id pt)) = Some m" "conversation_of D m = Some c"
    and rm: "reconcile_message S i now m c D = Inr (out, D')"
    by (auto simp: reconcile_locked_def Let_def and_then_Inr expect_Inr)
  from reconcile_message_again(2) [OF rm ok ids i ev] obtain d2 where D': "D' = D\<lparr>dd_db := d2\<rparr>"
    and sh: "db_shops d2 = db_shops (dd_db D)" by blast
  have "reconcile_locked S i' now' ident D' = reconcile_message S i' now' m c D'"
    using run pt m by (simp add: reconcile_locked_def Let_def D' sh and_then_Inr)
  with reconcile_message_again(1) [OF rm ok ids i ev] show ?thesis by simp
qed

end
