(* ===== verification/Delivery_Properties.thy ===== *)
theory Delivery_Properties
  imports Delivery_Replay Example_Store
begin

text \<open>
  The properties of the delivery compensation, each applied to a shop with one committed lifetime
  credit whose recovery message could not be delivered.
\<close>

section \<open>Example\<close>

definition ex_spent :: reservation where
  "ex_spent = (new_reservation ''r'' ''s'' ''s:recovery-outreach:a'' 1)
     \<lparr>res_status := COMMITTED, res_counterId := Some ''f'', res_committedUsageEventId := Some ''e''\<rparr>"

definition ex_spent_event :: usage_event where
  "ex_spent_event = new_usage_event ''e'' ''s'' 1 ''s:s:recovery-outreach:a'' ''FREE_RECOVERY_RESERVATION'' ''r'' SHOPIFY"

definition ex_spent_db :: db where
  "ex_spent_db = ex_db\<lparr>db_reservations := [ex_spent],
     db_shopCounters := [(ex_counter ''f'' LIFETIME_FREE_RECOVERY_CREDITS 5 0)\<lparr>sc_committedQuantity := 1\<rparr>],
     db_usageEvents := [ex_spent_event]\<rparr>"

definition ex_delivery :: delivery_db where
  "ex_delivery = \<lparr>dd_db = ex_spent_db,
     dd_messages = [\<lparr>cm_id = ''m'', cm_providerMessageId = Some ''wamid'', cm_conversationId = ''c'',
       cm_direction = OUTBOUND, cm_senderType = SENDER_AUTOMATION, cm_status = MSG_FAILED,
       cm_providerFailureCode = Some ''131026'', cm_sentAt = Some 1, cm_deliveredAt = None, cm_readAt = None,
       cm_failedAt = Some 5, cm_createdAt = 0\<rparr>],
     dd_conversations = [\<lparr>cv_id = ''c'', cv_shopId = None, cv_checkoutRecovery = Some (''rec'', ''s'')\<rparr>],
     dd_commands = [],
     dd_attempts = [\<lparr>oa_id = ''a'', oa_checkoutRecoveryId = ''rec'', oa_outboundMessageId = Some ''m'', oa_sequence = 1,
       oa_recipient = ''441'', oa_status = OUTREACH_WAITING_FOR_RESPONSE, oa_failureCode = None, oa_closedAt = None\<rparr>],
     dd_reachability = [], dd_suppressionDays = None\<rparr>"

lemma ex_spent_owned: "owned_by ex_spent_db Free_Source ex_spent"
  by (simp add: ex_spent_def ex_spent_db_def ex_defs counter_keys_def)

lemma ex_spent_db_ledger: "ledger_ok ex_spent_db"
proof -
  have "reservation_ok ex_spent_db ex_spent"
    using ex_spent_owned unfolding reservation_ok_def
    by (intro conjI exI [of _ Free_Source]) (simp_all add: ex_spent_def new_reservation_def)
  then show ?thesis
    by (simp add: ledger_defs pool_ok_def counter_sum_def lot_sum_def purchased_counter_of_def ex_spent_db_def)
      (simp add: ex_defs ex_spent_def held_weight_def held_def spent_weight_def)
qed

lemma ex_delivery_ledger: "ledger_ok (dd_db ex_delivery)"
  by (simp add: ex_delivery_def ex_spent_db_ledger)

definition ex_delivery_env :: "delivery_db env" where
  "ex_delivery_env = \<lparr>env_step = (\<lambda>n s. s), env_abort = (\<lambda>n. None), env_now = (\<lambda>n. 10), env_ids = (\<lambda>n k. ''x'')\<rparr>"

lemma ex_committed_events: "committed_events_ok ex_spent_db"
  by (simp add: committed_events_ok_def ex_spent_db_def ex_spent_def ex_spent_event_def find_usage_event_def
      new_usage_event_def new_reservation_def)

lemma run_exists: "\<not> isl x \<Longrightarrow> fst (projr x) = a \<Longrightarrow> \<exists>d. x = Inr (a, d)"
  by (cases x) (auto simp: prod_eq_iff)

lemma row_sum_key:
  assumes "distinct (map key t)" "x \<in> set t"
  shows "row_sum (\<lambda>e. if key e = key x then w e else 0) t = w x"
  using assms
proof (induction t)
  case (Cons e t)
  show ?case
  proof (cases "e = x")
    case True
    with key_fresh [OF Cons.prems(1)] have "row_sum (\<lambda>e. if key e = key x then w e else 0) t = 0"
      by (intro row_sum_zero) auto
    with True show ?thesis by simp
  next
    case False
    with Cons.prems key_fresh [OF Cons.prems(1), of x] have "x \<in> set t" "key e \<noteq> key x" by auto
    with Cons show ?thesis by simp
  qed
qed simp

section \<open>Properties\<close>

text \<open>
  C7. Reconciling the failure of a message keeps the ledger, whatever it returns or throws and
  whatever other transactions that keep the ledger do between its attempts.
\<close>

theorem delivery_reconcile_keeps_ledger:
  assumes "ledger_ok (dd_db D)" "\<forall>n D. ledger_ok (dd_db D) \<longrightarrow> ledger_ok (dd_db (env_step E n D))"
  shows "ledger_ok (dd_db (snd (reconcile S E identity D)))"
  by (rule reconcile_ledger [OF assms(1)]) (use assms(2) in blast)

theorem delivery_reconcile_keeps_ledger_witness:
  "ledger_ok (dd_db (snd (reconcile ex_shared ex_delivery_env (By_Provider_Message ''wamid'') ex_delivery)))"
  by (rule delivery_reconcile_keeps_ledger [OF ex_delivery_ledger]) (simp add: ex_delivery_env_def)

text \<open>
  C8. A message is compensated once. After a reconciliation has returned, another one for the same
  message, at any time, changes nothing; it returns what the first returned (already released for
  released), or that the message is no recovery message when only the deleted usage of the
  message named the attempt.
\<close>

theorem delivery_compensated_once:
  assumes "reconcile_locked S eventId now identity D = Inr (out, D')"
    and "ledger_ok (dd_db D)" "committed_events_ok (dd_db D)" "distinct (map oa_id (dd_attempts D))" "eventId \<noteq> []"
  shows "\<exists>out'. reconcile_locked S eventId' now' identity D' = Inr (out', D') \<and>
    (out' = repeated_outcome out \<or> out' = Not_Recovery)"
  using reconcile_locked_again [OF assms(1,2,4,5,3)] .

theorem delivery_compensated_once_witness:
  "\<exists>D'. reconcile_locked ex_shared ''x'' 10 (By_Message ''m'') ex_delivery
       = Inr (Compensated RESTORED_SPENDABLE, D') \<and>
     (\<exists>out'. reconcile_locked ex_shared ''y'' 20 (By_Message ''m'') D' = Inr (out', D'))"
proof -
  have "\<not> isl (reconcile_locked ex_shared ''x'' 10 (By_Message ''m'') ex_delivery)"
    "fst (projr (reconcile_locked ex_shared ''x'' 10 (By_Message ''m'') ex_delivery)) = Compensated RESTORED_SPENDABLE"
    by code_simp+
  from run_exists [OF this] obtain D' where run: "reconcile_locked ex_shared ''x'' 10 (By_Message ''m'') ex_delivery
      = Inr (Compensated RESTORED_SPENDABLE, D')" by (elim exE)
  have "dd_db ex_delivery = ex_spent_db" "distinct (map oa_id (dd_attempts ex_delivery))"
    by (simp_all add: ex_delivery_def)
  with delivery_compensated_once [OF run] ex_spent_db_ledger ex_committed_events run show ?thesis
    by fastforce
qed

text \<open>
  Correcting a committed credit gives it back to its own account: what the account can spend
  grows by the quantity of the reservation when the disposition is restored-spendable, and is
  unchanged for a credit held for a refund or kept as history.
\<close>

theorem compensation_restores_account:
  assumes "compensate_committed_source S eventId (r, k) now d = Inr (p, d')"
    and "ledger_ok d" "r \<in> set (db_reservations d)" "res_status r = COMMITTED" "res_compensationUsageEventId r = None"
  shows "\<exists>v. account_spendable d k r = Some v \<and>
    account_spendable d' k r = Some (v + (if p = RESTORED_SPENDABLE then res_quantity r else 0))"
proof (cases rule: compensate_committed_InrE [OF assms(1-4)])
  case (2 original d1)
  then show ?thesis by (auto simp: correction_ok_def given_back_def)
qed (use assms(5) in \<open>simp add: truthy_def\<close>)

theorem compensation_restores_account_witness:
  "\<exists>d'. compensate_committed_source ex_shared ''x'' (ex_spent, Free_Source) 10 ex_spent_db = Inr (RESTORED_SPENDABLE, d') \<and>
     account_spendable ex_spent_db Free_Source ex_spent = Some 4 \<and> account_spendable d' Free_Source ex_spent = Some 5"
proof -
  let ?run = "compensate_committed_source ex_shared ''x'' (ex_spent, Free_Source) 10 ex_spent_db"
  have res: "\<not> isl ?run" "fst (projr ?run) = RESTORED_SPENDABLE" and v: "account_spendable ex_spent_db Free_Source ex_spent = Some 4"
    by code_simp+
  from run_exists [OF res] obtain d' where run: "?run = Inr (RESTORED_SPENDABLE, d')" by (elim exE)
  have "ex_spent \<in> set (db_reservations ex_spent_db)" "res_status ex_spent = COMMITTED"
    "res_compensationUsageEventId ex_spent = None" "res_quantity ex_spent = 1"
    by (simp_all add: ex_spent_db_def ex_spent_def new_reservation_def)
  with compensation_restores_account [OF run ex_spent_db_ledger] run v show ?thesis by auto
qed

text \<open>
  A corrected commit nets out: the usage event of the commit and the corrections of it add up
  to zero.
\<close>

definition net_usage :: "db \<Rightarrow> id \<Rightarrow> int" where
  "net_usage d i = row_sum (\<lambda>e. if ue_id e = i \<or> corrections_of i e then ue_quantity e else 0) (db_usageEvents d)"

theorem compensated_usage_nets_to_zero:
  assumes "compensate_committed_source S eventId (r, k) now d = Inr (p, d')"
    and "ledger_ok d" "r \<in> set (db_reservations d)" "res_status r = COMMITTED" "res_compensationUsageEventId r = None"
    and "distinct (map ue_id (db_usageEvents d))"
  shows "\<exists>e. res_committedUsageEventId r = Some e \<and> net_usage d e = res_quantity r \<and> net_usage d' e = 0"
proof (cases rule: compensate_committed_InrE [OF assms(1-4)])
  case (2 original d1)
  note o = read_committed_recovery_usage_InrD [OF 2(4)]
  obtain i where i: "res_committedUsageEventId r = Some i" "ue_id original = i" "original \<in> set (db_usageEvents d)"
    using o by (auto simp: find_usage_event_def split: option.splits dest: find_row_SomeD)
  have q: "ue_quantity original = res_quantity r" using o by (simp add: is_source_usage_def)
  have "net_usage d i = row_sum (\<lambda>e. if ue_id e = i then ue_quantity e else 0) (db_usageEvents d)"
    unfolding net_usage_def using o i by (intro row_sum_cong) auto
  also have "\<dots> = ue_quantity original"
    using row_sum_key [where key = ue_id, OF assms(6) i(3)] by (simp add: i(2))
  finally have net: "net_usage d i = res_quantity r" using q by simp
  have "db_usageEvents d' = db_usageEvents d @ [correction_event eventId now r original]"
    using 2(2,3) by (simp add: correction_ok_def)
  then have "net_usage d' i = net_usage d i - res_quantity r"
    using i(2) by (simp add: net_usage_def corrections_of_def)
  with net i show ?thesis by simp
qed (use assms(5) in \<open>simp add: truthy_def\<close>)

theorem compensated_usage_nets_to_zero_witness:
  "\<exists>d'. compensate_committed_source ex_shared ''x'' (ex_spent, Free_Source) 10 ex_spent_db = Inr (RESTORED_SPENDABLE, d') \<and>
     net_usage d' ''e'' = 0"
proof -
  let ?run = "compensate_committed_source ex_shared ''x'' (ex_spent, Free_Source) 10 ex_spent_db"
  have res: "\<not> isl ?run" "fst (projr ?run) = RESTORED_SPENDABLE"
    by code_simp+
  from run_exists [OF res] obtain d' where run: "?run = Inr (RESTORED_SPENDABLE, d')" by (elim exE)
  have "ex_spent \<in> set (db_reservations ex_spent_db)" "res_status ex_spent = COMMITTED"
    "res_compensationUsageEventId ex_spent = None" "res_committedUsageEventId ex_spent = Some ''e''"
    "distinct (map ue_id (db_usageEvents ex_spent_db))"
    by (simp_all add: ex_spent_db_def ex_spent_def new_reservation_def)
  with compensated_usage_nets_to_zero [OF run ex_spent_db_ledger] run show ?thesis by auto
qed

end
