(* ===== verification/Billing_Periods.thy ===== *)
theory Billing_Periods
  imports Reservation_Common
begin

text \<open>
  The end of a billing period and the start of the next one
  (\<open>billing-period-transition/close-billing-period.ts\<close>, \<open>successor-billing-period.ts\<close>), the two
  transitions made of them: the renewal of the same plan
  (\<open>same-plan-billing-period-rollover.service.ts\<close>) and the change of plan
  (\<open>shopify-plan-change-transition.service.ts\<close>), the projection of the current provider cycle
  (\<open>current-billing-period-projection.service.ts\<close>) and the repair of a missing lifetime counter
  (\<open>billing-reconciliation/lifetime-free-counter-repair.ts\<close>). A row lock taken with a raw
  \<open>SELECT ... FOR UPDATE\<close> changes no state and is left out: a transaction runs in one piece.
\<close>

section \<open>Guarded updates with an error of their own\<close>

text \<open>\<open>updateMany\<close> followed by \<open>if (count !== 1) throw new Error(message)\<close>.\<close>

definition update_one_or :: "failure \<Rightarrow> ('r \<Rightarrow> bool) \<Rightarrow> ('r \<Rightarrow> 'r) \<Rightarrow> 'r table \<Rightarrow> 'r table result" where
  "update_one_or e P f t = (let (n, t') = update_many P f t in if n \<noteq> 1 then Inl e else Inr t')"

definition plain_error :: "string \<Rightarrow> failure" where
  "plain_error = Service_Error Plain_Error"

section \<open>Closing a period\<close>

record close_input =
  ci_billingPeriodId :: id
  ci_planKind :: billing_plan_kind
  ci_closedAt :: time
  ci_closeReason :: close_reason
  ci_openPeriodFailureMessage :: string
  ci_providerResponseSummary :: "string option"

definition unreported_in :: "id \<Rightarrow> usage_event \<Rightarrow> bool" where
  "unreported_in periodId e \<longleftrightarrow>
     ue_billingPeriodId e = Some periodId \<and> ue_shopifyReportState e \<in> {REPORT_PENDING, REPORT_RETRYABLE}"

definition closed_before_report :: "string option \<Rightarrow> usage_event \<Rightarrow> usage_event" where
  "closed_before_report summary e =
     e\<lparr>ue_shopifyReportState := REPORT_NEEDS_ATTENTION, ue_nextReportAt := None,
       ue_providerErrorCode := Some ''PERIOD_CLOSED_BEFORE_REPORT'',
       ue_providerResponseSummary :=
         (case summary of None \<Rightarrow> ue_providerResponseSummary e | Some t \<Rightarrow> Some t)\<rparr>"

definition held_in :: "id \<Rightarrow> reservation \<Rightarrow> bool" where
  "held_in counterId r \<longleftrightarrow> res_billingPeriodEntitlementCounterId r = Some counterId \<and> held r"

definition released_by_close :: "reservation \<Rightarrow> reservation" where
  "released_by_close r = r\<lparr>res_status := RELEASED, res_releaseReason := Some PERIOD_CLOSED\<rparr>"

definition closed_counter_row :: "int \<Rightarrow> int \<Rightarrow> period_counter \<Rightarrow> period_counter" where
  "closed_counter_row reserved forfeitable c =
     c\<lparr>pc_reservedQuantity := pc_reservedQuantity c - reserved,
       pc_forfeitedQuantity := pc_forfeitedQuantity c + forfeitable,
       pc_version := pc_version c + 1\<rparr>"

definition closed_cleanly :: "period_counter \<Rightarrow> bool" where
  "closed_cleanly c \<longleftrightarrow> pc_reservedQuantity c = 0 \<and>
     pc_committedQuantity c + pc_forfeitedQuantity c = pc_grantedQuantity c"

definition close_paid_included_credit_counter :: "id \<Rightarrow> db \<Rightarrow> db result" where
  "close_paid_included_credit_counter periodId d =
     and_then (expect (included_counter d periodId)
       (plain_error ''Paid billing period included-credit counter is missing'')) (\<lambda>c.
     let reservedQuantity = row_sum (\<lambda>r. if held_in (pc_id c) r then res_quantity r else 0) (db_reservations d);
         forfeitable = pc_grantedQuantity c - pc_committedQuantity c - pc_forfeitedQuantity c in
     and_then (require (0 \<le> forfeitable \<and> reservedQuantity = pc_reservedQuantity c)
       (plain_error ''Paid billing period included-credit counter is inconsistent'')) (\<lambda>_.
     and_then (update_one_or
       (plain_error ''Paid billing period included-credit counter changed during close'')
       (\<lambda>x. pc_id x = pc_id c \<and> pc_version x = pc_version c \<and> pc_reservedQuantity x = pc_reservedQuantity c)
       (closed_counter_row reservedQuantity forfeitable) (db_periodCounters d)) (\<lambda>counters.
     and_then (require (case find_row (\<lambda>x. pc_id x = pc_id c) counters of
                          None \<Rightarrow> False | Some x \<Rightarrow> closed_cleanly x)
       (plain_error ''Paid billing period included-credit counter did not close cleanly'')) (\<lambda>_.
     Inr (d\<lparr>db_reservations := update_rows (held_in (pc_id c)) released_by_close (db_reservations d),
            db_periodCounters := counters\<rparr>)))))"

definition closed_period_row :: "time \<Rightarrow> close_reason \<Rightarrow> billing_period \<Rightarrow> billing_period" where
  "closed_period_row t reason p =
     p\<lparr>bp_status := CLOSED, bp_closedAt := Some t, bp_closeReason := Some reason\<rparr>"

definition close_billing_period :: "close_input \<Rightarrow> db \<Rightarrow> db result" where
  "close_billing_period i d =
     (let d1 = d\<lparr>db_usageEvents := update_rows (unreported_in (ci_billingPeriodId i))
                   (closed_before_report (ci_providerResponseSummary i)) (db_usageEvents d)\<rparr> in
      and_then (if ci_planKind i = PAID_METERED
                then close_paid_included_credit_counter (ci_billingPeriodId i) d1 else Inr d1) (\<lambda>d2.
      and_then (update_one_or (plain_error (ci_openPeriodFailureMessage i))
                  (\<lambda>p. bp_id p = ci_billingPeriodId i \<and> bp_status p = OPEN)
                  (closed_period_row (ci_closedAt i) (ci_closeReason i)) (db_billingPeriods d2)) (\<lambda>periods.
      Inr (d2\<lparr>db_billingPeriods := periods\<rparr>))))"

section \<open>The successor period\<close>

record successor_input =
  si_shopId :: id
  si_subscriptionId :: id
  si_planId :: id
  si_shopifyPlanHandleSnapshot :: string
  si_planNameSnapshot :: string
  si_planKindSnapshot :: billing_plan_kind
  si_includedRecoveryCreditsGranted :: "int option"
  si_periodStart :: time
  si_periodEnd :: time
  si_closedPeriodError :: string
  si_incompatiblePeriodError :: string
  si_incompatibleIncludedCounterError :: string

definition find_cycle_period :: "db \<Rightarrow> id \<Rightarrow> time \<Rightarrow> time \<Rightarrow> billing_period option" where
  "find_cycle_period d shopId s e =
     find_row (\<lambda>p. bp_shopId p = shopId \<and> bp_periodStart p = s \<and> bp_periodEnd p = e) (db_billingPeriods d)"

definition same_identity :: "successor_input \<Rightarrow> billing_period \<Rightarrow> bool" where
  "same_identity i p \<longleftrightarrow>
     bp_shopId p = si_shopId i \<and> bp_subscriptionId p = si_subscriptionId i \<and>
     bp_planId p = Some (si_planId i) \<and>
     bp_shopifyPlanHandleSnapshot p = Some (si_shopifyPlanHandleSnapshot i) \<and>
     bp_planNameSnapshot p = Some (si_planNameSnapshot i) \<and>
     bp_planKindSnapshot p = Some (si_planKindSnapshot i) \<and>
     bp_includedRecoveryCreditsGranted p = si_includedRecoveryCreditsGranted i \<and>
     bp_periodStart p = si_periodStart i \<and> bp_periodEnd p = si_periodEnd i \<and> bp_status p = OPEN"

definition find_compatible_successor :: "successor_input \<Rightarrow> db \<Rightarrow> id option result" where
  "find_compatible_successor i d =
     (case find_cycle_period d (si_shopId i) (si_periodStart i) (si_periodEnd i) of
        None \<Rightarrow> Inr None
      | Some p \<Rightarrow>
          if bp_status p = CLOSED then Inl (plain_error (si_closedPeriodError i))
          else if \<not> same_identity i p then Inl (plain_error (si_incompatiblePeriodError i))
          else Inr (Some (bp_id p)))"

definition billing_period_clash :: "billing_period \<Rightarrow> billing_period \<Rightarrow> bool" where
  "billing_period_clash p q \<longleftrightarrow> bp_id p = bp_id q \<or>
     (bp_shopId p = bp_shopId q \<and> bp_periodStart p = bp_periodStart q \<and> bp_periodEnd p = bp_periodEnd q)"

definition period_counter_clash :: "period_counter \<Rightarrow> period_counter \<Rightarrow> bool" where
  "period_counter_clash c e \<longleftrightarrow> pc_id c = pc_id e \<or>
     (pc_billingPeriodId c = pc_billingPeriodId e \<and> pc_counter c = pc_counter e)"

definition new_period :: "id \<Rightarrow> successor_input \<Rightarrow> billing_period" where
  "new_period newId i =
     \<lparr>bp_id = newId, bp_shopId = si_shopId i, bp_subscriptionId = si_subscriptionId i,
      bp_planId = Some (si_planId i),
      bp_shopifyPlanHandleSnapshot = Some (si_shopifyPlanHandleSnapshot i),
      bp_planNameSnapshot = Some (si_planNameSnapshot i),
      bp_planKindSnapshot = Some (si_planKindSnapshot i),
      bp_includedRecoveryCreditsGranted = si_includedRecoveryCreditsGranted i,
      bp_periodStart = si_periodStart i, bp_periodEnd = si_periodEnd i, bp_status = OPEN,
      bp_closedAt = None, bp_closeReason = None\<rparr>"

definition new_included_counter :: "id \<Rightarrow> id \<Rightarrow> id \<Rightarrow> int \<Rightarrow> period_counter" where
  "new_included_counter newId shopId periodId granted =
     \<lparr>pc_id = newId, pc_shopId = shopId, pc_billingPeriodId = periodId,
      pc_counter = INCLUDED_RECOVERY_CREDITS, pc_grantedQuantity = granted,
      pc_currentAllowanceQuantity = None, pc_committedQuantity = 0, pc_reservedQuantity = 0,
      pc_forfeitedQuantity = 0, pc_version = 0\<rparr>"

definition create_period :: "billing_period \<Rightarrow> db \<Rightarrow> db result" where
  "create_period p d =
     and_then (create_row billing_period_clash p (db_billingPeriods d)) (\<lambda>(_, t).
     Inr (d\<lparr>db_billingPeriods := t\<rparr>))"

definition create_period_counter :: "period_counter \<Rightarrow> db \<Rightarrow> db result" where
  "create_period_counter c d =
     and_then (create_row period_counter_clash c (db_periodCounters d)) (\<lambda>(_, t).
     Inr (d\<lparr>db_periodCounters := t\<rparr>))"

definition ensure_included_counter :: "id \<Rightarrow> successor_input \<Rightarrow> id \<Rightarrow> db \<Rightarrow> db result" where
  "ensure_included_counter newId i periodId d =
     (let err = plain_error (si_incompatibleIncludedCounterError i) in
      and_then (expect (si_includedRecoveryCreditsGranted i) err) (\<lambda>expectedGrant.
      case included_counter d periodId of
        Some c \<Rightarrow> if pc_grantedQuantity c \<noteq> expectedGrant then Inl err else Inr d
      | None \<Rightarrow> create_period_counter (new_included_counter newId (si_shopId i) periodId expectedGrant) d))"

definition ensure_successor :: "(nat \<Rightarrow> id) \<Rightarrow> successor_input \<Rightarrow> id option \<Rightarrow> db \<Rightarrow> (id \<times> db) result" where
  "ensure_successor ids i existing d =
     and_then (case existing of
         Some p \<Rightarrow> Inr (p, d)
       | None \<Rightarrow> and_then (create_period (new_period (ids 0) i) d) (\<lambda>d'. Inr (ids 0, d'))) (\<lambda>(periodId, d1).
     and_then (if si_planKindSnapshot i = PAID_METERED
               then ensure_included_counter (ids 1) i periodId d1 else Inr d1) (\<lambda>d2.
     Inr (periodId, d2)))"

section \<open>The provider's subscription\<close>

datatype partner_status = PARTNER_ACTIVE | PARTNER_TRIALING

record partner_subscription =
  pa_planHandle :: string
  pa_usageEventHandles :: "string list"
  pa_status :: partner_status
  pa_currentPeriodStart :: "time option"
  pa_currentPeriodEnd :: "time option"
  pa_trialEndsAt :: "time option"
  pa_cancelAtPeriodEnd :: bool
  pa_providerSubscriptionId :: "string option"

text \<open>\<open>!handle || !provider.usageEventHandles.includes(handle)\<close>, negated.\<close>

definition offers_meter :: "partner_subscription \<Rightarrow> string option \<Rightarrow> bool" where
  "offers_meter provider handle \<longleftrightarrow>
     truthy handle \<and> (case handle of None \<Rightarrow> False | Some h \<Rightarrow> h \<in> set (pa_usageEventHandles provider))"

definition projected_status :: "partner_subscription \<Rightarrow> subscription_status" where
  "projected_status provider = (if pa_status provider = PARTNER_TRIALING then SUB_TRIALING else SUB_ACTIVE)"

definition is_running :: "subscription_status \<Rightarrow> bool" where
  "is_running s \<longleftrightarrow> s = SUB_ACTIVE \<or> s = SUB_TRIALING"

definition find_subscription_by_id :: "db \<Rightarrow> id \<Rightarrow> subscription option" where
  "find_subscription_by_id d i = find_row (\<lambda>s. su_id s = i) (db_subscriptions d)"

text \<open>When the next reconciliation is due after a transition: never on a free plan without packs.\<close>

definition next_reconcile_at :: "shared \<Rightarrow> plan \<Rightarrow> time \<Rightarrow> time \<Rightarrow> time option" where
  "next_reconcile_at sh pl now periodEnd =
     (if pl_kind pl = FREE \<and> \<not> pl_recoveryCreditPackEnabled pl then None
      else Some (max now (periodEnd - billingPeriodDrainWindowMs sh)))"

section \<open>Facts about guarded updates\<close>

lemma update_one_or_InrD:
  assumes "update_one_or e (\<lambda>r. key r = k \<and> G r) f t = Inr t'" "distinct (map key t)"
  obtains r where "r \<in> set t" "key r = k" "G r" "t' = update_key key k f t"
proof -
  obtain n u where u: "update_many (\<lambda>r. key r = k \<and> G r) f t = (n, u)" by fastforce
  with assms(1) have "n = 1" "u = t'" by (auto simp: update_one_or_def split: if_splits)
  from update_many_one [where key = key, OF u \<open>n = 1\<close> assms(2)] \<open>u = t'\<close> show ?thesis
    by (metis that)
qed

lemma update_one_or_hit:
  assumes "distinct (map key t)" "r \<in> set t" "key r = k" "G r"
  shows "update_one_or e (\<lambda>r. key r = k \<and> G r) f t = Inr (update_key key k f t)"
  unfolding update_one_or_def update_many_hit [where G = G, OF assms] by simp

lemma row_sum_update_rows: "row_sum w (update_rows P f t) = row_sum (\<lambda>r. w (if P r then f r else r)) t"
  by (simp add: row_sum_def update_rows_def comp_def)

lemma map_update_rows: "(\<And>r. g (f r) = g r) \<Longrightarrow> map g (update_rows P f t) = map g t"
  by (simp add: update_rows_def)

lemma set_update_rows: "x \<in> set (update_rows P f t) \<longleftrightarrow> (\<exists>r\<in>set t. x = (if P r then f r else r))"
  by (auto simp: update_rows_def)

section \<open>Closing a period keeps the ledger\<close>

lemma released_by_close_simps [simp]:
  "res_id (released_by_close r) = res_id r" "res_sourceKey (released_by_close r) = res_sourceKey r"
  "res_shopId (released_by_close r) = res_shopId r" "res_quantity (released_by_close r) = res_quantity r"
  "res_counterId (released_by_close r) = res_counterId r"
  "res_purchasedCreditPurchaseId (released_by_close r) = res_purchasedCreditPurchaseId r"
  "res_promotionalCreditGrantId (released_by_close r) = res_promotionalCreditGrantId r"
  "res_billingPeriodEntitlementCounterId (released_by_close r) = res_billingPeriodEntitlementCounterId r"
  "held_weight (released_by_close r) = 0" "spent_weight (released_by_close r) = 0"
  "promo_spent_weight (released_by_close r) = 0" "\<not> held (released_by_close r)"
  by (simp_all add: released_by_close_def held_weight_def held_def spent_weight_def promo_spent_weight_def)

lemma held_not_spent: "held r \<Longrightarrow> spent_weight r = 0 \<and> promo_spent_weight r = 0"
  by (auto simp: held_def spent_weight_def promo_spent_weight_def)

lemma held_in_sum:
  "row_sum (\<lambda>r. if held_in k r then res_quantity r else 0) rs
     = tally res_billingPeriodEntitlementCounterId held_weight k rs"
  unfolding tally_def by (intro row_sum_cong) (simp add: held_in_def held_weight_def)

text \<open>
  Releasing every reservation held against a period counter takes exactly the reserved quantity
  off that counter and touches no other account.
\<close>

lemma tally_release_other:
  assumes "\<And>r. r \<in> set rs \<Longrightarrow> held_in k r \<Longrightarrow> own r = None \<or> wt r = 0"
    and "\<And>r. own (released_by_close r) = own r" "\<And>r. wt (released_by_close r) = 0"
  shows "tally own wt i (update_rows (held_in k) released_by_close rs) = tally own wt i rs"
  unfolding tally_def row_sum_update_rows using assms(2,3)
  by (intro row_sum_cong) (auto dest: assms(1))

lemma tally_release_period:
  "tally res_billingPeriodEntitlementCounterId held_weight i
       (update_rows (held_in k) released_by_close rs)
     = (if i = k then 0 else tally res_billingPeriodEntitlementCounterId held_weight i rs)"
proof (cases "i = k")
  case True
  have "tally res_billingPeriodEntitlementCounterId held_weight k
      (update_rows (held_in k) released_by_close rs) = 0"
    unfolding tally_def row_sum_update_rows
    by (intro row_sum_zero) (auto simp: held_in_def held_weight_def)
  with True show ?thesis by simp
next
  case False
  then show ?thesis
    unfolding tally_def row_sum_update_rows by (auto intro!: row_sum_cong simp: held_in_def)
qed

lemma held_in_owner:
  assumes "ledger_ok d" "r \<in> set (db_reservations d)" "held_in k r"
  shows "res_counterId r = None" "res_purchasedCreditPurchaseId r = None"
    "res_promotionalCreditGrantId r = None"
proof -
  from ledger_okD(5) [OF assms(1,2)] obtain s where "owned_by d s r" by (auto simp: reservation_ok_def)
  with assms(3) show "res_counterId r = None" "res_purchasedCreditPurchaseId r = None"
    "res_promotionalCreditGrantId r = None"
    by (cases s; auto simp: held_in_def)+
qed

lemma owned_by_release: "owned_by d k (released_by_close r) = owned_by d k r"
  by (cases k) simp_all

lemma reservation_ok_release: "reservation_ok d r \<Longrightarrow> held r \<Longrightarrow> reservation_ok d (released_by_close r)"
  by (auto simp: reservation_ok_def owned_by_release) (auto simp: released_by_close_def held_def)

lemma ledger_release_period:
  assumes ok: "ledger_ok d" and c: "c \<in> set (db_periodCounters d)"
    and d': "db_reservations d' = update_rows (held_in (pc_id c)) released_by_close (db_reservations d)"
      "db_periodCounters d' = update_key pc_id (pc_id c)
         (closed_counter_row (pc_reservedQuantity c)
            (pc_grantedQuantity c - pc_committedQuantity c - pc_forfeitedQuantity c)) (db_periodCounters d)"
      "db_shopCounters d' = db_shopCounters d" "db_lots d' = db_lots d" "db_grants d' = db_grants d"
  shows "ledger_ok d'"
proof -
  note dist = ledger_keys(4) [OF ok]
  have same: "x = c" if "x \<in> set (db_periodCounters d)" "pc_id x = pc_id c" for x
    using key_inj [OF dist c that] .
  have keys: "same_keys d d'"
    using d'(2-5) by (simp add: same_keys_def counter_keys_def period_counter_keys_def grant_keys_def
        lot_keys_def map_update_key closed_counter_row_def)
  have "map res_id (db_reservations d') = map res_id (db_reservations d)"
    "map res_sourceKey (db_reservations d') = map res_sourceKey (db_reservations d)"
    unfolding d'(1) by (simp_all add: map_update_rows)
  then have "keys_ok d'"
    using ledger_okD(1) [OF ok] keys by (simp add: keys_ok_def counter_keys_maps same_keys_def)
  moreover have "reservation_ok d' r" if "r \<in> set (db_reservations d')" for r
    using that ledger_okD(5) [OF ok] reservation_ok_release
    by (auto simp: d'(1) set_update_rows same_keys_reservation [OF keys] held_in_def split: if_splits)
  moreover have "tallies_ok d'"
  proof -
    note own = held_in_owner [OF ok] and rel = tally_release_other [where rs = "db_reservations d"]
    have "tally res_counterId held_weight i (db_reservations d') = tally res_counterId held_weight i (db_reservations d)"
      "tally res_counterId spent_weight i (db_reservations d') = tally res_counterId spent_weight i (db_reservations d)"
      "tally res_purchasedCreditPurchaseId held_weight i (db_reservations d')
         = tally res_purchasedCreditPurchaseId held_weight i (db_reservations d)"
      "tally res_promotionalCreditGrantId held_weight i (db_reservations d')
         = tally res_promotionalCreditGrantId held_weight i (db_reservations d)"
      "tally res_promotionalCreditGrantId promo_spent_weight i (db_reservations d')
         = tally res_promotionalCreditGrantId promo_spent_weight i (db_reservations d)"
      "tally res_billingPeriodEntitlementCounterId spent_weight i (db_reservations d')
         = tally res_billingPeriodEntitlementCounterId spent_weight i (db_reservations d)" for i
      unfolding d'(1) using own held_not_spent
      by (auto intro!: rel simp: held_in_def)
    moreover note tally_release_period [of _ "pc_id c" "db_reservations d"]
    ultimately show ?thesis
      using ledger_okD(2) [OF ok] same d' ledger_period_counter(1) [OF ok c]
      by (auto simp: tallies_ok_def tallied_def set_update_key closed_counter_row_def)
  qed
  moreover have "period_counter_ok (closed_counter_row (pc_reservedQuantity c)
      (pc_grantedQuantity c - pc_committedQuantity c - pc_forfeitedQuantity c) c)"
    using bounds_okD(3) [OF ok c] ledger_period_counter(3) [OF ok c]
    by (simp add: closed_counter_row_def period_counter_ok_def)
  then have "\<forall>x\<in>set (db_periodCounters d'). period_counter_ok x"
    unfolding d'(2) using bounds_okD(3) [OF ok] same by (intro ball_update_key) (blast, metis)
  then have "bounds_ok d'"
    using bounds_okD [OF ok] d'(3-5) by (simp add: bounds_ok_def)
  moreover have "pool_ok d'" by (rule pool_frame [OF ledger_okD(4) [OF ok] d'(4)]) (simp add: d'(3))
  ultimately show ?thesis by (simp add: ledger_ok_def)
qed

section \<open>What closing does\<close>

text \<open>
  The unique constraints of the tables the transitions read by key.
\<close>

definition period_keys_ok :: "db \<Rightarrow> bool" where
  "period_keys_ok d \<longleftrightarrow>
     distinct (map bp_id (db_billingPeriods d)) \<and>
     distinct (map (\<lambda>p. (bp_shopId p, bp_periodStart p, bp_periodEnd p)) (db_billingPeriods d)) \<and>
     distinct (map (\<lambda>c. (pc_billingPeriodId c, pc_counter c)) (db_periodCounters d)) \<and>
     distinct (map su_id (db_subscriptions d))"

lemma period_keys_okD:
  assumes "period_keys_ok d"
  shows "distinct (map bp_id (db_billingPeriods d))"
    "distinct (map (\<lambda>p. (bp_shopId p, bp_periodStart p, bp_periodEnd p)) (db_billingPeriods d))"
    "distinct (map (\<lambda>c. (pc_billingPeriodId c, pc_counter c)) (db_periodCounters d))"
    "distinct (map su_id (db_subscriptions d))"
  using assms by (auto simp: period_keys_ok_def)

lemma included_counter_SomeD:
  "included_counter d p = Some c \<Longrightarrow>
     c \<in> set (db_periodCounters d) \<and> pc_billingPeriodId c = p \<and> pc_counter c = INCLUDED_RECOVERY_CREDITS"
  by (auto simp: included_counter_def dest: find_row_SomeD)

text \<open>
  Under the ledger the counter of a period always closes: the two consistency checks hold, the
  guarded update hits, and the counter that is read back is closed.
\<close>

definition close_counter_of :: "period_counter \<Rightarrow> db \<Rightarrow> db" where
  "close_counter_of c d =
     d\<lparr>db_reservations := update_rows (held_in (pc_id c)) released_by_close (db_reservations d),
       db_periodCounters := update_key pc_id (pc_id c)
         (closed_counter_row (pc_reservedQuantity c)
            (pc_grantedQuantity c - pc_committedQuantity c - pc_forfeitedQuantity c)) (db_periodCounters d)\<rparr>"

lemma close_counter_eq:
  assumes ok: "ledger_ok d" and c: "included_counter d p = Some c"
  shows "close_paid_included_credit_counter p d = Inr (close_counter_of c d)"
proof -
  let ?q = "pc_reservedQuantity c" and ?f = "pc_grantedQuantity c - pc_committedQuantity c - pc_forfeitedQuantity c"
  from included_counter_SomeD [OF c] have c': "c \<in> set (db_periodCounters d)" by simp
  note dist = ledger_keys(4) [OF ok]
  have sum: "row_sum (\<lambda>r. if held_in (pc_id c) r then res_quantity r else 0) (db_reservations d) = ?q"
    unfolding held_in_sum ledger_period_counter(1) [OF ok c'] ..
  have f: "0 \<le> ?f"
    using ledger_period_counter(3,5) [OF ok c'] by (simp add: period_counter_ok_def)
  have upd: "update_one_or e (\<lambda>x. pc_id x = pc_id c \<and> pc_version x = pc_version c \<and> pc_reservedQuantity x = ?q)
      g (db_periodCounters d) = Inr (update_key pc_id (pc_id c) g (db_periodCounters d))" for e g
    using update_one_or_hit [where key = pc_id and G = "\<lambda>x. pc_version x = pc_version c \<and> pc_reservedQuantity x = ?q",
        OF dist c' refl] by simp
  have row: "find_row (\<lambda>x. pc_id x = pc_id c) (update_key pc_id (pc_id c) (closed_counter_row ?q ?f) (db_periodCounters d))
      = Some (closed_counter_row ?q ?f c)"
  proof (rule find_row_key [where key = pc_id])
    show "distinct (map pc_id (update_key pc_id (pc_id c) (closed_counter_row ?q ?f) (db_periodCounters d)))"
      using dist by (simp add: map_update_key closed_counter_row_def)
    show "closed_counter_row ?q ?f c \<in> set (update_key pc_id (pc_id c) (closed_counter_row ?q ?f) (db_periodCounters d))"
      unfolding set_update_key using c' by auto
  qed (simp add: closed_counter_row_def)
  show ?thesis
    unfolding close_paid_included_credit_counter_def c sum Let_def expect_simps and_then_simps upd row
    using f by (simp add: closed_cleanly_def close_counter_of_def) (simp add: closed_counter_row_def)
qed

lemma close_counter_missing:
  "included_counter d p = None \<Longrightarrow> isl (close_paid_included_credit_counter p d)"
  by (simp add: close_paid_included_credit_counter_def)

lemma close_counter_of_ledger:
  "ledger_ok d \<Longrightarrow> included_counter d p = Some c \<Longrightarrow> ledger_ok (close_counter_of c d)"
  by (rule ledger_release_period [where c = c and d = d])
    (auto simp: close_counter_of_def dest: included_counter_SomeD)

definition unreported_closed :: "close_input \<Rightarrow> db \<Rightarrow> db" where
  "unreported_closed i d = d\<lparr>db_usageEvents := update_rows (unreported_in (ci_billingPeriodId i))
     (closed_before_report (ci_providerResponseSummary i)) (db_usageEvents d)\<rparr>"

definition counter_closed :: "close_input \<Rightarrow> db \<Rightarrow> db" where
  "counter_closed i d =
     (if ci_planKind i = PAID_METERED
      then (case included_counter d (ci_billingPeriodId i) of
              None \<Rightarrow> d | Some c \<Rightarrow> close_counter_of c d) else d)"

definition period_closed :: "close_input \<Rightarrow> db \<Rightarrow> db" where
  "period_closed i d = d\<lparr>db_billingPeriods := update_key bp_id (ci_billingPeriodId i)
     (closed_period_row (ci_closedAt i) (ci_closeReason i)) (db_billingPeriods d)\<rparr>"

definition closable :: "close_input \<Rightarrow> db \<Rightarrow> bool" where
  "closable i d \<longleftrightarrow>
     (\<exists>p\<in>set (db_billingPeriods d). bp_id p = ci_billingPeriodId i \<and> bp_status p = OPEN) \<and>
     (ci_planKind i = PAID_METERED \<longrightarrow> included_counter d (ci_billingPeriodId i) \<noteq> None)"

lemma unreported_closed_simps [simp]:
  "db_periodCounters (unreported_closed i d) = db_periodCounters d"
  "db_billingPeriods (unreported_closed i d) = db_billingPeriods d"
  "db_reservations (unreported_closed i d) = db_reservations d"
  "db_subscriptions (unreported_closed i d) = db_subscriptions d"
  "included_counter (unreported_closed i d) p = included_counter d p"
  "ledger_ok d \<Longrightarrow> ledger_ok (unreported_closed i d)"
  by (simp_all add: unreported_closed_def included_counter_def ledger_frame [of d])

lemma close_counter_of_simps [simp]:
  "db_billingPeriods (close_counter_of c d) = db_billingPeriods d"
  "db_subscriptions (close_counter_of c d) = db_subscriptions d"
  "db_usageEvents (close_counter_of c d) = db_usageEvents d"
  by (simp_all add: close_counter_of_def)

lemma counter_closed_simps [simp]:
  "db_billingPeriods (counter_closed i d) = db_billingPeriods d"
  "db_subscriptions (counter_closed i d) = db_subscriptions d"
  "db_usageEvents (counter_closed i d) = db_usageEvents d"
  by (simp_all add: counter_closed_def split: option.split)

lemma counter_closed_ledger: "ledger_ok d \<Longrightarrow> ledger_ok (counter_closed i d)"
  using close_counter_of_ledger by (simp add: counter_closed_def split: option.split)

lemma period_closed_simps [simp]:
  "db_reservations (period_closed i d) = db_reservations d"
  "db_periodCounters (period_closed i d) = db_periodCounters d"
  "db_subscriptions (period_closed i d) = db_subscriptions d"
  "db_usageEvents (period_closed i d) = db_usageEvents d"
  "ledger_ok d \<Longrightarrow> ledger_ok (period_closed i d)"
  by (simp_all add: period_closed_def ledger_frame [of d])

definition after_close :: "close_input \<Rightarrow> db \<Rightarrow> db" where
  "after_close i d = period_closed i (counter_closed i (unreported_closed i d))"

lemma after_close_ledger: "ledger_ok d \<Longrightarrow> ledger_ok (after_close i d)"
  by (simp add: after_close_def counter_closed_ledger)

lemma close_billing_period_closable:
  assumes ok: "ledger_ok d" and dist: "distinct (map bp_id (db_billingPeriods d))" and c: "closable i d"
  shows "close_billing_period i d = Inr (after_close i d)"
proof -
  let ?d1 = "unreported_closed i d"
  have "(if ci_planKind i = PAID_METERED
      then close_paid_included_credit_counter (ci_billingPeriodId i) ?d1 else Inr ?d1) = Inr (counter_closed i ?d1)"
    using c close_counter_eq [where d = ?d1] ok by (auto simp: closable_def counter_closed_def)
  moreover from c obtain p where "p \<in> set (db_billingPeriods d)" "bp_id p = ci_billingPeriodId i" "bp_status p = OPEN"
    by (auto simp: closable_def)
  then have "update_one_or e (\<lambda>p. bp_id p = ci_billingPeriodId i \<and> bp_status p = OPEN) g (db_billingPeriods d)
      = Inr (update_key bp_id (ci_billingPeriodId i) g (db_billingPeriods d))" for e g
    using dist by (intro update_one_or_hit)
  ultimately show ?thesis
    by (simp add: close_billing_period_def after_close_def period_closed_def flip: unreported_closed_def)
qed

lemma close_billing_period_not_closable:
  assumes dist: "distinct (map bp_id (db_billingPeriods d))" and c: "\<not> closable i d"
  shows "isl (close_billing_period i d)"
proof (rule ccontr)
  let ?d1 = "unreported_closed i d"
  assume "\<not> isl (close_billing_period i d)"
  then obtain d' where "close_billing_period i d = Inr d'" by (cases "close_billing_period i d") auto
  then obtain d2 t where d2: "(if ci_planKind i = PAID_METERED
      then close_paid_included_credit_counter (ci_billingPeriodId i) ?d1 else Inr ?d1) = Inr d2"
    and t: "update_one_or (plain_error (ci_openPeriodFailureMessage i))
      (\<lambda>p. bp_id p = ci_billingPeriodId i \<and> bp_status p = OPEN)
      (closed_period_row (ci_closedAt i) (ci_closeReason i)) (db_billingPeriods d2) = Inr t"
    by (auto simp: close_billing_period_def Let_def and_then_Inr simp flip: unreported_closed_def)
  have "db_billingPeriods d2 = db_billingPeriods d"
    using d2 by (auto simp: close_paid_included_credit_counter_def and_then_Inr Let_def split: if_splits)
  with t dist obtain p where "p \<in> set (db_billingPeriods d)" "bp_id p = ci_billingPeriodId i" "bp_status p = OPEN"
    by (auto elim!: update_one_or_InrD [where key = bp_id])
  moreover have "included_counter d (ci_billingPeriodId i) \<noteq> None" if "ci_planKind i = PAID_METERED"
    using d2 that by (auto simp: close_paid_included_credit_counter_def and_then_Inr expect_Inr)
  ultimately show False using c by (auto simp: closable_def)
qed

lemma close_billing_period_InrD:
  assumes "ledger_ok d" "distinct (map bp_id (db_billingPeriods d))" "close_billing_period i d = Inr d'"
  shows "closable i d \<and> d' = after_close i d"
  using assms close_billing_period_closable close_billing_period_not_closable
  by (metis sum.disc(2) sum.inject(2))

section \<open>The successor keeps the ledger\<close>

text \<open>A new period counter starts at zero, and no reservation names it yet.\<close>

lemma ledger_new_period_counter:
  assumes ok: "ledger_ok d" and g: "0 \<le> g"
    and create: "create_period_counter (new_included_counter i s p g) d = Inr d'"
  shows "ledger_ok d'"
proof -
  let ?c = "new_included_counter i s p g"
  from create obtain cs where cs: "cs = db_periodCounters d @ [?c]" and d': "d' = d\<lparr>db_periodCounters := cs\<rparr>"
    and fresh: "\<And>x. x \<in> set (db_periodCounters d) \<Longrightarrow> \<not> period_counter_clash ?c x"
    by (auto simp: create_period_counter_def and_then_Inr dest!: create_row_InrD)
  have ids: "i \<noteq> pc_id x" if "x \<in> set (db_periodCounters d)" for x
    using fresh [OF that] by (auto simp: period_counter_clash_def new_included_counter_def)
  have own: "owned_by d' k r" if "owned_by d k r" for k r
    using that by (cases k) (auto simp: counter_keys_def cs d' period_counter_keys_def grant_keys_def lot_keys_def)
  have free: "res_billingPeriodEntitlementCounterId r \<noteq> Some i" if "r \<in> set (db_reservations d)" for r
  proof
    assume i: "res_billingPeriodEntitlementCounterId r = Some i"
    from ledger_okD(5) [OF ok that] obtain k where "owned_by d k r" by (auto simp: reservation_ok_def)
    with i ids show False by (cases k) (auto simp: period_counter_keys_def)
  qed
  have "keys_ok d'"
    using ledger_okD(1) [OF ok] ids by (auto simp: keys_ok_def cs d' new_included_counter_def)
  moreover have "tallies_ok d'"
    using ledger_okD(2) [OF ok] tally_zero [OF free]
    by (auto simp: tallies_ok_def tallied_def cs d' new_included_counter_def)
  moreover have "bounds_ok d'"
    using ledger_okD(3) [OF ok] g
    by (auto simp: bounds_ok_def cs d' period_counter_ok_def new_included_counter_def)
  moreover have "pool_ok d'"
    using ledger_okD(4) [OF ok] by (simp add: pool_ok_def d')
  moreover have "reservation_ok d' r" if "r \<in> set (db_reservations d')" for r
    using ledger_okD(5) [OF ok, of r] that own [of _ r] d' by (auto simp: reservation_ok_def)
  ultimately show ?thesis by (simp add: ledger_ok_def)
qed

lemma create_period_InrD:
  "create_period p d = Inr d' \<Longrightarrow>
     d' = d\<lparr>db_billingPeriods := db_billingPeriods d @ [p]\<rparr> \<and>
     (\<forall>q\<in>set (db_billingPeriods d). \<not> billing_period_clash p q)"
  by (auto simp: create_period_def and_then_Inr dest!: create_row_InrD)

lemma create_period_counter_InrD:
  "create_period_counter c d = Inr d' \<Longrightarrow>
     d' = d\<lparr>db_periodCounters := db_periodCounters d @ [c]\<rparr> \<and>
     (\<forall>x\<in>set (db_periodCounters d). \<not> period_counter_clash c x)"
  by (auto simp: create_period_counter_def and_then_Inr dest!: create_row_InrD)

lemma find_row_append_fresh:
  "find_row P t = None \<Longrightarrow> P r \<Longrightarrow> find_row P (t @ [r]) = Some r"
  by (induction t) (auto split: if_splits)

text \<open>What \<open>ensure_included_counter\<close> leaves behind.\<close>

lemma ensure_included_counter_InrD:
  assumes "ensure_included_counter newId i periodId d = Inr d'"
  shows "\<exists>g c. si_includedRecoveryCreditsGranted i = Some g \<and>
      included_counter d' periodId = Some c \<and> pc_grantedQuantity c = g \<and>
      (d' = d \<or> c = new_included_counter newId (si_shopId i) periodId g \<and> create_period_counter c d = Inr d')"
proof (cases "included_counter d periodId")
  case None
  with assms obtain g where g: "si_includedRecoveryCreditsGranted i = Some g"
    "create_period_counter (new_included_counter newId (si_shopId i) periodId g) d = Inr d'"
    by (auto simp: ensure_included_counter_def Let_def and_then_Inr expect_Inr)
  have "included_counter d' periodId = Some (new_included_counter newId (si_shopId i) periodId g)"
    using create_period_counter_InrD [OF g(2)] None
    by (simp add: included_counter_def find_row_append_fresh new_included_counter_def)
  with g show ?thesis by (auto simp: new_included_counter_def)
next
  case (Some c)
  with assms show ?thesis
    by (auto simp: ensure_included_counter_def Let_def and_then_Inr expect_Inr split: if_splits)
qed

lemma ensure_included_counter_frame:
  assumes "ensure_included_counter newId i periodId d = Inr d'"
  shows "db_billingPeriods d' = db_billingPeriods d \<and> db_subscriptions d' = db_subscriptions d \<and>
    db_reservations d' = db_reservations d \<and> db_usageEvents d' = db_usageEvents d"
  using ensure_included_counter_InrD [OF assms] by (auto dest: create_period_counter_InrD)

lemma ensure_included_counter_ledger:
  assumes "ledger_ok d" "ensure_included_counter newId i periodId d = Inr d'"
    and "\<And>g. si_includedRecoveryCreditsGranted i = Some g \<Longrightarrow> 0 \<le> g"
  shows "ledger_ok d'"
  using ensure_included_counter_InrD [OF assms(2)] assms(1,3) ledger_new_period_counter by metis

definition successor_in :: "successor_input \<Rightarrow> id \<Rightarrow> db \<Rightarrow> bool" where
  "successor_in i p d \<longleftrightarrow>
     (\<exists>q\<in>set (db_billingPeriods d). bp_id q = p \<and> same_identity i q) \<and>
     (si_planKindSnapshot i = PAID_METERED \<longrightarrow>
        (\<exists>c. included_counter d p = Some c \<and>
           si_includedRecoveryCreditsGranted i = Some (pc_grantedQuantity c)))"

lemma same_identity_new_period [simp]: "same_identity i (new_period n i)"
  by (simp add: same_identity_def new_period_def)

lemma find_compatible_successor_SomeD:
  assumes "find_compatible_successor i d = Inr (Some p)"
  shows "\<exists>q\<in>set (db_billingPeriods d). bp_id q = p \<and> same_identity i q"
  using assms by (auto simp: find_compatible_successor_def find_cycle_period_def split: option.splits if_splits
      dest!: find_row_SomeD)

lemma find_compatible_successor_NoneD:
  "find_compatible_successor i d = Inr None \<Longrightarrow>
     find_cycle_period d (si_shopId i) (si_periodStart i) (si_periodEnd i) = None"
  by (auto simp: find_compatible_successor_def split: option.splits if_splits)

lemma ensure_successor_InrD:
  assumes run: "ensure_successor ids i existing d = Inr (p, d')"
    and ex: "\<And>x. existing = Some x \<Longrightarrow> \<exists>q\<in>set (db_billingPeriods d). bp_id q = x \<and> same_identity i q"
  shows "successor_in i p d'"
    "db_billingPeriods d' = db_billingPeriods d @ (if existing = None then [new_period (ids 0) i] else [])"
    "existing = Some x \<Longrightarrow> p = x" "existing = None \<Longrightarrow> p = ids 0"
    "existing = None \<Longrightarrow> \<forall>q\<in>set (db_billingPeriods d). bp_id q \<noteq> p"
    "db_subscriptions d' = db_subscriptions d" "db_reservations d' = db_reservations d"
    "db_usageEvents d' = db_usageEvents d"
    "ledger_ok d \<Longrightarrow> (\<And>g. si_includedRecoveryCreditsGranted i = Some g \<Longrightarrow> 0 \<le> g) \<Longrightarrow> ledger_ok d'"
proof -
  from run obtain d1 where
    d1: "(case existing of Some p \<Rightarrow> Inr (p, d)
          | None \<Rightarrow> and_then (create_period (new_period (ids 0) i) d) (\<lambda>d'. Inr (ids 0, d'))) = Inr (p, d1)"
    and d2: "(if si_planKindSnapshot i = PAID_METERED
          then ensure_included_counter (ids 1) i p d1 else Inr d1) = Inr d'"
    by (auto simp: ensure_successor_def and_then_Inr)
  have periods: "db_billingPeriods d1 = db_billingPeriods d @ (if existing = None then [new_period (ids 0) i] else [])"
    and q: "\<exists>q\<in>set (db_billingPeriods d1). bp_id q = p \<and> same_identity i q"
    and new: "existing = Some x \<Longrightarrow> p = x" "existing = None \<Longrightarrow> p = ids 0"
    "existing = None \<Longrightarrow> \<forall>q\<in>set (db_billingPeriods d). bp_id q \<noteq> p"
    and subs: "db_subscriptions d1 = db_subscriptions d" "db_reservations d1 = db_reservations d"
    "db_usageEvents d1 = db_usageEvents d" and led: "ledger_ok d \<Longrightarrow> ledger_ok d1" for x
    using d1 ex by (auto simp: and_then_Inr billing_period_clash_def split: option.splits
        dest!: create_period_InrD intro: ledger_frame [of d])
       (auto simp: new_period_def)
  show "successor_in i p d'"
  proof (cases "si_planKindSnapshot i = PAID_METERED")
    case True
    with d2 have "ensure_included_counter (ids 1) i p d1 = Inr d'" by simp
    from ensure_included_counter_InrD [OF this] ensure_included_counter_frame [OF this] q
    show ?thesis by (auto simp: successor_in_def)
  next
    case False
    with d2 q show ?thesis by (simp add: successor_in_def)
  qed
  show "db_billingPeriods d' = db_billingPeriods d @ (if existing = None then [new_period (ids 0) i] else [])"
    "db_subscriptions d' = db_subscriptions d" "db_reservations d' = db_reservations d"
    "db_usageEvents d' = db_usageEvents d"
    using d2 periods subs by (auto split: if_splits dest!: ensure_included_counter_frame)
  show "ledger_ok d'" if "ledger_ok d" "\<And>g. si_includedRecoveryCreditsGranted i = Some g \<Longrightarrow> 0 \<le> g"
    using d2 led [OF that(1)] that(2) by (auto split: if_splits intro: ensure_included_counter_ledger)
  show "existing = Some x \<Longrightarrow> p = x" "existing = None \<Longrightarrow> p = ids 0"
    "existing = None \<Longrightarrow> \<forall>q\<in>set (db_billingPeriods d). bp_id q \<noteq> p"
    by (fact new)+
qed

end
