(* ===== verification/Period_Transitions.thy ===== *)
theory Period_Transitions
  imports Billing_Periods
begin

text \<open>
  The transactions that move a subscription from one billing period to the next: the renewal of
  the same plan and the change of plan, the projection of the provider's current cycle, and the
  repair of the lifetime free counter. Each is a function from the database to its result and the
  database after it; an error leaves the database as it was. \<open>ids\<close> gives the ids of the rows a
  transaction creates.
\<close>

section \<open>Renewal of the same plan\<close>

record rollover_input =
  ri_shopId :: id
  ri_subscriptionId :: "id option"
  ri_provider :: partner_subscription
  ri_plan :: plan
  ri_now :: time

datatype rollover_result =
    Rollover_Not_Applicable
  | Provider_Cycle_Lag id "time option"
  | Rollover_Unchanged "id option" "time option"
  | Rollover_Transitioned id "time option" billing_plan_kind

definition rollover_provider_applies :: "rollover_input \<Rightarrow> bool" where
  "rollover_provider_applies i \<longleftrightarrow>
     (let pv = ri_provider i; pl = ri_plan i in
      (case (pa_currentPeriodStart pv, pa_currentPeriodEnd pv) of (Some s, Some e) \<Rightarrow> s < e | _ \<Rightarrow> False) \<and>
      pl_active pl \<and> pa_planHandle pv = pl_shopifyPlanHandle pl \<and>
      (pl_kind pl = PAID_METERED \<longrightarrow> offers_meter pv (pl_shopifyUsageEventHandle pl)) \<and>
      (pl_kind pl = FREE \<and> pl_recoveryCreditPackEnabled pl \<longrightarrow>
         offers_meter pv (pl_shopifyRecoveryCreditPackEventHandle pl)))"

definition find_rollover_subscription :: "rollover_input \<Rightarrow> db \<Rightarrow> subscription option" where
  "find_rollover_subscription i d =
     (if truthy (ri_subscriptionId i)
      then find_row (\<lambda>s. Some (su_id s) = ri_subscriptionId i) (db_subscriptions d)
      else find_row (\<lambda>s. su_shopId s = ri_shopId i) (db_subscriptions d))"

definition rollover_successor_input :: "rollover_input \<Rightarrow> id \<Rightarrow> time \<Rightarrow> time \<Rightarrow> successor_input" where
  "rollover_successor_input i subscriptionId s e =
     \<lparr>si_shopId = ri_shopId i, si_subscriptionId = subscriptionId, si_planId = pl_id (ri_plan i),
      si_shopifyPlanHandleSnapshot = pa_planHandle (ri_provider i),
      si_planNameSnapshot = pl_name (ri_plan i), si_planKindSnapshot = pl_kind (ri_plan i),
      si_includedRecoveryCreditsGranted =
        (if pl_kind (ri_plan i) = PAID_METERED
         then Some (case pl_includedRecoveryConversationAllowance (ri_plan i) of None \<Rightarrow> 0 | Some a \<Rightarrow> a)
         else None),
      si_periodStart = s, si_periodEnd = e,
      si_closedPeriodError = ''Provider billing cycle already has a closed successor period'',
      si_incompatiblePeriodError = ''Provider billing cycle has an incompatible successor period'',
      si_incompatibleIncludedCounterError = ''Successor included-credit counter has an incompatible grant''\<rparr>"

definition rollover_close_input :: "rollover_input \<Rightarrow> billing_period \<Rightarrow> close_input" where
  "rollover_close_input i current =
     \<lparr>ci_billingPeriodId = bp_id current, ci_planKind = pl_kind (ri_plan i),
      ci_closedAt = bp_periodEnd current, ci_closeReason = RENEWED_SAME_PLAN,
      ci_openPeriodFailureMessage = ''Billing period was not open while closing'',
      ci_providerResponseSummary = Some ''Billing period closed before Shopify App Event report''\<rparr>"

definition renewed_subscription ::
  "rollover_input \<Rightarrow> id \<Rightarrow> time \<Rightarrow> time \<Rightarrow> time option \<Rightarrow> subscription \<Rightarrow> subscription" where
  "renewed_subscription i periodId s e nextReconcileAt su =
     (let pv = ri_provider i in
      su\<lparr>su_observedShopifyPlanHandle := Some (pa_planHandle pv), su_status := projected_status pv,
         su_billingPeriodId := Some periodId, su_currentPeriodStart := Some s,
         su_currentPeriodEnd := Some e, su_trialEndsAt := pa_trialEndsAt pv,
         su_cancelAtPeriodEnd := pa_cancelAtPeriodEnd pv,
         su_providerSubscriptionId := pa_providerSubscriptionId pv,
         su_lastSyncedAt := Some (ri_now i), su_lastSyncErrorCode := None, su_lastSyncErrorAt := None,
         su_nextReconcileAt := nextReconcileAt\<rparr>)"

text \<open>\<open>subscription.update\<close> by id.\<close>

definition update_subscription :: "id \<Rightarrow> (subscription \<Rightarrow> subscription) \<Rightarrow> db \<Rightarrow> db result" where
  "update_subscription k f d =
     and_then (update_unique su_id k f (db_subscriptions d)) (\<lambda>(_, t). Inr (d\<lparr>db_subscriptions := t\<rparr>))"

text \<open>The part of the transition that writes: from \<open>successorInput\<close> to the end.\<close>

definition rollover_to ::
  "shared \<Rightarrow> (nat \<Rightarrow> id) \<Rightarrow> rollover_input \<Rightarrow> subscription \<Rightarrow> billing_period \<Rightarrow> time \<Rightarrow> time \<Rightarrow> db \<Rightarrow>
     (rollover_result \<times> db) result" where
  "rollover_to sh ids i su current s e d =
     (let si = rollover_successor_input i (su_id su) s e in
      and_then (find_compatible_successor si d) (\<lambda>existing.
      if existing \<noteq> None \<and> su_billingPeriodId su = existing
      then Inr (Rollover_Unchanged existing (su_nextReconcileAt su), d)
      else
        and_then (close_billing_period (rollover_close_input i current) d) (\<lambda>d1.
        and_then (ensure_successor ids si existing d1) (\<lambda>(periodId, d2).
        let nextReconcileAt = next_reconcile_at sh (ri_plan i) (ri_now i) e in
        and_then (update_subscription (su_id su) (renewed_subscription i periodId s e nextReconcileAt) d2) (\<lambda>d3.
        Inr (Rollover_Transitioned periodId nextReconcileAt (pl_kind (ri_plan i)), d3))))))"

definition rollover_in_transaction ::
  "shared \<Rightarrow> (nat \<Rightarrow> id) \<Rightarrow> rollover_input \<Rightarrow> db \<Rightarrow> (rollover_result \<times> db) result" where
  "rollover_in_transaction sh ids i d =
     (if \<not> rollover_provider_applies i then Inr (Rollover_Not_Applicable, d)
      else
        (let s = the (pa_currentPeriodStart (ri_provider i)); e = the (pa_currentPeriodEnd (ri_provider i)) in
         case find_rollover_subscription i d of
           None \<Rightarrow> Inr (Rollover_Not_Applicable, d)
         | Some su \<Rightarrow>
             if su_shopId su \<noteq> ri_shopId i \<or> su_planId su \<noteq> Some (pl_id (ri_plan i))
             then Inr (Rollover_Not_Applicable, d)
             else if \<not> is_running (su_status su) then Inr (Rollover_Not_Applicable, d)
             else (case (subscription_period d su, su_currentPeriodStart su, su_currentPeriodEnd su) of
                 (Some current, Some s0, Some e0) \<Rightarrow>
                   if s0 = s \<and> e0 = e
                   then (if bp_periodEnd current \<le> ri_now i
                         then Inr (Provider_Cycle_Lag (bp_id current) (su_nextReconcileAt su), d)
                         else Inr (Rollover_Unchanged (su_billingPeriodId su) (su_nextReconcileAt su), d))
                   else if s < bp_periodEnd current \<or> e \<le> s
                   then Inl (plain_error ''Provider billing cycle overlaps the current local billing period'')
                   else rollover_to sh ids i su current s e d
               | _ \<Rightarrow> Inr (Rollover_Not_Applicable, d))))"

text \<open>\<open>transition\<close>: the transaction, without retries; an error rolls it back.\<close>

definition in_transaction :: "(db \<Rightarrow> ('a \<times> db) result) \<Rightarrow> db \<Rightarrow> 'a result \<times> db" where
  "in_transaction body d = (case body d of Inl e \<Rightarrow> (Inl e, d) | Inr (a, d') \<Rightarrow> (Inr a, d'))"

definition rollover_transition ::
  "shared \<Rightarrow> (nat \<Rightarrow> id) \<Rightarrow> rollover_input \<Rightarrow> db \<Rightarrow> rollover_result result \<times> db" where
  "rollover_transition sh ids i = in_transaction (rollover_in_transaction sh ids i)"

section \<open>Change of plan\<close>

record plan_change_input =
  qi_shopId :: id
  qi_subscriptionId :: id
  qi_provider :: partner_subscription
  qi_plan :: plan
  qi_expectedCurrentPlanId :: id
  qi_now :: time

datatype plan_change_result =
    Plan_Change_Not_Applicable
  | Plan_Change_Transitioned "id option" "time option" billing_plan_kind

definition RETRYABLE_PLAN_CHANGE_SYNC_ERRORS :: "string list" where
  "RETRYABLE_PLAN_CHANGE_SYNC_ERRORS =
     [''UNEXPECTED_IMMEDIATE_PLAN_CHANGE'', ''MISSING_BILLING_CYCLE'', ''MISSING_USAGE_METER'',
      ''INVALID_INCLUDED_ALLOWANCE'']"

definition valid_allowance :: "int option \<Rightarrow> bool" where
  "valid_allowance a = (case a of None \<Rightarrow> False | Some n \<Rightarrow> is_safe_int n \<and> 0 \<le> n)"

definition requires_exact_cycle :: "plan \<Rightarrow> bool" where
  "requires_exact_cycle pl \<longleftrightarrow>
     pl_kind pl = PAID_METERED \<or> (pl_kind pl = FREE \<and> pl_recoveryCreditPackEnabled pl)"

definition exact_cycle :: "partner_subscription \<Rightarrow> bool" where
  "exact_cycle pv =
     (case (pa_currentPeriodStart pv, pa_currentPeriodEnd pv) of (Some s, Some e) \<Rightarrow> s < e | _ \<Rightarrow> False)"

text \<open>The checks of the provider's plan: \<open>Inr False\<close> is \<open>not-applicable\<close>.\<close>

definition check_changed_plan :: "plan_change_input \<Rightarrow> bool result" where
  "check_changed_plan i =
     (let pv = qi_provider i; pl = qi_plan i in
      if \<not> pl_active pl \<or> pa_planHandle pv \<noteq> pl_shopifyPlanHandle pl then Inr False
      else if requires_exact_cycle pl \<and> \<not> exact_cycle pv then Inr False
      else if pl_kind pl = PAID_METERED \<and>
          (\<not> valid_allowance (pl_includedRecoveryConversationAllowance pl) \<or>
           \<not> offers_meter pv (pl_shopifyUsageEventHandle pl))
        then Inl (plain_error ''Provider-confirmed paid plan is missing a valid recovery meter or allowance'')
      else if pl_kind pl = PAID_METERED \<and> pl_recoveryCreditPackEnabled pl \<and>
          \<not> offers_meter pv (pl_shopifyRecoveryCreditPackEventHandle pl)
        then Inl (plain_error ''Provider-confirmed Paid plan is missing its recovery pack meter'')
      else if pl_kind pl = FREE \<and> pl_recoveryCreditPackEnabled pl \<and>
          \<not> offers_meter pv (pl_shopifyRecoveryCreditPackEventHandle pl)
        then Inl (plain_error ''Provider-confirmed Free plan is missing its recovery pack meter'')
      else Inr True)"

definition retryable_sync_error :: "subscription \<Rightarrow> bool" where
  "retryable_sync_error su =
     (case su_lastSyncErrorCode su of None \<Rightarrow> False
      | Some c \<Rightarrow> c \<in> set RETRYABLE_PLAN_CHANGE_SYNC_ERRORS)"

definition plan_change_subscription :: "plan_change_input \<Rightarrow> db \<Rightarrow> subscription option" where
  "plan_change_subscription i d =
     (case find_subscription_by_id d (qi_subscriptionId i) of
        None \<Rightarrow> None
      | Some su \<Rightarrow>
          if su_shopId su \<noteq> qi_shopId i \<or> su_planId su \<noteq> Some (qi_expectedCurrentPlanId i) \<or>
             (\<not> is_running (su_status su) \<and> \<not> (su_status su = SUB_SYNC_ERROR \<and> retryable_sync_error su))
          then None else Some su)"

definition outgoing_plan_kind :: "db \<Rightarrow> subscription \<Rightarrow> billing_plan_kind option" where
  "outgoing_plan_kind d su =
     (case (case subscription_period d su of None \<Rightarrow> None | Some p \<Rightarrow> bp_planKindSnapshot p) of
        Some k \<Rightarrow> Some k | None \<Rightarrow> map_option pl_kind (subscription_plan d su))"

definition plan_change_close_input :: "db \<Rightarrow> subscription \<Rightarrow> billing_period \<Rightarrow> close_input" where
  "plan_change_close_input d su p =
     \<lparr>ci_billingPeriodId = bp_id p,
      ci_planKind = (case outgoing_plan_kind d su of None \<Rightarrow> FREE | Some k \<Rightarrow> k),
      ci_closedAt = bp_periodEnd p, ci_closeReason = PLAN_CHANGED,
      ci_openPeriodFailureMessage = ''Billing period was not open while applying plan change'',
      ci_providerResponseSummary = Some ''Billing period closed before Shopify App Event report''\<rparr>"

definition close_outgoing_period :: "subscription \<Rightarrow> db \<Rightarrow> db result" where
  "close_outgoing_period su d =
     (case subscription_period d su of
        None \<Rightarrow> Inr d
      | Some p \<Rightarrow> close_billing_period (plan_change_close_input d su p) d)"

definition changed_subscription ::
  "plan_change_input \<Rightarrow> id option \<Rightarrow> time option \<Rightarrow> subscription \<Rightarrow> subscription" where
  "changed_subscription i periodId nextReconcileAt su =
     (let pv = qi_provider i in
      su\<lparr>su_planId := Some (pl_id (qi_plan i)), su_observedShopifyPlanHandle := Some (pa_planHandle pv),
         su_status := projected_status pv, su_billingPeriodId := periodId,
         su_currentPeriodStart := pa_currentPeriodStart pv, su_currentPeriodEnd := pa_currentPeriodEnd pv,
         su_trialEndsAt := pa_trialEndsAt pv, su_cancelAtPeriodEnd := pa_cancelAtPeriodEnd pv,
         su_providerSubscriptionId := pa_providerSubscriptionId pv, su_pendingPlanId := None,
         su_pendingShopifyPlanHandle := None, su_pendingEffectiveAt := None,
         su_nextReconcileAt := nextReconcileAt, su_lastSyncedAt := Some (qi_now i),
         su_lastSyncErrorCode := None, su_lastSyncErrorAt := None\<rparr>)"

definition plan_change_successor_input :: "plan_change_input \<Rightarrow> time \<Rightarrow> time \<Rightarrow> successor_input" where
  "plan_change_successor_input i s e =
     \<lparr>si_shopId = qi_shopId i, si_subscriptionId = qi_subscriptionId i, si_planId = pl_id (qi_plan i),
      si_shopifyPlanHandleSnapshot = pa_planHandle (qi_provider i),
      si_planNameSnapshot = pl_name (qi_plan i), si_planKindSnapshot = pl_kind (qi_plan i),
      si_includedRecoveryCreditsGranted =
        (if pl_kind (qi_plan i) = PAID_METERED then pl_includedRecoveryConversationAllowance (qi_plan i) else None),
      si_periodStart = s, si_periodEnd = e,
      si_closedPeriodError = ''Provider plan change has a closed successor period'',
      si_incompatiblePeriodError = ''Provider plan change has an incompatible successor period'',
      si_incompatibleIncludedCounterError = ''Provider plan change has an incompatible included-credit grant''\<rparr>"

definition apply_plan_change ::
  "shared \<Rightarrow> (nat \<Rightarrow> id) \<Rightarrow> plan_change_input \<Rightarrow> subscription \<Rightarrow> db \<Rightarrow> (plan_change_result \<times> db) result" where
  "apply_plan_change sh ids i su d =
     (case (pa_currentPeriodStart (qi_provider i), pa_currentPeriodEnd (qi_provider i)) of
        (Some s, Some e) \<Rightarrow>
          (let si = plan_change_successor_input i s e in
           and_then (find_compatible_successor si d) (\<lambda>successor.
           and_then (close_outgoing_period su d) (\<lambda>d1.
           and_then (ensure_successor ids si successor d1) (\<lambda>(periodId, d2).
           let nextReconcileAt = next_reconcile_at sh (qi_plan i) (qi_now i) e in
           and_then (update_subscription (su_id su) (changed_subscription i (Some periodId) nextReconcileAt) d2) (\<lambda>d3.
           Inr (Plan_Change_Transitioned (Some periodId) nextReconcileAt (pl_kind (qi_plan i)), d3))))))
      | _ \<Rightarrow>
          and_then (close_outgoing_period su d) (\<lambda>d1.
          and_then (update_subscription (su_id su) (changed_subscription i None None) d1) (\<lambda>d2.
          Inr (Plan_Change_Transitioned None None (pl_kind (qi_plan i)), d2))))"

definition plan_change_overlaps :: "plan_change_input \<Rightarrow> subscription \<Rightarrow> bool" where
  "plan_change_overlaps i su =
     (case (pa_currentPeriodStart (qi_provider i), su_currentPeriodEnd su) of
        (Some s, Some e) \<Rightarrow> s < e | _ \<Rightarrow> False)"

definition plan_change_in_transaction ::
  "shared \<Rightarrow> (nat \<Rightarrow> id) \<Rightarrow> plan_change_input \<Rightarrow> db \<Rightarrow> (plan_change_result \<times> db) result" where
  "plan_change_in_transaction sh ids i d =
     and_then (check_changed_plan i) (\<lambda>applies.
     if \<not> applies then Inr (Plan_Change_Not_Applicable, d)
     else
       (case plan_change_subscription i d of
          None \<Rightarrow> Inr (Plan_Change_Not_Applicable, d)
        | Some su \<Rightarrow>
            if outgoing_plan_kind d su = Some PAID_METERED \<and>
               (subscription_period d su = None \<or> su_currentPeriodEnd su = None)
            then Inr (Plan_Change_Not_Applicable, d)
            else if plan_change_overlaps i su
            then Inl (plain_error ''Provider plan change cycle overlaps the current billing period'')
            else apply_plan_change sh ids i su d))"

definition plan_change_transition ::
  "shared \<Rightarrow> (nat \<Rightarrow> id) \<Rightarrow> plan_change_input \<Rightarrow> db \<Rightarrow> plan_change_result result \<times> db" where
  "plan_change_transition sh ids i = in_transaction (plan_change_in_transaction sh ids i)"

section \<open>What a renewal does\<close>

lemma update_subscription_InrD:
  "update_subscription k f d = Inr d' \<Longrightarrow>
     d' = d\<lparr>db_subscriptions := update_key su_id k f (db_subscriptions d)\<rparr> \<and> (\<exists>s\<in>set (db_subscriptions d). su_id s = k)"
  by (auto simp: update_subscription_def and_then_Inr dest!: update_unique_InrD)

lemma update_subscription_hit:
  assumes "distinct (map su_id (db_subscriptions d))" "s \<in> set (db_subscriptions d)"
  shows "update_subscription (su_id s) f d
    = Inr (d\<lparr>db_subscriptions := update_key su_id (su_id s) f (db_subscriptions d)\<rparr>)"
  using update_unique_hit [OF assms refl] by (simp add: update_subscription_def)

lemma update_subscription_ledger:
  "update_subscription k f d = Inr d' \<Longrightarrow> ledger_ok d \<Longrightarrow> ledger_ok d'"
  by (drule update_subscription_InrD) (auto intro: ledger_frame [of d])

lemma find_row_update_same:
  assumes "distinct (map key t)" "s \<in> set t" "\<And>x. key (f x) = key x"
  shows "find_row (\<lambda>x. key x = key s) (update_key key (key s) f t) = Some (f s)"
proof (rule find_row_key [where key = key])
  show "distinct (map key (update_key key (key s) f t))" using assms(1,3) by (simp add: map_update_key)
  show "f s \<in> set (update_key key (key s) f t)" unfolding set_update_key using assms(2) by auto
qed (rule assms(3))

lemma rollover_to_moved:
  assumes ok: "ledger_ok d" "period_keys_ok d"
    and run: "rollover_to sh ids i su current s e d = Inr (r, d')"
    and r: "r = Rollover_Transitioned p t k"
  obtains existing d2 where
    "find_compatible_successor (rollover_successor_input i (su_id su) s e) d = Inr existing"
    "existing = None \<or> su_billingPeriodId su \<noteq> existing"
    "closable (rollover_close_input i current) d"
    "ensure_successor ids (rollover_successor_input i (su_id su) s e) existing
       (after_close (rollover_close_input i current) d) = Inr (p, d2)"
    "t = next_reconcile_at sh (ri_plan i) (ri_now i) e" "k = pl_kind (ri_plan i)"
    "update_subscription (su_id su) (renewed_subscription i p s e t) d2 = Inr d'"
proof -
  from run [unfolded rollover_to_def Let_def and_then_Inr r]
  obtain existing where ex: "find_compatible_successor (rollover_successor_input i (su_id su) s e) d = Inr existing"
    and rest: "(if existing \<noteq> None \<and> su_billingPeriodId su = existing
        then Inr (Rollover_Unchanged existing (su_nextReconcileAt su), d)
        else and_then (close_billing_period (rollover_close_input i current) d) (\<lambda>d1.
          and_then (ensure_successor ids (rollover_successor_input i (su_id su) s e) existing d1) (\<lambda>(periodId, d2).
          and_then (update_subscription (su_id su) (renewed_subscription i periodId s e
              (next_reconcile_at sh (ri_plan i) (ri_now i) e)) d2) (\<lambda>d3.
          Inr (Rollover_Transitioned periodId (next_reconcile_at sh (ri_plan i) (ri_now i) e) (pl_kind (ri_plan i)), d3)))))
      = Inr (Rollover_Transitioned p t k, d')"
    by blast
  from rest obtain d1 d2 where new: "existing = None \<or> su_billingPeriodId su \<noteq> existing"
    and d1: "close_billing_period (rollover_close_input i current) d = Inr d1"
    and d2: "ensure_successor ids (rollover_successor_input i (su_id su) s e) existing d1 = Inr (p, d2)"
    and tk: "t = next_reconcile_at sh (ri_plan i) (ri_now i) e" "k = pl_kind (ri_plan i)"
    and d': "update_subscription (su_id su) (renewed_subscription i p s e t) d2 = Inr d'"
    by (auto simp: and_then_Inr split: if_splits)
  from close_billing_period_InrD [OF ok(1) period_keys_okD(1) [OF ok(2)] d1] ex new d2 tk d'
  show ?thesis by (auto intro: that)
qed

lemma rollover_to_unmoved:
  assumes "rollover_to sh ids i su current s e d = Inr (r, d')" "\<nexists>p t k. r = Rollover_Transitioned p t k"
  shows "d' = d \<and> (\<exists>t q. r = Rollover_Unchanged q t)"
  using assms by (auto simp: rollover_to_def Let_def and_then_Inr split: if_splits)

lemma rollover_InrE:
  assumes run: "rollover_in_transaction sh ids i d = Inr (r, d')"
  obtains (unmoved) "d' = d" "\<nexists>p t k. r = Rollover_Transitioned p t k"
  | (moved) su current s e s0 e0 p t k where
      "rollover_provider_applies i" "pa_currentPeriodStart (ri_provider i) = Some s"
      "pa_currentPeriodEnd (ri_provider i) = Some e" "s < e"
      "find_rollover_subscription i d = Some su" "su_shopId su = ri_shopId i"
      "su_planId su = Some (pl_id (ri_plan i))" "is_running (su_status su)"
      "subscription_period d su = Some current" "su_currentPeriodStart su = Some s0"
      "su_currentPeriodEnd su = Some e0" "(s0, e0) \<noteq> (s, e)" "bp_periodEnd current \<le> s"
      "rollover_to sh ids i su current s e d = Inr (r, d')" "r = Rollover_Transitioned p t k"
proof (cases "\<exists>p t k. r = Rollover_Transitioned p t k")
  case True
  then obtain p t k where r: "r = Rollover_Transitioned p t k" by blast
  from run r obtain s e where app: "rollover_provider_applies i"
    and se: "pa_currentPeriodStart (ri_provider i) = Some s" "pa_currentPeriodEnd (ri_provider i) = Some e" "s < e"
    by (auto simp: rollover_in_transaction_def rollover_provider_applies_def Let_def split: if_splits option.splits)
  from run r app se obtain su where su: "find_rollover_subscription i d = Some su"
    by (auto simp: rollover_in_transaction_def Let_def split: if_splits option.splits)
  from run r app se su have "su_shopId su = ri_shopId i" "su_planId su = Some (pl_id (ri_plan i))"
    "is_running (su_status su)"
    by (auto simp: rollover_in_transaction_def Let_def split: if_splits)
  moreover from this run r app se su obtain current s0 e0 where
    "subscription_period d su = Some current" "su_currentPeriodStart su = Some s0" "su_currentPeriodEnd su = Some e0"
    by (auto simp: rollover_in_transaction_def Let_def split: option.splits)
  moreover from this calculation run r app se su have "(s0, e0) \<noteq> (s, e)" "bp_periodEnd current \<le> s"
    "rollover_to sh ids i su current s e d = Inr (r, d')"
    by (auto simp: rollover_in_transaction_def Let_def split: if_splits)
  ultimately show ?thesis using moved app se su r by blast
next
  case False
  with run have "d' = d"
    by (auto simp: rollover_in_transaction_def Let_def split: if_splits option.splits dest!: rollover_to_unmoved)
  with False show ?thesis by (intro unmoved) auto
qed

definition open_period_ids :: "db \<Rightarrow> id set" where
  "open_period_ids d = set (map bp_id (filter (\<lambda>p. bp_status p = OPEN) (db_billingPeriods d)))"

lemma open_period_ids_iff: "k \<in> open_period_ids d \<longleftrightarrow> (\<exists>p\<in>set (db_billingPeriods d). bp_id p = k \<and> bp_status p = OPEN)"
  by (auto simp: open_period_ids_def)

lemma after_close_simps [simp]:
  "db_billingPeriods (after_close ci d) = update_key bp_id (ci_billingPeriodId ci)
     (closed_period_row (ci_closedAt ci) (ci_closeReason ci)) (db_billingPeriods d)"
  "db_subscriptions (after_close ci d) = db_subscriptions d"
  by (simp_all add: after_close_def period_closed_def)

lemma find_row_map:
  "(\<And>x. P (g x) = P x) \<Longrightarrow> find_row P (map g t) = map_option g (find_row P t)"
  by (induction t) auto

lemma none_left: "(\<And>x. \<not> P (f x)) \<Longrightarrow> \<not> list_ex P (update_rows P f t)"
  by (induction t) (auto simp: update_rows_def)

lemma after_close_reports: "\<not> list_ex (unreported_in (ci_billingPeriodId ci)) (db_usageEvents (after_close ci d))"
  unfolding after_close_def unreported_closed_def
  by (simp add: none_left unreported_in_def closed_before_report_def)

lemma after_close_paid:
  assumes "ci_planKind ci = PAID_METERED" "included_counter d (ci_billingPeriodId ci) = Some c"
  shows "db_reservations (after_close ci d) = update_rows (held_in (pc_id c)) released_by_close (db_reservations d)"
    "db_periodCounters (after_close ci d) = update_key pc_id (pc_id c)
       (closed_counter_row (pc_reservedQuantity c)
          (pc_grantedQuantity c - pc_committedQuantity c - pc_forfeitedQuantity c)) (db_periodCounters d)"
  using assms by (simp_all add: after_close_def counter_closed_def close_counter_of_def)

lemma after_close_counter:
  assumes ok: "ledger_ok d" and cl: "closable ci d" and paid: "ci_planKind ci = PAID_METERED"
  shows "\<exists>c c'. included_counter d (ci_billingPeriodId ci) = Some c \<and>
      included_counter (after_close ci d) (ci_billingPeriodId ci) = Some c' \<and> pc_id c' = pc_id c \<and>
      closed_cleanly c' \<and> pc_committedQuantity c' = pc_committedQuantity c \<and>
      \<not> list_ex (held_in (pc_id c)) (db_reservations (after_close ci d))"
proof -
  from cl paid obtain c where c: "included_counter d (ci_billingPeriodId ci) = Some c"
    by (auto simp: closable_def)
  let ?f = "closed_counter_row (pc_reservedQuantity c) (pc_grantedQuantity c - pc_committedQuantity c - pc_forfeitedQuantity c)"
  note paid' = after_close_paid [OF paid c]
  have "included_counter (after_close ci d) (ci_billingPeriodId ci) = Some (?f c)"
    using c unfolding included_counter_def paid'(2) update_key_def
    by (subst find_row_map) (auto simp: closed_counter_row_def)
  moreover have "closed_cleanly (?f c)" "pc_id (?f c) = pc_id c" "pc_committedQuantity (?f c) = pc_committedQuantity c"
    by (simp_all add: closed_cleanly_def closed_counter_row_def)
  moreover have "\<not> list_ex (held_in (pc_id c)) (db_reservations (after_close ci d))"
    unfolding paid'(1) by (rule none_left) (simp add: held_in_def)
  ultimately show ?thesis using c by blast
qed

lemma open_period_ids_after_close:
  "open_period_ids (after_close ci d) = open_period_ids d - {ci_billingPeriodId ci}"
  by (auto simp: open_period_ids_def update_key_def closed_period_row_def image_iff split: if_splits)

lemma successor_in_open: "successor_in si p d \<Longrightarrow> p \<in> open_period_ids d"
  by (auto simp: successor_in_def open_period_ids_iff same_identity_def)

lemma ensure_successor_open:
  assumes "ensure_successor ids si existing d = Inr (p, d')"
    and "\<And>x. existing = Some x \<Longrightarrow> \<exists>q\<in>set (db_billingPeriods d). bp_id q = x \<and> same_identity si q"
  shows "open_period_ids d' = insert p (open_period_ids d)"
  using ensure_successor_InrD [OF assms] assms(2)
  by (cases existing)
    (auto simp: open_period_ids_def new_period_def same_identity_def simp flip: open_period_ids_iff
      intro: image_eqI)

text \<open>A successor that was found open and is not the period being closed stays what it was.\<close>

lemma compatible_after_close:
  assumes "find_compatible_successor si d = Inr (Some x)" "x \<noteq> ci_billingPeriodId ci"
  shows "\<exists>q\<in>set (db_billingPeriods (after_close ci d)). bp_id q = x \<and> same_identity si q"
  using find_compatible_successor_SomeD [OF assms(1)] assms(2) by (force simp: set_update_key)

lemma subscription_period_SomeD:
  "subscription_period d su = Some p \<Longrightarrow> p \<in> set (db_billingPeriods d) \<and> su_billingPeriodId su = Some (bp_id p)"
  by (auto simp: subscription_period_def split: option.splits dest!: find_row_SomeD)

lemma renewed_subscription_simps [simp]:
  "su_id (renewed_subscription i p s e t su) = su_id su"
  "su_shopId (renewed_subscription i p s e t su) = su_shopId su"
  "su_planId (renewed_subscription i p s e t su) = su_planId su"
  "su_billingPeriodId (renewed_subscription i p s e t su) = Some p"
  "su_currentPeriodStart (renewed_subscription i p s e t su) = Some s"
  "su_currentPeriodEnd (renewed_subscription i p s e t su) = Some e"
  "su_nextReconcileAt (renewed_subscription i p s e t su) = t"
  "su_status (renewed_subscription i p s e t su) = projected_status (ri_provider i)"
  by (simp_all add: renewed_subscription_def Let_def)

lemma is_running_projected [simp]: "is_running (projected_status pv)"
  by (simp add: is_running_def projected_status_def)

lemma find_rollover_subscription_SomeD:
  "find_rollover_subscription i d = Some su \<Longrightarrow> su \<in> set (db_subscriptions d)"
  by (auto simp: find_rollover_subscription_def split: if_splits dest!: find_row_SomeD)

lemma find_rollover_subscription_update:
  assumes d': "db_subscriptions d' = update_key su_id (su_id su) f (db_subscriptions d)"
    and f: "\<And>x. su_id (f x) = su_id x" "\<And>x. su_shopId (f x) = su_shopId x"
    and su: "find_rollover_subscription i d = Some su"
    and i': "ri_subscriptionId i' = ri_subscriptionId i" "ri_shopId i' = ri_shopId i"
  shows "find_rollover_subscription i' d' = Some (f su)"
  using su unfolding find_rollover_subscription_def d' i' update_key_def
  by (subst (1 2) find_row_map) (auto simp: f split: if_splits dest!: find_row_SomeD)

text \<open>The whole effect of a renewal that moves the subscription.\<close>

lemma rollover_moved_effect:
  assumes ok: "ledger_ok d" "period_keys_ok d"
    and allow: "\<And>a. pl_includedRecoveryConversationAllowance (ri_plan i) = Some a \<Longrightarrow> 0 \<le> a"
    and su: "find_rollover_subscription i d = Some su"
    and cur: "subscription_period d su = Some current"
    and run: "rollover_to sh ids i su current s e d = Inr (Rollover_Transitioned p t k, d')"
  shows "ledger_ok d'"
    "open_period_ids d' = insert p (open_period_ids d - {bp_id current})"
    "bp_id current \<in> open_period_ids d"
    "p \<noteq> bp_id current"
    "db_subscriptions d' = update_key su_id (su_id su) (renewed_subscription i p s e t) (db_subscriptions d)"
    "successor_in (rollover_successor_input i (su_id su) s e) p d'"
    "t = next_reconcile_at sh (ri_plan i) (ri_now i) e"
    "closed_period_row (bp_periodEnd current) RENEWED_SAME_PLAN current \<in> set (db_billingPeriods d')"
    "db_reservations d' = db_reservations (after_close (rollover_close_input i current) d)"
proof -
  let ?si = "rollover_successor_input i (su_id su) s e" and ?ci = "rollover_close_input i current"
  obtain existing d2 where ex: "find_compatible_successor ?si d = Inr existing"
    and new: "existing = None \<or> su_billingPeriodId su \<noteq> existing"
    and clos: "closable ?ci d"
    and d2: "ensure_successor ids ?si existing (after_close ?ci d) = Inr (p, d2)"
    and t: "t = next_reconcile_at sh (ri_plan i) (ri_now i) e"
    and d': "update_subscription (su_id su) (renewed_subscription i p s e t) d2 = Inr d'"
    by (rule rollover_to_moved [OF ok run refl])
  have ci: "ci_billingPeriodId ?ci = bp_id current" "ci_closeReason ?ci = RENEWED_SAME_PLAN"
    "ci_closedAt ?ci = bp_periodEnd current"
    by (simp_all add: rollover_close_input_def)
  have cur': "current \<in> set (db_billingPeriods d)" "su_billingPeriodId su = Some (bp_id current)"
    using subscription_period_SomeD [OF cur] by auto
  have exq: "\<exists>q\<in>set (db_billingPeriods (after_close ?ci d)). bp_id q = x \<and> same_identity ?si q"
    if "existing = Some x" for x
    using ex new cur'(2) that ci(1) by (intro compatible_after_close) auto
  note E = ensure_successor_InrD [OF d2 exq]
  have upd: "d' = d2\<lparr>db_subscriptions := update_key su_id (su_id su) (renewed_subscription i p s e t) (db_subscriptions d2)\<rparr>"
    using update_subscription_InrD [OF d'] by blast
  show "bp_id current \<in> open_period_ids d" using clos by (simp add: closable_def open_period_ids_iff ci)
  show "p \<noteq> bp_id current"
  proof (cases existing)
    case None
    have "closed_period_row (bp_periodEnd current) RENEWED_SAME_PLAN current
        \<in> set (db_billingPeriods (after_close ?ci d))"
      using cur'(1) by (auto simp: set_update_key ci)
    with E(5) [OF _ None] show ?thesis by (auto simp: closed_period_row_def)
  next
    case (Some x)
    with E(3) new cur'(2) show ?thesis by auto
  qed
  have "ledger_ok d2"
    by (rule E(9) [OF _ after_close_ledger [OF ok(1)]])
      (use allow in \<open>auto simp: rollover_successor_input_def split: if_splits option.splits\<close>)
  with d' show "ledger_ok d'" by (rule update_subscription_ledger)
  show "db_subscriptions d' = update_key su_id (su_id su) (renewed_subscription i p s e t) (db_subscriptions d)"
    unfolding upd using E(6) by simp
  show "successor_in ?si p d'" using E(1) unfolding upd by (simp add: successor_in_def included_counter_def)
  show "t = next_reconcile_at sh (ri_plan i) (ri_now i) e" by (fact t)
  have "open_period_ids d' = open_period_ids d2" unfolding upd by (simp add: open_period_ids_def)
  also have "\<dots> = insert p (open_period_ids d - {bp_id current})"
    using ensure_successor_open [OF d2 exq] by (simp add: open_period_ids_after_close ci)
  finally show "open_period_ids d' = insert p (open_period_ids d - {bp_id current})" .
  show "closed_period_row (bp_periodEnd current) RENEWED_SAME_PLAN current \<in> set (db_billingPeriods d')"
    unfolding upd using E(2) cur'(1) by (auto simp: set_update_key ci)
  show "db_reservations d' = db_reservations (after_close ?ci d)" unfolding upd using E(7) by simp
qed

lemma find_row_period:
  assumes "distinct (map bp_id (db_billingPeriods d))" "q \<in> set (db_billingPeriods d)"
    and "su_billingPeriodId su = Some (bp_id q)"
  shows "subscription_period d su = Some q"
  using find_row_key [where key = bp_id, OF assms(1,2) refl] assms(3) by (simp add: subscription_period_def)

text \<open>Every step keeps the unique constraints.\<close>

lemma distinct_snoc: "distinct (map f (xs @ [x])) \<longleftrightarrow> distinct (map f xs) \<and> (\<forall>y\<in>set xs. f y \<noteq> f x)"
  by (auto simp: image_iff)

lemma after_close_keys: "period_keys_ok d \<Longrightarrow> period_keys_ok (after_close ci d)"
  by (auto simp: period_keys_ok_def map_update_key closed_period_row_def after_close_def period_closed_def
      counter_closed_def close_counter_of_def closed_counter_row_def split: option.split)

lemma create_period_keys: "create_period q d = Inr d' \<Longrightarrow> period_keys_ok d \<Longrightarrow> period_keys_ok d'"
  by (drule create_period_InrD) (auto simp: period_keys_ok_def distinct_snoc billing_period_clash_def)

lemma create_period_counter_keys:
  "create_period_counter c d = Inr d' \<Longrightarrow> period_keys_ok d \<Longrightarrow> period_keys_ok d'"
  by (drule create_period_counter_InrD) (auto simp: period_keys_ok_def distinct_snoc period_counter_clash_def)

lemma ensure_successor_keys:
  assumes "ensure_successor ids si existing d = Inr (p, d')" "period_keys_ok d"
  shows "period_keys_ok d'"
  using assms by (auto simp: ensure_successor_def and_then_Inr split: option.splits if_splits
      dest: create_period_keys dest!: ensure_included_counter_InrD intro: create_period_counter_keys)

lemma update_subscription_keys:
  "update_subscription k f d = Inr d' \<Longrightarrow> (\<And>x. su_id (f x) = su_id x) \<Longrightarrow> period_keys_ok d \<Longrightarrow> period_keys_ok d'"
  by (drule update_subscription_InrD) (auto simp: period_keys_ok_def map_update_key)

lemma rollover_keeps_period_keys:
  assumes led: "ledger_ok d" and ok: "period_keys_ok d"
    and run: "rollover_in_transaction sh ids i d = Inr (r, d')"
  shows "period_keys_ok d'"
  using run
proof (cases rule: rollover_InrE)
  case (moved su current s e s0 e0 p t k)
  show ?thesis
  proof (rule rollover_to_moved [OF led ok moved(14,15)])
    fix existing d2
    assume d2: "ensure_successor ids (rollover_successor_input i (su_id su) s e) existing
        (after_close (rollover_close_input i current) d) = Inr (p, d2)"
      and d': "update_subscription (su_id su) (renewed_subscription i p s e t) d2 = Inr d'"
    show ?thesis
      by (rule update_subscription_keys [OF d' _ ensure_successor_keys [OF d2 after_close_keys [OF ok]]]) simp
  qed
qed (use ok in simp)

text \<open>
  After a renewal the same report of the provider changes nothing: the subscription is on the
  reported cycle, and the service says so, or, once that cycle is over as well, that the provider
  lags behind.
\<close>

lemma rollover_again:
  assumes ok: "ledger_ok d" "period_keys_ok d"
    and allow: "\<And>a. pl_includedRecoveryConversationAllowance (ri_plan i) = Some a \<Longrightarrow> 0 \<le> a"
    and run: "rollover_in_transaction sh ids i d = Inr (Rollover_Transitioned p t k, d')"
    and e: "pa_currentPeriodEnd (ri_provider i) = Some e"
  shows "rollover_in_transaction sh ids' (i\<lparr>ri_now := n\<rparr>) d'
    = Inr (if e \<le> n then Provider_Cycle_Lag p t else Rollover_Unchanged (Some p) t, d')"
  using run
proof (cases rule: rollover_InrE)
  case unmoved
  then show ?thesis by blast
next
  case (moved su current s e' s0 e0 p' t' k')
  have [simp]: "p' = p" "t' = t" "k' = k" using moved(15) by auto
  have [simp]: "e' = e" using moved(3) e by simp
  have "rollover_to sh ids i su current s e d = Inr (Rollover_Transitioned p t k, d')" using moved(14) by simp
  note eff = rollover_moved_effect [OF ok allow moved(5,9) this, simplified]
  let ?su = "renewed_subscription i p s e t su"
  have su': "find_rollover_subscription (i\<lparr>ri_now := n\<rparr>) d' = Some ?su"
    by (rule find_rollover_subscription_update [OF eff(5) _ _ moved(5)]) simp_all
  obtain q where q: "q \<in> set (db_billingPeriods d')" "bp_id q = p" "bp_periodEnd q = e"
    using eff(6) by (auto simp: successor_in_def same_identity_def rollover_successor_input_def)
  have per: "subscription_period d' ?su = Some q"
    by (rule find_row_period [OF period_keys_okD(1) [OF rollover_keeps_period_keys [OF ok run]] q(1)])
      (simp add: q(2))
  have app: "rollover_provider_applies (i\<lparr>ri_now := n\<rparr>)"
    using moved(1) by (simp add: rollover_provider_applies_def)
  show ?thesis
    unfolding rollover_in_transaction_def su' Let_def
    using moved(2,3,6,7) by (simp add: app per q)
qed

lemma rollover_ledger:
  assumes "ledger_ok d" "period_keys_ok d" "rollover_in_transaction sh ids i d = Inr (r, d')"
    and "\<And>a. pl_includedRecoveryConversationAllowance (ri_plan i) = Some a \<Longrightarrow> 0 \<le> a"
  shows "ledger_ok d'"
  using assms(3)
proof (cases rule: rollover_InrE)
  case (moved su current s e s0 e0 p t k)
  then show ?thesis using rollover_moved_effect(1) [OF assms(1,2,4)] by simp
qed (use assms(1) in simp)

section \<open>What a change of plan does\<close>

text \<open>
  The subscription's own copy of the current cycle agrees with the period it points to, which
  is what the transitions and the projection write.
\<close>

definition cycle_aligned :: "db \<Rightarrow> subscription \<Rightarrow> bool" where
  "cycle_aligned d su \<longleftrightarrow>
     (case subscription_period d su of None \<Rightarrow> True
      | Some p \<Rightarrow> su_currentPeriodEnd su = Some (bp_periodEnd p))"

definition outgoing_ids :: "db \<Rightarrow> subscription \<Rightarrow> id set" where
  "outgoing_ids d su = (case subscription_period d su of None \<Rightarrow> {} | Some p \<Rightarrow> {bp_id p})"

definition outgoing_closed :: "subscription \<Rightarrow> db \<Rightarrow> db" where
  "outgoing_closed su d =
     (case subscription_period d su of None \<Rightarrow> d | Some p \<Rightarrow> after_close (plan_change_close_input d su p) d)"

lemma close_outgoing_InrD:
  assumes "ledger_ok d" "period_keys_ok d" "close_outgoing_period su d = Inr d1"
  shows "d1 = outgoing_closed su d" "outgoing_ids d su \<subseteq> open_period_ids d"
proof -
  show "d1 = outgoing_closed su d"
    using assms close_billing_period_InrD [OF assms(1) period_keys_okD(1) [OF assms(2)]]
    by (auto simp: close_outgoing_period_def outgoing_closed_def split: option.splits)
  show "outgoing_ids d su \<subseteq> open_period_ids d"
    using assms close_billing_period_InrD [OF assms(1) period_keys_okD(1) [OF assms(2)]]
    by (fastforce simp: close_outgoing_period_def outgoing_ids_def closable_def plan_change_close_input_def
        open_period_ids_iff split: option.splits)
qed

lemma outgoing_closed_facts:
  "ledger_ok d \<Longrightarrow> ledger_ok (outgoing_closed su d)"
  "period_keys_ok d \<Longrightarrow> period_keys_ok (outgoing_closed su d)"
  "db_subscriptions (outgoing_closed su d) = db_subscriptions d"
  "open_period_ids (outgoing_closed su d) = open_period_ids d - outgoing_ids d su"
  by (auto simp: outgoing_closed_def outgoing_ids_def after_close_ledger after_close_keys
      open_period_ids_after_close plan_change_close_input_def split: option.splits)

lemma compatible_after_outgoing:
  assumes "find_compatible_successor si d = Inr (Some x)" "x \<notin> outgoing_ids d su"
  shows "\<exists>q\<in>set (db_billingPeriods (outgoing_closed su d)). bp_id q = x \<and> same_identity si q"
proof (cases "subscription_period d su")
  case None
  then show ?thesis using find_compatible_successor_SomeD [OF assms(1)] by (simp add: outgoing_closed_def)
next
  case (Some p)
  then have "x \<noteq> ci_billingPeriodId (plan_change_close_input d su p)"
    using assms(2) by (simp add: outgoing_ids_def plan_change_close_input_def)
  from compatible_after_close [OF assms(1) this] Some show ?thesis by (simp add: outgoing_closed_def)
qed

lemma plan_change_InrE:
  assumes run: "plan_change_in_transaction sh ids i d = Inr (r, d')"
  obtains (unmoved) "d' = d" "r = Plan_Change_Not_Applicable"
  | (moved) su where "check_changed_plan i = Inr True" "plan_change_subscription i d = Some su"
      "\<not> plan_change_overlaps i su" "apply_plan_change sh ids i su d = Inr (r, d')"
proof (cases "check_changed_plan i = Inr True \<and> plan_change_subscription i d \<noteq> None \<and> r \<noteq> Plan_Change_Not_Applicable")
  case True
  then obtain su where su: "plan_change_subscription i d = Some su" by blast
  from run True su show ?thesis
    by (intro moved [OF _ su]) (auto simp: plan_change_in_transaction_def split: if_splits)
next
  case False
  have "r = Plan_Change_Not_Applicable \<Longrightarrow> apply_plan_change sh ids i su d \<noteq> Inr (r, d')" for su
    by (auto simp: apply_plan_change_def Let_def and_then_Inr split: option.splits)
  with run False show ?thesis
    by (intro unmoved) (auto simp: plan_change_in_transaction_def and_then_Inr split: if_splits option.splits)
qed

lemma plan_change_subscription_SomeD:
  "plan_change_subscription i d = Some su \<Longrightarrow>
     su \<in> set (db_subscriptions d) \<and> su_id su = qi_subscriptionId i \<and> su_shopId su = qi_shopId i \<and>
     su_planId su = Some (qi_expectedCurrentPlanId i)"
  by (auto simp: plan_change_subscription_def find_subscription_by_id_def split: option.splits if_splits
      dest!: find_row_SomeD)

lemma outgoing_ids_closed: "outgoing_ids d su \<subseteq> bp_id ` set (db_billingPeriods (outgoing_closed su d))"
proof -
  have "map bp_id (db_billingPeriods (outgoing_closed su d)) = map bp_id (db_billingPeriods d)"
    by (simp add: outgoing_closed_def map_update_key closed_period_row_def split: option.split)
  then have "bp_id ` set (db_billingPeriods (outgoing_closed su d)) = bp_id ` set (db_billingPeriods d)"
    by (metis set_map)
  then show ?thesis
    by (auto simp: outgoing_ids_def split: option.split dest!: subscription_period_SomeD)
qed

lemma changed_subscription_simps [simp]:
  "su_id (changed_subscription i p t su) = su_id su"
  "su_shopId (changed_subscription i p t su) = su_shopId su"
  "su_planId (changed_subscription i p t su) = Some (pl_id (qi_plan i))"
  "su_billingPeriodId (changed_subscription i p t su) = p"
  "su_currentPeriodStart (changed_subscription i p t su) = pa_currentPeriodStart (qi_provider i)"
  "su_currentPeriodEnd (changed_subscription i p t su) = pa_currentPeriodEnd (qi_provider i)"
  "su_pendingPlanId (changed_subscription i p t su) = None"
  "su_status (changed_subscription i p t su) = projected_status (qi_provider i)"
  by (simp_all add: changed_subscription_def Let_def)

lemma check_changed_plan_True:
  assumes "check_changed_plan i = Inr True"
  shows "pl_active (qi_plan i)"
    "pl_kind (qi_plan i) = PAID_METERED \<Longrightarrow>
       valid_allowance (pl_includedRecoveryConversationAllowance (qi_plan i)) \<and> exact_cycle (qi_provider i)"
  using assms by (auto simp: check_changed_plan_def Let_def requires_exact_cycle_def split: if_splits)

text \<open>A compatible successor is never the period the subscription leaves.\<close>

lemma successor_not_outgoing:
  assumes keys: "period_keys_ok d" and al: "cycle_aligned d su" and no: "\<not> plan_change_overlaps i su"
    and se: "pa_currentPeriodStart (qi_provider i) = Some s" "pa_currentPeriodEnd (qi_provider i) = Some e" "s < e"
    and ex: "find_compatible_successor (plan_change_successor_input i s e) d = Inr (Some x)"
  shows "x \<notin> outgoing_ids d su"
proof (cases "subscription_period d su")
  case (Some p)
  have p: "p \<in> set (db_billingPeriods d)" using subscription_period_SomeD [OF Some] by simp
  obtain q where q: "q \<in> set (db_billingPeriods d)" "bp_id q = x" "bp_periodEnd q = e"
    using find_compatible_successor_SomeD [OF ex] by (auto simp: same_identity_def plan_change_successor_input_def)
  have "bp_periodEnd p \<le> s"
    using al no se Some by (simp add: cycle_aligned_def plan_change_overlaps_def)
  with q(3) se(3) have "q \<noteq> p" by auto
  with key_inj [where key = bp_id, OF period_keys_okD(1) [OF keys] p q(1)] q(2) Some show ?thesis
    by (auto simp: outgoing_ids_def)
qed (simp add: outgoing_ids_def)

lemma plan_change_moved_effect:
  assumes ok: "ledger_ok d" "period_keys_ok d"
    and su: "plan_change_subscription i d = Some su" and al: "cycle_aligned d su"
    and chk: "check_changed_plan i = Inr True" and no: "\<not> plan_change_overlaps i su"
    and se: "pa_currentPeriodStart (qi_provider i) = Some s" "pa_currentPeriodEnd (qi_provider i) = Some e" "s < e"
    and run: "apply_plan_change sh ids i su d = Inr (r, d')"
  obtains p t where "r = Plan_Change_Transitioned (Some p) t (pl_kind (qi_plan i))"
    "t = next_reconcile_at sh (qi_plan i) (qi_now i) e"
    "ledger_ok d'" "period_keys_ok d'"
    "open_period_ids d' = insert p (open_period_ids d - outgoing_ids d su)"
    "p \<notin> outgoing_ids d su"
    "db_subscriptions d' = update_key su_id (su_id su) (changed_subscription i (Some p) t) (db_subscriptions d)"
    "successor_in (plan_change_successor_input i s e) p d'"
proof -
  let ?si = "plan_change_successor_input i s e" and ?d1 = "outgoing_closed su d"
  from run se obtain existing d1 p d2 where ex: "find_compatible_successor ?si d = Inr existing"
    and d1: "close_outgoing_period su d = Inr d1" and d2: "ensure_successor ids ?si existing d1 = Inr (p, d2)"
    and d': "update_subscription (su_id su) (changed_subscription i (Some p) (next_reconcile_at sh (qi_plan i) (qi_now i) e)) d2
      = Inr d'"
    and r: "r = Plan_Change_Transitioned (Some p) (next_reconcile_at sh (qi_plan i) (qi_now i) e) (pl_kind (qi_plan i))"
    by (auto simp: apply_plan_change_def Let_def and_then_Inr)
  note d1' = close_outgoing_InrD [OF ok d1] and oc = outgoing_closed_facts [where d = d and su = su]
  have out: "x \<notin> outgoing_ids d su" if "existing = Some x" for x
    using successor_not_outgoing [OF ok(2) al no se] ex that by blast
  have exq: "\<exists>q\<in>set (db_billingPeriods d1). bp_id q = x \<and> same_identity ?si q" if "existing = Some x" for x
    unfolding d1'(1) using compatible_after_outgoing [OF _ out [OF that]] ex that by simp
  note E = ensure_successor_InrD [OF d2 exq]
  have upd: "d' = d2\<lparr>db_subscriptions := update_key su_id (su_id su)
      (changed_subscription i (Some p) (next_reconcile_at sh (qi_plan i) (qi_now i) e)) (db_subscriptions d2)\<rparr>"
    using update_subscription_InrD [OF d'] by blast
  have grant: "0 \<le> g" if "si_includedRecoveryCreditsGranted ?si = Some g" for g
    using that check_changed_plan_True(2) [OF chk]
    by (auto simp: plan_change_successor_input_def valid_allowance_def split: if_splits)
  have fresh: "p \<notin> outgoing_ids d su"
  proof (cases existing)
    case None
    have "outgoing_ids d su \<subseteq> bp_id ` set (db_billingPeriods ?d1)" by (rule outgoing_ids_closed)
    with E(5) [OF _ None] d1'(1) show ?thesis by auto
  next
    case (Some x)
    with E(3) out show ?thesis by auto
  qed
  have led: "ledger_ok d2" using E(9) oc(1) ok(1) grant d1'(1) by simp
  have keys: "period_keys_ok d2" using ensure_successor_keys [OF d2] oc(2) ok(2) d1'(1) by simp
  show ?thesis
  proof (rule that [OF r refl update_subscription_ledger [OF d' led] update_subscription_keys [OF d' _ keys]])
    show "open_period_ids d' = insert p (open_period_ids d - outgoing_ids d su)"
      using ensure_successor_open [OF d2 exq] oc(4) d1'(1) by (simp add: upd open_period_ids_def)
    show "db_subscriptions d' = update_key su_id (su_id su)
        (changed_subscription i (Some p) (next_reconcile_at sh (qi_plan i) (qi_now i) e)) (db_subscriptions d)"
      unfolding upd using E(6) oc(3) d1'(1) by simp
    show "successor_in ?si p d'"
      using E(1) unfolding upd by (simp add: successor_in_def included_counter_def)
  qed (simp_all add: fresh)
qed

end
