(* ===== verification/Period_Projection.thy ===== *)
theory Period_Projection
  imports Period_Transitions
begin

text \<open>
  The projection of the provider's current billing cycle into a local period with its included
  counter (\<open>current-billing-period-projection.service.ts\<close>), and the repair of a missing lifetime
  counter (\<open>billing-reconciliation/lifetime-free-counter-repair.ts\<close>).
\<close>

section \<open>Projection of the current cycle\<close>

record projection_input =
  pj_shopId :: id
  pj_subscriptionId :: id
  pj_periodStart :: time
  pj_periodEnd :: time
  pj_providerPlanHandle :: string
  pj_plan :: plan

datatype projection_conflict =
    CLOSED_PERIOD | SUBSCRIPTION_MISMATCH | HANDLE_MISMATCH | PLAN_MISMATCH | PLAN_NAME_MISMATCH
  | PLAN_KIND_MISMATCH | INCLUDED_GRANT_MISMATCH | FREE_INCLUDED_COUNTER_PRESENT
  | INVALID_INCLUDED_ALLOWANCE | PAID_COUNTER_MISMATCH

datatype projection_result =
    Projection_Ready id bool \<comment> \<open>the period, and whether anything was repaired\<close>
  | Projection_Conflict "id option" projection_conflict

definition expected_grant :: "projection_input \<Rightarrow> int option" where
  "expected_grant i =
     (if pl_kind (pj_plan i) = PAID_METERED then pl_includedRecoveryConversationAllowance (pj_plan i) else None)"

definition projected_period :: "id \<Rightarrow> projection_input \<Rightarrow> billing_period" where
  "projected_period newId i =
     \<lparr>bp_id = newId, bp_shopId = pj_shopId i, bp_subscriptionId = pj_subscriptionId i,
      bp_planId = Some (pl_id (pj_plan i)), bp_shopifyPlanHandleSnapshot = Some (pj_providerPlanHandle i),
      bp_planNameSnapshot = Some (pl_name (pj_plan i)), bp_planKindSnapshot = Some (pl_kind (pj_plan i)),
      bp_includedRecoveryCreditsGranted = expected_grant i, bp_periodStart = pj_periodStart i,
      bp_periodEnd = pj_periodEnd i, bp_status = OPEN, bp_closedAt = None, bp_closeReason = None\<rparr>"

text \<open>\<open>existing.x !== null \<and> existing.x !== expected\<close>.\<close>

definition set_otherwise :: "'a option \<Rightarrow> 'a option \<Rightarrow> bool" where
  "set_otherwise x expected \<longleftrightarrow> x \<noteq> None \<and> x \<noteq> expected"

definition period_conflict :: "projection_input \<Rightarrow> billing_period \<Rightarrow> projection_conflict option" where
  "period_conflict i p =
     (let pl = pj_plan i in
      if bp_status p = CLOSED then Some CLOSED_PERIOD
      else if bp_subscriptionId p \<noteq> pj_subscriptionId i then Some SUBSCRIPTION_MISMATCH
      else if set_otherwise (bp_shopifyPlanHandleSnapshot p) (Some (pj_providerPlanHandle i)) then Some HANDLE_MISMATCH
      else if set_otherwise (bp_planId p) (Some (pl_id pl)) then Some PLAN_MISMATCH
      else if set_otherwise (bp_planNameSnapshot p) (Some (pl_name pl)) then Some PLAN_NAME_MISMATCH
      else if set_otherwise (bp_planKindSnapshot p) (Some (pl_kind pl)) then Some PLAN_KIND_MISMATCH
      else if set_otherwise (bp_includedRecoveryCreditsGranted p) (expected_grant i) then Some INCLUDED_GRANT_MISMATCH
      else None)"

definition valid_quantity :: "int \<Rightarrow> bool" where
  "valid_quantity q \<longleftrightarrow> is_safe_int q \<and> 0 \<le> q"

definition counter_matches :: "projection_input \<Rightarrow> id \<Rightarrow> period_counter \<Rightarrow> bool" where
  "counter_matches i periodId c \<longleftrightarrow>
     pc_shopId c = pj_shopId i \<and> pc_billingPeriodId c = periodId \<and>
     Some (pc_grantedQuantity c) = expected_grant i \<and>
     list_all valid_quantity
       [pc_grantedQuantity c, pc_committedQuantity c, pc_reservedQuantity c, pc_forfeitedQuantity c] \<and>
     pc_committedQuantity c + pc_reservedQuantity c + pc_forfeitedQuantity c \<le> pc_grantedQuantity c"

definition counter_conflict ::
  "projection_input \<Rightarrow> id \<Rightarrow> period_counter option \<Rightarrow> projection_conflict option" where
  "counter_conflict i periodId counter =
     (case counter of
        None \<Rightarrow> None
      | Some c \<Rightarrow>
          if pl_kind (pj_plan i) = FREE then Some FREE_INCLUDED_COUNTER_PRESENT
          else if \<not> counter_matches i periodId c then Some PAID_COUNTER_MISMATCH
          else None)"

definition incomplete_period :: "projection_input \<Rightarrow> billing_period \<Rightarrow> bool" where
  "incomplete_period i p \<longleftrightarrow>
     bp_planId p = None \<or> bp_shopifyPlanHandleSnapshot p = None \<or> bp_planNameSnapshot p = None \<or>
     bp_planKindSnapshot p = None \<or>
     (bp_includedRecoveryCreditsGranted p = None \<and> expected_grant i \<noteq> None)"

definition completed_period_row :: "projection_input \<Rightarrow> billing_period \<Rightarrow> billing_period" where
  "completed_period_row i p =
     p\<lparr>bp_planId := Some (pl_id (pj_plan i)), bp_shopifyPlanHandleSnapshot := Some (pj_providerPlanHandle i),
       bp_planNameSnapshot := Some (pl_name (pj_plan i)), bp_planKindSnapshot := Some (pl_kind (pj_plan i)),
       bp_includedRecoveryCreditsGranted := expected_grant i, bp_status := OPEN\<rparr>"

definition complete_period :: "projection_input \<Rightarrow> billing_period \<Rightarrow> db \<Rightarrow> db result" where
  "complete_period i p d =
     (if incomplete_period i p
      then and_then (update_unique bp_id (bp_id p) (completed_period_row i) (db_billingPeriods d)) (\<lambda>(_, t).
           Inr (d\<lparr>db_billingPeriods := t\<rparr>))
      else Inr d)"

definition create_included_counter :: "(nat \<Rightarrow> id) \<Rightarrow> projection_input \<Rightarrow> id \<Rightarrow> db \<Rightarrow> db result" where
  "create_included_counter ids i periodId d =
     (case expected_grant i of
        None \<Rightarrow> Inr d
      | Some g \<Rightarrow> create_period_counter (new_included_counter (ids 1) (pj_shopId i) periodId g) d)"

definition ensure_current_projection ::
  "(nat \<Rightarrow> id) \<Rightarrow> projection_input \<Rightarrow> db \<Rightarrow> (projection_result \<times> db) result" where
  "ensure_current_projection ids i d =
     (if pl_kind (pj_plan i) = PAID_METERED \<and> \<not> valid_allowance (expected_grant i)
      then Inr (Projection_Conflict None INVALID_INCLUDED_ALLOWANCE, d)
      else
        (case find_cycle_period d (pj_shopId i) (pj_periodStart i) (pj_periodEnd i) of
           None \<Rightarrow>
             and_then (create_period (projected_period (ids 0) i) d) (\<lambda>d1.
             and_then (if pl_kind (pj_plan i) = PAID_METERED
                       then create_included_counter ids i (ids 0) d1 else Inr d1) (\<lambda>d2.
             Inr (Projection_Ready (ids 0) True, d2)))
         | Some p \<Rightarrow>
             (case period_conflict i p of
                Some reason \<Rightarrow> Inr (Projection_Conflict (Some (bp_id p)) reason, d)
              | None \<Rightarrow>
                  (let counter = included_counter d (bp_id p) in
                   case counter_conflict i (bp_id p) counter of
                     Some reason \<Rightarrow> Inr (Projection_Conflict (Some (bp_id p)) reason, d)
                   | None \<Rightarrow>
                       and_then (complete_period i p d) (\<lambda>d1.
                       if pl_kind (pj_plan i) = PAID_METERED \<and> counter = None
                       then and_then (create_included_counter ids i (bp_id p) d1) (\<lambda>d2.
                            Inr (Projection_Ready (bp_id p) True, d2))
                       else Inr (Projection_Ready (bp_id p) (incomplete_period i p), d1))))))"

section \<open>Repair of the lifetime counter\<close>

datatype counter_repair = Repair_Present | Repair_Created | Repair_History_Conflict

definition lifetime_counter_row :: "id \<Rightarrow> id \<Rightarrow> int \<Rightarrow> shop_counter" where
  "lifetime_counter_row newId shopId granted =
     (new_shop_counter newId shopId LIFETIME_FREE_RECOVERY_CREDITS)\<lparr>sc_grantedQuantity := granted\<rparr>"

definition ensure_lifetime_free_counter :: "id \<Rightarrow> id \<Rightarrow> db \<Rightarrow> (counter_repair \<times> db) result" where
  "ensure_lifetime_free_counter newId shopId d =
     (case find_shop_counter d shopId LIFETIME_FREE_RECOVERY_CREDITS of
        Some _ \<Rightarrow> Inr (Repair_Present, d)
      | None \<Rightarrow>
          if count_rows (\<lambda>e. ue_shopId e = shopId \<and> ue_metric e = RECOVERY_CONVERSATION) (db_usageEvents d) > 0
          then Inr (Repair_History_Conflict, d)
          else
            (let err = plain_error
               ''PlatformBillingPolicy.default has an invalid lifetime Free recovery allowance'' in
             and_then (expect (db_platformPolicy d) err) (\<lambda>policy.
             and_then (require (valid_quantity (pp_lifetimeFreeRecoveryAllowance policy)) err) (\<lambda>_.
             and_then (create_row shop_counter_clash
               (lifetime_counter_row newId shopId (pp_lifetimeFreeRecoveryAllowance policy))
               (db_shopCounters d)) (\<lambda>(_, t).
             Inr (Repair_Created, d\<lparr>db_shopCounters := t\<rparr>))))))"

section \<open>What the projection guarantees\<close>

text \<open>The period a ready projection names: open, with the provider's cycle and the plan, and on a
  paid plan with an included counter of the plan's allowance.\<close>

definition projected :: "projection_input \<Rightarrow> id \<Rightarrow> db \<Rightarrow> bool" where
  "projected i k d \<longleftrightarrow>
     (\<exists>p. find_cycle_period d (pj_shopId i) (pj_periodStart i) (pj_periodEnd i) = Some p \<and> bp_id p = k \<and>
        bp_status p = OPEN \<and> bp_subscriptionId p = pj_subscriptionId i \<and>
        bp_planId p = Some (pl_id (pj_plan i)) \<and>
        bp_shopifyPlanHandleSnapshot p = Some (pj_providerPlanHandle i) \<and>
        bp_planNameSnapshot p = Some (pl_name (pj_plan i)) \<and>
        bp_planKindSnapshot p = Some (pl_kind (pj_plan i)) \<and>
        bp_includedRecoveryCreditsGranted p = expected_grant i) \<and>
     (case pl_kind (pj_plan i) of
        FREE \<Rightarrow> included_counter d k = None
      | PAID_METERED \<Rightarrow> (\<exists>c. included_counter d k = Some c \<and> counter_matches i k c))"

lemma find_cycle_period_SomeD:
  "find_cycle_period d s a b = Some p \<Longrightarrow>
     p \<in> set (db_billingPeriods d) \<and> bp_shopId p = s \<and> bp_periodStart p = a \<and> bp_periodEnd p = b"
  by (auto simp: find_cycle_period_def dest: find_row_SomeD)

lemma completed_period_row_simps [simp]:
  "bp_id (completed_period_row i p) = bp_id p" "bp_shopId (completed_period_row i p) = bp_shopId p"
  "bp_subscriptionId (completed_period_row i p) = bp_subscriptionId p"
  "bp_periodStart (completed_period_row i p) = bp_periodStart p"
  "bp_periodEnd (completed_period_row i p) = bp_periodEnd p"
  by (simp_all add: completed_period_row_def)

text \<open>Completing the period it found gives it exactly the snapshots of the plan.\<close>

definition completed :: "projection_input \<Rightarrow> billing_period \<Rightarrow> billing_period" where
  "completed i p = (if incomplete_period i p then completed_period_row i p else p)"

lemma find_cycle_period_update_key:
  assumes "find_cycle_period d s a b = Some p" "distinct (map bp_id (db_billingPeriods d))"
    and "\<And>x. bp_id (f x) = bp_id x \<and> bp_shopId (f x) = bp_shopId x \<and> bp_periodStart (f x) = bp_periodStart x \<and>
      bp_periodEnd (f x) = bp_periodEnd x"
  shows "find_cycle_period (d\<lparr>db_billingPeriods := update_key bp_id (bp_id p) f (db_billingPeriods d)\<rparr>) s a b = Some (f p)"
  using assms(1) unfolding find_cycle_period_def update_key_def
  by (simp, subst find_row_map) (auto simp: assms(3))

lemma complete_period_InrD:
  assumes "complete_period i p d = Inr d1" "period_keys_ok d"
    and p: "find_cycle_period d s a b = Some p"
  shows "find_cycle_period d1 s a b = Some (completed i p)" "db_periodCounters d1 = db_periodCounters d"
    "period_keys_ok d1" "ledger_ok d \<Longrightarrow> ledger_ok d1" "\<not> incomplete_period i p \<Longrightarrow> d1 = d"
proof -
  have d1: "d1 = (if incomplete_period i p
      then d\<lparr>db_billingPeriods := update_key bp_id (bp_id p) (completed_period_row i) (db_billingPeriods d)\<rparr> else d)"
    using assms(1) by (auto simp: complete_period_def and_then_Inr dest!: update_unique_InrD split: if_splits)
  show "find_cycle_period d1 s a b = Some (completed i p)"
    using find_cycle_period_update_key [OF p period_keys_okD(1) [OF assms(2)], where f = "completed_period_row i"] p
    by (auto simp: d1 completed_def)
  show "db_periodCounters d1 = db_periodCounters d" by (simp add: d1)
  show "period_keys_ok d1" using assms(2) by (auto simp: d1 period_keys_ok_def map_update_key)
  show "ledger_ok d \<Longrightarrow> ledger_ok d1" by (auto simp: d1 intro: ledger_frame [of d])
  show "\<not> incomplete_period i p \<Longrightarrow> d1 = d" by (simp add: d1)
qed

lemma completed_projected:
  assumes "period_conflict i p = None"
  shows "bp_status (completed i p) = OPEN \<and> bp_subscriptionId (completed i p) = pj_subscriptionId i \<and>
    bp_planId (completed i p) = Some (pl_id (pj_plan i)) \<and>
    bp_shopifyPlanHandleSnapshot (completed i p) = Some (pj_providerPlanHandle i) \<and>
    bp_planNameSnapshot (completed i p) = Some (pl_name (pj_plan i)) \<and>
    bp_planKindSnapshot (completed i p) = Some (pl_kind (pj_plan i)) \<and>
    bp_includedRecoveryCreditsGranted (completed i p) = expected_grant i \<and> bp_id (completed i p) = bp_id p"
  using assms
  by (cases "bp_status p")
    (auto simp: period_conflict_def Let_def set_otherwise_def completed_def incomplete_period_def
      completed_period_row_def split: if_splits)

text \<open>Counters belong to periods that exist (the foreign key of the schema).\<close>

definition period_refs_ok :: "db \<Rightarrow> bool" where
  "period_refs_ok d \<longleftrightarrow> (\<forall>c\<in>set (db_periodCounters d). \<exists>p\<in>set (db_billingPeriods d). bp_id p = pc_billingPeriodId c)"

lemma included_counter_None: 
  "(\<And>c. c \<in> set (db_periodCounters d) \<Longrightarrow> pc_billingPeriodId c \<noteq> k) \<Longrightarrow> included_counter d k = None"
  by (auto simp: included_counter_def find_row_None_iff)

lemma create_included_counter_InrD:
  assumes "create_included_counter ids i k d = Inr d'" "valid_allowance (expected_grant i)"
    and none: "included_counter d k = None"
  shows "\<exists>c. included_counter d' k = Some c \<and> counter_matches i k c"
    "db_billingPeriods d' = db_billingPeriods d" "ledger_ok d \<Longrightarrow> ledger_ok d'"
    "period_keys_ok d \<Longrightarrow> period_keys_ok d'"
proof -
  from assms(2) obtain g where g: "expected_grant i = Some g" "0 \<le> g" "is_safe_int g"
    by (auto simp: valid_allowance_def split: option.splits)
  let ?c = "new_included_counter (ids 1) (pj_shopId i) k g"
  from assms(1) g have c: "create_period_counter ?c d = Inr d'" by (simp add: create_included_counter_def)
  have "included_counter d' k = Some ?c"
    using create_period_counter_InrD [OF c] none
    by (simp add: included_counter_def find_row_append_fresh new_included_counter_def)
  moreover have "counter_matches i k ?c"
    using g by (simp add: counter_matches_def new_included_counter_def valid_quantity_def is_safe_int_def
        max_safe_integer_def)
  ultimately show "\<exists>c. included_counter d' k = Some c \<and> counter_matches i k c" by blast
  show "db_billingPeriods d' = db_billingPeriods d" using create_period_counter_InrD [OF c] by simp
  show "ledger_ok d \<Longrightarrow> ledger_ok d'" by (rule ledger_new_period_counter [OF _ g(2) c])
  show "period_keys_ok d \<Longrightarrow> period_keys_ok d'" by (rule create_period_counter_keys [OF c])
qed

lemma projection_new:
  assumes keys: "period_keys_ok d" and refs: "period_refs_ok d"
    and none: "find_cycle_period d (pj_shopId i) (pj_periodStart i) (pj_periodEnd i) = None"
    and allow: "pl_kind (pj_plan i) = PAID_METERED \<Longrightarrow> valid_allowance (expected_grant i)"
    and c1: "create_period (projected_period (ids 0) i) d = Inr d1"
    and c2: "(if pl_kind (pj_plan i) = PAID_METERED then create_included_counter ids i (ids 0) d1 else Inr d1) = Inr d'"
  shows "projected i (ids 0) d'" "ledger_ok d \<Longrightarrow> ledger_ok d'" "period_keys_ok d'"
proof -
  note d1 = create_period_InrD [OF c1]
  have "included_counter d1 (ids 0) = None"
    using refs d1 by (intro included_counter_None)
      (fastforce simp: period_refs_ok_def billing_period_clash_def projected_period_def)
  note C = create_included_counter_InrD [OF _ allow this]
  have keys1: "period_keys_ok d1" by (rule create_period_keys [OF c1 keys])
  have led1: "ledger_ok d1" if "ledger_ok d" using d1 by (intro ledger_frame [OF that]) auto
  have per: "find_cycle_period d1 (pj_shopId i) (pj_periodStart i) (pj_periodEnd i) = Some (projected_period (ids 0) i)"
    using none d1 by (simp add: find_cycle_period_def find_row_append_fresh projected_period_def)
  have "db_billingPeriods d' = db_billingPeriods d1" using c2 C(2) by (auto split: if_splits)
  then have "find_cycle_period d' (pj_shopId i) (pj_periodStart i) (pj_periodEnd i) = Some (projected_period (ids 0) i)"
    using per by (simp add: find_cycle_period_def)
  moreover have "case pl_kind (pj_plan i) of
        FREE \<Rightarrow> included_counter d' (ids 0) = None
      | PAID_METERED \<Rightarrow> (\<exists>c. included_counter d' (ids 0) = Some c \<and> counter_matches i (ids 0) c)"
    using c2 C(1) \<open>included_counter d1 (ids 0) = None\<close> by (auto split: if_splits billing_plan_kind.split)
  ultimately show "projected i (ids 0) d'" by (simp add: projected_def projected_period_def)
  show "ledger_ok d'" if "ledger_ok d" using c2 C(3) led1 [OF that] by (auto split: if_splits)
  show "period_keys_ok d'" using c2 C(4) keys1 by (auto split: if_splits)
qed

lemma projection_existing:
  assumes keys: "period_keys_ok d"
    and p: "find_cycle_period d (pj_shopId i) (pj_periodStart i) (pj_periodEnd i) = Some p"
    and allow: "pl_kind (pj_plan i) = PAID_METERED \<Longrightarrow> valid_allowance (expected_grant i)"
    and ok: "period_conflict i p = None" "counter_conflict i (bp_id p) (included_counter d (bp_id p)) = None"
    and c1: "complete_period i p d = Inr d1"
    and c2: "(if pl_kind (pj_plan i) = PAID_METERED \<and> included_counter d (bp_id p) = None
       then create_included_counter ids i (bp_id p) d1 else Inr d1) = Inr d'"
  shows "projected i (bp_id p) d'" "ledger_ok d \<Longrightarrow> ledger_ok d'" "period_keys_ok d'"
proof -
  note D = complete_period_InrD [OF c1 keys p]
  have fc: "included_counter d1 k = included_counter d k" for k
    using D(2) by (simp add: included_counter_def)
  note C = create_included_counter_InrD [where ids = ids and d' = d' and k = "bp_id p", OF _ allow]
  have "db_billingPeriods d' = db_billingPeriods d1" using c2 C(2) fc by (auto split: if_splits)
  then have "find_cycle_period d' (pj_shopId i) (pj_periodStart i) (pj_periodEnd i) = Some (completed i p)"
    using D(1) by (simp add: find_cycle_period_def)
  moreover have "case pl_kind (pj_plan i) of
        FREE \<Rightarrow> included_counter d' (bp_id p) = None
      | PAID_METERED \<Rightarrow> (\<exists>c. included_counter d' (bp_id p) = Some c \<and> counter_matches i (bp_id p) c)"
    using c2 C(1) fc ok(2)
    by (cases "pl_kind (pj_plan i)") (auto simp: counter_conflict_def split: if_splits option.splits)
  ultimately show "projected i (bp_id p) d'" using completed_projected [OF ok(1)] by (simp add: projected_def)
  show "ledger_ok d'" if "ledger_ok d" using c2 C(3) D(4) [OF that] fc by (auto split: if_splits)
  show "period_keys_ok d'" using c2 C(4) D(3) fc by (auto split: if_splits)
qed

lemma projection_ready:
  assumes keys: "period_keys_ok d" and refs: "period_refs_ok d"
    and run: "ensure_current_projection ids i d = Inr (Projection_Ready k b, d')"
  shows "projected i k d'" "ledger_ok d \<Longrightarrow> ledger_ok d'" "period_keys_ok d'"
proof -
  have allow: "pl_kind (pj_plan i) = PAID_METERED \<Longrightarrow> valid_allowance (expected_grant i)"
    using run by (auto simp: ensure_current_projection_def split: if_splits)
  have "projected i k d' \<and> (ledger_ok d \<longrightarrow> ledger_ok d') \<and> period_keys_ok d'"
  proof (cases "find_cycle_period d (pj_shopId i) (pj_periodStart i) (pj_periodEnd i)")
    case None
    with run allow obtain d1 where "create_period (projected_period (ids 0) i) d = Inr d1" "k = ids 0"
      "(if pl_kind (pj_plan i) = PAID_METERED then create_included_counter ids i (ids 0) d1 else Inr d1) = Inr d'"
      by (auto simp: ensure_current_projection_def and_then_Inr split: if_splits)
    with projection_new [OF keys refs None allow this(1,3)] show ?thesis by simp
  next
    case (Some p)
    with run allow have ok: "period_conflict i p = None"
      "counter_conflict i (bp_id p) (included_counter d (bp_id p)) = None"
      by (auto simp: ensure_current_projection_def Let_def split: if_splits option.splits)
    with run allow Some obtain d1 where "complete_period i p d = Inr d1" "k = bp_id p"
      "(if pl_kind (pj_plan i) = PAID_METERED \<and> included_counter d (bp_id p) = None
        then create_included_counter ids i (bp_id p) d1 else Inr d1) = Inr d'"
      by (auto simp: ensure_current_projection_def Let_def and_then_Inr split: if_splits)
    with projection_existing [OF keys Some allow ok this(1,3)] show ?thesis by simp
  qed
  then show "projected i k d'" "ledger_ok d \<Longrightarrow> ledger_ok d'" "period_keys_ok d'" by auto
qed

lemma projection_conflict_unchanged:
  "ensure_current_projection ids i d = Inr (Projection_Conflict k c, d') \<Longrightarrow> d' = d"
  by (auto simp: ensure_current_projection_def Let_def and_then_Inr split: if_splits option.splits)

lemma counter_matches_allowance: "counter_matches i k c \<Longrightarrow> valid_allowance (expected_grant i)"
  by (cases "expected_grant i") (auto simp: counter_matches_def valid_allowance_def valid_quantity_def)

text \<open>A projected cycle is left alone.\<close>

lemma projection_idle:
  assumes "projected i k d"
  shows "ensure_current_projection ids i d = Inr (Projection_Ready k False, d)"
proof -
  from assms obtain p where p: "find_cycle_period d (pj_shopId i) (pj_periodStart i) (pj_periodEnd i) = Some p" "bp_id p = k"
    "period_conflict i p = None" and inc: "\<not> incomplete_period i p"
  proof -
    assume *: "\<And>p. find_cycle_period d (pj_shopId i) (pj_periodStart i) (pj_periodEnd i) = Some p \<Longrightarrow> bp_id p = k \<Longrightarrow>
      period_conflict i p = None \<Longrightarrow> \<not> incomplete_period i p \<Longrightarrow> thesis"
    from assms show thesis
      by (cases "expected_grant i")
        (auto simp: projected_def period_conflict_def Let_def set_otherwise_def incomplete_period_def intro!: *)
  qed
  have "counter_conflict i k (included_counter d k) = None"
    "pl_kind (pj_plan i) = PAID_METERED \<Longrightarrow> included_counter d k \<noteq> None"
    "pl_kind (pj_plan i) = PAID_METERED \<Longrightarrow> valid_allowance (expected_grant i)"
    using assms by (auto simp: projected_def counter_conflict_def split: billing_plan_kind.splits option.splits
        intro: counter_matches_allowance)
  with p inc show ?thesis
    by (auto simp: ensure_current_projection_def Let_def complete_period_def)
qed

section \<open>What the repair guarantees\<close>

lemma repair_InrD:
  assumes "ensure_lifetime_free_counter newId s d = Inr (a, d')"
  shows "a = Repair_Created \<Longrightarrow> \<exists>g. 0 \<le> g \<and>
      find_shop_counter d s LIFETIME_FREE_RECOVERY_CREDITS = None \<and>
      find_shop_counter d' s LIFETIME_FREE_RECOVERY_CREDITS = Some (lifetime_counter_row newId s g) \<and>
      create_row shop_counter_clash (lifetime_counter_row newId s g) (db_shopCounters d)
        = Inr (lifetime_counter_row newId s g, db_shopCounters d') \<and>
      d' = d\<lparr>db_shopCounters := db_shopCounters d'\<rparr> \<and>
      (\<forall>e\<in>set (db_usageEvents d). ue_shopId e = s \<longrightarrow> ue_metric e \<noteq> RECOVERY_CONVERSATION)"
    "a \<noteq> Repair_Created \<Longrightarrow> d' = d"
    "a = Repair_Present \<Longrightarrow> find_shop_counter d s LIFETIME_FREE_RECOVERY_CREDITS \<noteq> None"
  using assms
  by (auto simp: ensure_lifetime_free_counter_def Let_def and_then_Inr expect_Inr require_Inr valid_quantity_def
      count_rows_def filter_empty_conv find_shop_counter_def find_row_snoc lifetime_counter_row_def new_shop_counter_def
      create_row_def split: option.splits if_splits)

lemma repair_ledger:
  assumes ok: "ledger_ok d" and run: "ensure_lifetime_free_counter newId s d = Inr (a, d')"
  shows "ledger_ok d'"
proof (cases "a = Repair_Created")
  case True
  from repair_InrD(1) [OF run True] obtain g where g: "0 \<le> g"
    "create_row shop_counter_clash (lifetime_counter_row newId s g) (db_shopCounters d)
        = Inr (lifetime_counter_row newId s g, db_shopCounters d')" "d' = d\<lparr>db_shopCounters := db_shopCounters d'\<rparr>"
    by blast
  have "ledger_ok (d\<lparr>db_shopCounters := db_shopCounters d'\<rparr>)"
    by (rule ledger_new_counter_row [OF ok g(2)]) (simp_all add: lifetime_counter_row_def new_shop_counter_def g(1))
  with g(3) show ?thesis by simp
next
  case False
  with repair_InrD(2) [OF run] ok show ?thesis by simp
qed

end
