(* ===== verification/Period_Properties.thy ===== *)
theory Period_Properties
  imports Period_Projection Example_Store
begin

text \<open>
  The properties of the billing periods: closing a period, the renewal of a plan, the change of
  plan, the projection of the provider's cycle and the repair of the lifetime counter, and what a
  renewal means for the credits that were still held in the period it closed.
\<close>

section \<open>A paid period of the example shop\<close>

definition ex_paid_plan :: plan where
  "ex_paid_plan = ex_plan\<lparr>pl_id := ''q'', pl_kind := PAID_METERED, pl_name := ''Pro'', pl_shopifyPlanHandle := ''pro'',
     pl_shopifyUsageEventHandle := Some ''meter'', pl_includedRecoveryConversationAllowance := Some 4\<rparr>"

definition ex_period :: billing_period where
  "ex_period = \<lparr>bp_id = ''b'', bp_shopId = ''s'', bp_subscriptionId = ''u'', bp_planId = Some ''q'',
     bp_shopifyPlanHandleSnapshot = Some ''pro'', bp_planNameSnapshot = Some ''Pro'',
     bp_planKindSnapshot = Some PAID_METERED, bp_includedRecoveryCreditsGranted = Some 4,
     bp_periodStart = 0, bp_periodEnd = 1000, bp_status = OPEN, bp_closedAt = None, bp_closeReason = None\<rparr>"

definition ex_period_reservation :: reservation where
  "ex_period_reservation = (new_reservation ''r'' ''s'' ''k'' 1)\<lparr>res_billingPeriodEntitlementCounterId := Some ''m''\<rparr>"

definition ex_period_counter :: period_counter where
  "ex_period_counter = (new_included_counter ''m'' ''s'' ''b'' 4)\<lparr>pc_reservedQuantity := 1\<rparr>"

definition ex_period_db :: db where
  "ex_period_db = ex_db\<lparr>db_reservations := [ex_period_reservation], db_periodCounters := [ex_period_counter],
     db_billingPeriods := [ex_period], db_plans := [ex_plan, ex_paid_plan],
     db_subscriptions := [ex_subscription\<lparr>su_planId := Some ''q'', su_currentPeriodStart := Some 0,
       su_currentPeriodEnd := Some 1000, su_billingPeriodId := Some ''b''\<rparr>]\<rparr>"

definition ex_provider :: partner_subscription where
  "ex_provider = \<lparr>pa_planHandle = ''pro'', pa_usageEventHandles = [''meter''], pa_status = PARTNER_ACTIVE,
     pa_currentPeriodStart = Some 1000, pa_currentPeriodEnd = Some 2000, pa_trialEndsAt = None,
     pa_cancelAtPeriodEnd = False, pa_providerSubscriptionId = Some ''gid''\<rparr>"

definition ex_rollover :: rollover_input where
  "ex_rollover = \<lparr>ri_shopId = ''s'', ri_subscriptionId = Some ''u'', ri_provider = ex_provider,
     ri_plan = ex_paid_plan, ri_now = 1001\<rparr>"

definition ex_ids :: "nat \<Rightarrow> id" where
  "ex_ids n = ''n'' @ show_nat n"

lemmas ex_period_defs = ex_period_db_def ex_period_reservation_def ex_period_counter_def new_included_counter_def

lemma ex_period_db_ledger: "ledger_ok ex_period_db"
proof -
  have "reservation_ok ex_period_db ex_period_reservation"
    by (intro reservation_change_ok_new [where old = None and k = Paid_Source] change_ok_new [where q = 1])
      (simp_all add: ex_period_defs new_reservation_def period_counter_keys_def)
  then show ?thesis
    by (simp add: ledger_defs pool_ok_def counter_sum_def lot_sum_def purchased_counter_of_def lot_hold_def)
      (simp add: ex_defs ex_period_defs held_weight_def held_def spent_weight_def lot_hold_def)
qed

lemma ex_period_db_keys: "period_keys_ok ex_period_db"
  by code_simp

lemma ex_allowance: "pl_includedRecoveryConversationAllowance (ri_plan ex_rollover) = Some a \<Longrightarrow> 0 \<le> a"
  by (simp add: ex_rollover_def ex_paid_plan_def)

section \<open>Properties\<close>

text \<open>
  C9. Closing a period succeeds exactly when the period is open and, on a paid plan, has an
  included counter: the consistency checks of the code never fail on a consistent ledger. After it
  the ledger is consistent, the period is no longer open, none of its usage events waits for a
  report any more, and on a paid plan the counter is settled: nothing is reserved, what was
  committed still is, the rest of the grant is forfeited, and no reservation is held against it.
\<close>
theorem close_period_settles:
  assumes "ledger_ok d" "period_keys_ok d"
  shows "case close_billing_period i d of
      Inl _ \<Rightarrow> \<not> closable i d
    | Inr d' \<Rightarrow> closable i d \<and> ledger_ok d' \<and> ci_billingPeriodId i \<notin> open_period_ids d' \<and>
        \<not> list_ex (unreported_in (ci_billingPeriodId i)) (db_usageEvents d') \<and>
        (ci_planKind i = FREE \<or>
          (\<exists>c c'. included_counter d (ci_billingPeriodId i) = Some c \<and>
             included_counter d' (ci_billingPeriodId i) = Some c' \<and> pc_id c' = pc_id c \<and> closed_cleanly c' \<and>
             pc_committedQuantity c' = pc_committedQuantity c \<and>
             \<not> list_ex (held_in (pc_id c)) (db_reservations d')))"
proof (cases "closable i d")
  case False
  with close_billing_period_not_closable [OF period_keys_okD(1) [OF assms(2)] False] show ?thesis
    by (auto simp: isl_def)
next
  case True
  have "ci_billingPeriodId i \<notin> open_period_ids (after_close i d)" by (simp add: open_period_ids_after_close)
  moreover have "\<exists>c c'. included_counter d (ci_billingPeriodId i) = Some c \<and>
      included_counter (after_close i d) (ci_billingPeriodId i) = Some c' \<and> pc_id c' = pc_id c \<and>
      closed_cleanly c' \<and> pc_committedQuantity c' = pc_committedQuantity c \<and>
      \<not> list_ex (held_in (pc_id c)) (db_reservations (after_close i d))" if "ci_planKind i = PAID_METERED"
    by (rule after_close_counter [OF assms(1) True that])
  moreover have "ci_planKind i = FREE \<or> ci_planKind i = PAID_METERED" by (cases "ci_planKind i") auto
  ultimately show ?thesis
    using close_billing_period_closable [OF assms(1) period_keys_okD(1) [OF assms(2)] True]
      after_close_ledger [OF assms(1)] after_close_reports True
    by auto
qed

definition ex_close :: close_input where
  "ex_close = rollover_close_input ex_rollover ex_period"

lemma close_period_settles_witness:
  "closable ex_close ex_period_db \<and> ledger_ok (after_close ex_close ex_period_db) \<and>
   (\<exists>c'. included_counter (after_close ex_close ex_period_db) ''b'' = Some c' \<and> closed_cleanly c' \<and>
      pc_forfeitedQuantity c' = 4)"
proof -
  have "closable ex_close ex_period_db" "close_billing_period ex_close ex_period_db = Inr (after_close ex_close ex_period_db)"
    by (code_simp, intro close_billing_period_closable ex_period_db_ledger period_keys_okD(1) [OF ex_period_db_keys], code_simp)
  moreover have "ci_billingPeriodId ex_close = ''b''" "ci_planKind ex_close \<noteq> FREE"
    "map_option pc_forfeitedQuantity (included_counter (after_close ex_close ex_period_db) ''b'') = Some 4"
    by code_simp+
  ultimately show ?thesis
    using close_period_settles [OF ex_period_db_ledger ex_period_db_keys, of ex_close] by auto
qed

text \<open>
  C10. A renewal that reports a transition keeps the ledger and moves the subscription in one step:
  the period it was on was open and is now closed as renewed, the period it is on now is open, has
  the provider's dates, the plan and on a paid plan an included counter of exactly the plan's
  allowance, starts no earlier than the old one ended, and these two are the only periods
  that were opened or closed.
\<close>
theorem rollover_moves_subscription:
  assumes "ledger_ok d" "period_keys_ok d"
    and "\<And>a. pl_includedRecoveryConversationAllowance (ri_plan i) = Some a \<Longrightarrow> 0 \<le> a"
    and "rollover_in_transaction sh ids i d = Inr (Rollover_Transitioned p t k, d')"
  shows "\<exists>su current s e. find_rollover_subscription i d = Some su \<and> subscription_period d su = Some current \<and>
    pa_currentPeriodStart (ri_provider i) = Some s \<and> pa_currentPeriodEnd (ri_provider i) = Some e \<and>
    s < e \<and> bp_periodEnd current \<le> s \<and> ledger_ok d' \<and> period_keys_ok d' \<and>
    bp_id current \<in> open_period_ids d \<and> p \<noteq> bp_id current \<and>
    open_period_ids d' = insert p (open_period_ids d - {bp_id current}) \<and>
    successor_in (rollover_successor_input i (su_id su) s e) p d' \<and>
    find_rollover_subscription i d' = Some (renewed_subscription i p s e t su)"
  using assms(4)
proof (cases rule: rollover_InrE)
  case (moved su current s e s0 e0 p' t' k')
  then have run: "rollover_to sh ids i su current s e d = Inr (Rollover_Transitioned p t k, d')" by simp
  note eff = rollover_moved_effect [OF assms(1-3) moved(5,9) run]
  have "find_rollover_subscription i d' = Some (renewed_subscription i p s e t su)"
    by (rule find_rollover_subscription_update [OF eff(5) _ _ moved(5)]) simp_all
  with moved eff(1-4,6) rollover_keeps_period_keys [OF assms(1,2,4)] show ?thesis by blast
qed simp

lemma ex_rollover_runs:
  "\<exists>d'. rollover_in_transaction ex_shared ex_ids ex_rollover ex_period_db
     = Inr (Rollover_Transitioned ''n0'' (Some 1900) PAID_METERED, d')"
  by (rule run_map) code_simp

lemma rollover_moves_subscription_witness:
  "\<exists>d'. rollover_in_transaction ex_shared ex_ids ex_rollover ex_period_db
     = Inr (Rollover_Transitioned ''n0'' (Some 1900) PAID_METERED, d') \<and>
     ledger_ok d' \<and> ''n0'' \<in> open_period_ids d'"
  using ex_rollover_runs
proof (elim exE)
  fix d' assume run: "rollover_in_transaction ex_shared ex_ids ex_rollover ex_period_db
     = Inr (Rollover_Transitioned ''n0'' (Some 1900) PAID_METERED, d')"
  from rollover_moves_subscription [OF ex_period_db_ledger ex_period_db_keys ex_allowance run] run
  show ?thesis by auto
qed

text \<open>
  A renewal is made once: when the provider reports the same cycle again, at whatever time,
  the service changes nothing and answers with the period the renewal created.
\<close>
theorem rollover_is_made_once:
  assumes "ledger_ok d" "period_keys_ok d"
    and "\<And>a. pl_includedRecoveryConversationAllowance (ri_plan i) = Some a \<Longrightarrow> 0 \<le> a"
    and "rollover_in_transaction sh ids i d = Inr (Rollover_Transitioned p t k, d')"
    and "pa_currentPeriodEnd (ri_provider i) = Some e"
  shows "rollover_transition sh ids' (i\<lparr>ri_now := n\<rparr>) d'
    = (Inr (if e \<le> n then Provider_Cycle_Lag p t else Rollover_Unchanged (Some p) t), d')"
  by (simp add: rollover_transition_def in_transaction_def rollover_again [OF assms])

lemma rollover_is_made_once_witness:
  "\<exists>d'. rollover_in_transaction ex_shared ex_ids ex_rollover ex_period_db
     = Inr (Rollover_Transitioned ''n0'' (Some 1900) PAID_METERED, d') \<and>
     rollover_transition ex_shared ex_ids (ex_rollover\<lparr>ri_now := 1500\<rparr>) d'
       = (Inr (Rollover_Unchanged (Some ''n0'') (Some 1900)), d')"
  using ex_rollover_runs
proof (elim exE)
  fix d' assume run: "rollover_in_transaction ex_shared ex_ids ex_rollover ex_period_db
     = Inr (Rollover_Transitioned ''n0'' (Some 1900) PAID_METERED, d')"
  have "pa_currentPeriodEnd (ri_provider ex_rollover) = Some 2000" by code_simp
  from rollover_is_made_once [OF ex_period_db_ledger ex_period_db_keys ex_allowance run this, of ex_ids 1500] run
  show ?thesis by auto
qed

text \<open>
  C11. A credit that was still held when its paid period was renewed cannot be spent afterwards: a
  commit of it answers that the reservation was already released and changes nothing.
\<close>
theorem renewed_credit_is_not_spent:
  assumes "ledger_ok d" "period_keys_ok d"
    and "\<And>a. pl_includedRecoveryConversationAllowance (ri_plan i) = Some a \<Longrightarrow> 0 \<le> a"
    and "rollover_in_transaction sh ids i d = Inr (Rollover_Transitioned p t k, d')"
    and "find_rollover_subscription i d = Some su" "subscription_period d su = Some current"
    and "pl_kind (ri_plan i) = PAID_METERED" "included_counter d (bp_id current) = Some c"
    and "r \<in> set (db_reservations d)" "held_in (pc_id c) r"
  shows "paid_commit_in_transaction S now occurredAt eventId (res_shopId r) (res_sourceKey r) q d'
    = Inr (Paid_Replay already_released (released_by_close r) (res_sourceKey r) None, d')"
  using assms(4)
proof (cases rule: rollover_InrE)
  case (moved su' current' s e s0 e0 p' t' k')
  with assms(5,6) have su: "su' = su" "current' = current"
    and run: "rollover_to sh ids i su current s e d = Inr (Rollover_Transitioned p t k, d')" by auto
  note eff = rollover_moved_effect [OF assms(1-3) assms(5,6) run]
  have ci: "ci_planKind (rollover_close_input i current) = PAID_METERED"
    "included_counter d (ci_billingPeriodId (rollover_close_input i current)) = Some c"
    using assms(7,8) by (simp_all add: rollover_close_input_def)
  have "db_reservations d' = update_rows (held_in (pc_id c)) released_by_close (db_reservations d)"
    using eff(9) after_close_paid(1) [OF ci] by simp
  with assms(9,10) have "released_by_close r \<in> set (db_reservations d')"
    by (auto simp: set_update_rows intro!: bexI [where x = r])
  from find_by_key [OF eff(1) this] show ?thesis
    by (simp add: paid_commit_in_transaction_def paid_require_reservation_def require_reservation_def
        assert_reservation_shop_def transition_decision_def required_status_def paid_replay_def)
      (simp add: released_by_close_def)
qed simp

lemma renewed_credit_is_not_spent_witness:
  "\<exists>d'. rollover_in_transaction ex_shared ex_ids ex_rollover ex_period_db
     = Inr (Rollover_Transitioned ''n0'' (Some 1900) PAID_METERED, d') \<and>
     paid_commit_in_transaction ex_shared 1002 None ''e'' ''s'' ''k'' 1 d'
       = Inr (Paid_Replay already_released (released_by_close ex_period_reservation) ''k'' None, d')"
  using ex_rollover_runs
proof (elim exE)
  fix d' assume run: "rollover_in_transaction ex_shared ex_ids ex_rollover ex_period_db
     = Inr (Rollover_Transitioned ''n0'' (Some 1900) PAID_METERED, d')"
  have "find_rollover_subscription ex_rollover ex_period_db = Some (hd (db_subscriptions ex_period_db))"
    "subscription_period ex_period_db (hd (db_subscriptions ex_period_db)) = Some ex_period"
    "pl_kind (ri_plan ex_rollover) = PAID_METERED"
    "included_counter ex_period_db (bp_id ex_period) = Some ex_period_counter"
    "held_in (pc_id ex_period_counter) ex_period_reservation"
    "res_shopId ex_period_reservation = ''s''" "res_sourceKey ex_period_reservation = ''k''"
    by code_simp+
  moreover have "ex_period_reservation \<in> set (db_reservations ex_period_db)" by (simp add: ex_period_db_def)
  ultimately show ?thesis
    using renewed_credit_is_not_spent [OF ex_period_db_ledger ex_period_db_keys ex_allowance run] run by metis
qed

text \<open>
  A change of plan with a provider cycle keeps the ledger and puts the subscription on the new
  plan and on an open period of that plan with the provider's dates; the period it leaves, if it
  had one, was open and is closed, no other period is opened or closed, and the new period is not
  the one that was left.
\<close>
theorem plan_change_moves_subscription:
  assumes "ledger_ok d" "period_keys_ok d"
    and "plan_change_in_transaction sh ids i d = Inr (Plan_Change_Transitioned q t k, d')"
    and "\<And>su. plan_change_subscription i d = Some su \<Longrightarrow> cycle_aligned d su"
    and "pa_currentPeriodStart (qi_provider i) = Some s" "pa_currentPeriodEnd (qi_provider i) = Some e" "s < e"
  shows "\<exists>su p. plan_change_subscription i d = Some su \<and> q = Some p \<and> k = pl_kind (qi_plan i) \<and>
    ledger_ok d' \<and> period_keys_ok d' \<and> outgoing_ids d su \<subseteq> open_period_ids d \<and> p \<notin> outgoing_ids d su \<and>
    open_period_ids d' = insert p (open_period_ids d - outgoing_ids d su) \<and>
    successor_in (plan_change_successor_input i s e) p d' \<and>
    find_subscription_by_id d' (su_id su) = Some (changed_subscription i (Some p) t su)"
  using assms(3)
proof (cases rule: plan_change_InrE)
  case (moved su)
  note al = assms(4) [OF moved(2)]
  obtain p t' where r: "Plan_Change_Transitioned q t k = Plan_Change_Transitioned (Some p) t' (pl_kind (qi_plan i))"
    and led: "ledger_ok d'" and keys: "period_keys_ok d'"
    and op: "open_period_ids d' = insert p (open_period_ids d - outgoing_ids d su)" "p \<notin> outgoing_ids d su"
    and subs: "db_subscriptions d' = update_key su_id (su_id su) (changed_subscription i (Some p) t') (db_subscriptions d)"
    and succ: "successor_in (plan_change_successor_input i s e) p d'"
    using plan_change_moved_effect [OF assms(1,2) moved(2) al moved(1,3) assms(5-7) moved(4)] by metis
  have "outgoing_ids d su \<subseteq> open_period_ids d"
    using moved(4) assms(5,6) close_outgoing_InrD(2) [OF assms(1,2)]
    by (auto simp: apply_plan_change_def Let_def and_then_Inr)
  moreover have "find_subscription_by_id d' (su_id su) = Some (changed_subscription i (Some p) t' su)"
    unfolding find_subscription_by_id_def subs
    by (rule find_row_update_same [OF period_keys_okD(4) [OF assms(2)]])
      (simp_all add: plan_change_subscription_SomeD [OF moved(2)])
  ultimately show ?thesis using r led keys op succ moved(2) by blast
qed simp

definition ex_plan_change :: plan_change_input where
  "ex_plan_change = \<lparr>qi_shopId = ''s'', qi_subscriptionId = ''u'',
     qi_provider = ex_provider\<lparr>pa_planHandle := ''pro2''\<rparr>,
     qi_plan = ex_paid_plan\<lparr>pl_id := ''q2'', pl_shopifyPlanHandle := ''pro2'',
       pl_includedRecoveryConversationAllowance := Some 9\<rparr>,
     qi_expectedCurrentPlanId = ''q'', qi_now = 1001\<rparr>"

lemma plan_change_moves_subscription_witness:
  "\<exists>d'. plan_change_in_transaction ex_shared ex_ids ex_plan_change ex_period_db
     = Inr (Plan_Change_Transitioned (Some ''n0'') (Some 1900) PAID_METERED, d') \<and>
     ledger_ok d' \<and> open_period_ids d' = {''n0''}"
proof -
  have "\<exists>d'. plan_change_in_transaction ex_shared ex_ids ex_plan_change ex_period_db
     = Inr (Plan_Change_Transitioned (Some ''n0'') (Some 1900) PAID_METERED, d')"
    by (rule run_map) code_simp
  then obtain d' where run: "plan_change_in_transaction ex_shared ex_ids ex_plan_change ex_period_db
     = Inr (Plan_Change_Transitioned (Some ''n0'') (Some 1900) PAID_METERED, d')" by blast
  have su: "plan_change_subscription ex_plan_change ex_period_db = Some (hd (db_subscriptions ex_period_db))"
    and al: "cycle_aligned ex_period_db (hd (db_subscriptions ex_period_db))"
    and prov: "pa_currentPeriodStart (qi_provider ex_plan_change) = Some 1000"
      "pa_currentPeriodEnd (qi_provider ex_plan_change) = Some 2000" "(1000::int) < 2000"
    and out: "open_period_ids ex_period_db - outgoing_ids ex_period_db (hd (db_subscriptions ex_period_db)) = {}"
    by code_simp+
  have aligned: "cycle_aligned ex_period_db su" if "plan_change_subscription ex_plan_change ex_period_db = Some su" for su
    using that su al by simp
  from plan_change_moves_subscription [OF ex_period_db_ledger ex_period_db_keys run aligned prov] su out run
  show ?thesis by auto
qed

text \<open>
  The projection of the provider's cycle is idempotent. When it is ready, the ledger is kept
  and the period it names is open, carries the shop, subscription, plan and dates it was asked for,
  and has an included counter with the plan's allowance exactly on a paid plan; asking again, with
  whatever fresh ids, is ready with nothing to repair and changes nothing. A conflict changes nothing either.
\<close>
theorem projection_is_idempotent:
  assumes "ledger_ok d" "period_keys_ok d" "period_refs_ok d"
    and "ensure_current_projection ids i d = Inr (r, d')"
  shows "case r of
      Projection_Ready k repaired \<Rightarrow> ledger_ok d' \<and> period_keys_ok d' \<and> projected i k d' \<and>
        ensure_current_projection ids' i d' = Inr (Projection_Ready k False, d')
    | Projection_Conflict k c \<Rightarrow> d' = d"
proof (cases r)
  case (Projection_Ready k repaired)
  note R = projection_ready [OF assms(2,3) assms(4) [unfolded Projection_Ready]]
  from R(1,3) R(2) [OF assms(1)] projection_idle [OF R(1)] Projection_Ready show ?thesis by simp
next
  case (Projection_Conflict k c)
  with assms(4) projection_conflict_unchanged show ?thesis by auto
qed

definition ex_projection :: projection_input where
  "ex_projection = \<lparr>pj_shopId = ''s'', pj_subscriptionId = ''u'', pj_periodStart = 1000, pj_periodEnd = 2000,
     pj_providerPlanHandle = ''pro'', pj_plan = ex_paid_plan\<rparr>"

lemma projection_is_idempotent_witness:
  "\<exists>d'. ensure_current_projection ex_ids ex_projection ex_period_db = Inr (Projection_Ready ''n0'' True, d') \<and>
     projected ex_projection ''n0'' d' \<and>
     ensure_current_projection ex_ids ex_projection d' = Inr (Projection_Ready ''n0'' False, d')"
proof -
  have "\<exists>d'. ensure_current_projection ex_ids ex_projection ex_period_db = Inr (Projection_Ready ''n0'' True, d')"
    by (rule run_map) code_simp
  moreover have "period_refs_ok ex_period_db" by code_simp
  ultimately show ?thesis
    using projection_is_idempotent [OF ex_period_db_ledger ex_period_db_keys] by fastforce
qed

text \<open>
  The repair of a missing lifetime counter never grants twice: it creates the counter only for
  a shop that has none and has no recorded recovery conversation, with the platform's allowance
  and nothing spent; it keeps the ledger, and running it again finds the counter and changes nothing.
\<close>
theorem lifetime_counter_is_granted_once:
  assumes "ledger_ok d" "ensure_lifetime_free_counter newId s d = Inr (a, d')"
  shows "ledger_ok d' \<and>
    (case a of
       Repair_Created \<Rightarrow> find_shop_counter d s LIFETIME_FREE_RECOVERY_CREDITS = None \<and>
         \<not> list_ex (\<lambda>e. ue_shopId e = s \<and> ue_metric e = RECOVERY_CONVERSATION) (db_usageEvents d) \<and>
         (\<exists>g. find_shop_counter d' s LIFETIME_FREE_RECOVERY_CREDITS = Some (lifetime_counter_row newId s g)) \<and>
         ensure_lifetime_free_counter newId' s d' = Inr (Repair_Present, d')
     | _ \<Rightarrow> d' = d)"
proof (cases "a = Repair_Created")
  case True
  obtain g where g: "find_shop_counter d s LIFETIME_FREE_RECOVERY_CREDITS = None"
    "find_shop_counter d' s LIFETIME_FREE_RECOVERY_CREDITS = Some (lifetime_counter_row newId s g)"
    "\<forall>e\<in>set (db_usageEvents d). ue_shopId e = s \<longrightarrow> ue_metric e \<noteq> RECOVERY_CONVERSATION"
    using repair_InrD(1) [OF assms(2) True] by blast
  have "ensure_lifetime_free_counter newId' s d' = Inr (Repair_Present, d')"
    by (simp add: ensure_lifetime_free_counter_def g(2))
  with True g repair_ledger [OF assms] show ?thesis by (auto simp: list_ex_iff)
next
  case False
  with repair_InrD(2) [OF assms(2)] assms(1) show ?thesis by (cases a) auto
qed

lemma lifetime_counter_is_granted_once_witness:
  "\<exists>d'. ensure_lifetime_free_counter ''x'' ''t'' ex_db = Inr (Repair_Created, d') \<and> ledger_ok d' \<and>
     ensure_lifetime_free_counter ''y'' ''t'' d' = Inr (Repair_Present, d')"
proof -
  have "\<exists>d'. ensure_lifetime_free_counter ''x'' ''t'' ex_db = Inr (Repair_Created, d')"
    by (rule run_map) code_simp
  then show ?thesis using lifetime_counter_is_granted_once [OF ex_db_ledger] by fastforce
qed

end
