(* ===== verification/Purchase_Pool.thy ===== *)
theory Purchase_Pool
  imports Billing_Periods
begin

text \<open>
  Moves of a shop's pool of purchased credits that touch no reservation: credits enter it when a
  purchase is activated and leave it when a withdrawn purchase is refunded. Shared by the refund
  completion and the WooCommerce charges, with the retry loop of the latter and the support
  message both post.
\<close>

section \<open>Retries on chosen errors\<close>

text \<open>
  \<open>withTransactionRetry\<close> and \<open>withSerializationRetry\<close>: at most \<open>left\<close> attempts, the last error is
  thrown, and so is an error that is not to be retried.
\<close>

primrec attempt_up_to ::
  "(failure \<Rightarrow> bool) \<Rightarrow> 's env \<Rightarrow> (nat \<Rightarrow> 's \<Rightarrow> ('a \<times> 's) result) \<Rightarrow> failure \<Rightarrow> nat \<Rightarrow> nat \<Rightarrow> 's \<Rightarrow> 'a result \<times> 's" where
  "attempt_up_to retryable E body limitError 0 n s = (Inl limitError, s)"
| "attempt_up_to retryable E body limitError (Suc left) n s =
     (let s1 = env_step E n s in
      case run_attempt E body n s1 of
        Inr (a, s2) \<Rightarrow> (Inr a, s2)
      | Inl e \<Rightarrow>
          (if \<not> retryable e \<or> left = 0 then (Inl e, s1)
           else attempt_up_to retryable E body limitError left (Suc n) s1))"

lemma attempt_up_to_invariant:
  assumes "I s" "\<And>n s. I s \<Longrightarrow> I (env_step E n s)"
    and "\<And>n s a s'. I s \<Longrightarrow> body n s = Inr (a, s') \<Longrightarrow> I s'"
  shows "I (snd (attempt_up_to retryable E body err left n s))"
  using assms(1)
proof (induction left arbitrary: n s)
  case (Suc left)
  from assms(2) [OF Suc.prems] have s1: "I (env_step E n s)" .
  show ?case
  proof (cases "run_attempt E body n (env_step E n s)")
    case (Inl e)
    with s1 Suc.IH show ?thesis by (simp add: Let_def)
  next
    case (Inr p)
    obtain a s2 where "p = (a, s2)" by (cases p)
    with Inr assms(3) [OF s1] run_attempt_InrD [of E body n "env_step E n s"] show ?thesis by (simp add: Let_def)
  qed
qed simp

text \<open>Whatever is returned was returned by one attempt, on a state that satisfies the invariant.\<close>

lemma attempt_up_to_InrD:
  assumes "attempt_up_to retryable E body err left n s = (Inr a, s')"
    and "I s" "\<And>n s. I s \<Longrightarrow> I (env_step E n s)"
  shows "\<exists>m s1. I s1 \<and> body m s1 = Inr (a, s')"
  using assms(1,2)
proof (induction left arbitrary: n s)
  case (Suc left)
  from assms(3) [OF Suc.prems(2)] have s1: "I (env_step E n s)" .
  show ?case
  proof (cases "run_attempt E body n (env_step E n s)")
    case (Inl e)
    with Suc.prems(1) have "attempt_up_to retryable E body err left (Suc n) (env_step E n s) = (Inr a, s')"
      by (simp add: Let_def split: if_splits)
    with Suc.IH s1 show ?thesis by blast
  next
    case (Inr p)
    with Suc.prems(1) have "run_attempt E body n (env_step E n s) = Inr (a, s')"
      by (simp add: Let_def split: prod.splits)
    with s1 run_attempt_InrD show ?thesis by metis
  qed
qed simp

definition is_p2034 :: "failure \<Rightarrow> bool" where
  "is_p2034 e \<longleftrightarrow> e = Prisma_Error P2034"

definition is_p2002_or_p2034 :: "failure \<Rightarrow> bool" where
  "is_p2002_or_p2034 e \<longleftrightarrow> e \<in> {Prisma_Error P2002, Prisma_Error P2034}"

section \<open>The support message of a completed refund\<close>

definition support_thread_clash :: "support_thread \<Rightarrow> support_thread \<Rightarrow> bool" where
  "support_thread_clash a b \<longleftrightarrow> st_id a = st_id b \<or> st_shopId a = st_shopId b"

definition support_message_clash :: "support_message \<Rightarrow> support_message \<Rightarrow> bool" where
  "support_message_clash a b \<longleftrightarrow> sm_id a = sm_id b \<or> sm_sourceKey a = sm_sourceKey b"

definition upsert_support_thread :: "id \<Rightarrow> id \<Rightarrow> db \<Rightarrow> (support_thread \<times> db) result" where
  "upsert_support_thread newId shopId d =
     (case find_row (\<lambda>t. st_shopId t = shopId) (db_supportThreads d) of
        Some t \<Rightarrow> Inr (t, d)
      | None \<Rightarrow>
          and_then (create_row support_thread_clash \<lparr>st_id = newId, st_shopId = shopId, st_lastMessageAt = None\<rparr>
            (db_supportThreads d)) (\<lambda>(t, ts). Inr (t, d\<lparr>db_supportThreads := ts\<rparr>)))"

definition upsert_support_message :: "support_message \<Rightarrow> db \<Rightarrow> db result" where
  "upsert_support_message m d =
     (case find_row (\<lambda>x. sm_sourceKey x = sm_sourceKey m) (db_supportMessages d) of
        Some _ \<Rightarrow> Inr d
      | None \<Rightarrow> and_then (create_row support_message_clash m (db_supportMessages d)) (\<lambda>(_, ms).
          Inr (d\<lparr>db_supportMessages := ms\<rparr>)))"

definition create_refund_completion_support_message ::
  "shared \<Rightarrow> (nat \<Rightarrow> id) \<Rightarrow> id \<Rightarrow> id \<Rightarrow> string \<Rightarrow> time \<Rightarrow> db \<Rightarrow> db result" where
  "create_refund_completion_support_message S ids shopId refundId body availableAt d =
     (let code = refundCompletedSystemCode S;
          sourceKey = createMerchantBillingSystemSourceKey S shopId code refundId in
      and_then (upsert_support_thread (ids 0) shopId d) (\<lambda>(thread, d1).
      and_then (upsert_support_message
        \<lparr>sm_id = ids 1, sm_threadId = st_id thread, sm_sourceKey = sourceKey, sm_systemCode = code,
         sm_originalBody = body, sm_availableAt = availableAt\<rparr> d1) (\<lambda>d2.
      and_then (update_unique st_id (st_id thread) (\<lambda>t. t\<lparr>st_lastMessageAt := Some availableAt\<rparr>)
        (db_supportThreads d2)) (\<lambda>(_, ts).
      Inr (d2\<lparr>db_supportThreads := ts\<rparr>)))))"

definition only_support :: "db \<Rightarrow> db \<Rightarrow> bool" where
  "only_support d d' \<longleftrightarrow> 
     d' = d\<lparr>db_supportThreads := db_supportThreads d', db_supportMessages := db_supportMessages d'\<rparr>"

lemma only_support_trans: "only_support a b \<Longrightarrow> only_support b c \<Longrightarrow> only_support a c"
  by (cases a, cases b, cases c) (simp add: only_support_def)

lemma support_message_frame:
  assumes "create_refund_completion_support_message S ids shopId refundId body t d = Inr d'"
  shows "only_support d d'"
proof -
  have th: "only_support d d1" if "upsert_support_thread i s d = Inr (th, d1)" for i s th d1 and d :: db
    using that by (auto simp: upsert_support_thread_def only_support_def and_then_Inr split: option.splits)
  have ms: "only_support d d1" if "upsert_support_message m d = Inr d1" for m d1 and d :: db
    using that by (auto simp: upsert_support_message_def only_support_def and_then_Inr split: option.splits)
  from assms obtain th d1 d2 m ts where "upsert_support_thread (ids 0) shopId d = Inr (th, d1)"
    "upsert_support_message m d1 = Inr d2" "d' = d2\<lparr>db_supportThreads := ts\<rparr>"
    by (auto simp: create_refund_completion_support_message_def Let_def and_then_Inr)
  moreover have "only_support d2 (d2\<lparr>db_supportThreads := ts\<rparr>)" by (simp add: only_support_def)
  ultimately show ?thesis by (metis only_support_trans th ms)
qed

lemma only_support_simps:
  assumes "only_support d d'"
  shows "db_reservations d' = db_reservations d" "db_shopCounters d' = db_shopCounters d"
    "db_lots d' = db_lots d" "db_periodCounters d' = db_periodCounters d" "db_grants d' = db_grants d"
    "db_refunds d' = db_refunds d" "db_usageEvents d' = db_usageEvents d"
    "db_billingOperations d' = db_billingOperations d" "db_billingReceipts d' = db_billingReceipts d"
proof -
  from assms obtain ts ms where "d' = d\<lparr>db_supportThreads := ts, db_supportMessages := ms\<rparr>"
    unfolding only_support_def by blast
  then show "db_reservations d' = db_reservations d" "db_shopCounters d' = db_shopCounters d"
    "db_lots d' = db_lots d" "db_periodCounters d' = db_periodCounters d" "db_grants d' = db_grants d"
    "db_refunds d' = db_refunds d" "db_usageEvents d' = db_usageEvents d"
    "db_billingOperations d' = db_billingOperations d" "db_billingReceipts d' = db_billingReceipts d"
    by simp_all
qed

section \<open>Moves of the pool\<close>

lemma ledger_pool_move:
  assumes ok: "ledger_ok d"
    and c: "c \<in> set (db_shopCounters d)" "sc_counter c = PURCHASED_RECOVERY_CREDITS"
    and l: "l \<in> set (db_lots d)" "lot_shopId l = sc_shopId c"
    and tabs: "db_shopCounters d' = update_key sc_id (sc_id c) f (db_shopCounters d)"
      "db_lots d' = update_key lot_id (lot_id l) h (db_lots d)" "db_reservations d' = db_reservations d"
      "db_periodCounters d' = db_periodCounters d" "db_grants d' = db_grants d"
    and f: "\<And>x. sc_id (f x) = sc_id x \<and> sc_shopId (f x) = sc_shopId x \<and> sc_counter (f x) = sc_counter x \<and>
        sc_reservedQuantity (f x) = sc_reservedQuantity x \<and> sc_committedQuantity (f x) = sc_committedQuantity x"
    and h: "\<And>x. lot_id (h x) = lot_id x \<and> lot_shopId (h x) = lot_shopId x \<and> lot_reservedAmount (h x) = lot_reservedAmount x"
      "lot_ok (h l)"
    and balance: "sc_grantedQuantity (f c) - sc_grantedQuantity c = lot_currentAmount (h l) - lot_currentAmount l"
      "sc_refundingQuantity (f c) - sc_refundingQuantity c = lot_hold (h l) - lot_hold l"
  shows "ledger_ok d'"
proof -
  have keys: "same_keys d d'"
    using tabs f h(1) by (simp add: same_keys_def counter_keys_def period_counter_keys_def grant_keys_def
        lot_keys_def map_update_key)
  have "keys_ok d'"
    using ledger_okD(1) [OF ok] keys tabs(3) by (simp add: keys_ok_def counter_keys_maps same_keys_def)
  moreover have "tallies_ok d'"
    using ledger_okD(2) [OF ok] f h(1) unfolding tallies_ok_def tabs update_key_def
    by (auto intro!: tallied_map_frame)
  moreover have "bounds_ok d'"
  proof -
    have "\<forall>x\<in>set (update_key sc_id (sc_id c) f (db_shopCounters d)). counter_ok x"
    proof (rule ball_update_key)
      fix x assume x: "x \<in> set (db_shopCounters d)" "sc_id x = sc_id c"
      from key_inj [OF ledger_keys(3) [OF ok] c(1) x] c(2) f show "counter_ok (f x)" by (simp add: counter_ok_def)
    qed (use bounds_okD(1) [OF ok] in blast)
    moreover have "\<forall>x\<in>set (update_key lot_id (lot_id l) h (db_lots d)). lot_ok x"
      using key_inj [OF ledger_keys(6) [OF ok] l(1)] h(2) bounds_okD(2) [OF ok]
      by (intro ball_update_key) (blast, metis)
    ultimately show ?thesis using ledger_okD(3) [OF ok] tabs by (simp add: bounds_ok_def)
  qed
  moreover have "pool_ok d'"
    by (rule pool_update [OF ok c(1) l(1) tabs(1,2) c(2) l(2)]) (use f h balance in auto)
  moreover have "reservation_ok d' r" if "r \<in> set (db_reservations d')" for r
    using that ledger_okD(5) [OF ok] by (simp add: tabs(3) same_keys_reservation [OF keys])
  ultimately show ?thesis by (simp add: ledger_ok_def)
qed

text \<open>The purchased counter of a shop and what it says of the shop's lots.\<close>

lemma purchased_counter_sum:
  assumes "ledger_ok d" "c \<in> set (db_shopCounters d)" "sc_counter c = PURCHASED_RECOVERY_CREDITS"
  shows "counter_sum f (sc_shopId c) (db_shopCounters d) = f c"
proof -
  have one: "x = c" if "x \<in> set (db_shopCounters d)" "purchased_counter_of (sc_shopId c) x" for x
    using key_inj [where key = "\<lambda>c. (sc_shopId c, sc_counter c)", OF ledger_keys(7) [OF assms(1)] assms(2) that(1)]
      that(2) assms(3) by (auto simp: purchased_counter_of_def)
  have "row_sum (\<lambda>x. if purchased_counter_of (sc_shopId c) x then f x else 0) cs = f c"
    if "c \<in> set cs" "distinct (map sc_id cs)" "\<And>x. x \<in> set cs \<Longrightarrow> purchased_counter_of (sc_shopId c) x \<Longrightarrow> x = c" for cs
    using that
  proof (induction cs)
    case (Cons x cs)
    show ?case
    proof (cases "x = c")
      case True
      have "row_sum (\<lambda>x. if purchased_counter_of (sc_shopId c) x then f x else 0) cs = 0"
        using Cons.prems True by (intro row_sum_zero) force
      with True assms(3) show ?thesis by (simp add: purchased_counter_of_def)
    next
      case False
      with Cons show ?thesis by auto
    qed
  qed simp
  from this [OF assms(2) ledger_keys(3) [OF assms(1)] one] show ?thesis by (simp add: counter_sum_def)
qed

lemma lot_amounts:
  assumes "ledger_ok d" "l \<in> set (db_lots d)"
  shows "0 \<le> lot_currentAmount l" "lot_reservedAmount l \<le> lot_currentAmount l" "lot_currentAmount l \<le> lot_creditsGranted l"
  using ledger_lot(2,3) [OF assms] by (auto simp: lot_ok_def)

lemma lot_hold_nonneg: "lot_ok l \<Longrightarrow> 0 \<le> lot_hold l"
  by (simp add: lot_hold_def lot_ok_def)

lemma lot_hold_le_refunding:
  assumes ok: "ledger_ok d" and c: "c \<in> set (db_shopCounters d)" "sc_counter c = PURCHASED_RECOVERY_CREDITS"
    and l: "l \<in> set (db_lots d)" "lot_shopId l = sc_shopId c"
  shows "lot_hold l \<le> sc_refundingQuantity c"
proof -
  have "lot_hold l \<le> lot_sum lot_hold (sc_shopId c) (db_lots d)"
    unfolding lot_sum_def using row_sum_member_le [OF l(1), of "\<lambda>x. if lot_shopId x = sc_shopId c then lot_hold x else 0"]
      l(2) lot_hold_nonneg bounds_okD(2) [OF ok] by auto
  also have "\<dots> = sc_refundingQuantity c"
    using ledger_okD(4) [OF ok] purchased_counter_sum [OF ok c, of sc_refundingQuantity] by (auto simp: pool_ok_def)
  finally show ?thesis .
qed

end
