(* ===== verification/Refund_Completion.thy ===== *)
theory Refund_Completion
  imports Purchase_Pool
begin

text \<open>
  The end of a refund of purchased credits
  (\<open>recovery-credit-refund-correction/refund-completion.service.ts\<close>) and the preparation of the hold
  of a WooCommerce refund (\<open>woocommerce-refund-hold-preparation.service.ts\<close>). The refund a service is
  called with is a row read before the transaction and may be stale.
\<close>

section \<open>Completion\<close>

definition find_lot_by_id :: "db \<Rightarrow> id \<Rightarrow> purchase_lot option" where
  "find_lot_by_id d i = find_row (\<lambda>l. lot_id l = i) (db_lots d)"

definition refund_completable :: "refund \<Rightarrow> purchase_lot \<Rightarrow> shop_counter \<Rightarrow> int \<Rightarrow> bool" where
  "refund_completable rf l c q \<longleftrightarrow>
     lot_status l = WITHDRAWN \<and> lot_reservedAmount l = 0 \<and> lot_currentAmount l = q \<and>
     q \<le> sc_refundingQuantity c"

definition refunded_lot :: "purchase_lot \<Rightarrow> purchase_lot" where
  "refunded_lot l = l\<lparr>lot_currentAmount := 0, lot_status := REFUNDED, lot_version := lot_version l + 1\<rparr>"

definition refunded_counter :: "int \<Rightarrow> shop_counter \<Rightarrow> shop_counter" where
  "refunded_counter q c =
     c\<lparr>sc_refundingQuantity := sc_refundingQuantity c - q, sc_grantedQuantity := sc_grantedQuantity c - q,
       sc_version := sc_version c + 1\<rparr>"

definition completed_refund :: "refund \<Rightarrow> string \<Rightarrow> (nat \<Rightarrow> time) \<Rightarrow> refund \<Rightarrow> refund" where
  "completed_refund rf currency clock x =
     x\<lparr>rf_providerAmount := rf_expectedProviderAmount rf, rf_providerCurrency := Some currency,
       rf_providerConfirmedAt := Some (clock 0), rf_providerConfirmedByPlatformAdminId := None,
       rf_providerActionKind := None, rf_status := REFUND_COMPLETED, rf_completedAt := Some (clock 1),
       rf_version := rf_version x + 1\<rparr>"

definition refund_completed_body :: string where
  "refund_completed_body =
     ''Your recovery-credit refund has completed. The refundable purchased credits have been removed and Shopify provider reconciliation is complete.''"

definition refund_evidence :: "refund \<Rightarrow> int option" where
  "refund_evidence rf =
     (case rf_finalCreditQuantity rf of None \<Rightarrow> None
      | Some q \<Rightarrow> if q \<le> 0 \<or> rf_expectedProviderAmount rf = None \<or> rf_automaticCorrectionUsageEventId rf = None
                  then None else Some q)"

definition complete_refund_rows ::
  "shared \<Rightarrow> (nat \<Rightarrow> id) \<Rightarrow> (nat \<Rightarrow> time) \<Rightarrow> refund \<Rightarrow> string \<Rightarrow> int \<Rightarrow> purchase_lot \<Rightarrow> shop_counter \<Rightarrow> db \<Rightarrow>
     (bool \<times> db) result" where
  "complete_refund_rows S ids clock rf currency q l c d =
     (let (n1, lots) = update_many (\<lambda>x. lot_id x = rf_purchaseId rf \<and> lot_status x = WITHDRAWN \<and>
            lot_version x = lot_version l \<and> lot_reservedAmount x = 0 \<and> lot_currentAmount x = q)
            refunded_lot (db_lots d);
          (n2, counters) = update_many (\<lambda>x. sc_id x = sc_id c \<and> sc_version x = sc_version c \<and>
            q \<le> sc_refundingQuantity x \<and> q \<le> sc_grantedQuantity x) (refunded_counter q) (db_shopCounters d);
          (n3, refunds) = update_many (\<lambda>x. rf_id x = rf_id rf \<and> rf_status x = REFUND_REQUESTED \<and>
            rf_version x = rf_version rf \<and>
            rf_automaticCorrectionUsageEventId x = rf_automaticCorrectionUsageEventId rf)
            (completed_refund rf currency clock) (db_refunds d) in
      and_then (require (n1 = 1 \<and> n2 = 1 \<and> n3 = 1) (plain_error ''automatic refund completion CAS failed'')) (\<lambda>_.
      and_then (create_refund_completion_support_message S ids (rf_shopId rf) (rf_id rf) refund_completed_body (clock 2)
        (d\<lparr>db_lots := lots, db_shopCounters := counters, db_refunds := refunds\<rparr>)) (\<lambda>d'.
      Inr (True, d'))))"

definition complete_refund_in_transaction ::
  "shared \<Rightarrow> (nat \<Rightarrow> id) \<Rightarrow> (nat \<Rightarrow> time) \<Rightarrow> refund \<Rightarrow> string \<Rightarrow> db \<Rightarrow> (bool \<times> db) result" where
  "complete_refund_in_transaction S ids clock rf currency d =
     (case refund_evidence rf of
        None \<Rightarrow> Inr (False, d)
      | Some q \<Rightarrow>
          (case (find_lot_by_id d (rf_purchaseId rf), find_shop_counter d (rf_shopId rf) PURCHASED_RECOVERY_CREDITS) of
             (Some l, Some c) \<Rightarrow>
               if \<not> refund_completable rf l c q then Inr (False, d)
               else complete_refund_rows S ids clock rf currency q l c d
           | _ \<Rightarrow> Inr (False, d)))"

section \<open>A refund and the ledger\<close>

text \<open>A lot a refund can be completed on: withdrawn, with nothing reserved any more.\<close>

definition settled_for_refund :: "purchase_lot \<Rightarrow> bool" where
  "settled_for_refund l \<longleftrightarrow> lot_status l = WITHDRAWN \<and> lot_reservedAmount l = 0"

lemma settled_hold: "settled_for_refund l \<Longrightarrow> lot_hold l = lot_currentAmount l"
  by (simp add: settled_for_refund_def lot_hold_def)

lemma ledger_refund:
  assumes ok: "ledger_ok d" and c: "c \<in> set (db_shopCounters d)" "sc_counter c = PURCHASED_RECOVERY_CREDITS"
    and l: "l \<in> set (db_lots d)" "lot_shopId l = sc_shopId c" "settled_for_refund l"
    and tabs: "db_shopCounters d' = update_key sc_id (sc_id c) (refunded_counter (lot_currentAmount l)) (db_shopCounters d)"
      "db_lots d' = update_key lot_id (lot_id l) refunded_lot (db_lots d)" "db_reservations d' = db_reservations d"
      "db_periodCounters d' = db_periodCounters d" "db_grants d' = db_grants d"
  shows "ledger_ok d'"
proof (rule ledger_pool_move [OF ok c l(1,2) tabs])
  show "lot_ok (refunded_lot l)"
    using bounds_okD(2) [OF ok l(1)] l(3) by (simp add: lot_ok_def refunded_lot_def settled_for_refund_def)
qed (use l(3) in \<open>simp_all add: refunded_counter_def refunded_lot_def settled_for_refund_def lot_hold_def\<close>)

text \<open>
  The guards on the counter say nothing new: the shop has a purchased counter, and the credits of
  the lot are among those it counts as refunding and as granted.
\<close>

lemma purchased_counter_exists:
  assumes ok: "ledger_ok d" and l: "l \<in> set (db_lots d)" "lot_currentAmount l \<noteq> 0"
  obtains c where "find_shop_counter d (lot_shopId l) PURCHASED_RECOVERY_CREDITS = Some c"
    "c \<in> set (db_shopCounters d)" "sc_shopId c = lot_shopId l" "sc_counter c = PURCHASED_RECOVERY_CREDITS"
    "lot_hold l \<le> sc_refundingQuantity c" "lot_currentAmount l \<le> sc_grantedQuantity c"
proof (cases "find_shop_counter d (lot_shopId l) PURCHASED_RECOVERY_CREDITS")
  case None
  then have "counter_sum (\<lambda>c. sc_grantedQuantity c - sc_committedQuantity c) (lot_shopId l) (db_shopCounters d) = 0"
    unfolding counter_sum_def
    by (intro row_sum_zero) (auto simp: find_shop_counter_def find_row_None_iff purchased_counter_of_def)
  moreover have "lot_currentAmount l \<le> lot_sum lot_currentAmount (lot_shopId l) (db_lots d)"
    unfolding lot_sum_def
    using row_sum_member_le [OF l(1), of "\<lambda>x. if lot_shopId x = lot_shopId l then lot_currentAmount x else 0"]
      lot_amounts [OF ok] by auto
  ultimately show ?thesis using ledger_okD(4) [OF ok] lot_amounts [OF ok l(1)] l(2) by (auto simp: pool_ok_def)
next
  case (Some c)
  note c = find_shop_counter_SomeD [OF Some]
  have "lot_currentAmount l \<le> lot_sum lot_currentAmount (lot_shopId l) (db_lots d)"
    unfolding lot_sum_def
    using row_sum_member_le [OF l(1), of "\<lambda>x. if lot_shopId x = lot_shopId l then lot_currentAmount x else 0"]
      lot_amounts [OF ok] by auto
  moreover have "lot_sum lot_currentAmount (lot_shopId l) (db_lots d) = sc_grantedQuantity c - sc_committedQuantity c"
    using ledger_okD(4) [OF ok] c purchased_counter_sum [OF ok, of c "\<lambda>c. sc_grantedQuantity c - sc_committedQuantity c"]
    by (auto simp: pool_ok_def)
  ultimately have "lot_currentAmount l \<le> sc_grantedQuantity c" using ledger_counter(4) [OF ok, of c] c by simp
  with Some c lot_hold_le_refunding [OF ok, of c l] l(1) show ?thesis by (intro that) auto
qed

definition refund_due :: "db \<Rightarrow> refund \<Rightarrow> int \<Rightarrow> purchase_lot \<Rightarrow> bool" where
  "refund_due d rf q l \<longleftrightarrow> refund_evidence rf = Some q \<and> find_lot_by_id d (rf_purchaseId rf) = Some l \<and>
     settled_for_refund l \<and> lot_currentAmount l = q"

definition refund_coherent :: "db \<Rightarrow> refund \<Rightarrow> bool" where
  "refund_coherent d rf \<longleftrightarrow> 
     (case find_lot_by_id d (rf_purchaseId rf) of None \<Rightarrow> True | Some l \<Rightarrow> lot_shopId l = rf_shopId rf)"

lemma find_lot_by_id_SomeD: "find_lot_by_id d i = Some l \<Longrightarrow> l \<in> set (db_lots d) \<and> lot_id l = i"
  by (auto simp: find_lot_by_id_def dest: find_row_SomeD)

lemma refund_evidence_pos: "refund_evidence rf = Some q \<Longrightarrow> 0 < q"
  by (auto simp: refund_evidence_def split: option.splits if_splits)

lemma refund_dueD:
  assumes "ledger_ok d" "refund_coherent d rf" "refund_due d rf q l"
  obtains c where "find_shop_counter d (rf_shopId rf) PURCHASED_RECOVERY_CREDITS = Some c"
    "c \<in> set (db_shopCounters d)" "sc_shopId c = rf_shopId rf" "sc_counter c = PURCHASED_RECOVERY_CREDITS"
    "l \<in> set (db_lots d)" "lot_id l = rf_purchaseId rf" "lot_shopId l = rf_shopId rf" "0 < q"
    "q \<le> sc_refundingQuantity c" "q \<le> sc_grantedQuantity c"
proof -
  from assms(3) have l: "l \<in> set (db_lots d)" "lot_id l = rf_purchaseId rf" "lot_hold l = q" "lot_currentAmount l = q" "0 < q"
    by (auto simp: refund_due_def settled_hold dest: find_lot_by_id_SomeD refund_evidence_pos)
  moreover have "lot_shopId l = rf_shopId rf" using assms(2,3) by (simp add: refund_coherent_def refund_due_def)
  ultimately show ?thesis using purchased_counter_exists [OF assms(1) l(1)] that by auto
qed

lemma complete_refund_eq:
  assumes "ledger_ok d" "refund_coherent d rf"
  shows "refund_due d rf q l \<Longrightarrow> find_shop_counter d (rf_shopId rf) PURCHASED_RECOVERY_CREDITS = Some c \<Longrightarrow>
      complete_refund_in_transaction S ids clock rf currency d = complete_refund_rows S ids clock rf currency q l c d"
    and "\<nexists>q l. refund_due d rf q l \<Longrightarrow> complete_refund_in_transaction S ids clock rf currency d = Inr (False, d)"
proof -
  assume due: "refund_due d rf q l" and c: "find_shop_counter d (rf_shopId rf) PURCHASED_RECOVERY_CREDITS = Some c"
  obtain c' where "find_shop_counter d (rf_shopId rf) PURCHASED_RECOVERY_CREDITS = Some c'" "q \<le> sc_refundingQuantity c'"
    using refund_dueD [OF assms due] .
  with due c show "complete_refund_in_transaction S ids clock rf currency d = complete_refund_rows S ids clock rf currency q l c d"
    by (auto simp: complete_refund_in_transaction_def refund_due_def refund_completable_def settled_for_refund_def)
next
  assume "\<nexists>q l. refund_due d rf q l"
  then show "complete_refund_in_transaction S ids clock rf currency d = Inr (False, d)"
    by (auto simp: complete_refund_in_transaction_def refund_due_def refund_completable_def settled_for_refund_def
        split: option.split)
qed

text \<open>What a completed refund leaves behind.\<close>

definition refund_made :: "refund \<Rightarrow> int \<Rightarrow> shop_counter \<Rightarrow> db \<Rightarrow> db \<Rightarrow> bool" where
  "refund_made rf q c d d' \<longleftrightarrow>
     db_lots d' = update_key lot_id (rf_purchaseId rf) refunded_lot (db_lots d) \<and>
     db_shopCounters d' = update_key sc_id (sc_id c) (refunded_counter q) (db_shopCounters d) \<and>
     db_reservations d' = db_reservations d \<and> db_periodCounters d' = db_periodCounters d \<and> db_grants d' = db_grants d"

lemma complete_refund_rows_InrD:
  assumes ok: "ledger_ok d" and rows: "distinct (map rf_id (db_refunds d))"
    and run: "complete_refund_rows S ids clock rf currency q l c d = Inr (a, d')"
  shows "a" "refund_made rf q c d d'"
    "db_refunds d' = update_key rf_id (rf_id rf) (completed_refund rf currency clock) (db_refunds d)"
    "\<exists>x\<in>set (db_refunds d). rf_id x = rf_id rf \<and> rf_status x = REFUND_REQUESTED \<and> rf_version x = rf_version rf"
proof -
  obtain n1 lots where u1:
    "update_many (\<lambda>x. lot_id x = rf_purchaseId rf \<and> lot_status x = WITHDRAWN \<and>
        lot_version x = lot_version l \<and> lot_reservedAmount x = 0 \<and> lot_currentAmount x = q) refunded_lot (db_lots d) = (n1, lots)"
    by (rule prod.exhaust)
  obtain n2 cs where u2: "update_many (\<lambda>x. sc_id x = sc_id c \<and> sc_version x = sc_version c \<and>
        q \<le> sc_refundingQuantity x \<and> q \<le> sc_grantedQuantity x) (refunded_counter q) (db_shopCounters d) = (n2, cs)"
    by (rule prod.exhaust)
  obtain n3 rs where u3: "update_many (\<lambda>x. rf_id x = rf_id rf \<and> rf_status x = REFUND_REQUESTED \<and> rf_version x = rf_version rf \<and>
        rf_automaticCorrectionUsageEventId x = rf_automaticCorrectionUsageEventId rf)
        (completed_refund rf currency clock) (db_refunds d) = (n3, rs)"
    by (rule prod.exhaust)
  note u = u1 u2 u3
  from run obtain d1 where n: "n1 = 1" "n2 = 1" "n3 = 1" and a: "a" "d' = d1"
    and m: "create_refund_completion_support_message S ids (rf_shopId rf) (rf_id rf) refund_completed_body (clock 2)
        (d\<lparr>db_lots := lots, db_shopCounters := cs, db_refunds := rs\<rparr>) = Inr d1"
    unfolding complete_refund_rows_def u by (auto simp: result_iffs)
  note frame = only_support_simps [OF support_message_frame [OF m]]
  have "lots = update_key lot_id (rf_purchaseId rf) refunded_lot (db_lots d)"
    by (rule update_many_one [where key = lot_id, OF u(1) n(1) ledger_keys(6) [OF ok]])
  moreover have "cs = update_key sc_id (sc_id c) (refunded_counter q) (db_shopCounters d)"
    by (rule update_many_one [where key = sc_id, OF u(2) n(2) ledger_keys(3) [OF ok]])
  ultimately show "refund_made rf q c d d'" using frame a(2) by (simp add: refund_made_def)
  from update_many_one [where key = rf_id, OF u(3) n(3) rows]
  show "db_refunds d' = update_key rf_id (rf_id rf) (completed_refund rf currency clock) (db_refunds d)"
    "\<exists>x\<in>set (db_refunds d). rf_id x = rf_id rf \<and> rf_status x = REFUND_REQUESTED \<and> rf_version x = rf_version rf"
    using frame a(2) by (auto; blast)+
  show a by (rule a(1))
qed

lemma refund_made_ledger:
  assumes "ledger_ok d" "l \<in> set (db_lots d)" "lot_id l = rf_purchaseId rf" "settled_for_refund l" "lot_currentAmount l = q"
    and "c \<in> set (db_shopCounters d)" "sc_shopId c = lot_shopId l" "sc_counter c = PURCHASED_RECOVERY_CREDITS"
    and "refund_made rf q c d d'"
  shows "ledger_ok d'"
  using assms by (intro ledger_refund [OF assms(1,6,8,2)]) (simp_all add: refund_made_def)

lemma refund_made_lot:
  assumes "ledger_ok d" "l \<in> set (db_lots d)" "lot_id l = rf_purchaseId rf" "refund_made rf q c d d'"
  shows "find_lot_by_id d' (rf_purchaseId rf) = Some (refunded_lot l)"
  using assms ledger_keys(6) [OF assms(1)]
  by (simp add: find_lot_by_id_def refund_made_def find_key_update_key find_row_key refunded_lot_def)

text \<open>The purchase of a completed refund is refunded for good: it is never due again.\<close>

lemma refund_made_not_due:
  assumes "refund_made rf q c d d'" "rf_purchaseId rf' = rf_purchaseId rf"
  shows "\<not> refund_due d' rf' q' l'"
proof
  assume due: "refund_due d' rf' q' l'"
  then have "l' \<in> set (db_lots d')" "lot_id l' = rf_purchaseId rf" "lot_status l' = WITHDRAWN"
    using find_lot_by_id_SomeD [of d' "rf_purchaseId rf'" l'] assms(2) by (auto simp: refund_due_def settled_for_refund_def)
  moreover from assms(1) have "db_lots d' = update_key lot_id (rf_purchaseId rf) refunded_lot (db_lots d)"
    by (simp add: refund_made_def)
  ultimately obtain r where "l' = (if lot_id r = rf_purchaseId rf then refunded_lot r else r)" by (auto simp: set_update_key)
  with \<open>lot_id l' = _\<close> \<open>lot_status l' = _\<close> show False
    by (cases "lot_id r = rf_purchaseId rf") (simp_all add: refunded_lot_def)
qed

section \<open>The hold of a WooCommerce refund\<close>

datatype hold_outcome = Hold_Waiting | Hold_Prepared | Hold_Cancelled | Hold_Needs_Attention

definition hold_state_invalid :: string where
  "hold_state_invalid = ''WOO_REFUND_HOLD_STATE_INVALID''"

definition is_active_hold :: "id \<Rightarrow> refund \<Rightarrow> bool" where
  "is_active_hold shopId rf \<longleftrightarrow> rf_shopId rf = shopId \<and>
     rf_status rf \<in> {REFUND_REQUESTED, REFUND_PROVIDER_ACTION_REQUIRED, REFUND_NEEDS_ATTENTION}"

text \<open>
  The loop over the active refunds: the hold of every withdrawn purchase, \<open>None\<close> when two refunds
  name one purchase. \<open>acc\<close> is the map filled so far.
\<close>

fun collect_holds :: "(id \<times> int) list \<Rightarrow> (id \<times> purchase_lot) list \<Rightarrow> (id \<times> int) list option" where
  "collect_holds acc [] = Some acc"
| "collect_holds acc ((p, l) # hs) =
     (if lot_status l \<noteq> WITHDRAWN then collect_holds acc hs
      else if p \<in> fst ` set acc then None
      else collect_holds (acc @ [(p, lot_currentAmount l - lot_reservedAmount l)]) hs)"

definition active_holds :: "db \<Rightarrow> id \<Rightarrow> (id \<times> purchase_lot) list" where
  "active_holds d shopId =
     concat (map (\<lambda>rf. case find_lot_by_id d (rf_purchaseId rf) of None \<Rightarrow> [] | Some l \<Rightarrow> [(rf_purchaseId rf, l)])
       (filter (is_active_hold shopId) (db_refunds d)))"

text \<open>\<open>markAttention\<close>, which does not look at the count.\<close>

definition mark_attention :: "id \<Rightarrow> int \<Rightarrow> string \<Rightarrow> db \<Rightarrow> (hold_outcome \<times> db) result" where
  "mark_attention refundId version reason d =
     Inr (Hold_Needs_Attention,
       d\<lparr>db_refunds := update_rows (\<lambda>x. rf_id x = refundId \<and> rf_status x = REFUND_REQUESTED \<and> rf_version x = version)
           (\<lambda>x. x\<lparr>rf_status := REFUND_NEEDS_ATTENTION, rf_reason := Some reason, rf_version := rf_version x + 1\<rparr>)
           (db_refunds d)\<rparr>)"

definition no_credits_refund :: "refund \<Rightarrow> refund" where
  "no_credits_refund x =
     x\<lparr>rf_status := REFUND_CANCELLED, rf_reason := Some ''NO_CREDITS_REMAINING'', rf_version := rf_version x + 1\<rparr>"

definition cancel_empty_hold :: "refund \<Rightarrow> shop_counter \<Rightarrow> db \<Rightarrow> (hold_outcome \<times> db) result" where
  "cancel_empty_hold current c d =
     (let held = rf_availableAmountAtRequestSnapshot current in
      if sc_refundingQuantity c < held
      then mark_attention (rf_id current) (rf_version current) hold_state_invalid d
      else
        (let (n1, counters) = update_many (\<lambda>x. sc_id x = sc_id c \<and> sc_version x = sc_version c \<and>
               held \<le> sc_refundingQuantity x)
               (\<lambda>x. x\<lparr>sc_refundingQuantity := sc_refundingQuantity x - held, sc_version := sc_version x + 1\<rparr>)
               (db_shopCounters d);
             (n2, refunds) = update_many (\<lambda>x. rf_id x = rf_id current \<and> rf_status x = REFUND_REQUESTED \<and>
               rf_version x = rf_version current) no_credits_refund (db_refunds d) in
         and_then (require (n1 = 1 \<and> n2 = 1)
           (plain_error ''Woo refund no-credits cancellation compare-and-set failed'')) (\<lambda>_.
         Inr (Hold_Cancelled, d\<lparr>db_shopCounters := counters, db_refunds := refunds\<rparr>))))"

definition prepared_refund :: "int \<Rightarrow> refund \<Rightarrow> refund" where
  "prepared_refund q x =
     x\<lparr>rf_finalCreditQuantity := Some q, rf_expectedProviderAmount := None, rf_expectedProviderCurrency := None,
       rf_status := REFUND_PROVIDER_ACTION_REQUIRED, rf_reason := Some ''WOO_VENDOR_DASHBOARD_REFUND_REQUIRED'',
       rf_version := rf_version x + 1\<rparr>"

definition held_counter :: "int \<Rightarrow> shop_counter \<Rightarrow> shop_counter" where
  "held_counter additional x =
     x\<lparr>sc_refundingQuantity := sc_refundingQuantity x + (if 0 < additional then additional else 0),
       sc_version := sc_version x + 1\<rparr>"

definition hold_rows ::
  "refund \<Rightarrow> refund \<Rightarrow> purchase_lot \<Rightarrow> shop_counter \<Rightarrow> int \<Rightarrow> db \<Rightarrow> (hold_outcome \<times> db) result" where
  "hold_rows rf current l c additional d =
     (let q = lot_currentAmount l;
          (n1, lots) = update_many (\<lambda>x. lot_id x = rf_purchaseId rf \<and> lot_status x = WITHDRAWN \<and>
            lot_version x = lot_version l \<and> lot_reservedAmount x = 0 \<and> lot_currentAmount x = q)
            (\<lambda>x. x\<lparr>lot_version := lot_version x + 1\<rparr>) (db_lots d);
          (n2, counters) = update_many (\<lambda>x. sc_id x = sc_id c \<and> sc_version x = sc_version c)
            (held_counter additional) (db_shopCounters d);
          (n3, refunds) = update_many (\<lambda>x. rf_id x = rf_id current \<and> rf_provider x = WOOCOMMERCE \<and>
            rf_status x = REFUND_REQUESTED \<and> rf_version x = rf_version current \<and>
            rf_automaticCorrectionUsageEventId x = None) (prepared_refund q) (db_refunds d) in
      and_then (require (n1 = 1 \<and> n2 = 1 \<and> n3 = 1)
        (plain_error ''Woo refund hold preparation compare-and-set failed'')) (\<lambda>_.
      Inr (Hold_Prepared, d\<lparr>db_lots := lots, db_shopCounters := counters, db_refunds := refunds\<rparr>)))"

definition valid_nonnegative :: "int \<Rightarrow> bool" where
  "valid_nonnegative n \<longleftrightarrow> is_safe_int n \<and> 0 \<le> n"

definition prepare_hold_of :: "refund \<Rightarrow> refund \<Rightarrow> purchase_lot \<Rightarrow> db \<Rightarrow> (hold_outcome \<times> db) result" where
  "prepare_hold_of rf current l d =
     (let attention = mark_attention (rf_id current) (rf_version current) hold_state_invalid d in
      case find_shop_counter d (rf_shopId rf) PURCHASED_RECOVERY_CREDITS of
        None \<Rightarrow> attention
      | Some c \<Rightarrow>
          if \<not> valid_nonnegative (lot_currentAmount l) \<or>
             \<not> valid_nonnegative (rf_availableAmountAtRequestSnapshot current) \<or>
             \<not> valid_nonnegative (sc_refundingQuantity c)
          then attention
          else if lot_currentAmount l = 0 then cancel_empty_hold current c d
          else if lot_currentAmount l < rf_availableAmountAtRequestSnapshot current then attention
          else (case collect_holds [] (active_holds d (rf_shopId rf)) of
              None \<Rightarrow> attention
            | Some holds \<Rightarrow>
                (let additional = sum_list (map snd holds) - sc_refundingQuantity c in
                 if additional < 0 then attention else hold_rows rf current l c additional d)))"

definition prepare_hold_in_transaction :: "refund \<Rightarrow> db \<Rightarrow> (hold_outcome \<times> db) result" where
  "prepare_hold_in_transaction rf d =
     (case find_row (\<lambda>x. rf_id x = rf_id rf) (db_refunds d) of
        None \<Rightarrow> Inr (Hold_Waiting, d)
      | Some current \<Rightarrow>
          (case find_lot_by_id d (rf_purchaseId current) of
             None \<Rightarrow> Inl (Prisma_Error P2025)
           | Some l \<Rightarrow>
               if rf_provider current \<noteq> WOOCOMMERCE \<or> rf_status current \<noteq> REFUND_REQUESTED \<or>
                  rf_automaticCorrectionUsageEventId current \<noteq> None \<or> lot_status l \<noteq> WITHDRAWN
               then Inr (Hold_Waiting, d)
               else if 0 < lot_reservedAmount l then Inr (Hold_Waiting, d)
               else prepare_hold_of rf current l d))"

definition prepare_hold :: "db env \<Rightarrow> refund \<Rightarrow> db \<Rightarrow> hold_outcome result \<times> db" where
  "prepare_hold E rf d =
     (if rf_provider rf \<noteq> WOOCOMMERCE \<or> rf_status rf \<noteq> REFUND_REQUESTED then (Inr Hold_Waiting, d)
      else attempt_up_to is_p2034 E (\<lambda>n. prepare_hold_in_transaction rf)
        (plain_error ''Woo refund hold transaction retry limit exceeded'') 3 0 d)"

section \<open>A hold and the ledger\<close>

definition refunds_coherent :: "db \<Rightarrow> bool" where
  "refunds_coherent d \<longleftrightarrow> list_all (refund_coherent d) (db_refunds d)"

text \<open>The withdrawn purchases the active refunds of a shop name.\<close>

definition held_lots :: "db \<Rightarrow> id \<Rightarrow> purchase_lot list" where
  "held_lots d shopId = filter (\<lambda>l. lot_status l = WITHDRAWN) (map snd (active_holds d shopId))"

lemma active_holds_id: "(p, l) \<in> set (active_holds d s) \<Longrightarrow> p = lot_id l \<and> l \<in> set (db_lots d)"
  using find_lot_by_id_SomeD [OF sym] by (fastforce simp: active_holds_def split: option.splits)

lemma active_holds_shop:
  assumes "refunds_coherent d" "(p, l) \<in> set (active_holds d s)"
  shows "lot_shopId l = s"
  using assms
  by (auto simp: active_holds_def refunds_coherent_def refund_coherent_def is_active_hold_def list_all_iff split: option.splits)

lemma collect_holds_eq:
  assumes "\<forall>(p, l)\<in>set hs. p = lot_id l" "distinct (map fst acc)"
  shows "collect_holds acc hs =
     (let ls = filter (\<lambda>l. lot_status l = WITHDRAWN) (map snd hs) in
      if distinct (map fst acc @ map lot_id ls) then Some (acc @ map (\<lambda>l. (lot_id l, lot_hold l)) ls) else None)"
  using assms
proof (induction hs arbitrary: acc)
  case (Cons h hs)
  obtain p l where h: "h = (p, l)" by (cases h)
  with Cons.prems(1) have p: "p = lot_id l" by simp
  show ?case
  proof (cases "lot_status l = WITHDRAWN \<and> p \<notin> fst ` set acc")
    case True
    with Cons.prems have "distinct (map fst (acc @ [(p, lot_hold l)]))" by auto
    with Cons.prems Cons.IH [of "acc @ [(p, lot_hold l)]"] True h p show ?thesis
      by (simp add: Let_def lot_hold_def)
  next
    case False
    with Cons.prems Cons.IH [of acc] h p show ?thesis by (auto simp: Let_def)
  qed
qed simp

lemma collect_active_holds:
  "collect_holds [] (active_holds d s) =
     (if distinct (map lot_id (held_lots d s)) then Some (map (\<lambda>l. (lot_id l, lot_hold l)) (held_lots d s)) else None)"
proof -
  have "\<forall>(p, l)\<in>set (active_holds d s). p = lot_id l" using active_holds_id by blast
  from collect_holds_eq [OF this, of "[]"] show ?thesis by (simp add: held_lots_def Let_def)
qed

text \<open>
  What the code expects the counter to hold for refunds, the sum over the active refunds, is never
  more than what the ledger counts, the sum over the withdrawn lots; it is the same when every
  withdrawn lot with unreserved credits has an active refund.
\<close>

definition holds_accounted :: "db \<Rightarrow> id \<Rightarrow> bool" where
  "holds_accounted d s \<longleftrightarrow> distinct (map lot_id (held_lots d s)) \<and>
     list_all (\<lambda>l. lot_shopId l = s \<and> 0 < lot_hold l \<longrightarrow> lot_id l \<in> lot_id ` set (held_lots d s)) (db_lots d)"

lemma held_sum:
  assumes ok: "ledger_ok d" and coh: "refunds_coherent d"
    and c: "c \<in> set (db_shopCounters d)" "sc_counter c = PURCHASED_RECOVERY_CREDITS"
    and dist: "distinct (map lot_id (held_lots d (sc_shopId c)))"
  shows "sum_list (map lot_hold (held_lots d (sc_shopId c))) \<le> sc_refundingQuantity c"
    and "sum_list (map lot_hold (held_lots d (sc_shopId c))) = sc_refundingQuantity c \<longleftrightarrow> holds_accounted d (sc_shopId c)"
proof -
  let ?H = "set (held_lots d (sc_shopId c))" and ?L = "{l \<in> set (db_lots d). lot_shopId l = sc_shopId c}"
  have sub: "?H \<subseteq> ?L" using active_holds_shop [OF coh] active_holds_id by (fastforce simp: held_lots_def)
  have pos: "0 \<le> lot_hold l" if "l \<in> ?L" for l using that lot_hold_nonneg bounds_okD(2) [OF ok] by simp
  have "distinct (held_lots d (sc_shopId c))" using dist by (simp add: distinct_map)
  then have lhs: "sum_list (map lot_hold (held_lots d (sc_shopId c))) = sum lot_hold ?H"
    by (rule sum_list_distinct_conv_sum_set)
  have "distinct (db_lots d)" using ledger_keys(6) [OF ok] by (simp add: distinct_map)
  then have "lot_sum lot_hold (sc_shopId c) (db_lots d) = (\<Sum>l\<in>set (db_lots d). if lot_shopId l = sc_shopId c then lot_hold l else 0)"
    unfolding lot_sum_def row_sum_def by (rule sum_list_distinct_conv_sum_set)
  also have "\<dots> = sum lot_hold ?L" by (simp add: sum.If_cases Int_def)
  finally have rhs: "sc_refundingQuantity c = sum lot_hold ?L"
    using ledger_okD(4) [OF ok] purchased_counter_sum [OF ok c, of sc_refundingQuantity] by (auto simp: pool_ok_def)
  have split: "sum lot_hold ?L = sum lot_hold ?H + sum lot_hold (?L - ?H)"
    using sum.subset_diff [OF sub, of lot_hold] by simp
  have rest: "0 \<le> sum lot_hold (?L - ?H)" by (rule sum_nonneg) (use pos in blast)
  from lhs rhs split rest show "sum_list (map lot_hold (held_lots d (sc_shopId c))) \<le> sc_refundingQuantity c" by simp
  have "sum lot_hold (?L - ?H) = 0 \<longleftrightarrow> (\<forall>l\<in>?L - ?H. lot_hold l = 0)"
    by (rule sum_nonneg_eq_0_iff) (use pos in auto)
  also have "\<dots> \<longleftrightarrow> holds_accounted d (sc_shopId c)"
  proof -
    have mem: "l \<in> ?H \<longleftrightarrow> lot_id l \<in> lot_id ` ?H" if "l \<in> ?L" for l
    proof
      assume "lot_id l \<in> lot_id ` ?H"
      then obtain h where h: "h \<in> ?H" "lot_id h = lot_id l" by fastforce
      with sub key_inj [OF ledger_keys(6) [OF ok], of l h] that have "h = l" by blast
      with h show "l \<in> ?H" by simp
    qed simp
    have "holds_accounted d (sc_shopId c) \<longleftrightarrow> (\<forall>l\<in>?L. 0 < lot_hold l \<longrightarrow> lot_id l \<in> lot_id ` ?H)"
      using dist by (auto simp: holds_accounted_def list_all_iff)
    also have "\<dots> \<longleftrightarrow> (\<forall>l\<in>?L. 0 < lot_hold l \<longrightarrow> l \<in> ?H)" using mem by simp
    also have "\<dots> \<longleftrightarrow> (\<forall>l\<in>?L - ?H. lot_hold l = 0)" using pos by (metis (no_types, lifting) Diff_iff less_le)
    finally show ?thesis by simp
  qed
  finally show "sum_list (map lot_hold (held_lots d (sc_shopId c))) = sc_refundingQuantity c \<longleftrightarrow> holds_accounted d (sc_shopId c)"
    using lhs rhs split by auto
qed

section \<open>What a preparation does\<close>

definition hold_ready :: "db \<Rightarrow> refund \<Rightarrow> refund \<Rightarrow> purchase_lot \<Rightarrow> bool" where
  "hold_ready d rf current l \<longleftrightarrow> find_row (\<lambda>x. rf_id x = rf_id rf) (db_refunds d) = Some current \<and>
     find_lot_by_id d (rf_purchaseId current) = Some l \<and> rf_provider current = WOOCOMMERCE \<and>
     rf_status current = REFUND_REQUESTED \<and> rf_automaticCorrectionUsageEventId current = None \<and> settled_for_refund l"

definition hold_terms_ok :: "db \<Rightarrow> refund \<Rightarrow> purchase_lot \<Rightarrow> bool" where
  "hold_terms_ok d current l \<longleftrightarrow> valid_nonnegative (lot_currentAmount l) \<and>
     valid_nonnegative (rf_availableAmountAtRequestSnapshot current) \<and>
     rf_availableAmountAtRequestSnapshot current \<le> lot_currentAmount l \<and>
     (case find_shop_counter d (lot_shopId l) PURCHASED_RECOVERY_CREDITS of None \<Rightarrow> False
      | Some c \<Rightarrow> is_safe_int (sc_refundingQuantity c)) \<and> holds_accounted d (lot_shopId l)"

definition attention_refund :: "refund \<Rightarrow> refund" where
  "attention_refund x = x\<lparr>rf_status := REFUND_NEEDS_ATTENTION, rf_reason := Some hold_state_invalid, rf_version := rf_version x + 1\<rparr>"

definition hold_marked :: "id \<Rightarrow> db \<Rightarrow> db" where
  "hold_marked i d = d\<lparr>db_refunds := update_key rf_id i attention_refund (db_refunds d)\<rparr>"

definition hold_made :: "refund \<Rightarrow> purchase_lot \<Rightarrow> id \<Rightarrow> db \<Rightarrow> db" where
  "hold_made rf l counterId d =
     d\<lparr>db_lots := update_key lot_id (lot_id l) (\<lambda>x. x\<lparr>lot_version := lot_version x + 1\<rparr>) (db_lots d),
       db_shopCounters := update_key sc_id counterId (held_counter 0) (db_shopCounters d),
       db_refunds := update_key rf_id (rf_id rf) (prepared_refund (lot_currentAmount l)) (db_refunds d)\<rparr>"

lemma mark_attention_eq:
  assumes "distinct (map rf_id (db_refunds d))" "current \<in> set (db_refunds d)" "rf_status current = REFUND_REQUESTED"
  shows "mark_attention (rf_id current) (rf_version current) hold_state_invalid d
    = Inr (Hold_Needs_Attention, hold_marked (rf_id current) d)"
proof -
  have "update_rows (\<lambda>x. rf_id x = rf_id current \<and> rf_status x = REFUND_REQUESTED \<and> rf_version x = rf_version current)
      attention_refund (db_refunds d) = update_key rf_id (rf_id current) attention_refund (db_refunds d)"
    using update_many_hit [where key = rf_id and f = attention_refund and
        G = "\<lambda>x. rf_status x = REFUND_REQUESTED \<and> rf_version x = rf_version current", OF assms(1,2) refl]
      assms(3) by (simp add: update_many_def)
  then show ?thesis by (simp add: mark_attention_def hold_marked_def attention_refund_def [abs_def])
qed

lemma hold_rows_eq:
  assumes ok: "ledger_ok d" and keys: "distinct (map rf_id (db_refunds d))"
    and ready: "hold_ready d rf current l" and id: "rf_purchaseId rf = rf_purchaseId current"
    and c: "c \<in> set (db_shopCounters d)"
  shows "hold_rows rf current l c 0 d = Inr (Hold_Prepared, hold_made rf l (sc_id c) d)"
proof -
  from ready have cur: "current \<in> set (db_refunds d)" "rf_id current = rf_id rf"
    by (auto simp: hold_ready_def dest: find_row_SomeD)
  from ready id have l: "l \<in> set (db_lots d)" "lot_id l = rf_purchaseId rf"
    by (auto simp: hold_ready_def dest: find_lot_by_id_SomeD)
  have "update_many (\<lambda>x. lot_id x = rf_purchaseId rf \<and> lot_status x = WITHDRAWN \<and> lot_version x = lot_version l \<and>
      lot_reservedAmount x = 0 \<and> lot_currentAmount x = lot_currentAmount l) f (db_lots d) = (1, update_key lot_id (rf_purchaseId rf) f (db_lots d))" for f
    by (rule update_many_hit [where key = lot_id, OF ledger_keys(6) [OF ok] l])
      (use ready in \<open>simp add: hold_ready_def settled_for_refund_def\<close>)
  moreover have "update_many (\<lambda>x. sc_id x = sc_id c \<and> sc_version x = sc_version c) f (db_shopCounters d)
      = (1, update_key sc_id (sc_id c) f (db_shopCounters d))" for f
    by (rule update_many_hit [where key = sc_id, OF ledger_keys(3) [OF ok] c]) simp_all
  moreover have "update_many (\<lambda>x. rf_id x = rf_id current \<and> rf_provider x = WOOCOMMERCE \<and> rf_status x = REFUND_REQUESTED \<and>
      rf_version x = rf_version current \<and> rf_automaticCorrectionUsageEventId x = None) f (db_refunds d)
      = (1, update_key rf_id (rf_id current) f (db_refunds d))" for f
    by (rule update_many_hit [where key = rf_id, OF keys cur(1) refl]) (use ready in \<open>simp add: hold_ready_def\<close>)
  ultimately show ?thesis using l cur by (simp add: hold_rows_def hold_made_def Let_def)
qed

lemma prepare_hold_ready:
  assumes ok: "ledger_ok d" and coh: "refunds_coherent d" and keys: "distinct (map rf_id (db_refunds d))"
    and ready: "hold_ready d rf current l"
    and same: "rf_shopId rf = rf_shopId current" "rf_purchaseId rf = rf_purchaseId current"
  obtains c where "c \<in> set (db_shopCounters d)" "sc_counter c = PURCHASED_RECOVERY_CREDITS" "l \<in> set (db_lots d)"
    "lot_shopId l = sc_shopId c" "prepare_hold_in_transaction rf d =
      Inr (if hold_terms_ok d current l then (Hold_Prepared, hold_made rf l (sc_id c) d)
           else (Hold_Needs_Attention, hold_marked (rf_id rf) d))"
proof -
  from ready have cur: "current \<in> set (db_refunds d)" "rf_id current = rf_id rf" "rf_status current = REFUND_REQUESTED"
    and l: "find_lot_by_id d (rf_purchaseId current) = Some l" and s: "settled_for_refund l"
    by (auto simp: hold_ready_def dest: find_row_SomeD)
  have lot: "l \<in> set (db_lots d)" "lot_shopId l = rf_shopId rf"
    using find_lot_by_id_SomeD [OF l] coh cur(1) l same by (auto simp: refunds_coherent_def refund_coherent_def list_all_iff)
  have nz: "lot_currentAmount l \<noteq> 0" "0 \<le> lot_currentAmount l"
    using bounds_okD(2) [OF ok lot(1)] s by (auto simp: lot_ok_def settled_for_refund_def)
  obtain c where c: "find_shop_counter d (rf_shopId rf) PURCHASED_RECOVERY_CREDITS = Some c"
    "c \<in> set (db_shopCounters d)" "sc_shopId c = rf_shopId rf" "sc_counter c = PURCHASED_RECOVERY_CREDITS"
    using purchased_counter_exists [OF ok lot(1) nz(1)] lot(2) by metis
  let ?hs = "held_lots d (rf_shopId rf)"
  note sum = held_sum [OF ok coh c(2,4), unfolded c(3)]
  have refunding: "0 \<le> sc_refundingQuantity c"
    using lot_hold_le_refunding [OF ok c(2,4) lot(1)] lot(2) c(3) nz(2) s by (simp add: settled_hold)
  have run: "prepare_hold_in_transaction rf d = prepare_hold_of rf current l d"
    using ready s by (auto simp: prepare_hold_in_transaction_def hold_ready_def settled_for_refund_def)
  note att = mark_attention_eq [OF keys cur(1,3), unfolded cur(2)]
  have out: "prepare_hold_of rf current l d = Inr (if valid_nonnegative (lot_currentAmount l) \<and>
      valid_nonnegative (rf_availableAmountAtRequestSnapshot current) \<and> is_safe_int (sc_refundingQuantity c) \<and>
      rf_availableAmountAtRequestSnapshot current \<le> lot_currentAmount l \<and> holds_accounted d (rf_shopId rf)
      then (Hold_Prepared, hold_made rf l (sc_id c) d) else (Hold_Needs_Attention, hold_marked (rf_id rf) d))"
  proof (cases "distinct (map lot_id ?hs)")
    case True
    with sum(1) have "sum_list (map lot_hold ?hs) \<le> sc_refundingQuantity c" by simp
    with sum(2) [OF True] hold_rows_eq [OF ok keys ready same(2) c(2)] True nz refunding att c(1) cur(2)
    show ?thesis
      by (auto simp: prepare_hold_of_def Let_def collect_active_holds comp_def valid_nonnegative_def not_le)
  next
    case False
    then have "\<not> holds_accounted d (rf_shopId rf)" by (simp add: holds_accounted_def)
    with False att c(1) cur(2) nz show ?thesis by (auto simp: prepare_hold_of_def Let_def collect_active_holds)
  qed
  show ?thesis
    by (rule that [OF c(2,4) lot(1)]) (auto simp: run out hold_terms_ok_def lot(2) c)
qed

lemma hold_made_ledger:
  assumes ok: "ledger_ok d" and l: "l \<in> set (db_lots d)" "lot_shopId l = sc_shopId c"
    and c: "c \<in> set (db_shopCounters d)" "sc_counter c = PURCHASED_RECOVERY_CREDITS"
  shows "ledger_ok (hold_made rf l (sc_id c) d)"
proof (rule ledger_pool_move [where f = "held_counter 0", OF ok c l])
  show "lot_ok (l\<lparr>lot_version := lot_version l + 1\<rparr>)" using bounds_okD(2) [OF ok l(1)] by (simp add: lot_ok_def)
qed (simp_all add: hold_made_def held_counter_def lot_hold_def)

lemma hold_made_refunding:
  "map sc_refundingQuantity (db_shopCounters (hold_made rf l i d)) = map sc_refundingQuantity (db_shopCounters d)"
  by (simp add: hold_made_def held_counter_def map_update_key)

lemma hold_marked_ledger: "ledger_ok d \<Longrightarrow> ledger_ok (hold_marked i d)"
  by (erule ledger_frame) (simp_all add: hold_marked_def)

lemma prepare_hold_not_ready:
  assumes "ledger_ok d" "\<nexists>current l. hold_ready d rf current l" "prepare_hold_in_transaction rf d = Inr (out, d')"
  shows "out = Hold_Waiting" "d' = d"
proof -
  have "0 \<le> lot_reservedAmount l" if "find_lot_by_id d i = Some l" for i l
    using ledger_lot(2) [OF assms(1)] find_lot_by_id_SomeD [OF that] by blast
  with assms(2,3) have "out = Hold_Waiting \<and> d' = d"
    by (fastforce simp: prepare_hold_in_transaction_def hold_ready_def settled_for_refund_def
        split: option.splits if_splits)
  then show "out = Hold_Waiting" "d' = d" by simp_all
qed

end
