(* ===== verification/Woo_Receipts.thy ===== *)
theory Woo_Receipts
  imports Refund_Completion
begin

text \<open>
  The webhook receipts of WooCommerce billing as the charge and the refund processor
  (\<open>woocommerce-billing/charge-receipt-processor.ts\<close>, \<open>charge-refund-receipt-processor.ts\<close>) take them
  up: the oldest unprocessed receipt after a cursor, its bookkeeping, and the batch that repeats the
  processor with a moving cursor. The order of ids is the collation of the database, a parameter
  \<open>idLess\<close>; the rows other transactions have locked, which the query skips, are a parameter too.
\<close>

section \<open>Cursors\<close>

type_synonym cursor = "time \<times> id"

definition cursor_less :: "(id \<Rightarrow> id \<Rightarrow> bool) \<Rightarrow> cursor \<Rightarrow> cursor \<Rightarrow> bool" where
  "cursor_less idLess a b \<longleftrightarrow> fst a < fst b \<or> fst a = fst b \<and> idLess (snd a) (snd b)"

definition receipt_cursor :: "billing_receipt \<Rightarrow> cursor" where
  "receipt_cursor r = (wr_receivedAt r, wr_id r)"

text \<open>The operator \<open>?\<close> on a \<open>jsonb\<close> column: a key of an object, an element of an array, or the string itself.\<close>

fun jsonb_exists :: "json \<Rightarrow> string \<Rightarrow> bool" where
  "jsonb_exists (JObject fs) k = list_ex (\<lambda>f. fst f = k) fs"
| "jsonb_exists (JArray xs) k = list_ex (\<lambda>x. x = JString k) xs"
| "jsonb_exists (JString s) k = (s = k)"
| "jsonb_exists _ k = False"

definition receipt_waiting :: "string list \<Rightarrow> billing_receipt \<Rightarrow> bool" where
  "receipt_waiting topics r \<longleftrightarrow> wr_processedAt r = None \<and> jsonb_exists (wr_normalizedPayload r) ''charge'' \<and>
     wr_topic r \<in> set topics"

definition after_cursor :: "(id \<Rightarrow> id \<Rightarrow> bool) \<Rightarrow> cursor option \<Rightarrow> billing_receipt \<Rightarrow> bool" where
  "after_cursor idLess cursor r = (case cursor of None \<Rightarrow> True | Some c \<Rightarrow> cursor_less idLess c (receipt_cursor r))"

text \<open>\<open>ORDER BY "receivedAt", "id" LIMIT 1\<close>.\<close>

fun first_receipt :: "(id \<Rightarrow> id \<Rightarrow> bool) \<Rightarrow> billing_receipt list \<Rightarrow> billing_receipt option" where
  "first_receipt idLess [] = None"
| "first_receipt idLess (r # rs) =
     (case first_receipt idLess rs of
        None \<Rightarrow> Some r
      | Some m \<Rightarrow> Some (if cursor_less idLess (receipt_cursor m) (receipt_cursor r) then m else r))"

definition claim_receipt ::
  "(id \<Rightarrow> id \<Rightarrow> bool) \<Rightarrow> (id \<Rightarrow> bool) \<Rightarrow> string list \<Rightarrow> cursor option \<Rightarrow> db \<Rightarrow> billing_receipt option" where
  "claim_receipt idLess locked topics cursor d =
     first_receipt idLess (filter (\<lambda>r. receipt_waiting topics r \<and> after_cursor idLess cursor r \<and> \<not> locked (wr_id r))
       (db_billingReceipts d))"

section \<open>Bookkeeping\<close>

definition receipt_failed :: "string \<Rightarrow> id option \<Rightarrow> billing_receipt \<Rightarrow> billing_receipt" where
  "receipt_failed code operationId r =
     r\<lparr>wr_processingError := Some code,
       wr_billingOperationId := (if truthy operationId then operationId else wr_billingOperationId r)\<rparr>"

definition receipt_done :: "time \<Rightarrow> id \<Rightarrow> billing_receipt \<Rightarrow> billing_receipt" where
  "receipt_done processedAt operationId r =
     r\<lparr>wr_processedAt := Some processedAt, wr_processingError := None, wr_billingOperationId := Some operationId\<rparr>"

definition update_receipt ::
  "id \<Rightarrow> (billing_receipt \<Rightarrow> billing_receipt) \<Rightarrow> string \<Rightarrow> db \<Rightarrow> db result" where
  "update_receipt receiptId f message d =
     (let (n, rs) = update_many (\<lambda>r. wr_id r = receiptId \<and> wr_processedAt r = None) f (db_billingReceipts d) in
      and_then (require (n = 1) (plain_error message)) (\<lambda>_. Inr (d\<lparr>db_billingReceipts := rs\<rparr>)))"

definition record_charge_receipt_error :: "id \<Rightarrow> string \<Rightarrow> id option \<Rightarrow> db \<Rightarrow> db result" where
  "record_charge_receipt_error receiptId code operationId =
     update_receipt receiptId (receipt_failed code operationId) ''Woo charge receipt claim was lost before error recording''"

definition complete_charge_receipt :: "id \<Rightarrow> time \<Rightarrow> id \<Rightarrow> db \<Rightarrow> db result" where
  "complete_charge_receipt receiptId processedAt operationId =
     update_receipt receiptId (receipt_done processedAt operationId) ''Woo charge receipt claim was lost before completion''"

section \<open>Batches\<close>

text \<open>
  The loop of \<open>reconcileBatch\<close>: at most \<open>left\<close> attempts, the cursor of each claimed receipt handed to
  the next attempt, the end at the first attempt that claims none. An attempt gives \<open>None\<close> when
  there is no receipt, else its outcome and cursor; what an attempt throws ends the batch.
\<close>

primrec receipt_batch ::
  "(nat \<Rightarrow> cursor option \<Rightarrow> 's \<Rightarrow> ('a \<times> cursor) option result \<times> 's) \<Rightarrow> ('a \<Rightarrow> 't \<Rightarrow> 't) \<Rightarrow>
     nat \<Rightarrow> nat \<Rightarrow> cursor option \<Rightarrow> 't \<Rightarrow> 's \<Rightarrow> 't result \<times> 's" where
  "receipt_batch attempt count 0 index cursor acc s = (Inr acc, s)"
| "receipt_batch attempt count (Suc left) index cursor acc s =
     (case attempt index cursor s of
        (Inl e, s') \<Rightarrow> (Inl e, s')
      | (Inr None, s') \<Rightarrow> (Inr acc, s')
      | (Inr (Some (a, c)), s') \<Rightarrow> receipt_batch attempt count left (Suc index) (Some c) (count a acc) s')"

definition MAX_WOO_RECEIPTS_PER_CYCLE :: int where
  "MAX_WOO_RECEIPTS_PER_CYCLE = 50"

definition batch_limit :: "string \<Rightarrow> js_number option \<Rightarrow> nat result" where
  "batch_limit message limit =
     (case (case limit of None \<Rightarrow> JsInt MAX_WOO_RECEIPTS_PER_CYCLE | Some n \<Rightarrow> n) of
        JsInt n \<Rightarrow> if n < 1 \<or> MAX_WOO_RECEIPTS_PER_CYCLE < n then Inl (plain_error message) else Inr (nat n)
      | JsNonInteger \<Rightarrow> Inl (plain_error message))"

section \<open>The claimed receipt\<close>

definition collation :: "(id \<Rightarrow> id \<Rightarrow> bool) \<Rightarrow> bool" where
  "collation idLess \<longleftrightarrow> (\<forall>a. \<not> idLess a a) \<and> (\<forall>a b c. idLess a b \<longrightarrow> idLess b c \<longrightarrow> idLess a c) \<and>
     (\<forall>a b. a = b \<or> idLess a b \<or> idLess b a)"

lemma cursor_less_irrefl: "collation idLess \<Longrightarrow> \<not> cursor_less idLess c c"
  by (simp add: cursor_less_def collation_def)

lemma cursor_less_trans:
  assumes "collation idLess" "cursor_less idLess a b" "cursor_less idLess b c"
  shows "cursor_less idLess a c"
proof -
  have "idLess x y \<Longrightarrow> idLess y z \<Longrightarrow> idLess x z" for x y z using assms(1) unfolding collation_def by blast
  with assms(2,3) show ?thesis by (fastforce simp: cursor_less_def)
qed

lemma cursor_less_total:
  assumes "collation idLess" "\<not> cursor_less idLess b a"
  shows "a = b \<or> cursor_less idLess a b"
proof -
  have "snd a = snd b \<or> idLess (snd a) (snd b) \<or> idLess (snd b) (snd a)" using assms(1) unfolding collation_def by blast
  with assms(2) show ?thesis by (cases a, cases b) (auto simp: cursor_less_def)
qed

lemma first_receipt_None: "first_receipt idLess rs = None \<longleftrightarrow> rs = []"
  by (cases rs) (auto split: option.splits)

lemma first_receipt_SomeD:
  assumes "collation idLess" "first_receipt idLess rs = Some m"
  shows "m \<in> set rs" "r \<in> set rs \<Longrightarrow> \<not> cursor_less idLess (receipt_cursor r) (receipt_cursor m)"
proof -
  have "m \<in> set rs \<and> (\<forall>r\<in>set rs. \<not> cursor_less idLess (receipt_cursor r) (receipt_cursor m))"
    using assms(2)
  proof (induction rs arbitrary: m)
    case (Cons x rs)
    show ?case
    proof (cases "first_receipt idLess rs")
      case None
      with Cons.prems assms(1) show ?thesis by (simp add: first_receipt_None cursor_less_irrefl)
    next
      case (Some k)
      note k = Cons.IH [OF Some]
      show ?thesis
      proof (cases "cursor_less idLess (receipt_cursor k) (receipt_cursor x)")
        case True
        then have "\<not> cursor_less idLess (receipt_cursor x) (receipt_cursor k)"
          using cursor_less_trans [OF assms(1)] cursor_less_irrefl [OF assms(1)] by blast
        with True Some Cons.prems k show ?thesis by simp
      next
        case False
        have "\<not> cursor_less idLess (receipt_cursor r) (receipt_cursor x)" if "r \<in> set rs" for r
          using that k False cursor_less_total [OF assms(1), of "receipt_cursor r" "receipt_cursor k"]
            cursor_less_trans [OF assms(1), of "receipt_cursor k" "receipt_cursor r" "receipt_cursor x"] by metis
        with False Some Cons.prems cursor_less_irrefl [OF assms(1)] show ?thesis by simp
      qed
    qed
  qed simp
  then show "m \<in> set rs" "r \<in> set rs \<Longrightarrow> \<not> cursor_less idLess (receipt_cursor r) (receipt_cursor m)" by auto
qed

lemma claim_receipt_SomeD:
  assumes "collation idLess" "claim_receipt idLess locked topics cursor d = Some r"
  shows "r \<in> set (db_billingReceipts d)" "receipt_waiting topics r" "after_cursor idLess cursor r" "\<not> locked (wr_id r)"
    "x \<in> set (db_billingReceipts d) \<Longrightarrow> receipt_waiting topics x \<Longrightarrow> after_cursor idLess cursor x \<Longrightarrow> \<not> locked (wr_id x) \<Longrightarrow>
       \<not> cursor_less idLess (receipt_cursor x) (receipt_cursor r)"
  using first_receipt_SomeD [OF assms(1) assms(2) [unfolded claim_receipt_def]] by auto

lemma claim_receipt_NoneD:
  "claim_receipt idLess locked topics cursor d = None \<Longrightarrow> r \<in> set (db_billingReceipts d) \<Longrightarrow> receipt_waiting topics r \<Longrightarrow>
     after_cursor idLess cursor r \<Longrightarrow> locked (wr_id r)"
  by (auto simp: claim_receipt_def first_receipt_None filter_empty_conv)

lemma update_receipt_InrD:
  assumes "update_receipt i f m d = Inr d'" "distinct (map wr_id (db_billingReceipts d))"
  shows "d' = d\<lparr>db_billingReceipts := update_key wr_id i f (db_billingReceipts d)\<rparr>"
proof -
  obtain n rs where u: "update_many (\<lambda>r. wr_id r = i \<and> wr_processedAt r = None) f (db_billingReceipts d) = (n, rs)"
    by (rule prod.exhaust)
  with assms(1) have "n = 1" "d' = d\<lparr>db_billingReceipts := rs\<rparr>" by (auto simp: update_receipt_def result_iffs)
  with update_many_one [where key = wr_id, OF u _ assms(2)] show ?thesis by metis
qed

lemma update_receipt_frame:
  assumes "update_receipt i f m d = Inr d'"
  shows "\<exists>rs. d' = d\<lparr>db_billingReceipts := rs\<rparr>"
  using assms by (auto simp: update_receipt_def result_iffs split: prod.splits)

section \<open>The run of a batch\<close>

text \<open>The outcomes and cursors of the receipts a batch claims, in order.\<close>

primrec receipt_trace ::
  "(nat \<Rightarrow> cursor option \<Rightarrow> 's \<Rightarrow> ('a \<times> cursor) option result \<times> 's) \<Rightarrow> nat \<Rightarrow> nat \<Rightarrow> cursor option \<Rightarrow> 's \<Rightarrow>
     ('a \<times> cursor) list" where
  "receipt_trace attempt 0 index cursor s = []"
| "receipt_trace attempt (Suc left) index cursor s =
     (case attempt index cursor s of
        (Inr (Some (a, c)), s') \<Rightarrow> (a, c) # receipt_trace attempt left (Suc index) (Some c) s'
      | _ \<Rightarrow> [])"

lemma receipt_trace_length: "length (receipt_trace attempt left index cursor s) \<le> left"
  by (induction left arbitrary: index cursor s) (auto split: prod.split sum.split option.split)

lemma receipt_batch_trace:
  "receipt_batch attempt count left index cursor acc s = (Inr acc', s') \<Longrightarrow>
     acc' = fold (\<lambda>(a, _). count a) (receipt_trace attempt left index cursor s) acc"
  by (induction left arbitrary: index cursor acc s) (auto split: prod.splits sum.splits option.splits)

definition handled :: "billing_receipt \<Rightarrow> bool" where
  "handled r \<longleftrightarrow> wr_processedAt r \<noteq> None \<or> wr_processingError r \<noteq> None"

locale receipt_processor =
  fixes attempt :: "nat \<Rightarrow> cursor option \<Rightarrow> db \<Rightarrow> ('a \<times> cursor) option result \<times> db"
    and idLess :: "id \<Rightarrow> id \<Rightarrow> bool" and inv :: "db \<Rightarrow> bool"
  assumes keeps: "inv d \<Longrightarrow> inv (snd (attempt i c d))"
    and advances: "inv d \<Longrightarrow> collation idLess \<Longrightarrow> attempt i c d = (Inr (Some (a, k)), d') \<Longrightarrow>
      (case c of None \<Rightarrow> True | Some x \<Rightarrow> cursor_less idLess x k)"
begin

lemma batch_keeps: "inv d \<Longrightarrow> inv (snd (receipt_batch attempt count left i c acc d))"
proof (induction left arbitrary: i c acc d)
  case (Suc left)
  obtain out d1 where a: "attempt i c d = (out, d1)" by (rule prod.exhaust)
  with keeps [OF Suc.prems, of i c] have "inv d1" by simp
  with a Suc.IH show ?case by (auto split: sum.split option.split)
qed simp

lemma trace_after:
  assumes "collation idLess" "inv d" "k \<in> set (receipt_trace attempt left i c d)"
  shows "case c of None \<Rightarrow> True | Some x \<Rightarrow> cursor_less idLess x (snd k)"
  using assms(2,3)
proof (induction left arbitrary: i c d)
  case (Suc left)
  obtain out d1 where out: "attempt i c d = (out, d1)" by (rule prod.exhaust)
  with Suc.prems(2) obtain a c1 where step: "attempt i c d = (Inr (Some (a, c1)), d1)"
    and k: "k = (a, c1) \<or> k \<in> set (receipt_trace attempt left (Suc i) (Some c1) d1)"
    by (auto split: sum.splits option.splits)
  from keeps [OF Suc.prems(1), of i c] step have "inv d1" by simp
  note ih = Suc.IH [OF this, of "Suc i" "Some c1"]
  note adv = advances [OF Suc.prems(1) assms(1) step]
  show ?case
  proof (cases "k = (a, c1)")
    case False
    with k ih have "cursor_less idLess c1 (snd k)" by simp
    with adv show ?thesis by (auto split: option.splits intro: cursor_less_trans [OF assms(1)])
  qed (use adv in \<open>auto split: option.splits\<close>)
qed simp

lemma trace_ascending:
  assumes "collation idLess" "inv d"
  shows "sorted_wrt (cursor_less idLess) (map snd (receipt_trace attempt left i c d))"
  using assms(2)
proof (induction left arbitrary: i c d)
  case (Suc left)
  show ?case
  proof (cases "attempt i c d")
    case (Pair out d1)
    with keeps [OF Suc.prems, of i c] have inv1: "inv d1" by simp
    from trace_after [OF assms(1) inv1, of _ left "Suc i" "Some _"]
    show ?thesis using Pair Suc.IH [OF inv1] by (auto split: sum.split option.split)
  qed
qed simp

end

text \<open>
  A processor no other transaction disturbs: it claims a receipt whenever one waits after the
  cursor, and touches no other receipt. Then no waiting receipt is passed over, however the ones
  before it fared.
\<close>

locale undisturbed_receipt_processor = receipt_processor attempt idLess inv
  for attempt :: "nat \<Rightarrow> cursor option \<Rightarrow> db \<Rightarrow> ('a \<times> cursor) option result \<times> db"
    and idLess :: "id \<Rightarrow> id \<Rightarrow> bool" and inv :: "db \<Rightarrow> bool" +
  fixes topics :: "string list"
  assumes keys: "inv d \<Longrightarrow> distinct (map wr_id (db_billingReceipts d))"
    and none: "inv d \<Longrightarrow> attempt i c d = (Inr None, d') \<Longrightarrow>
      claim_receipt idLess (\<lambda>_. False) topics c d = None \<and> db_billingReceipts d' = db_billingReceipts d"
    and claims: "inv d \<Longrightarrow> attempt i c d = (Inr (Some (a, k)), d') \<Longrightarrow>
      \<exists>r g. claim_receipt idLess (\<lambda>_. False) topics c d = Some r \<and> k = receipt_cursor r \<and> handled (g r) \<and>
        (\<forall>x. wr_id (g x) = wr_id x) \<and> db_billingReceipts d' = update_key wr_id (wr_id r) g (db_billingReceipts d)"
begin

definition handled_in :: "id \<Rightarrow> db \<Rightarrow> bool" where
  "handled_in i d \<longleftrightarrow> (\<exists>r\<in>set (db_billingReceipts d). wr_id r = i \<and> handled r)"

lemma claim_handles:
  assumes "collation idLess" "inv d" "attempt i c d = (Inr (Some (a, k)), d')"
  obtains r where "claim_receipt idLess (\<lambda>_. False) topics c d = Some r" "k = receipt_cursor r" "handled_in (wr_id r) d'"
    "\<And>x. x \<in> set (db_billingReceipts d) \<Longrightarrow> wr_id x \<noteq> wr_id r \<Longrightarrow> x \<in> set (db_billingReceipts d')"
    "\<And>j. handled_in j d \<Longrightarrow> handled_in j d'"
proof -
  from claims [OF assms(2,3)] obtain r g where r: "claim_receipt idLess (\<lambda>_. False) topics c d = Some r" "k = receipt_cursor r"
    "handled (g r)" "\<forall>x. wr_id (g x) = wr_id x" and t: "db_billingReceipts d' = update_key wr_id (wr_id r) g (db_billingReceipts d)"
    by blast
  note m = claim_receipt_SomeD(1) [OF assms(1) r(1)]
  have h: "handled_in (wr_id r) d'"
    unfolding handled_in_def using m r(3,4) by (intro bexI [of _ "g r"]) (auto simp: t set_update_key)
  have o: "x \<in> set (db_billingReceipts d')" if "x \<in> set (db_billingReceipts d)" "wr_id x \<noteq> wr_id r" for x
    using that by (force simp: t set_update_key)
  have "handled_in j d'" if "handled_in j d" for j
    using that h o by (metis handled_in_def)
  with r h o show ?thesis by (intro that) auto
qed

lemma handled_stays:
  assumes "collation idLess" "inv d" "receipt_batch attempt count left i c acc d = (Inr acc', d')" "handled_in j d"
  shows "handled_in j d'"
  using assms(2-4)
proof (induction left arbitrary: i c acc d)
  case (Suc left)
  obtain out d1 where a: "attempt i c d = (out, d1)" by (rule prod.exhaust)
  with keeps [OF Suc.prems(1), of i c] have inv1: "inv d1" by simp
  show ?case
  proof (cases "out = Inr None")
    case True
    with a none [OF Suc.prems(1)] have "db_billingReceipts d1 = db_billingReceipts d" by blast
    with True a Suc.prems(2,3) show ?thesis by (simp add: handled_in_def)
  next
    case False
    with a Suc.prems(2) obtain b k where s: "attempt i c d = (Inr (Some (b, k)), d1)"
      and rest: "receipt_batch attempt count left (Suc i) (Some k) (count b acc) d1 = (Inr acc', d')"
      by (auto split: sum.splits option.splits)
    have "handled_in j d1" by (rule claim_handles [OF assms(1) Suc.prems(1) s]) (use Suc.prems(3) in blast)
    with Suc.IH [OF inv1 rest] Suc.prems(3) show ?thesis by blast
  qed
qed simp

theorem none_passed_over:
  assumes "collation idLess" "inv d" "receipt_batch attempt count left i c acc d = (Inr acc', d')"
    and "length (receipt_trace attempt left i c d) < left"
    and "r \<in> set (db_billingReceipts d)" "receipt_waiting topics r" "after_cursor idLess c r"
  shows "handled_in (wr_id r) d'"
  using assms(2-)
proof (induction left arbitrary: i c acc d)
  case (Suc left)
  obtain out d1 where a: "attempt i c d = (out, d1)" by (rule prod.exhaust)
  with keeps [OF Suc.prems(1), of i c] have inv1: "inv d1" by simp
  show ?case
  proof (cases "out = Inr None")
    case True
    with a none [OF Suc.prems(1)] have "claim_receipt idLess (\<lambda>_. False) topics c d = None" by blast
    from claim_receipt_NoneD [OF this Suc.prems(4-6)] show ?thesis by simp
  next
    case False
    with a Suc.prems(2) obtain b k where s: "attempt i c d = (Inr (Some (b, k)), d1)"
      and rest: "receipt_batch attempt count left (Suc i) (Some k) (count b acc) d1 = (Inr acc', d')"
      by (auto split: sum.splits option.splits)
    obtain m where m: "claim_receipt idLess (\<lambda>_. False) topics c d = Some m" "k = receipt_cursor m" "handled_in (wr_id m) d1"
      "\<And>x. x \<in> set (db_billingReceipts d) \<Longrightarrow> wr_id x \<noteq> wr_id m \<Longrightarrow> x \<in> set (db_billingReceipts d1)"
      by (rule claim_handles [OF assms(1) Suc.prems(1) s]) blast
    show ?thesis
    proof (cases "wr_id r = wr_id m")
      case True
      with handled_stays [OF assms(1) inv1 rest] m(3) show ?thesis by simp
    next
      case False
      with claim_receipt_SomeD(5) [OF assms(1) m(1) Suc.prems(4-6)]
      have "cursor_less idLess k (receipt_cursor r)"
        using cursor_less_total [OF assms(1), of "receipt_cursor r" k] m(2) by (auto simp: receipt_cursor_def)
      with Suc.IH [OF inv1 rest] Suc.prems(3,5) m(4) [OF Suc.prems(4) False] s show ?thesis by (simp add: after_cursor_def)
    qed
  qed
qed simp

end

end
