(* ===== verification/Woo_Charges.thy ===== *)
theory Woo_Charges
  imports Woo_Receipts
begin

text \<open>
  The acquisition of credits by a WooCommerce charge: what a receipt says
  (\<open>charge-receipt-envelope.ts\<close>, \<open>charge-payment-evidence.ts\<close>), the operation and purchase it is about
  (\<open>charge-receipt-correlation.ts\<close>), the activation or the cancellation of that purchase
  (\<open>charge-purchase-transition.ts\<close>), and the processor and batch around them. The texts that are
  decimal numbers are a parameter \<open>decimalOf\<close>, the decimal arithmetic being a library's; the price
  snapshot holds its numbers, not their canonical text. Logging and the resume of blocked
  recoveries are the last, optional component of an attempt's result.
\<close>

section \<open>JSON values as the code reads them\<close>

definition is_record :: "json \<Rightarrow> bool" where
  "is_record v = (case v of JObject _ \<Rightarrow> True | _ \<Rightarrow> False)"

definition is_digit :: "char \<Rightarrow> bool" where
  "is_digit c \<longleftrightarrow> 48 \<le> (of_char c :: nat) \<and> (of_char c :: nat) \<le> 57"

definition read_nat :: "string \<Rightarrow> int" where
  "read_nat s = foldl (\<lambda>n c. n * 10 + (of_char c - 48)) 0 s"

text \<open>The positive safe integers are printed as their digits.\<close>

definition positive_safe_integer :: "json option \<Rightarrow> int option" where
  "positive_safe_integer v =
     (case v of
        Some (JNumber s) \<Rightarrow>
          (if s \<noteq> [] \<and> list_all is_digit s \<and> hd s \<noteq> CHR ''0'' \<and> is_safe_int (read_nat s) then Some (read_nat s) else None)
      | _ \<Rightarrow> None)"

text \<open>\<open>String(value)\<close>; \<open>None\<close> is \<open>undefined\<close>.\<close>

primrec join_comma :: "string list \<Rightarrow> string" where
  "join_comma [] = []"
| "join_comma (x # xs) = (if xs = [] then x else x @ '','' @ join_comma xs)"

fun js_string :: "json \<Rightarrow> string" where
  "js_string JNull = ''null''"
| "js_string (JBool b) = (if b then ''true'' else ''false'')"
| "js_string (JNumber s) = s"
| "js_string (JString s) = s"
| "js_string (JArray xs) = join_comma (map (\<lambda>x. if x = JNull then [] else js_string x) xs)"
| "js_string (JObject fs) = ''[object Object]''"

definition string_of :: "json option \<Rightarrow> string" where
  "string_of v = (case v of None \<Rightarrow> ''undefined'' | Some x \<Rightarrow> js_string x)"

definition json_array :: "json option \<Rightarrow> json list" where
  "json_array v = (case v of Some (JArray xs) \<Rightarrow> xs | _ \<Rightarrow> [])"

definition nonblank_string :: "json option \<Rightarrow> bool" where
  "nonblank_string v = (case v of Some (JString s) \<Rightarrow> js_trim s \<noteq> [] | _ \<Rightarrow> False)"

section \<open>Envelope\<close>

definition activated_topic :: string where
  "activated_topic = ''saas_billing_contract.activated''"

definition CHARGE_TOPICS :: "string list" where
  "CHARGE_TOPICS = [activated_topic, ''saas_billing_contract.canceled'', ''saas_billing_contract.prepaid_term_ended'']"

definition provider_status_conflict :: string where
  "provider_status_conflict = ''CHARGE_PROVIDER_STATUS_CONFLICT''"

definition expected_status :: "string \<Rightarrow> string" where
  "expected_status topic = (if topic = activated_topic then ''active'' else ''canceled'')"

definition read_woo_charge_envelope :: "json \<Rightarrow> string option \<Rightarrow> string \<Rightarrow> (string, json) sum" where
  "read_woo_charge_envelope payload providerContractId topic =
     (case json_field payload ''charge'' of
        None \<Rightarrow> Inl provider_status_conflict
      | Some charge \<Rightarrow>
          if \<not> is_record payload \<or> \<not> is_record charge \<or> \<not> truthy providerContractId then Inl provider_status_conflict
          else if \<not> nonblank_string (json_field charge ''id'') \<or>
             json_field charge ''id'' \<noteq> map_option JString providerContractId \<or>
             \<not> nonblank_string (json_field charge ''status'') \<or>
             json_field charge ''status'' \<noteq> Some (JString (expected_status topic))
          then Inl provider_status_conflict
          else Inr charge)"

section \<open>Payment evidence\<close>

record payment_evidence =
  pe_billingIntentId :: int
  pe_transactionId :: int
  pe_amount :: decimal
  pe_amountRefunded :: decimal

definition evidence_incomplete :: string where
  "evidence_incomplete = ''CHARGE_PAYMENT_EVIDENCE_INCOMPLETE''"

definition completed_intent_ids :: "json list \<Rightarrow> int list" where
  "completed_intent_ids intents =
     concat (map (\<lambda>i. if is_record i \<and> json_field i ''status'' = Some (JString ''completed'')
       then (case positive_safe_integer (json_field i ''id'') of None \<Rightarrow> [] | Some n \<Rightarrow> [n]) else []) intents)"

definition is_candidate :: "int list \<Rightarrow> json \<Rightarrow> bool" where
  "is_candidate intentIds t \<longleftrightarrow> is_record t \<and> positive_safe_integer (json_field t ''id'') \<noteq> None \<and>
     (case positive_safe_integer (json_field t ''billing_intent_id'') of None \<Rightarrow> False | Some n \<Rightarrow> n \<in> set intentIds) \<and>
     nonblank_string (json_field t ''completed_at'')"

definition transaction_evidence :: "(string \<Rightarrow> decimal option) \<Rightarrow> json \<Rightarrow> (string, payment_evidence) sum" where
  "transaction_evidence decimalOf t =
     (case (decimalOf (string_of (json_field t ''amount'')), decimalOf (string_of (json_field t ''amount_refunded''))) of
        (Some amount, Some refunded) \<Rightarrow>
          if \<not> dec_positive amount \<or> dec_negative refunded then Inl ''CHARGE_PAYMENT_AMOUNT_INVALID''
          else if \<not> dec_zero refunded then Inl evidence_incomplete
          else (case (positive_safe_integer (json_field t ''billing_intent_id''), positive_safe_integer (json_field t ''id'')) of
              (Some intentId, Some transactionId) \<Rightarrow>
                Inr \<lparr>pe_billingIntentId = intentId, pe_transactionId = transactionId, pe_amount = amount,
                     pe_amountRefunded = refunded\<rparr>
            | _ \<Rightarrow> Inl evidence_incomplete)
      | _ \<Rightarrow> Inl ''CHARGE_PAYMENT_AMOUNT_INVALID'')"

definition parse_charge_payment_evidence :: "(string \<Rightarrow> decimal option) \<Rightarrow> json \<Rightarrow> (string, payment_evidence) sum" where
  "parse_charge_payment_evidence decimalOf charge =
     (if \<not> is_record charge then Inl evidence_incomplete
      else
        (let intents = json_array (json_field charge ''billing_intents'');
             transactions = json_array (json_field charge ''transactions'') in
         if intents = [] \<or> transactions = [] then Inl evidence_incomplete
         else (case filter (is_candidate (completed_intent_ids intents)) transactions of
             [] \<Rightarrow> Inl evidence_incomplete
           | [t] \<Rightarrow> transaction_evidence decimalOf t
           | _ \<Rightarrow> Inl ''CHARGE_PAYMENT_EVIDENCE_AMBIGUOUS'')))"

definition create_woo_charge_price_snapshot :: "id \<Rightarrow> int \<Rightarrow> string \<Rightarrow> payment_evidence \<Rightarrow> price_snapshot" where
  "create_woo_charge_price_snapshot usageEventId amountMinor currency e =
     \<lparr>wps_merchantPricingUsageEventId = usageEventId, wps_quotedAmountMinor = amountMinor, wps_quotedCurrency = currency,
      wps_providerBillingIntentId = pe_billingIntentId e, wps_providerTransactionId = pe_transactionId e,
      wps_providerTransactionAmount = pe_amount e, wps_providerAmountRefunded = pe_amountRefunded e\<rparr>"

section \<open>Correlation\<close>

record charge_link =
  cl_shop :: shop
  cl_operation :: billing_operation
  cl_purchase :: purchase_lot
  cl_counter :: "shop_counter option"

definition operation_state_conflict :: string where
  "operation_state_conflict = ''CHARGE_OPERATION_STATE_CONFLICT''"

definition tenant_conflict :: string where
  "tenant_conflict = ''CHARGE_TENANT_CONFLICT''"

definition purchase_state_conflict :: string where
  "purchase_state_conflict = ''CHARGE_PURCHASE_STATE_CONFLICT''"

definition operation_usable :: "string \<Rightarrow> id option \<Rightarrow> shop \<Rightarrow> billing_operation \<Rightarrow> bool" where
  "operation_usable providerContractId receiptOperationId s op \<longleftrightarrow>
     bo_kind op = ONE_TIME_CHARGE \<and> bo_providerReference op = Some providerContractId \<and> bo_shopId op = sh_id s \<and>
     (truthy receiptOperationId \<longrightarrow> receiptOperationId = Some (bo_id op)) \<and>
     truthy (bo_recoveryCreditPurchaseId op) \<and> truthy (bo_merchantPricingUsageEventId op) \<and>
     (case bo_quotedAmountMinor op of None \<Rightarrow> False | Some n \<Rightarrow> is_safe_int n \<and> 0 < n) \<and>
     bo_quotedCurrency op = Some ''USD''"

definition link_purchase :: "shop \<Rightarrow> billing_operation \<Rightarrow> db \<Rightarrow> (string, charge_link) sum" where
  "link_purchase s op d =
     (case find_lot_by_id d (the (bo_recoveryCreditPurchaseId op)) of
        None \<Rightarrow> Inl ''CHARGE_PURCHASE_LINK_CONFLICT''
      | Some l \<Rightarrow>
          if lot_shopId l \<noteq> sh_id s \<or> lot_provider l \<noteq> WOOCOMMERCE then Inl tenant_conflict
          else if \<not> is_safe_int (lot_creditsGranted l) \<or> lot_creditsGranted l \<le> 0 then Inl purchase_state_conflict
          else Inr \<lparr>cl_shop = s, cl_operation = op, cl_purchase = l,
                    cl_counter = find_shop_counter d (sh_id s) PURCHASED_RECOVERY_CREDITS\<rparr>)"

definition link_operation :: "string \<Rightarrow> id option \<Rightarrow> billing_operation \<Rightarrow> db \<Rightarrow> (string, charge_link) sum" where
  "link_operation providerContractId receiptOperationId candidate d =
     (case find_row (\<lambda>s. su_shopId s = bo_shopId candidate) (db_subscriptions d) of
        None \<Rightarrow> Inl tenant_conflict
      | Some ref \<Rightarrow>
          (case find_row (\<lambda>s. sh_id s = bo_shopId candidate) (db_shops d) of
             None \<Rightarrow> Inl tenant_conflict
           | Some s \<Rightarrow>
               if sh_platform s \<noteq> WOOCOMMERCE then Inl tenant_conflict
               else (case find_row (\<lambda>x. su_id x = su_id ref) (db_subscriptions d) of
                   None \<Rightarrow> Inl tenant_conflict
                 | Some su \<Rightarrow>
                     if su_shopId su \<noteq> sh_id s then Inl tenant_conflict
                     else (case find_row (\<lambda>x. bo_id x = bo_id candidate) (db_billingOperations d) of
                         None \<Rightarrow> Inl operation_state_conflict
                       | Some op \<Rightarrow>
                           if \<not> operation_usable providerContractId receiptOperationId s op then Inl operation_state_conflict
                           else link_purchase s op d))))"

definition correlate_and_lock_charge_purchase :: "string \<Rightarrow> id option \<Rightarrow> db \<Rightarrow> (string, charge_link) sum" where
  "correlate_and_lock_charge_purchase providerContractId receiptOperationId d =
     (case filter (\<lambda>op. bo_kind op = ONE_TIME_CHARGE \<and> bo_providerReference op = Some providerContractId)
         (db_billingOperations d) of
        [] \<Rightarrow> Inl ''CHARGE_CORRELATION_NOT_READY''
      | [candidate] \<Rightarrow>
          if truthy receiptOperationId \<and> receiptOperationId \<noteq> Some (bo_id candidate) then Inl operation_state_conflict
          else link_operation providerContractId receiptOperationId candidate d
      | _ \<Rightarrow> Inl ''CHARGE_OPERATION_AMBIGUOUS'')"

section \<open>The purchase\<close>

datatype charge_transition = Charge_Activated | Charge_Replayed | Charge_Canceled | Charge_Cancellation_Replayed

definition unresolved :: "operation_state \<Rightarrow> bool" where
  "unresolved s \<longleftrightarrow> s \<in> {AWAITING_CONFIRMATION, OUTCOME_UNKNOWN}"

definition terminal_purchase :: "purchase_status \<Rightarrow> bool" where
  "terminal_purchase s \<longleftrightarrow> s \<in> {ACTIVE, WITHDRAWN, COMPLETED, REFUNDED}"

definition is_pristine_requested_purchase :: "purchase_lot \<Rightarrow> bool" where
  "is_pristine_requested_purchase l \<longleftrightarrow>
     lot_status l = REQUESTED \<and> lot_currentAmount l = 0 \<and> lot_reservedAmount l = 0 \<and> lot_provider l = WOOCOMMERCE \<and>
     lot_providerReference l = None \<and> lot_providerPurchaseAmount l = None \<and> lot_providerPurchaseCurrency l = None \<and>
     lot_providerValuationConfirmedAt l = None \<and> lot_providerPriceSnapshot l = None \<and> lot_usageEventId l = None"

definition is_confirmed_purchase_replay :: "purchase_lot \<Rightarrow> string \<Rightarrow> bool" where
  "is_confirmed_purchase_replay l providerContractId \<longleftrightarrow>
     terminal_purchase (lot_status l) \<and> lot_provider l = WOOCOMMERCE \<and>
     lot_providerReference l = Some providerContractId \<and> lot_providerPurchaseAmount l \<noteq> None \<and>
     lot_providerPurchaseCurrency l = Some ''USD'' \<and> lot_providerValuationConfirmedAt l \<noteq> None \<and>
     lot_providerPriceSnapshot l \<noteq> None"

definition is_valid_counter :: "shop_counter \<Rightarrow> bool" where
  "is_valid_counter c \<longleftrightarrow> list_all (\<lambda>n. is_safe_int n \<and> 0 \<le> n)
     [sc_grantedQuantity c, sc_committedQuantity c, sc_reservedQuantity c, sc_refundingQuantity c, sc_version c]"

definition canceled_before_activation :: string where
  "canceled_before_activation = ''WOO_CHARGE_CANCELED_BEFORE_ACTIVATION''"

definition update_unresolved :: "id \<Rightarrow> operation_state \<Rightarrow> string option \<Rightarrow> db \<Rightarrow> nat \<times> billing_operation table" where
  "update_unresolved i state code d =
     update_many (\<lambda>op. bo_id op = i \<and> unresolved (bo_state op)) (\<lambda>op. op\<lparr>bo_state := state, bo_lastErrorCode := code\<rparr>)
       (db_billingOperations d)"

definition terminate_unactivated_charge ::
  "charge_link \<Rightarrow> string \<Rightarrow> db \<Rightarrow> (string, charge_transition) sum \<times> db" where
  "terminate_unactivated_charge link providerContractId d =
     (let op = cl_operation link; l = cl_purchase link in
      if bo_state op = CONFIRMED \<and> terminal_purchase (lot_status l) \<and> lot_provider l = WOOCOMMERCE \<and>
         lot_providerReference l = Some providerContractId
      then (Inr Charge_Canceled, d)
      else if bo_state op = FAILED \<and> bo_lastErrorCode op = Some canceled_before_activation \<and> lot_status l = REQUESTED \<and>
         lot_currentAmount l = 0 \<and> lot_reservedAmount l = 0
      then (Inr Charge_Cancellation_Replayed, d)
      else if \<not> unresolved (bo_state op) \<or> \<not> is_pristine_requested_purchase l
      then (Inl operation_state_conflict, d)
      else (let (n, ops) = update_unresolved (bo_id op) FAILED (Some canceled_before_activation) d;
                d' = d\<lparr>db_billingOperations := ops\<rparr> in
            (if n = 1 then Inr Charge_Canceled else Inl operation_state_conflict, d')))"

definition activated_lot :: "string \<Rightarrow> payment_evidence \<Rightarrow> price_snapshot \<Rightarrow> time \<Rightarrow> int \<Rightarrow> purchase_lot \<Rightarrow> purchase_lot" where
  "activated_lot providerContractId evidence snapshot receivedAt credits l =
     l\<lparr>lot_providerReference := Some providerContractId, lot_providerPurchaseAmount := Some (pe_amount evidence),
       lot_providerPurchaseCurrency := Some ''USD'', lot_providerValuationConfirmedAt := Some receivedAt,
       lot_providerPriceSnapshot := Some snapshot, lot_currentAmount := credits, lot_reservedAmount := 0,
       lot_status := ACTIVE, lot_activatedAt := Some receivedAt, lot_version := lot_version l + 1\<rparr>"

definition granted_counter :: "int \<Rightarrow> shop_counter \<Rightarrow> shop_counter" where
  "granted_counter credits c = c\<lparr>sc_grantedQuantity := sc_grantedQuantity c + credits, sc_version := sc_version c + 1\<rparr>"

definition first_purchased_counter :: "id \<Rightarrow> id \<Rightarrow> int \<Rightarrow> shop_counter" where
  "first_purchased_counter newId shopId credits =
     (new_shop_counter newId shopId PURCHASED_RECOVERY_CREDITS)\<lparr>sc_grantedQuantity := credits, sc_version := 1\<rparr>"

definition grant_purchased_credits :: "id \<Rightarrow> charge_link \<Rightarrow> db \<Rightarrow> db result" where
  "grant_purchased_credits newId link d =
     (let credits = lot_creditsGranted (cl_purchase link) in
      case cl_counter link of
        Some c \<Rightarrow>
          (let (n, cs) = update_many (\<lambda>x. sc_id x = sc_id c \<and> sc_version x = sc_version c \<and>
                 sc_counter x = PURCHASED_RECOVERY_CREDITS) (granted_counter credits) (db_shopCounters d) in
           and_then (require (n = 1) (plain_error ''Purchased recovery counter compare-and-set failed'')) (\<lambda>_.
           Inr (d\<lparr>db_shopCounters := cs\<rparr>)))
      | None \<Rightarrow>
          and_then (create_row shop_counter_clash (first_purchased_counter newId (sh_id (cl_shop link)) credits)
            (db_shopCounters d)) (\<lambda>(_, cs). Inr (d\<lparr>db_shopCounters := cs\<rparr>)))"

definition link_snapshot :: "charge_link \<Rightarrow> payment_evidence \<Rightarrow> price_snapshot" where
  "link_snapshot link evidence =
     create_woo_charge_price_snapshot (the (bo_merchantPricingUsageEventId (cl_operation link)))
       (the (bo_quotedAmountMinor (cl_operation link))) (the (bo_quotedCurrency (cl_operation link))) evidence"

definition activate_purchase ::
  "id \<Rightarrow> charge_link \<Rightarrow> string \<Rightarrow> time \<Rightarrow> payment_evidence \<Rightarrow> db \<Rightarrow> ((string, charge_transition) sum \<times> db) result" where
  "activate_purchase newId link providerContractId receivedAt evidence d =
     (let l = cl_purchase link;
          (n, lots) = update_many (\<lambda>x. lot_id x = lot_id l \<and> lot_version x = lot_version l \<and>
            is_pristine_requested_purchase x)
            (activated_lot providerContractId evidence (link_snapshot link evidence) receivedAt (lot_creditsGranted l))
            (db_lots d) in
      if n \<noteq> 1 then Inr (Inl purchase_state_conflict, d\<lparr>db_lots := lots\<rparr>)
      else
        and_then (grant_purchased_credits newId link (d\<lparr>db_lots := lots\<rparr>)) (\<lambda>d1.
          (let (m, ops) = update_unresolved (bo_id (cl_operation link)) CONFIRMED None d1 in
           and_then (require (m = 1)
             (plain_error ''Billing operation compare-and-set failed after purchase activation'')) (\<lambda>_.
           Inr (Inr Charge_Activated, d1\<lparr>db_billingOperations := ops\<rparr>)))))"

definition transition_charge_purchase ::
  "id \<Rightarrow> charge_link \<Rightarrow> string \<Rightarrow> string \<Rightarrow> time \<Rightarrow> payment_evidence option \<Rightarrow> db \<Rightarrow>
     ((string, charge_transition) sum \<times> db) result" where
  "transition_charge_purchase newId link topic providerContractId receivedAt evidence d =
     (let op = cl_operation link; l = cl_purchase link in
      if topic \<noteq> activated_topic then Inr (terminate_unactivated_charge link providerContractId d)
      else if bo_state op = CONFIRMED
      then Inr (if is_confirmed_purchase_replay l providerContractId then Inr Charge_Replayed else Inl purchase_state_conflict, d)
      else if \<not> unresolved (bo_state op) then Inr (Inl operation_state_conflict, d)
      else if \<not> is_pristine_requested_purchase l then Inr (Inl purchase_state_conflict, d)
      else if (case cl_counter link of None \<Rightarrow> False | Some c \<Rightarrow> \<not> is_valid_counter c)
      then Inr (Inl ''PURCHASED_COUNTER_STATE_CONFLICT'', d)
      else (case evidence of
          None \<Rightarrow> Inr (Inl purchase_state_conflict, d)
        | Some e \<Rightarrow> activate_purchase newId link providerContractId receivedAt e d))"

section \<open>The processor\<close>

text \<open>
  An attempt on one receipt: what it came to, and for a newly activated purchase the shop and the
  purchase whose blocked recoveries are to be resumed.
\<close>

datatype charge_outcome = Charge_Processed charge_transition "(id \<times> id) option" | Charge_Retryable string

definition charge_retryable ::
  "billing_receipt \<Rightarrow> string \<Rightarrow> id option \<Rightarrow> db \<Rightarrow> ((charge_outcome \<times> cursor) option \<times> db) result" where
  "charge_retryable r code operationId d =
     and_then (record_charge_receipt_error (wr_id r) code operationId d) (\<lambda>d'.
     Inr (Some (Charge_Retryable code, receipt_cursor r), d'))"

definition finish_charge_transition ::
  "time \<Rightarrow> billing_receipt \<Rightarrow> charge_link \<Rightarrow> (string, charge_transition) sum \<Rightarrow> db \<Rightarrow>
     ((charge_outcome \<times> cursor) option \<times> db) result" where
  "finish_charge_transition now r link t d =
     (let op = bo_id (cl_operation link) in
      case t of
        Inl code \<Rightarrow> charge_retryable r code (Some op) d
      | Inr transition \<Rightarrow>
          and_then (complete_charge_receipt (wr_id r) now op d) (\<lambda>d'.
          Inr (Some (Charge_Processed transition
              (if transition = Charge_Activated then Some (sh_id (cl_shop link), lot_id (cl_purchase link)) else None),
            receipt_cursor r), d')))"

definition process_charge_link ::
  "(string \<Rightarrow> decimal option) \<Rightarrow> id \<Rightarrow> time \<Rightarrow> billing_receipt \<Rightarrow> json \<Rightarrow> string \<Rightarrow> charge_link \<Rightarrow> db \<Rightarrow>
     ((charge_outcome \<times> cursor) option \<times> db) result" where
  "process_charge_link decimalOf newId now r charge providerContractId link d =
     (let payment = (if wr_topic r = activated_topic then Some (parse_charge_payment_evidence decimalOf charge) else None) in
      case payment of
        Some (Inl code) \<Rightarrow> charge_retryable r code (Some (bo_id (cl_operation link))) d
      | _ \<Rightarrow>
          and_then (transition_charge_purchase newId link (wr_topic r) providerContractId (wr_receivedAt r)
            (case payment of Some (Inr e) \<Rightarrow> Some e | _ \<Rightarrow> None) d) (\<lambda>(t, d1).
          finish_charge_transition now r link t d1))"

definition process_charge_receipt ::
  "(string \<Rightarrow> decimal option) \<Rightarrow> id \<Rightarrow> time \<Rightarrow> billing_receipt \<Rightarrow> db \<Rightarrow>
     ((charge_outcome \<times> cursor) option \<times> db) result" where
  "process_charge_receipt decimalOf newId now r d =
     (case (read_woo_charge_envelope (wr_normalizedPayload r) (wr_providerContractId r) (wr_topic r), wr_providerContractId r) of
        (Inr charge, Some providerContractId) \<Rightarrow>
          (case correlate_and_lock_charge_purchase providerContractId (wr_billingOperationId r) d of
             Inl code \<Rightarrow> charge_retryable r code None d
           | Inr link \<Rightarrow> process_charge_link decimalOf newId now r charge providerContractId link d)
      | (Inl code, _) \<Rightarrow> charge_retryable r code None d
      | (Inr _, None) \<Rightarrow> charge_retryable r provider_status_conflict None d)"

definition charge_transaction ::
  "(string \<Rightarrow> decimal option) \<Rightarrow> (id \<Rightarrow> id \<Rightarrow> bool) \<Rightarrow> (id \<Rightarrow> bool) \<Rightarrow> id \<Rightarrow> time \<Rightarrow> cursor option \<Rightarrow> db \<Rightarrow>
     ((charge_outcome \<times> cursor) option \<times> db) result" where
  "charge_transaction decimalOf idLess locked newId now cursor d =
     (case claim_receipt idLess locked CHARGE_TOPICS cursor d of
        None \<Rightarrow> Inr (None, d)
      | Some r \<Rightarrow> process_charge_receipt decimalOf newId now r d)"

text \<open>
  \<open>processNextWooChargeReceipt\<close> at the time \<open>now\<close>: the transaction with its retries. The rows locked
  by others are a function of the attempt.
\<close>

definition process_next_woo_charge_receipt ::
  "(string \<Rightarrow> decimal option) \<Rightarrow> (id \<Rightarrow> id \<Rightarrow> bool) \<Rightarrow> db env \<Rightarrow> (nat \<Rightarrow> id \<Rightarrow> bool) \<Rightarrow> time \<Rightarrow> cursor option \<Rightarrow> db \<Rightarrow>
     (charge_outcome \<times> cursor) option result \<times> db" where
  "process_next_woo_charge_receipt decimalOf idLess E locked now cursor d =
     attempt_up_to is_p2002_or_p2034 E (\<lambda>n. charge_transaction decimalOf idLess (locked n) (env_ids E n 0) now cursor)
       (plain_error ''Woo charge receipt transaction retry limit exceeded'') 3 0 d"

record charge_batch =
  cb_claimed :: nat
  cb_processed :: nat
  cb_activated :: nat
  cb_canceled :: nat
  cb_retryable :: nat

definition count_charge :: "charge_outcome \<Rightarrow> charge_batch \<Rightarrow> charge_batch" where
  "count_charge a b =
     (case a of
        Charge_Retryable _ \<Rightarrow> b\<lparr>cb_claimed := cb_claimed b + 1, cb_retryable := cb_retryable b + 1\<rparr>
      | Charge_Processed t _ \<Rightarrow>
          b\<lparr>cb_claimed := cb_claimed b + 1, cb_processed := cb_processed b + 1,
            cb_activated := cb_activated b + (if t = Charge_Activated then 1 else 0),
            cb_canceled := cb_canceled b + (if t = Charge_Canceled then 1 else 0)\<rparr>)"

definition empty_charge_batch :: charge_batch where
  "empty_charge_batch = \<lparr>cb_claimed = 0, cb_processed = 0, cb_activated = 0, cb_canceled = 0, cb_retryable = 0\<rparr>"

definition charge_attempt ::
  "(string \<Rightarrow> decimal option) \<Rightarrow> (id \<Rightarrow> id \<Rightarrow> bool) \<Rightarrow> (nat \<Rightarrow> db env) \<Rightarrow> (nat \<Rightarrow> nat \<Rightarrow> id \<Rightarrow> bool) \<Rightarrow> (nat \<Rightarrow> time) \<Rightarrow>
     nat \<Rightarrow> cursor option \<Rightarrow> db \<Rightarrow> (charge_outcome \<times> cursor) option result \<times> db" where
  "charge_attempt decimalOf idLess E locked clock i cursor =
     process_next_woo_charge_receipt decimalOf idLess (E i) (locked i) (clock i) cursor"

definition reconcile_charge_batch ::
  "(string \<Rightarrow> decimal option) \<Rightarrow> (id \<Rightarrow> id \<Rightarrow> bool) \<Rightarrow> (nat \<Rightarrow> db env) \<Rightarrow> (nat \<Rightarrow> nat \<Rightarrow> id \<Rightarrow> bool) \<Rightarrow> (nat \<Rightarrow> time) \<Rightarrow>
     js_number option \<Rightarrow> db \<Rightarrow> charge_batch result \<times> db" where
  "reconcile_charge_batch decimalOf idLess E locked clock limit d =
     (case batch_limit ''Woo charge receipt batch size must be between 1 and 50'' limit of
        Inl e \<Rightarrow> (Inl e, d)
      | Inr n \<Rightarrow> receipt_batch (charge_attempt decimalOf idLess E locked clock) count_charge n 0 None empty_charge_batch d)"

section \<open>The link of a receipt\<close>

definition linked :: "charge_link \<Rightarrow> string \<Rightarrow> db \<Rightarrow> bool" where
  "linked link providerContractId d \<longleftrightarrow>
     cl_purchase link \<in> set (db_lots d) \<and> lot_shopId (cl_purchase link) = sh_id (cl_shop link) \<and>
     0 < lot_creditsGranted (cl_purchase link) \<and> cl_operation link \<in> set (db_billingOperations d) \<and>
     bo_recoveryCreditPurchaseId (cl_operation link) = Some (lot_id (cl_purchase link)) \<and>
     cl_counter link = find_shop_counter d (sh_id (cl_shop link)) PURCHASED_RECOVERY_CREDITS \<and>
     filter (\<lambda>op. bo_kind op = ONE_TIME_CHARGE \<and> bo_providerReference op = Some providerContractId)
       (db_billingOperations d) = [cl_operation link]"

lemma linkedD:
  assumes "linked link pc d"
  shows "cl_purchase link \<in> set (db_lots d)" "lot_shopId (cl_purchase link) = sh_id (cl_shop link)"
    "0 < lot_creditsGranted (cl_purchase link)" "cl_operation link \<in> set (db_billingOperations d)"
    "bo_recoveryCreditPurchaseId (cl_operation link) = Some (lot_id (cl_purchase link))"
    "cl_counter link = find_shop_counter d (sh_id (cl_shop link)) PURCHASED_RECOVERY_CREDITS"
  using assms by (auto simp: linked_def)

lemma correlate_InrD:
  assumes run: "correlate_and_lock_charge_purchase pc rid d = Inr link"
    and keys: "distinct (map bo_id (db_billingOperations d))"
  shows "linked link pc d" "truthy rid \<Longrightarrow> rid = Some (bo_id (cl_operation link))"
proof -
  let ?F = "filter (\<lambda>op. bo_kind op = ONE_TIME_CHARGE \<and> bo_providerReference op = Some pc) (db_billingOperations d)"
  from run obtain cand where cand: "?F = [cand]"
    and lo: "link_operation pc rid cand d = Inr link"
    by (auto simp: correlate_and_lock_charge_purchase_def split: list.splits if_splits)
  then have mem: "cand \<in> set (db_billingOperations d)" by (auto simp: filter_eq_Cons_iff)
  with keys have find: "find_row (\<lambda>x. bo_id x = bo_id cand) (db_billingOperations d) = Some cand" by (intro find_row_key) auto
  from lo obtain s where u: "operation_usable pc rid s cand" and lp: "link_purchase s cand d = Inr link"
    by (auto simp: link_operation_def find split: option.splits if_splits)
  from u obtain p where p: "bo_recoveryCreditPurchaseId cand = Some p" by (auto simp: operation_usable_def truthy_def split: option.splits)
  from lp obtain l where l: "find_lot_by_id d p = Some l" "lot_shopId l = sh_id s" "0 < lot_creditsGranted l"
    and link: "link = \<lparr>cl_shop = s, cl_operation = cand, cl_purchase = l,
                    cl_counter = find_shop_counter d (sh_id s) PURCHASED_RECOVERY_CREDITS\<rparr>"
    by (auto simp: link_purchase_def p split: option.splits if_splits)
  from find_lot_by_id_SomeD [OF l(1)] l(2,3) mem p cand show "linked link pc d" by (simp add: linked_def link)
  from u show "truthy rid \<Longrightarrow> rid = Some (bo_id (cl_operation link))" by (simp add: operation_usable_def link)
qed

section \<open>Activation and the ledger\<close>

lemma first_counter_granted: "first_purchased_counter i s n = granted_counter n (new_shop_counter i s PURCHASED_RECOVERY_CREDITS)"
  by (simp add: first_purchased_counter_def granted_counter_def new_shop_counter_def)

lemma ledger_activation:
  assumes ok: "ledger_ok d" and c: "c \<in> set (db_shopCounters d)" "sc_counter c = PURCHASED_RECOVERY_CREDITS"
    and l: "l \<in> set (db_lots d)" "lot_shopId l = sc_shopId c" "is_pristine_requested_purchase l" "0 < lot_creditsGranted l"
    and tabs: "db_shopCounters d' = update_key sc_id (sc_id c) (granted_counter (lot_creditsGranted l)) (db_shopCounters d)"
      "db_lots d' = update_key lot_id (lot_id l) (activated_lot pc e sn at (lot_creditsGranted l)) (db_lots d)"
      "db_reservations d' = db_reservations d" "db_periodCounters d' = db_periodCounters d" "db_grants d' = db_grants d"
  shows "ledger_ok d'"
proof -
  let ?h = "\<lambda>x. (activated_lot pc e sn at (lot_creditsGranted l) x)\<lparr>lot_reservedAmount := lot_reservedAmount x\<rparr>"
  have l0: "lot_reservedAmount l = 0" "lot_currentAmount l = 0" "lot_status l = REQUESTED"
    using l(3) by (simp_all add: is_pristine_requested_purchase_def)
  have "update_key lot_id (lot_id l) (activated_lot pc e sn at (lot_creditsGranted l)) (db_lots d)
      = update_key lot_id (lot_id l) ?h (db_lots d)"
  proof (rule update_key_cong)
    fix x assume "x \<in> set (db_lots d)" "lot_id x = lot_id l"
    with key_inj [OF ledger_keys(6) [OF ok] l(1)] have "x = l" by blast
    with l0 show "activated_lot pc e sn at (lot_creditsGranted l) x = ?h x" by (simp add: activated_lot_def)
  qed
  with tabs(2) have lots: "db_lots d' = update_key lot_id (lot_id l) ?h (db_lots d)" by simp
  show ?thesis
    by (rule ledger_pool_move [OF ok c l(1,2) tabs(1) lots tabs(3-5)])
      (use l(4) l0 in \<open>simp_all add: granted_counter_def activated_lot_def lot_hold_def lot_ok_def\<close>)
qed

text \<open>What an activation leaves behind; the counter is the one of the shop, created when it had none.\<close>

definition granted_to_shop :: "id \<Rightarrow> int \<Rightarrow> db \<Rightarrow> db \<Rightarrow> bool" where
  "granted_to_shop s n d d' \<longleftrightarrow>
     (case find_shop_counter d s PURCHASED_RECOVERY_CREDITS of
        Some c \<Rightarrow> find_shop_counter d' s PURCHASED_RECOVERY_CREDITS = Some (granted_counter n c)
      | None \<Rightarrow> \<exists>i. find_shop_counter d' s PURCHASED_RECOVERY_CREDITS = Some (first_purchased_counter i s n))"

definition activated :: "charge_link \<Rightarrow> string \<Rightarrow> payment_evidence \<Rightarrow> time \<Rightarrow> db \<Rightarrow> db \<Rightarrow> bool" where
  "activated link pc e at d d' \<longleftrightarrow>
     db_lots d' = update_key lot_id (lot_id (cl_purchase link))
       (activated_lot pc e (link_snapshot link e) at (lot_creditsGranted (cl_purchase link))) (db_lots d) \<and>
     db_billingOperations d' = update_key bo_id (bo_id (cl_operation link))
       (\<lambda>op. op\<lparr>bo_state := CONFIRMED, bo_lastErrorCode := None\<rparr>) (db_billingOperations d) \<and>
     granted_to_shop (sh_id (cl_shop link)) (lot_creditsGranted (cl_purchase link)) d d'"

lemma find_updated_counter:
  assumes ok: "ledger_ok d" and f: "find_shop_counter d s k = Some c"
    and g: "\<And>x. sc_shopId (g x) = sc_shopId x \<and> sc_counter (g x) = sc_counter x"
  shows "find_row (\<lambda>x. sc_shopId x = s \<and> sc_counter x = k) (update_key sc_id (sc_id c) g (db_shopCounters d)) = Some (g c)"
proof (rule find_row_unique)
  note c = find_shop_counter_SomeD [OF f]
  show "g c \<in> set (update_key sc_id (sc_id c) g (db_shopCounters d))" using c by (auto simp: set_update_key)
  show "sc_shopId (g c) = s \<and> sc_counter (g c) = k" using c g by simp
  fix x assume x: "x \<in> set (update_key sc_id (sc_id c) g (db_shopCounters d))" "sc_shopId x = s \<and> sc_counter x = k"
  then obtain y where y: "y \<in> set (db_shopCounters d)" "x = (if sc_id y = sc_id c then g y else y)" by (auto simp: set_update_key)
  with x(2) g have "sc_shopId y = s" "sc_counter y = k" by (auto split: if_splits)
  with y(1) c have "y = c"
    using key_inj [where key = "\<lambda>c. (sc_shopId c, sc_counter c)", OF ledger_keys(7) [OF ok], of c y] by simp
  with y show "x = g c" by simp
qed

lemma grant_purchased_credits_InrD:
  assumes ok: "ledger_ok d" and link: "cl_counter link = find_shop_counter d (sh_id (cl_shop link)) PURCHASED_RECOVERY_CREDITS"
    and run: "grant_purchased_credits i link d = Inr d'"
  shows "\<exists>cs. d' = d\<lparr>db_shopCounters := cs\<rparr>" 
    "granted_to_shop (sh_id (cl_shop link)) (lot_creditsGranted (cl_purchase link)) d d'"
    "\<exists>d0 c. ledger_ok d0 \<and> (\<exists>cs. d0 = d\<lparr>db_shopCounters := cs\<rparr>) \<and> c \<in> set (db_shopCounters d0) \<and>
       sc_counter c = PURCHASED_RECOVERY_CREDITS \<and> sc_shopId c = sh_id (cl_shop link) \<and>
       db_shopCounters d' = update_key sc_id (sc_id c) (granted_counter (lot_creditsGranted (cl_purchase link))) (db_shopCounters d0)"
proof -
  let ?n = "lot_creditsGranted (cl_purchase link)" and ?s = "sh_id (cl_shop link)"
  have main: "(\<exists>cs. d' = d\<lparr>db_shopCounters := cs\<rparr>) \<and> granted_to_shop ?s ?n d d' \<and>
    (\<exists>d0 c. ledger_ok d0 \<and> (\<exists>cs. d0 = d\<lparr>db_shopCounters := cs\<rparr>) \<and> c \<in> set (db_shopCounters d0) \<and>
       sc_counter c = PURCHASED_RECOVERY_CREDITS \<and> sc_shopId c = ?s \<and>
       db_shopCounters d' = update_key sc_id (sc_id c) (granted_counter ?n) (db_shopCounters d0))"
  proof (cases "cl_counter link")
    case (Some c)
    with link have f: "find_shop_counter d ?s PURCHASED_RECOVERY_CREDITS = Some c" by simp
    note c = find_shop_counter_SomeD [OF f]
    obtain n cs where u: "update_many (\<lambda>x. sc_id x = sc_id c \<and> sc_version x = sc_version c \<and>
        sc_counter x = PURCHASED_RECOVERY_CREDITS) (granted_counter ?n) (db_shopCounters d) = (n, cs)" by (rule prod.exhaust)
    with run Some have n: "n = 1" "d' = d\<lparr>db_shopCounters := cs\<rparr>" by (auto simp: grant_purchased_credits_def result_iffs)
    have cs: "cs = update_key sc_id (sc_id c) (granted_counter ?n) (db_shopCounters d)"
      by (rule update_many_one [where key = sc_id, OF u n(1) ledger_keys(3) [OF ok]])
    have "find_row (\<lambda>x. sc_shopId x = ?s \<and> sc_counter x = PURCHASED_RECOVERY_CREDITS) cs = Some (granted_counter ?n c)"
      unfolding cs by (rule find_updated_counter [OF ok f]) (simp add: granted_counter_def)
    with f n(2) have "granted_to_shop ?s ?n d d'" by (simp add: granted_to_shop_def find_shop_counter_def)
    moreover have "\<exists>cs. d = d\<lparr>db_shopCounters := cs\<rparr>" by (rule exI [of _ "db_shopCounters d"]) simp
    ultimately show ?thesis using ok c n(2) cs by auto
  next
    case None
    with link have f: "find_shop_counter d ?s PURCHASED_RECOVERY_CREDITS = None" by simp
    let ?new = "new_shop_counter i ?s PURCHASED_RECOVERY_CREDITS"
    from run None obtain x cs where cr: "create_row shop_counter_clash (granted_counter ?n ?new) (db_shopCounters d) = Inr (x, cs)"
      and d': "d' = d\<lparr>db_shopCounters := cs\<rparr>"
      by (auto simp: grant_purchased_credits_def and_then_Inr first_counter_granted)
    from create_row_InrD [OF cr] have cs: "cs = db_shopCounters d @ [granted_counter ?n ?new]"
      and clash: "\<And>y. y \<in> set (db_shopCounters d) \<Longrightarrow> \<not> shop_counter_clash (granted_counter ?n ?new) y" by auto
    have "create_row shop_counter_clash ?new (db_shopCounters d) = Inr (?new, db_shopCounters d @ [?new])"
      using clash by (auto simp: create_row_def list_ex_iff shop_counter_clash_def granted_counter_def)
    from ledger_new_counter [OF ok this] have "ledger_ok (d\<lparr>db_shopCounters := db_shopCounters d @ [?new]\<rparr>)" .
    moreover have "cs = update_key sc_id i (granted_counter ?n) (db_shopCounters d @ [?new])"
    proof -
      have "sc_id y \<noteq> i" if "y \<in> set (db_shopCounters d)" for y
        using clash [OF that] by (auto simp: shop_counter_clash_def granted_counter_def new_shop_counter_def)
      then have "update_key sc_id i (granted_counter ?n) (db_shopCounters d) = db_shopCounters d" by (rule update_key_fresh)
      then show ?thesis by (simp add: cs update_key_append) (simp add: update_key_def new_shop_counter_def)
    qed
    moreover have "granted_to_shop ?s ?n d d'"
    proof -
      from f have "find_shop_counter d' ?s PURCHASED_RECOVERY_CREDITS = Some (first_purchased_counter i ?s ?n)"
        by (simp add: find_shop_counter_def d' cs first_counter_granted find_row_snoc_None granted_counter_def new_shop_counter_def)
      with f show ?thesis by (auto simp: granted_to_shop_def)
    qed
    ultimately show ?thesis using d'
      by (auto intro!: exI [of _ "d\<lparr>db_shopCounters := db_shopCounters d @ [?new]\<rparr>"] exI [of _ ?new] simp: new_shop_counter_def)
  qed
  then show "\<exists>cs. d' = d\<lparr>db_shopCounters := cs\<rparr>" "granted_to_shop ?s ?n d d'"
    "\<exists>d0 c. ledger_ok d0 \<and> (\<exists>cs. d0 = d\<lparr>db_shopCounters := cs\<rparr>) \<and> c \<in> set (db_shopCounters d0) \<and>
       sc_counter c = PURCHASED_RECOVERY_CREDITS \<and> sc_shopId c = ?s \<and>
       db_shopCounters d' = update_key sc_id (sc_id c) (granted_counter ?n) (db_shopCounters d0)"
    by blast+
qed

lemma activate_purchase_InrD:
  assumes ok: "ledger_ok d" and keys: "distinct (map bo_id (db_billingOperations d))" and link: "linked link pc d"
    and pristine: "is_pristine_requested_purchase (cl_purchase link)"
    and run: "activate_purchase i link pc at e d = Inr (t, d')"
  shows "t = Inr Charge_Activated" "ledger_ok d'" "activated link pc e at d d'"
    "db_billingReceipts d' = db_billingReceipts d" "db_refunds d' = db_refunds d"
proof -
  note l = linkedD [OF link]
  let ?l = "cl_purchase link"
  let ?h = "activated_lot pc e (link_snapshot link e) at (lot_creditsGranted ?l)"
  let ?d1 = "d\<lparr>db_lots := update_key lot_id (lot_id ?l) ?h (db_lots d)\<rparr>"
  have hit: "update_many (\<lambda>x. lot_id x = lot_id ?l \<and> lot_version x = lot_version ?l \<and> is_pristine_requested_purchase x) ?h (db_lots d)
      = (1, update_key lot_id (lot_id ?l) ?h (db_lots d))"
    by (rule update_many_hit [where key = lot_id, OF ledger_keys(6) [OF ok] l(1) refl]) (simp add: pristine)
  from run obtain d2 where g: "grant_purchased_credits i link ?d1 = Inr d2"
    by (auto simp: activate_purchase_def Let_def hit result_iffs)
  obtain m ops where um: "update_unresolved (bo_id (cl_operation link)) CONFIRMED None d2 = (m, ops)" by (rule prod.exhaust)
  from run have u: "m = 1" and out: "t = Inr Charge_Activated" "d' = d2\<lparr>db_billingOperations := ops\<rparr>"
    by (simp_all add: activate_purchase_def Let_def hit result_iffs g um)
  have sim: "grant_purchased_credits i link (x\<lparr>db_lots := ls\<rparr>) = map_sum id (\<lambda>y. y\<lparr>db_lots := ls\<rparr>) (grant_purchased_credits i link x)"
    for x ls
    by (auto simp: grant_purchased_credits_def Let_def and_then_def require_def split: option.splits prod.splits sum.splits)
  from g obtain d0 where g0: "grant_purchased_credits i link d = Inr d0" and d2: "d2 = d0\<lparr>db_lots := db_lots ?d1\<rparr>"
    unfolding sim by (cases "grant_purchased_credits i link d") auto
  note grant = grant_purchased_credits_InrD [OF ok l(6) g0]
  from grant(1) d2 out(2) have frame: "db_lots d' = db_lots ?d1" "db_reservations d' = db_reservations d"
    "db_periodCounters d' = db_periodCounters d" "db_grants d' = db_grants d" "db_shopCounters d' = db_shopCounters d0"
    "db_billingReceipts d' = db_billingReceipts d" "db_billingOperations d2 = db_billingOperations d" "db_refunds d' = db_refunds d"
    by auto
  from grant(3) obtain d3 c where d3: "ledger_ok d3" "\<exists>cs. d3 = d\<lparr>db_shopCounters := cs\<rparr>" "c \<in> set (db_shopCounters d3)"
    "sc_counter c = PURCHASED_RECOVERY_CREDITS" "sc_shopId c = sh_id (cl_shop link)"
    "db_shopCounters d0 = update_key sc_id (sc_id c) (granted_counter (lot_creditsGranted ?l)) (db_shopCounters d3)" by blast
  from d3(2) have d3': "db_lots d3 = db_lots d" "db_reservations d3 = db_reservations d"
    "db_periodCounters d3 = db_periodCounters d" "db_grants d3 = db_grants d" by auto
  show "ledger_ok d'"
    by (rule ledger_activation [OF d3(1,3,4) _ _ pristine l(3)])
      (use l(1,2) d3(5,6) frame in \<open>simp_all add: d3'\<close>)
  have "ops = update_key bo_id (bo_id (cl_operation link)) (\<lambda>op. op\<lparr>bo_state := CONFIRMED, bo_lastErrorCode := None\<rparr>) (db_billingOperations d)"
    by (rule update_many_one [where key = bo_id, OF um [unfolded update_unresolved_def frame(7)] u keys])
  moreover have "granted_to_shop (sh_id (cl_shop link)) (lot_creditsGranted ?l) d d'"
  proof -
    have "find_shop_counter d' s k = find_shop_counter d0 s k" for s k by (simp add: find_shop_counter_def frame(5))
    with grant(2) show ?thesis by (simp add: granted_to_shop_def split: option.splits)
  qed
  ultimately show "activated link pc e at d d'" using frame(1) out(2) by (simp add: activated_def)
  show "t = Inr Charge_Activated" "db_billingReceipts d' = db_billingReceipts d" "db_refunds d' = db_refunds d"
    using out frame by simp_all
qed

section \<open>What a receipt does\<close>

definition charge_failed :: "charge_link \<Rightarrow> db \<Rightarrow> db" where
  "charge_failed link d = d\<lparr>db_billingOperations := update_key bo_id (bo_id (cl_operation link))
     (\<lambda>op. op\<lparr>bo_state := FAILED, bo_lastErrorCode := Some canceled_before_activation\<rparr>) (db_billingOperations d)\<rparr>"

text \<open>
  A transition activates the purchase of an unresolved operation, or fails an unresolved operation,
  or changes nothing.
\<close>

lemma transition_charge_InrD:
  assumes ok: "ledger_ok d" and keys: "distinct (map bo_id (db_billingOperations d))" and link: "linked link pc d"
    and run: "transition_charge_purchase i link topic pc at ev d = Inr (t, d')"
  shows "(t = Inr Charge_Activated \<and> topic = activated_topic \<and> unresolved (bo_state (cl_operation link)) \<and>
           is_pristine_requested_purchase (cl_purchase link) \<and> ledger_ok d' \<and> db_billingReceipts d' = db_billingReceipts d \<and>
           (\<exists>e. ev = Some e \<and> activated link pc e at d d')) \<or>
         (t = Inr Charge_Canceled \<and> topic \<noteq> activated_topic \<and> unresolved (bo_state (cl_operation link)) \<and>
           is_pristine_requested_purchase (cl_purchase link) \<and> d' = charge_failed link d) \<or>
         (t \<noteq> Inr Charge_Activated \<and> d' = d)"
proof (cases "topic = activated_topic")
  case True
  show ?thesis
  proof (cases "bo_state (cl_operation link) \<noteq> CONFIRMED \<and> unresolved (bo_state (cl_operation link)) \<and>
      is_pristine_requested_purchase (cl_purchase link) \<and>
      \<not> (case cl_counter link of None \<Rightarrow> False | Some c \<Rightarrow> \<not> is_valid_counter c) \<and> ev \<noteq> None")
    case True
    then obtain e where e: "ev = Some e" by blast
    with True run \<open>topic = _\<close> have "activate_purchase i link pc at e d = Inr (t, d')"
      by (auto simp: transition_charge_purchase_def Let_def)
    from activate_purchase_InrD [OF ok keys link _ this] True e \<open>topic = _\<close> show ?thesis by blast
  next
    case False
    with run \<open>topic = _\<close> show ?thesis
      by (auto simp: transition_charge_purchase_def Let_def split: if_splits option.splits)
  qed
next
  case False
  with run have t: "terminate_unactivated_charge link pc d = (t, d')" by (simp add: transition_charge_purchase_def Let_def)
  show ?thesis
  proof (cases "unresolved (bo_state (cl_operation link)) \<and> is_pristine_requested_purchase (cl_purchase link)")
    case True
    then have "update_unresolved (bo_id (cl_operation link)) FAILED (Some canceled_before_activation) d =
        (1, db_billingOperations (charge_failed link d))"
      using update_many_hit [where key = bo_id, OF keys linkedD(4) [OF link] refl]
      by (simp add: update_unresolved_def charge_failed_def)
    with True t False show ?thesis
      by (auto simp: terminate_unactivated_charge_def Let_def unresolved_def terminal_purchase_def
          is_pristine_requested_purchase_def charge_failed_def)
  next
    case no: False
    with t False show ?thesis by (auto simp: terminate_unactivated_charge_def Let_def split: if_splits)
  qed
qed

definition charges_ok :: "db \<Rightarrow> bool" where
  "charges_ok d \<longleftrightarrow> ledger_ok d \<and> distinct (map bo_id (db_billingOperations d)) \<and> distinct (map wr_id (db_billingReceipts d))"

lemma charge_failed_simps [simp]:
  "db_lots (charge_failed link d) = db_lots d" "db_shopCounters (charge_failed link d) = db_shopCounters d"
  "db_billingReceipts (charge_failed link d) = db_billingReceipts d"
  by (simp_all add: charge_failed_def)

lemma charge_failed_ok: "charges_ok d \<Longrightarrow> charges_ok (charge_failed link d)"
  by (auto simp: charges_ok_def charge_failed_def map_update_key elim: ledger_frame)

lemma activated_ok:
  assumes "charges_ok d" "ledger_ok d'" "activated link pc e at d d'" "db_billingReceipts d' = db_billingReceipts d"
  shows "charges_ok d'"
  using assms by (simp add: charges_ok_def activated_def map_update_key)

lemma receipts_updated_ok:
  "charges_ok d \<Longrightarrow> (\<And>x. wr_id (f x) = wr_id x) \<Longrightarrow> charges_ok (d\<lparr>db_billingReceipts := update_key wr_id i f (db_billingReceipts d)\<rparr>)"
  by (auto simp: charges_ok_def map_update_key elim: ledger_frame)

text \<open>The effect of a receipt on the tables other than the receipts.\<close>

definition charge_effect :: "billing_receipt \<Rightarrow> charge_outcome \<Rightarrow> db \<Rightarrow> db \<Rightarrow> bool" where
  "charge_effect r out d d1 \<longleftrightarrow>
     (\<exists>link pc e. out = Charge_Processed Charge_Activated (Some (sh_id (cl_shop link), lot_id (cl_purchase link))) \<and>
        wr_providerContractId r = Some pc \<and> wr_topic r = activated_topic \<and> linked link pc d \<and>
        unresolved (bo_state (cl_operation link)) \<and> is_pristine_requested_purchase (cl_purchase link) \<and>
        activated link pc e (wr_receivedAt r) d d1) \<or>
     (\<exists>link pc. out = Charge_Processed Charge_Canceled None \<and> wr_providerContractId r = Some pc \<and>
        wr_topic r \<noteq> activated_topic \<and> linked link pc d \<and> unresolved (bo_state (cl_operation link)) \<and>
        is_pristine_requested_purchase (cl_purchase link) \<and> d1 = charge_failed link d) \<or>
     ((\<forall>s. out \<noteq> Charge_Processed Charge_Activated s) \<and> d1 = d)"

definition receipt_settled :: "billing_receipt \<Rightarrow> charge_outcome \<Rightarrow> db \<Rightarrow> db \<Rightarrow> db \<Rightarrow> bool" where
  "receipt_settled r out d d1 d' \<longleftrightarrow>
     (\<exists>g. d' = d1\<lparr>db_billingReceipts := update_key wr_id (wr_id r) g (db_billingReceipts d)\<rparr> \<and>
        (\<forall>x. wr_id (g x) = wr_id x \<and> handled (g x) \<and>
          (wr_processedAt (g x) \<noteq> None \<longleftrightarrow> wr_processedAt x \<noteq> None \<or> (\<exists>t s. out = Charge_Processed t s))))"

lemma charge_retryable_InrD:
  assumes keys: "distinct (map wr_id (db_billingReceipts d1))" and same: "db_billingReceipts d1 = db_billingReceipts d"
    and run: "charge_retryable r code op d1 = Inr (x, d')"
  shows "x = Some (Charge_Retryable code, receipt_cursor r) \<and> receipt_settled r (Charge_Retryable code) d d1 d'"
proof -
  from run obtain d2 where d2: "record_charge_receipt_error (wr_id r) code op d1 = Inr d2"
    and x: "x = Some (Charge_Retryable code, receipt_cursor r)" "d' = d2"
    by (auto simp: charge_retryable_def and_then_Inr)
  from update_receipt_InrD [OF d2 [unfolded record_charge_receipt_error_def] keys] x same
  show ?thesis by (auto simp: receipt_settled_def receipt_failed_def handled_def intro!: exI [of _ "receipt_failed code op"])
qed

lemma process_charge_receipt_InrD:
  assumes ok: "charges_ok d" and run: "process_charge_receipt decimalOf i now r d = Inr (x, d')"
  shows "\<exists>out d1. x = Some (out, receipt_cursor r) \<and> charge_effect r out d d1 \<and> charges_ok d1 \<and>
    db_billingReceipts d1 = db_billingReceipts d \<and> receipt_settled r out d d1 d'"
proof -
  let ?G = "\<lambda>out d1. x = Some (out, receipt_cursor r) \<and> charge_effect r out d d1 \<and> charges_ok d1 \<and>
    db_billingReceipts d1 = db_billingReceipts d \<and> receipt_settled r out d d1 d'"
  have keys: "distinct (map wr_id (db_billingReceipts d))" "ledger_ok d" "distinct (map bo_id (db_billingOperations d))"
    using ok by (simp_all add: charges_ok_def)
  have retry: "?G (Charge_Retryable code) d1"
    if "charge_retryable r code op d1 = Inr (x, d')" "d1 = d" for code op d1
    using charge_retryable_InrD [OF _ _ that(1)] keys(1) ok that(2) by (simp add: charge_effect_def)
  show ?thesis
  proof (cases "\<exists>code op. charge_retryable r code op d = Inr (x, d')")
    case True
    with retry show ?thesis by blast
  next
    case False
    with run obtain charge pc link where pc: "wr_providerContractId r = Some pc"
      and cor: "correlate_and_lock_charge_purchase pc (wr_billingOperationId r) d = Inr link"
      and run1: "process_charge_link decimalOf i now r charge pc link d = Inr (x, d')"
      by (auto simp: process_charge_receipt_def split: sum.splits option.splits)
    note link = correlate_InrD(1) [OF cor keys(3)]
    from run1 False obtain ev t d1 where
      t: "transition_charge_purchase i link (wr_topic r) pc (wr_receivedAt r) ev d = Inr (t, d1)"
      and rest: "finish_charge_transition now r link t d1 = Inr (x, d')"
      by (cases "parse_charge_payment_evidence decimalOf charge")
        (force simp: process_charge_link_def Let_def and_then_Inr split: if_splits prod.splits)+
    note step = transition_charge_InrD [OF keys(2,3) link t]
    have ok1: "charges_ok d1" "db_billingReceipts d1 = db_billingReceipts d"
      using step ok charge_failed_ok [OF ok] activated_ok [OF ok] by auto
    show ?thesis
    proof (cases t)
      case (Inl code)
      with step have "d1 = d" by auto
      with rest Inl have "charge_retryable r code (Some (bo_id (cl_operation link))) d = Inr (x, d')"
        by (simp add: finish_charge_transition_def Let_def)
      with False show ?thesis by blast
    next
      case (Inr tr)
      with rest obtain d2 where c: "complete_charge_receipt (wr_id r) now (bo_id (cl_operation link)) d1 = Inr d2" and d2: "d' = d2"
        and x: "x = Some (Charge_Processed tr (if tr = Charge_Activated then Some (sh_id (cl_shop link), lot_id (cl_purchase link)) else None),
          receipt_cursor r)"
        by (auto simp: finish_charge_transition_def Let_def and_then_Inr)
      let ?out = "Charge_Processed tr (if tr = Charge_Activated then Some (sh_id (cl_shop link), lot_id (cl_purchase link)) else None)"
      from update_receipt_InrD [OF c [unfolded complete_charge_receipt_def]] ok1 keys(1) d2
      have "receipt_settled r ?out d d1 d'"
        by (auto simp: receipt_settled_def receipt_done_def handled_def intro!: exI [of _ "receipt_done now (bo_id (cl_operation link))"])
      moreover have "charge_effect r ?out d d1" using step Inr pc link by (auto simp: charge_effect_def)
      ultimately show ?thesis using x ok1 by blast
    qed
  qed
qed

section \<open>The processor as a queue\<close>

definition env_keeps :: "(db \<Rightarrow> bool) \<Rightarrow> (nat \<Rightarrow> db env) \<Rightarrow> bool" where
  "env_keeps I E \<longleftrightarrow> (\<forall>i n s. I s \<longrightarrow> I (env_step (E i) n s))"

definition quiet_env :: "(nat \<Rightarrow> nat \<Rightarrow> id) \<Rightarrow> db env" where
  "quiet_env ids = \<lparr>env_step = (\<lambda>_ s. s), env_abort = (\<lambda>_. None), env_now = (\<lambda>_. 0), env_ids = ids\<rparr>"

lemma receipt_settled_ok:
  assumes "charges_ok d1" "db_billingReceipts d1 = db_billingReceipts d" "receipt_settled r out d d1 d'"
  shows "charges_ok d'"
proof -
  from assms(3) obtain g where "d' = d1\<lparr>db_billingReceipts := update_key wr_id (wr_id r) g (db_billingReceipts d)\<rparr>"
    "\<And>x. wr_id (g x) = wr_id x" unfolding receipt_settled_def by blast
  with receipts_updated_ok [OF assms(1), of g "wr_id r"] assms(2) show ?thesis by simp
qed

lemma charge_transaction_InrD:
  assumes ok: "charges_ok d" and run: "charge_transaction decimalOf idLess locked i now c d = Inr (x, d')"
  shows "charges_ok d'"
    "(x = None \<and> d' = d \<and> claim_receipt idLess locked CHARGE_TOPICS c d = None) \<or>
     (\<exists>r out d1. claim_receipt idLess locked CHARGE_TOPICS c d = Some r \<and> x = Some (out, receipt_cursor r) \<and>
        charge_effect r out d d1 \<and> receipt_settled r out d d1 d')"
proof -
  have "charges_ok d' \<and> ((x = None \<and> d' = d \<and> claim_receipt idLess locked CHARGE_TOPICS c d = None) \<or>
     (\<exists>r out d1. claim_receipt idLess locked CHARGE_TOPICS c d = Some r \<and> x = Some (out, receipt_cursor r) \<and>
        charge_effect r out d d1 \<and> receipt_settled r out d d1 d'))"
  proof (cases "claim_receipt idLess locked CHARGE_TOPICS c d")
    case None
    with run ok show ?thesis by (simp add: charge_transaction_def)
  next
    case (Some r)
    with run have "process_charge_receipt decimalOf i now r d = Inr (x, d')" by (simp add: charge_transaction_def)
    from process_charge_receipt_InrD [OF ok this] Some receipt_settled_ok show ?thesis by blast
  qed
  then show "charges_ok d'"
    "(x = None \<and> d' = d \<and> claim_receipt idLess locked CHARGE_TOPICS c d = None) \<or>
     (\<exists>r out d1. claim_receipt idLess locked CHARGE_TOPICS c d = Some r \<and> x = Some (out, receipt_cursor r) \<and>
        charge_effect r out d d1 \<and> receipt_settled r out d d1 d')" by blast+
qed

lemma charge_attempt_keeps:
  assumes "charges_ok d" "env_keeps charges_ok E"
  shows "charges_ok (snd (charge_attempt decimalOf idLess E locked clock i c d))"
  unfolding charge_attempt_def process_next_woo_charge_receipt_def
proof (rule attempt_up_to_invariant [where I = charges_ok, OF assms(1)])
  show "charges_ok s \<Longrightarrow> charges_ok (env_step (E i) n s)" for n s using assms(2) by (simp add: env_keeps_def)
qed (rule charge_transaction_InrD(1))

lemma charge_attempt_InrD:
  assumes "charges_ok d" "env_keeps charges_ok E" "charge_attempt decimalOf idLess E locked clock i c d = (Inr x, d')"
  shows "\<exists>n s. charges_ok s \<and> charge_transaction decimalOf idLess (locked i n) (env_ids (E i) n 0) (clock i) c s = Inr (x, d')"
proof (rule attempt_up_to_InrD [where I = charges_ok, OF assms(3) [unfolded charge_attempt_def process_next_woo_charge_receipt_def] assms(1)])
  show "charges_ok s \<Longrightarrow> charges_ok (env_step (E i) n s)" for n s using assms(2) by (simp add: env_keeps_def)
qed

interpretation charge_queue: receipt_processor "charge_attempt decimalOf idLess E locked clock" idLess
    "\<lambda>d. charges_ok d \<and> env_keeps charges_ok E" for decimalOf idLess E locked clock
proof
  show "charges_ok (snd (charge_attempt decimalOf idLess E locked clock i c d)) \<and> env_keeps charges_ok E"
    if "charges_ok d \<and> env_keeps charges_ok E" for d i c
    using that charge_attempt_keeps by blast
  show "case c of None \<Rightarrow> True | Some x \<Rightarrow> cursor_less idLess x k"
    if "charges_ok d \<and> env_keeps charges_ok E" "collation idLess"
      "charge_attempt decimalOf idLess E locked clock i c d = (Inr (Some (a, k)), d')" for d i c a k d'
  proof -
    from charge_attempt_InrD [OF _ _ that(3)] that(1) obtain n s where "charges_ok s"
      "charge_transaction decimalOf idLess (locked i n) (env_ids (E i) n 0) (clock i) c s = Inr (Some (a, k), d')" by blast
    from charge_transaction_InrD(2) [OF this] obtain r where
      r: "claim_receipt idLess (locked i n) CHARGE_TOPICS c s = Some r" "k = receipt_cursor r" by blast
    from claim_receipt_SomeD(3) [OF that(2) r(1)] r(2) show ?thesis by (auto simp: after_cursor_def split: option.splits)
  qed
qed

lemma quiet_charge_attempt_InrD:
  assumes "charge_attempt decimalOf idLess (\<lambda>i. quiet_env (ids i)) (\<lambda>_ _ _. False) clock i c d = (Inr x, d')"
  shows "\<exists>n. charge_transaction decimalOf idLess (\<lambda>_. False) (ids i n 0) (clock i) c d = Inr (x, d')"
proof -
  from attempt_up_to_InrD [where I = "\<lambda>s. s = d", OF assms [unfolded charge_attempt_def process_next_woo_charge_receipt_def]]
  show ?thesis by (auto simp: quiet_env_def)
qed

lemma quiet_env_keeps: "env_keeps I (\<lambda>i. quiet_env (ids i))"
  by (simp add: env_keeps_def quiet_env_def)

interpretation undisturbed_charge_queue: undisturbed_receipt_processor
    "charge_attempt decimalOf idLess (\<lambda>i. quiet_env (ids i)) (\<lambda>_ _ _. False) clock" idLess charges_ok CHARGE_TOPICS
    for decimalOf idLess ids clock
proof (unfold_locales, goal_cases)
  case 1
  then show ?case by (rule charge_attempt_keeps [OF _ quiet_env_keeps])
next
  case 2
  with charge_queue.advances [OF conjI [OF _ quiet_env_keeps]] show ?case by blast
next
  case 3
  then show ?case by (simp add: charges_ok_def)
next
  case (4 d i c d')
  from quiet_charge_attempt_InrD [OF 4(2)] charge_transaction_InrD(2) [OF 4(1)] show ?case by blast
next
  case (5 d i c a k d')
  from quiet_charge_attempt_InrD [OF 5(2)] charge_transaction_InrD(2) [OF 5(1)] obtain r d1 where
    r: "claim_receipt idLess (\<lambda>_. False) CHARGE_TOPICS c d = Some r" "k = receipt_cursor r" "receipt_settled r a d d1 d'"
    by blast
  then obtain g where "d' = d1\<lparr>db_billingReceipts := update_key wr_id (wr_id r) g (db_billingReceipts d)\<rparr>"
    "\<And>x. wr_id (g x) = wr_id x \<and> handled (g x)" unfolding receipt_settled_def by blast
  with r show ?case by (intro exI [of _ r] exI [of _ g]) simp
qed

section \<open>Batches of charges\<close>

definition count_ok :: "charge_batch \<Rightarrow> bool" where
  "count_ok b \<longleftrightarrow> cb_claimed b = cb_processed b + cb_retryable b \<and> cb_activated b + cb_canceled b \<le> cb_processed b"

lemma count_charge_ok: "count_ok b \<Longrightarrow> count_ok (count_charge a b) \<and> cb_claimed (count_charge a b) = cb_claimed b + 1"
  by (auto simp: count_ok_def count_charge_def split: charge_outcome.split)

lemma fold_count_charge:
  "count_ok b \<Longrightarrow> count_ok (fold (\<lambda>(a, _). count_charge a) tr b) \<and>
     cb_claimed (fold (\<lambda>(a, _). count_charge a) tr b) = cb_claimed b + length tr"
proof (induction tr arbitrary: b)
  case (Cons x tr)
  obtain a c where x: "x = (a, c)" by (rule prod.exhaust)
  from count_charge_ok [OF Cons.prems] Cons.IH [of "count_charge a b"] show ?case by (simp add: x)
qed simp

lemma charge_batch_counts:
  assumes "reconcile_charge_batch decimalOf idLess E locked clock limit d = (Inr b, d')"
  shows "\<exists>n. batch_limit ''Woo charge receipt batch size must be between 1 and 50'' limit = Inr n \<and> n \<le> 50 \<and> count_ok b \<and>
    cb_claimed b = length (receipt_trace (charge_attempt decimalOf idLess E locked clock) n 0 None d) \<and> cb_claimed b \<le> n \<and>
    receipt_batch (charge_attempt decimalOf idLess E locked clock) count_charge n 0 None empty_charge_batch d = (Inr b, d')"
proof -
  from assms obtain n where n: "batch_limit ''Woo charge receipt batch size must be between 1 and 50'' limit = Inr n"
    and run: "receipt_batch (charge_attempt decimalOf idLess E locked clock) count_charge n 0 None empty_charge_batch d = (Inr b, d')"
    by (auto simp: reconcile_charge_batch_def split: sum.splits)
  have "count_ok empty_charge_batch" "cb_claimed empty_charge_batch = 0" by (simp_all add: empty_charge_batch_def count_ok_def)
  with fold_count_charge [of empty_charge_batch] receipt_batch_trace [OF run]
    receipt_trace_length [of "charge_attempt decimalOf idLess E locked clock" n 0 None d] n run
  show ?thesis by (auto simp: batch_limit_def MAX_WOO_RECEIPTS_PER_CYCLE_def split: js_number.splits if_splits)
qed

text \<open>A purchase is activated out of the requested ones, which no receipt adds to.\<close>

definition requested_ids :: "db \<Rightarrow> id set" where
  "requested_ids d = lot_id ` {l \<in> set (db_lots d). lot_status l = REQUESTED}"

fun activated_purchase :: "charge_outcome \<Rightarrow> id list" where
  "activated_purchase (Charge_Processed Charge_Activated (Some (s, l))) = [l]"
| "activated_purchase _ = []"

lemma requested_ids_iff: "i \<in> requested_ids d \<longleftrightarrow> (\<exists>l\<in>set (db_lots d). lot_id l = i \<and> lot_status l = REQUESTED)"
  by (auto simp: requested_ids_def)

lemma activated_requested:
  assumes "charges_ok d" "linked link pc d" "is_pristine_requested_purchase (cl_purchase link)" "activated link pc e at d d1"
  shows "requested_ids d1 = requested_ids d - {lot_id (cl_purchase link)}" "lot_id (cl_purchase link) \<in> requested_ids d"
proof -
  let ?l = "cl_purchase link"
  have l: "?l \<in> set (db_lots d)" "lot_status ?l = REQUESTED"
    using assms(2,3) by (auto simp: linked_def is_pristine_requested_purchase_def)
  then show "lot_id ?l \<in> requested_ids d" by (auto simp: requested_ids_def)
  from assms(4) have t: "db_lots d1 = update_key lot_id (lot_id ?l)
      (activated_lot pc e (link_snapshot link e) at (lot_creditsGranted ?l)) (db_lots d)" by (simp add: activated_def)
  show "requested_ids d1 = requested_ids d - {lot_id ?l}"
  proof (rule set_eqI)
    fix i
    let ?f = "activated_lot pc e (link_snapshot link e) at (lot_creditsGranted ?l)"
    have "lot_id (if lot_id x = lot_id ?l then ?f x else x) = i \<and> lot_status (if lot_id x = lot_id ?l then ?f x else x) = REQUESTED
        \<longleftrightarrow> (lot_id x = i \<and> lot_status x = REQUESTED) \<and> i \<noteq> lot_id ?l" for x
      by (auto simp: activated_lot_def)
    then show "i \<in> requested_ids d1 \<longleftrightarrow> i \<in> requested_ids d - {lot_id ?l}"
      by (auto simp: requested_ids_iff t update_key_def simp del: if_image_distrib)
  qed
qed

lemma charge_effect_requested:
  assumes "charges_ok d" "charge_effect r out d d1"
  shows "requested_ids d1 \<subseteq> requested_ids d" "set (activated_purchase out) \<subseteq> requested_ids d - requested_ids d1"
proof -
  have failed: "requested_ids (charge_failed link d) = requested_ids d" for link by (simp add: requested_ids_def)
  have "requested_ids d1 \<subseteq> requested_ids d \<and> set (activated_purchase out) \<subseteq> requested_ids d - requested_ids d1"
    using assms(2) unfolding charge_effect_def
  proof (elim disjE exE conjE)
    fix link pc e
    assume "out = Charge_Processed Charge_Activated (Some (sh_id (cl_shop link), lot_id (cl_purchase link)))" "linked link pc d"
      "is_pristine_requested_purchase (cl_purchase link)" "activated link pc e (wr_receivedAt r) d d1"
    with activated_requested [OF assms(1)] show ?thesis by simp
  next
    assume "\<forall>s. out \<noteq> Charge_Processed Charge_Activated s" "d1 = d"
    then have "activated_purchase out = []" by (cases out rule: activated_purchase.cases) auto
    with \<open>d1 = d\<close> show ?thesis by simp
  qed (simp add: failed)
  then show "requested_ids d1 \<subseteq> requested_ids d" "set (activated_purchase out) \<subseteq> requested_ids d - requested_ids d1" by simp_all
qed

lemma quiet_charge_step:
  assumes "charges_ok d"
    and "charge_attempt decimalOf idLess (\<lambda>i. quiet_env (ids i)) (\<lambda>_ _ _. False) clock i c d = (Inr (Some (a, k)), d')"
  shows "requested_ids d' \<subseteq> requested_ids d" "set (activated_purchase a) \<subseteq> requested_ids d - requested_ids d'"
proof -
  from quiet_charge_attempt_InrD [OF assms(2)] charge_transaction_InrD(2) [OF assms(1)] obtain r d1 where
    r: "charge_effect r a d d1" "receipt_settled r a d d1 d'" by blast
  have "requested_ids d' = requested_ids d1"
    using r(2) by (auto simp: receipt_settled_def requested_ids_def)
  with charge_effect_requested [OF assms(1) r(1)]
  show "requested_ids d' \<subseteq> requested_ids d" "set (activated_purchase a) \<subseteq> requested_ids d - requested_ids d'" by simp_all
qed

definition activated_in :: "(charge_outcome \<times> cursor) list \<Rightarrow> id list" where
  "activated_in tr = concat (map (activated_purchase \<circ> fst) tr)"

lemma quiet_batch_activations:
  assumes "charges_ok d"
  shows "distinct (activated_in (receipt_trace (charge_attempt decimalOf idLess (\<lambda>i. quiet_env (ids i)) (\<lambda>_ _ _. False) clock) left i c d)) \<and>
    set (activated_in (receipt_trace (charge_attempt decimalOf idLess (\<lambda>i. quiet_env (ids i)) (\<lambda>_ _ _. False) clock) left i c d))
      \<subseteq> requested_ids d"
  using assms
proof (induction left arbitrary: i c d)
  case (Suc left)
  let ?at = "charge_attempt decimalOf idLess (\<lambda>i. quiet_env (ids i)) (\<lambda>_ _ _. False) clock"
  obtain out d1 where out: "?at i c d = (out, d1)" by (rule prod.exhaust)
  show ?case
  proof (cases "\<exists>a k. out = Inr (Some (a, k))")
    case True
    then obtain a k where ak: "out = Inr (Some (a, k))" by blast
    with out have step: "?at i c d = (Inr (Some (a, k)), d1)" by simp
    have "charges_ok d1" using charge_attempt_keeps [OF Suc.prems quiet_env_keeps, of decimalOf idLess ids "\<lambda>_ _ _. False" clock i c] step by simp
    from Suc.IH [OF this, of "Suc i" "Some k"] quiet_charge_step [OF Suc.prems step]
    have ih: "distinct (activated_in (receipt_trace ?at left (Suc i) (Some k) d1))"
      "set (activated_in (receipt_trace ?at left (Suc i) (Some k) d1)) \<subseteq> requested_ids d1"
      "requested_ids d1 \<subseteq> requested_ids d" "set (activated_purchase a) \<subseteq> requested_ids d - requested_ids d1" by simp_all
    have "distinct (activated_purchase a)" by (cases a rule: activated_purchase.cases) auto
    with ih step show ?thesis by (auto simp: activated_in_def)
  next
    case False
    with out have "receipt_trace ?at (Suc left) i c d = []" by (auto split: sum.split option.split)
    then show ?thesis by (simp add: activated_in_def)
  qed
qed (simp add: activated_in_def)

end
