(* ===== verification/Woo_Refunds.thy ===== *)
theory Woo_Refunds
  imports Woo_Charges
begin

text \<open>
  The refunds WooCommerce confirms: what a refund receipt says of the money
  (\<open>charge-refund-evidence.ts\<close>), the settlement of the refund on the prepared hold
  (\<open>charge-refund-settlement.ts\<close>), and the processor and batch of these receipts. What JavaScript
  leaves to its library is a record of parameters: \<open>Date.parse\<close>, \<open>Number\<close>, \<open>localeCompare\<close> and the
  decimal of a text, with the sign a zero may carry.
\<close>

section \<open>Evidence\<close>

record js_library =
  date_parse :: "string \<Rightarrow> time option" \<comment> \<open>\<open>None\<close> when it is not finite\<close>
  js_to_number :: "json option \<Rightarrow> js_number"
  locale_compare :: "string \<Rightarrow> string \<Rightarrow> int"
  decimal_of :: "string \<Rightarrow> decimal option" \<comment> \<open>\<open>None\<close> when it throws or is not finite\<close>
  negative_zero :: "string \<Rightarrow> bool"

definition evidence_invalid :: string where
  "evidence_invalid = ''WOO_REFUND_CHARGE_EVIDENCE_INVALID''"

definition parse_bounded_money :: "js_library \<Rightarrow> json option \<Rightarrow> decimal option" where
  "parse_bounded_money J v =
     (case decimal_of J (string_of v) of
        None \<Rightarrow> None
      | Some a \<Rightarrow>
          if dec_negative a \<or> negative_zero J (string_of v) \<or> 1000000000 * 10 ^ dec_scale a < dec_coefficient a then None
          else if dec_coefficient a * 100 mod 10 ^ dec_scale a = 0 then Some a else None)"

definition compare_transaction_ids :: "js_library \<Rightarrow> json option \<Rightarrow> json option \<Rightarrow> int" where
  "compare_transaction_ids J l r =
     (case (js_to_number J l, js_to_number J r) of
        (JsInt m, JsInt n) \<Rightarrow>
          if is_safe_int m \<and> is_safe_int n then m - n else locale_compare J (string_of l) (string_of r)
      | _ \<Rightarrow> locale_compare J (string_of l) (string_of r))"

definition completed_time :: "js_library \<Rightarrow> json \<Rightarrow> time option" where
  "completed_time J t = (case json_field t ''completed_at'' of Some (JString s) \<Rightarrow> date_parse J s | _ \<Rightarrow> None)"

text \<open>The comparison \<open>sort\<close> is called with: later first, and of one time the greater id first.\<close>

definition compare_transactions :: "js_library \<Rightarrow> json \<Rightarrow> json \<Rightarrow> int" where
  "compare_transactions J l r =
     (let difference = the (completed_time J r) - the (completed_time J l) in
      if difference \<noteq> 0 then difference else compare_transaction_ids J (json_field r ''id'') (json_field l ''id''))"

text \<open>A stable sort by a comparison function.\<close>

primrec insert_by :: "('x \<Rightarrow> 'x \<Rightarrow> int) \<Rightarrow> 'x \<Rightarrow> 'x list \<Rightarrow> 'x list" where
  "insert_by cmp x [] = [x]"
| "insert_by cmp x (y # ys) = (if cmp x y \<le> 0 then x # y # ys else y # insert_by cmp x ys)"

primrec sort_by :: "('x \<Rightarrow> 'x \<Rightarrow> int) \<Rightarrow> 'x list \<Rightarrow> 'x list" where
  "sort_by cmp [] = []"
| "sort_by cmp (x # xs) = insert_by cmp x (sort_by cmp xs)"

definition read_latest_refund_amount :: "js_library \<Rightarrow> json option \<Rightarrow> decimal option" where
  "read_latest_refund_amount J v =
     (case sort_by (compare_transactions J)
         (filter (\<lambda>t. is_record t \<and> completed_time J t \<noteq> None \<and> json_field t ''amount_refunded'' \<noteq> None) (json_array v)) of
        [] \<Rightarrow> None
      | latest # _ \<Rightarrow> parse_bounded_money J (json_field latest ''amount_refunded''))"

definition parse_woo_refund_evidence ::
  "js_library \<Rightarrow> json \<Rightarrow> string option \<Rightarrow> (string, decimal option) sum" where
  "parse_woo_refund_evidence J payload providerContractId =
     (case json_field payload ''charge'' of
        None \<Rightarrow> Inl evidence_invalid
      | Some charge \<Rightarrow>
          if \<not> is_record payload \<or> \<not> is_record charge \<or> \<not> truthy providerContractId then Inl evidence_invalid
          else if json_field charge ''id'' \<noteq> map_option JString providerContractId \<or>
             string_of (json_field charge ''status'') \<notin> {''canceled'', ''refunded''}
          then Inl evidence_invalid
          else Inr (read_latest_refund_amount J (json_field charge ''transactions'')))"

section \<open>Settlement\<close>

definition woo_refund_state :: "refund_status \<Rightarrow> bool" where
  "woo_refund_state s \<longleftrightarrow> s \<in> {REFUND_REQUESTED, REFUND_PROVIDER_ACTION_REQUIRED, REFUND_NEEDS_ATTENTION,
     REFUND_REJECTED, REFUND_COMPLETED}"

definition mark_receipt_error :: "id \<Rightarrow> string \<Rightarrow> id option \<Rightarrow> db \<Rightarrow> (string option \<times> db) result" where
  "mark_receipt_error receiptId code operationId d =
     Inr (Some code, d\<lparr>db_billingReceipts := update_rows (\<lambda>r. wr_id r = receiptId \<and> wr_processedAt r = None)
        (receipt_failed code operationId) (db_billingReceipts d)\<rparr>)"

definition mark_receipt_processed :: "id \<Rightarrow> time \<Rightarrow> id \<Rightarrow> db \<Rightarrow> (string option \<times> db) result" where
  "mark_receipt_processed receiptId processedAt operationId d =
     and_then (update_receipt receiptId (receipt_done processedAt operationId)
       ''Woo refund receipt claim was lost before completion'' d) (\<lambda>d'. Inr (None, d'))"

definition refund_state_conflict :: string where
  "refund_state_conflict = ''WOO_REFUND_STATE_CONFLICT''"

definition refund_settleable :: "charge_link \<Rightarrow> refund \<Rightarrow> string \<Rightarrow> int \<Rightarrow> shop_counter \<Rightarrow> bool" where
  "refund_settleable link rf providerContractId q c \<longleftrightarrow>
     rf_shopId rf = sh_id (cl_shop link) \<and> rf_purchaseId rf = lot_id (cl_purchase link) \<and> rf_provider rf = WOOCOMMERCE \<and>
     0 < q \<and> rf_expectedProviderAmount rf = None \<and> rf_expectedProviderCurrency rf = None \<and>
     bo_state (cl_operation link) = CONFIRMED \<and> lot_provider (cl_purchase link) = WOOCOMMERCE \<and>
     lot_providerReference (cl_purchase link) = Some providerContractId \<and> lot_status (cl_purchase link) = WITHDRAWN \<and>
     lot_reservedAmount (cl_purchase link) = 0 \<and> lot_currentAmount (cl_purchase link) = q \<and>
     q \<le> sc_refundingQuantity c \<and> q \<le> sc_grantedQuantity c"

definition conflicting_refund :: "refund \<Rightarrow> refund" where
  "conflicting_refund x =
     x\<lparr>rf_status := REFUND_NEEDS_ATTENTION, rf_reason := Some refund_state_conflict, rf_version := rf_version x + 1\<rparr>"

definition settle_conflict :: "charge_link \<Rightarrow> billing_receipt \<Rightarrow> refund \<Rightarrow> db \<Rightarrow> (string option \<times> db) result" where
  "settle_conflict link r rf d =
     mark_receipt_error (wr_id r) refund_state_conflict (Some (bo_id (cl_operation link)))
       (d\<lparr>db_refunds := update_rows (\<lambda>x. rf_id x = rf_id rf \<and> rf_status x = REFUND_PROVIDER_ACTION_REQUIRED \<and>
            rf_version x = rf_version rf) conflicting_refund (db_refunds d)\<rparr>)"

definition settled_refund :: "string \<Rightarrow> time \<Rightarrow> decimal option \<Rightarrow> time \<Rightarrow> refund \<Rightarrow> refund" where
  "settled_refund providerContractId receivedAt money now x =
     (let y = x\<lparr>rf_providerReference := Some providerContractId, rf_providerActionKind := Some ''REFUND'',
          rf_providerConfirmedAt := Some receivedAt, rf_providerConfirmedByPlatformAdminId := None,
          rf_status := REFUND_COMPLETED, rf_completedAt := Some now, rf_version := rf_version x + 1\<rparr> in
      case money of None \<Rightarrow> y | Some a \<Rightarrow> y\<lparr>rf_providerAmount := Some a, rf_providerCurrency := Some ''USD''\<rparr>)"

definition refund_settled_body :: string where
  "refund_settled_body =
     ''Your recovery-credit refund has completed. The refundable purchased credits have been removed after WooCommerce confirmed the provider refund.''"

definition settle_refund_rows ::
  "shared \<Rightarrow> (nat \<Rightarrow> id) \<Rightarrow> charge_link \<Rightarrow> billing_receipt \<Rightarrow> string \<Rightarrow> decimal option \<Rightarrow> time \<Rightarrow> refund \<Rightarrow> int \<Rightarrow> shop_counter \<Rightarrow>
     db \<Rightarrow> (string option \<times> db) result" where
  "settle_refund_rows S ids link r providerContractId money now rf q c d =
     (let l = cl_purchase link;
          (n1, lots) = update_many (\<lambda>x. lot_id x = lot_id l \<and> lot_provider x = WOOCOMMERCE \<and>
            lot_providerReference x = Some providerContractId \<and> lot_status x = WITHDRAWN \<and>
            lot_version x = lot_version l \<and> lot_reservedAmount x = 0 \<and> lot_currentAmount x = q)
            refunded_lot (db_lots d);
          (n2, counters) = update_many (\<lambda>x. sc_id x = sc_id c \<and> sc_version x = sc_version c \<and>
            q \<le> sc_refundingQuantity x \<and> q \<le> sc_grantedQuantity x) (refunded_counter q) (db_shopCounters d);
          (n3, refunds) = update_many (\<lambda>x. rf_id x = rf_id rf \<and> rf_provider x = WOOCOMMERCE \<and>
            rf_status x = REFUND_PROVIDER_ACTION_REQUIRED \<and> rf_version x = rf_version rf \<and>
            rf_finalCreditQuantity x = Some q)
            (settled_refund providerContractId (wr_receivedAt r) money now) (db_refunds d) in
      and_then (require (n1 = 1 \<and> n2 = 1 \<and> n3 = 1)
        (plain_error ''Woo refund allowance settlement compare-and-set failed'')) (\<lambda>_.
      and_then (create_refund_completion_support_message S ids (sh_id (cl_shop link)) (rf_id rf) refund_settled_body now
        (d\<lparr>db_lots := lots, db_shopCounters := counters, db_refunds := refunds\<rparr>)) (\<lambda>d'.
      mark_receipt_processed (wr_id r) now (bo_id (cl_operation link)) d')))"

definition settle_refund ::
  "shared \<Rightarrow> (nat \<Rightarrow> id) \<Rightarrow> charge_link \<Rightarrow> billing_receipt \<Rightarrow> string \<Rightarrow> decimal option \<Rightarrow> time \<Rightarrow> refund \<Rightarrow> db \<Rightarrow>
     (string option \<times> db) result" where
  "settle_refund S ids link r providerContractId money now rf d =
     (let op = Some (bo_id (cl_operation link)) in
      case rf_status rf of
        REFUND_REJECTED \<Rightarrow> mark_receipt_error (wr_id r) ''WOO_REFUND_AFTER_REJECTION_CONFLICT'' op d
      | REFUND_COMPLETED \<Rightarrow>
          if lot_status (cl_purchase link) \<noteq> REFUNDED \<or> rf_providerReference rf \<noteq> Some providerContractId
          then mark_receipt_error (wr_id r) refund_state_conflict op d
          else mark_receipt_processed (wr_id r) (wr_receivedAt r) (bo_id (cl_operation link)) d
      | REFUND_PROVIDER_ACTION_REQUIRED \<Rightarrow>
          (case (rf_finalCreditQuantity rf, cl_counter link) of
             (Some q, Some c) \<Rightarrow>
               if refund_settleable link rf providerContractId q c
               then settle_refund_rows S ids link r providerContractId money now rf q c d
               else settle_conflict link r rf d
           | _ \<Rightarrow> settle_conflict link r rf d)
      | _ \<Rightarrow> mark_receipt_error (wr_id r) ''WOO_REFUND_HOLD_NOT_READY'' op d)"

text \<open>
  \<open>findMany\<close> with \<open>take: 2\<close>: the number of refunds decides, and of a single one the order does not
  matter.
\<close>

definition charge_refunds :: "id \<Rightarrow> db \<Rightarrow> refund list" where
  "charge_refunds purchaseId d =
     filter (\<lambda>x. rf_purchaseId x = purchaseId \<and> rf_provider x = WOOCOMMERCE \<and> woo_refund_state (rf_status x)) (db_refunds d)"

definition settle_woo_refund_receipt ::
  "shared \<Rightarrow> (nat \<Rightarrow> id) \<Rightarrow> charge_link \<Rightarrow> billing_receipt \<Rightarrow> string \<Rightarrow> decimal option \<Rightarrow> time \<Rightarrow> db \<Rightarrow>
     (string option \<times> db) result" where
  "settle_woo_refund_receipt S ids link r providerContractId money now d =
     (case charge_refunds (lot_id (cl_purchase link)) d of
        [] \<Rightarrow> mark_receipt_error (wr_id r) ''WOO_REFUND_REQUEST_NOT_FOUND'' (Some (bo_id (cl_operation link))) d
      | [rf] \<Rightarrow> settle_refund S ids link r providerContractId money now rf d
      | _ \<Rightarrow> mark_receipt_error (wr_id r) ''WOO_REFUND_REQUEST_AMBIGUOUS'' (Some (bo_id (cl_operation link))) d)"

section \<open>The processor\<close>

datatype refund_outcome = Refund_Processed | Refund_Retryable string

definition REFUND_TOPICS :: "string list" where
  "REFUND_TOPICS = [''saas_billing_contract.refunded'']"

definition record_error ::
  "billing_receipt \<Rightarrow> string \<Rightarrow> db \<Rightarrow> ((refund_outcome \<times> cursor) option \<times> db) result" where
  "record_error r code d =
     and_then (update_receipt (wr_id r) (receipt_failed (take 128 code) None)
       ''Woo refund receipt claim was lost before error recording'' d) (\<lambda>d'.
     Inr (Some (Refund_Retryable code, receipt_cursor r), d'))"

definition refund_correlation_code :: "string \<Rightarrow> string" where
  "refund_correlation_code code =
     (if code = ''CHARGE_CORRELATION_NOT_READY'' then ''WOO_REFUND_REQUEST_NOT_FOUND'' else ''WOO_REFUND_'' @ code)"

definition process_refund_receipt ::
  "shared \<Rightarrow> js_library \<Rightarrow> (nat \<Rightarrow> id) \<Rightarrow> time \<Rightarrow> billing_receipt \<Rightarrow> db \<Rightarrow>
     ((refund_outcome \<times> cursor) option \<times> db) result" where
  "process_refund_receipt S J ids now r d =
     (case parse_woo_refund_evidence J (wr_normalizedPayload r) (wr_providerContractId r) of
        Inl code \<Rightarrow> record_error r code d
      | Inr money \<Rightarrow>
          (case correlate_and_lock_charge_purchase (the (wr_providerContractId r)) (wr_billingOperationId r) d of
             Inl code \<Rightarrow> record_error r (refund_correlation_code code) d
           | Inr link \<Rightarrow>
               and_then (settle_woo_refund_receipt S ids link r (the (wr_providerContractId r)) money now d) (\<lambda>(e, d').
               Inr (Some (case e of None \<Rightarrow> Refund_Processed | Some code \<Rightarrow> Refund_Retryable code, receipt_cursor r), d'))))"

definition refund_transaction ::
  "shared \<Rightarrow> js_library \<Rightarrow> (id \<Rightarrow> id \<Rightarrow> bool) \<Rightarrow> (id \<Rightarrow> bool) \<Rightarrow> (nat \<Rightarrow> id) \<Rightarrow> time \<Rightarrow> cursor option \<Rightarrow> db \<Rightarrow>
     ((refund_outcome \<times> cursor) option \<times> db) result" where
  "refund_transaction S J idLess locked ids now cursor d =
     (case claim_receipt idLess locked REFUND_TOPICS cursor d of
        None \<Rightarrow> Inr (None, d)
      | Some r \<Rightarrow> process_refund_receipt S J ids now r d)"

definition process_next_woo_refund_receipt ::
  "shared \<Rightarrow> js_library \<Rightarrow> (id \<Rightarrow> id \<Rightarrow> bool) \<Rightarrow> db env \<Rightarrow> (nat \<Rightarrow> id \<Rightarrow> bool) \<Rightarrow> time \<Rightarrow> cursor option \<Rightarrow> db \<Rightarrow>
     (refund_outcome \<times> cursor) option result \<times> db" where
  "process_next_woo_refund_receipt S J idLess E locked now cursor d =
     attempt_up_to is_p2002_or_p2034 E (\<lambda>n. refund_transaction S J idLess (locked n) (env_ids E n) now cursor)
       (plain_error ''Woo refund receipt transaction retry limit exceeded'') 3 0 d"

record refund_batch =
  rb_claimed :: nat
  rb_processed :: nat
  rb_retryable :: nat

definition count_refund :: "refund_outcome \<Rightarrow> refund_batch \<Rightarrow> refund_batch" where
  "count_refund a b =
     (case a of
        Refund_Processed \<Rightarrow> b\<lparr>rb_claimed := rb_claimed b + 1, rb_processed := rb_processed b + 1\<rparr>
      | Refund_Retryable _ \<Rightarrow> b\<lparr>rb_claimed := rb_claimed b + 1, rb_retryable := rb_retryable b + 1\<rparr>)"

definition refund_attempt ::
  "shared \<Rightarrow> js_library \<Rightarrow> (id \<Rightarrow> id \<Rightarrow> bool) \<Rightarrow> (nat \<Rightarrow> db env) \<Rightarrow> (nat \<Rightarrow> nat \<Rightarrow> id \<Rightarrow> bool) \<Rightarrow> (nat \<Rightarrow> time) \<Rightarrow>
     nat \<Rightarrow> cursor option \<Rightarrow> db \<Rightarrow> (refund_outcome \<times> cursor) option result \<times> db" where
  "refund_attempt S J idLess E locked clock i cursor =
     process_next_woo_refund_receipt S J idLess (E i) (locked i) (clock i) cursor"

definition reconcile_refund_batch ::
  "shared \<Rightarrow> js_library \<Rightarrow> (id \<Rightarrow> id \<Rightarrow> bool) \<Rightarrow> (nat \<Rightarrow> db env) \<Rightarrow> (nat \<Rightarrow> nat \<Rightarrow> id \<Rightarrow> bool) \<Rightarrow> (nat \<Rightarrow> time) \<Rightarrow>
     js_number option \<Rightarrow> db \<Rightarrow> refund_batch result \<times> db" where
  "reconcile_refund_batch S J idLess E locked clock limit d =
     (case batch_limit ''Woo charge refund receipt batch size must be between 1 and 50'' limit of
        Inl e \<Rightarrow> (Inl e, d)
      | Inr n \<Rightarrow> receipt_batch (refund_attempt S J idLess E locked clock) count_refund n 0 None
          \<lparr>rb_claimed = 0, rb_processed = 0, rb_retryable = 0\<rparr> d)"

section \<open>What a settlement does\<close>

definition refunds_ok :: "db \<Rightarrow> bool" where
  "refunds_ok d \<longleftrightarrow> charges_ok d \<and> distinct (map rf_id (db_refunds d))"

text \<open>The refund is settled: the purchase, the counter and the refund move, and nothing else of the ledger.\<close>

definition settles :: "charge_link \<Rightarrow> billing_receipt \<Rightarrow> string \<Rightarrow> refund \<Rightarrow> int \<Rightarrow> shop_counter \<Rightarrow> db \<Rightarrow> db \<Rightarrow> bool" where
  "settles link r pc rf q c d d' \<longleftrightarrow>
     linked link pc d \<and> rf \<in> set (db_refunds d) \<and> rf_status rf = REFUND_PROVIDER_ACTION_REQUIRED \<and>
     rf_finalCreditQuantity rf = Some q \<and> cl_counter link = Some c \<and> refund_settleable link rf pc q c \<and>
     refund_made rf q c d d' \<and> db_billingOperations d' = db_billingOperations d \<and>
     (\<exists>money now. db_refunds d' = update_key rf_id (rf_id rf) (settled_refund pc (wr_receivedAt r) money now) (db_refunds d))"

text \<open>The refunds a receipt that settles nothing may mark.\<close>

definition only_attention :: "db \<Rightarrow> db \<Rightarrow> bool" where
  "only_attention d d' \<longleftrightarrow> d' = d \<or> (\<exists>P. d' = d\<lparr>db_refunds := update_rows P conflicting_refund (db_refunds d)\<rparr>)"

definition receipt_updated :: "billing_receipt \<Rightarrow> db \<Rightarrow> db \<Rightarrow> bool" where
  "receipt_updated r d d' \<longleftrightarrow>
     (\<exists>g. db_billingReceipts d' = update_key wr_id (wr_id r) g (db_billingReceipts d) \<and> (\<forall>x. wr_id (g x) = wr_id x \<and> handled (g x)))"

text \<open>
  The refund was settled before by the same contract, and its purchase is refunded: only the receipt is marked, at the
  time it came in.
\<close>

definition acknowledges :: "charge_link \<Rightarrow> billing_receipt \<Rightarrow> string \<Rightarrow> refund \<Rightarrow> db \<Rightarrow> db \<Rightarrow> bool" where
  "acknowledges link r pc rf d d' \<longleftrightarrow>
     rf_status rf = REFUND_COMPLETED \<and> rf_providerReference rf = Some pc \<and> lot_status (cl_purchase link) = REFUNDED \<and>
     d' = d\<lparr>db_billingReceipts :=
       update_key wr_id (wr_id r) (receipt_done (wr_receivedAt r) (bo_id (cl_operation link))) (db_billingReceipts d)\<rparr>"

text \<open>
  What the transaction of a claimed receipt does. Without an error code, the refund is the only one of the purchase
  that the contract of the receipt is linked to, it is settled or was settled before, and the receipt is marked as
  processed; with one, only the receipt is given a reason, and the refund may be marked for attention.
\<close>

definition processes :: "billing_receipt \<Rightarrow> db \<Rightarrow> db \<Rightarrow> bool" where
  "processes r d d' \<longleftrightarrow>
     (\<exists>link pc rf at. wr_providerContractId r = Some pc \<and> linked link pc d \<and>
        charge_refunds (lot_id (cl_purchase link)) d = [rf] \<and>
        db_billingReceipts d' = update_key wr_id (wr_id r) (receipt_done at (bo_id (cl_operation link))) (db_billingReceipts d) \<and>
        ((\<exists>q c. settles link r pc rf q c d d') \<or> acknowledges link r pc rf d d'))"

definition refuses :: "billing_receipt \<Rightarrow> db \<Rightarrow> db \<Rightarrow> bool" where
  "refuses r d d' \<longleftrightarrow>
     (\<exists>d1 msg op. only_attention d d1 \<and>
        d' = d1\<lparr>db_billingReceipts := update_key wr_id (wr_id r) (receipt_failed msg op) (db_billingReceipts d)\<rparr>)"

definition refund_effect :: "billing_receipt \<Rightarrow> string option \<Rightarrow> db \<Rightarrow> db \<Rightarrow> bool" where
  "refund_effect r e d d' \<longleftrightarrow> (if e = None then processes r d d' else refuses r d d')"

lemma processes_receipt: "processes r d d' \<Longrightarrow> receipt_updated r d d'"
  unfolding processes_def receipt_updated_def
  by (elim exE conjE, rule exI, erule conjI) (simp add: receipt_done_def handled_def)

lemma refuses_receipt: "refuses r d d' \<Longrightarrow> receipt_updated r d d'"
  unfolding refuses_def receipt_updated_def
  by (elim exE conjE, rule exI, rule conjI, simp) (simp add: receipt_failed_def handled_def)

lemma refund_effect_receipt: "refund_effect r e d d' \<Longrightarrow> receipt_updated r d d'"
  by (auto simp: refund_effect_def processes_receipt refuses_receipt split: if_splits)

lemma mark_receipt_error_InrD:
  assumes keys: "distinct (map wr_id (db_billingReceipts d1))" "r \<in> set (db_billingReceipts d1)" "wr_processedAt r = None"
    and att: "only_attention d d1" and run: "mark_receipt_error (wr_id r) code op d1 = Inr (e, d')"
  shows "refund_effect r e d d'"
proof -
  have "update_rows (\<lambda>x. wr_id x = wr_id r \<and> wr_processedAt x = None) (receipt_failed code op) (db_billingReceipts d1)
      = update_key wr_id (wr_id r) (receipt_failed code op) (db_billingReceipts d1)"
    using update_many_hit [where key = wr_id and G = "\<lambda>x. wr_processedAt x = None", OF keys(1,2) refl keys(3)]
    by (simp add: update_many_def)
  moreover have "db_billingReceipts d1 = db_billingReceipts d" using att by (auto simp: only_attention_def)
  ultimately have "e = Some code" "d' = d1\<lparr>db_billingReceipts := update_key wr_id (wr_id r) (receipt_failed code op) (db_billingReceipts d)\<rparr>"
    using run by (auto simp: mark_receipt_error_def)
  with att show ?thesis unfolding refund_effect_def refuses_def by auto
qed

lemma mark_receipt_processed_InrD:
  assumes "distinct (map wr_id (db_billingReceipts d))" "mark_receipt_processed i t op d = Inr (e, d')"
  shows "e = None \<and> d' = d\<lparr>db_billingReceipts := update_key wr_id i (receipt_done t op) (db_billingReceipts d)\<rparr>"
  using assms update_receipt_InrD [OF _ assms(1)] by (auto simp: mark_receipt_processed_def and_then_Inr)

lemma settle_refund_rows_InrD:
  assumes ok: "refunds_ok d" and link: "linked link pc d" and id: "rf_purchaseId rf = lot_id (cl_purchase link)"
    and run: "settle_refund_rows S ids link r pc money now rf q c d = Inr (e, d')"
  shows "e = None" "refund_made rf q c d d'"
    "db_refunds d' = update_key rf_id (rf_id rf) (settled_refund pc (wr_receivedAt r) money now) (db_refunds d)"
    "db_billingOperations d' = db_billingOperations d"
    "db_billingReceipts d' = update_key wr_id (wr_id r) (receipt_done now (bo_id (cl_operation link))) (db_billingReceipts d)"
proof -
  from ok have keys: "ledger_ok d" "distinct (map rf_id (db_refunds d))" "distinct (map wr_id (db_billingReceipts d))"
    by (simp_all add: refunds_ok_def charges_ok_def)
  let ?l = "cl_purchase link"
  obtain n1 lots where u1: "update_many (\<lambda>x. lot_id x = lot_id ?l \<and> lot_provider x = WOOCOMMERCE \<and>
      lot_providerReference x = Some pc \<and> lot_status x = WITHDRAWN \<and> lot_version x = lot_version ?l \<and>
      lot_reservedAmount x = 0 \<and> lot_currentAmount x = q) refunded_lot (db_lots d) = (n1, lots)" by (rule prod.exhaust)
  obtain n2 cs where u2: "update_many (\<lambda>x. sc_id x = sc_id c \<and> sc_version x = sc_version c \<and>
      q \<le> sc_refundingQuantity x \<and> q \<le> sc_grantedQuantity x) (refunded_counter q) (db_shopCounters d) = (n2, cs)"
    by (rule prod.exhaust)
  obtain n3 rs where u3: "update_many (\<lambda>x. rf_id x = rf_id rf \<and> rf_provider x = WOOCOMMERCE \<and>
      rf_status x = REFUND_PROVIDER_ACTION_REQUIRED \<and> rf_version x = rf_version rf \<and> rf_finalCreditQuantity x = Some q)
      (settled_refund pc (wr_receivedAt r) money now) (db_refunds d) = (n3, rs)" by (rule prod.exhaust)
  from run obtain d1 where n: "n1 = 1" "n2 = 1" "n3 = 1"
    and m: "create_refund_completion_support_message S ids (sh_id (cl_shop link)) (rf_id rf) refund_settled_body now
        (d\<lparr>db_lots := lots, db_shopCounters := cs, db_refunds := rs\<rparr>) = Inr d1"
    and p: "mark_receipt_processed (wr_id r) now (bo_id (cl_operation link)) d1 = Inr (e, d')"
    unfolding settle_refund_rows_def Let_def u1 u2 u3 by (auto simp: result_iffs)
  note frame = only_support_simps [OF support_message_frame [OF m]]
  have "distinct (map wr_id (db_billingReceipts d1))" using keys(3) frame by simp
  note p = mark_receipt_processed_InrD [OF this p]
  have "lots = update_key lot_id (lot_id ?l) refunded_lot (db_lots d)"
    by (rule update_many_one [where key = lot_id, OF u1 n(1) ledger_keys(6) [OF keys(1)]])
  moreover have "cs = update_key sc_id (sc_id c) (refunded_counter q) (db_shopCounters d)"
    by (rule update_many_one [where key = sc_id, OF u2 n(2) ledger_keys(3) [OF keys(1)]])
  moreover have "rs = update_key rf_id (rf_id rf) (settled_refund pc (wr_receivedAt r) money now) (db_refunds d)"
    by (rule update_many_one [where key = rf_id, OF u3 n(3) keys(2)])
  ultimately show "e = None" "refund_made rf q c d d'"
    "db_refunds d' = update_key rf_id (rf_id rf) (settled_refund pc (wr_receivedAt r) money now) (db_refunds d)"
    "db_billingOperations d' = db_billingOperations d"
    "db_billingReceipts d' = update_key wr_id (wr_id r) (receipt_done now (bo_id (cl_operation link))) (db_billingReceipts d)"
    using frame p id by (simp_all add: refund_made_def)
qed

lemma settle_woo_refund_InrD:
  assumes ok: "refunds_ok d" and r: "r \<in> set (db_billingReceipts d)" "wr_processedAt r = None" "wr_providerContractId r = Some pc"
    and link: "linked link pc d" and run: "settle_woo_refund_receipt S ids link r pc money now d = Inr (e, d')"
  shows "refund_effect r e d d'"
proof -
  from ok have keys: "distinct (map wr_id (db_billingReceipts d))" by (simp add: refunds_ok_def charges_ok_def)
  let ?op = "Some (bo_id (cl_operation link))"
  have err: ?thesis if "mark_receipt_error (wr_id r) code ?op d = Inr (e, d')" for code
    using mark_receipt_error_InrD [OF keys r(1,2) _ that] by (simp add: only_attention_def)
  have conflict: ?thesis if "settle_conflict link r rf d = Inr (e, d')" for rf
  proof -
    let ?d1 = "d\<lparr>db_refunds := update_rows (\<lambda>x. rf_id x = rf_id rf \<and> rf_status x = REFUND_PROVIDER_ACTION_REQUIRED \<and>
            rf_version x = rf_version rf) conflicting_refund (db_refunds d)\<rparr>"
    have "only_attention d ?d1" unfolding only_attention_def by blast
    then show ?thesis
      by (rule mark_receipt_error_InrD [OF _ _ r(2) _ that [unfolded settle_conflict_def], rotated 2]) (use keys r(1) in simp_all)
  qed
  show ?thesis
  proof (cases "\<exists>code. mark_receipt_error (wr_id r) code ?op d = Inr (e, d')")
    case True
    with err show ?thesis by blast
  next
    case False
    with run obtain rf where rf: "charge_refunds (lot_id (cl_purchase link)) d = [rf]"
      and run1: "settle_refund S ids link r pc money now rf d = Inr (e, d')"
      by (auto simp: settle_woo_refund_receipt_def split: list.splits)
    then have mem: "rf \<in> set (db_refunds d)" by (auto simp: charge_refunds_def filter_eq_Cons_iff)
    consider (settled) q c where "rf_status rf = REFUND_PROVIDER_ACTION_REQUIRED" "rf_finalCreditQuantity rf = Some q"
        "cl_counter link = Some c" "refund_settleable link rf pc q c" "settle_refund_rows S ids link r pc money now rf q c d = Inr (e, d')"
      | (conflict) "settle_conflict link r rf d = Inr (e, d')"
      | (acknowledged) "rf_status rf = REFUND_COMPLETED" "lot_status (cl_purchase link) = REFUNDED" "rf_providerReference rf = Some pc"
        "mark_receipt_processed (wr_id r) (wr_receivedAt r) (bo_id (cl_operation link)) d = Inr (e, d')"
      using run1 False by (auto simp: settle_refund_def Let_def split: refund_status.splits if_splits option.splits)
    then show ?thesis
    proof cases
      case settled
      then have "rf_purchaseId rf = lot_id (cl_purchase link)" by (simp add: refund_settleable_def)
      note made = settle_refund_rows_InrD [OF ok link this settled(5)]
      have "settles link r pc rf q c d d'" unfolding settles_def using link mem settled made(2-4) by blast
      with rf link r(3) made(5) have "processes r d d'" unfolding processes_def by blast
      with made(1) show ?thesis by (simp add: refund_effect_def)
    next
      case acknowledged
      note marked = mark_receipt_processed_InrD [OF keys acknowledged(4)]
      with acknowledged have ack: "acknowledges link r pc rf d d'" by (simp add: acknowledges_def)
      have "db_billingReceipts d' =
          update_key wr_id (wr_id r) (receipt_done (wr_receivedAt r) (bo_id (cl_operation link))) (db_billingReceipts d)"
        using marked by simp
      with ack rf link r(3) have "processes r d d'" unfolding processes_def by blast
      with marked show ?thesis by (simp add: refund_effect_def)
    qed (rule conflict)
  qed
qed

section \<open>The processor as a queue\<close>

lemma settles_ledger:
  assumes "ledger_ok d" "settles link r pc rf q c d d'"
  shows "ledger_ok d'"
proof -
  from assms(2) have link: "linked link pc d" and c: "cl_counter link = Some c" and s: "refund_settleable link rf pc q c"
    and made: "refund_made rf q c d d'" by (auto simp: settles_def)
  from link c have "find_shop_counter d (sh_id (cl_shop link)) PURCHASED_RECOVERY_CREDITS = Some c" by (simp add: linked_def)
  note c = find_shop_counter_SomeD [OF this]
  show ?thesis
    by (rule refund_made_ledger [where l = "cl_purchase link" and c = c and q = q and rf = rf, OF assms(1) _ _ _ _ _ _ _ made])
      (use linkedD [OF link] c s in \<open>simp_all add: refund_settleable_def settled_for_refund_def\<close>)
qed

lemma settles_keys:
  assumes "settles link r pc rf q c d d'"
  shows "map rf_id (db_refunds d') = map rf_id (db_refunds d)"
proof -
  from assms obtain money now where "db_refunds d' = update_key rf_id (rf_id rf) (settled_refund pc (wr_receivedAt r) money now) (db_refunds d)"
    by (auto simp: settles_def)
  then show ?thesis by (simp add: map_update_key settled_refund_def Let_def split: option.split)
qed

lemma settles_ok:
  assumes "refunds_ok d" "settles link r pc rf q c d d'" "receipt_updated r d d'"
  shows "refunds_ok d'"
proof -
  have "map wr_id (db_billingReceipts d') = map wr_id (db_billingReceipts d)"
    using assms(3) by (auto simp: receipt_updated_def map_update_key)
  with settles_ledger [OF _ assms(2)] settles_keys [OF assms(2)] assms(1,2) show ?thesis
    by (simp add: refunds_ok_def charges_ok_def settles_def)
qed

lemma only_receipts_ok:
  assumes "refunds_ok d" "only_attention d d1" "d' = d1\<lparr>db_billingReceipts := rs\<rparr>" "receipt_updated r d d'"
  shows "refunds_ok d'"
proof -
  have "map wr_id (db_billingReceipts d') = map wr_id (db_billingReceipts d)"
    using assms(4) by (auto simp: receipt_updated_def map_update_key)
  moreover have "map rf_id (update_rows P conflicting_refund t) = map rf_id t" for P t
    by (simp add: update_rows_def conflicting_refund_def)
  ultimately show ?thesis
    using assms(1-3) ledger_frame [of d d'] by (auto simp: refunds_ok_def charges_ok_def only_attention_def)
qed

lemma refund_effect_ok:
  assumes "refunds_ok d" "refund_effect r e d d'"
  shows "refunds_ok d'"
proof -
  note upd = refund_effect_receipt [OF assms(2)]
  have "only_attention d d" by (simp add: only_attention_def)
  with assms only_receipts_ok [OF assms(1) _ _ upd] settles_ok [OF assms(1) _ upd] show ?thesis
    by (auto simp: refund_effect_def processes_def refuses_def acknowledges_def split: if_splits)
qed

lemma record_error_InrD:
  assumes "distinct (map wr_id (db_billingReceipts d))" "record_error r code d = Inr (x, d')"
  shows "x = Some (Refund_Retryable code, receipt_cursor r) \<and> refund_effect r (Some code) d d'"
proof -
  have "x = Some (Refund_Retryable code, receipt_cursor r)"
    "d' = d\<lparr>db_billingReceipts := update_key wr_id (wr_id r) (receipt_failed (take 128 code) None) (db_billingReceipts d)\<rparr>"
    using assms(2) update_receipt_InrD [OF _ assms(1)] by (auto simp: record_error_def and_then_Inr)
  moreover have "only_attention d d" by (simp add: only_attention_def)
  ultimately show ?thesis unfolding refund_effect_def refuses_def by auto
qed

lemma refund_transaction_InrD:
  assumes ok: "refunds_ok d" and col: "collation idLess" and run: "refund_transaction S J idLess locked ids now c d = Inr (x, d')"
  shows "refunds_ok d' \<and> ((x = None \<and> d' = d \<and> claim_receipt idLess locked REFUND_TOPICS c d = None) \<or>
     (\<exists>r e. claim_receipt idLess locked REFUND_TOPICS c d = Some r \<and>
        x = Some (case e of None \<Rightarrow> Refund_Processed | Some code \<Rightarrow> Refund_Retryable code, receipt_cursor r) \<and>
        refund_effect r e d d'))"
proof (cases "claim_receipt idLess locked REFUND_TOPICS c d")
  case None
  with run ok show ?thesis by (simp add: refund_transaction_def)
next
  case (Some r)
  note claim = claim_receipt_SomeD [OF col Some]
  have keys: "distinct (map wr_id (db_billingReceipts d))" "distinct (map bo_id (db_billingOperations d))"
    using ok by (simp_all add: refunds_ok_def charges_ok_def)
  have "\<exists>e. x = Some (case e of None \<Rightarrow> Refund_Processed | Some code \<Rightarrow> Refund_Retryable code, receipt_cursor r) \<and>
    refund_effect r e d d'"
  proof (cases "\<exists>code. record_error r code d = Inr (x, d')")
    case True
    then obtain code where "record_error r code d = Inr (x, d')" by blast
    from record_error_InrD [OF keys(1) this] show ?thesis by (intro exI [of _ "Some code"]) simp
  next
    case False
    from run Some have run1: "process_refund_receipt S J ids now r d = Inr (x, d')" by (simp add: refund_transaction_def)
    with False obtain money where m: "parse_woo_refund_evidence J (wr_normalizedPayload r) (wr_providerContractId r) = Inr money"
      by (auto simp: process_refund_receipt_def split: sum.splits)
    then obtain pc where pc: "wr_providerContractId r = Some pc"
      by (auto simp: parse_woo_refund_evidence_def truthy_def split: option.splits if_splits)
    from run1 False m obtain link where cor: "correlate_and_lock_charge_purchase pc (wr_billingOperationId r) d = Inr link"
      by (auto simp: process_refund_receipt_def pc split: sum.splits)
    with run1 m obtain e where s: "settle_woo_refund_receipt S ids link r pc money now d = Inr (e, d')"
      and x: "x = Some (case e of None \<Rightarrow> Refund_Processed | Some code \<Rightarrow> Refund_Retryable code, receipt_cursor r)"
      by (auto simp: process_refund_receipt_def pc and_then_Inr)
    from claim(2) have "wr_processedAt r = None" by (simp add: receipt_waiting_def)
    from settle_woo_refund_InrD [OF ok claim(1) this pc correlate_InrD(1) [OF cor keys(2)] s] x show ?thesis by blast
  qed
  with Some refund_effect_ok [OF ok] show ?thesis by blast
qed

text \<open>What a settlement and a refusal leave, row by row.\<close>

lemma settles_rows:
  assumes ok: "ledger_ok d" "distinct (map rf_id (db_refunds d))" and s: "settles link r pc rf q c d d'"
    and one: "charge_refunds (lot_id (cl_purchase link)) d = [rf]"
  defines "l \<equiv> cl_purchase link"
  shows "rf_status rf = REFUND_PROVIDER_ACTION_REQUIRED" "rf_finalCreditQuantity rf = Some q" "0 < q"
    "lot_providerReference l = Some pc" "settled_for_refund l" "lot_currentAmount l = q"
    "find_shop_counter d (lot_shopId l) PURCHASED_RECOVERY_CREDITS = Some c"
    "db_lots d' = update_key lot_id (lot_id l) refunded_lot (db_lots d)"
    "db_shopCounters d' = update_key sc_id (sc_id c) (refunded_counter q) (db_shopCounters d)"
    "\<exists>x. charge_refunds (lot_id l) d' = [x] \<and> rf_id x = rf_id rf \<and> rf_status x = REFUND_COMPLETED \<and>
       rf_providerReference x = Some pc"
proof -
  have link: "linked link pc d" and mem: "rf \<in> set (db_refunds d)" and cnt: "cl_counter link = Some c"
    and able: "refund_settleable link rf pc q c" and made: "refund_made rf q c d d'"
    using s by (auto simp: settles_def)
  show "rf_status rf = REFUND_PROVIDER_ACTION_REQUIRED" "rf_finalCreditQuantity rf = Some q" using s by (auto simp: settles_def)
  show "0 < q" "lot_providerReference l = Some pc" "settled_for_refund l" "lot_currentAmount l = q"
    using able by (simp_all add: refund_settleable_def settled_for_refund_def l_def)
  show "find_shop_counter d (lot_shopId l) PURCHASED_RECOVERY_CREDITS = Some c" using linkedD(2,6) [OF link] cnt by (simp add: l_def)
  show "db_lots d' = update_key lot_id (lot_id l) refunded_lot (db_lots d)"
    "db_shopCounters d' = update_key sc_id (sc_id c) (refunded_counter q) (db_shopCounters d)"
    using made able by (simp_all add: refund_made_def refund_settleable_def l_def)
  obtain money at where upd: "db_refunds d' = update_key rf_id (rf_id rf) (settled_refund pc (wr_receivedAt r) money at) (db_refunds d)"
    using s by (auto simp: settles_def)
  let ?f = "settled_refund pc (wr_receivedAt r) money at"
  have f: "rf_id (?f x) = rf_id x" "rf_purchaseId (?f x) = rf_purchaseId x" "rf_provider (?f x) = rf_provider x"
    "rf_status (?f x) = REFUND_COMPLETED" "rf_providerReference (?f x) = Some pc" for x
    by (simp_all add: settled_refund_def Let_def split: option.split)
  have same: "x = rf" if "x \<in> set (db_refunds d)" "rf_id x = rf_id rf" for x
    using key_inj [OF ok(2) mem that(1)] that(2) by simp
  have state: "woo_refund_state (rf_status rf)" using s by (simp add: settles_def woo_refund_state_def)
  have "charge_refunds (lot_id l) d' = update_key rf_id (rf_id rf) ?f (charge_refunds (lot_id l) d)"
    unfolding charge_refunds_def upd
    by (rule filter_update_key) (use same state f in \<open>auto simp: woo_refund_state_def\<close>)
  also have "\<dots> = [?f rf]" using one by (simp add: l_def update_key_def)
  finally show "\<exists>x. charge_refunds (lot_id l) d' = [x] \<and> rf_id x = rf_id rf \<and> rf_status x = REFUND_COMPLETED \<and>
      rf_providerReference x = Some pc" using f by blast
qed

lemma refuses_rows:
  assumes "refuses r d d'" "r \<in> set (db_billingReceipts d)" "wr_processedAt r = None"
  shows "db_lots d' = db_lots d" "db_shopCounters d' = db_shopCounters d"
    "\<forall>x\<in>set (db_refunds d'). x \<in> set (db_refunds d) \<or> rf_status x = REFUND_NEEDS_ATTENTION"
    "\<exists>x\<in>set (db_billingReceipts d'). wr_id x = wr_id r \<and> wr_processedAt x = None \<and> wr_processingError x \<noteq> None"
proof -
  obtain d1 msg op where d1: "only_attention d d1"
    "d' = d1\<lparr>db_billingReceipts := update_key wr_id (wr_id r) (receipt_failed msg op) (db_billingReceipts d)\<rparr>"
    using assms(1) by (auto simp: refuses_def)
  then show "db_lots d' = db_lots d" "db_shopCounters d' = db_shopCounters d"
    "\<forall>x\<in>set (db_refunds d'). x \<in> set (db_refunds d) \<or> rf_status x = REFUND_NEEDS_ATTENTION"
    by (auto simp: only_attention_def update_rows_def conflicting_refund_def)
  have "receipt_failed msg op r \<in> set (db_billingReceipts d')"
    using d1(2) assms(2) by (auto simp: set_update_key)
  then show "\<exists>x\<in>set (db_billingReceipts d'). wr_id x = wr_id r \<and> wr_processedAt x = None \<and> wr_processingError x \<noteq> None"
    by (rule bexI [rotated]) (simp add: receipt_failed_def assms(3))
qed

lemma refund_attempt_keeps:
  assumes "collation idLess" "refunds_ok d" "env_keeps refunds_ok E"
  shows "refunds_ok (snd (refund_attempt S J idLess E locked clock i c d))"
  unfolding refund_attempt_def process_next_woo_refund_receipt_def
proof (rule attempt_up_to_invariant [where I = refunds_ok, OF assms(2)])
  show "refunds_ok s \<Longrightarrow> refunds_ok (env_step (E i) n s)" for n s using assms(3) by (simp add: env_keeps_def)
qed (use refund_transaction_InrD [OF _ assms(1)] in blast)

lemma refund_attempt_InrD:
  assumes "refunds_ok d" "env_keeps refunds_ok E" "refund_attempt S J idLess E locked clock i c d = (Inr x, d')"
  shows "\<exists>n s. refunds_ok s \<and> refund_transaction S J idLess (locked i n) (env_ids (E i) n) (clock i) c s = Inr (x, d')"
proof (rule attempt_up_to_InrD [where I = refunds_ok, OF assms(3) [unfolded refund_attempt_def process_next_woo_refund_receipt_def] assms(1)])
  show "refunds_ok s \<Longrightarrow> refunds_ok (env_step (E i) n s)" for n s using assms(2) by (simp add: env_keeps_def)
qed

lemma quiet_refund_attempt_InrD:
  assumes "refund_attempt S J idLess (\<lambda>i. quiet_env (ids i)) (\<lambda>_ _ _. False) clock i c d = (Inr x, d')"
  shows "\<exists>n. refund_transaction S J idLess (\<lambda>_. False) (ids i n) (clock i) c d = Inr (x, d')"
proof -
  from attempt_up_to_InrD [where I = "\<lambda>s. s = d", OF assms [unfolded refund_attempt_def process_next_woo_refund_receipt_def]]
  show ?thesis by (auto simp: quiet_env_def)
qed

interpretation refund_queue: receipt_processor "refund_attempt S J idLess E locked clock" idLess
    "\<lambda>d. collation idLess \<and> refunds_ok d \<and> env_keeps refunds_ok E" for S J idLess E locked clock
proof (unfold_locales, goal_cases)
  case 1
  with refund_attempt_keeps show ?case by blast
next
  case (2 d i c a k d')
  from refund_attempt_InrD [OF _ _ 2(3)] 2(1) obtain n s where s: "refunds_ok s"
    "refund_transaction S J idLess (locked i n) (env_ids (E i) n) (clock i) c s = Inr (Some (a, k), d')" by blast
  from refund_transaction_InrD [OF s(1) 2(2) s(2)] obtain r where
    r: "claim_receipt idLess (locked i n) REFUND_TOPICS c s = Some r" "k = receipt_cursor r" by blast
  from claim_receipt_SomeD(3) [OF 2(2) r(1)] r(2) show ?case by (auto simp: after_cursor_def split: option.splits)
qed

interpretation undisturbed_refund_queue: undisturbed_receipt_processor
    "refund_attempt S J idLess (\<lambda>i. quiet_env (ids i)) (\<lambda>_ _ _. False) clock" idLess
    "\<lambda>d. collation idLess \<and> refunds_ok d" REFUND_TOPICS for S J idLess ids clock
proof (unfold_locales, goal_cases)
  case 1
  with refund_attempt_keeps [OF _ _ quiet_env_keeps] show ?case by blast
next
  case 2
  with refund_queue.advances [OF conjI [OF _ conjI [OF _ quiet_env_keeps]]] show ?case by blast
next
  case 3
  then show ?case by (simp add: refunds_ok_def charges_ok_def)
next
  case (4 d i c d')
  from quiet_refund_attempt_InrD [OF 4(2)] refund_transaction_InrD 4(1) show ?case by blast
next
  case (5 d i c a k d')
  from quiet_refund_attempt_InrD [OF 5(2)] refund_transaction_InrD 5(1) refund_effect_receipt obtain r where
    r: "claim_receipt idLess (\<lambda>_. False) REFUND_TOPICS c d = Some r" "k = receipt_cursor r" "receipt_updated r d d'"
    by blast
  then show ?case by (auto simp: receipt_updated_def)
qed

end
