(* ===== verification/Purchase_Properties.thy ===== *)
theory Purchase_Properties
  imports Woo_Refunds Example_Store
begin

text \<open>
  The properties of purchased credits outside reservations: the completion of a refund, the hold a
  WooCommerce refund is prepared with, the activation of a WooCommerce charge, the settlement of a
  WooCommerce refund, and the batches that work off the receipts of both.
\<close>

section \<open>A shop with a withdrawn purchase\<close>

definition ex_withdrawn_lot :: purchase_lot where
  "ex_withdrawn_lot = (ex_lot ''l'' WITHDRAWN 3 0 7)\<lparr>lot_provider := WOOCOMMERCE, lot_providerReference := Some ''ch''\<rparr>"

definition ex_refund :: refund where
  "ex_refund = \<lparr>rf_id = ''rf'', rf_createdAt = 8, rf_shopId = ''s'', rf_purchaseId = ''l'', rf_provider = SHOPIFY,
     rf_status = REFUND_REQUESTED, rf_reason = None, rf_version = 0, rf_completedAt = None,
     rf_providerConfirmedAt = None, rf_finalCreditQuantity = Some 3, rf_automaticCorrectionUsageEventId = Some ''e'',
     rf_availableAmountAtRequestSnapshot = 3, rf_expectedProviderAmount = Some (Decimal 5 0),
     rf_expectedProviderCurrency = Some ''USD'', rf_providerReference = None, rf_providerAmount = None,
     rf_providerCurrency = None, rf_providerActionKind = None, rf_providerConfirmedByPlatformAdminId = None\<rparr>"

definition ex_refund_db :: "refund \<Rightarrow> db" where
  "ex_refund_db rf = ex_db\<lparr>db_shopCounters := [(ex_counter ''c'' PURCHASED_RECOVERY_CREDITS 3 0)\<lparr>sc_refundingQuantity := 3\<rparr>],
     db_lots := [ex_withdrawn_lot], db_refunds := [rf], db_shops := [ex_shop\<lparr>sh_platform := WOOCOMMERCE\<rparr>]\<rparr>"

lemmas ex_refund_defs = ex_refund_db_def ex_withdrawn_lot_def ex_refund_def

lemma ex_refund_db_ledger: "ledger_ok (ex_refund_db rf)"
  by (simp add: ledger_defs ex_refund_defs ex_defs pool_ok_def counter_sum_def lot_sum_def purchased_counter_of_def lot_hold_def)

lemma ex_refund_coherent: "refund_coherent (ex_refund_db ex_refund) ex_refund"
  by code_simp

lemma ex_refund_keys: "distinct (map rf_id (db_refunds (ex_refund_db rf)))"
  by (simp add: ex_refund_db_def ex_db_def)

definition ex_numbered :: "nat \<Rightarrow> id" where
  "ex_numbered n = ''n'' @ show_nat n"

section \<open>Refunds\<close>

text \<open>
  C12. The completion of a refund does something exactly when the refund carries its evidence and its
  purchase is withdrawn, has nothing reserved and holds exactly the final credits: what it checks
  of the counter always holds then. When it completes, the purchase is refunded and empty, the
  refunded credits leave both the granted and the refunding quantity of the shop's counter, so
  that what the shop can spend is unchanged, and the ledger stays consistent. It fails only on a
  refund that was due, and then leaves no trace.
\<close>
theorem refund_completion_settles:
  assumes "ledger_ok d" "refund_coherent d rf" "distinct (map rf_id (db_refunds d))"
  shows "case complete_refund_in_transaction S ids clock rf currency d of
      Inl _ \<Rightarrow> \<exists>q l. refund_due d rf q l
    | Inr (done, d') \<Rightarrow>
        if done
        then ledger_ok d' \<and> (\<exists>q l c. refund_due d rf q l \<and> 
          find_lot_by_id d' (rf_purchaseId rf) = Some (refunded_lot l) \<and>
          find_shop_counter d (rf_shopId rf) PURCHASED_RECOVERY_CREDITS = Some c \<and>
          find_shop_counter d' (rf_shopId rf) PURCHASED_RECOVERY_CREDITS = Some (refunded_counter q c))
        else d' = d \<and> (\<nexists>q l. refund_due d rf q l)"
proof (cases "\<exists>q l. refund_due d rf q l")
  case True
  then obtain q l where due: "refund_due d rf q l" by blast
  obtain c where c: "find_shop_counter d (rf_shopId rf) PURCHASED_RECOVERY_CREDITS = Some c"
    "c \<in> set (db_shopCounters d)" "sc_shopId c = rf_shopId rf" "sc_counter c = PURCHASED_RECOVERY_CREDITS"
    "l \<in> set (db_lots d)" "lot_id l = rf_purchaseId rf" "lot_shopId l = rf_shopId rf"
    by (rule refund_dueD [OF assms(1,2) due]) blast
  note eq = complete_refund_eq(1) [OF assms(1,2) due c(1)]
  show ?thesis
  proof (cases "complete_refund_rows S ids clock rf currency q l c d")
    case (Inl e)
    with eq due show ?thesis by auto
  next
    case (Inr p)
    obtain a d' where p: "p = (a, d')" by (rule prod.exhaust)
    note made = complete_refund_rows_InrD(1,2) [OF assms(1,3) Inr [unfolded p]]
    have "ledger_ok d'"
      by (rule refund_made_ledger [OF assms(1) c(5,6) _ _ c(2) _ c(4) made(2)])
        (use due c(3,7) in \<open>simp_all add: refund_due_def\<close>)
    moreover have "find_lot_by_id d' (rf_purchaseId rf) = Some (refunded_lot l)"
      by (rule refund_made_lot [OF assms(1) c(5,6) made(2)])
    moreover have "find_shop_counter d' (rf_shopId rf) PURCHASED_RECOVERY_CREDITS = Some (refunded_counter q c)"
      using made(2) find_updated_counter [OF assms(1) c(1), of "refunded_counter q"]
      by (simp add: find_shop_counter_def refund_made_def refunded_counter_def)
    ultimately show ?thesis using eq Inr p made(1) due c(1) by auto
  qed
next
  case False
  with complete_refund_eq(2) [OF assms(1,2)] show ?thesis by simp
qed

lemma ex_refund_runs:
  "\<exists>d'. complete_refund_in_transaction ex_shared ex_numbered (\<lambda>_. 9) ex_refund ''USD'' (ex_refund_db ex_refund) = Inr (True, d')"
  by (rule run_map) code_simp

lemma refund_completion_settles_witness:
  "\<exists>d' c. complete_refund_in_transaction ex_shared ex_numbered (\<lambda>_. 9) ex_refund ''USD'' (ex_refund_db ex_refund) = Inr (True, d') \<and>
     ledger_ok d' \<and> find_lot_by_id d' ''l'' = Some (refunded_lot ex_withdrawn_lot) \<and>
     find_shop_counter d' ''s'' PURCHASED_RECOVERY_CREDITS = Some (refunded_counter 3 c)"
proof -
  obtain d' where run: "complete_refund_in_transaction ex_shared ex_numbered (\<lambda>_. 9) ex_refund ''USD'' (ex_refund_db ex_refund) = Inr (True, d')"
    using ex_refund_runs by blast
  have "q = 3 \<and> l = ex_withdrawn_lot" if "refund_due (ex_refund_db ex_refund) ex_refund q l" for q l
    using that by (simp add: refund_due_def refund_evidence_def find_lot_by_id_def ex_refund_defs ex_defs)
  moreover have ids: "rf_purchaseId ex_refund = ''l''" "rf_shopId ex_refund = ''s''" by (simp_all add: ex_refund_def)
  note refund_completion_settles [OF ex_refund_db_ledger ex_refund_coherent ex_refund_keys,
      of ex_shared ex_numbered "\<lambda>_. 9" "''USD''", unfolded run ids, simplified]
  ultimately show ?thesis using run by blast
qed

text \<open>
  A purchase is refunded once: after a completed refund no refund of the same purchase is
  completed, whichever row the service was called with, and the attempt changes nothing.
\<close>
theorem purchase_is_refunded_once:
  assumes "ledger_ok d" "refund_coherent d rf" "distinct (map rf_id (db_refunds d))"
    and "complete_refund_in_transaction S ids clock rf currency d = Inr (True, d')"
    and "rf_purchaseId rf' = rf_purchaseId rf" "rf_shopId rf' = rf_shopId rf"
  shows "complete_refund_in_transaction S ids' clock' rf' currency' d' = Inr (False, d')"
proof -
  have "\<exists>q l. refund_due d rf q l" using complete_refund_eq(2) [OF assms(1,2)] assms(4) by fastforce
  then obtain q l where due: "refund_due d rf q l" by blast
  obtain c where c: "find_shop_counter d (rf_shopId rf) PURCHASED_RECOVERY_CREDITS = Some c"
    "c \<in> set (db_shopCounters d)" "sc_shopId c = rf_shopId rf" "sc_counter c = PURCHASED_RECOVERY_CREDITS"
    "l \<in> set (db_lots d)" "lot_id l = rf_purchaseId rf" "lot_shopId l = rf_shopId rf"
    by (rule refund_dueD [OF assms(1,2) due]) blast
  from complete_refund_eq(1) [OF assms(1,2) due c(1)] assms(4)
  have made: "refund_made rf q c d d'" by (intro complete_refund_rows_InrD(2) [OF assms(1,3)]) auto
  have ok: "ledger_ok d'"
    by (rule refund_made_ledger [OF assms(1) c(5,6) _ _ c(2) _ c(4) made])
      (use due c(3,7) in \<open>simp_all add: refund_due_def\<close>)
  have "find_lot_by_id d' (rf_purchaseId rf) = Some (refunded_lot l)"
    by (rule refund_made_lot [OF assms(1) c(5,6) made])
  with c(7) assms(5,6) have "refund_coherent d' rf'" by (simp add: refund_coherent_def refunded_lot_def)
  from complete_refund_eq(2) [OF ok this] refund_made_not_due [OF made assms(5)] show ?thesis by blast
qed

lemma purchase_is_refunded_once_witness:
  "\<exists>d'. complete_refund_in_transaction ex_shared ex_numbered (\<lambda>_. 9) ex_refund ''USD'' (ex_refund_db ex_refund) = Inr (True, d') \<and>
     complete_refund_in_transaction ex_shared ex_numbered (\<lambda>_. 12) (ex_refund\<lparr>rf_id := ''z''\<rparr>) ''USD'' d' = Inr (False, d')"
proof -
  obtain d' where run: "complete_refund_in_transaction ex_shared ex_numbered (\<lambda>_. 9) ex_refund ''USD'' (ex_refund_db ex_refund) = Inr (True, d')"
    using ex_refund_runs by blast
  from purchase_is_refunded_once [OF ex_refund_db_ledger ex_refund_coherent ex_refund_keys run, of "ex_refund\<lparr>rf_id := ''z''\<rparr>"] run
  show ?thesis by auto
qed

text \<open>
  The preparation of a WooCommerce refund takes no credits that are not held already: whatever it
  answers, no counter's refunding quantity changes and the ledger stays consistent. It never
  cancels the refund. A requested refund of a withdrawn purchase with nothing reserved is either
  prepared, exactly when its terms are consistent and every withdrawn credit of the shop belongs
  to one active refund, or marked for attention; any other refund is left waiting, unchanged.
\<close>
theorem hold_takes_no_new_credits:
  assumes "ledger_ok d" "refunds_coherent d" "distinct (map rf_id (db_refunds d))"
    and "\<And>x. x \<in> set (db_refunds d) \<Longrightarrow> rf_id x = rf_id rf \<Longrightarrow> rf_shopId x = rf_shopId rf \<and> rf_purchaseId x = rf_purchaseId rf"
    and "prepare_hold_in_transaction rf d = Inr (out, d')"
  shows "ledger_ok d' \<and> map sc_refundingQuantity (db_shopCounters d') = map sc_refundingQuantity (db_shopCounters d) \<and>
    (case out of
       Hold_Prepared \<Rightarrow> \<exists>current l. hold_ready d rf current l \<and> hold_terms_ok d current l
     | Hold_Needs_Attention \<Rightarrow> \<exists>current l. hold_ready d rf current l \<and> \<not> hold_terms_ok d current l
     | Hold_Waiting \<Rightarrow> d' = d \<and> (\<nexists>current l. hold_ready d rf current l)
     | Hold_Cancelled \<Rightarrow> False)"
proof (cases "\<exists>current l. hold_ready d rf current l")
  case True
  then obtain current l where ready: "hold_ready d rf current l" by blast
  then have "current \<in> set (db_refunds d)" "rf_id current = rf_id rf" by (auto simp: hold_ready_def dest: find_row_SomeD)
  with assms(4) have same: "rf_shopId rf = rf_shopId current" "rf_purchaseId rf = rf_purchaseId current" by auto
  obtain c where c: "c \<in> set (db_shopCounters d)" "sc_counter c = PURCHASED_RECOVERY_CREDITS" "l \<in> set (db_lots d)"
    "lot_shopId l = sc_shopId c" and run: "prepare_hold_in_transaction rf d =
      Inr (if hold_terms_ok d current l then (Hold_Prepared, hold_made rf l (sc_id c) d)
           else (Hold_Needs_Attention, hold_marked (rf_id rf) d))"
    by (rule prepare_hold_ready [OF assms(1-3) ready same])
  show ?thesis
  proof (cases "hold_terms_ok d current l")
    case True
    with run assms(5) have "out = Hold_Prepared" "d' = hold_made rf l (sc_id c) d" by auto
    with hold_made_ledger [OF assms(1) c(3,4,1,2)] hold_made_refunding True ready show ?thesis by auto
  next
    case False
    with run assms(5) have "out = Hold_Needs_Attention" "d' = hold_marked (rf_id rf) d" by auto
    with hold_marked_ledger [OF assms(1)] False ready show ?thesis by (auto simp: hold_marked_def)
  qed
next
  case False
  from prepare_hold_not_ready [OF assms(1) False assms(5)] False assms(1) show ?thesis by simp
qed

definition ex_woo_refund :: refund where
  "ex_woo_refund = ex_refund\<lparr>rf_provider := WOOCOMMERCE, rf_finalCreditQuantity := None,
     rf_automaticCorrectionUsageEventId := None, rf_expectedProviderAmount := None, rf_expectedProviderCurrency := None\<rparr>"

lemma hold_takes_no_new_credits_witness:
  "\<exists>d'. prepare_hold_in_transaction ex_woo_refund (ex_refund_db ex_woo_refund) = Inr (Hold_Prepared, d') \<and> ledger_ok d' \<and>
     map sc_refundingQuantity (db_shopCounters d') = [3]"
proof -
  have "\<exists>d'. prepare_hold_in_transaction ex_woo_refund (ex_refund_db ex_woo_refund) = Inr (Hold_Prepared, d')"
    by (rule run_map) code_simp
  then obtain d' where run: "prepare_hold_in_transaction ex_woo_refund (ex_refund_db ex_woo_refund) = Inr (Hold_Prepared, d')" by blast
  have "refunds_coherent (ex_refund_db ex_woo_refund)" by code_simp
  from hold_takes_no_new_credits [OF ex_refund_db_ledger this ex_refund_keys _ run] run
  show ?thesis by (auto simp: ex_refund_db_def ex_db_def)
qed

section \<open>A shop with a charge\<close>

definition ex_charge_json :: json where
  "ex_charge_json = JObject [(''id'', JString ''ch''), (''status'', JString ''active''),
     (''billing_intents'', JArray [JObject [(''id'', JNumber ''7''), (''status'', JString ''completed'')]]),
     (''transactions'', JArray [JObject [(''id'', JNumber ''9''), (''billing_intent_id'', JNumber ''7''),
        (''completed_at'', JString ''t''), (''amount'', JString ''5''), (''amount_refunded'', JNumber ''0'')]])]"

definition ex_charge_receipt :: "id \<Rightarrow> time \<Rightarrow> string \<Rightarrow> json \<Rightarrow> billing_receipt" where
  "ex_charge_receipt i t topic charge = \<lparr>wr_id = i, wr_topic = topic, wr_providerContractId = Some ''ch'',
     wr_normalizedPayload = JObject [(''charge'', charge)], wr_billingOperationId = None, wr_receivedAt = t,
     wr_processedAt = None, wr_processingError = None\<rparr>"

definition ex_operation :: billing_operation where
  "ex_operation = \<lparr>bo_id = ''o'', bo_shopId = ''s'', bo_kind = ONE_TIME_CHARGE, bo_state = AWAITING_CONFIRMATION,
     bo_providerReference = Some ''ch'', bo_recoveryCreditPurchaseId = Some ''l'',
     bo_merchantPricingUsageEventId = Some ''e'', bo_quotedAmountMinor = Some 500, bo_quotedCurrency = Some ''USD'',
     bo_lastErrorCode = None\<rparr>"

definition ex_requested_lot :: purchase_lot where
  "ex_requested_lot = (ex_lot ''l'' REQUESTED 3 0 7)\<lparr>lot_provider := WOOCOMMERCE, lot_currentAmount := 0, lot_activatedAt := None\<rparr>"

text \<open>Three receipts of one charge: the second repeats the first, the third is not understood.\<close>

definition ex_charge_db :: db where
  "ex_charge_db = ex_db\<lparr>db_lots := [ex_requested_lot], db_shops := [ex_shop\<lparr>sh_platform := WOOCOMMERCE\<rparr>],
     db_billingOperations := [ex_operation],
     db_billingReceipts := [ex_charge_receipt ''y'' 3 activated_topic ex_charge_json,
       ex_charge_receipt ''x'' 2 activated_topic ex_charge_json, ex_charge_receipt ''z'' 1 activated_topic JNull]\<rparr>"

definition ex_decimal :: "string \<Rightarrow> decimal option" where
  "ex_decimal s = (if s = ''5'' then Some (Decimal 5 0) else if s = ''0'' then Some (Decimal 0 0) else None)"

definition ex_id_less :: "id \<Rightarrow> id \<Rightarrow> bool" where
  "ex_id_less a b \<longleftrightarrow> (a, b) \<in> lexord {(x, y). (of_char x :: nat) < of_char y}"

lemma ex_collation: "collation ex_id_less"
proof -
  let ?r = "{(x, y). (of_char x :: nat) < of_char y} :: (char \<times> char) set"
  have "trans ?r" by (auto simp: trans_def)
  then have "trans (lexord ?r)" by (rule lexord_transI)
  moreover have "(a, a) \<notin> lexord ?r" for a by (rule lexord_irreflexive) auto
  moreover have "a = b \<or> (a, b) \<in> lexord ?r \<or> (b, a) \<in> lexord ?r" for a b
    using lexord_linear [of ?r a b] by (auto simp: neq_iff) (metis nat_neq_iff of_char_eq_iff)
  ultimately show ?thesis unfolding collation_def ex_id_less_def by (auto dest: transD)
qed

lemma ex_charge_db_ok: "charges_ok ex_charge_db"
proof -
  have "ledger_ok ex_charge_db"
    by (simp add: ledger_defs ex_charge_db_def ex_requested_lot_def ex_defs pool_ok_def counter_sum_def lot_sum_def
        purchased_counter_of_def lot_hold_def)
  moreover have "distinct (map wr_id (db_billingReceipts ex_charge_db))" by code_simp
  ultimately show ?thesis by (simp add: charges_ok_def) (simp add: ex_charge_db_def)
qed

section \<open>Charges\<close>

lemma granted_to_shop_frame:
  assumes "db_shopCounters d' = db_shopCounters d1"
  shows "granted_to_shop s n d d' = granted_to_shop s n d d1"
proof -
  have "find_shop_counter d' s k = find_shop_counter d1 s k" for s k using assms by (simp add: find_shop_counter_def)
  then show ?thesis by (simp add: granted_to_shop_def split: option.split)
qed

text \<open>
  C13. A charge receipt that activates a purchase grants exactly the credits that were bought: the
  purchase was requested and empty and is now active with all its credits, the shop's purchased
  counter, created when the shop had none, is granted just as many, the operation was unresolved
  and is confirmed, and the ledger stays consistent.
\<close>
theorem charge_grants_what_was_bought:
  assumes "charges_ok d"
    and "charge_transaction decimalOf idLess locked newId now c d = Inr (Some (Charge_Processed Charge_Activated p, k), d')"
  shows "ledger_ok d' \<and> (\<exists>s l lot op. p = Some (s, l) \<and> find_lot_by_id d l = Some lot \<and> lot_shopId lot = s \<and>
    lot_status lot = REQUESTED \<and> lot_currentAmount lot = 0 \<and> 0 < lot_creditsGranted lot \<and>
    (\<exists>x. find_lot_by_id d' l = Some x \<and> lot_status x = ACTIVE \<and> lot_currentAmount x = lot_creditsGranted lot \<and>
       lot_creditsGranted x = lot_creditsGranted lot) \<and>
    granted_to_shop s (lot_creditsGranted lot) d d' \<and>
    op \<in> set (db_billingOperations d) \<and> bo_recoveryCreditPurchaseId op = Some l \<and> unresolved (bo_state op) \<and>
    (\<exists>x\<in>set (db_billingOperations d'). bo_id x = bo_id op \<and> bo_state x = CONFIRMED))"
proof -
  from charge_transaction_InrD [OF assms] obtain r link pc e d1 where ok: "charges_ok d'"
    and p: "p = Some (sh_id (cl_shop link), lot_id (cl_purchase link))"
    and link: "linked link pc d" "unresolved (bo_state (cl_operation link))" "is_pristine_requested_purchase (cl_purchase link)"
    and act: "activated link pc e (wr_receivedAt r) d d1"
    and d': "receipt_settled r (Charge_Processed Charge_Activated p) d d1 d'"
    by (auto simp: charge_effect_def)
  let ?l = "cl_purchase link" and ?op = "cl_operation link"
  from assms(1) have ledger: "ledger_ok d" by (simp add: charges_ok_def)
  from d' obtain rs where d': "d' = d1\<lparr>db_billingReceipts := rs\<rparr>" unfolding receipt_settled_def by blast
  have find: "find_lot_by_id d (lot_id ?l) = Some ?l"
    unfolding find_lot_by_id_def by (rule find_row_key [OF ledger_keys(6) [OF ledger] linkedD(1) [OF link(1)] refl])
  then have "find_lot_by_id d' (lot_id ?l) = Some (activated_lot pc e (link_snapshot link e) (wr_receivedAt r) (lot_creditsGranted ?l) ?l)"
    using act by (simp add: d' activated_def find_lot_by_id_def find_key_update_key activated_lot_def)
  moreover have "granted_to_shop (sh_id (cl_shop link)) (lot_creditsGranted ?l) d d'"
    using act granted_to_shop_frame [of d' d1] by (simp add: d' activated_def)
  moreover have "\<exists>x\<in>set (db_billingOperations d'). bo_id x = bo_id ?op \<and> bo_state x = CONFIRMED"
  proof (rule bexI)
    show "?op\<lparr>bo_state := CONFIRMED, bo_lastErrorCode := None\<rparr> \<in> set (db_billingOperations d')"
      using act linkedD(4) [OF link(1)] by (auto simp: d' activated_def update_key_def intro!: image_eqI [where x = ?op])
  qed simp
  ultimately show ?thesis
    using ok find p linkedD [OF link(1)] link(2,3)
    by (auto simp: charges_ok_def activated_lot_def is_pristine_requested_purchase_def)
qed

lemma ex_charge_runs:
  "\<exists>d'. charge_transaction ex_decimal ex_id_less (\<lambda>_. False) ''n'' 9 (Some (1, ''z'')) ex_charge_db =
     Inr (Some (Charge_Processed Charge_Activated (Some (''s'', ''l'')), (2, ''x'')), d')"
  by (rule run_map) code_simp

lemma charge_grants_what_was_bought_witness:
  "\<exists>d' x. charge_transaction ex_decimal ex_id_less (\<lambda>_. False) ''n'' 9 (Some (1, ''z'')) ex_charge_db =
     Inr (Some (Charge_Processed Charge_Activated (Some (''s'', ''l'')), (2, ''x'')), d') \<and>
     ledger_ok d' \<and> find_lot_by_id d' ''l'' = Some x \<and> lot_status x = ACTIVE \<and> lot_currentAmount x = 3"
proof -
  obtain d' where run: "charge_transaction ex_decimal ex_id_less (\<lambda>_. False) ''n'' 9 (Some (1, ''z'')) ex_charge_db =
     Inr (Some (Charge_Processed Charge_Activated (Some (''s'', ''l'')), (2, ''x'')), d')"
    using ex_charge_runs by blast
  have "map_option lot_creditsGranted (find_lot_by_id ex_charge_db ''l'') = Some 3" by code_simp
  with charge_grants_what_was_bought [OF ex_charge_db_ok run] run show ?thesis by auto
qed

text \<open>
  In a batch no other transaction disturbs, every purchase is activated at most once, however
  often the provider repeats its receipt, and only purchases that were requested are activated.
\<close>
theorem batch_activates_once:
  assumes "charges_ok d"
  shows "distinct (activated_in (receipt_trace (charge_attempt decimalOf idLess (\<lambda>i. quiet_env (ids i)) (\<lambda>_ _ _. False) clock)
      left 0 None d)) \<and>
    set (activated_in (receipt_trace (charge_attempt decimalOf idLess (\<lambda>i. quiet_env (ids i)) (\<lambda>_ _ _. False) clock)
      left 0 None d)) \<subseteq> requested_ids d"
  by (rule quiet_batch_activations [OF assms])

lemma batch_activates_once_witness:
  "distinct (activated_in (receipt_trace (charge_attempt ex_decimal ex_id_less (\<lambda>i. quiet_env (\<lambda>n k. ''n'')) (\<lambda>_ _ _. False) (\<lambda>_. 9))
      5 0 None ex_charge_db)) \<and>
   activated_in (receipt_trace (charge_attempt ex_decimal ex_id_less (\<lambda>i. quiet_env (\<lambda>n k. ''n'')) (\<lambda>_ _ _. False) (\<lambda>_. 9))
      5 0 None ex_charge_db) = [''l'']"
proof (rule conjI)
  show "distinct (activated_in (receipt_trace (charge_attempt ex_decimal ex_id_less (\<lambda>i. quiet_env (\<lambda>n k. ''n''))
      (\<lambda>_ _ _. False) (\<lambda>_. 9)) 5 0 None ex_charge_db))"
    using batch_activates_once [OF ex_charge_db_ok, of ex_decimal ex_id_less "\<lambda>_ n k. ''n''" "\<lambda>_. 9" 5] by blast
qed code_simp

text \<open>
  C14. Whatever other transactions do between its attempts that keeps the ledger, a batch of charge
  receipts keeps it, and the numbers it returns add up: every receipt it claimed is processed or to
  be retried, activations and cancellations are processed ones, there are no more than the limit it
  was given and never more than fifty, and the receipts were claimed in strictly ascending order.
\<close>
theorem charge_batch_accounts:
  assumes "charges_ok d" "env_keeps charges_ok E" "collation idLess"
  shows "charges_ok (snd (reconcile_charge_batch decimalOf idLess E locked clock limit d)) \<and>
    (case fst (reconcile_charge_batch decimalOf idLess E locked clock limit d) of
       Inl _ \<Rightarrow> True
     | Inr b \<Rightarrow> \<exists>n. batch_limit ''Woo charge receipt batch size must be between 1 and 50'' limit = Inr n \<and>
         cb_claimed b \<le> n \<and> n \<le> 50 \<and> cb_claimed b = cb_processed b + cb_retryable b \<and>
         cb_activated b + cb_canceled b \<le> cb_processed b \<and>
         sorted_wrt (cursor_less idLess) (map snd (receipt_trace (charge_attempt decimalOf idLess E locked clock) n 0 None d)) \<and>
         length (receipt_trace (charge_attempt decimalOf idLess E locked clock) n 0 None d) = cb_claimed b)"
proof -
  let ?run = "reconcile_charge_batch decimalOf idLess E locked clock limit d"
  have inv: "charges_ok d \<and> env_keeps charges_ok E" using assms by simp
  have "charges_ok (snd ?run)"
    using assms(1) by (simp add: reconcile_charge_batch_def conjunct1 [OF charge_queue.batch_keeps [OF inv]] split: sum.split)
  moreover obtain out d' where run: "?run = (out, d')" by (rule prod.exhaust)
  moreover have "\<exists>n. batch_limit ''Woo charge receipt batch size must be between 1 and 50'' limit = Inr n \<and>
         cb_claimed b \<le> n \<and> n \<le> 50 \<and> cb_claimed b = cb_processed b + cb_retryable b \<and>
         cb_activated b + cb_canceled b \<le> cb_processed b \<and>
         sorted_wrt (cursor_less idLess) (map snd (receipt_trace (charge_attempt decimalOf idLess E locked clock) n 0 None d)) \<and>
         length (receipt_trace (charge_attempt decimalOf idLess E locked clock) n 0 None d) = cb_claimed b" if "out = Inr b" for b
    using charge_batch_counts [OF run [unfolded that]] charge_queue.trace_ascending [OF assms(3) inv] 
    by (auto simp: count_ok_def)
  ultimately show ?thesis by (auto split: sum.split)
qed

lemma charge_batch_accounts_witness:
  "\<exists>d'. reconcile_charge_batch ex_decimal ex_id_less (\<lambda>_. ex_env) (\<lambda>_ _ _. False) (\<lambda>_. 9) None ex_charge_db =
     (Inr \<lparr>cb_claimed = 3, cb_processed = 2, cb_activated = 1, cb_canceled = 0, cb_retryable = 1\<rparr>, d') \<and> charges_ok d'"
proof -
  let ?run = "reconcile_charge_batch ex_decimal ex_id_less (\<lambda>_. ex_env) (\<lambda>_ _ _. False) (\<lambda>_. 9) None ex_charge_db"
  let ?b = "\<lparr>cb_claimed = 3, cb_processed = 2, cb_activated = 1, cb_canceled = 0, cb_retryable = 1\<rparr>"
  have "fst ?run = Inr ?b" by code_simp
  then have "?run = (Inr ?b, snd ?run)" by (rule run_fst)
  moreover have "env_keeps charges_ok (\<lambda>_. ex_env)" by (simp add: env_keeps_def ex_env_def)
  from charge_batch_accounts [OF ex_charge_db_ok this ex_collation] have "charges_ok (snd ?run)" by (rule conjunct1)
  ultimately show ?thesis by blast
qed

text \<open>
  C15. No charge receipt is passed over: after an undisturbed batch that ended before its limit, every
  receipt that waited at its start has been processed or carries the reason it could not be. A
  receipt that has to be retried does not hold up the ones after it.
\<close>
theorem no_charge_receipt_is_passed_over:
  assumes "charges_ok d" "collation idLess"
    and "reconcile_charge_batch decimalOf idLess (\<lambda>i. quiet_env (ids i)) (\<lambda>_ _ _. False) clock (Some (JsInt n)) d = (Inr b, d')"
    and "int (cb_claimed b) < n" "r \<in> set (db_billingReceipts d)" "receipt_waiting CHARGE_TOPICS r"
  shows "\<exists>x\<in>set (db_billingReceipts d'). wr_id x = wr_id r \<and> (wr_processedAt x \<noteq> None \<or> wr_processingError x \<noteq> None)"
proof -
  let ?at = "charge_attempt decimalOf idLess (\<lambda>i. quiet_env (ids i)) (\<lambda>_ _ _. False) clock"
  from charge_batch_counts [OF assms(3)] assms(4) obtain m where
    "receipt_batch ?at count_charge m 0 None empty_charge_batch d = (Inr b, d')" "length (receipt_trace ?at m 0 None d) < m"
    by (auto simp: batch_limit_def split: if_splits)
  from undisturbed_charge_queue.none_passed_over [OF assms(2,1) this assms(5,6)] show ?thesis
    by (simp add: after_cursor_def undisturbed_charge_queue.handled_in_def handled_def)
qed

lemma no_charge_receipt_is_passed_over_witness:
  "\<exists>d'. snd (reconcile_charge_batch ex_decimal ex_id_less (\<lambda>i. quiet_env (\<lambda>n k. ''n'')) (\<lambda>_ _ _. False) (\<lambda>_. 9)
      (Some (JsInt 5)) ex_charge_db) = d' \<and>
    (\<exists>x\<in>set (db_billingReceipts d'). wr_id x = ''y'' \<and> (wr_processedAt x \<noteq> None \<or> wr_processingError x \<noteq> None))"
proof -
  let ?run = "reconcile_charge_batch ex_decimal ex_id_less (\<lambda>i. quiet_env (\<lambda>n k. ''n'')) (\<lambda>_ _ _. False) (\<lambda>_. 9)
      (Some (JsInt 5)) ex_charge_db"
  let ?b = "\<lparr>cb_claimed = 3, cb_processed = 2, cb_activated = 1, cb_canceled = 0, cb_retryable = 1\<rparr>"
  have "fst ?run = Inr ?b" by code_simp
  then have "?run = (Inr ?b, snd ?run)" by (rule run_fst)
  from no_charge_receipt_is_passed_over [OF ex_charge_db_ok ex_collation this, of "ex_charge_receipt ''y'' 3 activated_topic ex_charge_json"]
  have "\<exists>x\<in>set (db_billingReceipts (snd ?run)). wr_id x = ''y'' \<and> (wr_processedAt x \<noteq> None \<or> wr_processingError x \<noteq> None)"
    by (simp add: ex_charge_db_def ex_charge_receipt_def receipt_waiting_def CHARGE_TOPICS_def)
  then show ?thesis by blast
qed

section \<open>Refund receipts\<close>

text \<open>
  C16. What a refund receipt does, in the transaction that claims it. It is processed only when the contract it names
  is the reference of one charge operation, whose purchase has exactly one refund, and then in one of two ways.
  Either the refund is settled: it was prepared with exactly the credits the withdrawn purchase of that contract
  holds; afterwards the purchase is refunded and empty, the shop's counter has lost these credits from both its
  granted and its refunding quantity, no other purchase and counter has moved, and the same refund, still the only
  one, is completed and carries the contract. Or the refund was completed by the same contract before and its purchase
  is refunded, and nothing but the receipt changes. A receipt that is to be retried touches no purchase and no counter,
  keeps waiting with a reason, and of the refunds at most marks some for attention. In every case the ledger stays
  consistent.
\<close>
theorem refund_receipt_settles:
  assumes "refunds_ok d" "collation idLess"
    and "refund_transaction S J idLess locked ids now c d = Inr (Some (out, k), d')"
  shows "refunds_ok d' \<and>
    (\<exists>r. claim_receipt idLess locked REFUND_TOPICS c d = Some r \<and> k = receipt_cursor r \<and>
       r \<in> set (db_billingReceipts d) \<and> wr_processedAt r = None \<and>
       (case out of
          Refund_Processed \<Rightarrow>
            (\<exists>pc op l rf at. wr_providerContractId r = Some pc \<and>
               filter (\<lambda>x. bo_kind x = ONE_TIME_CHARGE \<and> bo_providerReference x = Some pc) (db_billingOperations d) = [op] \<and>
               bo_recoveryCreditPurchaseId op = Some (lot_id l) \<and> l \<in> set (db_lots d) \<and>
               charge_refunds (lot_id l) d = [rf] \<and>
               db_billingReceipts d' = update_key wr_id (wr_id r) (receipt_done at (bo_id op)) (db_billingReceipts d) \<and>
               ((\<exists>q counter x. rf_status rf = REFUND_PROVIDER_ACTION_REQUIRED \<and> rf_finalCreditQuantity rf = Some q \<and> 0 < q \<and>
                   lot_providerReference l = Some pc \<and> settled_for_refund l \<and> lot_currentAmount l = q \<and>
                   find_shop_counter d (lot_shopId l) PURCHASED_RECOVERY_CREDITS = Some counter \<and>
                   db_lots d' = update_key lot_id (lot_id l) refunded_lot (db_lots d) \<and>
                   db_shopCounters d' = update_key sc_id (sc_id counter) (refunded_counter q) (db_shopCounters d) \<and>
                   charge_refunds (lot_id l) d' = [x] \<and> rf_id x = rf_id rf \<and> rf_status x = REFUND_COMPLETED \<and>
                   rf_providerReference x = Some pc) \<or>
                (rf_status rf = REFUND_COMPLETED \<and> rf_providerReference rf = Some pc \<and> lot_status l = REFUNDED \<and>
                 d' = d\<lparr>db_billingReceipts := db_billingReceipts d'\<rparr>)))
        | Refund_Retryable code \<Rightarrow>
            db_lots d' = db_lots d \<and> db_shopCounters d' = db_shopCounters d \<and>
            (\<forall>x\<in>set (db_refunds d'). x \<in> set (db_refunds d) \<or> rf_status x = REFUND_NEEDS_ATTENTION) \<and>
            (\<exists>x\<in>set (db_billingReceipts d'). wr_id x = wr_id r \<and> wr_processedAt x = None \<and> wr_processingError x \<noteq> None)))"
proof -
  from refund_transaction_InrD [OF assms] obtain r e where ok': "refunds_ok d'"
    and claim: "claim_receipt idLess locked REFUND_TOPICS c d = Some r" and k: "k = receipt_cursor r"
    and out: "out = (case e of None \<Rightarrow> Refund_Processed | Some code \<Rightarrow> Refund_Retryable code)"
    and eff: "refund_effect r e d d'" by blast
  have r: "r \<in> set (db_billingReceipts d)" "wr_processedAt r = None"
    using claim_receipt_SomeD(1,2) [OF assms(2) claim] by (simp_all add: receipt_waiting_def)
  have keys: "ledger_ok d" "distinct (map rf_id (db_refunds d))" using assms(1) by (simp_all add: refunds_ok_def charges_ok_def)
  show ?thesis
  proof (cases e)
    case (Some code)
    with eff have "refuses r d d'" by (simp add: refund_effect_def)
    from refuses_rows [OF this r] show ?thesis using ok' claim k r out Some by simp
  next
    case None
    with eff have "processes r d d'" by (simp add: refund_effect_def)
    then obtain link pc rf at where pc: "wr_providerContractId r = Some pc" and link: "linked link pc d"
      and one: "charge_refunds (lot_id (cl_purchase link)) d = [rf]"
      and receipts: "db_billingReceipts d' = update_key wr_id (wr_id r) (receipt_done at (bo_id (cl_operation link))) (db_billingReceipts d)"
      and ways: "(\<exists>q c. settles link r pc rf q c d d') \<or> acknowledges link r pc rf d d'"
      unfolding processes_def by blast
    note op = link [unfolded linked_def] and processed = out [unfolded None option.case]
    from ways show ?thesis
    proof
      assume "\<exists>q c. settles link r pc rf q c d d'"
      then obtain q counter where "settles link r pc rf q counter d d'" by blast
      note rows = settles_rows [OF keys this one]
      obtain x where "charge_refunds (lot_id (cl_purchase link)) d' = [x]" "rf_id x = rf_id rf"
        "rf_status x = REFUND_COMPLETED" "rf_providerReference x = Some pc" using rows(10) by blast
      then show ?thesis
        unfolding processed refund_outcome.case using ok' claim k r pc op one receipts rows(1-9) by blast
    next
      assume "acknowledges link r pc rf d d'"
      then have "rf_status rf = REFUND_COMPLETED" "rf_providerReference rf = Some pc" "lot_status (cl_purchase link) = REFUNDED"
        "d' = d\<lparr>db_billingReceipts := db_billingReceipts d'\<rparr>" by (auto simp: acknowledges_def)
      then show ?thesis
        unfolding processed refund_outcome.case using ok' claim k r pc op one receipts by blast
    qed
  qed
qed

definition ex_js :: js_library where
  "ex_js = \<lparr>date_parse = (\<lambda>_. Some 1), js_to_number = (\<lambda>_. JsNonInteger), locale_compare = (\<lambda>_ _. 0),
     decimal_of = ex_decimal, negative_zero = (\<lambda>_. False)\<rparr>"

definition ex_settle_db :: db where
  "ex_settle_db = (ex_refund_db (ex_woo_refund\<lparr>rf_status := REFUND_PROVIDER_ACTION_REQUIRED, rf_finalCreditQuantity := Some 3\<rparr>))
     \<lparr>db_billingOperations := [ex_operation\<lparr>bo_state := CONFIRMED\<rparr>],
      db_billingReceipts := [ex_charge_receipt ''x'' 2 ''saas_billing_contract.refunded''
        (JObject [(''id'', JString ''ch''), (''status'', JString ''refunded'')])]\<rparr>"

lemma ex_settle_db_ok: "refunds_ok ex_settle_db"
proof -
  have "ledger_ok ex_settle_db"
    by (rule ledger_frame [OF ex_refund_db_ledger]) (simp_all add: ex_settle_db_def)
  then show ?thesis by (simp add: refunds_ok_def charges_ok_def) (simp add: ex_settle_db_def ex_refund_db_def)
qed

lemma refund_receipt_settles_witness:
  "\<exists>d' x. refund_transaction ex_shared ex_js ex_id_less (\<lambda>_. False) ex_numbered 9 None ex_settle_db =
     Inr (Some (Refund_Processed, (2, ''x'')), d') \<and> refunds_ok d' \<and>
     charge_refunds ''l'' d' = [x] \<and> rf_status x = REFUND_COMPLETED \<and>
     db_lots d' = update_key lot_id ''l'' refunded_lot (db_lots ex_settle_db)"
proof -
  let ?run = "refund_transaction ex_shared ex_js ex_id_less (\<lambda>_. False) ex_numbered 9 None ex_settle_db"
  have "\<exists>d'. ?run = Inr (Some (Refund_Processed, (2, ''x'')), d')"
    by (rule run_map) code_simp
  then obtain d' where run: "?run = Inr (Some (Refund_Processed, (2, ''x'')), d')" by blast
  have lots: "map lot_id (db_lots ex_settle_db) = [''l'']" "map lot_status (db_lots ex_settle_db) = [WITHDRAWN]"
    by code_simp+
  obtain l x where "lot_id l = ''l''" "l \<in> set (db_lots ex_settle_db)" "charge_refunds (lot_id l) d' = [x]"
      "rf_status x = REFUND_COMPLETED" "db_lots d' = update_key lot_id (lot_id l) refunded_lot (db_lots ex_settle_db)" "refunds_ok d'"
    using refund_receipt_settles [OF ex_settle_db_ok ex_collation run] lots by auto
  then show ?thesis using run by auto
qed

end
