(* ===== verification/Provider_Status.thy ===== *)
theory Provider_Status
  imports Delivery_Replay Purchase_Pool
begin

text \<open>
  What a status report of the WhatsApp provider does to the message it is about:
  \<open>src/domain/whatsapp-provider-status-transition.ts\<close> (which reports move a message),
  \<open>src/services/whatsapp-provider-status-lifecycle.ts\<close> (the columns they write) and the serializable
  transaction of \<open>src/services/whatsapp-provider-status.service.ts\<close> with its retries. The stages after
  the commit are in \<open>Delivery_Notice\<close>.
\<close>

section \<open>Status transitions\<close>

datatype provider_status = ST_SENT | ST_DELIVERED | ST_READ | ST_FAILED

primrec message_status_of :: "provider_status \<Rightarrow> message_status" where
  "message_status_of ST_SENT = MSG_SENT"
| "message_status_of ST_DELIVERED = MSG_DELIVERED"
| "message_status_of ST_READ = MSG_READ"
| "message_status_of ST_FAILED = MSG_FAILED"

primrec ALLOWED_TRANSITIONS :: "message_status \<Rightarrow> provider_status list" where
  "ALLOWED_TRANSITIONS MSG_PENDING = [ST_SENT, ST_DELIVERED, ST_READ, ST_FAILED]"
| "ALLOWED_TRANSITIONS MSG_SENT = [ST_DELIVERED, ST_READ, ST_FAILED]"
| "ALLOWED_TRANSITIONS MSG_FAILED = [ST_DELIVERED, ST_READ]"
| "ALLOWED_TRANSITIONS MSG_DELIVERED = [ST_READ]"
| "ALLOWED_TRANSITIONS MSG_READ = []"

definition canApplyProviderStatus :: "message_status \<Rightarrow> provider_status \<Rightarrow> bool" where
  "canApplyProviderStatus currentStatus eventStatus \<longleftrightarrow>
     currentStatus = message_status_of eventStatus \<or> eventStatus \<in> set (ALLOWED_TRANSITIONS currentStatus)"

definition statusForProviderEvent :: "message_status \<Rightarrow> provider_status \<Rightarrow> message_status" where
  "statusForProviderEvent currentStatus eventStatus =
     (if canApplyProviderStatus currentStatus eventStatus then message_status_of eventStatus else currentStatus)"

section \<open>The columns a report writes\<close>

text \<open>
  \<open>NormalizedWhatsAppStatus\<close>, after the schema of the shared package has parsed it. \<open>ev_failure\<close> is
  the provider code of \<open>event.failure\<close>, \<open>ev_occurredAt\<close> the instant \<open>event.occurredAt\<close> names.
\<close>

record status_event =
  ev_schemaVersion :: int
  ev_providerMessageId :: id
  ev_providerAccountId :: json
  ev_providerPhoneNumberId :: json
  ev_status :: provider_status
  ev_occurredAt :: time
  ev_failure :: "string option"
  ev_pricing :: "json option"

text \<open>The \<open>ConversationMessageUpdateInput\<close>: \<open>None\<close> leaves the column alone.\<close>

record lifecycle_data =
  ld_status :: "message_status option"
  ld_sentAt :: "time option"
  ld_deliveredAt :: "time option"
  ld_readAt :: "time option"
  ld_failedAt :: "time option"
  ld_providerFailureCode :: "string option"

definition no_data :: lifecycle_data where
  "no_data = \<lparr>ld_status = None, ld_sentAt = None, ld_deliveredAt = None, ld_readAt = None,
     ld_failedAt = None, ld_providerFailureCode = None\<rparr>"

definition event_failure_code :: "status_event \<Rightarrow> string option" where
  "event_failure_code event = (if ev_schemaVersion event = 3 then ev_failure event else None)"

definition lifecycleUpdate ::
  "message \<Rightarrow> message_status \<Rightarrow> time \<Rightarrow> provider_status \<Rightarrow> bool \<Rightarrow> status_event \<Rightarrow> lifecycle_data" where
  "lifecycleUpdate m nextStatus occurredAt eventStatus canApplyStatus event =
     \<lparr>ld_status = (if nextStatus \<noteq> cm_status m then Some nextStatus else None),
      ld_sentAt = (if canApplyStatus \<and> eventStatus = ST_SENT \<and> cm_sentAt m = None then Some occurredAt else None),
      ld_deliveredAt = (if (canApplyStatus \<or> cm_status m = MSG_READ) \<and>
          (eventStatus = ST_DELIVERED \<or> eventStatus = ST_READ) \<and> cm_deliveredAt m = None
        then Some occurredAt else None),
      ld_readAt = (if canApplyStatus \<and> eventStatus = ST_READ \<and> cm_readAt m = None then Some occurredAt else None),
      ld_failedAt = (if canApplyStatus \<and> eventStatus = ST_FAILED \<and> cm_failedAt m = None
        then Some occurredAt else None),
      ld_providerFailureCode = (if canApplyStatus \<and> eventStatus = ST_FAILED \<and>
          \<not> truthy (cm_providerFailureCode m) then event_failure_code event else None)\<rparr>"

definition set_column :: "'a option \<Rightarrow> 'a option \<Rightarrow> 'a option" where
  "set_column new old = (case new of None \<Rightarrow> old | Some v \<Rightarrow> Some v)"

definition write_lifecycle :: "lifecycle_data \<Rightarrow> message \<Rightarrow> message" where
  "write_lifecycle data m =
     m\<lparr>cm_status := (case ld_status data of None \<Rightarrow> cm_status m | Some s \<Rightarrow> s),
       cm_sentAt := set_column (ld_sentAt data) (cm_sentAt m),
       cm_deliveredAt := set_column (ld_deliveredAt data) (cm_deliveredAt m),
       cm_readAt := set_column (ld_readAt data) (cm_readAt m),
       cm_failedAt := set_column (ld_failedAt data) (cm_failedAt m),
       cm_providerFailureCode := set_column (ld_providerFailureCode data) (cm_providerFailureCode m)\<rparr>"

definition deliveredUsageKey :: "id \<Rightarrow> string" where
  "deliveredUsageKey messageId = ''whatsapp-delivered:'' @ messageId"

text \<open>
  What the services use of the runtime and the database: \<open>JSON.stringify\<close>, the hexadecimal SHA-256
  digest, and the provider a usage event gets from the column's default.
\<close>

record status_library =
  json_stringify :: "json \<Rightarrow> string"
  sha256_hex :: "string \<Rightarrow> string"
  default_provider :: platform

definition provider_status_name :: "provider_status \<Rightarrow> string" where
  "provider_status_name s =
     (case s of ST_SENT \<Rightarrow> ''SENT'' | ST_DELIVERED \<Rightarrow> ''DELIVERED'' | ST_READ \<Rightarrow> ''READ'' | ST_FAILED \<Rightarrow> ''FAILED'')"

definition providerSummary :: "status_library \<Rightarrow> status_event \<Rightarrow> string" where
  "providerSummary L event = take 2000 (json_stringify L (JObject (
     [(''providerAccountId'', ev_providerAccountId event),
      (''providerPhoneNumberId'', ev_providerPhoneNumberId event),
      (''status'', JString (provider_status_name (ev_status event)))] @
     (case ev_pricing event of None \<Rightarrow> [] | Some p \<Rightarrow> [(''pricing'', p)]))))"

section \<open>The transaction\<close>

datatype status_outcome = Unknown_Message | Status_Ignored | Status_Applied

text \<open>The shop of a message here: that of the conversation, else that of its recovery.\<close>

definition status_shop :: "conversation \<Rightarrow> id option" where
  "status_shop c = (case cv_shopId c of Some s \<Rightarrow> Some s | None \<Rightarrow> map_option snd (cv_checkoutRecovery c))"

text \<open>The checks on the row read again under its lock (lines 121--131).\<close>

definition unchanged_message :: "status_event \<Rightarrow> message \<Rightarrow> id \<Rightarrow> message \<Rightarrow> conversation \<Rightarrow> bool" where
  "unchanged_message event pointer pointerShop m c \<longleftrightarrow>
     cm_providerMessageId m = cm_providerMessageId pointer \<and>
     cm_providerMessageId pointer = Some (ev_providerMessageId event) \<and>
     (\<not> truthy (cv_shopId c) \<or> cv_shopId c = Some pointerShop) \<and>
     (\<forall>r\<in>set_option (cv_checkoutRecovery c). snd r = pointerShop) \<and>
     status_shop c = Some pointerShop"

definition write_message :: "message \<Rightarrow> lifecycle_data \<Rightarrow> delivery_db \<Rightarrow> delivery_db result" where
  "write_message m data D =
     (if data = no_data then Inr D
      else
        let (n, ms) = update_many (\<lambda>x. cm_id x = cm_id m \<and> cm_direction x = OUTBOUND \<and> cm_status x = cm_status m)
              (write_lifecycle data) (dd_messages D)
        in and_then (require (n = 1) Concurrency_Conflict) (\<lambda>_. Inr (D\<lparr>dd_messages := ms\<rparr>)))"

text \<open>A send command that is still open takes the outcome the report shows; the flag says it did.\<close>

definition settled_command :: "status_event \<Rightarrow> send_command \<Rightarrow> send_command" where
  "settled_command event c =
     (if ev_status event = ST_FAILED then
        c\<lparr>cmd_state := CMD_FAILED,
          cmd_failureCode := Some (case event_failure_code event of Some code \<Rightarrow> code | None \<Rightarrow> ''provider_failed''),
          cmd_completedAt := Some (ev_occurredAt event)\<rparr>
      else c\<lparr>cmd_state := CMD_SENT, cmd_completedAt := Some (ev_occurredAt event)\<rparr>)"

definition converge_command :: "status_event \<Rightarrow> bool \<Rightarrow> message \<Rightarrow> delivery_db \<Rightarrow> bool \<times> delivery_db" where
  "converge_command event canApplyStatus m D =
     (case find_command_of_message D (cm_id m) of
        None \<Rightarrow> (False, D)
      | Some command \<Rightarrow>
          if canApplyStatus then
            let (n, cs) = update_many (\<lambda>x. cmd_id x = cmd_id command \<and>
                  (cmd_state x = CMD_DISPATCH_ADMITTED \<or> cmd_state x = CMD_UNKNOWN))
                (settled_command event) (dd_commands D)
            in (n = 1, D\<lparr>dd_commands := cs\<rparr>)
          else (False, D))"

text \<open>An attempt that waits for a response is closed when its recipient cannot be reached.\<close>

definition converge_attempt :: "bool \<Rightarrow> time \<Rightarrow> message \<Rightarrow> delivery_db \<Rightarrow> bool \<times> delivery_db" where
  "converge_attempt terminalRecipientFailure occurredAt m D =
     (case find_attempt_of_message D (cm_id m) of
        None \<Rightarrow> (False, D)
      | Some a \<Rightarrow>
          if terminalRecipientFailure \<and> oa_status a = OUTREACH_WAITING_FOR_RESPONSE then
            let (n, xs) = update_many (\<lambda>x. oa_id x = oa_id a \<and> oa_status x = OUTREACH_WAITING_FOR_RESPONSE)
                (\<lambda>x. x\<lparr>oa_status := OUTREACH_FAILED, oa_failureCode := Some ''WHATSAPP_RECIPIENT_UNDELIVERABLE'',
                       oa_closedAt := Some occurredAt\<rparr>) (dd_attempts D)
            in (n = 1, D\<lparr>dd_attempts := xs\<rparr>)
          else (False, D))"

definition delivered_event :: "status_library \<Rightarrow> id \<Rightarrow> id \<Rightarrow> id \<Rightarrow> status_event \<Rightarrow> usage_event" where
  "delivered_event L eventId shopId messageId event =
     \<lparr>ue_id = eventId, ue_shopId = shopId, ue_billingPeriodId = None, ue_metric = DELIVERED_WHATSAPP_MESSAGE,
      ue_quantity = 1, ue_idempotencyKey = deliveredUsageKey messageId, ue_correctionOfUsageEventId = None,
      ue_sourceType = Some ''WHATSAPP_PROVIDER_STATUS'', ue_sourceId = Some messageId,
      ue_occurredAt = Some (ev_occurredAt event), ue_provider = default_provider L,
      ue_shopifyReportState = REPORT_NOT_APPLICABLE, ue_shopifyEventHandle = None,
      ue_shopifyIdempotencyKey = None, ue_nextReportAt = None, ue_lastReportAttemptAt = None,
      ue_reportedAt = None, ue_providerErrorCode = None,
      ue_providerResponseSummary = Some (providerSummary L event)\<rparr>"

definition record_delivered ::
  "status_library \<Rightarrow> id \<Rightarrow> id \<Rightarrow> id \<Rightarrow> status_event \<Rightarrow> delivery_db \<Rightarrow> delivery_db result" where
  "record_delivered L eventId shopId messageId event D =
     (case find_row (\<lambda>e. ue_idempotencyKey e = deliveredUsageKey messageId) (db_usageEvents (dd_db D)) of
        Some _ \<Rightarrow> Inr D
      | None \<Rightarrow>
          and_then (create_usage_event (delivered_event L eventId shopId messageId event) (dd_db D)) (\<lambda>(_, d).
          Inr (D\<lparr>dd_db := d\<rparr>)))"

text \<open>From the locked row on (lines 141--268).\<close>

definition apply_to_message ::
  "status_library \<Rightarrow> id \<Rightarrow> status_event \<Rightarrow> id \<Rightarrow> message \<Rightarrow> delivery_db \<Rightarrow> (status_outcome \<times> delivery_db) result" where
  "apply_to_message L eventId event shopId m D =
     (let canApplyStatus = canApplyProviderStatus (cm_status m) (ev_status event);
          nextStatus = statusForProviderEvent (cm_status m) (ev_status event);
          shouldRecordDelivered = canApplyStatus \<and> (ev_status event = ST_DELIVERED \<or> ev_status event = ST_READ);
          becameDelivered = shouldRecordDelivered \<and> cm_status m \<noteq> MSG_DELIVERED \<and> cm_status m \<noteq> MSG_READ;
          data = lifecycleUpdate m nextStatus (ev_occurredAt event) (ev_status event) canApplyStatus event;
          lifecycleChanged = (data \<noteq> no_data);
          failureCode = set_column (ld_providerFailureCode data) (cm_providerFailureCode m);
          terminalRecipientFailure = canApplyStatus \<and> ev_status event = ST_FAILED \<and>
            is_recipient_undeliverable failureCode in
      and_then (write_message m data D) (\<lambda>D1.
      let (commandConverged, D2) = converge_command event canApplyStatus m D1;
          (attemptConverged, D3) = converge_attempt terminalRecipientFailure (ev_occurredAt event) m D2 in
      and_then (if becameDelivered then record_delivered L eventId shopId (cm_id m) event D3 else Inr D3) (\<lambda>D4.
      Inr (if \<not> lifecycleChanged \<and> \<not> becameDelivered \<and> \<not> attemptConverged \<and> \<not> commandConverged
           then Status_Ignored else Status_Applied, D4))))"

definition status_transaction ::
  "status_library \<Rightarrow> id \<Rightarrow> status_event \<Rightarrow> delivery_db \<Rightarrow> (status_outcome \<times> delivery_db) result" where
  "status_transaction L eventId event D =
     (case find_message D (By_Provider_Message (ev_providerMessageId event)) of
        None \<Rightarrow> Inr (Unknown_Message, D)
      | Some pointer \<Rightarrow>
          let pointerShop = Option.bind (conversation_of D pointer) status_shop in
          if \<not> truthy pointerShop then Inr (Status_Ignored, D)
          else
            let shopId = the pointerShop in
            and_then (require (count_rows (\<lambda>s. sh_id s = shopId) (db_shops (dd_db D)) = 1) Concurrency_Conflict) (\<lambda>_.
            and_then (expect (find_message D (By_Message (cm_id pointer))) Concurrency_Conflict) (\<lambda>m.
            and_then (expect (conversation_of D m) Concurrency_Conflict) (\<lambda>c.
            and_then (require (unchanged_message event pointer shopId m c) Concurrency_Conflict) (\<lambda>_.
            if cm_direction m \<noteq> OUTBOUND then Inr (Status_Ignored, D)
            else apply_to_message L eventId event shopId m D)))))"

definition MAX_TRANSACTION_RETRIES :: nat where
  "MAX_TRANSACTION_RETRIES = 3"

definition status_retryable :: "failure \<Rightarrow> bool" where
  "status_retryable e \<longleftrightarrow> e = Concurrency_Conflict \<or> e = Prisma_Error P2034"

definition apply_status ::
  "status_library \<Rightarrow> delivery_db env \<Rightarrow> status_event \<Rightarrow> delivery_db \<Rightarrow> status_outcome result \<times> delivery_db" where
  "apply_status L E event D =
     attempt_up_to status_retryable E (\<lambda>n. status_transaction L (env_ids E n 0) event)
       (Service_Error Plain_Error ''Provider status retry limit exceeded'') MAX_TRANSACTION_RETRIES 0 D"

section \<open>The order of the statuses\<close>

text \<open>
  The transitions are those of a chain: pending, sent, failed, delivered, read. A report moves a
  message up the chain or leaves it where it is.
\<close>

primrec status_rank :: "message_status \<Rightarrow> nat" where
  "status_rank MSG_PENDING = 0"
| "status_rank MSG_SENT = 1"
| "status_rank MSG_FAILED = 2"
| "status_rank MSG_DELIVERED = 3"
| "status_rank MSG_READ = 4"

lemma status_rank_inj: "status_rank a = status_rank b \<longleftrightarrow> a = b"
  by (cases a; cases b) simp_all

instantiation message_status :: linorder
begin

definition less_eq_message_status :: "message_status \<Rightarrow> message_status \<Rightarrow> bool" where
  "less_eq_message_status a b \<longleftrightarrow> status_rank a \<le> status_rank b"

definition less_message_status :: "message_status \<Rightarrow> message_status \<Rightarrow> bool" where
  "less_message_status a b \<longleftrightarrow> status_rank a < status_rank b"

instance
  by standard (auto simp: less_eq_message_status_def less_message_status_def status_rank_inj)

end

lemmas status_order = less_eq_message_status_def less_message_status_def

lemma canApply_iff: "canApplyProviderStatus s e \<longleftrightarrow> s \<le> message_status_of e"
  by (cases s; cases e) (simp_all add: canApplyProviderStatus_def status_order)

lemma statusForProviderEvent_max: "statusForProviderEvent s e = max s (message_status_of e)"
  by (auto simp: statusForProviderEvent_def canApply_iff max_def)

lemma delivered_status_iff: "s = MSG_DELIVERED \<or> s = MSG_READ \<longleftrightarrow> MSG_DELIVERED \<le> s"
  by (cases s) (simp_all add: status_order)

lemma delivered_event_iff:
  "e = ST_DELIVERED \<or> e = ST_READ \<longleftrightarrow> MSG_DELIVERED \<le> message_status_of e"
  by (cases e) (simp_all add: status_order)

section \<open>What the transaction does to the message\<close>

definition next_message :: "status_event \<Rightarrow> message \<Rightarrow> message" where
  "next_message event m = write_lifecycle (lifecycleUpdate m (statusForProviderEvent (cm_status m) (ev_status event))
     (ev_occurredAt event) (ev_status event) (canApplyProviderStatus (cm_status m) (ev_status event)) event) m"

definition becomes_delivered :: "status_event \<Rightarrow> message \<Rightarrow> bool" where
  "becomes_delivered event m \<longleftrightarrow> cm_status m < MSG_DELIVERED \<and> MSG_DELIVERED \<le> message_status_of (ev_status event)"

lemma write_no_data [simp]: "write_lifecycle no_data m = m"
  by (simp add: write_lifecycle_def no_data_def set_column_def)

lemma write_lifecycle_keys [simp]:
  "cm_id (write_lifecycle data m) = cm_id m"
  "cm_providerMessageId (write_lifecycle data m) = cm_providerMessageId m"
  "cm_conversationId (write_lifecycle data m) = cm_conversationId m"
  "cm_direction (write_lifecycle data m) = cm_direction m"
  "cm_senderType (write_lifecycle data m) = cm_senderType m"
  by (simp_all add: write_lifecycle_def)

lemma next_message_keys [simp]:
  "cm_id (next_message event m) = cm_id m"
  "cm_providerMessageId (next_message event m) = cm_providerMessageId m"
  "cm_conversationId (next_message event m) = cm_conversationId m"
  "cm_direction (next_message event m) = cm_direction m"
  "cm_senderType (next_message event m) = cm_senderType m"
  by (simp_all add: next_message_def)

lemma cm_status_next [simp]: "cm_status (next_message event m) = max (cm_status m) (message_status_of (ev_status event))"
  by (auto simp: next_message_def write_lifecycle_def lifecycleUpdate_def statusForProviderEvent_max split: option.splits)

lemma becameDelivered_iff:
  "(canApplyProviderStatus (cm_status m) (ev_status event) \<and> (ev_status event = ST_DELIVERED \<or> ev_status event = ST_READ)) \<and>
     cm_status m \<noteq> MSG_DELIVERED \<and> cm_status m \<noteq> MSG_READ \<longleftrightarrow> becomes_delivered event m"
  unfolding becomes_delivered_def
  by (cases "cm_status m"; cases "ev_status event") (simp_all add: canApplyProviderStatus_def status_order)

definition message_keys_ok :: "delivery_db \<Rightarrow> bool" where
  "message_keys_ok D \<longleftrightarrow> distinct (map cm_id (dd_messages D)) \<and>
     (\<forall>x\<in>set (dd_messages D). \<forall>y\<in>set (dd_messages D).
        cm_providerMessageId x = cm_providerMessageId y \<longrightarrow> cm_providerMessageId x \<noteq> None \<longrightarrow> x = y)"

text \<open>The rows a status transaction writes, apart from those of commands and attempts.\<close>

definition delivered_row :: "db \<Rightarrow> id \<Rightarrow> bool" where
  "delivered_row d messageId \<longleftrightarrow> (\<exists>e\<in>set (db_usageEvents d). ue_idempotencyKey e = deliveredUsageKey messageId)"

definition with_delivered ::
  "status_library \<Rightarrow> id \<Rightarrow> id \<Rightarrow> status_event \<Rightarrow> message \<Rightarrow> db \<Rightarrow> db" where
  "with_delivered L eventId shopId event m d =
     (if becomes_delivered event m \<and> \<not> delivered_row d (cm_id m)
      then d\<lparr>db_usageEvents := db_usageEvents d @ [delivered_event L eventId shopId (cm_id m) event]\<rparr> else d)"

text \<open>The parts a status transaction leaves alone.\<close>

definition status_frame :: "delivery_db \<Rightarrow> delivery_db \<Rightarrow> bool" where
  "status_frame D D' \<longleftrightarrow> dd_conversations D' = dd_conversations D \<and> dd_reachability D' = dd_reachability D \<and>
     dd_suppressionDays D' = dd_suppressionDays D \<and>
     map cmd_id (dd_commands D') = map cmd_id (dd_commands D) \<and> map oa_id (dd_attempts D') = map oa_id (dd_attempts D)"

lemma write_message_same:
  assumes "distinct (map cm_id (dd_messages D))" "m \<in> set (dd_messages D)" "cm_direction m = OUTBOUND"
  shows "write_message m data D = Inr (D\<lparr>dd_messages := update_key cm_id (cm_id m) (write_lifecycle data) (dd_messages D)\<rparr>)"
proof (cases "data = no_data")
  case True
  then have "update_key cm_id (cm_id m) (write_lifecycle data) (dd_messages D) = dd_messages D"
    by (simp add: update_key_def map_idI)
  with True show ?thesis by (simp add: write_message_def)
next
  case False
  have "update_many (\<lambda>x. cm_id x = cm_id m \<and> (cm_direction x = OUTBOUND \<and> cm_status x = cm_status m)) f (dd_messages D)
      = (1, update_key cm_id (cm_id m) f (dd_messages D))" for f
    using assms by (intro update_many_hit) simp_all
  with False show ?thesis by (simp add: write_message_def require_def)
qed

lemma converge_command_frame:
  "converge_command event can m D = (b, D') \<Longrightarrow> dd_db D' = dd_db D \<and> dd_messages D' = dd_messages D \<and>
     dd_attempts D' = dd_attempts D \<and> status_frame D D'"
  by (auto simp: converge_command_def status_frame_def update_many_def update_rows_def settled_command_def
      split: option.splits if_splits)

lemma converge_attempt_frame:
  "converge_attempt term at m D = (b, D') \<Longrightarrow> dd_db D' = dd_db D \<and> dd_messages D' = dd_messages D \<and>
     dd_commands D' = dd_commands D \<and> status_frame D D'"
  by (auto simp: converge_attempt_def status_frame_def update_many_def update_rows_def split: option.splits if_splits)

lemma status_frame_trans: "status_frame A B \<Longrightarrow> status_frame B C \<Longrightarrow> status_frame A C"
  by (simp add: status_frame_def)

lemma record_delivered_eq:
  "record_delivered L i s messageId event D =
     (if delivered_row (dd_db D) messageId then Inr D
      else if \<exists>e\<in>set (db_usageEvents (dd_db D)). ue_id e = i then Inl (Prisma_Error P2002)
      else Inr (D\<lparr>dd_db := dd_db D\<lparr>db_usageEvents := db_usageEvents (dd_db D) @ [delivered_event L i s messageId event]\<rparr>\<rparr>))"
proof (cases "delivered_row (dd_db D) messageId")
  case True
  then obtain e where "find_row (\<lambda>e. ue_idempotencyKey e = deliveredUsageKey messageId) (db_usageEvents (dd_db D)) = Some e"
    unfolding delivered_row_def by (meson find_row_None_iff not_None_eq)
  with True show ?thesis by (simp add: record_delivered_def)
next
  case False
  then have "find_row (\<lambda>e. ue_idempotencyKey e = deliveredUsageKey messageId) (db_usageEvents (dd_db D)) = None"
    unfolding delivered_row_def by (simp add: find_row_None_iff)
  with False show ?thesis
    by (auto simp: record_delivered_def create_usage_event_def create_row_def list_ex_iff usage_event_clash_def
        delivered_row_def delivered_event_def and_then_def)
qed

text \<open>
  The whole effect: the row of the message moves, its delivery is counted when it is shown for the
  first time, and only an id the database has already given to a usage event stops the transaction.
\<close>

definition status_effect ::
  "status_library \<Rightarrow> id \<Rightarrow> id \<Rightarrow> status_event \<Rightarrow> message \<Rightarrow> delivery_db \<Rightarrow> delivery_db \<Rightarrow> bool" where
  "status_effect L eventId shopId event m D D' \<longleftrightarrow> status_frame D D' \<and>
     dd_messages D' = update_key cm_id (cm_id m) (next_message event) (dd_messages D) \<and>
     dd_db D' = with_delivered L eventId shopId event m (dd_db D)"

lemma apply_to_message_cases:
  assumes "distinct (map cm_id (dd_messages D))" "m \<in> set (dd_messages D)" "cm_direction m = OUTBOUND"
  shows "apply_to_message L i event s m D = Inl (Prisma_Error P2002) \<and> becomes_delivered event m \<and>
       (\<exists>e\<in>set (db_usageEvents (dd_db D)). ue_id e = i)
    \<or> (\<exists>out D'. apply_to_message L i event s m D = Inr (out, D') \<and> status_effect L i s event m D D')"
proof -
  let ?can = "canApplyProviderStatus (cm_status m) (ev_status event)"
  let ?data = "lifecycleUpdate m (statusForProviderEvent (cm_status m) (ev_status event))
     (ev_occurredAt event) (ev_status event) ?can event"
  let ?fatal = "?can \<and> ev_status event = ST_FAILED \<and>
     is_recipient_undeliverable (set_column (ld_providerFailureCode ?data) (cm_providerFailureCode m))"
  let ?D1 = "D\<lparr>dd_messages := update_key cm_id (cm_id m) (next_message event) (dd_messages D)\<rparr>"
  obtain b D2 where D2: "converge_command event ?can m ?D1 = (b, D2)" by (rule prod.exhaust)
  obtain c D3 where D3: "converge_attempt ?fatal (ev_occurredAt event) m D2 = (c, D3)" by (rule prod.exhaust)
  have "update_key cm_id (cm_id m) (write_lifecycle ?data) (dd_messages D) =
      update_key cm_id (cm_id m) (next_message event) (dd_messages D)"
    using key_inj [OF assms(1)] assms(2) by (intro update_key_cong) (metis next_message_def)
  then have "write_message m ?data D = Inr ?D1" using write_message_same [OF assms, of ?data] by simp
  then have run: "apply_to_message L i event s m D =
      and_then (if becomes_delivered event m then record_delivered L i s (cm_id m) event D3 else Inr D3)
        (\<lambda>D4. Inr (if \<not> ?data \<noteq> no_data \<and> \<not> becomes_delivered event m \<and> \<not> c \<and> \<not> b
           then Status_Ignored else Status_Applied, D4))"
    unfolding apply_to_message_def Let_def by (simp only: becameDelivered_iff and_then_simps D2 D3 prod.case)
  from converge_command_frame [OF D2] converge_attempt_frame [OF D3]
  have D3': "dd_db D3 = dd_db D" "dd_messages D3 = update_key cm_id (cm_id m) (next_message event) (dd_messages D)"
    "status_frame D D3" by (simp_all add: status_frame_def)
  show ?thesis
  proof (cases "becomes_delivered event m \<and> \<not> delivered_row (dd_db D) (cm_id m)")
    case True
    then show ?thesis unfolding run
      using D3' by (auto simp: record_delivered_eq status_effect_def with_delivered_def status_frame_def)
  next
    case False
    then show ?thesis unfolding run
      using D3' by (auto simp: record_delivered_eq status_effect_def with_delivered_def)
  qed
qed

text \<open>The message a report reaches: outbound, with one shop that its conversation and recovery agree on.\<close>

definition reported :: "delivery_db \<Rightarrow> id \<Rightarrow> id \<Rightarrow> message \<Rightarrow> bool" where
  "reported D shopId p m \<longleftrightarrow> message_keys_ok D \<and> m \<in> set (dd_messages D) \<and>
     cm_providerMessageId m = Some p \<and> cm_direction m = OUTBOUND \<and> shopId \<noteq> [] \<and>
     (\<exists>c. conversation_of D m = Some c \<and> status_shop c = Some shopId \<and>
        (\<forall>r\<in>set_option (cv_checkoutRecovery c). snd r = shopId)) \<and>
     count_rows (\<lambda>s. sh_id s = shopId) (db_shops (dd_db D)) = 1"

lemma reported_transaction:
  assumes "reported D s (ev_providerMessageId event) m"
  shows "status_transaction L i event D = apply_to_message L i event s m D"
proof -
  let ?p = "ev_providerMessageId event"
  from assms obtain c where m: "message_keys_ok D" "m \<in> set (dd_messages D)" "cm_providerMessageId m = Some ?p"
      "cm_direction m = OUTBOUND" "s \<noteq> []"
    and c: "conversation_of D m = Some c" "status_shop c = Some s"
      "\<forall>r\<in>set_option (cv_checkoutRecovery c). snd r = s"
    and shop: "count_rows (\<lambda>x. sh_id x = s) (db_shops (dd_db D)) = 1"
    unfolding reported_def by blast
  from m(1) have keys: "distinct (map cm_id (dd_messages D))"
    "\<And>x y. x \<in> set (dd_messages D) \<Longrightarrow> y \<in> set (dd_messages D) \<Longrightarrow>
       cm_providerMessageId x = cm_providerMessageId y \<Longrightarrow> cm_providerMessageId x \<noteq> None \<Longrightarrow> x = y"
    unfolding message_keys_ok_def by blast+
  have pointer: "find_message D (By_Provider_Message ?p) = Some m"
    unfolding find_message_def message_identity.case
  proof (rule find_row_unique [OF m(2)], rule m(3))
    fix y assume y: "y \<in> set (dd_messages D)" "cm_providerMessageId y = Some ?p"
    show "y = m" by (rule keys(2) [OF y(1) m(2)]) (use y m in simp_all)
  qed
  have row: "find_message D (By_Message (cm_id m)) = Some m"
    unfolding find_message_def message_identity.case
    by (rule find_row_unique [OF m(2) refl]) (rule key_inj [OF keys(1) m(2)])
  have shopv: "\<not> truthy (cv_shopId c) \<or> cv_shopId c = Some s"
    using c(2) by (auto simp: status_shop_def truthy_def split: option.splits)
  have "unchanged_message event m s m c"
    unfolding unchanged_message_def using m(3) c shopv by simp
  moreover have "truthy (Some s)" using m(5) by (simp add: truthy_def)
  ultimately show ?thesis
    unfolding status_transaction_def using pointer row c(1,2) shop m(4) by (simp add: Let_def)
qed

text \<open>Any run of the transaction, whatever the message: nothing, or the effect on one outbound message.\<close>

lemma status_transaction_InrD:
  assumes "status_transaction L i event D = Inr (out, D')" "message_keys_ok D"
  shows "(D' = D \<and> out \<noteq> Status_Applied) \<or>
    (\<exists>m s. m \<in> set (dd_messages D) \<and> cm_direction m = OUTBOUND \<and>
       cm_providerMessageId m = Some (ev_providerMessageId event) \<and> s \<noteq> [] \<and>
       apply_to_message L i event s m D = Inr (out, D') \<and> status_effect L i s event m D D')"
proof (cases "find_message D (By_Provider_Message (ev_providerMessageId event))")
  case None
  with assms(1) show ?thesis by (simp add: status_transaction_def)
next
  case (Some pointer)
  let ?shop = "Option.bind (conversation_of D pointer) status_shop"
  show ?thesis
  proof (cases "truthy ?shop")
    case False
    with Some assms(1) show ?thesis by (simp add: status_transaction_def)
  next
    case True
    from assms(1) True obtain m c where row: "find_message D (By_Message (cm_id pointer)) = Some m"
      and same: "unchanged_message event pointer (the ?shop) m c"
      and run: "(if cm_direction m \<noteq> OUTBOUND then Inr (Status_Ignored, D)
                 else apply_to_message L i event (the ?shop) m D) = Inr (out, D')"
      unfolding status_transaction_def Some option.case Let_def by (auto simp: result_iffs)
    from row have m: "m \<in> set (dd_messages D)"
      by (auto simp: find_message_def dest: find_row_SomeD)
    from same have p: "cm_providerMessageId m = Some (ev_providerMessageId event)"
      by (simp add: unchanged_message_def)
    from True have s: "the ?shop \<noteq> []" by (cases ?shop) (simp_all add: truthy_def)
    show ?thesis
    proof (cases "cm_direction m = OUTBOUND")
      case True
      with run have run': "apply_to_message L i event (the ?shop) m D = Inr (out, D')" by simp
      from assms(2) have "distinct (map cm_id (dd_messages D))" by (simp add: message_keys_ok_def)
      from apply_to_message_cases [OF this m True, of L i event "the ?shop"] run'
      have "status_effect L i (the ?shop) event m D D'" by auto
      with m True p s run' show ?thesis by blast
    next
      case False
      with run show ?thesis by simp
    qed
  qed
qed

section \<open>Invariants of the reports\<close>

lemma update_next_set:
  "x \<in> set (update_key cm_id k (next_message event) ms) \<longleftrightarrow>
     (\<exists>y\<in>set ms. x = (if cm_id y = k then next_message event y else y))"
  by (simp add: set_update_key)

lemma update_next_ids [simp]:
  "map cm_id (update_key cm_id k (next_message event) ms) = map cm_id ms"
  by (rule map_update_key) simp

lemma effect_keys:
  assumes "status_effect L i s event m D D'" "message_keys_ok D"
  shows "message_keys_ok D'"
proof -
  from assms(2) have keys: "distinct (map cm_id (dd_messages D))"
    "\<forall>x\<in>set (dd_messages D). \<forall>y\<in>set (dd_messages D).
       cm_providerMessageId x = cm_providerMessageId y \<longrightarrow> cm_providerMessageId x \<noteq> None \<longrightarrow> x = y"
    unfolding message_keys_ok_def by blast+
  from assms(1) have ms: "dd_messages D' = update_key cm_id (cm_id m) (next_message event) (dd_messages D)"
    by (simp add: status_effect_def)
  have "x' = y'" if x': "x' \<in> set (dd_messages D')" and y': "y' \<in> set (dd_messages D')"
    and same: "cm_providerMessageId x' = cm_providerMessageId y'" "cm_providerMessageId x' \<noteq> None" for x' y'
  proof -
    from x' obtain x where x: "x \<in> set (dd_messages D)" "x' = (if cm_id x = cm_id m then next_message event x else x)"
      unfolding ms update_next_set by blast
    from y' obtain y where y: "y \<in> set (dd_messages D)" "y' = (if cm_id y = cm_id m then next_message event y else y)"
      unfolding ms update_next_set by blast
    from same x(2) y(2) have "cm_providerMessageId x = cm_providerMessageId y" "cm_providerMessageId x \<noteq> None"
      by (simp_all split: if_splits)
    with keys(2) x(1) y(1) have "x = y" by blast
    with x(2) y(2) show ?thesis by simp
  qed
  with keys(1) show ?thesis unfolding message_keys_ok_def ms by (simp add: ms)
qed

text \<open>A delivered message has been counted once, any other not at all.\<close>

definition delivered_count :: "delivery_db \<Rightarrow> id \<Rightarrow> nat" where
  "delivered_count D messageId =
     count_rows (\<lambda>e. ue_idempotencyKey e = deliveredUsageKey messageId) (db_usageEvents (dd_db D))"

definition delivered_counted :: "delivery_db \<Rightarrow> bool" where
  "delivered_counted D \<longleftrightarrow> (\<forall>m\<in>set (dd_messages D). cm_direction m = OUTBOUND \<longrightarrow>
     delivered_count D (cm_id m) = (if MSG_DELIVERED \<le> cm_status m then 1 else 0))"

lemma deliveredUsageKey_inj: "deliveredUsageKey a = deliveredUsageKey b \<longleftrightarrow> a = b"
  by (simp add: deliveredUsageKey_def)

lemma delivered_row_iff: "delivered_row (dd_db D) i \<longleftrightarrow> delivered_count D i \<noteq> 0"
  by (auto simp: delivered_row_def delivered_count_def count_rows_def filter_empty_conv)

lemma effect_delivered_count:
  assumes "status_effect L i s event m D D'"
  shows "delivered_count D' k = delivered_count D k +
    (if k = cm_id m \<and> becomes_delivered event m \<and> delivered_count D k = 0 then 1 else 0)"
proof -
  from assms have "dd_db D' = with_delivered L i s event m (dd_db D)" by (simp add: status_effect_def)
  then show ?thesis
    by (auto simp: with_delivered_def delivered_row_iff)
      (auto simp: delivered_count_def count_rows_def delivered_event_def deliveredUsageKey_inj)
qed

lemma effect_delivered_counted:
  assumes "status_effect L i s event m D D'" "message_keys_ok D" "delivered_counted D"
    and "m \<in> set (dd_messages D)" "cm_direction m = OUTBOUND"
  shows "delivered_counted D'"
  unfolding delivered_counted_def
proof (intro ballI impI)
  fix x' assume x': "x' \<in> set (dd_messages D')" "cm_direction x' = OUTBOUND"
  from assms(1) have ms: "dd_messages D' = update_key cm_id (cm_id m) (next_message event) (dd_messages D)"
    by (simp add: status_effect_def)
  from x'(1) obtain x where x: "x \<in> set (dd_messages D)" "x' = (if cm_id x = cm_id m then next_message event x else x)"
    unfolding ms update_next_set by blast
  have before: "delivered_count D (cm_id y) = (if MSG_DELIVERED \<le> cm_status y then 1 else 0)"
    if "y \<in> set (dd_messages D)" "cm_direction y = OUTBOUND" for y
    using assms(3) that by (simp add: delivered_counted_def)
  show "delivered_count D' (cm_id x') = (if MSG_DELIVERED \<le> cm_status x' then 1 else 0)"
  proof (cases "cm_id x = cm_id m")
    case True
    with assms(2,4) x(1) have "x = m" by (auto simp: message_keys_ok_def dest: key_inj)
    with x(2) have x'm: "x' = next_message event m" by simp
    show ?thesis
      unfolding effect_delivered_count [OF assms(1)] x'm
      using before [OF assms(4,5)] by (auto simp: becomes_delivered_def le_max_iff_disj not_le)
  next
    case False
    with x have "x' = x" by simp
    with False x' show ?thesis using before [OF x(1)] by (simp add: effect_delivered_count [OF assms(1)])
  qed
qed

text \<open>What the columns of a message say agrees with its status, and a column once set keeps its value.\<close>

definition message_times_ok :: "message \<Rightarrow> bool" where
  "message_times_ok m \<longleftrightarrow> (MSG_DELIVERED \<le> cm_status m \<longrightarrow> cm_deliveredAt m \<noteq> None) \<and>
     (cm_status m = MSG_READ \<longleftrightarrow> cm_readAt m \<noteq> None) \<and> (cm_status m = MSG_FAILED \<longrightarrow> cm_failedAt m \<noteq> None)"

definition messages_ok :: "delivery_db \<Rightarrow> bool" where
  "messages_ok D \<longleftrightarrow> (\<forall>m\<in>set (dd_messages D). cm_direction m = OUTBOUND \<longrightarrow> message_times_ok m)"

definition keeps_column :: "'a option \<Rightarrow> 'a option \<Rightarrow> bool" where
  "keeps_column old new \<longleftrightarrow> (old = None \<or> new = old)"

definition later_message :: "message \<Rightarrow> message \<Rightarrow> bool" where
  "later_message m m' \<longleftrightarrow> cm_status m \<le> cm_status m' \<and> keeps_column (cm_sentAt m) (cm_sentAt m') \<and>
     keeps_column (cm_deliveredAt m) (cm_deliveredAt m') \<and> keeps_column (cm_readAt m) (cm_readAt m') \<and>
     keeps_column (cm_failedAt m) (cm_failedAt m') \<and>
     (truthy (cm_providerFailureCode m) \<longrightarrow> cm_providerFailureCode m' = cm_providerFailureCode m)"

lemma next_message_later: "later_message m (next_message event m)"
  by (simp add: later_message_def)
    (simp add: next_message_def write_lifecycle_def lifecycleUpdate_def keeps_column_def set_column_def
      split: option.splits if_splits)

lemma next_message_times:
  assumes "message_times_ok m"
  shows "message_times_ok (next_message event m)"
  using assms
  by (cases "cm_status m"; cases "ev_status event")
    (auto simp: message_times_ok_def next_message_def write_lifecycle_def lifecycleUpdate_def set_column_def
      canApplyProviderStatus_def statusForProviderEvent_def status_order split: option.splits)

lemma effect_messages_ok:
  assumes "status_effect L i s event m D D'" "messages_ok D"
  shows "messages_ok D'"
  using assms next_message_times unfolding messages_ok_def status_effect_def
  by (auto simp: update_next_set)

lemma later_message_refl: "later_message m m"
  by (simp add: later_message_def keeps_column_def)

lemma effect_later:
  assumes "status_effect L i s event m D D'" "x \<in> set (dd_messages D)"
  shows "\<exists>x'\<in>set (dd_messages D'). cm_id x' = cm_id x \<and> later_message x x'"
proof -
  from assms(1) have ms: "dd_messages D' = update_key cm_id (cm_id m) (next_message event) (dd_messages D)"
    by (simp add: status_effect_def)
  show ?thesis
  proof (intro bexI conjI)
    let ?x = "if cm_id x = cm_id m then next_message event x else x"
    show "?x \<in> set (dd_messages D')" using assms(2) unfolding ms update_next_set by blast
    show "cm_id ?x = cm_id x" "later_message x ?x" by (simp_all add: next_message_later later_message_refl)
  qed
qed

text \<open>The three invariants together, for every committed report.\<close>

definition reports_ok :: "delivery_db \<Rightarrow> bool" where
  "reports_ok D \<longleftrightarrow> message_keys_ok D \<and> delivered_counted D \<and> messages_ok D"

lemma status_transaction_ok:
  assumes "status_transaction L i event D = Inr (out, D')" "reports_ok D"
  shows "reports_ok D'"
proof -
  from assms(2) have ok: "message_keys_ok D" "delivered_counted D" "messages_ok D" by (simp_all add: reports_ok_def)
  from status_transaction_InrD [OF assms(1) ok(1)] show ?thesis
  proof (elim disjE exE conjE)
    assume "D' = D"
    with assms(2) show ?thesis by simp
  next
    fix m s assume m: "m \<in> set (dd_messages D)" "cm_direction m = OUTBOUND" and eff: "status_effect L i s event m D D'"
    from effect_keys [OF eff ok(1)] effect_delivered_counted [OF eff ok(1,2) m] effect_messages_ok [OF eff ok(3)]
    show ?thesis by (simp add: reports_ok_def)
  qed
qed

lemma apply_status_ok:
  assumes "reports_ok D" "\<And>n D. reports_ok D \<Longrightarrow> reports_ok (env_step E n D)"
  shows "reports_ok (snd (apply_status L E event D))"
  unfolding apply_status_def
proof (rule attempt_up_to_invariant [where I = reports_ok, OF assms])
  show "reports_ok D'" if "reports_ok D" "status_transaction L (env_ids E n 0) event D = Inr (out, D')" for n D out D'
    using status_transaction_ok [OF that(2,1)] .
qed

lemma keeps_column_trans: "keeps_column a b \<Longrightarrow> keeps_column b c \<Longrightarrow> keeps_column a c"
  by (auto simp: keeps_column_def)

lemma later_message_trans: "later_message a b \<Longrightarrow> later_message b c \<Longrightarrow> later_message a c"
  unfolding later_message_def by (metis keeps_column_trans order_trans)

section \<open>A sequence of reports on one message\<close>

primrec report_all ::
  "status_library \<Rightarrow> (id \<times> status_event) list \<Rightarrow> delivery_db \<Rightarrow> delivery_db result" where
  "report_all L [] D = Inr D"
| "report_all L (e # es) D = and_then (status_transaction L (fst e) (snd e) D) (\<lambda>(_, D'). report_all L es D')"

definition report_status :: "id \<times> status_event \<Rightarrow> message_status" where
  "report_status e = message_status_of (ev_status (snd e))"

lemma effect_reported:
  assumes "status_effect L i s event m D D'" "reported D s p m"
  shows "reported D' s p (next_message event m)"
proof -
  from assms(1) have ms: "dd_messages D' = update_key cm_id (cm_id m) (next_message event) (dd_messages D)"
    and frame: "dd_conversations D' = dd_conversations D" "db_shops (dd_db D') = db_shops (dd_db D)"
    by (simp_all add: status_effect_def status_frame_def with_delivered_def)
  from assms(2) have "message_keys_ok D" "m \<in> set (dd_messages D)" by (simp_all add: reported_def)
  with assms(1) effect_keys have "message_keys_ok D'" "next_message event m \<in> set (dd_messages D')"
    unfolding ms update_next_set by auto
  with assms(2) frame show ?thesis by (simp add: reported_def conversation_of_def find_conversation_def)
qed

definition fresh_event_ids :: "(id \<times> status_event) list \<Rightarrow> delivery_db \<Rightarrow> bool" where
  "fresh_event_ids es D \<longleftrightarrow> distinct (map fst es) \<and> fst ` set es \<inter> ue_id ` set (db_usageEvents (dd_db D)) = {}"

lemma report_step:
  assumes "reported D s p m" "fresh_event_ids (e # es) D" "ev_providerMessageId (snd e) = p"
  obtains out D' where "status_transaction L (fst e) (snd e) D = Inr (out, D')"
    "status_effect L (fst e) s (snd e) m D D'" "reported D' s p (next_message (snd e) m)" "fresh_event_ids es D'"
proof -
  from assms(1) have m: "distinct (map cm_id (dd_messages D))" "m \<in> set (dd_messages D)" "cm_direction m = OUTBOUND"
    by (simp_all add: reported_def message_keys_ok_def)
  from assms(2) have "\<not> (\<exists>u\<in>set (db_usageEvents (dd_db D)). ue_id u = fst e)"
    by (simp add: fresh_event_ids_def) (metis image_eqI)
  with apply_to_message_cases [OF m, of L "fst e" "snd e" s] obtain out D' where
    run: "apply_to_message L (fst e) (snd e) s m D = Inr (out, D')" and eff: "status_effect L (fst e) s (snd e) m D D'"
    by blast
  from reported_transaction assms(1,3) run have "status_transaction L (fst e) (snd e) D = Inr (out, D')" by metis
  moreover have "fresh_event_ids es D'"
    using assms(2) eff by (auto simp: fresh_event_ids_def status_effect_def with_delivered_def delivered_event_def)
  ultimately show ?thesis using that eff effect_reported [OF eff assms(1)] by blast
qed

lemma report_all_status:
  assumes "reported D s p m" "fresh_event_ids es D" "\<And>e. e \<in> set es \<Longrightarrow> ev_providerMessageId (snd e) = p"
  shows "\<exists>D' m'. report_all L es D = Inr D' \<and> reported D' s p m' \<and> cm_id m' = cm_id m \<and>
    cm_status m' = fold max (map report_status es) (cm_status m) \<and>
    (reports_ok D \<longrightarrow> reports_ok D')"
  using assms
proof (induction es arbitrary: D m)
  case Nil
  then show ?case by auto
next
  case (Cons e es)
  from Cons.prems(3) have p: "ev_providerMessageId (snd e) = p" by simp
  from report_step [OF Cons.prems(1,2) p, of L] obtain out D1 where
    run: "status_transaction L (fst e) (snd e) D = Inr (out, D1)" and
    next1: "reported D1 s p (next_message (snd e) m)" "fresh_event_ids es D1" by blast
  from Cons.IH [OF next1] Cons.prems(3) obtain D' m' where
    rest: "report_all L es D1 = Inr D'" "reported D' s p m'" "cm_id m' = cm_id (next_message (snd e) m)"
      "cm_status m' = fold max (map report_status es) (cm_status (next_message (snd e) m))"
      "reports_ok D1 \<longrightarrow> reports_ok D'" by auto
  with run status_transaction_ok [OF run] show ?case
    by (intro exI [of _ D'] exI [of _ m']) (simp add: report_status_def [of e] max.commute)
qed

lemma fold_max_Max: "fold max xs (a :: message_status) = Max (insert a (set xs))"
  using Max.set_eq_fold [of a xs] by simp

section \<open>What an error leaves\<close>

text \<open>
  An error is that of one attempt, whose state is what the other transactions made of the first;
  the attempts before it failed with an error that is retried, and such an error is the last one.
\<close>

lemma attempt_up_to_error:
  assumes "attempt_up_to retryable E body err left n s = (Inl e, s')" "0 < left"
  shows "\<exists>k<left. s' = env_state E n k s \<and> run_attempt E body (n + k) s' = Inl e \<and>
    (retryable e \<longrightarrow> Suc k = left) \<and>
    (\<forall>j<k. \<exists>e'. run_attempt E body (n + j) (env_state E n j s) = Inl e' \<and> retryable e')"
  using assms
proof (induction left arbitrary: n s)
  case (Suc left)
  let ?s1 = "env_step E n s"
  show ?case
  proof (cases "run_attempt E body n ?s1")
    case (Inr p)
    with Suc.prems(1) show ?thesis by (simp add: Let_def split: prod.splits)
  next
    case (Inl e')
    show ?thesis
    proof (cases "\<not> retryable e' \<or> left = 0")
      case True
      with Inl Suc.prems(1) have "e' = e" "s' = ?s1" by (auto simp: Let_def)
      with True Inl show ?thesis by (intro exI [of _ 0]) auto
    next
      case False
      with Inl Suc.prems(1) have "attempt_up_to retryable E body err left (Suc n) ?s1 = (Inl e, s')"
        by (simp add: Let_def)
      from Suc.IH [OF this] False obtain k where k: "k < left" "s' = env_state E (Suc n) k ?s1"
          "run_attempt E body (Suc n + k) s' = Inl e" "retryable e \<longrightarrow> Suc k = left"
          "\<forall>j<k. \<exists>e'. run_attempt E body (Suc n + j) (env_state E (Suc n) j ?s1) = Inl e' \<and> retryable e'"
        by auto
      have "\<exists>e'. run_attempt E body (n + j) (env_state E n j s) = Inl e' \<and> retryable e'" if "j < Suc k" for j
        using k(5) Inl False that by (cases j) auto
      with k show ?thesis by (intro exI [of _ "Suc k"]) auto
    qed
  qed
qed simp

end
