(* ===== verification/Recipient_Reachability.thy ===== *)
theory Recipient_Reachability
  imports Delivery_Replay
begin

text \<open>
  What the platform remembers of the reachability of a recipient:
  \<open>src/services/recipient-reachability-store.ts\<close> (two atomic upserts of the row of a shop and a
  recipient), \<open>recipient-reachability-failure.service.ts\<close> (a corrected delivery failure suppresses its
  recipient) and \<open>recipient-reachability-positive.service.ts\<close> (a delivery or an answer lifts the
  suppression), with \<open>checkout-recovery/recovery-recipient-canonicalization.ts\<close>.
\<close>

section \<open>Recipients\<close>

definition is_digit :: "char \<Rightarrow> bool" where
  "is_digit c \<longleftrightarrow> (let n = of_char c :: nat in 48 \<le> n \<and> n \<le> 57)"

definition canonicalizeRecoveryRecipient :: "string option \<Rightarrow> string option" where
  "canonicalizeRecoveryRecipient phone =
     (let digits = (case phone of None \<Rightarrow> [] | Some p \<Rightarrow> filter is_digit p) in
      if 1 \<le> length digits \<and> length digits \<le> 64 then Some digits else None)"

lemma canonicalizeRecoveryRecipient_idem:
  "canonicalizeRecoveryRecipient phone = Some r \<Longrightarrow> canonicalizeRecoveryRecipient (Some r) = Some r"
  by (auto simp: canonicalizeRecoveryRecipient_def Let_def split: if_splits option.splits)

section \<open>The store\<close>

definition DAY_MS :: int where
  "DAY_MS = 24 * 60 * 60 * 1000"

definition max_date :: int where
  "max_date = 8640000000000000"

datatype reachability_write = Recorded | Unchanged

definition is_row :: "id \<Rightarrow> string \<Rightarrow> reachability \<Rightarrow> bool" where
  "is_row shopId recipient r \<longleftrightarrow> rr_shopId r = shopId \<and> rr_recipient r = recipient"

definition find_reachability :: "delivery_db \<Rightarrow> id \<Rightarrow> string \<Rightarrow> reachability option" where
  "find_reachability D shopId recipient = find_row (is_row shopId recipient) (dd_reachability D)"

text \<open>A comparison with a column that is null is not true in SQL.\<close>

definition before :: "time option \<Rightarrow> time \<Rightarrow> bool" where
  "before column t \<longleftrightarrow> (case column of None \<Rightarrow> False | Some x \<Rightarrow> x < t)"

definition not_after :: "time option \<Rightarrow> time \<Rightarrow> bool" where
  "not_after column t \<longleftrightarrow> (case column of None \<Rightarrow> False | Some x \<Rightarrow> x \<le> t)"

text \<open>
  \<open>INSERT \<dots> ON CONFLICT ("shopId", "recipient") DO UPDATE SET \<dots> WHERE \<dots> RETURNING "version"\<close>: a new row,
  or the row there updated when the condition holds; nothing is returned when it does not.
\<close>

definition upsert_reachability ::
  "reachability \<Rightarrow> (reachability \<Rightarrow> bool) \<Rightarrow> (reachability \<Rightarrow> reachability) \<Rightarrow> delivery_db \<Rightarrow> reachability_write \<times> delivery_db" where
  "upsert_reachability new guard set_row D =
     (case find_reachability D (rr_shopId new) (rr_recipient new) of
        None \<Rightarrow> (Recorded, D\<lparr>dd_reachability := dd_reachability D @ [new]\<rparr>)
      | Some r \<Rightarrow>
          if guard r then
            (Recorded, D\<lparr>dd_reachability := update_rows (is_row (rr_shopId new) (rr_recipient new)) set_row (dd_reachability D)\<rparr>)
          else (Unchanged, D))"

definition failure_row :: "id \<Rightarrow> string \<Rightarrow> string \<Rightarrow> time \<Rightarrow> time \<Rightarrow> reachability" where
  "failure_row shopId recipient providerCode failureAt until =
     \<lparr>rr_shopId = shopId, rr_recipient = recipient, rr_lastProviderFailureCode = Some providerCode,
      rr_lastFailureAt = Some failureAt, rr_lastSuccessfulAt = None, rr_suppressUntil = Some until, rr_version = 1\<rparr>"

definition failure_guard :: "time \<Rightarrow> reachability \<Rightarrow> bool" where
  "failure_guard failureAt r \<longleftrightarrow>
     (rr_lastFailureAt r = None \<or> before (rr_lastFailureAt r) failureAt) \<and>
     (rr_lastSuccessfulAt r = None \<or> before (rr_lastSuccessfulAt r) failureAt)"

definition failure_set :: "string \<Rightarrow> time \<Rightarrow> time \<Rightarrow> reachability \<Rightarrow> reachability" where
  "failure_set providerCode failureAt until r =
     r\<lparr>rr_lastProviderFailureCode := Some providerCode, rr_lastFailureAt := Some failureAt,
       rr_suppressUntil := Some until, rr_version := rr_version r + 1\<rparr>"

text \<open>The end of the suppression; a policy that is missing counts as seven days.\<close>

definition suppression_end :: "delivery_db \<Rightarrow> time \<Rightarrow> time result" where
  "suppression_end D failureAt =
     (let days = (case dd_suppressionDays D of None \<Rightarrow> JsInt 7 | Some d \<Rightarrow> d) in
      case days of
        JsInt n \<Rightarrow>
          and_then (require (is_safe_int n \<and> 0 < n)
            (Service_Error Plain_Error ''Invalid WhatsApp recipient suppression policy'')) (\<lambda>_.
          and_then (require (\<bar>failureAt + n * DAY_MS\<bar> \<le> max_date)
            (Service_Error Plain_Error ''WhatsApp recipient suppression exceeds supported date range'')) (\<lambda>_.
          Inr (failureAt + n * DAY_MS)))
      | JsNonInteger \<Rightarrow> Inl (Service_Error Plain_Error ''Invalid WhatsApp recipient suppression policy''))"

definition recordFailure ::
  "id \<Rightarrow> string \<Rightarrow> time \<Rightarrow> string \<Rightarrow> delivery_db \<Rightarrow> (reachability_write \<times> delivery_db) result" where
  "recordFailure shopId recipient failureAt providerCode D =
     and_then (suppression_end D failureAt) (\<lambda>until.
     Inr (upsert_reachability (failure_row shopId recipient providerCode failureAt until)
       (failure_guard failureAt) (failure_set providerCode failureAt until) D))"

definition success_row :: "id \<Rightarrow> string \<Rightarrow> time \<Rightarrow> reachability" where
  "success_row shopId recipient successfulAt =
     \<lparr>rr_shopId = shopId, rr_recipient = recipient, rr_lastProviderFailureCode = None, rr_lastFailureAt = None,
      rr_lastSuccessfulAt = Some successfulAt, rr_suppressUntil = None, rr_version = 1\<rparr>"

definition success_guard :: "time \<Rightarrow> reachability \<Rightarrow> bool" where
  "success_guard successfulAt r \<longleftrightarrow>
     rr_lastSuccessfulAt r = None \<or> before (rr_lastSuccessfulAt r) successfulAt \<or>
     (rr_suppressUntil r \<noteq> None \<and> not_after (rr_lastFailureAt r) successfulAt)"

text \<open>\<open>GREATEST\<close> ignores a null.\<close>

definition success_set :: "time \<Rightarrow> reachability \<Rightarrow> reachability" where
  "success_set successfulAt r =
     r\<lparr>rr_lastSuccessfulAt := Some (case rr_lastSuccessfulAt r of None \<Rightarrow> successfulAt | Some s \<Rightarrow> max s successfulAt),
       rr_suppressUntil := (if rr_lastFailureAt r = None \<or> not_after (rr_lastFailureAt r) successfulAt
         then None else rr_suppressUntil r),
       rr_version := rr_version r + 1\<rparr>"

definition recordSuccess :: "id \<Rightarrow> string \<Rightarrow> time \<Rightarrow> delivery_db \<Rightarrow> reachability_write \<times> delivery_db" where
  "recordSuccess shopId recipient successfulAt D =
     upsert_reachability (success_row shopId recipient successfulAt) (success_guard successfulAt)
       (success_set successfulAt) D"

section \<open>A corrected failure\<close>

datatype reachability_failure_outcome = Not_Applicable | Deferred | Suppressed | Failure_Unchanged

fun is_corrected :: "compensation_outcome \<Rightarrow> bool" where
  "is_corrected Released_Credit = True"
| "is_corrected Already_Released = True"
| "is_corrected (Compensated _) = True"
| "is_corrected _ = False"

definition conflicting :: "id option \<Rightarrow> id \<Rightarrow> bool" where
  "conflicting value expected \<longleftrightarrow> truthy value \<and> value \<noteq> Some expected"

text \<open>
  The lineage of lines 60--78: the recovery of the conversation, its shop and the attempt, which
  the message is linked to or its command names. \<open>None\<close> is the throw.
\<close>

definition command_attempt :: "delivery_db \<Rightarrow> send_command option \<Rightarrow> outreach_attempt option" where
  "command_attempt D command = Option.bind (Option.bind command cmd_recoveryOutreachAttemptId) (find_attempt D)"

definition sender_lineage_ok :: "message \<Rightarrow> send_command option \<Rightarrow> outreach_attempt \<Rightarrow> bool" where
  "sender_lineage_ok m command a \<longleftrightarrow>
     (cm_senderType m = SENDER_HUMAN \<longrightarrow> (case command of None \<Rightarrow> False
        | Some c \<Rightarrow> cmd_kind c = RECOVERY_FOLLOW_UP_TEMPLATE \<and> cmd_recoveryOutreachAttemptId c = Some (oa_id a))) \<and>
     (cm_senderType m = SENDER_AUTOMATION \<longrightarrow> command = None) \<and>
     (cm_senderType m = SENDER_HUMAN \<or> cm_senderType m = SENDER_AUTOMATION)"

definition failure_lineage :: "delivery_db \<Rightarrow> message \<Rightarrow> (id \<times> outreach_attempt \<times> time) option" where
  "failure_lineage D m =
     (let conversation = conversation_of D m;
          command = find_command_of_message D (cm_id m);
          linkedAttempt = find_attempt_of_message D (cm_id m);
          attempt = (case linkedAttempt of Some a \<Rightarrow> Some a | None \<Rightarrow> command_attempt D command) in
      case Option.bind conversation cv_checkoutRecovery of
        None \<Rightarrow> None
      | Some (recoveryId, shopId) \<Rightarrow>
          (case (attempt, cm_failedAt m) of
             (Some a, Some failedAt) \<Rightarrow>
               if shopId = [] \<or>
                  conflicting (Option.bind conversation cv_shopId) shopId \<or>
                  oa_checkoutRecoveryId a \<noteq> recoveryId \<or>
                  conflicting (oa_outboundMessageId a) (cm_id m) \<or>
                  (\<exists>l\<in>set_option linkedAttempt.
                     conflicting (Option.bind command cmd_recoveryOutreachAttemptId) (oa_id l)) \<or>
                  (\<exists>c\<in>set_option command. cmd_shopId c \<noteq> shopId \<or> cmd_conversationId c \<noteq> cm_conversationId m) \<or>
                  \<not> sender_lineage_ok m command a
               then None else Some (shopId, a, failedAt)
           | _ \<Rightarrow> None))"

text \<open>
  The suppression after a correction. The source reads the message and its lineage first and then writes the row of the
  recipient, as two statements without a transaction around them; here they are one step, so that a change of the
  message between the two is not shown. The write itself is one statement that compares the times of the evidence.
\<close>

definition after_correction ::
  "message_identity \<Rightarrow> compensation_outcome \<Rightarrow> delivery_db \<Rightarrow> (reachability_failure_outcome \<times> delivery_db) result" where
  "after_correction identity correction D =
     (case find_message D identity of
        None \<Rightarrow> Inr (Not_Applicable, D)
      | Some m \<Rightarrow>
          if cm_direction m \<noteq> OUTBOUND \<or> cm_status m \<noteq> MSG_FAILED \<or>
             \<not> is_recipient_undeliverable (cm_providerFailureCode m) then Inr (Not_Applicable, D)
          else if correction = Purchased_Compensation_Required then Inr (Deferred, D)
          else if \<not> is_corrected correction then Inr (Not_Applicable, D)
          else
            and_then (expect (failure_lineage D m) (Service_Error Plain_Error
              ''Corrected failure lacks exact recovery/attempt/Shop reachability lineage'')) (\<lambda>(shopId, a, failedAt).
            and_then (require (canonicalizeRecoveryRecipient (Some (oa_recipient a)) = Some (oa_recipient a))
              (Service_Error Plain_Error ''Corrected attempt has no canonical recipient snapshot'')) (\<lambda>_.
            and_then (recordFailure shopId (oa_recipient a) failedAt ''131026'' D) (\<lambda>(written, D').
            Inr (case written of Recorded \<Rightarrow> Suppressed | Unchanged \<Rightarrow> Failure_Unchanged, D')))))"

section \<open>Positive evidence\<close>

datatype reachability_positive_outcome = Positive_Recorded | Positive_Unchanged | Positive_Not_Applicable

definition positive_outcome :: "reachability_write \<Rightarrow> reachability_positive_outcome" where
  "positive_outcome w = (case w of Recorded \<Rightarrow> Positive_Recorded | Unchanged \<Rightarrow> Positive_Unchanged)"

definition delivery_lineage :: "delivery_db \<Rightarrow> message \<Rightarrow> (id \<times> outreach_attempt) option" where
  "delivery_lineage D m =
     (let conversation = conversation_of D m;
          command = find_command_of_message D (cm_id m);
          attempt = (case find_attempt_of_message D (cm_id m) of
            Some a \<Rightarrow> Some a | None \<Rightarrow> command_attempt D command) in
      case (Option.bind conversation cv_checkoutRecovery, attempt) of
        (Some (recoveryId, shopId), Some a) \<Rightarrow>
          if shopId = [] \<or> oa_checkoutRecoveryId a \<noteq> recoveryId \<or>
             conflicting (oa_outboundMessageId a) (cm_id m) \<or>
             conflicting (Option.bind conversation cv_shopId) shopId \<or>
             (\<exists>c\<in>set_option command. cmd_shopId c \<noteq> shopId) \<or>
             \<not> sender_lineage_ok m command a
          then None else Some (shopId, a)
      | _ \<Rightarrow> None)"

text \<open>A delivery of the message itself outranks its failure, whatever the provider's clock says.\<close>

definition success_time :: "message \<Rightarrow> time option" where
  "success_time m =
     map_option (\<lambda>t. case cm_failedAt m of Some f \<Rightarrow> (if t < f then f else t) | None \<Rightarrow> t)
       (case cm_readAt m of Some t \<Rightarrow> Some t | None \<Rightarrow> cm_deliveredAt m)"

definition from_provider_delivery :: "id \<Rightarrow> delivery_db \<Rightarrow> reachability_positive_outcome \<times> delivery_db" where
  "from_provider_delivery providerMessageId D =
     (case find_message D (By_Provider_Message providerMessageId) of
        None \<Rightarrow> (Positive_Not_Applicable, D)
      | Some m \<Rightarrow>
          if cm_direction m \<noteq> OUTBOUND \<or> (cm_status m \<noteq> MSG_DELIVERED \<and> cm_status m \<noteq> MSG_READ)
          then (Positive_Not_Applicable, D)
          else
            (case delivery_lineage D m of
               None \<Rightarrow> (Positive_Not_Applicable, D)
             | Some (shopId, a) \<Rightarrow>
                 if canonicalizeRecoveryRecipient (Some (oa_recipient a)) \<noteq> Some (oa_recipient a)
                 then (Positive_Not_Applicable, D)
                 else
                   (case success_time m of
                      None \<Rightarrow> (Positive_Not_Applicable, D)
                    | Some t \<Rightarrow> map_prod positive_outcome id (recordSuccess shopId (oa_recipient a) t D))))"

definition from_routed_inbound ::
  "id \<Rightarrow> id \<Rightarrow> id \<Rightarrow> string option \<Rightarrow> delivery_db \<Rightarrow> reachability_positive_outcome \<times> delivery_db" where
  "from_routed_inbound shopId conversationId providerMessageId customerPhone D =
     (case canonicalizeRecoveryRecipient customerPhone of
        None \<Rightarrow> (Positive_Not_Applicable, D)
      | Some recipient \<Rightarrow>
          (case find_message D (By_Provider_Message providerMessageId) of
             None \<Rightarrow> (Positive_Not_Applicable, D)
           | Some inbound \<Rightarrow>
               let conversation = conversation_of D inbound in
               if cm_direction inbound \<noteq> INBOUND \<or> cm_senderType inbound \<noteq> SENDER_CUSTOMER \<or>
                  cm_conversationId inbound \<noteq> conversationId \<or>
                  Option.bind conversation conversation_shop \<noteq> Some shopId \<or>
                  conflicting (Option.bind conversation cv_shopId) shopId
               then (Positive_Not_Applicable, D)
               else map_prod positive_outcome id (recordSuccess shopId recipient (cm_createdAt inbound) D)))"

text \<open>The fence of an outbound send (\<open>recovery-conversation/outbound-send-fence.service.ts\<close>, lines 109--113).\<close>

definition recipient_suppressed :: "delivery_db \<Rightarrow> id \<Rightarrow> string \<Rightarrow> time \<Rightarrow> bool" where
  "recipient_suppressed D shopId recipient now \<longleftrightarrow>
     (case Option.bind (find_reachability D shopId recipient) rr_suppressUntil of
        None \<Rightarrow> False | Some until \<Rightarrow> now < until)"

section \<open>The state of a recipient after a history of signals\<close>

text \<open>
  The reference: of a set of failures and successes only the last of each counts, and the recipient
  is suppressed for \<open>days\<close> after the last failure unless a success is as late.
\<close>

datatype signal = Failure_At time | Success_At time

definition failure_times :: "signal set \<Rightarrow> time set" where
  "failure_times G = {t. Failure_At t \<in> G}"

definition success_times :: "signal set \<Rightarrow> time set" where
  "success_times G = {t. Success_At t \<in> G}"

definition latest :: "time set \<Rightarrow> time option" where
  "latest T = (if T = {} then None else Some (Max T))"

definition suppression_spec :: "int \<Rightarrow> time option \<Rightarrow> time option \<Rightarrow> time option" where
  "suppression_spec days failure success =
     (case failure of None \<Rightarrow> None
      | Some f \<Rightarrow> if not_after (Some f) (case success of None \<Rightarrow> f - 1 | Some s \<Rightarrow> s) then None else Some (f + days * DAY_MS))"

lemma suppression_spec_simps [simp]:
  "suppression_spec days None success = None"
  "suppression_spec days (Some f) None = Some (f + days * DAY_MS)"
  "suppression_spec days (Some f) (Some s) = (if f \<le> s then None else Some (f + days * DAY_MS))"
  by (simp_all add: suppression_spec_def not_after_def)

definition later :: "time option \<Rightarrow> time \<Rightarrow> time option" where
  "later x t = Some (case x of None \<Rightarrow> t | Some u \<Rightarrow> max u t)"

lemma latest_insert: "finite T \<Longrightarrow> latest (insert t T) = later (latest T) t"
  by (auto simp: latest_def later_def max.commute)

text \<open>What the row keeps of a history: \<open>F\<close> and \<open>G\<close> are its last failure and last success.\<close>

definition row_tracks :: "int \<Rightarrow> time option \<Rightarrow> time option \<Rightarrow> reachability \<Rightarrow> bool" where
  "row_tracks days F G r \<longleftrightarrow> rr_lastSuccessfulAt r = G \<and> rr_suppressUntil r = suppression_spec days F G \<and>
     (\<forall>x. rr_lastFailureAt r = Some x \<longrightarrow> not_after (Some x) (case F of None \<Rightarrow> x - 1 | Some f \<Rightarrow> f)) \<and>
     (suppression_spec days F G \<noteq> None \<longrightarrow> rr_lastFailureAt r = F)"

lemma row_tracks_new:
  "row_tracks days (Some f) None (failure_row s p c f (f + days * DAY_MS))"
  "row_tracks days None (Some t) (success_row s p t)"
  by (simp_all add: row_tracks_def failure_row_def success_row_def not_after_def)

lemma row_tracks_failure:
  assumes "row_tracks days F G r"
  shows "row_tracks days (later F f) G
    (if failure_guard f r then failure_set c f (f + days * DAY_MS) r else r)"
proof (cases F)
  case None
  with assms show ?thesis
    by (cases G; cases "rr_lastFailureAt r")
      (auto simp: row_tracks_def failure_guard_def failure_set_def before_def not_after_def later_def)
next
  case (Some x)
  with assms show ?thesis
    by (cases G; cases "rr_lastFailureAt r")
      (auto simp: row_tracks_def failure_guard_def failure_set_def before_def not_after_def later_def
        max_def split: if_splits)
qed

lemma row_tracks_success:
  assumes "row_tracks days F G r"
  shows "row_tracks days F (later G t) (if success_guard t r then success_set t r else r)"
proof (cases F)
  case None
  with assms show ?thesis
    by (cases G; cases "rr_lastFailureAt r")
      (auto simp: row_tracks_def success_guard_def success_set_def before_def not_after_def later_def)
next
  case (Some x)
  with assms show ?thesis
    by (cases G; cases "rr_lastFailureAt r")
      (auto simp: row_tracks_def success_guard_def success_set_def before_def not_after_def later_def
        max_def split: if_splits)
qed

section \<open>The table\<close>

definition reachability_keys_ok :: "delivery_db \<Rightarrow> bool" where
  "reachability_keys_ok D \<longleftrightarrow> distinct (map (\<lambda>r. (rr_shopId r, rr_recipient r)) (dd_reachability D))"

lemma find_row_update_rows:
  assumes "\<And>r. P r \<Longrightarrow> P (f r)"
  shows "find_row P (update_rows P f t) = map_option f (find_row P t)"
  using assms by (induction t) (auto simp: update_rows_def)

lemma find_row_update_other:
  assumes "\<And>r. P r \<Longrightarrow> Q (f r) = Q r" "\<And>r. P r \<Longrightarrow> \<not> Q r"
  shows "find_row Q (update_rows P f t) = find_row Q t"
  using assms by (induction t) (auto simp: update_rows_def)

lemma failure_set_key [simp]: "is_row s p (failure_set c t u r) = is_row s p r"
  by (simp add: is_row_def failure_set_def)

lemma success_set_key [simp]: "is_row s p (success_set t r) = is_row s p r"
  by (simp add: is_row_def success_set_def)

lemma is_row_new [simp]:
  "is_row s p (failure_row s' p' c t u) \<longleftrightarrow> s' = s \<and> p' = p"
  "is_row s p (success_row s' p' t) \<longleftrightarrow> s' = s \<and> p' = p"
  by (auto simp: is_row_def failure_row_def success_row_def)

lemma reachability_row_keys [simp]:
  "rr_shopId (failure_row s p c t u) = s" "rr_recipient (failure_row s p c t u) = p"
  "rr_shopId (success_row s p t) = s" "rr_recipient (success_row s p t) = p"
  by (simp_all add: failure_row_def success_row_def)

lemma upsert_reachability_row:
  assumes "upsert_reachability new guard f D = (w, D')" "is_row (rr_shopId new) (rr_recipient new) new"
    and "\<And>r. is_row (rr_shopId new) (rr_recipient new) r \<Longrightarrow> is_row (rr_shopId new) (rr_recipient new) (f r)"
  shows "find_reachability D' (rr_shopId new) (rr_recipient new) =
    Some (case find_reachability D (rr_shopId new) (rr_recipient new) of
      None \<Rightarrow> new | Some r \<Rightarrow> if guard r then f r else r)"
proof (cases "find_reachability D (rr_shopId new) (rr_recipient new)")
  case None
  with assms(1,2) show ?thesis
    by (auto simp: upsert_reachability_def find_reachability_def find_row_snoc)
next
  case (Some r)
  have "find_row (is_row (rr_shopId new) (rr_recipient new))
      (update_rows (is_row (rr_shopId new) (rr_recipient new)) f (dd_reachability D)) =
    map_option f (find_row (is_row (rr_shopId new) (rr_recipient new)) (dd_reachability D))"
    by (rule find_row_update_rows) (rule assms(3))
  with Some assms(1) show ?thesis
    by (auto simp: upsert_reachability_def find_reachability_def split: if_splits)
qed

lemma recordSuccess_row:
  assumes "recordSuccess s p t D = (w, D')"
  shows "find_reachability D' s p = Some (case find_reachability D s p of None \<Rightarrow> success_row s p t
    | Some r \<Rightarrow> if success_guard t r then success_set t r else r)"
  using upsert_reachability_row [OF assms [unfolded recordSuccess_def]] by simp

lemma recordFailure_row:
  assumes "recordFailure s p t c D = Inr (w, D')" "suppression_end D t = Inr until"
  shows "find_reachability D' s p = Some (case find_reachability D s p of None \<Rightarrow> failure_row s p c t until
    | Some r \<Rightarrow> if failure_guard t r then failure_set c t until r else r)"
proof -
  from assms have "upsert_reachability (failure_row s p c t until) (failure_guard t) (failure_set c t until) D = (w, D')"
    by (simp add: recordFailure_def)
  from upsert_reachability_row [OF this] show ?thesis by simp
qed

lemma upsert_days: "upsert_reachability new guard f D = (w, D') \<Longrightarrow> dd_suppressionDays D' = dd_suppressionDays D"
  by (auto simp: upsert_reachability_def split: option.splits if_splits)

section \<open>Histories\<close>

primrec record_signal :: "id \<Rightarrow> string \<Rightarrow> signal \<Rightarrow> delivery_db \<Rightarrow> delivery_db result" where
  "record_signal s p (Failure_At t) D = and_then (recordFailure s p t ''131026'' D) (\<lambda>(_, D'). Inr D')"
| "record_signal s p (Success_At t) D = Inr (snd (recordSuccess s p t D))"

primrec record_all :: "id \<Rightarrow> string \<Rightarrow> signal list \<Rightarrow> delivery_db \<Rightarrow> delivery_db result" where
  "record_all s p [] D = Inr D"
| "record_all s p (g # gs) D = and_then (record_signal s p g D) (record_all s p gs)"

definition suppression_days :: "delivery_db \<Rightarrow> int option" where
  "suppression_days D = (case dd_suppressionDays D of
      None \<Rightarrow> Some 7
    | Some (JsInt n) \<Rightarrow> if is_safe_int n \<and> 0 < n then Some n else None
    | Some JsNonInteger \<Rightarrow> None)"

definition in_date_range :: "int \<Rightarrow> time \<Rightarrow> bool" where
  "in_date_range n t \<longleftrightarrow> \<bar>t + n * DAY_MS\<bar> \<le> max_date"

lemma suppression_end_Inr:
  "suppression_days D = Some n \<Longrightarrow> in_date_range n t \<Longrightarrow> suppression_end D t = Inr (t + n * DAY_MS)"
  by (auto simp: suppression_days_def suppression_end_def in_date_range_def is_safe_int_def max_safe_integer_def
      split: option.splits js_number.splits if_splits)

lemma suppression_end_InrD:
  "suppression_end D t = Inr u \<Longrightarrow> \<exists>n. suppression_days D = Some n \<and> 0 < n \<and> in_date_range n t \<and> u = t + n * DAY_MS"
  by (auto simp: suppression_days_def suppression_end_def in_date_range_def result_iffs is_safe_int_def
      max_safe_integer_def split: option.splits js_number.splits)

definition tracks :: "delivery_db \<Rightarrow> id \<Rightarrow> string \<Rightarrow> int \<Rightarrow> signal set \<Rightarrow> bool" where
  "tracks D s p n G \<longleftrightarrow> suppression_days D = Some n \<and> finite G \<and>
     (case find_reachability D s p of None \<Rightarrow> G = {}
      | Some r \<Rightarrow> row_tracks n (latest (failure_times G)) (latest (success_times G)) r)"

lemma times_insert [simp]:
  "failure_times (insert (Failure_At t) G) = insert t (failure_times G)"
  "failure_times (insert (Success_At t) G) = failure_times G"
  "success_times (insert (Success_At t) G) = insert t (success_times G)"
  "success_times (insert (Failure_At t) G) = success_times G"
  "failure_times {} = {}" "success_times {} = {}"
  by (auto simp: failure_times_def success_times_def)

lemma times_finite: "finite G \<Longrightarrow> finite (failure_times G) \<and> finite (success_times G)"
proof (induction G rule: finite_induct)
  case (insert g G)
  then show ?case by (cases g) simp_all
qed simp

lemma latest_simps [simp]: "latest {} = None" "later None t = Some t"
  by (simp_all add: latest_def later_def)

lemma tracks_failure:
  assumes "tracks D s p n G" "in_date_range n t"
  shows "\<exists>w D'. recordFailure s p t c D = Inr (w, D') \<and> tracks D' s p n (insert (Failure_At t) G)"
proof -
  from assms have until: "suppression_end D t = Inr (t + n * DAY_MS)"
    by (simp add: tracks_def suppression_end_Inr)
  then obtain w D' where run: "recordFailure s p t c D = Inr (w, D')"
    by (simp add: recordFailure_def) (metis surj_pair)
  then have days: "suppression_days D' = suppression_days D"
    using upsert_days until by (fastforce simp: recordFailure_def suppression_days_def)
  from assms(1) have fin: "finite G" "finite (failure_times G)" by (auto simp: tracks_def times_finite)
  have "tracks D' s p n (insert (Failure_At t) G)"
  proof (cases "find_reachability D s p")
    case None
    with assms(1) days recordFailure_row [OF run until] row_tracks_new show ?thesis
      by (simp add: tracks_def latest_insert)
  next
    case (Some r)
    with assms(1) have "row_tracks n (latest (failure_times G)) (latest (success_times G)) r" by (simp add: tracks_def)
    from row_tracks_failure [OF this] Some assms(1) days fin recordFailure_row [OF run until] show ?thesis
      by (simp add: tracks_def latest_insert)
  qed
  with run show ?thesis by blast
qed

lemma tracks_success:
  assumes "tracks D s p n G"
  shows "tracks (snd (recordSuccess s p t D)) s p n (insert (Success_At t) G)"
proof -
  obtain w D' where run: "recordSuccess s p t D = (w, D')" by (rule prod.exhaust)
  then have days: "suppression_days D' = suppression_days D"
    using upsert_days by (fastforce simp: recordSuccess_def suppression_days_def)
  from assms(1) have fin: "finite G" "finite (success_times G)" by (auto simp: tracks_def times_finite)
  have "tracks D' s p n (insert (Success_At t) G)"
  proof (cases "find_reachability D s p")
    case None
    with assms(1) days recordSuccess_row [OF run] row_tracks_new show ?thesis
      by (simp add: tracks_def latest_insert)
  next
    case (Some r)
    with assms(1) have "row_tracks n (latest (failure_times G)) (latest (success_times G)) r" by (simp add: tracks_def)
    from row_tracks_success [OF this] Some assms(1) days fin recordSuccess_row [OF run] show ?thesis
      by (simp add: tracks_def latest_insert)
  qed
  with run show ?thesis by simp
qed

lemma record_all_tracks:
  assumes "tracks D s p n G" "\<And>t. Failure_At t \<in> set gs \<Longrightarrow> in_date_range n t"
  shows "\<exists>D'. record_all s p gs D = Inr D' \<and> tracks D' s p n (G \<union> set gs)"
  using assms
proof (induction gs arbitrary: D G)
  case (Cons g gs)
  have "\<exists>D1. record_signal s p g D = Inr D1 \<and> tracks D1 s p n (insert g G)"
  proof (cases g)
    case (Failure_At t)
    with Cons.prems(2) have "in_date_range n t" by simp
    from tracks_failure [OF Cons.prems(1) this, of "''131026''"] obtain w D1 where
      "recordFailure s p t ''131026'' D = Inr (w, D1)" "tracks D1 s p n (insert (Failure_At t) G)" by blast
    with Failure_At show ?thesis by simp
  next
    case (Success_At t)
    with tracks_success [OF Cons.prems(1)] show ?thesis by simp
  qed
  then obtain D1 where D1: "record_signal s p g D = Inr D1" "tracks D1 s p n (insert g G)" by blast
  from Cons.IH [OF D1(2)] Cons.prems(2) D1(1) show ?case by auto
qed simp

lemma tracks_suppressUntil:
  "tracks D s p n G \<Longrightarrow> Option.bind (find_reachability D s p) rr_suppressUntil =
     suppression_spec n (latest (failure_times G)) (latest (success_times G))"
  by (auto simp: tracks_def row_tracks_def split: option.splits)

end
