(* ===== verification/Delivery_Notice.thy ===== *)
theory Delivery_Notice
  imports Provider_Status Recipient_Reachability
begin

text \<open>
  The end of a delivery failure: the notice to the merchant
  (\<open>src/services/recovery-delivery-notification-content.ts\<close>,
  \<open>recovery-delivery-support-message.service.ts\<close>, \<open>recovery-delivery-merchant-notification.service.ts\<close>)
  and the stages \<open>WhatsAppProviderStatusService.process\<close> runs one after the other, each in
  transactions of its own: status, credit compensation, suppression of the recipient, notice.
\<close>

section \<open>The notice\<close>

definition RECOVERY_DELIVERY_FAILURE_SYSTEM_CODE :: string where
  "RECOVERY_DELIVERY_FAILURE_SYSTEM_CODE = ''ARCH028_RECOVERY_DELIVERY_FAILED''"

definition recoveryDeliveryNoticeSourceKey :: "status_library \<Rightarrow> id \<Rightarrow> id \<Rightarrow> id \<Rightarrow> string" where
  "recoveryDeliveryNoticeSourceKey L shopId recoveryId messageId =
     ''arch028-recovery-delivery-failed:v1:'' @
     sha256_hex L (json_stringify L (JArray [JString shopId, JString recoveryId, JString messageId]))"

text \<open>The sentence about the credit; \<open>None\<close> is the \<open>undefined\<close> of an outcome without one.\<close>

fun credit_sentence :: "compensation_outcome \<Rightarrow> string option" where
  "credit_sentence Released_Credit = Some ''The reserved recovery credit was released and was not charged.''"
| "credit_sentence Already_Released =
     Some ''The reserved recovery credit had already been released; no additional credit was charged.''"
| "credit_sentence (Compensated RESTORED_SPENDABLE) =
     Some ''The recovery credit was restored and is available for another recovery.''"
| "credit_sentence (Compensated HISTORICAL_ONLY) =
     Some ''The recovery usage was corrected historically; no spendable credit was added to your current allowance.''"
| "credit_sentence (Compensated HELD_FOR_REFUND) =
     Some ''The recovery credit correction is held for refund; no spendable credit was added.''"
| "credit_sentence _ = None"

fun join_sentences :: "string list \<Rightarrow> string" where
  "join_sentences [] = []"
| "join_sentences [s] = s"
| "join_sentences (s # t # ts) = s @ '' '' @ join_sentences (t # ts)"

definition recoveryDeliveryNoticeBody :: "compensation_outcome \<Rightarrow> bool \<Rightarrow> string" where
  "recoveryDeliveryNoticeBody correction recipientSuppressed =
     join_sentences (filter (\<lambda>s. s \<noteq> [])
       [''A checkout recovery WhatsApp message could not be delivered.'',
        (case credit_sentence correction of None \<Rightarrow> [] | Some s \<Rightarrow> s),
        (if recipientSuppressed then ''Further recovery messages to this recipient have been temporarily paused.'' else [])])"

section \<open>The support message\<close>

datatype support_notice_outcome = Notice_Created | Notice_Duplicate

definition notice_transaction ::
  "(nat \<Rightarrow> id) \<Rightarrow> time \<Rightarrow> string \<Rightarrow> id \<Rightarrow> string \<Rightarrow> delivery_db \<Rightarrow> (unit \<times> delivery_db) result" where
  "notice_transaction ids now sourceKey shopId body D =
     and_then (upsert_support_thread (ids 0) shopId (dd_db D)) (\<lambda>(thread, d1).
     and_then (create_row support_message_clash
       \<lparr>sm_id = ids 1, sm_threadId = st_id thread, sm_sourceKey = sourceKey,
        sm_systemCode = RECOVERY_DELIVERY_FAILURE_SYSTEM_CODE, sm_originalBody = body, sm_availableAt = now\<rparr>
       (db_supportMessages d1)) (\<lambda>(_, ms).
     and_then (update_unique st_id (st_id thread) (\<lambda>t. t\<lparr>st_lastMessageAt := Some now\<rparr>) (db_supportThreads d1)) (\<lambda>(_, ts).
     Inr ((), D\<lparr>dd_db := d1\<lparr>db_supportMessages := ms, db_supportThreads := ts\<rparr>\<rparr>))))"

text \<open>
  A unique constraint that was broken is a duplicate only when the message is found under its
  source key, by a read of its own after the transaction.
\<close>

definition write_notice ::
  "status_library \<Rightarrow> delivery_db env \<Rightarrow> id \<Rightarrow> id \<Rightarrow> id \<Rightarrow> string \<Rightarrow> delivery_db \<Rightarrow>
     support_notice_outcome result \<times> delivery_db" where
  "write_notice L E shopId recoveryId messageId body D =
     (let sourceKey = recoveryDeliveryNoticeSourceKey L shopId recoveryId messageId;
          D1 = env_step E 0 D in
      case run_attempt E (\<lambda>n. notice_transaction (env_ids E n) (env_now E n) sourceKey shopId body) 0 D1 of
        Inr (_, D2) \<Rightarrow> (Inr Notice_Created, D2)
      | Inl e \<Rightarrow>
          if e = Prisma_Error P2002 then
            let D2 = env_step E 1 D1 in
            (if find_row (\<lambda>m. sm_sourceKey m = sourceKey) (db_supportMessages (dd_db D2)) = None then Inl e
             else Inr Notice_Duplicate, D2)
          else (Inl e, D1))"

datatype notice_outcome = Support_Notice support_notice_outcome | Notice_Skipped | Notice_Deferred

text \<open>Who is to be told what: \<open>None\<close> when nobody is, with the outcome to return then.\<close>

definition notice_target ::
  "message_identity \<Rightarrow> compensation_outcome \<Rightarrow> reachability_failure_outcome \<Rightarrow> delivery_db \<Rightarrow>
     (notice_outcome + id \<times> id \<times> id \<times> string) result" where
  "notice_target identity correction reachability D =
     (if correction = Purchased_Compensation_Required \<or> reachability = Deferred then Inr (Inl Notice_Deferred)
      else if \<not> is_corrected correction then Inr (Inl Notice_Skipped)
      else
        (case find_message D identity of
           None \<Rightarrow> Inr (Inl Notice_Skipped)
         | Some m \<Rightarrow>
             if cm_direction m \<noteq> OUTBOUND \<or> cm_status m \<noteq> MSG_FAILED then Inr (Inl Notice_Skipped)
             else
               (case Option.bind (conversation_of D m) cv_checkoutRecovery of
                  None \<Rightarrow> Inr (Inl Notice_Skipped)
                | Some (recoveryId, shopId) \<Rightarrow>
                    let suppressionRequired = is_recipient_undeliverable (cm_providerFailureCode m) in
                    and_then (require (\<not> conflicting (Option.bind (conversation_of D m) cv_shopId) shopId)
                      (Service_Error Plain_Error ''Recovery failure notification has conflicting Shop ownership'')) (\<lambda>_.
                    and_then (require (\<not> (suppressionRequired \<and> reachability = Not_Applicable))
                      (Service_Error Plain_Error ''Recipient suppression is required before merchant notification'')) (\<lambda>_.
                    and_then (require (suppressionRequired \<or> reachability = Not_Applicable)
                      (Service_Error Plain_Error ''Non-recipient failure has unexpected suppression outcome'')) (\<lambda>_.
                    Inr (Inr (shopId, recoveryId, cm_id m,
                      recoveryDeliveryNoticeBody correction (suppressionRequired \<and> reachability = Suppressed)))))))))"

definition notify ::
  "status_library \<Rightarrow> delivery_db env \<Rightarrow> message_identity \<Rightarrow> compensation_outcome \<Rightarrow> reachability_failure_outcome \<Rightarrow>
     delivery_db \<Rightarrow> notice_outcome result \<times> delivery_db" where
  "notify L E identity correction reachability D =
     (case notice_target identity correction reachability D of
        Inl e \<Rightarrow> (Inl e, D)
      | Inr (Inl out) \<Rightarrow> (Inr out, D)
      | Inr (Inr (shopId, recoveryId, messageId, body)) \<Rightarrow>
          map_prod (map_sum id Support_Notice) id (write_notice L E shopId recoveryId messageId body D))"

section \<open>The stages of a report\<close>

text \<open>A stage that throws ends the job; what the stages before it committed stays.\<close>

definition and_stage ::
  "('a result \<times> delivery_db) \<Rightarrow> ('a \<Rightarrow> delivery_db \<Rightarrow> 'b result \<times> delivery_db) \<Rightarrow> 'b result \<times> delivery_db" where
  "and_stage x f = (case x of (Inl e, D) \<Rightarrow> (Inl e, D) | (Inr a, D) \<Rightarrow> f a D)"

text \<open>A stage of one statement.\<close>

definition statement ::
  "delivery_db env \<Rightarrow> (delivery_db \<Rightarrow> ('a \<times> delivery_db) result) \<Rightarrow> delivery_db \<Rightarrow> 'a result \<times> delivery_db" where
  "statement E body D =
     (let D1 = env_step E 0 D in
      case run_attempt E (\<lambda>_. body) 0 D1 of Inl e \<Rightarrow> (Inl e, D1) | Inr (a, D2) \<Rightarrow> (Inr a, D2))"

record stage_envs =
  en_status :: "delivery_db env"
  en_compensation :: "delivery_db env"
  en_reachability :: "delivery_db env"
  en_notice :: "delivery_db env"

definition settle_failure ::
  "shared \<Rightarrow> status_library \<Rightarrow> stage_envs \<Rightarrow> id \<Rightarrow> delivery_db \<Rightarrow> notice_outcome result \<times> delivery_db" where
  "settle_failure S L Es providerMessageId D =
     (let identity = By_Provider_Message providerMessageId in
      and_stage (reconcile S (en_compensation Es) identity D) (\<lambda>corrected D1.
      and_stage (statement (en_reachability Es) (after_correction identity corrected) D1) (\<lambda>reachability D2.
      notify L (en_notice Es) identity corrected reachability D2)))"

definition apply_event ::
  "shared \<Rightarrow> status_library \<Rightarrow> stage_envs \<Rightarrow> status_event \<Rightarrow> delivery_db \<Rightarrow> status_outcome result \<times> delivery_db" where
  "apply_event S L Es event D =
     and_stage (apply_status L (en_status Es) event D) (\<lambda>outcome D1.
     if ev_status event = ST_FAILED \<and> outcome \<noteq> Unknown_Message then
       and_stage (settle_failure S L Es (ev_providerMessageId event) D1) (\<lambda>_ D2. (Inr outcome, D2))
     else if (ev_status event = ST_DELIVERED \<or> ev_status event = ST_READ) \<and> outcome \<noteq> Unknown_Message then
       and_stage (statement (en_reachability Es) (Inr \<circ> from_provider_delivery (ev_providerMessageId event)) D1)
         (\<lambda>_ D2. (Inr outcome, D2))
     else (Inr outcome, D1))"

datatype process_outcome = Invalid_Report | Processed status_outcome

definition process_report ::
  "('i \<Rightarrow> status_event option) \<Rightarrow> shared \<Rightarrow> status_library \<Rightarrow> stage_envs \<Rightarrow> 'i \<Rightarrow> delivery_db \<Rightarrow>
     process_outcome result \<times> delivery_db" where
  "process_report safeParse S L Es input D =
     (case safeParse input of
        None \<Rightarrow> (Inr Invalid_Report, D)
      | Some event \<Rightarrow> map_prod (map_sum id Processed) id (apply_event S L Es event D))"

section \<open>What the stages keep\<close>

lemma and_stage_InrD:
  "and_stage x f = (Inr b, D') \<Longrightarrow> \<exists>a D1. x = (Inr a, D1) \<and> f a D1 = (Inr b, D')"
  by (auto simp: and_stage_def split: prod.splits sum.splits)

lemma and_stage_invariant:
  assumes "I (snd x)" "\<And>a D. I D \<Longrightarrow> I (snd (f a D))"
  shows "I (snd (and_stage x f))"
proof -
  obtain r D1 where x: "x = (r, D1)" by (rule prod.exhaust)
  with assms show ?thesis by (cases r) (simp_all add: and_stage_def)
qed

lemma statement_invariant:
  assumes "I D" "\<And>n D. I D \<Longrightarrow> I (env_step E n D)" "\<And>D a D'. I D \<Longrightarrow> body D = Inr (a, D') \<Longrightarrow> I D'"
  shows "I (snd (statement E body D))"
proof -
  let ?D1 = "env_step E 0 D"
  have D1: "I ?D1" by (rule assms(2) [OF assms(1)])
  show ?thesis
  proof (cases "run_attempt E (\<lambda>_. body) 0 ?D1")
    case (Inl e)
    with D1 show ?thesis by (simp add: statement_def Let_def)
  next
    case (Inr p)
    obtain a D2 where p: "p = (a, D2)" by (rule prod.exhaust)
    with run_attempt_InrD [OF Inr] have "body ?D1 = Inr (a, D2)" by simp
    from assms(3) [OF D1 this] Inr p show ?thesis by (simp add: statement_def)
  qed
qed

lemma upsert_reachability_db: "upsert_reachability new g f D = (w, D') \<Longrightarrow> dd_db D' = dd_db D"
  by (auto simp: upsert_reachability_def split: option.splits if_splits)

lemma recordFailure_db: "recordFailure s p t c D = Inr (w, D') \<Longrightarrow> dd_db D' = dd_db D"
  using upsert_reachability_db by (fastforce simp: recordFailure_def and_then_Inr)

lemma recordSuccess_db: "recordSuccess s p t D = (w, D') \<Longrightarrow> dd_db D' = dd_db D"
  using upsert_reachability_db by (fastforce simp: recordSuccess_def)

lemma after_correction_db: "after_correction i c D = Inr (out, D') \<Longrightarrow> dd_db D' = dd_db D"
  using recordFailure_db by (fastforce simp: after_correction_def result_iffs split: option.splits if_splits)

lemma from_provider_delivery_db: "from_provider_delivery p D = (out, D') \<Longrightarrow> dd_db D' = dd_db D"
  using recordSuccess_db
  by (auto simp: from_provider_delivery_def map_prod_def split: option.splits if_splits prod.splits)

lemma notice_transaction_support:
  assumes "notice_transaction ids now k s body D = Inr (u, D')"
  shows "\<exists>ts ms. D' = D\<lparr>dd_db := dd_db D\<lparr>db_supportMessages := db_supportMessages (dd_db D) @ [ms], db_supportThreads := ts\<rparr>\<rparr> \<and>
    sm_sourceKey ms = k \<and> \<not> list_ex (support_message_clash ms) (db_supportMessages (dd_db D))"
proof -
  let ?d = "dd_db D"
  from assms obtain th d1 m ms t ts where th: "upsert_support_thread (ids 0) s ?d = Inr (th, d1)"
    and m: "create_row support_message_clash
       \<lparr>sm_id = ids 1, sm_threadId = st_id th, sm_sourceKey = k, sm_systemCode = RECOVERY_DELIVERY_FAILURE_SYSTEM_CODE,
        sm_originalBody = body, sm_availableAt = now\<rparr> (db_supportMessages d1) = Inr (m, ms)"
    and D': "D' = D\<lparr>dd_db := d1\<lparr>db_supportMessages := ms, db_supportThreads := ts\<rparr>\<rparr>"
    by (auto simp: notice_transaction_def and_then_Inr)
  from th obtain ts1 where "d1 = ?d\<lparr>db_supportThreads := ts1\<rparr>"
    by (auto simp: upsert_support_thread_def and_then_Inr split: option.splits intro: that [of "db_supportThreads ?d"])
  moreover from m have "ms = db_supportMessages d1 @ [m]" "sm_sourceKey m = k"
    "\<not> list_ex (support_message_clash m) (db_supportMessages d1)"
    by (auto simp: create_row_def split: if_splits)
  ultimately show ?thesis using D' by (intro exI [of _ ts] exI [of _ m]) simp
qed

lemma write_notice_invariant:
  assumes "I D" "\<And>n D. I D \<Longrightarrow> I (env_step E n D)"
    and "\<And>n D u D'. I D \<Longrightarrow> notice_transaction (env_ids E n) (env_now E n)
      (recoveryDeliveryNoticeSourceKey L s rec m) s body D = Inr (u, D') \<Longrightarrow> I D'"
  shows "I (snd (write_notice L E s rec m body D))"
proof -
  let ?D1 = "env_step E 0 D"
  let ?tx = "\<lambda>n. notice_transaction (env_ids E n) (env_now E n) (recoveryDeliveryNoticeSourceKey L s rec m) s body"
  have D1: "I ?D1" and D2: "I (env_step E 1 ?D1)" by (intro assms(1,2))+
  show ?thesis
  proof (cases "run_attempt E ?tx 0 ?D1")
    case (Inl e)
    with D1 D2 show ?thesis by (simp add: write_notice_def Let_def)
  next
    case (Inr p)
    obtain u D2 where p: "p = (u, D2)" by (rule prod.exhaust)
    with run_attempt_InrD [OF Inr] have "?tx 0 ?D1 = Inr (u, D2)" by simp
    from assms(3) [OF D1 this] Inr p show ?thesis by (simp add: write_notice_def Let_def)
  qed
qed

lemma notify_invariant:
  assumes "I D" "\<And>n D. I D \<Longrightarrow> I (env_step E n D)"
    and "\<And>ids now k s body D u D'. I D \<Longrightarrow> notice_transaction ids now k s body D = Inr (u, D') \<Longrightarrow> I D'"
  shows "I (snd (notify L E i c r D))"
proof (cases "notice_target i c r D")
  case (Inr x)
  show ?thesis
  proof (cases x)
    case (Inr y)
    obtain s rec m body where y: "y = (s, rec, m, body)" by (cases y)
    have "I (snd (write_notice L E s rec m body D))"
      by (rule write_notice_invariant [where I = I, OF assms(1)]) (use assms(2,3) in blast)+
    with \<open>notice_target i c r D = Inr x\<close> Inr y show ?thesis by (simp add: notify_def)
  qed (use assms(1) \<open>notice_target i c r D = Inr x\<close> in \<open>simp add: notify_def\<close>)
qed (use assms(1) in \<open>simp add: notify_def\<close>)

text \<open>An invariant of every kind of stage is one of the whole report.\<close>

definition steps_keep :: "(delivery_db \<Rightarrow> bool) \<Rightarrow> stage_envs \<Rightarrow> bool" where
  "steps_keep I Es \<longleftrightarrow> (\<forall>E\<in>{en_status Es, en_compensation Es, en_reachability Es, en_notice Es}.
     \<forall>n D. I D \<longrightarrow> I (env_step E n D))"

lemma process_report_invariant:
  assumes "I D" "steps_keep I Es"
    and status: "\<And>i event D out D'. I D \<Longrightarrow> status_transaction L i event D = Inr (out, D') \<Longrightarrow> I D'"
    and credit: "\<And>i now p D out D'. I D \<Longrightarrow> reconcile_locked S i now p D = Inr (out, D') \<Longrightarrow> I D'"
    and suppress: "\<And>p c D out D'. I D \<Longrightarrow> after_correction p c D = Inr (out, D') \<Longrightarrow> I D'"
    and positive: "\<And>p D out D'. I D \<Longrightarrow> from_provider_delivery p D = (out, D') \<Longrightarrow> I D'"
    and notice: "\<And>ids now k s body D u D'. I D \<Longrightarrow> notice_transaction ids now k s body D = Inr (u, D') \<Longrightarrow> I D'"
  shows "I (snd (process_report safeParse S L Es input D))"
proof -
  from assms(2) have keep: "\<And>n D. I D \<Longrightarrow> I (env_step (en_status Es) n D)" "\<And>n D. I D \<Longrightarrow> I (env_step (en_compensation Es) n D)"
    "\<And>n D. I D \<Longrightarrow> I (env_step (en_reachability Es) n D)" "\<And>n D. I D \<Longrightarrow> I (env_step (en_notice Es) n D)"
    by (simp_all add: steps_keep_def)
  have 1: "I (snd (apply_status L (en_status Es) event D))" for event
    unfolding apply_status_def
    by (rule attempt_up_to_invariant [where I = I, OF assms(1) keep(1)]) (assumption | rule status)+
  have 2: "I (snd (reconcile S (en_compensation Es) p D))" if "I D" for p D
    unfolding reconcile_def
    by (rule with_retry_invariant [where I = I, OF that keep(2)]) (assumption | rule credit)+
  have 3: "I (snd (statement (en_reachability Es) (after_correction p c) D))" if "I D" for p c D
    by (rule statement_invariant [where I = I, OF that keep(3)]) (assumption | rule suppress)+
  have 4: "I (snd (statement (en_reachability Es) (Inr \<circ> from_provider_delivery p) D))" if "I D" for p D
    by (rule statement_invariant [where I = I, OF that keep(3)]) (assumption | use positive in force)+
  have 5: "I (snd (notify L (en_notice Es) i c r D))" if "I D" for i c r D
    by (rule notify_invariant [where I = I, OF that keep(4)]) (assumption | rule notice)+
  have 6: "I (snd (settle_failure S L Es p D))" if "I D" for p D
    unfolding settle_failure_def Let_def
    by (rule and_stage_invariant [where I = I, OF 2 [OF that]],
        rule and_stage_invariant [where I = I, OF 3], assumption, rule 5)
  have 7: "I (snd (if b then and_stage (settle_failure S L Es p D) (\<lambda>_ D2. (Inr out, D2))
      else if c then and_stage (statement (en_reachability Es) (Inr \<circ> from_provider_delivery p) D) (\<lambda>_ D2. (Inr out, D2))
      else (Inr out, D)))" if "I D" for b c p D and out :: status_outcome
    using and_stage_invariant [where I = I and f = "\<lambda>_ D2. (Inr out, D2)", OF 6 [OF that]]
      and_stage_invariant [where I = I and f = "\<lambda>_ D2. (Inr out, D2)", OF 4 [OF that]] that by simp
  have "I (snd (apply_event S L Es event D))" for event
    unfolding apply_event_def
    by (rule and_stage_invariant [where I = I, OF 1]) (rule 7)
  with assms(1) show ?thesis by (simp add: process_report_def split: option.splits)
qed

lemma record_delivered_db:
  "record_delivered L i s k event D = Inr D' \<Longrightarrow> \<exists>evs. dd_db D' = dd_db D\<lparr>db_usageEvents := evs\<rparr>"
  by (auto simp: record_delivered_eq split: if_splits intro: exI [of _ "db_usageEvents (dd_db D)"])

lemma apply_to_message_db:
  assumes "apply_to_message L i event s m D = Inr (out, D')"
  shows "\<exists>evs. dd_db D' = dd_db D\<lparr>db_usageEvents := evs\<rparr>"
proof -
  let ?can = "canApplyProviderStatus (cm_status m) (ev_status event)"
  let ?data = "lifecycleUpdate m (statusForProviderEvent (cm_status m) (ev_status event))
     (ev_occurredAt event) (ev_status event) ?can event"
  let ?fatal = "?can \<and> ev_status event = ST_FAILED \<and>
     is_recipient_undeliverable (set_column (ld_providerFailureCode ?data) (cm_providerFailureCode m))"
  from assms obtain D1 where D1: "write_message m ?data D = Inr D1"
    unfolding apply_to_message_def Let_def and_then_Inr by blast
  obtain b D2 where D2: "converge_command event ?can m D1 = (b, D2)" by (rule prod.exhaust)
  obtain c D3 where D3: "converge_attempt ?fatal (ev_occurredAt event) m D2 = (c, D3)" by (rule prod.exhaust)
  from assms D1 D2 D3 have "(if becomes_delivered event m then record_delivered L i s (cm_id m) event D3 else Inr D3) = Inr D'"
    unfolding apply_to_message_def Let_def by (simp only: becameDelivered_iff and_then_simps prod.case) (auto simp: and_then_Inr)
  then have "\<exists>evs. dd_db D' = dd_db D3\<lparr>db_usageEvents := evs\<rparr>"
    using record_delivered_db by (auto split: if_splits intro: exI [of _ "db_usageEvents (dd_db D')"])
  moreover have "dd_db D3 = dd_db D"
    using converge_command_frame [OF D2] converge_attempt_frame [OF D3] D1
    by (auto simp: write_message_def Let_def and_then_Inr split: if_splits prod.splits)
  ultimately show ?thesis by simp
qed

lemma status_transaction_db:
  "status_transaction L i event D = Inr (out, D') \<Longrightarrow> \<exists>evs. dd_db D' = dd_db D\<lparr>db_usageEvents := evs\<rparr>"
proof -
  assume run: "status_transaction L i event D = Inr (out, D')"
  have same: "\<exists>evs. dd_db D = dd_db D\<lparr>db_usageEvents := evs\<rparr>" by (rule exI [of _ "db_usageEvents (dd_db D)"]) simp
  show ?thesis
  proof (cases "find_message D (By_Provider_Message (ev_providerMessageId event))")
    case None
    with run same show ?thesis by (simp add: status_transaction_def)
  next
    case (Some pointer)
    let ?shop = "Option.bind (conversation_of D pointer) status_shop"
    from run Some have "D' = D \<or> (\<exists>m. apply_to_message L i event (the ?shop) m D = Inr (out, D'))"
      unfolding status_transaction_def Some option.case Let_def
      by (cases "truthy ?shop") (auto simp: result_iffs split: if_splits)
    with same apply_to_message_db show ?thesis by blast
  qed
qed

lemma process_report_ledger:
  assumes "ledger_ok (dd_db D)" "steps_keep (\<lambda>D. ledger_ok (dd_db D)) Es"
  shows "ledger_ok (dd_db (snd (process_report safeParse S L Es input D)))"
proof (rule process_report_invariant [where I = "\<lambda>D. ledger_ok (dd_db D)", OF assms])
  show "ledger_ok (dd_db D')" if "ledger_ok (dd_db D)" "status_transaction L i event D = Inr (out, D')" for i event D out D'
    using status_transaction_db [OF that(2)] by (auto intro: ledger_frame [OF that(1)])
  show "ledger_ok (dd_db D')" if "ledger_ok (dd_db D)" "reconcile_locked S i now p D = Inr (out, D')" for i now p D out D'
    using reconcile_locked_ledger that by blast
  show "ledger_ok (dd_db D')" if "ledger_ok (dd_db D)" "after_correction p c D = Inr (out, D')" for p c D out D'
    using after_correction_db [OF that(2)] that(1) by simp
  show "ledger_ok (dd_db D')" if "ledger_ok (dd_db D)" "from_provider_delivery p D = (out, D')" for p D out D'
    using from_provider_delivery_db [OF that(2)] that(1) by simp
  show "ledger_ok (dd_db D')" if "ledger_ok (dd_db D)" "notice_transaction ids now k s body D = Inr (u, D')"
    for ids now k s body D u D'
    using notice_transaction_support [OF that(2)] by (auto intro: ledger_frame [OF that(1)])
qed

section \<open>A settled failure\<close>

text \<open>No other transaction comes between the stages and none is aborted.\<close>

definition quiet :: "delivery_db env \<Rightarrow> bool" where
  "quiet E \<longleftrightarrow> (\<forall>n. (\<forall>D. env_step E n D = D) \<and> env_abort E n = None)"

lemma reconcile_quiet:
  assumes "reconcile S E p D = (Inr out, D')" "quiet E"
  shows "\<exists>i now. reconcile_locked S i now p D = Inr (out, D')"
proof -
  from assms(1) have run: "retry_from E (\<lambda>n. reconcile_locked S (env_ids E n 0) (env_now E n) p)
      (\<lambda>_. Service_Error Plain_Error ''Recovery delivery compensation retry limit reached'')
      DELIVERY_COMPENSATION_ATTEMPTS 0 D = (Inr out, D')"
    by (simp add: reconcile_def with_retry_def)
  have "\<exists>k D1. D1 = D \<and> reconcile_locked S (env_ids E k 0) (env_now E k) p D1 = Inr (out, D')"
    by (rule retry_from_InrD [where I = "\<lambda>X. X = D", OF run refl]) (use assms(2) in \<open>simp add: quiet_def\<close>)
  then show ?thesis by blast
qed

lemma statement_quiet: "quiet E \<Longrightarrow> statement E body D = (Inr a, D') \<Longrightarrow> body D = Inr (a, D')"
  by (auto simp: statement_def quiet_def run_attempt_def split: sum.splits)

lemma reconcile_message_frame:
  "reconcile_message S i now m c D = Inr (out, D') \<Longrightarrow> \<exists>d. D' = D\<lparr>dd_db := d\<rparr>"
  by (auto simp: reconcile_message_def Let_def and_then_Inr split: if_splits intro: exI [of _ "dd_db D"])

lemma reconcile_locked_frame:
  assumes "reconcile_locked S i now p D = Inr (out, D')"
  shows "\<exists>d. D' = D\<lparr>dd_db := d\<rparr>"
proof -
  have same: "\<exists>d. D = D\<lparr>dd_db := d\<rparr>" by (rule exI [of _ "dd_db D"]) simp
  show ?thesis
  proof (cases "find_message D p")
    case None
    with assms same show ?thesis by (simp add: reconcile_locked_def)
  next
    case (Some pointer)
    with assms have "D' = D \<or> (\<exists>m c. reconcile_message S i now m c D = Inr (out, D'))"
      by (cases "cm_status pointer = MSG_FAILED") (auto simp: reconcile_locked_def Let_def result_iffs)
    with same reconcile_message_frame show ?thesis by blast
  qed
qed

text \<open>A failure is covered by a row that a report of it would not change.\<close>

definition failure_covered :: "delivery_db \<Rightarrow> id \<Rightarrow> string \<Rightarrow> time \<Rightarrow> bool" where
  "failure_covered D shopId recipient t \<longleftrightarrow>
     (\<exists>r. find_reachability D shopId recipient = Some r \<and> \<not> failure_guard t r)"

lemma recordFailure_covered:
  assumes "recordFailure s p t c D = Inr (w, D')"
  shows "failure_covered D' s p t" "\<exists>rows. D' = D\<lparr>dd_reachability := rows\<rparr>"
proof -
  from assms obtain u where u: "suppression_end D t = Inr u" by (auto simp: recordFailure_def and_then_Inr)
  have "\<not> failure_guard t (failure_row s p c t u)" "\<not> failure_guard t (failure_set c t u r)" for r
    by (simp_all add: failure_guard_def failure_row_def failure_set_def before_def)
  with recordFailure_row [OF assms u] show "failure_covered D' s p t"
    by (auto simp: failure_covered_def split: option.splits)
  have "\<exists>rows. D = D\<lparr>dd_reachability := rows\<rparr>" by (rule exI [of _ "dd_reachability D"]) simp
  with assms u show "\<exists>rows. D' = D\<lparr>dd_reachability := rows\<rparr>"
    by (auto simp: recordFailure_def upsert_reachability_def split: option.splits if_splits)
qed

text \<open>A covered failure is not recorded again.\<close>

lemma recordFailure_again:
  assumes "failure_covered D s p t" "suppression_end D t = Inr u"
  shows "recordFailure s p t c D = Inr (Unchanged, D)"
  using assms by (auto simp: failure_covered_def recordFailure_def upsert_reachability_def)

lemma after_correction_messages:
  assumes "after_correction p c D = Inr (out, D')"
  shows "\<exists>rows. D' = D\<lparr>dd_reachability := rows\<rparr>"
proof -
  have "\<exists>rows. D = D\<lparr>dd_reachability := rows\<rparr>" by (rule exI [of _ "dd_reachability D"]) simp
  with assms recordFailure_covered(2) show ?thesis
    by (auto simp: after_correction_def result_iffs split: option.splits if_splits)
qed

lemma after_correction_InrD:
  assumes "after_correction p c D = Inr (out, D')" "out = Suppressed \<or> out = Failure_Unchanged"
  shows "\<exists>m s a t. find_message D p = Some m \<and> cm_status m = MSG_FAILED \<and> cm_direction m = OUTBOUND \<and>
    is_recipient_undeliverable (cm_providerFailureCode m) \<and> is_corrected c \<and>
    failure_lineage D m = Some (s, a, t) \<and> failure_covered D' s (oa_recipient a) t \<and>
    (\<exists>rows. D' = D\<lparr>dd_reachability := rows\<rparr>)"
proof (cases "find_message D p")
  case None
  with assms show ?thesis by (auto simp: after_correction_def)
next
  case (Some m)
  with assms have c: "cm_status m = MSG_FAILED" "cm_direction m = OUTBOUND"
    "is_recipient_undeliverable (cm_providerFailureCode m)" "is_corrected c"
    by (auto simp: after_correction_def split: if_splits)
  with assms Some obtain s a t w where l: "failure_lineage D m = Some (s, a, t)"
    and w: "recordFailure s (oa_recipient a) t ''131026'' D = Inr (w, D')"
    by (auto simp: after_correction_def result_iffs split: if_splits)
  from recordFailure_covered [OF w] c l Some show ?thesis by blast
qed

lemma write_notice_on_record:
  assumes "write_notice L E s rec k body D = (Inr n, D')" "quiet E"
  shows "(\<exists>x\<in>set (db_supportMessages (dd_db D')). sm_sourceKey x = recoveryDeliveryNoticeSourceKey L s rec k) \<and>
    (\<exists>ts ms. D' = D\<lparr>dd_db := dd_db D\<lparr>db_supportMessages := ms, db_supportThreads := ts\<rparr>\<rparr>)"
proof -
  let ?k = "recoveryDeliveryNoticeSourceKey L s rec k"
  let ?tx = "notice_transaction (env_ids E 0) (env_now E 0) ?k s body D"
  show ?thesis
  proof (cases ?tx)
    case (Inl e)
    with assms have D': "D' = D" and f: "find_row (\<lambda>m. sm_sourceKey m = ?k) (db_supportMessages (dd_db D)) \<noteq> None"
      by (auto simp: write_notice_def quiet_def run_attempt_def Let_def split: if_splits)
    have "D = D\<lparr>dd_db := dd_db D\<lparr>db_supportMessages := db_supportMessages (dd_db D), db_supportThreads := db_supportThreads (dd_db D)\<rparr>\<rparr>"
      by simp
    with f D' show ?thesis unfolding find_row_None_iff by blast
  next
    case (Inr q)
    with assms have "?tx = Inr (fst q, D')"
      by (auto simp: write_notice_def quiet_def run_attempt_def Let_def split: prod.splits)
    from notice_transaction_support [OF this] show ?thesis by fastforce
  qed
qed

lemma notify_sent:
  assumes "notify L E p c r D = (Inr (Support_Notice n), D')" "quiet E"
  shows "\<exists>m rec s. find_message D p = Some m \<and> cm_status m = MSG_FAILED \<and> is_corrected c \<and> r \<noteq> Deferred \<and>
    (r = Not_Applicable \<longleftrightarrow> \<not> is_recipient_undeliverable (cm_providerFailureCode m)) \<and>
    Option.bind (conversation_of D m) cv_checkoutRecovery = Some (rec, s) \<and>
    (\<exists>x\<in>set (db_supportMessages (dd_db D')). sm_sourceKey x = recoveryDeliveryNoticeSourceKey L s rec (cm_id m)) \<and>
    (\<exists>ts ms. D' = D\<lparr>dd_db := dd_db D\<lparr>db_supportMessages := ms, db_supportThreads := ts\<rparr>\<rparr>)"
proof -
  from assms(1) obtain s rec k body where t: "notice_target p c r D = Inr (Inr (s, rec, k, body))"
    and sent: "map_prod (map_sum id Support_Notice) id (write_notice L E s rec k body D) = (Inr (Support_Notice n), D')"
    by (auto simp: notify_def notice_target_def Let_def and_then_Inr split: sum.splits if_splits option.splits)
  obtain x D1 where w: "write_notice L E s rec k body D = (x, D1)" by (rule prod.exhaust)
  with sent have "x = Inr n" "D1 = D'" by (cases x; simp)+
  with w have w: "write_notice L E s rec k body D = (Inr n, D')" by simp
  from t obtain m where m: "find_message D p = Some m" "k = cm_id m" "cm_status m = MSG_FAILED" "is_corrected c"
      "r \<noteq> Deferred" "r = Not_Applicable \<longleftrightarrow> \<not> is_recipient_undeliverable (cm_providerFailureCode m)"
      "Option.bind (conversation_of D m) cv_checkoutRecovery = Some (rec, s)"
    by (auto simp: notice_target_def Let_def result_iffs split: if_splits option.splits)
  from write_notice_on_record [OF w assms(2)] m show ?thesis by blast
qed

lemma write_notice_again:
  assumes "x \<in> set (db_supportMessages (dd_db D))" "sm_sourceKey x = recoveryDeliveryNoticeSourceKey L s rec m"
    and "quiet E"
  shows "write_notice L E s rec m body D = (Inr Notice_Duplicate, D)"
proof -
  let ?k = "recoveryDeliveryNoticeSourceKey L s rec m" and ?ids = "env_ids E 0"
  have key: "find_row (\<lambda>m. sm_sourceKey m = ?k) (db_supportMessages (dd_db D)) \<noteq> None"
    unfolding find_row_None_iff using assms(1,2) by blast
  have "notice_transaction ?ids (env_now E 0) ?k s body D = Inl (Prisma_Error P2002)"
  proof (cases "upsert_support_thread (?ids 0) s (dd_db D)")
    case (Inl e)
    then have "e = Prisma_Error P2002"
      by (auto simp: upsert_support_thread_def create_row_def split: option.splits if_splits)
    with Inl show ?thesis by (simp add: notice_transaction_def)
  next
    case (Inr q)
    obtain th d1 where q: "q = (th, d1)" by (rule prod.exhaust)
    with Inr have "db_supportMessages d1 = db_supportMessages (dd_db D)"
      by (auto simp: upsert_support_thread_def and_then_Inr split: option.splits)
    then have "list_ex (support_message_clash \<lparr>sm_id = ?ids 1, sm_threadId = st_id th, sm_sourceKey = ?k,
        sm_systemCode = RECOVERY_DELIVERY_FAILURE_SYSTEM_CODE, sm_originalBody = body, sm_availableAt = env_now E 0\<rparr>)
        (db_supportMessages d1)"
      unfolding list_ex_iff using assms(1,2) by (intro bexI [of _ x]) (simp_all add: support_message_clash_def)
    with Inr q show ?thesis by (simp add: notice_transaction_def create_row_def)
  qed
  with key assms(3) show ?thesis by (simp add: write_notice_def quiet_def run_attempt_def Let_def)
qed

text \<open>No source key is on two support messages.\<close>

definition notices_unique :: "delivery_db \<Rightarrow> bool" where
  "notices_unique D \<longleftrightarrow> distinct (map sm_sourceKey (db_supportMessages (dd_db D)))"

lemma notice_transaction_unique:
  assumes "notices_unique D" "notice_transaction ids now k s body D = Inr (u, D')"
  shows "notices_unique D'"
  using notice_transaction_support [OF assms(2)] assms(1)
  by (auto simp: notices_unique_def list_ex_iff support_message_clash_def)

text \<open>The stages of a settled failure, one after the other.\<close>

lemma settle_failure_stages:
  assumes "settle_failure S L Es p D = (Inr out, D')"
    and "quiet (en_compensation Es)" "quiet (en_reachability Es)"
  obtains i now corrected D1 reach D2 where
    "reconcile_locked S i now (By_Provider_Message p) D = Inr (corrected, D1)"
    "after_correction (By_Provider_Message p) corrected D1 = Inr (reach, D2)"
    "notify L (en_notice Es) (By_Provider_Message p) corrected reach D2 = (Inr out, D')"
proof -
  from assms(1) obtain corrected D1 reach D2 where
    1: "reconcile S (en_compensation Es) (By_Provider_Message p) D = (Inr corrected, D1)" and
    2: "statement (en_reachability Es) (after_correction (By_Provider_Message p) corrected) D1 = (Inr reach, D2)" and
    3: "notify L (en_notice Es) (By_Provider_Message p) corrected reach D2 = (Inr out, D')"
    unfolding settle_failure_def Let_def by (auto dest!: and_stage_InrD)
  from reconcile_quiet [OF 1 assms(2)] statement_quiet [OF assms(3) 2] 3 that show ?thesis by blast
qed

lemma lineage_reads [simp]:
  "conversation_of (D\<lparr>dd_db := d\<rparr>) = conversation_of D" "find_attempt (D\<lparr>dd_db := d\<rparr>) = find_attempt D"
  "find_command_of_message (D\<lparr>dd_db := d\<rparr>) = find_command_of_message D"
  "find_attempt_of_message (D\<lparr>dd_db := d\<rparr>) = find_attempt_of_message D"
  "conversation_of (D\<lparr>dd_reachability := rows\<rparr>) = conversation_of D"
  by (rule ext, simp add: conversation_of_def find_conversation_def find_attempt_def
      find_command_of_message_def find_attempt_of_message_def)+

lemma failure_lineage_db [simp]: "failure_lineage (D\<lparr>dd_db := d\<rparr>) m = failure_lineage D m"
  by (simp only: failure_lineage_def command_attempt_def lineage_reads)

lemma find_message_rows [simp]:
  "find_message (D\<lparr>dd_db := d\<rparr>) i = find_message D i" "find_message (D\<lparr>dd_reachability := rows\<rparr>) i = find_message D i"
  by (simp_all add: find_message_def split: message_identity.split)

lemma failure_covered_db [simp]: "failure_covered (D\<lparr>dd_db := d\<rparr>) s p t = failure_covered D s p t"
  by (simp add: failure_covered_def find_reachability_def)

lemma failure_lineage_recovery:
  "failure_lineage D m = Some (s, a, t) \<Longrightarrow> \<exists>rec. Option.bind (conversation_of D m) cv_checkoutRecovery = Some (rec, s)"
  by (auto simp: failure_lineage_def Let_def split: option.splits prod.splits if_splits)

text \<open>Only the failure of a recipient that cannot be reached is corrected.\<close>

lemma corrected_undeliverable:
  assumes "reconcile_locked S i now p D = Inr (c, D1)" "is_corrected c" "message_keys_ok D" "find_message D p = Some m"
  shows "is_recipient_undeliverable (cm_providerFailureCode m)"
proof -
  have stop: "is_recipient_undeliverable (cm_providerFailureCode x)" if "reconcile_message S i now x cv D = Inr (c, D1)" for x cv
    using that assms(2) by (auto simp: reconcile_message_def split: if_splits)
  from assms(3,4) have keys: "distinct (map cm_id (dd_messages D))" "m \<in> set (dd_messages D)"
    by (auto simp: message_keys_ok_def find_message_def split: message_identity.splits dest: find_row_SomeD)
  from assms(1,2,4) obtain x cv where x: "find_message D (By_Message (cm_id m)) = Some x"
    and run: "reconcile_message S i now x cv D = Inr (c, D1)"
    by (cases "cm_status m = MSG_FAILED") (auto simp: reconcile_locked_def Let_def result_iffs)
  from x have "x \<in> set (dd_messages D)" "cm_id x = cm_id m" by (auto simp: find_message_def dest: find_row_SomeD)
  with keys have "x = m" by (metis key_inj)
  with stop [OF run] show ?thesis by simp
qed

end
