(* ===== verification/Status_Properties.thy ===== *)
theory Status_Properties
  imports Delivery_Notice Delivery_Properties
begin

text \<open>
  The properties of provider status reports and of what follows a delivery failure, each applied to
  the shop of \<open>Delivery_Properties\<close> and its one recovery message.
\<close>

section \<open>Example\<close>

definition ex_library :: status_library where
  "ex_library = \<lparr>json_stringify = (\<lambda>_. ''{}''), sha256_hex = (\<lambda>s. s), default_provider = SHOPIFY\<rparr>"

definition ex_message :: message where
  "ex_message = \<lparr>cm_id = ''m'', cm_providerMessageId = Some ''wamid'', cm_conversationId = ''c'',
     cm_direction = OUTBOUND, cm_senderType = SENDER_AUTOMATION, cm_status = MSG_SENT,
     cm_providerFailureCode = None, cm_sentAt = Some 1, cm_deliveredAt = None, cm_readAt = None,
     cm_failedAt = None, cm_createdAt = 0\<rparr>"

definition ex_sent_delivery :: delivery_db where
  "ex_sent_delivery = ex_delivery\<lparr>dd_messages := [ex_message]\<rparr>"

definition ex_report :: "provider_status \<Rightarrow> time \<Rightarrow> status_event" where
  "ex_report s t = \<lparr>ev_schemaVersion = 3, ev_providerMessageId = ''wamid'', ev_providerAccountId = JNull,
     ev_providerPhoneNumberId = JNull, ev_status = s, ev_occurredAt = t,
     ev_failure = (if s = ST_FAILED then Some ''131026'' else None), ev_pricing = None\<rparr>"

definition ex_quiet :: "delivery_db env" where
  "ex_quiet = ex_delivery_env"

definition ex_stages :: stage_envs where
  "ex_stages = \<lparr>en_status = ex_quiet, en_compensation = ex_quiet, en_reachability = ex_quiet, en_notice = ex_quiet\<rparr>"

lemmas ex_status_defs = ex_sent_delivery_def ex_delivery_def ex_message_def

lemma ex_quiet_quiet: "quiet ex_quiet"
  by (simp add: quiet_def ex_quiet_def ex_delivery_env_def)

lemma ex_sent_ok: "reports_ok ex_sent_delivery"
  by (simp add: reports_ok_def message_keys_ok_def delivered_counted_def messages_ok_def message_times_ok_def
      delivered_count_def count_rows_def status_order ex_status_defs ex_spent_db_def ex_spent_event_def
      deliveredUsageKey_def)

lemma ex_sent_reported: "reported ex_sent_delivery ''s'' ''wamid'' ex_message"
proof -
  have "count_rows (\<lambda>s. sh_id s = ''s'') (db_shops (dd_db ex_sent_delivery)) = 1" by code_simp
  then show ?thesis
    using ex_sent_ok by (simp add: reported_def reports_ok_def)
      (simp add: ex_status_defs conversation_of_def find_conversation_def status_shop_def)
qed

section \<open>Properties\<close>

text \<open>
  C17. Reports on a message refine the maximum of the chain pending, sent, failed, delivered, read:
  whatever their order and however often each is repeated, all of them are accepted, the message ends
  with the highest status reported, and its delivery has been counted once if that is delivered or read
  and not at all otherwise.
\<close>

theorem reports_settle_on_highest_status:
  assumes "reported D shopId p m" "reports_ok D" "fresh_event_ids es D"
    and "\<forall>e\<in>set es. ev_providerMessageId (snd e) = p"
  shows "\<exists>D' m'. report_all L es D = Inr D' \<and> m' \<in> set (dd_messages D') \<and> cm_id m' = cm_id m \<and>
    cm_status m' = Max (insert (cm_status m) (report_status ` set es)) \<and>
    delivered_count D' (cm_id m) = (if MSG_DELIVERED \<le> cm_status m' then 1 else 0)"
proof -
  have p: "ev_providerMessageId (snd e) = p" if "e \<in> set es" for e using assms(4) that by blast
  from report_all_status [OF assms(1,3) p, of L] obtain D' m' where
    run: "report_all L es D = Inr D'" "reported D' shopId p m'" "cm_id m' = cm_id m"
      "cm_status m' = fold max (map report_status es) (cm_status m)" and ok: "reports_ok D'"
    using assms(2) by blast
  from run(2) have m': "m' \<in> set (dd_messages D')" "cm_direction m' = OUTBOUND" by (simp_all add: reported_def)
  with ok have "delivered_count D' (cm_id m') = (if MSG_DELIVERED \<le> cm_status m' then 1 else 0)"
    by (simp add: reports_ok_def delivered_counted_def)
  with run m'(1) show ?thesis by (intro exI [of _ D'] exI [of _ m']) (simp add: fold_max_Max)
qed

theorem reports_settle_on_highest_status_witness:
  "\<exists>D' m'. report_all ex_library [(''1'', ex_report ST_READ 9), (''2'', ex_report ST_FAILED 5), (''3'', ex_report ST_READ 9)]
       ex_sent_delivery = Inr D' \<and> m' \<in> set (dd_messages D') \<and> cm_status m' = MSG_READ \<and> delivered_count D' ''m'' = 1"
proof -
  let ?es = "[(''1'', ex_report ST_READ 9), (''2'', ex_report ST_FAILED 5), (''3'', ex_report ST_READ 9)]"
  have fresh: "fresh_event_ids ?es ex_sent_delivery"
    by (simp add: fresh_event_ids_def ex_status_defs ex_spent_db_def ex_spent_event_def new_usage_event_def)
  have "\<forall>e\<in>set ?es. ev_providerMessageId (snd e) = ''wamid''" by (simp add: ex_report_def)
  from reports_settle_on_highest_status [OF ex_sent_reported ex_sent_ok fresh this, of ex_library]
  obtain D' m' where "report_all ex_library ?es ex_sent_delivery = Inr D'" "m' \<in> set (dd_messages D')"
    "cm_status m' = Max (insert (cm_status ex_message) (report_status ` set ?es))"
    "delivered_count D' (cm_id ex_message) = (if MSG_DELIVERED \<le> cm_status m' then 1 else 0)" by blast
  moreover have "Max (insert (cm_status ex_message) (report_status ` set ?es)) = MSG_READ"
    by (simp add: report_status_def ex_report_def ex_message_def max_def status_order)
  ultimately show ?thesis
    by (intro exI [of _ D'] exI [of _ m']) (simp add: ex_message_def status_order)
qed

text \<open>
  C18. What is recorded of a message stays well typed under reports: a delivered or read message has
  its delivery time and exactly one usage event, exactly the read ones have a reading time, a failed
  one has its failure time, and provider ids stay unique. The transaction and its retries keep this,
  whatever they return or throw and whatever other transactions that keep it do in between.
\<close>

theorem status_report_keeps_messages_typed:
  assumes "reports_ok D" "\<forall>n D. reports_ok D \<longrightarrow> reports_ok (env_step E n D)"
  shows "reports_ok (snd (apply_status L E event D))"
  by (rule apply_status_ok [OF assms(1)]) (use assms(2) in blast)

theorem status_report_keeps_messages_typed_witness:
  "reports_ok (snd (apply_status ex_library ex_quiet (ex_report ST_READ 9) ex_sent_delivery))"
  by (rule status_report_keeps_messages_typed [OF ex_sent_ok]) (simp add: ex_quiet_def ex_delivery_env_def)

text \<open>
  A committed report never takes anything back: every message keeps its id, its status does not
  go down the chain, and a time or a failure code that is recorded keeps its value.
\<close>

theorem status_report_only_adds:
  assumes "status_transaction L eventId event D = Inr (out, D')" "message_keys_ok D" "m \<in> set (dd_messages D)"
  shows "\<exists>m'\<in>set (dd_messages D'). cm_id m' = cm_id m \<and> later_message m m'"
  using status_transaction_InrD [OF assms(1,2)]
proof (elim disjE exE conjE)
  assume "D' = D"
  with assms(3) later_message_refl show ?thesis by blast
next
  fix x s assume "status_effect L eventId s event x D D'"
  from effect_later [OF this assms(3)] show ?thesis .
qed

theorem status_report_only_adds_witness:
  "\<exists>D'. status_transaction ex_library ''1'' (ex_report ST_FAILED 5) ex_sent_delivery = Inr (Status_Applied, D') \<and>
     (\<exists>m'\<in>set (dd_messages D'). cm_id m' = ''m'' \<and> later_message ex_message m')"
proof -
  let ?run = "status_transaction ex_library ''1'' (ex_report ST_FAILED 5) ex_sent_delivery"
  have "\<not> isl ?run" "fst (projr ?run) = Status_Applied" by code_simp+
  from run_exists [OF this] obtain D' where run: "?run = Inr (Status_Applied, D')" by (elim exE)
  have "message_keys_ok ex_sent_delivery" using ex_sent_ok by (simp add: reports_ok_def)
  moreover have "ex_message \<in> set (dd_messages ex_sent_delivery)" by (simp add: ex_sent_delivery_def)
  ultimately have "\<exists>m'\<in>set (dd_messages D'). cm_id m' = cm_id ex_message \<and> later_message ex_message m'"
    by (rule status_report_only_adds [OF run])
  with run show ?thesis by (simp add: ex_message_def)
qed



text \<open>
  C20. The suppression of a recipient is a function of what was reported, not of the order in which
  it arrived: after any sequence of failures and successes the store holds what the reference says of
  the set of them, namely a pause from the last failure on unless a success is as late.
\<close>

theorem suppression_depends_on_latest_signals:
  assumes "find_reachability D shopId recipient = None" "suppression_days D = Some n"
    and "\<forall>t. Failure_At t \<in> set gs \<longrightarrow> in_date_range n t"
  shows "\<exists>D'. record_all shopId recipient gs D = Inr D' \<and>
    Option.bind (find_reachability D' shopId recipient) rr_suppressUntil =
      suppression_spec n (latest (failure_times (set gs))) (latest (success_times (set gs)))"
proof -
  from assms(1,2) have start: "tracks D shopId recipient n {}" by (simp add: tracks_def)
  have range: "in_date_range n t" if "Failure_At t \<in> set gs" for t using assms(3) that by blast
  from record_all_tracks [OF start range] obtain D' where
    "record_all shopId recipient gs D = Inr D'" "tracks D' shopId recipient n ({} \<union> set gs)" by blast
  then show ?thesis by (simp add: tracks_suppressUntil)
qed

theorem suppression_depends_on_latest_signals_witness:
  "\<exists>D'. record_all ''s'' ''441'' [Failure_At 20, Success_At 10, Failure_At 5] ex_delivery = Inr D' \<and>
     Option.bind (find_reachability D' ''s'' ''441'') rr_suppressUntil = Some (20 + 7 * DAY_MS)"
proof -
  let ?gs = "[Failure_At 20, Success_At 10, Failure_At 5]"
  have none: "find_reachability ex_delivery ''s'' ''441'' = None" and days: "suppression_days ex_delivery = Some 7"
    by (simp_all add: find_reachability_def suppression_days_def ex_delivery_def)
  have range: "\<forall>t. Failure_At t \<in> set ?gs \<longrightarrow> in_date_range 7 t"
    by (auto simp: in_date_range_def DAY_MS_def max_date_def)
  have F: "failure_times (set ?gs) = {20, 5}" and G: "success_times (set ?gs) = {10}"
    by (auto simp: failure_times_def success_times_def)
  have "suppression_spec 7 (latest (failure_times (set ?gs))) (latest (success_times (set ?gs))) = Some (20 + 7 * DAY_MS)"
    unfolding F G by (simp add: latest_def)
  with suppression_depends_on_latest_signals [OF none days range] show ?thesis by auto
qed

text \<open>
  C21. No report changes what the ledger of credits must satisfy: the whole job, with all its stages,
  retries and errors, keeps it when the transactions in between do.
\<close>

theorem report_keeps_ledger:
  assumes "ledger_ok (dd_db D)" "steps_keep (\<lambda>D. ledger_ok (dd_db D)) Es"
  shows "ledger_ok (dd_db (snd (process_report safeParse S L Es input D)))"
  using process_report_ledger [OF assms] .

theorem report_keeps_ledger_witness:
  "ledger_ok (dd_db (snd (process_report Some ex_shared ex_library ex_stages (ex_report ST_FAILED 5) ex_sent_delivery)))"
proof (rule report_keeps_ledger)
  show "ledger_ok (dd_db ex_sent_delivery)" using ex_delivery_ledger by (simp add: ex_sent_delivery_def)
  show "steps_keep (\<lambda>D. ledger_ok (dd_db D)) ex_stages"
    by (simp add: steps_keep_def ex_stages_def ex_quiet_def ex_delivery_env_def)
qed

text \<open>
  C22. A merchant hears of a failure only after everything about it is settled. When the stages after a
  failed report end with a notice, the message has failed, its credit was corrected first, the failure
  is covered by the row of its recipient (recorded, or outdated by what is there), and the notice is on
  record under the key of the message.
\<close>

theorem notice_follows_correction_and_suppression:
  assumes "settle_failure S L Es p D = (Inr (Support_Notice n), D')"
    and "quiet (en_compensation Es)" "quiet (en_reachability Es)" "quiet (en_notice Es)"
    and "message_keys_ok D"
  shows "\<exists>m i now corrected D1 shopId a t recoveryId. find_message D (By_Provider_Message p) = Some m \<and> cm_status m = MSG_FAILED \<and>
    reconcile_locked S i now (By_Provider_Message p) D = Inr (corrected, D1) \<and> is_corrected corrected \<and>
    failure_lineage D m = Some (shopId, a, t) \<and> failure_covered D' shopId (oa_recipient a) t \<and>
    (\<exists>x\<in>set (db_supportMessages (dd_db D')).
       sm_sourceKey x = recoveryDeliveryNoticeSourceKey L shopId recoveryId (cm_id m))"
proof -
  from settle_failure_stages [OF assms(1-3)] obtain i now corrected D1 reach D2 where
    c: "reconcile_locked S i now (By_Provider_Message p) D = Inr (corrected, D1)" and
    r: "after_correction (By_Provider_Message p) corrected D1 = Inr (reach, D2)" and
    n: "notify L (en_notice Es) (By_Provider_Message p) corrected reach D2 = (Inr (Support_Notice n), D')" by blast
  from reconcile_locked_frame [OF c] obtain d1 where D1: "D1 = D\<lparr>dd_db := d1\<rparr>" by blast
  from notify_sent [OF n assms(4)] obtain m rec s where
    m: "find_message D2 (By_Provider_Message p) = Some m" "cm_status m = MSG_FAILED" "is_corrected corrected"
      "reach \<noteq> Deferred" "reach = Not_Applicable \<longleftrightarrow> \<not> is_recipient_undeliverable (cm_providerFailureCode m)"
    and s: "Option.bind (conversation_of D2 m) cv_checkoutRecovery = Some (rec, s)"
    and x: "\<exists>x\<in>set (db_supportMessages (dd_db D')). sm_sourceKey x = recoveryDeliveryNoticeSourceKey L s rec (cm_id m)"
    and D': "\<exists>d. D' = D2\<lparr>dd_db := d\<rparr>" by blast
  from r m(1) D1 have "find_message D (By_Provider_Message p) = Some m"
    using after_correction_messages [OF r] by auto
  from corrected_undeliverable [OF c m(3) assms(5) this] have undeliverable: "is_recipient_undeliverable (cm_providerFailureCode m)" .
  have reach: "reach = Suppressed \<or> reach = Failure_Unchanged"
    using m(4,5) undeliverable by (cases reach) simp_all
  from after_correction_InrD [OF r reach] obtain m' s' a t where
    m': "find_message D1 (By_Provider_Message p) = Some m'" "failure_lineage D1 m' = Some (s', a, t)"
      "failure_covered D2 s' (oa_recipient a) t" and D2: "\<exists>rows. D2 = D1\<lparr>dd_reachability := rows\<rparr>" by blast
  from D2 m'(1) m(1) have "m' = m" by auto
  moreover from this failure_lineage_recovery [OF m'(2)] D2 s have "s' = s" by auto
  ultimately have "failure_lineage D m = Some (s, a, t)" "failure_covered D' s (oa_recipient a) t"
    "find_message D (By_Provider_Message p) = Some m" using m' D' D1 by auto
  with c m(2,3) x show ?thesis by blast
qed

theorem notice_follows_correction_and_suppression_witness:
  "\<exists>D'. settle_failure ex_shared ex_library ex_stages ''wamid'' ex_delivery = (Inr (Support_Notice Notice_Created), D') \<and>
     failure_covered D' ''s'' ''441'' 5"
proof -
  let ?run = "settle_failure ex_shared ex_library ex_stages ''wamid'' ex_delivery"
  have "fst ?run = Inr (Support_Notice Notice_Created)" by code_simp
  then obtain D' where run: "?run = (Inr (Support_Notice Notice_Created), D')" by (metis prod.collapse)
  have quiets: "quiet (en_compensation ex_stages)" "quiet (en_reachability ex_stages)" "quiet (en_notice ex_stages)"
    using ex_quiet_quiet by (simp_all add: ex_stages_def)
  have keys: "message_keys_ok ex_delivery" by (simp add: message_keys_ok_def ex_delivery_def)
  from notice_follows_correction_and_suppression [OF run quiets keys] obtain m s a t where
    "find_message ex_delivery (By_Provider_Message ''wamid'') = Some m" "failure_lineage ex_delivery m = Some (s, a, t)"
    "failure_covered D' s (oa_recipient a) t" by blast
  moreover have "map_option (\<lambda>m. map_option (\<lambda>(s, a, t). (s, oa_recipient a, t)) (failure_lineage ex_delivery m))
      (find_message ex_delivery (By_Provider_Message ''wamid'')) = Some (Some (''s'', ''441'', 5))" by code_simp
  ultimately show ?thesis using run by auto
qed

text \<open>
  A merchant hears of a failure once. The notice is written under a key no other message has, so
  writing it again, for the same message, changes nothing and says so; keys stay unique through a whole
  job, whatever it does.
\<close>

theorem notice_is_written_once:
  assumes "write_notice L E shopId recoveryId messageId body D = (Inr n, D1)" "quiet E" "quiet E'" "notices_unique D"
  shows "write_notice L E' shopId recoveryId messageId body' D1 = (Inr Notice_Duplicate, D1) \<and> notices_unique D1"
proof -
  have "notices_unique (snd (write_notice L E shopId recoveryId messageId body D))"
    by (rule write_notice_invariant [where I = notices_unique, OF assms(4)])
      (use assms(2) notice_transaction_unique in \<open>auto simp: quiet_def\<close>)
  moreover from write_notice_on_record [OF assms(1,2)] obtain x where "x \<in> set (db_supportMessages (dd_db D1))"
    "sm_sourceKey x = recoveryDeliveryNoticeSourceKey L shopId recoveryId messageId" by blast
  ultimately show ?thesis using write_notice_again assms(1,3) by fastforce
qed

theorem notice_is_written_once_witness:
  "\<exists>D1. write_notice ex_library ex_quiet ''s'' ''rec'' ''m'' ''a'' ex_delivery = (Inr Notice_Created, D1) \<and>
     write_notice ex_library ex_quiet ''s'' ''rec'' ''m'' ''b'' D1 = (Inr Notice_Duplicate, D1)"
proof -
  let ?run = "write_notice ex_library ex_quiet ''s'' ''rec'' ''m'' ''a'' ex_delivery"
  have "fst ?run = Inr Notice_Created" by code_simp
  then obtain D1 where run: "?run = (Inr Notice_Created, D1)" by (metis prod.collapse)
  have "notices_unique ex_delivery" by (simp add: notices_unique_def ex_delivery_def ex_spent_db_def ex_defs)
  from notice_is_written_once [OF run ex_quiet_quiet ex_quiet_quiet this] run show ?thesis by blast
qed

end
