(* ===== verification/Conversation_Wrapper.thy ===== *)
theory Conversation_Wrapper
  imports Prelude
begin

text \<open>
  \<open>src/services/conversation-wrappers/\<close>: the envelope a merchant puts around every reply. The
  prepared projection of a template is read and verified (\<open>projection.ts\<close>), the slot, the definition
  and the language are chosen (\<open>selection.ts\<close>), the sections are rendered around the response
  (\<open>render.ts\<close>), and the service ties them together and recognises a result it has already made
  (\<open>service.ts\<close>, \<open>compose-ai-outbound.ts\<close>).
\<close>

section \<open>Strings\<close>

text \<open>\<open>includes\<close> and \<open>indexOf\<close>.\<close>

fun index_of :: "string \<Rightarrow> string \<Rightarrow> nat option" where
  "index_of pat s =
     (if starts_with pat s then Some 0
      else (case s of [] \<Rightarrow> None | _ # t \<Rightarrow> map_option Suc (index_of pat t)))"

declare index_of.simps [simp del]

definition js_includes :: "string \<Rightarrow> string \<Rightarrow> bool" where
  "js_includes s pat \<longleftrightarrow> index_of pat s \<noteq> None"

fun join_with :: "string \<Rightarrow> string list \<Rightarrow> string" where
  "join_with sep [] = []"
| "join_with sep [s] = s"
| "join_with sep (s # t # ts) = s @ sep @ join_with sep (t # ts)"

section \<open>Prepared wrappers\<close>

datatype prepared_token = Text_Token string | Variable_Token string | Response_Slot

record prepared_wrapper =
  pw_header :: "prepared_token list"
  pw_body :: "prepared_token list"
  pw_footer :: "prepared_token list"
  pw_conditionals :: "prepared_token list list"

record wrapper_context =
  wc_conversationLanguageTag :: "string option"
  wc_merchantLanguageTag :: "string option"
  wc_variables :: "string \<Rightarrow> string option"
  wc_checkoutAvailable :: bool

datatype wrapper_refusal =
    INVALID_INPUT | INVALID_LANGUAGE | CONVERSATION_UNAVAILABLE | TENANT_MISMATCH | NOT_CONFIGURED
  | DEFINITION_UNAVAILABLE | LOCALE_UNAVAILABLE | PREPARED_MISSING | PREPARED_INVALID
  | VARIABLE_UNAVAILABLE | ALREADY_WRAPPED | OUTPUT_TOO_LONG | REPLAY_MISMATCH

text \<open>
  The runtime: \<open>JSON.stringify\<close> of a string or a number, the collation of \<open>localeCompare\<close> in English, the
  SHA-256 digest, and what the internationalization library says of a language tag. A function that
  may throw returns \<open>None\<close> then.
\<close>

record wrapper_library =
  wl_stringify :: "json \<Rightarrow> string"
  wl_localeCompare :: "string \<Rightarrow> string \<Rightarrow> int"
  wl_sha256 :: "string \<Rightarrow> string"
  wl_canonicaliseLanguageTag :: "string \<Rightarrow> string option option"
  wl_language :: "string \<Rightarrow> string option"
  wl_resolveModaConfigurationLocale :: "string option \<Rightarrow> string option"

section \<open>The projection\<close>

definition VARIABLES :: "string list" where
  "VARIABLES = [''customer.firstName'', ''shop.name'', ''checkout.url'', ''shopBrand.brandName'',
     ''shopBrand.logoUrl'', ''shopBrand.logoAltText'', ''shopBrand.logoWidth'', ''shopBrand.logoHeight'',
     ''shopBrand.squareLogoUrl'', ''shopBrand.squareLogoAltText'', ''shopBrand.coverImageUrl'']"

definition SLOT :: string where
  "SLOT = ''response.body''"

text \<open>The test of \<open>/\{\{[^{}]*\}\}|\{\{|\}\}/\<close>.\<close>

definition has_token_marker :: "string \<Rightarrow> bool" where
  "has_token_marker s \<longleftrightarrow> js_includes s ''{{'' \<or> js_includes s ''}}''"

fun is_object :: "json \<Rightarrow> bool" where
  "is_object (JObject _) = True"
| "is_object _ = False"

fun onlyKeys :: "json \<Rightarrow> string list \<Rightarrow> bool" where
  "onlyKeys (JObject fs) allowed = (\<forall>f\<in>set fs. fst f \<in> set allowed)"
| "onlyKeys _ allowed = True"

definition insert_entry :: "(string \<Rightarrow> string \<Rightarrow> int) \<Rightarrow> string \<times> 'a \<Rightarrow> (string \<times> 'a) list \<Rightarrow> (string \<times> 'a) list" where
  "insert_entry cmp e es =
     takeWhile (\<lambda>x. cmp (fst x) (fst e) < 0) es @ e # dropWhile (\<lambda>x. cmp (fst x) (fst e) < 0) es"

definition sort_entries :: "(string \<Rightarrow> string \<Rightarrow> int) \<Rightarrow> (string \<times> 'a) list \<Rightarrow> (string \<times> 'a) list" where
  "sort_entries cmp es = foldr (insert_entry cmp) es []"

fun stableJson :: "wrapper_library \<Rightarrow> json \<Rightarrow> string" where
  "stableJson L (JArray vs) = ''['' @ join_with '','' (map (stableJson L) vs) @ '']''"
| "stableJson L (JObject fs) =
     ''{'' @ join_with '','' (map (\<lambda>(k, text). wl_stringify L (JString k) @ '':'' @ text)
       (sort_entries (wl_localeCompare L) (map (\<lambda>f. (fst f, stableJson L (snd f))) fs))) @ ''}''"
| "stableJson L v = wl_stringify L v"

datatype token_place = In_Header | In_Body | In_Footer | In_Conditional

text \<open>One node: the token it stands for, with what it adds to the length of its section.\<close>

definition read_token :: "token_place \<Rightarrow> json \<Rightarrow> (prepared_token \<times> nat) option" where
  "read_token place node =
     (if \<not> is_object node then None
      else
        (case json_field node ''kind'' of
           Some (JString kind) \<Rightarrow>
             if kind = ''text'' then
               (case json_field node ''value'' of
                  Some (JString v) \<Rightarrow>
                    if onlyKeys node [''kind'', ''value''] \<and> \<not> has_token_marker v
                    then Some (Text_Token v, length v) else None
                | _ \<Rightarrow> None)
             else if kind = ''variable'' then
               (case json_field node ''name'' of
                  Some (JString n) \<Rightarrow>
                    if onlyKeys node [''kind'', ''name''] \<and> n \<in> set VARIABLES \<and>
                       (n \<noteq> ''checkout.url'' \<or> place = In_Conditional)
                    then Some (Variable_Token n, 5) else None
                | _ \<Rightarrow> None)
             else if kind = ''responseSlot'' then
               (if place = In_Body \<and> onlyKeys node [''kind'', ''name''] \<and> json_field node ''name'' = Some (JString SLOT)
                then Some (Response_Slot, 5) else None)
             else None
         | _ \<Rightarrow> None))"

fun read_nodes :: "token_place \<Rightarrow> nat \<Rightarrow> nat \<Rightarrow> json list \<Rightarrow> prepared_token list option" where
  "read_nodes place limit n [] = Some []"
| "read_nodes place limit n (v # vs) =
     (case read_token place v of
        None \<Rightarrow> None
      | Some (t, k) \<Rightarrow>
          if limit < n + k then None else map_option ((#) t) (read_nodes place limit (n + k) vs))"

definition readTokens :: "json option \<Rightarrow> token_place \<Rightarrow> prepared_token list option" where
  "readTokens value place =
     (case value of
        Some (JArray vs) \<Rightarrow>
          if 80 < length vs then None
          else read_nodes place (if place = In_Body then 4000 else 1500) 0 vs
      | _ \<Rightarrow> None)"

definition read_conditional :: "json \<Rightarrow> prepared_token list option" where
  "read_conditional c =
     (if \<not> is_object c \<or> \<not> onlyKeys c [''when'', ''tokens''] \<or>
         json_field c ''when'' \<noteq> Some (JString ''checkout.available'') then None
      else readTokens (json_field c ''tokens'') In_Conditional)"

fun read_all :: "('a \<Rightarrow> 'b option) \<Rightarrow> 'a list \<Rightarrow> 'b list option" where
  "read_all f [] = Some []"
| "read_all f (x # xs) = (case f x of None \<Rightarrow> None | Some y \<Rightarrow> map_option ((#) y) (read_all f xs))"

definition is_sha256_hex :: "string \<Rightarrow> bool" where
  "is_sha256_hex s \<longleftrightarrow> length s = 64 \<and>
     list_all (\<lambda>c. let n = of_char c :: nat in (97 \<le> n \<and> n \<le> 102) \<or> (48 \<le> n \<and> n \<le> 57)) s"

datatype projection = Projection prepared_wrapper | Projection_Missing | Projection_Invalid

definition slots_in :: "prepared_token list \<Rightarrow> nat" where
  "slots_in ts = length (filter (\<lambda>t. t = Response_Slot) ts)"

definition readPreparedWrapper :: "wrapper_library \<Rightarrow> json \<Rightarrow> string option \<Rightarrow> projection" where
  "readPreparedWrapper L localeAst contentHash =
     (if \<not> is_object localeAst \<or> json_field localeAst ''schemaVersion'' \<noteq> Some (JNumber ''1'') then Projection_Missing
      else
        (case json_field localeAst ''prepared'' of
           Some (JObject fs) \<Rightarrow>
             let prepared = JObject fs in
             (case json_field prepared ''conditionals'' of
                Some (JArray cs) \<Rightarrow>
                  if \<not> onlyKeys prepared [''schemaVersion'', ''family'', ''responseSlot'', ''header'', ''body'', ''footer'', ''conditionals''] \<or>
                     json_field prepared ''schemaVersion'' \<noteq> Some (JNumber ''1'') \<or>
                     json_field prepared ''family'' \<noteq> Some (JString ''MODA_CONVERSATION_WRAPPER'') \<or>
                     json_field prepared ''responseSlot'' \<noteq> Some (JString SLOT) \<or> 1 < length cs
                  then Projection_Invalid
                  else
                    (case (readTokens (json_field prepared ''header'') In_Header, readTokens (json_field prepared ''body'') In_Body,
                           readTokens (json_field prepared ''footer'') In_Footer, read_all read_conditional cs) of
                       (Some header, Some body, Some footer, Some conditionals) \<Rightarrow>
                         if slots_in body \<noteq> 1 \<or> \<not> truthy contentHash \<or> \<not> is_sha256_hex (the contentHash) \<or>
                            Some (wl_sha256 L (stableJson L prepared)) \<noteq> contentHash
                         then Projection_Invalid
                         else Projection \<lparr>pw_header = header, pw_body = body, pw_footer = footer,
                           pw_conditionals = conditionals\<rparr>
                     | _ \<Rightarrow> Projection_Invalid)
              | _ \<Rightarrow> Projection_Invalid)
         | _ \<Rightarrow> Projection_Missing))"

section \<open>Rendering\<close>

definition MAX_WHATSAPP_TEXT_LENGTH :: nat where
  "MAX_WHATSAPP_TEXT_LENGTH = 4096"

definition MAX_VARIABLE_LENGTH :: nat where
  "MAX_VARIABLE_LENGTH = 2048"

definition hasDisallowedTextControl :: "string \<Rightarrow> bool" where
  "hasDisallowedTextControl s \<longleftrightarrow>
     list_ex (\<lambda>c. let n = of_char c :: nat in n < 32 \<and> n \<noteq> 9 \<and> n \<noteq> 10 \<and> n \<noteq> 13) s"

definition valueFor :: "string \<Rightarrow> wrapper_context \<Rightarrow> string option" where
  "valueFor n context =
     (case wc_variables context n of
        None \<Rightarrow> None
      | Some v \<Rightarrow>
          if js_trim v = [] \<or> MAX_VARIABLE_LENGTH < length v \<or> hasDisallowedTextControl v then None else Some v)"

fun renderTokens :: "prepared_token list \<Rightarrow> wrapper_context \<Rightarrow> string \<Rightarrow> string option" where
  "renderTokens [] context response = Some []"
| "renderTokens (Text_Token v # ts) context response = map_option ((@) v) (renderTokens ts context response)"
| "renderTokens (Response_Slot # ts) context response = map_option ((@) response) (renderTokens ts context response)"
| "renderTokens (Variable_Token n # ts) context response =
     (case valueFor n context of
        None \<Rightarrow> None
      | Some v \<Rightarrow> map_option ((@) v) (renderTokens ts context response))"

definition conditional_parts :: "prepared_wrapper \<Rightarrow> wrapper_context \<Rightarrow> string \<Rightarrow> string list" where
  "conditional_parts prepared context response =
     (if wc_checkoutAvailable context
      then List.map_filter (\<lambda>ts. renderTokens ts context response) (pw_conditionals prepared) else [])"

definition renderSections :: "prepared_wrapper \<Rightarrow> wrapper_context \<Rightarrow> string \<Rightarrow> string option" where
  "renderSections prepared context response =
     (case (renderTokens (pw_header prepared) context response, renderTokens (pw_body prepared) context response,
            renderTokens (pw_footer prepared) context response) of
        (Some header, Some body, Some footer) \<Rightarrow>
          Some (join_with [CHR 0x0A] (filter (\<lambda>p. p \<noteq> [])
            ([header, body] @ conditional_parts prepared context response @ [footer])))
      | _ \<Rightarrow> None)"

definition probe :: string where
  "probe = CHR 0x00 # ''__MODA_RESPONSE_SLOT__'' @ [CHR 0x00]"

text \<open>
  What stands before and after the slot; when the probe is not found, \<open>indexOf\<close> is -1 and \<open>slice\<close>
  counts from the end.
\<close>

definition envelope_around :: "string \<Rightarrow> string \<times> string" where
  "envelope_around envelope =
     (case index_of probe envelope of
        Some n \<Rightarrow> (take n envelope, drop (n + length probe) envelope)
      | None \<Rightarrow> (take (length envelope - 1) envelope, drop (length probe - 1) envelope))"

datatype rendering = Rendered string | Rejected wrapper_refusal

definition renderPreparedWrapper :: "prepared_wrapper \<Rightarrow> wrapper_context \<Rightarrow> string \<Rightarrow> rendering" where
  "renderPreparedWrapper prepared context responseBody =
     (if js_trim responseBody = [] \<or> hasDisallowedTextControl responseBody then Rejected INVALID_INPUT
      else if MAX_WHATSAPP_TEXT_LENGTH < length responseBody then Rejected OUTPUT_TOO_LONG
      else
        (case renderSections prepared context probe of
           None \<Rightarrow> Rejected VARIABLE_UNAVAILABLE
         | Some envelope \<Rightarrow>
             let (prefix, suffix) = envelope_around envelope in
             if (prefix \<noteq> [] \<or> suffix \<noteq> []) \<and> length prefix + length suffix < length responseBody \<and>
                starts_with prefix responseBody \<and> ends_with suffix responseBody
             then Rejected ALREADY_WRAPPED
             else
               (case renderSections prepared context responseBody of
                  None \<Rightarrow> Rejected VARIABLE_UNAVAILABLE
                | Some rendered \<Rightarrow>
                    if MAX_WHATSAPP_TEXT_LENGTH < length rendered then Rejected OUTPUT_TOO_LONG
                    else Rendered rendered)))"

section \<open>Selection\<close>

record wrapper_locale =
  lo_id :: id
  lo_languageTag :: string
  lo_status :: string
  lo_providerLanguageCode :: "string option"
  lo_localeAst :: json
  lo_contentHash :: "string option"
  lo_reviewedAt :: "time option"
  lo_reviewedByAdminId :: "id option"

record wrapper_definition =
  wd_id :: id
  wd_kind :: string
  wd_audience :: "string option"
  wd_status :: string
  wd_sourceLanguageTag :: string
  wd_astSchemaVersion :: int
  wd_sourceHash :: string
  wd_publishedAt :: "time option"
  wd_retiredAt :: "time option"
  wd_createdByAdminId :: id
  wd_locales :: "wrapper_locale list"

record wrapper_slot =
  ws_audience :: string
  ws_definitionId :: id
  ws_editVersion :: int
  ws_definition :: wrapper_definition

datatype wrapper_source = AI | HUMAN

definition source_name :: "wrapper_source \<Rightarrow> string" where
  "source_name s = (case s of AI \<Rightarrow> ''AI'' | HUMAN \<Rightarrow> ''HUMAN'')"

text \<open>\<open>canonicalTag\<close>: the outer \<open>None\<close> is a throw.\<close>

definition canonicalTag :: "wrapper_library \<Rightarrow> string option \<Rightarrow> string option option" where
  "canonicalTag L value =
     (case value of None \<Rightarrow> Some None
      | Some v \<Rightarrow> if js_trim v = [] then Some None else wl_canonicaliseLanguageTag L v)"

datatype slot_choice = Chosen wrapper_slot | No_Slot | Invalid_Slots

definition chooseSlot :: "wrapper_slot list \<Rightarrow> wrapper_source \<Rightarrow> slot_choice" where
  "chooseSlot slots source =
     (let own = filter (\<lambda>s. ws_audience s = source_name source) slots;
          common = filter (\<lambda>s. ws_audience s = ''SHARED'') slots in
      if 1 < length own \<or> 1 < length common \<or>
         (\<exists>s\<in>set slots. ws_audience s \<notin> {''SHARED'', ''AI'', ''HUMAN''}) then Invalid_Slots
      else (case own of s # _ \<Rightarrow> Chosen s | [] \<Rightarrow> (case common of s # _ \<Rightarrow> Chosen s | [] \<Rightarrow> No_Slot)))"

definition validDefinition :: "wrapper_definition \<Rightarrow> wrapper_slot \<Rightarrow> bool" where
  "validDefinition d slot \<longleftrightarrow> wd_id d = ws_definitionId slot \<and> wd_id (ws_definition slot) = ws_definitionId slot \<and>
     is_safe_int (ws_editVersion slot) \<and> 0 < ws_editVersion slot \<and>
     wd_kind d = ''MODA_CONVERSATION_WRAPPER'' \<and> wd_audience d = Some (ws_audience slot) \<and>
     ws_audience slot \<in> {''SHARED'', ''AI'', ''HUMAN''} \<and>
     wd_status d = ''PUBLISHED'' \<and> wd_publishedAt d \<noteq> None \<and> wd_retiredAt d = None \<and>
     wd_createdByAdminId d \<noteq> [] \<and> wd_sourceLanguageTag d = ''en'' \<and> wd_astSchemaVersion d = 1 \<and>
     is_sha256_hex (wd_sourceHash d)"

text \<open>\<open>add\<close>: an empty or repeated tag is left out.\<close>

definition add_choice :: "string option \<Rightarrow> string list \<Rightarrow> string list" where
  "add_choice tag choices =
     (if truthy tag \<and> the tag \<notin> set choices then choices @ [the tag] else choices)"

text \<open>\<open>None\<close> is \<open>"invalid"\<close>.\<close>

definition languageChoices ::
  "wrapper_library \<Rightarrow> string option \<Rightarrow> string option \<Rightarrow> string option \<Rightarrow> string option \<Rightarrow> string list option" where
  "languageChoices L conversationTag merchantTag preferredTag platformFallbackTag =
     (case (canonicalTag L conversationTag, canonicalTag L merchantTag, canonicalTag L preferredTag,
            canonicalTag L platformFallbackTag) of
        (Some customer, Some merchant, Some caller, Some fallback) \<Rightarrow>
          if (truthy conversationTag \<and> \<not> truthy customer) \<or> (truthy merchantTag \<and> \<not> truthy merchant) \<or>
             (truthy preferredTag \<and> \<not> truthy caller) \<or> (truthy platformFallbackTag \<and> \<not> truthy fallback) then None
          else if truthy caller \<and> truthy customer \<and> caller \<noteq> customer then None
          else
            let base = (case customer of Some c \<Rightarrow> Some c | None \<Rightarrow> caller); first = add_choice base [] in
            map_option (\<lambda>choices. add_choice fallback (add_choice merchant choices))
              (if truthy base then map_option (\<lambda>l. add_choice (Some l) first) (wl_language L (the base)) else Some first)
      | _ \<Rightarrow> None)"

section \<open>The service\<close>

record wrapped_result =
  wr_body :: string
  wr_wrapperDefinitionId :: id
  wr_localeId :: id
  wr_audience :: string
  wr_slotEditVersion :: int
  wr_languageTag :: string
  wr_contentHash :: "string option"
  wr_messageIdentity :: string
  wr_source :: wrapper_source
  wr_applicationKey :: string
  wr_responseDigest :: string
  wr_replayed :: bool

datatype wrapper_result =
    Wrapped wrapped_result | No_Wrapper string
  | Unavailable_Wrapper wrapper_refusal | Rejected_Wrapper wrapper_refusal

record render_input =
  ri_conversationId :: id
  ri_source :: wrapper_source
  ri_messageIdentity :: string
  ri_responseBody :: string
  ri_candidates :: "string list option"
  ri_languageTag :: "string option"
  ri_previousApplication :: "wrapped_result option"

datatype loaded_context = Tenant_Mismatch | No_Conversation | Loaded wrapper_context

text \<open>
  The read port and the policy of the service: what its context and slots load, or the error that the read throws
  (the repository reads the database, and reads the configured recovery lifetime).
\<close>

type_synonym wrapper_error = string

record wrapper_state =
  wst_context :: "id \<Rightarrow> wrapper_error + loaded_context"
  wst_slots :: "wrapper_error + wrapper_slot list"
  wst_passthrough :: bool
  wst_platformFallbackLanguageTag :: "string option"

definition json_text :: "string option \<Rightarrow> json" where
  "json_text s = (case s of None \<Rightarrow> JNull | Some t \<Rightarrow> JString t)"

definition application_key ::
  "wrapper_library \<Rightarrow> id \<Rightarrow> string \<Rightarrow> wrapper_source \<Rightarrow> id \<Rightarrow> id \<Rightarrow> string option \<Rightarrow> int \<Rightarrow> string \<Rightarrow> string \<Rightarrow> string" where
  "application_key L conversationId messageIdentity source definitionId localeId contentHash editVersion responseDigest body =
     wl_sha256 L (stableJson L (JObject
       [(''conversationId'', JString conversationId), (''messageIdentity'', JString messageIdentity),
        (''source'', JString (source_name source)), (''wrapperDefinitionId'', JString definitionId),
        (''localeId'', JString localeId), (''contentHash'', json_text contentHash),
        (''editVersion'', JNumber (show_int editVersion)), (''responseDigest'', JString responseDigest),
        (''bodyDigest'', JString (wl_sha256 L body))]))"

definition valid_render_input :: "render_input \<Rightarrow> bool" where
  "valid_render_input input \<longleftrightarrow>
     ri_conversationId input \<noteq> [] \<and> length (ri_conversationId input) \<le> 128 \<and>
     ri_messageIdentity input \<noteq> [] \<and> length (ri_messageIdentity input) \<le> 128 \<and>
     js_trim (ri_responseBody input) \<noteq> []"

definition valid_candidates :: "render_input \<Rightarrow> bool" where
  "valid_candidates input \<longleftrightarrow>
     (case ri_candidates input of None \<Rightarrow> True
      | Some cs \<Rightarrow> ri_source input = AI \<and> 1 \<le> length cs \<and> length cs \<le> 3 \<and>
          list_all (\<lambda>c. js_trim c \<noteq> [] \<and> length c \<le> MAX_WHATSAPP_TEXT_LENGTH) cs \<and>
          hd cs = ri_responseBody input)"

definition response_bodies :: "render_input \<Rightarrow> string list" where
  "response_bodies input = (case ri_candidates input of None \<Rightarrow> [ri_responseBody input] | Some cs \<Rightarrow> cs)"

definition replay_matches :: "wrapper_library \<Rightarrow> render_input \<Rightarrow> wrapped_result \<Rightarrow> bool" where
  "replay_matches L input prior \<longleftrightarrow>
     wr_source prior = ri_source input \<and> wr_messageIdentity prior = ri_messageIdentity input \<and>
     (case find (\<lambda>b. wl_sha256 L b = wr_responseDigest prior) (response_bodies input) of
        None \<Rightarrow> False
      | Some b \<Rightarrow> b \<noteq> [] \<and> length (wr_body prior) \<le> MAX_WHATSAPP_TEXT_LENGTH \<and> js_includes (wr_body prior) b \<and>
          wr_applicationKey prior = application_key L (ri_conversationId input) (wr_messageIdentity prior)
            (wr_source prior) (wr_wrapperDefinitionId prior) (wr_localeId prior) (wr_contentHash prior)
            (wr_slotEditVersion prior) (wr_responseDigest prior) (wr_body prior))"

fun distinct_first :: "'a list \<Rightarrow> 'a list" where
  "distinct_first [] = []"
| "distinct_first (x # xs) = x # filter (\<lambda>y. y \<noteq> x) (distinct_first xs)"

text \<open>
  With candidates composed for one language only the tags that resolve to it are looked up
  (lines 110--123); \<open>None\<close> is the refusal after a throw.
\<close>

definition same_language :: "wrapper_library \<Rightarrow> string \<Rightarrow> string \<Rightarrow> string \<Rightarrow> bool option" where
  "same_language L bodyLocale language tag =
     (case wl_language L tag of
        None \<Rightarrow> None
      | Some l \<Rightarrow>
          if l = language then map_option (\<lambda>r. r = bodyLocale) (wl_resolveModaConfigurationLocale L (Some tag))
          else Some False)"

fun filter_tags :: "(string \<Rightarrow> bool option) \<Rightarrow> string list \<Rightarrow> string list option" where
  "filter_tags p [] = Some []"
| "filter_tags p (t # ts) =
     (case p t of None \<Rightarrow> None
      | Some keep \<Rightarrow> map_option (\<lambda>r. if keep then t # r else r) (filter_tags p ts))"

definition candidate_choices :: "wrapper_library \<Rightarrow> string option \<Rightarrow> string list \<Rightarrow> string list option" where
  "candidate_choices L conversationTag choices =
     (case canonicalTag L conversationTag of
        None \<Rightarrow> None
      | Some effectiveTag \<Rightarrow>
          (case wl_resolveModaConfigurationLocale L effectiveTag of
             None \<Rightarrow> None
           | Some bodyLocale \<Rightarrow>
               (case wl_language L bodyLocale of
                  None \<Rightarrow> None
                | Some language \<Rightarrow>
                    filter_tags (same_language L bodyLocale language)
                      (distinct_first ((case effectiveTag of None \<Rightarrow> [] | Some t \<Rightarrow> [t]) @ bodyLocale # choices)))))"

definition find_locale :: "wrapper_locale list \<Rightarrow> string list \<Rightarrow> wrapper_locale option" where
  "find_locale locales tags =
     Option.bind (find (\<lambda>tag. \<exists>l\<in>set locales. lo_languageTag l = tag) tags)
       (\<lambda>tag. find (\<lambda>l. lo_languageTag l = tag) locales)"

definition usable_locale :: "wrapper_locale \<Rightarrow> bool" where
  "usable_locale l \<longleftrightarrow>
     (let sourceLocale = (lo_languageTag l = ''en'') in
      lo_status l = (if sourceLocale then ''SOURCE_SAVED'' else ''REVIEWED'') \<and>
      lo_providerLanguageCode l = None \<and>
      (sourceLocale \<or> (lo_reviewedAt l \<noteq> None \<and> truthy (lo_reviewedByAdminId l))))"

text \<open>The first candidate that fits; another refusal than a too long output ends the search.\<close>

fun render_first ::
  "prepared_wrapper \<Rightarrow> wrapper_context \<Rightarrow> string list \<Rightarrow> wrapper_refusal + string \<times> string" where
  "render_first prepared context [] = Inl OUTPUT_TOO_LONG"
| "render_first prepared context (b # bs) =
     (case renderPreparedWrapper prepared context b of
        Rendered r \<Rightarrow> Inr (b, r)
      | Rejected reason \<Rightarrow> if reason \<noteq> OUTPUT_TOO_LONG then Inl reason else render_first prepared context bs)"

definition render_locale ::
  "wrapper_library \<Rightarrow> render_input \<Rightarrow> wrapper_context \<Rightarrow> wrapper_slot \<Rightarrow> wrapper_locale \<Rightarrow> wrapper_result" where
  "render_locale L input context slot l =
     (if \<not> usable_locale l then Rejected_Wrapper LOCALE_UNAVAILABLE
      else
        (case readPreparedWrapper L (lo_localeAst l) (lo_contentHash l) of
           Projection_Missing \<Rightarrow> Rejected_Wrapper PREPARED_MISSING
         | Projection_Invalid \<Rightarrow> Rejected_Wrapper PREPARED_INVALID
         | Projection prepared \<Rightarrow>
             (case render_first prepared context (response_bodies input) of
                Inl reason \<Rightarrow> Rejected_Wrapper reason
              | Inr (b, r) \<Rightarrow>
                  let responseDigest = wl_sha256 L b in
                  Wrapped \<lparr>wr_body = r, wr_wrapperDefinitionId = ws_definitionId slot, wr_localeId = lo_id l,
                    wr_audience = ws_audience slot, wr_slotEditVersion = ws_editVersion slot,
                    wr_languageTag = lo_languageTag l, wr_contentHash = lo_contentHash l,
                    wr_messageIdentity = ri_messageIdentity input, wr_source = ri_source input,
                    wr_applicationKey = application_key L (ri_conversationId input) (ri_messageIdentity input)
                      (ri_source input) (ws_definitionId slot) (lo_id l) (lo_contentHash l) (ws_editVersion slot)
                      responseDigest r,
                    wr_responseDigest = responseDigest, wr_replayed = False\<rparr>)))"

definition render_fresh ::
  "wrapper_library \<Rightarrow> wrapper_state \<Rightarrow> wrapper_slot list \<Rightarrow> render_input \<Rightarrow> wrapper_context \<Rightarrow> wrapper_result" where
  "render_fresh L s slots input context =
     (case chooseSlot slots (ri_source input) of
        Invalid_Slots \<Rightarrow> Rejected_Wrapper DEFINITION_UNAVAILABLE
      | No_Slot \<Rightarrow>
          if wst_passthrough s then No_Wrapper (ri_responseBody input) else Unavailable_Wrapper NOT_CONFIGURED
      | Chosen slot \<Rightarrow>
          if \<not> validDefinition (ws_definition slot) slot then Rejected_Wrapper DEFINITION_UNAVAILABLE
          else
            (case languageChoices L (wc_conversationLanguageTag context) (wc_merchantLanguageTag context)
                    (ri_languageTag input) (wst_platformFallbackLanguageTag s) of
               None \<Rightarrow> Rejected_Wrapper INVALID_LANGUAGE
             | Some choices \<Rightarrow>
                 (case (if ri_candidates input = None then Some choices
                        else candidate_choices L (wc_conversationLanguageTag context) choices) of
                    None \<Rightarrow> Rejected_Wrapper INVALID_LANGUAGE
                  | Some lookupChoices \<Rightarrow>
                      (case find_locale (wd_locales (ws_definition slot)) lookupChoices of
                         None \<Rightarrow> Unavailable_Wrapper LOCALE_UNAVAILABLE
                       | Some l \<Rightarrow> render_locale L input context slot l))))"

text \<open>
  The whole service. An error of a read is logged and thrown again (lines 166--176): it is never turned into a refusal,
  and nothing is read for a request that is refused before the repository is asked or that brings an earlier result.
\<close>

definition renderConversationResponse ::
  "wrapper_library \<Rightarrow> wrapper_state \<Rightarrow> render_input \<Rightarrow> wrapper_error + wrapper_result" where
  "renderConversationResponse L s input =
     (if \<not> valid_render_input input \<or> \<not> valid_candidates input then Inr (Rejected_Wrapper INVALID_INPUT)
      else if MAX_WHATSAPP_TEXT_LENGTH < length (ri_responseBody input) then Inr (Rejected_Wrapper OUTPUT_TOO_LONG)
      else
        (case ri_previousApplication input of
           Some prior \<Rightarrow>
             Inr (if replay_matches L input prior then Wrapped (prior\<lparr>wr_replayed := True\<rparr>)
                  else Rejected_Wrapper REPLAY_MISMATCH)
         | None \<Rightarrow>
             (case wst_context s (ri_conversationId input) of
                Inl e \<Rightarrow> Inl e
              | Inr Tenant_Mismatch \<Rightarrow> Inr (Rejected_Wrapper TENANT_MISMATCH)
              | Inr No_Conversation \<Rightarrow> Inr (Unavailable_Wrapper CONVERSATION_UNAVAILABLE)
              | Inr (Loaded context) \<Rightarrow>
                  (case wst_slots s of
                     Inl e \<Rightarrow> Inl e
                   | Inr slots \<Rightarrow> Inr (render_fresh L s slots input context)))))"

section \<open>The reply of an AI turn\<close>

record reply_wrapper =
  rw_applicationKey :: string
  rw_wrapperDefinitionId :: id
  rw_localeId :: id
  rw_slotEditVersion :: int
  rw_replayed :: bool

datatype ai_composition = Ready_Reply string "reply_wrapper option" | Refused_Reply wrapper_refusal

definition ai_request :: "id \<Rightarrow> string \<Rightarrow> string \<Rightarrow> string list option \<Rightarrow> render_input" where
  "ai_request conversationId messageId generatedResponse candidates =
     \<lparr>ri_conversationId = conversationId, ri_source = AI, ri_messageIdentity = messageId,
       ri_responseBody = generatedResponse, ri_candidates = candidates, ri_languageTag = None,
       ri_previousApplication = None\<rparr>"

text \<open>
  \<open>composeAiOutbound\<close>; \<open>Inl\<close> is the error it throws, its own or one of the wrapper, which
  it does not catch.
\<close>

definition composeAiOutbound ::
  "(render_input \<Rightarrow> wrapper_error + wrapper_result) \<Rightarrow> id \<Rightarrow> string \<Rightarrow> string \<Rightarrow> string list option \<Rightarrow>
   wrapper_error + ai_composition" where
  "composeAiOutbound wrapper conversationId messageId generatedResponse candidates =
     (case wrapper (ai_request conversationId messageId generatedResponse candidates) of
        Inl e \<Rightarrow> Inl e
      | Inr (Wrapped r) \<Rightarrow>
          if wr_messageIdentity r \<noteq> messageId \<or> wr_source r \<noteq> AI then Inl ''AI_WRAPPER_PROVENANCE_MISMATCH''
          else Inr (Ready_Reply (wr_body r) (Some \<lparr>rw_applicationKey = wr_applicationKey r,
            rw_wrapperDefinitionId = wr_wrapperDefinitionId r, rw_localeId = wr_localeId r,
            rw_slotEditVersion = wr_slotEditVersion r, rw_replayed = wr_replayed r\<rparr>))
      | Inr (No_Wrapper body) \<Rightarrow>
          if body \<noteq> generatedResponse then Inl ''AI_WRAPPER_PASSTHROUGH_MISMATCH''
          else Inr (Ready_Reply body None)
      | Inr (Unavailable_Wrapper reason) \<Rightarrow> Inr (Refused_Reply reason)
      | Inr (Rejected_Wrapper reason) \<Rightarrow> Inr (Refused_Reply reason))"

section \<open>Strings around a pattern\<close>

lemma starts_with_append [simp]: "starts_with p (p @ s)"
  by (simp add: starts_with_def)

lemma ends_with_append [simp]: "ends_with s (p @ s)"
  by (simp add: ends_with_def)

lemma starts_with_Cons: "starts_with (c # p) (d # s) \<longleftrightarrow> c = d \<and> starts_with p s"
  by (auto simp: starts_with_def)

lemma index_of_within: "index_of pat (p @ pat @ s) \<noteq> None"
proof (induction p)
  case Nil
  then show ?case by (simp add: index_of.simps)
next
  case (Cons c p)
  then show ?case by (simp add: index_of.simps [of _ "c # _"])
qed

lemma js_includes_within [simp]: "js_includes (p @ pat @ s) pat"
  by (simp add: js_includes_def index_of_within)

lemma index_of_first:
  assumes "c \<notin> set p"
  shows "index_of (c # pat) (p @ (c # pat) @ s) = Some (length p)"
  using assms
proof (induction p)
  case Nil
  then show ?case using starts_with_append [of "c # pat" s] by (simp add: index_of.simps)
next
  case (Cons d p)
  then show ?case by (simp add: index_of.simps [of _ "d # _"] starts_with_Cons)
qed

lemma envelope_around_probe:
  assumes "CHR 0x00 \<notin> set p"
  shows "envelope_around (p @ probe @ s) = (p, s)"
  using index_of_first [OF assms, of "''__MODA_RESPONSE_SLOT__'' @ [CHR 0x00]" s]
  by (simp add: envelope_around_def probe_def)

lemma join_with_append:
  assumes "ys \<noteq> []"
  shows "join_with sep (xs @ y # ys) = join_with sep (xs @ [y]) @ concat (map ((@) sep) ys)"
proof (induction xs rule: induct_list012)
  case 1
  show ?case using assms by (induction ys arbitrary: y rule: induct_list012) auto
next
  case (2 x)
  show ?case using assms by (induction ys arbitrary: y rule: induct_list012) auto
next
  case (3 x x' xs)
  then show ?case by (cases xs) auto
qed

section \<open>The envelope\<close>

text \<open>
  What a prepared wrapper puts before and after the slot in a context: the reference the renderer is
  compared with.
\<close>

definition paragraph_before :: "string \<Rightarrow> string" where
  "paragraph_before s = (if s = [] then [] else s @ [CHR 0x0A])"

definition paragraphs_after :: "string list \<Rightarrow> string" where
  "paragraphs_after ss = concat (map ((#) (CHR 0x0A)) (filter (\<lambda>s. s \<noteq> []) ss))"

definition wrapper_envelope :: "prepared_wrapper \<Rightarrow> wrapper_context \<Rightarrow> (string \<times> string) option" where
  "wrapper_envelope prepared context =
     (case (renderTokens (pw_header prepared) context [],
            renderTokens (takeWhile (\<lambda>t. t \<noteq> Response_Slot) (pw_body prepared)) context [],
            renderTokens (tl (dropWhile (\<lambda>t. t \<noteq> Response_Slot) (pw_body prepared))) context [],
            renderTokens (pw_footer prepared) context []) of
        (Some header, Some before, Some after, Some footer) \<Rightarrow>
          Some (paragraph_before header @ before,
                after @ paragraphs_after (conditional_parts prepared context [] @ [footer]))
      | _ \<Rightarrow> None)"

text \<open>What the projection promises: one slot, in the body.\<close>

definition one_slot :: "prepared_wrapper \<Rightarrow> bool" where
  "one_slot prepared \<longleftrightarrow> slots_in (pw_body prepared) = 1 \<and> slots_in (pw_header prepared) = 0 \<and>
     slots_in (pw_footer prepared) = 0 \<and> list_all (\<lambda>ts. slots_in ts = 0) (pw_conditionals prepared)"

lemma slots_in_simps [simp]:
  "slots_in [] = 0"
  "slots_in (t # ts) = (if t = Response_Slot then Suc (slots_in ts) else slots_in ts)"
  "slots_in (ts @ us) = slots_in ts + slots_in us"
  by (simp_all add: slots_in_def)

lemma slots_in_0: "slots_in ts = 0 \<longleftrightarrow> Response_Slot \<notin> set ts"
  by (induction ts) auto

lemma renderTokens_slot_free:
  "slots_in ts = 0 \<Longrightarrow> renderTokens ts context r = renderTokens ts context r'"
  by (induction ts "context" r rule: renderTokens.induct) (auto split: if_splits option.splits)

lemma renderTokens_append:
  "renderTokens (ts @ us) context r =
     (case (renderTokens ts context r, renderTokens us context r) of (Some a, Some b) \<Rightarrow> Some (a @ b) | _ \<Rightarrow> None)"
  by (induction ts "context" r rule: renderTokens.induct) (auto split: option.splits)

lemma slot_once:
  assumes "slots_in ts = 1"
  shows "ts = takeWhile (\<lambda>t. t \<noteq> Response_Slot) ts @ Response_Slot # tl (dropWhile (\<lambda>t. t \<noteq> Response_Slot) ts)"
    and "slots_in (takeWhile (\<lambda>t. t \<noteq> Response_Slot) ts) = 0"
    and "slots_in (tl (dropWhile (\<lambda>t. t \<noteq> Response_Slot) ts)) = 0"
  using assms by (induction ts) (auto split: if_splits)

lemma renderTokens_body:
  assumes "slots_in ts = 1"
  shows "renderTokens ts context r =
     (case (renderTokens (takeWhile (\<lambda>t. t \<noteq> Response_Slot) ts) context [],
            renderTokens (tl (dropWhile (\<lambda>t. t \<noteq> Response_Slot) ts)) context []) of
        (Some a, Some b) \<Rightarrow> Some (a @ r @ b) | _ \<Rightarrow> None)"
proof -
  let ?a = "takeWhile (\<lambda>t. t \<noteq> Response_Slot) ts" and ?b = "tl (dropWhile (\<lambda>t. t \<noteq> Response_Slot) ts)"
  have "renderTokens ts context r = renderTokens (?a @ Response_Slot # ?b) context r"
    using slot_once(1) [OF assms] by simp
  then show ?thesis
    using renderTokens_slot_free [OF slot_once(2) [OF assms], of _ r "[]"]
      renderTokens_slot_free [OF slot_once(3) [OF assms], of _ r "[]"]
    by (auto simp: renderTokens_append split: option.splits)
qed

lemma map_filter_agree: "(\<And>x. x \<in> set xs \<Longrightarrow> f x = g x) \<Longrightarrow> List.map_filter f xs = List.map_filter g xs"
  by (induction xs) (auto split: option.splits)

lemma conditional_parts_slot_free:
  assumes "list_all (\<lambda>ts. slots_in ts = 0) (pw_conditionals prepared)"
  shows "conditional_parts prepared context r = conditional_parts prepared context r'"
proof -
  have "List.map_filter (\<lambda>ts. renderTokens ts context r) (pw_conditionals prepared) =
      List.map_filter (\<lambda>ts. renderTokens ts context r') (pw_conditionals prepared)"
    using assms by (intro map_filter_agree renderTokens_slot_free) (simp add: list_all_iff)
  then show ?thesis by (simp add: conditional_parts_def)
qed

lemma join_sections:
  assumes "b \<noteq> []"
  shows "join_with [CHR 0x0A] (filter (\<lambda>p. p \<noteq> []) ([h, b] @ ps)) = paragraph_before h @ b @ paragraphs_after ps"
proof (cases "filter (\<lambda>p. p \<noteq> []) ps = []")
  case True
  then show ?thesis using assms by (simp add: paragraph_before_def paragraphs_after_def)
next
  case False
  have eq: "(@) [CHR 0x0A] = (#) (CHR 0x0A)" by (rule ext) simp
  show ?thesis
    using join_with_append [OF False, of "[CHR 0x0A]" "if h = [] then [] else [h]" b] assms
    by (cases "h = []") (simp_all add: paragraph_before_def paragraphs_after_def eq)
qed

lemma renderSections_envelope:
  assumes "one_slot prepared" "r \<noteq> []"
  shows "renderSections prepared context r =
    map_option (\<lambda>(prefix, suffix). prefix @ r @ suffix) (wrapper_envelope prepared context)"
proof -
  have slots: "slots_in (pw_body prepared) = 1" "slots_in (pw_header prepared) = 0" "slots_in (pw_footer prepared) = 0"
      "list_all (\<lambda>ts. slots_in ts = 0) (pw_conditionals prepared)"
    using assms(1) by (auto simp: one_slot_def)
  have join: "join_with [CHR 0x0A] (filter (\<lambda>p. p \<noteq> []) ([h, a @ r @ b] @ ps)) =
      paragraph_before h @ (a @ r @ b) @ paragraphs_after ps" for h a b ps
    by (rule join_sections) (simp add: assms(2))
  show ?thesis
    using join
    by (simp add: renderSections_def wrapper_envelope_def renderTokens_body [OF slots(1)]
        renderTokens_slot_free [OF slots(2), of _ r "[]"] renderTokens_slot_free [OF slots(3), of _ r "[]"]
        conditional_parts_slot_free [OF slots(4), of _ r "[]"] split: option.splits)
qed

lemma starts_with_iff: "starts_with p b \<longleftrightarrow> (\<exists>r. b = p @ r)"
  by (metis append_take_drop_id starts_with_append starts_with_def)

lemma ends_with_iff: "ends_with s b \<longleftrightarrow> (\<exists>r. b = r @ s)"
  unfolding ends_with_def starts_with_iff by (metis rev_append rev_rev_ident)

lemma around_iff:
  "length p + length s < length b \<and> starts_with p b \<and> ends_with s b \<longleftrightarrow> (\<exists>inner. inner \<noteq> [] \<and> b = p @ inner @ s)"
proof
  assume *: "length p + length s < length b \<and> starts_with p b \<and> ends_with s b"
  then obtain r r' where "b = p @ r" "b = r' @ s" unfolding starts_with_iff ends_with_iff by blast
  moreover have "length p < length r'"
    using * arg_cong [OF \<open>b = r' @ s\<close>, of length] by simp
  ultimately obtain inner where "r' = p @ inner" "r = inner @ s" by (auto simp: append_eq_append_conv2)
  then show "\<exists>inner. inner \<noteq> [] \<and> b = p @ inner @ s" using * \<open>b = p @ r\<close> by auto
next
  assume "\<exists>inner. inner \<noteq> [] \<and> b = p @ inner @ s"
  then obtain inner where "inner \<noteq> []" "b = p @ inner @ s" by blast
  then show "length p + length s < length b \<and> starts_with p b \<and> ends_with s b"
    using ends_with_append [of s "p @ inner"] by simp
qed

lemma probe_neq_Nil [simp]: "probe \<noteq> []"
  by (simp add: probe_def)

lemma trimmed_neq_Nil: "js_trim b \<noteq> [] \<Longrightarrow> b \<noteq> []"
  by (auto simp: js_trim_def)

lemma renderPreparedWrapper_RenderedD:
  assumes "renderPreparedWrapper prepared context b = Rendered r" "one_slot prepared"
  obtains prefix suffix where "wrapper_envelope prepared context = Some (prefix, suffix)" "r = prefix @ b @ suffix"
    "length r \<le> MAX_WHATSAPP_TEXT_LENGTH" "js_trim b \<noteq> []" "\<not> hasDisallowedTextControl b"
proof -
  have b: "js_trim b \<noteq> []" "\<not> hasDisallowedTextControl b"
    using assms(1) by (auto simp: renderPreparedWrapper_def split: if_splits)
  have "renderSections prepared context b = Some r" "length r \<le> MAX_WHATSAPP_TEXT_LENGTH"
    using assms(1) by (auto simp: renderPreparedWrapper_def Let_def split: if_splits option.splits prod.splits)
  then show thesis
    using that b renderSections_envelope [OF assms(2) trimmed_neq_Nil [OF b(1)]] by auto
qed

text \<open>
  When nothing before the slot contains NUL, the probe is found where the slot is, and the renderer
  refuses exactly the texts that already have the envelope around them.
\<close>

lemma renderPreparedWrapper_spec:
  assumes "one_slot prepared" "wrapper_envelope prepared context = Some (prefix, suffix)" "CHR 0x00 \<notin> set prefix"
    "js_trim b \<noteq> []" "\<not> hasDisallowedTextControl b" "length b \<le> MAX_WHATSAPP_TEXT_LENGTH"
  shows "renderPreparedWrapper prepared context b =
    (if prefix @ suffix \<noteq> [] \<and> (\<exists>inner. inner \<noteq> [] \<and> b = prefix @ inner @ suffix) then Rejected ALREADY_WRAPPED
     else if MAX_WHATSAPP_TEXT_LENGTH < length (prefix @ b @ suffix) then Rejected OUTPUT_TOO_LONG
     else Rendered (prefix @ b @ suffix))"
proof -
  have sections: "renderSections prepared context r = Some (prefix @ r @ suffix)" if "r \<noteq> []" for r
    using renderSections_envelope [OF assms(1) that] assms(2) by simp
  have "(prefix \<noteq> [] \<or> suffix \<noteq> []) \<and> length prefix + length suffix < length b \<and> starts_with prefix b \<and> ends_with suffix b
      \<longleftrightarrow> prefix @ suffix \<noteq> [] \<and> (\<exists>inner. inner \<noteq> [] \<and> b = prefix @ inner @ suffix)"
    using around_iff [of prefix suffix b] by auto
  then show ?thesis
    unfolding renderPreparedWrapper_def
    using assms(4-6) sections [OF probe_neq_Nil] sections [OF trimmed_neq_Nil [OF assms(4)]]
    by (simp add: envelope_around_probe [OF assms(3)] not_less)
qed

lemma hasDisallowedTextControl_append [simp]:
  "hasDisallowedTextControl (s @ t) \<longleftrightarrow> hasDisallowedTextControl s \<or> hasDisallowedTextControl t"
  by (simp add: hasDisallowedTextControl_def)

lemma NUL_disallowed: "CHR 0x00 \<in> set s \<Longrightarrow> hasDisallowedTextControl s"
  by (auto simp: hasDisallowedTextControl_def list_ex_iff intro!: bexI [of _ "CHR 0x00"])

lemma js_trim_Nil: "js_trim s = [] \<longleftrightarrow> (\<forall>c\<in>set s. js_space c)"
proof -
  have "(\<forall>c\<in>set (dropWhile js_space s). js_space c) \<longleftrightarrow> (\<forall>c\<in>set s. js_space c)"
    by (metis dropWhile_eq_Nil_conv dropWhile_idem list.set_cases empty_iff list.set(1))
  then show ?thesis by (simp add: js_trim_def dropWhile_eq_Nil_conv)
qed

lemma rendered_not_rendered_again:
  assumes "renderPreparedWrapper prepared context b = Rendered r" "one_slot prepared" "r \<noteq> b"
  shows "renderPreparedWrapper prepared context r = Rejected
    (if hasDisallowedTextControl r then INVALID_INPUT else ALREADY_WRAPPED)"
proof -
  obtain p s where env: "wrapper_envelope prepared context = Some (p, s)" and r: "r = p @ b @ s"
      and len: "length r \<le> MAX_WHATSAPP_TEXT_LENGTH" and b: "js_trim b \<noteq> []"
    using assms(1,2) by (rule renderPreparedWrapper_RenderedD)
  have trim: "js_trim r \<noteq> []" using b by (auto simp: js_trim_Nil r)
  show ?thesis
  proof (cases "hasDisallowedTextControl r")
    case True
    then show ?thesis by (simp add: renderPreparedWrapper_def)
  next
    case False
    then have "CHR 0x00 \<notin> set p" using NUL_disallowed [of p] by (auto simp: r)
    moreover have "p @ s \<noteq> []" using assms(3) by (auto simp: r)
    moreover have "\<exists>inner. inner \<noteq> [] \<and> r = p @ inner @ s" using trimmed_neq_Nil [OF b] r by metis
    ultimately show ?thesis
      using renderPreparedWrapper_spec [OF assms(2) env _ trim False len] False by simp
  qed
qed

section \<open>What the projection promises\<close>

lemma read_token_slot: "read_token place v = Some (Response_Slot, k) \<Longrightarrow> place = In_Body"
  by (auto simp: read_token_def split: if_splits option.splits json.splits)

lemma read_nodes_slot_free:
  "read_nodes place limit n vs = Some ts \<Longrightarrow> place \<noteq> In_Body \<Longrightarrow> slots_in ts = 0"
proof (induction place limit n vs arbitrary: ts rule: read_nodes.induct)
  case (2 place limit n v vs)
  obtain t k us where t: "read_token place v = Some (t, k)" "t # us = ts" "read_nodes place limit (n + k) vs = Some us"
      "\<not> limit < n + k"
    using 2(2) by (auto split: option.splits if_splits)
  have "slots_in us = 0" using 2(1) [OF t(1) refl t(4,3)] 2(3) by simp
  moreover have "t \<noteq> Response_Slot" using t(1) 2(3) read_token_slot by blast
  ultimately show ?case using t(2) by auto
qed simp

lemma readTokens_slot_free: "readTokens value' place = Some ts \<Longrightarrow> place \<noteq> In_Body \<Longrightarrow> slots_in ts = 0"
  by (auto simp: readTokens_def split: option.splits json.splits if_splits dest: read_nodes_slot_free)

lemma read_all_SomeD: "read_all f xs = Some ys \<Longrightarrow> y \<in> set ys \<Longrightarrow> \<exists>x\<in>set xs. f x = Some y"
proof (induction xs arbitrary: ys)
  case (Cons x xs)
  then show ?case by (cases "f x") auto
qed simp

lemma read_conditional_slot_free: "read_conditional c = Some ts \<Longrightarrow> slots_in ts = 0"
  by (auto simp: read_conditional_def split: if_splits dest: readTokens_slot_free)

lemma readPreparedWrapper_one_slot:
  assumes "readPreparedWrapper L localeAst contentHash = Projection prepared"
  shows "one_slot prepared"
proof -
  obtain fs cs header body footer conditionals where
    "readTokens (json_field (JObject fs) ''header'') In_Header = Some header"
    "readTokens (json_field (JObject fs) ''footer'') In_Footer = Some footer"
    "read_all read_conditional cs = Some conditionals" "slots_in body = 1"
    "prepared = \<lparr>pw_header = header, pw_body = body, pw_footer = footer, pw_conditionals = conditionals\<rparr>"
    using assms unfolding readPreparedWrapper_def Let_def
    by (auto split: if_splits option.splits json.splits simp del: json_field.simps)
  then show ?thesis
    by (auto simp: one_slot_def list_all_iff readTokens_slot_free dest!: read_all_SomeD [where f = read_conditional]
        dest: read_conditional_slot_free)
qed

section \<open>What the service returns\<close>

lemma render_first_InrD:
  assumes "render_first prepared context bs = Inr (b, r)"
  shows "\<exists>before after. bs = before @ b # after \<and> renderPreparedWrapper prepared context b = Rendered r \<and>
    (\<forall>x\<in>set before. renderPreparedWrapper prepared context x = Rejected OUTPUT_TOO_LONG)"
  using assms
proof (induction bs)
  case (Cons x xs)
  show ?case
  proof (cases "renderPreparedWrapper prepared context x")
    case (Rendered r')
    then have "x # xs = [] @ b # xs" "renderPreparedWrapper prepared context b = Rendered r" using Cons.prems by auto
    then show ?thesis by (metis empty_iff empty_set)
  next
    case (Rejected reason)
    then have reason: "reason = OUTPUT_TOO_LONG" and rest: "render_first prepared context xs = Inr (b, r)"
      using Cons.prems by (auto split: if_splits)
    obtain before after where IH: "xs = before @ b # after" "renderPreparedWrapper prepared context b = Rendered r"
        "\<forall>x\<in>set before. renderPreparedWrapper prepared context x = Rejected OUTPUT_TOO_LONG"
      using Cons.IH [OF rest] by blast
    have "x # xs = (x # before) @ b # after" by (simp add: IH(1))
    moreover have "\<forall>y\<in>set (x # before). renderPreparedWrapper prepared context y = Rejected OUTPUT_TOO_LONG"
      using IH(3) Rejected reason by simp
    ultimately show ?thesis using IH(2) by blast
  qed
qed simp

text \<open>What a wrapped result of one rendering is: which template it took, and which candidate stands in it.\<close>

definition wrapped_by ::
  "wrapper_library \<Rightarrow> wrapper_state \<Rightarrow> render_input \<Rightarrow> wrapper_context \<Rightarrow> wrapper_slot \<Rightarrow> wrapper_locale \<Rightarrow>
   prepared_wrapper \<Rightarrow> string \<Rightarrow> wrapped_result \<Rightarrow> bool" where
  "wrapped_by L s input context slot l prepared b w \<longleftrightarrow>
     wst_context s (ri_conversationId input) = Inr (Loaded context) \<and>
     (\<exists>slots. wst_slots s = Inr slots \<and> chooseSlot slots (ri_source input) = Chosen slot) \<and> validDefinition (ws_definition slot) slot \<and>
     l \<in> set (wd_locales (ws_definition slot)) \<and> usable_locale l \<and>
     readPreparedWrapper L (lo_localeAst l) (lo_contentHash l) = Projection prepared \<and>
     render_first prepared context (response_bodies input) = Inr (b, wr_body w) \<and>
     w = \<lparr>wr_body = wr_body w, wr_wrapperDefinitionId = ws_definitionId slot, wr_localeId = lo_id l,
       wr_audience = ws_audience slot, wr_slotEditVersion = ws_editVersion slot,
       wr_languageTag = lo_languageTag l, wr_contentHash = lo_contentHash l,
       wr_messageIdentity = ri_messageIdentity input, wr_source = ri_source input,
       wr_applicationKey = application_key L (ri_conversationId input) (ri_messageIdentity input)
         (ri_source input) (ws_definitionId slot) (lo_id l) (lo_contentHash l) (ws_editVersion slot)
         (wl_sha256 L b) (wr_body w),
       wr_responseDigest = wl_sha256 L b, wr_replayed = False\<rparr>"

lemma find_locale_in: "find_locale locales tags = Some l \<Longrightarrow> l \<in> set locales"
  by (auto simp: find_locale_def find_Some_iff split: Option.bind_splits)

lemma render_locale_WrappedD:
  assumes "render_locale L input context slot l = Wrapped w"
  obtains prepared b where "usable_locale l" "readPreparedWrapper L (lo_localeAst l) (lo_contentHash l) = Projection prepared"
    "render_first prepared context (response_bodies input) = Inr (b, wr_body w)"
    "w = \<lparr>wr_body = wr_body w, wr_wrapperDefinitionId = ws_definitionId slot, wr_localeId = lo_id l,
       wr_audience = ws_audience slot, wr_slotEditVersion = ws_editVersion slot,
       wr_languageTag = lo_languageTag l, wr_contentHash = lo_contentHash l,
       wr_messageIdentity = ri_messageIdentity input, wr_source = ri_source input,
       wr_applicationKey = application_key L (ri_conversationId input) (ri_messageIdentity input)
         (ri_source input) (ws_definitionId slot) (lo_id l) (lo_contentHash l) (ws_editVersion slot)
         (wl_sha256 L b) (wr_body w),
       wr_responseDigest = wl_sha256 L b, wr_replayed = False\<rparr>"
  using assms unfolding render_locale_def Let_def
  by (auto split: if_splits projection.splits sum.splits prod.splits)

lemma renderConversationResponse_WrappedD:
  assumes "renderConversationResponse L s input = Inr (Wrapped w)" "ri_previousApplication input = None"
  obtains "context" slot l prepared b where "wrapped_by L s input context slot l prepared b w"
proof -
  have "valid_render_input input" using assms by (auto simp: renderConversationResponse_def split: if_splits)
  obtain c slots slot choices l where ctx: "wst_context s (ri_conversationId input) = Inr (Loaded c)"
      and slot: "wst_slots s = Inr slots" "chooseSlot slots (ri_source input) = Chosen slot" "validDefinition (ws_definition slot) slot"
      and l: "find_locale (wd_locales (ws_definition slot)) choices = Some l"
      and w: "render_locale L input c slot l = Wrapped w"
    using assms unfolding renderConversationResponse_def render_fresh_def
    by (auto split: if_splits sum.splits loaded_context.splits slot_choice.splits option.splits)
  obtain prepared b where *: "usable_locale l" "readPreparedWrapper L (lo_localeAst l) (lo_contentHash l) = Projection prepared"
    "render_first prepared c (response_bodies input) = Inr (b, wr_body w)"
    "w = \<lparr>wr_body = wr_body w, wr_wrapperDefinitionId = ws_definitionId slot, wr_localeId = lo_id l,
       wr_audience = ws_audience slot, wr_slotEditVersion = ws_editVersion slot,
       wr_languageTag = lo_languageTag l, wr_contentHash = lo_contentHash l,
       wr_messageIdentity = ri_messageIdentity input, wr_source = ri_source input,
       wr_applicationKey = application_key L (ri_conversationId input) (ri_messageIdentity input)
         (ri_source input) (ws_definitionId slot) (lo_id l) (lo_contentHash l) (ws_editVersion slot)
         (wl_sha256 L b) (wr_body w),
       wr_responseDigest = wl_sha256 L b, wr_replayed = False\<rparr>"
    by (rule render_locale_WrappedD [OF w])
  have "wrapped_by L s input c slot l prepared b w"
    unfolding wrapped_by_def by (intro conjI exI [of _ slots] ctx slot * find_locale_in [OF l])
  then show thesis by (rule that)
qed

lemma wrapped_by_rendered:
  assumes "wrapped_by L s input context slot l prepared b w"
  shows "renderPreparedWrapper prepared context b = Rendered (wr_body w)" "b \<in> set (response_bodies input)"
proof -
  have "render_first prepared context (response_bodies input) = Inr (b, wr_body w)"
    using assms by (simp only: wrapped_by_def)
  then obtain before after where "response_bodies input = before @ b # after"
      "renderPreparedWrapper prepared context b = Rendered (wr_body w)"
    using render_first_InrD by blast
  then show "renderPreparedWrapper prepared context b = Rendered (wr_body w)" "b \<in> set (response_bodies input)"
    by simp_all
qed

lemma wrapped_by_body:
  assumes "wrapped_by L s input context slot l prepared b w"
  obtains prefix suffix where "wrapper_envelope prepared context = Some (prefix, suffix)" "wr_body w = prefix @ b @ suffix"
    "length (wr_body w) \<le> MAX_WHATSAPP_TEXT_LENGTH" "b \<noteq> []"
proof -
  have "renderPreparedWrapper prepared context b = Rendered (wr_body w)" "one_slot prepared"
    using wrapped_by_rendered [OF assms] assms readPreparedWrapper_one_slot unfolding wrapped_by_def by blast+
  then show thesis
    by (rule renderPreparedWrapper_RenderedD) (rule that, auto dest: trimmed_neq_Nil)
qed

lemma wrapped_replays:
  assumes w: "wrapped_by L s input context slot l prepared b w"
    and inj: "inj_on (wl_sha256 L) (set (response_bodies input))"
  shows "replay_matches L input w"
proof -
  obtain prefix suffix where body: "wr_body w = prefix @ b @ suffix" "length (wr_body w) \<le> MAX_WHATSAPP_TEXT_LENGTH" "b \<noteq> []"
    by (rule wrapped_by_body [OF w])
  have b: "b \<in> set (response_bodies input)" using w by (rule wrapped_by_rendered)
  have fields: "wr_responseDigest w = wl_sha256 L b" "wr_source w = ri_source input" "wr_messageIdentity w = ri_messageIdentity input"
      "wr_applicationKey w = application_key L (ri_conversationId input) (wr_messageIdentity w) (wr_source w)
         (wr_wrapperDefinitionId w) (wr_localeId w) (wr_contentHash w) (wr_slotEditVersion w) (wr_responseDigest w) (wr_body w)"
    using w by (simp_all add: wrapped_by_def) (metis wrapped_result.select_convs)+
  have "find (\<lambda>x. wl_sha256 L x = wr_responseDigest w) (response_bodies input) \<noteq> None"
    using b fields(1) by (auto simp: find_None_iff)
  then obtain x where x: "find (\<lambda>x. wl_sha256 L x = wr_responseDigest w) (response_bodies input) = Some x" by blast
  then have "x \<in> set (response_bodies input)" "wl_sha256 L x = wl_sha256 L b"
    using fields(1) by (auto simp: find_Some_iff)
  then have "x = b" using inj b by (auto dest: inj_onD)
  moreover have "js_includes (wr_body w) b" by (simp add: body(1))
  ultimately show ?thesis
    using x fields body(2,3) by (simp add: replay_matches_def)
qed

lemma renderConversationResponse_valid:
  assumes "renderConversationResponse L s input = Inr (Wrapped w)"
  shows "valid_render_input input" "valid_candidates input" "length (ri_responseBody input) \<le> MAX_WHATSAPP_TEXT_LENGTH"
  using assms by (auto simp: renderConversationResponse_def split: if_splits)

lemma response_bodies_previous [simp]:
  "response_bodies (input\<lparr>ri_previousApplication := p\<rparr>) = response_bodies input"
  by (simp add: response_bodies_def split: option.splits)

lemma replayed_result:
  assumes "renderConversationResponse L s input = Inr (Wrapped w)" "ri_previousApplication input = None"
    "inj_on (wl_sha256 L) (set (response_bodies input))"
  shows "renderConversationResponse L s' (input\<lparr>ri_previousApplication := Some w\<rparr>) = Inr (Wrapped (w\<lparr>wr_replayed := True\<rparr>))"
proof -
  obtain c slot l prepared b where "wrapped_by L s input c slot l prepared b w"
    using assms(1,2) by (rule renderConversationResponse_WrappedD)
  then have "replay_matches L input w" using assms(3) by (rule wrapped_replays)
  then have "replay_matches L (input\<lparr>ri_previousApplication := Some w\<rparr>) w"
    by (auto simp: replay_matches_def split: option.splits)
  then show ?thesis
    using renderConversationResponse_valid [OF assms(1)]
    by (simp add: renderConversationResponse_def valid_render_input_def valid_candidates_def split: option.splits)
qed

lemma render_fresh_WrappedD:
  assumes "render_fresh L s slots input context = Wrapped w"
  obtains slot l where "render_locale L input context slot l = Wrapped w"
    "\<And>input'. ri_source input' = ri_source input \<Longrightarrow> ri_languageTag input' = ri_languageTag input \<Longrightarrow>
       ri_candidates input' = ri_candidates input \<Longrightarrow> render_fresh L s slots input' context = render_locale L input' context slot l"
  using assms unfolding render_fresh_def
  by (auto split: if_splits slot_choice.splits option.splits)

lemma wrapped_not_wrapped_again:
  assumes w: "renderConversationResponse L s input = Inr (Wrapped w)" "ri_previousApplication input = None" "ri_candidates input = None"
    and changed: "wr_body w \<noteq> ri_responseBody input"
  shows "renderConversationResponse L s (input\<lparr>ri_responseBody := wr_body w\<rparr>) =
    Inr (Rejected_Wrapper (if hasDisallowedTextControl (wr_body w) then INVALID_INPUT else ALREADY_WRAPPED))"
proof -
  let ?again = "input\<lparr>ri_responseBody := wr_body w\<rparr>"
  obtain c slots where ctx: "wst_context s (ri_conversationId input) = Inr (Loaded c)" "wst_slots s = Inr slots"
      and fresh: "render_fresh L s slots input c = Wrapped w"
    using w(1,2) by (auto simp: renderConversationResponse_def split: if_splits sum.splits loaded_context.splits)
  obtain slot l where l: "render_locale L input c slot l = Wrapped w"
      and again: "render_fresh L s slots ?again c = render_locale L ?again c slot l"
    using fresh by (rule render_fresh_WrappedD) simp
  obtain prepared b where *: "usable_locale l" "readPreparedWrapper L (lo_localeAst l) (lo_contentHash l) = Projection prepared"
      "render_first prepared c (response_bodies input) = Inr (b, wr_body w)"
    using l by (rule render_locale_WrappedD)
  have b: "b = ri_responseBody input" "renderPreparedWrapper prepared c b = Rendered (wr_body w)"
    using *(3) w(3) by (auto simp: response_bodies_def split: rendering.splits if_splits)
  have one: "one_slot prepared" using *(2) by (rule readPreparedWrapper_one_slot)
  have refused: "renderPreparedWrapper prepared c (wr_body w) =
      Rejected (if hasDisallowedTextControl (wr_body w) then INVALID_INPUT else ALREADY_WRAPPED)"
    using b(2) one by (rule rendered_not_rendered_again) (use changed b(1) in simp)
  have len: "length (wr_body w) \<le> MAX_WHATSAPP_TEXT_LENGTH" and trim: "js_trim (wr_body w) \<noteq> []"
    using b(2) one by (auto elim!: renderPreparedWrapper_RenderedD simp: js_trim_Nil)
  have "render_locale L ?again c slot l =
      Rejected_Wrapper (if hasDisallowedTextControl (wr_body w) then INVALID_INPUT else ALREADY_WRAPPED)"
    using *(1,2) w(3) refused by (simp add: render_locale_def response_bodies_def)
  then show ?thesis
    using again ctx len trim w(2,3) renderConversationResponse_valid [OF w(1)]
    by (simp add: renderConversationResponse_def valid_render_input_def valid_candidates_def)
qed

section \<open>The reply of an AI turn, over what a wrapper promises\<close>

text \<open>
  \<open>composeAiOutbound\<close> takes the wrapper as an argument. What it relies on: a wrapped result without a
  previous application names the message and the source it was asked for, and a result without a wrapper is the
  response itself.
\<close>

lemma ai_request_simps [simp]:
  "ri_conversationId (ai_request c m r cs) = c" "ri_source (ai_request c m r cs) = AI"
  "ri_messageIdentity (ai_request c m r cs) = m" "ri_responseBody (ai_request c m r cs) = r"
  "ri_candidates (ai_request c m r cs) = cs" "ri_previousApplication (ai_request c m r cs) = None"
  by (simp_all add: ai_request_def)

locale reply_wrapper_contract =
  fixes wrap :: "render_input \<Rightarrow> wrapper_error + wrapper_result"
  assumes wrapped_identity: "wrap input = Inr (Wrapped w) \<Longrightarrow> ri_previousApplication input = None \<Longrightarrow>
      wr_messageIdentity w = ri_messageIdentity input \<and> wr_source w = ri_source input \<and> \<not> wr_replayed w"
    and unwrapped_body: "wrap input = Inr (No_Wrapper body) \<Longrightarrow> body = ri_responseBody input"
begin

lemma compose_throws:
  "composeAiOutbound wrap conversationId messageId response candidates = Inl e \<longleftrightarrow>
   wrap (ai_request conversationId messageId response candidates) = Inl e"
  unfolding composeAiOutbound_def
  by (auto split: sum.splits wrapper_result.splits dest!: wrapped_identity unwrapped_body)

lemma compose_refused:
  assumes "composeAiOutbound wrap conversationId messageId response candidates = Inr (Refused_Reply reason)"
  shows "wrap (ai_request conversationId messageId response candidates) \<in> {Inr (Unavailable_Wrapper reason), Inr (Rejected_Wrapper reason)}"
  using assms unfolding composeAiOutbound_def
  by (auto split: sum.splits wrapper_result.splits if_splits)

lemma compose_wrapped:
  assumes "composeAiOutbound wrap conversationId messageId response candidates = Inr (Ready_Reply text (Some rw))"
  obtains w where "wrap (ai_request conversationId messageId response candidates) = Inr (Wrapped w)" "text = wr_body w" "\<not> rw_replayed rw"
      "rw_wrapperDefinitionId rw = wr_wrapperDefinitionId w"
  using assms unfolding composeAiOutbound_def
  by (auto split: sum.splits wrapper_result.splits if_splits dest: wrapped_identity)

lemma compose_unwrapped:
  assumes "composeAiOutbound wrap conversationId messageId response candidates = Inr (Ready_Reply text None)"
  shows "text = response \<and> wrap (ai_request conversationId messageId response candidates) = Inr (No_Wrapper response)"
  using assms unfolding composeAiOutbound_def
  by (auto split: sum.splits wrapper_result.splits if_splits)

end

lemma render_locale_not_unwrapped: "render_locale L input context slot l \<noteq> No_Wrapper body"
  by (auto simp: render_locale_def Let_def split: projection.splits sum.splits)

text \<open>The error of the reads that a request without an earlier result makes, if one of them throws.\<close>

definition read_error :: "wrapper_state \<Rightarrow> id \<Rightarrow> wrapper_error option" where
  "read_error s conversationId =
     (case (wst_context s conversationId, wst_slots s) of
        (Inl e, _) \<Rightarrow> Some e
      | (Inr (Loaded _), Inl e) \<Rightarrow> Some e
      | _ \<Rightarrow> None)"

definition reaches_the_repository :: "render_input \<Rightarrow> bool" where
  "reaches_the_repository input \<longleftrightarrow>
     valid_render_input input \<and> valid_candidates input \<and> length (ri_responseBody input) \<le> MAX_WHATSAPP_TEXT_LENGTH \<and>
     ri_previousApplication input = None"

lemma renderConversationResponse_throws:
  "renderConversationResponse L s input = Inl e \<longleftrightarrow>
   reaches_the_repository input \<and> read_error s (ri_conversationId input) = Some e"
  by (auto simp: renderConversationResponse_def reaches_the_repository_def read_error_def
      split: if_splits option.splits sum.splits loaded_context.splits)

lemma renderConversationResponse_No_WrapperD:
  assumes "renderConversationResponse L s input = Inr (No_Wrapper body)"
  shows "body = ri_responseBody input"
    "\<exists>slots. wst_slots s = Inr slots \<and> chooseSlot slots (ri_source input) = No_Slot" "wst_passthrough s"
  using assms unfolding renderConversationResponse_def render_fresh_def
  by (auto split: if_splits sum.splits loaded_context.splits slot_choice.splits option.splits dest: render_locale_not_unwrapped [THEN notE])

lemma unwrapped_reply:
  assumes "renderConversationResponse L s input = Inr (No_Wrapper body)"
  shows "length (ri_responseBody input) \<le> MAX_WHATSAPP_TEXT_LENGTH \<and> wst_passthrough s \<and>
    (\<exists>slots. wst_slots s = Inr slots \<and> chooseSlot slots (ri_source input) = No_Slot)"
  using renderConversationResponse_No_WrapperD [OF assms] assms
  by (auto simp: renderConversationResponse_def split: if_splits)

lemma wrapped_reply:
  assumes "renderConversationResponse L s input = Inr (Wrapped w)" "ri_previousApplication input = None"
  shows "length (wr_body w) \<le> MAX_WHATSAPP_TEXT_LENGTH"
    "\<exists>slots slot. wst_slots s = Inr slots \<and> chooseSlot slots (ri_source input) = Chosen slot \<and>
       wr_wrapperDefinitionId w = ws_definitionId slot"
    "\<exists>b prefix suffix. b \<in> set (response_bodies input) \<and> wr_body w = prefix @ b @ suffix"
proof -
  obtain c slot l prepared b where wb: "wrapped_by L s input c slot l prepared b w"
    using assms by (rule renderConversationResponse_WrappedD)
  then show "\<exists>slots slot. wst_slots s = Inr slots \<and> chooseSlot slots (ri_source input) = Chosen slot \<and>
      wr_wrapperDefinitionId w = ws_definitionId slot"
    unfolding wrapped_by_def by (metis wrapped_result.select_convs(2))
  obtain prefix suffix where body: "wr_body w = prefix @ b @ suffix" "length (wr_body w) \<le> MAX_WHATSAPP_TEXT_LENGTH"
    by (rule wrapped_by_body [OF wb])
  from body(2) show "length (wr_body w) \<le> MAX_WHATSAPP_TEXT_LENGTH" .
  show "\<exists>b prefix suffix. b \<in> set (response_bodies input) \<and> wr_body w = prefix @ b @ suffix"
    using body(1) wrapped_by_rendered(2) [OF wb] by blast
qed

interpretation conversation: reply_wrapper_contract "renderConversationResponse L s" for L s
proof (unfold_locales, goal_cases)
  case (1 input w)
  then obtain c slot l prepared b where "wrapped_by L s input c slot l prepared b w"
    by (rule renderConversationResponse_WrappedD)
  then show ?case unfolding wrapped_by_def by (metis wrapped_result.select_convs(8,9,12))
next
  case (2 input body)
  then show ?case by (rule renderConversationResponse_No_WrapperD)
qed

end
