(* ===== verification/Wrapper_Properties.thy ===== *)
theory Wrapper_Properties
  imports Conversation_Wrapper
begin

text \<open>
  The properties of the conversation wrappers, with a template of three sections on which they are
  applied.
\<close>

section \<open>A template\<close>

definition example_hash :: string where
  "example_hash = replicate 64 (CHR ''a'')"

text \<open>A digest that is the text itself, except for JSON objects.\<close>

definition example_library :: wrapper_library where
  "example_library = \<lparr>
     wl_stringify = (\<lambda>v. case v of JString s \<Rightarrow> CHR 0x22 # s @ [CHR 0x22] | JNumber n \<Rightarrow> n | _ \<Rightarrow> ''null''),
     wl_localeCompare = (\<lambda>_ _. 0),
     wl_sha256 = (\<lambda>s. if starts_with ''{'' s then example_hash else s),
     wl_canonicaliseLanguageTag = (\<lambda>t. Some (Some t)), wl_language = Some,
     wl_resolveModaConfigurationLocale = (\<lambda>_. Some ''en'')\<rparr>"

definition text_node :: "string \<Rightarrow> json" where
  "text_node s = JObject [(''kind'', JString ''text''), (''value'', JString s)]"

definition example_ast :: json where
  "example_ast = JObject [(''schemaVersion'', JNumber ''1''), (''prepared'', JObject
     [(''schemaVersion'', JNumber ''1''), (''family'', JString ''MODA_CONVERSATION_WRAPPER''),
      (''responseSlot'', JString ''response.body''),
      (''header'', JArray [JObject [(''kind'', JString ''variable''), (''name'', JString ''shop.name'')]]),
      (''body'', JArray [text_node ''> '', JObject [(''kind'', JString ''responseSlot''), (''name'', JString ''response.body'')]]),
      (''footer'', JArray [text_node ''Bye'']), (''conditionals'', JArray [])])]"

definition example_definition :: wrapper_definition where
  "example_definition = \<lparr>wd_id = ''d'', wd_kind = ''MODA_CONVERSATION_WRAPPER'', wd_audience = Some ''SHARED'',
     wd_status = ''PUBLISHED'', wd_sourceLanguageTag = ''en'', wd_astSchemaVersion = 1, wd_sourceHash = example_hash,
     wd_publishedAt = Some 0, wd_retiredAt = None, wd_createdByAdminId = ''admin'',
     wd_locales = [\<lparr>lo_id = ''l'', lo_languageTag = ''en'', lo_status = ''SOURCE_SAVED'', lo_providerLanguageCode = None,
       lo_localeAst = example_ast, lo_contentHash = Some example_hash, lo_reviewedAt = None, lo_reviewedByAdminId = None\<rparr>]\<rparr>"

definition example_state :: wrapper_state where
  "example_state = \<lparr>wst_context = (\<lambda>_. Inr (Loaded \<lparr>wc_conversationLanguageTag = Some ''en'', wc_merchantLanguageTag = None,
       wc_variables = (\<lambda>n. if n = ''shop.name'' then Some ''Shop'' else None), wc_checkoutAvailable = False\<rparr>)),
     wst_slots = Inr [\<lparr>ws_audience = ''SHARED'', ws_definitionId = ''d'', ws_editVersion = 1, ws_definition = example_definition\<rparr>],
     wst_passthrough = False, wst_platformFallbackLanguageTag = None\<rparr>"

definition example_input :: render_input where
  "example_input = \<lparr>ri_conversationId = ''c'', ri_source = AI, ri_messageIdentity = ''m'', ri_responseBody = ''Hello'',
     ri_candidates = None, ri_languageTag = None, ri_previousApplication = None\<rparr>"

definition example_result :: wrapped_result where
  "example_result = \<lparr>wr_body = ''Shop'' @ [CHR 0x0A] @ ''> Hello'' @ [CHR 0x0A] @ ''Bye'', wr_wrapperDefinitionId = ''d'', wr_localeId = ''l'',
     wr_audience = ''SHARED'', wr_slotEditVersion = 1, wr_languageTag = ''en'', wr_contentHash = Some example_hash,
     wr_messageIdentity = ''m'', wr_source = AI, wr_applicationKey = example_hash, wr_responseDigest = ''Hello'',
     wr_replayed = False\<rparr>"

lemma example_rendered: "renderConversationResponse example_library example_state example_input = Inr (Wrapped example_result)"
  by code_simp

lemma example_previous [simp]: "ri_previousApplication example_input = None" "ri_candidates example_input = None"
  by (simp_all add: example_input_def)

section \<open>The properties\<close>

text \<open>
  C23. A response that is wrapped afresh stands once in the envelope of the chosen template: the text is what the
  template renders before the slot, the first candidate that fits, and what it renders after the slot, it keeps
  the limit of a WhatsApp text, every earlier candidate was too long, and no other response would change the
  envelope.
\<close>

theorem wrapped_reply_is_enveloped:
  assumes "renderConversationResponse L s input = Inr (Wrapped w)" "ri_previousApplication input = None"
  shows "\<exists>context slot l prepared b prefix suffix before after.
    wrapped_by L s input context slot l prepared b w \<and>
    wrapper_envelope prepared context = Some (prefix, suffix) \<and>
    wr_body w = prefix @ b @ suffix \<and> length (wr_body w) \<le> MAX_WHATSAPP_TEXT_LENGTH \<and>
    response_bodies input = before @ b # after \<and>
    list_all (\<lambda>x. renderPreparedWrapper prepared context x = Rejected OUTPUT_TOO_LONG) before \<and>
    (\<forall>c r. renderSections prepared context (c # r) = Some (prefix @ (c # r) @ suffix))"
proof -
  obtain c slot l prepared b where w: "wrapped_by L s input c slot l prepared b w"
    using assms by (rule renderConversationResponse_WrappedD)
  obtain prefix suffix where body: "wrapper_envelope prepared c = Some (prefix, suffix)" "wr_body w = prefix @ b @ suffix"
      "length (wr_body w) \<le> MAX_WHATSAPP_TEXT_LENGTH"
    by (rule wrapped_by_body [OF w])
  have first: "render_first prepared c (response_bodies input) = Inr (b, wr_body w)" and one: "one_slot prepared"
    using w readPreparedWrapper_one_slot unfolding wrapped_by_def by blast+
  from first obtain before after where bs: "response_bodies input = before @ b # after"
      "list_all (\<lambda>x. renderPreparedWrapper prepared c x = Rejected OUTPUT_TOO_LONG) before"
    using render_first_InrD [OF first] by (auto simp: list_all_iff)
  have "\<forall>x r. renderSections prepared c (x # r) = Some (prefix @ (x # r) @ suffix)"
    using renderSections_envelope [OF one, of "_ # _" c] body(1) by simp
  then show ?thesis using w body bs by blast
qed

lemma wrapped_reply_is_enveloped_witness:
  "\<exists>context slot l prepared b prefix suffix. wrapped_by example_library example_state example_input context slot l prepared b example_result \<and>
    wr_body example_result = prefix @ b @ suffix \<and> wrapper_envelope prepared context = Some (prefix, suffix)"
  using wrapped_reply_is_enveloped [OF example_rendered] by (simp only: example_previous) blast

text \<open>
  The envelope is not put around a text twice: what the service has returned is refused when it is given
  back as a new response while the same template is in force.
\<close>

theorem wrapper_is_not_applied_twice:
  assumes "renderConversationResponse L s input = Inr (Wrapped w)" "ri_previousApplication input = None"
    "ri_candidates input = None" "wr_body w \<noteq> ri_responseBody input"
  shows "renderConversationResponse L s (input\<lparr>ri_responseBody := wr_body w\<rparr>) =
    Inr (Rejected_Wrapper (if hasDisallowedTextControl (wr_body w) then INVALID_INPUT else ALREADY_WRAPPED))"
  using assms by (rule wrapped_not_wrapped_again)

lemma wrapper_is_not_applied_twice_witness:
  "renderConversationResponse example_library example_state (example_input\<lparr>ri_responseBody := wr_body example_result\<rparr>) =
    Inr (Rejected_Wrapper ALREADY_WRAPPED)"
proof -
  have "wr_body example_result \<noteq> ri_responseBody example_input" "\<not> hasDisallowedTextControl (wr_body example_result)"
    by code_simp+
  then show ?thesis using wrapper_is_not_applied_twice [OF example_rendered] by simp
qed

text \<open>
  C24. A result that the caller keeps is recognised: given back with the request it was made for, it is returned
  unchanged but for the mark that it is a replay, whatever templates, languages and variables are in force by then,
  and even when the repository cannot be read (the digest being injective on the responses of the request).
\<close>

theorem kept_result_is_replayed:
  assumes "renderConversationResponse L s input = Inr (Wrapped w)" "ri_previousApplication input = None"
    "inj_on (wl_sha256 L) (set (response_bodies input))"
  shows "renderConversationResponse L s' (input\<lparr>ri_previousApplication := Some w\<rparr>) = Inr (Wrapped (w\<lparr>wr_replayed := True\<rparr>))"
  using assms by (rule replayed_result)

lemma kept_result_is_replayed_witness:
  "renderConversationResponse example_library (example_state\<lparr>wst_slots := Inl ''P2024''\<rparr>)
     (example_input\<lparr>ri_previousApplication := Some example_result\<rparr>) = Inr (Wrapped (example_result\<lparr>wr_replayed := True\<rparr>))"
  by (rule kept_result_is_replayed [OF example_rendered]) (simp_all add: response_bodies_def example_input_def)

text \<open>
  C25. The reply of an AI turn. The composition throws exactly when the request is well formed and a read of the
  repository throws, and then with that error, which is neither swallowed nor turned into a refusal. Otherwise it
  returns: a ready text keeps the limit of a WhatsApp text and is the raw response only when no slot is configured
  and the policy lets it pass, or else one of the candidates within an envelope of the chosen slot; a refused
  reply has the reason for which the service refused it.
\<close>

theorem ai_reply_is_wrapped_or_refused:
  "case composeAiOutbound (renderConversationResponse L s) conversationId messageId response candidates of
       Inl e \<Rightarrow> reaches_the_repository (ai_request conversationId messageId response candidates) \<and> read_error s conversationId = Some e
     | Inr reply \<Rightarrow>
         \<not> (reaches_the_repository (ai_request conversationId messageId response candidates) \<and> read_error s conversationId \<noteq> None) \<and>
         (case reply of
            Refused_Reply reason \<Rightarrow>
              renderConversationResponse L s (ai_request conversationId messageId response candidates) \<in>
                {Inr (Unavailable_Wrapper reason), Inr (Rejected_Wrapper reason)}
          | Ready_Reply text None \<Rightarrow>
              text = response \<and> length text \<le> MAX_WHATSAPP_TEXT_LENGTH \<and> wst_passthrough s \<and>
              (\<exists>slots. wst_slots s = Inr slots \<and> chooseSlot slots AI = No_Slot)
          | Ready_Reply text (Some rw) \<Rightarrow>
              \<not> rw_replayed rw \<and> length text \<le> MAX_WHATSAPP_TEXT_LENGTH \<and>
              (\<exists>slots slot. wst_slots s = Inr slots \<and> chooseSlot slots AI = Chosen slot \<and>
                 rw_wrapperDefinitionId rw = ws_definitionId slot) \<and>
              (\<exists>b prefix suffix. b \<in> set (case candidates of None \<Rightarrow> [response] | Some cs \<Rightarrow> cs) \<and>
                 text = prefix @ b @ suffix))"
proof -
  let ?c = "composeAiOutbound (renderConversationResponse L s) conversationId messageId response candidates"
  let ?in = "ai_request conversationId messageId response candidates"
  have throws: "?c = Inl e \<longleftrightarrow> reaches_the_repository ?in \<and> read_error s conversationId = Some e" for e
    unfolding conversation.compose_throws renderConversationResponse_throws by simp
  then have quiet: "\<not> (reaches_the_repository ?in \<and> read_error s conversationId \<noteq> None)" if "?c = Inr reply" for reply
    using that by (metis not_Some_eq sum.distinct(1))
  consider (thrown) e where "?c = Inl e" | (refused) reason where "?c = Inr (Refused_Reply reason)"
    | (raw) t where "?c = Inr (Ready_Reply t None)" | (wrapped) t rw where "?c = Inr (Ready_Reply t (Some rw))"
    by (metis ai_composition.exhaust not_None_eq sum.exhaust)
  then show ?thesis
  proof cases
    case thrown
    show ?thesis using throws [of e] unfolding thrown by simp
  next
    case refused
    then show ?thesis using refused quiet conversation.compose_refused [OF refused] by simp
  next
    case raw
    then have "t = response" and no: "renderConversationResponse L s ?in = Inr (No_Wrapper response)"
      using conversation.compose_unwrapped by blast+
    then show ?thesis using raw quiet unwrapped_reply [OF no] by simp
  next
    case wrapped
    then obtain w where w: "renderConversationResponse L s ?in = Inr (Wrapped w)" "t = wr_body w" "\<not> rw_replayed rw"
        "rw_wrapperDefinitionId rw = wr_wrapperDefinitionId w"
      by (rule conversation.compose_wrapped)
    then show ?thesis
      using wrapped quiet wrapped_reply [OF w(1)] by (cases candidates) (simp_all add: response_bodies_def)
  qed
qed

end
