(* ===== verification/Runtime_Config.thy ===== *)
theory Runtime_Config
  imports Prelude
begin

text \<open>
  \<open>src/runtime/background-runtime-config.ts\<close>: the validated configuration row the background workers read their
  limits from, and the service that refreshes it. A refresh reads the row, validates it, installs it when its version
  is higher, and tells the listeners; a refresh that fails keeps the last good configuration.
\<close>

section \<open>The row\<close>

text \<open>
  A database row as the fields it has; a \<open>Date\<close> is its time, \<open>None\<close> for an invalid one. Every other value is
  \<open>Config_Other\<close>.
\<close>

datatype config_value = Config_Number js_number | Config_String string | Config_Date "time option" | Config_Other

type_synonym config_row = "string \<Rightarrow> config_value option"

datatype relation = Gte | Lte

definition NUMERIC_BOUNDS :: "(string \<times> int \<times> int) list" where
  "NUMERIC_BOUNDS =
    [(''billingReconciliationIntervalSeconds'', 10, 3600), (''billingReconciliationShopBatchSize'', 1, 200),
     (''shopifyUsagePublishBatchSize'', 1, 200), (''recoveryRepairIntervalSeconds'', 30, 3600),
     (''recoveryRepairShopBatchSize'', 1, 500), (''recoveryResumeBatchSize'', 1, 100),
     (''translationReconciliationIntervalSeconds'', 30, 3600), (''translationBatchMaxRequests'', 1, 500),
     (''conversationQuietWindowMs'', 250, 10000), (''conversationMaxSettleWindowMs'', 1000, 30000),
     (''billingFrozenRecheckSeconds'', 300, 86400), (''billingProviderRetrySeconds'', 30, 3600),
     (''shopifyUsageRetryBaseSeconds'', 10, 3600), (''shopifyUsageRetryMaxSeconds'', 60, 86400),
     (''translationReconciliationPageSize'', 1, 500), (''translationClaimTimeoutSeconds'', 60, 86400),
     (''translationSubmitRetrySeconds'', 30, 86400), (''translationInitialPollSeconds'', 30, 86400),
     (''translationPollIntervalSeconds'', 30, 86400), (''translationResultRetrySeconds'', 30, 86400),
     (''translationSubmitMaxAttempts'', 1, 10), (''translationMaxAutoRetries'', 0, 10),
     (''checkoutQueueGlobalConcurrency'', 1, 100), (''orderQueueGlobalConcurrency'', 1, 100),
     (''pendingRecoveryQueueGlobalConcurrency'', 1, 100), (''recoveryResumeQueueGlobalConcurrency'', 1, 100),
     (''whatsappQueueGlobalConcurrency'', 1, 100), (''merchantCommunicationsQueueGlobalConcurrency'', 1, 100),
     (''billingSubscriptionQueueGlobalConcurrency'', 1, 100), (''rawSenderLimitPerMinute'', 1, 10000),
     (''rawGlobalLimitPerMinute'', 1, 1000000), (''turnSenderLimitPerMinute'', 1, 10000),
     (''turnSenderLimitPerTenMinutes'', 1, 100000), (''turnConversationLimitPerMinute'', 1, 10000),
     (''turnConversationLimitPerTenMinutes'', 1, 100000), (''turnShopLimitPerMinute'', 1, 100000),
     (''turnGlobalLimitPerMinute'', 1, 1000000), (''discoverySenderLimitPerMinute'', 1, 10000),
     (''discoverySenderLimitPerTenMinutes'', 1, 100000), (''discoveryConversationLimitPerMinute'', 1, 10000),
     (''discoveryConversationLimitPerTenMinutes'', 1, 100000)]"

definition CROSS_FIELD_RULES :: "(string \<times> string \<times> string \<times> relation) list" where
  "CROSS_FIELD_RULES =
    [(''conversationMaxSettleWindowMs'', ''conversationQuietWindowMs'', ''must be at least the quiet window'', Gte),
     (''shopifyUsageRetryMaxSeconds'', ''shopifyUsageRetryBaseSeconds'', ''usage retry max must be at least the base'', Gte),
     (''rawGlobalLimitPerMinute'', ''rawSenderLimitPerMinute'', ''must be at least the sender limit'', Gte),
     (''turnSenderLimitPerTenMinutes'', ''turnSenderLimitPerMinute'', ''10-minute sender limit must be at least the 1-minute limit'', Gte),
     (''turnConversationLimitPerTenMinutes'', ''turnConversationLimitPerMinute'', ''10-minute conversation limit must be at least the 1-minute limit'', Gte),
     (''turnGlobalLimitPerMinute'', ''turnShopLimitPerMinute'', ''global turn limit must be at least the shop limit'', Gte),
     (''turnShopLimitPerMinute'', ''turnSenderLimitPerMinute'', ''shop turn limit must be at least the sender limit'', Gte),
     (''discoverySenderLimitPerTenMinutes'', ''discoverySenderLimitPerMinute'', ''10-minute discovery sender limit must be at least the 1-minute limit'', Gte),
     (''discoveryConversationLimitPerTenMinutes'', ''discoveryConversationLimitPerMinute'', ''10-minute discovery conversation limit must be at least the 1-minute limit'', Gte),
     (''discoverySenderLimitPerMinute'', ''turnSenderLimitPerMinute'', ''discovery sender limit must not exceed the turn sender limit'', Lte),
     (''discoverySenderLimitPerTenMinutes'', ''turnSenderLimitPerTenMinutes'', ''10-minute discovery sender limit must not exceed the turn sender limit'', Lte),
     (''discoveryConversationLimitPerMinute'', ''turnConversationLimitPerMinute'', ''discovery conversation limit must not exceed the turn conversation limit'', Lte),
     (''discoveryConversationLimitPerTenMinutes'', ''turnConversationLimitPerTenMinutes'', ''discovery conversation limit must not exceed the turn conversation limit'', Lte)]"

definition CONFIG_FIELDS :: "string list" where
  "CONFIG_FIELDS =
    [''id'', ''version'', ''billingReconciliationIntervalSeconds'', ''billingReconciliationShopBatchSize'',
     ''shopifyUsagePublishBatchSize'', ''recoveryRepairIntervalSeconds'', ''recoveryRepairShopBatchSize'',
     ''recoveryResumeBatchSize'', ''translationReconciliationIntervalSeconds'', ''translationBatchMaxRequests'',
     ''conversationQuietWindowMs'', ''conversationMaxSettleWindowMs'', ''billingFrozenRecheckSeconds'',
     ''billingProviderRetrySeconds'', ''shopifyUsageRetryBaseSeconds'', ''shopifyUsageRetryMaxSeconds'',
     ''translationReconciliationPageSize'', ''translationClaimTimeoutSeconds'', ''translationSubmitRetrySeconds'',
     ''translationInitialPollSeconds'', ''translationPollIntervalSeconds'', ''translationResultRetrySeconds'',
     ''translationSubmitMaxAttempts'', ''translationMaxAutoRetries'', ''rawSenderLimitPerMinute'',
     ''rawGlobalLimitPerMinute'', ''turnSenderLimitPerMinute'', ''turnSenderLimitPerTenMinutes'',
     ''turnConversationLimitPerMinute'', ''turnConversationLimitPerTenMinutes'', ''turnShopLimitPerMinute'',
     ''turnGlobalLimitPerMinute'', ''discoverySenderLimitPerMinute'', ''discoverySenderLimitPerTenMinutes'',
     ''discoveryConversationLimitPerMinute'', ''discoveryConversationLimitPerTenMinutes'',
     ''checkoutQueueGlobalConcurrency'', ''orderQueueGlobalConcurrency'', ''pendingRecoveryQueueGlobalConcurrency'',
     ''recoveryResumeQueueGlobalConcurrency'', ''whatsappQueueGlobalConcurrency'',
     ''merchantCommunicationsQueueGlobalConcurrency'', ''billingSubscriptionQueueGlobalConcurrency'', ''createdAt'',
     ''updatedAt'', ''checkoutRecoveryLifetimeDays'']"

definition cfg_safe_int :: "config_row \<Rightarrow> string \<Rightarrow> int option" where
  "cfg_safe_int row field =
     (case row field of
        Some (Config_Number (JsInt n)) \<Rightarrow> if is_safe_int n then Some n else None
      | _ \<Rightarrow> None)"

text \<open>A field of a validated row.\<close>

definition cfg :: "config_row \<Rightarrow> string \<Rightarrow> int" where
  "cfg row field = (case cfg_safe_int row field of Some n \<Rightarrow> n | None \<Rightarrow> 0)"

section \<open>Validation\<close>

definition invalid_config :: string where
  "invalid_config = ''Invalid background runtime configuration''"

fun first_error :: "('a \<Rightarrow> string option) \<Rightarrow> 'a list \<Rightarrow> string option" where
  "first_error check [] = None"
| "first_error check (x # xs) = (case check x of Some e \<Rightarrow> Some e | None \<Rightarrow> first_error check xs)"

definition missing_field :: "config_row \<Rightarrow> string \<Rightarrow> string option" where
  "missing_field row field =
     (if row field = None then Some (invalid_config @ '': missing '' @ field @ ''.'') else None)"

definition out_of_bounds :: "config_row \<Rightarrow> string \<times> int \<times> int \<Rightarrow> string option" where
  "out_of_bounds row b =
     (let (field, minimum, maximum) = b; bad = Some (invalid_config @ '': invalid '' @ field @ ''.'') in
      (case cfg_safe_int row field of
         None \<Rightarrow> bad
       | Some n \<Rightarrow> if n < minimum \<or> maximum < n then bad else None))"

definition bad_date :: "config_row \<Rightarrow> string \<Rightarrow> string option" where
  "bad_date row field =
     (case row field of
        Some (Config_Date (Some t)) \<Rightarrow> None
      | _ \<Rightarrow> Some (invalid_config @ '': invalid '' @ field @ ''.''))"

definition broken_rule :: "config_row \<Rightarrow> string \<times> string \<times> string \<times> relation \<Rightarrow> string option" where
  "broken_rule row r =
     (let (firstField, secondField, message, rel) = r in
      if (case rel of Gte \<Rightarrow> cfg row firstField < cfg row secondField | Lte \<Rightarrow> cfg row secondField < cfg row firstField)
      then Some (invalid_config @ '': '' @ message @ ''.'') else None)"

text \<open>\<open>validateConfig\<close> on a row; the copies it makes of the dates have the same times.\<close>

definition validateConfig :: "config_row \<Rightarrow> string + config_row" where
  "validateConfig row =
     (case first_error (missing_field row) CONFIG_FIELDS of
        Some e \<Rightarrow> Inl e
      | None \<Rightarrow>
          if row ''id'' \<noteq> Some (Config_String ''default'') \<or>
             (case cfg_safe_int row ''version'' of None \<Rightarrow> True | Some v \<Rightarrow> v < 0)
          then Inl (invalid_config @ ''.'')
          else
            (case first_error (out_of_bounds row) NUMERIC_BOUNDS of
               Some e \<Rightarrow> Inl e
             | None \<Rightarrow>
                 if (case cfg_safe_int row ''checkoutRecoveryLifetimeDays'' of None \<Rightarrow> True | Some d \<Rightarrow> d < 0)
                 then Inl (invalid_config @ '': invalid checkoutRecoveryLifetimeDays.'')
                 else
                   (case first_error (bad_date row) [''createdAt'', ''updatedAt''] of
                      Some e \<Rightarrow> Inl e
                    | None \<Rightarrow>
                        (case first_error (broken_rule row) CROSS_FIELD_RULES of
                           Some e \<Rightarrow> Inl e
                         | None \<Rightarrow> Inr row))))"

section \<open>The service\<close>

text \<open>
  What a refresh has read: an error of the database, or the row if there is one. At most one refresh is in
  flight; \<open>Reading startup\<close> waits for the database and \<open>Notifying\<close> for the listeners. The snapshots the listeners
  were told of, each with the one before, are recorded.
\<close>

datatype refresh_phase = Idle | Reading bool | Notifying

record config_service =
  cs_snapshot :: "config_row option"
  cs_phase :: refresh_phase
  cs_notified :: "(config_row \<times> config_row) list"

definition new_config_service :: config_service where
  "new_config_service = \<lparr>cs_snapshot = None, cs_phase = Idle, cs_notified = []\<rparr>"

definition current_config :: "config_service \<Rightarrow> string + config_row" where
  "current_config s =
     (case cs_snapshot s of
        None \<Rightarrow> Inl ''Background runtime configuration has not started.''
      | Some c \<Rightarrow> Inr c)"

definition read_config :: "string + config_row option \<Rightarrow> string + config_row" where
  "read_config answer =
     (case answer of
        Inl e \<Rightarrow> Inl e
      | Inr None \<Rightarrow> Inl ''Background runtime configuration is missing.''
      | Inr (Some row) \<Rightarrow> validateConfig row)"

text \<open>The body of \<open>refresh\<close> after the read: what its callers get, and the service.\<close>

definition finish_read ::
  "bool \<Rightarrow> string + config_row option \<Rightarrow> config_service \<Rightarrow> (string + config_row) \<times> config_service" where
  "finish_read startup answer s =
     (case read_config answer of
        Inl e \<Rightarrow>
          ((case cs_snapshot s of
              None \<Rightarrow> Inl e
            | Some c \<Rightarrow> if startup then Inl e else Inr c),
           s\<lparr>cs_phase := Idle\<rparr>)
      | Inr c \<Rightarrow>
          (case cs_snapshot s of
             None \<Rightarrow> (Inr c, s\<lparr>cs_snapshot := Some c, cs_phase := Idle\<rparr>)
           | Some previous \<Rightarrow>
               if cfg previous ''version'' < cfg c ''version''
               then (Inr c, s\<lparr>cs_snapshot := Some c, cs_phase := Notifying,
                       cs_notified := cs_notified s @ [(c, previous)]\<rparr>)
               else (Inr previous, s\<lparr>cs_phase := Idle\<rparr>)))"

text \<open>
  The steps: \<open>start\<close> or \<open>getFresh\<close> begins a refresh unless one is in flight, which it then waits for; the read
  ends; the listeners have all been told.
\<close>

inductive config_step :: "config_service \<Rightarrow> config_service \<Rightarrow> bool" where
  begin_refresh: "cs_phase s = Idle \<Longrightarrow> config_step s (s\<lparr>cs_phase := Reading startup\<rparr>)"
| join_refresh: "cs_phase s \<noteq> Idle \<Longrightarrow> config_step s s"
| end_read: "cs_phase s = Reading startup \<Longrightarrow> config_step s (snd (finish_read startup answer s))"
| end_notify: "cs_phase s = Notifying \<Longrightarrow> config_step s (s\<lparr>cs_phase := Idle\<rparr>)"

inductive config_reachable :: "config_service \<Rightarrow> bool" where
  initial: "config_reachable new_config_service"
| step: "config_reachable s \<Longrightarrow> config_step s t \<Longrightarrow> config_reachable t"

section \<open>What validation gives\<close>

lemma first_error_None: "first_error check xs = None \<longleftrightarrow> (\<forall>x\<in>set xs. check x = None)"
  by (induction xs) (auto split: option.splits)

lemma validateConfig_same: "validateConfig row = Inr c \<Longrightarrow> c = row"
  by (auto simp: validateConfig_def split: option.splits if_splits)

lemma validateConfig_Inr:
  assumes "validateConfig row = Inr c"
  shows "\<forall>b\<in>set NUMERIC_BOUNDS. out_of_bounds row b = None" "\<forall>r\<in>set CROSS_FIELD_RULES. broken_rule row r = None"
  using assms by (auto simp: validateConfig_def first_error_None split: option.splits if_splits)

lemma valid_bounds:
  assumes "validateConfig row = Inr c" "(field, minimum, maximum) \<in> set NUMERIC_BOUNDS"
  shows "minimum \<le> cfg row field" "cfg row field \<le> maximum"
  using bspec [OF validateConfig_Inr(1) [OF assms(1)] assms(2)]
  by (auto simp: out_of_bounds_def cfg_def Let_def split: option.splits if_splits)

lemma valid_rule:
  assumes "validateConfig row = Inr c" "(a, b, message, rel) \<in> set CROSS_FIELD_RULES"
  shows "case rel of Gte \<Rightarrow> cfg row b \<le> cfg row a | Lte \<Rightarrow> cfg row a \<le> cfg row b"
  using bspec [OF validateConfig_Inr(2) [OF assms(1)] assms(2)]
  by (auto simp: broken_rule_def Let_def split: relation.splits if_splits)

section \<open>What the service holds\<close>

text \<open>Every notification starts from the configuration of the one before and has a higher version; the last one is in force.\<close>

fun linked :: "config_row option \<Rightarrow> (config_row \<times> config_row) list \<Rightarrow> bool" where
  "linked from_row [] = True"
| "linked from_row ((c, previous) # rest) =
     ((case from_row of None \<Rightarrow> True | Some l \<Rightarrow> previous = l) \<and> cfg previous ''version'' < cfg c ''version'' \<and>
      linked (Some c) rest)"

definition config_ok :: "config_service \<Rightarrow> bool" where
  "config_ok s \<longleftrightarrow>
     (case cs_snapshot s of
        None \<Rightarrow> cs_notified s = []
      | Some c \<Rightarrow> validateConfig c = Inr c \<and> (cs_notified s \<noteq> [] \<longrightarrow> fst (last (cs_notified s)) = c)) \<and>
     linked None (cs_notified s) \<and>
     (\<forall>n\<in>set (cs_notified s). validateConfig (fst n) = Inr (fst n) \<and> validateConfig (snd n) = Inr (snd n))"

lemma linked_snoc:
  "linked l (ns @ [(c, previous)]) \<longleftrightarrow>
     linked l ns \<and> (ns \<noteq> [] \<longrightarrow> fst (last ns) = previous) \<and>
     (ns = [] \<longrightarrow> (case l of None \<Rightarrow> True | Some x \<Rightarrow> previous = x)) \<and> cfg previous ''version'' < cfg c ''version''"
  by (induction l ns rule: linked.induct) auto

lemma read_config_valid: "read_config answer = Inr c \<Longrightarrow> validateConfig c = Inr c"
  by (auto simp: read_config_def split: sum.splits option.splits dest: validateConfig_same)

lemma finish_read_ok:
  assumes "config_ok s"
  shows "config_ok (snd (finish_read startup answer s))"
  using assms read_config_valid [of answer]
  by (auto simp: finish_read_def config_ok_def linked_snoc split: sum.splits option.splits)

inductive_cases config_stepE: "config_step s t"

lemma config_step_ok: "config_step s t \<Longrightarrow> config_ok s \<Longrightarrow> config_ok t"
  by (erule config_stepE) (auto simp: finish_read_ok, simp_all add: config_ok_def cong: option.case_cong)

lemma config_reachable_ok: "config_reachable s \<Longrightarrow> config_ok s"
proof (induction rule: config_reachable.induct)
  case initial
  show ?case by (simp add: config_ok_def new_config_service_def)
next
  case (step s t)
  then show ?case using config_step_ok by blast
qed

end
