(* ===== verification/Inbound_Admission.thy ===== *)
theory Inbound_Admission
  imports Runtime_Config
begin

text \<open>
  \<open>src/services/inbound-whatsapp-abuse-admission.service.ts\<close>: the admission of inbound WhatsApp messages and
  settled turns. Each scope is a sorted set in Redis, one member per admitted message with the time of its
  admission; the script that admits trims the sets to their windows, lets a member through that is already in one
  of them, refuses when a set is full, and otherwise adds the member to all of them.
\<close>

section \<open>Redis\<close>

text \<open>
  The sorted sets the script uses: members with their scores in the order they were added, and the time the key
  expires. A key without members does not exist. A command sees a key only until it expires.
\<close>

record zset =
  zs_members :: "(string \<times> int) list"
  zs_expires :: "int option"

type_synonym redis = "string \<Rightarrow> zset"

definition no_zset :: zset where
  "no_zset = \<lparr>zs_members = [], zs_expires = None\<rparr>"

definition empty_redis :: redis where
  "empty_redis = (\<lambda>_. no_zset)"

definition zlive :: "int \<Rightarrow> redis \<Rightarrow> string \<Rightarrow> zset" where
  "zlive now R k = (case zs_expires (R k) of Some e \<Rightarrow> if e < now then no_zset else R k | None \<Rightarrow> R k)"

text \<open>\<open>ZREMRANGEBYSCORE key -inf max\<close>, \<open>ZSCORE\<close>, \<open>ZCARD\<close>, \<open>ZADD\<close> and \<open>EXPIRE\<close>.\<close>

definition zremrange :: "int \<Rightarrow> string \<Rightarrow> int \<Rightarrow> redis \<Rightarrow> redis" where
  "zremrange now k maximum R =
     (let z = zlive now R k; left = filter (\<lambda>x. maximum < snd x) (zs_members z) in
      R(k := (if left = [] then no_zset else z\<lparr>zs_members := left\<rparr>)))"

definition zscore :: "int \<Rightarrow> redis \<Rightarrow> string \<Rightarrow> string \<Rightarrow> int option" where
  "zscore now R k m = map_of (zs_members (zlive now R k)) m"

definition zcard :: "int \<Rightarrow> redis \<Rightarrow> string \<Rightarrow> nat" where
  "zcard now R k = length (zs_members (zlive now R k))"

definition zadd :: "int \<Rightarrow> string \<Rightarrow> int \<Rightarrow> string \<Rightarrow> redis \<Rightarrow> redis" where
  "zadd now k score m R =
     (let z = zlive now R k in
      R(k := z\<lparr>zs_members := (if m \<in> fst ` set (zs_members z)
                 then map (\<lambda>x. if fst x = m then (m, score) else x) (zs_members z)
                 else zs_members z @ [(m, score)])\<rparr>))"

definition expire :: "int \<Rightarrow> string \<Rightarrow> int \<Rightarrow> redis \<Rightarrow> redis" where
  "expire now k seconds R =
     (let z = zlive now R k in
      if zs_members z = [] then R else R(k := z\<lparr>zs_expires := Some (now + seconds * 1000)\<rparr>))"

section \<open>The script\<close>

record admission_scope =
  sc_key :: string
  sc_windowMs :: int
  sc_limit :: int

text \<open>\<open>math.ceil(windowMs / 1000)\<close>\<close>

definition ceil_seconds :: "int \<Rightarrow> int" where
  "ceil_seconds ms = - ((- ms) div 1000)"

fun trim_scopes :: "int \<Rightarrow> admission_scope list \<Rightarrow> redis \<Rightarrow> redis" where
  "trim_scopes now [] R = R"
| "trim_scopes now (sc # scs) R = trim_scopes now scs (zremrange now (sc_key sc) (now - sc_windowMs sc) R)"

fun seen_in :: "int \<Rightarrow> string \<Rightarrow> admission_scope list \<Rightarrow> redis \<Rightarrow> bool" where
  "seen_in now m [] R = False"
| "seen_in now m (sc # scs) R =
     (let R' = zremrange now (sc_key sc) (now - sc_windowMs sc) R in
      zscore now R' (sc_key sc) m \<noteq> None \<or> seen_in now m scs R')"

text \<open>The first full scope, counted from 1; 0 when there is none.\<close>

fun full_scope :: "int \<Rightarrow> nat \<Rightarrow> admission_scope list \<Rightarrow> redis \<Rightarrow> nat" where
  "full_scope now i [] R = 0"
| "full_scope now i (sc # scs) R =
     (if sc_limit sc \<le> int (zcard now R (sc_key sc)) then i else full_scope now (Suc i) scs R)"

fun add_to_scopes :: "int \<Rightarrow> string \<Rightarrow> admission_scope list \<Rightarrow> redis \<Rightarrow> redis" where
  "add_to_scopes now m [] R = R"
| "add_to_scopes now m (sc # scs) R =
     add_to_scopes now m scs
       (if zscore now R (sc_key sc) m = None
        then expire now (sc_key sc) (ceil_seconds (sc_windowMs sc) + 1) (zadd now (sc_key sc) now m R)
        else R)"

text \<open>\<open>ADMIT_SCRIPT\<close>, at a time of the server in seconds and microseconds.\<close>

definition redis_ms :: "int \<times> int \<Rightarrow> int" where
  "redis_ms time = fst time * 1000 + snd time div 1000"

definition admit_script :: "int \<times> int \<Rightarrow> admission_scope list \<Rightarrow> string \<Rightarrow> redis \<Rightarrow> nat \<times> redis" where
  "admit_script time scopes m R =
     (let now = redis_ms time; trimmed = trim_scopes now scopes R in
      if seen_in now m scopes R then (0, trimmed)
      else
        (case full_scope now 1 scopes trimmed of
           0 \<Rightarrow> (0, add_to_scopes now m scopes trimmed)
         | i \<Rightarrow> (i, trimmed)))"

section \<open>The service\<close>

datatype admission_reason =
    RAW_SENDER | RAW_GLOBAL | TURN_SENDER_SHORT | TURN_SENDER_LONG | TURN_CONVERSATION_SHORT
  | TURN_CONVERSATION_LONG | TURN_SHOP | TURN_GLOBAL | LIMITER_UNAVAILABLE

datatype admission_stage = Raw_Stage | Settled_Turn_Stage

datatype inbound_admission = Inbound_Allowed | Inbound_Denied admission_stage admission_reason

text \<open>
  What happens to a call of Redis: it runs, it never runs, or it runs and the answer is lost.
\<close>

datatype redis_fault = Answered | Not_Run | Answer_Lost

definition MINUTE_MS :: int where
  "MINUTE_MS = 60000"

definition TEN_MINUTES_MS :: int where
  "TEN_MINUTES_MS = 600000"

definition is_digit :: "char \<Rightarrow> bool" where
  "is_digit c \<longleftrightarrow> (let n = of_char c :: nat in 48 \<le> n \<and> n \<le> 57)"

definition normalizePhone :: "string \<Rightarrow> string" where
  "normalizePhone phone =
     (let trimmed = js_trim phone in
      (if starts_with ''+'' trimmed then ''+'' else []) @ filter is_digit trimmed)"

definition senderHash :: "(string \<Rightarrow> string) \<Rightarrow> string \<Rightarrow> string" where
  "senderHash sha256 phone = sha256 (normalizePhone phone)"

definition inbound_scope ::
  "config_row \<Rightarrow> string \<times> int \<times> string \<times> admission_reason \<Rightarrow> admission_scope \<times> admission_reason" where
  "inbound_scope c x =
     (let (key, window, limit, reason) = x in
      (\<lparr>sc_key = key, sc_windowMs = window, sc_limit = cfg c limit\<rparr>, reason))"

definition raw_scopes :: "(string \<Rightarrow> string) \<Rightarrow> config_row \<Rightarrow> string \<Rightarrow> (admission_scope \<times> admission_reason) list" where
  "raw_scopes sha256 c customerPhone = map (inbound_scope c)
     [(''raw:sender:'' @ senderHash sha256 customerPhone @ '':60s'', MINUTE_MS, ''rawSenderLimitPerMinute'', RAW_SENDER),
      (''raw:global:60s'', MINUTE_MS, ''rawGlobalLimitPerMinute'', RAW_GLOBAL)]"

datatype inbound_conversation_type = Recovery_Conversation | Product_Discovery | Product_Support | Post_Purchase

record settled_turn =
  st_conversationId :: id
  st_observedVersion :: int
  st_shopId :: id
  st_customerPhone :: string
  st_conversationType :: inbound_conversation_type
  st_hasReplyContext :: bool

definition turn_scopes :: "(string \<Rightarrow> string) \<Rightarrow> config_row \<Rightarrow> settled_turn \<Rightarrow> (admission_scope \<times> admission_reason) list" where
  "turn_scopes sha256 c t =
     (let discoveryOnly = st_conversationType t = Product_Discovery \<and> \<not> st_hasReplyContext t;
          h = senderHash sha256 (st_customerPhone t) in
      map (inbound_scope c)
        [(''turn:sender:'' @ h @ '':60s'', MINUTE_MS,
            (if discoveryOnly then ''discoverySenderLimitPerMinute'' else ''turnSenderLimitPerMinute''), TURN_SENDER_SHORT),
         (''turn:sender:'' @ h @ '':600s'', TEN_MINUTES_MS,
            (if discoveryOnly then ''discoverySenderLimitPerTenMinutes'' else ''turnSenderLimitPerTenMinutes''), TURN_SENDER_LONG),
         (''turn:conversation:'' @ st_conversationId t @ '':60s'', MINUTE_MS,
            (if discoveryOnly then ''discoveryConversationLimitPerMinute'' else ''turnConversationLimitPerMinute''),
            TURN_CONVERSATION_SHORT),
         (''turn:conversation:'' @ st_conversationId t @ '':600s'', TEN_MINUTES_MS,
            (if discoveryOnly then ''discoveryConversationLimitPerTenMinutes'' else ''turnConversationLimitPerTenMinutes''),
            TURN_CONVERSATION_LONG),
         (''turn:shop:'' @ st_shopId t @ '':60s'', MINUTE_MS, ''turnShopLimitPerMinute'', TURN_SHOP),
         (''turn:global:60s'', MINUTE_MS, ''turnGlobalLimitPerMinute'', TURN_GLOBAL)])"

text \<open>\<open>admit\<close>: the script on the prefixed keys, and what its result says.\<close>

definition prefixed :: "admission_scope \<Rightarrow> admission_scope" where
  "prefixed sc = sc\<lparr>sc_key := ''arch007:wa-abuse:v1:'' @ sc_key sc\<rparr>"

definition inbound_admit ::
  "redis_fault \<Rightarrow> int \<times> int \<Rightarrow> admission_stage \<Rightarrow> string \<Rightarrow> (admission_scope \<times> admission_reason) list \<Rightarrow> redis \<Rightarrow>
   inbound_admission \<times> redis" where
  "inbound_admit fault time stage m scopes R =
     (let (result, R') = admit_script time (map (prefixed \<circ> fst) scopes) m R in
      (case fault of
         Not_Run \<Rightarrow> (Inbound_Denied stage LIMITER_UNAVAILABLE, R)
       | Answer_Lost \<Rightarrow> (Inbound_Denied stage LIMITER_UNAVAILABLE, R')
       | Answered \<Rightarrow>
           (if result = 0 then Inbound_Allowed
            else Inbound_Denied stage
              (if result - 1 < length scopes then snd (scopes ! (result - 1)) else LIMITER_UNAVAILABLE), R')))"

text \<open>What is asked of the service; it reads the configuration first, and throws when there is none.\<close>

datatype inbound_request = Raw_Message string string | Settled_Turn settled_turn

fun request_stage :: "inbound_request \<Rightarrow> admission_stage" where
  "request_stage (Raw_Message _ _) = Raw_Stage"
| "request_stage (Settled_Turn _) = Settled_Turn_Stage"

fun request_member :: "inbound_request \<Rightarrow> string" where
  "request_member (Raw_Message providerMessageId _) = providerMessageId"
| "request_member (Settled_Turn t) = st_conversationId t @ '':'' @ show_int (st_observedVersion t)"

fun request_scopes :: "(string \<Rightarrow> string) \<Rightarrow> config_row \<Rightarrow> inbound_request \<Rightarrow> (admission_scope \<times> admission_reason) list" where
  "request_scopes sha256 c (Raw_Message _ customerPhone) = raw_scopes sha256 c customerPhone"
| "request_scopes sha256 c (Settled_Turn t) = turn_scopes sha256 c t"

definition inbound_serve ::
  "(string \<Rightarrow> string) \<Rightarrow> config_service \<Rightarrow> redis_fault \<Rightarrow> int \<times> int \<Rightarrow> inbound_request \<Rightarrow> redis \<Rightarrow>
   (string + inbound_admission) \<times> redis" where
  "inbound_serve sha256 service fault time request R =
     (case current_config service of
        Inl e \<Rightarrow> (Inl e, R)
      | Inr c \<Rightarrow>
          (let (a, R') = inbound_admit fault time (request_stage request) (request_member request)
                 (request_scopes sha256 c request) R in
           (Inr a, R')))"

section \<open>One sorted set against its history\<close>

text \<open>
  The history of a key: every member ever added with its time. The set holds a recent part of it, and expires only
  when all of that part is out of the window.
\<close>

definition within_expiry :: "int \<Rightarrow> zset \<Rightarrow> bool" where
  "within_expiry w z \<longleftrightarrow>
     (case zs_expires z of
        None \<Rightarrow> zs_members z = []
      | Some e \<Rightarrow> zs_members z \<noteq> [] \<and> (\<forall>x\<in>set (zs_members z). snd x + w < e))"

definition tracks :: "int \<Rightarrow> int \<Rightarrow> (string \<times> int) list \<Rightarrow> zset \<Rightarrow> bool" where
  "tracks w now log z \<longleftrightarrow>
     (\<exists>cut\<le>now - w. zs_members z = filter (\<lambda>x. cut < snd x) log) \<and> (\<forall>x\<in>set log. snd x \<le> now) \<and> within_expiry w z"

definition trimmed_to :: "int \<Rightarrow> int \<Rightarrow> (string \<times> int) list \<Rightarrow> zset \<Rightarrow> bool" where
  "trimmed_to w now log z \<longleftrightarrow>
     zs_members z = filter (\<lambda>x. now - w < snd x) log \<and> (\<forall>x\<in>set log. snd x \<le> now) \<and> within_expiry w z"

lemma trimmed_tracks: "trimmed_to w now log z \<Longrightarrow> tracks w now log z"
  unfolding trimmed_to_def tracks_def by blast

lemma tracks_later: "tracks w now log z \<Longrightarrow> now \<le> now' \<Longrightarrow> tracks w now' log z"
  unfolding tracks_def by (meson diff_right_mono order_trans)

lemma tracks_no_zset: "tracks w now [] no_zset"
  by (auto simp: tracks_def no_zset_def within_expiry_def)

lemma zlive_trimmed:
  assumes "trimmed_to w now log (R k)"
  shows "zlive now R k = R k"
proof (cases "zs_expires (R k)")
  case (Some e)
  have "within_expiry w (R k)" using assms by (simp only: trimmed_to_def)
  then have "zs_members (R k) \<noteq> []" using Some by (simp add: within_expiry_def)
  then obtain x where x: "x \<in> set (zs_members (R k))" using list.set_sel(1) by blast
  then have "now - w < snd x" using assms by (auto simp: trimmed_to_def)
  moreover have "snd x + w < e" using x assms Some by (auto simp: trimmed_to_def within_expiry_def)
  ultimately show ?thesis using Some by (simp add: zlive_def)
qed (simp add: zlive_def)

text \<open>Trimming a set leaves exactly what its history has in the window; the expiry of the key changes nothing.\<close>

lemma zremrange_trims:
  assumes "tracks w now log (R k)"
  shows "trimmed_to w now log (zremrange now k (now - w) R k)"
proof -
  obtain cut where cut: "cut \<le> now - w" "zs_members (R k) = filter (\<lambda>x. cut < snd x) log"
    using assms by (auto simp: tracks_def)
  have both: "filter (\<lambda>x. now - w < snd x) (zs_members (R k)) = filter (\<lambda>x. now - w < snd x) log"
    unfolding cut(2) filter_filter by (rule filter_cong [OF refl]) (use cut(1) in auto)
  have left: "filter (\<lambda>x. now - w < snd x) (zs_members (zlive now R k)) = filter (\<lambda>x. now - w < snd x) log"
  proof (cases "zs_expires (R k)")
    case (Some e)
    have "filter (\<lambda>x. now - w < snd x) (zs_members (R k)) = []" if "e < now"
      using assms Some that by (force simp: tracks_def within_expiry_def filter_empty_conv)
    then show ?thesis using Some both by (auto simp: zlive_def no_zset_def)
  qed (simp add: zlive_def both)
  have "within_expiry w (zremrange now k (now - w) R k)"
    using assms by (auto simp: zremrange_def Let_def within_expiry_def zlive_def no_zset_def tracks_def split: option.splits)
  moreover have "zs_members (zremrange now k (now - w) R k) = filter (\<lambda>x. now - w < snd x) log"
    using left by (auto simp: zremrange_def Let_def no_zset_def)
  ultimately show ?thesis using assms by (auto simp: trimmed_to_def tracks_def)
qed

lemma zremrange_other [simp]: "k' \<noteq> k \<Longrightarrow> zremrange now k mx R k' = R k'"
  by (simp add: zremrange_def Let_def)

text \<open>Adding a member that is not in the set.\<close>

lemma ceil_seconds_ge: "ms \<le> ceil_seconds ms * 1000"
  unfolding ceil_seconds_def using mult_div_mod_eq [of 1000 "- ms"] pos_mod_sign [of 1000 "- ms"] by linarith

lemma zadd_expire_trimmed:
  assumes "trimmed_to w now log (R k)" "0 < w" "m \<notin> fst ` set (zs_members (R k))"
  shows "trimmed_to w now (log @ [(m, now)]) (expire now k (ceil_seconds w + 1) (zadd now k now m R) k)"
proof -
  let ?R = "zadd now k now m R"
  have added: "zs_members (?R k) = zs_members (R k) @ [(m, now)]" "zs_expires (?R k) = zs_expires (R k)"
    using assms(3) by (simp_all add: zadd_def zlive_trimmed [where R = R, OF assms(1)] Let_def)
  have live: "zlive now ?R k = ?R k"
    using zlive_trimmed [where R = R, OF assms(1)] assms(1) added
    by (auto simp: zlive_def no_zset_def trimmed_to_def within_expiry_def split: option.splits if_splits)
  have "snd x + w < now + (ceil_seconds w + 1) * 1000" if "x \<in> set (zs_members (?R k))" for x
  proof -
    have "snd x \<le> now" using that assms(1) by (auto simp: added(1) trimmed_to_def)
    then show ?thesis using ceil_seconds_ge [of w] by (simp add: algebra_simps)
  qed
  then show ?thesis
    using assms(1,2) added by (auto simp: expire_def live Let_def trimmed_to_def within_expiry_def)
qed

lemma zadd_other [simp]: "k' \<noteq> k \<Longrightarrow> zadd now k score m R k' = R k'"
  by (simp add: zadd_def Let_def)

lemma expire_other [simp]: "k' \<noteq> k \<Longrightarrow> expire now k s R k' = R k'"
  by (simp add: expire_def Let_def)

section \<open>The script against the histories\<close>

text \<open>Every key has one window; \<open>W\<close> names it, and \<open>H\<close> the histories.\<close>

definition redis_tracks :: "(string \<Rightarrow> int) \<Rightarrow> int \<Rightarrow> (string \<Rightarrow> (string \<times> int) list) \<Rightarrow> redis \<Rightarrow> bool" where
  "redis_tracks W now H R \<longleftrightarrow> (\<forall>k. tracks (W k) now (H k) (R k))"

definition scopes_use :: "(string \<Rightarrow> int) \<Rightarrow> admission_scope list \<Rightarrow> bool" where
  "scopes_use W scopes \<longleftrightarrow> (\<forall>sc\<in>set scopes. sc_windowMs sc = W (sc_key sc) \<and> 0 < W (sc_key sc))"

definition in_window :: "(string \<Rightarrow> int) \<Rightarrow> int \<Rightarrow> (string \<Rightarrow> (string \<times> int) list) \<Rightarrow> string \<Rightarrow> (string \<times> int) list" where
  "in_window W now H k = filter (\<lambda>x. now - W k < snd x) (H k)"

definition record_in ::
  "(string \<Rightarrow> int) \<Rightarrow> int \<Rightarrow> string \<Rightarrow> string set \<Rightarrow> (string \<Rightarrow> (string \<times> int) list) \<Rightarrow> string \<Rightarrow> (string \<times> int) list" where
  "record_in W now m keys H =
     (\<lambda>k. if k \<in> keys \<and> m \<notin> fst ` set (in_window W now H k) then H k @ [(m, now)] else H k)"

lemma scopes_use_Cons:
  "scopes_use W (sc # scs) \<longleftrightarrow> sc_windowMs sc = W (sc_key sc) \<and> 0 < W (sc_key sc) \<and> scopes_use W scs"
  by (auto simp: scopes_use_def)

lemma zremrange_tracks:
  assumes "redis_tracks W now H R"
  shows "redis_tracks W now H (zremrange now k (now - W k) R)"
  unfolding redis_tracks_def
proof
  fix k'
  show "tracks (W k') now (H k') (zremrange now k (now - W k) R k')"
    using assms zremrange_trims [of "W k" now "H k" R k]
    by (cases "k' = k") (auto simp: redis_tracks_def trimmed_tracks)
qed

lemma trim_scopes_tracks:
  "redis_tracks W now H R \<Longrightarrow> scopes_use W scopes \<Longrightarrow> redis_tracks W now H (trim_scopes now scopes R)"
  by (induction now scopes R rule: trim_scopes.induct) (auto simp: scopes_use_Cons zremrange_tracks)

lemma trim_scopes_keeps_trimmed:
  "trimmed_to (W k) now (H k) (R k) \<Longrightarrow> scopes_use W scopes \<Longrightarrow>
   trimmed_to (W k) now (H k) (trim_scopes now scopes R k)"
proof (induction now scopes R rule: trim_scopes.induct)
  case (2 now sc scs R)
  then show ?case
    using zremrange_trims [of "W k" now "H k" R k]
    by (cases "sc_key sc = k") (auto simp: scopes_use_Cons trimmed_tracks)
qed simp

lemma trim_scopes_trims:
  "redis_tracks W now H R \<Longrightarrow> scopes_use W scopes \<Longrightarrow> k \<in> sc_key ` set scopes \<Longrightarrow>
   trimmed_to (W k) now (H k) (trim_scopes now scopes R k)"
proof (induction now scopes R rule: trim_scopes.induct)
  case (2 now sc scs R)
  show ?case
  proof (cases "sc_key sc = k")
    case True
    then have "trimmed_to (W k) now (H k) (zremrange now (sc_key sc) (now - sc_windowMs sc) R k)"
      using 2(2,3) zremrange_trims [of "W k" now "H k" R k] by (auto simp: scopes_use_Cons redis_tracks_def)
    then show ?thesis using 2(3) by (simp add: trim_scopes_keeps_trimmed scopes_use_Cons)
  next
    case False
    then show ?thesis using 2 by (auto simp: scopes_use_Cons zremrange_tracks)
  qed
qed simp

lemma seen_in_iff:
  "redis_tracks W now H R \<Longrightarrow> scopes_use W scopes \<Longrightarrow>
   seen_in now m scopes R \<longleftrightarrow> (\<exists>k\<in>sc_key ` set scopes. m \<in> fst ` set (in_window W now H k))"
proof (induction now m scopes R rule: seen_in.induct)
  case (2 now m sc scs R)
  let ?k = "sc_key sc"
  have trimmed: "trimmed_to (W ?k) now (H ?k) (zremrange now ?k (now - W ?k) R ?k)"
    using 2(2) by (simp add: redis_tracks_def zremrange_trims)
  have "zscore now (zremrange now ?k (now - W ?k) R) ?k m \<noteq> None \<longleftrightarrow> m \<in> fst ` set (in_window W now H ?k)"
    using trimmed by (auto simp: zscore_def zlive_trimmed [where R = "zremrange now ?k (now - W ?k) R", OF trimmed] trimmed_to_def in_window_def map_of_eq_None_iff)
  then show ?case
    using 2 zremrange_tracks [OF 2(2), of ?k] by (simp add: scopes_use_Cons Let_def)
qed simp

lemma full_scope_0:
  "0 < i \<Longrightarrow> full_scope now i scopes R = 0 \<longleftrightarrow> (\<forall>sc\<in>set scopes. int (zcard now R (sc_key sc)) < sc_limit sc)"
  by (induction now i scopes R rule: full_scope.induct) (auto simp: not_le)

lemma full_scope_at:
  "0 < i \<Longrightarrow> full_scope now i scopes R = n \<Longrightarrow> n \<noteq> 0 \<Longrightarrow>
   i \<le> n \<and> n - i < length scopes \<and> sc_limit (scopes ! (n - i)) \<le> int (zcard now R (sc_key (scopes ! (n - i))))"
proof (induction now i scopes R rule: full_scope.induct)
  case (2 now i sc scs R)
  then show ?case by (auto split: if_splits simp: nth_Cons' Suc_le_eq)
qed simp

lemma zcard_trimmed:
  "trimmed_to (W k) now (H k) (R k) \<Longrightarrow> zcard now R k = length (in_window W now H k)"
  by (simp add: zcard_def zlive_trimmed) (simp add: trimmed_to_def in_window_def)

lemma record_in_window:
  "0 < W k \<Longrightarrow> m \<in> fst ` set (in_window W now (H(k := H k @ [(m, now)])) k)"
  by (simp add: in_window_def)

lemma in_window_other [simp]: "k' \<noteq> k \<Longrightarrow> in_window W now (H(k := log)) k' = in_window W now H k'"
  by (simp add: in_window_def)

lemma record_in_Cons:
  assumes "0 < W k"
  shows "record_in W now m (insert k keys) H =
    record_in W now m keys (if m \<in> fst ` set (in_window W now H k) then H else H(k := H k @ [(m, now)]))"
proof (cases "m \<in> fst ` set (in_window W now H k)")
  case True
  then show ?thesis by (auto simp: record_in_def fun_eq_iff)
next
  case False
  have "record_in W now m keys (H(k := H k @ [(m, now)])) k' = record_in W now m (insert k keys) H k'" for k'
    using record_in_window [of W k m now H] assms False
    by (cases "k' = k") (simp_all add: record_in_def)
  then show ?thesis using False by auto
qed

lemma add_to_scopes_tracks:
  assumes "redis_tracks W now H R" "scopes_use W scopes" "\<And>k. k \<in> sc_key ` set scopes \<Longrightarrow> trimmed_to (W k) now (H k) (R k)"
  shows "redis_tracks W now (record_in W now m (sc_key ` set scopes) H) (add_to_scopes now m scopes R)"
  using assms
proof (induction now m scopes R arbitrary: H rule: add_to_scopes.induct)
  case (1 now m R)
  then show ?case by (simp add: record_in_def)
next
  case (2 now m sc scs R)
  let ?k = "sc_key sc"
  have use: "sc_windowMs sc = W ?k" "0 < W ?k" "scopes_use W scs" using 2(3) by (auto simp: scopes_use_Cons)
  have trimmed: "trimmed_to (W ?k) now (H ?k) (R ?k)" using 2(4) by simp
  have seen: "zscore now R ?k m = None \<longleftrightarrow> m \<notin> fst ` set (in_window W now H ?k)"
    using trimmed by (simp add: zscore_def zlive_trimmed map_of_eq_None_iff) (simp add: trimmed_to_def in_window_def)
  define R' where "R' = (if zscore now R ?k m = None
      then expire now ?k (ceil_seconds (sc_windowMs sc) + 1) (zadd now ?k now m R) else R)"
  define H' where "H' = (if m \<in> fst ` set (in_window W now H ?k) then H else H(?k := H ?k @ [(m, now)]))"
  have at: "trimmed_to (W ?k) now (H' ?k) (R' ?k)"
  proof (cases "zscore now R ?k m = None")
    case True
    then have "m \<notin> fst ` set (zs_members (R ?k))" using seen trimmed by (simp add: trimmed_to_def in_window_def)
    then show ?thesis
      using True seen zadd_expire_trimmed [where R = R and k = ?k, OF trimmed use(2)] by (simp add: R'_def H'_def use(1))
  next
    case False
    have "R' = R" unfolding R'_def by (rule if_not_P) (rule False)
    moreover have "H' = H" unfolding H'_def by (rule if_P) (use seen False in blast)
    ultimately show ?thesis using trimmed by simp
  qed
  have other: "R' k = R k" "H' k = H k" if "k \<noteq> ?k" for k
    using that by (simp_all add: R'_def H'_def)
  have tracks: "redis_tracks W now H' R'"
    unfolding redis_tracks_def using at other 2(2) by (metis redis_tracks_def trimmed_tracks)
  have "trimmed_to (W k) now (H' k) (R' k)" if "k \<in> sc_key ` set scs" for k
    using at other 2(4) [of k] that by (cases "k = ?k") auto
  then have "redis_tracks W now (record_in W now m (sc_key ` set scs) H') (add_to_scopes now m scs R')"
    using 2(1) [of H'] tracks use(3) by (simp add: R'_def)
  moreover have "record_in W now m (sc_key ` set (sc # scs)) H = record_in W now m (sc_key ` set scs) H'"
    using record_in_Cons [where W = W and k = ?k and H = H and now = now and m = m and keys = "sc_key ` set scs", OF use(2)] by (simp add: H'_def)
  ultimately show ?case by (simp add: R'_def)
qed

text \<open>
  The script on a store whose sets track their histories: it lets a member through that is in a window already, it
  refuses at a full scope, and otherwise it records the member.
\<close>

lemma admit_script_cases:
  assumes "redis_tracks W before H R" "before \<le> redis_ms time" "scopes_use W scopes" "admit_script time scopes m R = (i, R')"
  obtains
    (seen) k where "i = 0" "k \<in> sc_key ` set scopes" "m \<in> fst ` set (in_window W (redis_ms time) H k)"
      "redis_tracks W (redis_ms time) H R'"
  | (full) sc where "i \<noteq> 0" "i - 1 < length scopes" "sc = scopes ! (i - 1)"
      "sc_limit sc \<le> int (length (in_window W (redis_ms time) H (sc_key sc)))" "redis_tracks W (redis_ms time) H R'"
  | (fresh) "i = 0" "\<And>k. k \<in> sc_key ` set scopes \<Longrightarrow> m \<notin> fst ` set (in_window W (redis_ms time) H k)"
      "\<And>sc. sc \<in> set scopes \<Longrightarrow> int (length (in_window W (redis_ms time) H (sc_key sc))) < sc_limit sc"
      "redis_tracks W (redis_ms time) (\<lambda>k. if k \<in> sc_key ` set scopes then H k @ [(m, redis_ms time)] else H k) R'"
proof -
  let ?now = "redis_ms time"
  have H: "redis_tracks W ?now H R"
    using assms(1,2) tracks_later unfolding redis_tracks_def by blast
  let ?T = "trim_scopes ?now scopes R"
  have T: "redis_tracks W ?now H ?T" using H assms(3) by (rule trim_scopes_tracks)
  have trimmed: "trimmed_to (W k) ?now (H k) (?T k)" if "k \<in> sc_key ` set scopes" for k
    using H assms(3) that by (rule trim_scopes_trims)
  have card: "zcard ?now ?T (sc_key sc) = length (in_window W ?now H (sc_key sc))" if "sc \<in> set scopes" for sc
    using trimmed that by (intro zcard_trimmed) auto
  consider (s) "seen_in ?now m scopes R" | (f) "\<not> seen_in ?now m scopes R" "full_scope ?now 1 scopes ?T \<noteq> 0"
    | (n) "\<not> seen_in ?now m scopes R" "full_scope ?now 1 scopes ?T = 0"
    by blast
  then show thesis
  proof cases
    case s
    then have "i = 0" "R' = ?T" using assms(4) by (simp_all add: admit_script_def Let_def)
    then show thesis using seen T s seen_in_iff [OF H assms(3)] by blast
  next
    case f
    then have "i = full_scope ?now 1 scopes ?T" "R' = ?T"
      using assms(4) by (simp_all add: admit_script_def Let_def split: nat.splits)
    then show thesis
      using full [of "scopes ! (i - 1)"] T full_scope_at [of 1 ?now scopes ?T i] f card [of "scopes ! (i - 1)"] by simp
  next
    case n
    have i: "i = 0" "R' = add_to_scopes ?now m scopes ?T" using n assms(4) by (simp_all add: admit_script_def Let_def)
    have new: "m \<notin> fst ` set (in_window W ?now H k)" if "k \<in> sc_key ` set scopes" for k
      using n(1) that seen_in_iff [OF H assms(3)] by blast
    have "int (length (in_window W ?now H (sc_key sc))) < sc_limit sc" if "sc \<in> set scopes" for sc
      using n(2) that card [OF that] full_scope_0 [of 1 ?now scopes ?T] by (metis zero_less_one)
    moreover have "record_in W ?now m (sc_key ` set scopes) H = (\<lambda>k. if k \<in> sc_key ` set scopes then H k @ [(m, ?now)] else H k)"
      using new by (auto simp: record_in_def)
    ultimately show thesis
      using fresh i new add_to_scopes_tracks [OF T assms(3) trimmed, of m] by simp
  qed
qed

section \<open>The keys of the service\<close>

text \<open>A key ends in its window.\<close>

definition key_window :: "string \<Rightarrow> int" where
  "key_window k = (if ends_with '':60s'' k then MINUTE_MS else TEN_MINUTES_MS)"

lemma key_window_60 [simp]: "key_window (p @ '':60s'') = MINUTE_MS"
  by (simp add: key_window_def ends_with_def starts_with_def)

lemma key_window_600 [simp]: "key_window (p @ '':600s'') = TEN_MINUTES_MS"
  by (simp add: key_window_def ends_with_def starts_with_def)

lemma window_pos [simp]: "0 < MINUTE_MS" "0 < TEN_MINUTES_MS" "0 < key_window k"
  by (simp_all add: MINUTE_MS_def TEN_MINUTES_MS_def key_window_def)

definition full_key :: "string \<Rightarrow> string" where
  "full_key k = ''arch007:wa-abuse:v1:'' @ k"

definition request_keys :: "(string \<Rightarrow> string) \<Rightarrow> config_row \<Rightarrow> inbound_request \<Rightarrow> string set" where
  "request_keys sha256 c r = sc_key ` set (map (prefixed \<circ> fst) (request_scopes sha256 c r))"

lemma request_scopes_use: "scopes_use key_window (map (prefixed \<circ> fst) (request_scopes sha256 c r))"
proof -
  have raw: "key_window (p @ ''raw:global:60s'') = MINUTE_MS" "key_window (p @ ''turn:global:60s'') = MINUTE_MS" for p
    using key_window_60 [of "p @ ''raw:global''"] key_window_60 [of "p @ ''turn:global''"] by simp_all
  have sfx: "key_window (a @ b @ c' @ '':60s'') = MINUTE_MS" "key_window (a @ b @ c' @ '':600s'') = TEN_MINUTES_MS" for a b c'
    using key_window_60 [of "a @ b @ c'"] key_window_600 [of "a @ b @ c'"] by simp_all
  show ?thesis
    by (cases r) (simp_all only: request_scopes.simps raw_scopes_def turn_scopes_def Let_def list.map inbound_scope_def
        prod.case comp_apply fst_conv prefixed_def admission_scope.simps scopes_use_def list.set ball_simps
        raw sfx window_pos simp_thms)
qed

section \<open>Sequences of calls\<close>

record inbound_call =
  ic_fault :: redis_fault
  ic_time :: "int \<times> int"
  ic_request :: inbound_request

definition ic_ms :: "inbound_call \<Rightarrow> int" where
  "ic_ms call = redis_ms (ic_time call)"

definition ic_member :: "inbound_call \<Rightarrow> string" where
  "ic_member call = request_member (ic_request call)"

fun inbound_run ::
  "(string \<Rightarrow> string) \<Rightarrow> config_service \<Rightarrow> inbound_call list \<Rightarrow> redis \<Rightarrow> (string + inbound_admission) list \<times> redis" where
  "inbound_run sha256 service [] R = ([], R)"
| "inbound_run sha256 service (call # calls) R =
     (let (a, R1) = inbound_serve sha256 service (ic_fault call) (ic_time call) (ic_request call) R;
          (as, R2) = inbound_run sha256 service calls R1 in (a # as, R2))"

lemma inbound_run_snoc:
  "inbound_run sha256 service (calls @ [call]) R =
     (let (as, R1) = inbound_run sha256 service calls R;
          (a, R2) = inbound_serve sha256 service (ic_fault call) (ic_time call) (ic_request call) R1 in (as @ [a], R2))"
  by (induction calls arbitrary: R) (auto simp: Let_def split: prod.splits)

lemma inbound_run_length: "inbound_run sha256 service calls R = (as, R') \<Longrightarrow> length as = length calls"
  by (induction calls arbitrary: R as) (auto simp: Let_def split: prod.splits)

definition was_allowed :: "(string + inbound_admission) list \<Rightarrow> nat \<Rightarrow> bool" where
  "was_allowed results i \<longleftrightarrow> i < length results \<and> results ! i = Inr Inbound_Allowed"

text \<open>A call that is let through whose member had not been let through before.\<close>

definition first_allowed :: "inbound_call list \<Rightarrow> (string + inbound_admission) list \<Rightarrow> nat \<Rightarrow> bool" where
  "first_allowed calls results i \<longleftrightarrow>
     was_allowed results i \<and> (\<forall>j<i. was_allowed results j \<longrightarrow> ic_member (calls ! j) \<noteq> ic_member (calls ! i))"

text \<open>How many calls chosen by a predicate have a key and a time after \<open>t - w\<close> and up to \<open>t\<close>.\<close>

definition calls_in_window ::
  "(string \<Rightarrow> string) \<Rightarrow> config_row \<Rightarrow> inbound_call list \<Rightarrow> (nat \<Rightarrow> bool) \<Rightarrow> string \<Rightarrow> int \<Rightarrow> nat set" where
  "calls_in_window sha256 c calls chosen k t =
     {i. i < length calls \<and> chosen i \<and> k \<in> request_keys sha256 c (ic_request (calls ! i)) \<and>
         t - key_window k < ic_ms (calls ! i) \<and> ic_ms (calls ! i) \<le> t}"

text \<open>The histories of the keys, as the calls that were recorded.\<close>

definition recorded ::
  "(string \<Rightarrow> string) \<Rightarrow> config_row \<Rightarrow> inbound_call list \<Rightarrow> (string + inbound_admission) list \<Rightarrow>
   (string \<Rightarrow> nat list) \<Rightarrow> bool" where
  "recorded sha256 c calls results ix \<longleftrightarrow>
     (\<forall>k. distinct (ix k) \<and>
        (\<forall>i\<in>set (ix k). i < length calls \<and> was_allowed results i \<and> k \<in> request_keys sha256 c (ic_request (calls ! i)))) \<and>
     (\<forall>i k. first_allowed calls results i \<longrightarrow> k \<in> request_keys sha256 c (ic_request (calls ! i)) \<longrightarrow> i \<in> set (ix k))"

definition history :: "inbound_call list \<Rightarrow> (string \<Rightarrow> nat list) \<Rightarrow> string \<Rightarrow> (string \<times> int) list" where
  "history calls ix k = map (\<lambda>i. (ic_member (calls ! i), ic_ms (calls ! i))) (ix k)"

definition within_limits ::
  "(string \<Rightarrow> string) \<Rightarrow> config_row \<Rightarrow> inbound_call list \<Rightarrow> (string \<Rightarrow> nat list) \<Rightarrow> bool" where
  "within_limits sha256 c calls ix \<longleftrightarrow>
     (\<forall>k n t. (\<forall>call\<in>set calls. \<forall>x\<in>set (request_scopes sha256 c (ic_request call)).
                full_key (sc_key (fst x)) = k \<longrightarrow> sc_limit (fst x) \<le> int n) \<longrightarrow>
        length (filter (\<lambda>i. t - key_window k < ic_ms (calls ! i) \<and> ic_ms (calls ! i) \<le> t) (ix k)) \<le> n)"

lemma recorded_snoc_same:
  assumes "recorded sha256 c calls results ix" "length results = length calls"
    "a = Inr Inbound_Allowed \<Longrightarrow> \<exists>j. was_allowed results j \<and> ic_member (calls ! j) = ic_member call"
  shows "recorded sha256 c (calls @ [call]) (results @ [a]) ix"
proof -
  have allowed: "was_allowed (results @ [a]) i \<longleftrightarrow> was_allowed results i \<or> i = length calls \<and> a = Inr Inbound_Allowed" for i
    using assms(2) by (auto simp: was_allowed_def nth_append less_Suc_eq)
  have "i < length calls \<and> first_allowed calls results i" if "first_allowed (calls @ [call]) (results @ [a]) i" for i
  proof (cases "i = length calls")
    case True
    then have "a = Inr Inbound_Allowed" using that allowed by (auto simp: first_allowed_def was_allowed_def assms(2))
    then obtain j where "was_allowed results j" "ic_member (calls ! j) = ic_member call" using assms(3) by blast
    moreover from this have "j < length calls" using assms(2) by (simp add: was_allowed_def)
    ultimately show ?thesis using that True allowed by (auto simp: first_allowed_def nth_append)
  next
    case False
    then have "i < length calls" using that allowed assms(2) by (auto simp: first_allowed_def was_allowed_def)
    then show ?thesis using that allowed by (auto simp: first_allowed_def nth_append was_allowed_def)
  qed
  then show ?thesis
    using assms(1) allowed unfolding recorded_def by (auto simp: nth_append less_Suc_eq)
qed

lemma recorded_snoc_new:
  assumes "recorded sha256 c calls results ix" "length results = length calls"
  shows "recorded sha256 c (calls @ [call]) (results @ [Inr Inbound_Allowed])
    (\<lambda>k. if k \<in> request_keys sha256 c (ic_request call) then ix k @ [length calls] else ix k)"
proof -
  have allowed: "was_allowed (results @ [Inr Inbound_Allowed]) i \<longleftrightarrow> was_allowed results i \<or> i = length calls" for i
    using assms(2) by (auto simp: was_allowed_def nth_append less_Suc_eq)
  have "i = length calls \<or> i < length calls \<and> first_allowed calls results i"
    if "first_allowed (calls @ [call]) (results @ [Inr Inbound_Allowed]) i" for i
    using that allowed assms(2) by (auto simp: first_allowed_def nth_append was_allowed_def)
  note new = this
  have first: "i \<in> set (ix k)" if "first_allowed calls results i" "k \<in> request_keys sha256 c (ic_request (calls ! i))" for i k
    using assms(1) that by (simp add: recorded_def)
  let ?ix = "\<lambda>k. if k \<in> request_keys sha256 c (ic_request call) then ix k @ [length calls] else ix k"
  show ?thesis
    unfolding recorded_def
  proof (intro conjI allI)
    fix k
    have old: "distinct (ix k)" "\<forall>i\<in>set (ix k). i < length calls \<and> was_allowed results i \<and>
        k \<in> request_keys sha256 c (ic_request (calls ! i))"
      using assms(1) by (simp_all add: recorded_def)
    show "distinct (?ix k)" using old by auto
    have at: "i < length (calls @ [call]) \<and> was_allowed (results @ [Inr Inbound_Allowed]) i \<and>
        k \<in> request_keys sha256 c (ic_request ((calls @ [call]) ! i))" if "i \<in> set (?ix k)" for i
    proof (cases "i \<in> set (ix k)")
      case True
      then show ?thesis using bspec [OF old(2) True] allowed by (simp add: nth_append)
    next
      case False
      then have "i = length calls" "k \<in> request_keys sha256 c (ic_request call)" using that by (simp_all split: if_splits)
      then show ?thesis using allowed by simp
    qed
    show "\<forall>i\<in>set (?ix k). i < length (calls @ [call]) \<and> was_allowed (results @ [Inr Inbound_Allowed]) i \<and>
        k \<in> request_keys sha256 c (ic_request ((calls @ [call]) ! i))"
      using at by blast
  next
    fix i k
    show "first_allowed (calls @ [call]) (results @ [Inr Inbound_Allowed]) i \<longrightarrow>
        k \<in> request_keys sha256 c (ic_request ((calls @ [call]) ! i)) \<longrightarrow> i \<in> set (?ix k)"
      using new [of i] first [of i k] by (auto simp: nth_append)
  qed
qed

lemma history_snoc_same:
  "recorded sha256 c calls results ix \<Longrightarrow> history (calls @ [call]) ix = history calls ix"
  unfolding history_def recorded_def by (auto simp: fun_eq_iff nth_append)

lemma within_limits_snoc_same:
  assumes "recorded sha256 c calls results ix" "within_limits sha256 c calls ix"
  shows "within_limits sha256 c (calls @ [call]) ix"
proof -
  have "filter (\<lambda>i. t - key_window k < ic_ms ((calls @ [call]) ! i) \<and> ic_ms ((calls @ [call]) ! i) \<le> t) (ix k) =
      filter (\<lambda>i. t - key_window k < ic_ms (calls ! i) \<and> ic_ms (calls ! i) \<le> t) (ix k)" for k t
    using assms(1) by (intro filter_cong) (auto simp: recorded_def nth_append)
  then show ?thesis using assms(2) unfolding within_limits_def by simp
qed

lemma history_snoc_new:
  assumes "recorded sha256 c calls results ix"
  shows "history (calls @ [call]) (\<lambda>k. if k \<in> keys then ix k @ [length calls] else ix k) =
    (\<lambda>k. if k \<in> keys then history calls ix k @ [(ic_member call, ic_ms call)] else history calls ix k)"
  using fun_cong [OF history_snoc_same [OF assms, of call]] by (auto simp: fun_eq_iff history_def)

lemma in_window_history:
  "length (in_window key_window now (history calls ix) k) =
   length (filter (\<lambda>i. now - key_window k < ic_ms (calls ! i)) (ix k))"
  by (simp add: in_window_def history_def filter_map comp_def)

lemma length_filter_weaken: "(\<And>x. x \<in> set xs \<Longrightarrow> P x \<Longrightarrow> Q x) \<Longrightarrow> length (filter P xs) \<le> length (filter Q xs)"
  by (induction xs) auto

lemma within_limits_snoc_new:
  assumes rec: "recorded sha256 c calls results ix" and lim: "within_limits sha256 c calls ix"
    and times: "\<forall>x\<in>set calls. ic_ms x \<le> ic_ms call"
    and room: "\<And>x. x \<in> set (request_scopes sha256 c (ic_request call)) \<Longrightarrow>
      int (length (in_window key_window (ic_ms call) (history calls ix) (full_key (sc_key (fst x))))) < sc_limit (fst x)"
  shows "within_limits sha256 c (calls @ [call])
    (\<lambda>k. if k \<in> request_keys sha256 c (ic_request call) then ix k @ [length calls] else ix k)"
  unfolding within_limits_def
proof (intro allI impI)
  fix k n t
  let ?in = "\<lambda>cs i. t - key_window k < ic_ms (cs ! i) \<and> ic_ms (cs ! i) \<le> t"
  let ?ix = "if k \<in> request_keys sha256 c (ic_request call) then ix k @ [length calls] else ix k"
  assume bound: "\<forall>x\<in>set (calls @ [call]). \<forall>y\<in>set (request_scopes sha256 c (ic_request x)).
      full_key (sc_key (fst y)) = k \<longrightarrow> sc_limit (fst y) \<le> int n"
  have old: "length (filter (?in calls) (ix k)) \<le> n"
    using lim bound unfolding within_limits_def by (metis (no_types, lifting) Un_iff set_append)
  have same: "filter (?in (calls @ [call])) (ix k) = filter (?in calls) (ix k)"
    using rec by (intro filter_cong) (auto simp: recorded_def nth_append)
  show "length (filter (?in (calls @ [call])) ?ix) \<le> n"
  proof (cases "k \<in> request_keys sha256 c (ic_request call) \<and> ?in (calls @ [call]) (length calls)")
    case True
    then obtain y where y: "y \<in> set (request_scopes sha256 c (ic_request call))" "full_key (sc_key (fst y)) = k"
      by (auto simp: request_keys_def prefixed_def full_key_def)
    have "length (filter (?in calls) (ix k)) \<le> length (filter (\<lambda>i. ic_ms call - key_window k < ic_ms (calls ! i)) (ix k))"
      using True by (intro length_filter_weaken) (auto simp: nth_append)
    moreover have "int (length (filter (\<lambda>i. ic_ms call - key_window k < ic_ms (calls ! i)) (ix k))) < int n"
      using room [OF y(1)] y bound by (fastforce simp: in_window_history)
    ultimately show ?thesis using True same by simp
  next
    case False
    then show ?thesis using old same by auto
  qed
qed

text \<open>
  After any sequence of answered calls with a clock that does not run back, the store tracks the histories of the
  recorded calls, and every history keeps the limits.
\<close>

definition inbound_ok :: "(string \<Rightarrow> string) \<Rightarrow> config_row \<Rightarrow> inbound_call list \<Rightarrow>
    (string + inbound_admission) list \<Rightarrow> redis \<Rightarrow> (string \<Rightarrow> nat list) \<Rightarrow> bool" where
  "inbound_ok sha256 c calls results R ix \<longleftrightarrow>
     recorded sha256 c calls results ix \<and> within_limits sha256 c calls ix \<and>
     (\<forall>now. (\<forall>x\<in>set calls. ic_ms x \<le> now) \<longrightarrow> redis_tracks key_window now (history calls ix) R)"

definition no_answer_lost :: "inbound_call list \<Rightarrow> bool" where
  "no_answer_lost calls \<longleftrightarrow> list_all (\<lambda>call. ic_fault call \<noteq> Answer_Lost) calls"

lemma inbound_admit_results:
  assumes "inbound_admit Answered time stage m scopes R = (a, R')"
    "admit_script time (map (prefixed \<circ> fst) scopes) m R = (i, R'')"
  shows "R' = R''" "a = Inbound_Allowed \<longleftrightarrow> i = 0"
  using assms by (auto simp: inbound_admit_def split: if_splits)

lemma ic_ms_time [simp]: "redis_ms (ic_time call) = ic_ms call"
  by (simp add: ic_ms_def)

lemma inbound_ok_step:
  assumes ok: "inbound_ok sha256 c calls results R ix" and len: "length results = length calls"
    and times: "\<forall>x\<in>set calls. ic_ms x \<le> ic_ms call" and current: "current_config service = Inr c"
    and fault: "ic_fault call \<noteq> Answer_Lost"
    and serve: "inbound_serve sha256 service (ic_fault call) (ic_time call) (ic_request call) R = (a, R')"
  shows "\<exists>ix'. inbound_ok sha256 c (calls @ [call]) (results @ [a]) R' ix'"
proof (cases "ic_fault call")
  case Not_Run
  then have "R' = R" "a \<noteq> Inr Inbound_Allowed" using serve current by (auto simp: inbound_serve_def inbound_admit_def split: prod.splits)
  then have "inbound_ok sha256 c (calls @ [call]) (results @ [a]) R' ix"
    using ok recorded_snoc_same [of sha256 c calls results ix a call] within_limits_snoc_same history_snoc_same len
    unfolding inbound_ok_def by (metis Un_iff set_append)
  then show ?thesis by blast
next
  case Answered
  let ?keys = "request_keys sha256 c (ic_request call)"
  let ?scopes = "map (prefixed \<circ> fst) (request_scopes sha256 c (ic_request call))"
  obtain i R'' where script: "admit_script (ic_time call) ?scopes (ic_member call) R = (i, R'')" by fastforce
  obtain adm where adm: "inbound_admit Answered (ic_time call) (request_stage (ic_request call)) (ic_member call)
      (request_scopes sha256 c (ic_request call)) R = (adm, R')" "a = Inr adm"
    using serve current Answered by (auto simp: inbound_serve_def ic_member_def split: prod.splits)
  have a: "R' = R''" "a = Inr Inbound_Allowed \<longleftrightarrow> i = 0"
    using inbound_admit_results [OF adm(1) script] adm(2) by auto
  have T: "redis_tracks key_window (ic_ms call) (history calls ix) R"
    and rec: "recorded sha256 c calls results ix" and lim: "within_limits sha256 c calls ix"
    using ok times unfolding inbound_ok_def by blast+
  have fin: "redis_tracks key_window now (history (calls @ [call]) ix') R'"
    if "redis_tracks key_window (ic_ms call) (history (calls @ [call]) ix') R'" "\<forall>x\<in>set (calls @ [call]). ic_ms x \<le> now" for ix' now
    using that tracks_later unfolding redis_tracks_def by (meson in_set_conv_decomp)
  from T eq_refl [OF ic_ms_time [symmetric]] request_scopes_use script show ?thesis
  proof (cases rule: admit_script_cases)
    case (seen k)
    then obtain j where "j \<in> set (ix k)" "ic_member (calls ! j) = ic_member call"
      by (auto simp: in_window_def history_def)
    then have "\<exists>j. was_allowed results j \<and> ic_member (calls ! j) = ic_member call"
      using rec by (auto simp: recorded_def)
    then show ?thesis
      using recorded_snoc_same [OF rec len] within_limits_snoc_same [OF rec lim] fin [where ix' = ix] seen(4) a(1)
        history_snoc_same [OF rec, of call]
      unfolding inbound_ok_def by (intro exI [of _ ix]) simp
  next
    case (full sc)
    have "recorded sha256 c (calls @ [call]) (results @ [a]) ix"
      by (rule recorded_snoc_same [OF rec len]) (use full(1) a(2) in simp)
    then show ?thesis
      using within_limits_snoc_same [OF rec lim] fin [where ix' = ix] full(5) a(1) history_snoc_same [OF rec, of call]
      unfolding inbound_ok_def by (intro exI [of _ ix]) simp
  next
    case fresh
    let ?ix = "\<lambda>k. if k \<in> ?keys then ix k @ [length calls] else ix k"
    have "within_limits sha256 c (calls @ [call]) ?ix"
      by (rule within_limits_snoc_new [OF rec lim times])
        (use fresh(3) in \<open>force simp: prefixed_def full_key_def\<close>)
    moreover have "recorded sha256 c (calls @ [call]) (results @ [a]) ?ix"
      using recorded_snoc_new [OF rec len] fresh(1) a(2) by simp
    moreover have "redis_tracks key_window (ic_ms call) (history (calls @ [call]) ?ix) R'"
      using fresh(4) a(1) unfolding history_snoc_new [OF rec] request_keys_def ic_ms_time by simp
    ultimately show ?thesis using fin [where ix' = ?ix] unfolding inbound_ok_def by blast
  qed
qed (use fault in simp)

lemma inbound_ok_run:
  assumes "inbound_run sha256 service calls empty_redis = (results, R)" "current_config service = Inr c"
    "sorted (map ic_ms calls)" "no_answer_lost calls"
  shows "\<exists>ix. inbound_ok sha256 c calls results R ix"
  using assms(1,3,4)
proof (induction calls arbitrary: results R rule: rev_induct)
  case Nil
  have "inbound_ok sha256 c [] [] empty_redis (\<lambda>_. [])"
    by (auto simp: inbound_ok_def recorded_def within_limits_def first_allowed_def was_allowed_def redis_tracks_def
        history_def empty_redis_def tracks_no_zset)
  then show ?case using Nil by auto
next
  case (snoc call calls)
  obtain as R1 where run: "inbound_run sha256 service calls empty_redis = (as, R1)" by fastforce
  obtain a R2 where serve: "inbound_serve sha256 service (ic_fault call) (ic_time call) (ic_request call) R1 = (a, R2)" by fastforce
  have "results = as @ [a]" "R = R2" using snoc(2) by (simp_all add: inbound_run_snoc run serve)
  moreover obtain ix where "inbound_ok sha256 c calls as R1 ix"
    using snoc.IH [OF run] snoc(3,4) by (auto simp: sorted_append no_answer_lost_def)
  ultimately show ?case
    using inbound_ok_step [OF _ inbound_run_length [OF run] _ assms(2) _ serve] snoc(3,4)
    by (auto simp: sorted_append no_answer_lost_def)
qed

section \<open>What the limits mean\<close>

lemma first_allowed_was_allowed: "first_allowed calls results i \<Longrightarrow> was_allowed results i"
  by (simp add: first_allowed_def)

lemma calls_in_window_bound:
  assumes ok: "inbound_ok sha256 c calls results R ix"
    and limit: "\<And>r x. x \<in> set (request_scopes sha256 c r) \<Longrightarrow> full_key (sc_key (fst x)) = k \<Longrightarrow> sc_limit (fst x) \<le> int n"
  shows "card (calls_in_window sha256 c calls (first_allowed calls results) k t) \<le> n"
proof -
  let ?in = "\<lambda>i. t - key_window k < ic_ms (calls ! i) \<and> ic_ms (calls ! i) \<le> t"
  have rec: "recorded sha256 c calls results ix" and lim: "within_limits sha256 c calls ix"
    using ok by (simp_all add: inbound_ok_def)
  have sub: "calls_in_window sha256 c calls (first_allowed calls results) k t \<subseteq> set (filter ?in (ix k))"
    using rec by (auto simp: calls_in_window_def recorded_def)
  have "card (calls_in_window sha256 c calls (first_allowed calls results) k t) \<le> card (set (filter ?in (ix k)))"
    using sub by (intro card_mono) auto
  also have "\<dots> \<le> length (filter ?in (ix k))" by (rule card_length)
  also have "\<dots> \<le> n" using lim limit unfolding within_limits_def by blast
  finally show ?thesis .
qed

lemma denied_at_full_scope:
  assumes ok: "inbound_ok sha256 c calls results R ix" and times: "\<forall>x\<in>set calls. ic_ms x \<le> ic_ms call"
    and current: "current_config service = Inr c" and fault: "ic_fault call = Answered"
    and serve: "inbound_serve sha256 service (ic_fault call) (ic_time call) (ic_request call) R = (Inr (Inbound_Denied stage reason), R')"
  shows "\<exists>sc. (sc, reason) \<in> set (request_scopes sha256 c (ic_request call)) \<and> stage = request_stage (ic_request call) \<and>
    sc_limit sc \<le> int (card (calls_in_window sha256 c calls (was_allowed results) (full_key (sc_key sc)) (ic_ms call)))"
proof -
  let ?scopes = "request_scopes sha256 c (ic_request call)"
  obtain i R'' where script: "admit_script (ic_time call) (map (prefixed \<circ> fst) ?scopes) (ic_member call) R = (i, R'')" by fastforce
  have adm: "inbound_admit Answered (ic_time call) (request_stage (ic_request call)) (ic_member call) ?scopes R
      = (Inbound_Denied stage reason, R')"
    using serve current fault by (auto simp: inbound_serve_def ic_member_def split: prod.splits)
  have T: "redis_tracks key_window (ic_ms call) (history calls ix) R" and rec: "recorded sha256 c calls results ix"
    using ok times unfolding inbound_ok_def by blast+
  from T eq_refl [OF ic_ms_time [symmetric]] request_scopes_use script show ?thesis
  proof (cases rule: admit_script_cases)
    case (full sc)
    let ?x = "?scopes ! (i - 1)" and ?k = "full_key (sc_key (fst (?scopes ! (i - 1))))"
    have i: "i - 1 < length ?scopes" using full(2) by simp
    have reason: "stage = request_stage (ic_request call)" "reason = snd ?x"
      using adm script full(1) i by (auto simp: inbound_admit_def)
    have sc: "sc_limit sc = sc_limit (fst ?x)" "sc_key sc = ?k"
      using full(3) i by (simp_all add: prefixed_def full_key_def)
    have "length (in_window key_window (ic_ms call) (history calls ix) ?k) =
        card (set (filter (\<lambda>j. ic_ms call - key_window ?k < ic_ms (calls ! j)) (ix ?k)))"
      using rec unfolding in_window_history by (intro distinct_card [symmetric] distinct_filter) (simp add: recorded_def)
    also have "\<dots> \<le> card (calls_in_window sha256 c calls (was_allowed results) ?k (ic_ms call))"
      using rec times by (intro card_mono) (auto simp: calls_in_window_def recorded_def)
    finally have "sc_limit (fst ?x) \<le> int (card (calls_in_window sha256 c calls (was_allowed results) ?k (ic_ms call)))"
      using full(4) sc by simp
    moreover have "(fst ?x, reason) \<in> set ?scopes" using reason(2) nth_mem [OF i] by simp
    ultimately show ?thesis using reason(1) by blast
  qed (use inbound_admit_results [OF adm script] in simp_all)
qed

text \<open>Which limits can stand at a key.\<close>

lemma window_neq [simp]: "MINUTE_MS \<noteq> TEN_MINUTES_MS"
  by (simp add: MINUTE_MS_def TEN_MINUTES_MS_def)

lemma keys_60_600 [simp]: "p @ '':60s'' \<noteq> q @ '':600s''" "q @ '':600s'' \<noteq> p @ '':60s''"
  using key_window_60 [of p] key_window_600 [of q] window_neq by metis+

lemma full_key_inject [simp]: "full_key a = full_key b \<longleftrightarrow> a = b"
  by (simp add: full_key_def)

lemma keys_conversation_60_600 [simp]:
  "a @ b @ '':60s'' \<noteq> a' @ b' @ '':600s''" "a @ b @ '':600s'' \<noteq> a' @ b' @ '':60s''"
  using keys_60_600 [of "a @ b" "a' @ b'"] keys_60_600(2) [of "a @ b" "a' @ b'"] by simp_all

end
