(* ===== verification/Inbound_Properties.thy ===== *)
theory Inbound_Properties
  imports Inbound_Admission
begin

text \<open>
  The properties of the inbound admission and of the configuration it reads, with a configuration of the least
  limits on which they are applied.
\<close>

section \<open>The limits of a valid configuration\<close>

text \<open>The scopes of a sender, a conversation and a shop, with the field each is limited by.\<close>

definition admission_limits :: "(string \<Rightarrow> string) \<Rightarrow> string \<Rightarrow> id \<Rightarrow> id \<Rightarrow> (string \<times> string) list" where
  "admission_limits sha256 phone conversationId shopId =
     (let h = senderHash sha256 phone in
      [(''raw:sender:'' @ h @ '':60s'', ''rawSenderLimitPerMinute''),
       (''raw:global:60s'', ''rawGlobalLimitPerMinute''),
       (''turn:sender:'' @ h @ '':60s'', ''turnSenderLimitPerMinute''),
       (''turn:sender:'' @ h @ '':600s'', ''turnSenderLimitPerTenMinutes''),
       (''turn:conversation:'' @ conversationId @ '':60s'', ''turnConversationLimitPerMinute''),
       (''turn:conversation:'' @ conversationId @ '':600s'', ''turnConversationLimitPerTenMinutes''),
       (''turn:shop:'' @ shopId @ '':60s'', ''turnShopLimitPerMinute''),
       (''turn:global:60s'', ''turnGlobalLimitPerMinute'')])"

lemma discovery_rules:
  "(''discoverySenderLimitPerMinute'', ''turnSenderLimitPerMinute'', ''discovery sender limit must not exceed the turn sender limit'', Lte)
     \<in> set CROSS_FIELD_RULES"
  "(''discoverySenderLimitPerTenMinutes'', ''turnSenderLimitPerTenMinutes'', ''10-minute discovery sender limit must not exceed the turn sender limit'', Lte)
     \<in> set CROSS_FIELD_RULES"
  "(''discoveryConversationLimitPerMinute'', ''turnConversationLimitPerMinute'', ''discovery conversation limit must not exceed the turn conversation limit'', Lte)
     \<in> set CROSS_FIELD_RULES"
  "(''discoveryConversationLimitPerTenMinutes'', ''turnConversationLimitPerTenMinutes'', ''discovery conversation limit must not exceed the turn conversation limit'', Lte)
     \<in> set CROSS_FIELD_RULES"
  by code_simp+

lemma discovery_limits:
  assumes "validateConfig c = Inr c"
  shows "cfg c ''discoverySenderLimitPerMinute'' \<le> cfg c ''turnSenderLimitPerMinute''"
    "cfg c ''discoverySenderLimitPerTenMinutes'' \<le> cfg c ''turnSenderLimitPerTenMinutes''"
    "cfg c ''discoveryConversationLimitPerMinute'' \<le> cfg c ''turnConversationLimitPerMinute''"
    "cfg c ''discoveryConversationLimitPerTenMinutes'' \<le> cfg c ''turnConversationLimitPerTenMinutes''"
  using discovery_rules [THEN valid_rule [OF assms]] by simp_all

lemma limit_at_key:
  assumes "validateConfig c = Inr c" "(k, field) \<in> set (admission_limits sha256 phone conversationId shopId)"
    "x \<in> set (request_scopes sha256 c r)" "sc_key (fst x) = k"
  shows "sc_limit (fst x) \<le> cfg c field"
  using assms(2-) discovery_limits [OF assms(1)]
  by (cases r) (auto simp: admission_limits_def raw_scopes_def turn_scopes_def Let_def inbound_scope_def)

lemma least_limit:
  "list_all (\<lambda>x. case map_of NUMERIC_BOUNDS (snd x) of Some (least, _) \<Rightarrow> least = 1 | None \<Rightarrow> False)
     (admission_limits sha256 phone conversationId shopId)"
  by code_simp

lemma limit_nonneg:
  assumes "validateConfig c = Inr c" "(k, field) \<in> set (admission_limits sha256 phone conversationId shopId)"
  shows "0 \<le> cfg c field"
proof -
  obtain maximum where "(field, 1, maximum) \<in> set NUMERIC_BOUNDS"
    using least_limit [of sha256 phone conversationId shopId] assms(2)
    by (fastforce simp: list_all_iff split: option.splits dest: map_of_SomeD)
  then show ?thesis using valid_bounds(1) [OF assms(1)] by force
qed

section \<open>A configuration, and two messages\<close>

definition least_config :: config_row where
  "least_config = (\<lambda>f.
     if f = ''id'' then Some (Config_String ''default'')
     else if f = ''createdAt'' \<or> f = ''updatedAt'' then Some (Config_Date (Some 0))
     else Some (Config_Number (JsInt (case map_of NUMERIC_BOUNDS f of Some (least, _) \<Rightarrow> least | None \<Rightarrow> 0))))"

lemma least_config_valid: "validateConfig least_config = Inr least_config"
proof -
  have "\<not> isl (validateConfig least_config)" by code_simp
  then obtain c where "validateConfig least_config = Inr c" by (metis sum.collapse(2))
  then show ?thesis using validateConfig_same by metis
qed

definition example_service :: config_service where
  "example_service = \<lparr>cs_snapshot = Some least_config, cs_phase = Idle, cs_notified = []\<rparr>"

lemma example_service_reachable: "config_reachable example_service"
proof -
  let ?reading = "new_config_service\<lparr>cs_phase := Reading True\<rparr>"
  have "config_reachable ?reading"
    by (rule config_reachable.step [OF config_reachable.initial begin_refresh]) (simp add: new_config_service_def)
  moreover have "config_step ?reading (snd (finish_read True (Inr (Some least_config)) ?reading))"
    by (rule end_read) simp
  moreover have "snd (finish_read True (Inr (Some least_config)) ?reading) = example_service"
    by (simp add: finish_read_def read_config_def least_config_valid new_config_service_def example_service_def)
  ultimately show ?thesis by (metis config_reachable.step)
qed

lemma example_service_current: "current_config example_service = Inr least_config"
  by (simp add: example_service_def current_config_def)

definition example_calls :: "inbound_call list" where
  "example_calls = [\<lparr>ic_fault = Answered, ic_time = (10, 0), ic_request = Raw_Message ''m1'' '' +44 1''\<rparr>,
     \<lparr>ic_fault = Answered, ic_time = (50, 500), ic_request = Raw_Message ''m2'' ''+441 ''\<rparr>]"

lemma example_calls_ok: "sorted (map ic_ms example_calls)" "no_answer_lost example_calls"
  by code_simp+

section \<open>The properties\<close>

text \<open>
  C26. Whatever the configuration service has gone through, the configuration it serves is a valid one; the
  notifications of its listeners start each from the configuration of the one before, with a version that grows, and
  the last one announces the configuration in force.
\<close>

theorem served_configuration_is_valid:
  assumes "config_reachable s"
  shows "(case cs_snapshot s of
      None \<Rightarrow> cs_notified s = []
    | Some c \<Rightarrow> validateConfig c = Inr c \<and> (cs_notified s = [] \<or> fst (last (cs_notified s)) = c)) \<and>
    linked None (cs_notified s) \<and> list_all (\<lambda>n. validateConfig (fst n) = Inr (fst n)) (cs_notified s)"
  using config_reachable_ok [OF assms] by (auto simp: config_ok_def list_all_iff split: option.splits)

lemma served_configuration_is_valid_witness: "validateConfig (the (cs_snapshot example_service)) = Inr least_config"
  using served_configuration_is_valid [OF example_service_reachable] example_service_current
  by (auto simp: current_config_def split: option.splits)

text \<open>
  C27. The inbound limits: over any sequence of calls with a clock that does not run back and no answer of Redis lost,
  every window of a sender, a conversation, a shop or the whole service holds at most as many newly admitted messages
  or turns as the configuration allows, whatever the expiry of the keys; the limits of product discovery are
  within the ones of turns.
\<close>

theorem inbound_rate_is_bounded:
  assumes "config_reachable service" "current_config service = Inr c"
    "inbound_run sha256 service calls empty_redis = (results, R)" "sorted (map ic_ms calls)" "no_answer_lost calls"
    "(k, field) \<in> set (admission_limits sha256 phone conversationId shopId)"
  shows "int (card (calls_in_window sha256 c calls (first_allowed calls results) (full_key k) t)) \<le> cfg c field"
proof -
  have valid: "validateConfig c = Inr c"
    using config_reachable_ok [OF assms(1)] assms(2) by (auto simp: config_ok_def current_config_def split: option.splits)
  obtain ix where ok: "inbound_ok sha256 c calls results R ix"
    using inbound_ok_run [OF assms(3,2,4,5)] by blast
  have nonneg: "0 \<le> cfg c field" using valid assms(6) by (rule limit_nonneg)
  have "sc_limit (fst x) \<le> int (nat (cfg c field))"
    if "x \<in> set (request_scopes sha256 c r)" "full_key (sc_key (fst x)) = full_key k" for r x
    using limit_at_key [OF valid assms(6) that(1)] that(2) nonneg by simp
  then have "card (calls_in_window sha256 c calls (first_allowed calls results) (full_key k) t) \<le> nat (cfg c field)"
    by (rule calls_in_window_bound [OF ok])
  then show ?thesis using nonneg by simp
qed

lemma inbound_rate_is_bounded_witness:
  "int (card (calls_in_window id least_config example_calls
     (first_allowed example_calls (fst (inbound_run id example_service example_calls empty_redis)))
     (full_key ''raw:sender:+441:60s'') 60000)) \<le> cfg least_config ''rawSenderLimitPerMinute''"
proof (rule inbound_rate_is_bounded [OF example_service_reachable example_service_current _ example_calls_ok])
  show "inbound_run id example_service example_calls empty_redis =
      (fst (inbound_run id example_service example_calls empty_redis), snd (inbound_run id example_service example_calls empty_redis))"
    by simp
  show "(''raw:sender:+441:60s'', ''rawSenderLimitPerMinute'') \<in> set (admission_limits id ''+441'' [] [])"
    by code_simp
qed

text \<open>
  Nobody is turned away below a limit: when Redis answers, a call is denied only for a scope of its own, under the
  reason of that scope, whose window holds as many admitted calls as the configuration allows.
\<close>

theorem denied_only_at_the_limit:
  assumes "current_config service = Inr c" "inbound_run sha256 service calls empty_redis = (results, R)"
    "sorted (map ic_ms (calls @ [call]))" "no_answer_lost calls" "ic_fault call = Answered"
    "inbound_serve sha256 service (ic_fault call) (ic_time call) (ic_request call) R = (Inr (Inbound_Denied stage reason), R')"
  shows "\<exists>sc. (sc, reason) \<in> set (request_scopes sha256 c (ic_request call)) \<and> stage = request_stage (ic_request call) \<and>
    sc_limit sc \<le> int (card (calls_in_window sha256 c calls (was_allowed results) (full_key (sc_key sc)) (ic_ms call)))"
proof -
  have sorted: "sorted (map ic_ms calls)" and times: "\<forall>x\<in>set calls. ic_ms x \<le> ic_ms call"
    using assms(3) by (auto simp: sorted_append)
  obtain ix where "inbound_ok sha256 c calls results R ix"
    using inbound_ok_run [OF assms(2,1) sorted assms(4)] by blast
  then show ?thesis using times assms(1,5,6) by (rule denied_at_full_scope)
qed

lemma denied_only_at_the_limit_witness:
  "\<exists>sc. (sc, RAW_SENDER) \<in> set (request_scopes id least_config (Raw_Message ''m2'' ''+441 '')) \<and>
    sc_limit sc \<le> int (card (calls_in_window id least_config (butlast example_calls)
      (was_allowed (fst (inbound_run id example_service (butlast example_calls) empty_redis))) (full_key (sc_key sc)) 50000))"
proof -
  let ?run = "inbound_run id example_service (butlast example_calls) empty_redis" and ?call = "last example_calls"
  have serve: "inbound_serve id example_service (ic_fault ?call) (ic_time ?call) (ic_request ?call) (snd ?run) =
      (Inr (Inbound_Denied Raw_Stage RAW_SENDER),
       snd (inbound_serve id example_service (ic_fault ?call) (ic_time ?call) (ic_request ?call) (snd ?run)))"
    by (rule prod_eqI, code_simp, simp)
  have facts: "sorted (map ic_ms (butlast example_calls @ [?call]))" "no_answer_lost (butlast example_calls)"
      "ic_fault ?call = Answered" "ic_request ?call = Raw_Message ''m2'' ''+441 ''" "ic_ms ?call = 50000"
    by code_simp+
  show ?thesis
    using denied_only_at_the_limit [OF example_service_current prod.collapse [symmetric] facts(1-3) serve] facts(4,5) by auto
qed

end
