(* ===== verification/Knowledge_Text.thy ===== *)
theory Knowledge_Text
  imports Main
begin

text \<open>
  \<open>src/services/merchant-knowledge-normalization.ts\<close> and \<open>merchant-knowledge-chunking.ts\<close>: the text of a merchant's
  page is brought into a canonical form and cut into overlapping chunks. A text is the list of its Unicode code
  points, which is how both files iterate over strings; the NFC normalization and SHA-256 are parameters.
\<close>

type_synonym code_points = "nat list"

definition LF :: nat where
  "LF = 10"

definition SPACE :: nat where
  "SPACE = 32"

section \<open>Normalization\<close>

text \<open>\<open>\p{White_Space}\<close>\<close>

definition white_space :: "nat \<Rightarrow> bool" where
  "white_space c \<longleftrightarrow>
     (9 \<le> c \<and> c \<le> 13) \<or> c = 32 \<or> c = 133 \<or> c = 160 \<or> c = 5760 \<or> (8192 \<le> c \<and> c \<le> 8202) \<or>
     c = 8232 \<or> c = 8233 \<or> c = 8239 \<or> c = 8287 \<or> c = 12288"

definition contentUnits :: "code_points \<Rightarrow> nat" where
  "contentUnits s = (length s + 3) div 4"

text \<open>CR LF becomes LF, then every CR.\<close>

fun crlf_to_lf :: "code_points \<Rightarrow> code_points" where
  "crlf_to_lf (c # d # s) = (if c = 13 \<and> d = LF then LF # crlf_to_lf s else c # crlf_to_lf (d # s))"
| "crlf_to_lf s = s"

definition cr_to_lf :: "code_points \<Rightarrow> code_points" where
  "cr_to_lf s = map (\<lambda>c. if c = 13 then LF else c) s"

definition convert_spaces :: "code_points \<Rightarrow> code_points" where
  "convert_spaces s = map (\<lambda>c. if c \<noteq> LF \<and> white_space c then SPACE else c) s"

text \<open>The three passes over the converted text, each appending to the text it has built.\<close>

fun collapse_spaces :: "code_points \<Rightarrow> code_points \<Rightarrow> code_points" where
  "collapse_spaces out [] = out"
| "collapse_spaces out (c # s) =
     (if c = SPACE \<and> out \<noteq> [] \<and> last out = SPACE then collapse_spaces out s else collapse_spaces (out @ [c]) s)"

definition pop_spaces :: "code_points \<Rightarrow> code_points" where
  "pop_spaces out = rev (dropWhile (\<lambda>c. c = SPACE) (rev out))"

function clean_lines :: "code_points \<Rightarrow> code_points \<Rightarrow> code_points" where
  "clean_lines out [] = out"
| "clean_lines out (c # s) =
     (if c = LF then clean_lines (pop_spaces out @ [LF]) (dropWhile (\<lambda>c. c = SPACE) s)
      else clean_lines (out @ [c]) s)"
  by pat_completeness auto
termination
  by (relation "measure (length \<circ> snd)") (auto simp: le_imp_less_Suc length_dropWhile_le)

fun collapse_lines :: "nat \<Rightarrow> code_points \<Rightarrow> code_points \<Rightarrow> code_points" where
  "collapse_lines n out [] = out"
| "collapse_lines n out (c # s) =
     (if c = LF
      then (if 2 < n + 1 then collapse_lines (n + 1) out s else collapse_lines (n + 1) (out @ [c]) s)
      else collapse_lines 0 (out @ [c]) s)"

definition outer_blank :: "nat \<Rightarrow> bool" where
  "outer_blank c \<longleftrightarrow> c = SPACE \<or> c = LF"

definition trim_blanks :: "code_points \<Rightarrow> code_points" where
  "trim_blanks s = rev (dropWhile outer_blank (rev (dropWhile outer_blank s)))"

definition normalize_text :: "(code_points \<Rightarrow> code_points) \<Rightarrow> code_points \<Rightarrow> code_points" where
  "normalize_text nfc input =
     trim_blanks (collapse_lines 0 [] (clean_lines [] (collapse_spaces [] (convert_spaces (cr_to_lf (crlf_to_lf (nfc input)))))))"

section \<open>Chunks\<close>

definition CHUNK_SIZE :: nat where
  "CHUNK_SIZE = 1200"

definition CHUNK_STEP :: nat where
  "CHUNK_STEP = 1000"

record knowledge_chunk =
  kc_ordinal :: nat
  kc_content :: code_points
  kc_contentUnits :: nat
  kc_contentHash :: string

text \<open>The loop, from a start on; that it ends is shown below.\<close>

partial_function (option) chunk_from ::
  "(code_points \<Rightarrow> string) \<Rightarrow> code_points \<Rightarrow> nat \<Rightarrow> knowledge_chunk list \<Rightarrow> knowledge_chunk list option" where
  "chunk_from sha256 codePoints start chunks =
     (if start < length codePoints then
        (let content = take CHUNK_SIZE (drop start codePoints) in
         chunk_from sha256 codePoints (start + CHUNK_STEP)
           (if content = [] then chunks
            else chunks @ [\<lparr>kc_ordinal = length chunks, kc_content = content, kc_contentUnits = contentUnits content,
              kc_contentHash = sha256 content\<rparr>]))
      else Some chunks)"

definition chunkMerchantKnowledgeText :: "(code_points \<Rightarrow> string) \<Rightarrow> code_points \<Rightarrow> knowledge_chunk list option" where
  "chunkMerchantKnowledgeText sha256 content = chunk_from sha256 content 0 []"

section \<open>The chunks of a text\<close>

definition chunk_at :: "(code_points \<Rightarrow> string) \<Rightarrow> code_points \<Rightarrow> nat \<Rightarrow> knowledge_chunk" where
  "chunk_at sha256 s i =
     (let content = take CHUNK_SIZE (drop (i * CHUNK_STEP) s) in
      \<lparr>kc_ordinal = i, kc_content = content, kc_contentUnits = contentUnits content, kc_contentHash = sha256 content\<rparr>)"

definition chunk_count :: "nat \<Rightarrow> nat" where
  "chunk_count n = (n + CHUNK_STEP - 1) div CHUNK_STEP"

lemma chunk_sizes [simp]: "0 < CHUNK_STEP" "0 < CHUNK_SIZE" "CHUNK_STEP \<le> CHUNK_SIZE" "CHUNK_SIZE \<noteq> 0"
  by (simp_all add: CHUNK_STEP_def CHUNK_SIZE_def)

lemma chunk_count_less: "i < chunk_count n \<longleftrightarrow> i * CHUNK_STEP < n"
  unfolding chunk_count_def CHUNK_STEP_def less_eq_Suc_le [of i]
  by (subst less_eq_div_iff_mult_less_eq) auto

lemma chunk_from_loop:
  "i \<le> chunk_count (length s) \<Longrightarrow>
   chunk_from sha256 s (i * CHUNK_STEP) (map (chunk_at sha256 s) [0..<i]) =
     Some (map (chunk_at sha256 s) [0..<chunk_count (length s)])"
proof (induction "chunk_count (length s) - i" arbitrary: i)
  case 0
  then have "i = chunk_count (length s)" by simp
  moreover from this have "\<not> i * CHUNK_STEP < length s" by (simp flip: chunk_count_less)
  ultimately show ?case by (simp add: chunk_from.simps)
next
  case (Suc n)
  then have i: "i < chunk_count (length s)" by simp
  then have start: "i * CHUNK_STEP < length s" by (simp add: chunk_count_less)
  have "take CHUNK_SIZE (drop (i * CHUNK_STEP) s) \<noteq> []" using start by (auto simp: CHUNK_SIZE_def)
  then have "chunk_from sha256 s (i * CHUNK_STEP) (map (chunk_at sha256 s) [0..<i]) =
      chunk_from sha256 s (Suc i * CHUNK_STEP) (map (chunk_at sha256 s) [0..<Suc i])"
    using start by (subst chunk_from.simps) (simp add: Let_def chunk_at_def add.commute)
  also have "\<dots> = Some (map (chunk_at sha256 s) [0..<chunk_count (length s)])"
    using Suc i by (intro Suc(1)) auto
  finally show ?case .
qed

lemma chunk_result:
  "chunkMerchantKnowledgeText sha256 s = Some (map (chunk_at sha256 s) [0..<chunk_count (length s)])"
  using chunk_from_loop [of 0 s sha256] by (simp add: chunkMerchantKnowledgeText_def)

text \<open>Joining the first thousand code points of every chunk gives the text back.\<close>

lemma join_steps:
  "concat (map (\<lambda>i. take CHUNK_STEP (drop (i * CHUNK_STEP) s)) [0..<n]) = take (n * CHUNK_STEP) s"
proof (induction n)
  case (Suc n)
  have "Suc n * CHUNK_STEP = n * CHUNK_STEP + CHUNK_STEP" by simp
  then show ?case using Suc by (simp only: take_add upt_Suc_append le0 map_append concat_append) simp
qed simp

lemma chunk_count_covers: "n \<le> chunk_count n * CHUNK_STEP"
  using chunk_count_less [of "chunk_count n" n] by (simp add: not_less)

lemma join_chunks:
  "concat (map (\<lambda>i. take CHUNK_STEP (kc_content (chunk_at sha256 s i))) [0..<chunk_count (length s)]) = s"
proof -
  have "take CHUNK_STEP (kc_content (chunk_at sha256 s i)) = take CHUNK_STEP (drop (i * CHUNK_STEP) s)" for i
    by (simp add: chunk_at_def Let_def min_def)
  then show ?thesis using chunk_count_covers by (simp add: join_steps)
qed

lemma chunk_overlap:
  assumes "Suc i < chunk_count (length s)"
  shows "drop CHUNK_STEP (kc_content (chunk_at sha256 s i)) =
    take (CHUNK_SIZE - CHUNK_STEP) (kc_content (chunk_at sha256 s (Suc i)))"
  by (simp add: chunk_at_def Let_def drop_take min_def CHUNK_SIZE_def CHUNK_STEP_def algebra_simps)

lemma contentUnits_bound: "length s \<le> 4 * n \<Longrightarrow> contentUnits s \<le> n"
  by (simp add: contentUnits_def)

lemma chunk_at_bounds:
  assumes "i < chunk_count (length s)"
  shows "kc_content (chunk_at sha256 s i) \<noteq> []" "length (kc_content (chunk_at sha256 s i)) \<le> CHUNK_SIZE"
    "0 < kc_contentUnits (chunk_at sha256 s i)" "kc_contentUnits (chunk_at sha256 s i) \<le> 300"
proof -
  have "i * CHUNK_STEP < length s" using assms by (simp add: chunk_count_less)
  then show ne: "kc_content (chunk_at sha256 s i) \<noteq> []" by (auto simp: chunk_at_def Let_def CHUNK_SIZE_def)
  show len: "length (kc_content (chunk_at sha256 s i)) \<le> CHUNK_SIZE" by (simp add: chunk_at_def Let_def)
  have units: "kc_contentUnits (chunk_at sha256 s i) = contentUnits (kc_content (chunk_at sha256 s i))"
    by (simp add: chunk_at_def Let_def)
  show "kc_contentUnits (chunk_at sha256 s i) \<le> 300" using len unfolding units by (intro contentUnits_bound) (simp add: CHUNK_SIZE_def)
  show "0 < kc_contentUnits (chunk_at sha256 s i)"
    using ne unfolding units by (cases "kc_content (chunk_at sha256 s i)") (simp_all add: contentUnits_def)
qed

section \<open>The normal form\<close>

definition good_pair :: "nat \<Rightarrow> nat \<Rightarrow> bool" where
  "good_pair a b \<longleftrightarrow> \<not> (a = SPACE \<and> (b = SPACE \<or> b = LF)) \<and> \<not> (a = LF \<and> b = SPACE)"

definition not_both_spaces :: "nat \<Rightarrow> nat \<Rightarrow> bool" where
  "not_both_spaces a b \<longleftrightarrow> \<not> (a = SPACE \<and> b = SPACE)"

text \<open>At most two line feeds in a row, after \<open>n\<close> of them.\<close>

fun lines_ok :: "nat \<Rightarrow> code_points \<Rightarrow> bool" where
  "lines_ok n [] = True"
| "lines_ok n (c # s) = (if c = LF then n < 2 \<and> lines_ok (n + 1) s else lines_ok 0 s)"

definition canonical_text :: "code_points \<Rightarrow> bool" where
  "canonical_text s \<longleftrightarrow>
     list_all (\<lambda>c. white_space c \<longrightarrow> c = LF \<or> c = SPACE) s \<and> successively good_pair s \<and> lines_ok 0 s \<and>
     (s \<noteq> [] \<longrightarrow> \<not> outer_blank (hd s) \<and> \<not> outer_blank (last s))"

lemma blank_codes [simp]: "LF \<noteq> SPACE" "SPACE \<noteq> LF" "white_space LF" "white_space SPACE" "LF \<noteq> 13" "SPACE \<noteq> 13" "white_space 13"
  by (simp_all add: LF_def SPACE_def white_space_def)

lemma good_not_both: "good_pair a b \<Longrightarrow> not_both_spaces a b"
  by (auto simp: good_pair_def not_both_spaces_def)

lemma successively_suffix: "successively P (xs @ ys) \<Longrightarrow> successively P ys"
  by (simp add: successively_append_iff)

lemma successively_prefix: "successively P (xs @ ys) \<Longrightarrow> successively P xs"
  by (simp add: successively_append_iff)

lemma successively_dropWhile: "successively P xs \<Longrightarrow> successively P (dropWhile Q xs)"
  by (metis successively_suffix takeWhile_dropWhile_id)

lemma pop_spaces_prefix: "\<exists>sp. out = pop_spaces out @ sp"
  unfolding pop_spaces_def by (metis rev_append rev_rev_ident takeWhile_dropWhile_id)

lemma pop_spaces_last: "pop_spaces out \<noteq> [] \<Longrightarrow> last (pop_spaces out) \<noteq> SPACE"
  using hd_dropWhile [of "\<lambda>c. c = SPACE" "rev out"] by (simp add: pop_spaces_def last_rev)

lemma collapse_spaces_skip:
  "c = SPACE \<and> out \<noteq> [] \<and> last out = SPACE \<Longrightarrow> collapse_spaces out (c # s) = collapse_spaces out s"
  by simp

lemma collapse_spaces_keep:
  "\<not> (c = SPACE \<and> out \<noteq> [] \<and> last out = SPACE) \<Longrightarrow> collapse_spaces out (c # s) = collapse_spaces (out @ [c]) s"
  by (simp only: collapse_spaces.simps if_False)

lemma collapse_spaces_pairs:
  "successively not_both_spaces out \<Longrightarrow> successively not_both_spaces (collapse_spaces out s)"
proof (induction s arbitrary: out)
  case (Cons c s)
  show ?case
  proof (cases "c = SPACE \<and> out \<noteq> [] \<and> last out = SPACE")
    case True
    then show ?thesis unfolding collapse_spaces_skip [OF True] by (intro Cons.IH Cons.prems)
  next
    case False
    have "successively not_both_spaces (out @ [c])"
      unfolding successively_append_iff using Cons.prems False by (auto simp: not_both_spaces_def)
    then show ?thesis unfolding collapse_spaces_keep [OF False] by (rule Cons.IH)
  qed
qed simp

lemma clean_lines_pairs:
  "successively good_pair out \<Longrightarrow> successively not_both_spaces s \<Longrightarrow>
   (out \<noteq> [] \<Longrightarrow> s \<noteq> [] \<Longrightarrow> last out = LF \<or> last out = SPACE \<Longrightarrow> hd s \<noteq> SPACE) \<Longrightarrow>
   successively good_pair (clean_lines out s)"
proof (induction out s rule: clean_lines.induct)
  case (2 out c s)
  show ?case
  proof (cases "c = LF")
    case True
    obtain sp where "out = pop_spaces out @ sp" using pop_spaces_prefix by blast
    then have "successively good_pair (pop_spaces out)" using 2(3) successively_prefix by metis
    then have "successively good_pair (pop_spaces out @ [LF])"
      using pop_spaces_last [of out] by (auto simp: successively_append_iff good_pair_def)
    moreover have "successively not_both_spaces (dropWhile (\<lambda>c. c = SPACE) s)"
      by (rule successively_dropWhile) (use 2(4) in \<open>cases s; simp\<close>)
    moreover have "hd (dropWhile (\<lambda>c. c = SPACE) s) \<noteq> SPACE" if "dropWhile (\<lambda>c. c = SPACE) s \<noteq> []"
      using hd_dropWhile [OF that] by simp
    ultimately have "successively good_pair (clean_lines (pop_spaces out @ [LF]) (dropWhile (\<lambda>c. c = SPACE) s))"
      by (intro 2(1) [OF True]) auto
    then show ?thesis using True by simp
  next
    case False
    have "successively good_pair (out @ [c])"
      using 2(3,5) False by (auto simp: successively_append_iff good_pair_def)
    moreover have "successively not_both_spaces s" "s \<noteq> [] \<Longrightarrow> c = SPACE \<Longrightarrow> hd s \<noteq> SPACE"
      using 2(4) by (cases s; simp add: not_both_spaces_def)+
    ultimately have "successively good_pair (clean_lines (out @ [c]) s)"
      using False by (intro 2(2) [OF False]) auto
    then show ?thesis using False by simp
  qed
qed simp

lemma collapse_lines_pairs:
  "successively good_pair out \<Longrightarrow> successively good_pair s \<Longrightarrow>
   (out \<noteq> [] \<Longrightarrow> s \<noteq> [] \<Longrightarrow> good_pair (last out) (hd s)) \<Longrightarrow> (0 < n \<Longrightarrow> out \<noteq> [] \<and> last out = LF) \<Longrightarrow>
   successively good_pair (collapse_lines n out s)"
proof (induction n out s rule: collapse_lines.induct)
  case (2 n out c s)
  have s: "successively good_pair s" "s \<noteq> [] \<Longrightarrow> good_pair c (hd s)" using 2(5) by (cases s; simp)+
  have out: "successively good_pair (out @ [c])" using 2(4,6) by (auto simp: successively_append_iff)
  show ?case
  proof (cases "c = LF")
    case LF: True
    show ?thesis
    proof (cases "2 < n + 1")
      case True
      then have "successively good_pair (collapse_lines (n + 1) out s)"
        using 2(1) [OF LF True 2(4)] s 2(7) LF by auto
      then show ?thesis using LF True by simp
    next
      case False
      have "successively good_pair (collapse_lines (n + 1) (out @ [c]) s)"
        using 2(2) [OF LF False out] s LF by auto
      then show ?thesis using LF False by simp
    qed
  next
    case False
    have "successively good_pair (collapse_lines 0 (out @ [c]) s)"
      using 2(3) [OF False out] s by auto
    then show ?thesis using False by simp
  qed
qed simp

lemma collapse_lines_ok: "\<exists>rest. collapse_lines n out s = out @ rest \<and> lines_ok (min n 2) rest"
proof (induction n out s rule: collapse_lines.induct)
  case (2 n out c s)
  show ?case
  proof (cases "c = LF")
    case LF: True
    show ?thesis
    proof (cases "2 < n + 1")
      case True
      have "min (n + 1) 2 = min n 2" using True by simp
      moreover have "collapse_lines n out (c # s) = collapse_lines (n + 1) out s"
        by (simp only: collapse_lines.simps LF True if_True refl)
      ultimately show ?thesis using 2(1) [OF LF True] by metis
    next
      case False
      then obtain rest where "collapse_lines (n + 1) (out @ [c]) s = (out @ [c]) @ rest" "lines_ok (min (n + 1) 2) rest"
        using 2(2) [OF LF False] by blast
      then show ?thesis using LF False by (intro exI [of _ "c # rest"]) (auto simp: min_def split: if_splits)
    qed
  next
    case False
    then obtain rest where "collapse_lines 0 (out @ [c]) s = (out @ [c]) @ rest" "lines_ok (min 0 2) rest"
      using 2(3) [OF False] by blast
    then show ?thesis using False by (intro exI [of _ "c # rest"]) auto
  qed
qed simp

lemma lines_ok_mono: "lines_ok n s \<Longrightarrow> m \<le> n \<Longrightarrow> lines_ok m s"
  by (induction n s arbitrary: m rule: lines_ok.induct) (auto split: if_splits)

lemma lines_ok_append: "lines_ok n (xs @ ys) \<Longrightarrow> lines_ok n xs \<and> lines_ok 0 ys"
proof (induction xs arbitrary: n)
  case Nil
  then show ?case using lines_ok_mono [of n ys 0] by simp
next
  case (Cons c xs)
  then show ?case by (auto split: if_splits)
qed

lemma trim_blanks_split: "\<exists>a b. s = a @ trim_blanks s @ b"
proof -
  have "dropWhile outer_blank s = trim_blanks s @ rev (takeWhile outer_blank (rev (dropWhile outer_blank s)))"
    unfolding trim_blanks_def by (metis rev_append rev_rev_ident takeWhile_dropWhile_id)
  then show ?thesis by (metis takeWhile_dropWhile_id)
qed

lemma trim_blanks_ends:
  assumes "trim_blanks s \<noteq> []"
  shows "\<not> outer_blank (hd (trim_blanks s)) \<and> \<not> outer_blank (last (trim_blanks s))"
proof -
  let ?m = "dropWhile outer_blank s"
  have "\<not> outer_blank (last (trim_blanks s))"
    using assms hd_dropWhile [of outer_blank "rev ?m"] by (simp add: trim_blanks_def last_rev)
  moreover have "?m \<noteq> []" using assms by (metis dropWhile.simps(1) rev.simps(1) trim_blanks_def)
  then have "hd (trim_blanks s) = hd ?m"
    using assms unfolding trim_blanks_def
    by (metis hd_append2 rev_append rev_is_Nil_conv rev_rev_ident takeWhile_dropWhile_id)
  then have "\<not> outer_blank (hd (trim_blanks s))" using hd_dropWhile [OF \<open>?m \<noteq> []\<close>] by simp
  ultimately show ?thesis by blast
qed

lemma set_trim_blanks: "set (trim_blanks s) \<subseteq> set s"
  using trim_blanks_split [of s] by (metis Un_iff set_append subsetI)

lemma set_pop_spaces: "set (pop_spaces s) \<subseteq> set s"
  using pop_spaces_prefix [of s] by (metis Un_iff set_append subsetI)

lemma set_collapse_spaces: "set (collapse_spaces out s) \<subseteq> set out \<union> set s"
  by (induction out s rule: collapse_spaces.induct) (auto split: if_splits)

lemma set_clean_lines: "set (clean_lines out s) \<subseteq> set out \<union> set s \<union> {LF}"
proof (induction out s rule: clean_lines.induct)
  case (2 out c s)
  show ?case
  proof (cases "c = LF")
    case True
    have "set (dropWhile (\<lambda>c. c = SPACE) s) \<subseteq> set s" using set_dropWhileD by fast
    then show ?thesis using 2(1) [OF True] set_pop_spaces [of out] True by auto
  next
    case False
    then show ?thesis using 2(2) [OF False] by auto
  qed
qed auto

lemma set_collapse_lines: "set (collapse_lines n out s) \<subseteq> set out \<union> set s"
  by (induction n out s rule: collapse_lines.induct) (auto split: if_splits)

lemma no_cr: "13 \<notin> set (cr_to_lf s)"
  by (auto simp: cr_to_lf_def)

lemma converted_white: "c \<in> set (convert_spaces s) \<Longrightarrow> white_space c \<Longrightarrow> c = LF \<or> c = SPACE"
  by (auto simp: convert_spaces_def split: if_splits)

lemma normalize_canonical: "canonical_text (normalize_text nfc input)"
proof -
  define a where "a = convert_spaces (cr_to_lf (crlf_to_lf (nfc input)))"
  define b where "b = clean_lines [] (collapse_spaces [] a)"
  define d where "d = collapse_lines 0 [] b"
  have out: "normalize_text nfc input = trim_blanks d" by (simp add: normalize_text_def a_def b_def d_def)
  have white: "c = LF \<or> c = SPACE" if "c \<in> set d" "white_space c" for c
    using that set_collapse_lines [of 0 "[]" b] set_clean_lines [of "[]" "collapse_spaces [] a"]
      set_collapse_spaces [of "[]" a] converted_white [of c "cr_to_lf (crlf_to_lf (nfc input))"]
    unfolding a_def b_def d_def by fastforce
  have "successively good_pair b" unfolding b_def by (rule clean_lines_pairs) (simp_all add: collapse_spaces_pairs)
  then have pairs: "successively good_pair d" unfolding d_def by (intro collapse_lines_pairs) auto
  have lines: "lines_ok 0 d" using collapse_lines_ok [of 0 "[]" b] unfolding d_def by auto
  obtain x y where split: "d = x @ trim_blanks d @ y" using trim_blanks_split by blast
  have "successively good_pair (trim_blanks d)"
    using pairs split by (metis successively_prefix successively_suffix)
  moreover have "lines_ok 0 (trim_blanks d)" using lines split lines_ok_append by metis
  moreover have "list_all (\<lambda>c. white_space c \<longrightarrow> c = LF \<or> c = SPACE) (trim_blanks d)"
    using white set_trim_blanks [of d] by (auto simp: list_all_iff)
  ultimately show ?thesis using trim_blanks_ends [of d] by (simp add: canonical_text_def out)
qed

section \<open>A canonical text is left alone\<close>

lemma crlf_to_lf_id: "13 \<notin> set s \<Longrightarrow> crlf_to_lf s = s"
  by (induction s rule: crlf_to_lf.induct) auto

lemma cr_to_lf_id: "13 \<notin> set s \<Longrightarrow> cr_to_lf s = s"
  by (induction s) (auto simp: cr_to_lf_def)

lemma convert_spaces_id: "list_all (\<lambda>c. white_space c \<longrightarrow> c = LF \<or> c = SPACE) s \<Longrightarrow> convert_spaces s = s"
  by (induction s) (auto simp: convert_spaces_def)

lemma collapse_spaces_id: "successively not_both_spaces (out @ s) \<Longrightarrow> collapse_spaces out s = out @ s"
proof (induction s arbitrary: out)
  case (Cons c s)
  then have "\<not> (c = SPACE \<and> out \<noteq> [] \<and> last out = SPACE)"
    by (auto simp: successively_append_iff not_both_spaces_def)
  then have "collapse_spaces out (c # s) = collapse_spaces (out @ [c]) s" by (rule collapse_spaces_keep)
  then show ?case using Cons.IH [of "out @ [c]"] Cons.prems by simp
qed simp

lemma pop_spaces_id: "(out \<noteq> [] \<Longrightarrow> last out \<noteq> SPACE) \<Longrightarrow> pop_spaces out = out"
  by (cases out rule: rev_cases) (auto simp: pop_spaces_def)

lemma dropWhile_id: "(s \<noteq> [] \<Longrightarrow> \<not> P (hd s)) \<Longrightarrow> dropWhile P s = s"
  by (cases s) auto

lemma clean_lines_id: "successively good_pair (out @ s) \<Longrightarrow> clean_lines out s = out @ s"
proof (induction s arbitrary: out)
  case (Cons c s)
  have rest: "clean_lines (out @ [c]) s = (out @ [c]) @ s" using Cons.IH [of "out @ [c]"] Cons.prems by simp
  show ?case
  proof (cases "c = LF")
    case True
    have "pop_spaces out = out"
      using Cons.prems True by (intro pop_spaces_id) (auto simp: successively_append_iff good_pair_def)
    moreover have "dropWhile (\<lambda>c. c = SPACE) s = s"
      using Cons.prems True by (intro dropWhile_id) (cases s, auto simp: successively_append_iff good_pair_def)
    ultimately show ?thesis using rest True by simp
  qed (use rest in simp)
qed simp

lemma collapse_lines_id: "lines_ok n s \<Longrightarrow> collapse_lines n out s = out @ s"
  by (induction n s arbitrary: out rule: lines_ok.induct) (auto split: if_splits)

lemma trim_blanks_id: "(s \<noteq> [] \<Longrightarrow> \<not> outer_blank (hd s) \<and> \<not> outer_blank (last s)) \<Longrightarrow> trim_blanks s = s"
  by (cases s rule: rev_cases) (auto simp: trim_blanks_def dropWhile_id hd_append split: if_splits)

lemma normalize_fixed:
  assumes "canonical_text s" "nfc s = s"
  shows "normalize_text nfc s = s"
proof -
  have s: "list_all (\<lambda>c. white_space c \<longrightarrow> c = LF \<or> c = SPACE) s" "successively good_pair s" "lines_ok 0 s"
    "s \<noteq> [] \<longrightarrow> \<not> outer_blank (hd s) \<and> \<not> outer_blank (last s)"
    using assms(1) by (simp_all add: canonical_text_def)
  have cr: "13 \<notin> set s"
  proof
    assume "13 \<in> set s"
    then have "(13::nat) = LF \<or> (13::nat) = SPACE" using s(1) blank_codes(7) unfolding list_all_iff by blast
    then show False by (simp add: LF_def SPACE_def)
  qed
  have pairs: "successively not_both_spaces s"
    using s(2) by (rule successively_mono) (rule good_not_both)
  have "clean_lines [] s = s" "collapse_spaces [] s = s" "collapse_lines 0 [] s = s" "trim_blanks s = s"
    using clean_lines_id [of "[]" s] collapse_spaces_id [of "[]" s] collapse_lines_id [of 0 s "[]"] trim_blanks_id [of s] s pairs
    by simp_all
  then show ?thesis
    unfolding normalize_text_def assms(2) crlf_to_lf_id [OF cr] cr_to_lf_id [OF cr] convert_spaces_id [OF s(1)] by simp
qed

section \<open>Nothing but white space is lost\<close>

definition visible :: "code_points \<Rightarrow> code_points" where
  "visible s = filter (\<lambda>c. \<not> white_space c) s"

lemma visible_simps [simp]:
  "visible [] = []" "visible (c # s) = (if white_space c then visible s else c # visible s)"
  "visible (s @ t) = visible s @ visible t"
  by (simp_all add: visible_def)

lemma visible_dropWhile: "(\<And>c. P c \<Longrightarrow> white_space c) \<Longrightarrow> visible (dropWhile P s) = visible s"
  by (induction s) auto

lemma visible_rev: "visible (rev s) = rev (visible s)"
  by (simp add: visible_def rev_filter)

lemma visible_trimmed: "(\<And>c. P c \<Longrightarrow> white_space c) \<Longrightarrow> visible (rev (dropWhile P (rev s))) = visible s"
  by (simp add: visible_rev visible_dropWhile)

lemma visible_pop: "visible (pop_spaces s) = visible s"
  unfolding pop_spaces_def by (rule visible_trimmed) simp

lemma visible_spaces: "visible (dropWhile (\<lambda>c. c = SPACE) s) = visible s"
  by (rule visible_dropWhile) simp

lemma visible_blanks: "visible (dropWhile outer_blank s) = visible s" "visible (rev (dropWhile outer_blank (rev s))) = visible s"
  by (rule visible_dropWhile visible_trimmed, auto simp: outer_blank_def)+

lemma visible_crlf: "visible (crlf_to_lf s) = visible s"
  by (induction s rule: crlf_to_lf.induct) auto

lemma visible_cr: "visible (cr_to_lf s) = visible s"
  by (induction s) (auto simp: cr_to_lf_def)

lemma visible_convert: "visible (convert_spaces s) = visible s"
  by (induction s) (auto simp: convert_spaces_def)

lemma visible_collapse_spaces: "visible (collapse_spaces out s) = visible out @ visible s"
  by (induction out s rule: collapse_spaces.induct) auto

lemma visible_clean_lines: "visible (clean_lines out s) = visible out @ visible s"
  by (induction out s rule: clean_lines.induct) (simp_all add: visible_pop visible_spaces)

lemma visible_collapse_lines: "visible (collapse_lines n out s) = visible out @ visible s"
  by (induction n out s rule: collapse_lines.induct) auto

lemma visible_trim: "visible (trim_blanks s) = visible s"
  by (simp only: trim_blanks_def visible_blanks)

lemma normalize_visible: "visible (normalize_text nfc input) = visible (nfc input)"
  by (simp add: normalize_text_def visible_trim visible_collapse_lines visible_clean_lines visible_collapse_spaces
      visible_convert visible_cr visible_crlf)

end
