(* ===== verification/Knowledge_Properties.thy ===== *)
theory Knowledge_Properties
  imports Knowledge_Text
begin

text \<open>The properties of the texts of merchant knowledge.\<close>

text \<open>
  The normalization brings every text into a normal form: no white space but single spaces and line feeds, no space
  beside a line feed, at most two line feeds in a row, nothing blank at either end; it loses nothing but white space,
  and it leaves a text in normal form alone.
\<close>

theorem text_is_brought_into_normal_form:
  "canonical_text (normalize_text nfc input) \<and> visible (normalize_text nfc input) = visible (nfc input) \<and>
   normalize_text id (normalize_text nfc input) = normalize_text nfc input"
  by (simp add: normalize_canonical normalize_visible normalize_fixed)

text \<open>
  C28. The chunking ends for every text: with one chunk for every thousand code points begun, numbered in order, none
  empty, none longer than 1200 code points or worth more than 300 units, each beginning with what the one before it has
  beyond a thousand; the first thousand of every chunk, joined, are the text.
\<close>

theorem chunking_ends_and_covers_the_text:
  "\<exists>chunks. chunkMerchantKnowledgeText sha256 s = Some chunks \<and>
     length chunks = (length s + 999) div 1000 \<and> map kc_ordinal chunks = [0..<length chunks] \<and>
     concat (map (\<lambda>k. take 1000 (kc_content k)) chunks) = s \<and>
     list_all (\<lambda>k. kc_content k \<noteq> [] \<and> length (kc_content k) \<le> 1200 \<and> 0 < kc_contentUnits k \<and> kc_contentUnits k \<le> 300 \<and>
       kc_contentHash k = sha256 (kc_content k)) chunks \<and>
     successively (\<lambda>a b. drop 1000 (kc_content a) = take 200 (kc_content b)) chunks"
proof (intro exI conjI)
  let ?n = "chunk_count (length s)" and ?chunks = "map (chunk_at sha256 s) [0..<chunk_count (length s)]"
  show "chunkMerchantKnowledgeText sha256 s = Some ?chunks" by (rule chunk_result)
  show "length ?chunks = (length s + 999) div 1000" by (simp add: chunk_count_def CHUNK_STEP_def)
  show "map kc_ordinal ?chunks = [0..<length ?chunks]" by (simp add: chunk_at_def Let_def comp_def)
  show "concat (map (\<lambda>k. take 1000 (kc_content k)) ?chunks) = s"
    using join_chunks [of sha256 s] by (simp add: comp_def CHUNK_STEP_def)
  show "list_all (\<lambda>k. kc_content k \<noteq> [] \<and> length (kc_content k) \<le> 1200 \<and> 0 < kc_contentUnits k \<and> kc_contentUnits k \<le> 300 \<and>
       kc_contentHash k = sha256 (kc_content k)) ?chunks"
    using chunk_at_bounds [of _ s sha256] by (auto simp: list_all_iff CHUNK_SIZE_def) (simp add: chunk_at_def Let_def)
  show "successively (\<lambda>a b. drop 1000 (kc_content a) = take 200 (kc_content b)) ?chunks"
    using chunk_overlap [of _ s sha256] by (simp add: successively_conv_nth CHUNK_SIZE_def CHUNK_STEP_def)
qed

end
