(* ===== verification/Outbound_Admission.thy ===== *)
theory Outbound_Admission
  imports Provider_Status Recipient_Reachability
begin

text \<open>
  The admission of automated WhatsApp messages: the serializable reservation of
  \<open>src/services/outbound-whatsapp-admission/outbound-admission-reservation.service.ts\<close> with the policy of
  \<open>outbound-admission-policy.service.ts\<close> and the idempotency fence of \<open>failed-outreach-admission.ts\<close>, and
  the lookup that says where the initial message of a recovery stands. An admitted message is a pending row
  with one usage event; the usage events of a conversation are what its limit counts.
\<close>

section \<open>The rows\<close>

datatype conversation_type = CONVERSATION_RECOVERY | CONVERSATION_OTHER

datatype control_mode = CONTROL_AI | CONTROL_HUMAN

datatype recovery_status =
    RECOVERY_DETECTED | RECOVERY_MESSAGE_SENT | RECOVERY_ENGAGED | RECOVERY_COMPLETED | RECOVERY_EXPIRED
  | RECOVERY_CANCELLED

datatype outreach_trigger = INITIAL | NO_RESPONSE_FOLLOW_UP | POST_WINDOW_FOLLOW_UP

record outbound_message = message +
  om_content :: string
  om_providerDispatchKey :: "string option"
  om_providerDispatchAdmittedAt :: "time option"
  om_providerDispatchControlRevision :: "int option"

record outbound_attempt = outreach_attempt +
  at_trigger :: outreach_trigger
  at_sentAt :: "time option"
  at_followUpDueAt :: "time option"

record outbound_conversation =
  oc_id :: id
  oc_type :: conversation_type
  oc_shopId :: "id option"
  oc_checkoutRecoveryId :: "id option"
  oc_controlMode :: control_mode
  oc_controlRevision :: int
  oc_inboundVersion :: int
  oc_lastMessageAt :: "time option"

record checkout_recovery =
  crv_id :: id
  crv_shopId :: id
  crv_status :: recovery_status

text \<open>A phone of a customer, with the shop of the customer and its country as the query joins them.\<close>

record customer_phone =
  cph_shopId :: id
  cph_phone :: string
  cph_whatsappCanonicalPhone :: "string option"
  cph_ended :: bool
  cph_whatsappNoContact :: bool
  cph_defaultCountryCode :: "string option"

record outbound_db =
  ob_db :: db
  ob_messages :: "outbound_message table"
  ob_conversations :: "outbound_conversation table"
  ob_recoveries :: "checkout_recovery table"
  ob_attempts :: "outbound_attempt table"
  ob_commands :: "send_command table"
  ob_phones :: "customer_phone table"
  ob_reachability :: "reachability table"

text \<open>
  What is used of the database's column defaults, of Node's SHA-256 digest and of the phone parser of the
  shared package (the number and a country; the E.164 form, or nothing).
\<close>

record outbound_library =
  ol_default_provider :: platform
  ol_default_reportState :: report_state
  ol_sha256 :: "string \<Rightarrow> string"
  ol_normalizeRecipientPhone :: "string \<Rightarrow> string option \<Rightarrow> string option"

definition find_outbound :: "outbound_db \<Rightarrow> id \<Rightarrow> outbound_message option" where
  "find_outbound D i = find_row (\<lambda>m. cm_id m = i) (ob_messages D)"

definition find_outbound_conversation :: "outbound_db \<Rightarrow> id \<Rightarrow> outbound_conversation option" where
  "find_outbound_conversation D i = find_row (\<lambda>c. oc_id c = i) (ob_conversations D)"

definition find_recovery :: "outbound_db \<Rightarrow> id option \<Rightarrow> checkout_recovery option" where
  "find_recovery D i = Option.bind i (\<lambda>k. find_row (\<lambda>r. crv_id r = k) (ob_recoveries D))"

definition find_outbound_attempt :: "outbound_db \<Rightarrow> id \<Rightarrow> outbound_attempt option" where
  "find_outbound_attempt D i = find_row (\<lambda>a. oa_id a = i) (ob_attempts D)"

definition attempt_of_outbound :: "outbound_db \<Rightarrow> id \<Rightarrow> outbound_attempt option" where
  "attempt_of_outbound D messageId = find_row (\<lambda>a. oa_outboundMessageId a = Some messageId) (ob_attempts D)"

definition has_send_command :: "outbound_db \<Rightarrow> id \<Rightarrow> bool" where
  "has_send_command D messageId \<longleftrightarrow> find_row (\<lambda>c. cmd_outboundMessageId c = Some messageId) (ob_commands D) \<noteq> None"

definition find_usage_by_key :: "outbound_db \<Rightarrow> string \<Rightarrow> usage_event option" where
  "find_usage_by_key D key = find_row (\<lambda>e. ue_idempotencyKey e = key) (db_usageEvents (ob_db D))"

definition outreach_key :: "id \<Rightarrow> string" where
  "outreach_key attemptId = ''recovery-outreach:'' @ attemptId"

definition has_no_permit :: "outbound_message \<Rightarrow> bool" where
  "has_no_permit m \<longleftrightarrow> om_providerDispatchKey m = None \<and> om_providerDispatchAdmittedAt m = None \<and>
     om_providerDispatchControlRevision m = None"

definition has_full_permit :: "outbound_message \<Rightarrow> bool" where
  "has_full_permit m \<longleftrightarrow> om_providerDispatchKey m \<noteq> None \<and> om_providerDispatchAdmittedAt m \<noteq> None \<and>
     om_providerDispatchControlRevision m \<noteq> None"

section \<open>Failed outreach\<close>

definition failed_initial_code :: "outbound_attempt \<Rightarrow> bool" where
  "failed_initial_code a \<longleftrightarrow> oa_sequence a = 1 \<and> at_trigger a = INITIAL \<and>
     (oa_failureCode a = Some ''PRE_PROVIDER_REFUSED'' \<or> oa_failureCode a = Some ''PROVIDER_REJECTED'')"

definition failed_recipient_outreach :: "outbound_db \<Rightarrow> string \<Rightarrow> (id \<times> outbound_message) option" where
  "failed_recipient_outreach D idempotencyKey =
     Option.bind (match_attempt_key idempotencyKey) (\<lambda>attemptId.
     Option.bind (find_outbound_attempt D attemptId) (\<lambda>a.
     Option.bind (find_recovery D (Some (oa_checkoutRecoveryId a))) (\<lambda>recovery.
     Option.bind (Option.bind (oa_outboundMessageId a) (find_outbound D)) (\<lambda>m.
     if cm_status m \<noteq> MSG_FAILED \<or>
        (\<not> is_recipient_undeliverable (cm_providerFailureCode m) \<and> \<not> failed_initial_code a)
     then None else Some (crv_shopId recovery, m)))))"

definition find_existing_admission :: "outbound_db \<Rightarrow> string \<Rightarrow> outbound_message option" where
  "find_existing_admission D idempotencyKey =
     (let source = Option.bind (find_usage_by_key D idempotencyKey) ue_sourceId in
      if \<not> truthy source then map_option snd (failed_recipient_outreach D idempotencyKey)
      else find_outbound D (the source))"

section \<open>Where the initial message stands\<close>

record initial_scope =
  in_shopId :: id
  in_recoveryId :: id
  in_outreachAttemptId :: id

datatype failed_disposition = Pre_Permit_Refused | Provider_Rejected | Recipient_Unreachable

datatype initial_lookup =
    Initial_Absent
  | Initial_Prepared outbound_message
  | Initial_Confirmed outbound_message
  | Initial_Failed outbound_message failed_disposition
  | Initial_Outcome_Unknown
  | Initial_Lineage_Conflict

definition is_initial_attempt :: "outbound_db \<Rightarrow> initial_scope \<Rightarrow> outbound_attempt \<Rightarrow> bool" where
  "is_initial_attempt D scope a \<longleftrightarrow> oa_sequence a = 1 \<and> at_trigger a = INITIAL \<and>
     oa_checkoutRecoveryId a = in_recoveryId scope \<and>
     map_option crv_shopId (find_recovery D (Some (oa_checkoutRecoveryId a))) = Some (in_shopId scope) \<and>
     oa_recipient a \<noteq> []"

definition usage_conflicts :: "initial_scope \<Rightarrow> outbound_attempt \<Rightarrow> usage_event \<Rightarrow> bool" where
  "usage_conflicts scope a u \<longleftrightarrow> \<not> truthy (ue_sourceId u) \<or> ue_shopId u \<noteq> in_shopId scope \<or>
     ue_metric u \<noteq> OUTBOUND_AUTOMATED_MESSAGE \<or> ue_sourceType u \<noteq> Some ''OUTBOUND_AUTOMATED_MESSAGE'' \<or>
     ue_quantity u \<noteq> 1 \<or> (truthy (oa_outboundMessageId a) \<and> oa_outboundMessageId a \<noteq> ue_sourceId u)"

definition is_eligible_attempt :: "outbound_db \<Rightarrow> outbound_attempt \<Rightarrow> bool" where
  "is_eligible_attempt D a \<longleftrightarrow> oa_status a \<in> {OUTREACH_PENDING, OUTREACH_CAPACITY_BLOCKED} \<and>
     map_option crv_status (find_recovery D (Some (oa_checkoutRecoveryId a))) = Some RECOVERY_DETECTED \<and>
     at_sentAt a = None \<and> \<not> truthy (oa_outboundMessageId a) \<and> at_followUpDueAt a = None \<and> oa_closedAt a = None"

definition is_orphan :: "outbound_db \<Rightarrow> id \<Rightarrow> outbound_message \<Rightarrow> bool" where
  "is_orphan D conversationId m \<longleftrightarrow> cm_conversationId m = conversationId \<and> cm_direction m = OUTBOUND \<and>
     cm_senderType m = SENDER_AUTOMATION \<and> attempt_of_outbound D (cm_id m) = None"

definition is_initial_message :: "outbound_db \<Rightarrow> id \<Rightarrow> outbound_attempt \<Rightarrow> outbound_message \<Rightarrow> bool" where
  "is_initial_message D conversationId a m \<longleftrightarrow> cm_conversationId m = conversationId \<and>
     cm_direction m = OUTBOUND \<and> cm_senderType m = SENDER_AUTOMATION \<and> \<not> has_send_command D (cm_id m) \<and>
     (\<forall>b\<in>set_option (attempt_of_outbound D (cm_id m)). oa_id b = oa_id a)"

text \<open>The columns a receipt of the provider would have set.\<close>

definition has_no_receipt :: "outbound_message \<Rightarrow> bool" where
  "has_no_receipt m \<longleftrightarrow> \<not> truthy (cm_providerMessageId m) \<and> cm_sentAt m = None \<and> cm_deliveredAt m = None \<and>
     cm_readAt m = None \<and> cm_failedAt m = None"

definition is_confirmed :: "outbound_message \<Rightarrow> bool" where
  "is_confirmed m \<longleftrightarrow> cm_sentAt m \<noteq> None \<and> truthy (cm_providerMessageId m) \<and> cm_failedAt m = None \<and>
     \<not> truthy (cm_providerFailureCode m) \<and> (has_no_permit m \<or> has_full_permit m) \<and>
     (cm_status m = MSG_SENT \<or> (cm_status m = MSG_DELIVERED \<and> cm_deliveredAt m \<noteq> None) \<or>
      (cm_status m = MSG_READ \<and> cm_readAt m \<noteq> None))"

definition failed_lookup :: "usage_event option \<Rightarrow> outbound_attempt \<Rightarrow> outbound_message \<Rightarrow> initial_lookup" where
  "failed_lookup usage a m =
     (if has_no_permit m \<and> has_no_receipt m \<and> \<not> truthy (cm_providerFailureCode m) \<and>
         (usage \<noteq> None \<or> oa_failureCode a = Some ''PRE_PROVIDER_REFUSED'')
      then Initial_Failed m Pre_Permit_Refused
      else if has_full_permit m \<and> \<not> truthy (cm_providerMessageId m) \<and> cm_failedAt m \<noteq> None \<and>
         (truthy (cm_providerFailureCode m) \<or> oa_failureCode a = Some ''PROVIDER_REJECTED'')
      then Initial_Failed m (if is_recipient_undeliverable (cm_providerFailureCode m)
                             then Recipient_Unreachable else Provider_Rejected)
      else Initial_Outcome_Unknown)"

definition message_lookup ::
  "outbound_db \<Rightarrow> usage_event option \<Rightarrow> outbound_attempt \<Rightarrow> outbound_message \<Rightarrow> initial_lookup" where
  "message_lookup D usage a m =
     (if cm_status m = MSG_PENDING then
        (if \<not> has_no_permit m \<or> \<not> has_no_receipt m \<or> truthy (cm_providerFailureCode m)
         then Initial_Outcome_Unknown
         else if is_eligible_attempt D a \<and> usage \<noteq> None then Initial_Prepared m else Initial_Lineage_Conflict)
      else if at_sentAt a \<noteq> None \<and> at_sentAt a \<noteq> cm_sentAt m then Initial_Lineage_Conflict
      else if is_confirmed m then Initial_Confirmed m
      else if cm_status m = MSG_FAILED \<and> cm_sentAt m = None \<and> cm_deliveredAt m = None \<and> cm_readAt m = None
      then failed_lookup usage a m
      else Initial_Outcome_Unknown)"

definition find_recovery_conversation :: "outbound_db \<Rightarrow> initial_scope \<Rightarrow> outbound_conversation option" where
  "find_recovery_conversation D scope =
     (case find_row (\<lambda>c. oc_checkoutRecoveryId c = Some (in_recoveryId scope)) (ob_conversations D) of
        None \<Rightarrow> None
      | Some c \<Rightarrow>
          if oc_type c \<noteq> CONVERSATION_RECOVERY \<or> (oc_shopId c \<noteq> None \<and> oc_shopId c \<noteq> Some (in_shopId scope))
          then None else Some c)"

definition inspect_initial_outreach_admission :: "outbound_db \<Rightarrow> initial_scope \<Rightarrow> initial_lookup" where
  "inspect_initial_outreach_admission D scope =
     (if in_shopId scope = [] \<or> in_recoveryId scope = [] \<or> in_outreachAttemptId scope = [] \<or>
         \<not> list_all is_attempt_char (in_outreachAttemptId scope) then Initial_Lineage_Conflict
      else
        (case find_outbound_attempt D (in_outreachAttemptId scope) of
           None \<Rightarrow> Initial_Lineage_Conflict
         | Some a \<Rightarrow>
        let usage = find_usage_by_key D (outreach_key (in_outreachAttemptId scope)) in
        if \<not> is_initial_attempt D scope a \<or> (\<exists>u\<in>set_option usage. usage_conflicts scope a u)
        then Initial_Lineage_Conflict
        else
          (case find_recovery_conversation D scope of
             None \<Rightarrow> Initial_Lineage_Conflict
           | Some c \<Rightarrow>
          let messageId = (case Option.bind usage ue_sourceId of None \<Rightarrow> oa_outboundMessageId a | Some k \<Rightarrow> Some k) in
          if \<not> truthy messageId then
            (if \<not> is_eligible_attempt D a then Initial_Lineage_Conflict
             else if find_row (is_orphan D (oc_id c)) (ob_messages D) \<noteq> None then Initial_Lineage_Conflict
             else Initial_Absent)
          else
            (case find_outbound D (the messageId) of
               None \<Rightarrow> Initial_Lineage_Conflict
             | Some m \<Rightarrow>
                 if \<not> is_initial_message D (oc_id c) a m then Initial_Lineage_Conflict
                 else message_lookup D usage a m))))"

section \<open>The policy of an admission\<close>

record admission_input =
  ai_shopId :: id
  ai_conversationId :: id
  ai_idempotencyKey :: string
  ai_senderType :: sender_type
  ai_content :: "string option"
  ai_recoveryCreditSourceKey :: "string option"
  ai_initialOutreach :: "initial_scope option"

datatype outbound_suppression =
    Sup_Paused | Sup_Normal_Cap_Reached | Sup_Terminal_Already_Used | Sup_Duplicate | Sup_Conversation_Invalid
  | Sup_Shop_Unavailable | Sup_Contract_Required | Sup_Subscription_Frozen

datatype execution_scope = General_Scope | Recovery_Scope

record admitted_outbound =
  ad_shopId :: id
  ad_messageId :: id
  ad_conversationId :: id
  ad_terminal :: bool
  ad_executionScope :: execution_scope

datatype outbound_result = Outbound_Admitted admitted_outbound | Outbound_Suppressed outbound_suppression

text \<open>What an admission reads of a policy.\<close>

record outbound_policy =
  obp_outboundHardLimit :: int
  obp_terminalMessageReservedSlots :: int
  obp_automatedWhatsappPaused :: bool
  obp_billingPeriodId :: "id option"

definition of_effective_policy :: "effective_policy \<Rightarrow> outbound_policy" where
  "of_effective_policy p =
     \<lparr>obp_outboundHardLimit = ep_outboundHardLimit p,
      obp_terminalMessageReservedSlots = ep_terminalMessageReservedSlots p,
      obp_automatedWhatsappPaused = ep_automatedWhatsappPaused p,
      obp_billingPeriodId = map_option (\<lambda>q. bp_id (pj_period q)) (ep_billingPeriod p)\<rparr>"

definition of_post_contract_policy :: "post_contract_policy \<Rightarrow> outbound_policy" where
  "of_post_contract_policy p =
     \<lparr>obp_outboundHardLimit = pcp_outboundHardLimit p,
      obp_terminalMessageReservedSlots = pcp_terminalMessageReservedSlots p,
      obp_automatedWhatsappPaused = pcp_automatedWhatsappPaused p, obp_billingPeriodId = None\<rparr>"

definition is_continuing_recovery_status :: "recovery_status \<Rightarrow> bool" where
  "is_continuing_recovery_status s \<longleftrightarrow> s = RECOVERY_MESSAGE_SENT \<or> s = RECOVERY_ENGAGED"

definition has_durable_recovery_reservation :: "db \<Rightarrow> id \<Rightarrow> string \<Rightarrow> bool" where
  "has_durable_recovery_reservation d shopId sourceKey \<longleftrightarrow>
     (case find_reservation d sourceKey of None \<Rightarrow> False
      | Some r \<Rightarrow> res_shopId r = shopId \<and> res_status r = RESERVED \<and>
          (case Option.bind (res_counterId r) (find_counter d) of None \<Rightarrow> False
           | Some c \<Rightarrow> sc_counter c = PURCHASED_RECOVERY_CREDITS \<or> sc_counter c = LIFETIME_FREE_RECOVERY_CREDITS))"

type_synonym policy_resolution = "outbound_suppression + (outbound_policy \<times> execution_scope)"

definition resolve_post_contract ::
  "db \<Rightarrow> time \<Rightarrow> admission_input \<Rightarrow> checkout_recovery option \<Rightarrow> policy_resolution result" where
  "resolve_post_contract d now input recovery =
     (let continuing = (case recovery of None \<Rightarrow> False | Some r \<Rightarrow> is_continuing_recovery_status (crv_status r));
          durable = (case ai_recoveryCreditSourceKey input of None \<Rightarrow> False
                     | Some k \<Rightarrow> has_durable_recovery_reservation d (ai_shopId input) k) in
      if recovery = None \<or> (\<not> continuing \<and> \<not> durable) then Inr (Inl Sup_Contract_Required)
      else
        (case resolve_post_contract_policy d (ai_shopId input) now of
           Inr p \<Rightarrow> Inr (Inr (of_post_contract_policy p, Recovery_Scope))
         | Inl e \<Rightarrow>
             (case e of
                Service_Error (Post_Contract_Recovery_Policy_Error reason) _ \<Rightarrow>
                  if reason = ''CONTRACT_REQUIRED'' \<or> reason = ''SHOP_UNAVAILABLE''
                  then Inr (Inl Sup_Contract_Required) else Inl e
              | _ \<Rightarrow> Inl e)))"

definition resolve_outbound_policy ::
  "shared \<Rightarrow> db \<Rightarrow> time \<Rightarrow> admission_input \<Rightarrow> checkout_recovery option \<Rightarrow> policy_resolution result" where
  "resolve_outbound_policy S d now input recovery =
     (case resolve_policy S d (ai_shopId input) now of
        Inr p \<Rightarrow> Inr (Inr (of_effective_policy p, General_Scope))
      | Inl e \<Rightarrow>
          (case e of
             Service_Error (Effective_Billing_Policy_Error reason) _ \<Rightarrow>
               if reason = ''NO_CONTRACT'' then resolve_post_contract d now input recovery
               else if reason = ''SUBSCRIPTION_FROZEN'' then Inr (Inl Sup_Subscription_Frozen)
               else Inl e
           | _ \<Rightarrow> Inl e))"

section \<open>The reservation\<close>

definition PENDING_CONTENT :: string where
  "PENDING_CONTENT = ''[Pending automated WhatsApp message]''"

definition TERMINAL_MESSAGE :: string where
  "TERMINAL_MESSAGE = ''I am unable to continue this conversation right now. Please try again later.''"

text \<open>The scope of an initial outreach has to be of the request and of an attempt that is still open.\<close>

definition is_open_initial_attempt :: "outbound_db \<Rightarrow> admission_input \<Rightarrow> initial_scope \<Rightarrow> outbound_attempt \<Rightarrow> bool" where
  "is_open_initial_attempt D input scope a \<longleftrightarrow>
     oa_id a = in_outreachAttemptId scope \<and> oa_checkoutRecoveryId a = in_recoveryId scope \<and>
     oa_sequence a = 1 \<and> at_trigger a = INITIAL \<and>
     oa_status a \<in> {OUTREACH_PENDING, OUTREACH_CAPACITY_BLOCKED} \<and>
     oa_outboundMessageId a = None \<and> at_sentAt a = None \<and> at_followUpDueAt a = None \<and> oa_closedAt a = None \<and>
     (case find_recovery D (Some (oa_checkoutRecoveryId a)) of None \<Rightarrow> False
      | Some r \<Rightarrow> crv_shopId r = ai_shopId input \<and> crv_status r = RECOVERY_DETECTED \<and>
          (\<exists>c\<in>set (ob_conversations D). oc_checkoutRecoveryId c = Some (crv_id r) \<and> oc_id c = ai_conversationId input))"

definition initial_scope_ok :: "outbound_db \<Rightarrow> admission_input \<Rightarrow> bool" where
  "initial_scope_ok D input \<longleftrightarrow>
     (case ai_initialOutreach input of None \<Rightarrow> True
      | Some scope \<Rightarrow> ai_senderType input = SENDER_AUTOMATION \<and> in_shopId scope = ai_shopId input \<and>
          ai_idempotencyKey input = outreach_key (in_outreachAttemptId scope) \<and>
          truthy (ai_recoveryCreditSourceKey input) \<and>
          find_row (is_open_initial_attempt D input scope) (ob_attempts D) \<noteq> None)"

definition is_automated_outbound :: "id \<Rightarrow> outbound_message \<Rightarrow> bool" where
  "is_automated_outbound conversationId m \<longleftrightarrow> cm_conversationId m = conversationId \<and>
     cm_direction m = OUTBOUND \<and> (cm_senderType m = SENDER_AGENT \<or> cm_senderType m = SENDER_AUTOMATION)"

text \<open>\<open>groupBy\<close> with \<open>_sum\<close>, and \<open>quantityFor\<close> of one group.\<close>

definition counts_for :: "id \<Rightarrow> id list \<Rightarrow> string \<Rightarrow> usage_event \<Rightarrow> bool" where
  "counts_for shopId messageIds sourceType e \<longleftrightarrow> ue_shopId e = shopId \<and>
     ue_metric e = OUTBOUND_AUTOMATED_MESSAGE \<and> (\<exists>i\<in>set messageIds. ue_sourceId e = Some i) \<and>
     ue_sourceType e = Some sourceType"

definition quantity_for :: "outbound_db \<Rightarrow> id \<Rightarrow> id \<Rightarrow> string \<Rightarrow> int" where
  "quantity_for D shopId conversationId sourceType =
     (let messageIds = map cm_id (filter (is_automated_outbound conversationId) (ob_messages D)) in
      row_sum ue_quantity (filter (counts_for shopId messageIds sourceType) (db_usageEvents (ob_db D))))"

definition normal_source :: string where "normal_source = ''OUTBOUND_AUTOMATED_MESSAGE''"

definition terminal_source :: string where "terminal_source = ''OUTBOUND_AUTOMATED_TERMINAL''"

definition new_outbound_message :: "id \<Rightarrow> time \<Rightarrow> admission_input \<Rightarrow> bool \<Rightarrow> outbound_message" where
  "new_outbound_message i now input isTerminal =
     \<lparr>cm_id = i, cm_providerMessageId = None, cm_conversationId = ai_conversationId input,
      cm_direction = OUTBOUND, cm_senderType = ai_senderType input, cm_status = MSG_PENDING,
      cm_providerFailureCode = None, cm_sentAt = None, cm_deliveredAt = None, cm_readAt = None,
      cm_failedAt = None, cm_createdAt = now,
      om_content = (if isTerminal then TERMINAL_MESSAGE else nullish (ai_content input) PENDING_CONTENT),
      om_providerDispatchKey = None, om_providerDispatchAdmittedAt = None,
      om_providerDispatchControlRevision = None\<rparr>"

definition admission_usage ::
  "outbound_library \<Rightarrow> id \<Rightarrow> admission_input \<Rightarrow> id \<Rightarrow> bool \<Rightarrow> id option \<Rightarrow> usage_event" where
  "admission_usage L i input messageId isTerminal billingPeriodId =
     \<lparr>ue_id = i, ue_shopId = ai_shopId input, ue_billingPeriodId = billingPeriodId,
      ue_metric = OUTBOUND_AUTOMATED_MESSAGE, ue_quantity = 1, ue_idempotencyKey = ai_idempotencyKey input,
      ue_correctionOfUsageEventId = None,
      ue_sourceType = Some (if isTerminal then terminal_source else normal_source),
      ue_sourceId = Some messageId, ue_occurredAt = None, ue_provider = ol_default_provider L,
      ue_shopifyReportState = ol_default_reportState L, ue_shopifyEventHandle = None,
      ue_shopifyIdempotencyKey = None, ue_nextReportAt = None, ue_lastReportAttemptAt = None,
      ue_reportedAt = None, ue_providerErrorCode = None, ue_providerResponseSummary = None\<rparr>"

text \<open>The two creates an admission ends with.\<close>

definition admit_message ::
  "outbound_library \<Rightarrow> (nat \<Rightarrow> id) \<Rightarrow> time \<Rightarrow> admission_input \<Rightarrow> bool \<Rightarrow> outbound_policy \<Rightarrow> execution_scope \<Rightarrow>
     outbound_db \<Rightarrow> (outbound_result \<times> outbound_db) result" where
  "admit_message L ids now input isTerminal policy scope D =
     and_then (create_row (\<lambda>m n. cm_id m = cm_id n) (new_outbound_message (ids 0) now input isTerminal) (ob_messages D))
       (\<lambda>(m, messages).
     and_then (create_usage_event (admission_usage L (ids 1) input (cm_id m) isTerminal (obp_billingPeriodId policy))
         (ob_db D)) (\<lambda>(_, d).
     Inr (Outbound_Admitted \<lparr>ad_shopId = ai_shopId input, ad_messageId = cm_id m,
            ad_conversationId = ai_conversationId input, ad_terminal = isTerminal, ad_executionScope = scope\<rparr>,
          D\<lparr>ob_messages := messages, ob_db := d\<rparr>)))"

text \<open>The limit: the last slots are kept for one closing message, which an initial outreach never is.\<close>

definition admit_within_limit ::
  "outbound_library \<Rightarrow> (nat \<Rightarrow> id) \<Rightarrow> time \<Rightarrow> admission_input \<Rightarrow> outbound_policy \<Rightarrow> execution_scope \<Rightarrow>
     outbound_db \<Rightarrow> (outbound_result \<times> outbound_db) result" where
  "admit_within_limit L ids now input policy scope D =
     (let total = quantity_for D (ai_shopId input) (ai_conversationId input) normal_source;
          terminal = (quantity_for D (ai_shopId input) (ai_conversationId input) terminal_source > 0);
          normalLimit = obp_outboundHardLimit policy - obp_terminalMessageReservedSlots policy in
      if total \<ge> normalLimit then
        (if ai_initialOutreach input \<noteq> None then Inr (Outbound_Suppressed Sup_Normal_Cap_Reached, D)
         else if terminal then Inr (Outbound_Suppressed Sup_Terminal_Already_Used, D)
         else admit_message L ids now input True policy scope D)
      else admit_message L ids now input False policy scope D)"

definition is_historical_failure :: "outbound_db \<Rightarrow> admission_input \<Rightarrow> bool" where
  "is_historical_failure D input \<longleftrightarrow>
     (case failed_recipient_outreach D (ai_idempotencyKey input) of None \<Rightarrow> False
      | Some (shopId, m) \<Rightarrow> shopId = ai_shopId input \<and> cm_conversationId m = ai_conversationId input)"

definition reserve_in_transaction ::
  "shared \<Rightarrow> outbound_library \<Rightarrow> (nat \<Rightarrow> id) \<Rightarrow> time \<Rightarrow> admission_input \<Rightarrow> outbound_db \<Rightarrow>
     (outbound_result \<times> outbound_db) result" where
  "reserve_in_transaction S L ids now input D =
     (if find_usage_by_key D (ai_idempotencyKey input) \<noteq> None \<or> is_historical_failure D input
      then Inr (Outbound_Suppressed Sup_Duplicate, D)
      else
        let conversation = find_outbound_conversation D (ai_conversationId input);
            recovery = find_recovery D (Option.bind conversation oc_checkoutRecoveryId);
            conversationShopId = (case Option.bind conversation oc_shopId of
                Some s \<Rightarrow> Some s | None \<Rightarrow> map_option crv_shopId recovery) in
        if conversation = None \<or> conversationShopId \<noteq> Some (ai_shopId input) \<or> \<not> initial_scope_ok D input
        then Inr (Outbound_Suppressed Sup_Conversation_Invalid, D)
        else
          and_then (resolve_outbound_policy S (ob_db D) now input recovery) (\<lambda>resolved.
          case resolved of
            Inl reason \<Rightarrow> Inr (Outbound_Suppressed reason, D)
          | Inr (policy, scope) \<Rightarrow>
              if obp_automatedWhatsappPaused policy then Inr (Outbound_Suppressed Sup_Paused, D)
              else admit_within_limit L ids now input policy scope D))"

definition admission_input_ok :: "admission_input \<Rightarrow> bool" where
  "admission_input_ok input \<longleftrightarrow> js_trim (ai_shopId input) \<noteq> [] \<and> js_trim (ai_conversationId input) \<noteq> [] \<and>
     js_trim (ai_idempotencyKey input) \<noteq> []"

definition ADMISSION_TRANSACTION_RETRIES :: nat where
  "ADMISSION_TRANSACTION_RETRIES = 3"

definition reserve ::
  "shared \<Rightarrow> outbound_library \<Rightarrow> outbound_db env \<Rightarrow> admission_input \<Rightarrow> outbound_db \<Rightarrow>
     outbound_result result \<times> outbound_db" where
  "reserve S L E input D =
     (if \<not> admission_input_ok input
      then (Inl (Service_Error Plain_Error
             ''Outbound WhatsApp admission requires shopId, conversationId and idempotencyKey''), D)
      else attempt_up_to is_p2034 E (\<lambda>n. reserve_in_transaction S L (env_ids E n) (env_now E n) input)
             (Prisma_Error P2034) ADMISSION_TRANSACTION_RETRIES 0 D)"

section \<open>The limit as an invariant\<close>

text \<open>
  Every usage event of an automated message is for one message that exists, the platform's absolute limit
  is at most \<open>N\<close>, and the usage of every conversation leaves room below \<open>N\<close> for its one closing message.
\<close>

definition usage_linked :: "outbound_db \<Rightarrow> bool" where
  "usage_linked D \<longleftrightarrow> (\<forall>e\<in>set (db_usageEvents (ob_db D)). ue_metric e = OUTBOUND_AUTOMATED_MESSAGE \<longrightarrow>
     ue_quantity e = 1 \<and> (\<exists>m\<in>set (ob_messages D). ue_sourceId e = Some (cm_id m)))"

definition absolute_limit_le :: "int \<Rightarrow> outbound_db \<Rightarrow> bool" where
  "absolute_limit_le N D \<longleftrightarrow> (\<forall>pol\<in>set_option (db_platformPolicy (ob_db D)). pp_absoluteOutboundHardLimit pol \<le> N)"

definition within_limit :: "int \<Rightarrow> outbound_db \<Rightarrow> bool" where
  "within_limit N D \<longleftrightarrow> (\<forall>shopId conversationId. quantity_for D shopId conversationId normal_source < N \<and>
     quantity_for D shopId conversationId terminal_source \<le> 1)"

definition outbound_ok :: "int \<Rightarrow> outbound_db \<Rightarrow> bool" where
  "outbound_ok N D \<longleftrightarrow> usage_linked D \<and> absolute_limit_le N D \<and> within_limit N D"

lemma row_sum_filter: "row_sum w (filter P t) = row_sum (\<lambda>r. if P r then w r else 0) t"
  by (induction t) auto

lemma quantity_for_sum:
  "quantity_for D s c t = row_sum (\<lambda>e. if ue_shopId e = s \<and> ue_metric e = OUTBOUND_AUTOMATED_MESSAGE \<and>
      (\<exists>m\<in>set (ob_messages D). is_automated_outbound c m \<and> ue_sourceId e = Some (cm_id m)) \<and>
      ue_sourceType e = Some t then ue_quantity e else 0) (db_usageEvents (ob_db D))"
  unfolding quantity_for_def Let_def row_sum_filter
  by (rule arg_cong2 [where f = row_sum]) (auto simp: counts_for_def fun_eq_iff)

text \<open>Fewer usage events, with the messages the same as far as the count reads them, count for less.\<close>

lemma quantity_for_mono:
  assumes "usage_linked D"
    and "\<exists>P. db_usageEvents (ob_db D') = filter P (db_usageEvents (ob_db D))"
    and "\<And>c i. (\<exists>m\<in>set (ob_messages D'). is_automated_outbound c m \<and> cm_id m = i) \<Longrightarrow>
           (\<exists>m\<in>set (ob_messages D). is_automated_outbound c m \<and> cm_id m = i)"
  shows "quantity_for D' s c t \<le> quantity_for D s c t"
proof -
  let ?w = "\<lambda>D e. if ue_shopId e = s \<and> ue_metric e = OUTBOUND_AUTOMATED_MESSAGE \<and>
      (\<exists>m\<in>set (ob_messages D). is_automated_outbound c m \<and> ue_sourceId e = Some (cm_id m)) \<and>
      ue_sourceType e = Some t then ue_quantity e else 0"
  from assms(2) obtain P where P: "db_usageEvents (ob_db D') = filter P (db_usageEvents (ob_db D))" by blast
  have "(if P e then ?w D' e else 0) \<le> ?w D e" if "e \<in> set (db_usageEvents (ob_db D))" for e
  proof (cases "P e \<and> ?w D' e \<noteq> 0")
    case True
    then have e: "P e" "ue_shopId e = s" "ue_metric e = OUTBOUND_AUTOMATED_MESSAGE" "ue_sourceType e = Some t"
      "\<exists>m\<in>set (ob_messages D'). is_automated_outbound c m \<and> ue_sourceId e = Some (cm_id m)"
      by (auto split: if_splits)
    then have "\<exists>m\<in>set (ob_messages D). is_automated_outbound c m \<and> ue_sourceId e = Some (cm_id m)"
      using assms(3) by metis
    with e show ?thesis by auto
  next
    case False
    have "ue_metric e = OUTBOUND_AUTOMATED_MESSAGE \<Longrightarrow> ue_quantity e = 1"
      using assms(1) that by (auto simp: usage_linked_def)
    with False show ?thesis by auto
  qed
  then show ?thesis unfolding quantity_for_sum P row_sum_filter by (rule row_sum_mono)
qed

text \<open>The policies an admission is made under reserve a slot below the platform's limit.\<close>

lemma resolve_outbound_limits_le:
  "resolve_outbound_limits s a b c ov invalid = Inr (soft, hard) \<Longrightarrow> hard \<le> c"
  by (auto simp: resolve_outbound_limits_def validate_minimum_integer_def Let_def split: sum.splits if_splits)

lemma validate_terminal_slots_ge: "validate_terminal_slots s v h invalid = Inr slots \<Longrightarrow> 1 \<le> slots"
  by (auto simp: validate_terminal_slots_def split: if_splits)

lemma resolve_policy_limit:
  assumes "resolve_policy S d shopId now = Inr p" "\<forall>pol\<in>set_option (db_platformPolicy d). pp_absoluteOutboundHardLimit pol \<le> N"
  shows "ep_outboundHardLimit p \<le> N \<and> 1 \<le> ep_terminalMessageReservedSlots p"
  using assms
  by (auto simp: resolve_policy_def Let_def build_policy_def split: option.splits sum.splits if_splits prod.splits
      dest!: resolve_outbound_limits_le validate_terminal_slots_ge)

lemma resolve_post_contract_policy_limit:
  assumes "resolve_post_contract_policy d shopId now = Inr p"
    "\<forall>pol\<in>set_option (db_platformPolicy d). pp_absoluteOutboundHardLimit pol \<le> N"
  shows "pcp_outboundHardLimit p \<le> N \<and> 1 \<le> pcp_terminalMessageReservedSlots p"
  using assms
  by (auto simp: resolve_post_contract_policy_def Let_def split: option.splits sum.splits if_splits prod.splits
      dest!: resolve_outbound_limits_le validate_terminal_slots_ge)

lemma resolve_outbound_policy_limit:
  assumes "resolve_outbound_policy S d now input recovery = Inr (Inr (policy, scope))"
    "\<forall>pol\<in>set_option (db_platformPolicy d). pp_absoluteOutboundHardLimit pol \<le> N"
  shows "obp_outboundHardLimit policy - obp_terminalMessageReservedSlots policy < N"
proof (cases "resolve_policy S d (ai_shopId input) now")
  case (Inr p)
  with assms(1) resolve_policy_limit [OF Inr assms(2)] show ?thesis
    by (simp add: resolve_outbound_policy_def) (auto simp: of_effective_policy_def)
next
  case (Inl e)
  with assms(1) obtain p where p: "resolve_post_contract_policy d (ai_shopId input) now = Inr p"
      and "policy = of_post_contract_policy p"
    by (auto simp: resolve_outbound_policy_def resolve_post_contract_def Let_def
        split: failure.splits error_class.splits if_splits sum.splits)
  with resolve_post_contract_policy_limit [OF p assms(2)] show ?thesis by (auto simp: of_post_contract_policy_def)
qed

text \<open>An admission adds one to the count of its conversation and to no other.\<close>

lemma admit_message_InrD:
  assumes "admit_message L ids now input t policy scope D = Inr (out, D')"
  shows "out = Outbound_Admitted \<lparr>ad_shopId = ai_shopId input, ad_messageId = ids 0,
           ad_conversationId = ai_conversationId input, ad_terminal = t, ad_executionScope = scope\<rparr>"
    and "ob_messages D' = ob_messages D @ [new_outbound_message (ids 0) now input t]"
    and "db_usageEvents (ob_db D') = db_usageEvents (ob_db D) @
           [admission_usage L (ids 1) input (ids 0) t (obp_billingPeriodId policy)]"
    and "ids 0 \<notin> cm_id ` set (ob_messages D)"
    and "D' = D\<lparr>ob_messages := ob_messages D', ob_db := ob_db D\<lparr>db_usageEvents := db_usageEvents (ob_db D')\<rparr>\<rparr>"
  using assms
  by (auto simp: admit_message_def create_usage_event_def and_then_Inr new_outbound_message_def
      split: prod.splits dest!: create_row_InrD)

lemma quantity_for_admitted:
  assumes "usage_linked D" "admit_message L ids now input t policy scope D = Inr (out, D')"
  shows "quantity_for D' s c k \<le> quantity_for D s c k +
    (if s = ai_shopId input \<and> c = ai_conversationId input \<and> k = (if t then terminal_source else normal_source)
     then 1 else 0)"
proof -
  let ?m = "new_outbound_message (ids 0) now input t"
  let ?u = "admission_usage L (ids 1) input (ids 0) t (obp_billingPeriodId policy)"
  let ?w = "\<lambda>D e. if ue_shopId e = s \<and> ue_metric e = OUTBOUND_AUTOMATED_MESSAGE \<and>
      (\<exists>m\<in>set (ob_messages D). is_automated_outbound c m \<and> ue_sourceId e = Some (cm_id m)) \<and>
      ue_sourceType e = Some k then ue_quantity e else 0"
  note D' = admit_message_InrD [OF assms(2)]
  have old: "?w D' e = ?w D e" if "e \<in> set (db_usageEvents (ob_db D))" for e
  proof -
    have "ue_metric e = OUTBOUND_AUTOMATED_MESSAGE \<Longrightarrow> ue_sourceId e \<noteq> Some (ids 0)"
      using assms(1) that D'(4) unfolding usage_linked_def by (metis imageI option.inject)
    then show ?thesis by (auto simp: D'(2) new_outbound_message_def)
  qed
  have "is_automated_outbound c ?m \<Longrightarrow> c = ai_conversationId input"
    by (auto simp: is_automated_outbound_def new_outbound_message_def)
  then have new: "?w D' ?u \<le> (if s = ai_shopId input \<and> c = ai_conversationId input \<and>
      k = (if t then terminal_source else normal_source) then 1 else 0)"
    using D'(4) by (auto simp: D'(2) admission_usage_def)
  have "quantity_for D' s c k = row_sum (?w D') (db_usageEvents (ob_db D)) + ?w D' ?u"
    unfolding quantity_for_sum D'(3) by (simp only: row_sum_simps add_0_right)
  also have "row_sum (?w D') (db_usageEvents (ob_db D)) = quantity_for D s c k"
    unfolding quantity_for_sum by (rule row_sum_cong) (rule old)
  finally show ?thesis using new by linarith
qed

lemma admit_within_limit_ok:
  assumes "outbound_ok N D" "obp_outboundHardLimit policy - obp_terminalMessageReservedSlots policy < N"
    and "admit_within_limit L ids now input policy scope D = Inr (out, D')"
  shows "outbound_ok N D'"
proof (cases "D' = D")
  case False
  let ?q = "quantity_for D (ai_shopId input) (ai_conversationId input)"
  from False assms(3) obtain t where made: "admit_message L ids now input t policy scope D = Inr (out, D')"
    and t: "if t then ?q terminal_source \<le> 0 else ?q normal_source < N - 1"
    using assms(2) by (auto simp: admit_within_limit_def Let_def split: if_splits)
  have "usage_linked D" using assms(1) by (simp add: outbound_ok_def)
  note D' = admit_message_InrD [OF made] and q = quantity_for_admitted [OF \<open>usage_linked D\<close> made]
  have "usage_linked D'"
    using \<open>usage_linked D\<close> by (auto simp: usage_linked_def D'(2,3) admission_usage_def new_outbound_message_def)
  moreover have "absolute_limit_le N D'"
    using assms(1) by (subst D'(5)) (simp add: outbound_ok_def absolute_limit_le_def)
  moreover have "quantity_for D' s c normal_source < N \<and> quantity_for D' s c terminal_source \<le> 1" for s c
  proof -
    have "quantity_for D s c normal_source < N" "quantity_for D s c terminal_source \<le> 1"
      using assms(1) by (simp_all add: outbound_ok_def within_limit_def)
    with t q [of s c normal_source] q [of s c terminal_source] show ?thesis
      by (auto split: if_splits simp: normal_source_def terminal_source_def)
  qed
  ultimately show ?thesis by (simp add: outbound_ok_def within_limit_def)
qed (use assms(1) in simp)

lemma reserve_in_transaction_cases:
  assumes "reserve_in_transaction S L ids now input D = Inr (out, D')"
  shows "(\<exists>reason. out = Outbound_Suppressed reason) \<and> D' = D \<or>
    (\<exists>policy scope recovery. resolve_outbound_policy S (ob_db D) now input recovery = Inr (Inr (policy, scope)) \<and>
       \<not> obp_automatedWhatsappPaused policy \<and> admit_within_limit L ids now input policy scope D = Inr (out, D'))"
  using assms unfolding reserve_in_transaction_def Let_def and_then_def
  by (auto split: if_splits sum.splits prod.splits)

lemma reserve_in_transaction_ok:
  assumes "outbound_ok N D" "reserve_in_transaction S L ids now input D = Inr (out, D')"
  shows "outbound_ok N D'"
  using reserve_in_transaction_cases [OF assms(2)]
proof (elim disjE exE conjE)
  fix policy scope recovery
  assume resolved: "resolve_outbound_policy S (ob_db D) now input recovery = Inr (Inr (policy, scope))"
    and made: "admit_within_limit L ids now input policy scope D = Inr (out, D')"
  have "obp_outboundHardLimit policy - obp_terminalMessageReservedSlots policy < N"
    using resolve_outbound_policy_limit [OF resolved] assms(1) by (simp add: outbound_ok_def absolute_limit_le_def)
  from admit_within_limit_ok [OF assms(1) this made] show ?thesis .
qed (use assms(1) in simp)

lemma reserve_ok:
  assumes "outbound_ok N D" "\<And>n D. outbound_ok N D \<Longrightarrow> outbound_ok N (env_step E n D)"
  shows "outbound_ok N (snd (reserve S L E input D))"
proof (cases "admission_input_ok input")
  case True
  have "outbound_ok N (snd (attempt_up_to is_p2034 E
      (\<lambda>n. reserve_in_transaction S L (env_ids E n) (env_now E n) input) (Prisma_Error P2034)
      ADMISSION_TRANSACTION_RETRIES 0 D))"
    by (rule attempt_up_to_invariant [where I = "outbound_ok N", OF assms]) (auto intro: reserve_in_transaction_ok)
  with True show ?thesis by (simp add: reserve_def)
qed (simp add: reserve_def assms(1))

end
