(* ===== verification/Outbound_Fence.thy ===== *)
theory Outbound_Fence
  imports Outbound_Admission
begin

text \<open>
  The last decision before a message goes to the provider: a short transaction that checks everything again
  and writes a permit on the message row. \<open>general-outbound-send-fence.service.ts\<close> guards the conversations
  that are of no recovery, \<open>recovery-conversation/outbound-send-fence.service.ts\<close> those of a recovery, here
  for the text messages of an automated sender. What they read: \<open>whatsapp-contact-opt-out/\<close> (a customer's
  STOP), \<open>shop-execution-eligibility.service.ts\<close>, \<open>recovery-runtime-eligibility.service.ts\<close> and
  \<open>recovery-conversation.sql.ts\<close>.
\<close>

section \<open>Customers who asked not to be contacted\<close>

definition is_digit :: "char \<Rightarrow> bool" where
  "is_digit c \<longleftrightarrow> 48 \<le> (of_char c :: nat) \<and> (of_char c :: nat) \<le> 57"

text \<open>\<open>/^[1-9][0-9]{1,14}$/\<close>.\<close>

fun is_international_digits :: "string \<Rightarrow> bool" where
  "is_international_digits [] = False"
| "is_international_digits (c # cs) \<longleftrightarrow>
     is_digit c \<and> c \<noteq> CHR ''0'' \<and> list_all is_digit cs \<and> 1 \<le> length cs \<and> length cs \<le> 14"

definition canonical_whatsapp_sender :: "outbound_library \<Rightarrow> string \<Rightarrow> string option" where
  "canonical_whatsapp_sender L value =
     (let raw = js_trim value; international = (if is_international_digits raw then ''+'' @ raw else raw) in
      map_option (drop 1) (ol_normalizeRecipientPhone L international None))"

text \<open>\<open>toUpperCase\<close> on the letters of a country code.\<close>

definition upper_char :: "char \<Rightarrow> char" where
  "upper_char c = (let n = of_char c :: nat in if 97 \<le> n \<and> n \<le> 122 then char_of (n - 32) else c)"

definition matches_registered_phone :: "outbound_library \<Rightarrow> string \<Rightarrow> customer_phone \<Rightarrow> bool" where
  "matches_registered_phone L canonical stored \<longleftrightarrow>
     (case cph_whatsappCanonicalPhone stored of
        Some p \<Rightarrow> p = canonical
      | None \<Rightarrow>
          let raw = js_trim (cph_phone stored);
              asInternational = (if is_international_digits raw \<and> raw = canonical then ''+'' @ raw else raw);
              country = (if starts_with ''+'' asInternational \<or> \<not> truthy (cph_defaultCountryCode stored) then None
                         else map_option (map upper_char) (cph_defaultCountryCode stored)) in
          map_option (drop 1) (ol_normalizeRecipientPhone L asInternational country) = Some canonical)"

definition has_local_no_contact :: "outbound_library \<Rightarrow> outbound_db \<Rightarrow> id \<Rightarrow> string \<Rightarrow> bool" where
  "has_local_no_contact L D shopId recipient \<longleftrightarrow>
     (case canonical_whatsapp_sender L recipient of
        None \<Rightarrow> False
      | Some canonical \<Rightarrow> canonical \<noteq> [] \<and>
          (\<exists>p\<in>set (ob_phones D). \<not> cph_ended p \<and> cph_whatsappNoContact p \<and>
             (cph_whatsappCanonicalPhone p = Some canonical \<or> cph_whatsappCanonicalPhone p = None) \<and>
             cph_shopId p = shopId \<and> matches_registered_phone L canonical p))"

section \<open>Whether a shop may run\<close>

datatype execution_denial =
  Deny_Contract_Required | Deny_Subscription_Frozen | Deny_Unmapped_Plan | Deny_Sync_Error | Deny_Shop_Unavailable

definition evaluate_resolved_shop :: "shop \<Rightarrow> subscription option \<Rightarrow> execution_scope \<Rightarrow> execution_denial option" where
  "evaluate_resolved_shop sh sub scope =
     (case sub of None \<Rightarrow> Some Deny_Shop_Unavailable
      | Some b \<Rightarrow>
          if sh_status sh \<noteq> SHOP_ACTIVE then Some Deny_Shop_Unavailable
          else if su_status b = SUB_NO_CONTRACT then
            (if scope = Recovery_Scope \<and> is_verified_ended_subscription (su_status b)
                  (su_lastProviderLifecycleState b) (sh_onboardingCompleted sh)
             then None else Some Deny_Contract_Required)
          else if su_status b = SUB_FROZEN then
            (if scope = Recovery_Scope \<and> sh_platform sh = WOOCOMMERCE then None else Some Deny_Subscription_Frozen)
          else if su_status b = SUB_SYNC_ERROR then Some Deny_Sync_Error
          else if su_status b = SUB_UNMAPPED then Some Deny_Unmapped_Plan
          else None)"

definition evaluate_execution :: "db \<Rightarrow> id \<Rightarrow> execution_scope \<Rightarrow> execution_denial option" where
  "evaluate_execution d shopId scope =
     (case find_row (\<lambda>s. su_shopId s = shopId) (db_subscriptions d) of
        None \<Rightarrow> Some Deny_Shop_Unavailable
      | Some b \<Rightarrow>
          (case find_row (\<lambda>s. sh_id s = shopId) (db_shops d) of
             None \<Rightarrow> Some Deny_Shop_Unavailable \<comment> \<open>excluded by the foreign key\<close>
           | Some sh \<Rightarrow> evaluate_resolved_shop sh (Some b) scope))"

definition suppression_reason :: "execution_denial \<Rightarrow> outbound_suppression" where
  "suppression_reason r =
     (if r = Deny_Contract_Required then Sup_Contract_Required
      else if r = Deny_Subscription_Frozen then Sup_Subscription_Frozen else Sup_Shop_Unavailable)"

section \<open>The permit\<close>

datatype permit = Permit_Admitted | Permit_Suppressed string

definition permitted :: "string \<Rightarrow> time \<Rightarrow> int \<Rightarrow> outbound_message \<Rightarrow> outbound_message" where
  "permitted key now revision m =
     m\<lparr>om_providerDispatchKey := Some key, om_providerDispatchAdmittedAt := Some now,
       om_providerDispatchControlRevision := Some revision\<rparr>"

text \<open>The update both fences end with; one row returned is an admission.\<close>

definition write_permit ::
  "id \<Rightarrow> (outbound_message \<Rightarrow> bool) \<Rightarrow> (outbound_message \<Rightarrow> outbound_message) \<Rightarrow> outbound_db \<Rightarrow> permit \<times> outbound_db" where
  "write_permit messageId guard f D =
     (let (n, messages) = update_many (\<lambda>m. cm_id m = messageId \<and> guard m) f (ob_messages D) in
      (if n = 1 then Permit_Admitted else Permit_Suppressed ''already-admitted-or-sent'',
       D\<lparr>ob_messages := messages\<rparr>))"

section \<open>Conversations of no recovery\<close>

record general_send =
  gs_shopId :: id
  gs_conversationId :: id
  gs_messageId :: id
  gs_recipient :: string
  gs_expectedContent :: string
  gs_expectedInboundVersion :: "int option"

definition shop_is_active :: "outbound_db \<Rightarrow> id \<Rightarrow> bool" where
  "shop_is_active D shopId \<longleftrightarrow>
     map_option sh_status (find_row (\<lambda>s. sh_id s = shopId) (db_shops (ob_db D))) = Some SHOP_ACTIVE"

definition find_general_conversation :: "outbound_db \<Rightarrow> general_send \<Rightarrow> outbound_conversation option" where
  "find_general_conversation D i =
     find_row (\<lambda>c. oc_id c = gs_conversationId i \<and> oc_shopId c = Some (gs_shopId i) \<and>
       oc_checkoutRecoveryId c = None \<and> oc_type c \<noteq> CONVERSATION_RECOVERY) (ob_conversations D)"

definition general_guard :: "id \<Rightarrow> outbound_message \<Rightarrow> bool" where
  "general_guard conversationId m \<longleftrightarrow> is_automated_outbound conversationId m \<and> cm_status m = MSG_PENDING \<and>
     om_providerDispatchKey m = None \<and> om_providerDispatchAdmittedAt m = None"

definition admit_general_send :: "outbound_library \<Rightarrow> time \<Rightarrow> general_send \<Rightarrow> outbound_db \<Rightarrow> permit \<times> outbound_db" where
  "admit_general_send L now i D =
     (if \<not> shop_is_active D (gs_shopId i) then (Permit_Suppressed ''shop-inactive'', D)
      else
        (case find_general_conversation D i of
           None \<Rightarrow> (Permit_Suppressed ''invalid-scope'', D)
         | Some c \<Rightarrow>
        if gs_expectedInboundVersion i \<noteq> None \<and> gs_expectedInboundVersion i \<noteq> Some (oc_inboundVersion c)
        then (Permit_Suppressed ''stale-inbound-version'', D)
        else
          (case find_row (\<lambda>m. cm_id m = gs_messageId i \<and> is_automated_outbound (gs_conversationId i) m) (ob_messages D) of
             None \<Rightarrow> (Permit_Suppressed ''invalid-scope'', D)
           | Some m \<Rightarrow>
          if cm_status m \<noteq> MSG_PENDING \<or> truthy (om_providerDispatchKey m) \<or> om_providerDispatchAdmittedAt m \<noteq> None
          then (Permit_Suppressed ''already-admitted-or-sent'', D)
          else if om_content m \<noteq> gs_expectedContent i then (Permit_Suppressed ''invalid-scope'', D)
          else if has_local_no_contact L D (gs_shopId i) (gs_recipient i)
          then (Permit_Suppressed ''local-no-contact'', D)
          else
            write_permit (gs_messageId i) (general_guard (gs_conversationId i))
              (permitted (''arch045-general-'' @ ol_sha256 L (gs_messageId i)) now (oc_controlRevision c)) D)))"

section \<open>Conversations of a recovery\<close>

record recovery_send =
  rs_senderType :: sender_type
  rs_conversationId :: id
  rs_shopId :: id
  rs_recoveryId :: id
  rs_expectedControlRevision :: int
  rs_expectedInboundVersion :: "int option"
  rs_messageId :: id
  rs_recipient :: string

text \<open>\<open>readRecoveryContext\<close>; locking its rows reads nothing new in one atomic step.\<close>

definition read_recovery_context :: "outbound_db \<Rightarrow> id \<Rightarrow> (outbound_conversation \<times> checkout_recovery) option" where
  "read_recovery_context D conversationId =
     (case find_outbound_conversation D conversationId of
        None \<Rightarrow> None
      | Some c \<Rightarrow>
          (case find_recovery D (oc_checkoutRecoveryId c) of
             None \<Rightarrow> None
           | Some r \<Rightarrow>
               if oc_type c = CONVERSATION_RECOVERY \<and> (oc_shopId c = None \<or> oc_shopId c = Some (crv_shopId r))
               then Some (c, r) else None))"

definition terminal_recovery :: "recovery_status \<Rightarrow> bool" where
  "terminal_recovery s \<longleftrightarrow> s \<in> {RECOVERY_COMPLETED, RECOVERY_EXPIRED, RECOVERY_CANCELLED}"

definition is_suppressed_recipient :: "outbound_db \<Rightarrow> id \<Rightarrow> string \<Rightarrow> time \<Rightarrow> bool" where
  "is_suppressed_recipient D shopId recipient now \<longleftrightarrow>
     (case find_row (\<lambda>r. rr_shopId r = shopId \<and> rr_recipient r = recipient) (ob_reachability D) of
        None \<Rightarrow> False
      | Some r \<Rightarrow> (case rr_suppressUntil r of None \<Rightarrow> False | Some until \<Rightarrow> now < until))"

text \<open>\<open>recoveryRuntimeEligibility\<close> of a text message, which carries no template permit.\<close>

definition denial_text :: "execution_denial \<Rightarrow> string" where
  "denial_text r = (case r of
      Deny_Contract_Required \<Rightarrow> ''contract-required''
    | Deny_Subscription_Frozen \<Rightarrow> ''subscription-frozen''
    | Deny_Unmapped_Plan \<Rightarrow> ''unmapped-plan''
    | Deny_Sync_Error \<Rightarrow> ''sync-error''
    | Deny_Shop_Unavailable \<Rightarrow> ''shop-unavailable'')"

definition recovery_runtime_eligibility :: "outbound_db \<Rightarrow> id \<Rightarrow> id \<Rightarrow> string option" where
  "recovery_runtime_eligibility D shopId messageId =
     (case find_row (\<lambda>s. sh_id s = shopId) (db_shops (ob_db D)) of
        None \<Rightarrow> Some ''shop-unavailable''
      | Some sh \<Rightarrow>
          (case find_row (\<lambda>s. su_shopId s = shopId) (db_subscriptions (ob_db D)) of
             None \<Rightarrow> Some ''shop-unavailable''
           | Some b \<Rightarrow>
               (case evaluate_resolved_shop sh (Some b) Recovery_Scope of
                  Some r \<Rightarrow> Some (denial_text r)
                | None \<Rightarrow>
                    if find_row (\<lambda>e. ue_sourceId e = Some messageId \<and> ue_shopId e = shopId \<and>
                         ue_metric e = OUTBOUND_AUTOMATED_MESSAGE) (db_usageEvents (ob_db D)) = None
                    then Some ''automated-quota-not-reserved'' else None)))"

text \<open>The customer's window: the last message of the customer the provider has vouched for.\<close>

definition CUSTOMER_WINDOW_MS :: int where
  "CUSTOMER_WINDOW_MS = 24 * 60 * 60 * 1000"

definition customer_window_open :: "time option \<Rightarrow> time \<Rightarrow> bool" where
  "customer_window_open lastVerifiedInbound now \<longleftrightarrow>
     (case lastVerifiedInbound of None \<Rightarrow> False | Some t \<Rightarrow> t \<le> now \<and> now < t + CUSTOMER_WINDOW_MS)"

definition is_verified_inbound :: "id \<Rightarrow> time \<Rightarrow> time \<Rightarrow> outbound_message \<Rightarrow> bool" where
  "is_verified_inbound conversationId sentAt now m \<longleftrightarrow> cm_conversationId m = conversationId \<and>
     cm_direction m = INBOUND \<and> cm_senderType m = SENDER_CUSTOMER \<and> cm_providerMessageId m \<noteq> None \<and>
     sentAt \<le> cm_createdAt m \<and> cm_createdAt m \<le> now"

text \<open>\<open>initialSentAt\<close> and \<open>verifiedInboundAt\<close> of \<open>readRecoveryWindowEvidence\<close>.\<close>

definition read_window_evidence :: "outbound_db \<Rightarrow> id \<Rightarrow> id \<Rightarrow> time \<Rightarrow> (time option \<times> time option) option" where
  "read_window_evidence D recoveryId conversationId now =
     (case find_row (\<lambda>a. oa_checkoutRecoveryId a = recoveryId \<and> oa_sequence a = 1) (ob_attempts D) of
        None \<Rightarrow> None
      | Some a \<Rightarrow>
          (case at_sentAt a of
             None \<Rightarrow> Some (None, None)
           | Some sentAt \<Rightarrow>
               let times = map cm_createdAt (filter (is_verified_inbound conversationId sentAt now) (ob_messages D)) in
               Some (Some sentAt, if times = [] then None else Some (Max (set times)))))"

text \<open>Lines 235--247 for a text: it needs an initial message that was sent and an open window.\<close>

definition window_denial :: "outbound_db \<Rightarrow> id \<Rightarrow> id \<Rightarrow> time \<Rightarrow> string option" where
  "window_denial D recoveryId conversationId now =
     (case read_window_evidence D recoveryId conversationId now of
        None \<Rightarrow> Some ''no-initial-outreach''
      | Some (initialSentAt, verifiedInboundAt) \<Rightarrow>
          (case initialSentAt of
             None \<Rightarrow> Some ''no-initial-outreach''
           | Some t \<Rightarrow>
               if now < t then Some ''no-initial-outreach''
               else if \<not> customer_window_open verifiedInboundAt now then Some ''customer-window-closed''
               else None))"

definition recovery_guard :: "recovery_send \<Rightarrow> outbound_message \<Rightarrow> bool" where
  "recovery_guard i m \<longleftrightarrow> cm_conversationId m = rs_conversationId i \<and> cm_direction m = OUTBOUND \<and>
     cm_senderType m = rs_senderType i \<and> om_providerDispatchKey m = None \<and> cm_status m = MSG_PENDING"

text \<open>The reasons against a send before the window is looked at, in the order of the code.\<close>

definition recovery_denial ::
  "outbound_library \<Rightarrow> time \<Rightarrow> recovery_send \<Rightarrow> outbound_conversation \<Rightarrow> checkout_recovery \<Rightarrow> outbound_db \<Rightarrow> string option" where
  "recovery_denial L now i c r D =
     (if crv_shopId r \<noteq> rs_shopId i \<or> crv_id r \<noteq> rs_recoveryId i then Some ''shop-mismatch''
      else if terminal_recovery (crv_status r) then Some ''terminal-recovery''
      else if oc_controlRevision c \<noteq> rs_expectedControlRevision i then Some ''stale-control-revision''
      else if oc_controlMode c \<noteq> CONTROL_AI then Some ''human-controlled''
      else if \<not> shop_is_active D (crv_shopId r) then Some ''shop-inactive''
      else if has_local_no_contact L D (crv_shopId r) (rs_recipient i) then Some ''local-no-contact''
      else if is_suppressed_recipient D (crv_shopId r) (rs_recipient i) now then Some ''recipient-suppressed''
      else if rs_senderType i = SENDER_AUTOMATION then Some ''marketing-template-unverified''
      else recovery_runtime_eligibility D (crv_shopId r) (rs_messageId i))"

text \<open>
  \<open>now\<close> is sampled after the locks, \<open>permitNow\<close> after the checks. \<open>statement_timestamp()\<close>, which the permit
  carries, is the database's clock; it is read as the last time sampled.
\<close>

definition admit_recovery_text ::
  "outbound_library \<Rightarrow> time \<Rightarrow> time \<Rightarrow> recovery_send \<Rightarrow> outbound_db \<Rightarrow> permit \<times> outbound_db" where
  "admit_recovery_text L now permitNow i D =
     (if rs_messageId i = [] then (Permit_Suppressed ''missing-prepared-message'', D)
      else
        (case read_recovery_context D (rs_conversationId i) of
           None \<Rightarrow> (Permit_Suppressed ''not-recovery-linked'', D)
         | Some (c, r) \<Rightarrow>
        (case recovery_denial L now i c r D of
           Some reason \<Rightarrow> (Permit_Suppressed reason, D)
         | None \<Rightarrow>
        (case window_denial D (crv_id r) (oc_id c) permitNow of
           Some reason \<Rightarrow> (Permit_Suppressed reason, D)
         | None \<Rightarrow>
            if rs_expectedInboundVersion i \<noteq> None \<and> rs_expectedInboundVersion i \<noteq> Some (oc_inboundVersion c)
            then (Permit_Suppressed ''stale-inbound-version'', D)
            else
              write_permit (rs_messageId i) (recovery_guard i)
                (permitted (''arch040-auto-'' @ ol_sha256 L (rs_messageId i)) permitNow (oc_controlRevision c)) D))))"

section \<open>What every fence promises\<close>

text \<open>
  A fence admits a message only while it is pending and without a permit, writes the permit on that row and
  nothing else, and changes nothing when it refuses.
\<close>

definition message_keys :: "outbound_db \<Rightarrow> bool" where
  "message_keys D \<longleftrightarrow> distinct (map cm_id (ob_messages D))"

definition awaits_permit :: "outbound_message \<Rightarrow> bool" where
  "awaits_permit m \<longleftrightarrow> cm_direction m = OUTBOUND \<and> cm_status m = MSG_PENDING \<and> om_providerDispatchKey m = None"

locale send_fence =
  fixes admit :: "'i \<Rightarrow> outbound_db \<Rightarrow> permit \<times> outbound_db"
    and target :: "'i \<Rightarrow> id"
  assumes admitted: "admit i D = (Permit_Admitted, D') \<Longrightarrow> message_keys D \<Longrightarrow>
      \<exists>m key now revision. m \<in> set (ob_messages D) \<and> cm_id m = target i \<and> awaits_permit m \<and>
        D' = D\<lparr>ob_messages := update_key cm_id (target i) (permitted key now revision) (ob_messages D)\<rparr>"
    and refused: "admit i D = (Permit_Suppressed reason, D') \<Longrightarrow> message_keys D \<Longrightarrow> D' = D"
begin

lemma admits_unpermitted:
  assumes "admit i D = (Permit_Admitted, D')" "message_keys D" "find_outbound D (target i) = Some m"
  shows "awaits_permit m"
proof -
  from admitted [OF assms(1,2)] obtain n where n: "n \<in> set (ob_messages D)" "cm_id n = target i" "awaits_permit n"
    by blast
  with assms(2) have "find_outbound D (target i) = Some n"
    by (simp add: find_outbound_def message_keys_def find_row_key)
  with assms(3) n(3) show ?thesis by simp
qed

text \<open>A message with a permit is admitted by no fence any more.\<close>

lemma refuses_permitted:
  assumes "message_keys D" "find_outbound D (target i) = Some m" "om_providerDispatchKey m \<noteq> None"
  shows "fst (admit i D) \<noteq> Permit_Admitted"
  using admits_unpermitted [OF _ assms(1,2)] assms(3) by (cases "admit i D") (auto simp: awaits_permit_def)

lemma permit_is_written:
  assumes "admit i D = (Permit_Admitted, D')" "message_keys D"
  shows "\<exists>m. find_outbound D' (target i) = Some m \<and> om_providerDispatchKey m \<noteq> None \<and> cm_status m = MSG_PENDING"
proof -
  from admitted [OF assms] obtain m key now revision where m: "m \<in> set (ob_messages D)" "cm_id m = target i"
      "awaits_permit m"
    and D': "D' = D\<lparr>ob_messages := update_key cm_id (target i) (permitted key now revision) (ob_messages D)\<rparr>" by blast
  have "find_outbound D (target i) = Some m"
    using m(1,2) assms(2) by (simp add: find_outbound_def message_keys_def find_row_key)
  then have "find_outbound D' (target i) = Some (permitted key now revision m)"
    unfolding D' find_outbound_def by (simp add: find_key_update_key permitted_def m(2))
  with m(3) show ?thesis by (auto simp: permitted_def awaits_permit_def)
qed

end

lemma write_permit_spec:
  assumes "message_keys D"
  shows "write_permit i G f D = (Permit_Admitted, D') \<Longrightarrow>
      \<exists>m\<in>set (ob_messages D). cm_id m = i \<and> G m \<and> D' = D\<lparr>ob_messages := update_key cm_id i f (ob_messages D)\<rparr>"
    and "write_permit i G f D = (Permit_Suppressed r, D') \<Longrightarrow> D' = D"
proof -
  obtain n t where u: "update_many (\<lambda>m. cm_id m = i \<and> G m) f (ob_messages D) = (n, t)" by fastforce
  have keys: "distinct (map cm_id (ob_messages D))" using assms by (simp add: message_keys_def)
  {
    assume "write_permit i G f D = (Permit_Admitted, D')"
    with u have "n = 1" and D': "D' = D\<lparr>ob_messages := t\<rparr>" by (auto simp: write_permit_def split: if_splits)
    with u keys D' show "\<exists>m\<in>set (ob_messages D). cm_id m = i \<and> G m \<and>
        D' = D\<lparr>ob_messages := update_key cm_id i f (ob_messages D)\<rparr>"
      by (auto elim!: update_many_one [where key = cm_id and k = i and G = G])
  next
    assume "write_permit i G f D = (Permit_Suppressed r, D')"
    with u have n: "n \<noteq> 1" and D': "D' = D\<lparr>ob_messages := t\<rparr>" by (auto simp: write_permit_def split: if_splits)
    have "\<not> G m" if "m \<in> set (ob_messages D)" "cm_id m = i" for m
      using update_many_hit [where key = cm_id and G = G and f = f, OF keys that] u n by auto
    with u have "t = ob_messages D"
      using update_many_miss [where key = cm_id and k = i and G = G and f = f, OF keys] by simp
    with D' show "D' = D" by simp
  }
qed

interpretation general_fence: send_fence "\<lambda>(now, i). admit_general_send L now i" "\<lambda>(now, i). gs_messageId i" for L
proof
  fix i :: "time \<times> general_send" and D D'
  obtain now k where i: "i = (now, k)" by (cases i)
  assume "(case i of (now, i) \<Rightarrow> admit_general_send L now i) D = (Permit_Admitted, D')" and keys: "message_keys D"
  then have "\<exists>key now revision. write_permit (gs_messageId k) (general_guard (gs_conversationId k))
      (permitted key now revision) D = (Permit_Admitted, D')"
    by (auto simp: i admit_general_send_def split: if_splits option.splits)
  then obtain key now revision where "write_permit (gs_messageId k) (general_guard (gs_conversationId k))
      (permitted key now revision) D = (Permit_Admitted, D')" by blast
  from write_permit_spec(1) [OF keys this]
  show "\<exists>m key now revision. m \<in> set (ob_messages D) \<and> cm_id m = (case i of (now, i) \<Rightarrow> gs_messageId i) \<and> awaits_permit m \<and>
      D' = D\<lparr>ob_messages := update_key cm_id (case i of (now, i) \<Rightarrow> gs_messageId i) (permitted key now revision) (ob_messages D)\<rparr>"
    by (auto simp: i general_guard_def awaits_permit_def is_automated_outbound_def)
next
  fix i :: "time \<times> general_send" and D D' reason
  assume "(case i of (now, i) \<Rightarrow> admit_general_send L now i) D = (Permit_Suppressed reason, D')" "message_keys D"
  then show "D' = D"
    by (auto simp: admit_general_send_def split: if_splits option.splits prod.splits dest: write_permit_spec(2))
qed

interpretation recovery_fence: send_fence "\<lambda>(now, permitNow, i). admit_recovery_text L now permitNow i"
  "\<lambda>(now, permitNow, i). rs_messageId i" for L
proof
  fix i :: "time \<times> time \<times> recovery_send" and D D'
  obtain now permitNow k where i: "i = (now, permitNow, k)" by (cases i)
  assume "(case i of (now, permitNow, i) \<Rightarrow> admit_recovery_text L now permitNow i) D = (Permit_Admitted, D')"
    and keys: "message_keys D"
  then have "\<exists>key now revision.
      write_permit (rs_messageId k) (recovery_guard k) (permitted key now revision) D = (Permit_Admitted, D')"
    by (auto simp: i admit_recovery_text_def split: if_splits option.splits) blast+
  then obtain key now revision where
    "write_permit (rs_messageId k) (recovery_guard k) (permitted key now revision) D = (Permit_Admitted, D')" by blast
  from write_permit_spec(1) [OF keys this]
  show "\<exists>m key now revision. m \<in> set (ob_messages D) \<and> cm_id m = (case i of (now, permitNow, i) \<Rightarrow> rs_messageId i) \<and>
      awaits_permit m \<and>
      D' = D\<lparr>ob_messages := update_key cm_id (case i of (now, permitNow, i) \<Rightarrow> rs_messageId i) (permitted key now revision) (ob_messages D)\<rparr>"
    by (auto simp: i recovery_guard_def awaits_permit_def)
next
  fix i :: "time \<times> time \<times> recovery_send" and D D' reason
  assume "(case i of (now, permitNow, i) \<Rightarrow> admit_recovery_text L now permitNow i) D = (Permit_Suppressed reason, D')"
    "message_keys D"
  then show "D' = D"
    by (auto simp: admit_recovery_text_def split: if_splits option.splits prod.splits dest: write_permit_spec(2))
qed

end
