(* ===== verification/Outbound_Failure.thy ===== *)
theory Outbound_Failure
  imports Outbound_Fence Recovery_Billing
begin

text \<open>
  \<open>src/services/outbound-whatsapp-admission/outbound-provider-failure.service.ts\<close>: what becomes of an
  admitted message that is not sent. \<open>failPrepared\<close> takes back a message that has no permit yet, together
  with its usage event; after the provider's answer only a definite refusal is recorded, and the initial
  attempt of a recovery is closed in the same transaction.
\<close>

section \<open>The message and the usage event it owns\<close>

record owned_usage =
  ow_shopId :: id
  ow_message :: outbound_message
  ow_conversation :: outbound_conversation
  ow_usage :: "usage_event option"

definition outbound_shop :: "outbound_db \<Rightarrow> outbound_conversation \<Rightarrow> id option" where
  "outbound_shop D c = (case find_recovery D (oc_checkoutRecoveryId c) of
     Some r \<Rightarrow> Some (crv_shopId r) | None \<Rightarrow> oc_shopId c)"

definition read_owned_usage :: "outbound_db \<Rightarrow> id \<Rightarrow> owned_usage option" where
  "read_owned_usage D messageId =
     (case find_outbound D messageId of
        None \<Rightarrow> None
      | Some m \<Rightarrow>
          if cm_direction m \<noteq> OUTBOUND \<or> has_send_command D messageId \<or>
             (cm_senderType m \<noteq> SENDER_AUTOMATION \<and> cm_senderType m \<noteq> SENDER_AGENT) then None
          else
            (case find_outbound_conversation D (cm_conversationId m) of
               None \<Rightarrow> None \<comment> \<open>excluded by the foreign key\<close>
             | Some c \<Rightarrow>
                 let shopId = outbound_shop D c;
                     usage = take 2 (filter (is_automated_usage messageId) (db_usageEvents (ob_db D))) in
                 if \<not> truthy shopId \<or> (truthy (oc_shopId c) \<and> oc_shopId c \<noteq> shopId) \<or> 1 < length usage \<or>
                    (\<exists>u\<in>set usage. ue_shopId u \<noteq> the shopId \<or> ue_quantity u \<noteq> 1)
                 then None
                 else Some \<lparr>ow_shopId = the shopId, ow_message = m, ow_conversation = c,
                            ow_usage = (case usage of [] \<Rightarrow> None | u # _ \<Rightarrow> Some u)\<rparr>))"

section \<open>The initial attempt of a recovery\<close>

text \<open>What closing the attempt asks of its row; the lock before it asks the same.\<close>

definition is_closable_initial :: "id \<Rightarrow> id option \<Rightarrow> outbound_attempt \<Rightarrow> bool" where
  "is_closable_initial attemptId recoveryId a \<longleftrightarrow> oa_id a = attemptId \<and>
     Some (oa_checkoutRecoveryId a) = recoveryId \<and> oa_sequence a = 1 \<and> at_trigger a = INITIAL \<and>
     oa_status a \<in> {OUTREACH_PENDING, OUTREACH_CAPACITY_BLOCKED} \<and>
     at_sentAt a = None \<and> at_followUpDueAt a = None \<and> oa_outboundMessageId a = None"

definition lock_initial :: "outbound_db \<Rightarrow> owned_usage \<Rightarrow> id \<Rightarrow> string option \<Rightarrow> bool" where
  "lock_initial D ow attemptId recipient \<longleftrightarrow>
     (case ow_usage ow of None \<Rightarrow> False
      | Some u \<Rightarrow>
          let recoveryId = oc_checkoutRecoveryId (ow_conversation ow);
              attempts = filter (is_closable_initial attemptId recoveryId) (ob_attempts D);
              m = ow_message ow in
          ue_sourceType u = Some normal_source \<and> cm_senderType m = SENDER_AUTOMATION \<and> truthy recoveryId \<and>
          count_rows (\<lambda>s. sh_id s = ow_shopId ow) (db_shops (ob_db D)) = 1 \<and>
          length attempts = 1 \<and> (\<forall>r\<in>set_option recipient. oa_recipient (hd attempts) = r) \<and>
          count_rows (\<lambda>x. cm_id x = cm_id m \<and> cm_conversationId x = cm_conversationId m) (ob_messages D) = 1 \<and>
          (case read_owned_usage D (cm_id m) of None \<Rightarrow> False
           | Some fresh \<Rightarrow> ow_shopId fresh = ow_shopId ow \<and> map_option ue_id (ow_usage fresh) = Some (ue_id u) \<and>
               map_option ue_idempotencyKey (ow_usage fresh) = Some (ue_idempotencyKey u) \<and>
               oc_checkoutRecoveryId (ow_conversation fresh) = recoveryId))"

definition close_initial :: "time \<Rightarrow> owned_usage \<Rightarrow> id \<Rightarrow> string \<Rightarrow> outbound_db \<Rightarrow> outbound_db result" where
  "close_initial now ow attemptId failureCode D =
     (let (n, attempts) = update_many (is_closable_initial attemptId (oc_checkoutRecoveryId (ow_conversation ow)))
            (\<lambda>a. a\<lparr>oa_outboundMessageId := Some (cm_id (ow_message ow)), oa_status := OUTREACH_FAILED,
                    oa_failureCode := Some failureCode, oa_closedAt := Some now\<rparr>) (ob_attempts D) in
      and_then (require (n = 1) (Service_Error Plain_Error ''INITIAL_OUTREACH_FAILURE_LINEAGE_CONFLICT'')) (\<lambda>_.
      Inr (D\<lparr>ob_attempts := attempts\<rparr>)))"

definition is_owned_event :: "usage_event \<Rightarrow> usage_event \<Rightarrow> bool" where
  "is_owned_event u e \<longleftrightarrow> ue_id e = ue_id u \<and> ue_shopId e = ue_shopId u \<and> ue_sourceId e = ue_sourceId u \<and>
     ue_idempotencyKey e = ue_idempotencyKey u \<and> ue_metric e = OUTBOUND_AUTOMATED_MESSAGE"

definition delete_usage :: "(usage_event \<Rightarrow> bool) \<Rightarrow> outbound_db \<Rightarrow> outbound_db" where
  "delete_usage P D = D\<lparr>ob_db := (ob_db D)\<lparr>db_usageEvents := filter (\<lambda>e. \<not> P e) (db_usageEvents (ob_db D))\<rparr>\<rparr>"

definition delete_owned_usage :: "usage_event \<Rightarrow> outbound_db \<Rightarrow> outbound_db result" where
  "delete_owned_usage u D =
     and_then (require (count_rows (is_owned_event u) (db_usageEvents (ob_db D)) = 1)
       (Service_Error Plain_Error ''OUTBOUND_FAILURE_USAGE_LINEAGE_CONFLICT'')) (\<lambda>_.
     Inr (delete_usage (is_owned_event u) D))"

section \<open>Taking back a message that was not admitted to the provider\<close>

text \<open>
  Which attempt the usage event of the message opens, if any: the outer \<open>None\<close> is an early return, the inner
  one a message that is of no initial attempt.
\<close>

definition initial_to_fail :: "outbound_db \<Rightarrow> owned_usage \<Rightarrow> id \<Rightarrow> id option option" where
  "initial_to_fail D ow messageId =
     (case ow_usage ow of
        None \<Rightarrow> Some None
      | Some u \<Rightarrow>
          if \<not> starts_with ''recovery-outreach:'' (ue_idempotencyKey u) then Some None
          else
            let recoveryId = oc_checkoutRecoveryId (ow_conversation ow) in
            (case match_attempt_key (ue_idempotencyKey u) of
               None \<Rightarrow> None
             | Some attemptId \<Rightarrow>
                 if \<not> truthy recoveryId \<or> cm_senderType (ow_message ow) \<noteq> SENDER_AUTOMATION \<or>
                    ue_sourceType u \<noteq> Some normal_source then None
                 else
                   (case find_outbound_attempt D attemptId of
                      None \<Rightarrow> None
                    | Some a \<Rightarrow>
                        if Some (oa_checkoutRecoveryId a) \<noteq> recoveryId \<or>
                           (truthy (oa_outboundMessageId a) \<and> oa_outboundMessageId a \<noteq> Some messageId) \<or>
                           (\<exists>b\<in>set_option (attempt_of_outbound D messageId). oa_id b \<noteq> attemptId) then None
                        else if oa_sequence a = 1 \<and> at_trigger a = INITIAL then
                          (if lock_initial D ow attemptId None then Some (Some attemptId) else None)
                        else if oa_sequence a \<noteq> 2 \<or>
                           (at_trigger a \<noteq> NO_RESPONSE_FOLLOW_UP \<and> at_trigger a \<noteq> POST_WINDOW_FOLLOW_UP) then None
                        else Some None)))"

definition unsent_guard :: "id \<Rightarrow> bool \<Rightarrow> outbound_message \<Rightarrow> bool" where
  "unsent_guard conversationId isInitial m \<longleftrightarrow> cm_conversationId m = conversationId \<and> cm_direction m = OUTBOUND \<and>
     (cm_senderType m = SENDER_AUTOMATION \<or> (\<not> isInitial \<and> cm_senderType m = SENDER_AGENT)) \<and>
     has_no_permit m \<and> cm_providerMessageId m = None \<and> cm_sentAt m = None \<and> cm_deliveredAt m = None \<and>
     cm_readAt m = None \<and> cm_failedAt m = None \<and> cm_providerFailureCode m = None"

definition refuse_message ::
  "time \<Rightarrow> id \<Rightarrow> owned_usage \<Rightarrow> id option \<Rightarrow> outbound_db \<Rightarrow> outbound_db result" where
  "refuse_message now messageId ow initial D =
     (let guard = unsent_guard (cm_conversationId (ow_message ow)) (initial \<noteq> None);
          (n, messages) = update_many (\<lambda>m. cm_id m = messageId \<and> guard m \<and> cm_status m = MSG_PENDING)
            (\<lambda>m. m\<lparr>cm_status := MSG_FAILED\<rparr>) (ob_messages D) in
      if n = 0 \<and> find_row (\<lambda>m. cm_id m = messageId \<and> guard m \<and> cm_status m = MSG_FAILED) (ob_messages D) = None
      then Inr D
      else
        and_then (case initial of
            None \<Rightarrow> Inr (D\<lparr>ob_messages := messages\<rparr>)
          | Some attemptId \<Rightarrow> close_initial now ow attemptId ''PRE_PROVIDER_REFUSED'' (D\<lparr>ob_messages := messages\<rparr>)) (\<lambda>D1.
        case ow_usage ow of None \<Rightarrow> Inr D1 | Some u \<Rightarrow> delete_owned_usage u D1))"

definition fail_prepared_in_transaction :: "time \<Rightarrow> id \<Rightarrow> outbound_db \<Rightarrow> outbound_db result" where
  "fail_prepared_in_transaction now messageId D =
     (case read_owned_usage D messageId of
        None \<Rightarrow> Inr D
      | Some ow \<Rightarrow>
          if ow_usage ow = None \<and> cm_senderType (ow_message ow) = SENDER_AUTOMATION \<and>
             truthy (oc_checkoutRecoveryId (ow_conversation ow)) then Inr D
          else
            (case initial_to_fail D ow messageId of
               None \<Rightarrow> Inr D
             | Some initial \<Rightarrow> refuse_message now messageId ow initial D))"

section \<open>After the provider's answer\<close>

record whatsapp_error = provider_error +
  wer_providerCode :: "string option"

definition is_synchronous_recipient_failure :: "whatsapp_error \<Rightarrow> bool" where
  "is_synchronous_recipient_failure e \<longleftrightarrow> is_definitive_provider_failure (provider_error.truncate e) \<and>
     per_code e = Some ''provider-rejected'' \<and> is_recipient_undeliverable (wer_providerCode e)"

definition lineage_conflict :: failure where
  "lineage_conflict = Service_Error Plain_Error ''INITIAL_OUTREACH_FAILURE_LINEAGE_CONFLICT''"

text \<open>A definite refusal of an initial message: recorded with its attempt, the usage event deleted.\<close>

definition permitted_guard :: "id \<Rightarrow> outbound_message \<Rightarrow> bool" where
  "permitted_guard conversationId m \<longleftrightarrow> cm_conversationId m = conversationId \<and> cm_direction m = OUTBOUND \<and>
     cm_senderType m = SENDER_AUTOMATION \<and> cm_status m = MSG_PENDING \<and> has_full_permit m \<and>
     cm_providerMessageId m = None \<and> cm_sentAt m = None \<and> cm_deliveredAt m = None \<and> cm_readAt m = None \<and>
     cm_failedAt m = None"

definition reject_initial_in_transaction ::
  "time \<Rightarrow> whatsapp_error \<Rightarrow> id \<Rightarrow> string \<Rightarrow> outbound_db \<Rightarrow> outbound_db result" where
  "reject_initial_in_transaction now e messageId recipient D =
     (case read_owned_usage D messageId of
        None \<Rightarrow> Inl lineage_conflict
      | Some ow \<Rightarrow>
     (case ow_usage ow of
        None \<Rightarrow> Inl lineage_conflict
      | Some u \<Rightarrow>
     (case match_attempt_key (ue_idempotencyKey u) of
        None \<Rightarrow> Inl lineage_conflict
      | Some attemptId \<Rightarrow>
          and_then (require (lock_initial D ow attemptId (Some recipient)) lineage_conflict) (\<lambda>_.
          let (n, messages) = update_many
                (\<lambda>m. cm_id m = messageId \<and> permitted_guard (cm_conversationId (ow_message ow)) m)
                (\<lambda>m. m\<lparr>cm_status := MSG_FAILED, cm_failedAt := Some now,
                        cm_providerFailureCode := (if truthy (wer_providerCode e) then wer_providerCode e
                                                   else cm_providerFailureCode m)\<rparr>) (ob_messages D) in
          and_then (require (n = 1) lineage_conflict) (\<lambda>_.
          and_then (close_initial now ow attemptId ''PROVIDER_REJECTED'' (D\<lparr>ob_messages := messages\<rparr>)) (\<lambda>D1.
          delete_owned_usage u D1))))))"

text \<open>Any other definite refusal: two statements, the second of which is \<open>removeUsage\<close>.\<close>

definition record_rejection :: "time \<Rightarrow> whatsapp_error \<Rightarrow> id \<Rightarrow> outbound_db \<Rightarrow> outbound_db result" where
  "record_rejection now e messageId D =
     (let withCode = (per_code e = Some ''provider-rejected'' \<and> truthy (wer_providerCode e)) in
      and_then (update_unique cm_id messageId
          (\<lambda>m. if withCode then m\<lparr>cm_status := MSG_FAILED, cm_failedAt := Some now,
                   cm_providerFailureCode := wer_providerCode e\<rparr> else m\<lparr>cm_status := MSG_FAILED\<rparr>)
          (ob_messages D)) (\<lambda>(_, messages).
      Inr (D\<lparr>ob_messages := messages\<rparr>)))"

definition remove_usage :: "id \<Rightarrow> outbound_db \<Rightarrow> outbound_db" where
  "remove_usage messageId D = delete_usage (is_automated_usage messageId) D"

section \<open>What a step may do to the messages\<close>

text \<open>
  A message keeps its identity, never becomes pending again, and keeps permit and content once it has a
  permit. The steps of the sends only rewrite messages in this way and delete usage events.
\<close>

definition advances :: "outbound_message \<Rightarrow> outbound_message \<Rightarrow> bool" where
  "advances m n \<longleftrightarrow> cm_id n = cm_id m \<and> cm_conversationId n = cm_conversationId m \<and>
     cm_direction n = cm_direction m \<and> cm_senderType n = cm_senderType m \<and>
     (cm_status m \<noteq> MSG_PENDING \<longrightarrow> cm_status n \<noteq> MSG_PENDING) \<and>
     (om_providerDispatchKey m \<noteq> None \<longrightarrow>
        om_providerDispatchKey n = om_providerDispatchKey m \<and> om_content n = om_content m)"

definition db_advances :: "outbound_db \<Rightarrow> outbound_db \<Rightarrow> bool" where
  "db_advances D D' \<longleftrightarrow> (message_keys D \<longrightarrow> message_keys D' \<and>
     (\<forall>i m. find_outbound D i = Some m \<longrightarrow> (\<exists>n. find_outbound D' i = Some n \<and> advances m n)))"

definition housekeeping :: "outbound_db \<Rightarrow> outbound_db \<Rightarrow> bool" where
  "housekeeping D D' \<longleftrightarrow> (\<exists>g P. ob_messages D' = map g (ob_messages D) \<and>
     (\<forall>m\<in>set (ob_messages D). advances m (g m)) \<and>
     db_usageEvents (ob_db D') = filter P (db_usageEvents (ob_db D)) \<and>
     db_platformPolicy (ob_db D') = db_platformPolicy (ob_db D))"

lemma advances_refl [simp]: "advances m m"
  by (simp add: advances_def)

lemma advances_trans: "advances m n \<Longrightarrow> advances n k \<Longrightarrow> advances m k"
  by (auto simp: advances_def)

lemma db_advances_refl [simp]: "db_advances D D"
  by (auto simp: db_advances_def)

lemma db_advances_trans: "db_advances D1 D2 \<Longrightarrow> db_advances D2 D3 \<Longrightarrow> db_advances D1 D3"
  unfolding db_advances_def by (meson advances_trans)

lemma housekeepingI:
  assumes "ob_messages D' = map g (ob_messages D)" "\<And>m. m \<in> set (ob_messages D) \<Longrightarrow> advances m (g m)"
    and "db_usageEvents (ob_db D') = filter P (db_usageEvents (ob_db D))"
    and "db_platformPolicy (ob_db D') = db_platformPolicy (ob_db D)"
  shows "housekeeping D D'"
  using assms unfolding housekeeping_def by blast

lemma housekeeping_messages:
  assumes "ob_messages D' = map g (ob_messages D)" "\<And>m. m \<in> set (ob_messages D) \<Longrightarrow> advances m (g m)"
    and "ob_db D' = ob_db D"
  shows "housekeeping D D'"
proof (rule housekeepingI [where g = g and P = "\<lambda>_. True"])
  show "db_usageEvents (ob_db D') = filter (\<lambda>_. True) (db_usageEvents (ob_db D))" using assms(3) by simp
qed (use assms in auto)

lemma housekeeping_refl [simp]: "housekeeping D D"
  by (rule housekeeping_messages [where g = id]) auto

lemma housekeeping_trans:
  assumes "housekeeping D1 D2" "housekeeping D2 D3"
  shows "housekeeping D1 D3"
proof -
  from assms(1) obtain g P where 1: "ob_messages D2 = map g (ob_messages D1)"
    "\<forall>m\<in>set (ob_messages D1). advances m (g m)" "db_usageEvents (ob_db D2) = filter P (db_usageEvents (ob_db D1))"
    "db_platformPolicy (ob_db D2) = db_platformPolicy (ob_db D1)" unfolding housekeeping_def by blast
  from assms(2) obtain h Q where 2: "ob_messages D3 = map h (ob_messages D2)"
    "\<forall>m\<in>set (ob_messages D2). advances m (h m)" "db_usageEvents (ob_db D3) = filter Q (db_usageEvents (ob_db D2))"
    "db_platformPolicy (ob_db D3) = db_platformPolicy (ob_db D2)" unfolding housekeeping_def by blast
  show ?thesis
  proof (rule housekeepingI [where g = "h \<circ> g" and P = "\<lambda>e. P e \<and> Q e"])
    show "advances m ((h \<circ> g) m)" if "m \<in> set (ob_messages D1)" for m
      using 1(1,2) 2(2) that by (auto intro: advances_trans)
  qed (use 1 2 in \<open>auto simp: conj_commute\<close>)
qed

lemma find_row_map_key:
  assumes "\<And>m. m \<in> set t \<Longrightarrow> key (g m) = key m"
  shows "find_row (\<lambda>m. key m = i) (map g t) = map_option g (find_row (\<lambda>m. key m = i) t)"
  using assms by (induction t) auto

lemma housekeeping_advances:
  assumes "housekeeping D D'"
  shows "db_advances D D'"
proof -
  from assms obtain g where g: "ob_messages D' = map g (ob_messages D)"
    "\<forall>m\<in>set (ob_messages D). advances m (g m)" unfolding housekeeping_def by blast
  then have ids: "\<forall>m\<in>set (ob_messages D). cm_id (g m) = cm_id m" by (auto simp: advances_def)
  then have "map cm_id (ob_messages D') = map cm_id (ob_messages D)" by (simp add: g(1))
  moreover have "find_outbound D' i = map_option g (find_outbound D i)" for i
    unfolding find_outbound_def g(1) using ids by (intro find_row_map_key) auto
  ultimately show ?thesis
    using g(2) by (auto simp: db_advances_def message_keys_def find_outbound_def dest!: find_row_SomeD)
qed

lemma housekeeping_ok:
  assumes "housekeeping D D'" "outbound_ok N D"
  shows "outbound_ok N D'"
proof -
  from assms(1) obtain g P where g: "ob_messages D' = map g (ob_messages D)"
    "\<forall>m\<in>set (ob_messages D). advances m (g m)" "db_usageEvents (ob_db D') = filter P (db_usageEvents (ob_db D))"
    "db_platformPolicy (ob_db D') = db_platformPolicy (ob_db D)" unfolding housekeeping_def by blast
  have linked: "usage_linked D" using assms(2) by (simp add: outbound_ok_def)
  have count: "quantity_for D' s c t \<le> quantity_for D s c t" for s c t
  proof (rule quantity_for_mono [OF linked])
    show "\<exists>P. db_usageEvents (ob_db D') = filter P (db_usageEvents (ob_db D))" using g(3) by blast
    show "\<exists>m\<in>set (ob_messages D). is_automated_outbound c m \<and> cm_id m = i"
      if "\<exists>m\<in>set (ob_messages D'). is_automated_outbound c m \<and> cm_id m = i" for c i
      using that g(1,2) by (auto simp: advances_def is_automated_outbound_def)
  qed
  have "usage_linked D'"
    using linked g(1-3) by (fastforce simp: usage_linked_def advances_def)
  moreover have "within_limit N D'"
    using assms(2) count by (meson order.strict_trans1 order_trans outbound_ok_def within_limit_def)
  ultimately show ?thesis using assms(2) g(4) by (simp add: outbound_ok_def absolute_limit_le_def)
qed

section \<open>The steps of this service\<close>

lemma housekeeping_update:
  assumes "\<And>m. m \<in> set (ob_messages D) \<Longrightarrow> P m \<Longrightarrow> advances m (f m)"
  shows "housekeeping D (D\<lparr>ob_messages := update_rows P f (ob_messages D)\<rparr>)"
  by (rule housekeeping_messages [where g = "\<lambda>m. if P m then f m else m"])
    (use assms in \<open>auto simp: update_rows_def\<close>)

lemma housekeeping_delete: "housekeeping D (delete_usage P D)"
  by (rule housekeepingI [where g = id and P = "\<lambda>e. \<not> P e"]) (auto simp: delete_usage_def)

lemma delete_owned_usage_housekeeping: "delete_owned_usage u D = Inr D' \<Longrightarrow> housekeeping D D'"
  by (auto simp: delete_owned_usage_def and_then_Inr require_Inr housekeeping_delete)

lemma close_initial_housekeeping: "close_initial now ow a code D = Inr D' \<Longrightarrow> housekeeping D D'"
  by (auto simp: close_initial_def and_then_Inr require_Inr update_many_def intro!: housekeeping_messages [where g = id])

lemma refuse_message_housekeeping:
  assumes "refuse_message now messageId ow initial D = Inr D'"
  shows "housekeeping D D'"
proof (cases "D' = D")
  case False
  let ?P = "\<lambda>m. cm_id m = messageId \<and> unsent_guard (cm_conversationId (ow_message ow)) (initial \<noteq> None) m \<and>
    cm_status m = MSG_PENDING"
  let ?D0 = "D\<lparr>ob_messages := update_rows ?P (\<lambda>m. m\<lparr>cm_status := MSG_FAILED\<rparr>) (ob_messages D)\<rparr>"
  have "housekeeping D ?D0"
    by (rule housekeeping_update) (auto simp: advances_def unsent_guard_def has_no_permit_def)
  moreover from assms False obtain D1 where
    D1: "D1 = ?D0 \<or> (\<exists>a. close_initial now ow a ''PRE_PROVIDER_REFUSED'' ?D0 = Inr D1)"
    and D': "D' = D1 \<or> (\<exists>u. delete_owned_usage u D1 = Inr D')"
    by (auto simp: refuse_message_def update_many_def Let_def and_then_Inr split: if_splits option.splits)
  have "housekeeping ?D0 D1" using D1 by (elim disjE exE) (simp, rule close_initial_housekeeping)
  moreover have "housekeeping D1 D'" using D' by (elim disjE exE) (simp, rule delete_owned_usage_housekeeping)
  ultimately show ?thesis by (intro housekeeping_trans [of D ?D0 D'] housekeeping_trans [of ?D0 D1 D'])
qed simp

lemma fail_prepared_housekeeping:
  "fail_prepared_in_transaction now messageId D = Inr D' \<Longrightarrow> housekeeping D D'"
  by (auto simp: fail_prepared_in_transaction_def split: option.splits if_splits intro: refuse_message_housekeeping)

lemma reject_initial_housekeeping:
  assumes "reject_initial_in_transaction now e messageId recipient D = Inr D'"
  shows "housekeeping D D'"
proof -
  from assms obtain ow u a where made: "and_then (close_initial now ow a ''PROVIDER_REJECTED'' (D\<lparr>ob_messages :=
      update_rows (\<lambda>m. cm_id m = messageId \<and> permitted_guard (cm_conversationId (ow_message ow)) m)
        (\<lambda>m. m\<lparr>cm_status := MSG_FAILED, cm_failedAt := Some now,
                cm_providerFailureCode := (if truthy (wer_providerCode e) then wer_providerCode e
                                           else cm_providerFailureCode m)\<rparr>) (ob_messages D)\<rparr>))
      (\<lambda>D1. delete_owned_usage u D1) = Inr D'"
    by (auto simp: reject_initial_in_transaction_def and_then_Inr require_Inr update_many_def split: option.splits)
  let ?D0 = "D\<lparr>ob_messages :=
      update_rows (\<lambda>m. cm_id m = messageId \<and> permitted_guard (cm_conversationId (ow_message ow)) m)
        (\<lambda>m. m\<lparr>cm_status := MSG_FAILED, cm_failedAt := Some now,
                cm_providerFailureCode := (if truthy (wer_providerCode e) then wer_providerCode e
                                           else cm_providerFailureCode m)\<rparr>) (ob_messages D)\<rparr>"
  have "housekeeping D ?D0" by (rule housekeeping_update) (auto simp: advances_def)
  moreover from made obtain D1 where closed: "close_initial now ow a ''PROVIDER_REJECTED'' ?D0 = Inr D1"
    and deleted: "delete_owned_usage u D1 = Inr D'" unfolding and_then_Inr by (elim exE conjE)
  note close_initial_housekeeping [OF closed]
  moreover note delete_owned_usage_housekeeping [OF deleted]
  ultimately show ?thesis by (intro housekeeping_trans [of D ?D0 D'] housekeeping_trans [of ?D0 D1 D'])
qed

lemma record_rejection_housekeeping:
  assumes "record_rejection now e messageId D = Inr D'"
  shows "housekeeping D D'"
proof -
  let ?f = "\<lambda>m. if per_code e = Some ''provider-rejected'' \<and> truthy (wer_providerCode e)
    then m\<lparr>cm_status := MSG_FAILED, cm_failedAt := Some now, cm_providerFailureCode := wer_providerCode e\<rparr>
    else m\<lparr>cm_status := MSG_FAILED\<rparr>"
  from assms have "D' = D\<lparr>ob_messages := update_key cm_id messageId ?f (ob_messages D)\<rparr>"
    by (auto simp: record_rejection_def and_then_Inr Let_def dest: update_unique_InrD split: prod.splits)
  then show ?thesis
    by (intro housekeeping_messages [where g = "\<lambda>m. if cm_id m = messageId then ?f m else m"])
      (auto simp: update_key_def advances_def)
qed

lemma remove_usage_housekeeping: "housekeeping D (remove_usage messageId D)"
  by (simp add: remove_usage_def housekeeping_delete)

text \<open>A message with a permit is out of reach of \<open>failPrepared\<close>.\<close>

lemma fail_prepared_permitted:
  "fail_prepared_in_transaction now messageId (D\<lparr>ob_messages := update_key cm_id messageId (permitted key t revision) ms\<rparr>) =
    Inr (D\<lparr>ob_messages := update_key cm_id messageId (permitted key t revision) ms\<rparr>)"
proof -
  let ?ms = "update_key cm_id messageId (permitted key t revision) ms"
  let ?D = "D\<lparr>ob_messages := ?ms\<rparr>"
  have none: "\<not> unsent_guard c b m" if "m \<in> set ?ms" "cm_id m = messageId" for c b m
  proof -
    from that(1) obtain x where x: "m = (if cm_id x = messageId then permitted key t revision x else x)"
      unfolding update_key_def set_map by blast
    then have "m = permitted key t revision x" using that(2) by presburger
    then have "om_providerDispatchKey m = Some key" by (simp add: permitted_def)
    then show ?thesis by (simp add: unsent_guard_def has_no_permit_def)
  qed
  then have "count_rows (\<lambda>m. cm_id m = messageId \<and> unsent_guard c b m \<and> cm_status m = MSG_PENDING) ?ms = 0"
    "find_row (\<lambda>m. cm_id m = messageId \<and> unsent_guard c b m \<and> cm_status m = MSG_FAILED) ?ms = None" for c b
    unfolding count_rows_def find_row_None_iff length_0_conv filter_empty_conv by blast+
  then have "refuse_message now messageId ow initial ?D = Inr ?D" for ow initial
    by (simp add: refuse_message_def update_many_def Let_def)
  then show ?thesis by (simp add: fail_prepared_in_transaction_def split: option.split)
qed

end
