(* ===== verification/Outbound_Delivery.thy ===== *)
theory Outbound_Delivery
  imports Outbound_Failure
begin

text \<open>
  \<open>src/services/outbound-whatsapp-admission/outbound-message-delivery.service.ts\<close>: the sending of an admitted
  text. A send is a sequence of short transactions with the moderation and the provider between them, so
  several sends, of the same message or of others, interleave with one another and with everything else the
  program does. The model is a list of sends, each with the step it is at; the steps of the code are the
  transactions, and between any two of them anything else may happen that keeps what every writer of a
  message row keeps.
\<close>

section \<open>The transactions of a send\<close>

record send_request =
  sr_shopId :: id
  sr_messageId :: id
  sr_conversationId :: id
  sr_terminal :: bool
  sr_executionScope :: execution_scope
  sr_to :: string
  sr_text :: string
  sr_expectedControlRevision :: "int option"
  sr_expectedInboundVersion :: "int option"

definition outbound_text :: "send_request \<Rightarrow> string" where
  "outbound_text r = (if sr_terminal r then TERMINAL_MESSAGE else sr_text r)"

definition admitted_of :: "send_request \<Rightarrow> admitted_outbound" where
  "admitted_of r = \<lparr>ad_shopId = sr_shopId r, ad_messageId = sr_messageId r,
     ad_conversationId = sr_conversationId r, ad_terminal = sr_terminal r,
     ad_executionScope = sr_executionScope r\<rparr>"

definition has_completed_preparation :: "outbound_db \<Rightarrow> id \<Rightarrow> bool" where
  "has_completed_preparation D messageId \<longleftrightarrow>
     (case find_outbound D messageId of None \<Rightarrow> True
      | Some m \<Rightarrow> cm_status m \<noteq> MSG_PENDING \<or> om_providerDispatchKey m \<noteq> None \<or>
          om_providerDispatchAdmittedAt m \<noteq> None)"

text \<open>The compare-and-set of the content; \<open>P2025\<close> is the answer that there is no such row.\<close>

definition prepare_unadmitted_content :: "id \<Rightarrow> string \<Rightarrow> outbound_db \<Rightarrow> bool \<times> outbound_db" where
  "prepare_unadmitted_content messageId content D =
     (let P = (\<lambda>m. cm_id m = messageId \<and> cm_status m = MSG_PENDING \<and> om_providerDispatchKey m = None \<and>
                om_providerDispatchAdmittedAt m = None) in
      (count_rows P (ob_messages D) \<noteq> 0,
       D\<lparr>ob_messages := update_rows P (\<lambda>m. m\<lparr>om_content := content\<rparr>) (ob_messages D)\<rparr>))"

definition is_automated_sender :: "sender_type \<Rightarrow> bool" where
  "is_automated_sender s \<longleftrightarrow> s = SENDER_AGENT \<or> s = SENDER_AUTOMATION"

text \<open>What the moderation is asked about has to be what the row holds.\<close>

definition may_be_moderated :: "outbound_db \<Rightarrow> id \<Rightarrow> string \<Rightarrow> bool" where
  "may_be_moderated D messageId content \<longleftrightarrow>
     (case find_outbound D messageId of None \<Rightarrow> False
      | Some m \<Rightarrow> om_content m = content \<and> is_automated_sender (cm_senderType m))"

text \<open>\<open>readTurnOwnership\<close>: the recovery of the conversation and the revision of its control.\<close>

definition read_turn_ownership :: "outbound_db \<Rightarrow> id \<Rightarrow> (id \<times> int) option" where
  "read_turn_ownership D conversationId =
     map_option (\<lambda>(c, r). (crv_id r, oc_controlRevision c)) (read_recovery_context D conversationId)"

definition receipt_guard :: "id \<Rightarrow> outbound_message \<Rightarrow> bool" where
  "receipt_guard conversationId m \<longleftrightarrow> is_automated_outbound conversationId m \<and> cm_status m = MSG_PENDING \<and>
     has_full_permit m \<and> cm_providerMessageId m = None \<and> cm_sentAt m = None \<and> cm_deliveredAt m = None \<and>
     cm_readAt m = None \<and> cm_failedAt m = None"

definition mark_sent :: "time \<Rightarrow> id \<Rightarrow> id \<Rightarrow> id \<Rightarrow> outbound_db \<Rightarrow> outbound_db result" where
  "mark_sent now conversationId messageId providerMessageId D =
     and_then (update_unique oc_id conversationId (\<lambda>c. c\<lparr>oc_lastMessageAt := Some now\<rparr>) (ob_conversations D))
       (\<lambda>(_, conversations).
     let P = (\<lambda>m. cm_id m = messageId \<and> receipt_guard conversationId m) in
     and_then (require (count_rows P (ob_messages D) \<noteq> 0) (Prisma_Error P2025)) (\<lambda>_.
     Inr (D\<lparr>ob_conversations := conversations, ob_messages := update_rows P
       (\<lambda>m. m\<lparr>cm_providerMessageId := Some providerMessageId, cm_status := MSG_SENT, cm_sentAt := Some now\<rparr>)
       (ob_messages D)\<rparr>)))"

section \<open>The steps of a send\<close>

datatype moderation_verdict = Moderation_Allows | Moderation_Refuses | Moderation_Throws

datatype provider_reply = Provider_Accepted id | Provider_Failed whatsapp_error

datatype send_phase =
    Check_Preparation
  | Revalidate
  | Prepare_Content
  | Moderate
  | Read_Ownership
  | General_Fence
  | Read_Sender id int
  | Recovery_Fence sender_type id int
  | Call_Provider
  | Receipt id
  | After_Error whatsapp_error
  | Remove_Usage
  | Take_Back outbound_suppression
  | Send_Done outbound_result
  | Send_Thrown

text \<open>What a step reads from outside: the clock, the moderation's and the provider's answers.\<close>

record send_input =
  si_now :: time
  si_permitNow :: time
  si_verdict :: moderation_verdict
  si_reply :: provider_reply

definition general_send_of :: "send_request \<Rightarrow> general_send" where
  "general_send_of r = \<lparr>gs_shopId = sr_shopId r, gs_conversationId = sr_conversationId r,
     gs_messageId = sr_messageId r, gs_recipient = sr_to r, gs_expectedContent = outbound_text r,
     gs_expectedInboundVersion = sr_expectedInboundVersion r\<rparr>"

definition recovery_send_of :: "send_request \<Rightarrow> sender_type \<Rightarrow> id \<Rightarrow> int \<Rightarrow> recovery_send" where
  "recovery_send_of r senderType recoveryId revision = \<lparr>rs_senderType = senderType,
     rs_conversationId = sr_conversationId r, rs_shopId = sr_shopId r, rs_recoveryId = recoveryId,
     rs_expectedControlRevision = nullish (sr_expectedControlRevision r) revision,
     rs_expectedInboundVersion = sr_expectedInboundVersion r, rs_messageId = sr_messageId r,
     rs_recipient = sr_to r\<rparr>"

text \<open>The answer of a fence; a message that was admitted before is left alone.\<close>

definition after_fence :: "outbound_suppression \<Rightarrow> permit \<Rightarrow> send_phase" where
  "after_fence alreadyReason p =
     (case p of
        Permit_Admitted \<Rightarrow> Call_Provider
      | Permit_Suppressed reason \<Rightarrow>
          if reason = ''already-admitted-or-sent'' then Send_Done (Outbound_Suppressed alreadyReason)
          else Take_Back Sup_Conversation_Invalid)"

text \<open>
  A step that throws ends the send. The handling of an undeliverable recipient is a sequence of
  transactions of other services, which are among the other transactions of the system.
\<close>

definition or_throw :: "send_phase \<Rightarrow> outbound_db \<Rightarrow> outbound_db result \<Rightarrow> send_phase \<times> outbound_db" where
  "or_throw next D x = (case x of Inl _ \<Rightarrow> (Send_Thrown, D) | Inr D' \<Rightarrow> (next, D'))"

primrec send_phase_step ::
  "outbound_library \<Rightarrow> send_input \<Rightarrow> send_request \<Rightarrow> outbound_db \<Rightarrow> send_phase \<Rightarrow> send_phase \<times> outbound_db" where
  "send_phase_step L x r D Check_Preparation =
     (if has_completed_preparation D (sr_messageId r) then Send_Done (Outbound_Suppressed Sup_Duplicate)
      else Revalidate, D)"
| "send_phase_step L x r D Revalidate =
     (case evaluate_execution (ob_db D) (sr_shopId r) (sr_executionScope r) of
        None \<Rightarrow> Prepare_Content
      | Some reason \<Rightarrow> Take_Back (suppression_reason reason), D)"
| "send_phase_step L x r D Prepare_Content =
     (let (prepared, D') = prepare_unadmitted_content (sr_messageId r) (outbound_text r) D in
      (if prepared then Moderate else Send_Done (Outbound_Suppressed Sup_Duplicate), D'))"
| "send_phase_step L x r D Moderate =
     (if \<not> may_be_moderated D (sr_messageId r) (outbound_text r) then Take_Back Sup_Conversation_Invalid
      else
        (case si_verdict x of
           Moderation_Allows \<Rightarrow> Read_Ownership
         | Moderation_Refuses \<Rightarrow> Take_Back Sup_Conversation_Invalid
         | Moderation_Throws \<Rightarrow> Send_Thrown), D)"
| "send_phase_step L x r D Read_Ownership =
     (case read_turn_ownership D (sr_conversationId r) of
        None \<Rightarrow> if sr_executionScope r = Recovery_Scope then Take_Back Sup_Conversation_Invalid else General_Fence
      | Some (recoveryId, revision) \<Rightarrow> Read_Sender recoveryId revision, D)"
| "send_phase_step L x r D General_Fence =
     (let (p, D') = admit_general_send L (si_now x) (general_send_of r) D in (after_fence Sup_Duplicate p, D'))"
| "send_phase_step L x r D (Read_Sender recoveryId revision) =
     (case find_outbound D (sr_messageId r) of
        None \<Rightarrow> Take_Back Sup_Conversation_Invalid
      | Some m \<Rightarrow> if is_automated_sender (cm_senderType m)
          then Recovery_Fence (cm_senderType m) recoveryId revision else Take_Back Sup_Conversation_Invalid, D)"
| "send_phase_step L x r D (Recovery_Fence senderType recoveryId revision) =
     (let (p, D') = admit_recovery_text L (si_now x) (si_permitNow x)
            (recovery_send_of r senderType recoveryId revision) D in
      (after_fence Sup_Conversation_Invalid p, D'))"
| "send_phase_step L x r D Call_Provider =
     (case si_reply x of Provider_Accepted i \<Rightarrow> Receipt i | Provider_Failed e \<Rightarrow> After_Error e, D)"
| "send_phase_step L x r D (Receipt providerMessageId) =
     or_throw (Send_Done (Outbound_Admitted (admitted_of r))) D
       (mark_sent (si_now x) (sr_conversationId r) (sr_messageId r) providerMessageId D)"
| "send_phase_step L x r D (After_Error e) =
     (if is_definitive_provider_failure (provider_error.truncate e) \<and> \<not> is_synchronous_recipient_failure e
      then or_throw Remove_Usage D (record_rejection (si_now x) e (sr_messageId r) D)
      else (Send_Thrown, D))"
| "send_phase_step L x r D Remove_Usage = (Send_Thrown, remove_usage (sr_messageId r) D)"
| "send_phase_step L x r D (Take_Back reason) =
     or_throw (Send_Done (Outbound_Suppressed reason)) D
       (fail_prepared_in_transaction (si_now x) (sr_messageId r) D)"
| "send_phase_step L x r D (Send_Done result) = (Send_Done result, D)"
| "send_phase_step L x r D Send_Thrown = (Send_Thrown, D)"

section \<open>Sends side by side\<close>

text \<open>
  \<open>ss_calls\<close> records every message given to the provider, \<open>ss_allowed\<close> every text the moderation let pass.
  A process that dies or throws stops at its step; when it was calling the provider the message may have
  gone out, so the call counts. \<open>Other\<close> is any other transaction of the program: it may do what it likes as
  long as messages only advance and the limit is kept.
\<close>

record provider_call =
  pc_messageId :: id
  pc_to :: string
  pc_text :: string

record send_system =
  ss_db :: outbound_db
  ss_sends :: "(send_request \<times> send_phase) list"
  ss_calls :: "provider_call list"
  ss_allowed :: "(id \<times> string) list"

definition call_of :: "send_request \<Rightarrow> provider_call" where
  "call_of r = \<lparr>pc_messageId = sr_messageId r, pc_to = sr_to r, pc_text = outbound_text r\<rparr>"

definition calls_made :: "send_request \<Rightarrow> send_phase \<Rightarrow> provider_call list" where
  "calls_made r p = (if p = Call_Provider then [call_of r] else [])"

definition texts_allowed :: "send_request \<Rightarrow> send_phase \<Rightarrow> send_phase \<Rightarrow> (id \<times> string) list" where
  "texts_allowed r p q = (if p = Moderate \<and> q = Read_Ownership then [(sr_messageId r, outbound_text r)] else [])"

definition run_send :: "nat \<Rightarrow> send_request \<Rightarrow> send_phase \<Rightarrow> send_phase \<Rightarrow> outbound_db \<Rightarrow> send_system \<Rightarrow> send_system" where
  "run_send k r p q D s = s\<lparr>ss_db := D, ss_sends := (ss_sends s)[k := (r, q)],
     ss_calls := ss_calls s @ calls_made r p, ss_allowed := ss_allowed s @ texts_allowed r p q\<rparr>"

definition other_transaction :: "int \<Rightarrow> outbound_db \<Rightarrow> outbound_db \<Rightarrow> bool" where
  "other_transaction N D D' \<longleftrightarrow> db_advances D D' \<and> (outbound_ok N D \<longrightarrow> outbound_ok N D')"

inductive send_step :: "shared \<Rightarrow> outbound_library \<Rightarrow> int \<Rightarrow> send_system \<Rightarrow> send_system \<Rightarrow> bool"
  for S :: shared and L :: outbound_library and N :: int
where
  Begin_Send: "send_step S L N s (s\<lparr>ss_sends := ss_sends s @ [(r, Check_Preparation)]\<rparr>)"
| Run_Send: "k < length (ss_sends s) \<Longrightarrow> ss_sends s ! k = (r, p) \<Longrightarrow>
     send_phase_step L x r (ss_db s) p = (q, D') \<Longrightarrow> send_step S L N s (run_send k r p q D' s)"
| Throw_Send: "k < length (ss_sends s) \<Longrightarrow> ss_sends s ! k = (r, p) \<Longrightarrow> p \<notin> range Send_Done \<Longrightarrow>
     send_step S L N s (run_send k r p Send_Thrown (ss_db s) s)"
| Reserve_Message: "reserve_in_transaction S L ids now input (ss_db s) = Inr (result, D') \<Longrightarrow>
     send_step S L N s (s\<lparr>ss_db := D'\<rparr>)"
| Other: "other_transaction N (ss_db s) D' \<Longrightarrow> send_step S L N s (s\<lparr>ss_db := D'\<rparr>)"

inductive_cases send_stepE: "send_step S L N s s'"

inductive send_reachable :: "shared \<Rightarrow> outbound_library \<Rightarrow> int \<Rightarrow> outbound_db \<Rightarrow> send_system \<Rightarrow> bool"
  for S :: shared and L :: outbound_library and N :: int and D0 :: outbound_db
where
  Start: "send_reachable S L N D0 \<lparr>ss_db = D0, ss_sends = [], ss_calls = [], ss_allowed = []\<rparr>"
| Step: "send_reachable S L N D0 s \<Longrightarrow> send_step S L N s s' \<Longrightarrow> send_reachable S L N D0 s'"

section \<open>Every step keeps the messages and the limit\<close>

context send_fence
begin

lemma fence_housekeeping:
  assumes "admit i D = (p, D')" "message_keys D"
  shows "housekeeping D D'"
proof (cases p)
  case Permit_Admitted
  with assms(1) have "admit i D = (Permit_Admitted, D')" by simp
  from admitted [OF this assms(2)] obtain m key now revision where m: "m \<in> set (ob_messages D)" "cm_id m = target i" "awaits_permit m"
    and D': "D' = D\<lparr>ob_messages := update_key cm_id (target i) (permitted key now revision) (ob_messages D)\<rparr>"
    by blast
  have same: "n = m" if "n \<in> set (ob_messages D)" "cm_id n = target i" for n
    using assms(2) m(1,2) that by (intro key_inj [of cm_id]) (simp_all add: message_keys_def)
  show ?thesis
    by (rule housekeeping_messages [where g = "\<lambda>n. if cm_id n = target i then permitted key now revision n else n"])
      (use m(3) same in \<open>auto simp: D' update_key_def permitted_def advances_def awaits_permit_def\<close>)
next
  case (Permit_Suppressed reason)
  with assms have "D' = D" using refused [of i D reason D'] by simp
  then show ?thesis by simp
qed

end

lemma prepare_housekeeping:
  "prepare_unadmitted_content messageId content D = (b, D') \<Longrightarrow> housekeeping D D'"
  by (auto simp: prepare_unadmitted_content_def advances_def Let_def intro!: housekeeping_update)

lemma mark_sent_housekeeping:
  assumes "mark_sent now c messageId i D = Inr D'"
  shows "housekeeping D D'"
proof -
  from assms obtain conversations where D': "D' = D\<lparr>ob_conversations := conversations, ob_messages :=
      update_rows (\<lambda>m. cm_id m = messageId \<and> receipt_guard c m)
        (\<lambda>m. m\<lparr>cm_providerMessageId := Some i, cm_status := MSG_SENT, cm_sentAt := Some now\<rparr>) (ob_messages D)\<rparr>"
    by (auto simp: mark_sent_def and_then_Inr require_Inr Let_def)
  show ?thesis
    by (rule housekeeping_messages [where g = "\<lambda>m. if cm_id m = messageId \<and> receipt_guard c m
        then m\<lparr>cm_providerMessageId := Some i, cm_status := MSG_SENT, cm_sentAt := Some now\<rparr> else m"])
      (auto simp: D' update_rows_def advances_def)
qed

lemma or_throw_housekeeping:
  "or_throw next D x = (q, D') \<Longrightarrow> (\<And>E. x = Inr E \<Longrightarrow> housekeeping D E) \<Longrightarrow> housekeeping D D'"
  by (auto simp: or_throw_def split: sum.splits)

lemma send_phase_step_housekeeping:
  assumes "send_phase_step L x r D p = (q, D')" "message_keys D"
  shows "housekeeping D D'"
proof (cases p)
  case General_Fence
  with assms(1) obtain b where "admit_general_send L (si_now x) (general_send_of r) D = (b, D')"
    by (auto split: prod.splits)
  then show ?thesis
    using general_fence.fence_housekeeping [of L "(si_now x, general_send_of r)" D b D'] assms(2) by simp
next
  case (Recovery_Fence senderType recoveryId revision)
  let ?i = "recovery_send_of r senderType recoveryId revision"
  from Recovery_Fence assms(1) obtain b where
    "admit_recovery_text L (si_now x) (si_permitNow x) ?i D = (b, D')"
    by (auto split: prod.splits)
  then show ?thesis
    using recovery_fence.fence_housekeeping [of L "(si_now x, si_permitNow x, ?i)" D b D'] assms(2) by simp
qed (use assms(1) in \<open>auto split: if_splits prod.splits elim!: or_throw_housekeeping
    intro: prepare_housekeeping mark_sent_housekeeping record_rejection_housekeeping remove_usage_housekeeping
      fail_prepared_housekeeping\<close>)

lemma reserve_advances:
  assumes "reserve_in_transaction S L ids now input D = Inr (out, D')"
  shows "db_advances D D'"
proof -
  from assms have "D' = D \<or> (\<exists>t policy scope. admit_message L ids now input t policy scope D = Inr (out, D'))"
    by (fastforce dest: reserve_in_transaction_cases simp: admit_within_limit_def Let_def split: if_splits)
  then show ?thesis
  proof
    assume "\<exists>t policy scope. admit_message L ids now input t policy scope D = Inr (out, D')"
    then obtain t policy scope where made: "admit_message L ids now input t policy scope D = Inr (out, D')" by blast
    have "find_outbound D' i = Some m" if "find_outbound D i = Some m" for i m
      using that by (simp add: find_outbound_def admit_message_InrD(2) [OF made] find_row_snoc)
    then show ?thesis
      using admit_message_InrD(2,4) [OF made]
      by (auto simp: db_advances_def message_keys_def new_outbound_message_def)
  qed simp
qed

lemma send_step_db:
  assumes "send_step S L N s s'" "message_keys (ss_db s)"
  shows "db_advances (ss_db s) (ss_db s') \<and> (outbound_ok N (ss_db s) \<longrightarrow> outbound_ok N (ss_db s'))"
  using assms(1)
proof cases
  case (Run_Send k r p x q D')
  from send_phase_step_housekeeping [OF Run_Send(4) assms(2)]
  show ?thesis using Run_Send(1) by (auto simp: run_send_def intro: housekeeping_advances housekeeping_ok)
next
  case (Reserve_Message ids now input result D')
  then show ?thesis using reserve_advances reserve_in_transaction_ok by auto
qed (auto simp: run_send_def other_transaction_def)

lemma send_reachable_db:
  assumes "send_reachable S L N D0 s" "message_keys D0"
  shows "message_keys (ss_db s) \<and> (outbound_ok N D0 \<longrightarrow> outbound_ok N (ss_db s))"
  using assms(1)
proof induction
  case (Step s s')
  from send_step_db [OF Step(2)] Step.IH show ?case by (auto simp: db_advances_def)
qed (use assms(2) in simp)

section \<open>The provider is called once\<close>

definition calls_to :: "send_system \<Rightarrow> id \<Rightarrow> nat" where
  "calls_to s i = count_rows (\<lambda>c. pc_messageId c = i) (ss_calls s)"

definition is_caller :: "id \<Rightarrow> send_request \<times> send_phase \<Rightarrow> bool" where
  "is_caller i = (\<lambda>(r, p). sr_messageId r = i \<and> p = Call_Provider)"

definition callers_of :: "send_system \<Rightarrow> id \<Rightarrow> nat" where
  "callers_of s i = count_rows (is_caller i) (ss_sends s)"

definition has_permit_for :: "outbound_db \<Rightarrow> id \<Rightarrow> bool" where
  "has_permit_for D i \<longleftrightarrow> (\<exists>m\<in>set_option (find_outbound D i). om_providerDispatchKey m \<noteq> None)"

definition calls_ok :: "send_system \<Rightarrow> bool" where
  "calls_ok s \<longleftrightarrow> (\<forall>i. calls_to s i + callers_of s i \<le> 1 \<and>
     (0 < calls_to s i + callers_of s i \<longrightarrow> has_permit_for (ss_db s) i))"

lemma count_rows_update:
  "k < length t \<Longrightarrow> count_rows P (t[k := y]) + (if P (t ! k) then 1 else 0) =
     count_rows P t + (if P y then 1 else 0)"
proof (induction t arbitrary: k)
  case (Cons x t)
  then show ?case by (cases k) (auto simp: count_rows_def)
qed simp

lemma count_rows_append: "count_rows P (s @ t) = count_rows P s + count_rows P t"
  by (simp add: count_rows_def)

lemma has_permit_for_advances: "has_permit_for D i \<Longrightarrow> db_advances D D' \<Longrightarrow> message_keys D \<Longrightarrow> has_permit_for D' i"
  by (auto simp: has_permit_for_def db_advances_def advances_def) (metis option.set_intros)

context send_fence
begin

lemma fence_gives_permit:
  assumes "admit i D = (Permit_Admitted, D')" "message_keys D"
  shows "\<not> has_permit_for D (target i) \<and> has_permit_for D' (target i)"
proof
  show "\<not> has_permit_for D (target i)"
  proof
    assume "has_permit_for D (target i)"
    then obtain m where "find_outbound D (target i) = Some m" "om_providerDispatchKey m \<noteq> None"
      by (auto simp: has_permit_for_def)
    from refuses_permitted [OF assms(2) this] assms(1) show False by simp
  qed
  show "has_permit_for D' (target i)"
    using permit_is_written [OF assms] by (auto simp: has_permit_for_def)
qed

end

text \<open>The provider is called after a fence has found no permit and written one.\<close>

lemma enters_call:
  assumes "send_phase_step L x r D p = (Call_Provider, D')" "message_keys D"
  shows "p \<noteq> Call_Provider \<and> \<not> has_permit_for D (sr_messageId r) \<and> has_permit_for D' (sr_messageId r)"
proof (cases p)
  case General_Fence
  let ?i = "(si_now x, general_send_of r)"
  from General_Fence assms(1) have made: "admit_general_send L (si_now x) (general_send_of r) D = (Permit_Admitted, D')"
    by (auto simp: after_fence_def split: prod.splits permit.splits if_splits)
  have target: "gs_messageId (general_send_of r) = sr_messageId r" by (simp add: general_send_of_def)
  from general_fence.fence_gives_permit [of L ?i D D'] made assms(2)
  show ?thesis unfolding General_Fence by (simp add: target)
next
  case (Recovery_Fence senderType recoveryId revision)
  let ?i = "(si_now x, si_permitNow x, recovery_send_of r senderType recoveryId revision)"
  from Recovery_Fence assms(1) have made: "admit_recovery_text L (si_now x) (si_permitNow x)
      (recovery_send_of r senderType recoveryId revision) D = (Permit_Admitted, D')"
    by (auto simp: after_fence_def split: prod.splits permit.splits if_splits)
  have target: "rs_messageId (recovery_send_of r senderType recoveryId revision) = sr_messageId r"
    by (simp add: recovery_send_of_def)
  from recovery_fence.fence_gives_permit [of L ?i D D'] made assms(2)
  show ?thesis unfolding Recovery_Fence by (simp add: target)
qed (use assms(1) in \<open>auto simp: or_throw_def split: if_splits option.splits sum.splits prod.splits
    moderation_verdict.splits provider_reply.splits\<close>)

lemma calls_after_run:
  assumes "k < length (ss_sends s)" "ss_sends s ! k = (r, p)"
  shows "calls_to (run_send k r p q D s) i = calls_to s i + (if is_caller i (r, p) then 1 else 0)"
    and "callers_of (run_send k r p q D s) i + (if is_caller i (r, p) then 1 else 0) =
      callers_of s i + (if is_caller i (r, q) then 1 else 0)"
  using count_rows_update [OF assms(1), of "is_caller i" "(r, q)"] assms(2)
  by (simp_all add: calls_to_def callers_of_def run_send_def count_rows_append calls_made_def call_of_def
      is_caller_def) (auto simp: count_rows_def)

lemma run_send_calls_ok:
  assumes "calls_ok s" "k < length (ss_sends s)" "ss_sends s ! k = (r, p)" "message_keys (ss_db s)"
    and "db_advances (ss_db s) D'"
    and "q = Call_Provider \<Longrightarrow> p \<noteq> Call_Provider \<and> \<not> has_permit_for (ss_db s) (sr_messageId r) \<and>
           has_permit_for D' (sr_messageId r)"
  shows "calls_ok (run_send k r p q D' s)"
  unfolding calls_ok_def
proof (intro allI)
  fix i
  let ?s = "run_send k r p q D' s"
  note count = calls_after_run [OF assms(2,3), of q D' i]
  have old: "calls_to s i + callers_of s i \<le> 1" "0 < calls_to s i + callers_of s i \<Longrightarrow> has_permit_for (ss_db s) i"
    using assms(1) by (auto simp: calls_ok_def)
  have db: "ss_db ?s = D'" by (simp add: run_send_def)
  have keep: "has_permit_for (ss_db s) i \<Longrightarrow> has_permit_for D' i"
    using has_permit_for_advances assms(4,5) by blast
  show "calls_to ?s i + callers_of ?s i \<le> 1 \<and> (0 < calls_to ?s i + callers_of ?s i \<longrightarrow> has_permit_for (ss_db ?s) i)"
  proof (cases "is_caller i (r, q)")
    case True
    then have new: "\<not> is_caller i (r, p)" "\<not> has_permit_for (ss_db s) i" "has_permit_for D' i"
      using assms(6) by (auto simp: is_caller_def)
    then have "calls_to s i + callers_of s i = 0" using old(2) by blast
    with count new True db show ?thesis by simp
  next
    case False
    with count have "calls_to ?s i + callers_of ?s i = calls_to s i + callers_of s i" by simp
    with old keep db show ?thesis by simp
  qed
qed

lemma calls_ok_db:
  assumes "calls_ok s" "db_advances (ss_db s) D'" "message_keys (ss_db s)"
  shows "calls_ok (s\<lparr>ss_db := D'\<rparr>)"
  using assms has_permit_for_advances by (auto simp: calls_ok_def calls_to_def callers_of_def)

lemma send_step_calls_ok:
  assumes "send_step S L N s s'" "calls_ok s" "message_keys (ss_db s)"
  shows "calls_ok s'"
  using assms(1)
proof cases
  case (Begin_Send r)
  then show ?thesis
    using assms(2) by (simp add: calls_ok_def calls_to_def callers_of_def count_rows_def is_caller_def)
next
  case (Run_Send k r p x q D')
  show ?thesis unfolding Run_Send(1)
  proof (rule run_send_calls_ok [OF assms(2) Run_Send(2,3) assms(3)])
    show "db_advances (ss_db s) D'"
      by (rule housekeeping_advances [OF send_phase_step_housekeeping [OF Run_Send(4) assms(3)]])
    show "p \<noteq> Call_Provider \<and> \<not> has_permit_for (ss_db s) (sr_messageId r) \<and> has_permit_for D' (sr_messageId r)"
      if "q = Call_Provider" using enters_call Run_Send(4) assms(3) that by blast
  qed
next
  case (Throw_Send k r p)
  show ?thesis unfolding Throw_Send(1) by (rule run_send_calls_ok [OF assms(2) Throw_Send(2,3) assms(3)]) auto
next
  case (Reserve_Message ids now input result D')
  then show ?thesis using calls_ok_db [OF assms(2) _ assms(3)] reserve_advances by blast
next
  case (Other D')
  then show ?thesis using calls_ok_db [OF assms(2) _ assms(3)] by (auto simp: other_transaction_def)
qed

lemma send_reachable_calls_ok:
  assumes "send_reachable S L N D0 s" "message_keys D0"
  shows "calls_ok s"
  using assms(1)
proof induction
  case (Step s s')
  then show ?case using send_step_calls_ok send_reachable_db [OF _ assms(2)] by blast
qed (simp add: calls_ok_def calls_to_def callers_of_def count_rows_def)

section \<open>What is sent was allowed, what was sent was called\<close>

fun is_cleared :: "send_phase \<Rightarrow> bool" where
  "is_cleared Read_Ownership = True"
| "is_cleared General_Fence = True"
| "is_cleared (Read_Sender _ _) = True"
| "is_cleared (Recovery_Fence _ _ _) = True"
| "is_cleared Call_Provider = True"
| "is_cleared _ = False"

fun has_called :: "send_phase \<Rightarrow> bool" where
  "has_called (Receipt _) = True"
| "has_called (After_Error _) = True"
| "has_called Remove_Usage = True"
| "has_called (Send_Done (Outbound_Admitted _)) = True"
| "has_called _ = False"

definition texts_ok :: "send_system \<Rightarrow> bool" where
  "texts_ok s \<longleftrightarrow> (\<forall>c\<in>set (ss_calls s). (pc_messageId c, pc_text c) \<in> set (ss_allowed s)) \<and>
     (\<forall>(r, p)\<in>set (ss_sends s). (is_cleared p \<longrightarrow> (sr_messageId r, outbound_text r) \<in> set (ss_allowed s)) \<and>
        (has_called p \<longrightarrow> call_of r \<in> set (ss_calls s)))"

lemma send_phase_step_cleared:
  assumes "send_phase_step L x r D p = (q, D')" "is_cleared q"
  shows "(is_cleared p \<and> p \<noteq> Call_Provider) \<or> (p = Moderate \<and> q = Read_Ownership)"
  using assms by (cases p) (auto simp: or_throw_def after_fence_def split: if_splits option.splits sum.splits prod.splits
    moderation_verdict.splits provider_reply.splits permit.splits)

lemma send_phase_step_called:
  assumes "send_phase_step L x r D p = (q, D')" "has_called q"
  shows "has_called p \<or> p = Call_Provider"
  using assms by (cases p) (auto simp: or_throw_def after_fence_def split: if_splits option.splits sum.splits prod.splits
    moderation_verdict.splits provider_reply.splits permit.splits)

lemma run_send_texts_ok:
  assumes "texts_ok s" "k < length (ss_sends s)" "ss_sends s ! k = (r, p)"
    and "is_cleared q \<Longrightarrow> is_cleared p \<or> (p = Moderate \<and> q = Read_Ownership)"
    and "has_called q \<Longrightarrow> has_called p \<or> p = Call_Provider"
  shows "texts_ok (run_send k r p q D' s)"
proof -
  have "(r, p) \<in> set (ss_sends s)" using assms(2,3) nth_mem by metis
  then have rp: "is_cleared p \<Longrightarrow> (sr_messageId r, outbound_text r) \<in> set (ss_allowed s)"
    "has_called p \<Longrightarrow> call_of r \<in> set (ss_calls s)"
    using assms(1) by (auto simp: texts_ok_def)
  have "set ((ss_sends s)[k := (r, q)]) \<subseteq> insert (r, q) (set (ss_sends s))" by (rule set_update_subset_insert)
  then have sends: "\<And>x. x \<in> set ((ss_sends s)[k := (r, q)]) \<Longrightarrow> x = (r, q) \<or> x \<in> set (ss_sends s)" by blast
  have new: "(is_cleared q \<longrightarrow> (sr_messageId r, outbound_text r) \<in> set (ss_allowed (run_send k r p q D' s))) \<and>
      (has_called q \<longrightarrow> call_of r \<in> set (ss_calls (run_send k r p q D' s)))"
    using assms(4,5) rp by (auto simp: run_send_def calls_made_def texts_allowed_def)
  have calls: "(pc_messageId c, pc_text c) \<in> set (ss_allowed (run_send k r p q D' s))"
    if "c \<in> set (ss_calls (run_send k r p q D' s))" for c
    using that assms(1) rp(1)
    by (auto simp: run_send_def calls_made_def call_of_def texts_ok_def split: if_splits)
  show ?thesis
    unfolding texts_ok_def using calls new sends assms(1)
    by (fastforce simp: run_send_def texts_ok_def)
qed

lemma send_step_texts_ok:
  assumes "send_step S L N s s'" "texts_ok s"
  shows "texts_ok s'"
  using assms(1)
proof cases
  case (Run_Send k r p x q D')
  show ?thesis unfolding Run_Send(1)
    by (rule run_send_texts_ok [OF assms(2) Run_Send(2,3)])
      (use send_phase_step_cleared [OF Run_Send(4)] send_phase_step_called [OF Run_Send(4)] in blast)+
next
  case (Throw_Send k r p)
  show ?thesis unfolding Throw_Send(1) by (rule run_send_texts_ok [OF assms(2) Throw_Send(2,3)]) simp_all
qed (use assms(2) in \<open>auto simp: texts_ok_def\<close>)

lemma send_reachable_texts_ok: "send_reachable S L N D0 s \<Longrightarrow> texts_ok s"
proof (induction rule: send_reachable.induct)
  case (Step s s')
  from send_step_texts_ok [OF Step(2) Step.IH] show ?case .
qed (simp add: texts_ok_def)

section \<open>A send nothing comes in between of\<close>

primrec run_phases :: "outbound_library \<Rightarrow> send_request \<Rightarrow> send_input list \<Rightarrow> send_phase \<times> outbound_db \<Rightarrow> send_phase \<times> outbound_db" where
  "run_phases L r [] pD = pD"
| "run_phases L r (x # xs) pD = run_phases L r xs (send_phase_step L x r (snd pD) (fst pD))"

text \<open>
  A message that nothing speaks against: what holds of every one, what the fence of the conversations of no recovery
  asks for besides, and what the fence of a recovery asks for, at the times at which it samples the clock.
\<close>

definition sendable_row :: "outbound_library \<Rightarrow> outbound_db \<Rightarrow> send_request \<Rightarrow> outbound_message \<Rightarrow> outbound_conversation \<Rightarrow> bool" where
  "sendable_row L D r m c \<longleftrightarrow>
     message_keys D \<and> distinct (map oc_id (ob_conversations D)) \<and>
     m \<in> set (ob_messages D) \<and> cm_id m = sr_messageId r \<and> is_automated_outbound (sr_conversationId r) m \<and>
     cm_status m = MSG_PENDING \<and> has_no_permit m \<and> cm_providerMessageId m = None \<and> cm_sentAt m = None \<and>
     cm_deliveredAt m = None \<and> cm_readAt m = None \<and> cm_failedAt m = None \<and>
     evaluate_execution (ob_db D) (sr_shopId r) (sr_executionScope r) = None \<and> shop_is_active D (sr_shopId r) \<and>
     c \<in> set (ob_conversations D) \<and> oc_id c = sr_conversationId r \<and>
     (\<forall>v\<in>set_option (sr_expectedInboundVersion r). v = oc_inboundVersion c) \<and>
     \<not> has_local_no_contact L D (sr_shopId r) (sr_to r)"

definition general_sendable :: "send_request \<Rightarrow> outbound_conversation \<Rightarrow> bool" where
  "general_sendable r c \<longleftrightarrow> sr_executionScope r = General_Scope \<and> oc_shopId c = Some (sr_shopId r) \<and>
     oc_checkoutRecoveryId c = None \<and> oc_type c \<noteq> CONVERSATION_RECOVERY"

definition recovery_sendable ::
  "time \<Rightarrow> time \<Rightarrow> outbound_db \<Rightarrow> send_request \<Rightarrow> outbound_message \<Rightarrow> outbound_conversation \<Rightarrow> checkout_recovery \<Rightarrow> bool" where
  "recovery_sendable now permitNow D r m c v \<longleftrightarrow>
     sr_messageId r \<noteq> [] \<and> cm_senderType m = SENDER_AGENT \<and> crv_shopId v = sr_shopId r \<and>
     \<not> terminal_recovery (crv_status v) \<and> oc_controlMode c = CONTROL_AI \<and>
     (\<forall>n\<in>set_option (sr_expectedControlRevision r). n = oc_controlRevision c) \<and>
     \<not> is_suppressed_recipient D (sr_shopId r) (sr_to r) now \<and>
     recovery_runtime_eligibility D (sr_shopId r) (sr_messageId r) = None \<and>
     window_denial D (crv_id v) (sr_conversationId r) permitNow = None"

text \<open>The recovery decides which fence the send goes through, and so the number of its steps.\<close>

definition is_sendable ::
  "outbound_library \<Rightarrow> time \<Rightarrow> time \<Rightarrow> outbound_db \<Rightarrow> send_request \<Rightarrow> outbound_message \<Rightarrow> outbound_conversation \<Rightarrow> bool" where
  "is_sendable L now permitNow D r m c \<longleftrightarrow> sendable_row L D r m c \<and>
     (case read_recovery_context D (sr_conversationId r) of
        None \<Rightarrow> general_sendable r c
      | Some (_, v) \<Rightarrow> recovery_sendable now permitNow D r m c v)"

definition fence_step :: "outbound_db \<Rightarrow> send_request \<Rightarrow> nat" where
  "fence_step D r = (if read_recovery_context D (sr_conversationId r) = None then 5 else 6)"

text \<open>The permit of a send: its key and the time it carries.\<close>

definition permit_of :: "outbound_library \<Rightarrow> outbound_db \<Rightarrow> send_request \<Rightarrow> send_input \<Rightarrow> string \<times> time" where
  "permit_of L D r x =
     (if read_recovery_context D (sr_conversationId r) = None
      then (''arch045-general-'' @ ol_sha256 L (sr_messageId r), si_now x)
      else (''arch040-auto-'' @ ol_sha256 L (sr_messageId r), si_permitNow x))"

definition sent_message :: "string \<Rightarrow> time \<Rightarrow> int \<Rightarrow> time \<Rightarrow> id \<Rightarrow> string \<Rightarrow> outbound_message \<Rightarrow> outbound_message" where
  "sent_message key permitAt revision sentAt providerMessageId content m =
     (permitted key permitAt revision (m\<lparr>om_content := content\<rparr>))
       \<lparr>cm_providerMessageId := Some providerMessageId, cm_status := MSG_SENT, cm_sentAt := Some sentAt\<rparr>"

definition sent_db :: "string \<times> time \<Rightarrow> time \<Rightarrow> id \<Rightarrow> send_request \<Rightarrow> outbound_conversation \<Rightarrow> outbound_db \<Rightarrow> outbound_db" where
  "sent_db p sentAt providerMessageId r c D =
     D\<lparr>ob_conversations := update_key oc_id (sr_conversationId r) (\<lambda>c. c\<lparr>oc_lastMessageAt := Some sentAt\<rparr>) (ob_conversations D),
       ob_messages := update_key cm_id (sr_messageId r)
         (sent_message (fst p) (snd p) (oc_controlRevision c) sentAt providerMessageId (outbound_text r)) (ob_messages D)\<rparr>"

lemma update_rows_one:
  assumes "distinct (map key t)" "m \<in> set t" "key m = k" "G m"
  shows "update_rows (\<lambda>x. key x = k \<and> G x) f t = update_key key k f t"
    and "count_rows (\<lambda>x. key x = k \<and> G x) t = 1"
  using update_many_hit [where key = key and G = G and f = f, OF assms] by (simp_all add: update_many_def)

lemma update_key_twice:
  "(\<And>x. key (f x) = key x) \<Longrightarrow> update_key key k g (update_key key k f t) = update_key key k (\<lambda>x. g (f x)) t"
  by (simp add: update_key_def)

lemma update_key_distinct:
  "(\<And>x. key (f x) = key x) \<Longrightarrow> distinct (map key t) \<Longrightarrow> distinct (map key (update_key key k f t))"
  by (simp add: map_update_key)

lemma update_key_member: "m \<in> set t \<Longrightarrow> key m = k \<Longrightarrow> f m \<in> set (update_key key k f t)"
  by (auto simp: update_key_def)

lemma has_local_no_contact_messages [simp]:
  "has_local_no_contact L (D\<lparr>ob_messages := t\<rparr>) s n = has_local_no_contact L D s n"
  by (simp add: has_local_no_contact_def split: option.split)

lemma shop_is_active_messages [simp]: "shop_is_active (D\<lparr>ob_messages := t\<rparr>) s = shop_is_active D s"
  by (simp add: shop_is_active_def)

lemma recovery_reads_messages [simp]:
  "read_recovery_context (D\<lparr>ob_messages := t\<rparr>) n = read_recovery_context D n"
  "is_suppressed_recipient (D\<lparr>ob_messages := t\<rparr>) s a now = is_suppressed_recipient D s a now"
  "recovery_runtime_eligibility (D\<lparr>ob_messages := t\<rparr>) s n = recovery_runtime_eligibility D s n"
  by (simp_all add: read_recovery_context_def find_outbound_conversation_def find_recovery_def is_suppressed_recipient_def
      recovery_runtime_eligibility_def cong: option.case_cong)

lemma sendable_conversation: "sendable_row L D r m c \<Longrightarrow> find_outbound_conversation D (sr_conversationId r) = Some c"
  by (auto simp: sendable_row_def find_outbound_conversation_def intro!: find_row_key)

lemma sendable_context:
  assumes "sendable_row L D r m c" "read_recovery_context D (sr_conversationId r) = Some (c', v)"
  shows "c' = c"
  using assms(2) sendable_conversation [OF assms(1)] by (auto simp: read_recovery_context_def split: option.splits if_splits)

lemma find_general_conversation_sendable:
  assumes "sendable_row L D r m c" "general_sendable r c"
  shows "find_general_conversation (D\<lparr>ob_messages := t\<rparr>) (general_send_of r) = Some c"
  unfolding find_general_conversation_def
proof (rule find_row_unique)
  show "x = c" if "x \<in> set (ob_conversations (D\<lparr>ob_messages := t\<rparr>))"
    "oc_id x = gs_conversationId (general_send_of r) \<and> oc_shopId x = Some (gs_shopId (general_send_of r)) \<and>
      oc_checkoutRecoveryId x = None \<and> oc_type x \<noteq> CONVERSATION_RECOVERY" for x
    using assms that by (intro key_inj [of oc_id "ob_conversations D"]) (auto simp: sendable_row_def general_send_of_def)
qed (use assms in \<open>auto simp: sendable_row_def general_sendable_def general_send_of_def\<close>)

text \<open>The steps one by one, on the row of the message.\<close>

lemma sendable_message:
  assumes "sendable_row L D r m c" "\<And>x. cm_id (f x) = cm_id x"
  shows "find_outbound (D\<lparr>ob_messages := update_key cm_id (sr_messageId r) f (ob_messages D)\<rparr>) (sr_messageId r) = Some (f m)"
    and "find_outbound D (sr_messageId r) = Some m"
proof -
  show found: "find_outbound D (sr_messageId r) = Some m"
    using assms(1) by (auto simp: sendable_row_def find_outbound_def message_keys_def intro!: find_row_key)
  have "cm_id m = sr_messageId r" using assms(1) by (simp add: sendable_row_def)
  with found show "find_outbound (D\<lparr>ob_messages := update_key cm_id (sr_messageId r) f (ob_messages D)\<rparr>) (sr_messageId r) = Some (f m)"
    using assms(2) by (simp add: find_outbound_def find_key_update_key)
qed

lemma prepare_sendable:
  assumes "sendable_row L D r m c"
  shows "prepare_unadmitted_content (sr_messageId r) t D =
    (True, D\<lparr>ob_messages := update_key cm_id (sr_messageId r) (\<lambda>m. m\<lparr>om_content := t\<rparr>) (ob_messages D)\<rparr>)"
proof -
  let ?G = "\<lambda>m. cm_status m = MSG_PENDING \<and> om_providerDispatchKey m = None \<and> om_providerDispatchAdmittedAt m = None"
  have m: "distinct (map cm_id (ob_messages D))" "m \<in> set (ob_messages D)" "cm_id m = sr_messageId r" "?G m"
    using assms by (auto simp: sendable_row_def message_keys_def has_no_permit_def)
  show ?thesis
    using update_rows_one(1) [where key = cm_id and G = ?G and f = "\<lambda>m. m\<lparr>om_content := t\<rparr>", OF m]
      update_rows_one(2) [where key = cm_id and G = ?G, OF m]
    by (simp add: prepare_unadmitted_content_def)
qed

lemma permit_sendable:
  fixes t key now revision
  defines "f \<equiv> \<lambda>m. m\<lparr>om_content := t\<rparr> :: outbound_message" and "p \<equiv> permitted key now revision"
  assumes "sendable_row L D r m c" "G (f m)"
  shows "write_permit (sr_messageId r) G p (D\<lparr>ob_messages := update_key cm_id (sr_messageId r) f (ob_messages D)\<rparr>) =
    (Permit_Admitted, D\<lparr>ob_messages := update_key cm_id (sr_messageId r) (\<lambda>m. p (f m)) (ob_messages D)\<rparr>)"
proof -
  let ?t = "update_key cm_id (sr_messageId r) f (ob_messages D)"
  note facts = assms(3) [unfolded sendable_row_def]
  have keys: "distinct (map cm_id ?t)" using facts by (simp add: f_def message_keys_def update_key_distinct)
  have fm: "f m \<in> set ?t" using facts by (auto intro: update_key_member)
  have id: "cm_id (f m) = sr_messageId r" using facts by (simp add: f_def)
  have "update_rows (\<lambda>n. cm_id n = sr_messageId r \<and> G n) p ?t = update_key cm_id (sr_messageId r) (\<lambda>m. p (f m)) (ob_messages D)"
    using update_rows_one(1) [where key = cm_id and G = G and f = p, OF keys fm id assms(4)]
    by (simp add: update_key_twice f_def)
  moreover have "count_rows (\<lambda>n. cm_id n = sr_messageId r \<and> G n) ?t = 1"
    by (rule update_rows_one(2) [where key = cm_id and G = G, OF keys fm id assms(4)])
  ultimately show ?thesis by (simp add: write_permit_def update_many_def)
qed

lemma admit_general_sendable:
  assumes "sendable_row L D r m c" "general_sendable r c"
  defines "D1 \<equiv> D\<lparr>ob_messages := update_key cm_id (sr_messageId r) (\<lambda>m. m\<lparr>om_content := outbound_text r\<rparr>) (ob_messages D)\<rparr>"
  shows "admit_general_send L now (general_send_of r) D1 = (Permit_Admitted, D\<lparr>ob_messages :=
    update_key cm_id (sr_messageId r) (\<lambda>m. permitted (''arch045-general-'' @ ol_sha256 L (sr_messageId r)) now
      (oc_controlRevision c) (m\<lparr>om_content := outbound_text r\<rparr>)) (ob_messages D)\<rparr>)"
proof -
  let ?f = "\<lambda>m. m\<lparr>om_content := outbound_text r\<rparr> :: outbound_message"
  let ?p = "permitted (''arch045-general-'' @ ol_sha256 L (sr_messageId r)) now (oc_controlRevision c)"
  note facts = assms(1) [unfolded sendable_row_def]
  have keys: "distinct (map cm_id (ob_messages D1))"
    using facts by (simp add: D1_def message_keys_def update_key_distinct)
  have fm: "?f m \<in> set (ob_messages D1)" unfolding D1_def using facts by (auto intro: update_key_member)
  have row: "find_row (\<lambda>n. cm_id n = sr_messageId r \<and> is_automated_outbound (sr_conversationId r) n) (ob_messages D1) = Some (?f m)"
  proof (rule find_row_unique [OF fm])
    show "x = ?f m" if "x \<in> set (ob_messages D1)" "cm_id x = sr_messageId r \<and> is_automated_outbound (sr_conversationId r) x" for x
      using keys fm that facts by (intro key_inj [of cm_id "ob_messages D1"]) auto
  qed (use facts in \<open>auto simp: is_automated_outbound_def\<close>)
  have "general_guard (sr_conversationId r) (?f m)"
    using facts by (auto simp: general_guard_def is_automated_outbound_def has_no_permit_def)
  then have wrote: "write_permit (sr_messageId r) (general_guard (sr_conversationId r)) ?p D1 =
      (Permit_Admitted, D\<lparr>ob_messages := update_key cm_id (sr_messageId r) (\<lambda>m. ?p (?f m)) (ob_messages D)\<rparr>)"
    unfolding D1_def by (rule permit_sendable [OF assms(1)])
  have conversation: "find_general_conversation D1 (general_send_of r) = Some c"
    unfolding D1_def by (rule find_general_conversation_sendable [OF assms(1,2)])
  have "shop_is_active D1 (sr_shopId r)" "\<not> has_local_no_contact L D1 (sr_shopId r) (sr_to r)"
    using facts by (simp_all add: D1_def)
  moreover have "sr_expectedInboundVersion r \<in> {None, Some (oc_inboundVersion c)}"
    using facts by (cases "sr_expectedInboundVersion r") auto
  moreover have "cm_status (?f m) = MSG_PENDING" "om_providerDispatchKey (?f m) = None"
    "om_providerDispatchAdmittedAt (?f m) = None" "om_content (?f m) = outbound_text r"
    using facts by (auto simp: has_no_permit_def)
  ultimately show ?thesis
    using conversation row wrote by (auto simp: admit_general_send_def general_send_of_def truthy_def)
qed

text \<open>The text a send writes does not open or close the window of the customer.\<close>

lemma window_denial_content:
  "window_denial (D\<lparr>ob_messages := update_key cm_id i (\<lambda>m. m\<lparr>om_content := t\<rparr>) (ob_messages D)\<rparr>) v n now = window_denial D v n now"
proof -
  let ?f = "\<lambda>m. if cm_id m = i then m\<lparr>om_content := t\<rparr> else m :: outbound_message"
  have "map cm_createdAt (filter (is_verified_inbound n at now) (map ?f ms)) =
      map cm_createdAt (filter (is_verified_inbound n at now) ms)" for at ms
    by (induction ms) (auto simp: is_verified_inbound_def)
  then have "read_window_evidence (D\<lparr>ob_messages := update_key cm_id i (\<lambda>m. m\<lparr>om_content := t\<rparr>) (ob_messages D)\<rparr>) v n now =
      read_window_evidence D v n now"
    by (simp add: read_window_evidence_def update_key_def Let_def cong: option.case_cong)
  then show ?thesis by (simp add: window_denial_def)
qed

lemma admit_recovery_sendable:
  assumes "sendable_row L D r m c" "read_recovery_context D (sr_conversationId r) = Some (c', v)"
    and open_now: "recovery_sendable now permitNow D r m c v"
  shows "admit_recovery_text L now permitNow (recovery_send_of r SENDER_AGENT (crv_id v) (oc_controlRevision c))
      (D\<lparr>ob_messages := update_key cm_id (sr_messageId r) (\<lambda>m. m\<lparr>om_content := outbound_text r\<rparr>) (ob_messages D)\<rparr>) =
    (Permit_Admitted, D\<lparr>ob_messages := update_key cm_id (sr_messageId r) (\<lambda>m. permitted (''arch040-auto-'' @ ol_sha256 L (sr_messageId r))
      permitNow (oc_controlRevision c) (m\<lparr>om_content := outbound_text r\<rparr>)) (ob_messages D)\<rparr>)"
proof -
  let ?i = "recovery_send_of r SENDER_AGENT (crv_id v) (oc_controlRevision c)"
  let ?D1 = "D\<lparr>ob_messages := update_key cm_id (sr_messageId r) (\<lambda>m. m\<lparr>om_content := outbound_text r\<rparr>) (ob_messages D)\<rparr>"
  note facts = assms(1) [unfolded sendable_row_def] and ready = open_now [unfolded recovery_sendable_def]
  have c: "c' = c" "oc_id c = sr_conversationId r" using sendable_context [OF assms(1,2)] facts by simp_all
  have revision: "nullish (sr_expectedControlRevision r) (oc_controlRevision c) = oc_controlRevision c"
    using ready by (cases "sr_expectedControlRevision r") (auto simp: nullish_def)
  have denial: "recovery_denial L now ?i c v ?D1 = None"
    using facts ready revision by (simp add: recovery_denial_def recovery_send_of_def)
  have window: "window_denial ?D1 (crv_id v) (oc_id c) permitNow = None"
    unfolding window_denial_content c(2) using ready by simp
  have version: "sr_expectedInboundVersion r \<in> {None, Some (oc_inboundVersion c)}"
    using facts by (cases "sr_expectedInboundVersion r") auto
  have "recovery_guard ?i (m\<lparr>om_content := outbound_text r\<rparr>)"
    using facts ready by (simp add: recovery_guard_def recovery_send_of_def is_automated_outbound_def has_no_permit_def)
  note wrote = permit_sendable [where G = "recovery_guard ?i" and t = "outbound_text r", OF assms(1) this]
  show ?thesis
    using assms(2) c(1) denial window version ready wrote
    by (auto simp: admit_recovery_text_def recovery_send_of_def)
qed

lemma receipt_sendable:
  fixes key permitAt revision t
  assumes "sendable_row L D r m c"
  defines "f \<equiv> \<lambda>m. permitted key permitAt revision (m\<lparr>om_content := t\<rparr>)"
  shows "mark_sent now (sr_conversationId r) (sr_messageId r) i
      (D\<lparr>ob_messages := update_key cm_id (sr_messageId r) f (ob_messages D)\<rparr>) =
    Inr (D\<lparr>ob_conversations := update_key oc_id (sr_conversationId r) (\<lambda>c. c\<lparr>oc_lastMessageAt := Some now\<rparr>) (ob_conversations D),
      ob_messages := update_key cm_id (sr_messageId r) (sent_message key permitAt revision now i t) (ob_messages D)\<rparr>)"
proof -
  let ?t = "update_key cm_id (sr_messageId r) f (ob_messages D)"
  let ?g = "\<lambda>m. m\<lparr>cm_providerMessageId := Some i, cm_status := MSG_SENT, cm_sentAt := Some now\<rparr> :: outbound_message"
  note facts = assms(1) [unfolded sendable_row_def]
  have f: "\<And>x. cm_id (f x) = cm_id x" by (simp add: f_def permitted_def)
  have keys: "distinct (map cm_id ?t)" using facts f by (simp add: message_keys_def update_key_distinct)
  have fm: "f m \<in> set ?t" using facts by (auto intro: update_key_member)
  have id: "cm_id (f m) = sr_messageId r" using facts f by simp
  have guard: "receipt_guard (sr_conversationId r) (f m)"
    using facts by (auto simp: f_def permitted_def receipt_guard_def is_automated_outbound_def has_full_permit_def)
  have "update_rows (\<lambda>m. cm_id m = sr_messageId r \<and> receipt_guard (sr_conversationId r) m) ?g ?t =
      update_key cm_id (sr_messageId r) (sent_message key permitAt revision now i t) (ob_messages D)"
    using update_rows_one(1) [where key = cm_id and G = "receipt_guard (sr_conversationId r)" and f = ?g, OF keys fm id guard] f
    by (simp add: update_key_twice sent_message_def [abs_def] f_def)
  moreover have "count_rows (\<lambda>m. cm_id m = sr_messageId r \<and> receipt_guard (sr_conversationId r) m) ?t = 1"
    by (rule update_rows_one(2) [where key = cm_id and G = "receipt_guard (sr_conversationId r)", OF keys fm id guard])
  moreover have "update_unique oc_id (sr_conversationId r) (\<lambda>c. c\<lparr>oc_lastMessageAt := Some now\<rparr>) (ob_conversations D) =
      Inr (c\<lparr>oc_lastMessageAt := Some now\<rparr>,
        update_key oc_id (sr_conversationId r) (\<lambda>c. c\<lparr>oc_lastMessageAt := Some now\<rparr>) (ob_conversations D))"
    using facts by (intro update_unique_hit) auto
  ultimately show ?thesis by (simp add: mark_sent_def Let_def)
qed

lemma moderated_sendable:
  assumes "sendable_row L D r m c"
  shows "may_be_moderated (D\<lparr>ob_messages := update_key cm_id (sr_messageId r) (\<lambda>m. m\<lparr>om_content := t\<rparr>) (ob_messages D)\<rparr>)
    (sr_messageId r) t"
  using sendable_message(1) [OF assms, of "\<lambda>m. m\<lparr>om_content := t\<rparr>"] assms
  by (auto simp: may_be_moderated_def sendable_row_def is_automated_outbound_def is_automated_sender_def)

lemma list_of_eight: "length xs = 8 \<Longrightarrow> xs = [xs ! 0, xs ! 1, xs ! 2, xs ! 3, xs ! 4, xs ! 5, xs ! 6, xs ! 7]"
  by (rule nth_equalityI) (auto simp: less_Suc_eq numeral_nat nth_Cons split: nat.split)

lemma list_of_nine: "length xs = 9 \<Longrightarrow> xs = [xs ! 0, xs ! 1, xs ! 2, xs ! 3, xs ! 4, xs ! 5, xs ! 6, xs ! 7, xs ! 8]"
  by (rule nth_equalityI) (auto simp: less_Suc_eq numeral_nat nth_Cons split: nat.split)

lemma run_sendable:
  assumes ready: "is_sendable L (si_now (xs ! fence_step D r)) (si_permitNow (xs ! fence_step D r)) D r m c"
    and "length xs = fence_step D r + 3" "si_verdict (xs ! 3) = Moderation_Allows"
    and "si_reply (xs ! (fence_step D r + 1)) = Provider_Accepted i"
  shows "run_phases L r xs (Check_Preparation, D) =
    (Send_Done (Outbound_Admitted (admitted_of r)),
     sent_db (permit_of L D r (xs ! fence_step D r)) (si_now (xs ! (fence_step D r + 2))) i r c D)"
proof -
  have row: "sendable_row L D r m c" using ready by (simp add: is_sendable_def)
  note facts = row [unfolded sendable_row_def] and steps = prepare_sendable [OF row] moderated_sendable [OF row] receipt_sendable [OF row]
  have fresh: "\<not> has_completed_preparation D (sr_messageId r)"
    using sendable_message(2) [OF row, of "\<lambda>m. m"] facts by (simp add: has_completed_preparation_def has_no_permit_def)
  have runs: "evaluate_execution (ob_db D) (sr_shopId r) (sr_executionScope r) = None" using facts by blast
  show ?thesis
  proof (cases "read_recovery_context D (sr_conversationId r)")
    case None
    with ready have general: "general_sendable r c" by (simp add: is_sendable_def)
    have n: "fence_step D r = 5" "permit_of L D r x = (''arch045-general-'' @ ol_sha256 L (sr_messageId r), si_now x)" for x
      using None by (simp_all add: fence_step_def permit_of_def)
    have "sr_executionScope r \<noteq> Recovery_Scope" using general by (simp add: general_sendable_def)
    with None fresh runs show ?thesis
      using assms(2-4) unfolding n
      by (subst list_of_eight)
        (simp_all add: steps read_turn_ownership_def admit_general_sendable [OF row general] after_fence_def or_throw_def sent_db_def)
  next
    case (Some cv)
    then obtain v where context_: "read_recovery_context D (sr_conversationId r) = Some (c, v)"
      using sendable_context [OF row] by (cases cv) auto
    have n: "fence_step D r = 6" "permit_of L D r x = (''arch040-auto-'' @ ol_sha256 L (sr_messageId r), si_permitNow x)" for x
      using Some by (simp_all add: fence_step_def permit_of_def)
    have recovery: "recovery_sendable (si_now (xs ! 6)) (si_permitNow (xs ! 6)) D r m c v"
      using ready context_ by (simp add: is_sendable_def n(1))
    then have sender: "cm_senderType m = SENDER_AGENT" by (simp add: recovery_sendable_def)
    have "find_outbound (D\<lparr>ob_messages := update_key cm_id (sr_messageId r) (\<lambda>m. m\<lparr>om_content := t\<rparr>) (ob_messages D)\<rparr>) (sr_messageId r) =
        Some (m\<lparr>om_content := t\<rparr>)" for t
      by (rule sendable_message(1) [OF row]) simp
    with context_ fresh runs sender show ?thesis
      using assms(2-4) unfolding n
      by (subst list_of_nine)
        (simp_all add: steps read_turn_ownership_def admit_recovery_sendable [OF row context_ recovery] is_automated_sender_def
          after_fence_def or_throw_def sent_db_def)
  qed
qed

end
