(* ===== verification/Outbound_Initial.thy ===== *)
theory Outbound_Initial
  imports Outbound_Failure
begin

text \<open>
  The initial message of a recovery between its admission and its end: what the reservation leaves, what the
  lookup says of it, and what taking it back leaves. Admission, lookup, refusal and the idempotency fence
  are four services' reading of the same rows; the lemmas say that they agree.
\<close>

section \<open>Rows that refer to one another\<close>

text \<open>The keys of the tables and the references between them.\<close>

definition outreach_wf :: "outbound_db \<Rightarrow> bool" where
  "outreach_wf D \<longleftrightarrow> message_keys D \<and> distinct (map oa_id (ob_attempts D)) \<and>
     distinct (map oc_id (ob_conversations D)) \<and> distinct (map sh_id (db_shops (ob_db D))) \<and>
     (\<forall>c\<in>set (ob_conversations D). \<forall>d\<in>set (ob_conversations D).
        oc_checkoutRecoveryId c \<noteq> None \<and> oc_checkoutRecoveryId c = oc_checkoutRecoveryId d \<longrightarrow> c = d) \<and>
     (\<forall>a\<in>set (ob_attempts D). \<forall>i\<in>set_option (oa_outboundMessageId a). i \<in> cm_id ` set (ob_messages D)) \<and>
     (\<forall>c\<in>set (ob_commands D). \<forall>i\<in>set_option (cmd_outboundMessageId c). i \<in> cm_id ` set (ob_messages D)) \<and>
     usage_linked D"

text \<open>An initial message that was admitted and is still to be sent.\<close>

definition scope_ok :: "initial_scope \<Rightarrow> bool" where
  "scope_ok scope \<longleftrightarrow> in_shopId scope \<noteq> [] \<and> in_recoveryId scope \<noteq> [] \<and> in_outreachAttemptId scope \<noteq> [] \<and>
     list_all is_attempt_char (in_outreachAttemptId scope)"

definition open_attempt :: "outbound_db \<Rightarrow> initial_scope \<Rightarrow> outbound_attempt \<Rightarrow> bool" where
  "open_attempt D scope a \<longleftrightarrow> a \<in> set (ob_attempts D) \<and>
     is_closable_initial (in_outreachAttemptId scope) (Some (in_recoveryId scope)) a \<and> oa_closedAt a = None \<and>
     oa_recipient a \<noteq> [] \<and>
     (\<exists>r. find_recovery D (Some (in_recoveryId scope)) = Some r \<and> crv_shopId r = in_shopId scope \<and>
        crv_status r = RECOVERY_DETECTED)"

definition recovery_conversation :: "outbound_db \<Rightarrow> initial_scope \<Rightarrow> outbound_conversation \<Rightarrow> bool" where
  "recovery_conversation D scope c \<longleftrightarrow> c \<in> set (ob_conversations D) \<and>
     oc_checkoutRecoveryId c = Some (in_recoveryId scope) \<and> oc_type c = CONVERSATION_RECOVERY \<and>
     (oc_shopId c = None \<or> oc_shopId c = Some (in_shopId scope))"

definition fresh_message :: "outbound_conversation \<Rightarrow> outbound_message \<Rightarrow> bool" where
  "fresh_message c m \<longleftrightarrow> cm_id m \<noteq> [] \<and> cm_conversationId m = oc_id c \<and> cm_direction m = OUTBOUND \<and>
     cm_senderType m = SENDER_AUTOMATION \<and> cm_status m = MSG_PENDING \<and> has_no_permit m \<and>
     cm_providerMessageId m = None \<and> cm_sentAt m = None \<and> cm_deliveredAt m = None \<and> cm_readAt m = None \<and>
     cm_failedAt m = None \<and> cm_providerFailureCode m = None"

definition owned_event :: "outbound_db \<Rightarrow> initial_scope \<Rightarrow> outbound_message \<Rightarrow> usage_event \<Rightarrow> bool" where
  "owned_event D scope m u \<longleftrightarrow>
     filter (is_automated_usage (cm_id m)) (db_usageEvents (ob_db D)) = [u] \<and>
     filter (\<lambda>e. ue_idempotencyKey e = outreach_key (in_outreachAttemptId scope)) (db_usageEvents (ob_db D)) = [u] \<and>
     filter (\<lambda>e. ue_id e = ue_id u) (db_usageEvents (ob_db D)) = [u] \<and>
     ue_shopId u = in_shopId scope \<and> ue_sourceType u = Some normal_source \<and> ue_quantity u = 1"

definition prepared_initial ::
  "outbound_db \<Rightarrow> initial_scope \<Rightarrow> outbound_attempt \<Rightarrow> outbound_conversation \<Rightarrow> outbound_message \<Rightarrow> usage_event \<Rightarrow> bool" where
  "prepared_initial D scope a c m u \<longleftrightarrow> scope_ok scope \<and> outreach_wf D \<and> open_attempt D scope a \<and>
     recovery_conversation D scope c \<and> m \<in> set (ob_messages D) \<and> fresh_message c m \<and>
     \<not> has_send_command D (cm_id m) \<and> attempt_of_outbound D (cm_id m) = None \<and> owned_event D scope m u \<and>
     count_rows (\<lambda>s. sh_id s = in_shopId scope) (db_shops (ob_db D)) = 1"

section \<open>The lookup finds it\<close>

lemma find_row_filter_case: "find_row P t = (case filter P t of [] \<Rightarrow> None | x # _ \<Rightarrow> Some x)"
  by (induction t) auto

lemma filter_one_key:
  assumes "distinct (map key t)" "r \<in> set t" "P r" "\<And>x. P x \<Longrightarrow> key x = key r"
  shows "filter P t = [r]"
  using assms
proof (induction t)
  case (Cons x t)
  show ?case
  proof (cases "x = r")
    case True
    have "\<not> P y" if "y \<in> set t" for y
    proof
      assume "P y"
      from Cons.prems(4) [OF this] True have "key x \<in> key ` set t" using that by (metis image_eqI)
      with Cons.prems(1) show False by simp
    qed
    with True Cons.prems(3) show ?thesis by (simp add: filter_empty_conv)
  next
    case False
    with Cons.prems(2) have r: "r \<in> set t" by simp
    have "\<not> P x"
    proof
      assume "P x"
      from Cons.prems(4) [OF this] r have "key x \<in> key ` set t" by (metis image_eqI)
      with Cons.prems(1) show False by simp
    qed
    with Cons.IH [OF _ r Cons.prems(3,4)] Cons.prems(1) show ?thesis by simp
  qed
qed simp

lemma prepared_attempt:
  assumes "outreach_wf D" "open_attempt D scope a"
  shows "find_outbound_attempt D (in_outreachAttemptId scope) = Some a"
    and "filter (is_closable_initial (in_outreachAttemptId scope) (Some (in_recoveryId scope))) (ob_attempts D) = [a]"
proof -
  have a: "distinct (map oa_id (ob_attempts D))" "a \<in> set (ob_attempts D)" "oa_id a = in_outreachAttemptId scope"
    "is_closable_initial (in_outreachAttemptId scope) (Some (in_recoveryId scope)) a"
    using assms by (auto simp: outreach_wf_def open_attempt_def is_closable_initial_def)
  then show "find_outbound_attempt D (in_outreachAttemptId scope) = Some a"
    by (simp add: find_outbound_attempt_def find_row_key)
  have "oa_id x = oa_id a" if "is_closable_initial (in_outreachAttemptId scope) (Some (in_recoveryId scope)) x" for x
    using that a(3) by (simp add: is_closable_initial_def)
  then show "filter (is_closable_initial (in_outreachAttemptId scope) (Some (in_recoveryId scope))) (ob_attempts D) = [a]"
    by (intro filter_one_key [where key = oa_id] a)
qed

lemma recovery_conversation_found:
  assumes "outreach_wf D" "recovery_conversation D scope c"
  shows "find_recovery_conversation D scope = Some c"
    and "find_outbound_conversation D (oc_id c) = Some c"
proof -
  have "find_row (\<lambda>x. oc_checkoutRecoveryId x = Some (in_recoveryId scope)) (ob_conversations D) = Some c"
    using assms by (intro find_row_unique) (auto simp: outreach_wf_def recovery_conversation_def)
  with assms(2) show "find_recovery_conversation D scope = Some c"
    by (auto simp: find_recovery_conversation_def recovery_conversation_def)
  show "find_outbound_conversation D (oc_id c) = Some c"
    using assms by (auto simp: find_outbound_conversation_def outreach_wf_def recovery_conversation_def intro!: find_row_key)
qed

lemma outbound_found: "message_keys D \<Longrightarrow> m \<in> set (ob_messages D) \<Longrightarrow> find_outbound D (cm_id m) = Some m"
  by (simp add: find_outbound_def message_keys_def find_row_key)

lemma open_attempt_initial: "open_attempt D scope a \<Longrightarrow> is_initial_attempt D scope a"
  by (auto simp: open_attempt_def is_initial_attempt_def is_closable_initial_def)

lemma owned_usage_found:
  "owned_event D scope m u \<Longrightarrow> find_usage_by_key D (outreach_key (in_outreachAttemptId scope)) = Some u"
  by (simp add: owned_event_def find_usage_by_key_def find_row_filter_case)

lemma filter_singleton: "filter P t = [x] \<Longrightarrow> P x \<and> x \<in> set t"
  by (drule arg_cong [where f = set]) auto

lemma owned_event_source: "owned_event D scope m u \<Longrightarrow> ue_sourceId u = Some (cm_id m) \<and> ue_metric u = OUTBOUND_AUTOMATED_MESSAGE"
  by (auto simp: owned_event_def is_automated_usage_def dest!: filter_singleton)

lemma inspect_message:
  assumes "scope_ok scope" "find_outbound_attempt D (in_outreachAttemptId scope) = Some a"
    "is_initial_attempt D scope a" "find_usage_by_key D (outreach_key (in_outreachAttemptId scope)) = usage"
    "\<forall>u\<in>set_option usage. \<not> usage_conflicts scope a u" "find_recovery_conversation D scope = Some c"
    "(case Option.bind usage ue_sourceId of None \<Rightarrow> oa_outboundMessageId a | Some k \<Rightarrow> Some k) = Some (cm_id m)"
    "cm_id m \<noteq> []" "find_outbound D (cm_id m) = Some m" "is_initial_message D (oc_id c) a m"
  shows "inspect_initial_outreach_admission D scope = message_lookup D usage a m"
  using assms by (simp add: inspect_initial_outreach_admission_def scope_ok_def truthy_def)

lemma inspect_prepared:
  assumes "prepared_initial D scope a c m u"
  shows "inspect_initial_outreach_admission D scope = Initial_Prepared m"
proof -
  note facts = assms [unfolded prepared_initial_def]
  have u: "ue_sourceId u = Some (cm_id m)" "ue_metric u = OUTBOUND_AUTOMATED_MESSAGE" "cm_id m \<noteq> []"
    using facts owned_event_source by (auto simp: fresh_message_def)
  have "inspect_initial_outreach_admission D scope = message_lookup D (Some u) a m"
  proof (rule inspect_message [where c = c])
    show "find_outbound_attempt D (in_outreachAttemptId scope) = Some a" using facts prepared_attempt by blast
    show "find_usage_by_key D (outreach_key (in_outreachAttemptId scope)) = Some u" using facts owned_usage_found by blast
    show "\<forall>v\<in>set_option (Some u). \<not> usage_conflicts scope a v"
      using facts u by (auto simp: usage_conflicts_def owned_event_def normal_source_def open_attempt_def
          is_closable_initial_def truthy_def)
    show "find_recovery_conversation D scope = Some c" using facts recovery_conversation_found by blast
    show "find_outbound D (cm_id m) = Some m" using facts by (intro outbound_found) (auto simp: outreach_wf_def)
    show "is_initial_message D (oc_id c) a m" using facts by (auto simp: is_initial_message_def fresh_message_def)
  qed (use facts u open_attempt_initial in auto)
  also have "\<dots> = Initial_Prepared m"
    using facts by (auto simp: message_lookup_def fresh_message_def has_no_receipt_def truthy_def is_eligible_attempt_def
        open_attempt_def is_closable_initial_def)
  finally show ?thesis .
qed

text \<open>With a permit, or with any column a receipt sets, the outcome is unknown until the message leaves PENDING.\<close>

lemma inspect_permitted:
  assumes "prepared_initial D scope a c m u"
  shows "inspect_initial_outreach_admission (D\<lparr>ob_messages :=
      update_key cm_id (cm_id m) (permitted key now revision) (ob_messages D)\<rparr>) scope = Initial_Outcome_Unknown"
proof -
  let ?D = "D\<lparr>ob_messages := update_key cm_id (cm_id m) (permitted key now revision) (ob_messages D)\<rparr>"
  let ?m = "permitted key now revision m"
  note facts = assms [unfolded prepared_initial_def]
  have u: "ue_sourceId u = Some (cm_id m)" "ue_metric u = OUTBOUND_AUTOMATED_MESSAGE" "cm_id m \<noteq> []"
    using facts owned_event_source by (auto simp: fresh_message_def)
  have same: "find_outbound_attempt ?D = find_outbound_attempt D" "find_recovery ?D = find_recovery D"
    "find_usage_by_key ?D = find_usage_by_key D" "find_recovery_conversation ?D = find_recovery_conversation D"
    "has_send_command ?D = has_send_command D" "attempt_of_outbound ?D = attempt_of_outbound D"
    by (auto simp: fun_eq_iff find_outbound_attempt_def find_recovery_def find_usage_by_key_def
        find_recovery_conversation_def has_send_command_def attempt_of_outbound_def)
  have id: "cm_id ?m = cm_id m" by (simp add: permitted_def)
  have "inspect_initial_outreach_admission ?D scope = message_lookup ?D (Some u) a ?m"
  proof (rule inspect_message [where c = c])
    show "find_outbound_attempt ?D (in_outreachAttemptId scope) = Some a"
      unfolding same using facts prepared_attempt by blast
    show "find_usage_by_key ?D (outreach_key (in_outreachAttemptId scope)) = Some u"
      unfolding same using facts owned_usage_found by blast
    show "\<forall>v\<in>set_option (Some u). \<not> usage_conflicts scope a v"
      using facts u by (auto simp: usage_conflicts_def owned_event_def normal_source_def open_attempt_def
          is_closable_initial_def truthy_def)
    show "find_recovery_conversation ?D scope = Some c"
      unfolding same using facts recovery_conversation_found by blast
    have "find_outbound D (cm_id m) = Some m" using facts by (intro outbound_found) (auto simp: outreach_wf_def)
    then show "find_outbound ?D (cm_id ?m) = Some ?m"
      by (simp add: find_outbound_def find_key_update_key permitted_def)
    show "is_initial_message ?D (oc_id c) a ?m"
      using facts unfolding is_initial_message_def same by (auto simp: fresh_message_def permitted_def)
    show "is_initial_attempt ?D scope a"
      using open_attempt_initial facts unfolding is_initial_attempt_def same by blast
  qed (use facts u id in auto)
  also have "\<dots> = Initial_Outcome_Unknown"
    using facts by (auto simp: message_lookup_def fresh_message_def has_no_permit_def permitted_def)
  finally show ?thesis .
qed

section \<open>Taking it back\<close>

definition refused_attempt :: "time \<Rightarrow> id \<Rightarrow> outbound_attempt \<Rightarrow> outbound_attempt" where
  "refused_attempt now messageId a = a\<lparr>oa_outboundMessageId := Some messageId, oa_status := OUTREACH_FAILED,
     oa_failureCode := Some ''PRE_PROVIDER_REFUSED'', oa_closedAt := Some now\<rparr>"

definition taken_back :: "time \<Rightarrow> initial_scope \<Rightarrow> outbound_message \<Rightarrow> usage_event \<Rightarrow> outbound_db \<Rightarrow> outbound_db" where
  "taken_back now scope m u D = delete_usage (is_owned_event u)
     (D\<lparr>ob_messages := update_key cm_id (cm_id m) (\<lambda>m. m\<lparr>cm_status := MSG_FAILED\<rparr>) (ob_messages D),
        ob_attempts := update_key oa_id (in_outreachAttemptId scope) (refused_attempt now (cm_id m)) (ob_attempts D)\<rparr>)"

lemma read_owned_prepared:
  assumes "prepared_initial D scope a c m u"
  shows "read_owned_usage D (cm_id m) =
    Some \<lparr>ow_shopId = in_shopId scope, ow_message = m, ow_conversation = c, ow_usage = Some u\<rparr>"
proof -
  note facts = assms [unfolded prepared_initial_def]
  have "find_outbound D (cm_id m) = Some m" using facts by (intro outbound_found) (auto simp: outreach_wf_def)
  moreover have "find_outbound_conversation D (cm_conversationId m) = Some c"
    using facts recovery_conversation_found(2) [of D scope c] by (simp add: fresh_message_def)
  moreover have "outbound_shop D c = Some (in_shopId scope)"
    using facts by (auto simp: outbound_shop_def recovery_conversation_def open_attempt_def)
  moreover have "in_shopId scope \<noteq> []" "oc_shopId c = None \<or> oc_shopId c = Some (in_shopId scope)"
    using facts by (auto simp: scope_ok_def recovery_conversation_def)
  moreover have "filter (is_automated_usage (cm_id m)) (db_usageEvents (ob_db D)) = [u]"
    "ue_shopId u = in_shopId scope" "ue_quantity u = 1" using facts by (auto simp: owned_event_def)
  moreover have "cm_direction m = OUTBOUND" "cm_senderType m = SENDER_AUTOMATION" "\<not> has_send_command D (cm_id m)"
    using facts by (auto simp: fresh_message_def)
  ultimately show ?thesis by (auto simp: read_owned_usage_def truthy_def)
qed

lemma owned_event_key: "owned_event D scope m u \<Longrightarrow> ue_idempotencyKey u = outreach_key (in_outreachAttemptId scope)"
  by (auto simp: owned_event_def dest!: filter_singleton)

lemma starts_with_prefix: "starts_with p (p @ s)"
  by (simp add: starts_with_def)

lemma match_prefix:
  "i \<noteq> [] \<Longrightarrow> list_all Q i \<Longrightarrow> (if starts_with p (p @ i) \<and> drop (length p) (p @ i) \<noteq> [] \<and>
     list_all Q (drop (length p) (p @ i)) then Some (drop (length p) (p @ i)) else None) = Some i"
  by (simp add: starts_with_prefix)

lemma match_outreach_key: "scope_ok scope \<Longrightarrow>
    match_attempt_key (outreach_key (in_outreachAttemptId scope)) = Some (in_outreachAttemptId scope)"
  unfolding match_attempt_key_def outreach_key_def Let_def scope_ok_def
  by (elim conjE) (rule match_prefix)

lemma count_key_one:
  assumes "distinct (map key t)" "r \<in> set t" "P r" "\<And>x. P x \<Longrightarrow> key x = key r"
  shows "count_rows P t = 1"
proof -
  have "filter P t = [r]" by (rule filter_one_key [where key = key]) (use assms in blast)+
  then show ?thesis by (simp add: count_rows_def)
qed

lemma lock_prepared:
  assumes "prepared_initial D scope a c m u"
  shows "lock_initial D \<lparr>ow_shopId = in_shopId scope, ow_message = m, ow_conversation = c, ow_usage = Some u\<rparr>
    (in_outreachAttemptId scope) None"
proof -
  note facts = assms [unfolded prepared_initial_def]
  have "count_rows (\<lambda>x. cm_id x = cm_id m \<and> cm_conversationId x = cm_conversationId m) (ob_messages D) = 1"
    using facts by (intro count_key_one [where key = cm_id and r = m]) (auto simp: outreach_wf_def message_keys_def)
  moreover have "filter (is_closable_initial (in_outreachAttemptId scope) (Some (in_recoveryId scope))) (ob_attempts D) = [a]"
    using facts prepared_attempt by blast
  moreover have "cm_senderType m = SENDER_AUTOMATION" "ue_sourceType u = Some normal_source"
    "oc_checkoutRecoveryId c = Some (in_recoveryId scope)" "truthy (Some (in_recoveryId scope))"
    "count_rows (\<lambda>s. sh_id s = in_shopId scope) (db_shops (ob_db D)) = 1"
    using facts by (simp_all add: fresh_message_def owned_event_def recovery_conversation_def scope_ok_def truthy_def)
  moreover note read_owned_prepared [OF assms]
  ultimately show ?thesis by (simp add: lock_initial_def)
qed

lemma initial_to_fail_prepared:
  assumes "prepared_initial D scope a c m u"
  shows "initial_to_fail D \<lparr>ow_shopId = in_shopId scope, ow_message = m, ow_conversation = c, ow_usage = Some u\<rparr> (cm_id m) =
    Some (Some (in_outreachAttemptId scope))"
proof -
  note facts = assms [unfolded prepared_initial_def]
  have key: "ue_idempotencyKey u = outreach_key (in_outreachAttemptId scope)" using facts owned_event_key by blast
  then have "starts_with ''recovery-outreach:'' (ue_idempotencyKey u)" unfolding outreach_key_def by (simp only: starts_with_prefix)
  moreover have "match_attempt_key (ue_idempotencyKey u) = Some (in_outreachAttemptId scope)"
    unfolding key using facts match_outreach_key by blast
  moreover have "oc_checkoutRecoveryId c = Some (in_recoveryId scope)" "truthy (Some (in_recoveryId scope))"
    "cm_senderType m = SENDER_AUTOMATION" "ue_sourceType u = Some normal_source"
    using facts by (auto simp: recovery_conversation_def scope_ok_def truthy_def fresh_message_def owned_event_def)
  moreover have "find_outbound_attempt D (in_outreachAttemptId scope) = Some a" using facts prepared_attempt by blast
  moreover have "Some (oa_checkoutRecoveryId a) = Some (in_recoveryId scope)" "\<not> truthy (oa_outboundMessageId a)"
    "oa_sequence a = 1" "at_trigger a = INITIAL" "attempt_of_outbound D (cm_id m) = None"
    using facts by (auto simp: open_attempt_def is_closable_initial_def truthy_def)
  moreover note lock_prepared [OF assms]
  ultimately show ?thesis by (simp add: initial_to_fail_def)
qed

lemma fail_prepared_initial:
  assumes "prepared_initial D scope a c m u"
  shows "fail_prepared_in_transaction now (cm_id m) D = Inr (taken_back now scope m u D)"
proof -
  note facts = assms [unfolded prepared_initial_def]
  let ?ow = "\<lparr>ow_shopId = in_shopId scope, ow_message = m, ow_conversation = c, ow_usage = Some u\<rparr>"
  let ?i = "in_outreachAttemptId scope"
  let ?G = "\<lambda>x. unsent_guard (cm_conversationId m) True x \<and> cm_status x = MSG_PENDING"
  let ?f = "\<lambda>x. x\<lparr>cm_status := MSG_FAILED\<rparr> :: outbound_message"
  let ?D1 = "D\<lparr>ob_messages := update_key cm_id (cm_id m) ?f (ob_messages D)\<rparr>"
  have keys: "distinct (map cm_id (ob_messages D))" "m \<in> set (ob_messages D)" "cm_id m = cm_id m" "?G m"
    using facts by (auto simp: outreach_wf_def message_keys_def unsent_guard_def fresh_message_def)
  have message: "update_many (\<lambda>x. cm_id x = cm_id m \<and> ?G x) ?f (ob_messages D) =
      (1, update_key cm_id (cm_id m) ?f (ob_messages D))"
    by (rule update_many_hit [where key = cm_id and G = ?G, OF keys])
  have closable: "is_closable_initial ?i (oc_checkoutRecoveryId c) =
      (\<lambda>x. oa_id x = ?i \<and> is_closable_initial ?i (Some (in_recoveryId scope)) x)"
    using facts by (auto simp: fun_eq_iff recovery_conversation_def is_closable_initial_def)
  have attempts: "distinct (map oa_id (ob_attempts D))" "a \<in> set (ob_attempts D)" "oa_id a = ?i"
    "is_closable_initial ?i (Some (in_recoveryId scope)) a"
    using facts by (auto simp: outreach_wf_def open_attempt_def is_closable_initial_def)
  have "update_many (is_closable_initial ?i (oc_checkoutRecoveryId c)) (refused_attempt now (cm_id m)) (ob_attempts D) =
      (1, update_key oa_id ?i (refused_attempt now (cm_id m)) (ob_attempts D))"
    unfolding closable
    by (rule update_many_hit [where key = oa_id and G = "is_closable_initial ?i (Some (in_recoveryId scope))", OF attempts])
  then have closed: "close_initial now ?ow ?i ''PRE_PROVIDER_REFUSED'' ?D1 =
      Inr (?D1\<lparr>ob_attempts := update_key oa_id ?i (refused_attempt now (cm_id m)) (ob_attempts D)\<rparr>)"
    by (simp add: close_initial_def refused_attempt_def [abs_def])
  have u: "is_owned_event u u" using facts owned_event_source [of D scope m u] by (simp add: is_owned_event_def)
  have "filter (is_owned_event u) (db_usageEvents (ob_db D)) =
      filter (is_owned_event u) (filter (\<lambda>e. ue_id e = ue_id u) (db_usageEvents (ob_db D)))"
    by (simp only: filter_filter) (auto simp: is_owned_event_def intro!: filter_cong)
  also have "\<dots> = filter (is_owned_event u) [u]" using facts by (simp add: owned_event_def)
  finally have "count_rows (is_owned_event u) (db_usageEvents (ob_db D)) = 1" using u by (simp add: count_rows_def)
  then have deleted: "delete_owned_usage u (?D1\<lparr>ob_attempts := update_key oa_id ?i (refused_attempt now (cm_id m)) (ob_attempts D)\<rparr>) =
      Inr (taken_back now scope m u D)"
    by (simp add: delete_owned_usage_def taken_back_def)
  have "refuse_message now (cm_id m) ?ow (Some ?i) D = Inr (taken_back now scope m u D)"
    using message closed deleted by (simp add: refuse_message_def Let_def)
  with read_owned_prepared [OF assms] initial_to_fail_prepared [OF assms] show ?thesis
    by (simp add: fail_prepared_in_transaction_def)
qed

text \<open>What the other readers see of it from then on.\<close>

lemma taken_back_rows:
  assumes "prepared_initial D scope a c m u"
  shows "find_outbound (taken_back now scope m u D) (cm_id m) = Some (m\<lparr>cm_status := MSG_FAILED\<rparr>)"
    and "find_outbound_attempt (taken_back now scope m u D) (in_outreachAttemptId scope) = Some (refused_attempt now (cm_id m) a)"
    and "find_usage_by_key (taken_back now scope m u D) (outreach_key (in_outreachAttemptId scope)) = None"
    and "attempt_of_outbound (taken_back now scope m u D) (cm_id m) = Some (refused_attempt now (cm_id m) a)"
proof -
  let ?i = "in_outreachAttemptId scope" let ?f = "refused_attempt now (cm_id m)"
  note facts = assms [unfolded prepared_initial_def]
  have "find_outbound D (cm_id m) = Some m" using facts by (intro outbound_found) (auto simp: outreach_wf_def)
  then show "find_outbound (taken_back now scope m u D) (cm_id m) = Some (m\<lparr>cm_status := MSG_FAILED\<rparr>)"
    by (simp add: taken_back_def delete_usage_def find_outbound_def find_key_update_key)
  have f: "\<And>x. oa_id (?f x) = oa_id x" by (simp add: refused_attempt_def)
  have a: "find_outbound_attempt D ?i = Some a" using facts prepared_attempt by blast
  moreover from this have "oa_id a = ?i" by (auto simp: find_outbound_attempt_def dest: find_row_SomeD)
  ultimately show "find_outbound_attempt (taken_back now scope m u D) ?i = Some (?f a)"
    by (simp add: taken_back_def delete_usage_def find_outbound_attempt_def find_key_update_key f)
  have "e = u" if "e \<in> set (db_usageEvents (ob_db D))" "ue_idempotencyKey e = outreach_key ?i" for e
  proof -
    have "e \<in> set (filter (\<lambda>e. ue_idempotencyKey e = outreach_key ?i) (db_usageEvents (ob_db D)))" using that by simp
    with facts show ?thesis by (simp add: owned_event_def)
  qed
  moreover have "is_owned_event u u" using facts owned_event_source [of D scope m u] by (simp add: is_owned_event_def)
  ultimately show "find_usage_by_key (taken_back now scope m u D) (outreach_key ?i) = None"
    by (auto simp: find_usage_by_key_def find_row_None_iff taken_back_def delete_usage_def)
  have none: "oa_outboundMessageId x \<noteq> Some (cm_id m)" if "x \<in> set (ob_attempts D)" for x
    using facts that by (auto simp: attempt_of_outbound_def find_row_None_iff)
  have attempts: "ob_attempts (taken_back now scope m u D) = update_key oa_id ?i ?f (ob_attempts D)"
    by (simp add: taken_back_def delete_usage_def)
  show "attempt_of_outbound (taken_back now scope m u D) (cm_id m) = Some (?f a)"
    unfolding attempt_of_outbound_def attempts
  proof (rule find_row_unique)
    show "?f a \<in> set (update_key oa_id ?i ?f (ob_attempts D))"
      using a by (auto simp: find_outbound_attempt_def update_key_def dest!: find_row_SomeD)
    show "oa_outboundMessageId (?f a) = Some (cm_id m)" by (simp add: refused_attempt_def)
    show "x = ?f a" if "x \<in> set (update_key oa_id ?i ?f (ob_attempts D))" "oa_outboundMessageId x = Some (cm_id m)" for x
    proof -
      from that(1) obtain y where y: "y \<in> set (ob_attempts D)" "x = (if oa_id y = ?i then ?f y else y)"
        unfolding update_key_def by auto
      with none that(2) have "oa_id y = ?i" "x = ?f y" by (auto split: if_splits)
      moreover have "find_outbound_attempt D ?i = Some y"
        using y(1) \<open>oa_id y = ?i\<close> facts by (auto simp: find_outbound_attempt_def outreach_wf_def intro!: find_row_key)
      ultimately show ?thesis using a by simp
    qed
  qed
qed

lemma taken_back_same:
  "find_recovery (taken_back now scope m u D) = find_recovery D"
  "find_recovery_conversation (taken_back now scope m u D) = find_recovery_conversation D"
  "has_send_command (taken_back now scope m u D) = has_send_command D"
  by (auto simp: fun_eq_iff taken_back_def delete_usage_def find_recovery_def find_recovery_conversation_def
      has_send_command_def)

lemma inspect_taken_back:
  assumes "prepared_initial D scope a c m u"
  shows "inspect_initial_outreach_admission (taken_back now scope m u D) scope =
    Initial_Failed (m\<lparr>cm_status := MSG_FAILED\<rparr>) Pre_Permit_Refused"
proof -
  let ?D = "taken_back now scope m u D" let ?m = "m\<lparr>cm_status := MSG_FAILED\<rparr>" let ?a = "refused_attempt now (cm_id m) a"
  note facts = assms [unfolded prepared_initial_def]
  note rows = taken_back_rows [OF assms, of now]
  have "inspect_initial_outreach_admission ?D scope = message_lookup ?D None ?a ?m"
  proof (rule inspect_message [where c = c])
    show "is_initial_attempt ?D scope ?a"
      using facts open_attempt_initial [of D scope a]
      unfolding is_initial_attempt_def taken_back_same by (auto simp: refused_attempt_def)
    show "find_recovery_conversation ?D scope = Some c"
      unfolding taken_back_same using facts recovery_conversation_found by blast
    show "is_initial_message ?D (oc_id c) ?a ?m"
      using facts rows(4) unfolding is_initial_message_def taken_back_same by (simp add: fresh_message_def)
    show "(case Option.bind None ue_sourceId of None \<Rightarrow> oa_outboundMessageId ?a | Some k \<Rightarrow> Some k) = Some (cm_id ?m)"
      by (simp add: refused_attempt_def)
  qed (use facts rows in \<open>auto simp: fresh_message_def\<close>)
  also have "\<dots> = Initial_Failed ?m Pre_Permit_Refused"
    using facts by (auto simp: message_lookup_def failed_lookup_def fresh_message_def has_no_receipt_def has_no_permit_def
        truthy_def refused_attempt_def open_attempt_def is_closable_initial_def is_confirmed_def)
  finally show ?thesis .
qed

lemma reserve_after_taken_back:
  assumes "prepared_initial D scope a c m u"
    and "ai_idempotencyKey input = outreach_key (in_outreachAttemptId scope)" "ai_shopId input = in_shopId scope"
    and "ai_conversationId input = oc_id c"
  shows "reserve_in_transaction S L ids t input (taken_back now scope m u D) =
    Inr (Outbound_Suppressed Sup_Duplicate, taken_back now scope m u D)"
proof -
  let ?D = "taken_back now scope m u D" let ?m = "m\<lparr>cm_status := MSG_FAILED\<rparr>" let ?a = "refused_attempt now (cm_id m) a"
  note facts = assms(1) [unfolded prepared_initial_def]
  note rows = taken_back_rows [OF assms(1), of now]
  obtain r where r: "find_recovery D (Some (in_recoveryId scope)) = Some r" "crv_shopId r = in_shopId scope"
    using facts by (auto simp: open_attempt_def)
  have "oa_checkoutRecoveryId ?a = in_recoveryId scope" "oa_outboundMessageId ?a = Some (cm_id m)" "failed_initial_code ?a"
    using facts by (auto simp: refused_attempt_def open_attempt_def is_closable_initial_def failed_initial_code_def)
  moreover have "match_attempt_key (outreach_key (in_outreachAttemptId scope)) = Some (in_outreachAttemptId scope)"
    using facts match_outreach_key by blast
  ultimately have "failed_recipient_outreach ?D (outreach_key (in_outreachAttemptId scope)) = Some (in_shopId scope, ?m)"
    using rows(1,2) r by (simp add: failed_recipient_outreach_def taken_back_same)
  then have "is_historical_failure ?D input"
    using facts assms(2-4) by (simp add: is_historical_failure_def fresh_message_def)
  then show ?thesis by (simp add: reserve_in_transaction_def)
qed

section \<open>The admission leaves it\<close>

lemma inspect_absent:
  assumes "inspect_initial_outreach_admission D scope = Initial_Absent" "outreach_wf D"
  shows "scope_ok scope \<and> find_usage_by_key D (outreach_key (in_outreachAttemptId scope)) = None \<and>
    (\<exists>a c. find_outbound_attempt D (in_outreachAttemptId scope) = Some a \<and> is_initial_attempt D scope a \<and>
       is_eligible_attempt D a \<and> recovery_conversation D scope c)"
proof -
  from assms(1) have s: "scope_ok scope"
    by (auto simp: inspect_initial_outreach_admission_def scope_ok_def split: if_splits)
  from assms(1) obtain a where a: "find_outbound_attempt D (in_outreachAttemptId scope) = Some a"
    by (auto simp: inspect_initial_outreach_admission_def split: if_splits option.splits)
  let ?u = "find_usage_by_key D (outreach_key (in_outreachAttemptId scope))"
  from assms(1) a obtain c where c: "find_recovery_conversation D scope = Some c" and initial: "is_initial_attempt D scope a"
    and conflict: "\<forall>u\<in>set_option ?u. \<not> usage_conflicts scope a u"
    by (auto simp: inspect_initial_outreach_admission_def Let_def split: if_splits option.splits)
  let ?i = "case Option.bind ?u ue_sourceId of None \<Rightarrow> oa_outboundMessageId a | Some k \<Rightarrow> Some k"
  have rest: "inspect_initial_outreach_admission D scope =
    (if \<not> truthy ?i then
       (if \<not> is_eligible_attempt D a then Initial_Lineage_Conflict
        else if find_row (is_orphan D (oc_id c)) (ob_messages D) \<noteq> None then Initial_Lineage_Conflict else Initial_Absent)
     else (case find_outbound D (the ?i) of None \<Rightarrow> Initial_Lineage_Conflict
       | Some m \<Rightarrow> if \<not> is_initial_message D (oc_id c) a m then Initial_Lineage_Conflict else message_lookup D ?u a m))"
    using s a c initial conflict by (simp add: inspect_initial_outreach_admission_def scope_ok_def Let_def)
  have never: "Initial_Absent \<noteq> message_lookup D ?u a m" for m
    by (simp add: message_lookup_def failed_lookup_def)
  from rest assms(1) never have i: "\<not> truthy ?i" and "is_eligible_attempt D a"
    by (auto split: if_splits option.splits)
  moreover have "?u = None"
  proof (cases ?u)
    case (Some u)
    with conflict have "truthy (ue_sourceId u)" by (simp add: usage_conflicts_def)
    with Some i show ?thesis by (cases "ue_sourceId u") (auto simp: truthy_def)
  qed
  moreover have "recovery_conversation D scope c"
    using c by (auto simp: find_recovery_conversation_def recovery_conversation_def split: option.splits if_splits
        dest: find_row_SomeD)
  ultimately show ?thesis using s a initial by blast
qed

lemma resolved_shop_exists:
  assumes "resolve_outbound_policy S d now input recovery = Inr (Inr (policy, scope))"
  shows "ai_shopId input \<in> sh_id ` set (db_shops d)"
proof (cases "resolve_policy S d (ai_shopId input) now")
  case (Inr p)
  then show ?thesis
    by (auto simp: resolve_policy_def Let_def split: option.splits sum.splits if_splits
        dest!: find_row_SomeD intro!: rev_image_eqI)
next
  case (Inl e)
  with assms obtain p where "resolve_post_contract_policy d (ai_shopId input) now = Inr p"
    by (auto simp: resolve_outbound_policy_def resolve_post_contract_def Let_def
        split: failure.splits error_class.splits if_splits sum.splits)
  then show ?thesis
    by (auto simp: resolve_post_contract_policy_def Let_def split: option.splits sum.splits if_splits
        dest!: find_row_SomeD intro!: rev_image_eqI)
qed

lemma admit_message_fresh:
  assumes "admit_message L ids now input t policy scope D = Inr (out, D')" "e \<in> set (db_usageEvents (ob_db D))"
  shows "ue_id e \<noteq> ids 1 \<and> ue_idempotencyKey e \<noteq> ai_idempotencyKey input"
proof -
  from assms(1) have "\<forall>y\<in>set (db_usageEvents (ob_db D)).
      \<not> usage_event_clash (admission_usage L (ids 1) input (ids 0) t (obp_billingPeriodId policy)) y"
    by (auto simp: admit_message_def create_usage_event_def and_then_Inr new_outbound_message_def
        split: prod.splits dest!: create_row_InrD)
  with assms(2) have "\<not> usage_event_clash (admission_usage L (ids 1) input (ids 0) t (obp_billingPeriodId policy)) e"
    by blast
  then show ?thesis by (auto simp: usage_event_clash_def admission_usage_def)
qed

text \<open>What the transaction has checked of an admitted initial outreach.\<close>

lemma reserve_initial_cases:
  assumes "reserve_in_transaction S L ids now input D = Inr (Outbound_Admitted ad, D1)" "ai_initialOutreach input = Some scope"
  obtains policy exec where "admit_message L ids now input False policy exec D = Inr (Outbound_Admitted ad, D1)"
    "initial_scope_ok D input" "ai_shopId input \<in> sh_id ` set (db_shops (ob_db D))"
proof -
  from assms(1) obtain policy exec recovery where
    "resolve_outbound_policy S (ob_db D) now input recovery = Inr (Inr (policy, exec))"
    "admit_within_limit L ids now input policy exec D = Inr (Outbound_Admitted ad, D1)"
    using reserve_in_transaction_cases [OF assms(1)] by blast
  moreover from this(2) assms(2) have "admit_message L ids now input False policy exec D = Inr (Outbound_Admitted ad, D1)"
    by (auto simp: admit_within_limit_def Let_def split: if_splits)
  moreover from assms(1) have "initial_scope_ok D input"
    by (auto simp: reserve_in_transaction_def Let_def split: if_splits)
  ultimately show ?thesis using that resolved_shop_exists by blast
qed

lemma count_rows_key:
  assumes "distinct (map key t)" "k \<in> key ` set t"
  shows "count_rows (\<lambda>r. key r = k) t = 1"
proof -
  from assms(2) obtain r where r: "r \<in> set t" "key r = k" by blast
  from filter_one_key [where key = key and P = "\<lambda>x. key x = k", OF assms(1) r(1)] r(2)
  show ?thesis by (simp add: count_rows_def)
qed

lemma outreach_wf_admitted:
  assumes "admit_message L ids now input t policy exec D = Inr (out, D')" "outreach_wf D"
  shows "outreach_wf D'"
proof -
  note D' = admit_message_InrD [OF assms(1)]
  obtain ms us where new: "D' = D\<lparr>ob_messages := ob_messages D @ [new_outbound_message (ids 0) now input t],
      ob_db := (ob_db D)\<lparr>db_usageEvents := db_usageEvents (ob_db D) @
        [admission_usage L (ids 1) input (ids 0) t (obp_billingPeriodId policy)]\<rparr>\<rparr>"
    using D'(2,3,5) by metis
  have id: "cm_id (new_outbound_message (ids 0) now input t) = ids 0" by (simp add: new_outbound_message_def)
  show ?thesis
    using assms(2) D'(4)
    unfolding new outreach_wf_def message_keys_def usage_linked_def
    by (auto simp: id admission_usage_def)
qed

lemma reserve_prepared:
  assumes absent: "inspect_initial_outreach_admission D scope = Initial_Absent" and wf: "outreach_wf D"
    and input: "ai_initialOutreach input = Some scope"
    and made: "reserve_in_transaction S L ids now input D = Inr (Outbound_Admitted ad, D1)" and "ids 0 \<noteq> []"
  shows "\<exists>a c m u. prepared_initial D1 scope a c m u \<and> cm_id m = ad_messageId ad \<and> oc_id c = ai_conversationId input"
proof -
  from reserve_initial_cases [OF made input] obtain policy exec where
    admit: "admit_message L ids now input False policy exec D = Inr (Outbound_Admitted ad, D1)"
    and ok: "initial_scope_ok D input" and shop: "ai_shopId input \<in> sh_id ` set (db_shops (ob_db D))" by blast
  from inspect_absent [OF absent wf] obtain a c where s: "scope_ok scope"
    and a: "find_outbound_attempt D (in_outreachAttemptId scope) = Some a" "is_initial_attempt D scope a"
    and c: "recovery_conversation D scope c" by blast
  note D1 = admit_message_InrD [OF admit]
  let ?m = "new_outbound_message (ids 0) now input False"
  let ?u = "admission_usage L (ids 1) input (ids 0) False (obp_billingPeriodId policy)"
  from ok input obtain b where b: "is_open_initial_attempt D input scope b" "b \<in> set (ob_attempts D)"
    and i: "ai_senderType input = SENDER_AUTOMATION" "in_shopId scope = ai_shopId input"
      "ai_idempotencyKey input = outreach_key (in_outreachAttemptId scope)"
    by (auto simp: initial_scope_ok_def dest!: find_row_SomeD)
  have "oa_id a = oa_id b" "a \<in> set (ob_attempts D)"
    using a(1) b(1) by (auto simp: find_outbound_attempt_def is_open_initial_attempt_def dest!: find_row_SomeD)
  with b(2) wf have "b = a" by (intro key_inj [of oa_id "ob_attempts D"]) (auto simp: outreach_wf_def)
  with b have b: "is_open_initial_attempt D input scope a" "a \<in> set (ob_attempts D)" by auto
  from b(1) obtain d where d: "d \<in> set (ob_conversations D)" "oc_checkoutRecoveryId d = Some (in_recoveryId scope)"
    "oc_id d = ai_conversationId input"
    by (auto simp: is_open_initial_attempt_def find_recovery_def split: option.splits dest!: find_row_SomeD)
  have "d = c" using wf c d by (auto simp: outreach_wf_def recovery_conversation_def)
  with d have conv: "oc_id c = ai_conversationId input" by simp
  have same: "ob_conversations D1 = ob_conversations D" "ob_attempts D1 = ob_attempts D" "ob_commands D1 = ob_commands D"
    "ob_recoveries D1 = ob_recoveries D" "db_shops (ob_db D1) = db_shops (ob_db D)"
    by (subst D1(5), simp)+
  have "ad_messageId ad = ids 0" using D1(1) by simp
  moreover have "prepared_initial D1 scope a c ?m ?u"
    unfolding prepared_initial_def
  proof (intro conjI)
    show "open_attempt D1 scope a"
      using b a(2) i(2) by (auto simp: open_attempt_def same find_recovery_def is_open_initial_attempt_def
          is_closable_initial_def is_initial_attempt_def split: option.splits)
    show "recovery_conversation D1 scope c" using c by (simp add: recovery_conversation_def same)
    show "fresh_message c ?m"
      using conv i assms(5) by (simp add: fresh_message_def new_outbound_message_def has_no_permit_def)
    show "\<not> has_send_command D1 (cm_id ?m)"
      using wf D1(4) by (fastforce simp: has_send_command_def find_row_None_iff same outreach_wf_def new_outbound_message_def)
    show "attempt_of_outbound D1 (cm_id ?m) = None"
      using wf D1(4) by (fastforce simp: attempt_of_outbound_def find_row_None_iff same outreach_wf_def new_outbound_message_def)
    have none: "\<not> is_automated_usage (ids 0) e" if member: "e \<in> set (db_usageEvents (ob_db D))" for e
    proof
      assume "is_automated_usage (ids 0) e"
      moreover have "usage_linked D" using wf by (simp add: outreach_wf_def)
      ultimately obtain m where "m \<in> set (ob_messages D)" "Some (ids 0) = Some (cm_id m)"
        using member unfolding usage_linked_def is_automated_usage_def by metis
      with D1(4) show False by auto
    qed
    have old: "ue_id e \<noteq> ids 1 \<and> ue_idempotencyKey e \<noteq> outreach_key (in_outreachAttemptId scope)"
      if "e \<in> set (db_usageEvents (ob_db D))" for e
      using admit_message_fresh [OF admit that] i by simp
    show "owned_event D1 scope ?m ?u"
      using i none old
      by (simp add: owned_event_def D1(3) filter_empty_conv admission_usage_def new_outbound_message_def)
        (simp add: is_automated_usage_def)
    show "count_rows (\<lambda>s. sh_id s = in_shopId scope) (db_shops (ob_db D1)) = 1"
      unfolding same i(2) using wf shop by (intro count_rows_key) (auto simp: outreach_wf_def)
  qed (use s D1(2) outreach_wf_admitted [OF admit wf] in auto)
  moreover have "cm_id ?m = ids 0" by (simp add: new_outbound_message_def)
  ultimately show ?thesis using conv by metis
qed

end
