(* ===== verification/Outbound_Properties.thy ===== *)
theory Outbound_Properties
  imports Outbound_Delivery Outbound_Initial Example_Store
begin

text \<open>
  The properties of the admission and the sending of automated messages, each applied to a shop with one
  support conversation and one recovery whose initial message is still to be admitted.
\<close>

section \<open>Runs are reachable\<close>

lemma reachable_run:
  assumes "send_reachable S L N D0 s" "k < length (ss_sends s)" "ss_sends s ! k = (r, p)"
  shows "\<exists>s'. send_reachable S L N D0 s' \<and> length (ss_sends s') = length (ss_sends s) \<and>
    ss_sends s' ! k = (r, fst (run_phases L r xs (p, ss_db s))) \<and> ss_db s' = snd (run_phases L r xs (p, ss_db s))"
  using assms
proof (induction xs arbitrary: s p)
  case (Cons x xs)
  obtain q D where step: "send_phase_step L x r (ss_db s) p = (q, D)" by fastforce
  let ?s = "run_send k r p q D s"
  have "send_reachable S L N D0 ?s" using Cons.prems step by (blast intro: send_reachable.Step Run_Send)
  moreover have "length (ss_sends ?s) = length (ss_sends s)" "ss_sends ?s ! k = (r, q)" "ss_db ?s = D"
    using Cons.prems(2) by (simp_all add: run_send_def)
  ultimately show ?case using Cons.IH [of ?s q] Cons.prems(2) step by auto
qed auto

section \<open>Example\<close>

definition ex_outbound_library :: outbound_library where
  "ex_outbound_library = \<lparr>ol_default_provider = SHOPIFY, ol_default_reportState = REPORT_PENDING,
     ol_sha256 = (\<lambda>s. s), ol_normalizeRecipientPhone = (\<lambda>n c. Some n)\<rparr>"

definition ex_support :: outbound_conversation where
  "ex_support = \<lparr>oc_id = ''c'', oc_type = CONVERSATION_OTHER, oc_shopId = Some ''s'', oc_checkoutRecoveryId = None,
     oc_controlMode = CONTROL_AI, oc_controlRevision = 3, oc_inboundVersion = 1, oc_lastMessageAt = None\<rparr>"

definition ex_recovery_talk :: outbound_conversation where
  "ex_recovery_talk = ex_support\<lparr>oc_id := ''k'', oc_type := CONVERSATION_RECOVERY, oc_checkoutRecoveryId := Some ''v''\<rparr>"

definition ex_attempt :: outbound_attempt where
  "ex_attempt = \<lparr>oa_id = ''a'', oa_checkoutRecoveryId = ''v'', oa_outboundMessageId = None, oa_sequence = 1,
     oa_recipient = ''1'', oa_status = OUTREACH_PENDING, oa_failureCode = None, oa_closedAt = None,
     at_trigger = INITIAL, at_sentAt = None, at_followUpDueAt = None\<rparr>"

definition ex_outbound :: outbound_db where
  "ex_outbound = \<lparr>ob_db = ex_db, ob_messages = [], ob_conversations = [ex_support, ex_recovery_talk],
     ob_recoveries = [\<lparr>crv_id = ''v'', crv_shopId = ''s'', crv_status = RECOVERY_DETECTED\<rparr>],
     ob_attempts = [ex_attempt], ob_commands = [], ob_phones = [], ob_reachability = []\<rparr>"

definition ex_scope :: initial_scope where
  "ex_scope = \<lparr>in_shopId = ''s'', in_recoveryId = ''v'', in_outreachAttemptId = ''a''\<rparr>"

definition ex_initial_input :: admission_input where
  "ex_initial_input = \<lparr>ai_shopId = ''s'', ai_conversationId = ''k'', ai_idempotencyKey = outreach_key ''a'',
     ai_senderType = SENDER_AUTOMATION, ai_content = None, ai_recoveryCreditSourceKey = Some ''y'',
     ai_initialOutreach = Some ex_scope\<rparr>"

definition ex_reply_input :: admission_input where
  "ex_reply_input = \<lparr>ai_shopId = ''s'', ai_conversationId = ''c'', ai_idempotencyKey = ''reply'',
     ai_senderType = SENDER_AGENT, ai_content = None, ai_recoveryCreditSourceKey = None, ai_initialOutreach = None\<rparr>"

definition ex_ids :: "nat \<Rightarrow> id" where
  "ex_ids n = (if n = 0 then ''m'' else ''e'')"

text \<open>The reply admitted to the support conversation, and the request to send it.\<close>

definition ex_reply :: outbound_message where
  "ex_reply = new_outbound_message ''m'' 10 ex_reply_input False"

definition ex_admitted :: outbound_db where
  "ex_admitted = ex_outbound\<lparr>ob_messages := [ex_reply],
     ob_db := ex_db\<lparr>db_usageEvents := [admission_usage ex_outbound_library ''e'' ex_reply_input ''m'' False None]\<rparr>\<rparr>"

definition ex_send :: send_request where
  "ex_send = \<lparr>sr_shopId = ''s'', sr_messageId = ''m'', sr_conversationId = ''c'', sr_terminal = False,
     sr_executionScope = General_Scope, sr_to = ''1'', sr_text = ''Hello'', sr_expectedControlRevision = None,
     sr_expectedInboundVersion = Some 1\<rparr>"

definition ex_send_inputs :: "send_input list" where
  "ex_send_inputs = map (\<lambda>t. \<lparr>si_now = t, si_permitNow = t, si_verdict = Moderation_Allows,
     si_reply = Provider_Accepted ''wamid''\<rparr>) [11, 12, 13, 14, 15, 16, 17, 18]"

lemma ex_outbound_ok: "outbound_ok 20 ex_outbound" "message_keys ex_outbound"
  by (simp_all add: outbound_ok_def usage_linked_def absolute_limit_le_def within_limit_def quantity_for_def
      message_keys_def ex_outbound_def ex_db_def ex_policy_def row_sum_def)

lemma ex_reply_admitted:
  "reserve_in_transaction ex_shared ex_outbound_library ex_ids 10 ex_reply_input ex_outbound =
    Inr (Outbound_Admitted (admitted_of ex_send), ex_admitted)"
  by code_simp

text \<open>The same reply in the conversation of the recovery, whose initial message was sent and answered.\<close>

definition ex_talk :: outbound_db where
  "ex_talk = ex_outbound\<lparr>
     ob_attempts := [ex_attempt\<lparr>oa_status := OUTREACH_WAITING_FOR_RESPONSE, at_sentAt := Some 1\<rparr>],
     ob_recoveries := [\<lparr>crv_id = ''v'', crv_shopId = ''s'', crv_status = RECOVERY_ENGAGED\<rparr>],
     ob_messages := [ex_reply\<lparr>cm_conversationId := ''k''\<rparr>,
       ex_reply\<lparr>cm_id := ''q'', cm_conversationId := ''k'', cm_direction := INBOUND, cm_senderType := SENDER_CUSTOMER,
         cm_providerMessageId := Some ''w'', cm_createdAt := 5\<rparr>],
     ob_db := ex_db\<lparr>db_usageEvents := [admission_usage ex_outbound_library ''e'' ex_reply_input ''m'' False None]\<rparr>\<rparr>"

definition ex_first_send :: send_request where
  "ex_first_send = ex_send\<lparr>sr_conversationId := ''k'', sr_executionScope := Recovery_Scope\<rparr>"

lemma ex_fences:
  "fence_step ex_admitted ex_send = 5" "fence_step ex_talk ex_first_send = 6"
  "permit_of ex_outbound_library ex_admitted ex_send x = (''arch045-general-m'', si_now x)"
  "permit_of ex_outbound_library ex_talk ex_first_send x = (''arch040-auto-m'', si_permitNow x)"
proof -
  have "read_recovery_context ex_admitted ''c'' = None" "read_recovery_context ex_talk ''k'' \<noteq> None" by code_simp+
  then show "fence_step ex_admitted ex_send = 5" "fence_step ex_talk ex_first_send = 6"
    "permit_of ex_outbound_library ex_admitted ex_send x = (''arch045-general-m'', si_now x)"
    "permit_of ex_outbound_library ex_talk ex_first_send x = (''arch040-auto-m'', si_permitNow x)"
    by (simp_all add: fence_step_def permit_of_def ex_send_def ex_first_send_def ex_outbound_library_def)
qed

lemma ex_sendable: "is_sendable ex_outbound_library 16 16 ex_admitted ex_send ex_reply ex_support"
proof -
  have "evaluate_execution (ob_db ex_admitted) ''s'' General_Scope = None" "shop_is_active ex_admitted ''s''"
    "has_local_no_contact ex_outbound_library ex_admitted ''s'' ''1'' = False" "read_recovery_context ex_admitted ''c'' = None"
    by code_simp+
  then show ?thesis
    by (simp add: is_sendable_def sendable_row_def general_sendable_def ex_send_def)
      (simp add: ex_admitted_def ex_outbound_def ex_reply_def new_outbound_message_def ex_reply_input_def
        message_keys_def is_automated_outbound_def has_no_permit_def ex_support_def ex_recovery_talk_def)
qed

lemma ex_recovery_sendable:
  "is_sendable ex_outbound_library 16 16 ex_talk ex_first_send (ex_reply\<lparr>cm_conversationId := ''k''\<rparr>) ex_recovery_talk"
proof -
  have "evaluate_execution (ob_db ex_talk) ''s'' Recovery_Scope = None" "shop_is_active ex_talk ''s''"
    "has_local_no_contact ex_outbound_library ex_talk ''s'' ''1'' = False" "is_suppressed_recipient ex_talk ''s'' ''1'' 16 = False"
    "recovery_runtime_eligibility ex_talk ''s'' ''m'' = None" "window_denial ex_talk ''v'' ''k'' 16 = None"
    "read_recovery_context ex_talk ''k'' =
       Some (ex_recovery_talk, \<lparr>crv_id = ''v'', crv_shopId = ''s'', crv_status = RECOVERY_ENGAGED\<rparr>)"
    by code_simp+
  then show ?thesis
    by (simp add: is_sendable_def sendable_row_def recovery_sendable_def ex_first_send_def ex_send_def terminal_recovery_def)
      (simp add: ex_talk_def ex_outbound_def ex_reply_def new_outbound_message_def ex_reply_input_def
        message_keys_def is_automated_outbound_def has_no_permit_def ex_support_def ex_recovery_talk_def)
qed

lemma ex_admitted_ok: "outbound_ok 20 ex_admitted" "message_keys ex_admitted"
  using reserve_in_transaction_ok [OF ex_outbound_ok(1) ex_reply_admitted]
  by (simp_all add: message_keys_def ex_admitted_def)

text \<open>The whole run: the reply is admitted, its send begins and goes through.\<close>

lemma ex_sent_reachable:
  "\<exists>s. send_reachable ex_shared ex_outbound_library 20 ex_outbound s \<and>
     ss_sends s = [(ex_send, Send_Done (Outbound_Admitted (admitted_of ex_send)))] \<and>
     ss_db s = sent_db (''arch045-general-m'', 16) 18 ''wamid'' ex_send ex_support ex_admitted"
proof -
  let ?R = "send_reachable ex_shared ex_outbound_library 20 ex_outbound"
  let ?s = "\<lparr>ss_db = ex_admitted, ss_sends = [(ex_send, Check_Preparation)], ss_calls = [], ss_allowed = []\<rparr>"
  have "?R \<lparr>ss_db = ex_admitted, ss_sends = [], ss_calls = [], ss_allowed = []\<rparr>"
    using send_reachable.Step [OF Start Reserve_Message] ex_reply_admitted by fastforce
  from send_reachable.Step [OF this Begin_Send [of _ _ _ _ ex_send]] have "?R ?s" by simp
  from reachable_run [OF this, of 0 ex_send Check_Preparation ex_send_inputs]
  obtain s where s: "?R s" "length (ss_sends s) = 1"
    "ss_sends s ! 0 = (ex_send, fst (run_phases ex_outbound_library ex_send ex_send_inputs (Check_Preparation, ex_admitted)))"
    "ss_db s = snd (run_phases ex_outbound_library ex_send ex_send_inputs (Check_Preparation, ex_admitted))" by auto
  have "run_phases ex_outbound_library ex_send ex_send_inputs (Check_Preparation, ex_admitted) =
      (Send_Done (Outbound_Admitted (admitted_of ex_send)),
       sent_db (''arch045-general-m'', 16) 18 ''wamid'' ex_send ex_support ex_admitted)"
    using run_sendable [of ex_outbound_library ex_send_inputs ex_admitted ex_send ex_reply ex_support "''wamid''"] ex_sendable
    by (simp add: ex_fences ex_send_inputs_def)
  moreover have "ss_sends s = [ss_sends s ! 0]" using s(2) by (cases "ss_sends s") auto
  ultimately show ?thesis using s by (intro exI [of _ s]) simp
qed

section \<open>Properties\<close>

text \<open>
  C29. However sends of the same and of other messages, reservations and any other transactions that let
  messages advance interleave, and wherever processes die, the provider is given a message at most once;
  and a message it was given keeps its permit, so no later send gets one.
\<close>

theorem provider_is_given_a_message_once:
  assumes "send_reachable S L N D0 s" "message_keys D0"
  shows "calls_to s i \<le> 1 \<and> (calls_to s i = 1 \<longrightarrow> has_permit_for (ss_db s) i)"
proof -
  have "calls_to s i + callers_of s i \<le> 1" "0 < calls_to s i + callers_of s i \<Longrightarrow> has_permit_for (ss_db s) i"
    using send_reachable_calls_ok [OF assms] by (auto simp: calls_ok_def)
  then show ?thesis by simp
qed

theorem provider_is_given_a_message_once_witness:
  "\<exists>s. send_reachable ex_shared ex_outbound_library 20 ex_outbound s \<and>
     ss_sends s = [(ex_send, Send_Done (Outbound_Admitted (admitted_of ex_send)))] \<and> calls_to s ''m'' \<le> 1"
proof -
  from ex_sent_reachable obtain s where s: "send_reachable ex_shared ex_outbound_library 20 ex_outbound s"
    "ss_sends s = [(ex_send, Send_Done (Outbound_Admitted (admitted_of ex_send)))]" by blast
  from provider_is_given_a_message_once [OF s(1) ex_outbound_ok(2), of "''m''"] s show ?thesis by blast
qed

text \<open>
  C30. Every text given to the provider was allowed by the moderation for that very message before, and a
  send that reports its message as admitted, or that handles the provider's answer, has given the provider
  that message, its recipient and its text.
\<close>

theorem sent_texts_were_moderated:
  assumes "send_reachable S L N D0 s"
  shows "(\<forall>c\<in>set (ss_calls s). (pc_messageId c, pc_text c) \<in> set (ss_allowed s)) \<and>
    (\<forall>r p. (r, p) \<in> set (ss_sends s) \<longrightarrow> has_called p \<longrightarrow> call_of r \<in> set (ss_calls s))"
  using send_reachable_texts_ok [OF assms] by (auto simp: texts_ok_def)

theorem sent_texts_were_moderated_witness:
  "\<exists>s. send_reachable ex_shared ex_outbound_library 20 ex_outbound s \<and> call_of ex_send \<in> set (ss_calls s) \<and>
     (''m'', ''Hello'') \<in> set (ss_allowed s)"
proof -
  from ex_sent_reachable obtain s where s: "send_reachable ex_shared ex_outbound_library 20 ex_outbound s"
    "ss_sends s = [(ex_send, Send_Done (Outbound_Admitted (admitted_of ex_send)))]" by blast
  note texts = sent_texts_were_moderated [OF s(1)]
  then have called: "call_of ex_send \<in> set (ss_calls s)" using s(2) by fastforce
  with texts have "(pc_messageId (call_of ex_send), pc_text (call_of ex_send)) \<in> set (ss_allowed s)" by blast
  moreover have "pc_messageId (call_of ex_send) = ''m''" "pc_text (call_of ex_send) = ''Hello''"
    by (simp_all add: call_of_def ex_send_def outbound_text_def)
  ultimately show ?thesis using s(1) called by auto
qed

text \<open>
  C31. While the platform's absolute limit is at most N, no conversation of a shop ever has more than
  N automated messages accounted for, at most one of them the closing message, whatever is reserved, sent
  and taken back, and in whatever order.
\<close>

theorem automated_messages_are_limited:
  assumes "send_reachable S L N D0 s" "message_keys D0" "outbound_ok N D0"
  shows "quantity_for (ss_db s) shopId conversationId normal_source +
      quantity_for (ss_db s) shopId conversationId terminal_source \<le> N \<and>
    quantity_for (ss_db s) shopId conversationId terminal_source \<le> 1"
proof -
  have "within_limit N (ss_db s)" using send_reachable_db [OF assms(1,2)] assms(3) by (simp add: outbound_ok_def)
  then have "quantity_for (ss_db s) shopId conversationId normal_source < N"
    "quantity_for (ss_db s) shopId conversationId terminal_source \<le> 1" by (simp_all add: within_limit_def)
  then show ?thesis by linarith
qed

theorem automated_messages_are_limited_witness:
  "\<exists>s. send_reachable ex_shared ex_outbound_library 20 ex_outbound s \<and> ss_sends s \<noteq> [] \<and>
     quantity_for (ss_db s) ''s'' ''c'' normal_source + quantity_for (ss_db s) ''s'' ''c'' terminal_source \<le> 20"
proof -
  from ex_sent_reachable obtain s where s: "send_reachable ex_shared ex_outbound_library 20 ex_outbound s" "ss_sends s \<noteq> []"
    by auto
  from automated_messages_are_limited [OF s(1) ex_outbound_ok(2,1), of "''s''" "''c''"] s show ?thesis by blast
qed

text \<open>
  C32. A send that nothing speaks against and nothing comes in between of, in a conversation of no recovery or in one
  of a recovery, ends as admitted after its eight or nine transactions, and leaves exactly this: the text sent in the
  row of the message, with the permit of the fence it went through, the provider's id and the time it was sent, and
  that time in its conversation. What may speak against it is listed: in the row, the shop and the customer's wish for
  every send (\<open>sendable_row\<close>), in the conversation for one (\<open>general_sendable\<close>), in the recovery, its control, the
  reachability of the recipient and the customer's window for the other (\<open>recovery_sendable\<close>).
\<close>

theorem undisturbed_send_is_recorded:
  assumes "is_sendable L (si_now (xs ! fence_step D r)) (si_permitNow (xs ! fence_step D r)) D r m c"
    and "length xs = fence_step D r + 3" "si_verdict (xs ! 3) = Moderation_Allows"
    and "si_reply (xs ! (fence_step D r + 1)) = Provider_Accepted i"
  shows "run_phases L r xs (Check_Preparation, D) =
    (Send_Done (Outbound_Admitted (admitted_of r)),
     sent_db (permit_of L D r (xs ! fence_step D r)) (si_now (xs ! (fence_step D r + 2))) i r c D)"
  by (rule run_sendable [OF assms])

theorem undisturbed_send_is_recorded_witness:
  "run_phases ex_outbound_library ex_send ex_send_inputs (Check_Preparation, ex_admitted) =
     (Send_Done (Outbound_Admitted (admitted_of ex_send)),
      sent_db (''arch045-general-m'', 16) 18 ''wamid'' ex_send ex_support ex_admitted) \<and>
   run_phases ex_outbound_library ex_first_send (hd ex_send_inputs # ex_send_inputs) (Check_Preparation, ex_talk) =
     (Send_Done (Outbound_Admitted (admitted_of ex_first_send)),
      sent_db (''arch040-auto-m'', 16) 18 ''wamid'' ex_first_send ex_recovery_talk ex_talk)"
  using undisturbed_send_is_recorded [of ex_outbound_library ex_send_inputs ex_admitted ex_send ex_reply ex_support "''wamid''"]
    undisturbed_send_is_recorded [of ex_outbound_library "hd ex_send_inputs # ex_send_inputs" ex_talk ex_first_send
      "ex_reply\<lparr>cm_conversationId := ''k''\<rparr>" ex_recovery_talk "''wamid''"]
    ex_sendable ex_recovery_sendable
  by (simp add: ex_fences ex_send_inputs_def)

text \<open>
  C33. The initial message of a recovery is where its lookup says. When the lookup finds none and the
  reservation admits one, the lookup finds it prepared; once it has a permit its outcome is unknown and it
  cannot be taken back any more; taken back before, it is found as refused before its permit, and the same
  reservation is then suppressed as a duplicate and changes nothing.
\<close>

theorem initial_message_is_where_lookup_says:
  assumes "inspect_initial_outreach_admission D scope = Initial_Absent" "outreach_wf D"
    and "ai_initialOutreach input = Some scope" "ids 0 \<noteq> []"
    and "reserve_in_transaction S L ids now input D = Inr (Outbound_Admitted ad, D1)"
  shows "\<exists>m. find_outbound D1 (ad_messageId ad) = Some m \<and>
    inspect_initial_outreach_admission D1 scope = Initial_Prepared m \<and>
    (\<forall>key t revision. let P = D1\<lparr>ob_messages := update_key cm_id (ad_messageId ad) (permitted key t revision) (ob_messages D1)\<rparr> in
       inspect_initial_outreach_admission P scope = Initial_Outcome_Unknown \<and>
       fail_prepared_in_transaction now' (ad_messageId ad) P = Inr P) \<and>
    (\<exists>D2. fail_prepared_in_transaction now' (ad_messageId ad) D1 = Inr D2 \<and>
       inspect_initial_outreach_admission D2 scope = Initial_Failed (m\<lparr>cm_status := MSG_FAILED\<rparr>) Pre_Permit_Refused \<and>
       reserve_in_transaction S' L' ids' now'' input D2 = Inr (Outbound_Suppressed Sup_Duplicate, D2))"
proof -
  from reserve_prepared [OF assms(1-3,5,4)] obtain a c m u where p: "prepared_initial D1 scope a c m u"
    and m: "cm_id m = ad_messageId ad" and c: "oc_id c = ai_conversationId input" by blast
  from reserve_initial_cases [OF assms(5,3)] have "initial_scope_ok D input" by blast
  then have keys: "ai_idempotencyKey input = outreach_key (in_outreachAttemptId scope)" "ai_shopId input = in_shopId scope"
    using assms(3) by (simp_all add: initial_scope_ok_def)
  have "find_outbound D1 (ad_messageId ad) = Some m"
    using p outbound_found [of D1 m] by (simp add: m prepared_initial_def outreach_wf_def)
  moreover have "inspect_initial_outreach_admission D1 scope = Initial_Prepared m" by (rule inspect_prepared [OF p])
  moreover have "let P = D1\<lparr>ob_messages := update_key cm_id (ad_messageId ad) (permitted key t revision) (ob_messages D1)\<rparr> in
      inspect_initial_outreach_admission P scope = Initial_Outcome_Unknown \<and>
      fail_prepared_in_transaction now' (ad_messageId ad) P = Inr P" for key t revision
    using inspect_permitted [OF p, of key t revision] fail_prepared_permitted
    unfolding m Let_def by blast
  moreover have "fail_prepared_in_transaction now' (ad_messageId ad) D1 = Inr (taken_back now' scope m u D1)"
    using fail_prepared_initial [OF p] by (simp add: m)
  moreover note inspect_taken_back [OF p, of now'] reserve_after_taken_back [where now = now' and S = S' and L = L' and ids = ids' and t = now'', OF p keys c [symmetric]]
  ultimately show ?thesis by blast
qed

theorem initial_message_is_where_lookup_says_witness:
  "\<exists>m D1. reserve_in_transaction ex_shared ex_outbound_library ex_ids 10 ex_initial_input ex_outbound =
       Inr (Outbound_Admitted \<lparr>ad_shopId = ''s'', ad_messageId = ''m'', ad_conversationId = ''k'', ad_terminal = False,
         ad_executionScope = General_Scope\<rparr>, D1) \<and>
     inspect_initial_outreach_admission D1 ex_scope = Initial_Prepared m \<and>
     (\<exists>D2. fail_prepared_in_transaction 11 ''m'' D1 = Inr D2 \<and>
       reserve_in_transaction ex_shared ex_outbound_library ex_ids 12 ex_initial_input D2 =
         Inr (Outbound_Suppressed Sup_Duplicate, D2))"
proof -
  have "inspect_initial_outreach_admission ex_outbound ex_scope = Initial_Absent" by code_simp
  moreover have "outreach_wf ex_outbound"
    by (auto simp: outreach_wf_def usage_linked_def message_keys_def ex_outbound_def ex_db_def ex_attempt_def
        ex_support_def ex_recovery_talk_def)
  moreover have "ai_initialOutreach ex_initial_input = Some ex_scope" "ex_ids 0 \<noteq> []"
    by (simp_all add: ex_initial_input_def ex_ids_def)
  moreover have run: "\<exists>D1. reserve_in_transaction ex_shared ex_outbound_library ex_ids 10 ex_initial_input ex_outbound =
      Inr (Outbound_Admitted \<lparr>ad_shopId = ''s'', ad_messageId = ''m'', ad_conversationId = ''k'', ad_terminal = False,
         ad_executionScope = General_Scope\<rparr>, D1)"
    by (rule run_map) code_simp
  then obtain D1 where "reserve_in_transaction ex_shared ex_outbound_library ex_ids 10 ex_initial_input ex_outbound =
      Inr (Outbound_Admitted \<lparr>ad_shopId = ''s'', ad_messageId = ''m'', ad_conversationId = ''k'', ad_terminal = False,
         ad_executionScope = General_Scope\<rparr>, D1)" by blast
  ultimately have "\<exists>m. inspect_initial_outreach_admission D1 ex_scope = Initial_Prepared m \<and>
      (\<exists>D2. fail_prepared_in_transaction 11 ''m'' D1 = Inr D2 \<and>
        reserve_in_transaction ex_shared ex_outbound_library ex_ids 12 ex_initial_input D2 =
          Inr (Outbound_Suppressed Sup_Duplicate, D2))"
    using initial_message_is_where_lookup_says [of ex_outbound ex_scope ex_initial_input ex_ids ex_shared
        ex_outbound_library 10 _ D1 11 ex_shared ex_outbound_library ex_ids 12] by fastforce
  with \<open>reserve_in_transaction ex_shared ex_outbound_library ex_ids 10 ex_initial_input ex_outbound = _\<close>
  show ?thesis by blast
qed

section \<open>What the recovery fence leaves open\<close>

text \<open>
  The fence of a recovery does not compare the content of the row with the text it admits, as the general
  fence does. A second send of the same message that prepares its text after the first was moderated and
  before it is admitted replaces what the row holds: the customer gets one text and the row keeps the other.
\<close>

definition ex_second_send :: send_request where
  "ex_second_send = ex_first_send\<lparr>sr_text := ''Goodbye''\<rparr>"

definition ex_input :: send_input where
  "ex_input = \<lparr>si_now = 11, si_permitNow = 11, si_verdict = Moderation_Allows, si_reply = Provider_Accepted ''wamid''\<rparr>"

definition ex_talk_row :: "string \<Rightarrow> outbound_message" where
  "ex_talk_row text = ex_reply\<lparr>cm_conversationId := ''k'', om_content := text\<rparr>"

definition ex_talk_with :: "outbound_message \<Rightarrow> outbound_db" where
  "ex_talk_with m = ex_talk\<lparr>ob_messages := m # tl (ob_messages ex_talk)\<rparr>"

lemma ex_talk_prepare:
  "send_phase_step ex_outbound_library ex_input ex_first_send ex_talk Check_Preparation = (Revalidate, ex_talk)"
  "send_phase_step ex_outbound_library ex_input ex_first_send ex_talk Revalidate = (Prepare_Content, ex_talk)"
  "send_phase_step ex_outbound_library ex_input ex_first_send ex_talk Prepare_Content =
     (Moderate, ex_talk_with (ex_talk_row ''Hello''))"
  "send_phase_step ex_outbound_library ex_input ex_first_send (ex_talk_with (ex_talk_row ''Hello'')) Moderate =
     (Read_Ownership, ex_talk_with (ex_talk_row ''Hello''))"
  by code_simp+

lemma ex_talk_replace:
  "send_phase_step ex_outbound_library ex_input ex_second_send (ex_talk_with (ex_talk_row ''Hello'')) Check_Preparation =
     (Revalidate, ex_talk_with (ex_talk_row ''Hello''))"
  "send_phase_step ex_outbound_library ex_input ex_second_send (ex_talk_with (ex_talk_row ''Hello'')) Revalidate =
     (Prepare_Content, ex_talk_with (ex_talk_row ''Hello''))"
  "send_phase_step ex_outbound_library ex_input ex_second_send (ex_talk_with (ex_talk_row ''Hello'')) Prepare_Content =
     (Moderate, ex_talk_with (ex_talk_row ''Goodbye''))"
  by code_simp+

lemma ex_talk_admit:
  "send_phase_step ex_outbound_library ex_input ex_first_send (ex_talk_with (ex_talk_row ''Goodbye'')) Read_Ownership =
     (Read_Sender ''v'' 3, ex_talk_with (ex_talk_row ''Goodbye''))"
  "send_phase_step ex_outbound_library ex_input ex_first_send (ex_talk_with (ex_talk_row ''Goodbye'')) (Read_Sender ''v'' 3) =
     (Recovery_Fence SENDER_AGENT ''v'' 3, ex_talk_with (ex_talk_row ''Goodbye''))"
  "send_phase_step ex_outbound_library ex_input ex_first_send (ex_talk_with (ex_talk_row ''Goodbye''))
       (Recovery_Fence SENDER_AGENT ''v'' 3) =
     (Call_Provider, ex_talk_with (permitted ''arch040-auto-m'' 11 3 (ex_talk_row ''Goodbye'')))"
  by code_simp+

theorem recovery_text_can_be_replaced:
  "run_phases ex_outbound_library ex_first_send [ex_input, ex_input, ex_input, ex_input] (Check_Preparation, ex_talk) =
     (Read_Ownership, ex_talk_with (ex_talk_row ''Hello''))"
  "run_phases ex_outbound_library ex_second_send [ex_input, ex_input, ex_input]
       (Check_Preparation, ex_talk_with (ex_talk_row ''Hello'')) =
     (Moderate, ex_talk_with (ex_talk_row ''Goodbye''))"
  "run_phases ex_outbound_library ex_first_send [ex_input, ex_input, ex_input]
       (Read_Ownership, ex_talk_with (ex_talk_row ''Goodbye'')) =
     (Call_Provider, ex_talk_with (permitted ''arch040-auto-m'' 11 3 (ex_talk_row ''Goodbye'')))"
  "pc_text (call_of ex_first_send) = ''Hello''"
  by (simp_all only: run_phases.simps fst_conv snd_conv ex_talk_prepare ex_talk_replace ex_talk_admit)
    (simp add: call_of_def ex_first_send_def ex_send_def outbound_text_def)

end
