(* ===== verification/Runtime_Lease.thy ===== *)
theory Runtime_Lease
  imports Prelude
begin

text \<open>
  \<open>src/runtime/background-runtime-lease.ts\<close>: one row per lease, which the processes of the service compete
  for. Each statement is one update under the clock of the database, which does not go backwards; between the
  statements of one process all the others go on. A process that holds a lease sends heartbeats while it works,
  may lose the lease without being stopped, and gives it back at the end. The time of a statement is the time it
  takes effect; that a statement which waits for the lock of the row keeps the earlier \<open>NOW()\<close> is not modelled.
\<close>

section \<open>The rows\<close>

datatype lease_name =
    BILLING_RECONCILIATION | RECOVERY_CAPACITY_REPAIR | CHECKOUT_RECOVERY_EXPIRY | TRANSLATION_RECONCILIATION
  | QUEUE_CONCURRENCY_RECONCILIATION | MERCHANT_KNOWLEDGE_PENDING_RECONCILIATION | MERCHANT_KNOWLEDGE_UPLOAD_CLEANUP
  | MERCHANT_KNOWLEDGE_ENTITLEMENT_RECONCILIATION | WOO_COUPON_SYNC_DISPATCH

record lease_row =
  lr_name :: lease_name
  lr_ownerToken :: string
  lr_generation :: int
  lr_acquiredAt :: time
  lr_heartbeatAt :: time
  lr_leaseUntil :: time
  lr_lastFinishedAt :: "time option"
  lr_updatedAt :: time

record lease_config =
  lc_billingReconciliationIntervalSeconds :: int
  lc_recoveryRepairIntervalSeconds :: int
  lc_translationReconciliationIntervalSeconds :: int

record lease_handle =
  lh_name :: lease_name
  lh_ownerToken :: string
  lh_generation :: int

definition LEASE_DURATION_MS :: int where
  "LEASE_DURATION_MS = 120000"

section \<open>The three statements\<close>

definition cadence_seconds :: "lease_config \<Rightarrow> lease_name \<Rightarrow> int" where
  "cadence_seconds c n = (case n of
      BILLING_RECONCILIATION \<Rightarrow> lc_billingReconciliationIntervalSeconds c
    | RECOVERY_CAPACITY_REPAIR \<Rightarrow> lc_recoveryRepairIntervalSeconds c
    | CHECKOUT_RECOVERY_EXPIRY \<Rightarrow> 3600
    | TRANSLATION_RECONCILIATION \<Rightarrow> lc_translationReconciliationIntervalSeconds c
    | QUEUE_CONCURRENCY_RECONCILIATION \<Rightarrow> 0
    | MERCHANT_KNOWLEDGE_PENDING_RECONCILIATION \<Rightarrow> 60
    | MERCHANT_KNOWLEDGE_UPLOAD_CLEANUP \<Rightarrow> 3600
    | MERCHANT_KNOWLEDGE_ENTITLEMENT_RECONCILIATION \<Rightarrow> 300
    | WOO_COUPON_SYNC_DISPATCH \<Rightarrow> 60)"

definition cadence_ms :: "lease_config \<Rightarrow> lease_name \<Rightarrow> int" where
  "cadence_ms c n = cadence_seconds c n * 1000"

definition find_lease :: "lease_row table \<Rightarrow> lease_name \<Rightarrow> lease_row option" where
  "find_lease T n = find_row (\<lambda>r. lr_name r = n) T"

definition first_lease :: "string \<Rightarrow> lease_name \<Rightarrow> time \<Rightarrow> lease_row" where
  "first_lease owner n now = \<lparr>lr_name = n, lr_ownerToken = owner, lr_generation = 1, lr_acquiredAt = now,
     lr_heartbeatAt = now, lr_leaseUntil = now + LEASE_DURATION_MS, lr_lastFinishedAt = None, lr_updatedAt = now\<rparr>"

definition taken_lease :: "string \<Rightarrow> time \<Rightarrow> lease_row \<Rightarrow> lease_row" where
  "taken_lease owner now r = r\<lparr>lr_ownerToken := owner, lr_generation := lr_generation r + 1, lr_acquiredAt := now,
     lr_heartbeatAt := now, lr_leaseUntil := now + LEASE_DURATION_MS, lr_updatedAt := now\<rparr>"

definition is_free_lease :: "time \<Rightarrow> int \<Rightarrow> lease_row \<Rightarrow> bool" where
  "is_free_lease now cadence r \<longleftrightarrow> lr_leaseUntil r \<le> now \<and>
     (\<forall>f\<in>set_option (lr_lastFinishedAt r). f + cadence \<le> now)"

text \<open>\<open>INSERT ... ON CONFLICT DO UPDATE ... WHERE ... RETURNING\<close>; without the configuration row nothing is selected.\<close>

definition try_acquire ::
  "string \<Rightarrow> lease_name \<Rightarrow> time \<Rightarrow> lease_config option \<Rightarrow> lease_row table \<Rightarrow> lease_handle option \<times> lease_row table" where
  "try_acquire owner n now config T =
     (case config of
        None \<Rightarrow> (None, T)
      | Some c \<Rightarrow>
          (case find_lease T n of
             None \<Rightarrow> (Some \<lparr>lh_name = n, lh_ownerToken = owner, lh_generation = 1\<rparr>, T @ [first_lease owner n now])
           | Some r \<Rightarrow>
               if is_free_lease now (cadence_ms c n) r
               then (Some \<lparr>lh_name = n, lh_ownerToken = owner, lh_generation = lr_generation r + 1\<rparr>,
                     update_key lr_name n (taken_lease owner now) T)
               else (None, T)))"

definition is_of_handle :: "lease_handle \<Rightarrow> lease_row \<Rightarrow> bool" where
  "is_of_handle h r \<longleftrightarrow> lr_name r = lh_name h \<and> lr_ownerToken r = lh_ownerToken h \<and> lr_generation r = lh_generation h"

definition heartbeat :: "lease_handle \<Rightarrow> time \<Rightarrow> lease_row table \<Rightarrow> bool \<times> lease_row table" where
  "heartbeat h now T =
     (let (n, T') = update_many (\<lambda>r. is_of_handle h r \<and> now < lr_leaseUntil r)
        (\<lambda>r. r\<lparr>lr_heartbeatAt := now, lr_leaseUntil := now + LEASE_DURATION_MS, lr_updatedAt := now\<rparr>) T in
      (n = 1, T'))"

definition finished_lease :: "time \<Rightarrow> lease_row \<Rightarrow> lease_row" where
  "finished_lease now r = r\<lparr>lr_leaseUntil := now, lr_heartbeatAt := now, lr_lastFinishedAt := Some now, lr_updatedAt := now\<rparr>"

definition release_lease :: "lease_handle \<Rightarrow> time \<Rightarrow> lease_row table \<Rightarrow> bool \<times> lease_row table" where
  "release_lease h now T =
     (let (n, T') = update_many (is_of_handle h) (finished_lease now) T in (n = 1, T'))"

section \<open>A process that runs with a lease\<close>

text \<open>
  \<open>runWithLease\<close>. A heartbeat in flight is sent, then answered by the database, then read. \<open>Closing\<close> is the
  \<open>finally\<close> block, which waits for the heartbeat in flight; its flag says whether the work has thrown.
\<close>

datatype beat = No_Beat | Beat_Sent | Beat_Answered bool

datatype lease_result = Lease_Skipped | Lease_Completed bool | Lease_Thrown

datatype lease_phase =
    Requested
  | Working lease_handle bool beat
  | Closing lease_handle bool beat bool
  | Ended lease_result

text \<open>
  When a heartbeat is sent is left open: the timer of 30 seconds may fire late. \<open>Fail_Beat\<close> is a heartbeat that
  throws, before or after the database ran it; \<open>Fail_Release\<close> is a release that throws and did not take effect.
\<close>

datatype lease_event =
  Ask_Lease | Send_Beat | Run_Beat | Read_Beat | Fail_Beat | End_Work bool | Give_Back | Fail_Release | Die

text \<open>\<open>lo_acquiredAt\<close> and \<open>lo_confirmedAt\<close> record when the holder got the lease and when it last extended it.\<close>

record lease_holder =
  lo_owner :: string
  lo_name :: lease_name
  lo_phase :: lease_phase
  lo_acquiredAt :: time
  lo_confirmedAt :: time

datatype lease_mark = Run_Started lease_name time int | Run_Finished lease_name time

definition run_result :: "bool \<Rightarrow> bool \<Rightarrow> lease_phase" where
  "run_result leaseLost threw = Ended (if threw then Lease_Thrown else Lease_Completed leaseLost)"

definition ask_lease ::
  "time \<Rightarrow> lease_config option \<Rightarrow> lease_holder \<Rightarrow> lease_row table \<Rightarrow> lease_holder \<times> lease_row table \<times> lease_mark list" where
  "ask_lease now config x T =
     (let (h, T') = try_acquire (lo_owner x) (lo_name x) now config T in
      (case h of
         None \<Rightarrow> (x\<lparr>lo_phase := Ended Lease_Skipped\<rparr>, T', [])
       | Some h \<Rightarrow> (x\<lparr>lo_phase := Working h False No_Beat, lo_acquiredAt := now, lo_confirmedAt := now\<rparr>, T',
           map (\<lambda>c. Run_Started (lo_name x) now (cadence_ms c (lo_name x))) (case config of None \<Rightarrow> [] | Some c \<Rightarrow> [c]))))"

definition run_beat :: "time \<Rightarrow> lease_handle \<Rightarrow> (beat \<Rightarrow> lease_phase) \<Rightarrow> lease_holder \<Rightarrow> lease_row table \<Rightarrow>
    lease_holder \<times> lease_row table \<times> lease_mark list" where
  "run_beat now h phase x T =
     (let (valid, T') = heartbeat h now T in
      (x\<lparr>lo_phase := phase (Beat_Answered valid), lo_confirmedAt := (if valid then now else lo_confirmedAt x)\<rparr>, T', []))"

definition give_back :: "time \<Rightarrow> lease_handle \<Rightarrow> bool \<Rightarrow> lease_holder \<Rightarrow> lease_row table \<Rightarrow>
    lease_holder \<times> lease_row table \<times> lease_mark list" where
  "give_back now h threw x T =
     (let (released, T') = release_lease h now T in
      (x\<lparr>lo_phase := run_result False threw\<rparr>, T', if released then [Run_Finished (lh_name h) now] else []))"

text \<open>An event that cannot happen in the phase changes nothing.\<close>

definition lease_step ::
  "lease_event \<Rightarrow> time \<Rightarrow> lease_config option \<Rightarrow> lease_holder \<Rightarrow> lease_row table \<Rightarrow>
     lease_holder \<times> lease_row table \<times> lease_mark list" where
  "lease_step ev now config x T =
     (case (ev, lo_phase x) of
        (Ask_Lease, Requested) \<Rightarrow> ask_lease now config x T
      | (Send_Beat, Working h False No_Beat) \<Rightarrow> (x\<lparr>lo_phase := Working h False Beat_Sent\<rparr>, T, [])
      | (Run_Beat, Working h lost Beat_Sent) \<Rightarrow> run_beat now h (Working h lost) x T
      | (Run_Beat, Closing h lost Beat_Sent threw) \<Rightarrow> run_beat now h (\<lambda>b. Closing h lost b threw) x T
      | (Read_Beat, Working h lost (Beat_Answered valid)) \<Rightarrow> (x\<lparr>lo_phase := Working h (lost \<or> \<not> valid) No_Beat\<rparr>, T, [])
      | (Read_Beat, Closing h lost (Beat_Answered valid) threw) \<Rightarrow>
          (x\<lparr>lo_phase := Closing h (lost \<or> \<not> valid) No_Beat threw\<rparr>, T, [])
      | (Fail_Beat, Working h lost b) \<Rightarrow> (if b = No_Beat then (x, T, []) else (x\<lparr>lo_phase := Working h lost No_Beat\<rparr>, T, []))
      | (Fail_Beat, Closing h lost b threw) \<Rightarrow>
          (if b = No_Beat then (x, T, []) else (x\<lparr>lo_phase := Ended Lease_Thrown\<rparr>, T, []))
      | (End_Work threw, Working h lost b) \<Rightarrow> (x\<lparr>lo_phase := Closing h lost b threw\<rparr>, T, [])
      | (Give_Back, Closing h lost No_Beat threw) \<Rightarrow>
          (if lost then (x\<lparr>lo_phase := run_result True threw\<rparr>, T, []) else give_back now h threw x T)
      | (Fail_Release, Closing h lost No_Beat threw) \<Rightarrow> (x\<lparr>lo_phase := Ended Lease_Thrown\<rparr>, T, [])
      | (Die, _) \<Rightarrow> (x\<lparr>lo_phase := Ended Lease_Thrown\<rparr>, T, [])
      | _ \<Rightarrow> (x, T, []))"

section \<open>Processes side by side\<close>

record lease_system =
  ls_now :: time
  ls_config :: "lease_config option"
  ls_leases :: "lease_row table"
  ls_holders :: "lease_holder list"
  ls_log :: "lease_mark list"

definition new_holder :: "string \<Rightarrow> lease_name \<Rightarrow> lease_holder" where
  "new_holder owner n = \<lparr>lo_owner = owner, lo_name = n, lo_phase = Requested, lo_acquiredAt = 0, lo_confirmedAt = 0\<rparr>"

definition step_holder :: "lease_event \<Rightarrow> nat \<Rightarrow> lease_system \<Rightarrow> lease_system" where
  "step_holder ev k s =
     (let (x, T, marks) = lease_step ev (ls_now s) (ls_config s) (ls_holders s ! k) (ls_leases s) in
      s\<lparr>ls_leases := T, ls_holders := (ls_holders s)[k := x], ls_log := ls_log s @ marks\<rparr>)"

inductive lease_moves :: "lease_system \<Rightarrow> lease_system \<Rightarrow> bool" where
  Pass_Time: "ls_now s \<le> t \<Longrightarrow> lease_moves s (s\<lparr>ls_now := t\<rparr>)"
| Configure: "lease_moves s (s\<lparr>ls_config := c\<rparr>)"
| Begin_Run: "lease_moves s (s\<lparr>ls_holders := ls_holders s @ [new_holder owner n]\<rparr>)"
| Move_Holder: "k < length (ls_holders s) \<Longrightarrow> lease_moves s (step_holder ev k s)"

inductive lease_reachable :: "time \<Rightarrow> lease_system \<Rightarrow> bool" for t0 :: time where
  Start: "lease_reachable t0 \<lparr>ls_now = t0, ls_config = c, ls_leases = [], ls_holders = [], ls_log = []\<rparr>"
| Step: "lease_reachable t0 s \<Longrightarrow> lease_moves s s' \<Longrightarrow> lease_reachable t0 s'"

inductive_cases lease_movesE: "lease_moves s s'"

fun held_lease :: "lease_phase \<Rightarrow> lease_handle option" where
  "held_lease (Working h _ _) = Some h"
| "held_lease (Closing h _ _ _) = Some h"
| "held_lease _ = None"

section \<open>The statements on a table with one row per name\<close>

definition extended_lease :: "time \<Rightarrow> lease_row \<Rightarrow> lease_row" where
  "extended_lease now r = r\<lparr>lr_heartbeatAt := now, lr_leaseUntil := now + LEASE_DURATION_MS, lr_updatedAt := now\<rparr>"

definition lease_keys :: "lease_row table \<Rightarrow> bool" where
  "lease_keys T \<longleftrightarrow> distinct (map lr_name T)"

lemma lease_row_simps [simp]:
  "lr_name (extended_lease t r) = lr_name r" "lr_ownerToken (extended_lease t r) = lr_ownerToken r"
  "lr_generation (extended_lease t r) = lr_generation r" "lr_acquiredAt (extended_lease t r) = lr_acquiredAt r"
  "lr_leaseUntil (extended_lease t r) = t + LEASE_DURATION_MS" "lr_lastFinishedAt (extended_lease t r) = lr_lastFinishedAt r"
  "lr_name (finished_lease t r) = lr_name r" "lr_ownerToken (finished_lease t r) = lr_ownerToken r"
  "lr_generation (finished_lease t r) = lr_generation r" "lr_acquiredAt (finished_lease t r) = lr_acquiredAt r"
  "lr_leaseUntil (finished_lease t r) = t" "lr_lastFinishedAt (finished_lease t r) = Some t"
  "lr_name (taken_lease w t r) = lr_name r" "lr_ownerToken (taken_lease w t r) = w"
  "lr_generation (taken_lease w t r) = lr_generation r + 1" "lr_acquiredAt (taken_lease w t r) = t"
  "lr_leaseUntil (taken_lease w t r) = t + LEASE_DURATION_MS" "lr_lastFinishedAt (taken_lease w t r) = lr_lastFinishedAt r"
  "lr_name (first_lease w n t) = n" "lr_ownerToken (first_lease w n t) = w" "lr_generation (first_lease w n t) = 1"
  "lr_acquiredAt (first_lease w n t) = t" "lr_leaseUntil (first_lease w n t) = t + LEASE_DURATION_MS"
  "lr_lastFinishedAt (first_lease w n t) = None"
  by (simp_all add: extended_lease_def finished_lease_def taken_lease_def first_lease_def)

lemma find_lease_name: "find_lease T n = Some r \<Longrightarrow> r \<in> set T \<and> lr_name r = n"
  unfolding find_lease_def by (drule find_row_SomeD) simp

lemma find_lease_update:
  assumes "\<And>r. lr_name (f r) = lr_name r"
  shows "find_lease (update_key lr_name n f T) m = (if m = n then map_option f (find_lease T n) else find_lease T m)"
proof -
  have "find_lease (update_key lr_name n f T) m = map_option (\<lambda>r. if lr_name r = n then f r else r) (find_lease T m)"
    unfolding find_lease_def by (rule find_key_update_key) (rule assms)
  then show ?thesis by (cases "find_lease T m") (auto dest: find_lease_name)
qed

lemma lease_keys_update: "(\<And>r. lr_name (f r) = lr_name r) \<Longrightarrow> lease_keys T \<Longrightarrow> lease_keys (update_key lr_name n f T)"
  by (simp add: lease_keys_def map_update_key)

lemma find_lease_new:
  "find_lease T n = None \<Longrightarrow> find_lease (T @ [first_lease w n t]) m = (if m = n then Some (first_lease w n t) else find_lease T m)"
  by (auto simp: find_lease_def find_row_snoc split: option.split)

lemma lease_keys_new: "lease_keys T \<Longrightarrow> find_lease T n = None \<Longrightarrow> lease_keys (T @ [first_lease w n t])"
  by (auto simp: lease_keys_def find_lease_def find_row_None_iff)

lemma guarded_lease_update:
  assumes "lease_keys T"
  shows "update_many (\<lambda>r. is_of_handle h r \<and> G r) f T =
    (case find_lease T (lh_name h) of
       None \<Rightarrow> (0, T)
     | Some r \<Rightarrow> if is_of_handle h r \<and> G r then (1, update_key lr_name (lh_name h) f T) else (0, T))"
proof -
  let ?G = "\<lambda>r. lr_ownerToken r = lh_ownerToken h \<and> lr_generation r = lh_generation h \<and> G r"
  have P: "(\<lambda>r. is_of_handle h r \<and> G r) = (\<lambda>r. lr_name r = lh_name h \<and> ?G r)" by (auto simp: is_of_handle_def)
  have keys: "distinct (map lr_name T)" using assms by (simp add: lease_keys_def)
  show ?thesis
  proof (cases "find_lease T (lh_name h)")
    case None
    then have "\<forall>r\<in>set T. lr_name r \<noteq> lh_name h" by (simp add: find_lease_def find_row_None_iff)
    with update_many_miss [OF keys, of "lh_name h" ?G f] None show ?thesis unfolding P by simp
  next
    case (Some r)
    then have r: "r \<in> set T" "lr_name r = lh_name h" by (auto dest: find_lease_name)
    show ?thesis
    proof (cases "?G r")
      case True
      with update_many_hit [where key = lr_name and G = ?G and f = f, OF keys r] Some r(2) show ?thesis
        unfolding P by (simp add: is_of_handle_def)
    next
      case False
      have "\<not> ?G x" if "x \<in> set T" "lr_name x = lh_name h" for x
        using key_inj [OF keys r(1) that(1)] that(2) r(2) False by simp
      with update_many_miss [OF keys, of "lh_name h" ?G f] Some False show ?thesis
        unfolding P by (simp add: is_of_handle_def)
    qed
  qed
qed

lemma heartbeat_spec:
  assumes "lease_keys T"
  shows "heartbeat h now T = (case find_lease T (lh_name h) of
       None \<Rightarrow> (False, T)
     | Some r \<Rightarrow> if is_of_handle h r \<and> now < lr_leaseUntil r
         then (True, update_key lr_name (lh_name h) (extended_lease now) T) else (False, T))"
  unfolding heartbeat_def guarded_lease_update [OF assms]
  by (simp add: extended_lease_def [abs_def] split: option.split)

lemma release_spec:
  assumes "lease_keys T"
  shows "release_lease h now T = (case find_lease T (lh_name h) of
       None \<Rightarrow> (False, T)
     | Some r \<Rightarrow> if is_of_handle h r
         then (True, update_key lr_name (lh_name h) (finished_lease now) T) else (False, T))"
  using guarded_lease_update [OF assms, of h "\<lambda>_. True" "finished_lease now"]
  by (simp add: release_lease_def split: option.split)

end
