(* ===== verification/Lease_Invariant.thy ===== *)
theory Lease_Invariant
  imports Runtime_Lease
begin

text \<open>
  What holds in every reachable state of the leases of \<open>Runtime_Lease\<close>, by rule induction over the moves: who
  holds a lease and who has lost it, how far apart the runs of one lease are, and that a lease can be had again.
\<close>

section \<open>What holds of every reachable state\<close>

definition lease_row_ok :: "time \<Rightarrow> lease_row \<Rightarrow> bool" where
  "lease_row_ok now r \<longleftrightarrow> lr_acquiredAt r \<le> now \<and> lr_leaseUntil r \<le> now + LEASE_DURATION_MS \<and>
     (\<forall>f\<in>set_option (lr_lastFinishedAt r). f \<le> now)"

text \<open>
  A holder has the generation of the row, and then the row protects it for the time of a lease after it was
  last confirmed; or the lease was taken from it, and then that time was over.
\<close>

definition holder_ok :: "lease_row table \<Rightarrow> time \<Rightarrow> lease_holder \<Rightarrow> lease_handle \<Rightarrow> bool" where
  "holder_ok T now x h \<longleftrightarrow> lh_name h = lo_name x \<and> lo_acquiredAt x \<le> now \<and>
     (\<exists>r. find_lease T (lh_name h) = Some r \<and> lh_generation h \<le> lr_generation r \<and>
        (if lh_generation h = lr_generation r
         then lr_ownerToken r = lh_ownerToken h \<and> lo_confirmedAt x + LEASE_DURATION_MS \<le> lr_leaseUntil r
         else lo_confirmedAt x + LEASE_DURATION_MS \<le> lr_acquiredAt r))"

definition held_before :: "lease_holder \<Rightarrow> lease_handle \<Rightarrow> lease_holder \<Rightarrow> lease_handle \<Rightarrow> bool" where
  "held_before x g y h \<longleftrightarrow> lh_generation g < lh_generation h \<and> lo_confirmedAt x + LEASE_DURATION_MS \<le> lo_acquiredAt y"

definition lease_ok :: "lease_row table \<Rightarrow> time \<Rightarrow> lease_holder list \<Rightarrow> bool" where
  "lease_ok T now xs \<longleftrightarrow> lease_keys T \<and> (\<forall>n r. find_lease T n = Some r \<longrightarrow> lease_row_ok now r) \<and>
     (\<forall>k<length xs. \<forall>h. held_lease (lo_phase (xs ! k)) = Some h \<longrightarrow> holder_ok T now (xs ! k) h) \<and>
     (\<forall>i<length xs. \<forall>j<length xs. \<forall>g h. i \<noteq> j \<and> held_lease (lo_phase (xs ! i)) = Some g \<and>
        held_lease (lo_phase (xs ! j)) = Some h \<and> lh_name g = lh_name h \<longrightarrow>
        held_before (xs ! i) g (xs ! j) h \<or> held_before (xs ! j) h (xs ! i) g)"

lemma lease_okD:
  assumes "lease_ok T now xs"
  shows "lease_keys T" and "find_lease T n = Some r \<Longrightarrow> lease_row_ok now r"
    and "k < length xs \<Longrightarrow> held_lease (lo_phase (xs ! k)) = Some h \<Longrightarrow> holder_ok T now (xs ! k) h"
    and "i < length xs \<Longrightarrow> j < length xs \<Longrightarrow> i \<noteq> j \<Longrightarrow> held_lease (lo_phase (xs ! i)) = Some g \<Longrightarrow>
      held_lease (lo_phase (xs ! j)) = Some h \<Longrightarrow> lh_name g = lh_name h \<Longrightarrow>
      held_before (xs ! i) g (xs ! j) h \<or> held_before (xs ! j) h (xs ! i) g"
  using assms unfolding lease_ok_def by blast+

text \<open>One holder moves, and the table with it.\<close>

lemma lease_ok_update:
  assumes "lease_ok T now xs" "k < length xs" "lease_keys T'"
    and "\<And>n r. find_lease T' n = Some r \<Longrightarrow> lease_row_ok now r"
    and "\<And>j h. j < length xs \<Longrightarrow> j \<noteq> k \<Longrightarrow> held_lease (lo_phase (xs ! j)) = Some h \<Longrightarrow> holder_ok T' now (xs ! j) h"
    and "\<And>h. held_lease (lo_phase x) = Some h \<Longrightarrow> holder_ok T' now x h"
    and "\<And>j g h. j < length xs \<Longrightarrow> j \<noteq> k \<Longrightarrow> held_lease (lo_phase (xs ! j)) = Some g \<Longrightarrow>
      held_lease (lo_phase x) = Some h \<Longrightarrow> lh_name g = lh_name h \<Longrightarrow> held_before (xs ! j) g x h \<or> held_before x h (xs ! j) g"
  shows "lease_ok T' now (xs[k := x])"
  unfolding lease_ok_def
proof (intro conjI allI impI)
  show "holder_ok T' now (xs[k := x] ! j) h"
    if "j < length (xs[k := x])" "held_lease (lo_phase (xs[k := x] ! j)) = Some h" for j h
    using that assms(5,6) by (cases "j = k") auto
  show "held_before (xs[k := x] ! i) g (xs[k := x] ! j) h \<or> held_before (xs[k := x] ! j) h (xs[k := x] ! i) g"
    if ij: "i < length (xs[k := x])" "j < length (xs[k := x])"
      "i \<noteq> j \<and> held_lease (lo_phase (xs[k := x] ! i)) = Some g \<and> held_lease (lo_phase (xs[k := x] ! j)) = Some h \<and>
        lh_name g = lh_name h" for i j g h
  proof -
    consider "i = k" "j \<noteq> k" | "i \<noteq> k" "j = k" | "i \<noteq> k" "j \<noteq> k" using ij(3) by blast
    then show ?thesis
    proof cases
      case 1
      with ij assms(2) assms(7) [of j h g] show ?thesis by auto
    next
      case 2
      with ij assms(2) assms(7) [of i g h] show ?thesis by auto
    next
      case 3
      with ij lease_okD(4) [OF assms(1), of i j g h] show ?thesis by auto
    qed
  qed
qed (use assms(3,4) in auto)

lemma lease_ok_same_table:
  assumes "lease_ok T now xs" "k < length xs"
    and "\<And>h. held_lease (lo_phase x) = Some h \<Longrightarrow> held_lease (lo_phase (xs ! k)) = Some h \<and>
      lo_name x = lo_name (xs ! k) \<and> lo_acquiredAt x = lo_acquiredAt (xs ! k) \<and> lo_confirmedAt x = lo_confirmedAt (xs ! k)"
  shows "lease_ok T now (xs[k := x])"
proof (rule lease_ok_update [OF assms(1,2)])
  show "holder_ok T now x h" if "held_lease (lo_phase x) = Some h" for h
    using assms(3) [OF that] lease_okD(3) [OF assms(1,2)] by (auto simp: holder_ok_def)
  show "held_before (xs ! j) g x h \<or> held_before x h (xs ! j) g"
    if "j < length xs" "j \<noteq> k" "held_lease (lo_phase (xs ! j)) = Some g" "held_lease (lo_phase x) = Some h"
      "lh_name g = lh_name h" for j g h
    using assms(3) [OF that(4)] lease_okD(4) [OF assms(1) that(1) assms(2) that(2,3)] that(5)
    by (auto simp: held_before_def)
qed (use lease_okD [OF assms(1)] in auto)


text \<open>A lease is acquired: everyone who held it has lost it.\<close>

lemma ask_lease_ok:
  assumes "lease_ok T now xs" "k < length xs" "ask_lease now config (xs ! k) T = (x, T', marks)"
  shows "lease_ok T' now (xs[k := x])"
proof (cases "fst (try_acquire (lo_owner (xs ! k)) (lo_name (xs ! k)) now config T)")
  case None
  then have "T' = T" "held_lease (lo_phase x) = None"
    using assms(3) by (auto simp: ask_lease_def try_acquire_def split: option.splits if_splits)
  then show ?thesis using lease_ok_same_table [OF assms(1,2), of x] by simp
next
  case (Some h)
  let ?n = "lo_name (xs ! k)" and ?w = "lo_owner (xs ! k)"
  note keys = lease_okD(1) [OF assms(1)] and rows = lease_okD(2) [OF assms(1)]
  from Some assms(3) have x: "x = (xs ! k)\<lparr>lo_phase := Working h False No_Beat, lo_acquiredAt := now, lo_confirmedAt := now\<rparr>"
    by (auto simp: ask_lease_def split: prod.splits)
  from Some assms(3) obtain new where h: "lh_name h = ?n" "lh_ownerToken h = ?w"
    and T': "lease_keys T'" "\<And>m. find_lease T' m = (if m = ?n then Some new else find_lease T m)"
    and new: "lr_ownerToken new = ?w" "lr_generation new = lh_generation h" "lr_acquiredAt new = now"
      "lr_leaseUntil new = now + LEASE_DURATION_MS" "\<forall>f\<in>set_option (lr_lastFinishedAt new). f \<le> now"
    and old: "\<And>r. find_lease T ?n = Some r \<Longrightarrow> lr_generation r < lh_generation h \<and> lr_leaseUntil r \<le> now"
  proof (cases "find_lease T ?n")
    case None
    with Some assms(3) have "T' = T @ [first_lease ?w ?n now]" "h = \<lparr>lh_name = ?n, lh_ownerToken = ?w, lh_generation = 1\<rparr>"
      by (auto simp: ask_lease_def try_acquire_def split: option.splits)
    with None keys show ?thesis
      by (intro that [of "first_lease ?w ?n now"]) (simp_all add: lease_keys_new find_lease_new)
  next
    case (Some r)
    with \<open>fst (try_acquire ?w ?n now config T) = Some h\<close> assms(3)
    have *: "T' = update_key lr_name ?n (taken_lease ?w now) T" "lr_leaseUntil r \<le> now"
      "h = \<lparr>lh_name = ?n, lh_ownerToken = ?w, lh_generation = lr_generation r + 1\<rparr>"
      by (auto simp: ask_lease_def try_acquire_def is_free_lease_def split: option.splits if_splits)
    show ?thesis
      using Some keys rows [OF Some] *
      by (intro that [of "taken_lease ?w now r"]) (simp_all add: find_lease_update lease_keys_update lease_row_ok_def)
  qed
  have expired: "lo_confirmedAt (xs ! j) + LEASE_DURATION_MS \<le> now \<and> lh_generation g < lh_generation h"
    if j: "j < length xs" "held_lease (lo_phase (xs ! j)) = Some g" "lh_name g = ?n" for j g
  proof -
    from lease_okD(3) [OF assms(1) j(1,2)] j(3) obtain r where r: "find_lease T ?n = Some r"
      "lh_generation g \<le> lr_generation r"
      "if lh_generation g = lr_generation r then lo_confirmedAt (xs ! j) + LEASE_DURATION_MS \<le> lr_leaseUntil r
       else lo_confirmedAt (xs ! j) + LEASE_DURATION_MS \<le> lr_acquiredAt r"
      by (auto simp: holder_ok_def split: if_splits)
    with old [OF r(1)] rows [OF r(1)] show ?thesis by (auto simp: lease_row_ok_def split: if_splits)
  qed
  show ?thesis
  proof (rule lease_ok_update [OF assms(1,2) T'(1)])
    show "lease_row_ok now r" if "find_lease T' n = Some r" for n r
      using that T'(2) new rows by (auto simp: lease_row_ok_def LEASE_DURATION_MS_def split: if_splits)
    show "holder_ok T' now (xs ! j) g" if j: "j < length xs" "j \<noteq> k" "held_lease (lo_phase (xs ! j)) = Some g" for j g
    proof (cases "lh_name g = ?n")
      case True
      from expired [OF j(1,3) True] lease_okD(3) [OF assms(1) j(1,3)] True show ?thesis
        by (auto simp: holder_ok_def T'(2) new)
    next
      case False
      with lease_okD(3) [OF assms(1) j(1,3)] show ?thesis by (auto simp: holder_ok_def T'(2))
    qed
    show "holder_ok T' now x g" if "held_lease (lo_phase x) = Some g" for g
      using that h new by (simp add: x holder_ok_def T'(2))
    show "held_before (xs ! j) g x g' \<or> held_before x g' (xs ! j) g"
      if j: "j < length xs" "j \<noteq> k" "held_lease (lo_phase (xs ! j)) = Some g" "held_lease (lo_phase x) = Some g'"
        "lh_name g = lh_name g'" for j g g'
      using expired [OF j(1,3)] j(4,5) h by (simp add: x held_before_def)
  qed
qed

text \<open>A heartbeat extends the lease of the one who has its generation, and does nothing for the others.\<close>

lemma run_beat_ok:
  assumes ok: "lease_ok T now xs" "k < length xs" and held: "held_lease (lo_phase (xs ! k)) = Some h"
    and "run_beat now h phase (xs ! k) T = (x, T', marks)" "\<And>b. held_lease (phase b) = Some h"
  shows "lease_ok T' now (xs[k := x])"
proof (cases "heartbeat h now T = (False, T)")
  case True
  with assms(4) have "T' = T" "held_lease (lo_phase x) = Some h" "lo_name x = lo_name (xs ! k)"
    "lo_acquiredAt x = lo_acquiredAt (xs ! k)" "lo_confirmedAt x = lo_confirmedAt (xs ! k)"
    by (auto simp: run_beat_def assms(5))
  then show ?thesis using lease_ok_same_table [OF ok, of x] held by simp
next
  case False
  note keys = lease_okD(1) [OF ok(1)] and rows = lease_okD(2) [OF ok(1)]
  from False obtain r where r: "find_lease T (lh_name h) = Some r" "is_of_handle h r"
    and beat: "heartbeat h now T = (True, update_key lr_name (lh_name h) (extended_lease now) T)"
    unfolding heartbeat_spec [OF keys] by (auto split: option.splits if_splits)
  from assms(4) beat have x: "x = (xs ! k)\<lparr>lo_phase := phase (Beat_Answered True), lo_confirmedAt := now\<rparr>"
    and T': "T' = update_key lr_name (lh_name h) (extended_lease now) T" by (simp_all add: run_beat_def)
  have find: "find_lease T' m = (if m = lh_name h then Some (extended_lease now r) else find_lease T m)" for m
    using r(1) by (simp add: T' find_lease_update)
  have less: "lh_generation g \<noteq> lh_generation h"
    if "j < length xs" "j \<noteq> k" "held_lease (lo_phase (xs ! j)) = Some g" "lh_name g = lh_name h" for j g
    using lease_okD(4) [OF ok(1) that(1) ok(2) that(2,3) held that(4)] by (auto simp: held_before_def)
  show ?thesis
  proof (rule lease_ok_update [OF ok])
    show "lease_keys T'" using keys by (simp add: T' lease_keys_update)
    show "lease_row_ok now y" if "find_lease T' n = Some y" for n y
      using that rows r(1) by (auto simp: find lease_row_ok_def split: if_splits)
    show "holder_ok T' now (xs ! j) g" if j: "j < length xs" "j \<noteq> k" "held_lease (lo_phase (xs ! j)) = Some g" for j g
      using lease_okD(3) [OF ok(1) j(1,3)] less [OF j] r by (auto simp: holder_ok_def find is_of_handle_def)
    show "holder_ok T' now x g" if "held_lease (lo_phase x) = Some g" for g
      using that lease_okD(3) [OF ok held] r by (auto simp: x assms(5) holder_ok_def find is_of_handle_def)
    show "held_before (xs ! j) g x g' \<or> held_before x g' (xs ! j) g"
      if j: "j < length xs" "j \<noteq> k" "held_lease (lo_phase (xs ! j)) = Some g" "held_lease (lo_phase x) = Some g'"
        "lh_name g = lh_name g'" for j g g'
    proof -
      have g': "g' = h" using j(4) by (simp add: x assms(5))
      have "lh_generation g \<le> lh_generation h"
        using lease_okD(3) [OF ok(1) j(1,3)] j(5) g' r by (auto simp: holder_ok_def is_of_handle_def)
      moreover have "held_before (xs ! j) g (xs ! k) h \<or> held_before (xs ! k) h (xs ! j) g"
        using lease_okD(4) [OF ok(1) j(1) ok(2) j(2,3) held] j(5) g' by simp
      ultimately show ?thesis by (auto simp: held_before_def g' x)
    qed
  qed
qed

text \<open>Who gives a lease back holds it no more; nobody else has the generation of the row.\<close>

lemma give_back_ok:
  assumes ok: "lease_ok T now xs" "k < length xs" and held: "held_lease (lo_phase (xs ! k)) = Some h"
    and "give_back now h threw (xs ! k) T = (x, T', marks)"
  shows "lease_ok T' now (xs[k := x])"
proof -
  have free: "held_lease (lo_phase x) = None"
    using assms(4) by (auto simp: give_back_def run_result_def split: prod.splits)
  note keys = lease_okD(1) [OF ok(1)] and rows = lease_okD(2) [OF ok(1)]
  show ?thesis
  proof (cases "release_lease h now T = (False, T)")
    case True
    with assms(4) have "T' = T" by (simp add: give_back_def)
    then show ?thesis using lease_ok_same_table [OF ok, of x] free by simp
  next
    case False
    from False obtain r where r: "find_lease T (lh_name h) = Some r" "is_of_handle h r"
      and released: "release_lease h now T = (True, update_key lr_name (lh_name h) (finished_lease now) T)"
      unfolding release_spec [OF keys] by (auto split: option.splits if_splits)
    from assms(4) released have T': "T' = update_key lr_name (lh_name h) (finished_lease now) T"
      by (simp add: give_back_def)
    have find: "find_lease T' m = (if m = lh_name h then Some (finished_lease now r) else find_lease T m)" for m
      using r(1) by (simp add: T' find_lease_update)
    show ?thesis
    proof (rule lease_ok_update [OF ok])
      show "lease_keys T'" using keys by (simp add: T' lease_keys_update)
      show "lease_row_ok now y" if "find_lease T' n = Some y" for n y
        using that rows r(1) by (auto simp: find lease_row_ok_def LEASE_DURATION_MS_def split: if_splits)
      show "holder_ok T' now (xs ! j) g" if j: "j < length xs" "j \<noteq> k" "held_lease (lo_phase (xs ! j)) = Some g" for j g
      proof -
        have "lh_name g = lh_name h \<Longrightarrow> lh_generation g \<noteq> lh_generation h"
          using lease_okD(4) [OF ok(1) j(1) ok(2) j(2,3) held] by (auto simp: held_before_def)
        with lease_okD(3) [OF ok(1) j(1,3)] r show ?thesis by (auto simp: holder_ok_def find is_of_handle_def)
      qed
    qed (use free in auto)
  qed
qed


section \<open>Every move\<close>

lemma lease_step_cases:
  assumes "lease_step ev now config x T = (y, T', marks)"
  obtains "ask_lease now config x T = (y, T', marks)"
  | h phase where "held_lease (lo_phase x) = Some h" "\<And>b. held_lease (phase b) = Some h"
      "run_beat now h phase x T = (y, T', marks)"
  | h threw where "held_lease (lo_phase x) = Some h" "give_back now h threw x T = (y, T', marks)"
  | "T' = T" "marks = []" "\<And>h. held_lease (lo_phase y) = Some h \<Longrightarrow> held_lease (lo_phase x) = Some h \<and>
      lo_name y = lo_name x \<and> lo_acquiredAt y = lo_acquiredAt x \<and> lo_confirmedAt y = lo_confirmedAt x"
proof (cases "lo_phase x")
  case Requested
  with assms show ?thesis
    by (cases ev) (auto simp: lease_step_def intro: that(1,4))
next
  case (Working h lost b)
  show ?thesis
  proof (cases "ev = Run_Beat \<and> b = Beat_Sent")
    case True
    with Working assms show ?thesis by (intro that(2) [of h "Working h lost"]) (auto simp: lease_step_def)
  next
    case False
    with Working assms show ?thesis
      by (intro that(4)) (cases ev; cases b; cases lost; auto simp: lease_step_def split: if_splits)+
  qed
next
  case (Closing h lost b threw)
  consider "ev = Run_Beat" "b = Beat_Sent" | "ev = Give_Back" "b = No_Beat" "\<not> lost" |
    "\<not> (ev = Run_Beat \<and> b = Beat_Sent)" "\<not> (ev = Give_Back \<and> b = No_Beat \<and> \<not> lost)" by blast
  then show ?thesis
  proof cases
    case 1
    with Closing assms show ?thesis by (intro that(2) [of h "\<lambda>b. Closing h lost b threw"]) (auto simp: lease_step_def)
  next
    case 2
    with Closing assms show ?thesis by (intro that(3) [of h threw]) (auto simp: lease_step_def)
  next
    case 3
    with Closing assms show ?thesis
      by (intro that(4)) (cases ev; cases b; cases lost; auto simp: lease_step_def run_result_def split: if_splits)+
  qed
next
  case (Ended result)
  with assms show ?thesis
    by (intro that(4)) (cases ev; auto simp: lease_step_def)+
qed

lemma lease_step_ok:
  assumes "lease_ok T now xs" "k < length xs" "lease_step ev now config (xs ! k) T = (x, T', marks)"
  shows "lease_ok T' now (xs[k := x])"
  using assms(3)
proof (cases rule: lease_step_cases)
  case 1
  with assms(1,2) show ?thesis by (rule ask_lease_ok)
next
  case (2 h phase)
  show ?thesis by (rule run_beat_ok [OF assms(1,2) 2(1,3,2)])
next
  case (3 h threw)
  show ?thesis by (rule give_back_ok [OF assms(1,2) 3])
next
  case 4
  with lease_ok_same_table [OF assms(1,2), of x] show ?thesis by simp
qed

lemma lease_ok_later: "lease_ok T now xs \<Longrightarrow> now \<le> t \<Longrightarrow> lease_ok T t xs"
  unfolding lease_ok_def lease_row_ok_def holder_ok_def by (meson add_mono order_refl order_trans)

lemma lease_ok_begin:
  assumes "lease_ok T now xs"
  shows "lease_ok T now (xs @ [new_holder w n])"
  using assms by (auto simp: lease_ok_def new_holder_def nth_append less_Suc_eq)

lemma lease_moves_ok:
  assumes "lease_moves s s'" "lease_ok (ls_leases s) (ls_now s) (ls_holders s)"
  shows "lease_ok (ls_leases s') (ls_now s') (ls_holders s')"
  using assms(1)
proof cases
  case (Move_Holder k ev)
  obtain x T' marks where step: "lease_step ev (ls_now s) (ls_config s) (ls_holders s ! k) (ls_leases s) = (x, T', marks)"
    by (cases "lease_step ev (ls_now s) (ls_config s) (ls_holders s ! k) (ls_leases s)")
  from lease_step_ok [OF assms(2) Move_Holder(2) step] show ?thesis by (simp add: Move_Holder(1) step_holder_def step)
qed (use assms(2) in \<open>auto intro: lease_ok_later lease_ok_begin\<close>)

lemma lease_reachable_ok: "lease_reachable t0 s \<Longrightarrow> lease_ok (ls_leases s) (ls_now s) (ls_holders s)"
proof (induction rule: lease_reachable.induct)
  case (Step s s')
  then show ?case using lease_moves_ok by blast
qed (simp add: lease_ok_def lease_keys_def find_lease_def)

section \<open>Runs keep their distance\<close>

text \<open>A run that starts after a run of the same lease has finished starts at least its cadence later.\<close>

fun spaced :: "lease_mark \<Rightarrow> lease_mark \<Rightarrow> bool" where
  "spaced (Run_Finished n f) (Run_Started m t cadence) \<longleftrightarrow> (n = m \<longrightarrow> f + cadence \<le> t)"
| "spaced _ _ \<longleftrightarrow> True"

definition log_ok :: "lease_row table \<Rightarrow> lease_mark list \<Rightarrow> bool" where
  "log_ok T log \<longleftrightarrow> sorted_wrt spaced log \<and>
     (\<forall>n f. Run_Finished n f \<in> set log \<longrightarrow>
        (\<exists>r g. find_lease T n = Some r \<and> lr_lastFinishedAt r = Some g \<and> f \<le> g))"

lemma log_okD:
  assumes "log_ok T log" "Run_Finished n f \<in> set log"
  obtains r g where "find_lease T n = Some r" "lr_lastFinishedAt r = Some g" "f \<le> g"
  using assms unfolding log_ok_def by blast

lemma log_ok_table:
  assumes "log_ok T log"
    and "\<And>n r g. find_lease T n = Some r \<Longrightarrow> lr_lastFinishedAt r = Some g \<Longrightarrow>
      \<exists>r' g'. find_lease T' n = Some r' \<and> lr_lastFinishedAt r' = Some g' \<and> g \<le> g'"
  shows "log_ok T' log"
  using assms unfolding log_ok_def by (meson order_trans)

lemma find_lease_kept:
  assumes "\<And>r. lr_name (f r) = lr_name r" "\<And>r. find_lease T n = Some r \<Longrightarrow> lr_lastFinishedAt (f r) = lr_lastFinishedAt r"
    and "find_lease T m = Some r" "lr_lastFinishedAt r = Some g"
  shows "\<exists>r' g'. find_lease (update_key lr_name n f T) m = Some r' \<and> lr_lastFinishedAt r' = Some g' \<and> g \<le> g'"
  using assms by (auto simp: find_lease_update)

lemma ask_lease_cases:
  assumes "ask_lease now config x T = (y, T', marks)"
  obtains "T' = T" "marks = []"
  | c where "find_lease T (lo_name x) = None" "T' = T @ [first_lease (lo_owner x) (lo_name x) now]"
      "marks = [Run_Started (lo_name x) now (cadence_ms c (lo_name x))]"
  | c r where "find_lease T (lo_name x) = Some r" "is_free_lease now (cadence_ms c (lo_name x)) r"
      "T' = update_key lr_name (lo_name x) (taken_lease (lo_owner x) now) T"
      "marks = [Run_Started (lo_name x) now (cadence_ms c (lo_name x))]"
proof (cases config)
  case None
  with assms show ?thesis by (intro that(1)) (simp_all add: ask_lease_def try_acquire_def)
next
  case (Some c)
  show ?thesis
  proof (cases "find_lease T (lo_name x)")
    case None
    with assms Some show ?thesis by (intro that(2) [of c]) (simp_all add: ask_lease_def try_acquire_def)
  next
    case r: (Some r)
    show ?thesis
    proof (cases "is_free_lease now (cadence_ms c (lo_name x)) r")
      case True
      with assms Some r show ?thesis by (intro that(3) [of r c]) (simp_all add: ask_lease_def try_acquire_def)
    next
      case False
      with assms Some r show ?thesis by (intro that(1)) (simp_all add: ask_lease_def try_acquire_def)
    qed
  qed
qed

lemma lease_step_log_ok:
  assumes "lease_ok T now xs" "k < length xs" "lease_step ev now config (xs ! k) T = (x, T', marks)" "log_ok T log"
  shows "log_ok T' (log @ marks)"
  using assms(3)
proof (cases rule: lease_step_cases)
  case 1
  let ?n = "lo_name (xs ! k)" and ?w = "lo_owner (xs ! k)"
  from 1 show ?thesis
  proof (cases rule: ask_lease_cases)
    case 1
    with assms(4) show ?thesis by simp
  next
    case (2 c)
    have "log_ok T' log"
      by (rule log_ok_table [OF assms(4)]) (use 2 in \<open>auto simp: find_lease_new\<close>)
    moreover have "Run_Finished ?n f \<notin> set log" for f using 2(1) by (auto elim: log_okD [OF assms(4)])
    then have "spaced m (Run_Started ?n now (cadence_ms c ?n))" if "m \<in> set log" for m
      using that by (cases m) auto
    ultimately show ?thesis using 2(3) by (auto simp: log_ok_def sorted_wrt_append)
  next
    case (3 c r)
    have "log_ok T' log" unfolding 3(3)
      by (rule log_ok_table [OF assms(4)]) (rule find_lease_kept; simp)
    moreover have "spaced m (Run_Started ?n now (cadence_ms c ?n))" if "m \<in> set log" for m
    proof (cases m)
      case (Run_Finished n f)
      show ?thesis
      proof (cases "n = ?n")
        case True
        with that Run_Finished 3(1) obtain g where "lr_lastFinishedAt r = Some g" "f \<le> g"
          by (auto elim: log_okD [OF assms(4)])
        with 3(2) True Run_Finished show ?thesis by (auto simp: is_free_lease_def)
      qed (simp add: Run_Finished)
    qed simp
    ultimately show ?thesis using 3(4) by (auto simp: log_ok_def sorted_wrt_append)
  qed
next
  case (2 h phase)
  then have "marks = []" by (auto simp: run_beat_def split: prod.splits)
  moreover have "T' = T \<or> T' = update_key lr_name (lh_name h) (extended_lease now) T"
    using 2(3) heartbeat_spec [OF lease_okD(1) [OF assms(1)], of h now]
    by (auto simp: run_beat_def split: option.splits if_splits)
  then have "log_ok T' log"
  proof
    assume T': "T' = update_key lr_name (lh_name h) (extended_lease now) T"
    show ?thesis unfolding T' by (rule log_ok_table [OF assms(4)]) (rule find_lease_kept; simp)
  qed (use assms(4) in simp)
  ultimately show ?thesis by simp
next
  case (3 h threw)
  show ?thesis
  proof (cases "release_lease h now T = (False, T)")
    case True
    with 3(2) assms(4) show ?thesis by (auto simp: give_back_def)
  next
    case False
    then obtain r where r: "find_lease T (lh_name h) = Some r"
      and released: "release_lease h now T = (True, update_key lr_name (lh_name h) (finished_lease now) T)"
      unfolding release_spec [OF lease_okD(1) [OF assms(1)]] by (auto split: option.splits if_splits)
    with 3(2) have T': "T' = update_key lr_name (lh_name h) (finished_lease now) T"
      and marks: "marks = [Run_Finished (lh_name h) now]" by (auto simp: give_back_def)
    have "log_ok T' log"
    proof (rule log_ok_table [OF assms(4)])
      fix n y g assume y: "find_lease T n = Some y" "lr_lastFinishedAt y = Some g"
      with lease_okD(2) [OF assms(1) y(1)] show "\<exists>r' g'. find_lease T' n = Some r' \<and> lr_lastFinishedAt r' = Some g' \<and> g \<le> g'"
        by (auto simp: T' find_lease_update lease_row_ok_def)
    qed
    moreover have "spaced m (Run_Finished (lh_name h) now)" for m by (cases m) auto
    moreover have "find_lease T' (lh_name h) = Some (finished_lease now r)" using r by (simp add: T' find_lease_update)
    ultimately show ?thesis by (auto simp: marks log_ok_def sorted_wrt_append)
  qed
next
  case 4
  with assms(4) show ?thesis by simp
qed

lemma lease_moves_log_ok:
  assumes "lease_moves s s'" "lease_ok (ls_leases s) (ls_now s) (ls_holders s)" "log_ok (ls_leases s) (ls_log s)"
  shows "log_ok (ls_leases s') (ls_log s')"
  using assms(1)
proof cases
  case (Move_Holder k ev)
  obtain x T' marks where step: "lease_step ev (ls_now s) (ls_config s) (ls_holders s ! k) (ls_leases s) = (x, T', marks)"
    by (cases "lease_step ev (ls_now s) (ls_config s) (ls_holders s ! k) (ls_leases s)")
  from lease_step_log_ok [OF assms(2) Move_Holder(2) step assms(3)] show ?thesis
    by (simp add: Move_Holder(1) step_holder_def step)
qed (use assms(3) in auto)

lemma lease_reachable_log_ok: "lease_reachable t0 s \<Longrightarrow> log_ok (ls_leases s) (ls_log s)"
proof (induction rule: lease_reachable.induct)
  case (Step s s')
  then show ?case using lease_moves_log_ok lease_reachable_ok by blast
qed (simp add: log_ok_def)

section \<open>A lease is not lost for good\<close>

text \<open>After the time of a lease and the cadence without a heartbeat anyone who asks gets it.\<close>

lemma try_acquire_later:
  assumes "lease_ok T now xs" "now + LEASE_DURATION_MS + max 0 (cadence_ms c n) \<le> t"
  shows "fst (try_acquire owner n t (Some c) T) \<noteq> None"
proof (cases "find_lease T n")
  case None
  then show ?thesis by (simp add: try_acquire_def)
next
  case (Some r)
  have "is_free_lease t (cadence_ms c n) r"
    using lease_okD(2) [OF assms(1) Some] assms(2)
    by (auto simp: is_free_lease_def lease_row_ok_def LEASE_DURATION_MS_def)
  with Some show ?thesis by (simp add: try_acquire_def)
qed

text \<open>Whoever has lost a lease to another can neither extend it nor give it back.\<close>

lemma lost_lease_refused:
  assumes "lease_ok T now xs" "i < length xs" "j < length xs"
    and "held_lease (lo_phase (xs ! i)) = Some g" "held_lease (lo_phase (xs ! j)) = Some h" "lh_name g = lh_name h"
    and "lh_generation g < lh_generation h"
  shows "heartbeat g t T = (False, T)" "release_lease g t T = (False, T)"
proof -
  from lease_okD(3) [OF assms(1,3,5)] obtain r where r: "find_lease T (lh_name g) = Some r" "lh_generation h \<le> lr_generation r"
    using assms(6) by (auto simp: holder_ok_def)
  then have "\<not> is_of_handle g r" using assms(7) by (simp add: is_of_handle_def)
  with r(1) show "heartbeat g t T = (False, T)" "release_lease g t T = (False, T)"
    unfolding heartbeat_spec [OF lease_okD(1) [OF assms(1)]] release_spec [OF lease_okD(1) [OF assms(1)]] by simp_all
qed

end
