(* ===== verification/Leased_Scheduler.thy ===== *)
theory Leased_Scheduler
  imports Lease_Invariant
begin

text \<open>
  \<open>src/runtime/dynamic-leased-scheduler.ts\<close>: a scheduler runs one cycle after the other under a lease of
  \<open>Runtime_Lease\<close>, waits an interval between two cycles, starts the wait again when the configuration changes, and
  stops once the cycle in flight has ended. The system is a scheduler and the leases, which other processes use too.
\<close>

section \<open>The scheduler\<close>

text \<open>
  \<open>sd_timer\<close> is when the timer that is set fires, \<open>sd_running\<close> the run with the lease that is in flight, and
  \<open>sd_resolved\<close> whether the promise of \<open>stop\<close> has resolved. \<open>sd_cycles\<close> records all runs the scheduler has begun.
\<close>

record leased_scheduler =
  sd_stopped :: bool
  sd_timer :: "time option"
  sd_running :: "nat option"
  sd_resolved :: bool
  sd_cycles :: "nat list"

definition interval_for :: "int \<Rightarrow> int option \<Rightarrow> int" where
  "interval_for intervalMs getIntervalMs = max 0 (case getIntervalMs of Some ms \<Rightarrow> ms | None \<Rightarrow> intervalMs)"

definition schedule :: "time \<Rightarrow> int \<Rightarrow> leased_scheduler \<Rightarrow> leased_scheduler" where
  "schedule now delay s =
     (if sd_stopped s \<or> sd_running s \<noteq> None then s else s\<lparr>sd_timer := Some (now + delay)\<rparr>)"

definition begin_cycle :: "string \<Rightarrow> lease_name \<Rightarrow> lease_system \<Rightarrow> leased_scheduler \<Rightarrow> lease_system \<times> leased_scheduler" where
  "begin_cycle owner n l s =
     (if sd_stopped s then (l, s)
      else (l\<lparr>ls_holders := ls_holders l @ [new_holder owner n]\<rparr>,
            s\<lparr>sd_running := Some (length (ls_holders l)), sd_cycles := sd_cycles s @ [length (ls_holders l)]\<rparr>))"

definition fire_timer :: "string \<Rightarrow> lease_name \<Rightarrow> lease_system \<Rightarrow> leased_scheduler \<Rightarrow> lease_system \<times> leased_scheduler" where
  "fire_timer owner n l s = begin_cycle owner n l (s\<lparr>sd_timer := None\<rparr>)"

definition end_cycle :: "time \<Rightarrow> int \<Rightarrow> leased_scheduler \<Rightarrow> leased_scheduler" where
  "end_cycle now interval s =
     (let s = s\<lparr>sd_running := None\<rparr> in
      if sd_stopped s then s\<lparr>sd_resolved := True\<rparr> else schedule now interval s)"

definition config_changed :: "time \<Rightarrow> int \<Rightarrow> leased_scheduler \<Rightarrow> leased_scheduler" where
  "config_changed now interval s = (if sd_running s = None then schedule now interval s else s)"

definition stop_scheduler :: "leased_scheduler \<Rightarrow> leased_scheduler" where
  "stop_scheduler s =
     (if sd_stopped s then s
      else s\<lparr>sd_stopped := True, sd_timer := None, sd_resolved := (sd_running s = None)\<rparr>)"

definition new_scheduler :: leased_scheduler where
  "new_scheduler = \<lparr>sd_stopped = False, sd_timer = None, sd_running = None, sd_resolved = False, sd_cycles = []\<rparr>"

text \<open>\<open>startDynamicLeasedScheduler\<close>, up to the promise it returns.\<close>

definition start_scheduler :: "string \<Rightarrow> lease_name \<Rightarrow> bool \<Rightarrow> int \<Rightarrow> lease_system \<Rightarrow> lease_system \<times> leased_scheduler" where
  "start_scheduler owner n runImmediately interval l =
     (if runImmediately then begin_cycle owner n l new_scheduler
      else (l, schedule (ls_now l) interval new_scheduler))"

section \<open>Its runs\<close>

text \<open>
  The leases move by any move of any process, and the run of the scheduler is one of them. The listener is
  gone after \<open>stop\<close>. A cycle ends with its run, whether that was skipped, completed or thrown.
\<close>

inductive scheduler_moves ::
  "string \<Rightarrow> lease_name \<Rightarrow> int \<Rightarrow> lease_system \<times> leased_scheduler \<Rightarrow> lease_system \<times> leased_scheduler \<Rightarrow> bool"
  for owner :: string and n :: lease_name and intervalMs :: int where
  Leases_Move: "lease_moves l l' \<Longrightarrow> scheduler_moves owner n intervalMs (l, s) (l', s)"
| Timer_Fires: "sd_timer s = Some due \<Longrightarrow> due \<le> ls_now l \<Longrightarrow>
    scheduler_moves owner n intervalMs (l, s) (fire_timer owner n l s)"
| Cycle_Ends: "sd_running s = Some k \<Longrightarrow> lo_phase (ls_holders l ! k) = Ended result \<Longrightarrow>
    scheduler_moves owner n intervalMs (l, s) (l, end_cycle (ls_now l) (interval_for intervalMs ms) s)"
| Config_Changes: "\<not> sd_stopped s \<Longrightarrow>
    scheduler_moves owner n intervalMs (l, s) (l, config_changed (ls_now l) (interval_for intervalMs ms) s)"
| Stop_Asked: "scheduler_moves owner n intervalMs (l, s) (l, stop_scheduler s)"

inductive scheduler_reachable :: "string \<Rightarrow> lease_name \<Rightarrow> int \<Rightarrow> time \<Rightarrow> lease_system \<times> leased_scheduler \<Rightarrow> bool"
  for owner :: string and n :: lease_name and intervalMs :: int and t0 :: time where
  Scheduler_Starts: "lease_reachable t0 l \<Longrightarrow> scheduler_reachable owner n intervalMs t0
    (start_scheduler owner n runImmediately (interval_for intervalMs ms) l)"
| Scheduler_Moves: "scheduler_reachable owner n intervalMs t0 c \<Longrightarrow> scheduler_moves owner n intervalMs c c' \<Longrightarrow>
    scheduler_reachable owner n intervalMs t0 c'"

inductive_cases scheduler_movesE: "scheduler_moves owner n intervalMs (l, s) c'"

section \<open>One cycle at a time\<close>

definition is_ended :: "lease_holder \<Rightarrow> bool" where
  "is_ended x \<longleftrightarrow> (case lo_phase x of Ended _ \<Rightarrow> True | _ \<Rightarrow> False)"

lemma ended_holds_nothing: "is_ended x \<Longrightarrow> held_lease (lo_phase x) = None"
  by (cases "lo_phase x") (simp_all add: is_ended_def)

text \<open>Runs that have ended stay so, and runs keep their places.\<close>

lemma lease_step_ended: "is_ended x \<Longrightarrow> lease_step ev now config x T = (y, T', marks) \<Longrightarrow> is_ended y"
  by (cases ev; cases "lo_phase x") (auto simp: lease_step_def is_ended_def)

definition runs_go_on :: "lease_system \<Rightarrow> lease_system \<Rightarrow> bool" where
  "runs_go_on l l' \<longleftrightarrow> ls_now l \<le> ls_now l' \<and> length (ls_holders l) \<le> length (ls_holders l') \<and>
     (\<forall>k<length (ls_holders l). is_ended (ls_holders l ! k) \<longrightarrow> is_ended (ls_holders l' ! k))"

lemma lease_moves_go_on:
  assumes "lease_moves l l'"
  shows "runs_go_on l l'"
  using assms
proof cases
  case (Move_Holder k ev)
  obtain x T' marks where step: "lease_step ev (ls_now l) (ls_config l) (ls_holders l ! k) (ls_leases l) = (x, T', marks)"
    by (cases "lease_step ev (ls_now l) (ls_config l) (ls_holders l ! k) (ls_leases l)")
  have "is_ended ((ls_holders l)[k := x] ! j)" if "is_ended (ls_holders l ! j)" for j
    using that lease_step_ended [OF _ step] Move_Holder(2) by (cases "j = k") auto
  then show ?thesis by (auto simp: Move_Holder(1) runs_go_on_def step_holder_def step)
qed (auto simp: runs_go_on_def nth_append)

definition scheduler_ok :: "lease_system \<times> leased_scheduler \<Rightarrow> bool" where
  "scheduler_ok c \<longleftrightarrow> (case c of (l, s) \<Rightarrow>
     (sd_timer s \<noteq> None \<longleftrightarrow> \<not> sd_stopped s \<and> sd_running s = None) \<and>
     (sd_resolved s \<longleftrightarrow> sd_stopped s \<and> sd_running s = None) \<and>
     set_option (sd_running s) \<subseteq> set (sd_cycles s) \<and>
     (\<forall>k\<in>set (sd_cycles s). k < length (ls_holders l) \<and> (sd_running s \<noteq> Some k \<longrightarrow> is_ended (ls_holders l ! k))))"

lemma scheduler_ok_go_on:
  assumes "scheduler_ok (l, s)" "runs_go_on l l'"
  shows "scheduler_ok (l', s)"
  using assms by (auto simp: scheduler_ok_def runs_go_on_def)

lemma begin_cycle_ok:
  assumes "\<forall>k\<in>set (sd_cycles s). k < length (ls_holders l) \<and> is_ended (ls_holders l ! k)"
    and "\<not> sd_stopped s" "sd_timer s = None" "sd_running s = None" "\<not> sd_resolved s"
  shows "scheduler_ok (begin_cycle owner n l s)"
  using assms by (auto simp: scheduler_ok_def begin_cycle_def nth_append less_Suc_eq)

lemma scheduler_moves_ok:
  assumes "scheduler_moves owner n intervalMs c c'" "scheduler_ok c"
  shows "scheduler_ok c'"
  using assms(1)
proof cases
  case (Leases_Move l l' s)
  with scheduler_ok_go_on [of l s l'] assms(2) lease_moves_go_on show ?thesis by simp
next
  case (Timer_Fires s due l)
  with assms(2) show ?thesis unfolding Timer_Fires(2) fire_timer_def
    by (intro begin_cycle_ok) (auto simp: scheduler_ok_def)
next
  case (Cycle_Ends s k l result ms)
  with assms(2) show ?thesis
    by (auto simp: scheduler_ok_def end_cycle_def schedule_def is_ended_def Let_def)
next
  case (Config_Changes s l ms)
  with assms(2) show ?thesis by (auto simp: scheduler_ok_def config_changed_def schedule_def)
next
  case (Stop_Asked l s)
  with assms(2) show ?thesis by (auto simp: scheduler_ok_def stop_scheduler_def)
qed

lemma scheduler_reachable_ok: "scheduler_reachable owner n intervalMs t0 c \<Longrightarrow> scheduler_ok c"
proof (induction rule: scheduler_reachable.induct)
  case (Scheduler_Starts l runImmediately ms)
  show ?case
  proof (cases runImmediately)
    case True
    then show ?thesis by (auto simp: start_scheduler_def new_scheduler_def intro: begin_cycle_ok)
  next
    case False
    then show ?thesis by (simp add: start_scheduler_def new_scheduler_def schedule_def scheduler_ok_def)
  qed
next
  case (Scheduler_Moves c c')
  then show ?case using scheduler_moves_ok by blast
qed

text \<open>Every state of the leases that a scheduler sees is a reachable one.\<close>

lemma lease_reachable_begin: "lease_reachable t0 l \<Longrightarrow> lease_reachable t0 (fst (begin_cycle owner n l s))"
  by (auto simp: begin_cycle_def intro: lease_reachable.Step lease_moves.Begin_Run)

lemma scheduler_leases_reachable: "scheduler_reachable owner n intervalMs t0 c \<Longrightarrow> lease_reachable t0 (fst c)"
proof (induction rule: scheduler_reachable.induct)
  case (Scheduler_Starts l runImmediately ms)
  then show ?case
    by (simp add: start_scheduler_def lease_reachable_begin)
next
  case (Scheduler_Moves c c')
  obtain l s where c: "c = (l, s)" by fastforce
  have "lease_reachable t0 l" using Scheduler_Moves(3) by (simp add: c)
  with Scheduler_Moves(2) show ?case unfolding c
    by (cases rule: scheduler_movesE) (auto simp: fire_timer_def lease_reachable_begin intro: lease_reachable.Step)
qed

text \<open>The timer of a scheduler that is asked to stop is gone, and it begins no cycle any more.\<close>

lemma scheduler_moves_stopped:
  assumes "scheduler_moves owner n intervalMs (l, s) (l', s')" "scheduler_ok (l, s)" "sd_stopped s"
  shows "sd_stopped s'" "sd_cycles s' = sd_cycles s"
  using assms by (auto elim!: scheduler_movesE simp: scheduler_ok_def end_cycle_def stop_scheduler_def Let_def)

lemma scheduler_stays_stopped:
  assumes "(scheduler_moves owner n intervalMs)\<^sup>*\<^sup>* c c'" "scheduler_ok c" "sd_stopped (snd c)"
  shows "scheduler_ok c' \<and> sd_stopped (snd c') \<and> sd_cycles (snd c') = sd_cycles (snd c)"
  using assms
proof (induction rule: rtranclp_induct)
  case (step c1 c2)
  obtain l1 s1 l2 s2 where c: "c1 = (l1, s1)" "c2 = (l2, s2)" by (cases c1, cases c2) blast
  from step have ok: "scheduler_ok c1" "sd_stopped s1" "sd_cycles s1 = sd_cycles (snd c)" by (simp_all add: c)
  from scheduler_moves_ok [OF step(2) ok(1)] scheduler_moves_stopped [OF step(2) [unfolded c] ok(1) [unfolded c] ok(2)] ok(3)
  show ?case by (simp add: c)
qed simp

end
