(* ===== verification/Lease_Properties.thy ===== *)
theory Lease_Properties
  imports Leased_Scheduler
begin

text \<open>
  The properties of the leases and of the scheduler that runs under one, each with a witness.
\<close>

section \<open>Examples\<close>

definition example_lease_config :: lease_config where
  "example_lease_config = \<lparr>lc_billingReconciliationIntervalSeconds = 60, lc_recoveryRepairIntervalSeconds = 60,
     lc_translationReconciliationIntervalSeconds = 60\<rparr>"

definition two_processes :: lease_system where
  "two_processes = \<lparr>ls_now = 0, ls_config = Some example_lease_config, ls_leases = [],
     ls_holders = [new_holder ''a'' BILLING_RECONCILIATION, new_holder ''b'' BILLING_RECONCILIATION], ls_log = []\<rparr>"

definition taken_over :: lease_system where
  "taken_over = step_holder Ask_Lease 1 ((step_holder Ask_Lease 0 two_processes)\<lparr>ls_now := 120000\<rparr>)"

definition run_twice :: lease_system where
  "run_twice = step_holder Ask_Lease 1 ((step_holder Give_Back 0 (step_holder (End_Work False) 0
     (step_holder Ask_Lease 0 two_processes)))\<lparr>ls_now := 60000\<rparr>)"

lemma two_processes_reachable: "lease_reachable 0 two_processes"
proof -
  let ?s = "\<lambda>xs. \<lparr>ls_now = 0, ls_config = Some example_lease_config, ls_leases = [], ls_holders = xs, ls_log = []\<rparr>"
  have begun: "lease_reachable 0 (?s (xs @ [new_holder w n]))" if "lease_reachable 0 (?s xs)" for xs w n
    using lease_reachable.Step [OF that lease_moves.Begin_Run [of _ w n]] by simp
  show ?thesis
    using begun [OF begun [OF lease_reachable.Start], of "''a''" BILLING_RECONCILIATION "''b''" BILLING_RECONCILIATION]
    by (simp add: two_processes_def)
qed

lemma step_holder_holders: "length (ls_holders (step_holder ev k s)) = length (ls_holders s)"
  by (simp add: step_holder_def split: prod.split)

lemma step_holder_now: "ls_now (step_holder ev k s) = ls_now s"
  by (simp add: step_holder_def split: prod.split)

lemma lease_reachable_step_holder:
  "lease_reachable t0 s \<Longrightarrow> k < length (ls_holders s) \<Longrightarrow> lease_reachable t0 (step_holder ev k s)"
  by (rule lease_reachable.Step [OF _ lease_moves.Move_Holder])

lemma lease_reachable_pass_time: "lease_reachable t0 s \<Longrightarrow> ls_now s \<le> t \<Longrightarrow> lease_reachable t0 (s\<lparr>ls_now := t\<rparr>)"
  by (rule lease_reachable.Step [OF _ lease_moves.Pass_Time])

lemma two_processes_parts: "length (ls_holders two_processes) = 2" "ls_now two_processes = 0"
  by (simp_all add: two_processes_def)

lemmas lease_run_intros = lease_reachable_step_holder lease_reachable_pass_time two_processes_reachable

lemma taken_over_reachable: "lease_reachable 0 taken_over"
  unfolding taken_over_def
  by (intro lease_run_intros) (simp_all add: step_holder_holders step_holder_now two_processes_parts)

lemma run_twice_reachable: "lease_reachable 0 run_twice"
  unfolding run_twice_def
  by (intro lease_run_intros) (simp_all add: step_holder_holders step_holder_now two_processes_parts)

definition handle_a :: lease_handle where
  "handle_a = \<lparr>lh_name = BILLING_RECONCILIATION, lh_ownerToken = ''a'', lh_generation = 1\<rparr>"

definition handle_b :: lease_handle where
  "handle_b = \<lparr>lh_name = BILLING_RECONCILIATION, lh_ownerToken = ''b'', lh_generation = 2\<rparr>"

lemma taken_over_parts:
  "ls_holders taken_over =
    [\<lparr>lo_owner = ''a'', lo_name = BILLING_RECONCILIATION, lo_phase = Working handle_a False No_Beat,
      lo_acquiredAt = 0, lo_confirmedAt = 0\<rparr>,
     \<lparr>lo_owner = ''b'', lo_name = BILLING_RECONCILIATION, lo_phase = Working handle_b False No_Beat,
      lo_acquiredAt = 120000, lo_confirmedAt = 120000\<rparr>]"
  by code_simp

lemma run_twice_parts:
  "ls_log run_twice = [Run_Started BILLING_RECONCILIATION 0 60000, Run_Finished BILLING_RECONCILIATION 0,
    Run_Started BILLING_RECONCILIATION 60000 60000]" "ls_now run_twice = 60000"
  by code_simp+

section \<open>Leases\<close>

text \<open>
  C34. Of two processes that both believe they hold a lease one has lost it, and it lost it only after a whole
  lease duration had passed since the database last confirmed it: the other one acquired the lease no earlier than
  that, with a higher generation. The one that has lost it can neither extend nor release the lease of the other.
\<close>

theorem lease_holders_do_not_overlap:
  assumes "lease_reachable t0 s" "i < length (ls_holders s)" "j < length (ls_holders s)" "i \<noteq> j"
    and "held_lease (lo_phase (ls_holders s ! i)) = Some g" "held_lease (lo_phase (ls_holders s ! j)) = Some h"
    and "lh_name g = lh_name h"
  shows "\<exists>(x, lost)\<in>{(ls_holders s ! i, g), (ls_holders s ! j, h)}.
    \<exists>(y, kept)\<in>{(ls_holders s ! i, g), (ls_holders s ! j, h)}.
      lh_generation lost < lh_generation kept \<and> lo_confirmedAt x + LEASE_DURATION_MS \<le> lo_acquiredAt y \<and>
      heartbeat lost t (ls_leases s) = (False, ls_leases s) \<and> release_lease lost t (ls_leases s) = (False, ls_leases s)"
proof -
  note ok = lease_reachable_ok [OF assms(1)]
  from lease_okD(4) [OF ok assms(2-7)] show ?thesis
  proof
    assume "held_before (ls_holders s ! i) g (ls_holders s ! j) h"
    with lost_lease_refused [OF ok assms(2,3,5,6,7)] show ?thesis by (simp add: held_before_def)
  next
    assume "held_before (ls_holders s ! j) h (ls_holders s ! i) g"
    with lost_lease_refused [OF ok assms(3,2,6,5) assms(7) [symmetric]] show ?thesis by (simp add: held_before_def)
  qed
qed

theorem lease_holders_do_not_overlap_witness:
  "heartbeat handle_a 130000 (ls_leases taken_over) = (False, ls_leases taken_over)"
  using lease_holders_do_not_overlap [OF taken_over_reachable, of 0 1 handle_a handle_b 130000]
  by (simp add: taken_over_parts, simp add: handle_a_def handle_b_def LEASE_DURATION_MS_def)

text \<open>
  C35. A run that starts after a run with the same lease has finished, in whatever process, starts at least the
  cadence of the lease later, as the configuration is when it starts.
\<close>

theorem lease_runs_are_spaced:
  assumes "lease_reachable t0 s" "i < j" "j < length (ls_log s)"
    and "ls_log s ! i = Run_Finished n f" "ls_log s ! j = Run_Started n t cadence"
  shows "f + cadence \<le> t"
  using sorted_wrt_nth_less [of spaced "ls_log s" i j] lease_reachable_log_ok [OF assms(1)] assms(2-5)
  by (simp add: log_ok_def)

theorem lease_runs_are_spaced_witness:
  "ls_log run_twice ! 1 = Run_Finished BILLING_RECONCILIATION 0 \<and> 0 + 60000 \<le> ls_now run_twice"
  using lease_runs_are_spaced [OF run_twice_reachable, of 1 2 BILLING_RECONCILIATION 0 60000 60000]
  by (simp add: run_twice_parts)

text \<open>
  C36. A process that holds a lease may die without releasing it. Whatever it leaves, and however its last run
  ended, anyone who asks for the lease gets it once a lease duration and the cadence have passed since.
\<close>

theorem abandoned_lease_can_be_taken:
  assumes "lease_reachable t0 s" "ls_now s + LEASE_DURATION_MS + max 0 (cadence_ms c n) \<le> t"
  shows "fst (try_acquire owner n t (Some c) (ls_leases s)) \<noteq> None"
  by (rule try_acquire_later [OF lease_reachable_ok [OF assms(1)] assms(2)])

theorem abandoned_lease_can_be_taken_witness:
  "fst (try_acquire ''c'' BILLING_RECONCILIATION 300000 (Some example_lease_config) (ls_leases taken_over)) \<noteq> None"
  by (rule abandoned_lease_can_be_taken [OF taken_over_reachable]) code_simp

section \<open>The scheduler\<close>

lemma scheduler_reachable_on:
  "(scheduler_moves owner n intervalMs)\<^sup>*\<^sup>* c c' \<Longrightarrow> scheduler_reachable owner n intervalMs t0 c \<Longrightarrow>
    scheduler_reachable owner n intervalMs t0 c'"
  by (induction rule: rtranclp_induct) (auto intro: scheduler_reachable.Scheduler_Moves)

text \<open>
  C37. A scheduler never stalls, never overlaps with itself and stops. Until it is stopped it has either a run in
  flight or a timer that is set; of any two runs it has begun one has ended. Once it is asked to stop it begins no
  run any more, and the promise that stopping returns has resolved exactly when no run is in flight: then none of its runs acts
  for a lease any more.
\<close>

theorem scheduler_runs_one_cycle_and_stops:
  assumes "scheduler_reachable owner n intervalMs t0 (l, s)" "(scheduler_moves owner n intervalMs)\<^sup>*\<^sup>* (l, s) (l', s')"
  shows "(\<not> sd_stopped s' \<longrightarrow> (sd_timer s' = None) \<noteq> (sd_running s' = None)) \<and>
    (\<forall>i\<in>set (sd_cycles s'). \<forall>j\<in>set (sd_cycles s'). i \<noteq> j \<longrightarrow>
       is_ended (ls_holders l' ! i) \<or> is_ended (ls_holders l' ! j)) \<and>
    (sd_stopped s \<longrightarrow> sd_stopped s' \<and> sd_cycles s' = sd_cycles s \<and> sd_timer s' = None \<and>
       (sd_resolved s' \<longleftrightarrow> sd_running s' = None)) \<and>
    (sd_resolved s' \<longrightarrow> (\<forall>k\<in>set (sd_cycles s'). held_lease (lo_phase (ls_holders l' ! k)) = None))"
proof -
  note ok = scheduler_reachable_ok [OF scheduler_reachable_on [OF assms(2,1)]]
  have "is_ended (ls_holders l' ! i) \<or> is_ended (ls_holders l' ! j)"
    if "i \<in> set (sd_cycles s')" "j \<in> set (sd_cycles s')" "i \<noteq> j" for i j
    using ok that by (cases "sd_running s' = Some i") (auto simp: scheduler_ok_def)
  moreover have "sd_stopped s' \<and> sd_cycles s' = sd_cycles s" if "sd_stopped s"
    using scheduler_stays_stopped [OF assms(2) scheduler_reachable_ok [OF assms(1)]] that by simp
  ultimately show ?thesis using ok by (auto simp: scheduler_ok_def ended_holds_nothing)
qed

theorem scheduler_runs_one_cycle_and_stops_witness:
  "sd_timer (stop_scheduler (schedule 0 1000 new_scheduler)) = None"
proof -
  let ?s = "schedule 0 1000 new_scheduler"
  have "scheduler_reachable ''c'' BILLING_RECONCILIATION 1000 0 (two_processes, ?s)"
    using scheduler_reachable.Scheduler_Starts [OF two_processes_reachable, of "''c''" BILLING_RECONCILIATION 1000 False None]
    by (simp add: start_scheduler_def interval_for_def two_processes_parts)
  from scheduler_reachable.Scheduler_Moves [OF this scheduler_moves.Stop_Asked]
  have stopped: "scheduler_reachable ''c'' BILLING_RECONCILIATION 1000 0 (two_processes, stop_scheduler ?s)" .
  have "sd_stopped (stop_scheduler ?s)" by (simp add: stop_scheduler_def)
  with scheduler_runs_one_cycle_and_stops [OF stopped rtranclp.rtrancl_refl] show ?thesis by simp
qed

end
