(* ===== verification/Usage_Publisher.thy ===== *)
theory Usage_Publisher
  imports Store "HOL-Library.Product_Lexorder" "HOL-Library.List_Lexorder" "HOL-Library.Char_ord"
begin

text \<open>
  \<open>src/services/shopify-usage-event-publisher.service.ts\<close>: what the shop has used is reported to Shopify, which
  charges for it. A publisher takes back the claims that an earlier one has left, selects a page of events
  that are due, and for each one claims it, checks it, gives it to the provider and records the answer. Every
  statement is a transaction of its own, so any number of publishers, and the rest of the program, interleave.
\<close>

section \<open>The rows\<close>

text \<open>The columns of \<open>UsageEvent\<close> the publisher reads or writes, and those of the shop it joins.\<close>

record usage_report =
  ur_id :: id
  ur_shopId :: id
  ur_billingPeriodId :: "id option"
  ur_metric :: usage_metric
  ur_quantity :: decimal
  ur_occurredAt :: time
  ur_eventHandle :: "string option"
  ur_idempotencyKey :: "string option"
  ur_state :: report_state
  ur_attemptCount :: nat
  ur_nextReportAt :: "time option"
  ur_lastAttemptAt :: "time option"
  ur_reportedAt :: "time option"
  ur_errorCode :: "string option"
  ur_responseSummary :: "string option"

datatype publisher_shop_status = PS_ACTIVE | PS_UNINSTALLED | PS_SUSPENDED

record publisher_shop =
  ps_id :: id
  ps_shopifyShopId :: "string option"
  ps_status :: publisher_shop_status
  ps_uninstalledAt :: "time option"

record publisher_db =
  pd_usage :: "usage_report table"
  pd_shops :: "publisher_shop table"

section \<open>The provider\<close>

datatype app_events_error_kind =
    Configuration | Authentication_Refreshable | Throttled | Transient | Server | Transport | Request | Period | Meter

fun kind_text :: "app_events_error_kind \<Rightarrow> string" where
  "kind_text Configuration = ''configuration''"
| "kind_text Authentication_Refreshable = ''authentication-refreshable''"
| "kind_text Throttled = ''throttled''"
| "kind_text Transient = ''transient''"
| "kind_text Server = ''server''"
| "kind_text Transport = ''transport''"
| "kind_text Request = ''request''"
| "kind_text Period = ''period''"
| "kind_text Meter = ''meter''"

definition retryable_kind :: "app_events_error_kind \<Rightarrow> bool" where
  "retryable_kind k \<longleftrightarrow> k \<in> {Authentication_Refreshable, Throttled, Transient, Server, Transport}"

text \<open>An error of the client, or any other error, with its message.\<close>

datatype publish_error = App_Events_Error app_events_error_kind string | Other_Error string

definition is_retryable :: "publish_error \<Rightarrow> bool" where
  "is_retryable e = (case e of App_Events_Error k _ \<Rightarrow> retryable_kind k | Other_Error _ \<Rightarrow> True)"

definition error_code :: "publish_error \<Rightarrow> string" where
  "error_code e = (case e of App_Events_Error k _ \<Rightarrow> kind_text k | Other_Error _ \<Rightarrow> ''unknown-provider-error'')"

definition error_summary :: "publish_error \<Rightarrow> string" where
  "error_summary e = take 2000 (case e of App_Events_Error _ m \<Rightarrow> m | Other_Error m \<Rightarrow> m)"

text \<open>What is given to the provider; a \<open>Date\<close> is its time, and a value is a number or the text of a decimal.\<close>

datatype billing_value = Value_Number int | Value_Text decimal

definition dec_is_integer :: "decimal \<Rightarrow> bool" where
  "dec_is_integer d \<longleftrightarrow> dec_coefficient d mod 10 ^ dec_scale d = 0"

definition billing_value_of :: "decimal \<Rightarrow> billing_value" where
  "billing_value_of q =
     (let n = dec_coefficient q div 10 ^ dec_scale q in
      if dec_is_integer q \<and> \<bar>n\<bar> \<le> max_safe_integer then Value_Number n else Value_Text q)"

record billing_event =
  be_shopId :: string
  be_eventHandle :: string
  be_occurredAt :: time
  be_idempotencyKey :: string
  be_value :: billing_value

text \<open>A call that was made, for which row, and whether the provider answered that it accepted the event.\<close>

record billing_call =
  pc_usageId :: id
  pc_event :: billing_event
  pc_accepted :: bool

section \<open>The statements\<close>

definition IN_FLIGHT_RECOVERY_MS :: int where
  "IN_FLIGHT_RECOVERY_MS = 15 * 60000"

definition find_usage :: "publisher_db \<Rightarrow> id \<Rightarrow> usage_report option" where
  "find_usage D i = find_row (\<lambda>r. ur_id r = i) (pd_usage D)"

definition shop_of :: "publisher_db \<Rightarrow> id \<Rightarrow> publisher_shop option" where
  "shop_of D shopId = find_row (\<lambda>s. ps_id s = shopId) (pd_shops D)"

definition is_due :: "time \<Rightarrow> usage_report \<Rightarrow> bool" where
  "is_due now r \<longleftrightarrow> ur_state r \<in> {REPORT_PENDING, REPORT_RETRYABLE} \<and>
     (case ur_nextReportAt r of None \<Rightarrow> True | Some t \<Rightarrow> t \<le> now)"

definition in_period :: "id option \<Rightarrow> usage_report \<Rightarrow> bool" where
  "in_period billingPeriodId r \<longleftrightarrow> (if truthy billingPeriodId then ur_billingPeriodId r = billingPeriodId else True)"

definition recover_stale_claims :: "time \<Rightarrow> id option \<Rightarrow> publisher_db \<Rightarrow> publisher_db" where
  "recover_stale_claims now billingPeriodId D = D\<lparr>pd_usage := update_rows
     (\<lambda>r. in_period billingPeriodId r \<and> ur_state r = REPORT_IN_FLIGHT \<and>
        (case ur_lastAttemptAt r of None \<Rightarrow> False | Some t \<Rightarrow> t \<le> now - IN_FLIGHT_RECOVERY_MS))
     (\<lambda>r. r\<lparr>ur_state := REPORT_RETRYABLE, ur_nextReportAt := Some now, ur_errorCode := Some ''stale-in-flight-recovered'',
        ur_responseSummary := Some ''Recovered an unfinished publisher claim''\<rparr>)
     (pd_usage D)\<rparr>"

text \<open>The order of the page: \<open>nextReportAt\<close> with its nulls last, \<open>occurredAt\<close>, and \<open>id\<close> by its bytes.\<close>

definition due_key :: "usage_report \<Rightarrow> (nat \<times> int) \<times> int \<times> string" where
  "due_key r = ((case ur_nextReportAt r of Some t \<Rightarrow> (0, t) | None \<Rightarrow> (1, 0)), ur_occurredAt r, ur_id r)"

type_synonym usage_snapshot = "usage_report \<times> publisher_shop"

definition select_due ::
  "time \<Rightarrow> id option \<Rightarrow> bool \<Rightarrow> nat \<Rightarrow> publisher_db \<Rightarrow> usage_snapshot list" where
  "select_due now billingPeriodId uninstalled n D =
     (let rows = filter (\<lambda>r. in_period billingPeriodId r \<and> is_due now r \<and>
            (case shop_of D (ur_shopId r) of None \<Rightarrow> False | Some s \<Rightarrow> (ps_status s = PS_UNINSTALLED) = uninstalled)) (pd_usage D) in
      map (\<lambda>r. (r, the (shop_of D (ur_shopId r)))) (take n (sort_key due_key rows)))"

definition claim :: "time \<Rightarrow> id \<Rightarrow> publisher_db \<Rightarrow> bool \<times> publisher_db" where
  "claim now i D =
     (let (n, usage) = update_many (\<lambda>r. ur_id r = i \<and> is_due now r)
        (\<lambda>r. r\<lparr>ur_state := REPORT_IN_FLIGHT, ur_attemptCount := ur_attemptCount r + 1, ur_lastAttemptAt := Some now,
           ur_errorCode := None, ur_responseSummary := None\<rparr>) (pd_usage D) in
      (n = 1, D\<lparr>pd_usage := usage\<rparr>))"

definition in_flight :: "id \<Rightarrow> usage_report \<Rightarrow> bool" where
  "in_flight i r \<longleftrightarrow> ur_id r = i \<and> ur_state r = REPORT_IN_FLIGHT"

definition mark_reported :: "time \<Rightarrow> id \<Rightarrow> publisher_db \<Rightarrow> bool \<times> publisher_db" where
  "mark_reported now i D =
     (let (n, usage) = update_many (in_flight i)
        (\<lambda>r. r\<lparr>ur_state := REPORT_REPORTED, ur_reportedAt := Some now, ur_nextReportAt := None,
           ur_errorCode := None, ur_responseSummary := Some ''submitted-to-shopify-app-events''\<rparr>) (pd_usage D) in
      (n = 1, D\<lparr>pd_usage := usage\<rparr>))"

definition retry_delay :: "int \<Rightarrow> int \<Rightarrow> nat \<Rightarrow> int" where
  "retry_delay retryBaseMs retryMaxMs attempts = min retryMaxMs (retryBaseMs * 2 ^ attempts)"

definition mark_retryable :: "time \<Rightarrow> int \<Rightarrow> int \<Rightarrow> usage_report \<Rightarrow> publish_error \<Rightarrow> publisher_db \<Rightarrow> publisher_db" where
  "mark_retryable now retryBaseMs retryMaxMs row e D = D\<lparr>pd_usage := update_rows (in_flight (ur_id row))
     (\<lambda>r. r\<lparr>ur_state := REPORT_RETRYABLE,
        ur_nextReportAt := Some (now + retry_delay retryBaseMs retryMaxMs (ur_attemptCount row)),
        ur_errorCode := Some (error_code e), ur_responseSummary := Some (error_summary e)\<rparr>)
     (pd_usage D)\<rparr>"

definition mark_needs_attention :: "id \<Rightarrow> string \<Rightarrow> string \<Rightarrow> publisher_db \<Rightarrow> publisher_db" where
  "mark_needs_attention i code summary D = D\<lparr>pd_usage := update_rows (in_flight i)
     (\<lambda>r. r\<lparr>ur_state := REPORT_NEEDS_ATTENTION, ur_nextReportAt := None,
        ur_errorCode := Some code, ur_responseSummary := Some summary\<rparr>)
     (pd_usage D)\<rparr>"

definition is_blank :: "string option \<Rightarrow> bool" where
  "is_blank s \<longleftrightarrow> (case s of None \<Rightarrow> True | Some t \<Rightarrow> js_trim t = [])"

definition validate_reportable_usage :: "usage_snapshot \<Rightarrow> string option" where
  "validate_reportable_usage x =
     (let (r, s) = x in
      if ps_status s \<noteq> PS_ACTIVE \<and> (case ps_uninstalledAt s of None \<Rightarrow> True | Some t \<Rightarrow> t < ur_occurredAt r)
      then Some ''Usage event is after the shop uninstall cutoff''
      else if is_blank (ps_shopifyShopId s) then Some ''Shop has no Shopify shop GID''
      else if is_blank (ur_eventHandle r) then Some ''Usage event handle is missing''
      else if is_blank (ur_idempotencyKey r) then Some ''Shopify idempotency key is missing''
      else if dec_zero (ur_quantity r) then Some ''Usage quantity must be a finite non-zero decimal''
      else None)"

definition billing_event_of :: "usage_snapshot \<Rightarrow> billing_event" where
  "billing_event_of x = (let (r, s) = x in
     \<lparr>be_shopId = the (ps_shopifyShopId s), be_eventHandle = the (ur_eventHandle r), be_occurredAt = ur_occurredAt r,
      be_idempotencyKey = the (ur_idempotencyKey r), be_value = billing_value_of (ur_quantity r)\<rparr>)"

section \<open>The steps of a publisher\<close>

text \<open>The options, with the defaults of a batch of 50 and of 60 and 3600 seconds filled in.\<close>

record publisher_options =
  po_now :: time
  po_billingPeriodId :: "id option"
  po_batchSize :: js_number
  po_retryBaseSeconds :: int
  po_retryMaxSeconds :: int

record publish_counts =
  pr_selected :: nat
  pr_claimed :: nat
  pr_reported :: nat
  pr_retryable :: nat
  pr_needsAttention :: nat

datatype publisher_phase =
    Starting
  | Selecting_Uninstalled nat
  | Selecting_Others nat "usage_snapshot list"
  | Claiming "usage_snapshot list"
  | Checking usage_snapshot "usage_snapshot list"
  | Calling usage_snapshot "usage_snapshot list"
  | Marking usage_snapshot "usage_snapshot list"
  | Failed usage_snapshot publish_error "usage_snapshot list"
  | Publish_Done
  | Publish_Thrown

record publisher =
  pb_options :: publisher_options
  pb_phase :: publisher_phase
  pb_counts :: publish_counts

text \<open>
  What a step reads from outside: whether the statement of the step fails with an error of the database, the
  error if no client could be made, and the answer of the provider.
\<close>

record publisher_input =
  pi_dbError :: "string option"
  pi_clientError :: "publish_error option"
  pi_answer :: "publish_error option"

definition bounded_page_size :: "js_number \<Rightarrow> nat option" where
  "bounded_page_size v = (case v of JsInt n \<Rightarrow> if 1 \<le> n \<and> n \<le> 200 then Some (nat n) else None | JsNonInteger \<Rightarrow> None)"

definition no_counts :: publish_counts where
  "no_counts = \<lparr>pr_selected = 0, pr_claimed = 0, pr_reported = 0, pr_retryable = 0, pr_needsAttention = 0\<rparr>"

definition new_publisher :: "publisher_options \<Rightarrow> publisher" where
  "new_publisher options = \<lparr>pb_options = options, pb_phase = Starting, pb_counts = no_counts\<rparr>"

definition go_to :: "publisher_phase \<Rightarrow> (publish_counts \<Rightarrow> publish_counts) \<Rightarrow> publisher \<Rightarrow> publisher" where
  "go_to phase f p = p\<lparr>pb_phase := phase, pb_counts := f (pb_counts p)\<rparr>"

definition with_rows :: "usage_snapshot list \<Rightarrow> publisher \<Rightarrow> publisher" where
  "with_rows rows = go_to (Claiming rows) (\<lambda>c. c\<lparr>pr_selected := length rows\<rparr>)"

definition state_changed :: publish_error where
  "state_changed = Other_Error ''UsageEvent report state changed before it was marked reported''"

text \<open>
  \<open>publishDue\<close>. A statement that fails ends the run, except that the mark of a reported event is inside the
  \<open>try\<close> block of its row. The rows are selected first and then worked off in order.
\<close>

definition or_thrown ::
  "publisher_input \<Rightarrow> publisher \<Rightarrow> publisher_db \<Rightarrow> publisher \<times> publisher_db \<Rightarrow> publisher \<times> publisher_db \<times> billing_call list" where
  "or_thrown inp p D x = (case pi_dbError inp of None \<Rightarrow> (fst x, snd x, []) | Some _ \<Rightarrow> (p\<lparr>pb_phase := Publish_Thrown\<rparr>, D, []))"

definition claim_row :: "usage_snapshot \<Rightarrow> usage_snapshot list \<Rightarrow> publisher \<Rightarrow> publisher_db \<Rightarrow> publisher \<times> publisher_db" where
  "claim_row x q p D =
     (let (claimed, D') = claim (po_now (pb_options p)) (ur_id (fst x)) D in
      (if claimed then go_to (Checking x q) (\<lambda>c. c\<lparr>pr_claimed := pr_claimed c + 1\<rparr>) p else go_to (Claiming q) id p, D'))"

definition give_up :: "usage_snapshot \<Rightarrow> string \<Rightarrow> string \<Rightarrow> usage_snapshot list \<Rightarrow> publisher \<Rightarrow> publisher_db \<Rightarrow>
    publisher \<times> publisher_db" where
  "give_up x code summary q p D =
     (go_to (Claiming q) (\<lambda>c. c\<lparr>pr_needsAttention := pr_needsAttention c + 1\<rparr>) p,
      mark_needs_attention (ur_id (fst x)) code summary D)"

text \<open>
  One call of \<open>createBillingEvent\<close>. Inside it the HTTP client of \<open>providers/shopify-app-events.provider.ts\<close>, which is
  not modelled, may post the event twice, the second time with a new token after a 401, with the same idempotency key,
  and writes the value in canonical form; \<open>pi_answer\<close> is what the whole call ends with.
\<close>

definition call_provider :: "publisher_input \<Rightarrow> usage_snapshot \<Rightarrow> usage_snapshot list \<Rightarrow> publisher \<Rightarrow>
    publisher \<times> billing_call list" where
  "call_provider inp x q p =
     (case pi_clientError inp of
        Some e \<Rightarrow> (go_to (Failed x e q) id p, [])
      | None \<Rightarrow>
          (case pi_answer inp of None \<Rightarrow> go_to (Marking x q) id p | Some e \<Rightarrow> go_to (Failed x e q) id p,
           [\<lparr>pc_usageId = ur_id (fst x), pc_event = billing_event_of x, pc_accepted = (pi_answer inp = None)\<rparr>]))"

definition record_reported :: "publisher_input \<Rightarrow> usage_snapshot \<Rightarrow> usage_snapshot list \<Rightarrow> publisher \<Rightarrow> publisher_db \<Rightarrow>
    publisher \<times> publisher_db" where
  "record_reported inp x q p D =
     (case pi_dbError inp of
        Some e \<Rightarrow> (go_to (Failed x (Other_Error e) q) id p, D)
      | None \<Rightarrow>
          (let (marked, D') = mark_reported (po_now (pb_options p)) (ur_id (fst x)) D in
           (if marked then go_to (Claiming q) (\<lambda>c. c\<lparr>pr_reported := pr_reported c + 1\<rparr>) p
            else go_to (Failed x state_changed q) id p, D')))"

definition record_failure :: "usage_snapshot \<Rightarrow> publish_error \<Rightarrow> usage_snapshot list \<Rightarrow> publisher \<Rightarrow> publisher_db \<Rightarrow>
    publisher \<times> publisher_db" where
  "record_failure x e q p D =
     (if is_retryable e
      then (go_to (Claiming q) (\<lambda>c. c\<lparr>pr_retryable := pr_retryable c + 1\<rparr>) p,
            mark_retryable (po_now (pb_options p)) (po_retryBaseSeconds (pb_options p) * 1000)
              (po_retryMaxSeconds (pb_options p) * 1000) (fst x) e D)
      else give_up x (error_code e) (error_summary e) q p D)"

definition publisher_step ::
  "publisher_input \<Rightarrow> publisher \<Rightarrow> publisher_db \<Rightarrow> publisher \<times> publisher_db \<times> billing_call list" where
  "publisher_step inp p D =
     (let now = po_now (pb_options p); period = po_billingPeriodId (pb_options p) in
      (case pb_phase p of
        Starting \<Rightarrow>
          (case bounded_page_size (po_batchSize (pb_options p)) of
             None \<Rightarrow> (p\<lparr>pb_phase := Publish_Thrown\<rparr>, D, [])
           | Some n \<Rightarrow> or_thrown inp p D (go_to (Selecting_Uninstalled n) id p, recover_stale_claims now period D))
      | Selecting_Uninstalled n \<Rightarrow>
          (let rows = select_due now period True n D in
           or_thrown inp p D (if n \<le> length rows then with_rows rows p else go_to (Selecting_Others n rows) id p, D))
      | Selecting_Others n rows \<Rightarrow>
          or_thrown inp p D (with_rows (rows @ select_due now period False (n - length rows) D) p, D)
      | Claiming [] \<Rightarrow> (go_to Publish_Done id p, D, [])
      | Claiming (x # q) \<Rightarrow> or_thrown inp p D (claim_row x q p D)
      | Checking x q \<Rightarrow>
          (case validate_reportable_usage x of
             None \<Rightarrow> (go_to (Calling x q) id p, D, [])
           | Some reason \<Rightarrow> or_thrown inp p D (give_up x ''invalid-reportable-usage'' reason q p D))
      | Calling x q \<Rightarrow> (let (p', calls) = call_provider inp x q p in (p', D, calls))
      | Marking x q \<Rightarrow> (let (p', D') = record_reported inp x q p D in (p', D', []))
      | Failed x e q \<Rightarrow> or_thrown inp p D (record_failure x e q p D)
      | Publish_Done \<Rightarrow> (p, D, [])
      | Publish_Thrown \<Rightarrow> (p, D, [])))"

section \<open>Publishers and the rest of the program\<close>

record publishing =
  pg_db :: publisher_db
  pg_publishers :: "publisher list"
  pg_calls :: "billing_call list"
  pg_ids :: "id list" \<comment> \<open>every id a row has had\<close>

definition step_publisher :: "publisher_input \<Rightarrow> nat \<Rightarrow> publishing \<Rightarrow> publishing" where
  "step_publisher inp k s =
     (let (p, D, calls) = publisher_step inp (pg_publishers s ! k) (pg_db s) in
      s\<lparr>pg_db := D, pg_publishers := (pg_publishers s)[k := p], pg_calls := pg_calls s @ calls\<rparr>)"

text \<open>The closing of a billing period is the only other code that writes the state of a report.\<close>

definition close_period_reports :: "id \<Rightarrow> string option \<Rightarrow> publisher_db \<Rightarrow> publisher_db" where
  "close_period_reports billingPeriodId summary D = D\<lparr>pd_usage := update_rows
     (\<lambda>r. ur_billingPeriodId r = Some billingPeriodId \<and> ur_state r \<in> {REPORT_PENDING, REPORT_RETRYABLE})
     (\<lambda>r. r\<lparr>ur_state := REPORT_NEEDS_ATTENTION, ur_nextReportAt := None, ur_errorCode := Some ''PERIOD_CLOSED_BEFORE_REPORT'',
        ur_responseSummary := (case summary of None \<Rightarrow> ur_responseSummary r | Some t \<Rightarrow> Some t)\<rparr>)
     (pd_usage D)\<rparr>"

definition recorded_usage :: "usage_report \<Rightarrow> bool" where
  "recorded_usage r \<longleftrightarrow> ur_state r \<in> {REPORT_PENDING, REPORT_NOT_APPLICABLE} \<and> ur_attemptCount r = 0"

inductive publishing_moves :: "publishing \<Rightarrow> publishing \<Rightarrow> bool" where
  Record_Usage: "recorded_usage r \<Longrightarrow> ur_id r \<notin> set (pg_ids s) \<Longrightarrow>
    publishing_moves s (s\<lparr>pg_db := (pg_db s)\<lparr>pd_usage := pd_usage (pg_db s) @ [r]\<rparr>, pg_ids := ur_id r # pg_ids s\<rparr>)"
| Delete_Usage: "publishing_moves s (s\<lparr>pg_db := (pg_db s)\<lparr>pd_usage := filter (\<lambda>r. ur_id r \<noteq> i) (pd_usage (pg_db s))\<rparr>\<rparr>)"
| Close_Period: "publishing_moves s (s\<lparr>pg_db := close_period_reports billingPeriodId summary (pg_db s)\<rparr>)"
| Change_Shops: "publishing_moves s (s\<lparr>pg_db := (pg_db s)\<lparr>pd_shops := shops\<rparr>\<rparr>)"
| Start_Publisher: "publishing_moves s (s\<lparr>pg_publishers := pg_publishers s @ [new_publisher options]\<rparr>)"
| Stop_Publisher: "k < length (pg_publishers s) \<Longrightarrow>
    publishing_moves s (s\<lparr>pg_publishers := (pg_publishers s)[k := (pg_publishers s ! k)\<lparr>pb_phase := Publish_Thrown\<rparr>]\<rparr>)"
| Move_Publisher: "k < length (pg_publishers s) \<Longrightarrow> publishing_moves s (step_publisher inp k s)"

definition nothing_published :: "publisher_shop table \<Rightarrow> publishing" where
  "nothing_published shops = \<lparr>pg_db = \<lparr>pd_usage = [], pd_shops = shops\<rparr>, pg_publishers = [], pg_calls = [], pg_ids = []\<rparr>"

inductive publishing_reachable :: "publishing \<Rightarrow> bool" where
  No_Usage: "publishing_reachable (nothing_published shops)"
| Publishing_Moves: "publishing_reachable s \<Longrightarrow> publishing_moves s s' \<Longrightarrow> publishing_reachable s'"

end
