(* ===== verification/Publisher_Invariant.thy ===== *)
theory Publisher_Invariant
  imports Usage_Publisher
begin

text \<open>
  What holds in every reachable state of the publishers of \<open>Usage_Publisher\<close>: what one step may do to a row and to
  the publisher, the counts of a batch, and the invariant \<open>publishing_ok\<close> over every move of the program.
\<close>

section \<open>What a step does to the rows\<close>

definition same_event :: "usage_report \<Rightarrow> usage_report \<Rightarrow> bool" where
  "same_event r r' \<longleftrightarrow> ur_id r' = ur_id r \<and> ur_eventHandle r' = ur_eventHandle r \<and>
     ur_idempotencyKey r' = ur_idempotencyKey r \<and> ur_quantity r' = ur_quantity r \<and> ur_occurredAt r' = ur_occurredAt r"

lemma same_event_refl [simp]: "same_event r r"
  by (simp add: same_event_def)

definition is_final :: "usage_report \<Rightarrow> bool" where
  "is_final r \<longleftrightarrow> ur_state r \<in> {REPORT_REPORTED, REPORT_NEEDS_ATTENTION, REPORT_NOT_APPLICABLE}"

fun rows_of :: "publisher_phase \<Rightarrow> usage_snapshot list" where
  "rows_of (Selecting_Others _ q) = q"
| "rows_of (Claiming q) = q"
| "rows_of (Checking x q) = x # q"
| "rows_of (Calling x q) = x # q"
| "rows_of (Marking x q) = x # q"
| "rows_of (Failed x _ q) = x # q"
| "rows_of _ = []"

text \<open>Whether a publisher has claimed a row and has not called the provider for it yet.\<close>

fun about_to_call :: "id \<Rightarrow> publisher_phase \<Rightarrow> nat" where
  "about_to_call i (Checking x _) = (if ur_id (fst x) = i then 1 else 0)"
| "about_to_call i (Calling x _) = (if ur_id (fst x) = i then 1 else 0)"
| "about_to_call i _ = 0"

definition calls_for :: "id \<Rightarrow> billing_call list \<Rightarrow> nat" where
  "calls_for i calls = length (filter (\<lambda>c. pc_usageId c = i) calls)"

definition is_accepted :: "id \<Rightarrow> billing_call list \<Rightarrow> bool" where
  "is_accepted i calls \<longleftrightarrow> (\<exists>c\<in>set calls. pc_usageId c = i \<and> pc_accepted c)"

definition usage_keys :: "publisher_db \<Rightarrow> bool" where
  "usage_keys D \<longleftrightarrow> distinct (map ur_id (pd_usage D))"

text \<open>
  The rows after a step are the rows before it, each changed by one function; \<open>row_step\<close> is what it may change
  in a row, given what the publisher did with it.
\<close>

definition row_step :: "publisher \<Rightarrow> publisher \<Rightarrow> billing_call list \<Rightarrow> usage_report \<Rightarrow> usage_report \<Rightarrow> bool" where
  "row_step p p' calls r r' \<longleftrightarrow> same_event r r' \<and> (is_final r \<longrightarrow> r' = r) \<and>
     (ur_state r' = REPORT_REPORTED \<longrightarrow> ur_state r = REPORT_REPORTED \<or>
        (\<exists>x q. pb_phase p = Marking x q \<and> ur_id (fst x) = ur_id r)) \<and>
     calls_for (ur_id r) calls + about_to_call (ur_id r) (pb_phase p') + ur_attemptCount r
       \<le> about_to_call (ur_id r) (pb_phase p) + ur_attemptCount r'"

definition publish_rows_step :: "publisher \<Rightarrow> publisher \<Rightarrow> billing_call list \<Rightarrow> publisher_db \<Rightarrow> publisher_db \<Rightarrow> bool" where
  "publish_rows_step p p' calls D D' \<longleftrightarrow>
     (\<exists>F. pd_usage D' = map F (pd_usage D) \<and> (\<forall>r\<in>set (pd_usage D). row_step p p' calls r (F r)))"

lemma publish_rows_same:
  assumes "pd_usage D' = pd_usage D" "\<And>i. calls_for i calls + about_to_call i (pb_phase p') \<le> about_to_call i (pb_phase p)"
  shows "publish_rows_step p p' calls D D'"
  unfolding publish_rows_step_def
  by (rule exI [of _ id]) (use assms in \<open>auto simp: row_step_def\<close>)

lemma publish_rows_update:
  assumes "pd_usage D' = update_rows P f (pd_usage D)"
    and "\<And>r. P r \<Longrightarrow> row_step p p' calls r (f r)"
    and "\<And>r. r \<in> set (pd_usage D) \<Longrightarrow> \<not> P r \<Longrightarrow>
      calls_for (ur_id r) calls + about_to_call (ur_id r) (pb_phase p') \<le> about_to_call (ur_id r) (pb_phase p)"
  shows "publish_rows_step p p' calls D D'"
  unfolding publish_rows_step_def
  by (rule exI [of _ "\<lambda>r. if P r then f r else r"])
    (use assms in \<open>auto simp: update_rows_def row_step_def\<close>)

lemma go_to_parts [simp]:
  "pb_phase (go_to phase f p) = phase" "pb_options (go_to phase f p) = pb_options p"
  "pb_counts (go_to phase f p) = f (pb_counts p)"
  by (simp_all add: go_to_def)

lemma with_rows_parts [simp]: "pb_phase (with_rows rows p) = Claiming rows" "pb_options (with_rows rows p) = pb_options p"
  by (simp_all add: with_rows_def)

lemma calls_for_simps [simp]:
  "calls_for i [] = 0" "calls_for i (c # cs) = (if pc_usageId c = i then 1 else 0) + calls_for i cs"
  "calls_for i (cs @ ds) = calls_for i cs + calls_for i ds"
  by (simp_all add: calls_for_def)

lemma publisher_step_rows:
  assumes "publisher_step inp p D = (p', D', calls)" "usage_keys D"
  shows "publish_rows_step p p' calls D D'"
proof (cases "D' = D \<and> (\<forall>i. calls_for i calls + about_to_call i (pb_phase p') \<le> about_to_call i (pb_phase p))")
  case True
  then show ?thesis by (intro publish_rows_same) auto
next
  case False
  show ?thesis
  proof (cases "pb_phase p")
    case Starting
    with assms False have D': "D' = recover_stale_claims (po_now (pb_options p)) (po_billingPeriodId (pb_options p)) D"
      and p': "about_to_call i (pb_phase p') = 0" "calls = []" for i
      by (auto simp: publisher_step_def or_thrown_def Let_def split: option.splits)
    show ?thesis
      by (rule publish_rows_update [OF D' [unfolded recover_stale_claims_def, THEN arg_cong [where f = pd_usage], simplified]])
        (auto simp: row_step_def same_event_def is_final_def p' Starting)
  next
    case (Claiming q)
    with assms False obtain x rest where q: "q = x # rest"
      and step: "pi_dbError inp = None" "(p', D') = claim_row x rest p D" "calls = []"
      by (cases q) (auto simp: publisher_step_def or_thrown_def split: option.splits)
    let ?now = "po_now (pb_options p)" and ?i = "ur_id (fst x)"
    let ?P = "\<lambda>r. ur_id r = ?i \<and> is_due ?now r"
    let ?f = "\<lambda>r. r\<lparr>ur_state := REPORT_IN_FLIGHT, ur_attemptCount := ur_attemptCount r + 1, ur_lastAttemptAt := Some ?now,
      ur_errorCode := None, ur_responseSummary := None\<rparr>"
    have D': "pd_usage D' = update_rows ?P ?f (pd_usage D)"
      using step by (simp add: claim_row_def claim_def update_many_def split: prod.splits)
    have due: "?P r" if p': "about_to_call (ur_id r) (pb_phase p') \<noteq> 0" and r: "r \<in> set (pd_usage D)" for r
    proof -
      have "count_rows ?P (pd_usage D) = 1" "ur_id r = ?i"
        using p' step by (auto simp: claim_row_def claim_def update_many_def split: if_splits)
      then have "filter ?P (pd_usage D) \<noteq> []" by (auto simp: count_rows_def)
      then obtain y where "y \<in> set (pd_usage D)" "?P y" unfolding filter_empty_conv by blast
      with key_inj [OF assms(2) [unfolded usage_keys_def] r, of y] \<open>ur_id r = ?i\<close> show ?thesis by simp
    qed
    have about: "about_to_call i (pb_phase p') \<le> 1" for i by (cases "pb_phase p'") auto
    show ?thesis
    proof (rule publish_rows_update [OF D'])
      show "row_step p p' calls r (?f r)" if "?P r" for r
        using that about [of "ur_id r"] by (auto simp: row_step_def same_event_def is_final_def is_due_def step(3) Claiming)
    qed (use due step(3) Claiming in auto)
  next
    case (Checking x q)
    with assms False obtain reason where "(p', D') = give_up x ''invalid-reportable-usage'' reason q p D" "calls = []"
      by (auto simp: publisher_step_def or_thrown_def split: option.splits)
    then show ?thesis unfolding give_up_def mark_needs_attention_def
      by (intro publish_rows_update [of _ "in_flight (ur_id (fst x))"
            "\<lambda>r. r\<lparr>ur_state := REPORT_NEEDS_ATTENTION, ur_nextReportAt := None,
              ur_errorCode := Some ''invalid-reportable-usage'', ur_responseSummary := Some reason\<rparr>"])
        (auto simp: row_step_def same_event_def is_final_def in_flight_def)
  next
    case (Marking x q)
    with assms False have "pi_dbError inp = None" "(p', D') = record_reported inp x q p D" "calls = []"
      by (auto simp: publisher_step_def record_reported_def split: option.splits prod.splits)
    then show ?thesis unfolding record_reported_def mark_reported_def update_many_def
      by (intro publish_rows_update [of _ "in_flight (ur_id (fst x))"
            "\<lambda>r. r\<lparr>ur_state := REPORT_REPORTED, ur_reportedAt := Some (po_now (pb_options p)), ur_nextReportAt := None,
              ur_errorCode := None, ur_responseSummary := Some ''submitted-to-shopify-app-events''\<rparr>"])
        (auto simp: row_step_def same_event_def is_final_def in_flight_def Marking split: if_splits)
  next
    case (Failed x e q)
    with assms False have "(p', D') = record_failure x e q p D" "calls = []"
      by (auto simp: publisher_step_def or_thrown_def split: option.splits)
    then show ?thesis
      by (cases "is_retryable e")
        (auto simp: record_failure_def give_up_def mark_needs_attention_def mark_retryable_def
          row_step_def same_event_def is_final_def in_flight_def intro!: publish_rows_update)
  qed (use assms False in \<open>auto simp: publisher_step_def or_thrown_def call_provider_def Let_def split: option.splits if_splits\<close>)
qed

section \<open>What a step does to the publisher\<close>

lemma select_due_rows: "(r, s) \<in> set (select_due now billingPeriodId uninstalled n D) \<Longrightarrow> r \<in> set (pd_usage D)"
  by (auto simp: select_due_def Let_def dest: in_set_takeD)

lemma length_select_due: "length (select_due now billingPeriodId uninstalled n D) \<le> n"
  by (simp add: select_due_def Let_def)

lemmas step_defs = publisher_step_def or_thrown_def claim_row_def give_up_def call_provider_def record_reported_def
  record_failure_def Let_def

lemma publisher_step_snapshots:
  assumes "publisher_step inp p D = (p', D', calls)"
  shows "set (rows_of (pb_phase p')) \<subseteq> set (rows_of (pb_phase p)) \<union> {x. fst x \<in> set (pd_usage D)}"
proof (cases "pb_phase p")
  case (Claiming q)
  with assms show ?thesis
    by (cases q) (auto simp: step_defs split: option.splits prod.splits if_splits)
qed (use assms in \<open>auto simp: step_defs split: option.splits prod.splits if_splits dest: select_due_rows\<close>)

lemma publisher_step_calls:
  assumes "publisher_step inp p D = (p', D', calls)" "c \<in> set calls"
  obtains x q where "pb_phase p = Calling x q" "pc_usageId c = ur_id (fst x)" "pc_event c = billing_event_of x"
proof (cases "pb_phase p")
  case (Claiming q)
  with assms show ?thesis by (cases q) (auto simp: step_defs split: option.splits prod.splits)
next
  case (Calling x q)
  with assms that show ?thesis by (auto simp: step_defs split: option.splits)
qed (use assms in \<open>auto simp: step_defs split: option.splits prod.splits if_splits\<close>)

lemma publisher_step_marking:
  assumes "publisher_step inp p D = (p', D', calls)" "pb_phase p' = Marking x q"
  shows "is_accepted (ur_id (fst x)) calls"
proof (cases "pb_phase p")
  case (Claiming rows)
  with assms show ?thesis by (cases rows) (auto simp: step_defs split: option.splits prod.splits if_splits)
next
  case (Calling y rows)
  with assms show ?thesis by (auto simp: step_defs is_accepted_def split: option.splits)
qed (use assms in \<open>auto simp: step_defs split: option.splits prod.splits if_splits\<close>)

lemma publisher_step_options:
  assumes "publisher_step inp p D = (p', D', calls)"
  shows "pb_options p' = pb_options p"
proof (cases "pb_phase p")
  case (Claiming q)
  with assms show ?thesis by (cases q) (auto simp: step_defs split: option.splits prod.splits if_splits)
qed (use assms in \<open>auto simp: step_defs split: option.splits prod.splits if_splits\<close>)

section \<open>The counts\<close>

definition settled :: "publish_counts \<Rightarrow> nat" where
  "settled c = pr_reported c + pr_retryable c + pr_needsAttention c"

definition page_size :: "publisher \<Rightarrow> nat option" where
  "page_size p = bounded_page_size (po_batchSize (pb_options p))"

definition in_balance :: "nat \<Rightarrow> nat \<Rightarrow> publisher \<Rightarrow> bool" where
  "in_balance busy waiting p \<longleftrightarrow> pr_claimed (pb_counts p) = settled (pb_counts p) + busy \<and>
     pr_claimed (pb_counts p) + waiting \<le> pr_selected (pb_counts p) \<and>
     (\<exists>n. page_size p = Some n \<and> pr_selected (pb_counts p) \<le> n)"

fun counts_ok :: "publisher_phase \<Rightarrow> publisher \<Rightarrow> bool" where
  "counts_ok Starting p \<longleftrightarrow> pb_counts p = no_counts"
| "counts_ok (Selecting_Uninstalled n) p \<longleftrightarrow> pb_counts p = no_counts \<and> page_size p = Some n"
| "counts_ok (Selecting_Others n rows) p \<longleftrightarrow> pb_counts p = no_counts \<and> page_size p = Some n \<and> length rows \<le> n"
| "counts_ok (Claiming q) p \<longleftrightarrow> in_balance 0 (length q) p"
| "counts_ok (Checking _ q) p \<longleftrightarrow> in_balance 1 (length q) p"
| "counts_ok (Calling _ q) p \<longleftrightarrow> in_balance 1 (length q) p"
| "counts_ok (Marking _ q) p \<longleftrightarrow> in_balance 1 (length q) p"
| "counts_ok (Failed _ _ q) p \<longleftrightarrow> in_balance 1 (length q) p"
| "counts_ok Publish_Done p \<longleftrightarrow> in_balance 0 0 p"
| "counts_ok Publish_Thrown p \<longleftrightarrow> True"

lemma page_size_go_to [simp]: "page_size (go_to phase f p) = page_size p" "page_size (with_rows rows p) = page_size p"
  by (simp_all add: page_size_def)

lemma with_rows_counts_ok: "pb_counts p = no_counts \<Longrightarrow> page_size p = Some n \<Longrightarrow> length rows \<le> n \<Longrightarrow>
    counts_ok (pb_phase (with_rows rows p)) (with_rows rows p)"
  by (simp add: in_balance_def with_rows_def no_counts_def settled_def page_size_def)

lemma publisher_step_counts_ok:
  assumes "publisher_step inp p D = (p', D', calls)" "counts_ok (pb_phase p) p"
  shows "counts_ok (pb_phase p') p'"
proof (cases "pb_phase p")
  case Starting
  with assms show ?thesis by (auto simp: step_defs page_size_def split: option.splits)
next
  case (Selecting_Uninstalled n)
  let ?rows = "select_due (po_now (pb_options p)) (po_billingPeriodId (pb_options p)) True n D"
  from Selecting_Uninstalled assms(2) have p: "pb_counts p = no_counts" "page_size p = Some n" by simp_all
  from Selecting_Uninstalled assms(1) consider "pb_phase p' = Publish_Thrown" | "p' = with_rows ?rows p"
    | "p' = go_to (Selecting_Others n ?rows) id p"
    by (auto simp: step_defs split: option.splits if_splits)
  then show ?thesis
    by cases (use with_rows_counts_ok [OF p length_select_due] p length_select_due in auto)
next
  case (Selecting_Others n rows)
  let ?rows = "rows @ select_due (po_now (pb_options p)) (po_billingPeriodId (pb_options p)) False (n - length rows) D"
  from Selecting_Others assms(2) have p: "pb_counts p = no_counts" "page_size p = Some n" "length rows \<le> n" by simp_all
  have "length ?rows \<le> n" using p(3) length_select_due [of _ _ False "n - length rows" D] by (simp add: le_diff_conv2 add.commute)
  from Selecting_Others assms(1) consider "pb_phase p' = Publish_Thrown" | "p' = with_rows ?rows p"
    by (auto simp: step_defs split: option.splits)
  then show ?thesis by cases (use with_rows_counts_ok [OF p(1,2) \<open>length ?rows \<le> n\<close>] in auto)
next
  case (Claiming q)
  with assms show ?thesis
    by (cases q) (auto simp: step_defs in_balance_def settled_def split: option.splits prod.splits if_splits)
qed (use assms in \<open>auto simp: step_defs in_balance_def settled_def split: option.splits prod.splits if_splits\<close>)

section \<open>What holds of every reachable state\<close>

definition waiting_for :: "id \<Rightarrow> publisher list \<Rightarrow> nat" where
  "waiting_for i ps = sum_list (map (\<lambda>p. about_to_call i (pb_phase p)) ps)"

definition same_call :: "billing_call \<Rightarrow> usage_report \<Rightarrow> bool" where
  "same_call c r \<longleftrightarrow> be_eventHandle (pc_event c) = the (ur_eventHandle r) \<and>
     be_idempotencyKey (pc_event c) = the (ur_idempotencyKey r) \<and> be_occurredAt (pc_event c) = ur_occurredAt r \<and>
     be_value (pc_event c) = billing_value_of (ur_quantity r)"

definition known :: "publishing \<Rightarrow> id \<Rightarrow> (usage_report \<Rightarrow> bool) \<Rightarrow> bool" where
  "known s i P \<longleftrightarrow> i \<in> set (pg_ids s) \<and> (\<forall>r\<in>set (pd_usage (pg_db s)). ur_id r = i \<longrightarrow> P r)"

definition row_ok :: "publishing \<Rightarrow> usage_report \<Rightarrow> bool" where
  "row_ok s r \<longleftrightarrow> ur_id r \<in> set (pg_ids s) \<and>
     (ur_state r = REPORT_REPORTED \<longrightarrow> is_accepted (ur_id r) (pg_calls s)) \<and>
     calls_for (ur_id r) (pg_calls s) + waiting_for (ur_id r) (pg_publishers s) \<le> ur_attemptCount r"

definition publisher_ok :: "publishing \<Rightarrow> publisher \<Rightarrow> bool" where
  "publisher_ok s p \<longleftrightarrow> (\<forall>x\<in>set (rows_of (pb_phase p)). known s (ur_id (fst x)) (same_event (fst x))) \<and>
     (\<forall>x q. pb_phase p = Marking x q \<longrightarrow> is_accepted (ur_id (fst x)) (pg_calls s)) \<and> counts_ok (pb_phase p) p"

definition publishing_ok :: "publishing \<Rightarrow> bool" where
  "publishing_ok s \<longleftrightarrow> usage_keys (pg_db s) \<and> (\<forall>r\<in>set (pd_usage (pg_db s)). row_ok s r) \<and>
     (\<forall>p\<in>set (pg_publishers s). publisher_ok s p) \<and>
     (\<forall>c\<in>set (pg_calls s). known s (pc_usageId c) (same_call c))"

lemma publishing_okD:
  assumes "publishing_ok s"
  shows "usage_keys (pg_db s)" and "r \<in> set (pd_usage (pg_db s)) \<Longrightarrow> row_ok s r"
    and "p \<in> set (pg_publishers s) \<Longrightarrow> publisher_ok s p"
    and "c \<in> set (pg_calls s) \<Longrightarrow> known s (pc_usageId c) (same_call c)"
  using assms unfolding publishing_ok_def by blast+

text \<open>
  What a move may do to the rows: keep some, each as the same event, and add some that are new. Then what is known
  of the rows stays known, since it is about what never changes in an event.
\<close>

definition rows_go_on :: "publishing \<Rightarrow> publishing \<Rightarrow> bool" where
  "rows_go_on s s' \<longleftrightarrow> set (pg_ids s) \<subseteq> set (pg_ids s') \<and>
     (\<forall>r'\<in>set (pd_usage (pg_db s')). ur_id r' \<notin> set (pg_ids s) \<or> (\<exists>r\<in>set (pd_usage (pg_db s)). same_event r r'))"

lemma known_go_on:
  assumes "known s i P" "rows_go_on s s'" "\<And>r r'. same_event r r' \<Longrightarrow> P r \<Longrightarrow> P r'"
  shows "known s' i P"
  unfolding known_def
proof (intro conjI ballI impI)
  show "i \<in> set (pg_ids s')" using assms(1,2) by (auto simp: known_def rows_go_on_def)
  fix r' assume r': "r' \<in> set (pd_usage (pg_db s'))" "ur_id r' = i"
  then obtain r where r: "r \<in> set (pd_usage (pg_db s))" "same_event r r'"
    using assms(1,2) unfolding rows_go_on_def known_def by blast
  then have "P r" using assms(1) r'(2) by (auto simp: known_def same_event_def)
  with r(2) show "P r'" by (rule assms(3))
qed

lemma same_event_trans: "same_event r r' \<Longrightarrow> same_event r' r'' \<Longrightarrow> same_event r r''"
  by (simp add: same_event_def)

lemma same_call_event: "same_event r r' \<Longrightarrow> same_call c r \<Longrightarrow> same_call c r'"
  by (simp add: same_call_def same_event_def)

lemma publisher_ok_go_on:
  assumes "publisher_ok s p" "rows_go_on s s'" "set (pg_calls s) \<subseteq> set (pg_calls s')"
  shows "publisher_ok s' p"
proof -
  have "known s' (ur_id (fst x)) (same_event (fst x))" if "x \<in> set (rows_of (pb_phase p))" for x
    using assms(1) that by (intro known_go_on [OF _ assms(2)]) (auto simp: publisher_ok_def intro: same_event_trans)
  moreover have "is_accepted i (pg_calls s')" if "is_accepted i (pg_calls s)" for i
    using that assms(3) by (auto simp: is_accepted_def)
  ultimately show ?thesis using assms(1) by (simp add: publisher_ok_def)
qed

definition kept_row :: "publishing \<Rightarrow> usage_report \<Rightarrow> bool" where
  "kept_row s r' \<longleftrightarrow> (\<exists>r\<in>set (pd_usage (pg_db s)). same_event r r' \<and>
     (ur_state r' = REPORT_REPORTED \<longrightarrow> ur_state r = REPORT_REPORTED) \<and> ur_attemptCount r' = ur_attemptCount r)"

lemma kept_row_same: "r \<in> set (pd_usage (pg_db s)) \<Longrightarrow> kept_row s r"
  unfolding kept_row_def using same_event_refl by blast

text \<open>A move of the rest of the program: no call is made, and no row comes to be reported or counts down.\<close>

lemma publishing_ok_other:
  assumes ok: "publishing_ok s" and "usage_keys (pg_db s')" "pg_calls s' = pg_calls s" "set (pg_ids s) \<subseteq> set (pg_ids s')"
    and rows: "\<And>r'. r' \<in> set (pd_usage (pg_db s')) \<Longrightarrow> ur_id r' \<in> set (pg_ids s') \<and>
      (ur_id r' \<notin> set (pg_ids s) \<and> ur_state r' \<noteq> REPORT_REPORTED \<or> kept_row s r')"
    and publishers: "\<And>p. p \<in> set (pg_publishers s') \<Longrightarrow> p \<in> set (pg_publishers s) \<or>
      rows_of (pb_phase p) = [] \<and> counts_ok (pb_phase p) p"
    and waiting: "\<And>i. waiting_for i (pg_publishers s') \<le> waiting_for i (pg_publishers s)"
  shows "publishing_ok s'"
  unfolding publishing_ok_def
proof (intro conjI ballI)
  have go_on: "rows_go_on s s'" using assms(4) rows unfolding rows_go_on_def kept_row_def by blast
  show "usage_keys (pg_db s')" by (rule assms(2))
  show "known s' (pc_usageId c) (same_call c)" if "c \<in> set (pg_calls s')" for c
    using that assms(3) publishing_okD(4) [OF ok] by (intro known_go_on [OF _ go_on]) (auto intro: same_call_event)
  show "publisher_ok s' p" if "p \<in> set (pg_publishers s')" for p
    using publishers [OF that]
  proof
    assume "p \<in> set (pg_publishers s)"
    with publishing_okD(3) [OF ok] show ?thesis by (intro publisher_ok_go_on [OF _ go_on]) (simp_all add: assms(3))
  next
    assume "rows_of (pb_phase p) = [] \<and> counts_ok (pb_phase p) p"
    then show ?thesis by (cases "pb_phase p") (auto simp: publisher_ok_def)
  qed
  show "row_ok s' r'" if r': "r' \<in> set (pd_usage (pg_db s'))" for r'
    using rows [OF r', unfolded kept_row_def]
  proof (elim conjE disjE bexE)
    assume new: "ur_id r' \<in> set (pg_ids s')" "ur_id r' \<notin> set (pg_ids s)" "ur_state r' \<noteq> REPORT_REPORTED"
    have "pc_usageId c \<noteq> ur_id r'" if "c \<in> set (pg_calls s)" for c
      using publishing_okD(4) [OF ok that] new(2) by (auto simp: known_def)
    then have calls: "calls_for (ur_id r') (pg_calls s) = 0" by (auto simp: calls_for_def filter_empty_conv)
    have "about_to_call (ur_id r') (pb_phase p) = 0" if "p \<in> set (pg_publishers s)" for p
      using publishing_okD(3) [OF ok that] new(2) by (cases "pb_phase p") (auto simp: publisher_ok_def known_def)
    then have "waiting_for (ur_id r') (pg_publishers s) = 0" by (simp add: waiting_for_def)
    with waiting [of "ur_id r'"] calls new show ?thesis by (simp add: row_ok_def assms(3))
  next
    fix r assume "r \<in> set (pd_usage (pg_db s))" "same_event r r'" "ur_attemptCount r' = ur_attemptCount r"
      "ur_state r' = REPORT_REPORTED \<longrightarrow> ur_state r = REPORT_REPORTED" "ur_id r' \<in> set (pg_ids s')"
    with publishing_okD(2) [OF ok, of r] waiting [of "ur_id r'"] show ?thesis
      by (auto simp: row_ok_def same_event_def assms(3))
  qed
qed

lemma waiting_for_update:
  assumes "k < length ps"
  shows "waiting_for i (ps[k := p]) + about_to_call i (pb_phase (ps ! k)) = waiting_for i ps + about_to_call i (pb_phase p)"
proof -
  have "ps = take k ps @ ps ! k # drop (Suc k) ps" using assms by (rule id_take_nth_drop)
  then have "waiting_for i ps = waiting_for i (take k ps @ ps ! k # drop (Suc k) ps)" by simp
  with assms show ?thesis by (simp add: upd_conv_take_nth_drop waiting_for_def)
qed

lemma publishing_ok_step:
  assumes ok: "publishing_ok s" and k: "k < length (pg_publishers s)"
  shows "publishing_ok (step_publisher inp k s)"
proof -
  let ?p = "pg_publishers s ! k" and ?D = "pg_db s"
  obtain p' D' calls where step: "publisher_step inp ?p ?D = (p', D', calls)"
    by (cases "publisher_step inp ?p ?D")
  let ?s = "step_publisher inp k s"
  have s': "pg_db ?s = D'" "pg_publishers ?s = (pg_publishers s)[k := p']" "pg_calls ?s = pg_calls s @ calls" "pg_ids ?s = pg_ids s"
    by (simp_all add: step_publisher_def step)
  note keys = publishing_okD(1) [OF ok]
  from publisher_step_rows [OF step keys] obtain F where F: "pd_usage D' = map F (pd_usage ?D)"
    "\<And>r. r \<in> set (pd_usage ?D) \<Longrightarrow> row_step ?p p' calls r (F r)" by (auto simp: publish_rows_step_def)
  have event: "same_event r (F r)" if "r \<in> set (pd_usage ?D)" for r using F(2) [OF that] by (simp add: row_step_def)
  have go_on: "rows_go_on s ?s" using event by (auto simp: rows_go_on_def s' F(1))
  have p: "publisher_ok s ?p" using k publishing_okD(3) [OF ok] by simp
  show ?thesis
    unfolding publishing_ok_def
  proof (intro conjI ballI)
    have "map ur_id (pd_usage D') = map ur_id (pd_usage ?D)" using event by (auto simp: F(1) same_event_def)
    then show "usage_keys (pg_db ?s)" using keys by (simp add: s' usage_keys_def)
    show "known ?s (pc_usageId c) (same_call c)" if "c \<in> set (pg_calls ?s)" for c
    proof (rule known_go_on [OF _ go_on same_call_event])
      show "known s (pc_usageId c) (same_call c)"
      proof (cases "c \<in> set (pg_calls s)")
        case False
        with that have "c \<in> set calls" by (simp add: s')
        from publisher_step_calls [OF step this] obtain x q where x: "pb_phase ?p = Calling x q"
          "pc_usageId c = ur_id (fst x)" "pc_event c = billing_event_of x" .
        with p have "known s (ur_id (fst x)) (same_event (fst x))" by (simp add: publisher_ok_def)
        with x(2,3) show ?thesis
          by (auto simp: known_def same_call_def same_event_def billing_event_of_def split: prod.splits)
      qed (rule publishing_okD(4) [OF ok])
    qed
    show "publisher_ok ?s y" if y: "y \<in> set (pg_publishers ?s)" for y
    proof (cases "y = p'")
      case True
      have "known ?s (ur_id (fst x)) (same_event (fst x))" if x: "x \<in> set (rows_of (pb_phase p'))" for x
      proof (rule known_go_on [OF _ go_on same_event_trans])
        have "x \<in> set (rows_of (pb_phase ?p)) \<or> fst x \<in> set (pd_usage ?D)" using publisher_step_snapshots [OF step] x by auto
        then show "known s (ur_id (fst x)) (same_event (fst x))"
        proof
          assume x: "fst x \<in> set (pd_usage ?D)"
          have "same_event (fst x) r" if "r \<in> set (pd_usage ?D)" "ur_id r = ur_id (fst x)" for r
            using key_inj [OF keys [unfolded usage_keys_def] x that(1)] that(2) same_event_refl by metis
          with publishing_okD(2) [OF ok x] show ?thesis by (auto simp: known_def row_ok_def)
        qed (use p in \<open>simp add: publisher_ok_def\<close>)
      qed (assumption | assumption)+
      moreover have "is_accepted (ur_id (fst x)) (pg_calls ?s)" if "pb_phase p' = Marking x q" for x q
        using publisher_step_marking [OF step that] by (auto simp: s' is_accepted_def)
      moreover have "counts_ok (pb_phase p') p'"
        using p by (intro publisher_step_counts_ok [OF step]) (simp add: publisher_ok_def)
      ultimately show ?thesis by (simp add: publisher_ok_def True)
    next
      case False
      with y set_update_subset_insert [of "pg_publishers s" k p'] have "y \<in> set (pg_publishers s)" by (auto simp: s')
      with publishing_okD(3) [OF ok] show ?thesis by (intro publisher_ok_go_on [OF _ go_on]) (auto simp: s')
    qed
    show "row_ok ?s r'" if "r' \<in> set (pd_usage (pg_db ?s))" for r'
    proof -
      from that obtain r where r: "r \<in> set (pd_usage ?D)" "r' = F r" by (auto simp: s' F(1))
      have "is_accepted (ur_id r) (pg_calls ?s)" if "ur_state r' = REPORT_REPORTED"
        using F(2) [OF r(1)] that r(2) publishing_okD(2) [OF ok r(1)] p
        by (auto simp: row_step_def row_ok_def publisher_ok_def s' is_accepted_def)
      with F(2) [OF r(1)] publishing_okD(2) [OF ok r(1)] waiting_for_update [OF k, of "ur_id r" p'] r(2) show ?thesis
        by (auto simp: row_step_def row_ok_def same_event_def s')
    qed
  qed
qed

lemma publishing_moves_ok:
  assumes "publishing_moves s s'" "publishing_ok s"
  shows "publishing_ok s'"
  using assms(1)
proof cases
  case (Record_Usage r)
  have "ur_id r \<notin> ur_id ` set (pd_usage (pg_db s))"
    using Record_Usage(3) publishing_okD(2) [OF assms(2)] by (auto simp: row_ok_def)
  with Record_Usage publishing_okD(1,2) [OF assms(2)] show ?thesis
    by (intro publishing_ok_other [OF assms(2)]) (auto simp: usage_keys_def recorded_usage_def row_ok_def kept_row_same)
next
  case (Delete_Usage i)
  with publishing_okD(1,2) [OF assms(2)] show ?thesis
    by (intro publishing_ok_other [OF assms(2)]) (auto simp: usage_keys_def row_ok_def kept_row_same distinct_map_filter)
next
  case (Close_Period billingPeriodId summary)
  have ids: "map ur_id (pd_usage (pg_db s')) = map ur_id (pd_usage (pg_db s))"
    by (auto simp: Close_Period close_period_reports_def update_rows_def)
  show ?thesis
  proof (rule publishing_ok_other [OF assms(2)])
    show "usage_keys (pg_db s')" using publishing_okD(1) [OF assms(2)] by (simp add: usage_keys_def ids)
  next
    fix r' assume "r' \<in> set (pd_usage (pg_db s'))"
    then obtain r where r: "r \<in> set (pd_usage (pg_db s))" "same_event r r'" "ur_attemptCount r' = ur_attemptCount r"
      "ur_state r' = REPORT_REPORTED \<longrightarrow> ur_state r = REPORT_REPORTED"
      by (auto simp: Close_Period close_period_reports_def update_rows_def same_event_def)
    then have "kept_row s r'" by (auto simp: kept_row_def)
    moreover have "ur_id r' \<in> set (pg_ids s')"
      using publishing_okD(2) [OF assms(2) r(1)] r(2) by (simp add: row_ok_def kept_row_same same_event_def Close_Period)
    ultimately show "ur_id r' \<in> set (pg_ids s') \<and>
        (ur_id r' \<notin> set (pg_ids s) \<and> ur_state r' \<noteq> REPORT_REPORTED \<or> kept_row s r')" by blast
  qed (simp_all add: Close_Period)
next
  case (Change_Shops shops)
  with publishing_okD(1,2) [OF assms(2)] show ?thesis
    by (intro publishing_ok_other [OF assms(2)]) (auto simp: usage_keys_def row_ok_def kept_row_same)
next
  case (Start_Publisher options)
  with publishing_okD(1,2) [OF assms(2)] show ?thesis
    by (intro publishing_ok_other [OF assms(2)]) (auto simp: row_ok_def kept_row_same new_publisher_def waiting_for_def)
next
  case (Stop_Publisher k)
  have "waiting_for i (pg_publishers s') \<le> waiting_for i (pg_publishers s)" for i
    using waiting_for_update [OF Stop_Publisher(2), of i "(pg_publishers s ! k)\<lparr>pb_phase := Publish_Thrown\<rparr>"]
    by (simp add: Stop_Publisher(1))
  moreover have "p \<in> set (pg_publishers s) \<or> rows_of (pb_phase p) = [] \<and> counts_ok (pb_phase p) p"
    if "p \<in> set (pg_publishers s')" for p
    using that set_update_subset_insert [of "pg_publishers s" k "(pg_publishers s ! k)\<lparr>pb_phase := Publish_Thrown\<rparr>"]
    by (auto simp: Stop_Publisher(1))
  ultimately show ?thesis using publishing_okD(1,2) [OF assms(2)]
    by (intro publishing_ok_other [OF assms(2)]) (auto simp: Stop_Publisher(1) row_ok_def kept_row_same)
next
  case (Move_Publisher k inp)
  with publishing_ok_step [OF assms(2) Move_Publisher(2)] show ?thesis by simp
qed

lemma publishing_reachable_ok: "publishing_reachable s \<Longrightarrow> publishing_ok s"
proof (induction rule: publishing_reachable.induct)
  case (No_Usage shops)
  show ?case by (simp add: publishing_ok_def nothing_published_def usage_keys_def)
next
  case (Publishing_Moves s s')
  then show ?case using publishing_moves_ok by blast
qed

section \<open>Settled reports\<close>

text \<open>A report that is settled is left alone, by the publishers and by everything else, unless its row is deleted.\<close>

lemma known_final_moves:
  assumes "publishing_moves s s'" "publishing_ok s" "known s i (\<lambda>x. x = r)" "is_final r"
  shows "known s' i (\<lambda>x. x = r)"
  using assms(1)
proof cases
  case (Close_Period billingPeriodId summary)
  with assms(3,4) show ?thesis
    by (auto simp: known_def close_period_reports_def update_rows_def is_final_def split: if_splits)
next
  case (Move_Publisher k inp)
  obtain p' D' calls where step: "publisher_step inp (pg_publishers s ! k) (pg_db s) = (p', D', calls)"
    by (cases "publisher_step inp (pg_publishers s ! k) (pg_db s)")
  from publisher_step_rows [OF step publishing_okD(1) [OF assms(2)]] obtain F where F: "pd_usage D' = map F (pd_usage (pg_db s))"
    "\<And>r. r \<in> set (pd_usage (pg_db s)) \<Longrightarrow> row_step (pg_publishers s ! k) p' calls r (F r)" by (auto simp: publish_rows_step_def)
  have "F y = r" if y: "y \<in> set (pd_usage (pg_db s))" "ur_id (F y) = i" for y
  proof -
    have "ur_id y = i" using F(2) [OF y(1)] y(2) by (simp add: row_step_def same_event_def)
    then have "y = r" using assms(3) y(1) by (simp add: known_def)
    then show ?thesis using F(2) [OF y(1)] assms(4) by (simp add: row_step_def)
  qed
  with assms(3) show ?thesis by (auto simp: known_def Move_Publisher(1) step_publisher_def step F(1))
qed (use assms(3) in \<open>auto simp: known_def\<close>)

lemma final_reports_stay:
  assumes "publishing_moves\<^sup>*\<^sup>* s s'" "publishing_reachable s" "known s i (\<lambda>x. x = r)" "is_final r"
  shows "publishing_reachable s' \<and> known s' i (\<lambda>x. x = r)"
  using assms
proof (induction rule: rtranclp_induct)
  case (step s1 s2)
  then have s1: "publishing_reachable s1" "known s1 i (\<lambda>x. x = r)" by simp_all
  from known_final_moves [OF step(2) publishing_reachable_ok [OF s1(1)] s1(2) step(6)]
    publishing_reachable.Publishing_Moves [OF s1(1) step(2)] show ?case by simp
qed simp

end
