(* ===== verification/Publisher_Batch.thy ===== *)
theory Publisher_Batch
  imports Publisher_Invariant
begin

text \<open>
  A whole batch of \<open>Usage_Publisher\<close> that nothing disturbs: how its page is made up, that it ends, and what it
  leaves in every row.
\<close>

section \<open>A publisher that nothing disturbs\<close>

text \<open>No statement fails, nothing else changes the rows, and the provider answers an event by \<open>answer\<close>.\<close>

definition input_alone :: "(billing_event \<Rightarrow> publish_error option) \<Rightarrow> publisher_phase \<Rightarrow> publisher_input" where
  "input_alone answer phase = \<lparr>pi_dbError = None, pi_clientError = None,
     pi_answer = (case phase of Calling x q \<Rightarrow> answer (billing_event_of x) | _ \<Rightarrow> None)\<rparr>"

definition step_alone :: "(billing_event \<Rightarrow> publish_error option) \<Rightarrow> publisher \<times> publisher_db \<Rightarrow> publisher \<times> publisher_db" where
  "step_alone answer c = (case publisher_step (input_alone answer (pb_phase (fst c))) (fst c) (snd c) of (p, D, _) \<Rightarrow> (p, D))"

definition page_of :: "publisher_options \<Rightarrow> nat \<Rightarrow> publisher_db \<Rightarrow> usage_snapshot list" where
  "page_of o' n D =
     (let rows = select_due (po_now o') (po_billingPeriodId o') True n D in
      rows @ select_due (po_now o') (po_billingPeriodId o') False (n - length rows) D)"

text \<open>A row of the page after the batch.\<close>

definition claimed_row :: "time \<Rightarrow> usage_report \<Rightarrow> usage_report" where
  "claimed_row now r = r\<lparr>ur_state := REPORT_IN_FLIGHT, ur_attemptCount := ur_attemptCount r + 1,
     ur_lastAttemptAt := Some now, ur_errorCode := None, ur_responseSummary := None\<rparr>"

definition attention_row :: "string \<Rightarrow> string \<Rightarrow> usage_report \<Rightarrow> usage_report" where
  "attention_row code summary r = r\<lparr>ur_state := REPORT_NEEDS_ATTENTION, ur_nextReportAt := None,
     ur_errorCode := Some code, ur_responseSummary := Some summary\<rparr>"

definition settled_row :: "(billing_event \<Rightarrow> publish_error option) \<Rightarrow> publisher_options \<Rightarrow> usage_snapshot \<Rightarrow> usage_report" where
  "settled_row answer o' x =
     (let r = claimed_row (po_now o') (fst x) in
      case validate_reportable_usage x of
        Some reason \<Rightarrow> attention_row ''invalid-reportable-usage'' reason r
      | None \<Rightarrow>
          (case answer (billing_event_of x) of
             None \<Rightarrow> r\<lparr>ur_state := REPORT_REPORTED, ur_reportedAt := Some (po_now o'), ur_nextReportAt := None,
               ur_errorCode := None, ur_responseSummary := Some ''submitted-to-shopify-app-events''\<rparr>
           | Some e \<Rightarrow>
               if is_retryable e
               then r\<lparr>ur_state := REPORT_RETRYABLE,
                 ur_nextReportAt := Some (po_now o' + retry_delay (po_retryBaseSeconds o' * 1000)
                   (po_retryMaxSeconds o' * 1000) (ur_attemptCount (fst x))),
                 ur_errorCode := Some (error_code e), ur_responseSummary := Some (error_summary e)\<rparr>
               else attention_row (error_code e) (error_summary e) r))"

definition settle_rows :: "(billing_event \<Rightarrow> publish_error option) \<Rightarrow> publisher_options \<Rightarrow> usage_snapshot list \<Rightarrow>
    usage_report table \<Rightarrow> usage_report table" where
  "settle_rows answer o' q T = map (\<lambda>r. case find_row (\<lambda>x. ur_id (fst x) = ur_id r) q of None \<Rightarrow> r
     | Some x \<Rightarrow> settled_row answer o' x) T"

lemma settled_row_id [simp]: "ur_id (settled_row answer o' x) = ur_id (fst x)"
  by (simp add: settled_row_def attention_row_def claimed_row_def Let_def split: option.split)

lemma update_in_flight:
  assumes "distinct (map ur_id T)" "r \<in> set T" "ur_state r = REPORT_IN_FLIGHT"
  shows "update_many (in_flight (ur_id r)) f T = (1, update_key ur_id (ur_id r) f T)"
    "update_rows (in_flight (ur_id r)) f T = update_key ur_id (ur_id r) f T"
proof -
  have P: "in_flight (ur_id r) = (\<lambda>y. ur_id y = ur_id r \<and> ur_state y = REPORT_IN_FLIGHT)"
    by (auto simp: in_flight_def)
  show *: "update_many (in_flight (ur_id r)) f T = (1, update_key ur_id (ur_id r) f T)"
    unfolding P by (rule update_many_hit [OF assms(1,2)]) (simp_all add: assms(3))
  then show "update_rows (in_flight (ur_id r)) f T = update_key ur_id (ur_id r) f T" by (simp add: update_many_def)
qed

text \<open>One row: it is claimed, and ends as \<open>settled_row\<close> says.\<close>

lemma settle_one:
  assumes keys: "usage_keys D" and x: "fst x \<in> set (pd_usage D)" "is_due (po_now (pb_options p)) (fst x)"
    and p: "pb_phase p = Claiming (x # q)"
  obtains k p' where "(step_alone answer ^^ k) (p, D) =
      (p', D\<lparr>pd_usage := update_key ur_id (ur_id (fst x)) (\<lambda>_. settled_row answer (pb_options p) x) (pd_usage D)\<rparr>)"
    "pb_phase p' = Claiming q" "pb_options p' = pb_options p"
proof -
  let ?T = "pd_usage D" and ?i = "ur_id (fst x)" and ?now = "po_now (pb_options p)"
  let ?T1 = "update_key ur_id ?i (claimed_row ?now) ?T" and ?r1 = "claimed_row ?now (fst x)"
  have one: "update_key ur_id ?i f (update_key ur_id ?i g ?T) = update_key ur_id ?i (\<lambda>_. f (g (fst x))) ?T"
    if "\<And>r. ur_id (g r) = ur_id r" for f g
    using key_inj [OF keys [unfolded usage_keys_def] x(1)] that by (fastforce simp: update_key_def)
  have claim: "claim ?now ?i D = (True, D\<lparr>pd_usage := ?T1\<rparr>)"
    using update_many_hit [where key = ur_id and G = "is_due ?now" and f = "claimed_row ?now",
        OF keys [unfolded usage_keys_def] x(1) refl x(2)]
    by (simp add: claim_def claimed_row_def [abs_def])
  have r1: "distinct (map ur_id ?T1)" "?r1 \<in> set ?T1" "ur_state ?r1 = REPORT_IN_FLIGHT" "ur_id ?r1 = ?i"
    using keys x(1) by (auto simp: usage_keys_def map_update_key set_update_key claimed_row_def)
  note hit = update_in_flight [OF r1(1-3), unfolded r1(4)]
  have id: "ur_id (claimed_row ?now r) = ur_id r" for r by (simp add: claimed_row_def)
  let ?p1 = "go_to (Checking x q) (\<lambda>c. c\<lparr>pr_claimed := pr_claimed c + 1\<rparr>) p" and ?D1 = "D\<lparr>pd_usage := ?T1\<rparr>"
  have s1: "step_alone answer (p, D) = (?p1, ?D1)"
    by (simp add: step_alone_def step_defs input_alone_def p claim)
  show ?thesis
  proof (cases "validate_reportable_usage x")
    case (Some reason)
    have "step_alone answer (?p1, ?D1) = (go_to (Claiming q) (\<lambda>c. c\<lparr>pr_needsAttention := pr_needsAttention c + 1\<rparr>) ?p1,
        D\<lparr>pd_usage := update_key ur_id ?i (\<lambda>_. settled_row answer (pb_options p) x) ?T\<rparr>)"
      using Some one [OF id] by (simp add: step_alone_def step_defs input_alone_def mark_needs_attention_def hit(2)
          settled_row_def attention_row_def)
    with s1 have "(step_alone answer ^^ 2) (p, D) = (go_to (Claiming q) (\<lambda>c. c\<lparr>pr_needsAttention := pr_needsAttention c + 1\<rparr>) ?p1,
        D\<lparr>pd_usage := update_key ur_id ?i (\<lambda>_. settled_row answer (pb_options p) x) ?T\<rparr>)"
      by (simp add: numeral_2_eq_2)
    then show ?thesis by (rule that) simp_all
  next
    case None
    let ?p2 = "go_to (Calling x q) id ?p1"
    have s2: "step_alone answer (?p1, ?D1) = (?p2, ?D1)"
      using None by (simp add: step_alone_def step_defs input_alone_def)
    show ?thesis
    proof (cases "answer (billing_event_of x)")
      case accepted: None
      let ?p3 = "go_to (Marking x q) id ?p2"
      have s3: "step_alone answer (?p2, ?D1) = (?p3, ?D1)"
        using accepted by (simp add: step_alone_def step_defs input_alone_def)
      have "step_alone answer (?p3, ?D1) = (go_to (Claiming q) (\<lambda>c. c\<lparr>pr_reported := pr_reported c + 1\<rparr>) ?p3,
          D\<lparr>pd_usage := update_key ur_id ?i (\<lambda>_. settled_row answer (pb_options p) x) ?T\<rparr>)"
        using None accepted one [OF id] by (simp add: step_alone_def step_defs input_alone_def mark_reported_def hit(1)
            settled_row_def)
      with s1 s2 s3 have "(step_alone answer ^^ 4) (p, D) = (go_to (Claiming q) (\<lambda>c. c\<lparr>pr_reported := pr_reported c + 1\<rparr>) ?p3,
          D\<lparr>pd_usage := update_key ur_id ?i (\<lambda>_. settled_row answer (pb_options p) x) ?T\<rparr>)"
        by (simp add: numeral_eq_Suc)
      then show ?thesis by (rule that) simp_all
    next
      case (Some e)
      let ?p3 = "go_to (Failed x e q) id ?p2"
      have s3: "step_alone answer (?p2, ?D1) = (?p3, ?D1)"
        using Some by (simp add: step_alone_def step_defs input_alone_def)
      obtain p4 where p4: "step_alone answer (?p3, ?D1) = (p4,
          D\<lparr>pd_usage := update_key ur_id ?i (\<lambda>_. settled_row answer (pb_options p) x) ?T\<rparr>)"
        "pb_phase p4 = Claiming q" "pb_options p4 = pb_options p"
        using None Some one [OF id]
        by (cases "is_retryable e") (auto simp: step_alone_def step_defs input_alone_def mark_retryable_def
            mark_needs_attention_def hit(2) settled_row_def attention_row_def)
      from s1 s2 s3 p4(1) have "(step_alone answer ^^ 4) (p, D) = (p4,
          D\<lparr>pd_usage := update_key ur_id ?i (\<lambda>_. settled_row answer (pb_options p) x) ?T\<rparr>)"
        by (simp add: numeral_eq_Suc)
      then show ?thesis using p4(2,3) by (rule that)
    qed
  qed
qed

lemma settle_queue:
  assumes "usage_keys D" "\<forall>x\<in>set q. fst x \<in> set (pd_usage D) \<and> is_due (po_now (pb_options p)) (fst x)"
    and "distinct (map (\<lambda>x. ur_id (fst x)) q)" "pb_phase p = Claiming q"
  shows "\<exists>k p'. (step_alone answer ^^ k) (p, D) = (p', D\<lparr>pd_usage := settle_rows answer (pb_options p) q (pd_usage D)\<rparr>) \<and>
    pb_phase p' = Publish_Done"
  using assms
proof (induction q arbitrary: p D)
  case Nil
  then show ?case
    by (intro exI [of _ 1]) (simp add: step_alone_def publisher_step_def settle_rows_def Let_def)
next
  case (Cons x q)
  let ?s = "settled_row answer (pb_options p) x"
  let ?D = "D\<lparr>pd_usage := update_key ur_id (ur_id (fst x)) (\<lambda>_. ?s) (pd_usage D)\<rparr>"
  obtain k p1 where one: "(step_alone answer ^^ k) (p, D) = (p1, ?D)" and p1: "pb_phase p1 = Claiming q" "pb_options p1 = pb_options p"
    using settle_one [OF Cons.prems(1) _ _ Cons.prems(4)] Cons.prems(2) by auto
  have "map ur_id (pd_usage ?D) = map ur_id (pd_usage D)" by (auto simp: update_key_def)
  then have keys: "usage_keys ?D" using Cons.prems(1) by (simp add: usage_keys_def)
  have "fst y \<in> set (pd_usage ?D)" if "y \<in> set q" for y
  proof -
    have "ur_id (fst x) \<notin> (\<lambda>x. ur_id (fst x)) ` set q" using Cons.prems(3) by simp
    with that have "ur_id (fst y) \<noteq> ur_id (fst x)" by (auto simp: image_iff)
    moreover have "fst y \<in> set (pd_usage D)" using that Cons.prems(2) by simp
    ultimately show ?thesis by (force simp: update_key_def)
  qed
  then have due: "\<forall>y\<in>set q. fst y \<in> set (pd_usage ?D) \<and> is_due (po_now (pb_options p1)) (fst y)"
    using Cons.prems(2) by (simp add: p1(2))
  have "distinct (map (\<lambda>x. ur_id (fst x)) q)" using Cons.prems(3) by simp
  from Cons.IH [OF keys due this p1(1)] obtain k' p' where two: "(step_alone answer ^^ k') (p1, ?D) =
      (p', ?D\<lparr>pd_usage := settle_rows answer (pb_options p) q (pd_usage ?D)\<rparr>)" "pb_phase p' = Publish_Done"
    using p1(2) by auto
  have none: "find_row (\<lambda>y. ur_id (fst y) = ur_id (fst x)) q = None"
    unfolding find_row_None_iff
  proof
    fix y assume "y \<in> set q"
    then have "ur_id (fst y) \<in> set (map (\<lambda>x. ur_id (fst x)) q)" by simp
    moreover have "ur_id (fst x) \<notin> set (map (\<lambda>x. ur_id (fst x)) q)"
      using Cons.prems(3) by simp
    ultimately show "ur_id (fst y) \<noteq> ur_id (fst x)" by metis
  qed
  have "settle_rows answer (pb_options p) q (pd_usage ?D) = settle_rows answer (pb_options p) (x # q) (pd_usage D)"
    using none by (auto simp: settle_rows_def update_key_def)
  with one two show ?case by (intro exI [of _ "k' + k"] exI [of _ p']) (simp add: funpow_add)
qed

lemma distinct_page:
  assumes "usage_keys D"
  shows "distinct (map (\<lambda>x. ur_id (fst x)) (page_of o' n D))"
proof -
  have ids: "map (\<lambda>x. ur_id (fst x)) (select_due now period uninstalled m D) =
      map ur_id (take m (sort_key due_key (filter (\<lambda>r. in_period period r \<and> is_due now r \<and>
        (case shop_of D (ur_shopId r) of None \<Rightarrow> False | Some s \<Rightarrow> (ps_status s = PS_UNINSTALLED) = uninstalled)) (pd_usage D))))"
    for now period uninstalled m by (simp add: select_due_def Let_def comp_def)
  have one: "distinct (map ur_id (take m (sort_key due_key (filter P (pd_usage D)))))" for m P
  proof -
    let ?Z = "take m (sort_key due_key (filter P (pd_usage D)))"
    have keys: "inj_on ur_id (set (pd_usage D))" "distinct (pd_usage D)"
      using assms by (simp_all add: usage_keys_def distinct_map)
    have "set ?Z \<subseteq> set (sort_key due_key (filter P (pd_usage D)))" by (rule set_take_subset)
    then have "set ?Z \<subseteq> set (pd_usage D)" by auto
    with keys(1) have "inj_on ur_id (set ?Z)" by (rule inj_on_subset)
    with keys(2) show ?thesis by (simp add: distinct_map)
  qed
  have disjoint: "ur_id (fst x) \<noteq> ur_id (fst y)"
    if "x \<in> set (select_due now period True m D)" "y \<in> set (select_due now period False m' D)" for x y now period m m'
  proof
    assume "ur_id (fst x) = ur_id (fst y)"
    moreover have "fst x \<in> set (pd_usage D)" "fst y \<in> set (pd_usage D)"
      using that select_due_rows [of "fst x" "snd x"] select_due_rows [of "fst y" "snd y"] by simp_all
    ultimately have "fst x = fst y" using key_inj [OF assms [unfolded usage_keys_def]] by metis
    with that show False by (auto simp: select_due_def Let_def dest!: in_set_takeD split: option.splits)
  qed
  let ?A = "select_due (po_now o') (po_billingPeriodId o') True n D"
  let ?B = "select_due (po_now o') (po_billingPeriodId o') False (n - length ?A) D"
  have "set (map (\<lambda>x. ur_id (fst x)) ?A) \<inter> set (map (\<lambda>x. ur_id (fst x)) ?B) = {}"
  proof (rule equals0I)
    fix i assume "i \<in> set (map (\<lambda>x. ur_id (fst x)) ?A) \<inter> set (map (\<lambda>x. ur_id (fst x)) ?B)"
    then obtain x y where "x \<in> set ?A" "y \<in> set ?B" "ur_id (fst x) = ur_id (fst y)" unfolding set_map by blast
    with disjoint show False by blast
  qed
  moreover have "distinct (map (\<lambda>x. ur_id (fst x)) (select_due now period uninstalled m D))" for now period uninstalled m
    unfolding ids by (rule one)
  ultimately show ?thesis unfolding page_of_def Let_def map_append distinct_append by blast
qed

lemma run_on: "(f ^^ j) a = b \<Longrightarrow> (f ^^ k) b = c \<Longrightarrow> (f ^^ (k + j)) a = c"
  by (simp add: funpow_add)

text \<open>The whole batch.\<close>

lemma publish_alone:
  assumes "usage_keys D" "page_size p = Some n" "pb_phase p = Starting"
  shows "\<exists>k p'. (step_alone answer ^^ k) (p, D) = (p',
      (let D1 = recover_stale_claims (po_now (pb_options p)) (po_billingPeriodId (pb_options p)) D in
       D1\<lparr>pd_usage := settle_rows answer (pb_options p) (page_of (pb_options p) n D1) (pd_usage D1)\<rparr>)) \<and>
    pb_phase p' = Publish_Done"
proof -
  let ?o = "pb_options p"
  let ?D = "recover_stale_claims (po_now ?o) (po_billingPeriodId ?o) D"
  let ?page = "page_of ?o n ?D" and ?rows = "select_due (po_now ?o) (po_billingPeriodId ?o) True n ?D"
  have ids: "map ur_id (pd_usage ?D) = map ur_id (pd_usage D)"
    by (auto simp: recover_stale_claims_def update_rows_def)
  with assms(1) have keys: "usage_keys ?D" by (simp add: usage_keys_def)
  let ?p1 = "go_to (Selecting_Uninstalled n) id p"
  have s1: "step_alone answer (p, D) = (?p1, ?D)"
    using assms(2,3) by (simp add: step_alone_def step_defs input_alone_def page_size_def)
  obtain j p2 where p2: "(step_alone answer ^^ j) (?p1, ?D) = (p2, ?D)" "pb_phase p2 = Claiming ?page" "pb_options p2 = ?o"
  proof (cases "n \<le> length ?rows")
    case True
    then have page: "?page = ?rows" by (simp add: page_of_def select_due_def Let_def)
    show ?thesis
      by (rule that [of 1 "with_rows ?rows ?p1"])
        (use True page in \<open>simp_all add: step_alone_def publisher_step_def or_thrown_def input_alone_def Let_def\<close>)
  next
    case False
    let ?p2 = "go_to (Selecting_Others n ?rows) id ?p1"
    have "step_alone answer (?p1, ?D) = (?p2, ?D)"
      using False by (simp add: step_alone_def publisher_step_def or_thrown_def input_alone_def Let_def)
    moreover have "step_alone answer (?p2, ?D) = (with_rows ?page ?p2, ?D)"
      by (simp add: step_alone_def publisher_step_def or_thrown_def input_alone_def page_of_def Let_def)
    ultimately show ?thesis by (intro that [of 2 "with_rows ?page ?p2"]) (simp_all add: numeral_2_eq_2)
  qed
  have "fst x \<in> set (pd_usage ?D) \<and> is_due (po_now (pb_options p2)) (fst x)" if "x \<in> set ?page" for x
    using that by (auto simp: page_of_def select_due_def Let_def p2(3) dest!: in_set_takeD)
  then have due: "\<forall>x\<in>set ?page. fst x \<in> set (pd_usage ?D) \<and> is_due (po_now (pb_options p2)) (fst x)" by blast
  from settle_queue [OF keys due distinct_page [OF keys] p2(2)] obtain k p' where
    "(step_alone answer ^^ k) (p2, ?D) = (p', ?D\<lparr>pd_usage := settle_rows answer ?o ?page (pd_usage ?D)\<rparr>)"
    "pb_phase p' = Publish_Done" unfolding p2(3) by blast
  note batch = this
  have "(step_alone answer ^^ 1) (p, D) = (?p1, ?D)" using s1 by simp
  from run_on [OF run_on [OF this p2(1)] batch(1)] batch(2) show ?thesis unfolding Let_def by blast
qed

text \<open>Nothing of the page is due any more.\<close>

lemma settled_row_not_due:
  assumes "0 < po_retryBaseSeconds o'" "0 < po_retryMaxSeconds o'"
  shows "\<not> is_due (po_now o') (settled_row answer o' x)"
proof -
  have "0 < retry_delay (po_retryBaseSeconds o' * 1000) (po_retryMaxSeconds o' * 1000) a" for a
    using assms by (simp add: retry_delay_def)
  then have "\<not> po_now o' + retry_delay (po_retryBaseSeconds o' * 1000) (po_retryMaxSeconds o' * 1000) a \<le> po_now o'" for a
    by (simp add: not_le)
  then show ?thesis
    by (auto simp: settled_row_def attention_row_def claimed_row_def is_due_def Let_def split: option.split)
qed

lemma page_complete:
  assumes "r \<in> set (pd_usage D)" "in_period (po_billingPeriodId o') r" "is_due (po_now o') r" "shop_of D (ur_shopId r) = Some s"
    and "length (page_of o' n D) < n"
  shows "(r, s) \<in> set (page_of o' n D)"
proof -
  have full: "(r, s) \<in> set (select_due (po_now o') (po_billingPeriodId o') u m D)"
    if "length (select_due (po_now o') (po_billingPeriodId o') u m D) < m" "(ps_status s = PS_UNINSTALLED) = u" for u m
    using that assms(1-4) by (force simp: select_due_def Let_def)
  show ?thesis
  proof (cases "ps_status s = PS_UNINSTALLED")
    case True
    with full [of True n] assms(5) show ?thesis by (simp add: page_of_def Let_def)
  next
    case False
    with full [of False "n - length (select_due (po_now o') (po_billingPeriodId o') True n D)"] assms(5)
    show ?thesis by (simp add: page_of_def Let_def)
  qed
qed

text \<open>After the batch a row is settled, or it is as it was and not on the page.\<close>

lemma settle_rows_row:
  assumes "r \<in> set (settle_rows answer o' page T)"
  shows "(\<exists>x\<in>set page. r = settled_row answer o' x) \<or> r \<in> set T \<and> ur_id r \<notin> (\<lambda>x. ur_id (fst x)) ` set page"
proof -
  from assms obtain y where y: "y \<in> set T" "r = (case find_row (\<lambda>x. ur_id (fst x) = ur_id y) page of None \<Rightarrow> y
      | Some x \<Rightarrow> settled_row answer o' x)" unfolding settle_rows_def set_map by blast
  show ?thesis
  proof (cases "find_row (\<lambda>x. ur_id (fst x) = ur_id y) page")
    case None
    then have "\<forall>x\<in>set page. ur_id (fst x) \<noteq> ur_id y" unfolding find_row_None_iff .
    with None y show ?thesis by (auto simp only: option.case image_iff)
  next
    case (Some x)
    with y find_row_SomeD [OF Some] show ?thesis by (simp only: option.case) blast
  qed
qed

end
