(* ===== verification/Publisher_Properties.thy ===== *)
theory Publisher_Properties
  imports Publisher_Batch
begin

text \<open>
  The properties of the publishers of usage, each with a witness.
\<close>

section \<open>An example\<close>

definition example_usage :: usage_report where
  "example_usage = \<lparr>ur_id = ''u'', ur_shopId = ''s'', ur_billingPeriodId = Some ''b'', ur_metric = RECOVERY_CONVERSATION,
     ur_quantity = Decimal 1 0, ur_occurredAt = 5, ur_eventHandle = Some ''meter'', ur_idempotencyKey = Some ''k'',
     ur_state = REPORT_PENDING, ur_attemptCount = 0, ur_nextReportAt = None, ur_lastAttemptAt = None,
     ur_reportedAt = None, ur_errorCode = None, ur_responseSummary = None\<rparr>"

definition example_shops :: "publisher_shop table" where
  "example_shops = [\<lparr>ps_id = ''s'', ps_shopifyShopId = Some ''gid'', ps_status = PS_ACTIVE, ps_uninstalledAt = None\<rparr>]"

definition example_options :: publisher_options where
  "example_options = \<lparr>po_now = 10, po_billingPeriodId = None, po_batchSize = JsInt 50, po_retryBaseSeconds = 60,
     po_retryMaxSeconds = 3600\<rparr>"

definition accepting_input :: publisher_input where
  "accepting_input = \<lparr>pi_dbError = None, pi_clientError = None, pi_answer = None\<rparr>"

definition one_due :: publishing where
  "one_due = \<lparr>pg_db = \<lparr>pd_usage = [example_usage], pd_shops = example_shops\<rparr>, pg_publishers = [new_publisher example_options],
     pg_calls = [], pg_ids = [''u'']\<rparr>"

definition all_published :: publishing where
  "all_published = (step_publisher accepting_input 0 ^^ 8) one_due"

lemma one_due_reachable: "publishing_reachable one_due"
proof -
  have "publishing_reachable (nothing_published example_shops)" by (rule publishing_reachable.No_Usage)
  from publishing_reachable.Publishing_Moves [OF this publishing_moves.Record_Usage [of example_usage]]
  have "publishing_reachable (one_due\<lparr>pg_publishers := []\<rparr>)"
    by (simp add: nothing_published_def one_due_def recorded_usage_def example_usage_def)
  from publishing_reachable.Publishing_Moves [OF this publishing_moves.Start_Publisher [of _ example_options]]
  show ?thesis by (simp add: one_due_def)
qed

lemma step_publisher_publishers: "length (pg_publishers (step_publisher inp k s)) = length (pg_publishers s)"
  by (simp add: step_publisher_def split: prod.split)

lemma publishing_steps_reachable:
  assumes "publishing_reachable s" "k < length (pg_publishers s)"
  shows "publishing_reachable ((step_publisher inp k ^^ j) s) \<and>
    length (pg_publishers ((step_publisher inp k ^^ j) s)) = length (pg_publishers s)"
proof (induction j)
  case (Suc j)
  then have "publishing_reachable ((step_publisher inp k ^^ j) s)" "k < length (pg_publishers ((step_publisher inp k ^^ j) s))"
    using assms(2) by simp_all
  from publishing_reachable.Publishing_Moves [OF this(1) publishing_moves.Move_Publisher [OF this(2), of inp]] Suc show ?case
    by (simp add: step_publisher_publishers)
qed (simp add: assms)

lemma all_published_reachable: "publishing_reachable all_published"
  using publishing_steps_reachable [OF one_due_reachable] by (simp add: all_published_def one_due_def)

definition published_usage :: usage_report where
  "published_usage = example_usage\<lparr>ur_state := REPORT_REPORTED, ur_attemptCount := 1, ur_lastAttemptAt := Some 10,
     ur_reportedAt := Some 10, ur_responseSummary := Some ''submitted-to-shopify-app-events''\<rparr>"

lemma example_is_reportable:
  "validate_reportable_usage (example_usage, \<lparr>ps_id = ''s'', ps_shopifyShopId = Some ''gid'', ps_status = PS_ACTIVE,
     ps_uninstalledAt = None\<rparr>) = None"
  by code_simp

lemma all_published_usage: "pd_usage (pg_db all_published) = [published_usage]"
  using example_is_reportable
  by (simp add: all_published_def numeral_eq_Suc one_due_def step_publisher_def step_defs new_publisher_def
      example_options_def accepting_input_def example_shops_def bounded_page_size_def go_to_def with_rows_def
      recover_stale_claims_def update_rows_def select_due_def shop_of_def claim_def mark_reported_def update_many_def
      count_rows_def in_period_def truthy_def is_due_def in_flight_def example_usage_def published_usage_def)

section \<open>Usage is charged for as it was recorded\<close>

text \<open>
  C38. In every interleaving of publishers, which may fail or die at any step, with the recording of usage, the closing
  of billing periods and changes of shops: a report that is marked as reported was accepted by the provider; every
  call the provider ever got for it, accepted or not, carries the handle, the idempotency key, the time and the
  quantity of the event; there were at most as many calls as attempts are counted; and a settled report never changes
  again as long as its row exists.
\<close>

theorem reported_usage_was_accepted:
  assumes "publishing_reachable s" "r \<in> set (pd_usage (pg_db s))"
  shows "(ur_state r = REPORT_REPORTED \<longrightarrow> (\<exists>c\<in>set (pg_calls s). pc_usageId c = ur_id r \<and> pc_accepted c)) \<and>
    (\<forall>c\<in>set (pg_calls s). pc_usageId c = ur_id r \<longrightarrow>
       be_eventHandle (pc_event c) = the (ur_eventHandle r) \<and> be_idempotencyKey (pc_event c) = the (ur_idempotencyKey r) \<and>
       be_occurredAt (pc_event c) = ur_occurredAt r \<and> be_value (pc_event c) = billing_value_of (ur_quantity r)) \<and>
    length (filter (\<lambda>c. pc_usageId c = ur_id r) (pg_calls s)) \<le> ur_attemptCount r \<and>
    (\<forall>s' r'. is_final r \<and> publishing_moves\<^sup>*\<^sup>* s s' \<and> r' \<in> set (pd_usage (pg_db s')) \<and> ur_id r' = ur_id r \<longrightarrow> r' = r)"
proof -
  note ok = publishing_reachable_ok [OF assms(1)]
  from publishing_okD(2) [OF ok assms(2)] have row: "row_ok s r" .
  have "y = r" if "y \<in> set (pd_usage (pg_db s))" "ur_id y = ur_id r" for y
    using key_inj [OF publishing_okD(1) [OF ok, unfolded usage_keys_def] that(1) assms(2)] that(2) by simp
  then have "known s (ur_id r) (\<lambda>x. x = r)" using row by (auto simp: known_def row_ok_def)
  then have "r' = r" if "is_final r" "publishing_moves\<^sup>*\<^sup>* s s'" "r' \<in> set (pd_usage (pg_db s'))" "ur_id r' = ur_id r" for s' r'
    using final_reports_stay [OF that(2) assms(1) _ that(1)] that(3,4) by (auto simp: known_def)
  moreover have "same_call c r" if "c \<in> set (pg_calls s)" "pc_usageId c = ur_id r" for c
    using publishing_okD(4) [OF ok that(1)] that(2) assms(2) by (simp add: known_def)
  ultimately show ?thesis
    using row by (auto simp: row_ok_def is_accepted_def same_call_def calls_for_def)
qed

theorem reported_usage_was_accepted_witness:
  "\<exists>c\<in>set (pg_calls all_published). pc_usageId c = ''u'' \<and> pc_accepted c"
  using reported_usage_was_accepted [OF all_published_reachable, of published_usage] all_published_usage
  by (simp add: published_usage_def example_usage_def)

text \<open>
  C39. A batch that nothing disturbs ends, and settles exactly its page: every row of the page is afterwards as the
  check of the event or the answer of the provider demands, no other row is touched after the stale claims are taken back, and no
  row of the page is due any more. A page that is not full holds everything that is due, so then nothing is.
\<close>

theorem undisturbed_batch_settles_its_page:
  assumes "usage_keys D" "page_size p = Some n" "pb_phase p = Starting"
    and "0 < po_retryBaseSeconds (pb_options p)" "0 < po_retryMaxSeconds (pb_options p)"
  shows "let D1 = recover_stale_claims (po_now (pb_options p)) (po_billingPeriodId (pb_options p)) D;
      page = page_of (pb_options p) n D1 in
    \<exists>k p' D'. (step_alone answer ^^ k) (p, D) = (p', D') \<and> pb_phase p' = Publish_Done \<and>
    pd_usage D' = settle_rows answer (pb_options p) page (pd_usage D1) \<and>
    (\<forall>r\<in>set (pd_usage D'). ur_id r \<in> (\<lambda>x. ur_id (fst x)) ` set page \<longrightarrow> \<not> is_due (po_now (pb_options p)) r) \<and>
    (length page < n \<longrightarrow> (\<forall>r\<in>set (pd_usage D'). in_period (po_billingPeriodId (pb_options p)) r \<and>
       shop_of D' (ur_shopId r) \<noteq> None \<longrightarrow> \<not> is_due (po_now (pb_options p)) r))"
proof -
  define D1 where "D1 = recover_stale_claims (po_now (pb_options p)) (po_billingPeriodId (pb_options p)) D"
  define page where "page = page_of (pb_options p) n D1"
  obtain k p' where run: "(step_alone answer ^^ k) (p, D) =
      (p', D1\<lparr>pd_usage := settle_rows answer (pb_options p) page (pd_usage D1)\<rparr>)" "pb_phase p' = Publish_Done"
    using publish_alone [OF assms(1-3)] unfolding D1_def page_def Let_def by blast
  let ?T = "settle_rows answer (pb_options p) page (pd_usage D1)"
  note row = settle_rows_row [of _ answer "pb_options p" page "pd_usage D1"]
  have settled: "\<not> is_due (po_now (pb_options p)) r" if "r \<in> set ?T" "ur_id r \<in> (\<lambda>x. ur_id (fst x)) ` set page" for r
    using row [OF that(1)] that(2) settled_row_not_due [OF assms(4,5)] by blast
  have complete: "\<not> is_due (po_now (pb_options p)) r"
    if "length page < n" "r \<in> set ?T" "in_period (po_billingPeriodId (pb_options p)) r" "shop_of D1 (ur_shopId r) \<noteq> None" for r
  proof -
    from that(4) obtain s where "shop_of D1 (ur_shopId r) = Some s" by blast
    with row [OF that(2)] settled [OF that(2)] page_complete [of r D1 "pb_options p" s n] that(1,3) show ?thesis
      unfolding page_def [symmetric] by force
  qed
  let ?D' = "D1\<lparr>pd_usage := ?T\<rparr>"
  have "\<forall>r\<in>set (pd_usage ?D'). ur_id r \<in> (\<lambda>x. ur_id (fst x)) ` set page \<longrightarrow> \<not> is_due (po_now (pb_options p)) r"
    using settled by simp
  moreover have "length page < n \<longrightarrow> (\<forall>r\<in>set (pd_usage ?D'). in_period (po_billingPeriodId (pb_options p)) r \<and>
       shop_of ?D' (ur_shopId r) \<noteq> None \<longrightarrow> \<not> is_due (po_now (pb_options p)) r)"
    using complete by (simp add: shop_of_def)
  moreover have "pd_usage ?D' = ?T" by simp
  ultimately show ?thesis
    using run unfolding Let_def D1_def [symmetric] page_def [symmetric] by blast
qed

lemma example_page: "page_size (new_publisher example_options) = Some 50"
  by (simp add: page_size_def new_publisher_def example_options_def bounded_page_size_def)

theorem undisturbed_batch_settles_its_page_witness:
  "\<exists>k p' D'. (step_alone (\<lambda>_. None) ^^ k) (new_publisher example_options, pg_db one_due) = (p', D') \<and> pb_phase p' = Publish_Done"
proof -
  have "usage_keys (pg_db one_due)" by (simp add: usage_keys_def one_due_def)
  moreover have "pb_phase (new_publisher example_options) = Starting"
    "0 < po_retryBaseSeconds (pb_options (new_publisher example_options))"
    "0 < po_retryMaxSeconds (pb_options (new_publisher example_options))"
    by (simp_all add: new_publisher_def example_options_def)
  ultimately show ?thesis
    using undisturbed_batch_settles_its_page [OF _ example_page, of "pg_db one_due" "\<lambda>_. None"] unfolding Let_def by blast
qed

text \<open>The answer of a batch adds up, also when it was disturbed.\<close>

theorem publisher_counts_add_up:
  assumes "publishing_reachable s" "p \<in> set (pg_publishers s)" "pb_phase p = Publish_Done"
  shows "pr_claimed (pb_counts p) = pr_reported (pb_counts p) + pr_retryable (pb_counts p) + pr_needsAttention (pb_counts p) \<and>
    pr_claimed (pb_counts p) \<le> pr_selected (pb_counts p) \<and> pr_selected (pb_counts p) \<le> 200"
proof -
  have "counts_ok Publish_Done p"
    using publishing_okD(3) [OF publishing_reachable_ok [OF assms(1)] assms(2)] assms(3) by (simp add: publisher_ok_def)
  then show ?thesis
    by (auto simp: in_balance_def settled_def page_size_def bounded_page_size_def split: js_number.splits if_splits)
qed

end
