(* ===== verification/Price_Comparison.thy ===== *)
theory Price_Comparison
  imports Complex_Main Prelude
begin

text \<open>
  \<open>src/services/recovery-pricing/price-comparison.ts\<close>: whether the price a line of a checkout had is the price the
  catalogue has now, compared exactly in minor units of the currency, and the summary of all lines. Prices are
  texts; what the runtime knows of a currency (\<open>Intl\<close>) is a parameter. The fingerprint of the basket is not modelled.
\<close>

section \<open>Currencies and amounts\<close>

text \<open>\<open>in_fractionDigits\<close>: the minimum and maximum, \<open>None\<close> when the constructor throws or the maximum is missing.\<close>

record intl =
  in_supported :: "string \<Rightarrow> bool"
  in_fractionDigits :: "string \<Rightarrow> (int \<times> int) option"

definition is_upper :: "char \<Rightarrow> bool" where
  "is_upper c \<longleftrightarrow> (of_char c :: nat) \<in> {65..90}"

definition is_decimal_digit :: "char \<Rightarrow> bool" where
  "is_decimal_digit c \<longleftrightarrow> (of_char c :: nat) \<in> {48..57}"

text \<open>Every answer is kept in a cache, which only saves asking again.\<close>

definition currency_exponent :: "intl \<Rightarrow> string \<Rightarrow> nat option" where
  "currency_exponent J currency =
     (if \<not> (length currency = 3 \<and> list_all is_upper currency) then None
      else if \<not> in_supported J currency then None
      else
        (case in_fractionDigits J currency of
           None \<Rightarrow> None
         | Some (least, most) \<Rightarrow> if most < 0 \<or> 4 < most \<or> least \<noteq> most then None else Some (nat most)))"

text \<open>The whole and the fractional part of a text that matches \<open>DECIMAL_PATTERN\<close>.\<close>

definition decimal_parts :: "string \<Rightarrow> (string \<times> string) option" where
  "decimal_parts v =
     (let whole = takeWhile is_decimal_digit v in
      if whole = [] then None
      else
        (case dropWhile is_decimal_digit v of
           [] \<Rightarrow> Some (whole, [])
         | c # fractional \<Rightarrow>
             if c = CHR ''.'' \<and> fractional \<noteq> [] \<and> list_all is_decimal_digit fractional then Some (whole, fractional) else None))"

text \<open>\<open>BigInt\<close> of a text of digits.\<close>

definition digit_of :: "char \<Rightarrow> nat" where
  "digit_of c = of_char c - 48"

definition big_int :: "string \<Rightarrow> nat" where
  "big_int ds = foldl (\<lambda>n c. 10 * n + digit_of c) 0 ds"

definition minor_units :: "string \<Rightarrow> nat \<Rightarrow> nat option" where
  "minor_units v exponent =
     (case decimal_parts v of
        None \<Rightarrow> None
      | Some (whole, fractional) \<Rightarrow>
          if exponent < length fractional then None
          else Some (big_int (whole @ fractional @ replicate (exponent - length fractional) (CHR ''0''))))"

section \<open>The comparison\<close>

datatype catalogue_comparison = EQUAL | DIFFERENT | INCOMPARABLE

record price_input =
  px_checkoutUnitPrice :: "string option"
  px_checkoutCurrency :: "string option"
  px_catalogueUnitPrice :: "string option"
  px_catalogueCurrency :: "string option"

record price_comparison =
  px_comparison :: catalogue_comparison
  px_reasonCodes :: "string list"

text \<open>\<open>Set.add\<close> on a set as the list of its elements in the order they were added.\<close>

definition add_reason :: "string \<Rightarrow> string list \<Rightarrow> string list" where
  "add_reason reason rs = (if reason \<in> set rs then rs else rs @ [reason])"

definition add_reason_if :: "bool \<Rightarrow> string \<Rightarrow> string list \<Rightarrow> string list" where
  "add_reason_if b reason rs = (if b then add_reason reason rs else rs)"

definition exponent_of :: "intl \<Rightarrow> string option \<Rightarrow> nat option" where
  "exponent_of J currency = (case currency of None \<Rightarrow> None | Some c \<Rightarrow> currency_exponent J c)"

definition minor_of :: "nat option \<Rightarrow> string option \<Rightarrow> nat option" where
  "minor_of exponent price =
     (case exponent of None \<Rightarrow> None
      | Some e \<Rightarrow> (case price of None \<Rightarrow> None | Some v \<Rightarrow> minor_units v e))"

definition observation_reasons :: "intl \<Rightarrow> price_input \<Rightarrow> string list" where
  "observation_reasons J x =
     (let checkoutExponent = exponent_of J (px_checkoutCurrency x);
          catalogueExponent = exponent_of J (px_catalogueCurrency x);
          checkoutMinor = minor_of checkoutExponent (px_checkoutUnitPrice x);
          catalogueMinor = minor_of catalogueExponent (px_catalogueUnitPrice x);
          r1 = [''PRICE_CONTEXT_UNVERIFIED''];
          r2 = add_reason_if (px_checkoutUnitPrice x \<noteq> None \<and> checkoutExponent \<noteq> None \<and> checkoutMinor = None)
            ''SOURCE_OBSERVATION_INVALID'' r1;
          r3 = add_reason_if (px_catalogueUnitPrice x \<noteq> None \<and> catalogueExponent \<noteq> None \<and> catalogueMinor = None)
            ''SOURCE_OBSERVATION_INVALID'' r2;
          r4 = add_reason_if (checkoutMinor = None) ''SNAPSHOT_UNIT_PRICE_UNKNOWN'' r3;
          r5 = add_reason_if (checkoutMinor = None \<and> px_checkoutCurrency x \<noteq> None \<and> checkoutExponent = None)
            ''SOURCE_OBSERVATION_INVALID'' r4;
          r6 = add_reason_if (catalogueMinor = None) ''CATALOGUE_PRICE_UNAVAILABLE'' r5 in
      add_reason_if (catalogueMinor = None \<and> px_catalogueCurrency x \<noteq> None \<and> catalogueExponent = None)
        ''SOURCE_OBSERVATION_INVALID'' r6)"

definition compare_observed_line_prices :: "intl \<Rightarrow> price_input \<Rightarrow> price_comparison" where
  "compare_observed_line_prices J x =
     (let checkoutMinor = minor_of (exponent_of J (px_checkoutCurrency x)) (px_checkoutUnitPrice x);
          catalogueMinor = minor_of (exponent_of J (px_catalogueCurrency x)) (px_catalogueUnitPrice x);
          reasons = observation_reasons J x in
      if checkoutMinor = None \<or> catalogueMinor = None then \<lparr>px_comparison = INCOMPARABLE, px_reasonCodes = reasons\<rparr>
      else if px_checkoutCurrency x \<noteq> px_catalogueCurrency x
      then \<lparr>px_comparison = INCOMPARABLE, px_reasonCodes = add_reason ''CURRENCY_MISMATCH'' reasons\<rparr>
      else if checkoutMinor = catalogueMinor then \<lparr>px_comparison = EQUAL, px_reasonCodes = reasons\<rparr>
      else \<lparr>px_comparison = DIFFERENT, px_reasonCodes = add_reason ''CATALOGUE_PRICE_DIFFERENCE'' reasons\<rparr>)"

section \<open>The summary\<close>

datatype checkout_price_change = CONFIRMED_UNCHANGED | CONFIRMED_CHANGED | UNVERIFIABLE

record line_price_observation =
  lp_lineKey :: string
  lp_prices :: price_input
  lp_catalogueObservedAt :: "string option"
  lp_catalogueComparison :: catalogue_comparison
  lp_checkoutPriceChange :: checkout_price_change
  lp_reasonCodes :: "string list"

definition unique_reasons :: "string list \<Rightarrow> string list" where
  "unique_reasons rs = fold add_reason rs []"

definition unverifiable_line :: "line_price_observation \<Rightarrow> line_price_observation" where
  "unverifiable_line l = l\<lparr>lp_checkoutPriceChange := UNVERIFIABLE,
     lp_reasonCodes := unique_reasons (lp_reasonCodes l @ [''PRICE_CONTEXT_UNVERIFIED''])\<rparr>"

text \<open>\<open>deriveCheckoutPriceReconciliation\<close>: the lines and the reasons of the answer; the rest is copied or fixed.\<close>

definition derive_reconciliation ::
  "string list option \<Rightarrow> line_price_observation list \<Rightarrow> line_price_observation list \<times> string list" where
  "derive_reconciliation reasonCodes observed =
     (let lines' = map unverifiable_line observed;
          lineReasons = unique_reasons (concat (map lp_reasonCodes lines')) in
      (lines', unique_reasons ((case reasonCodes of None \<Rightarrow> [] | Some rs \<Rightarrow> rs) @ lineReasons)))"

section \<open>Amounts as exact numbers\<close>

lemma big_int_from:
  "foldl (\<lambda>n c. 10 * n + digit_of c) a ds = a * 10 ^ length ds + foldl (\<lambda>n c. 10 * n + digit_of c) 0 ds"
proof (induction ds arbitrary: a)
  case (Cons c ds)
  show ?case
    using Cons [of "10 * a + digit_of c"] Cons [of "digit_of c"] by (simp add: algebra_simps)
qed simp

lemma big_int_append: "big_int (a @ b) = big_int a * 10 ^ length b + big_int b"
  unfolding big_int_def foldl_append by (rule big_int_from)

lemma big_int_zeros: "big_int (replicate n (CHR ''0'')) = 0"
  by (induction n) (simp_all add: big_int_def digit_of_def of_char_def)

definition exact_amount :: "string \<times> string \<Rightarrow> rat" where
  "exact_amount p = of_nat (big_int (fst p)) + of_nat (big_int (snd p)) / 10 ^ length (snd p)"

text \<open>Minor units are the amount times a power of ten.\<close>

lemma minor_units_exact:
  "minor_units v e = Some m \<longleftrightarrow>
     (\<exists>p. decimal_parts v = Some p \<and> length (snd p) \<le> e \<and> of_nat m = exact_amount p * 10 ^ e)"
proof -
  have "of_nat (big_int (w @ f @ replicate (e - length f) (CHR ''0''))) = exact_amount (w, f) * (10 :: rat) ^ e"
    if "length f \<le> e" for w f
  proof -
    have "(10 :: rat) ^ e = 10 ^ (e - length f) * 10 ^ length f" using that by (simp flip: power_add)
    then show ?thesis using that by (simp add: big_int_append big_int_zeros exact_amount_def algebra_simps)
  qed
  then show ?thesis
    by (auto simp: minor_units_def not_less split: option.splits) (metis of_nat_eq_iff fst_conv snd_conv)+
qed

end
