(* ===== verification/Price_Properties.thy ===== *)
theory Price_Properties
  imports Price_Comparison
begin

text \<open>
  The property of the comparison of prices.
\<close>

text \<open>A price that can be read: a decimal without a sign and with at most the digits its currency has.\<close>

definition reads_as :: "intl \<Rightarrow> string option \<Rightarrow> string option \<Rightarrow> string \<Rightarrow> rat \<Rightarrow> bool" where
  "reads_as J price currency c a \<longleftrightarrow> (\<exists>v e p. price = Some v \<and> currency = Some c \<and> currency_exponent J c = Some e \<and>
     decimal_parts v = Some p \<and> length (snd p) \<le> e \<and> a = exact_amount p)"

lemma minor_of_exact:
  "minor_of (exponent_of J currency) price = Some m \<longleftrightarrow>
     (\<exists>c e a. currency = Some c \<and> currency_exponent J c = Some e \<and> reads_as J price currency c a \<and> of_nat m = a * 10 ^ e)"
  by (auto simp: minor_of_def exponent_of_def minor_units_exact reads_as_def split: option.splits)

lemma reads_as_minor:
  assumes "reads_as J price currency c a" "currency_exponent J c = Some e"
  obtains m where "minor_of (exponent_of J currency) price = Some m" "of_nat m = a * 10 ^ e" "currency = Some c"
proof -
  from assms obtain v p where v: "price = Some v" "currency = Some c" "decimal_parts v = Some p" "length (snd p) \<le> e"
    "a = exact_amount p" by (auto simp: reads_as_def)
  then obtain m where "minor_units v e = Some m"
    by (cases p) (auto simp: minor_units_def not_less)
  moreover from this v have "of_nat m = a * 10 ^ e" by (simp add: minor_units_exact)
  ultimately show ?thesis using v assms(2) by (intro that [of m]) (simp_all add: minor_of_def exponent_of_def)
qed

lemma add_reason_mem [simp]: "x \<in> set (add_reason reason rs) \<longleftrightarrow> x = reason \<or> x \<in> set rs"
  by (auto simp: add_reason_def)

lemma add_reason_if_mem [simp]: "x \<in> set (add_reason_if b reason rs) \<longleftrightarrow> b \<and> x = reason \<or> x \<in> set rs"
  by (simp add: add_reason_if_def)

lemma observation_reasons_not:
  "''CATALOGUE_PRICE_DIFFERENCE'' \<notin> set (observation_reasons J x)" "''CURRENCY_MISMATCH'' \<notin> set (observation_reasons J x)"
  "''PRICE_CONTEXT_UNVERIFIED'' \<in> set (observation_reasons J x)"
  by (simp_all add: observation_reasons_def Let_def)

lemma both_read:
  assumes "reads_as J price currency c a" "reads_as J price' currency' c b"
  obtains m n e where "minor_of (exponent_of J currency) price = Some m" "minor_of (exponent_of J currency') price' = Some n"
    "currency = currency'" "of_nat m = a * 10 ^ e" "of_nat n = b * 10 ^ e"
proof -
  from assms(1) obtain e where e: "currency_exponent J c = Some e" by (auto simp: reads_as_def)
  from reads_as_minor [OF assms(1) e] reads_as_minor [OF assms(2) e] that show ?thesis by metis
qed

lemma both_minor:
  assumes "minor_of (exponent_of J currency) price = Some m" "minor_of (exponent_of J currency) price' = Some n"
  obtains c a b where "reads_as J price currency c a" "reads_as J price' currency c b" "m = n \<longleftrightarrow> a = b"
proof -
  from assms(1) obtain c e a where m: "currency = Some c" "currency_exponent J c = Some e"
    "reads_as J price currency c a" "of_nat m = a * 10 ^ e" unfolding minor_of_exact by blast
  from assms(2) obtain b where n: "reads_as J price' currency c b" "of_nat n = b * 10 ^ e"
    using m(1,2) unfolding minor_of_exact by auto
  have "(of_nat m :: rat) = of_nat n \<longleftrightarrow> a = b" using m(4) n(2) by simp
  then have "m = n \<longleftrightarrow> a = b" by simp
  with m(3) n(1) show ?thesis by (rule that)
qed

lemma comparison_minor:
  fixes J x
  defines "m \<equiv> minor_of (exponent_of J (px_checkoutCurrency x)) (px_checkoutUnitPrice x)"
  defines "n \<equiv> minor_of (exponent_of J (px_catalogueCurrency x)) (px_catalogueUnitPrice x)"
  shows "px_comparison (compare_observed_line_prices J x) = EQUAL \<longleftrightarrow>
      (\<exists>a. m = Some a \<and> n = Some a) \<and> px_checkoutCurrency x = px_catalogueCurrency x"
    and "px_comparison (compare_observed_line_prices J x) = DIFFERENT \<longleftrightarrow>
      (\<exists>a b. m = Some a \<and> n = Some b \<and> a \<noteq> b) \<and> px_checkoutCurrency x = px_catalogueCurrency x"
  by (auto simp: compare_observed_line_prices_def Let_def m_def n_def)

lemma comparison_equal:
  "px_comparison (compare_observed_line_prices J x) = EQUAL \<longleftrightarrow>
     (\<exists>c a. reads_as J (px_checkoutUnitPrice x) (px_checkoutCurrency x) c a \<and>
            reads_as J (px_catalogueUnitPrice x) (px_catalogueCurrency x) c a)" (is "_ \<longleftrightarrow> (\<exists>c a. ?R c a \<and> ?S c a)")
proof
  assume "px_comparison (compare_observed_line_prices J x) = EQUAL"
  then show "\<exists>c a. ?R c a \<and> ?S c a" unfolding comparison_minor(1) by (metis both_minor)
next
  assume "\<exists>c a. ?R c a \<and> ?S c a"
  then obtain c a where ca: "?R c a" "?S c a" by blast
  from both_read [OF ca] show "px_comparison (compare_observed_line_prices J x) = EQUAL"
    unfolding comparison_minor(1) by (metis of_nat_eq_iff)
qed

lemma comparison_different:
  "px_comparison (compare_observed_line_prices J x) = DIFFERENT \<longleftrightarrow>
     (\<exists>c a b. a \<noteq> b \<and> reads_as J (px_checkoutUnitPrice x) (px_checkoutCurrency x) c a \<and>
              reads_as J (px_catalogueUnitPrice x) (px_catalogueCurrency x) c b)" (is "_ \<longleftrightarrow> (\<exists>c a b. a \<noteq> b \<and> ?R c a \<and> ?S c b)")
proof
  assume "px_comparison (compare_observed_line_prices J x) = DIFFERENT"
  then show "\<exists>c a b. a \<noteq> b \<and> ?R c a \<and> ?S c b" unfolding comparison_minor(2) by (metis both_minor)
next
  assume "\<exists>c a b. a \<noteq> b \<and> ?R c a \<and> ?S c b"
  then obtain c a b where ab: "a \<noteq> b" "?R c a" "?S c b" by blast
  from both_read [OF ab(2,3)] ab(1) show "px_comparison (compare_observed_line_prices J x) = DIFFERENT"
    unfolding comparison_minor(2) by (metis of_nat_eq_iff mult_right_cancel power_not_zero zero_neq_numeral)
qed

text \<open>
  C40. Prices are compared exactly, without rounding: two prices are equal exactly when both are decimals in the
  same known currency, with no more fractional digits than it has, and are the same rational number, and they are
  different exactly when they are two different ones; everything else is not compared. The reason of a
  difference is given exactly for a difference, and that the context is unverified always.
\<close>

theorem price_comparison_is_exact:
  "(px_comparison (compare_observed_line_prices J x) = EQUAL \<longleftrightarrow>
     (\<exists>c a. reads_as J (px_checkoutUnitPrice x) (px_checkoutCurrency x) c a \<and>
            reads_as J (px_catalogueUnitPrice x) (px_catalogueCurrency x) c a)) \<and>
   (px_comparison (compare_observed_line_prices J x) = DIFFERENT \<longleftrightarrow>
     (\<exists>c a b. a \<noteq> b \<and> reads_as J (px_checkoutUnitPrice x) (px_checkoutCurrency x) c a \<and>
              reads_as J (px_catalogueUnitPrice x) (px_catalogueCurrency x) c b)) \<and>
   (''CATALOGUE_PRICE_DIFFERENCE'' \<in> set (px_reasonCodes (compare_observed_line_prices J x)) \<longleftrightarrow>
     px_comparison (compare_observed_line_prices J x) = DIFFERENT) \<and>
   ''PRICE_CONTEXT_UNVERIFIED'' \<in> set (px_reasonCodes (compare_observed_line_prices J x))"
  unfolding comparison_equal [symmetric] comparison_different [symmetric]
  by (auto simp: compare_observed_line_prices_def observation_reasons_not Let_def)

end
