(* ===== verification/Spec2Isabelle.thy ===== *)
theory Spec2Isabelle
  imports Reservation_Properties Delivery_Properties Period_Properties Purchase_Properties Status_Properties
    Wrapper_Properties Inbound_Properties Knowledge_Properties Outbound_Properties
    Lease_Properties Publisher_Properties Price_Properties
begin

text \<open>
  The background service of a recovery and messaging product, modelled from its TypeScript sources under
  \<open>src/\<close>: how a shop's right to start a recovery conversation is paid for, held, spent and given back; what the
  reports of the message provider change; which messages are admitted, inbound and outbound, and how an outbound
  message is sent; how replies are wrapped; how the texts of merchant knowledge are prepared; and how the background
  jobs of many processes share leases.

  \<^bold>\<open>Credits.\<close> A recovery is paid by one credit of one of four sources: the lifetime free allowance of the shop, credit
  packs it has bought, the credits a paid plan includes in a billing period, and a promotional grant. Each source has a
  reservation service with the operations reserve, commit, release and mark ambiguous. The recovery billing service
  chooses the source, and later commits or releases the credit, or leaves it ambiguous when it is unknown whether the
  provider acted.

  \<^item> \<open>Prelude\<close>: JavaScript numbers as the services validate them, strings, JSON values, the errors they throw,
    database tables as lists of rows with the query forms the services use, sums over tables.
  \<^item> \<open>Store\<close>: the rows the services read and write, one record per Prisma model, and the database as a record of tables.
  \<^item> \<open>Reservation_Lifecycle\<close>: \<open>services/recovery-reservation/reservation-lifecycle.ts\<close>, with the retry loop around a
    serializable transaction.
  \<^item> \<open>Billing_Policy\<close>: the effective and the post-contract billing policy of a shop and its outbound limits
    (\<open>effective-billing-policy.service.ts\<close>, \<open>post-contract-recovery-policy.service.ts\<close>, \<open>billing-policy/outbound-limits.ts\<close>).
  \<^item> \<open>Ledger\<close>: the invariant \<open>ledger_ok\<close> of the whole database, and the changes that keep it.
  \<^item> \<open>Reservation_Common\<close>: the steps the four reservation services share. \<open>Free_Reservation\<close>, \<open>Purchased_Reservation\<close>,
    \<open>Paid_Included_Reservation\<close>, \<open>Promotional_Reservation\<close>: the four services, each with all its operations, the public
    methods that validate and retry, and the proof that every operation keeps the ledger.
  \<^item> \<open>Credit_Source\<close>: the locale \<open>credit_source\<close>, the contract of a source, interpreted on the four services.
  \<^item> \<open>Recovery_Billing\<close>: \<open>recovery-billing.service.ts\<close> and the admission and lifecycle services it is made of.
    \<open>Reservation_Properties\<close> holds the properties, \<open>Example_Store\<close> a small database on which they are applied.

  \<^bold>\<open>Failed deliveries.\<close>

  \<^item> \<open>Delivery_Compensation\<close>: \<open>recovery-delivery-compensation/*\<close> and \<open>domain/whatsapp-recipient-failure.ts\<close>: the lineage
    of a failed automated message, the evidence of the failure, and the correction of the credit that was committed for
    it. \<open>Delivery_Ledger\<close>: the correction of each source keeps the ledger and restores the account.
    \<open>Delivery_Reconcile\<close>: what the services before the correction guarantee, and that the whole reconciliation keeps the
    ledger. \<open>Delivery_Replay\<close>: a second notification of the same failure finds the correction and changes nothing.
    \<open>Delivery_Properties\<close>: the properties.
  \<^item> \<open>Provider_Status\<close>: \<open>whatsapp-provider-status.service.ts\<close> and \<open>whatsapp-provider-status-lifecycle.ts\<close>: the state machine of a
    message under the reports of the provider, the columns it writes and the usage it counts.
  \<^item> \<open>Recipient_Reachability\<close>: \<open>recipient-reachability-store.ts\<close> and the services that record failures and successes of
    a recipient. \<open>Delivery_Notice\<close>: the notice to the merchant (\<open>recovery-delivery-*-notification*.ts\<close>,
    \<open>recovery-delivery-support-message.service.ts\<close>) and the job that runs all stages for one report.
    \<open>Status_Properties\<close>: the properties of the three.

  \<^bold>\<open>Billing periods and purchases.\<close>

  \<^item> \<open>Billing_Periods\<close>, \<open>Period_Transitions\<close>, \<open>Period_Projection\<close>: closing a billing period, the renewal of the same plan,
    the change of plan, and the projection of the current period and its counters
    (\<open>billing-period-transition/*\<close>, \<open>same-plan-billing-period-rollover.service.ts\<close>,
    \<open>shopify-plan-change-transition.service.ts\<close>, \<open>current-billing-period-projection.service.ts\<close>). \<open>Period_Properties\<close>: the
    properties.
  \<^item> \<open>Purchase_Pool\<close>, \<open>Refund_Completion\<close>: the credit packs of a shop and the completion of a refund
    (\<open>recovery-credit-refund-correction/*\<close>). \<open>Woo_Receipts\<close>, \<open>Woo_Charges\<close>, \<open>Woo_Refunds\<close>: the receipts of WooCommerce
    charges and refunds, one by one and in batches of at most 50 (\<open>woocommerce-billing/*\<close>). \<open>Purchase_Properties\<close>: the
    properties.
  \<^item> \<open>Usage_Publisher\<close>: \<open>shopify-usage-event-publisher.service.ts\<close>: what was used is reported to Shopify, which charges for
    it. A publisher is a state machine whose steps are its statements and its calls; \<open>publishing_moves\<close> interleaves any
    number of them with the code that records usage and closes periods. \<open>Publisher_Invariant\<close>: what is reachable;
    \<open>Publisher_Batch\<close>: what a batch that nothing disturbs does. \<open>Publisher_Properties\<close>: the properties.
  \<^item> \<open>Price_Comparison\<close>: \<open>recovery-pricing/price-comparison.ts\<close>: the comparison of the prices of a checkout with those of the
    catalogue. \<open>Price_Properties\<close>: that it is exact.

  \<^bold>\<open>Messages.\<close>

  \<^item> \<open>Conversation_Wrapper\<close>: \<open>conversation-wrappers/*\<close>: the projection of a template, the choice of slot and language, the
    rendering around a response, the replay of a kept result, and the composition of an AI reply over the locale
    \<open>reply_wrapper_contract\<close>, interpreted on the service. \<open>Wrapper_Properties\<close>: the properties.
  \<^item> \<open>Runtime_Config\<close>: \<open>runtime/background-runtime-config.ts\<close>: the validation of the configuration and the service that refreshes
    it, as a step relation. \<open>Inbound_Admission\<close>: \<open>inbound-whatsapp-abuse-admission.service.ts\<close>: the sliding windows of
    inbound messages in Redis, against the histories of their keys. \<open>Inbound_Properties\<close>: the properties of both.
  \<^item> \<open>Knowledge_Text\<close>: \<open>merchant-knowledge-normalization.ts\<close> and \<open>merchant-knowledge-chunking.ts\<close>. \<open>Knowledge_Properties\<close>: the
    properties.

  \<^bold>\<open>Outbound messages.\<close> An automated message is reserved as a pending row with one usage event, checked and moderated,
  given a permit in a last short transaction, handed to the provider and then marked as sent.

  \<^item> \<open>Outbound_Admission\<close>: \<open>outbound-whatsapp-admission/outbound-admission-*.service.ts\<close>, \<open>failed-outreach-admission.ts\<close>: the
    reservation with its policy, the limit of a conversation and the idempotency fence, and the lookup of the initial message
    of a recovery. The invariant \<open>outbound_ok\<close> is the limit.
  \<^item> \<open>Outbound_Fence\<close>: \<open>general-outbound-send-fence.service.ts\<close> and, for the texts of automated senders,
    \<open>recovery-conversation/outbound-send-fence.service.ts\<close>, with what they read. The locale \<open>send_fence\<close> says what a fence
    promises (a permit is written on a pending row that had none) and is interpreted on both.
  \<^item> \<open>Outbound_Failure\<close>: \<open>outbound-provider-failure.service.ts\<close>: taking a message back, recording a refusal.
  \<^item> \<open>Outbound_Delivery\<close>: \<open>outbound-message-delivery.service.ts\<close>: the steps of a send and the step relation \<open>send_step\<close> of any
    number of sends, reservations and other transactions; what is reachable has called the provider at most once per message.
    \<open>is_sendable\<close> lists all that can speak against a send, through either fence.
  \<^item> \<open>Outbound_Initial\<close>: an initial message from its admission to its end, as its lookup sees it. \<open>Outbound_Properties\<close>: the
    properties.

  \<^bold>\<open>Background jobs.\<close> Every periodic job runs under a lease, so that one process runs it at a time.

  \<^item> \<open>Runtime_Lease\<close>: \<open>runtime/background-runtime-lease.ts\<close>: acquiring, extending and releasing a lease, the run with a lease as
    a state machine, and the step relation \<open>lease_moves\<close> of any number of processes. \<open>Lease_Invariant\<close>: who holds a lease and
    who has lost it, by rule induction, and how far apart the runs are.
  \<^item> \<open>Leased_Scheduler\<close>: \<open>runtime/dynamic-leased-scheduler.ts\<close>: one scheduler among the processes. \<open>Lease_Properties\<close>: the
    properties of both.

  \<^bold>\<open>State and concurrency.\<close> A transaction body is a function from the database to a result and the database after it; it
  runs in one piece. For the services that ask for it the database provides this: the transactions of the reservations,
  of the compensation, of the provider's status reports, of the reservation of an outbound message and of the charge and
  refund receipts are serializable. For the others it is an assumption of the model:
  \<open>same-plan-billing-period-rollover.service.ts\<close>, \<open>shopify-plan-change-transition.service.ts\<close>,
  \<open>recovery-credit-refund-correction/refund-completion.service.ts\<close>, \<open>markSent\<close> of
  \<open>outbound-message-delivery.service.ts\<close>, \<open>outbound-provider-failure.service.ts\<close>,
  \<open>recovery-conversation/outbound-send-fence.service.ts\<close> and \<open>recovery-delivery-support-message.service.ts\<close> set no
  isolation level, so they run under the default of the database, and \<open>general-outbound-send-fence.service.ts\<close> asks for
  read committed. They guard what they write by row locks or by conditions in the update whose count is checked, which
  the model keeps; that another transaction commits between two of their reads is not shown. What happens between the attempts of one call
  is an environment \<open>env\<close>: other transactions change the database by \<open>env_step\<close>, an attempt may be aborted with an error of
  the database (\<open>env_abort\<close>), and the clock and fresh ids are read from it. The theorems hold for every environment whose
  steps keep the ledger (\<open>env_ok\<close>). The optimistic guards of the code (\<open>updateMany\<close> with the version and amounts read
  before, whose count is checked) are kept as they are. A job with several stages has an environment for every stage; what a
  query reads under \<open>FOR UPDATE SKIP LOCKED\<close> is narrowed by the rows other transactions have locked, a parameter. A Redis script
  runs in one piece at one time of the server; the call may fail before or after it has run. A send is not one transaction
  but eight and more, with calls of the moderation and the provider between them; it is a state machine whose steps are the
  transactions, and a process may die at every one; so are a publisher of usage and a run with a lease.

  \<^bold>\<open>Retries and loops.\<close> The retry loops of the reservation services run at most \<open>maxRetries\<close> attempts (3 by default), those of
  the delivery compensation and of the status reports at most 3, by recursion on the number of attempts left; the batches claim at
  most their limit, which is cut to 50. The chunking loop is a \<open>partial_function\<close>, shown to end for every text. No definition
  has a fuel that could run out.

  \<^bold>\<open>Parameters.\<close> The shared package (\<open>@modainteract/...\<close>) is not in the repository. Its functions are the fields of the records
  \<open>shared\<close>, \<open>js_library\<close>, \<open>status_library\<close>, \<open>wrapper_library\<close>, \<open>outbound_library\<close> and \<open>intl\<close>, as are the functions of the runtime that are not modelled (\<open>JSON.stringify\<close>, the
  collation of \<open>localeCompare\<close>, \<open>Intl\<close>, NFC, SHA-256); each is a parameter of the definitions that use it. Decimals are coefficients over
  powers of ten. Strings are lists of one-byte characters, except for the texts of merchant knowledge, which are lists of code
  points.

  \<^bold>\<open>Not modelled\<close>: logging and metrics; the HTTP client of Shopify under \<open>src/providers\<close>, which the publisher calls: it may
  post an event a second time after a refused token, and writes its value in canonical form, while a call of the model is
  one call of \<open>createBillingEvent\<close>; what the repository of the wrapper templates reads (that a read may throw is a value of
  the model); what the jobs under a lease do with it, apart from the services above; \<open>Json\<close> columns the modelled code only stores; the timer of the configuration service; the
  notice an exhausted admission posts; the sending of templates and the branches of the recovery fence for templates and for the
  commands of a merchant; the workers that take the jobs from the queues; and the parts of the repository the
  manifest lists as not modelled, with the reason for each.
\<close>

end
